(* ===== verification/Prelude.thy ===== *)
theory Prelude
  imports Main "HOL-Library.List_Lexorder" "HOL-Library.Char_ord" "HOL-Library.Sublist"
begin

text \<open>
  Shared vocabulary of the development.

  A Rust \<^verbatim>\<open>str\<close> is its UTF-8 byte sequence, a HOL \<^typ>\<open>string\<close>: \<^const>\<open>length\<close> is
  \<^verbatim>\<open>str::len\<close> and byte indices are Rust's byte indices. A \<^verbatim>\<open>Result<T, E>\<close> is a sum
  with \<^const>\<open>Inl\<close> for the error; \<open>try_bind\<close> is the \<^verbatim>\<open>?\<close> operator and \<open>try_fold\<close> a
  \<^verbatim>\<open>for\<close> loop whose body may return early with an error. A \<^verbatim>\<open>BTreeSet\<close> is a sorted list
  without duplicates (\<^const>\<open>insort_insert\<close> is its insert), a \<^verbatim>\<open>BTreeMap\<close> that is only looked
  up is a HOL map, one that is iterated is an association list sorted by key.
\<close>

named_theorems result_simps \<open>rewrite rules that open a successful result\<close>
named_theorems error_code_simps \<open>the error code of each error constructor of the model\<close>

type_synonym str = string
type_synonym bytes = "nat list"
type_synonym ('e, 'a) result = "'e + 'a"

subsection \<open>Machine integers\<close>

definition u32_max :: nat where "u32_max = 4294967295"
definition u64_max :: nat where "u64_max = 18446744073709551615"

text \<open>\<^verbatim>\<open>u64::checked_add\<close> and \<^verbatim>\<open>u32::checked_add\<close>: \<open>None\<close> on overflow.\<close>

definition checked_add_u64 :: "nat \<Rightarrow> nat \<Rightarrow> nat option" where
  "checked_add_u64 a b = (if a + b \<le> u64_max then Some (a + b) else None)"

definition checked_add_u32 :: "nat \<Rightarrow> nat \<Rightarrow> nat option" where
  "checked_add_u32 a b = (if a + b \<le> u32_max then Some (a + b) else None)"

definition saturating_add_u64 :: "nat \<Rightarrow> nat \<Rightarrow> nat" where
  "saturating_add_u64 a b = min (a + b) u64_max"

lemma checked_add_u64_Some [simp]:
  "checked_add_u64 a b = Some c \<longleftrightarrow> c = a + b \<and> c \<le> u64_max"
  by (auto simp: checked_add_u64_def)

lemma checked_add_u32_Some [simp]:
  "checked_add_u32 a b = Some c \<longleftrightarrow> c = a + b \<and> c \<le> u32_max"
  by (auto simp: checked_add_u32_def)

subsection \<open>Results\<close>

definition try_bind :: "('e, 'a) result \<Rightarrow> ('a \<Rightarrow> ('e, 'b) result) \<Rightarrow> ('e, 'b) result" where
  "try_bind r f = (case r of Inl e \<Rightarrow> Inl e | Inr a \<Rightarrow> f a)"

lemma try_bind_simps [simp]:
  "try_bind (Inl e) f = Inl e" "try_bind (Inr a) f = f a"
  by (simp_all add: try_bind_def)

lemma try_bind_Inr [result_simps]:
  "try_bind r f = Inr y \<longleftrightarrow> (\<exists>x. r = Inr x \<and> f x = Inr y)"
  by (cases r) auto

lemma try_bind_Inl [result_simps]:
  "try_bind r f = Inl e \<longleftrightarrow> r = Inl e \<or> (\<exists>x. r = Inr x \<and> f x = Inl e)"
  by (cases r) auto

definition ok_or :: "'e \<Rightarrow> 'a option \<Rightarrow> ('e, 'a) result" where
  "ok_or e x = (case x of None \<Rightarrow> Inl e | Some a \<Rightarrow> Inr a)"

lemma ok_or_Inr [simp]: "ok_or e x = Inr a \<longleftrightarrow> x = Some a"
  by (cases x) (auto simp: ok_or_def)

lemma ok_or_Inl [simp]: "ok_or e x = Inl e' \<longleftrightarrow> x = None \<and> e' = e"
  by (cases x) (auto simp: ok_or_def)

lemma ok_or_simps [simp]: "ok_or e None = Inl e" "ok_or e (Some a) = Inr a"
  by (simp_all add: ok_or_def)

fun is_ok :: "('e, 'a) result \<Rightarrow> bool" where
  "is_ok (Inr _) = True"
| "is_ok (Inl _) = False"

lemma is_ok_iff: "is_ok r \<longleftrightarrow> (\<exists>x. r = Inr x)"
  by (cases r) auto

text \<open>A \<^verbatim>\<open>for\<close> loop with early return.\<close>

fun try_fold :: "('a \<Rightarrow> 's \<Rightarrow> ('e, 's) result) \<Rightarrow> 'a list \<Rightarrow> 's \<Rightarrow> ('e, 's) result" where
  "try_fold f [] s = Inr s"
| "try_fold f (x # xs) s = try_bind (f x s) (\<lambda>s'. try_fold f xs s')"

text \<open>A loop that only checks: the body's state is trivial.\<close>

definition try_all :: "('a \<Rightarrow> ('e, unit) result) \<Rightarrow> 'a list \<Rightarrow> ('e, unit) result" where
  "try_all f xs = try_fold (\<lambda>x _. f x) xs ()"

text \<open>\<^verbatim>\<open>iter().map(f).collect::<Result<Vec<_>, _>>()\<close>\<close>

fun try_map :: "('a \<Rightarrow> ('e, 'b) result) \<Rightarrow> 'a list \<Rightarrow> ('e, 'b list) result" where
  "try_map f [] = Inr []"
| "try_map f (x # xs) = try_bind (f x) (\<lambda>y. try_bind (try_map f xs) (\<lambda>ys. Inr (y # ys)))"

lemma try_fold_append:
  "try_fold f (xs @ ys) s = try_bind (try_fold f xs s) (\<lambda>s'. try_fold f ys s')"
  by (induction xs arbitrary: s) (auto simp: try_bind_def split: sum.splits)

lemma try_fold_invariant:
  assumes "try_fold f xs s = Inr s'" and "I s"
    and "\<And>x s s'. x \<in> set xs \<Longrightarrow> I s \<Longrightarrow> f x s = Inr s' \<Longrightarrow> I s'"
  shows "I s'"
  using assms by (induction xs arbitrary: s) (auto simp: result_simps)

lemma try_fold_error_invariant:
  assumes "try_fold f xs s = Inl e" and "I s"
    and "\<And>x s s'. x \<in> set xs \<Longrightarrow> I s \<Longrightarrow> f x s = Inr s' \<Longrightarrow> I s'"
  shows "\<exists>x t. x \<in> set xs \<and> I t \<and> f x t = Inl e"
  using assms
proof (induction xs arbitrary: s)
  case (Cons x xs)
  show ?case
  proof (cases "f x s")
    case (Inl e')
    with Cons.prems(1,2) show ?thesis by auto
  next
    case (Inr t)
    with Cons.prems have "try_fold f xs t = Inl e" "I t" by auto
    from Cons.IH [OF this] Cons.prems(3) show ?thesis by (meson list.set_intros(2))
  qed
qed simp

lemma try_all_Nil [simp]: "try_all f [] = Inr ()"
  by (simp add: try_all_def)

lemma try_all_Cons [simp]: "try_all f (x # xs) = try_bind (f x) (\<lambda>_. try_all f xs)"
  by (simp add: try_all_def)

lemma try_all_Inr [result_simps]:
  "try_all f xs = Inr u \<longleftrightarrow> (\<forall>x \<in> set xs. f x = Inr ())"
  by (induction xs) (auto simp: result_simps)

lemma try_all_Inl:
  "try_all f xs = Inl e \<Longrightarrow> \<exists>x \<in> set xs. f x = Inl e"
  by (induction xs) (auto simp: result_simps)

lemma try_map_Inr [result_simps]:
  "try_map f xs = Inr ys \<longleftrightarrow>
     length ys = length xs \<and> (\<forall>i < length xs. f (xs ! i) = Inr (ys ! i))"
proof (induction xs arbitrary: ys)
  case (Cons x xs)
  show ?case
    by (cases ys) (auto simp: result_simps Cons.IH nth_Cons split: nat.splits)
qed auto

subsection \<open>Panics and fuel\<close>

text \<open>
  How a computation can fail to return a value: with an error of the code, with a panic
  (\<^verbatim>\<open>expect\<close>), or, in a model with fuel, by running out of it. The last two are values, so
  that their absence is a theorem.
\<close>

datatype 'e abort = Fail 'e | Panic | OutOfFuel

definition expect :: "'a option \<Rightarrow> ('e abort, 'a) result" where
  "expect x = ok_or Panic x"

definition lift_fail :: "('e, 'a) result \<Rightarrow> ('e abort, 'a) result" where
  "lift_fail r = (case r of Inl e \<Rightarrow> Inl (Fail e) | Inr a \<Rightarrow> Inr a)"

lemma lift_fail_simps [simp]: "lift_fail (Inl e) = Inl (Fail e)" "lift_fail (Inr a) = Inr a"
  by (simp_all add: lift_fail_def)

lemma lift_fail_Inr [simp]: "lift_fail r = Inr a \<longleftrightarrow> r = Inr a"
  by (cases r) auto

lemma lift_fail_Inl [simp]: "lift_fail r = Inl e \<longleftrightarrow> (\<exists>e'. e = Fail e' \<and> r = Inl e')"
  by (cases r) auto

lemma expect_simps [simp]: "expect (Some a) = Inr a" "expect None = Inl Panic"
  by (simp_all add: expect_def)

lemma expect_Inr [simp]: "expect x = Inr a \<longleftrightarrow> x = Some a"
  by (simp add: expect_def)

subsection \<open>Bytes and ASCII\<close>

abbreviation code :: "char \<Rightarrow> nat" where "code c \<equiv> of_char c"

definition is_ascii_digit :: "char \<Rightarrow> bool" where
  "is_ascii_digit c \<longleftrightarrow> 48 \<le> code c \<and> code c \<le> 57"
definition is_ascii_upper :: "char \<Rightarrow> bool" where
  "is_ascii_upper c \<longleftrightarrow> 65 \<le> code c \<and> code c \<le> 90"
definition is_ascii_lower :: "char \<Rightarrow> bool" where
  "is_ascii_lower c \<longleftrightarrow> 97 \<le> code c \<and> code c \<le> 122"
definition is_ascii_alphabetic :: "char \<Rightarrow> bool" where
  "is_ascii_alphabetic c \<longleftrightarrow> is_ascii_upper c \<or> is_ascii_lower c"
definition is_ascii_alphanumeric :: "char \<Rightarrow> bool" where
  "is_ascii_alphanumeric c \<longleftrightarrow> is_ascii_alphabetic c \<or> is_ascii_digit c"

text \<open>\<^verbatim>\<open>is_ascii_whitespace\<close>: space, tab, line feed, form feed, carriage return.\<close>

definition is_ascii_whitespace :: "char \<Rightarrow> bool" where
  "is_ascii_whitespace c \<longleftrightarrow> code c \<in> {9, 10, 12, 13, 32}"

definition to_ascii_lower :: "char \<Rightarrow> char" where
  "to_ascii_lower c = (if is_ascii_upper c then char_of (code c + 32) else c)"
definition to_ascii_upper :: "char \<Rightarrow> char" where
  "to_ascii_upper c = (if is_ascii_lower c then char_of (code c - 32) else c)"

definition to_ascii_lowercase :: "str \<Rightarrow> str" where
  "to_ascii_lowercase s = map to_ascii_lower s"
definition to_ascii_uppercase :: "str \<Rightarrow> str" where
  "to_ascii_uppercase s = map to_ascii_upper s"
definition eq_ignore_ascii_case :: "str \<Rightarrow> str \<Rightarrow> bool" where
  "eq_ignore_ascii_case a b \<longleftrightarrow> to_ascii_lowercase a = to_ascii_lowercase b"

text \<open>
  \<^verbatim>\<open>chars().any(char::is_control)\<close> on the bytes: the scalars U+0000..U+001F and U+007F are one
  byte, U+0080..U+009F are the byte C2 followed by 80..9F.
\<close>

fun has_control :: "str \<Rightarrow> bool" where
  "has_control [] = False"
| "has_control (c # s) \<longleftrightarrow>
     code c < 32 \<or> code c = 127
     \<or> (code c = 194 \<and> (case s of [] \<Rightarrow> False | d # _ \<Rightarrow> 128 \<le> code d \<and> code d \<le> 159))
     \<or> has_control s"

text \<open>
  The byte length of the whitespace scalar (Unicode \<^verbatim>\<open>White_Space\<close>) a string starts with, if
  it starts with one.
\<close>

fun ws_len :: "str \<Rightarrow> nat option" where
  "ws_len [] = None"
| "ws_len (a # s) =
     (if 9 \<le> code a \<and> code a \<le> 13 \<or> code a = 32 then Some 1
      else (case s of
          [] \<Rightarrow> None
        | b # t \<Rightarrow>
            (if code a = 194 \<and> code b \<in> {133, 160} then Some 2
             else (case t of
                 [] \<Rightarrow> None
               | c # _ \<Rightarrow>
                   (if code a = 225 \<and> code b = 154 \<and> code c = 128
                       \<or> code a = 226 \<and> code b = 128 \<and> (128 \<le> code c \<and> code c \<le> 138 \<or> code c \<in> {168, 169, 175})
                       \<or> code a = 226 \<and> code b = 129 \<and> code c = 159
                       \<or> code a = 227 \<and> code b = 128 \<and> code c = 128
                    then Some 3 else None)))))"

lemma ws_len_pos: "ws_len s = Some n \<Longrightarrow> 0 < n \<and> n \<le> length s"
  by (cases s; cases "tl s"; cases "tl (tl s)") (auto split: if_splits)

text \<open>\<^verbatim>\<open>chars().any(char::is_whitespace)\<close>\<close>

fun has_whitespace :: "str \<Rightarrow> bool" where
  "has_whitespace [] = False"
| "has_whitespace (c # s) \<longleftrightarrow> ws_len (c # s) \<noteq> None \<or> has_whitespace s"

text \<open>\<^verbatim>\<open>str::trim\<close>: leading and trailing whitespace scalars removed.\<close>

function trim_start :: "str \<Rightarrow> str" where
  "trim_start s = (case ws_len s of None \<Rightarrow> s | Some n \<Rightarrow> trim_start (drop n s))"
  by pat_completeness auto
termination
proof (relation "measure length")
  fix s n assume "ws_len s = Some n"
  then show "(drop n s, s) \<in> measure length"
    using ws_len_pos [of s n] by auto
qed simp

declare trim_start.simps [simp del]

text \<open>The longest suffix to keep: cut where everything that follows is whitespace.\<close>

fun trim_end :: "str \<Rightarrow> str" where
  "trim_end [] = []"
| "trim_end (c # s) = (if trim_start (c # s) = [] then [] else c # trim_end s)"

definition str_trim :: "str \<Rightarrow> str" where
  "str_trim s = trim_end (trim_start s)"

text \<open>
  \<^verbatim>\<open>str::to_lowercase\<close> and \<^verbatim>\<open>to_uppercase\<close>: exact on ASCII text; the case tables beyond ASCII
  are not modelled, such bytes are kept.
\<close>

definition to_lowercase :: "str \<Rightarrow> str" where "to_lowercase = to_ascii_lowercase"
definition to_uppercase :: "str \<Rightarrow> str" where "to_uppercase = to_ascii_uppercase"

definition starts_with :: "str \<Rightarrow> str \<Rightarrow> bool" where
  "starts_with s p \<longleftrightarrow> take (length p) s = p"
definition ends_with :: "str \<Rightarrow> str \<Rightarrow> bool" where
  "ends_with s p \<longleftrightarrow> length p \<le> length s \<and> drop (length s - length p) s = p"
definition strip_prefix :: "str \<Rightarrow> str \<Rightarrow> str option" where
  "strip_prefix s p = (if starts_with s p then Some (drop (length p) s) else None)"

lemma starts_with_iff: "starts_with s p \<longleftrightarrow> (\<exists>t. s = p @ t)"
  unfolding starts_with_def by (metis append_eq_conv_conj append_take_drop_id)

text \<open>\<^verbatim>\<open>str::find\<close> of a pattern: the first byte index at which it starts.\<close>

fun str_find :: "str \<Rightarrow> str \<Rightarrow> nat option" where
  "str_find [] p = (if p = [] then Some 0 else None)"
| "str_find (c # s) p =
     (if starts_with (c # s) p then Some 0 else map_option Suc (str_find s p))"

definition str_contains :: "str \<Rightarrow> str \<Rightarrow> bool" where
  "str_contains s p \<longleftrightarrow> str_find s p \<noteq> None"

text \<open>\<^verbatim>\<open>str::split\<close> at every byte of a set of ASCII separators.\<close>

fun split_on :: "(char \<Rightarrow> bool) \<Rightarrow> str \<Rightarrow> str list" where
  "split_on p [] = [[]]"
| "split_on p (c # s) =
     (if p c then [] # split_on p s
      else (case split_on p s of [] \<Rightarrow> [[c]] | seg # segs \<Rightarrow> (c # seg) # segs))"

lemma split_on_ne [simp]: "split_on p s \<noteq> []"
  by (induction s) (auto split: list.splits)

lemma split_on_no_sep: "seg \<in> set (split_on p s) \<Longrightarrow> c \<in> set seg \<Longrightarrow> \<not> p c"
  by (induction s arbitrary: seg) (fastforce split: if_splits list.splits)+

text \<open>\<^verbatim>\<open>join\<close> of segments with a separator.\<close>

fun join_with :: "str \<Rightarrow> str list \<Rightarrow> str" where
  "join_with sep [] = []"
| "join_with sep [x] = x"
| "join_with sep (x # y # ys) = x @ sep @ join_with sep (y # ys)"

lemma join_with_Cons: "join_with sep (x # ys) = (if ys = [] then x else x @ sep @ join_with sep ys)"
  by (cases ys) auto

lemma split_on_append_sep:
  "p c \<Longrightarrow> \<forall>x \<in> set seg. \<not> p x \<Longrightarrow> split_on p (seg @ c # s) = seg # split_on p s"
  by (induction seg) auto

lemma split_on_single: "\<forall>x \<in> set seg. \<not> p x \<Longrightarrow> split_on p seg = [seg]"
  by (induction seg) auto

text \<open>Splitting a joined list gives the segments back.\<close>

lemma split_join:
  assumes "p c" and "\<forall>seg \<in> set segs. \<forall>x \<in> set seg. \<not> p x" and "segs \<noteq> []"
  shows "split_on p (join_with [c] segs) = segs"
  using assms(2,3)
  by (induction "[c]" segs rule: join_with.induct)
     (auto simp: split_on_single split_on_append_sep assms(1))

text \<open>\<^verbatim>\<open>str::rsplit_once\<close> at a one-byte separator.\<close>

fun rsplit_once :: "char \<Rightarrow> str \<Rightarrow> (str \<times> str) option" where
  "rsplit_once d [] = None"
| "rsplit_once d (c # s) =
     (case rsplit_once d s of
        Some (l, r) \<Rightarrow> Some (c # l, r)
      | None \<Rightarrow> (if c = d then Some ([], s) else None))"

lemma rsplit_once_Some:
  "rsplit_once d s = Some (l, r) \<Longrightarrow> s = l @ d # r \<and> d \<notin> set r"
proof (induction s arbitrary: l)
  case (Cons c s)
  have none: "rsplit_once d s = None \<Longrightarrow> d \<notin> set s" for s
    by (induction s) (auto split: option.splits if_splits)
  show ?case
    using Cons by (auto split: option.splits if_splits dest: none)
qed simp

lemma rsplit_once_append:
  "d \<notin> set r \<Longrightarrow> rsplit_once d (l @ d # r) = Some (l, r)"
proof (induction l)
  case Nil
  then have "rsplit_once d r = None"
    by (induction r) auto
  then show ?case by simp
qed auto

text \<open>Decimal rendering of an unsigned integer (\<^verbatim>\<open>format!("{n}")\<close>).\<close>

fun show_nat :: "nat \<Rightarrow> str" where
  "show_nat n = (if n < 10 then [char_of (48 + n)]
                 else show_nat (n div 10) @ [char_of (48 + n mod 10)])"

declare show_nat.simps [simp del]

lemma code_char_of [simp]: "n < 256 \<Longrightarrow> code (char_of n) = n"
  by (simp add: of_char_of)

lemma show_nat_digits: "c \<in> set (show_nat n) \<Longrightarrow> is_ascii_digit c"
proof (induction n arbitrary: c rule: show_nat.induct)
  case (1 n)
  have *: "is_ascii_digit (char_of (48 + k))" if "k < 10" for k :: nat
    using that by (simp add: is_ascii_digit_def)
  show ?case
    using 1 * [of n] * [of "n mod 10"]
    by (auto simp: show_nat.simps [of n] split: if_splits)
qed

lemma show_nat_ne [simp]: "show_nat n \<noteq> []"
  by (subst show_nat.simps) simp

text \<open>Reading a digit string back: the inverse of \<open>show_nat\<close>.\<close>

definition read_nat :: "str \<Rightarrow> nat" where
  "read_nat s = foldl (\<lambda>a c. 10 * a + (code c - 48)) 0 s"

lemma read_show_nat [simp]: "read_nat (show_nat n) = n"
proof (induction n rule: show_nat.induct)
  case (1 n)
  show ?case
  proof (cases "n < 10")
    case True
    then show ?thesis by (subst show_nat.simps) (simp add: read_nat_def)
  next
    case False
    with 1 have "read_nat (show_nat (n div 10)) = n div 10" by simp
    with False show ?thesis
      by (subst show_nat.simps) (simp add: read_nat_def)
  qed
qed

lemma show_nat_inj: "show_nat a = show_nat b \<Longrightarrow> a = b"
  by (metis read_show_nat)

text \<open>A number below \<open>10\<^sup>k\<close> has at most \<open>k\<close> digits.\<close>

lemma length_show_nat: "n < 10 ^ Suc k \<Longrightarrow> length (show_nat n) \<le> Suc k"
proof (induction k arbitrary: n)
  case 0
  then show ?case by (subst show_nat.simps) simp
next
  case (Suc k)
  show ?case
  proof (cases "n < 10")
    case True
    then show ?thesis by (subst show_nat.simps) simp
  next
    case False
    from Suc.prems have "n div 10 < 10 ^ Suc k"
      by (simp add: less_mult_imp_div_less mult.commute)
    from Suc.IH [OF this] False show ?thesis
      by (subst show_nat.simps) simp
  qed
qed

end
