(* ===== verification/DomainModel.thy ===== *)
theory DomainModel
  imports Prelude
begin

text \<open>
  The wire and domain data of \<^verbatim>\<open>crates/reforge-domain/src/model.rs\<close>: every enum is a datatype
  with the source's constructors (written qualified, as in Rust), every struct a record whose
  fields carry a short prefix because HOL record fields share one name space. The validated
  identifier newtypes of \<^verbatim>\<open>ids.rs\<close> are their strings (theory \<open>Ids\<close> has their grammars).
  Unsigned integers are \<^typ>\<open>nat\<close>, with the machine bound written out where the code checks it;
  a \<^verbatim>\<open>DateTime<Utc>\<close> is its millisecond count and a \<^verbatim>\<open>Url\<close> its text.
\<close>

type_synonym ComponentId = str
type_synonym ObjectId = str
type_synonym RunId = str
type_synonym OperationId = str
type_synonym EvidenceId = str
type_synonym SnapshotId = str
type_synonym ProviderId = str
type_synonym ArtifactId = str
type_synonym Url = str
type_synonym DateTime = nat

text \<open>A \<^verbatim>\<open>serde_json::Value\<close>; an object keeps its entries in order.\<close>

datatype Value =
    Null
  | Bool bool
  | Number int
  | String str
  | Array "Value list"
  | Object "(str \<times> Value) list"

subsection \<open>Components\<close>

datatype ComponentKind =
    Application | Package | Runtime | Tool | Harness | McpServer | Skill | Agent | Hook | Plugin
  | Browser | BrowserProfile | Editor | Extension | Configuration | DataArtifact | SecretReference
  | EnvironmentVariable | SystemFeature | Service | ScheduledTask | Shell | PortableBinary
  | WslDistribution | DockerContext | DockerImage | DockerVolume | Unknown

datatype Confidence = Confirmed | High | Medium | Low | Unknown

datatype Portability =
    Portable | SupportedExport | SyncRestorable | PartiallyPortable | ApplicationBound | UserBound
  | MachineBound | ReauthRequired | Unsupported | Unknown

datatype RestoreStrategy =
    Reinstall | ConfigPortable | DataPortable | ExportImport | PortableBinary | SecretExportable
  | ReauthRequired | MachineBound | Partial | Manual | Unknown

datatype Architecture = X86 | X64 | Arm64 | Neutral | Unknown

datatype AccountScope = User | Machine

datatype ConfigScope = Process | User | System | Project | Managed

datatype KnownFolderToken =
    UserProfile | RoamingAppData | LocalAppData | ProgramData | ProgramFiles | ProgramFilesX86
  | StartMenu | Startup | Desktop | Documents | UserSelected str

record PathToken =
  pt_root :: KnownFolderToken
  pt_relative :: str

datatype ContentType = Utf8Text | Json | Jsonc | Toml | Binary | Archive | Unknown

datatype ArtifactPolicy =
  Config | Data | Export | PortableBinary | LargeOptIn | SecretReference | Manual

record ArtifactRef =
  art_id :: ArtifactId
  art_source_path :: PathToken
  art_scope :: ConfigScope
  art_size_bytes :: nat
  art_content_type :: ContentType
  art_policy :: ArtifactPolicy
  art_object :: "ObjectId option"

datatype IdentityQuality = Provider | PackageFamily | SignedProduct | Product | Local

record Identity =
  idn_provider_package :: "(ProviderId \<times> str) option"
  idn_provider_source :: "str option"
  idn_package_family :: "str option"
  idn_product_name :: "str option"
  idn_executable_name :: "str option"
  idn_publisher :: "str option"
  idn_executable_hash :: "str option"
  idn_install_role :: "str option"
  idn_identity_quality :: IdentityQuality

datatype RiskLevel = Low | Medium | High | Critical

record Publisher =
  pub_name :: str
  pub_certificate_thumbprint :: "str option"

record Provenance =
  prov_provider :: "ProviderId option"
  prov_package_id :: "str option"
  prov_source_url :: "Url option"
  prov_observed_version :: "str option"
  prov_adapter_id :: str
  prov_adapter_version :: str

record EvidenceRef =
  evr_id :: EvidenceId
  evr_strength :: nat

record VersionValue =
  ver_raw :: str
  ver_normalized :: "str option"

datatype DependencyKind =
    RequiredRuntime | RequiredPackage | InstalledThrough | Configures | UsesSecret
  | OptionalFeature | ProvidesExecutable | Contains | RestoresBefore | VerifiesWith | RelatedOnly

record DependencyEdge =
  edge_from :: ComponentId
  edge_to :: ComponentId
  edge_kind :: DependencyKind
  edge_required :: bool
  edge_evidence :: "EvidenceId list"
  edge_confidence :: Confidence

record RestoreDescriptor =
  rd_primary :: RestoreStrategy
  rd_alternatives :: "RestoreStrategy list"
  rd_portability :: Portability
  rd_requires_elevation :: bool
  rd_requires_user_action :: bool
  rd_rationale :: "str list"

record Compatibility =
  cmp_required_os :: "str option"
  cmp_required_architecture :: "Architecture option"
  cmp_requires_provider :: "ProviderId option"
  cmp_requires_runtime :: "ComponentId option"
  cmp_requires_elevation :: bool
  cmp_requires_wsl :: bool
  cmp_requires_docker :: bool

record SelectionMetadata =
  sm_recommended :: bool
  sm_score :: int
  sm_selected_by_default :: bool
  sm_sensitive :: bool
  sm_size_bytes :: nat

subsection \<open>Packages, verification rules and MCP records\<close>

record PackageSpec =
  ps_provider :: ProviderId
  ps_id :: str
  ps_version :: "str option"
  ps_source_name :: "str option"
  ps_source_identifier :: "str option"
  ps_source :: "Url option"
  ps_architecture :: "Architecture option"
  ps_installer_hash :: "str option"

record PackageInstallPolicy =
  pip_accept_source_agreements :: bool
  pip_accept_package_agreements :: bool
  pip_silent :: bool
  pip_allow_reboot :: bool

datatype McpTransport = Stdio | StreamableHttp | Sse | Unknown

record ExecutableRef =
  exe_name :: str
  exe_component :: "ComponentId option"
  exe_observed_path :: "PathToken option"

datatype SafeValueRef =
    LiteralNonSecret str
  | EnvironmentReference str
  | SecretReference ComponentId str
  | RedactedUnknown

record EnvBinding =
  eb_name :: str
  eb_value :: SafeValueRef

type_synonym McpArgument = SafeValueRef

datatype McpWorkingDirectory =
    Tokenized PathToken
  | EnvironmentReference str
  | SecretReference ComponentId str
  | RedactedUnknown

datatype McpEndpoint =
    Public Url
  | EnvironmentReference str
  | SecretReference ComponentId str
  | RedactedUnknown

record McpServerSpec =
  mcp_name :: str
  mcp_scope :: ConfigScope
  mcp_transport :: McpTransport
  mcp_command :: "ExecutableRef option"
  mcp_args :: "McpArgument list"
  mcp_cwd :: "McpWorkingDirectory option"
  mcp_endpoint :: "McpEndpoint option"
  mcp_environment :: "EnvBinding list"
  mcp_required_runtime :: "ComponentId option"
  mcp_required_package :: "PackageSpec option"
  mcp_source_config :: ArtifactRef

datatype VerificationRule =
    ProviderIdentity ProviderId PackageSpec
  | File PathToken "ObjectId option"
  | FileVersion PathToken "VersionValue option" "Publisher option"
  | ConfigParses PathToken ContentType
  | Environment ConfigScope str SafeValueRef
  | McpRegistration str PathToken
  | WslState str "str option"
  | DockerObject ComponentKind str
  | BrowserArtifact PathToken
  | SecureTarget ComponentId

record Component =
  c_id :: ComponentId
  c_kind :: ComponentKind
  c_identity :: Identity
  c_display_name :: str
  c_version :: "VersionValue option"
  c_architecture :: "Architecture option"
  c_publisher :: "Publisher option"
  c_provenance :: "Provenance option"
  c_evidence :: "EvidenceRef list"
  c_confidence :: Confidence
  c_dependencies :: "DependencyEdge list"
  c_artifacts :: "ArtifactRef list"
  c_restore :: RestoreDescriptor
  c_compatibility :: Compatibility
  c_verification :: "VerificationRule list"
  c_selection :: SelectionMetadata
  c_extensions :: "(str \<times> Value) list"

record PackageGraph =
  g_components :: "Component list"
  g_edges :: "DependencyEdge list"

type_synonym ComponentGraph = PackageGraph

subsection \<open>Host and target facts\<close>

record DriveFact =
  df_token :: str
  df_filesystem :: "str option"

record DriveFreeSpace =
  dfs_token :: str
  dfs_bytes :: nat

record HostFacts =
  hf_os_version :: str
  hf_os_build :: str
  hf_architecture :: Architecture
  hf_elevated :: bool
  hf_account_scope :: AccountScope
  hf_sid_fingerprint :: "str option"
  hf_known_folders :: "PathToken list"
  hf_drives :: "DriveFact list"
  hf_free_bytes :: "DriveFreeSpace list"

record InstalledFact =
  if_kind :: ComponentKind
  if_identity :: Identity
  if_version :: "VersionValue option"
  if_publisher :: "Publisher option"
  if_provenance :: "Provenance option"

record ProviderFact =
  pf_id :: ProviderId
  pf_version :: "VersionValue option"
  pf_available :: bool

record RuntimeFact =
  rf_id :: ComponentId
  rf_version :: "VersionValue option"
  rf_architecture :: "Architecture option"

record EnvironmentFact =
  ef_scope :: ConfigScope
  ef_name :: str
  ef_value_hash :: "str option"

record TargetFacts =
  tf_host :: HostFacts
  tf_installed :: "InstalledFact list"
  tf_providers :: "ProviderFact list"
  tf_runtimes :: "RuntimeFact list"
  tf_environment :: "EnvironmentFact list"
  tf_fingerprint :: str

subsection \<open>Package manifests and objects\<close>

record SourceHostSummary =
  shs_os_version :: str
  shs_os_build :: str
  shs_architecture :: Architecture
  shs_known_folder_tokens :: "KnownFolderToken list"

record PackageManifest =
  pm_package_id :: str
  pm_format_version :: nat
  pm_created_at :: DateTime
  pm_source_host :: SourceHostSummary
  pm_required_os :: "str option"
  pm_required_architecture :: "Architecture option"
  pm_component_ids :: "ComponentId list"
  pm_warnings :: "str list"
  pm_object_index_digest :: str

record ObjectEntry =
  oe_id :: ObjectId
  oe_uncompressed_bytes :: nat
  oe_compressed_bytes :: nat
  oe_content_type :: ContentType

record ObjectIndex =
  oi_objects :: "ObjectEntry list"

subsection \<open>Operations and plans\<close>

record RuntimeSpec =
  rs_id :: str
  rs_version :: "str option"
  rs_architecture :: "Architecture option"

record WslSpec =
  wsl_distribution :: str
  wsl_version :: "nat option"

record DockerImageSpec =
  dis_repository :: str
  dis_tag :: "str option"
  dis_image_id :: "str option"

record DockerVolumeSpec =
  dvs_name :: str
  dvs_driver :: "str option"

datatype FileMode = PreserveTarget | Replace | CreateOnly

datatype MergePolicy = PreserveUnknown | ReplaceKnownKeys | AppendUnique | ManualOnConflict

datatype ManualActionState = Pending | Acknowledged | Completed | Skipped

record ManualAction =
  ma_id :: str
  ma_component :: "ComponentId option"
  ma_title :: str
  ma_reason :: str
  ma_risk :: RiskLevel
  ma_instructions :: "str list"
  ma_docs_url :: "Url option"
  ma_state :: ManualActionState
  ma_independent_operations_may_continue :: bool
  ma_acknowledged_at :: "DateTime option"
  ma_verification :: "VerificationRule option"

datatype Precondition =
    Always
  | TargetFingerprint str
  | ComponentAbsent ComponentId
  | ComponentVersion ComponentId "VersionValue option"
  | ArtifactPresent ObjectId
  | ManualApproval str

datatype OperationKind =
    EnsureProvider ProviderId
  | InstallPackage ProviderId PackageSpec PackageInstallPolicy
  | EnsureRuntime RuntimeSpec
  | WriteFile PathToken ObjectId FileMode
  | MergeJson PathToken ObjectId MergePolicy
  | MergeToml PathToken ObjectId MergePolicy
  | SetUserEnvironment str SafeValueRef
  | AppendUserPath "PathToken list"
  | ImportWsl WslSpec ObjectId
  | RestoreDockerImage DockerImageSpec ObjectId
  | RestoreDockerVolume DockerVolumeSpec ObjectId
  | InstallVsCodeExtension str "str option" "str option"
  | RegisterMcp McpServerSpec
  | OpenManualAction ManualAction
  | RequireReboot str
  | Verify VerificationRule

record Operation =
  op_id :: OperationId
  op_component :: ComponentId
  op_kind :: OperationKind
  op_prerequisites :: "OperationId list"
  op_precondition :: Precondition
  op_idempotency_key :: str
  op_verification :: "VerificationRule list"
  op_requires_elevation :: bool
  op_non_idempotent :: bool

datatype RunStatus =
    Planned | WaitingForApproval | Running | WaitingForUser | WaitingForReboot
  | Completed | Partial | Failed | Cancelled | Interrupted

datatype OperationState =
    Pending | Running | Completed | Failed | Skipped
  | WaitingForUser | WaitingForReboot | Interrupted | Cancelled

datatype ApprovalState = Pending | Approved | Rejected

datatype RestoreMode = Rebuild | Migration

datatype ConflictKind =
    AlreadySatisfied | VersionDifference | ConfigDifference | DataCollision | SecretCollision
  | PathCollision | PortCollision | DependencyConflict | ArchitectureConflict | UnsupportedTarget

datatype ConflictResolution = Skip | Install | Replace | Merge | PreserveTarget | Manual

record Conflict =
  cf_id :: str
  cf_component :: "ComponentId option"
  cf_kind :: ConflictKind
  cf_source_summary :: str
  cf_target_summary :: str
  cf_resolution :: ConflictResolution
  cf_requires_confirmation :: bool

record RestorePlan =
  rp_format_version :: nat
  rp_run_id :: RunId
  rp_package_id :: str
  rp_mode :: RestoreMode
  rp_target_fingerprint :: str
  rp_selected_components :: "ComponentId list"
  rp_operations :: "Operation list"
  rp_conflicts :: "Conflict list"
  rp_manual_actions :: "ManualAction list"
  rp_warnings :: "str list"

subsection \<open>Selection\<close>

datatype SecretSelectionPolicy = Exclude | VaultExplicit

datatype LargeDataSelectionPolicy = Exclude | RequireConfirmation

datatype UnknownBinarySelectionPolicy = Exclude | PortableBinaryExplicit

record SelectionPolicy =
  sp_secrets :: SecretSelectionPolicy
  sp_large_data :: LargeDataSelectionPolicy
  sp_unknown_binaries :: UnknownBinarySelectionPolicy
  sp_max_bytes :: "nat option"

record ArtifactSelection =
  as_artifact :: ArtifactId
  as_include :: bool

record SelectionInput =
  si_components :: "ComponentId list"
  si_artifacts :: "ArtifactSelection list"
  si_policy :: SelectionPolicy

record SelectionClosure =
  sc_selected_components :: "ComponentId list"
  sc_selected_artifacts :: "ArtifactId list"
  sc_auto_added_dependencies :: "ComponentId list"
  sc_total_bytes :: nat
  sc_warnings :: "str list"

subsection \<open>Errors and compatibility results\<close>

datatype ReforgeErrorCode =
    AccessDenied | PathNotFound | FileLocked | InvalidPath | ReparsePoint | ProviderUnavailable
  | ProviderParseFailed | SourceUnavailable | VersionUnavailable | PackageNotFound
  | PackageCorrupt | PackageUntrusted | VaultRequired | VaultDecryptFailed | SecretNotPortable
  | ManualSecretRequired | SchemaInvalid | UnsupportedVersion | ArchitectureConflict | OsConflict
  | InsufficientDisk | DependencyCycle | SelectionIncomplete | TargetConflict | SecurityPolicy
  | ManualActionRequired | UserActionRequired | RebootRequired | OperationFailed | InstallFailed
  | VerificationFailed | Interrupted | Cancelled

datatype Retryability = Never | SafeRetry | RequiresUserAction | AfterReboot

record ErrorEnvelope =
  ee_code :: ReforgeErrorCode
  ee_message :: str
  ee_technical_detail :: "str option"
  ee_component :: "ComponentId option"
  ee_operation :: "OperationId option"
  ee_retryability :: Retryability
  ee_context_id :: "str option"

datatype CompatibilityStatus = Ready | RequiresConfirmation | Blocked

record Blocker =
  bl_code :: ReforgeErrorCode
  bl_component :: "ComponentId option"
  bl_reason :: str
  bl_required_action :: "ManualAction option"

record Confirmation =
  cn_id :: str
  cn_component :: "ComponentId option"
  cn_reason :: str
  cn_risk :: RiskLevel

record CompatibilityResult =
  cr_status :: CompatibilityStatus
  cr_blockers :: "Blocker list"
  cr_confirmations :: "Confirmation list"
  cr_warnings :: "str list"

end
