(* ===== verification/Errors.thy ===== *)
theory Errors
  imports Redaction
begin

text \<open>
  The structured errors of \<^verbatim>\<open>crates/reforge-domain/src/error.rs\<close>: every message and every
  technical detail goes through the redactor before it enters an envelope. The components build
  their errors with \<open>coded_error\<close>; their proofs only look at the code of an envelope.
\<close>

definition MAX_ERROR_MESSAGE_BYTES :: nat where "MAX_ERROR_MESSAGE_BYTES = 1024"

fun default_retryability :: "ReforgeErrorCode \<Rightarrow> Retryability" where
  "default_retryability FileLocked = SafeRetry"
| "default_retryability ProviderUnavailable = SafeRetry"
| "default_retryability SourceUnavailable = SafeRetry"
| "default_retryability ReforgeErrorCode.Interrupted = SafeRetry"
| "default_retryability ReforgeErrorCode.Cancelled = SafeRetry"
| "default_retryability ManualActionRequired = RequiresUserAction"
| "default_retryability UserActionRequired = RequiresUserAction"
| "default_retryability AccessDenied = RequiresUserAction"
| "default_retryability PackageUntrusted = RequiresUserAction"
| "default_retryability VaultRequired = RequiresUserAction"
| "default_retryability ManualSecretRequired = RequiresUserAction"
| "default_retryability SecretNotPortable = RequiresUserAction"
| "default_retryability SelectionIncomplete = RequiresUserAction"
| "default_retryability SecurityPolicy = RequiresUserAction"
| "default_retryability TargetConflict = RequiresUserAction"
| "default_retryability ReforgeErrorCode.ArchitectureConflict = RequiresUserAction"
| "default_retryability OsConflict = RequiresUserAction"
| "default_retryability RebootRequired = AfterReboot"
| "default_retryability PathNotFound = Never"
| "default_retryability InvalidPath = Never"
| "default_retryability ReparsePoint = Never"
| "default_retryability ProviderParseFailed = Never"
| "default_retryability VersionUnavailable = Never"
| "default_retryability PackageNotFound = Never"
| "default_retryability PackageCorrupt = Never"
| "default_retryability VaultDecryptFailed = Never"
| "default_retryability SchemaInvalid = Never"
| "default_retryability UnsupportedVersion = Never"
| "default_retryability InsufficientDisk = Never"
| "default_retryability DependencyCycle = Never"
| "default_retryability OperationFailed = Never"
| "default_retryability InstallFailed = Never"
| "default_retryability VerificationFailed = Never"

definition ErrorEnvelope_new :: "ReforgeErrorCode \<Rightarrow> str \<Rightarrow> ErrorEnvelope" where
  "ErrorEnvelope_new ecode message =
     \<lparr>ee_code = ecode,
      ee_message =
        (case policy_redact_text (with_max_bytes MAX_ERROR_MESSAGE_BYTES) message of
           Some m \<Rightarrow> m
         | None \<Rightarrow> ''The operation could not be completed safely.''),
      ee_technical_detail = None, ee_component = None, ee_operation = None,
      ee_retryability = default_retryability ecode, ee_context_id = None\<rparr>"

definition with_technical_detail :: "str \<Rightarrow> ErrorEnvelope \<Rightarrow> ErrorEnvelope" where
  "with_technical_detail detail e = e\<lparr>ee_technical_detail := redact_text detail\<rparr>"

definition with_json_detail :: "(Value \<Rightarrow> str option) \<Rightarrow> Value \<Rightarrow> ErrorEnvelope \<Rightarrow> ErrorEnvelope" where
  "with_json_detail to_vec detail e =
     e\<lparr>ee_technical_detail :=
         (case redact_json to_vec default_policy detail of None \<Rightarrow> None | Some r \<Rightarrow> to_vec r)\<rparr>"

definition with_retryability :: "Retryability \<Rightarrow> ErrorEnvelope \<Rightarrow> ErrorEnvelope" where
  "with_retryability r e = e\<lparr>ee_retryability := r\<rparr>"

definition with_ids ::
  "ComponentId option \<Rightarrow> OperationId option \<Rightarrow> ErrorEnvelope \<Rightarrow> ErrorEnvelope" where
  "with_ids component operation e = e\<lparr>ee_component := component, ee_operation := operation\<rparr>"

definition with_context_id :: "str \<Rightarrow> ErrorEnvelope \<Rightarrow> ErrorEnvelope" where
  "with_context_id context_id e = e\<lparr>ee_context_id := sanitize_context_id context_id\<rparr>"

definition coded_error ::
  "ReforgeErrorCode \<Rightarrow> str \<Rightarrow> str option \<Rightarrow> ComponentId option \<Rightarrow> OperationId option \<Rightarrow> str option
   \<Rightarrow> ErrorEnvelope" where
  "coded_error ecode message technical_detail component operation context_id =
     (let envelope = (ErrorEnvelope_new ecode message)
            \<lparr>ee_component := component, ee_operation := operation,
             ee_context_id := (case context_id of None \<Rightarrow> None | Some c \<Rightarrow> sanitize_context_id c)\<rparr>
      in case technical_detail of
           None \<Rightarrow> envelope
         | Some detail \<Rightarrow> envelope\<lparr>ee_technical_detail := redact_text detail\<rparr>)"

text \<open>The kinds of \<^verbatim>\<open>std::io::ErrorKind\<close> the code distinguishes.\<close>

datatype ErrorKind =
    PermissionDenied | NotFound | AlreadyExists | WouldBlock | TimedOut | InvalidInput
  | Interrupted | OtherKind

fun classify_io_error :: "ErrorKind \<Rightarrow> ReforgeErrorCode" where
  "classify_io_error PermissionDenied = AccessDenied"
| "classify_io_error NotFound = PathNotFound"
| "classify_io_error AlreadyExists = TargetConflict"
| "classify_io_error WouldBlock = FileLocked"
| "classify_io_error TimedOut = FileLocked"
| "classify_io_error InvalidInput = InvalidPath"
| "classify_io_error ErrorKind.Interrupted = ReforgeErrorCode.Interrupted"
| "classify_io_error OtherKind = OperationFailed"

definition from_io_error :: "ErrorKind \<Rightarrow> str \<Rightarrow> str \<Rightarrow> ErrorEnvelope" where
  "from_io_error kind text message =
     with_technical_detail text (ErrorEnvelope_new (classify_io_error kind) message)"

fun show_code :: "ReforgeErrorCode \<Rightarrow> str" where
  "show_code AccessDenied = ''ACCESS_DENIED''"
| "show_code PathNotFound = ''PATH_NOT_FOUND''"
| "show_code FileLocked = ''FILE_LOCKED''"
| "show_code InvalidPath = ''INVALID_PATH''"
| "show_code ReparsePoint = ''REPARSE_POINT''"
| "show_code ProviderUnavailable = ''PROVIDER_UNAVAILABLE''"
| "show_code ProviderParseFailed = ''PROVIDER_PARSE_FAILED''"
| "show_code SourceUnavailable = ''SOURCE_UNAVAILABLE''"
| "show_code VersionUnavailable = ''VERSION_UNAVAILABLE''"
| "show_code PackageNotFound = ''PACKAGE_NOT_FOUND''"
| "show_code PackageCorrupt = ''PACKAGE_CORRUPT''"
| "show_code PackageUntrusted = ''PACKAGE_UNTRUSTED''"
| "show_code VaultRequired = ''VAULT_REQUIRED''"
| "show_code VaultDecryptFailed = ''VAULT_DECRYPT_FAILED''"
| "show_code SecretNotPortable = ''SECRET_NOT_PORTABLE''"
| "show_code ManualSecretRequired = ''MANUAL_SECRET_REQUIRED''"
| "show_code SchemaInvalid = ''SCHEMA_INVALID''"
| "show_code UnsupportedVersion = ''UNSUPPORTED_VERSION''"
| "show_code ReforgeErrorCode.ArchitectureConflict = ''ARCHITECTURE_CONFLICT''"
| "show_code OsConflict = ''OS_CONFLICT''"
| "show_code InsufficientDisk = ''INSUFFICIENT_DISK''"
| "show_code DependencyCycle = ''DEPENDENCY_CYCLE''"
| "show_code SelectionIncomplete = ''SELECTION_INCOMPLETE''"
| "show_code TargetConflict = ''TARGET_CONFLICT''"
| "show_code SecurityPolicy = ''SECURITY_POLICY''"
| "show_code ManualActionRequired = ''MANUAL_ACTION_REQUIRED''"
| "show_code UserActionRequired = ''USER_ACTION_REQUIRED''"
| "show_code RebootRequired = ''REBOOT_REQUIRED''"
| "show_code OperationFailed = ''OPERATION_FAILED''"
| "show_code InstallFailed = ''INSTALL_FAILED''"
| "show_code VerificationFailed = ''VERIFICATION_FAILED''"
| "show_code ReforgeErrorCode.Interrupted = ''INTERRUPTED''"
| "show_code ReforgeErrorCode.Cancelled = ''CANCELLED''"

fun show_retryability :: "Retryability \<Rightarrow> str" where
  "show_retryability Never = ''NEVER''"
| "show_retryability SafeRetry = ''SAFE_RETRY''"
| "show_retryability RequiresUserAction = ''REQUIRES_USER_ACTION''"
| "show_retryability AfterReboot = ''AFTER_REBOOT''"

definition show_error :: "ErrorEnvelope \<Rightarrow> str" where
  "show_error e = show_code (ee_code e) @ '': '' @ ee_message e"

subsection \<open>The invariant of an envelope\<close>

text \<open>
  What every boundary may rely on: a message of at most 1024 bytes, a detail within the default
  limit, and a context id drawn from the transport-safe alphabet.
\<close>

definition envelope_safe :: "ErrorEnvelope \<Rightarrow> bool" where
  "envelope_safe e \<longleftrightarrow>
     length (ee_message e) \<le> MAX_ERROR_MESSAGE_BYTES
     \<and> (case ee_technical_detail e of None \<Rightarrow> True | Some d \<Rightarrow> length d \<le> DEFAULT_MAX_REDACTED_BYTES)
     \<and> (case ee_context_id e of None \<Rightarrow> True | Some c \<Rightarrow> sanitize_context_id c = Some c)"

lemma code_new [simp]: "ee_code (ErrorEnvelope_new ecode message) = ecode"
  by (simp add: ErrorEnvelope_new_def)

lemma code_coded_error [simp]:
  "ee_code (coded_error ecode message detail component operation context_id) = ecode"
  by (simp add: coded_error_def Let_def split: option.splits)

lemma code_with [simp]:
  "ee_code (with_technical_detail d e) = ee_code e"
  "ee_code (with_json_detail to_vec v e) = ee_code e"
  "ee_code (with_retryability r e) = ee_code e"
  "ee_code (with_ids c op e) = ee_code e"
  "ee_code (with_context_id i e) = ee_code e"
  by (simp_all add: with_technical_detail_def with_json_detail_def with_retryability_def
      with_ids_def with_context_id_def)

lemmas error_codes = code_new code_coded_error code_with

declare error_codes [error_code_simps]

lemma redact_text_limit: "redact_text d = Some d' \<Longrightarrow> length d' \<le> DEFAULT_MAX_REDACTED_BYTES"
  using policy_redact_text_bounded [of default_policy d d']
  by (simp add: redact_text_def default_policy_def)

lemma sanitize_idem: "sanitize_context_id c = Some c' \<Longrightarrow> sanitize_context_id c' = Some c'"
  by (auto simp: sanitize_context_id_def split: if_splits)

lemma envelope_safe_new: "envelope_safe (ErrorEnvelope_new ecode message)"
  using policy_redact_text_bounded [of "with_max_bytes MAX_ERROR_MESSAGE_BYTES" message]
  by (auto simp: envelope_safe_def ErrorEnvelope_new_def with_max_bytes_def
      MAX_ERROR_MESSAGE_BYTES_def split: option.splits)

lemma envelope_safe_with:
  assumes "envelope_safe e"
  shows "envelope_safe (with_technical_detail d e)" "envelope_safe (with_retryability r e)"
    "envelope_safe (with_ids component operation e)" "envelope_safe (with_context_id i e)"
  using assms
  by (auto simp: envelope_safe_def with_technical_detail_def with_retryability_def with_ids_def
      with_context_id_def dest: redact_text_limit sanitize_idem split: option.splits)

lemma envelope_safe_coded_error:
  "envelope_safe (coded_error ecode message detail component operation context_id)"
  using envelope_safe_new [of ecode message]
  by (auto simp: envelope_safe_def coded_error_def Let_def
      dest: redact_text_limit sanitize_idem split: option.splits)

lemma envelope_safe_with_json:
  "envelope_safe e \<Longrightarrow> envelope_safe (with_json_detail to_vec v e)"
  by (auto simp: envelope_safe_def with_json_detail_def redact_json_def default_policy_def
      split: option.splits if_splits)

text \<open>The envelopes the constructors of the module can build.\<close>

inductive built :: "(Value \<Rightarrow> str option) \<Rightarrow> ErrorEnvelope \<Rightarrow> bool" for to_vec where
  built_new: "built to_vec (ErrorEnvelope_new ecode message)"
| built_coded: "built to_vec (coded_error ecode message detail component operation context_id)"
| built_io: "built to_vec (from_io_error kind text message)"
| built_detail: "built to_vec e \<Longrightarrow> built to_vec (with_technical_detail detail e)"
| built_json: "built to_vec e \<Longrightarrow> built to_vec (with_json_detail to_vec v e)"
| built_retry: "built to_vec e \<Longrightarrow> built to_vec (with_retryability r e)"
| built_ids: "built to_vec e \<Longrightarrow> built to_vec (with_ids component operation e)"
| built_context: "built to_vec e \<Longrightarrow> built to_vec (with_context_id i e)"

subsection \<open>Properties\<close>

text \<open>Every error envelope the constructors and builders can produce, in any order and with any
  serializer, is safe to show: the message has at most 1024 bytes, the technical detail at most
  the default redaction limit, and the context id only transport-safe characters.\<close>

theorem built_envelope_safe:
  assumes "built to_vec e"
  shows "envelope_safe e"
  using assms
proof (induction rule: built.induct)
  case (built_io kind detail message)
  then show ?case by (simp add: from_io_error_def envelope_safe_with envelope_safe_new)
qed (auto intro: envelope_safe_new envelope_safe_coded_error envelope_safe_with envelope_safe_with_json)

theorem built_envelope_safe_witness:
  "envelope_safe (with_context_id ''run 1'' (from_io_error NotFound ''password=hunter2'' ''missing''))"
  by (rule built_envelope_safe [of "\<lambda>_. None"]) (intro built.intros)

end
