(* ===== verification/Ids.thy ===== *)
theory Ids
  imports DomainModel
begin

text \<open>
  The identifier grammars and the canonical component identity of
  \<^verbatim>\<open>crates/reforge-domain/src/ids.rs\<close>. The BLAKE3 hash, the JSON serializer of the identity
  tuple and the UUID parser are third-party code: they are the parameters \<open>blake3\<close>,
  \<open>to_vec\<close> and \<open>uuid_parse\<close>. Bytes are naturals below 256.
\<close>

unbundle bit_operations_syntax

record IdError =
  ie_kind :: str
  ie_value :: str

definition IdError_new :: "str \<Rightarrow> str \<Rightarrow> IdError" where
  "IdError_new kind v = \<lparr>ie_kind = kind, ie_value = v\<rparr>"

record CanonicalIdentity =
  ci_id :: ComponentId
  ci_quality :: IdentityQuality

subsection \<open>Grammars\<close>

definition base32_char :: "char \<Rightarrow> bool" where
  "base32_char c \<longleftrightarrow> is_ascii_lower c \<or> 50 \<le> code c \<and> code c \<le> 55"

definition ComponentId_new :: "str \<Rightarrow> (IdError, ComponentId) result" where
  "ComponentId_new v =
     (case strip_prefix v ''cmp_'' of
        None \<Rightarrow> Inl (IdError_new ''component'' v)
      | Some digest \<Rightarrow>
          if length digest \<noteq> 52 \<or> \<not> list_all base32_char digest
          then Inl (IdError_new ''component'' v) else Inr v)"

definition ObjectId_new :: "str \<Rightarrow> (IdError, ObjectId) result" where
  "ObjectId_new v =
     (case strip_prefix v ''obj_'' of
        None \<Rightarrow> Inl (IdError_new ''object'' v)
      | Some digest \<Rightarrow>
          if length digest \<noteq> 64
             \<or> \<not> list_all (\<lambda>c. is_ascii_digit c \<or> 97 \<le> code c \<and> code c \<le> 102) digest
          then Inl (IdError_new ''object'' v) else Inr v)"

text \<open>\<^verbatim>\<open>Hash::to_hex\<close>: two lowercase hexadecimal digits for each byte.\<close>

definition hex_digit :: "nat \<Rightarrow> char" where
  "hex_digit n = (if n < 10 then char_of (48 + n) else char_of (87 + n))"

definition to_hex :: "bytes \<Rightarrow> str" where
  "to_hex bs = concat (map (\<lambda>b. [hex_digit (b div 16), hex_digit (b mod 16)]) bs)"

definition ObjectId_from_content :: "(bytes \<Rightarrow> bytes) \<Rightarrow> bytes \<Rightarrow> ObjectId" where
  "ObjectId_from_content blake3 content = ''obj_'' @ to_hex (blake3 content)"

text \<open>
  \<open>uuid_parse\<close> gives the version number and the canonical text of a UUID; a run id is the
  canonical text of a version 7 UUID.
\<close>

definition RunId_new :: "nat \<times> str \<Rightarrow> (IdError, RunId) result" where
  "RunId_new = (\<lambda>(version, text).
     if version \<noteq> 7 then Inl (IdError_new ''run'' text) else Inr text)"

definition RunId_try_from :: "(str \<Rightarrow> (nat \<times> str) option) \<Rightarrow> str \<Rightarrow> (IdError, RunId) result" where
  "RunId_try_from uuid_parse v =
     (case uuid_parse v of
        None \<Rightarrow> Inl (IdError_new ''run'' v)
      | Some uuid \<Rightarrow> RunId_new uuid)"

definition OperationId_new :: "(str \<Rightarrow> (nat \<times> str) option) \<Rightarrow> str \<Rightarrow> (IdError, OperationId) result" where
  "OperationId_new uuid_parse v =
     (case strip_prefix v ''op_'' of
        None \<Rightarrow> Inl (IdError_new ''operation'' v)
      | Some remainder \<Rightarrow>
          (case rsplit_once (CHR ''_'') remainder of
             None \<Rightarrow> Inl (IdError_new ''operation'' v)
           | Some (run, ordinal) \<Rightarrow>
               try_bind (RunId_try_from uuid_parse run) (\<lambda>_.
               if ordinal = [] \<or> length ordinal > 20 \<or> \<not> list_all is_ascii_digit ordinal
               then Inl (IdError_new ''operation'' v) else Inr v)))"

definition OperationId_for_run ::
  "(str \<Rightarrow> (nat \<times> str) option) \<Rightarrow> RunId \<Rightarrow> nat \<Rightarrow> (IdError, OperationId) result" where
  "OperationId_for_run uuid_parse run_id ordinal =
     OperationId_new uuid_parse (''op_'' @ run_id @ ''_'' @ show_nat ordinal)"

definition validate_opaque :: "str \<Rightarrow> str \<Rightarrow> (IdError, unit) result" where
  "validate_opaque kind v =
     (if v = [] \<or> length v > 256 \<or> has_control v \<or> has_whitespace v
         \<or> CHR ''/'' \<in> set v \<or> CHR 0x5C \<in> set v
      then Inl (IdError_new kind v) else Inr ())"

definition opaque_id_new :: "str \<Rightarrow> str \<Rightarrow> (IdError, str) result" where
  "opaque_id_new kind v = try_bind (validate_opaque kind v) (\<lambda>_. Inr v)"

subsection \<open>Normalized identity\<close>

datatype CanonicalIdentityTuple =
    ProviderPackage (pp_provider: str) (pp_source: str) (pp_package: str)
  | PackageFamily str str
  | SignedProduct str str
  | ExecutableProduct str str str
  | LocalExecutable str str

record NormalizedIdentity =
  ni_provider_package :: "(str \<times> str) option"
  ni_provider_source :: "str option"
  ni_package_family :: "str option"
  ni_product_name :: "str option"
  ni_executable_name :: "str option"
  ni_publisher :: "str option"
  ni_certificate_thumbprint :: "str option"
  ni_executable_hash :: "str option"
  ni_install_role :: "str option"

definition normalize_identity_text :: "str \<Rightarrow> str \<Rightarrow> (IdError, str) result" where
  "normalize_identity_text kind v =
     (let v = to_lowercase (str_trim v)
      in if v = [] \<or> has_control v then Inl (IdError_new kind v) else Inr v)"

text \<open>\<^verbatim>\<open>Option::map(f).transpose()\<close>\<close>

definition transpose_map :: "('a \<Rightarrow> ('e, 'b) result) \<Rightarrow> 'a option \<Rightarrow> ('e, 'b option) result" where
  "transpose_map f x =
     (case x of None \<Rightarrow> Inr None | Some a \<Rightarrow> try_bind (f a) (\<lambda>b. Inr (Some b)))"

definition normalize_optional :: "str option \<Rightarrow> str \<Rightarrow> (IdError, str option) result" where
  "normalize_optional v kind = transpose_map (normalize_identity_text kind) v"

text \<open>The characters that are not whitespace, lowercased.\<close>

function strip_whitespace_lower :: "str \<Rightarrow> str" where
  "strip_whitespace_lower s =
     (case s of
        [] \<Rightarrow> []
      | c # t \<Rightarrow>
          (case ws_len s of
             Some n \<Rightarrow> strip_whitespace_lower (drop n s)
           | None \<Rightarrow> to_ascii_lower c # strip_whitespace_lower t))"
  by pat_completeness auto
termination
  using ws_len_pos by (relation "measure length") fastforce+

declare strip_whitespace_lower.simps [simp del]

definition normalize_thumbprint :: "str \<Rightarrow> (IdError, str) result" where
  "normalize_thumbprint v =
     (if has_control v then Inl (IdError_new ''certificate thumbprint'' v)
      else let normalized = strip_whitespace_lower v
           in if normalized = [] then Inl (IdError_new ''certificate thumbprint'' v)
              else Inr normalized)"

definition is_path_sep :: "char \<Rightarrow> bool" where
  "is_path_sep c \<longleftrightarrow> c = CHR ''/'' \<or> c = CHR 0x5C"

definition normalize_executable_name :: "str \<Rightarrow> (IdError, str) result" where
  "normalize_executable_name v =
     try_bind (normalize_identity_text ''executable'' v) (\<lambda>normalized.
       let name = last (split_on is_path_sep normalized)
       in if name = [] then Inl (IdError_new ''executable'' normalized) else Inr name)"

definition merge_publisher :: "str option \<Rightarrow> str option \<Rightarrow> (IdError, str option) result" where
  "merge_publisher from_identity from_record =
     (case (from_identity, from_record) of
        (Some i, Some r) \<Rightarrow>
          if i \<noteq> r then Inl (IdError_new ''component'' ''conflicting publisher identity facts'')
          else Inr (Some i)
      | (Some i, None) \<Rightarrow> Inr (Some i)
      | (None, Some r) \<Rightarrow> Inr (Some r)
      | (None, None) \<Rightarrow> Inr None)"

definition from_parts :: "Identity \<Rightarrow> Publisher option \<Rightarrow> (IdError, NormalizedIdentity) result" where
  "from_parts identity publisher =
     try_bind (transpose_map (\<lambda>(provider, package_id).
         try_bind (normalize_identity_text ''provider'' provider) (\<lambda>p.
         try_bind (normalize_identity_text ''package'' package_id) (\<lambda>k. Inr (p, k))))
       (idn_provider_package identity)) (\<lambda>provider_package.
     try_bind (normalize_optional (idn_provider_source identity) ''provider source'') (\<lambda>provider_source.
     try_bind (normalize_optional (idn_publisher identity) ''publisher'') (\<lambda>publisher_from_identity.
     try_bind (transpose_map (\<lambda>p. normalize_identity_text ''publisher'' (pub_name p)) publisher)
       (\<lambda>publisher_from_record.
     try_bind (transpose_map normalize_thumbprint
         (case publisher of None \<Rightarrow> None | Some p \<Rightarrow> pub_certificate_thumbprint p)) (\<lambda>certificate_thumbprint.
     try_bind (merge_publisher publisher_from_identity publisher_from_record) (\<lambda>publisher.
     try_bind (normalize_optional (idn_package_family identity) ''package family'') (\<lambda>package_family.
     try_bind (normalize_optional (idn_product_name identity) ''product name'') (\<lambda>product_name.
     try_bind (transpose_map normalize_executable_name (idn_executable_name identity)) (\<lambda>executable_name.
     try_bind (normalize_optional (idn_executable_hash identity) ''executable hash'') (\<lambda>executable_hash.
     try_bind (normalize_optional (idn_install_role identity) ''install role'') (\<lambda>install_role.
     Inr \<lparr>ni_provider_package = provider_package, ni_provider_source = provider_source,
          ni_package_family = package_family, ni_product_name = product_name,
          ni_executable_name = executable_name, ni_publisher = publisher,
          ni_certificate_thumbprint = certificate_thumbprint,
          ni_executable_hash = executable_hash, ni_install_role = install_role\<rparr>)))))))))))"

definition tuple :: "NormalizedIdentity \<Rightarrow> (IdError, CanonicalIdentityTuple \<times> IdentityQuality) result" where
  "tuple n =
     (case (ni_provider_package n, ni_provider_source n) of
        (Some (provider, package_id), Some provider_source) \<Rightarrow>
          Inr (ProviderPackage provider provider_source package_id, IdentityQuality.Provider)
      | _ \<Rightarrow>
     (case (ni_package_family n, ni_publisher n) of
        (Some package_family, Some publisher) \<Rightarrow>
          Inr (CanonicalIdentityTuple.PackageFamily package_family publisher, IdentityQuality.PackageFamily)
      | _ \<Rightarrow>
     (case (ni_product_name n, ni_certificate_thumbprint n) of
        (Some product_name, Some certificate_thumbprint) \<Rightarrow>
          Inr (CanonicalIdentityTuple.SignedProduct product_name certificate_thumbprint,
               IdentityQuality.SignedProduct)
      | _ \<Rightarrow>
     (case (ni_product_name n, ni_publisher n, ni_install_role n) of
        (Some product_name, Some publisher, Some install_role) \<Rightarrow>
          Inr (ExecutableProduct product_name publisher install_role, IdentityQuality.Product)
      | _ \<Rightarrow>
     (case (ni_executable_name n, ni_executable_hash n) of
        (Some executable_name, Some executable_hash) \<Rightarrow>
          Inr (LocalExecutable executable_name executable_hash, IdentityQuality.Local)
      | _ \<Rightarrow>
          Inl (IdError_new ''component'' ''identity lacks a supported portable or local tuple''))))))"

subsection \<open>Base32\<close>

definition ALPHABET :: str where "ALPHABET = ''abcdefghijklmnopqrstuvwxyz234567''"

text \<open>
  The inner \<^verbatim>\<open>while bits >= 5\<close> loop on the 32-bit buffer: it emits one letter per round.
\<close>

fun emit_base32 :: "nat \<Rightarrow> nat \<Rightarrow> str \<Rightarrow> nat \<times> nat \<times> str" where
  "emit_base32 buffer bits output =
     (if bits \<ge> 5
      then let bits' = bits - 5;
               index = drop_bit bits' buffer AND 31;
               output' = output @ [ALPHABET ! index];
               buffer' = (if bits' = 0 then 0 else buffer AND (push_bit bits' 1 - 1))
           in emit_base32 buffer' bits' output'
      else (buffer, bits, output))"

declare emit_base32.simps [simp del]

fun encode_loop :: "bytes \<Rightarrow> nat \<Rightarrow> nat \<Rightarrow> str \<Rightarrow> nat \<times> nat \<times> str" where
  "encode_loop [] buffer bits output = (buffer, bits, output)"
| "encode_loop (byte # bytes) buffer bits output =
     (case emit_base32 ((push_bit 8 buffer mod 2 ^ 32) OR byte) (bits + 8) output of
        (buffer', bits', output') \<Rightarrow> encode_loop bytes buffer' bits' output')"

definition encode_base32_lower :: "bytes \<Rightarrow> str" where
  "encode_base32_lower bytes =
     (case encode_loop bytes 0 0 [] of
        (buffer, bits, output) \<Rightarrow>
          if bits \<noteq> 0 then output @ [ALPHABET ! ((push_bit (5 - bits) buffer mod 2 ^ 32) AND 31)]
          else output)"

definition ComponentId_from_identity ::
  "(CanonicalIdentityTuple \<Rightarrow> bytes option) \<Rightarrow> (bytes \<Rightarrow> bytes) \<Rightarrow> Identity \<Rightarrow> Publisher option
   \<Rightarrow> (IdError, CanonicalIdentity) result" where
  "ComponentId_from_identity to_vec blake3 identity publisher =
     try_bind (from_parts identity publisher) (\<lambda>normalized.
     try_bind (tuple normalized) (\<lambda>(t, quality).
     try_bind (ok_or (IdError_new ''component'' ''identity tuple serialization failed'') (to_vec t))
       (\<lambda>bytes.
     try_bind (ComponentId_new (''cmp_'' @ encode_base32_lower (blake3 bytes))) (\<lambda>i.
     Inr \<lparr>ci_id = i, ci_quality = quality\<rparr>))))"

subsection \<open>Base32 keeps the value of its input\<close>

text \<open>The digit of a letter, and the numbers a text and a byte string spell.\<close>

definition base32_digit :: "char \<Rightarrow> nat" where
  "base32_digit c = (if is_ascii_lower c then code c - 97 else code c - 24)"

definition base32_value :: "str \<Rightarrow> nat" where
  "base32_value s = foldl (\<lambda>a c. 32 * a + base32_digit c) 0 s"

definition bytes_value :: "bytes \<Rightarrow> nat" where
  "bytes_value bs = foldl (\<lambda>a b. 256 * a + b) 0 bs"

lemma ALPHABET_ok: "\<forall>i \<in> set [0..<32]. base32_digit (ALPHABET ! i) = i \<and> base32_char (ALPHABET ! i)"
  by code_simp

lemma ALPHABET_nth [simp]:
  "i < 32 \<Longrightarrow> base32_digit (ALPHABET ! i) = i" "i < 32 \<Longrightarrow> base32_char (ALPHABET ! i)"
  using ALPHABET_ok by auto

lemma base32_value_snoc [simp]: "base32_value (s @ [c]) = 32 * base32_value s + base32_digit c"
  by (simp add: base32_value_def)

lemma bytes_value_snoc [simp]: "bytes_value (bs @ [b]) = 256 * bytes_value bs + b"
  by (simp add: bytes_value_def)

lemma and_31 [simp]: "(n :: nat) AND 31 = n mod 32"
  using take_bit_eq_mask [of 5 n] by (simp add: take_bit_eq_mod mask_eq_exp_minus_1)

lemma and_low_bits: "(n :: nat) AND (push_bit k 1 - 1) = n mod 2 ^ k"
  using take_bit_eq_mask [of k n] by (simp add: take_bit_eq_mod mask_eq_exp_minus_1 push_bit_eq_mult)

lemma emit_base32_value:
  assumes "emit_base32 buffer bits acc = (buffer', bits', res)" and "buffer < 2 ^ bits"
  shows "bits' < 5 \<and> buffer' < 2 ^ bits'
    \<and> base32_value res * 2 ^ bits' + buffer' = base32_value acc * 2 ^ bits + buffer
    \<and> 5 * length res + bits' = 5 * length acc + bits
    \<and> (list_all base32_char acc \<longrightarrow> list_all base32_char res)"
  using assms
proof (induction buffer bits acc rule: emit_base32.induct)
  case (1 buffer bits acc)
  show ?case
  proof (cases "bits \<ge> 5")
    case True
    define k where "k = bits - 5"
    have bits: "bits = k + 5" using True by (simp add: k_def)
    let ?i = "drop_bit k buffer AND 31"
    let ?b = "if k = 0 then 0 else buffer AND (push_bit k 1 - 1)"
    have rec: "emit_base32 ?b k (acc @ [ALPHABET ! ?i]) = (buffer', bits', res)"
      using "1.prems"(1) True unfolding emit_base32.simps [of buffer bits] k_def Let_def by simp
    have b: "?b = buffer mod 2 ^ k" by (subst and_low_bits) simp
    have i: "?i = buffer div 2 ^ k"
      using "1.prems"(2) by (simp add: drop_bit_eq_div bits power_add less_mult_imp_div_less mult.commute)
    have i32: "buffer div 2 ^ k < 32"
      using "1.prems"(2) by (simp add: bits power_add less_mult_imp_div_less mult.commute)
    have val: "base32_value (acc @ [ALPHABET ! ?i]) * 2 ^ k + ?b
        = base32_value acc * 2 ^ bits + buffer"
      unfolding b i using i32
      by (simp add: bits power_add algebra_simps)
    have lt: "?b < 2 ^ k" unfolding b by simp
    from "1.IH" [OF True k_def refl refl refl rec lt] show ?thesis
      unfolding val using i i32 by (simp add: bits)
  next
    case False
    with "1.prems" show ?thesis by (auto simp: emit_base32.simps [of buffer bits])
  qed
qed

lemma push_byte:
  fixes buffer byte :: nat
  assumes "buffer < 2 ^ bits" "bits < 5" "byte < 256"
  shows "(push_bit 8 buffer mod 2 ^ 32) OR byte = 256 * buffer + byte"
proof -
  have "buffer < 2 ^ 5"
    using assms(1,2) by (meson less_trans one_less_numeral_iff power_strict_increasing semiring_norm(76))
  then have small: "push_bit 8 buffer mod 2 ^ 32 = push_bit 8 buffer"
    by (simp add: push_bit_eq_mult)
  have "push_bit 8 buffer OR byte = push_bit 8 buffer + byte"
  proof (rule disjunctive_add [symmetric])
    fix n
    show "\<not> bit (push_bit 8 buffer) n \<or> \<not> bit byte n"
    proof (cases "n < 8")
      case False
      then have "byte < 2 ^ n"
        using assms(3) power_increasing [of 8 n "2 :: nat"] by simp
      then show ?thesis by (simp add: bit_iff_odd)
    qed (simp add: bit_push_bit_iff)
  qed
  then show ?thesis unfolding small by (simp add: push_bit_eq_mult)
qed

lemma encode_loop_value:
  assumes "encode_loop bs buffer bits acc = (buffer', bits', res)"
    and "buffer < 2 ^ bits" "bits < 5" "\<forall>b \<in> set bs. b < 256"
  shows "bits' < 5 \<and> buffer' < 2 ^ bits'
    \<and> base32_value res * 2 ^ bits' + buffer'
        = foldl (\<lambda>a b. 256 * a + b) (base32_value acc * 2 ^ bits + buffer) bs
    \<and> 5 * length res + bits' = 5 * length acc + bits + 8 * length bs
    \<and> (list_all base32_char acc \<longrightarrow> list_all base32_char res)"
  using assms
proof (induction bs arbitrary: buffer bits acc)
  case (Cons b bs)
  obtain b1 n1 o1 where e: "emit_base32 (256 * buffer + b) (bits + 8) acc = (b1, n1, o1)"
    by (metis prod_cases3)
  have b256: "b < 256" using Cons.prems(4) by simp
  have lt: "256 * buffer + b < 2 ^ (bits + 8)"
    using Cons.prems(2) b256 by (simp add: power_add)
  note v = emit_base32_value [OF e lt]
  have rec: "encode_loop bs b1 n1 o1 = (buffer', bits', res)"
    using Cons.prems(1) e push_byte [OF Cons.prems(2,3) b256] by simp
  show ?case
    using Cons.IH [OF rec] v Cons.prems(4) by (auto simp: power_add algebra_simps)
qed simp

lemma encode_base32_value:
  assumes "\<forall>b \<in> set bs. b < 256"
  shows "\<exists>pad < 5. 5 * length (encode_base32_lower bs) = 8 * length bs + pad
     \<and> base32_value (encode_base32_lower bs) = bytes_value bs * 2 ^ pad
     \<and> list_all base32_char (encode_base32_lower bs)"
proof -
  obtain b n out where e: "encode_loop bs 0 0 [] = (b, n, out)" by (metis prod_cases3)
  from encode_loop_value [OF e _ _ assms]
  have v: "n < 5" "b < 2 ^ n" "base32_value out * 2 ^ n + b = bytes_value bs"
    "5 * length out + n = 8 * length bs" "list_all base32_char out"
    by (auto simp: base32_value_def bytes_value_def)
  show ?thesis
  proof (cases "n = 0")
    case True
    with v e show ?thesis by (intro exI [of _ 0]) (auto simp: encode_base32_lower_def)
  next
    case False
    define p where "p = 5 - n"
    have p: "p < 5" "n + p = 5" using v(1) False by (auto simp: p_def)
    have "2 ^ p * b < 2 ^ p * 2 ^ n" using v(2) by simp
    also have "\<dots> = 32" using p(2) by (simp flip: power_add add: add.commute)
    finally have lt: "2 ^ p * b < 32" .
    then have i: "(push_bit p b mod 2 ^ 32) AND 31 = 2 ^ p * b"
      by (simp add: push_bit_eq_mult mult.commute)
    have enc: "encode_base32_lower bs = out @ [ALPHABET ! (2 ^ p * b)]"
      using False e i by (simp add: encode_base32_lower_def p_def)
    have pw: "(32 :: nat) = 2 ^ n * 2 ^ p" using p(2) by (simp flip: power_add)
    have "base32_value (encode_base32_lower bs) = (base32_value out * 2 ^ n + b) * 2 ^ p"
      using lt by (simp add: enc) (simp add: pw algebra_simps)
    then show ?thesis
      using v p lt enc by (intro exI [of _ p]) auto
  qed
qed

lemma bytes_value_inj:
  assumes "length xs = length ys" "\<forall>b \<in> set xs. b < 256" "\<forall>b \<in> set ys. b < 256"
    and "bytes_value xs = bytes_value ys"
  shows "xs = ys"
  using assms
proof (induction xs arbitrary: ys rule: rev_induct)
  case (snoc x xs)
  then obtain y zs where ys: "ys = zs @ [y]"
    by (cases ys rule: rev_cases) auto
  with snoc.prems have eq: "256 * bytes_value xs + x = 256 * bytes_value zs + y" and lt: "x < 256" "y < 256"
    by auto
  have "bytes_value xs = (256 * bytes_value xs + x) div 256" "bytes_value zs = (256 * bytes_value zs + y) div 256"
    using lt by simp_all
  with eq have "bytes_value xs = bytes_value zs" by simp
  with eq have "x = y" by simp
  with \<open>bytes_value xs = bytes_value zs\<close> snoc ys show ?case by auto
qed simp

lemma encode_base32_inj:
  assumes "length xs = length ys" "\<forall>b \<in> set xs. b < 256" "\<forall>b \<in> set ys. b < 256"
    and eq: "encode_base32_lower xs = encode_base32_lower ys"
  shows "xs = ys"
proof -
  obtain p where p: "5 * length (encode_base32_lower xs) = 8 * length xs + p"
    "base32_value (encode_base32_lower xs) = bytes_value xs * 2 ^ p"
    using encode_base32_value [OF assms(2)] by auto
  obtain q where q: "5 * length (encode_base32_lower ys) = 8 * length ys + q"
    "base32_value (encode_base32_lower ys) = bytes_value ys * 2 ^ q"
    using encode_base32_value [OF assms(3)] by auto
  have "p = q" using p(1) q(1) assms(1) eq by simp
  with p(2) q(2) eq have "bytes_value xs = bytes_value ys" by simp
  with assms show ?thesis by (blast intro: bytes_value_inj)
qed

text \<open>A 256-bit digest has 52 letters, so the canonical id always satisfies its own grammar.\<close>

definition is_digest :: "bytes \<Rightarrow> bool" where
  "is_digest d \<longleftrightarrow> length d = 32 \<and> list_all (\<lambda>b. b < 256) d"

lemma component_id_of_digest:
  assumes "is_digest d"
  shows "ComponentId_new (''cmp_'' @ encode_base32_lower d) = Inr (''cmp_'' @ encode_base32_lower d)"
proof -
  have "\<forall>b \<in> set d. b < 256" using assms by (simp add: is_digest_def list_all_iff)
  then obtain p where "p < 5" "5 * length (encode_base32_lower d) = 8 * length d + p"
    "list_all base32_char (encode_base32_lower d)"
    using encode_base32_value by blast
  with assms have "length (encode_base32_lower d) = 52" "list_all base32_char (encode_base32_lower d)"
    by (auto simp: is_digest_def)
  then show ?thesis
    by (simp add: ComponentId_new_def strip_prefix_def starts_with_def)
qed

subsection \<open>Operation identifiers\<close>

lemma operation_id_for_run_ok:
  assumes "uuid_parse run = Some (7, run)" "ordinal \<le> u64_max"
  shows "OperationId_for_run uuid_parse run ordinal = Inr (''op_'' @ run @ ''_'' @ show_nat ordinal)"
proof -
  have digits: "list_all is_ascii_digit (show_nat ordinal)"
    by (simp add: list_all_iff show_nat_digits)
  have "CHR ''_'' \<notin> set (show_nat ordinal)"
    using show_nat_digits [of "CHR ''_''" ordinal] by (auto simp: is_ascii_digit_def)
  then have split: "rsplit_once (CHR ''_'') (run @ CHR ''_'' # show_nat ordinal) = Some (run, show_nat ordinal)"
    by (rule rsplit_once_append)
  have "length (show_nat ordinal) \<le> 20"
    using length_show_nat [of ordinal 19] assms(2) by (simp add: u64_max_def)
  with digits split assms(1) show ?thesis
    by (simp add: OperationId_for_run_def OperationId_new_def strip_prefix_def starts_with_def
        RunId_try_from_def RunId_new_def)
qed

lemma operation_id_inj:
  assumes "''op_'' @ run @ ''_'' @ show_nat m = ''op_'' @ run' @ ''_'' @ show_nat n"
  shows "run = run' \<and> m = n"
proof -
  have notin: "CHR ''_'' \<notin> set (show_nat k)" for k
    using show_nat_digits [of "CHR ''_''" k] by (auto simp: is_ascii_digit_def)
  from assms have "run @ CHR ''_'' # show_nat m = run' @ CHR ''_'' # show_nat n" by simp
  then have "rsplit_once (CHR ''_'') (run @ CHR ''_'' # show_nat m)
      = rsplit_once (CHR ''_'') (run' @ CHR ''_'' # show_nat n)" by simp
  then show ?thesis
    by (auto simp: rsplit_once_append notin dest: show_nat_inj)
qed

subsection \<open>Normalized names\<close>

lemma transpose_map_Some:
  "transpose_map f x = Inr (Some b) \<longleftrightarrow> (\<exists>a. x = Some a \<and> f a = Inr b)"
  by (auto simp: transpose_map_def result_simps split: option.splits)

lemma normalize_executable_name_ok:
  assumes "normalize_executable_name v = Inr name"
  shows "name \<noteq> [] \<and> (\<forall>c \<in> set name. \<not> is_path_sep c)"
proof -
  from assms obtain t where "name = last (split_on is_path_sep t)" "name \<noteq> []"
    by (auto simp: normalize_executable_name_def result_simps Let_def split: if_splits)
  then show ?thesis
    using split_on_no_sep [of name is_path_sep t] last_in_set [of "split_on is_path_sep t"] by auto
qed

lemma from_parts_executable:
  assumes "from_parts identity publisher = Inr n" "ni_executable_name n = Some name"
  shows "name \<noteq> [] \<and> (\<forall>c \<in> set name. \<not> is_path_sep c)"
proof -
  from assms obtain v where "normalize_executable_name v = Inr name"
    by (auto simp: from_parts_def result_simps transpose_map_Some)
  then show ?thesis by (rule normalize_executable_name_ok)
qed

subsection \<open>Properties\<close>

lemma from_identity_ok:
  assumes "\<forall>bytes. is_digest (blake3 bytes)"
  shows "ComponentId_from_identity to_vec blake3 identity publisher = Inr c \<longleftrightarrow>
    (\<exists>n t quality bytes. from_parts identity publisher = Inr n \<and> tuple n = Inr (t, quality)
       \<and> to_vec t = Some bytes
       \<and> c = \<lparr>ci_id = ''cmp_'' @ encode_base32_lower (blake3 bytes), ci_quality = quality\<rparr>)"
  using component_id_of_digest assms
  by (auto simp: ComponentId_from_identity_def result_simps)

text \<open>The canonical component id. With a hash that returns 32 bytes, an identity whose names
  normalize, that has a canonical tuple and whose tuple serializes always gets an id (the derived
  text passes the id's own grammar), and two identities share an id only if the digests of their
  canonical tuples are equal: the base32 rendering loses nothing.\<close>

theorem component_id_canonical:
  assumes "\<forall>bytes. is_digest (blake3 bytes)"
  shows "((\<exists>c. ComponentId_from_identity to_vec blake3 i p = Inr c) \<longleftrightarrow>
      (\<exists>n t quality bytes. from_parts i p = Inr n \<and> tuple n = Inr (t, quality) \<and> to_vec t = Some bytes))
    \<and> (\<forall>c d. ComponentId_from_identity to_vec blake3 i p = Inr c
        \<and> ComponentId_from_identity to_vec blake3 j q = Inr d \<and> ci_id c = ci_id d \<longrightarrow>
      (\<exists>n t m u quality quality' x y. from_parts i p = Inr n \<and> tuple n = Inr (t, quality)
        \<and> from_parts j q = Inr m \<and> tuple m = Inr (u, quality')
        \<and> to_vec t = Some x \<and> to_vec u = Some y \<and> blake3 x = blake3 y))"
proof -
  have inj: "blake3 x = blake3 y" if "encode_base32_lower (blake3 x) = encode_base32_lower (blake3 y)" for x y
    using assms by (intro encode_base32_inj [OF _ _ _ that]) (auto simp: is_digest_def list_all_iff)
  show ?thesis
    unfolding from_identity_ok [OF assms] using inj by fastforce
qed

definition sample_identity :: Identity where
  "sample_identity =
     \<lparr>idn_provider_package = None, idn_provider_source = None, idn_package_family = None,
      idn_product_name = None, idn_executable_name = Some [CHR ''C'', CHR '':'', CHR 0x5C, CHR ''A''],
      idn_publisher = None, idn_executable_hash = Some ''00ff'', idn_install_role = None,
      idn_identity_quality = IdentityQuality.Local\<rparr>"

definition sample_normalized :: NormalizedIdentity where
  "sample_normalized =
     \<lparr>ni_provider_package = None, ni_provider_source = None, ni_package_family = None,
      ni_product_name = None, ni_executable_name = Some ''a'', ni_publisher = None,
      ni_certificate_thumbprint = None, ni_executable_hash = Some ''00ff'', ni_install_role = None\<rparr>"

lemma sample_normalizes: "from_parts sample_identity None = Inr sample_normalized"
  by code_simp

theorem component_id_canonical_witness:
  "\<exists>c. ComponentId_from_identity (\<lambda>_. Some []) (\<lambda>_. replicate 32 7) sample_identity None = Inr c"
proof -
  have "\<forall>bytes :: bytes. is_digest ((\<lambda>_. replicate 32 7) bytes)"
    by (simp add: is_digest_def list_all_iff)
  note ok = component_id_canonical [OF this, of "\<lambda>_. Some []" sample_identity None, THEN conjunct1]
  have "tuple sample_normalized = Inr (LocalExecutable ''a'' ''00ff'', IdentityQuality.Local)" by code_simp
  with sample_normalizes show ?thesis by (subst ok) blast
qed

text \<open>Base32 as the ids use it: the text has exactly the letters that \<open>8 * n\<close> bits need, all from
  the alphabet, it spells the number the bytes spell (padded on the right by fewer than five zero
  bits), and inputs of equal length with equal texts are equal.\<close>

theorem base32_faithful:
  assumes "\<forall>b \<in> set xs. b < 256" "\<forall>b \<in> set ys. b < 256"
  shows "(\<exists>pad < 5. 5 * length (encode_base32_lower xs) = 8 * length xs + pad
      \<and> base32_value (encode_base32_lower xs) = bytes_value xs * 2 ^ pad
      \<and> list_all base32_char (encode_base32_lower xs))
    \<and> (length xs = length ys \<and> encode_base32_lower xs = encode_base32_lower ys \<longrightarrow> xs = ys)"
  using encode_base32_value [OF assms(1)] encode_base32_inj [OF _ assms] by blast

theorem base32_faithful_witness:
  "encode_base32_lower [102, 111, 111] = ''mzxw6'' \<and> (\<exists>pad < 5. 25 = 24 + pad
     \<and> base32_value (encode_base32_lower [102, 111, 111]) = bytes_value [102, 111, 111] * 2 ^ pad)"
proof -
  have e: "encode_base32_lower [102, 111, 111] = ''mzxw6''"
    by (simp add: encode_base32_lower_def emit_base32.simps ALPHABET_def Let_def)
  then show ?thesis using base32_faithful [of "[102, 111, 111]" "[]"] by simp
qed

text \<open>Operation ids are a faithful encoding of the run and the ordinal: for a UUIDv7 run id and a
  64-bit ordinal the constructor succeeds, what it returns is accepted back by the validating
  constructor, and two ids are equal only for the same run and the same ordinal.\<close>

theorem operation_id_faithful:
  assumes "uuid_parse run = Some (7, run)" "ordinal \<le> u64_max"
    and "uuid_parse run' = Some (7, run')" "ordinal' \<le> u64_max"
  shows "\<exists>i. OperationId_for_run uuid_parse run ordinal = Inr i \<and> OperationId_new uuid_parse i = Inr i
    \<and> (OperationId_for_run uuid_parse run' ordinal' = Inr i \<longrightarrow> run = run' \<and> ordinal = ordinal')"
proof -
  note ok = operation_id_for_run_ok [of uuid_parse, OF assms(1,2)]
    operation_id_for_run_ok [of uuid_parse, OF assms(3,4)]
  have "OperationId_new uuid_parse (''op_'' @ run @ ''_'' @ show_nat ordinal)
      = Inr (''op_'' @ run @ ''_'' @ show_nat ordinal)"
    using ok(1) by (simp add: OperationId_for_run_def)
  with ok operation_id_inj [of run ordinal run' ordinal'] show ?thesis by fastforce
qed

theorem operation_id_faithful_witness:
  "\<exists>i. OperationId_for_run (\<lambda>s. Some (7, s)) ''r1'' 12 = Inr i \<and> OperationId_new (\<lambda>s. Some (7, s)) i = Inr i
    \<and> (OperationId_for_run (\<lambda>s. Some (7, s)) ''r2'' 12 = Inr i \<longrightarrow> ''r1'' = ''r2'' \<and> (12 :: nat) = 12)"
  by (rule operation_id_faithful) (simp_all add: u64_max_def)

text \<open>A normalized executable name is a file name: it is not empty and holds no path separator,
  whatever path the identity was observed with.\<close>

theorem executable_name_is_file_name:
  assumes "from_parts identity publisher = Inr n" "ni_executable_name n = Some name"
  shows "name \<noteq> [] \<and> (\<forall>c \<in> set name. c \<noteq> CHR ''/'' \<and> c \<noteq> CHR 0x5C)"
  using from_parts_executable [OF assms] by (auto simp: is_path_sep_def)

theorem executable_name_is_file_name_witness:
  "from_parts sample_identity None = Inr sample_normalized \<and> CHR 0x5C \<notin> set ''a''"
proof -
  have "ni_executable_name sample_normalized = Some ''a''" by (simp add: sample_normalized_def)
  from executable_name_is_file_name [OF sample_normalizes this] show ?thesis
    using sample_normalizes by blast
qed

end
