(* ===== verification/PathTokens.thy ===== *)
theory PathTokens
  imports DomainModel
begin

text \<open>
  Tokenized paths of \<^verbatim>\<open>crates/reforge-domain/src/model.rs\<close>: the relative-path grammar, its
  normal form and the overlap test of two destinations. The specification side reads a relative
  path as a walk from a base directory, where \<^verbatim>\<open>..\<close> climbs.
\<close>

definition is_separator :: "char \<Rightarrow> bool" where
  "is_separator c \<longleftrightarrow> c = CHR ''/'' \<or> c = CHR 0x5C"

definition NUL :: char where "NUL = CHR 0x00"

subsection \<open>The grammar\<close>

text \<open>The loop over the segments: what it appends, or the error it returns.\<close>

fun push_segments :: "str list \<Rightarrow> str list \<Rightarrow> (str, str list) result" where
  "push_segments [] segments = Inr segments"
| "push_segments (segment # rest) segments =
     (if segment = [] \<or> segment = ''.'' then push_segments rest segments
      else if segment = ''..'' then Inl ''path token must not contain a parent segment''
      else if CHR '':'' \<in> set segment then Inl ''path token contains an invalid colon''
      else push_segments rest (segments @ [segment]))"

definition normalize_relative_path :: "str \<Rightarrow> (str, str) result" where
  "normalize_relative_path relative =
     (if NUL \<in> set relative then Inl ''path token contains NUL''
      else if starts_with relative ''/'' \<or> starts_with relative [CHR 0x5C]
        then Inl ''path token must not be absolute''
      else if 2 \<le> length relative \<and> relative ! 1 = CHR '':''
        then Inl ''path token must not contain a drive prefix''
      else if starts_with relative ''//'' \<or> starts_with relative [CHR 0x5C, CHR 0x5C]
        then Inl ''path token must not contain a UNC prefix''
      else if has_control relative then Inl ''path token contains a control character''
      else try_bind (push_segments (split_on is_separator relative) [])
             (\<lambda>segments. Inr (join_with ''/'' segments)))"

definition PathToken_new :: "KnownFolderToken \<Rightarrow> str \<Rightarrow> (str, PathToken) result" where
  "PathToken_new root relative =
     try_bind (normalize_relative_path relative) (\<lambda>relative.
       Inr \<lparr>pt_root = root, pt_relative = relative\<rparr>)"

definition PathToken_validate :: "PathToken \<Rightarrow> (str, unit) result" where
  "PathToken_validate path =
     try_bind (normalize_relative_path (pt_relative path)) (\<lambda>normalized.
       if normalized \<noteq> pt_relative path
       then Inl ''path token relative path is not normalized'' else Inr ())"

definition paths_overlap :: "PathToken \<Rightarrow> PathToken \<Rightarrow> bool" where
  "paths_overlap left right =
     (if pt_root left \<noteq> pt_root right then False
      else let l = to_ascii_lowercase (pt_relative left);
               r = to_ascii_lowercase (pt_relative right)
           in l = r \<or> (l \<noteq> [] \<and> starts_with r (l @ ''/'')) \<or> (r \<noteq> [] \<and> starts_with l (r @ ''/'')))"

subsection \<open>The walk a relative path describes\<close>

text \<open>
  Lexical resolution below a base directory: \<^verbatim>\<open>.\<close> and the empty segment stay, \<^verbatim>\<open>..\<close> goes to
  the parent.
\<close>

fun walk :: "str list \<Rightarrow> str list \<Rightarrow> str list" where
  "walk dir [] = dir"
| "walk dir (segment # rest) =
     (if segment = [] \<or> segment = ''.'' then walk dir rest
      else if segment = ''..'' then walk (butlast dir) rest
      else walk (dir @ [segment]) rest)"

definition resolve :: "str list \<Rightarrow> str \<Rightarrow> str list" where
  "resolve base relative = walk base (split_on is_separator relative)"

text \<open>A segment that may stand in a normalized path.\<close>

definition segment_ok :: "str \<Rightarrow> bool" where
  "segment_ok segment \<longleftrightarrow>
     segment \<noteq> [] \<and> segment \<noteq> ''.'' \<and> segment \<noteq> ''..'' \<and> CHR '':'' \<notin> set segment
     \<and> list_all (\<lambda>c. \<not> is_separator c) segment \<and> \<not> has_control segment"

definition keep_segment :: "str \<Rightarrow> bool" where
  "keep_segment segment \<longleftrightarrow> segment \<noteq> [] \<and> segment \<noteq> ''.''"

lemma push_segments_Inr:
  "push_segments rest segments = Inr segs \<longleftrightarrow>
     segs = segments @ filter keep_segment rest
     \<and> (\<forall>s \<in> set rest. keep_segment s \<longrightarrow> s \<noteq> ''..'' \<and> CHR '':'' \<notin> set s)"
  by (induction rest segments rule: push_segments.induct) (auto simp: keep_segment_def)

lemma walk_append: "walk dir (xs @ ys) = walk (walk dir xs) ys"
  by (induction dir xs rule: walk.induct) auto

lemma walk_kept:
  "\<forall>s \<in> set xs. keep_segment s \<longrightarrow> s \<noteq> ''..'' \<Longrightarrow> walk dir xs = dir @ filter keep_segment xs"
  by (induction dir xs rule: walk.induct) (auto simp: keep_segment_def)

subsection \<open>Normal forms\<close>

lemma has_control_append_sep:
  assumes "32 \<le> code c" "code c < 127"
  shows "has_control (xs @ c # ys) \<longleftrightarrow> has_control xs \<or> has_control ys"
  using assms by (induction xs rule: has_control.induct) (auto split: list.splits)

lemma code_slash: "32 \<le> code (CHR ''/'') \<and> code (CHR ''/'') < 127"
  "32 \<le> code (CHR 0x5C) \<and> code (CHR 0x5C) < 127"
  by simp_all

lemma has_control_split:
  "has_control s \<longleftrightarrow> (\<exists>seg \<in> set (split_on is_separator s). has_control seg)"
proof (induction s rule: length_induct)
  case (1 s)
  show ?case
  proof (cases "\<exists>c \<in> set s. is_separator c")
    case True
    then obtain xs c ys where s: "s = xs @ c # ys" "is_separator c" "\<forall>x \<in> set xs. \<not> is_separator x"
      using split_list_first_prop [of s is_separator] by blast
    have "32 \<le> code c" "code c < 127"
      using s(2) by (auto simp: is_separator_def)
    with s 1 show ?thesis
      by (simp add: has_control_append_sep split_on_append_sep)
  next
    case False
    then show ?thesis by (simp add: split_on_single)
  qed
qed

text \<open>The segments of a normalized path.\<close>

definition segments_of :: "str \<Rightarrow> str list" where
  "segments_of relative = (if relative = [] then [] else split_on is_separator relative)"

lemma segments_of_join:
  assumes "\<forall>s \<in> set segs. segment_ok s"
  shows "segments_of (join_with ''/'' segs) = segs"
proof (cases "segs = []")
  case False
  then have "join_with ''/'' segs \<noteq> []"
    using assms by (cases segs) (auto simp: join_with_Cons segment_ok_def)
  moreover have "split_on is_separator (join_with [CHR ''/''] segs) = segs"
    using assms False by (intro split_join) (auto simp: segment_ok_def list_all_iff is_separator_def)
  ultimately show ?thesis by (simp add: segments_of_def)
qed (simp add: segments_of_def)

lemma normalize_segments:
  assumes "normalize_relative_path relative = Inr t"
  shows "\<exists>segs. t = join_with ''/'' segs \<and> (\<forall>s \<in> set segs. segment_ok s)
    \<and> segs = filter keep_segment (split_on is_separator relative)
    \<and> (\<forall>s \<in> set (split_on is_separator relative). keep_segment s \<longrightarrow> s \<noteq> ''..'')"
proof -
  let ?segs = "filter keep_segment (split_on is_separator relative)"
  from assms have ctl: "\<not> has_control relative"
    and t: "t = join_with ''/'' ?segs"
    and ok: "\<forall>s \<in> set (split_on is_separator relative).
        keep_segment s \<longrightarrow> s \<noteq> ''..'' \<and> CHR '':'' \<notin> set s"
    by (auto simp: normalize_relative_path_def result_simps push_segments_Inr split: if_splits)
  have "segment_ok s" if "s \<in> set ?segs" for s
    using that ok ctl split_on_no_sep [of s is_separator relative]
    unfolding has_control_split [of relative]
    by (auto simp: segment_ok_def keep_segment_def list_all_iff)
  with t ok show ?thesis by blast
qed

lemma join_no_sep_hd:
  assumes "\<forall>s \<in> set segs. segment_ok s"
  shows "\<not> starts_with (join_with ''/'' segs) ''/''"
    "\<not> starts_with (join_with ''/'' segs) [CHR 0x5C]"
proof -
  have "join_with ''/'' segs = [] \<or> \<not> is_separator (hd (join_with ''/'' segs))"
    using assms by (cases segs) (auto simp: join_with_Cons segment_ok_def list_all_iff hd_append)
  then show "\<not> starts_with (join_with ''/'' segs) ''/''" "\<not> starts_with (join_with ''/'' segs) [CHR 0x5C]"
    by (cases "join_with ''/'' segs"; auto simp: starts_with_def is_separator_def)+
qed

lemma join_no_colon:
  "\<forall>s \<in> set segs. segment_ok s \<Longrightarrow> CHR '':'' \<notin> set (join_with ''/'' segs)"
  by (induction segs) (auto simp: join_with_Cons segment_ok_def)

lemma join_no_control:
  "\<forall>s \<in> set segs. segment_ok s \<Longrightarrow> \<not> has_control (join_with ''/'' segs)"
  by (induction segs) (auto simp: join_with_Cons segment_ok_def has_control_append_sep)

lemma nul_control: "NUL \<in> set s \<Longrightarrow> has_control s"
  by (induction s) (auto simp: NUL_def)

text \<open>A joined list of good segments is its own normal form.\<close>

lemma normalize_join:
  assumes ok: "\<forall>s \<in> set segs. segment_ok s"
  shows "normalize_relative_path (join_with ''/'' segs) = Inr (join_with ''/'' segs)"
proof -
  let ?t = "join_with ''/'' segs"
  have colon: "\<not> (2 \<le> length ?t \<and> ?t ! 1 = CHR '':'')"
    using join_no_colon [OF ok] by (metis Suc_1 Suc_le_lessD nth_mem)
  have unc: "\<not> starts_with ?t ''//''" "\<not> starts_with ?t [CHR 0x5C, CHR 0x5C]"
    using join_no_sep_hd [OF ok] by (auto simp: starts_with_iff)
  have keep: "filter keep_segment (split_on is_separator ?t) = segs"
  proof (cases "segs = []")
    case True
    then show ?thesis by (simp add: keep_segment_def)
  next
    case False
    then have "split_on is_separator ?t = segs"
      using ok by (intro split_join) (auto simp: segment_ok_def list_all_iff is_separator_def)
    then show ?thesis using ok by (auto simp: filter_id_conv segment_ok_def keep_segment_def)
  qed
  have "\<forall>s \<in> set (split_on is_separator ?t). keep_segment s \<longrightarrow> s \<noteq> ''..'' \<and> CHR '':'' \<notin> set s"
  proof (intro ballI impI)
    fix s assume "s \<in> set (split_on is_separator ?t)" "keep_segment s"
    then have "s \<in> set (filter keep_segment (split_on is_separator ?t))" by simp
    then have "segment_ok s" unfolding keep using ok by blast
    then show "s \<noteq> ''..'' \<and> CHR '':'' \<notin> set s" by (simp add: segment_ok_def)
  qed
  then have "push_segments (split_on is_separator ?t) [] = Inr segs"
    by (simp add: push_segments_Inr keep)
  with colon unc join_no_sep_hd [OF ok] join_no_control [OF ok] nul_control [of ?t] show ?thesis
    by (auto simp: normalize_relative_path_def)
qed

lemma normalize_idem:
  "normalize_relative_path relative = Inr t \<Longrightarrow> normalize_relative_path t = Inr t"
  using normalize_segments [of relative t] normalize_join by blast

lemma validate_iff:
  "PathToken_validate path = Inr () \<longleftrightarrow> normalize_relative_path (pt_relative path) = Inr (pt_relative path)"
  by (auto simp: PathToken_validate_def result_simps)

lemma new_validates: "PathToken_new root relative = Inr path \<Longrightarrow> PathToken_validate path = Inr ()"
  by (auto simp: PathToken_new_def result_simps validate_iff intro: normalize_idem)

lemma validate_segments:
  assumes "PathToken_validate path = Inr ()"
  shows "pt_relative path = join_with ''/'' (segments_of (pt_relative path))"
    "\<forall>s \<in> set (segments_of (pt_relative path)). segment_ok s"
proof -
  from assms obtain segs where s: "pt_relative path = join_with ''/'' segs" "\<forall>s \<in> set segs. segment_ok s"
    unfolding validate_iff using normalize_segments by blast
  with segments_of_join [OF s(2)] show "pt_relative path = join_with ''/'' (segments_of (pt_relative path))"
    "\<forall>s \<in> set (segments_of (pt_relative path)). segment_ok s" by simp_all
qed

subsection \<open>Resolution never leaves the base directory\<close>

lemma normalize_resolve:
  assumes "normalize_relative_path relative = Inr t"
  shows "resolve base relative = base @ segments_of t \<and> resolve base t = base @ segments_of t"
proof -
  from normalize_segments [OF assms] obtain segs where segs: "t = join_with ''/'' segs"
    "\<forall>s \<in> set segs. segment_ok s" "segs = filter keep_segment (split_on is_separator relative)"
    "\<forall>s \<in> set (split_on is_separator relative). keep_segment s \<longrightarrow> s \<noteq> ''..''" by blast
  have one: "resolve base relative = base @ segs"
    unfolding resolve_def segs(3) by (rule walk_kept [OF segs(4)])
  from normalize_segments [OF normalize_idem [OF assms]] obtain segs' where segs': "t = join_with ''/'' segs'"
    "\<forall>s \<in> set segs'. segment_ok s" "segs' = filter keep_segment (split_on is_separator t)"
    "\<forall>s \<in> set (split_on is_separator t). keep_segment s \<longrightarrow> s \<noteq> ''..''" by blast
  have two: "resolve base t = base @ segs'"
    unfolding resolve_def segs'(3) by (rule walk_kept [OF segs'(4)])
  show ?thesis
    using one two segments_of_join [OF segs(2)] segments_of_join [OF segs'(2)] segs(1) segs'(1) by simp
qed

subsection \<open>Overlap\<close>

lemma is_separator_lower [simp]: "is_separator (to_ascii_lower c) = is_separator c"
proof (cases "is_ascii_upper c")
  case True
  then have u: "65 \<le> code c" "code c \<le> 90" by (auto simp: is_ascii_upper_def)
  then have "code (to_ascii_lower c) = code c + 32" using True by (simp add: to_ascii_lower_def)
  with u show ?thesis by (auto simp: is_separator_def)
qed (simp add: to_ascii_lower_def)

lemma split_lower:
  "split_on is_separator (to_ascii_lowercase s) = map to_ascii_lowercase (split_on is_separator s)"
  by (induction s) (auto simp: to_ascii_lowercase_def split: list.splits)

lemma segments_of_lower: "segments_of (to_ascii_lowercase s) = map to_ascii_lowercase (segments_of s)"
  by (auto simp: segments_of_def split_lower) (simp_all add: to_ascii_lowercase_def)

lemma split_append_slash:
  "split_on is_separator (xs @ CHR ''/'' # ys) = split_on is_separator xs @ split_on is_separator ys"
  by (induction xs) (auto simp: is_separator_def split: list.splits)

lemma join_append:
  "xs \<noteq> [] \<Longrightarrow> ys \<noteq> [] \<Longrightarrow> join_with ''/'' (xs @ ys) = join_with ''/'' xs @ ''/'' @ join_with ''/'' ys"
  by (induction xs) (auto simp: join_with_Cons)

lemma join_map_lower:
  "to_ascii_lowercase (join_with ''/'' segs) = join_with ''/'' (map to_ascii_lowercase segs)"
proof -
  have "to_ascii_lowercase (xs @ ''/'' @ ys) = to_ascii_lowercase xs @ ''/'' @ to_ascii_lowercase ys" for xs ys
    by (simp add: to_ascii_lowercase_def to_ascii_lower_def is_ascii_upper_def)
  then show ?thesis
    by (induction segs) (auto simp: join_with_Cons, simp add: to_ascii_lowercase_def)
qed

text \<open>One lowercased path lies below another exactly when its segments extend the other's.\<close>

lemma below_iff_prefix:
  assumes l: "l = join_with ''/'' (segments_of l)" and r: "r = join_with ''/'' (segments_of r)" and "l \<noteq> []"
  shows "l = r \<or> starts_with r (l @ ''/'') \<longleftrightarrow> prefix (segments_of l) (segments_of r)"
proof
  assume "l = r \<or> starts_with r (l @ ''/'')"
  then show "prefix (segments_of l) (segments_of r)"
  proof
    assume "starts_with r (l @ ''/'')"
    then obtain t where "r = l @ CHR ''/'' # t" by (auto simp: starts_with_iff)
    then show ?thesis using \<open>l \<noteq> []\<close> by (simp add: segments_of_def split_append_slash)
  qed simp
next
  assume "prefix (segments_of l) (segments_of r)"
  then obtain zs where zs: "segments_of r = segments_of l @ zs" by (auto simp: prefix_def)
  show "l = r \<or> starts_with r (l @ ''/'')"
  proof (cases "zs = []")
    case True
    with zs l r show ?thesis by simp
  next
    case False
    have "segments_of l \<noteq> []" using l \<open>l \<noteq> []\<close> by (auto simp: segments_of_def)
    with False zs have "join_with ''/'' (segments_of r) = l @ ''/'' @ join_with ''/'' zs"
      using join_append [of "segments_of l" zs] l by simp
    with r show ?thesis by (metis append_assoc starts_with_iff)
  qed
qed

lemma paths_overlap_prefix:
  assumes "PathToken_validate a = Inr ()" "PathToken_validate b = Inr ()"
    and ne: "pt_relative a \<noteq> []" "pt_relative b \<noteq> []"
  shows "paths_overlap a b \<longleftrightarrow>
     pt_root a = pt_root b \<and>
     (let l = map to_ascii_lowercase (segments_of (pt_relative a));
          r = map to_ascii_lowercase (segments_of (pt_relative b))
      in prefix l r \<or> prefix r l)"
proof -
  let ?l = "to_ascii_lowercase (pt_relative a)" and ?r = "to_ascii_lowercase (pt_relative b)"
  have l: "?l = join_with ''/'' (segments_of ?l)"
    using validate_segments(1) [OF assms(1)] by (metis join_map_lower segments_of_lower)
  have r: "?r = join_with ''/'' (segments_of ?r)"
    using validate_segments(1) [OF assms(2)] by (metis join_map_lower segments_of_lower)
  have ne': "?l \<noteq> []" "?r \<noteq> []" using ne by (simp_all add: to_ascii_lowercase_def)
  show ?thesis
    using below_iff_prefix [OF l r ne'(1)] below_iff_prefix [OF r l ne'(2)] ne'
    by (auto simp: paths_overlap_def Let_def segments_of_lower)
qed

lemma paths_overlap_sym: "paths_overlap a b = paths_overlap b a"
  by (auto simp: paths_overlap_def Let_def)

subsection \<open>Properties\<close>

text \<open>C35. A path token can not escape its root: when the constructor accepts a relative path, both
  the text it was given and the text it stores resolve, from every base directory, to the base
  followed by good segments (no parent segment, no colon, no separator, no control character),
  and the stored token passes validation, that is, it is its own normal form.\<close>

theorem path_token_stays_below_root:
  assumes "PathToken_new root relative = Inr path"
  shows "pt_root path = root \<and> PathToken_validate path = Inr ()
    \<and> (\<exists>segs. list_all segment_ok segs
         \<and> (\<forall>base. resolve base relative = base @ segs \<and> resolve base (pt_relative path) = base @ segs))"
proof -
  from assms have n: "normalize_relative_path relative = Inr (pt_relative path)" "pt_root path = root"
    by (auto simp: PathToken_new_def result_simps)
  have v: "PathToken_validate path = Inr ()" by (rule new_validates [OF assms])
  then show ?thesis
    using n normalize_resolve [OF n(1)] validate_segments(2) [OF v] by (auto simp: list_all_iff)
qed

theorem path_token_stays_below_root_witness:
  "PathToken_new Documents ''a//./b'' = Inr \<lparr>pt_root = Documents, pt_relative = ''a/b''\<rparr>
   \<and> PathToken_validate \<lparr>pt_root = Documents, pt_relative = ''a/b''\<rparr> = Inr ()"
proof -
  have "PathToken_new Documents ''a//./b'' = Inr \<lparr>pt_root = Documents, pt_relative = ''a/b''\<rparr>"
    by code_simp
  then show ?thesis using path_token_stays_below_root by blast
qed

text \<open>The overlap test of two validated, non-root destinations is exactly: same root, and the
  segments of one are a prefix of the segments of the other when case is ignored. A shared text
  prefix that ends inside a segment is not an overlap.\<close>

theorem paths_overlap_is_segment_prefix:
  assumes "PathToken_validate a = Inr ()" "PathToken_validate b = Inr ()"
    and "pt_relative a \<noteq> []" "pt_relative b \<noteq> []"
  shows "paths_overlap a b \<longleftrightarrow>
     pt_root a = pt_root b \<and>
     (let l = map to_ascii_lowercase (segments_of (pt_relative a));
          r = map to_ascii_lowercase (segments_of (pt_relative b))
      in prefix l r \<or> prefix r l)"
  by (rule paths_overlap_prefix [OF assms])

theorem paths_overlap_is_segment_prefix_witness:
  "\<not> paths_overlap \<lparr>pt_root = Documents, pt_relative = ''app''\<rparr>
                   \<lparr>pt_root = Documents, pt_relative = ''app2''\<rparr>
   \<and> paths_overlap \<lparr>pt_root = Documents, pt_relative = ''App''\<rparr>
                   \<lparr>pt_root = Documents, pt_relative = ''app/cfg''\<rparr>"
proof -
  have v: "PathToken_validate \<lparr>pt_root = Documents, pt_relative = ''app''\<rparr> = Inr ()"
    "PathToken_validate \<lparr>pt_root = Documents, pt_relative = ''app2''\<rparr> = Inr ()"
    "PathToken_validate \<lparr>pt_root = Documents, pt_relative = ''App''\<rparr> = Inr ()"
    "PathToken_validate \<lparr>pt_root = Documents, pt_relative = ''app/cfg''\<rparr> = Inr ()" by code_simp+
  have s: "segments_of ''app'' = [''app'']" "segments_of ''app2'' = [''app2'']"
    "segments_of ''App'' = [''App'']" "segments_of ''app/cfg'' = [''app'', ''cfg'']" by code_simp+
  have l: "to_ascii_lowercase ''app'' = ''app''" "to_ascii_lowercase ''app2'' = ''app2''"
    "to_ascii_lowercase ''App'' = ''app''" by code_simp+
  show ?thesis
    using paths_overlap_is_segment_prefix [OF v(1,2)] paths_overlap_is_segment_prefix [OF v(3,4)]
    by (simp add: s l Let_def)
qed

end
