(* ===== verification/Collections.thy ===== *)
theory Collections
  imports Prelude
begin

text \<open>
  The standard collections as the code uses them. A \<^verbatim>\<open>BTreeMap\<close> is an association list sorted
  by key without duplicate keys; the locale \<open>ordered_map\<close> is its contract, and the map's
  clients rest on the facts of its interpretation. A \<^verbatim>\<open>BTreeSet\<close> that is iterated is a sorted
  distinct list (\<^const>\<open>insort_insert\<close>), one that is only tested for membership a HOL set.
  The last part is the graph search that several components share: what a work list and a set
  of seen nodes have to satisfy for the set to be the reachable one.
\<close>

subsection \<open>The contract of an ordered map\<close>

lemma map_of_rev_distinct: "distinct (map fst kvs) \<Longrightarrow> map_of (rev kvs) = map_of kvs"
  by (rule map_of_inject_set [THEN iffD2]) (simp_all add: rev_map [symmetric])

locale ordered_map =
  fixes empty :: 'm
    and insert :: "'k :: linorder \<Rightarrow> 'v \<Rightarrow> 'm \<Rightarrow> 'm"
    and remove :: "'k \<Rightarrow> 'm \<Rightarrow> 'm"
    and get :: "'m \<Rightarrow> 'k \<rightharpoonup> 'v"
    and keys :: "'m \<Rightarrow> 'k list"
    and inv :: "'m \<Rightarrow> bool"
  assumes inv_empty: "inv empty"
    and inv_insert: "inv m \<Longrightarrow> inv (insert k v m)"
    and inv_remove: "inv m \<Longrightarrow> inv (remove k m)"
    and get_empty: "get empty = Map.empty"
    and get_insert: "inv m \<Longrightarrow> get (insert k v m) = (get m)(k \<mapsto> v)"
    and get_remove: "inv m \<Longrightarrow> get (remove k m) = (get m)(k := None)"
    and keys_sorted: "inv m \<Longrightarrow> sorted (keys m) \<and> distinct (keys m)"
    and keys_dom: "inv m \<Longrightarrow> set (keys m) = dom (get m)"
begin

definition insert_all :: "('k \<times> 'v) list \<Rightarrow> 'm \<Rightarrow> 'm" where
  "insert_all kvs m = foldl (\<lambda>m (k, v). insert k v m) m kvs"

lemma insert_all_simps [simp]:
  "insert_all [] m = m" "insert_all ((k, v) # kvs) m = insert_all kvs (insert k v m)"
  by (simp_all add: insert_all_def)

lemma inv_insert_all: "inv m \<Longrightarrow> inv (insert_all kvs m)"
  by (induction kvs arbitrary: m) (auto simp: inv_insert)

lemma get_insert_all: "inv m \<Longrightarrow> get (insert_all kvs m) = get m ++ map_of (rev kvs)"
proof (induction kvs arbitrary: m)
  case (Cons kv kvs)
  obtain k v where [simp]: "kv = (k, v)" by force
  have "get (insert_all kvs (insert k v m)) = (get m)(k \<mapsto> v) ++ map_of (rev kvs)"
    using Cons by (simp add: inv_insert get_insert fun_upd_def)
  then show ?case by (simp add: map_add_upd_left)
qed simp

text \<open>A map built from entries with distinct keys holds exactly these entries, in key order.\<close>

lemma get_build:
  "distinct (map fst kvs) \<Longrightarrow> get (insert_all kvs empty) = map_of kvs"
  using get_insert_all [OF inv_empty, of kvs] by (simp add: get_empty map_of_rev_distinct)

lemma keys_build:
  assumes "distinct (map fst kvs)"
  shows "keys (insert_all kvs empty) = sort (map fst kvs)"
proof (rule sorted_distinct_set_unique)
  let ?m = "insert_all kvs empty"
  have inv: "inv ?m" by (rule inv_insert_all [OF inv_empty])
  show "sorted (keys ?m)" "distinct (keys ?m)" using keys_sorted [OF inv] by auto
  show "sorted (sort (map fst kvs))" "distinct (sort (map fst kvs))" using assms by auto
  show "set (keys ?m) = set (sort (map fst kvs))"
    using keys_dom [OF inv] get_build [OF assms] by (simp add: dom_map_of_conv_image_fst)
qed

end

subsection \<open>Sorted association lists\<close>

type_synonym ('k, 'v) btree = "('k \<times> 'v) list"

fun bt_insert :: "'k :: linorder \<Rightarrow> 'v \<Rightarrow> ('k, 'v) btree \<Rightarrow> ('k, 'v) btree" where
  "bt_insert k v [] = [(k, v)]"
| "bt_insert k v ((k', v') # m) =
     (if k < k' then (k, v) # (k', v') # m
      else if k = k' then (k, v) # m
      else (k', v') # bt_insert k v m)"

definition bt_remove :: "'k \<Rightarrow> ('k, 'v) btree \<Rightarrow> ('k, 'v) btree" where
  "bt_remove k m = filter (\<lambda>(k', _). k' \<noteq> k) m"

definition bt_keys :: "('k, 'v) btree \<Rightarrow> 'k list" where "bt_keys m = map fst m"

definition bt_inv :: "('k :: linorder, 'v) btree \<Rightarrow> bool" where
  "bt_inv m \<longleftrightarrow> sorted_wrt (<) (map fst m)"

abbreviation bt_get :: "('k, 'v) btree \<Rightarrow> 'k \<rightharpoonup> 'v" where "bt_get \<equiv> map_of"

lemma set_bt_insert: "fst ` set (bt_insert k v m) = insert k (fst ` set m)"
  by (induction k v m rule: bt_insert.induct) auto

lemma bt_inv_insert: "bt_inv m \<Longrightarrow> bt_inv (bt_insert k v m)"
  unfolding bt_inv_def
proof (induction k v m rule: bt_insert.induct)
  case (2 k v k' v' m)
  then show ?case using set_bt_insert [of k v m] by (auto simp: image_iff)
qed simp

lemma bt_get_insert: "bt_inv m \<Longrightarrow> bt_get (bt_insert k v m) = (bt_get m)(k \<mapsto> v)"
  unfolding bt_inv_def by (induction k v m rule: bt_insert.induct) (auto simp: fun_eq_iff)

lemma bt_inv_distinct: "bt_inv m \<Longrightarrow> sorted (map fst m) \<and> distinct (map fst m)"
  by (auto simp: bt_inv_def strict_sorted_iff)

lemma bt_get_remove: "bt_get (bt_remove k m) = (bt_get m)(k := None)"
  by (induction m) (auto simp: bt_remove_def fun_eq_iff)

lemma bt_inv_remove: "bt_inv m \<Longrightarrow> bt_inv (bt_remove k m)"
  by (induction m) (auto simp: bt_inv_def bt_remove_def)

interpretation bt: ordered_map "[]" bt_insert bt_remove bt_get bt_keys bt_inv
proof unfold_locales
  show "set (bt_keys m) = dom (bt_get m)" for m :: "('a \<times> 'b) list"
    by (simp add: bt_keys_def dom_map_of_conv_image_fst)
qed (auto simp: bt_inv_insert bt_inv_remove bt_get_insert bt_get_remove bt_inv_distinct bt_keys_def,
     simp_all add: bt_inv_def)

lemma bt_inv_Nil [simp]: "bt_inv []"
  by (rule bt.inv_empty)

subsection \<open>Search\<close>

text \<open>
  The invariant of a graph search: the seen set \<open>S\<close> holds the roots and only reachable nodes,
  and every seen node whose successors are not all seen is still pending.
\<close>

definition search_inv :: "('a \<times> 'a) set \<Rightarrow> 'a set \<Rightarrow> 'a set \<Rightarrow> 'a set \<Rightarrow> bool" where
  "search_inv R X S P \<longleftrightarrow>
     X \<subseteq> S \<and> P \<subseteq> S \<and> S \<subseteq> R\<^sup>* `` X \<and> (\<forall>x \<in> S - P. R `` {x} \<subseteq> S)"

lemma search_inv_start: "search_inv R X X X"
  by (auto simp: search_inv_def)

text \<open>Taking a node off the work list and adding its new successors keeps the invariant.\<close>

lemma search_inv_step:
  assumes inv: "search_inv R X S (insert s P)"
  shows "search_inv R X (S \<union> R `` {s}) (P \<union> (R `` {s} - S))"
proof -
  have s: "s \<in> R\<^sup>* `` X" using inv by (auto simp: search_inv_def)
  have "R `` {s} \<subseteq> R\<^sup>* `` X"
  proof
    fix t assume "t \<in> R `` {s}"
    with s show "t \<in> R\<^sup>* `` X" by (auto intro: rtrancl_into_rtrancl)
  qed
  moreover have "R `` {x} \<subseteq> S \<union> R `` {s}" if "x \<in> S \<union> R `` {s} - (P \<union> (R `` {s} - S))" for x
    using inv that by (cases "x = s") (auto simp: search_inv_def)
  ultimately show ?thesis using inv by (simp add: search_inv_def) blast
qed

text \<open>An empty work list means the seen nodes are exactly the reachable ones.\<close>

lemma search_inv_done:
  assumes "search_inv R X S {}"
  shows "S = R\<^sup>* `` X"
proof
  show "S \<subseteq> R\<^sup>* `` X" using assms by (simp add: search_inv_def)
  show "R\<^sup>* `` X \<subseteq> S"
  proof
    fix y assume "y \<in> R\<^sup>* `` X"
    then obtain x where "x \<in> X" and r: "(x, y) \<in> R\<^sup>*" by auto
    then have "x \<in> S" using assms by (auto simp: search_inv_def)
    with r show "y \<in> S"
      using assms by (induction rule: rtrancl_induct) (auto simp: search_inv_def)
  qed
qed

end
