(* ===== verification/PlanValidation.thy ===== *)
theory PlanValidation
  imports DomainModel Collections PathTokens
begin

text \<open>
  \<^verbatim>\<open>validate_restore_plan\<close> of \<^verbatim>\<open>crates/reforge-domain/src/model.rs\<close>: the gate every restore
  plan passes before it is approved or executed. The recursive depth-first search has fuel; the
  number of operations plus one is always enough. The specification side is \<open>plan_ok\<close>, stated
  over the prerequisite relation of the plan.
\<close>

record ModelValidationError =
  mve_code :: ReforgeErrorCode
  mve_message :: str

definition ModelValidationError_new :: "ReforgeErrorCode \<Rightarrow> str \<Rightarrow> ModelValidationError" where
  "ModelValidationError_new c message = \<lparr>mve_code = c, mve_message = message\<rparr>"

lemma mve_code_new [simp]: "mve_code (ModelValidationError_new c m) = c"
  by (simp add: ModelValidationError_new_def)

type_synonym 'a validated = "(ModelValidationError, 'a) result"

subsection \<open>Projections of operations and rules\<close>

fun operation_objects :: "OperationKind \<Rightarrow> ObjectId list" where
  "operation_objects (WriteFile _ obj _) = [obj]"
| "operation_objects (MergeJson _ obj _) = [obj]"
| "operation_objects (MergeToml _ obj _) = [obj]"
| "operation_objects (ImportWsl _ obj) = [obj]"
| "operation_objects (RestoreDockerImage _ obj) = [obj]"
| "operation_objects (RestoreDockerVolume _ obj) = [obj]"
| "operation_objects _ = []"

fun operation_destination :: "OperationKind \<Rightarrow> PathToken option" where
  "operation_destination (WriteFile destination _ _) = Some destination"
| "operation_destination (MergeJson destination _ _) = Some destination"
| "operation_destination (MergeToml destination _ _) = Some destination"
| "operation_destination _ = None"

fun rule_path :: "VerificationRule \<Rightarrow> PathToken option" where
  "rule_path (File destination _) = Some destination"
| "rule_path (FileVersion destination _ _) = Some destination"
| "rule_path (ConfigParses destination _) = Some destination"
| "rule_path (McpRegistration _ config) = Some config"
| "rule_path (BrowserArtifact profile) = Some profile"
| "rule_path _ = None"

fun verification_object :: "VerificationRule \<Rightarrow> ObjectId option" where
  "verification_object (File _ obj) = obj"
| "verification_object _ = None"

fun is_merge :: "OperationKind \<Rightarrow> bool" where
  "is_merge (MergeJson _ _ _) = True"
| "is_merge (MergeToml _ _ _) = True"
| "is_merge _ = False"

fun is_secret_environment :: "OperationKind \<Rightarrow> bool" where
  "is_secret_environment (SetUserEnvironment _ (SafeValueRef.SecretReference _ _)) = True"
| "is_secret_environment _ = False"

subsection \<open>Path checks\<close>

definition validate_path :: "PathToken \<Rightarrow> unit validated" where
  "validate_path path =
     (case PathToken_validate path of
        Inl message \<Rightarrow> Inl (ModelValidationError_new InvalidPath message)
      | Inr u \<Rightarrow> Inr u)"

definition validate_operation_paths :: "Operation \<Rightarrow> unit validated" where
  "validate_operation_paths operation =
     try_bind (case operation_destination (op_kind operation) of
                 None \<Rightarrow> Inr () | Some path \<Rightarrow> validate_path path) (\<lambda>_.
     case op_kind operation of
       AppendUserPath entries \<Rightarrow> try_all validate_path entries
     | _ \<Rightarrow> Inr ())"

definition validate_verification_rule :: "VerificationRule \<Rightarrow> unit validated" where
  "validate_verification_rule rule =
     (case rule_path rule of None \<Rightarrow> Inr () | Some path \<Rightarrow> validate_path path)"

subsection \<open>Indexing and prerequisites\<close>

type_synonym op_index = "(OperationId, Operation) btree"

definition index_operation ::
  "Operation \<Rightarrow> OperationId list \<times> str set \<times> op_index
   \<Rightarrow> (OperationId list \<times> str set \<times> op_index) validated" where
  "index_operation operation = (\<lambda>(operation_ids, operation_keys, operations_by_id).
     if op_id operation \<in> set operation_ids
     then Inl (ModelValidationError_new SchemaInvalid ''restore plan contains duplicate operation IDs'')
     else if op_idempotency_key operation \<in> operation_keys
     then Inl (ModelValidationError_new SchemaInvalid ''restore plan contains duplicate idempotency keys'')
     else Inr (insort_insert (op_id operation) operation_ids,
               insert (op_idempotency_key operation) operation_keys,
               bt_insert (op_id operation) operation operations_by_id))"

definition check_prerequisites :: "op_index \<Rightarrow> Operation \<Rightarrow> unit validated" where
  "check_prerequisites operations_by_id operation =
     try_all (\<lambda>prerequisite.
        if bt_get operations_by_id prerequisite = None
        then Inl (ModelValidationError_new SchemaInvalid ''restore plan contains a missing prerequisite'')
        else Inr ()) (op_prerequisites operation)"

text \<open>\<^verbatim>\<open>visit_operation\<close>; the state is the pair of the visiting and the visited set.\<close>

fun visit_operation ::
  "nat \<Rightarrow> op_index \<Rightarrow> OperationId \<Rightarrow> OperationId set \<times> OperationId set
   \<Rightarrow> (ModelValidationError abort, OperationId set \<times> OperationId set) result" where
  "visit_operation 0 operations i st = Inl OutOfFuel"
| "visit_operation (Suc fuel) operations i st =
     (if i \<in> snd st then Inr st
      else if i \<in> fst st
      then Inl (Fail (ModelValidationError_new DependencyCycle
             ''restore plan operation prerequisites contain a cycle''))
      else try_bind (expect (bt_get operations i)) (\<lambda>operation.
           try_bind (try_fold (visit_operation fuel operations) (op_prerequisites operation)
                      (insert i (fst st), snd st)) (\<lambda>(visiting, visited).
           Inr (visiting - {i}, insert i visited))))"

text \<open>\<^verbatim>\<open>operation_precedes\<close>; the head of the list is the top of the stack.\<close>

function precedes_loop :: "op_index \<Rightarrow> OperationId \<Rightarrow> OperationId list \<Rightarrow> OperationId set \<Rightarrow> bool" where
  "precedes_loop operations before [] seen = False"
| "precedes_loop operations before (current # pending) seen =
     (if current \<in> seen then precedes_loop operations before pending seen
      else (case bt_get operations current of
              None \<Rightarrow> precedes_loop operations before pending (insert current seen)
            | Some operation \<Rightarrow>
                if before \<in> set (op_prerequisites operation) then True
                else precedes_loop operations before
                       (rev (op_prerequisites operation) @ pending) (insert current seen)))"
  by pat_completeness auto
termination
proof (relation "measures [\<lambda>(operations, _, _, seen). card (fst ` set operations - seen),
                           \<lambda>(_, _, pending, _). length pending]", goal_cases)
  case (3 operations before current pending seen)
  then have "current \<notin> fst ` set operations" by (simp add: map_of_eq_None_iff)
  then have "fst ` set operations - insert current seen = fst ` set operations - seen" by auto
  then show ?case by simp
next
  case (4 operations before current pending seen operation)
  then have "current \<in> fst ` set operations" by (metis domI dom_map_of_conv_image_fst)
  with 4 have "card (fst ` set operations - insert current seen) < card (fst ` set operations - seen)"
    by (intro psubset_card_mono) auto
  then show ?case by simp
qed auto

definition operation_precedes :: "op_index \<Rightarrow> OperationId \<Rightarrow> OperationId \<Rightarrow> bool" where
  "operation_precedes operations before after = precedes_loop operations before [after] {}"

subsection \<open>Checks of one operation and of a pair of writes\<close>

definition missing_object :: "str \<Rightarrow> ModelValidationError" where
  "missing_object what =
     ModelValidationError_new SchemaInvalid (what @ '' references an object absent from the package index'')"

definition check_rule :: "ObjectId set \<Rightarrow> VerificationRule \<Rightarrow> unit validated" where
  "check_rule indexed_objects rule =
     try_bind (validate_verification_rule rule) (\<lambda>_.
     case verification_object rule of
       Some obj \<Rightarrow> if obj \<notin> indexed_objects then Inl (missing_object ''verification'') else Inr ()
     | None \<Rightarrow> Inr ())"

definition check_destination :: "Operation \<Rightarrow> (Operation \<times> PathToken) list \<Rightarrow> (Operation \<times> PathToken) list validated" where
  "check_destination operation writes =
     (case operation_destination (op_kind operation) of
        None \<Rightarrow> Inr writes
      | Some path \<Rightarrow>
          if pt_root path = ProgramFiles \<or> pt_root path = ProgramFilesX86
          then Inl (ModelValidationError_new SecurityPolicy ''generic file operations cannot target Program Files'')
          else if pt_root path = ProgramData \<and> \<not> op_requires_elevation operation
          then Inl (ModelValidationError_new SecurityPolicy ''ProgramData writes require an explicit elevation boundary'')
          else Inr (writes @ [(operation, path)]))"

definition check_operation ::
  "ObjectId set \<Rightarrow> Operation \<Rightarrow> (Operation \<times> PathToken) list \<Rightarrow> (Operation \<times> PathToken) list validated" where
  "check_operation indexed_objects operation writes =
     try_bind (validate_operation_paths operation) (\<lambda>_.
     try_bind (try_all (\<lambda>obj. if obj \<notin> indexed_objects then Inl (missing_object ''operation'') else Inr ())
                (operation_objects (op_kind operation))) (\<lambda>_.
     try_bind (try_all (check_rule indexed_objects) (op_verification operation)) (\<lambda>_.
     try_bind (case op_precondition operation of
                 ArtifactPresent obj \<Rightarrow>
                   if obj \<notin> indexed_objects then Inl (missing_object ''precondition'') else Inr ()
               | _ \<Rightarrow> Inr ()) (\<lambda>_.
     try_bind (check_destination operation writes) (\<lambda>writes.
     if is_secret_environment (op_kind operation)
     then Inl (ModelValidationError_new SecurityPolicy
            ''plain user environment writes cannot consume secret references'')
     else Inr writes)))))"

definition check_write_pair ::
  "op_index \<Rightarrow> Operation \<times> PathToken \<Rightarrow> Operation \<times> PathToken \<Rightarrow> unit validated" where
  "check_write_pair operations_by_id = (\<lambda>(left_operation, left_path) (right_operation, right_path).
     if is_merge (op_kind left_operation) = is_merge (op_kind right_operation)
        \<or> \<not> paths_overlap left_path right_path then Inr ()
     else if operation_precedes operations_by_id (op_id left_operation) (op_id right_operation)
        \<or> operation_precedes operations_by_id (op_id right_operation) (op_id left_operation) then Inr ()
     else Inl (ModelValidationError_new SecurityPolicy
            ''overlapping file and merge operations lack deterministic ordering''))"

fun check_write_order :: "op_index \<Rightarrow> (Operation \<times> PathToken) list \<Rightarrow> unit validated" where
  "check_write_order operations_by_id [] = Inr ()"
| "check_write_order operations_by_id (write # writes) =
     try_bind (try_all (check_write_pair operations_by_id write) writes) (\<lambda>_.
     check_write_order operations_by_id writes)"

subsection \<open>The validator\<close>

definition validate_restore_plan ::
  "RestorePlan \<Rightarrow> ObjectIndex \<Rightarrow> (ModelValidationError abort, unit) result" where
  "validate_restore_plan plan object_index =
     (let operations = rp_operations plan; objects = map oe_id (oi_objects object_index) in
     try_bind (lift_fail (try_fold index_operation operations ([], {}, []))) (\<lambda>(operation_ids, _, operations_by_id).
     try_bind (lift_fail (try_all (check_prerequisites operations_by_id) operations)) (\<lambda>_.
     try_bind (try_fold (visit_operation (Suc (length operations)) operations_by_id) operation_ids ({}, {})) (\<lambda>_.
     if card (set objects) \<noteq> length objects
     then Inl (Fail (ModelValidationError_new SchemaInvalid ''object index contains duplicate object IDs''))
     else
     try_bind (lift_fail (try_fold (check_operation (set objects)) operations [])) (\<lambda>writes.
     lift_fail (check_write_order operations_by_id writes))))))"

subsection \<open>Specification\<close>

text \<open>The prerequisite relation: an operation and each of its prerequisites.\<close>

definition prereq_rel :: "Operation list \<Rightarrow> (OperationId \<times> OperationId) set" where
  "prereq_rel operations =
     {(op_id operation, p) |operation p. operation \<in> set operations \<and> p \<in> set (op_prerequisites operation)}"

definition path_ok :: "PathToken \<Rightarrow> bool" where
  "path_ok path \<longleftrightarrow> PathToken_validate path = Inr ()"

definition operation_paths :: "Operation \<Rightarrow> PathToken list" where
  "operation_paths operation =
     (case operation_destination (op_kind operation) of None \<Rightarrow> [] | Some p \<Rightarrow> [p])
     @ (case op_kind operation of AppendUserPath entries \<Rightarrow> entries | _ \<Rightarrow> [])
     @ List.map_filter rule_path (op_verification operation)"

definition referenced_objects :: "Operation \<Rightarrow> ObjectId list" where
  "referenced_objects operation =
     operation_objects (op_kind operation)
     @ List.map_filter verification_object (op_verification operation)
     @ (case op_precondition operation of ArtifactPresent obj \<Rightarrow> [obj] | _ \<Rightarrow> [])"

text \<open>Where a generic file operation may write.\<close>

definition destination_ok :: "Operation \<Rightarrow> bool" where
  "destination_ok operation \<longleftrightarrow>
     (case operation_destination (op_kind operation) of
        None \<Rightarrow> True
      | Some p \<Rightarrow> pt_root p \<noteq> ProgramFiles \<and> pt_root p \<noteq> ProgramFilesX86
                  \<and> (pt_root p = ProgramData \<longrightarrow> op_requires_elevation operation))"

definition operation_ok :: "ObjectId set \<Rightarrow> Operation \<Rightarrow> bool" where
  "operation_ok objects operation \<longleftrightarrow>
     list_all path_ok (operation_paths operation)
     \<and> set (referenced_objects operation) \<subseteq> objects
     \<and> destination_ok operation
     \<and> \<not> is_secret_environment (op_kind operation)"

text \<open>A file write and a merge into overlapping destinations are ordered by prerequisites.\<close>

definition writes_ordered :: "Operation list \<Rightarrow> bool" where
  "writes_ordered operations \<longleftrightarrow>
     (\<forall>l \<in> set operations. \<forall>r \<in> set operations. \<forall>p q.
        operation_destination (op_kind l) = Some p \<and> operation_destination (op_kind r) = Some q
        \<and> is_merge (op_kind l) \<noteq> is_merge (op_kind r) \<and> paths_overlap p q \<longrightarrow>
        (op_id l, op_id r) \<in> (prereq_rel operations)\<^sup>+ \<or> (op_id r, op_id l) \<in> (prereq_rel operations)\<^sup>+)"

definition plan_ok :: "RestorePlan \<Rightarrow> ObjectIndex \<Rightarrow> bool" where
  "plan_ok plan object_index \<longleftrightarrow>
     (let operations = rp_operations plan; objects = map oe_id (oi_objects object_index) in
        distinct (map op_id operations)
      \<and> distinct (map op_idempotency_key operations)
      \<and> (\<forall>operation \<in> set operations. set (op_prerequisites operation) \<subseteq> set (map op_id operations))
      \<and> acyclic (prereq_rel operations)
      \<and> distinct objects
      \<and> list_all (operation_ok (set objects)) operations
      \<and> writes_ordered operations)"

subsection \<open>Indexing\<close>

definition index_pairs :: "Operation list \<Rightarrow> (OperationId \<times> Operation) list" where
  "index_pairs operations = map (\<lambda>operation. (op_id operation, operation)) operations"

lemma index_pairs_simps [simp]:
  "map fst (index_pairs ops) = map op_id ops" "index_pairs (x # ops) = (op_id x, x) # index_pairs ops"
  "index_pairs [] = []"
  by (simp_all add: index_pairs_def)

lemma set_index_pairs: "(i, x) \<in> set (index_pairs ops) \<longleftrightarrow> x \<in> set ops \<and> op_id x = i"
  by (auto simp: index_pairs_def)

lemma index_operation_apply:
  "index_operation x (ids, keys, m) =
     (if op_id x \<in> set ids
      then Inl (ModelValidationError_new SchemaInvalid ''restore plan contains duplicate operation IDs'')
      else if op_idempotency_key x \<in> keys
      then Inl (ModelValidationError_new SchemaInvalid ''restore plan contains duplicate idempotency keys'')
      else Inr (insort_insert (op_id x) ids, insert (op_idempotency_key x) keys, bt_insert (op_id x) x m))"
  by (simp add: index_operation_def)

lemma index_fold_gen:
  "try_fold index_operation ops (ids, keys, m) = Inr (ids', keys', m') \<Longrightarrow>
     distinct (map op_id ops) \<and> set ids \<inter> set (map op_id ops) = {}
     \<and> distinct (map op_idempotency_key ops) \<and> keys \<inter> set (map op_idempotency_key ops) = {}
     \<and> set ids' = set ids \<union> set (map op_id ops) \<and> m' = bt.insert_all (index_pairs ops) m"
proof (induction ops arbitrary: ids keys m)
  case (Cons x xs)
  let ?ids = "insort_insert (op_id x) ids" and ?keys = "insert (op_idempotency_key x) keys"
    and ?m = "bt_insert (op_id x) x m"
  from Cons.prems have new: "op_id x \<notin> set ids" "op_idempotency_key x \<notin> keys"
    and rec: "try_fold index_operation xs (?ids, ?keys, ?m) = Inr (ids', keys', m')"
    by (auto simp: index_operation_apply split: if_splits)
  from Cons.IH [OF rec] new show ?case by (auto simp: set_insort_insert)
qed simp

lemma index_fold_ok:
  assumes "distinct (map op_id ops)" "distinct (map op_idempotency_key ops)"
    "set ids \<inter> set (map op_id ops) = {}" "keys \<inter> set (map op_idempotency_key ops) = {}"
  shows "\<exists>r. try_fold index_operation ops (ids, keys, m) = Inr r"
  using assms
proof (induction ops arbitrary: ids keys m)
  case (Cons x xs)
  then show ?case
    using Cons.IH [of "insort_insert (op_id x) ids" "insert (op_idempotency_key x) keys" "bt_insert (op_id x) x m"]
    by (auto simp: index_operation_apply set_insort_insert)
qed simp

lemma index_fold_start:
  assumes "try_fold index_operation ops ([], {}, []) = Inr (ids, keys, m)"
  shows "distinct (map op_id ops)" "distinct (map op_idempotency_key ops)"
    "set ids = set (map op_id ops)" "bt_get m = map_of (index_pairs ops)"
  using index_fold_gen [OF assms] bt.get_build [of "index_pairs ops"] by auto

subsection \<open>The relation an index describes\<close>

definition index_rel :: "op_index \<Rightarrow> (OperationId \<times> OperationId) set" where
  "index_rel m = {(i, p). \<exists>operation. bt_get m i = Some operation \<and> p \<in> set (op_prerequisites operation)}"

lemma prereq_relI: "x \<in> set ops \<Longrightarrow> p \<in> set (op_prerequisites x) \<Longrightarrow> (op_id x, p) \<in> prereq_rel ops"
  by (auto simp: prereq_rel_def)

lemma index_rel_prereq:
  assumes "distinct (map op_id ops)" "bt_get m = map_of (index_pairs ops)"
  shows "index_rel m = prereq_rel ops"
proof -
  have "bt_get m i = Some x \<longleftrightarrow> x \<in> set ops \<and> op_id x = i" for i x
    using assms map_of_eq_Some_iff [of "index_pairs ops" i x] index_pairs_simps(1) [of ops]
    by (simp add: set_index_pairs)
  then show ?thesis by (auto simp: index_rel_def prereq_rel_def)
qed

subsection \<open>The order test decides the transitive prerequisite relation\<close>

lemma precedes_loop_sound:
  "precedes_loop m b pending seen \<Longrightarrow> \<exists>x \<in> set pending. (x, b) \<in> (index_rel m)\<^sup>+"
proof (induction m b pending seen rule: precedes_loop.induct)
  case (2 m b current pending seen)
  show ?case
  proof (cases "current \<in> seen")
    case False
    show ?thesis
    proof (cases "bt_get m current")
      case (Some x)
      have edge: "(current, p) \<in> index_rel m" if "p \<in> set (op_prerequisites x)" for p
        using that Some by (auto simp: index_rel_def)
      show ?thesis
      proof (cases "b \<in> set (op_prerequisites x)")
        case True
        then show ?thesis using edge by auto
      next
        case b: False
        with False Some "2.prems" "2.IH"(3) [OF False Some b]
        obtain y where "y \<in> set (rev (op_prerequisites x) @ pending)" "(y, b) \<in> (index_rel m)\<^sup>+"
          by auto
        then show ?thesis using edge by (auto intro: trancl_into_trancl2)
      qed
    qed (use False 2 in auto)
  qed (use 2 in auto)
qed simp

lemma precedes_loop_complete:
  assumes "\<not> precedes_loop m b pending seen"
    and "\<forall>x \<in> seen. \<forall>y. (x, y) \<in> index_rel m \<longrightarrow> y \<noteq> b \<and> y \<in> seen \<union> set pending"
    and "x \<in> seen \<union> set pending"
  shows "(x, b) \<notin> (index_rel m)\<^sup>+"
  using assms
proof (induction m b pending seen arbitrary: x rule: precedes_loop.induct)
  case (1 m b seen)
  have "y \<in> seen \<and> y \<noteq> b" if "(x, y) \<in> (index_rel m)\<^sup>+" for y
    using that 1 by (induction rule: trancl_induct) auto
  then show ?case by blast
next
  case (2 m b current pending seen)
  show ?case
  proof (cases "current \<in> seen")
    case True
    with 2 show ?thesis by auto
  next
    case False
    show ?thesis
    proof (cases "bt_get m current")
      case None
      then have "\<forall>y. (current, y) \<notin> index_rel m" by (auto simp: index_rel_def)
      with None False 2 show ?thesis by auto
    next
      case (Some op)
      with False "2.prems"(1) have b: "b \<notin> set (op_prerequisites op)"
        and rec: "\<not> precedes_loop m b (rev (op_prerequisites op) @ pending) (insert current seen)"
        by (auto split: if_splits)
      have "\<forall>y. (current, y) \<in> index_rel m \<longrightarrow> y \<in> set (op_prerequisites op)"
        using Some by (auto simp: index_rel_def)
      then show ?thesis
        using "2.IH"(3) [OF False Some b rec] "2.prems"(2,3) b by auto
    qed
  qed
qed

lemma operation_precedes_iff:
  "operation_precedes m before after \<longleftrightarrow> (after, before) \<in> (index_rel m)\<^sup>+"
  using precedes_loop_sound [of m before "[after]" "{}"]
    precedes_loop_complete [of m before "[after]" "{}" after]
  by (auto simp: operation_precedes_def simp del: precedes_loop.simps)

subsection \<open>The depth-first search finds exactly the cycles\<close>

definition dfs_inv :: "('a \<times> 'a) set \<Rightarrow> 'a set \<Rightarrow> 'a set \<Rightarrow> bool" where
  "dfs_inv R visiting visited \<longleftrightarrow>
     visiting \<inter> visited = {} \<and> R `` visited \<subseteq> visited \<and> (\<forall>v \<in> visited. (v, v) \<notin> R\<^sup>+)"

lemma dfs_inv_finish:
  assumes inv: "dfs_inv R (insert i V) D" and succ: "R `` {i} \<subseteq> D" and new: "i \<notin> V"
  shows "dfs_inv R V (insert i D)"
proof -
  have closed: "R `` D \<subseteq> D" and i: "i \<notin> D" using inv by (auto simp: dfs_inv_def)
  have "(i, i) \<notin> R\<^sup>+"
  proof
    assume "(i, i) \<in> R\<^sup>+"
    then obtain p where "(i, p) \<in> R" "(p, i) \<in> R\<^sup>*" by (metis tranclD)
    then have "i \<in> R\<^sup>* `` D" using succ by auto
    then have "i \<in> D" using Image_closed_trancl [OF closed] by simp
    with i show False by simp
  qed
  with inv succ new show ?thesis by (auto simp: dfs_inv_def)
qed

lemma visit_fold_ok:
  assumes step: "\<And>i V D V' D'. visit_operation n m i (V, D) = Inr (V', D') \<Longrightarrow> dfs_inv R V D \<Longrightarrow>
      V' = V \<and> D \<subseteq> D' \<and> i \<in> D' \<and> dfs_inv R V D'"
    and "try_fold (visit_operation n m) ps (V, D) = Inr (V', D')" "dfs_inv R V D"
  shows "V' = V \<and> D \<subseteq> D' \<and> set ps \<subseteq> D' \<and> dfs_inv R V D'"
  using assms(2,3)
proof (induction ps arbitrary: D)
  case (Cons p ps)
  then obtain V1 D1 where v: "visit_operation n m p (V, D) = Inr (V1, D1)"
    and rec: "try_fold (visit_operation n m) ps (V1, D1) = Inr (V', D')"
    by (auto simp: result_simps)
  from step [OF v Cons.prems(2)] have s: "V1 = V" "D \<subseteq> D1" "p \<in> D1" "dfs_inv R V D1" by auto
  from Cons.IH [of D1] rec s show ?case by auto
qed simp

lemma visit_ok:
  "visit_operation n m i (V, D) = Inr (V', D') \<Longrightarrow> dfs_inv (index_rel m) V D \<Longrightarrow>
     V' = V \<and> D \<subseteq> D' \<and> i \<in> D' \<and> dfs_inv (index_rel m) V D'"
proof (induction n arbitrary: i V D V' D')
  case (Suc n)
  show ?case
  proof (cases "i \<in> D")
    case False
    with Suc.prems(1) obtain x D1 V1 where i: "i \<notin> V" and x: "bt_get m i = Some x"
      and f: "try_fold (visit_operation n m) (op_prerequisites x) (insert i V, D) = Inr (V1, D1)"
      and r: "V' = V1 - {i}" "D' = insert i D1"
      by (auto simp: result_simps split: if_splits)
    have "dfs_inv (index_rel m) (insert i V) D" using Suc.prems(2) False by (auto simp: dfs_inv_def)
    from visit_fold_ok [OF Suc.IH f this]
    have fold: "V1 = insert i V" "D \<subseteq> D1" "set (op_prerequisites x) \<subseteq> D1" "dfs_inv (index_rel m) (insert i V) D1"
      by auto
    have "index_rel m `` {i} \<subseteq> D1" using fold(3) x by (auto simp: index_rel_def)
    from dfs_inv_finish [OF fold(4) this i] fold r i show ?thesis by auto
  qed (use Suc.prems in auto)
qed simp

lemma visit_error:
  assumes "visit_operation n m i (V, D) = Inl e" "dfs_inv (index_rel m) V D"
    and "\<forall>v \<in> V. (v, i) \<in> (index_rel m)\<^sup>+" "i \<in> dom (bt_get m)"
    and "\<forall>j x. bt_get m j = Some x \<longrightarrow> set (op_prerequisites x) \<subseteq> dom (bt_get m)"
    and "card (dom (bt_get m) - V) < n"
  shows "(\<exists>err. e = Fail err \<and> mve_code err = DependencyCycle) \<and> \<not> acyclic (index_rel m)"
  using assms(1-4,6)
proof (induction n arbitrary: i V D)
  case (Suc n)
  show ?case
  proof (cases "i \<in> V")
    case True
    with Suc.prems have "(i, i) \<in> (index_rel m)\<^sup>+" by blast
    with True Suc.prems show ?thesis by (auto simp: acyclic_def split: if_splits)
  next
    case False
    from Suc.prems obtain x where x: "bt_get m i = Some x" by auto
    let ?V = "insert i V"
    have D: "i \<notin> D" using Suc.prems(1) by auto
    with False x Suc.prems(1)
    have f: "try_fold (visit_operation n m) (op_prerequisites x) (?V, D) = Inl e"
      by (auto simp: result_simps split: prod.splits)
    have inv: "dfs_inv (index_rel m) ?V D" using Suc.prems(2) D by (auto simp: dfs_inv_def)
    have "\<exists>p t. p \<in> set (op_prerequisites x) \<and> (fst t = ?V \<and> dfs_inv (index_rel m) ?V (snd t))
        \<and> visit_operation n m p t = Inl e"
      by (rule try_fold_error_invariant [OF f]) (use inv visit_ok in \<open>auto, fastforce+\<close>)
    then obtain p D1 where p: "p \<in> set (op_prerequisites x)" and inv1: "dfs_inv (index_rel m) ?V D1"
      and e: "visit_operation n m p (?V, D1) = Inl e" by auto
    have edge: "(i, p) \<in> index_rel m" using p x by (auto simp: index_rel_def)
    have reach: "\<forall>v \<in> ?V. (v, p) \<in> (index_rel m)\<^sup>+"
      using edge Suc.prems(3) by (auto intro: trancl_into_trancl)
    have pd: "p \<in> dom (bt_get m)" using assms(5) x p by blast
    have "card (dom (bt_get m) - ?V) < card (dom (bt_get m) - V)"
      using Suc.prems(4) False by (intro psubset_card_mono) (auto simp: finite_dom_map_of)
    with Suc.prems(5) have "card (dom (bt_get m) - ?V) < n" by simp
    from Suc.IH [OF e inv1 reach pd this] show ?thesis .
  qed
qed simp

lemma visit_all:
  assumes dom: "dom (bt_get m) = set ids"
    and closed: "\<forall>j x. bt_get m j = Some x \<longrightarrow> set (op_prerequisites x) \<subseteq> dom (bt_get m)"
    and fuel: "card (set ids) < n"
  shows "(\<exists>st. try_fold (visit_operation n m) ids ({}, {}) = Inr st) \<and> acyclic (index_rel m)
     \<or> (\<exists>err. try_fold (visit_operation n m) ids ({}, {}) = Inl (Fail err) \<and> mve_code err = DependencyCycle)
       \<and> \<not> acyclic (index_rel m)"
proof (cases "try_fold (visit_operation n m) ids ({}, {})")
  case (Inr st)
  obtain V D where st: "st = (V, D)" by force
  have "set ids \<subseteq> D" "dfs_inv (index_rel m) {} D"
    using visit_fold_ok [OF visit_ok Inr [unfolded st]] by (auto simp: dfs_inv_def)
  moreover have "x \<in> set ids" if "(x, x) \<in> (index_rel m)\<^sup>+" for x
    using that dom by (auto simp: index_rel_def dest!: tranclD)
  ultimately have "acyclic (index_rel m)" unfolding acyclic_def dfs_inv_def by blast
  with Inr show ?thesis by simp
next
  case (Inl e)
  have "\<exists>i t. i \<in> set ids \<and> (fst t = {} \<and> dfs_inv (index_rel m) {} (snd t))
      \<and> visit_operation n m i t = Inl e"
    by (rule try_fold_error_invariant [OF Inl]) (use visit_ok in \<open>auto simp: dfs_inv_def, fastforce+\<close>)
  then obtain i D where "i \<in> set ids" "dfs_inv (index_rel m) {} D" "visit_operation n m i ({}, D) = Inl e"
    by auto
  then show ?thesis
    using visit_error [of n m i "{}" D e] dom closed fuel Inl by auto
qed

subsection \<open>One operation, and the pairs of writes\<close>

lemma validate_path_ok [simp]: "validate_path p = Inr u \<longleftrightarrow> path_ok p"
  by (auto simp: validate_path_def path_ok_def split: sum.splits)

lemma set_map_filter: "set (List.map_filter f xs) = {y. \<exists>x \<in> set xs. f x = Some y}"
  by (induction xs) (auto simp: List.map_filter_simps split: option.splits)

lemma check_rule_ok:
  "check_rule objects rule = Inr u \<longleftrightarrow>
     (\<forall>p. rule_path rule = Some p \<longrightarrow> path_ok p) \<and> (\<forall>obj. verification_object rule = Some obj \<longrightarrow> obj \<in> objects)"
  by (auto simp: check_rule_def validate_verification_rule_def result_simps split: option.splits if_splits)

lemma check_destination_ok:
  "check_destination x writes = Inr writes' \<longleftrightarrow>
     destination_ok x \<and>
     writes' = writes @ (case operation_destination (op_kind x) of None \<Rightarrow> [] | Some p \<Rightarrow> [(x, p)])"
  by (auto simp: check_destination_def destination_ok_def split: option.splits if_splits)

lemma validate_operation_paths_ok:
  "validate_operation_paths x = Inr u \<longleftrightarrow>
     (\<forall>p. operation_destination (op_kind x) = Some p \<longrightarrow> path_ok p)
     \<and> (\<forall>entries. op_kind x = AppendUserPath entries \<longrightarrow> (\<forall>p \<in> set entries. path_ok p))"
  by (auto simp: validate_operation_paths_def result_simps split: option.splits OperationKind.splits)

lemma operation_ok_unfold:
  "operation_ok objects x \<longleftrightarrow>
     validate_operation_paths x = Inr ()
     \<and> set (operation_objects (op_kind x)) \<subseteq> objects
     \<and> (\<forall>rule \<in> set (op_verification x). check_rule objects rule = Inr ())
     \<and> (\<forall>obj. op_precondition x = ArtifactPresent obj \<longrightarrow> obj \<in> objects)
     \<and> destination_ok x \<and> \<not> is_secret_environment (op_kind x)"
proof -
  have paths: "list_all path_ok (operation_paths x) \<longleftrightarrow>
      validate_operation_paths x = Inr ()
      \<and> (\<forall>rule \<in> set (op_verification x). \<forall>p. rule_path rule = Some p \<longrightarrow> path_ok p)"
    unfolding validate_operation_paths_ok operation_paths_def list_all_iff
    by (cases "op_kind x") (auto simp: set_map_filter)
  have objects: "set (referenced_objects x) \<subseteq> objects \<longleftrightarrow>
      set (operation_objects (op_kind x)) \<subseteq> objects
      \<and> (\<forall>rule \<in> set (op_verification x). \<forall>obj. verification_object rule = Some obj \<longrightarrow> obj \<in> objects)
      \<and> (\<forall>obj. op_precondition x = ArtifactPresent obj \<longrightarrow> obj \<in> objects)"
    unfolding referenced_objects_def
    by (cases "op_precondition x") (auto simp: set_map_filter)
  show ?thesis
    unfolding operation_ok_def paths objects check_rule_ok by blast
qed

definition op_writes :: "Operation list \<Rightarrow> (Operation \<times> PathToken) list" where
  "op_writes ops = concat (map (\<lambda>x. case operation_destination (op_kind x) of None \<Rightarrow> [] | Some p \<Rightarrow> [(x, p)]) ops)"

lemma check_operation_ok:
  "check_operation objects x writes = Inr writes' \<longleftrightarrow>
     operation_ok objects x
     \<and> writes' = writes @ (case operation_destination (op_kind x) of None \<Rightarrow> [] | Some p \<Rightarrow> [(x, p)])"
proof -
  have obj: "(if obj \<notin> objects then Inl e else Inr ()) = Inr () \<longleftrightarrow> obj \<in> objects" for obj and e :: ModelValidationError
    by simp
  show ?thesis
    unfolding check_operation_def operation_ok_unfold
    by (auto simp: result_simps check_destination_ok obj split: if_splits Precondition.splits)
qed

lemma check_operations_ok:
  "try_fold (check_operation objects) ops writes = Inr writes' \<longleftrightarrow>
     list_all (operation_ok objects) ops \<and> writes' = writes @ op_writes ops"
  by (induction ops arbitrary: writes) (auto simp: result_simps check_operation_ok op_writes_def)

lemma check_write_order_ok:
  assumes "\<And>a b. check_write_pair m a b = Inr () \<longleftrightarrow> P a b" "\<And>a b. P a b = P b a" "\<And>a. P a a"
  shows "check_write_order m writes = Inr u \<longleftrightarrow> (\<forall>a \<in> set writes. \<forall>b \<in> set writes. P a b)"
proof (induction writes)
  case (Cons w ws)
  then show ?case using assms by (auto simp: result_simps)
qed simp

definition pair_ordered :: "(OperationId \<times> OperationId) set \<Rightarrow> Operation \<times> PathToken \<Rightarrow> Operation \<times> PathToken \<Rightarrow> bool" where
  "pair_ordered R a b \<longleftrightarrow>
     is_merge (op_kind (fst a)) \<noteq> is_merge (op_kind (fst b)) \<and> paths_overlap (snd a) (snd b) \<longrightarrow>
     (op_id (fst a), op_id (fst b)) \<in> R\<^sup>+ \<or> (op_id (fst b), op_id (fst a)) \<in> R\<^sup>+"

lemma check_write_pair_ok: "check_write_pair m a b = Inr u \<longleftrightarrow> pair_ordered (index_rel m) a b"
  by (auto simp: check_write_pair_def pair_ordered_def operation_precedes_iff split: prod.splits)

lemma writes_ordered_pairs:
  "writes_ordered ops \<longleftrightarrow> (\<forall>a \<in> set (op_writes ops). \<forall>b \<in> set (op_writes ops). pair_ordered (prereq_rel ops) a b)"
proof -
  have mem: "(x, p) \<in> set (op_writes ops) \<longleftrightarrow> x \<in> set ops \<and> operation_destination (op_kind x) = Some p" for x p
    by (auto simp: op_writes_def split: option.splits)
  show ?thesis
    unfolding writes_ordered_def pair_ordered_def
    by (simp add: Ball_def split_paired_All mem) blast
qed

subsection \<open>The validator meets its specification\<close>

lemma check_prerequisites_ok:
  "try_all (check_prerequisites m) ops = Inr u \<longleftrightarrow>
     (\<forall>x \<in> set ops. set (op_prerequisites x) \<subseteq> dom (bt_get m))"
  by (auto simp: result_simps check_prerequisites_def split: if_splits)

text \<open>What indexing and the prerequisite check leave for the search.\<close>

lemma indexed_search:
  assumes "try_fold index_operation ops ([], {}, []) = Inr (ids, keys, m)"
    and "try_all (check_prerequisites m) ops = Inr ()"
  shows "index_rel m = prereq_rel ops"
    and "(\<exists>st. try_fold (visit_operation (Suc (length ops)) m) ids ({}, {}) = Inr st) \<and> acyclic (prereq_rel ops)
     \<or> (\<exists>err. try_fold (visit_operation (Suc (length ops)) m) ids ({}, {}) = Inl (Fail err)
          \<and> mve_code err = DependencyCycle) \<and> \<not> acyclic (prereq_rel ops)"
proof -
  note ix = index_fold_start [OF assms(1)]
  show rel: "index_rel m = prereq_rel ops" by (rule index_rel_prereq [OF ix(1,4)])
  have dom: "dom (bt_get m) = set ids"
    unfolding ix(4) ix(3) by (simp add: dom_map_of_conv_image_fst flip: set_map)
  have "x \<in> set ops" if "bt_get m j = Some x" for j x
    using that map_of_SomeD [of "index_pairs ops" j x] unfolding ix(4) by (simp add: set_index_pairs)
  then have closed: "\<forall>j x. bt_get m j = Some x \<longrightarrow> set (op_prerequisites x) \<subseteq> dom (bt_get m)"
    using assms(2) unfolding check_prerequisites_ok by blast
  have fuel: "card (set ids) < Suc (length ops)"
    unfolding ix(3) by (metis card_length le_imp_less_Suc length_map)
  from visit_all [OF dom closed fuel] rel show
    "(\<exists>st. try_fold (visit_operation (Suc (length ops)) m) ids ({}, {}) = Inr st) \<and> acyclic (prereq_rel ops)
     \<or> (\<exists>err. try_fold (visit_operation (Suc (length ops)) m) ids ({}, {}) = Inl (Fail err)
          \<and> mve_code err = DependencyCycle) \<and> \<not> acyclic (prereq_rel ops)" by simp
qed

lemma check_order_iff:
  "check_write_order m (op_writes ops) = Inr u \<longleftrightarrow> writes_ordered ops" if "index_rel m = prereq_rel ops"
proof -
  have sym: "pair_ordered R a b = pair_ordered R b a" for R a b
    by (auto simp: pair_ordered_def paths_overlap_sym)
  have refl: "pair_ordered R a a" for R a by (simp add: pair_ordered_def)
  show ?thesis
    unfolding writes_ordered_pairs that [symmetric]
    by (rule check_write_order_ok [OF check_write_pair_ok sym refl])
qed

lemma validate_restore_plan_ok_iff:
  "validate_restore_plan plan object_index = Inr () \<longleftrightarrow> plan_ok plan object_index"
proof -
  let ?ops = "rp_operations plan" and ?objects = "map oe_id (oi_objects object_index)"
  show ?thesis
  proof (cases "try_fold index_operation ?ops ([], {}, [])")
    case (Inl e)
    with index_fold_ok [of ?ops "[]" "{}" "[]"] show ?thesis
      by (auto simp: validate_restore_plan_def plan_ok_def Let_def)
  next
    case (Inr st)
    then obtain ids keys m where ix: "try_fold index_operation ?ops ([], {}, []) = Inr (ids, keys, m)"
      by (cases st) auto
    note start = index_fold_start [OF ix]
    have dom: "dom (bt_get m) = set (map op_id ?ops)"
      unfolding start(4) by (simp add: dom_map_of_conv_image_fst flip: set_map)
    show ?thesis
    proof (cases "try_all (check_prerequisites m) ?ops")
      case (Inl e)
      then have "\<not> (\<forall>x \<in> set ?ops. set (op_prerequisites x) \<subseteq> set (map op_id ?ops))"
        using check_prerequisites_ok [of m ?ops "()"] unfolding dom by simp
      with Inl ix show ?thesis by (simp add: validate_restore_plan_def plan_ok_def Let_def)
    next
      case (Inr u)
      then have pre: "try_all (check_prerequisites m) ?ops = Inr ()" by simp
      note s = indexed_search [OF ix pre]
      have "\<forall>x \<in> set ?ops. set (op_prerequisites x) \<subseteq> set (map op_id ?ops)"
        using pre unfolding check_prerequisites_ok dom .
      then show ?thesis
        using start(1,2) s(2) pre ix check_order_iff [OF s(1)] distinct_card [of ?objects] card_distinct [of ?objects]
        by (auto simp: validate_restore_plan_def plan_ok_def Let_def result_simps check_operations_ok)
    qed
  qed
qed

lemma validate_restore_plan_no_abort:
  "validate_restore_plan plan object_index \<noteq> Inl Panic \<and> validate_restore_plan plan object_index \<noteq> Inl OutOfFuel"
proof -
  let ?ops = "rp_operations plan"
  have "e \<noteq> Panic \<and> e \<noteq> OutOfFuel" if "validate_restore_plan plan object_index = Inl e" for e
    using that indexed_search(2) [of ?ops]
    by (fastforce simp: validate_restore_plan_def Let_def result_simps split: if_splits prod.splits)
  then show ?thesis by blast
qed

lemma cyclic_prerequisites_error:
  assumes "distinct (map op_id (rp_operations plan))" "distinct (map op_idempotency_key (rp_operations plan))"
    and "\<forall>x \<in> set (rp_operations plan). set (op_prerequisites x) \<subseteq> set (map op_id (rp_operations plan))"
    and "\<not> acyclic (prereq_rel (rp_operations plan))"
  shows "\<exists>err. validate_restore_plan plan object_index = Inl (Fail err) \<and> mve_code err = DependencyCycle"
proof -
  let ?ops = "rp_operations plan"
  obtain ids keys m where ix: "try_fold index_operation ?ops ([], {}, []) = Inr (ids, keys, m)"
    using index_fold_ok [OF assms(1,2), of "[]" "{}" "[]"] by auto
  note start = index_fold_start [OF ix]
  have dom: "dom (bt_get m) = set (map op_id ?ops)"
    unfolding start(4) by (simp add: dom_map_of_conv_image_fst flip: set_map)
  have pre: "try_all (check_prerequisites m) ?ops = Inr ()"
    unfolding check_prerequisites_ok dom by (rule assms(3))
  from indexed_search(2) [OF ix pre] assms(4) ix pre show ?thesis
    by (auto simp: validate_restore_plan_def Let_def)
qed

subsection \<open>Sample plans\<close>

definition sample_operation :: "str \<Rightarrow> str list \<Rightarrow> Operation" where
  "sample_operation i prerequisites =
     \<lparr>op_id = i, op_component = ''cmp'', op_kind = RequireReboot i, op_prerequisites = prerequisites,
      op_precondition = Always, op_idempotency_key = ''key:'' @ i, op_verification = [],
      op_requires_elevation = False, op_non_idempotent = False\<rparr>"

definition sample_plan :: "Operation list \<Rightarrow> RestorePlan" where
  "sample_plan ops =
     \<lparr>rp_format_version = 1, rp_run_id = ''run'', rp_package_id = ''pkg'', rp_mode = Rebuild,
      rp_target_fingerprint = ''fp'', rp_selected_components = [''cmp''], rp_operations = ops,
      rp_conflicts = [], rp_manual_actions = [], rp_warnings = []\<rparr>"

subsection \<open>Properties\<close>

text \<open>
  C1. \<open>validate_restore_plan\<close> accepts a plan exactly when it is well formed: operation ids,
  idempotency keys and object ids are unique, every prerequisite exists, the prerequisite
  relation is acyclic, every path is normalized, every referenced object is indexed, generic file
  operations respect the protected roots and never carry a secret into the environment, and
  overlapping file and merge writes are ordered by the prerequisite relation.
\<close>

theorem validate_restore_plan_correct:
  "validate_restore_plan plan object_index = Inr () \<longleftrightarrow> plan_ok plan object_index"
  by (rule validate_restore_plan_ok_iff)

text \<open>
  Validation always returns: the \<^verbatim>\<open>expect\<close> of the depth-first search never panics and its
  recursion depth never exceeds the number of operations plus one, on any plan.
\<close>

theorem validate_restore_plan_total:
  "validate_restore_plan plan object_index \<noteq> Inl Panic
   \<and> validate_restore_plan plan object_index \<noteq> Inl OutOfFuel"
  by (rule validate_restore_plan_no_abort)

text \<open>
  A plan with unique ids and keys and existing prerequisites whose prerequisites contain a
  cycle is rejected with the code \<^verbatim>\<open>DEPENDENCY_CYCLE\<close>.
\<close>

theorem cyclic_plan_rejected:
  assumes "distinct (map op_id (rp_operations plan))" "distinct (map op_idempotency_key (rp_operations plan))"
    and "\<forall>x \<in> set (rp_operations plan). set (op_prerequisites x) \<subseteq> set (map op_id (rp_operations plan))"
    and "\<not> acyclic (prereq_rel (rp_operations plan))"
  shows "\<exists>err. validate_restore_plan plan object_index = Inl (Fail err) \<and> mve_code err = DependencyCycle"
  using assms by (rule cyclic_prerequisites_error)

theorem cyclic_plan_rejected_witness:
  "\<exists>err. validate_restore_plan (sample_plan [sample_operation ''a'' [''b''], sample_operation ''b'' [''a'']])
      \<lparr>oi_objects = []\<rparr> = Inl (Fail err) \<and> mve_code err = DependencyCycle"
proof (rule cyclic_plan_rejected)
  let ?ops = "rp_operations (sample_plan [sample_operation ''a'' [''b''], sample_operation ''b'' [''a'']])"
  show "\<not> acyclic (prereq_rel ?ops)"
  proof -
    have "(''a'', ''b'') \<in> prereq_rel ?ops" "(''b'', ''a'') \<in> prereq_rel ?ops"
      using prereq_relI [of "sample_operation ''a'' [''b'']" ?ops "''b''"]
        prereq_relI [of "sample_operation ''b'' [''a'']" ?ops "''a''"]
      by (simp_all add: sample_plan_def sample_operation_def)
    then show ?thesis unfolding acyclic_def by (meson r_into_trancl trancl_into_trancl)
  qed
qed (simp_all add: sample_plan_def sample_operation_def)

text \<open>
  \<open>operation_precedes\<close> decides the transitive prerequisite relation: it answers yes exactly
  when the first operation is a direct or indirect prerequisite of the second, also on indices
  with missing prerequisites and cycles.
\<close>

theorem operation_precedes_correct:
  "operation_precedes operations before after \<longleftrightarrow> (after, before) \<in> (index_rel operations)\<^sup>+"
  by (rule operation_precedes_iff)

end
