(* ===== verification/Selection.thy ===== *)
theory Selection
  imports Errors Collections PathTokens "HOL-Library.Product_Lexorder" "HOL-Library.Multiset"
begin

text \<open>
  \<^verbatim>\<open>build_selection_closure\<close> of \<^verbatim>\<open>crates/reforge-domain/src/selection.rs\<close>: a user selection
  is closed under required dependencies and filtered by the artifact policy. The \<^verbatim>\<open>expect\<close>
  calls of the code are panic values here.
\<close>

definition DEFAULT_LARGE_ARTIFACT_THRESHOLD_BYTES :: nat where
  "DEFAULT_LARGE_ARTIFACT_THRESHOLD_BYTES = 16 * 1024 * 1024"
definition MAX_SELECTED_COMPONENTS :: nat where "MAX_SELECTED_COMPONENTS = 250000"
definition MAX_SELECTED_ARTIFACTS :: nat where "MAX_SELECTED_ARTIFACTS = 1000000"
definition MAX_SELECTION_WARNINGS :: nat where "MAX_SELECTION_WARNINGS = 4096"

type_synonym 'a selecting = "(ErrorEnvelope, 'a) result"

definition selection_error :: "ReforgeErrorCode \<Rightarrow> str \<Rightarrow> ComponentId option \<Rightarrow> ErrorEnvelope" where
  "selection_error ecode message component = with_ids component None (ErrorEnvelope_new ecode message)"

lemma selection_error_code [simp, error_code_simps]: "ee_code (selection_error c m i) = c"
  by (simp add: selection_error_def)

subsection \<open>Component and artifact predicates\<close>

fun dependency_kind_order :: "DependencyKind \<Rightarrow> nat" where
  "dependency_kind_order RequiredRuntime = 0"
| "dependency_kind_order RequiredPackage = 1"
| "dependency_kind_order InstalledThrough = 2"
| "dependency_kind_order Configures = 3"
| "dependency_kind_order UsesSecret = 4"
| "dependency_kind_order OptionalFeature = 5"
| "dependency_kind_order ProvidesExecutable = 6"
| "dependency_kind_order Contains = 7"
| "dependency_kind_order RestoresBefore = 8"
| "dependency_kind_order VerifiesWith = 9"
| "dependency_kind_order RelatedOnly = 10"

definition default_artifact_selection :: "ArtifactRef \<Rightarrow> bool" where
  "default_artifact_selection artifact =
     (if art_policy artifact = LargeOptIn \<or> art_policy artifact = ArtifactPolicy.SecretReference
         \<or> art_policy artifact = ArtifactPolicy.PortableBinary \<or> art_policy artifact = ArtifactPolicy.Manual
         \<or> art_size_bytes artifact > DEFAULT_LARGE_ARTIFACT_THRESHOLD_BYTES
      then False
      else art_policy artifact \<in> {Config, Data, Export})"

definition is_unknown_binary :: "Component \<Rightarrow> bool" where
  "is_unknown_binary component \<longleftrightarrow>
     c_kind component = ComponentKind.PortableBinary
     \<or> rd_primary (c_restore component) = RestoreStrategy.PortableBinary
     \<or> list_ex (\<lambda>artifact. art_policy artifact = ArtifactPolicy.PortableBinary) (c_artifacts component)
     \<or> (c_kind component = ComponentKind.Unknown
        \<and> (idn_executable_name (c_identity component) \<noteq> None
           \<or> idn_executable_hash (c_identity component) \<noteq> None))"

definition has_safe_binary_hash :: "Component \<Rightarrow> bool" where
  "has_safe_binary_hash component =
     (case idn_executable_hash (c_identity component) of
        None \<Rightarrow> False
      | Some hash \<Rightarrow> hash \<noteq> [] \<and> length hash \<le> 512 \<and> str_trim hash = hash \<and> \<not> has_control hash)"

definition has_source_report :: "Component \<Rightarrow> bool" where
  "has_source_report component \<longleftrightarrow>
     (case c_provenance component of
        None \<Rightarrow> False
      | Some p \<Rightarrow> prov_source_url p \<noteq> None \<or> prov_package_id p \<noteq> None \<or> prov_provider p \<noteq> None)
     \<or> idn_provider_source (c_identity component) \<noteq> None
     \<or> idn_provider_package (c_identity component) \<noteq> None"

definition has_signature_report :: "Component \<Rightarrow> bool" where
  "has_signature_report component =
     (case c_publisher component of
        None \<Rightarrow> False
      | Some p \<Rightarrow> (case pub_certificate_thumbprint p of None \<Rightarrow> False | Some t \<Rightarrow> str_trim t \<noteq> []))"

definition is_sensitive :: "Component \<Rightarrow> bool" where
  "is_sensitive component \<longleftrightarrow>
     sm_sensitive (c_selection component) \<or> c_kind component = ComponentKind.SecretReference"

definition is_secret_artifact :: "Component \<Rightarrow> ArtifactRef \<Rightarrow> bool" where
  "is_secret_artifact component artifact \<longleftrightarrow>
     art_policy artifact = ArtifactPolicy.SecretReference \<or> is_sensitive component"

definition is_large_artifact :: "ArtifactRef \<Rightarrow> bool" where
  "is_large_artifact artifact \<longleftrightarrow>
     art_policy artifact = LargeOptIn \<or> art_size_bytes artifact > DEFAULT_LARGE_ARTIFACT_THRESHOLD_BYTES"

subsection \<open>Warnings\<close>

definition push_warning :: "str \<Rightarrow> str list \<Rightarrow> str list selecting" where
  "push_warning warning warnings =
     (if warning = [] \<or> length warning > 512 \<or> has_control warning
      then Inl (selection_error SecurityPolicy ''Selection warning is outside the reviewed grammar'' None)
      else let warnings = insort_insert warning warnings
           in if length warnings > MAX_SELECTION_WARNINGS
              then Inl (selection_error SecurityPolicy ''The selection warning limit was exceeded'' None)
              else Inr warnings)"

text \<open>A warning that is pushed only under a condition.\<close>

definition push_warning_if :: "bool \<Rightarrow> str \<Rightarrow> str list \<Rightarrow> str list selecting" where
  "push_warning_if b warning warnings = (if b then push_warning warning warnings else Inr warnings)"

definition validate_component_policy :: "Component \<Rightarrow> SelectionPolicy \<Rightarrow> str list \<Rightarrow> str list selecting" where
  "validate_component_policy component policy warnings =
     try_bind
       (if is_sensitive component
        then (case sp_secrets policy of
                SecretSelectionPolicy.Exclude \<Rightarrow>
                  Inl (selection_error SecurityPolicy ''Sensitive components require explicit vault selection''
                        (Some (c_id component)))
              | VaultExplicit \<Rightarrow>
                  push_warning (''Sensitive component requires explicit vault handling: '' @ c_id component) warnings)
        else Inr warnings) (\<lambda>warnings.
     if is_unknown_binary component
     then (case sp_unknown_binaries policy of
             UnknownBinarySelectionPolicy.Exclude \<Rightarrow>
               Inl (selection_error SecurityPolicy ''Unknown binaries require explicit portable-binary selection''
                     (Some (c_id component)))
           | PortableBinaryExplicit \<Rightarrow>
               if \<not> has_safe_binary_hash component
               then Inl (selection_error SelectionIncomplete ''Portable-binary selection requires an executable hash''
                      (Some (c_id component)))
               else try_bind (push_warning_if (\<not> has_source_report component)
                        (''Portable binary source is unknown; review before restore: '' @ c_id component) warnings)
                      (push_warning_if (\<not> has_signature_report component)
                        (''Portable binary signature is unverified; review before restore: '' @ c_id component)))
     else Inr warnings)"

definition validate_artifact_policy ::
  "Component \<Rightarrow> ArtifactRef \<Rightarrow> bool \<Rightarrow> SelectionPolicy \<Rightarrow> str list \<Rightarrow> str list selecting" where
  "validate_artifact_policy component artifact explicitly_selected policy warnings =
     try_bind
       (if is_secret_artifact component artifact
        then (case sp_secrets policy of
                SecretSelectionPolicy.Exclude \<Rightarrow>
                  Inl (selection_error SecurityPolicy ''Secret artifacts require explicit vault selection''
                        (Some (c_id component)))
              | VaultExplicit \<Rightarrow>
                  push_warning (''Secret artifact requires vault handling: '' @ art_id artifact) warnings)
        else Inr warnings) (\<lambda>warnings.
     try_bind
       (if is_large_artifact artifact
        then (case sp_large_data policy of
                LargeDataSelectionPolicy.Exclude \<Rightarrow>
                  Inl (selection_error SecurityPolicy ''Large artifacts require explicit size confirmation''
                        (Some (c_id component)))
              | RequireConfirmation \<Rightarrow>
                  if \<not> explicitly_selected
                  then Inl (selection_error SelectionIncomplete
                         ''Large artifacts require an explicit selection decision'' (Some (c_id component)))
                  else push_warning (''Large artifact explicitly confirmed: '' @ art_id artifact) warnings)
        else Inr warnings)
       (push_warning_if (art_policy artifact = ArtifactPolicy.Manual)
         (''Artifact requires manual restore review: '' @ art_id artifact)))"

subsection \<open>Indices\<close>

definition index_component :: "Component \<Rightarrow> (ComponentId, Component) btree \<Rightarrow> (ComponentId, Component) btree selecting" where
  "index_component component components =
     (if bt_get components (c_id component) \<noteq> None
      then Inl (selection_error SchemaInvalid ''The inventory contains duplicate component IDs'' (Some (c_id component)))
      else Inr (bt_insert (c_id component) component components))"

definition index_components :: "ComponentGraph \<Rightarrow> (ComponentId, Component) btree selecting" where
  "index_components graph = try_fold index_component (g_components graph) []"

type_synonym artifact_index = "(ArtifactId, ComponentId \<times> ArtifactRef) btree"

definition index_artifact :: "Component \<Rightarrow> ArtifactRef \<Rightarrow> artifact_index \<Rightarrow> artifact_index selecting" where
  "index_artifact component artifact artifacts =
     (if bt_get artifacts (art_id artifact) \<noteq> None
      then Inl (selection_error SchemaInvalid ''The inventory contains duplicate artifact IDs'' (Some (c_id component)))
      else Inr (bt_insert (art_id artifact) (c_id component, artifact) artifacts))"

definition index_artifacts :: "ComponentGraph \<Rightarrow> artifact_index selecting" where
  "index_artifacts graph =
     try_fold (\<lambda>component. try_fold (index_artifact component) (c_artifacts component)) (g_components graph) []"

text \<open>The edges of the graph followed by the dependencies of its components.\<close>

definition all_edges :: "ComponentGraph \<Rightarrow> DependencyEdge list" where
  "all_edges graph = g_edges graph @ concat (map c_dependencies (g_components graph))"

type_synonym edge_key = "ComponentId \<times> ComponentId \<times> nat \<times> bool"

definition edge_identity :: "DependencyEdge \<Rightarrow> edge_key" where
  "edge_identity edge =
     (edge_from edge, edge_to edge, dependency_kind_order (edge_kind edge), edge_required edge)"

type_synonym adjacency = "(ComponentId, DependencyEdge list) btree"

definition add_edge :: "adjacency \<times> edge_key set \<Rightarrow> DependencyEdge \<Rightarrow> adjacency \<times> edge_key set" where
  "add_edge = (\<lambda>(indexed, seen) edge.
     if edge_identity edge \<in> seen then (indexed, seen)
     else (bt_insert (edge_from edge)
             ((case bt_get indexed (edge_from edge) of None \<Rightarrow> [] | Some edges \<Rightarrow> edges) @ [edge]) indexed,
           insert (edge_identity edge) seen))"

definition edge_sort_key :: "DependencyEdge \<Rightarrow> ComponentId \<times> nat \<times> bool" where
  "edge_sort_key edge = (edge_to edge, dependency_kind_order (edge_kind edge), edge_required edge)"

definition index_edges :: "ComponentGraph \<Rightarrow> adjacency" where
  "index_edges graph =
     map (\<lambda>(source, edges). (source, sort_key edge_sort_key edges))
       (fst (foldl add_edge ([], {}) (all_edges graph)))"

definition index_artifact_decision ::
  "artifact_index \<Rightarrow> ArtifactSelection \<Rightarrow> (ArtifactId, bool) btree \<Rightarrow> (ArtifactId, bool) btree selecting" where
  "index_artifact_decision artifacts selection indexed =
     (case bt_get artifacts (as_artifact selection) of
        None \<Rightarrow> Inl (selection_error SelectionIncomplete ''The selection references an unavailable artifact'' None)
      | Some (owner, _) \<Rightarrow>
          if bt_get indexed (as_artifact selection) \<noteq> None
          then Inl (selection_error SelectionIncomplete
                 ''The selection contains a duplicate artifact decision'' (Some owner))
          else Inr (bt_insert (as_artifact selection) (as_include selection) indexed))"

definition index_artifact_selection ::
  "SelectionInput \<Rightarrow> artifact_index \<Rightarrow> (ArtifactId, bool) btree selecting" where
  "index_artifact_selection input artifacts =
     try_fold (index_artifact_decision artifacts) (si_artifacts input) []"

definition select_component ::
  "(ComponentId, Component) btree \<Rightarrow> ComponentId \<Rightarrow> ComponentId list \<Rightarrow> ComponentId list selecting" where
  "select_component components component selected =
     (if bt_get components component = None
      then Inl (selection_error SelectionIncomplete ''The selection references an unavailable component'' None)
      else if component \<in> set selected
      then Inl (selection_error SelectionIncomplete
             ''The selection contains a duplicate component decision'' (Some component))
      else Inr (insort_insert component selected))"

definition user_selected_components ::
  "SelectionInput \<Rightarrow> (ComponentId, Component) btree \<Rightarrow> ComponentId list selecting" where
  "user_selected_components input components =
     try_fold (select_component components) (si_components input) []"

subsection \<open>The dependency closure\<close>

text \<open>
  The state of the loop: the selected components, the automatically added ones, and the stack of
  pending sources, whose top is the head of the list.
\<close>

type_synonym closure_state = "ComponentId list \<times> ComponentId list \<times> ComponentId list"

definition close_edge ::
  "(ComponentId, Component) btree \<Rightarrow> ComponentId \<Rightarrow> DependencyEdge \<Rightarrow> closure_state \<Rightarrow> closure_state selecting" where
  "close_edge components source edge = (\<lambda>(selected, auto_added, pending).
     if \<not> edge_required edge then Inr (selected, auto_added, pending)
     else if bt_get components (edge_to edge) = None
     then Inl (selection_error SelectionIncomplete ''A required dependency is unavailable in the inventory'' (Some source))
     else if edge_to edge \<in> set selected then Inr (selected, auto_added, pending)
     else let selected = insort_insert (edge_to edge) selected
          in if length selected > MAX_SELECTED_COMPONENTS
             then Inl (selection_error SecurityPolicy
                    ''The dependency closure exceeds the reviewed component limit'' (Some source))
             else Inr (selected, insort_insert (edge_to edge) auto_added, edge_to edge # pending))"

definition unselected :: "(ComponentId, Component) btree \<Rightarrow> ComponentId list \<Rightarrow> nat" where
  "unselected components selected = card (fst ` set components - set selected)"

lemma insort_insert_same: "insort_insert x xs = xs \<longleftrightarrow> x \<in> set xs"
  by (metis insertI1 insort_insert_triv set_insort_insert)

lemma close_edges_measure:
  assumes "try_fold (close_edge components source) edges (selected, auto_added, pending)
      = Inr (selected', auto_added', pending')"
  shows "unselected components selected' < unselected components selected
    \<or> unselected components selected' = unselected components selected \<and> pending' = pending"
  using assms
proof (induction edges arbitrary: selected auto_added pending)
  case (Cons edge edges)
  then obtain s a p where e: "close_edge components source edge (selected, auto_added, pending) = Inr (s, a, p)"
    and rec: "try_fold (close_edge components source) edges (s, a, p) = Inr (selected', auto_added', pending')"
    by (auto simp: result_simps)
  have "unselected components s < unselected components selected \<or> s = selected \<and> p = pending"
  proof (cases "s = selected")
    case False
    with e have to: "bt_get components (edge_to edge) \<noteq> None" "edge_to edge \<notin> set selected"
      and s: "s = insort_insert (edge_to edge) selected"
      by (auto simp: close_edge_def Let_def split: if_splits)
    have "edge_to edge \<in> fst ` set components" using to(1) by (metis map_of_eq_None_iff)
    then show ?thesis
      unfolding unselected_def s using to(2)
      by (intro disjI1 psubset_card_mono) (auto simp: set_insort_insert)
  qed (use e in \<open>auto simp: close_edge_def Let_def insort_insert_same split: if_splits\<close>)
  with Cons.IH [OF rec] show ?case by auto
qed simp

function closure_loop ::
  "(ComponentId, Component) btree \<Rightarrow> adjacency \<Rightarrow> ComponentId list \<Rightarrow> ComponentId list \<Rightarrow> ComponentId list
   \<Rightarrow> (ComponentId list \<times> ComponentId list) selecting" where
  "closure_loop components adjacency [] selected auto_added = Inr (selected, auto_added)"
| "closure_loop components adjacency (source # pending) selected auto_added =
     (case bt_get adjacency source of
        None \<Rightarrow> closure_loop components adjacency pending selected auto_added
      | Some edges \<Rightarrow>
          (case try_fold (close_edge components source) edges (selected, auto_added, pending) of
             Inl e \<Rightarrow> Inl e
           | Inr (selected', auto_added', pending') \<Rightarrow>
               closure_loop components adjacency pending' selected' auto_added'))"
  by pat_completeness auto
termination
proof (relation "measures [\<lambda>(components, _, _, selected, _). unselected components selected,
                           \<lambda>(_, _, pending, _, _). length pending]", goal_cases)
  case (3 components adjacency source pending selected auto_added edges st selected' y auto_added' pending')
  then show ?case using close_edges_measure [of components source edges selected auto_added pending] by auto
qed auto

subsection \<open>Warnings and artifacts of the closure\<close>

definition expose_optional_edges ::
  "adjacency \<Rightarrow> ComponentId list \<Rightarrow> (ComponentId, Component) btree \<Rightarrow> str list \<Rightarrow> str list selecting" where
  "expose_optional_edges adjacency selected components =
     try_fold (\<lambda>source warnings.
       (case bt_get adjacency source of
          None \<Rightarrow> Inr warnings
        | Some edges \<Rightarrow>
            try_fold (\<lambda>edge warnings.
              let state = (if bt_get components (edge_to edge) \<noteq> None then ''available but not selected''
                           else ''unavailable in the inventory'')
              in push_warning_if (edge_to edge \<notin> set selected)
                   (''Optional dependency '' @ state @ '': '' @ edge_to edge) warnings)
              (filter (\<lambda>edge. \<not> edge_required edge) edges) warnings)) selected"

definition check_artifact_owner ::
  "artifact_index \<Rightarrow> ComponentId list \<Rightarrow> ArtifactSelection \<Rightarrow> unit selecting" where
  "check_artifact_owner artifacts selected selection =
     (if as_include selection
      then (case bt_get artifacts (as_artifact selection) of
              Some (owner, _) \<Rightarrow>
                if owner \<notin> set selected
                then Inl (selection_error SelectionIncomplete
                       ''An artifact is selected without selecting its owning component'' (Some owner))
                else Inr ()
            | None \<Rightarrow> Inr ())
      else Inr ())"

type_synonym artifact_state = "ArtifactId list \<times> nat \<times> str list"

definition select_artifact ::
  "(ArtifactId, bool) btree \<Rightarrow> SelectionPolicy \<Rightarrow> Component \<Rightarrow> ArtifactRef \<Rightarrow> artifact_state
   \<Rightarrow> artifact_state selecting" where
  "select_artifact explicit_artifacts policy component artifact = (\<lambda>(selected, total_bytes, warnings).
     let explicit = bt_get explicit_artifacts (art_id artifact);
         include = (case explicit of Some b \<Rightarrow> b | None \<Rightarrow> default_artifact_selection artifact)
     in if \<not> include then Inr (selected, total_bytes, warnings)
        else case PathToken_validate (art_source_path artifact) of
          Inl _ \<Rightarrow> Inl (selection_error SecurityPolicy ''A selected artifact has an invalid tokenized path''
                       (Some (c_id component)))
        | Inr _ \<Rightarrow>
            try_bind (validate_artifact_policy component artifact (explicit \<noteq> None) policy warnings) (\<lambda>warnings.
            try_bind (ok_or (selection_error SecurityPolicy
                         ''Selected artifact sizes overflow the reviewed limit'' (Some (c_id component)))
                       (checked_add_u64 total_bytes (art_size_bytes artifact))) (\<lambda>total_bytes.
            let selected = insort_insert (art_id artifact) selected
            in if length selected > MAX_SELECTED_ARTIFACTS
               then Inl (selection_error SecurityPolicy ''The selection exceeds the reviewed artifact limit''
                      (Some (c_id component)))
               else Inr (selected, total_bytes, warnings))))"

definition select_component_artifacts ::
  "(ComponentId, Component) btree \<Rightarrow> (ArtifactId, bool) btree \<Rightarrow> SelectionPolicy \<Rightarrow> ComponentId \<Rightarrow> artifact_state
   \<Rightarrow> (ErrorEnvelope abort, artifact_state) result" where
  "select_component_artifacts components explicit_artifacts policy component_id st =
     try_bind (expect (bt_get components component_id)) (\<lambda>component.
     lift_fail (try_fold (select_artifact explicit_artifacts policy component)
       (sort_key art_id (c_artifacts component)) st))"

definition build_selection_closure ::
  "ComponentGraph \<Rightarrow> SelectionInput \<Rightarrow> (ErrorEnvelope abort, SelectionClosure) result" where
  "build_selection_closure graph input =
     try_bind (lift_fail (index_components graph)) (\<lambda>components.
     try_bind (lift_fail (index_artifacts graph)) (\<lambda>artifacts.
     let adjacency = index_edges graph in
     try_bind (lift_fail (index_artifact_selection input artifacts)) (\<lambda>explicit_artifacts.
     if length (si_components input) > MAX_SELECTED_COMPONENTS
     then Inl (Fail (selection_error SecurityPolicy ''The selection exceeds the reviewed component limit'' None))
     else
     try_bind (lift_fail (user_selected_components input components)) (\<lambda>roots.
     try_bind (lift_fail (closure_loop components adjacency (rev roots) roots [])) (\<lambda>(selected, auto_added).
     try_bind (lift_fail (try_fold (\<lambda>dependency.
         push_warning (''Required dependency was automatically added: '' @ dependency)) auto_added [])) (\<lambda>warnings.
     try_bind (lift_fail (expose_optional_edges adjacency selected components warnings)) (\<lambda>warnings.
     try_bind (try_fold (\<lambda>component_id warnings.
         try_bind (expect (bt_get components component_id)) (\<lambda>component.
         lift_fail (validate_component_policy component (si_policy input) warnings))) selected warnings) (\<lambda>warnings.
     try_bind (lift_fail (try_all (check_artifact_owner artifacts selected) (si_artifacts input))) (\<lambda>_.
     try_bind (try_fold (select_component_artifacts components explicit_artifacts (si_policy input))
         selected ([], 0, warnings)) (\<lambda>(selected_artifacts, total_bytes, warnings).
     if (case sp_max_bytes (si_policy input) of None \<Rightarrow> False | Some maximum \<Rightarrow> total_bytes > maximum)
     then Inl (Fail (selection_error SecurityPolicy ''Selected artifacts exceed the configured size limit'' None))
     else Inr \<lparr>sc_selected_components = selected, sc_selected_artifacts = selected_artifacts,
               sc_auto_added_dependencies = auto_added, sc_total_bytes = total_bytes,
               sc_warnings = warnings\<rparr>))))))))))"

subsection \<open>The adjacency index describes the edges of the graph\<close>

text \<open>The required dependencies of a graph, as a relation.\<close>

definition required_rel :: "ComponentGraph \<Rightarrow> (ComponentId \<times> ComponentId) set" where
  "required_rel graph =
     {(edge_from e, edge_to e) |e. e \<in> set (all_edges graph) \<and> edge_required e}"

definition adjacency_rel :: "adjacency \<Rightarrow> (ComponentId \<times> ComponentId) set" where
  "adjacency_rel adj =
     {(s, t). \<exists>edges e. bt_get adj s = Some edges \<and> e \<in> set edges \<and> edge_required e \<and> edge_to e = t}"

definition edges_inv :: "DependencyEdge list \<Rightarrow> adjacency \<times> edge_key set \<Rightarrow> bool" where
  "edges_inv es = (\<lambda>(indexed, seen).
     bt_inv indexed \<and> seen = edge_identity ` set es
     \<and> (\<forall>s edges. bt_get indexed s = Some edges \<longrightarrow> (\<forall>e \<in> set edges. e \<in> set es \<and> edge_from e = s))
     \<and> (\<forall>e \<in> set es. \<exists>edges e'. bt_get indexed (edge_from e) = Some edges \<and> e' \<in> set edges
                               \<and> edge_identity e' = edge_identity e))"

lemma edges_inv_add: "edges_inv es st \<Longrightarrow> edges_inv (es @ [e]) (add_edge st e)"
proof -
  assume inv: "edges_inv es st"
  obtain indexed seen where st: "st = (indexed, seen)" by force
  show ?thesis
  proof (cases "edge_identity e \<in> seen")
    case True
    then obtain e0 where e0: "e0 \<in> set es" "edge_identity e0 = edge_identity e"
      using inv by (auto simp: edges_inv_def st)
    then have fr: "edge_from e0 = edge_from e" by (simp add: edge_identity_def)
    have "\<exists>edges e'. bt_get indexed (edge_from e) = Some edges \<and> e' \<in> set edges \<and> edge_identity e' = edge_identity e"
      using inv e0 unfolding edges_inv_def st prod.case fr [symmetric] e0(2) [symmetric] by blast
    moreover have "edge_identity ` set (es @ [e]) = edge_identity ` set es"
      using imageI [OF e0(1), of edge_identity] by (simp add: e0(2) insert_absorb)
    moreover have "add_edge st e = st" using True by (simp add: add_edge_def st)
    ultimately show ?thesis using inv by (auto simp: edges_inv_def st)
  next
    case False
    define old where "old = (case bt_get indexed (edge_from e) of None \<Rightarrow> [] | Some edges \<Rightarrow> edges)"
    have old: "\<forall>x \<in> set old. x \<in> set es \<and> edge_from x = edge_from e"
      using inv unfolding edges_inv_def st prod.case old_def
      by (cases "bt_get indexed (edge_from e)") simp_all
    have get: "bt_get (bt_insert (edge_from e) (old @ [e]) indexed) = (bt_get indexed)(edge_from e \<mapsto> old @ [e])"
      using inv by (intro bt_get_insert) (simp add: edges_inv_def st)
    have new: "add_edge st e = (bt_insert (edge_from e) (old @ [e]) indexed, insert (edge_identity e) seen)"
      using False by (simp add: add_edge_def st old_def)
    have keep: "\<exists>edges e'. ((bt_get indexed)(edge_from e \<mapsto> old @ [e])) (edge_from x) = Some edges
        \<and> e' \<in> set edges \<and> edge_identity e' = edge_identity x" if "x \<in> set es" for x
    proof -
      from inv that obtain edges e' where "bt_get indexed (edge_from x) = Some edges" "e' \<in> set edges"
        "edge_identity e' = edge_identity x" by (force simp: edges_inv_def st)
      then show ?thesis by (cases "edge_from x = edge_from e") (auto simp: old_def)
    qed
    have sound: "\<forall>x \<in> set edges. x \<in> set (es @ [e]) \<and> edge_from x = s"
      if "((bt_get indexed)(edge_from e \<mapsto> old @ [e])) s = Some edges" for s edges
      using that inv old by (auto simp: edges_inv_def st split: if_splits)
    have self: "\<exists>edges e'. ((bt_get indexed)(edge_from e \<mapsto> old @ [e])) (edge_from e) = Some edges
        \<and> e' \<in> set edges \<and> edge_identity e' = edge_identity e" by auto
    have i: "bt_inv (bt_insert (edge_from e) (old @ [e]) indexed)"
      "insert (edge_identity e) seen = edge_identity ` set (es @ [e])"
      using inv by (simp_all add: edges_inv_def st bt_inv_insert)
    have all: "\<forall>x \<in> set (es @ [e]). \<exists>edges e'. ((bt_get indexed)(edge_from e \<mapsto> old @ [e])) (edge_from x) = Some edges
        \<and> e' \<in> set edges \<and> edge_identity e' = edge_identity x"
      using keep self by (metis Un_iff empty_iff empty_set insertE list.set(2) set_append)
    show ?thesis
      unfolding new edges_inv_def prod.case get using i sound all by blast
  qed
qed

lemma edges_inv_all: "edges_inv es (foldl add_edge ([], {}) es)"
proof (induction es rule: rev_induct)
  case (snoc e es)
  then show ?case using edges_inv_add by simp
qed (simp add: edges_inv_def)

lemma bt_get_map_values: "bt_get (map (\<lambda>(k, v). (k, f v)) m) k = map_option f (bt_get m k)"
  by (induction m) auto

lemma adjacency_rel_index: "adjacency_rel (index_edges graph) = required_rel graph"
proof -
  let ?st = "foldl add_edge ([], {}) (all_edges graph)"
  have inv: "edges_inv (all_edges graph) ?st" by (rule edges_inv_all)
  have get: "bt_get (index_edges graph) s = map_option (sort_key edge_sort_key) (bt_get (fst ?st) s)" for s
    by (simp add: index_edges_def bt_get_map_values)
  have "(s, t) \<in> required_rel graph" if "(s, t) \<in> adjacency_rel (index_edges graph)" for s t
  proof -
    from that obtain edges e where "bt_get (fst ?st) s = Some edges" "e \<in> set edges" "edge_required e" "edge_to e = t"
      by (auto simp: adjacency_rel_def get)
    with inv have "e \<in> set (all_edges graph)" "edge_from e = s"
      by (auto simp: edges_inv_def split: prod.splits)
    then show ?thesis using \<open>edge_required e\<close> \<open>edge_to e = t\<close> by (auto simp: required_rel_def)
  qed
  moreover have "(s, t) \<in> adjacency_rel (index_edges graph)" if "(s, t) \<in> required_rel graph" for s t
  proof -
    from that obtain e where e: "e \<in> set (all_edges graph)" "edge_from e = s" "edge_to e = t" "edge_required e"
      by (auto simp: required_rel_def)
    with inv obtain edges e' where "bt_get (fst ?st) s = Some edges" "e' \<in> set edges" "edge_identity e' = edge_identity e"
      by (force simp: edges_inv_def split: prod.splits)
    with e show ?thesis by (auto simp: adjacency_rel_def get edge_identity_def)
  qed
  ultimately show ?thesis by auto
qed

subsection \<open>The closure is the reachable set\<close>

lemma close_edges_spec:
  assumes "try_fold (close_edge components source) edges (S, A, P) = Inr (S', A', P')"
  shows "(let T = edge_to ` {e \<in> set edges. edge_required e} in
       set S' = set S \<union> T \<and> set A' = set A \<union> (T - set S) \<and> set P' = set P \<union> (T - set S)
       \<and> T \<subseteq> dom (bt_get components))
     \<and> (sorted S \<longrightarrow> sorted S') \<and> (distinct S \<longrightarrow> distinct S')
     \<and> (sorted A \<longrightarrow> sorted A') \<and> (distinct A \<longrightarrow> distinct A')"
  using assms
proof (induction edges arbitrary: S A P)
  case (Cons e edges)
  then obtain s a p where e: "close_edge components source e (S, A, P) = Inr (s, a, p)"
    and rec: "try_fold (close_edge components source) edges (s, a, p) = Inr (S', A', P')"
    by (auto simp: result_simps)
  from e consider "\<not> edge_required e" "(s, a, p) = (S, A, P)"
    | "edge_required e" "edge_to e \<in> set S" "(s, a, p) = (S, A, P)" "edge_to e \<in> dom (bt_get components)"
    | "edge_required e" "edge_to e \<notin> set S" "edge_to e \<in> dom (bt_get components)"
      "(s, a, p) = (insort_insert (edge_to e) S, insort_insert (edge_to e) A, edge_to e # P)"
    by (auto simp: close_edge_def Let_def split: if_splits)
  then show ?case
  proof cases
    case 1
    then have "{x \<in> set (e # edges). edge_required x} = {x \<in> set edges. edge_required x}" by auto
    with 1 Cons.IH [OF rec] show ?thesis by simp
  next
    case 2
    then have "edge_to ` {x \<in> set (e # edges). edge_required x}
        = insert (edge_to e) (edge_to ` {x \<in> set edges. edge_required x})" by auto
    with 2 Cons.IH [OF rec] show ?thesis by (simp add: Let_def) blast
  next
    case 3
    then have "edge_to ` {x \<in> set (e # edges). edge_required x}
        = insert (edge_to e) (edge_to ` {x \<in> set edges. edge_required x})" by auto
    with 3 Cons.IH [OF rec] show ?thesis
      by (simp add: Let_def set_insort_insert sorted_insort_insert distinct_insort_insert) blast
  qed
qed (simp add: Let_def)

definition closure_inv :: "(ComponentId, Component) btree \<Rightarrow> (ComponentId \<times> ComponentId) set \<Rightarrow> ComponentId set
    \<Rightarrow> ComponentId list \<Rightarrow> ComponentId list \<Rightarrow> ComponentId list \<Rightarrow> bool" where
  "closure_inv components R X P S A \<longleftrightarrow>
     search_inv R X (set S) (set P) \<and> set S \<subseteq> dom (bt_get components)
     \<and> sorted S \<and> distinct S \<and> sorted A \<and> distinct A \<and> set A = set S - X"

lemma closure_loop_spec:
  assumes "closure_loop components adj P S A = Inr (S', A')"
    and "closure_inv components (adjacency_rel adj) X P S A"
  shows "closure_inv components (adjacency_rel adj) X [] S' A'"
  using assms
proof (induction components adj P S A rule: closure_loop.induct)
  case (2 components adj source P S A)
  let ?R = "adjacency_rel adj"
  show ?case
  proof (cases "bt_get adj source")
    case None
    then have "?R `` {source} = {}" by (auto simp: adjacency_rel_def)
    with "2.prems"(2) have "closure_inv components ?R X P S A"
      by (auto simp: closure_inv_def search_inv_def)
    with None 2 show ?thesis by simp
  next
    case (Some edges)
    with "2.prems"(1) obtain S1 A1 P1
      where f: "try_fold (close_edge components source) edges (S, A, P) = Inr (S1, A1, P1)"
        and rec: "closure_loop components adj P1 S1 A1 = Inr (S', A')"
      by (auto split: sum.splits)
    let ?T = "edge_to ` {e \<in> set edges. edge_required e}"
    have T: "?R `` {source} = ?T" using Some by (force simp: adjacency_rel_def)
    from close_edges_spec [OF f]
    have c: "set S1 = set S \<union> ?T" "set A1 = set A \<union> (?T - set S)" "set P1 = set P \<union> (?T - set S)"
      "?T \<subseteq> dom (bt_get components)"
      and so: "sorted S \<longrightarrow> sorted S1" "distinct S \<longrightarrow> distinct S1" "sorted A \<longrightarrow> sorted A1" "distinct A \<longrightarrow> distinct A1"
      unfolding Let_def by blast+
    have inv: "search_inv ?R X (set S) (insert source (set P))" and X: "X \<subseteq> set S"
      using "2.prems"(2) by (auto simp: closure_inv_def search_inv_def)
    have "search_inv ?R X (set S1) (set P1)"
      using search_inv_step [OF inv] unfolding c T by simp
    then have "closure_inv components ?R X P1 S1 A1"
      using "2.prems"(2) c so X unfolding closure_inv_def by auto
    with "2.IH"(2) [OF Some f refl refl rec] show ?thesis by simp
  qed
qed simp

subsection \<open>Indices and roots\<close>

text \<open>A loop that indexes entries and fails on a key it has already seen.\<close>

lemma index_unique_gen:
  assumes "try_fold f xs m = Inr m'" "bt_inv m"
    and f: "\<And>x m m'. f x m = Inr m' \<Longrightarrow> bt_get m (k x) = None \<and> m' = bt_insert (k x) (v x) m"
  shows "m' = bt.insert_all (map (\<lambda>x. (k x, v x)) xs) m \<and> distinct (map k xs) \<and> dom (bt_get m) \<inter> k ` set xs = {}"
  using assms(1,2)
proof (induction xs arbitrary: m)
  case (Cons x xs)
  then obtain m1 where x: "f x m = Inr m1" and rec: "try_fold f xs m1 = Inr m'" by (auto simp: result_simps)
  from f [OF x] have new: "bt_get m (k x) = None" and m1: "m1 = bt_insert (k x) (v x) m" by auto
  have "dom (bt_get m1) = insert (k x) (dom (bt_get m))"
    unfolding m1 bt_get_insert [OF Cons.prems(2)] by simp
  with Cons.IH [OF rec] Cons.prems(2) new show ?case
    by (auto simp: m1 bt_inv_insert)
qed simp

lemma index_unique:
  assumes "try_fold f xs [] = Inr m'"
    and "\<And>x m m'. f x m = Inr m' \<Longrightarrow> bt_get m (k x) = None \<and> m' = bt_insert (k x) (v x) m"
  shows "bt_get m' = map_of (map (\<lambda>x. (k x, v x)) xs)" "distinct (map k xs)"
  using index_unique_gen [of f xs "[]" m' k v] assms bt.get_build [of "map (\<lambda>x. (k x, v x)) xs"]
  by (auto simp: comp_def)

definition component_of :: "ComponentGraph \<Rightarrow> ComponentId \<rightharpoonup> Component" where
  "component_of graph = map_of (map (\<lambda>c. (c_id c, c)) (g_components graph))"

lemma index_components_ok:
  assumes "index_components graph = Inr m"
  shows "bt_get m = component_of graph" "distinct (map c_id (g_components graph))"
proof -
  have step: "bt_get m (c_id x) = None \<and> m' = bt_insert (c_id x) x m"
    if "index_component x m = Inr m'" for x m m'
    using that by (auto simp: index_component_def split: if_splits)
  from index_unique [OF assms [unfolded index_components_def] step]
  show "bt_get m = component_of graph" "distinct (map c_id (g_components graph))"
    by (simp_all add: component_of_def)
qed

lemma component_of_Some: "component_of graph i = Some c \<Longrightarrow> c \<in> set (g_components graph) \<and> c_id c = i"
  unfolding component_of_def by (drule map_of_SomeD) auto

lemma dom_component_of: "dom (component_of graph) = c_id ` set (g_components graph)"
  by (force simp: component_of_def dom_map_of_conv_image_fst)

lemma select_components_spec:
  assumes "try_fold (select_component m) is S = Inr S'" "sorted S" "distinct S"
  shows "set S' = set S \<union> set is \<and> set is \<subseteq> dom (bt_get m) \<and> sorted S' \<and> distinct S'"
  using assms
proof (induction "is" arbitrary: S)
  case (Cons i "is")
  then have "bt_get m i \<noteq> None"
    and rec: "try_fold (select_component m) is (insort_insert i S) = Inr S'"
    by (auto simp: select_component_def [of m i] split: if_splits)
  with Cons.IH [OF rec] Cons.prems(2,3) show ?case
    by (auto simp: set_insort_insert sorted_insort_insert distinct_insort_insert)
qed simp

lemma user_selected_spec:
  assumes "user_selected_components input m = Inr roots"
  shows "set roots = set (si_components input)" "set roots \<subseteq> dom (bt_get m)" "sorted roots" "distinct roots"
  using select_components_spec [of m "si_components input" "[]" roots] assms
  by (auto simp: user_selected_components_def)

text \<open>The result of the closure loop started on the roots.\<close>

lemma closure_result:
  assumes "user_selected_components input m = Inr roots"
    and "closure_loop m (index_edges graph) (rev roots) roots [] = Inr (selected, auto_added)"
  shows "set selected = (required_rel graph)\<^sup>* `` set (si_components input)"
    "set selected \<subseteq> dom (bt_get m)" "sorted selected" "distinct selected"
    "set auto_added = set selected - set (si_components input)" "sorted auto_added" "distinct auto_added"
proof -
  note r = user_selected_spec [OF assms(1)]
  have "closure_inv m (adjacency_rel (index_edges graph)) (set roots) (rev roots) roots []"
    using r search_inv_start [of _ "set roots"] by (simp add: closure_inv_def)
  from closure_loop_spec [OF assms(2) this]
  have c: "closure_inv m (required_rel graph) (set roots) [] selected auto_added"
    by (simp add: adjacency_rel_index)
  then show "set selected \<subseteq> dom (bt_get m)" "sorted selected" "distinct selected"
    "set auto_added = set selected - set (si_components input)" "sorted auto_added" "distinct auto_added"
    by (auto simp: closure_inv_def r(1))
  from c show "set selected = (required_rel graph)\<^sup>* `` set (si_components input)"
    using search_inv_done [of "required_rel graph" "set roots" "set selected"] by (simp add: closure_inv_def r(1))
qed

subsection \<open>Artifacts\<close>

definition artifact_included :: "(ArtifactId, bool) btree \<Rightarrow> ArtifactRef \<Rightarrow> bool" where
  "artifact_included explicit_artifacts artifact =
     (case bt_get explicit_artifacts (art_id artifact) of
        Some b \<Rightarrow> b | None \<Rightarrow> default_artifact_selection artifact)"

text \<open>What the policy demands of an artifact that enters a package.\<close>

definition artifact_allowed :: "SelectionPolicy \<Rightarrow> bool \<Rightarrow> Component \<Rightarrow> ArtifactRef \<Rightarrow> bool" where
  "artifact_allowed policy explicit component artifact \<longleftrightarrow>
     PathToken_validate (art_source_path artifact) = Inr ()
     \<and> (is_secret_artifact component artifact \<longrightarrow> sp_secrets policy = VaultExplicit)
     \<and> (is_large_artifact artifact \<longrightarrow> sp_large_data policy = RequireConfirmation \<and> explicit)"

lemma validate_artifact_policy_ok:
  assumes "validate_artifact_policy component artifact explicit policy warnings = Inr w"
  shows "(is_secret_artifact component artifact \<longrightarrow> sp_secrets policy = VaultExplicit)
     \<and> (is_large_artifact artifact \<longrightarrow> sp_large_data policy = RequireConfirmation \<and> explicit)"
  using assms
  by (auto simp: validate_artifact_policy_def result_simps
      split: if_splits SecretSelectionPolicy.splits LargeDataSelectionPolicy.splits)

lemma select_artifact_ok:
  assumes "select_artifact explicit policy component artifact (sel, tot, w) = Inr (sel', tot', w')"
  shows "if artifact_included explicit artifact
     then set sel' = insert (art_id artifact) (set sel) \<and> tot' = tot + art_size_bytes artifact
        \<and> tot' \<le> u64_max
        \<and> artifact_allowed policy (bt_get explicit (art_id artifact) \<noteq> None) component artifact
        \<and> (sorted sel \<longrightarrow> sorted sel') \<and> (distinct sel \<longrightarrow> distinct sel')
     else sel' = sel \<and> tot' = tot"
proof (cases "artifact_included explicit artifact")
  case True
  then have inc: "(case bt_get explicit (art_id artifact) of None \<Rightarrow> default_artifact_selection artifact | Some b \<Rightarrow> b)"
    by (simp add: artifact_included_def)
  from assms obtain u w1 where p: "PathToken_validate (art_source_path artifact) = Inr u"
    and pol: "validate_artifact_policy component artifact (bt_get explicit (art_id artifact) \<noteq> None) policy w = Inr w1"
    and t: "tot' = tot + art_size_bytes artifact" "tot' \<le> u64_max" "sel' = insort_insert (art_id artifact) sel"
    unfolding select_artifact_def Let_def prod.case
    by (auto simp: inc result_simps split: sum.splits if_splits)
  show ?thesis
    using p t validate_artifact_policy_ok [OF pol] True
    by (simp add: set_insort_insert sorted_insort_insert distinct_insort_insert artifact_allowed_def)
next
  case False
  with assms show ?thesis
    by (simp add: select_artifact_def Let_def artifact_included_def)
qed

definition chosen_artifacts :: "(ArtifactId, bool) btree \<Rightarrow> Component \<Rightarrow> ArtifactRef list" where
  "chosen_artifacts explicit component = filter (artifact_included explicit) (sort_key art_id (c_artifacts component))"

lemma select_artifacts_ok:
  assumes "try_fold (select_artifact explicit policy component) as (sel, tot, w) = Inr (sel', tot', w')"
    and "sorted sel" "distinct sel" "tot \<le> u64_max"
  shows "set sel' = set sel \<union> art_id ` set (filter (artifact_included explicit) as)
     \<and> tot' = tot + sum_list (map art_size_bytes (filter (artifact_included explicit) as))
     \<and> tot' \<le> u64_max \<and> sorted sel' \<and> distinct sel'
     \<and> (\<forall>a \<in> set as. artifact_included explicit a \<longrightarrow>
          artifact_allowed policy (bt_get explicit (art_id a) \<noteq> None) component a)"
  using assms
proof (induction "as" arbitrary: sel tot w)
  case (Cons a "as")
  then obtain s t w1 where a: "select_artifact explicit policy component a (sel, tot, w) = Inr (s, t, w1)"
    and rec: "try_fold (select_artifact explicit policy component) as (s, t, w1) = Inr (sel', tot', w')"
    by (auto simp: result_simps)
  note ok = select_artifact_ok [OF a]
  show ?case
  proof (cases "artifact_included explicit a")
    case True
    with ok Cons.prems have "sorted s" "distinct s" "t \<le> u64_max" by auto
    from Cons.IH [OF rec this] ok True show ?thesis by auto
  next
    case False
    with ok Cons.prems have "sorted s" "distinct s" "t \<le> u64_max" by auto
    from Cons.IH [OF rec this] ok False show ?thesis by auto
  qed
qed simp

lemma select_all_artifacts_ok:
  assumes "try_fold (select_component_artifacts m explicit policy) is (sel, tot, w) = Inr (sel', tot', w')"
    and "sorted sel" "distinct sel" "tot \<le> u64_max"
  shows "set sel' = set sel \<union> (\<Union>i \<in> set is. art_id ` set (chosen_artifacts explicit (the (bt_get m i))))
     \<and> tot' = tot + sum_list (map (\<lambda>i. sum_list (map art_size_bytes (chosen_artifacts explicit (the (bt_get m i))))) is)
     \<and> tot' \<le> u64_max \<and> sorted sel' \<and> distinct sel'
     \<and> (\<forall>i \<in> set is. \<forall>a \<in> set (c_artifacts (the (bt_get m i))). artifact_included explicit a \<longrightarrow>
          artifact_allowed policy (bt_get explicit (art_id a) \<noteq> None) (the (bt_get m i)) a)"
  using assms
proof (induction "is" arbitrary: sel tot w)
  case (Cons i "is")
  then obtain c s1 t1 w1 where c: "bt_get m i = Some c"
    and f: "try_fold (select_artifact explicit policy c) (sort_key art_id (c_artifacts c)) (sel, tot, w) = Inr (s1, t1, w1)"
    and rec: "try_fold (select_component_artifacts m explicit policy) is (s1, t1, w1) = Inr (sel', tot', w')"
    by (auto simp: result_simps select_component_artifacts_def [of m explicit policy i])
  note ok = select_artifacts_ok [OF f Cons.prems(2-4)]
  then have "sorted s1" "distinct s1" "t1 \<le> u64_max" by auto
  from Cons.IH [OF rec this] ok show ?case by (auto simp: chosen_artifacts_def c)
qed simp

lemma sum_chosen:
  "sum_list (map art_size_bytes (chosen_artifacts explicit c))
     = sum_list (map art_size_bytes (filter (artifact_included explicit) (c_artifacts c)))"
proof -
  have "mset (chosen_artifacts explicit c) = mset (filter (artifact_included explicit) (c_artifacts c))"
    by (simp add: chosen_artifacts_def)
  then have "mset (map art_size_bytes (chosen_artifacts explicit c))
      = mset (map art_size_bytes (filter (artifact_included explicit) (c_artifacts c)))" by simp
  then show ?thesis by (metis sum_mset_sum_list)
qed

subsection \<open>The decision the user made\<close>

definition user_decision :: "SelectionInput \<Rightarrow> ArtifactId \<rightharpoonup> bool" where
  "user_decision input = map_of (map (\<lambda>s. (as_artifact s, as_include s)) (si_artifacts input))"

definition included :: "SelectionInput \<Rightarrow> ArtifactRef \<Rightarrow> bool" where
  "included input artifact =
     (case user_decision input (art_id artifact) of
        Some b \<Rightarrow> b | None \<Rightarrow> default_artifact_selection artifact)"

lemma index_artifact_selection_ok:
  assumes "index_artifact_selection input artifacts = Inr explicit"
  shows "bt_get explicit = user_decision input"
proof -
  have step: "bt_get m (as_artifact x) = None \<and> m' = bt_insert (as_artifact x) (as_include x) m"
    if "index_artifact_decision artifacts x m = Inr m'" for x m m'
    using that by (auto simp: index_artifact_decision_def split: option.splits if_splits)
  from index_unique(1) [OF assms [unfolded index_artifact_selection_def] step]
  show ?thesis by (simp add: user_decision_def)
qed

lemma artifact_included_input:
  "index_artifact_selection input artifacts = Inr explicit \<Longrightarrow> artifact_included explicit = included input"
  by (simp add: fun_eq_iff artifact_included_def included_def index_artifact_selection_ok)

text \<open>What the policy demands of a selected component.\<close>

definition component_allowed :: "SelectionPolicy \<Rightarrow> Component \<Rightarrow> bool" where
  "component_allowed policy component \<longleftrightarrow>
     (is_sensitive component \<longrightarrow> sp_secrets policy = VaultExplicit)
     \<and> (is_unknown_binary component \<longrightarrow>
          sp_unknown_binaries policy = PortableBinaryExplicit \<and> has_safe_binary_hash component)"

lemma validate_component_policy_ok:
  "validate_component_policy component policy warnings = Inr w \<Longrightarrow> component_allowed policy component"
  by (auto simp: validate_component_policy_def component_allowed_def result_simps
      split: if_splits SecretSelectionPolicy.splits UnknownBinarySelectionPolicy.splits)

lemma validate_components_ok:
  assumes "try_fold (\<lambda>i warnings. try_bind (expect (bt_get m i)) (\<lambda>component.
       lift_fail (validate_component_policy component policy warnings))) is w = Inr w'"
  shows "\<forall>i \<in> set is. component_allowed policy (the (bt_get m i))"
  using assms by (induction "is" arbitrary: w) (auto simp: result_simps dest: validate_component_policy_ok)

text \<open>What a successful call consists of.\<close>

lemma build_stages:
  assumes "build_selection_closure graph input = Inr sc"
  obtains m artifacts explicit roots w1 w2 w3 where
    "index_components graph = Inr m" "index_artifacts graph = Inr artifacts"
    "index_artifact_selection input artifacts = Inr explicit"
    "user_selected_components input m = Inr roots"
    "closure_loop m (index_edges graph) (rev roots) roots [] = Inr (sc_selected_components sc, sc_auto_added_dependencies sc)"
    "try_fold (\<lambda>i warnings. try_bind (expect (bt_get m i)) (\<lambda>component.
       lift_fail (validate_component_policy component (si_policy input) warnings))) (sc_selected_components sc) w1 = Inr w2"
    "\<forall>s \<in> set (si_artifacts input). check_artifact_owner artifacts (sc_selected_components sc) s = Inr ()"
    "try_fold (select_component_artifacts m explicit (si_policy input)) (sc_selected_components sc) ([], 0, w2)
       = Inr (sc_selected_artifacts sc, sc_total_bytes sc, sc_warnings sc)"
    "case sp_max_bytes (si_policy input) of None \<Rightarrow> True | Some maximum \<Rightarrow> sc_total_bytes sc \<le> maximum"
proof -
  from assms show thesis
    unfolding build_selection_closure_def Let_def
    by (clarsimp simp: result_simps split: if_splits prod.splits) (rule that; simp split: option.splits)
qed

lemma try_fold_Inl: "try_fold f xs s = Inl e \<Longrightarrow> \<exists>x \<in> set xs. \<exists>t. f x t = Inl e"
  using try_fold_error_invariant [of f xs s e "\<lambda>_. True"] by blast

lemma build_only_fails:
  assumes "build_selection_closure graph input = Inl e"
  shows "\<exists>err. e = Fail err"
proof -
  have policy: "\<exists>err. e = Fail err"
    if "user_selected_components input m = Inr roots"
      "closure_loop m (index_edges graph) (rev roots) roots [] = Inr (selected, auto_added)"
      "try_fold (\<lambda>i warnings. try_bind (expect (bt_get m i)) (\<lambda>component.
         lift_fail (validate_component_policy component (si_policy input) warnings))) selected w = Inl e"
    for m roots selected auto_added w
    using closure_result(2) [OF that(1,2)] try_fold_Inl [OF that(3)] by (auto simp: result_simps)
  have artifacts: "\<exists>err. e = Fail err"
    if "user_selected_components input m = Inr roots"
      "closure_loop m (index_edges graph) (rev roots) roots [] = Inr (selected, auto_added)"
      "try_fold (select_component_artifacts m explicit (si_policy input)) selected st = Inl e"
    for m roots selected auto_added explicit st
    using closure_result(2) [OF that(1,2)] try_fold_Inl [OF that(3)]
    by (auto simp: result_simps select_component_artifacts_def)
  from assms show ?thesis
    unfolding build_selection_closure_def Let_def
    by (auto simp: result_simps split: if_splits prod.splits dest: policy artifacts)
qed

subsection \<open>A sample inventory\<close>

definition sample_artifact :: "str \<Rightarrow> nat \<Rightarrow> ArtifactPolicy \<Rightarrow> ArtifactRef" where
  "sample_artifact i bytes policy =
     \<lparr>art_id = i, art_source_path = \<lparr>pt_root = UserProfile, pt_relative = ''cfg/'' @ i\<rparr>,
      art_scope = ConfigScope.User, art_size_bytes = bytes, art_content_type = Json, art_policy = policy,
      art_object = None\<rparr>"

definition sample_component :: "str \<Rightarrow> DependencyEdge list \<Rightarrow> ArtifactRef list \<Rightarrow> Component" where
  "sample_component i deps artifacts =
     \<lparr>c_id = i, c_kind = Tool,
      c_identity = \<lparr>idn_provider_package = None, idn_provider_source = None, idn_package_family = None,
        idn_product_name = Some i, idn_executable_name = None, idn_publisher = None,
        idn_executable_hash = None, idn_install_role = None, idn_identity_quality = IdentityQuality.Local\<rparr>,
      c_display_name = i, c_version = None, c_architecture = None, c_publisher = None,
      c_provenance = None, c_evidence = [], c_confidence = Confidence.High, c_dependencies = deps,
      c_artifacts = artifacts,
      c_restore = \<lparr>rd_primary = Reinstall, rd_alternatives = [], rd_portability = Portable,
        rd_requires_elevation = False, rd_requires_user_action = False, rd_rationale = []\<rparr>,
      c_compatibility = \<lparr>cmp_required_os = None, cmp_required_architecture = None,
        cmp_requires_provider = None, cmp_requires_runtime = None, cmp_requires_elevation = False,
        cmp_requires_wsl = False, cmp_requires_docker = False\<rparr>,
      c_verification = [],
      c_selection = \<lparr>sm_recommended = True, sm_score = 0, sm_selected_by_default = True,
        sm_sensitive = False, sm_size_bytes = 0\<rparr>,
      c_extensions = []\<rparr>"

definition sample_edge :: "str \<Rightarrow> str \<Rightarrow> bool \<Rightarrow> DependencyEdge" where
  "sample_edge source target required =
     \<lparr>edge_from = source, edge_to = target, edge_kind = RequiredRuntime, edge_required = required,
      edge_evidence = [], edge_confidence = Confidence.High\<rparr>"

definition sample_graph :: ComponentGraph where
  "sample_graph =
     \<lparr>g_components = [sample_component ''app'' [sample_edge ''app'' ''node'' True]
                        [sample_artifact ''app.cfg'' 10 Config, sample_artifact ''app.big'' 99 LargeOptIn],
                      sample_component ''node'' [] [sample_artifact ''node.cfg'' 5 Config],
                      sample_component ''other'' [] []],
      g_edges = [sample_edge ''node'' ''app'' True]\<rparr>"

definition sample_input :: SelectionInput where
  "sample_input =
     \<lparr>si_components = [''app''], si_artifacts = [],
      si_policy = \<lparr>sp_secrets = SecretSelectionPolicy.Exclude, sp_large_data = LargeDataSelectionPolicy.Exclude,
        sp_unknown_binaries = UnknownBinarySelectionPolicy.Exclude, sp_max_bytes = Some 20\<rparr>\<rparr>"

definition sample_closure :: SelectionClosure where
  "sample_closure =
     \<lparr>sc_selected_components = [''app'', ''node''], sc_selected_artifacts = [''app.cfg'', ''node.cfg''],
      sc_auto_added_dependencies = [''node''], sc_total_bytes = 15,
      sc_warnings = [''Required dependency was automatically added: node'']\<rparr>"

lemmas sample_defs = sample_graph_def sample_input_def sample_closure_def sample_component_def
  sample_edge_def sample_artifact_def

lemmas selection_eval = index_components_def index_component_def index_artifacts_def index_artifact_def
  index_edges_def all_edges_def add_edge_def edge_identity_def edge_sort_key_def sort_key_def
  index_artifact_selection_def user_selected_components_def select_component_def close_edge_def
  insort_insert_key_def less_char_def less_eq_char_def

lemmas selection_limits = MAX_SELECTED_COMPONENTS_def MAX_SELECTED_ARTIFACTS_def MAX_SELECTION_WARNINGS_def
  DEFAULT_LARGE_ARTIFACT_THRESHOLD_BYTES_def

lemma sample_paths:
  "PathToken_validate \<lparr>pt_root = UserProfile, pt_relative = ''cfg/app.cfg''\<rparr> = Inr ()"
  "PathToken_validate \<lparr>pt_root = UserProfile, pt_relative = ''cfg/node.cfg''\<rparr> = Inr ()"
  by (simp_all add: PathToken_validate_def normalize_relative_path_def NUL_def
      starts_with_def is_separator_def)

lemma sample_components:
  "index_components sample_graph =
     Inr [(''app'', g_components sample_graph ! 0), (''node'', g_components sample_graph ! 1),
          (''other'', g_components sample_graph ! 2)]"
  by (simp add: sample_defs selection_eval)

lemma sample_build: "build_selection_closure sample_graph sample_input = Inr sample_closure"
  by (simp add: build_selection_closure_def sample_components)
     (simp add: sample_defs selection_eval selection_limits push_warning_def push_warning_if_def
       expose_optional_edges_def validate_component_policy_def validate_artifact_policy_def
       is_sensitive_def is_unknown_binary_def select_component_artifacts_def select_artifact_def
       default_artifact_selection_def is_secret_artifact_def is_large_artifact_def Let_def
       sample_paths checked_add_u64_def u64_max_def)

subsection \<open>Properties\<close>

text \<open>
  C21. The selected components of a successful closure are exactly the user's roots and
  everything they reach over required dependency edges; they are all in the inventory and listed
  once, in order, and the automatically added ones are those the user did not select.
\<close>

theorem selection_is_required_closure:
  assumes "build_selection_closure graph input = Inr sc"
  shows "set (sc_selected_components sc) = (required_rel graph)\<^sup>* `` set (si_components input)
     \<and> set (sc_selected_components sc) \<subseteq> c_id ` set (g_components graph)
     \<and> set (sc_auto_added_dependencies sc) = set (sc_selected_components sc) - set (si_components input)
     \<and> sorted (sc_selected_components sc) \<and> distinct (sc_selected_components sc)
     \<and> sorted (sc_auto_added_dependencies sc) \<and> distinct (sc_auto_added_dependencies sc)"
proof -
  from assms obtain m roots where m: "index_components graph = Inr m"
    and r: "user_selected_components input m = Inr roots"
    and c: "closure_loop m (index_edges graph) (rev roots) roots [] = Inr (sc_selected_components sc, sc_auto_added_dependencies sc)"
    by (rule build_stages)
  from closure_result [OF r c] show ?thesis
    unfolding index_components_ok(1) [OF m] dom_component_of by blast
qed

theorem selection_is_required_closure_witness:
  "set (sc_selected_components sample_closure) = (required_rel sample_graph)\<^sup>* `` set (si_components sample_input)"
  using selection_is_required_closure [OF sample_build] by blast

text \<open>
  C37. The selected artifacts are exactly the artifacts of selected components whose decision is
  to include them, the user's explicit decision first and the default otherwise; the total is the
  exact sum of their sizes, without overflow, and within the configured limit.
\<close>

theorem selection_artifacts_exact:
  assumes "build_selection_closure graph input = Inr sc"
  shows "set (sc_selected_artifacts sc) =
       {art_id a |i c a. i \<in> set (sc_selected_components sc) \<and> component_of graph i = Some c
          \<and> a \<in> set (c_artifacts c) \<and> included input a}
     \<and> sc_total_bytes sc = sum_list (map (\<lambda>i. sum_list (map art_size_bytes
          (filter (included input) (c_artifacts (the (component_of graph i)))))) (sc_selected_components sc))
     \<and> sc_total_bytes sc \<le> u64_max
     \<and> (case sp_max_bytes (si_policy input) of None \<Rightarrow> True | Some maximum \<Rightarrow> sc_total_bytes sc \<le> maximum)"
proof -
  from assms obtain m artifacts explicit roots w where m: "index_components graph = Inr m"
    and e: "index_artifact_selection input artifacts = Inr explicit"
    and r: "user_selected_components input m = Inr roots"
    and c: "closure_loop m (index_edges graph) (rev roots) roots [] = Inr (sc_selected_components sc, sc_auto_added_dependencies sc)"
    and f: "try_fold (select_component_artifacts m explicit (si_policy input)) (sc_selected_components sc) ([], 0, w)
       = Inr (sc_selected_artifacts sc, sc_total_bytes sc, sc_warnings sc)"
    and l: "case sp_max_bytes (si_policy input) of None \<Rightarrow> True | Some maximum \<Rightarrow> sc_total_bytes sc \<le> maximum"
    by (rule build_stages)
  note inc = artifact_included_input [OF e]
  note ok = select_all_artifacts_ok [OF f, simplified]
  have dom: "set (sc_selected_components sc) \<subseteq> dom (component_of graph)"
    using closure_result(2) [OF r c] unfolding index_components_ok(1) [OF m] .
  have ch: "set (chosen_artifacts explicit (the (bt_get m i))) = {a \<in> set (c_artifacts (the (component_of graph i))). included input a}" for i
    by (auto simp: chosen_artifacts_def inc index_components_ok(1) [OF m])
  have sums: "sum_list (map art_size_bytes (chosen_artifacts explicit (the (bt_get m i))))
      = sum_list (map art_size_bytes (filter (included input) (c_artifacts (the (component_of graph i)))))" for i
    by (simp add: sum_chosen inc index_components_ok(1) [OF m])
  have def: "component_of graph i = Some (the (component_of graph i))" if "i \<in> set (sc_selected_components sc)" for i
    using that dom by auto
  have "set (sc_selected_artifacts sc) = (\<Union>i \<in> set (sc_selected_components sc).
      art_id ` {a \<in> set (c_artifacts (the (component_of graph i))). included input a})"
    using ok unfolding ch by blast
  also have "\<dots> = {art_id a |i c a. i \<in> set (sc_selected_components sc)
      \<and> component_of graph i = Some c \<and> a \<in> set (c_artifacts c) \<and> included input a}"
    using def by (auto simp: image_iff) (metis option.sel)+
  finally have "set (sc_selected_artifacts sc) = {art_id a |i c a. i \<in> set (sc_selected_components sc)
      \<and> component_of graph i = Some c \<and> a \<in> set (c_artifacts c) \<and> included input a}" .
  with ok l show ?thesis unfolding sums by blast
qed

theorem selection_artifacts_exact_witness:
  "sc_total_bytes sample_closure = sum_list (map (\<lambda>i. sum_list (map art_size_bytes
     (filter (included sample_input) (c_artifacts (the (component_of sample_graph i))))))
     (sc_selected_components sample_closure))"
  using selection_artifacts_exact [OF sample_build] by blast

text \<open>
  Every selected component and every included artifact satisfies the policy: secrets only
  with an explicit vault selection, large data only when it is confirmed and explicitly selected,
  unknown binaries only when opted in and hashed, and every artifact path is normalized.
\<close>

theorem selection_respects_policy:
  assumes "build_selection_closure graph input = Inr sc"
    and "i \<in> set (sc_selected_components sc)" "component_of graph i = Some c"
  shows "component_allowed (si_policy input) c
     \<and> (\<forall>a \<in> set (c_artifacts c). included input a \<longrightarrow>
          artifact_allowed (si_policy input) (user_decision input (art_id a) \<noteq> None) c a)"
proof -
  from assms(1) obtain m artifacts explicit w w1 w2 where m: "index_components graph = Inr m"
    and e: "index_artifact_selection input artifacts = Inr explicit"
    and v: "try_fold (\<lambda>i warnings. try_bind (expect (bt_get m i)) (\<lambda>component.
       lift_fail (validate_component_policy component (si_policy input) warnings))) (sc_selected_components sc) w1 = Inr w2"
    and f: "try_fold (select_component_artifacts m explicit (si_policy input)) (sc_selected_components sc) ([], 0, w)
       = Inr (sc_selected_artifacts sc, sc_total_bytes sc, sc_warnings sc)"
    by (rule build_stages)
  from validate_components_ok [OF v] select_all_artifacts_ok [OF f, simplified] assms(2,3) show ?thesis
    by (auto simp: index_components_ok(1) [OF m] artifact_included_input [OF e] index_artifact_selection_ok [OF e])
qed

theorem selection_respects_policy_witness:
  "component_allowed (si_policy sample_input) (sample_component ''node'' [] [sample_artifact ''node.cfg'' 5 Config])"
proof -
  have "''node'' \<in> set (sc_selected_components sample_closure)" by (simp add: sample_closure_def)
  moreover have "component_of sample_graph ''node'' = Some (sample_component ''node'' [] [sample_artifact ''node.cfg'' 5 Config])"
    by (simp add: component_of_def sample_graph_def sample_component_def)
  ultimately show ?thesis using selection_respects_policy [OF sample_build] by blast
qed

text \<open>
  Building a closure never panics: the components the code expects to be indexed are indexed
  on every path, whatever the graph and the selection.
\<close>

theorem selection_never_panics:
  "build_selection_closure graph input \<noteq> Inl Panic \<and> build_selection_closure graph input \<noteq> Inl OutOfFuel"
  using build_only_fails [of graph input] by blast

end
