(* ===== verification/Operations.thy ===== *)
theory Operations
  imports Errors Ids Collections PlanValidation "HOL-Library.Product_Lexorder"
begin

text \<open>
  \<^verbatim>\<open>crates/reforge-restore/src/operations.rs\<close>: preconditions of operations, the planner's
  internal operation specs, the explicit order of overlapping writes and the deterministic
  topological order that numbers the operations of a run. The canonical digest of an operation
  kind (\<^verbatim>\<open>reforge_package::canonicalize\<close>) is the parameter \<open>kind_digest\<close>; the component id of
  an installed fact rests on the parameters of theory \<open>Ids\<close>.
\<close>

definition restore_error ::
  "ReforgeErrorCode \<Rightarrow> str \<Rightarrow> str option \<Rightarrow> ComponentId option \<Rightarrow> OperationId option \<Rightarrow> str option
   \<Rightarrow> ErrorEnvelope" where
  "restore_error ecode message technical_detail component operation context_id =
     coded_error ecode message technical_detail component operation context_id"

lemma restore_error_code [simp, error_code_simps]: "ee_code (restore_error c m d i op x) = c"
  by (simp add: restore_error_def)

type_synonym 'a restore = "(ErrorEnvelope, 'a) result"

subsection \<open>Phases\<close>

datatype OperationPhase =
    ProviderBootstrap | RuntimeBootstrap | PackageInstall | FileRestore | EnvironmentRestore
  | SubsystemRestore | ApplicationRestore | Manual | Verify

fun rank :: "OperationPhase \<Rightarrow> nat" where
  "rank ProviderBootstrap = 0"
| "rank RuntimeBootstrap = 1"
| "rank PackageInstall = 2"
| "rank FileRestore = 3"
| "rank EnvironmentRestore = 4"
| "rank SubsystemRestore = 5"
| "rank ApplicationRestore = 6"
| "rank OperationPhase.Manual = 7"
| "rank OperationPhase.Verify = 8"

lemma rank_inj: "rank a = rank b \<Longrightarrow> a = b"
  by (cases a; cases b) simp_all

text \<open>The derived order of the enum is the order of its ranks.\<close>

instantiation OperationPhase :: linorder
begin

definition less_eq_OperationPhase :: "OperationPhase \<Rightarrow> OperationPhase \<Rightarrow> bool" where
  "less_eq_OperationPhase a b \<longleftrightarrow> rank a \<le> rank b"

definition less_OperationPhase :: "OperationPhase \<Rightarrow> OperationPhase \<Rightarrow> bool" where
  "less_OperationPhase a b \<longleftrightarrow> rank a < rank b"

instance
  by standard (auto simp: less_eq_OperationPhase_def less_OperationPhase_def intro: rank_inj)

end

fun default_phase :: "OperationKind \<Rightarrow> OperationPhase" where
  "default_phase (EnsureProvider _) = ProviderBootstrap"
| "default_phase (EnsureRuntime _) = RuntimeBootstrap"
| "default_phase (InstallPackage _ _ _) = PackageInstall"
| "default_phase (WriteFile _ _ _) = FileRestore"
| "default_phase (MergeJson _ _ _) = FileRestore"
| "default_phase (MergeToml _ _ _) = FileRestore"
| "default_phase (SetUserEnvironment _ _) = EnvironmentRestore"
| "default_phase (AppendUserPath _) = EnvironmentRestore"
| "default_phase (ImportWsl _ _) = SubsystemRestore"
| "default_phase (RestoreDockerImage _ _) = SubsystemRestore"
| "default_phase (RestoreDockerVolume _ _) = SubsystemRestore"
| "default_phase (InstallVsCodeExtension _ _ _) = ApplicationRestore"
| "default_phase (RegisterMcp _) = ApplicationRestore"
| "default_phase (OpenManualAction _) = OperationPhase.Manual"
| "default_phase (RequireReboot _) = OperationPhase.Manual"
| "default_phase (OperationKind.Verify _) = OperationPhase.Verify"

fun operation_kind_key :: "OperationKind \<Rightarrow> str" where
  "operation_kind_key (EnsureProvider _) = ''00.ensure_provider''"
| "operation_kind_key (EnsureRuntime _) = ''01.ensure_runtime''"
| "operation_kind_key (InstallPackage _ _ _) = ''02.install_package''"
| "operation_kind_key (WriteFile _ _ _) = ''03.write_file''"
| "operation_kind_key (MergeJson _ _ _) = ''03.merge_json''"
| "operation_kind_key (MergeToml _ _ _) = ''03.merge_toml''"
| "operation_kind_key (SetUserEnvironment _ _) = ''04.set_user_environment''"
| "operation_kind_key (AppendUserPath _) = ''04.append_user_path''"
| "operation_kind_key (ImportWsl _ _) = ''05.import_wsl''"
| "operation_kind_key (RestoreDockerImage _ _) = ''05.restore_docker_image''"
| "operation_kind_key (RestoreDockerVolume _ _) = ''05.restore_docker_volume''"
| "operation_kind_key (InstallVsCodeExtension _ _ _) = ''06.install_vscode_extension''"
| "operation_kind_key (RegisterMcp _) = ''06.register_mcp''"
| "operation_kind_key (OpenManualAction _) = ''07.open_manual_action''"
| "operation_kind_key (RequireReboot _) = ''07.require_reboot''"
| "operation_kind_key (OperationKind.Verify _) = ''08.verify''"

subsection \<open>Preconditions\<close>

text \<open>\<open>id_of\<close> is the component id of an identity and publisher, if they have one.\<close>

type_synonym id_oracle = "Identity \<Rightarrow> Publisher option \<Rightarrow> ComponentId option"

definition component_id_oracle ::
  "(CanonicalIdentityTuple \<Rightarrow> bytes option) \<Rightarrow> (bytes \<Rightarrow> bytes) \<Rightarrow> id_oracle" where
  "component_id_oracle to_vec blake3 identity publisher =
     (case ComponentId_from_identity to_vec blake3 identity publisher of
        Inl _ \<Rightarrow> None | Inr canonical \<Rightarrow> Some (ci_id canonical))"

definition fact_is :: "id_oracle \<Rightarrow> ComponentId \<Rightarrow> InstalledFact \<Rightarrow> bool" where
  "fact_is id_of component f \<longleftrightarrow> id_of (if_identity f) (if_publisher f) = Some component"

definition target_component_present :: "id_oracle \<Rightarrow> TargetFacts \<Rightarrow> ComponentId \<Rightarrow> bool" where
  "target_component_present id_of target component \<longleftrightarrow>
     list_ex (\<lambda>f. rf_id f = component) (tf_runtimes target)
     \<or> list_ex (fact_is id_of component) (tf_installed target)"

text \<open>\<^verbatim>\<open>Iterator::find_map\<close>\<close>

fun find_map :: "('a \<Rightarrow> 'b option) \<Rightarrow> 'a list \<Rightarrow> 'b option" where
  "find_map f [] = None"
| "find_map f (x # xs) = (case f x of Some y \<Rightarrow> Some y | None \<Rightarrow> find_map f xs)"

definition target_component_version :: "id_oracle \<Rightarrow> TargetFacts \<Rightarrow> ComponentId \<Rightarrow> VersionValue option" where
  "target_component_version id_of target component =
     (if list_ex (\<lambda>f. rf_id f = component) (tf_runtimes target)
      then (case List.find (\<lambda>f. rf_id f = component) (tf_runtimes target) of
              None \<Rightarrow> None | Some f \<Rightarrow> rf_version f)
      else find_map (\<lambda>f. if fact_is id_of component f then if_version f else None) (tf_installed target))"

text \<open>\<^verbatim>\<open>str::parse::<u128>\<close> of a non-empty digit string.\<close>

definition parse_u128 :: "str \<Rightarrow> nat option" where
  "parse_u128 s = (if read_nat s < 2 ^ 128 then Some (read_nat s) else None)"

fun parse_parts :: "str list \<Rightarrow> nat list option" where
  "parse_parts [] = Some []"
| "parse_parts (part # parts) =
     (if part = [] \<or> \<not> list_all is_ascii_digit part then None
      else case parse_u128 part of
        None \<Rightarrow> None
      | Some n \<Rightarrow> map_option ((#) n) (parse_parts parts))"

definition numeric_version_parts :: "str \<Rightarrow> nat list option" where
  "numeric_version_parts v = parse_parts (split_on (\<lambda>c. c = CHR ''.'') v)"

definition version_text :: "VersionValue \<Rightarrow> str" where
  "version_text v = (case ver_normalized v of Some t \<Rightarrow> if t \<noteq> [] then t else ver_raw v | None \<Rightarrow> ver_raw v)"

text \<open>The comparison loop; a missing part counts as zero.\<close>

fun parts_at_least :: "nat list \<Rightarrow> nat list \<Rightarrow> bool" where
  "parts_at_least [] [] = True"
| "parts_at_least (a # as) [] = (if a < 0 then False else if a > 0 then True else parts_at_least as [])"
| "parts_at_least [] (m # ms) = (if 0 < m then False else parts_at_least [] ms)"
| "parts_at_least (a # as) (m # ms) = (if a < m then False else if a > m then True else parts_at_least as ms)"

definition version_at_least :: "VersionValue \<Rightarrow> VersionValue \<Rightarrow> bool" where
  "version_at_least actual minimum =
     (if version_text actual = version_text minimum then True
      else case numeric_version_parts (version_text actual) of
        None \<Rightarrow> False
      | Some actual_parts \<Rightarrow>
          (case numeric_version_parts (version_text minimum) of
             None \<Rightarrow> False
           | Some minimum_parts \<Rightarrow> parts_at_least actual_parts minimum_parts))"

definition precondition_satisfied ::
  "id_oracle \<Rightarrow> Precondition \<Rightarrow> TargetFacts \<Rightarrow> ObjectIndex \<Rightarrow> str set \<Rightarrow> bool" where
  "precondition_satisfied id_of precondition target object_index approved_actions =
     (case precondition of
        Always \<Rightarrow> True
      | TargetFingerprint fingerprint \<Rightarrow> tf_fingerprint target = fingerprint
      | ComponentAbsent component \<Rightarrow> \<not> target_component_present id_of target component
      | ComponentVersion component minimum \<Rightarrow>
          (if \<not> target_component_present id_of target component then False
           else case minimum of
             None \<Rightarrow> True
           | Some minimum \<Rightarrow>
               (case target_component_version id_of target component of
                  None \<Rightarrow> False | Some actual \<Rightarrow> version_at_least actual minimum))
      | ArtifactPresent obj \<Rightarrow> list_ex (\<lambda>entry. oe_id entry = obj) (oi_objects object_index)
      | ManualApproval action \<Rightarrow> action \<in> approved_actions)"

subsection \<open>Keys of destinations\<close>

text \<open>Control scalars become underscores; at most 256 scalars are kept.\<close>

fun safe_key_take :: "nat \<Rightarrow> str \<Rightarrow> str" where
  "safe_key_take 0 s = []"
| "safe_key_take (Suc n) [] = []"
| "safe_key_take (Suc n) (c # s) =
     (let k = len_utf8 c; scalar = take k (c # s)
      in (if has_control scalar then ''_'' else scalar) @ safe_key_take n (drop k (c # s)))"

definition safe_key_text :: "str \<Rightarrow> str" where
  "safe_key_text v = safe_key_take 256 v"

fun folder_key :: "KnownFolderToken \<Rightarrow> str" where
  "folder_key UserProfile = ''user_profile''"
| "folder_key RoamingAppData = ''roaming_app_data''"
| "folder_key LocalAppData = ''local_app_data''"
| "folder_key ProgramData = ''program_data''"
| "folder_key ProgramFiles = ''program_files''"
| "folder_key ProgramFilesX86 = ''program_files_x86''"
| "folder_key StartMenu = ''start_menu''"
| "folder_key Desktop = ''desktop''"
| "folder_key Startup = ''startup''"
| "folder_key Documents = ''documents''"
| "folder_key (UserSelected i) = ''user_selected:'' @ safe_key_text i"

definition path_key :: "PathToken \<Rightarrow> str" where
  "path_key path = folder_key (pt_root path) @ '':'' @ to_ascii_lowercase (pt_relative path)"

text \<open>The derived \<^verbatim>\<open>Debug\<close> names.\<close>

fun debug_scope :: "ConfigScope \<Rightarrow> str" where
  "debug_scope Process = ''Process''"
| "debug_scope ConfigScope.User = ''User''"
| "debug_scope System = ''System''"
| "debug_scope Project = ''Project''"
| "debug_scope Managed = ''Managed''"

fun debug_kind :: "ComponentKind \<Rightarrow> str" where
  "debug_kind Application = ''Application''"
| "debug_kind Package = ''Package''"
| "debug_kind Runtime = ''Runtime''"
| "debug_kind Tool = ''Tool''"
| "debug_kind Harness = ''Harness''"
| "debug_kind McpServer = ''McpServer''"
| "debug_kind Skill = ''Skill''"
| "debug_kind Agent = ''Agent''"
| "debug_kind Hook = ''Hook''"
| "debug_kind Plugin = ''Plugin''"
| "debug_kind Browser = ''Browser''"
| "debug_kind BrowserProfile = ''BrowserProfile''"
| "debug_kind Editor = ''Editor''"
| "debug_kind Extension = ''Extension''"
| "debug_kind Configuration = ''Configuration''"
| "debug_kind DataArtifact = ''DataArtifact''"
| "debug_kind ComponentKind.SecretReference = ''SecretReference''"
| "debug_kind EnvironmentVariable = ''EnvironmentVariable''"
| "debug_kind SystemFeature = ''SystemFeature''"
| "debug_kind Service = ''Service''"
| "debug_kind ScheduledTask = ''ScheduledTask''"
| "debug_kind Shell = ''Shell''"
| "debug_kind ComponentKind.PortableBinary = ''PortableBinary''"
| "debug_kind WslDistribution = ''WslDistribution''"
| "debug_kind DockerContext = ''DockerContext''"
| "debug_kind DockerImage = ''DockerImage''"
| "debug_kind DockerVolume = ''DockerVolume''"
| "debug_kind ComponentKind.Unknown = ''Unknown''"

fun verification_destination :: "VerificationRule \<Rightarrow> str" where
  "verification_destination (File destination _) = path_key destination"
| "verification_destination (FileVersion destination _ _) = path_key destination"
| "verification_destination (ConfigParses destination _) = path_key destination"
| "verification_destination (McpRegistration _ config) = path_key config"
| "verification_destination (BrowserArtifact profile) = path_key profile"
| "verification_destination (ProviderIdentity provider package) =
     ''provider:'' @ provider @ '':'' @ safe_key_text (ps_id package)"
| "verification_destination (Environment scope name _) =
     ''environment:'' @ debug_scope scope @ '':'' @ safe_key_text name"
| "verification_destination (WslState distro _) = ''wsl:'' @ safe_key_text distro"
| "verification_destination (DockerObject kind identity) =
     ''docker:'' @ debug_kind kind @ '':'' @ safe_key_text identity"
| "verification_destination (SecureTarget secret) = ''secure-target:'' @ secret"

definition opt_key_text :: "str option \<Rightarrow> str" where
  "opt_key_text v = (case v of None \<Rightarrow> [] | Some t \<Rightarrow> safe_key_text t)"

fun normalized_destination :: "OperationKind \<Rightarrow> str" where
  "normalized_destination (EnsureProvider provider) = ''provider:'' @ provider"
| "normalized_destination (InstallPackage provider package _) =
     ''package:'' @ provider @ '':'' @ safe_key_text (ps_id package)"
| "normalized_destination (EnsureRuntime runtime) = ''runtime:'' @ safe_key_text (rs_id runtime)"
| "normalized_destination (WriteFile destination _ _) = path_key destination"
| "normalized_destination (MergeJson destination _ _) = path_key destination"
| "normalized_destination (MergeToml destination _ _) = path_key destination"
| "normalized_destination (SetUserEnvironment name _) = ''environment:'' @ safe_key_text name"
| "normalized_destination (AppendUserPath entries) = ''path:'' @ join_with ''|'' (sort (map path_key entries))"
| "normalized_destination (ImportWsl distro _) = ''wsl:'' @ safe_key_text (wsl_distribution distro)"
| "normalized_destination (RestoreDockerImage img _) =
     ''docker-image:'' @ safe_key_text (dis_repository img) @ '':'' @ opt_key_text (dis_tag img)"
| "normalized_destination (RestoreDockerVolume volume _) = ''docker-volume:'' @ safe_key_text (dvs_name volume)"
| "normalized_destination (InstallVsCodeExtension i _ profile) =
     ''vscode-extension:'' @ safe_key_text i @ '':'' @ opt_key_text profile"
| "normalized_destination (RegisterMcp server) =
     ''mcp:'' @ safe_key_text (mcp_name server) @ '':'' @ path_key (art_source_path (mcp_source_config server))"
| "normalized_destination (OpenManualAction action) = ''manual:'' @ safe_key_text (ma_id action)"
| "normalized_destination (RequireReboot reason) = ''reboot:'' @ safe_key_text reason"
| "normalized_destination (OperationKind.Verify rule) = verification_destination rule"

subsection \<open>Operation specs\<close>

record OperationSpec =
  spec_key :: str
  spec_component :: ComponentId
  spec_kind :: OperationKind
  spec_phase :: OperationPhase
  spec_prerequisites :: "str list"
  spec_precondition :: Precondition
  spec_idempotency_key :: str
  spec_verification :: "VerificationRule list"
  spec_requires_elevation :: bool
  spec_non_idempotent :: bool

definition derive_idempotency_key ::
  "(OperationKind \<Rightarrow> str option) \<Rightarrow> ComponentId \<Rightarrow> OperationKind \<Rightarrow> str restore" where
  "derive_idempotency_key kind_digest component kind =
     try_bind (ok_or (restore_error SchemaInvalid ''restore operation kind could not be canonicalized''
                 None (Some component) None None) (kind_digest kind)) (\<lambda>digest.
     Inr (''restore-v1:'' @ component @ '':'' @ digest))"

definition derive_shared_idempotency_key ::
  "(OperationKind \<Rightarrow> str option) \<Rightarrow> str \<Rightarrow> OperationKind \<Rightarrow> str restore" where
  "derive_shared_idempotency_key kind_digest namespace kind =
     try_bind (ok_or (restore_error SchemaInvalid ''shared restore operation kind could not be canonicalized''
                 None None None None) (kind_digest kind)) (\<lambda>digest.
     Inr (''restore-v1:'' @ namespace @ '':'' @ digest))"

definition make_spec ::
  "str \<Rightarrow> ComponentId \<Rightarrow> OperationKind \<Rightarrow> OperationPhase \<Rightarrow> Precondition \<Rightarrow> VerificationRule list
   \<Rightarrow> bool \<Rightarrow> bool \<Rightarrow> OperationSpec" where
  "make_spec key component kind phase precondition verification requires_elevation non_idempotent =
     \<lparr>spec_key = key, spec_component = component, spec_kind = kind, spec_phase = phase,
      spec_prerequisites = [], spec_precondition = precondition, spec_idempotency_key = key,
      spec_verification = verification, spec_requires_elevation = requires_elevation,
      spec_non_idempotent = non_idempotent\<rparr>"

definition OperationSpec_new ::
  "(OperationKind \<Rightarrow> str option) \<Rightarrow> ComponentId \<Rightarrow> OperationKind \<Rightarrow> OperationPhase \<Rightarrow> Precondition
   \<Rightarrow> VerificationRule list \<Rightarrow> bool \<Rightarrow> bool \<Rightarrow> OperationSpec restore" where
  "OperationSpec_new kind_digest component kind phase precondition verification elevation non_idempotent =
     try_bind (derive_idempotency_key kind_digest component kind) (\<lambda>key.
     Inr (make_spec key component kind phase precondition verification elevation non_idempotent))"

definition OperationSpec_new_shared ::
  "(OperationKind \<Rightarrow> str option) \<Rightarrow> ComponentId \<Rightarrow> str \<Rightarrow> OperationKind \<Rightarrow> OperationPhase \<Rightarrow> Precondition
   \<Rightarrow> VerificationRule list \<Rightarrow> bool \<Rightarrow> bool \<Rightarrow> OperationSpec restore" where
  "OperationSpec_new_shared kind_digest component namespace kind phase precondition verification elevation
     non_idempotent =
     try_bind (derive_shared_idempotency_key kind_digest namespace kind) (\<lambda>key.
     Inr (make_spec key component kind phase precondition verification elevation non_idempotent))"

definition add_prerequisite :: "str \<Rightarrow> OperationSpec \<Rightarrow> OperationSpec" where
  "add_prerequisite key spec = spec\<lparr>spec_prerequisites := insort_insert key (spec_prerequisites spec)\<rparr>"

type_synonym tie_key = "nat \<times> str \<times> str \<times> str \<times> str"

definition spec_sort_key :: "OperationId option \<Rightarrow> OperationSpec \<Rightarrow> tie_key" where
  "spec_sort_key operation_id spec =
     (rank (spec_phase spec), spec_component spec, operation_kind_key (spec_kind spec),
      normalized_destination (spec_kind spec),
      case operation_id of Some i \<Rightarrow> i | None \<Rightarrow> spec_idempotency_key spec)"

type_synonym spec_map = "(str, OperationSpec) btree"

text \<open>The keys in the deterministic candidate order.\<close>

definition sorted_keys :: "spec_map \<Rightarrow> str list" where
  "sorted_keys specs = map fst (sort_key (\<lambda>(_, spec). spec_sort_key None spec) specs)"

definition scoped_idempotency_key :: "RunId \<Rightarrow> str \<Rightarrow> str" where
  "scoped_idempotency_key run_id logical_key =
     (let suffix = (case strip_prefix logical_key ''restore-v1:'' of Some s \<Rightarrow> s | None \<Rightarrow> logical_key)
      in ''restore-v1:'' @ run_id @ '':'' @ suffix)"

subsection \<open>Overlapping writes\<close>

definition write_destination :: "OperationKind \<Rightarrow> PathToken option" where
  "write_destination kind = operation_destination kind"

definition spec_destination :: "spec_map \<Rightarrow> str \<Rightarrow> PathToken option" where
  "spec_destination specs key =
     (case bt_get specs key of None \<Rightarrow> None | Some spec \<Rightarrow> write_destination (spec_kind spec))"

definition order_pair :: "str \<Rightarrow> PathToken \<Rightarrow> str \<Rightarrow> spec_map \<Rightarrow> spec_map" where
  "order_pair left_key left_path right_key specs =
     (case spec_destination specs right_key of
        None \<Rightarrow> specs
      | Some right_path \<Rightarrow>
          if paths_overlap left_path right_path
          then (case bt_get specs right_key of
                  None \<Rightarrow> specs
                | Some spec \<Rightarrow> bt_insert right_key (add_prerequisite left_key spec) specs)
          else specs)"

fun order_writes :: "str list \<Rightarrow> spec_map \<Rightarrow> spec_map" where
  "order_writes [] specs = specs"
| "order_writes (left_key # keys) specs =
     order_writes keys
       (case spec_destination specs left_key of
          None \<Rightarrow> specs
        | Some left_path \<Rightarrow> foldl (\<lambda>specs right_key. order_pair left_key left_path right_key specs) specs keys)"

definition order_overlapping_writes :: "spec_map \<Rightarrow> spec_map" where
  "order_overlapping_writes specs = order_writes (sorted_keys specs) specs"

subsection \<open>Topological order\<close>

text \<open>Operation ids for the candidate order, from the first ordinal on.\<close>

definition assign_id ::
  "(str \<Rightarrow> (nat \<times> str) option) \<Rightarrow> RunId \<Rightarrow> nat \<Rightarrow> nat \<times> str \<Rightarrow> (str, OperationId) btree
   \<Rightarrow> (str, OperationId) btree restore" where
  "assign_id uuid_parse run_id first_ordinal = (\<lambda>(index, key) id_by_key.
     try_bind (ok_or (restore_error SecurityPolicy ''restore operation ordinal overflowed'' None None None None)
                (checked_add_u64 first_ordinal index)) (\<lambda>ordinal.
     case OperationId_for_run uuid_parse run_id ordinal of
       Inl _ \<Rightarrow> Inl (restore_error SchemaInvalid ''restore operation ID could not be constructed'' None None None None)
     | Inr operation_id \<Rightarrow> Inr (bt_insert key operation_id id_by_key)))"

text \<open>The indegrees and the dependents of one operation's prerequisites.\<close>

definition add_dependency ::
  "(str, nat) btree \<Rightarrow> nat \<Rightarrow> str \<Rightarrow> nat list \<times> nat list list \<Rightarrow> (nat list \<times> nat list list) restore" where
  "add_dependency indices index prerequisite = (\<lambda>(indegree, dependents).
     case bt_get indices prerequisite of
       None \<Rightarrow> Inl (restore_error SchemaInvalid ''restore operation prerequisite does not exist'' None None None None)
     | Some prerequisite_index \<Rightarrow>
         try_bind (ok_or (restore_error SecurityPolicy ''restore operation prerequisite count overflowed'' None None None None)
                    (checked_add_u64 (indegree ! index) 1)) (\<lambda>d.
         Inr (indegree[index := d],
              dependents[prerequisite_index := dependents ! prerequisite_index @ [index]])))"

type_synonym ready_key = "nat \<times> str \<times> str \<times> str \<times> str \<times> nat"

definition ready_entry :: "OperationSpec \<Rightarrow> OperationId \<Rightarrow> nat \<Rightarrow> ready_key" where
  "ready_entry spec operation_id index =
     (case spec_sort_key (Some operation_id) spec of (a, b, c, d, e) \<Rightarrow> (a, b, c, d, e, index))"

definition ready_index :: "ready_key \<Rightarrow> nat" where
  "ready_index = (\<lambda>(_, _, _, _, _, index). index)"

text \<open>An operation that has become ready is inserted into the ordered ready set.\<close>

definition make_ready ::
  "str list \<Rightarrow> (str, OperationId) btree \<Rightarrow> spec_map \<Rightarrow> nat \<Rightarrow> ready_key list
   \<Rightarrow> (ErrorEnvelope abort, ready_key list) result" where
  "make_ready ordered_keys id_by_key specs index ready =
     (let key = ordered_keys ! index in
     try_bind (expect (bt_get specs key)) (\<lambda>spec.
     try_bind (expect (bt_get id_by_key key)) (\<lambda>operation_id.
     Inr (insort_insert (ready_entry spec operation_id index) ready))))"

definition release_dependent ::
  "str list \<Rightarrow> (str, OperationId) btree \<Rightarrow> spec_map \<Rightarrow> nat \<Rightarrow> nat list \<times> ready_key list
   \<Rightarrow> (ErrorEnvelope abort, nat list \<times> ready_key list) result" where
  "release_dependent ordered_keys id_by_key specs dependent = (\<lambda>(indegree, ready).
     if indegree ! dependent = 0 then Inl Panic
     else let indegree = indegree[dependent := indegree ! dependent - 1]
          in if indegree ! dependent = 0
             then try_bind (make_ready ordered_keys id_by_key specs dependent ready) (\<lambda>ready.
                  Inr (indegree, ready))
             else Inr (indegree, ready))"

definition operation_of ::
  "RunId \<Rightarrow> (str, OperationId) btree \<Rightarrow> OperationSpec \<Rightarrow> OperationId
   \<Rightarrow> (ErrorEnvelope abort, Operation) result" where
  "operation_of run_id id_by_key spec operation_id =
     try_bind (try_map (\<lambda>p. expect (bt_get id_by_key p)) (spec_prerequisites spec)) (\<lambda>prerequisites.
     Inr \<lparr>op_id = operation_id, op_component = spec_component spec, op_kind = spec_kind spec,
          op_prerequisites = prerequisites, op_precondition = spec_precondition spec,
          op_idempotency_key = scoped_idempotency_key run_id (spec_idempotency_key spec),
          op_verification = spec_verification spec,
          op_requires_elevation = spec_requires_elevation spec,
          op_non_idempotent = spec_non_idempotent spec\<rparr>)"

text \<open>The main loop: \<^verbatim>\<open>while let Some(..) = ready.pop_first()\<close>.\<close>

function topo_loop ::
  "RunId \<Rightarrow> str list \<Rightarrow> (str, OperationId) btree \<Rightarrow> nat list list \<Rightarrow> ready_key list \<Rightarrow> spec_map \<Rightarrow> nat list
   \<Rightarrow> Operation list \<Rightarrow> (ErrorEnvelope abort, Operation list) result" where
  "topo_loop run_id ordered_keys id_by_key dependents [] specs indegree acc = Inr acc"
| "topo_loop run_id ordered_keys id_by_key dependents (entry # ready) specs indegree acc =
     (let index = ready_index entry; key = ordered_keys ! index in
      case bt_get specs key of
        None \<Rightarrow> Inl Panic
      | Some spec \<Rightarrow>
          (case expect (bt_get id_by_key key) of
             Inl e \<Rightarrow> Inl e
           | Inr operation_id \<Rightarrow>
          (case operation_of run_id id_by_key spec operation_id of
             Inl e \<Rightarrow> Inl e
           | Inr operation \<Rightarrow>
          (case try_fold (release_dependent ordered_keys id_by_key (bt_remove key specs)) (dependents ! index)
                  (indegree, ready) of
             Inl e \<Rightarrow> Inl e
           | Inr (indegree', ready') \<Rightarrow>
               topo_loop run_id ordered_keys id_by_key dependents ready' (bt_remove key specs) indegree'
                 (acc @ [operation])))))"
  by pat_completeness auto
termination
proof (relation "measure (\<lambda>(_, _, _, _, _, specs, _, _). length specs)", goal_cases)
  case (2 run_id ordered_keys id_by_key dependents entry ready specs indegree acc index key spec)
  then have "(key, spec) \<in> set specs" by (simp add: map_of_SomeD)
  then have "length (bt_remove key specs) < length specs"
    unfolding bt_remove_def by (rule length_filter_less) simp
  then show ?case by simp
qed simp

definition enumerate_list :: "'a list \<Rightarrow> (nat \<times> 'a) list" where
  "enumerate_list xs = zip [0..<length xs] xs"

definition initial_ready ::
  "str list \<Rightarrow> (str, OperationId) btree \<Rightarrow> spec_map \<Rightarrow> nat list
   \<Rightarrow> (ErrorEnvelope abort, ready_key list) result" where
  "initial_ready ordered_keys id_by_key specs indegree =
     try_fold (\<lambda>(index, key) ready.
       if indegree ! index = 0 then make_ready ordered_keys id_by_key specs index ready else Inr ready)
       (enumerate_list ordered_keys) []"

definition topological_order ::
  "(str \<Rightarrow> (nat \<times> str) option) \<Rightarrow> spec_map \<Rightarrow> RunId \<Rightarrow> nat \<Rightarrow> (ErrorEnvelope abort, Operation list) result" where
  "topological_order uuid_parse specs run_id first_ordinal =
     (let ordered_keys = sorted_keys specs; n = length ordered_keys in
     try_bind (lift_fail (try_fold (assign_id uuid_parse run_id first_ordinal) (enumerate_list ordered_keys) [])) (\<lambda>id_by_key.
     let indices = foldl (\<lambda>m (index, key). bt_insert key index m) [] (enumerate_list ordered_keys) in
     try_bind (try_fold (\<lambda>(index, key) st.
         try_bind (expect (bt_get specs key)) (\<lambda>spec.
         lift_fail (try_fold (add_dependency indices index) (spec_prerequisites spec) st)))
       (enumerate_list ordered_keys) (replicate n 0, replicate n [])) (\<lambda>(indegree, dependents).
     try_bind (initial_ready ordered_keys id_by_key specs indegree) (\<lambda>ready.
     try_bind (topo_loop run_id ordered_keys id_by_key dependents ready specs indegree []) (\<lambda>operations.
     if length operations \<noteq> n
     then Inl (Fail (restore_error DependencyCycle ''restore operation prerequisites contain a cycle'' None None None None))
     else Inr operations)))))"

end
