(* ===== verification/TopologicalOrder.thy ===== *)
theory TopologicalOrder
  imports Operations "HOL-Library.Multiset"
begin

text \<open>
  The correctness of the planner's ordering (\<open>order_overlapping_writes\<close> and
  \<open>topological_order\<close> of theory \<open>Operations\<close>). Operations are handled by their index in the
  candidate order; \<open>topo_inv\<close> is the invariant of the loop: the emitted indices \<open>D\<close> are closed
  under prerequisites, the indegree of an index counts its prerequisites outside \<open>D\<close>, and the
  ready set holds exactly the indices whose prerequisites are all in \<open>D\<close>.
\<close>

subsection \<open>The candidate order\<close>

definition specs_wf :: "spec_map \<Rightarrow> bool" where
  "specs_wf specs \<longleftrightarrow>
     bt_inv specs \<and> list_all (\<lambda>(_, spec). distinct (spec_prerequisites spec)) specs"

lemma sorted_keys_perm:
  assumes "bt_inv specs"
  shows "distinct (sorted_keys specs)" "set (sorted_keys specs) = dom (bt_get specs)"
    "length (sorted_keys specs) = length specs"
proof -
  have "mset (sorted_keys specs) = mset (map fst specs)" by (simp add: sorted_keys_def)
  then show "distinct (sorted_keys specs)" "length (sorted_keys specs) = length specs"
    using bt_inv_distinct [OF assms] mset_eq_imp_distinct_iff mset_eq_length by (metis, metis length_map)
  from \<open>mset (sorted_keys specs) = mset (map fst specs)\<close> show "set (sorted_keys specs) = dom (bt_get specs)"
    using mset_eq_setD [of "sorted_keys specs" "map fst specs"] by (simp add: dom_map_of_conv_image_fst)
qed

definition spec_at :: "spec_map \<Rightarrow> str list \<Rightarrow> nat \<Rightarrow> OperationSpec" where
  "spec_at specs keys i = the (bt_get specs (keys ! i))"

text \<open>The prerequisites of the operation at a candidate index, as candidate indices.\<close>

definition pre_indices :: "spec_map \<Rightarrow> str list \<Rightarrow> nat \<Rightarrow> nat set" where
  "pre_indices specs keys i = {j. j < length keys \<and> keys ! j \<in> set (spec_prerequisites (spec_at specs keys i))}"

lemma finite_pre_indices [simp]: "finite (pre_indices specs keys i)"
  by (simp add: pre_indices_def)

text \<open>What the preparation phase establishes, and the loop relies on.\<close>

definition topo_setup ::
  "spec_map \<Rightarrow> str list \<Rightarrow> (str, OperationId) btree \<Rightarrow> (nat \<Rightarrow> OperationId) \<Rightarrow> nat list list \<Rightarrow> bool" where
  "topo_setup specs keys id_by_key ids dependents \<longleftrightarrow>
     distinct keys
     \<and> (\<forall>i < length keys. bt_get specs (keys ! i) = Some (spec_at specs keys i))
     \<and> (\<forall>i < length keys. bt_get id_by_key (keys ! i) = Some (ids i))
     \<and> (\<forall>i < length keys. set (spec_prerequisites (spec_at specs keys i)) \<subseteq> set keys)
     \<and> (\<forall>p < length keys. dependents ! p = filter (\<lambda>i. p \<in> pre_indices specs keys i) [0..<length keys])"

definition built_operation ::
  "RunId \<Rightarrow> spec_map \<Rightarrow> str list \<Rightarrow> (str, OperationId) btree \<Rightarrow> (nat \<Rightarrow> OperationId) \<Rightarrow> nat \<Rightarrow> Operation" where
  "built_operation run_id specs keys id_by_key ids i =
     (let spec = spec_at specs keys i in
      \<lparr>op_id = ids i, op_component = spec_component spec, op_kind = spec_kind spec,
       op_prerequisites = map (\<lambda>p. the (bt_get id_by_key p)) (spec_prerequisites spec),
       op_precondition = spec_precondition spec,
       op_idempotency_key = scoped_idempotency_key run_id (spec_idempotency_key spec),
       op_verification = spec_verification spec,
       op_requires_elevation = spec_requires_elevation spec,
       op_non_idempotent = spec_non_idempotent spec\<rparr>)"

lemma operation_of_built:
  assumes "topo_setup specs keys id_by_key ids dependents" "i < length keys"
  shows "operation_of run_id id_by_key (spec_at specs keys i) (ids i)
     = Inr (built_operation run_id specs keys id_by_key ids i)"
proof -
  let ?pre = "spec_prerequisites (spec_at specs keys i)"
  have "bt_get id_by_key p = Some (the (bt_get id_by_key p))" if "p \<in> set ?pre" for p
  proof -
    have "p \<in> set keys" using assms that unfolding topo_setup_def by blast
    then obtain j where "j < length keys" "keys ! j = p" by (auto simp: in_set_conv_nth)
    with assms(1) show ?thesis by (auto simp: topo_setup_def)
  qed
  then have "try_map (\<lambda>p. expect (bt_get id_by_key p)) ?pre
      = (Inr (map (\<lambda>p. the (bt_get id_by_key p)) ?pre) :: (ErrorEnvelope abort, str list) result)"
    unfolding try_map_Inr by auto
  then show ?thesis by (simp add: operation_of_def built_operation_def Let_def)
qed

subsection \<open>Releasing dependents\<close>

lemma insort_insert_ready:
  assumes "ready_index e \<notin> ready_index ` set ready" "distinct (map ready_index ready)"
  shows "set (insort_insert e ready) = insert e (set ready)" "distinct (map ready_index (insort_insert e ready))"
proof -
  show s: "set (insort_insert e ready) = insert e (set ready)" by (rule set_insort_insert)
  have "distinct (insort_insert e ready)" using assms(2) by (simp add: distinct_map distinct_insort_insert)
  moreover have "inj_on ready_index (insert e (set ready))" using assms by (auto simp: distinct_map)
  ultimately show "distinct (map ready_index (insort_insert e ready))" by (simp add: distinct_map s)
qed

lemma ready_index_entry [simp]: "ready_index (ready_entry spec i index) = index"
  by (simp add: ready_index_def ready_entry_def split: prod.splits)

lemma make_ready_ok:
  assumes "bt_get specs (keys ! d) = Some spec" "bt_get id_by_key (keys ! d) = Some i"
    and "d \<notin> ready_index ` set ready" "distinct (map ready_index ready)"
  shows "\<exists>ready'. make_ready keys id_by_key specs d ready = Inr ready'
     \<and> ready_index ` set ready' = insert d (ready_index ` set ready) \<and> distinct (map ready_index ready')"
  using assms insort_insert_ready [of "ready_entry spec i d" ready]
  by (auto simp: make_ready_def Let_def)

lemma release_ok:
  assumes "distinct ds" "\<forall>d \<in> set ds. d < length indegree \<and> 0 < indegree ! d \<and> d \<notin> ready_index ` set ready
      \<and> bt_get specs (keys ! d) \<noteq> None \<and> bt_get id_by_key (keys ! d) \<noteq> None"
    and "distinct (map ready_index ready)"
  shows "\<exists>indegree' ready'.
     try_fold (release_dependent keys id_by_key specs) ds (indegree, ready) = Inr (indegree', ready')
     \<and> length indegree' = length indegree
     \<and> (\<forall>d < length indegree. indegree' ! d = (if d \<in> set ds then indegree ! d - 1 else indegree ! d))
     \<and> ready_index ` set ready' = ready_index ` set ready \<union> {d \<in> set ds. indegree ! d = 1}
     \<and> distinct (map ready_index ready')"
  using assms
proof (induction ds arbitrary: indegree ready)
  case (Cons d ds)
  define ind1 where "ind1 = indegree[d := indegree ! d - 1]"
  have d: "d < length indegree" "0 < indegree ! d" "d \<notin> ready_index ` set ready" "d \<notin> set ds"
    using Cons.prems by auto
  have ind1: "length ind1 = length indegree" "ind1 ! d = indegree ! d - 1" "\<forall>x. x \<noteq> d \<longrightarrow> ind1 ! x = indegree ! x"
    using d by (auto simp: ind1_def)
  have "\<exists>ready1. release_dependent keys id_by_key specs d (indegree, ready) = Inr (ind1, ready1)
      \<and> ready_index ` set ready1 = ready_index ` set ready \<union> (if indegree ! d = 1 then {d} else {})
      \<and> distinct (map ready_index ready1)"
  proof (cases "indegree ! d = 1")
    case True
    from Cons.prems(2) obtain sp i where "bt_get specs (keys ! d) = Some sp" "bt_get id_by_key (keys ! d) = Some i"
      by auto
    from make_ready_ok [OF this d(3) Cons.prems(3)] True ind1(2) d(1) show ?thesis
      by (auto simp: release_dependent_def Let_def ind1_def)
  next
    case False
    with d ind1(2) Cons.prems(3) show ?thesis by (auto simp: release_dependent_def Let_def ind1_def)
  qed
  then obtain ready1 where r: "release_dependent keys id_by_key specs d (indegree, ready) = Inr (ind1, ready1)"
    "ready_index ` set ready1 = ready_index ` set ready \<union> (if indegree ! d = 1 then {d} else {})"
    "distinct (map ready_index ready1)" by blast
  have "\<forall>x \<in> set ds. x < length ind1 \<and> 0 < ind1 ! x \<and> x \<notin> ready_index ` set ready1
      \<and> bt_get specs (keys ! x) \<noteq> None \<and> bt_get id_by_key (keys ! x) \<noteq> None"
    using Cons.prems(1,2) ind1 r(2) by auto
  from Cons.IH [OF _ this r(3)] Cons.prems(1) obtain ind2 ready2 where
    "try_fold (release_dependent keys id_by_key specs) ds (ind1, ready1) = Inr (ind2, ready2)"
    "length ind2 = length ind1"
    "\<forall>x < length ind1. ind2 ! x = (if x \<in> set ds then ind1 ! x - 1 else ind1 ! x)"
    "ready_index ` set ready2 = ready_index ` set ready1 \<union> {x \<in> set ds. ind1 ! x = 1}"
    "distinct (map ready_index ready2)" by auto
  moreover have "{x \<in> set ds. ind1 ! x = 1} = {x \<in> set ds. indegree ! x = 1}" using d(4) ind1(3) by auto
  ultimately show ?case using r ind1 d(4) by (intro exI [of _ ind2] exI [of _ ready2]) auto
qed simp

subsection \<open>The loop computes a topological order\<close>

definition topo_inv ::
  "spec_map \<Rightarrow> str list \<Rightarrow> nat list \<Rightarrow> ready_key list \<Rightarrow> spec_map \<Rightarrow> nat list \<Rightarrow> bool" where
  "topo_inv specs keys D ready remaining indegree \<longleftrightarrow>
     distinct D \<and> set D \<subseteq> {..<length keys}
     \<and> (\<forall>i < length keys. bt_get remaining (keys ! i) = (if i \<in> set D then None else Some (spec_at specs keys i)))
     \<and> length indegree = length keys
     \<and> (\<forall>i < length keys. indegree ! i = card (pre_indices specs keys i - set D))
     \<and> distinct (map ready_index ready)
     \<and> ready_index ` set ready = {i. i < length keys \<and> i \<notin> set D \<and> pre_indices specs keys i \<subseteq> set D}
     \<and> (\<forall>j < length D. pre_indices specs keys (D ! j) \<subseteq> set (take j D))"

lemma topo_step:
  assumes st: "topo_setup specs keys id_by_key ids dependents"
    and inv: "topo_inv specs keys D (entry # ready) remaining indegree"
    and i: "i = ready_index entry"
  shows "i < length keys" "i \<notin> set D" "bt_get remaining (keys ! i) = Some (spec_at specs keys i)"
    "\<exists>indegree' ready'. try_fold (release_dependent keys id_by_key (bt_remove (keys ! i) remaining))
         (dependents ! i) (indegree, ready) = Inr (indegree', ready')
       \<and> topo_inv specs keys (D @ [i]) ready' (bt_remove (keys ! i) remaining) indegree'"
proof -
  let ?P = "pre_indices specs keys" and ?n = "length keys" and ?rem = "bt_remove (keys ! i) remaining"
  have idx: "insert i (ready_index ` set ready) = {x. x < ?n \<and> x \<notin> set D \<and> ?P x \<subseteq> set D}"
    and inew: "i \<notin> ready_index ` set ready" and dist: "distinct (map ready_index ready)"
    using inv i by (auto simp: topo_inv_def)
  show n: "i < ?n" and iD: "i \<notin> set D" using idx by blast+
  have PiD: "?P i \<subseteq> set D" using idx by blast
  show "bt_get remaining (keys ! i) = Some (spec_at specs keys i)" using inv n iD by (simp add: topo_inv_def)
  have deg: "indegree ! x = card (?P x - set D)" "bt_get remaining (keys ! x) = (if x \<in> set D then None else Some (spec_at specs keys x))"
    if "x < ?n" for x using inv that by (simp_all add: topo_inv_def)
  have deps: "dependents ! i = filter (\<lambda>x. i \<in> ?P x) [0..<?n]" using st n by (simp add: topo_setup_def)
  have closed: "?P x \<subseteq> set D" if "x \<in> set D" for x
  proof -
    from that obtain j where "j < length D" "D ! j = x" by (auto simp: in_set_conv_nth)
    then have "?P x \<subseteq> set (take j D)" using inv unfolding topo_inv_def by blast
    then show ?thesis using set_take_subset [of j D] by blast
  qed
  have rem: "bt_get ?rem (keys ! x) = (if x \<in> set (D @ [i]) then None else Some (spec_at specs keys x))" if "x < ?n" for x
    using deg(2) [OF that] that n st by (auto simp: bt_get_remove topo_setup_def nth_eq_iff_index_eq)
  have mem: "x < ?n \<and> x \<notin> set D \<and> x \<noteq> i \<and> i \<in> ?P x \<and> 0 < indegree ! x" if "x \<in> set (dependents ! i)" for x
  proof -
    from that have x: "x < ?n" "i \<in> ?P x" unfolding deps by auto
    with iD closed PiD have "x \<notin> set D" "x \<noteq> i" by auto
    moreover have "0 < card (?P x - set D)" using x(2) iD by (auto simp: card_gt_0_iff)
    ultimately show ?thesis using x deg(1) by simp
  qed
  have pre: "\<forall>d \<in> set (dependents ! i). d < length indegree \<and> 0 < indegree ! d \<and> d \<notin> ready_index ` set ready
      \<and> bt_get ?rem (keys ! d) \<noteq> None \<and> bt_get id_by_key (keys ! d) \<noteq> None"
  proof
    fix d assume "d \<in> set (dependents ! i)"
    from mem [OF this] have d: "d < ?n" "d \<notin> set D" "d \<noteq> i" "i \<in> ?P d" "0 < indegree ! d" by auto
    have "d \<notin> ready_index ` set ready" using idx d(4) iD by blast
    moreover have "bt_get id_by_key (keys ! d) \<noteq> None" using st d(1) by (auto simp: topo_setup_def)
    ultimately show "d < length indegree \<and> 0 < indegree ! d \<and> d \<notin> ready_index ` set ready
        \<and> bt_get ?rem (keys ! d) \<noteq> None \<and> bt_get id_by_key (keys ! d) \<noteq> None"
      using d rem inv by (simp add: topo_inv_def)
  qed
  have "distinct (dependents ! i)" unfolding deps by simp
  from release_ok [OF this pre dist] obtain ind2 ready2 where
    r: "try_fold (release_dependent keys id_by_key ?rem) (dependents ! i) (indegree, ready) = Inr (ind2, ready2)"
    and len: "length ind2 = length indegree"
    and ind2: "\<forall>d < length indegree. ind2 ! d = (if d \<in> set (dependents ! i) then indegree ! d - 1 else indegree ! d)"
    and ready2: "ready_index ` set ready2 = ready_index ` set ready \<union> {d \<in> set (dependents ! i). indegree ! d = 1}"
    and dist2: "distinct (map ready_index ready2)" by blast
  have leni: "length indegree = ?n" using inv by (simp add: topo_inv_def)
  have deg2: "ind2 ! x = card (?P x - set (D @ [i]))" if x: "x < ?n" for x
  proof (cases "i \<in> ?P x")
    case True
    then have "?P x - set (D @ [i]) = (?P x - set D) - {i}" by auto
    then have "card (?P x - set (D @ [i])) = card (?P x - set D) - 1" using True iD by simp
    then show ?thesis using ind2 x leni True deg(1) [OF x] by (simp add: deps)
  next
    case False
    then have "?P x - set (D @ [i]) = ?P x - set D" by auto
    then show ?thesis using ind2 x leni False deg(1) [OF x] by (simp add: deps)
  qed
  have one: "indegree ! x = 1 \<longleftrightarrow> ?P x \<subseteq> set D \<union> {i}" if "x \<in> set (dependents ! i)" for x
  proof -
    from mem [OF that] have x: "x < ?n" "i \<in> ?P x" by auto
    have "card (?P x - set D) = 1 \<longleftrightarrow> ?P x - set D = {i}"
    proof
      assume "card (?P x - set D) = 1"
      then obtain y where "?P x - set D = {y}" by (auto simp: card_1_singleton_iff)
      moreover have "i \<in> ?P x - set D" using x(2) iD by simp
      ultimately show "?P x - set D = {i}" by auto
    qed simp
    then show ?thesis unfolding deg(1) [OF x(1)] using x(2) iD by auto
  qed
  have ready3: "ready_index ` set ready2 = {x. x < ?n \<and> x \<notin> set (D @ [i]) \<and> ?P x \<subseteq> set (D @ [i])}"
  proof -
    have "ready_index ` set ready = {x. x < ?n \<and> x \<notin> set D \<and> ?P x \<subseteq> set D} - {i}" using idx inew by blast
    moreover have "{d \<in> set (dependents ! i). indegree ! d = 1} = {x. x < ?n \<and> x \<notin> set D \<and> x \<noteq> i \<and> i \<in> ?P x \<and> ?P x \<subseteq> set D \<union> {i}}"
      using mem one deps by fastforce
    ultimately show ?thesis unfolding ready2 using PiD by auto
  qed
  have ord: "?P ((D @ [i]) ! j) \<subseteq> set (take j (D @ [i]))" if "j < length (D @ [i])" for j
    using that PiD inv by (cases "j < length D") (auto simp: nth_append topo_inv_def)
  have "topo_inv specs keys (D @ [i]) ready2 ?rem ind2"
    unfolding topo_inv_def using inv n iD rem len leni deg2 dist2 ready3 ord
    by (simp add: topo_inv_def)
  with r show "\<exists>indegree' ready'. try_fold (release_dependent keys id_by_key ?rem)
         (dependents ! i) (indegree, ready) = Inr (indegree', ready')
       \<and> topo_inv specs keys (D @ [i]) ready' ?rem indegree'" by blast
qed

lemma topo_loop_ok:
  assumes st: "topo_setup specs keys id_by_key ids dependents"
    and "topo_inv specs keys D ready remaining indegree"
  shows "\<exists>D' rem' ind'. topo_loop run_id keys id_by_key dependents ready remaining indegree
        (map (built_operation run_id specs keys id_by_key ids) D)
      = Inr (map (built_operation run_id specs keys id_by_key ids) D')
     \<and> topo_inv specs keys D' [] rem' ind'"
  using assms(2)
proof (induction "length keys - length D" arbitrary: D ready remaining indegree rule: less_induct)
  case less
  show ?case
  proof (cases ready)
    case Nil
    with less.prems show ?thesis by (intro exI [of _ D]) auto
  next
    case (Cons entry rs)
    define i where "i = ready_index entry"
    from topo_step [OF st less.prems [unfolded Cons] i_def]
    obtain ind2 ready2 where i: "i < length keys" "i \<notin> set D" "bt_get remaining (keys ! i) = Some (spec_at specs keys i)"
      and r: "try_fold (release_dependent keys id_by_key (bt_remove (keys ! i) remaining)) (dependents ! i) (indegree, rs)
        = Inr (ind2, ready2)"
      and inv2: "topo_inv specs keys (D @ [i]) ready2 (bt_remove (keys ! i) remaining) ind2" by blast
    have "length (D @ [i]) \<le> length keys"
    proof -
      have d: "distinct (D @ [i])" and s: "set (D @ [i]) \<subseteq> {..<length keys}"
        using inv2 unfolding topo_inv_def by blast+
      have "card (set (D @ [i])) \<le> card {..<length keys}" by (rule card_mono [OF _ s]) simp
      then show ?thesis using distinct_card [OF d] by simp
    qed
    then have "length keys - length (D @ [i]) < length keys - length D" by simp
    from less.hyps [OF this inv2] obtain D' rem' ind' where
      rec: "topo_loop run_id keys id_by_key dependents ready2 (bt_remove (keys ! i) remaining) ind2
         (map (built_operation run_id specs keys id_by_key ids) (D @ [i]))
       = Inr (map (built_operation run_id specs keys id_by_key ids) D')"
      and inv': "topo_inv specs keys D' [] rem' ind'" by blast
    have idm: "bt_get id_by_key (keys ! i) = Some (ids i)" using st i(1) by (simp add: topo_setup_def)
    have "topo_loop run_id keys id_by_key dependents (entry # rs) remaining indegree
        (map (built_operation run_id specs keys id_by_key ids) D)
      = Inr (map (built_operation run_id specs keys id_by_key ids) D')"
      using rec i(3) idm operation_of_built [OF st i(1), of run_id] r
      by (simp add: Let_def i_def [symmetric])
    with inv' Cons show ?thesis by blast
  qed
qed

subsection \<open>Loops over an enumeration\<close>

lemma enumerate_list_snoc: "enumerate_list (xs @ [x]) = enumerate_list xs @ [(length xs, x)]"
  by (simp add: enumerate_list_def)

lemma set_enumerate_list: "(i, x) \<in> set (enumerate_list xs) \<longleftrightarrow> i < length xs \<and> xs ! i = x"
  by (force simp: enumerate_list_def set_zip)

lemma try_fold_enumerate:
  assumes "try_fold f (enumerate_list xs) s = Inr s'" "I 0 s"
    and "\<And>i s s'. i < length xs \<Longrightarrow> I i s \<Longrightarrow> f (i, xs ! i) s = Inr s' \<Longrightarrow> I (Suc i) s'"
  shows "I (length xs) s'"
  using assms
proof (induction xs arbitrary: s' rule: rev_induct)
  case (snoc x xs)
  then obtain t where t: "try_fold f (enumerate_list xs) s = Inr t" and x: "f (length xs, x) t = Inr s'"
    by (auto simp: enumerate_list_snoc try_fold_append result_simps)
  have "I (length xs) t"
  proof (rule snoc.IH [OF t snoc.prems(2)])
    fix i s s' assume "i < length xs" "I i s" "f (i, xs ! i) s = Inr s'"
    then show "I (Suc i) s'" using snoc.prems(3) [of i s s'] by (simp add: nth_append)
  qed
  then show ?case using snoc.prems(3) [of "length xs" t s'] x by simp
qed (simp add: enumerate_list_def)

lemma try_fold_enumerate_ok:
  assumes "I 0 s" and "\<And>i s. i < length xs \<Longrightarrow> I i s \<Longrightarrow> \<exists>s'. f (i, xs ! i) s = Inr s' \<and> I (Suc i) s'"
  shows "\<exists>s'. try_fold f (enumerate_list xs) s = Inr s' \<and> I (length xs) s'"
  using assms
proof (induction xs rule: rev_induct)
  case (snoc x xs)
  have "\<exists>t. try_fold f (enumerate_list xs) s = Inr t \<and> I (length xs) t"
  proof (rule snoc.IH [OF snoc.prems(1)])
    fix i s assume "i < length xs" "I i s"
    then show "\<exists>s'. f (i, xs ! i) s = Inr s' \<and> I (Suc i) s'"
      using snoc.prems(2) [of i s] by (simp add: nth_append)
  qed
  then obtain t where "try_fold f (enumerate_list xs) s = Inr t" "I (length xs) t" by blast
  with snoc.prems(2) [of "length xs" t] show ?case
    by (auto simp: enumerate_list_snoc try_fold_append)
qed (simp add: enumerate_list_def)

subsection \<open>Preparation\<close>

definition opid :: "RunId \<Rightarrow> nat \<Rightarrow> OperationId" where
  "opid run_id ordinal = ''op_'' @ run_id @ ''_'' @ show_nat ordinal"

lemma opid_inj: "opid run_id m = opid run_id n \<longleftrightarrow> m = n"
  using operation_id_inj [of run_id m run_id n] by (auto simp: opid_def)

lemma operation_id_for_run_Inr: "OperationId_for_run uuid_parse run_id n = Inr i \<Longrightarrow> i = opid run_id n"
  by (auto simp: OperationId_for_run_def OperationId_new_def opid_def result_simps
      split: option.splits prod.splits if_splits)

lemma map_upd_keys:
  assumes "distinct keys" "k < length keys" "i < length keys" "\<forall>j < k. m (keys ! j) = Some (g j)"
    and "i < Suc k"
  shows "(m(keys ! k \<mapsto> g k)) (keys ! i) = Some (g i)"
  using assms by (auto simp: less_Suc_eq nth_eq_iff_index_eq)

lemma assign_ids_ok:
  assumes "try_fold (assign_id uuid_parse run_id first) (enumerate_list keys) [] = Inr m" "distinct keys"
  shows "\<forall>i < length keys. bt_get m (keys ! i) = Some (opid run_id (first + i))"
proof -
  define I where "I k m \<longleftrightarrow> bt_inv m \<and> (\<forall>i < k. bt_get m (keys ! i) = Some (opid run_id (first + i)))"
    for k and m :: "(str, OperationId) btree"
  have "I (length keys) m"
  proof (rule try_fold_enumerate [OF assms(1)])
    show "I 0 []" by (simp add: I_def)
    fix i m m' assume i: "i < length keys" and inv: "I i m"
      and a: "assign_id uuid_parse run_id first (i, keys ! i) m = Inr m'"
    from a obtain oid where "OperationId_for_run uuid_parse run_id (first + i) = Inr oid"
      and "m' = bt_insert (keys ! i) oid m"
      by (auto simp: assign_id_def result_simps split: sum.splits)
    then have m': "m' = bt_insert (keys ! i) (opid run_id (first + i)) m"
      using operation_id_for_run_Inr by blast
    have "bt_get m' = (bt_get m)(keys ! i \<mapsto> opid run_id (first + i))"
      unfolding m' by (rule bt_get_insert) (use inv in \<open>simp add: I_def\<close>)
    moreover have "bt_inv m'" using inv unfolding m' I_def by (simp add: bt_inv_insert)
    moreover have "((bt_get m)(keys ! i \<mapsto> opid run_id (first + i))) (keys ! j) = Some (opid run_id (first + j))"
      if "j < Suc i" for j
      using that i inv map_upd_keys [OF assms(2) i, of j "bt_get m" "\<lambda>j. opid run_id (first + j)"]
      unfolding I_def by simp
    ultimately show "I (Suc i) m'" unfolding I_def by presburger
  qed
  then show ?thesis by (simp add: I_def)
qed

lemma assign_ids_succeeds:
  assumes "uuid_parse run_id = Some (7, run_id)" "first + length keys \<le> u64_max"
  shows "\<exists>m. try_fold (assign_id uuid_parse run_id first) (enumerate_list keys) [] = Inr m"
proof -
  have "\<exists>m'. assign_id uuid_parse run_id first (i, keys ! i) m = Inr m' \<and> True" if "i < length keys" for i m
    using that assms operation_id_for_run_ok [of uuid_parse run_id "first + i"]
    by (simp add: assign_id_def checked_add_u64_def)
  then show ?thesis using try_fold_enumerate_ok [of "\<lambda>_ _. True" "[]" keys] by blast
qed

definition index_map :: "str list \<Rightarrow> (str, nat) btree" where
  "index_map keys = foldl (\<lambda>m (index, key). bt_insert key index m) [] (enumerate_list keys)"

lemma index_map_get:
  assumes "distinct keys"
  shows "bt_get (index_map keys) key = Some i \<longleftrightarrow> i < length keys \<and> keys ! i = key"
proof -
  have "index_map keys = bt.insert_all (map prod.swap (enumerate_list keys)) []"
    unfolding index_map_def bt.insert_all_def
    by (simp add: foldl_map split_def)
  moreover have d: "distinct (map fst (map prod.swap (enumerate_list keys)))"
    using assms by (simp add: enumerate_list_def map_snd_zip comp_def)
  ultimately have "bt_get (index_map keys) = map_of (map prod.swap (enumerate_list keys))"
    using bt.get_build by metis
  then show ?thesis
    using map_of_eq_Some_iff [OF d, of key i] by (force simp: set_enumerate_list)
qed

definition deg_inv :: "spec_map \<Rightarrow> str list \<Rightarrow> nat \<Rightarrow> nat list \<times> nat list list \<Rightarrow> bool" where
  "deg_inv specs keys k = (\<lambda>(indegree, dependents).
     length indegree = length keys \<and> length dependents = length keys
     \<and> (\<forall>i < length keys. indegree ! i = (if i < k then length (spec_prerequisites (spec_at specs keys i)) else 0))
     \<and> (\<forall>p < length keys. dependents ! p = filter (\<lambda>i. p \<in> pre_indices specs keys i) [0..<k])
     \<and> (\<forall>i < k. set (spec_prerequisites (spec_at specs keys i)) \<subseteq> set keys))"

lemma add_dependencies_ok:
  assumes "try_fold (add_dependency (index_map keys) i) ps (indegree, dependents) = Inr (indegree', dependents')"
    and "distinct keys" "distinct ps" "i < length indegree" "length dependents = length keys"
  shows "set ps \<subseteq> set keys \<and> indegree' = indegree[i := indegree ! i + length ps]
     \<and> length dependents' = length dependents
     \<and> (\<forall>p < length keys. dependents' ! p = dependents ! p @ (if keys ! p \<in> set ps then [i] else []))"
  using assms
proof (induction ps arbitrary: indegree dependents)
  case (Cons q ps)
  then obtain j where j: "bt_get (index_map keys) q = Some j"
    and rec: "try_fold (add_dependency (index_map keys) i) ps
        (indegree[i := indegree ! i + 1], dependents[j := dependents ! j @ [i]]) = Inr (indegree', dependents')"
    by (auto simp: add_dependency_def [of _ _ q] result_simps split: option.splits)
  have jk: "j < length keys" "keys ! j = q" using j index_map_get [OF Cons.prems(2)] by auto
  from Cons.IH [OF rec] Cons.prems
  have IH: "set ps \<subseteq> set keys" "indegree' = (indegree[i := indegree ! i + 1])[i := indegree ! i + 1 + length ps]"
    "length dependents' = length dependents"
    "\<forall>p < length keys. dependents' ! p = dependents[j := dependents ! j @ [i]] ! p @ (if keys ! p \<in> set ps then [i] else [])"
    by auto
  have "q \<notin> set ps" using Cons.prems(3) by simp
  then have "\<forall>p < length keys. dependents' ! p = dependents ! p @ (if keys ! p \<in> set (q # ps) then [i] else [])"
    using IH(4) jk Cons.prems(2,5) by (auto simp: nth_list_update nth_eq_iff_index_eq)
  then show ?case using IH(1-3) jk Cons.prems(4) nth_mem [of j keys] by auto
qed simp

lemma add_dependencies_succeed:
  assumes "set ps \<subseteq> set keys" "distinct keys" "i < length indegree" "indegree ! i + length ps \<le> u64_max"
  shows "\<exists>st. try_fold (add_dependency (index_map keys) i) ps (indegree, dependents) = Inr st"
  using assms
proof (induction ps arbitrary: indegree dependents)
  case (Cons q ps)
  then obtain j where "j < length keys" "keys ! j = q" by (auto simp: in_set_conv_nth)
  then have j: "bt_get (index_map keys) q = Some j" using index_map_get [OF Cons.prems(2)] by blast
  show ?case
    using j Cons.prems Cons.IH [of "indegree[i := indegree ! i + 1]" "dependents[j := dependents ! j @ [i]]"]
    by (auto simp: add_dependency_def [of _ _ q] checked_add_u64_def)
qed simp

definition degree_step ::
  "spec_map \<Rightarrow> str list \<Rightarrow> nat \<times> str \<Rightarrow> nat list \<times> nat list list
   \<Rightarrow> (ErrorEnvelope abort, nat list \<times> nat list list) result" where
  "degree_step specs keys = (\<lambda>(index, key) st.
     try_bind (expect (bt_get specs key)) (\<lambda>spec.
     lift_fail (try_fold (add_dependency (index_map keys) index) (spec_prerequisites spec) st)))"

lemma topological_order_unfold:
  "topological_order uuid_parse specs run_id first =
     try_bind (lift_fail (try_fold (assign_id uuid_parse run_id first) (enumerate_list (sorted_keys specs)) [])) (\<lambda>id_by_key.
     try_bind (try_fold (degree_step specs (sorted_keys specs)) (enumerate_list (sorted_keys specs))
         (replicate (length (sorted_keys specs)) 0, replicate (length (sorted_keys specs)) [])) (\<lambda>(indegree, dependents).
     try_bind (initial_ready (sorted_keys specs) id_by_key specs indegree) (\<lambda>ready.
     try_bind (topo_loop run_id (sorted_keys specs) id_by_key dependents ready specs indegree []) (\<lambda>operations.
     if length operations \<noteq> length (sorted_keys specs)
     then Inl (Fail (restore_error DependencyCycle ''restore operation prerequisites contain a cycle'' None None None None))
     else Inr operations))))"
  by (simp add: topological_order_def Let_def degree_step_def index_map_def)

lemma specs_wf_key:
  assumes "specs_wf specs" "i < length (sorted_keys specs)"
  shows "bt_get specs (sorted_keys specs ! i) = Some (spec_at specs (sorted_keys specs) i)"
    "distinct (spec_prerequisites (spec_at specs (sorted_keys specs) i))"
proof -
  have "sorted_keys specs ! i \<in> dom (bt_get specs)"
    using assms sorted_keys_perm(2) [of specs] nth_mem [of i "sorted_keys specs"] by (simp add: specs_wf_def)
  then show g: "bt_get specs (sorted_keys specs ! i) = Some (spec_at specs (sorted_keys specs) i)"
    by (auto simp: spec_at_def)
  from map_of_SomeD [OF g] assms(1) show "distinct (spec_prerequisites (spec_at specs (sorted_keys specs) i))"
    by (auto simp: specs_wf_def list_all_iff)
qed

lemma degree_step_inv:
  assumes wf: "specs_wf specs" and i: "i < length (sorted_keys specs)"
    and inv: "deg_inv specs (sorted_keys specs) i st"
    and s: "degree_step specs (sorted_keys specs) (i, sorted_keys specs ! i) st = Inr st'"
  shows "deg_inv specs (sorted_keys specs) (Suc i) st'"
proof -
  let ?keys = "sorted_keys specs" and ?pre = "spec_prerequisites (spec_at specs (sorted_keys specs) i)"
  obtain ind dep ind' dep' where st: "st = (ind, dep)" "st' = (ind', dep')" by force
  note g = specs_wf_key [OF wf i]
  have d: "distinct ?keys" using sorted_keys_perm(1) wf by (simp add: specs_wf_def)
  from s have f: "try_fold (add_dependency (index_map ?keys) i) ?pre (ind, dep) = Inr (ind', dep')"
    by (simp add: degree_step_def g(1) st)
  have len: "i < length ind" "length dep = length ?keys" using inv i by (auto simp: deg_inv_def st)
  from add_dependencies_ok [OF f d g(2) len] have o: "set ?pre \<subseteq> set ?keys" "ind' = ind[i := ind ! i + length ?pre]"
    "length dep' = length dep" "\<forall>p < length ?keys. dep' ! p = dep ! p @ (if ?keys ! p \<in> set ?pre then [i] else [])"
    by auto
  have "\<forall>p < length ?keys. dep' ! p = filter (\<lambda>i. p \<in> pre_indices specs ?keys i) [0..<Suc i]"
    using o(4) inv by (auto simp: deg_inv_def st pre_indices_def)
  moreover have "\<forall>x < length ?keys. ind' ! x = (if x < Suc i then length (spec_prerequisites (spec_at specs ?keys x)) else 0)"
    using o(2) inv len by (auto simp: deg_inv_def st nth_list_update less_Suc_eq)
  ultimately show ?thesis using o inv by (auto simp: deg_inv_def st less_Suc_eq)
qed

lemma deg_inv_start: "deg_inv specs keys 0 (replicate (length keys) 0, replicate (length keys) [])"
  by (simp add: deg_inv_def)

lemma degree_step_no_panic:
  assumes "specs_wf specs" "try_fold (degree_step specs (sorted_keys specs)) (enumerate_list (sorted_keys specs)) st = Inl e"
  shows "\<exists>err. e = Fail err"
proof -
  from try_fold_error_invariant [OF assms(2), of "\<lambda>_. True"]
  obtain i k t where "(i, k) \<in> set (enumerate_list (sorted_keys specs))" "degree_step specs (sorted_keys specs) (i, k) t = Inl e"
    by auto
  then show ?thesis
    using specs_wf_key(1) [OF assms(1)] by (auto simp: set_enumerate_list degree_step_def)
qed

lemma card_pre_indices:
  assumes "distinct keys" "set (spec_prerequisites (spec_at specs keys i)) \<subseteq> set keys"
    "distinct (spec_prerequisites (spec_at specs keys i))"
  shows "card (pre_indices specs keys i) = length (spec_prerequisites (spec_at specs keys i))"
proof -
  let ?pre = "spec_prerequisites (spec_at specs keys i)"
  have img: "(!) keys ` pre_indices specs keys i = set ?pre"
  proof
    show "set ?pre \<subseteq> (!) keys ` pre_indices specs keys i"
    proof
      fix p assume p: "p \<in> set ?pre"
      with assms(2) obtain j where "j < length keys" "keys ! j = p" by (metis in_set_conv_nth subsetD)
      with p show "p \<in> (!) keys ` pre_indices specs keys i" by (auto simp: pre_indices_def)
    qed
  qed (auto simp: pre_indices_def)
  have "inj_on ((!) keys) (pre_indices specs keys i)"
    using assms(1) by (auto simp: inj_on_def pre_indices_def nth_eq_iff_index_eq)
  then have "card (pre_indices specs keys i) = card (set ?pre)" using img card_image by metis
  then show ?thesis using distinct_card [OF assms(3)] by simp
qed

lemma initial_ready_ok:
  assumes "\<forall>i < length keys. bt_get specs (keys ! i) \<noteq> None \<and> bt_get id_by_key (keys ! i) \<noteq> None"
  shows "\<exists>ready. initial_ready keys id_by_key specs indegree = Inr ready \<and> distinct (map ready_index ready)
     \<and> ready_index ` set ready = {i. i < length keys \<and> indegree ! i = 0}"
proof -
  define I where "I k ready \<longleftrightarrow> distinct (map ready_index ready) \<and> ready_index ` set ready = {i. i < k \<and> indegree ! i = 0}"
    for k and ready :: "ready_key list"
  let ?f = "\<lambda>(index, key) ready.
       if indegree ! index = 0 then make_ready keys id_by_key specs index ready else Inr ready"
  have "\<exists>ready. try_fold ?f (enumerate_list keys) [] = Inr ready \<and> I (length keys) ready"
  proof (rule try_fold_enumerate_ok)
    show "I 0 []" by (simp add: I_def)
    fix i ready assume i: "i < length keys" and inv: "I i ready"
    show "\<exists>ready'. ?f (i, keys ! i) ready = Inr ready' \<and> I (Suc i) ready'"
    proof (cases "indegree ! i = 0")
      case True
      from assms i obtain sp oid where "bt_get specs (keys ! i) = Some sp" "bt_get id_by_key (keys ! i) = Some oid" by blast
      moreover have "i \<notin> ready_index ` set ready" "distinct (map ready_index ready)" using inv by (auto simp: I_def)
      ultimately obtain ready' where r: "make_ready keys id_by_key specs i ready = Inr ready'"
        "ready_index ` set ready' = insert i (ready_index ` set ready)" "distinct (map ready_index ready')"
        using make_ready_ok by blast
      have "{x. x < Suc i \<and> indegree ! x = 0} = insert i {x. x < i \<and> indegree ! x = 0}"
        using True by (auto simp: less_Suc_eq)
      then show ?thesis using True r inv by (simp add: I_def)
    next
      case False
      then have "{x. x < Suc i \<and> indegree ! x = 0} = {x. x < i \<and> indegree ! x = 0}" by (auto simp: less_Suc_eq)
      then show ?thesis using False inv by (simp add: I_def)
    qed
  qed
  then show ?thesis by (simp add: initial_ready_def I_def)
qed

text \<open>From the preparation on the loop runs to its end; what it leaves out is on or behind a cycle.\<close>

lemma topological_run:
  assumes wf: "specs_wf specs"
    and a: "try_fold (assign_id uuid_parse run_id first) (enumerate_list (sorted_keys specs)) [] = Inr id_by_key"
    and d: "try_fold (degree_step specs (sorted_keys specs)) (enumerate_list (sorted_keys specs))
         (replicate (length (sorted_keys specs)) 0, replicate (length (sorted_keys specs)) []) = Inr (indegree, dependents)"
  obtains D ready remaining indegree' where
    "topo_setup specs (sorted_keys specs) id_by_key (\<lambda>i. opid run_id (first + i)) dependents"
    "topo_inv specs (sorted_keys specs) D [] remaining indegree'"
    "topological_order uuid_parse specs run_id first =
       (if length D \<noteq> length specs
        then Inl (Fail (restore_error DependencyCycle ''restore operation prerequisites contain a cycle'' None None None None))
        else Inr (map (built_operation run_id specs (sorted_keys specs) id_by_key (\<lambda>i. opid run_id (first + i))) D))"
proof -
  let ?keys = "sorted_keys specs" and ?ids = "\<lambda>i. opid run_id (first + i)"
  have keys: "distinct ?keys" "length ?keys = length specs"
    using sorted_keys_perm wf by (auto simp: specs_wf_def)
  have ids: "\<forall>i < length ?keys. bt_get id_by_key (?keys ! i) = Some (?ids i)"
    by (rule assign_ids_ok [OF a keys(1)])
  have deg: "deg_inv specs ?keys (length ?keys) (indegree, dependents)"
    by (rule try_fold_enumerate [OF d, where I = "deg_inv specs ?keys"])
       (use deg_inv_start degree_step_inv [OF wf] in blast)+
  have st: "topo_setup specs ?keys id_by_key ?ids dependents"
    using keys ids deg specs_wf_key(1) [OF wf] by (simp add: topo_setup_def deg_inv_def)
  obtain ready where r: "initial_ready ?keys id_by_key specs indegree = Inr ready" "distinct (map ready_index ready)"
    "ready_index ` set ready = {i. i < length ?keys \<and> indegree ! i = 0}"
    using initial_ready_ok [of ?keys specs id_by_key indegree] specs_wf_key(1) [OF wf] ids by auto
  have ind: "indegree ! i = card (pre_indices specs ?keys i)" if "i < length ?keys" for i
    using deg that card_pre_indices [OF keys(1)] specs_wf_key(2) [OF wf that] by (auto simp: deg_inv_def)
  have "topo_inv specs ?keys [] ready specs indegree"
    using r ind deg specs_wf_key(1) [OF wf] by (auto simp: topo_inv_def deg_inv_def)
  from topo_loop_ok [OF st this, of run_id] obtain D rem' ind' where
    l: "topo_loop run_id ?keys id_by_key dependents ready specs indegree [] = Inr (map (built_operation run_id specs ?keys id_by_key ?ids) D)"
    and inv: "topo_inv specs ?keys D [] rem' ind'" by auto
  show thesis
    by (rule that [OF st inv]) (simp add: topological_order_unfold a d r(1) l flip: keys(2))
qed

lemma topological_order_stages:
  assumes "specs_wf specs" "topological_order uuid_parse specs run_id first = Inr operations"
  obtains D id_by_key dependents remaining indegree where
    "topo_setup specs (sorted_keys specs) id_by_key (\<lambda>i. opid run_id (first + i)) dependents"
    "topo_inv specs (sorted_keys specs) D [] remaining indegree" "length D = length specs"
    "operations = map (built_operation run_id specs (sorted_keys specs) id_by_key (\<lambda>i. opid run_id (first + i))) D"
proof -
  from assms(2) obtain id_by_key indegree dependents where
    a: "try_fold (assign_id uuid_parse run_id first) (enumerate_list (sorted_keys specs)) [] = Inr id_by_key"
    and d: "try_fold (degree_step specs (sorted_keys specs)) (enumerate_list (sorted_keys specs))
         (replicate (length (sorted_keys specs)) 0, replicate (length (sorted_keys specs)) []) = Inr (indegree, dependents)"
    by (auto simp: topological_order_unfold result_simps)
  show thesis
  proof (rule topological_run [OF assms(1) a d])
    fix D ready remaining indegree'
    assume st: "topo_setup specs (sorted_keys specs) id_by_key (\<lambda>i. opid run_id (first + i)) dependents"
      and inv: "topo_inv specs (sorted_keys specs) D [] remaining indegree'"
      and res: "topological_order uuid_parse specs run_id first =
       (if length D \<noteq> length specs
        then Inl (Fail (restore_error DependencyCycle ''restore operation prerequisites contain a cycle'' None None None None))
        else Inr (map (built_operation run_id specs (sorted_keys specs) id_by_key (\<lambda>i. opid run_id (first + i))) D))"
    from res assms(2) show thesis by (intro that [OF st inv]) (auto split: if_splits)
  qed
qed

text \<open>A full order contains every candidate index once.\<close>

lemma full_order:
  assumes "specs_wf specs" "topo_inv specs (sorted_keys specs) D ready remaining indegree" "length D = length specs"
  shows "set D = {..<length specs}" "distinct D"
proof -
  have D: "distinct D" "set D \<subseteq> {..<length specs}"
    using assms sorted_keys_perm(3) [of specs] by (auto simp: topo_inv_def specs_wf_def)
  then show "set D = {..<length specs}"
    using assms(3) by (intro card_subset_eq) (auto simp: distinct_card)
  show "distinct D" by (rule D(1))
qed

lemma built_prerequisites:
  assumes "topo_setup specs keys id_by_key ids dependents" "i < length keys"
    and "p \<in> set (op_prerequisites (built_operation run_id specs keys id_by_key ids i))"
  shows "\<exists>j \<in> pre_indices specs keys i. p = ids j"
proof -
  from assms(3) obtain key where key: "key \<in> set (spec_prerequisites (spec_at specs keys i))"
    and p: "p = the (bt_get id_by_key key)" by (auto simp: built_operation_def Let_def)
  have "key \<in> set keys" using key assms(1,2) unfolding topo_setup_def by blast
  then obtain j where "j < length keys" "keys ! j = key" by (auto simp: in_set_conv_nth)
  then show ?thesis using key p assms(1) by (auto simp: topo_setup_def pre_indices_def)
qed

lemma topological_order_prerequisites_first:
  assumes "specs_wf specs" "topological_order uuid_parse specs run_id first = Inr operations"
    and j: "j < length operations" and p: "p \<in> set (op_prerequisites (operations ! j))"
  shows "\<exists>i < j. op_id (operations ! i) = p"
proof -
  obtain D id_by_key dependents remaining indegree where
    st: "topo_setup specs (sorted_keys specs) id_by_key (\<lambda>i. opid run_id (first + i)) dependents"
    and inv: "topo_inv specs (sorted_keys specs) D [] remaining indegree" and len: "length D = length specs"
    and ops: "operations = map (built_operation run_id specs (sorted_keys specs) id_by_key (\<lambda>i. opid run_id (first + i))) D"
    by (rule topological_order_stages [OF assms(1,2)])
  have jD: "j < length D" using j ops by simp
  have "D ! j < length (sorted_keys specs)" using inv jD nth_mem unfolding topo_inv_def by blast
  with built_prerequisites [OF st, of "D ! j" p run_id] p jD
  obtain x where x: "x \<in> pre_indices specs (sorted_keys specs) (D ! j)" "p = opid run_id (first + x)"
    by (auto simp: ops)
  have "pre_indices specs (sorted_keys specs) (D ! j) \<subseteq> set (take j D)" using inv jD by (simp add: topo_inv_def)
  with x(1) have "x \<in> set (take j D)" by blast
  then obtain i where "i < j" "i < length D" "D ! i = x" by (auto simp: in_set_conv_nth)
  then show ?thesis using x(2) by (intro exI [of _ i]) (simp add: ops built_operation_def Let_def)
qed

text \<open>The essence of an operation, which neither the order nor the numbering may change.\<close>

definition operation_essence ::
  "Operation \<Rightarrow> ComponentId \<times> OperationKind \<times> Precondition \<times> str \<times> VerificationRule list \<times> bool \<times> bool" where
  "operation_essence x = (op_component x, op_kind x, op_precondition x, op_idempotency_key x,
     op_verification x, op_requires_elevation x, op_non_idempotent x)"

definition spec_essence ::
  "RunId \<Rightarrow> OperationSpec \<Rightarrow> ComponentId \<times> OperationKind \<times> Precondition \<times> str \<times> VerificationRule list \<times> bool \<times> bool" where
  "spec_essence run_id s = (spec_component s, spec_kind s, spec_precondition s,
     scoped_idempotency_key run_id (spec_idempotency_key s), spec_verification s,
     spec_requires_elevation s, spec_non_idempotent s)"

lemma mset_spec_at:
  assumes "specs_wf specs"
  shows "mset (map (spec_at specs (sorted_keys specs)) [0..<length specs]) = mset (map snd specs)"
proof -
  let ?sorted = "sort_key (\<lambda>(_, spec). spec_sort_key None spec) specs"
  have d: "distinct (map fst specs)" using assms bt_inv_distinct by (auto simp: specs_wf_def)
  have "spec_at specs (sorted_keys specs) i = snd (?sorted ! i)" if "i < length specs" for i
  proof -
    have "?sorted ! i \<in> set specs" using nth_mem [of i ?sorted] that by simp
    then have "bt_get specs (fst (?sorted ! i)) = Some (snd (?sorted ! i))" using d by (simp add: map_of_eq_Some_iff)
    then show ?thesis using that by (simp add: spec_at_def sorted_keys_def)
  qed
  then have "map (spec_at specs (sorted_keys specs)) [0..<length specs] = map snd ?sorted"
    by (intro nth_equalityI) auto
  then show ?thesis by simp
qed

lemma topological_order_permutation:
  assumes "specs_wf specs" "topological_order uuid_parse specs run_id first = Inr operations"
  shows "mset (map operation_essence operations) = mset (map (spec_essence run_id \<circ> snd) specs)"
    "set (map op_id operations) = (\<lambda>i. opid run_id (first + i)) ` {..<length specs}"
    "distinct (map op_id operations)"
proof -
  obtain D id_by_key dependents remaining indegree where
    "topo_setup specs (sorted_keys specs) id_by_key (\<lambda>i. opid run_id (first + i)) dependents"
    and inv: "topo_inv specs (sorted_keys specs) D [] remaining indegree" and len: "length D = length specs"
    and ops: "operations = map (built_operation run_id specs (sorted_keys specs) id_by_key (\<lambda>i. opid run_id (first + i))) D"
    by (rule topological_order_stages [OF assms])
  note D = full_order [OF assms(1) inv len]
  have "mset D = mset [0..<length specs]"
    using D by (metis atLeast_upt distinct_upt set_eq_iff_mset_eq_distinct)
  then have "mset (map (spec_essence run_id \<circ> spec_at specs (sorted_keys specs)) D)
      = mset (map (spec_essence run_id \<circ> spec_at specs (sorted_keys specs)) [0..<length specs])" by simp
  also have "\<dots> = mset (map (spec_essence run_id \<circ> snd) specs)"
    using arg_cong [OF mset_spec_at [OF assms(1)], of "image_mset (spec_essence run_id)"]
    by (simp add: multiset.map_comp)
  finally show "mset (map operation_essence operations) = mset (map (spec_essence run_id \<circ> snd) specs)"
    by (simp add: ops operation_essence_def spec_essence_def built_operation_def Let_def comp_def)
  have ids: "map op_id operations = map (\<lambda>i. opid run_id (first + i)) D"
    by (simp add: ops built_operation_def Let_def)
  show "set (map op_id operations) = (\<lambda>i. opid run_id (first + i)) ` {..<length specs}"
    unfolding ids using D(1) by simp
  show "distinct (map op_id operations)"
    unfolding ids using D(2) by (simp add: distinct_map inj_on_def opid_inj)
qed

subsection \<open>Success exactly on acyclic prerequisites\<close>

definition spec_rel :: "spec_map \<Rightarrow> (str \<times> str) set" where
  "spec_rel specs = {(k, p). \<exists>spec. bt_get specs k = Some spec \<and> p \<in> set (spec_prerequisites spec)}"

lemma acyclic_measure: "(\<And>a b. (a, b) \<in> R \<Longrightarrow> f b < (f a :: nat)) \<Longrightarrow> acyclic R"
proof -
  assume f: "\<And>a b. (a, b) \<in> R \<Longrightarrow> f b < f a"
  have "R\<inverse> \<subseteq> measure f" using f by auto
  then have "wf (R\<inverse>)" using wf_subset [OF wf_measure] by blast
  then show ?thesis using wf_acyclic acyclic_converse by blast
qed

lemma endless_not_acyclic:
  assumes "finite U" "U \<noteq> {}" "\<And>x. x \<in> U \<Longrightarrow> \<exists>y \<in> U. (x, y) \<in> R"
  shows "\<not> acyclic R"
proof
  assume "acyclic R"
  then have "acyclic (R \<inter> U \<times> U)" using acyclic_subset by blast
  then have "wf ((R \<inter> U \<times> U)\<inverse>)" using assms(1) by (intro finite_acyclic_wf_converse) auto
  then obtain z where "z \<in> U" "\<And>y. (y, z) \<in> (R \<inter> U \<times> U)\<inverse> \<Longrightarrow> y \<notin> U"
    using assms(2) unfolding wf_eq_minimal by blast
  with assms(3) show False by blast
qed

lemma full_order_acyclic:
  assumes wf: "specs_wf specs" and st: "topo_setup specs (sorted_keys specs) id_by_key ids dependents"
    and inv: "topo_inv specs (sorted_keys specs) D [] remaining indegree" and len: "length D = length specs"
  shows "acyclic (spec_rel specs)"
proof -
  let ?keys = "sorted_keys specs"
  have keys: "distinct ?keys" "length ?keys = length specs" "set ?keys = dom (bt_get specs)"
    using sorted_keys_perm wf by (auto simp: specs_wf_def)
  note D = full_order [OF wf inv len]
  let ?at = "\<lambda>j. ?keys ! (D ! j)"
  have Dn: "D ! j < length ?keys" if "j < length specs" for j
    using D(1) that len keys(2) nth_mem [of j D] by auto
  have inj: "inj_on ?at {..<length specs}"
    using D(2) Dn len keys by (auto simp: inj_on_def nth_eq_iff_index_eq)
  let ?pos = "the_inv_into {..<length specs} ?at"
  have pos: "?pos (?at j) = j" if "j < length specs" for j
    using that by (intro the_inv_into_f_f [OF inj]) simp
  have ex: "\<exists>a < length specs. D ! a = i" if "i < length ?keys" for i
    using that D(1) keys(2) len by (metis in_set_conv_nth lessThan_iff)
  show ?thesis
  proof (rule acyclic_measure [of _ ?pos])
    fix k p assume "(k, p) \<in> spec_rel specs"
    then obtain spec where s: "bt_get specs k = Some spec" "p \<in> set (spec_prerequisites spec)"
      by (auto simp: spec_rel_def)
    then have "k \<in> set ?keys" using keys(3) by auto
    then obtain i where i: "i < length ?keys" "?keys ! i = k" by (auto simp: in_set_conv_nth)
    then have at: "spec_at specs ?keys i = spec" using s(1) by (simp add: spec_at_def)
    have "p \<in> set ?keys" using st i(1) s(2) at unfolding topo_setup_def by blast
    then obtain x where x: "x < length ?keys" "?keys ! x = p" by (auto simp: in_set_conv_nth)
    then have "x \<in> pre_indices specs ?keys i" using s(2) at by (simp add: pre_indices_def)
    obtain a where a: "a < length specs" "D ! a = i" using ex [OF i(1)] by blast
    have "pre_indices specs ?keys (D ! a) \<subseteq> set (take a D)" using inv a(1) len by (simp add: topo_inv_def)
    with \<open>x \<in> pre_indices specs ?keys i\<close> a(2) have "x \<in> set (take a D)" by blast
    then obtain b where "b < a" "D ! b = x" "b < length D" by (auto simp: in_set_conv_nth)
    then show "?pos p < ?pos k" using pos [of a] pos [of b] a x i by simp
  qed
qed

lemma partial_order_cyclic:
  assumes wf: "specs_wf specs" and st: "topo_setup specs (sorted_keys specs) id_by_key ids dependents"
    and inv: "topo_inv specs (sorted_keys specs) D [] remaining indegree" and len: "length D \<noteq> length specs"
  shows "\<not> acyclic (spec_rel specs)"
proof -
  let ?keys = "sorted_keys specs"
  have keys: "distinct ?keys" "length ?keys = length specs"
    using sorted_keys_perm wf by (auto simp: specs_wf_def)
  let ?U = "{..<length ?keys} - set D"
  have D: "distinct D" "set D \<subseteq> {..<length ?keys}"
    and none: "{i. i < length ?keys \<and> i \<notin> set D \<and> pre_indices specs ?keys i \<subseteq> set D} = {}"
    using inv by (auto simp: topo_inv_def)
  have "?U \<noteq> {}"
  proof
    assume "?U = {}"
    then have "set D = {..<length ?keys}" using D(2) by blast
    then have "length D = length ?keys" using distinct_card [OF D(1)] by simp
    with len keys(2) show False by simp
  qed
  show ?thesis
  proof (rule endless_not_acyclic [of "(!) ?keys ` ?U"])
    show "\<exists>y \<in> (!) ?keys ` ?U. (k, y) \<in> spec_rel specs" if "k \<in> (!) ?keys ` ?U" for k
    proof -
      from that obtain i where i: "i < length ?keys" "i \<notin> set D" "k = ?keys ! i" by auto
      with none obtain j where "j \<in> pre_indices specs ?keys i" "j \<notin> set D" by blast
      then have "j \<in> ?U" "?keys ! j \<in> set (spec_prerequisites (spec_at specs ?keys i))"
        by (auto simp: pre_indices_def)
      then show ?thesis using i specs_wf_key(1) [OF wf i(1)] by (auto simp: spec_rel_def)
    qed
  qed (use \<open>?U \<noteq> {}\<close> in auto)
qed

lemma topological_order_decides:
  assumes wf: "specs_wf specs" and run: "uuid_parse run_id = Some (7, run_id)"
    and room: "first + length specs \<le> u64_max"
    and exist: "\<forall>(k, spec) \<in> set specs. set (spec_prerequisites spec) \<subseteq> fst ` set specs"
  shows "if acyclic (spec_rel specs) then \<exists>operations. topological_order uuid_parse specs run_id first = Inr operations
    else \<exists>e. topological_order uuid_parse specs run_id first = Inl (Fail e) \<and> ee_code e = DependencyCycle"
proof -
  let ?keys = "sorted_keys specs"
  have keys: "distinct ?keys" "length ?keys = length specs" "set ?keys = fst ` set specs"
    using sorted_keys_perm wf by (auto simp: specs_wf_def dom_map_of_conv_image_fst)
  obtain id_by_key where a: "try_fold (assign_id uuid_parse run_id first) (enumerate_list ?keys) [] = Inr id_by_key"
    using assign_ids_succeeds [of uuid_parse run_id first ?keys] run room keys(2) by auto
  have "\<exists>st. try_fold (degree_step specs ?keys) (enumerate_list ?keys) (replicate (length ?keys) 0, replicate (length ?keys) []) = Inr st
      \<and> deg_inv specs ?keys (length ?keys) st"
  proof (rule try_fold_enumerate_ok)
    show "deg_inv specs ?keys 0 (replicate (length ?keys) 0, replicate (length ?keys) [])" by (rule deg_inv_start)
    fix i st assume i: "i < length ?keys" and inv: "deg_inv specs ?keys i st"
    note g = specs_wf_key [OF wf i]
    let ?pre = "spec_prerequisites (spec_at specs ?keys i)"
    obtain ind dep where st: "st = (ind, dep)" by force
    have sub: "set ?pre \<subseteq> set ?keys" using exist map_of_SomeD [OF g(1)] keys(3) by fastforce
    have "length ?pre \<le> length ?keys"
      using card_mono [OF _ sub] distinct_card [OF g(2)] distinct_card [OF keys(1)] by simp
    then have "ind ! i + length ?pre \<le> u64_max" using inv i room keys(2) by (simp add: deg_inv_def st)
    moreover have "i < length ind" using inv i by (simp add: deg_inv_def st)
    ultimately obtain st' where
      "try_fold (add_dependency (index_map ?keys) i) ?pre (ind, dep) = Inr st'"
      using add_dependencies_succeed [OF sub keys(1)] by blast
    then have "degree_step specs ?keys (i, ?keys ! i) st = Inr st'"
      by (simp add: degree_step_def g(1) st)
    with degree_step_inv [OF wf i inv this]
    show "\<exists>st'. degree_step specs ?keys (i, ?keys ! i) st = Inr st' \<and> deg_inv specs ?keys (Suc i) st'" by blast
  qed
  then obtain indegree dependents where d: "try_fold (degree_step specs ?keys) (enumerate_list ?keys)
      (replicate (length ?keys) 0, replicate (length ?keys) []) = Inr (indegree, dependents)" by auto
  show ?thesis
  proof (rule topological_run [OF wf a d])
    fix D ready remaining indegree'
    assume st: "topo_setup specs ?keys id_by_key (\<lambda>i. opid run_id (first + i)) dependents"
      and inv: "topo_inv specs ?keys D [] remaining indegree'"
      and res: "topological_order uuid_parse specs run_id first =
       (if length D \<noteq> length specs
        then Inl (Fail (restore_error DependencyCycle ''restore operation prerequisites contain a cycle'' None None None None))
        else Inr (map (built_operation run_id specs ?keys id_by_key (\<lambda>i. opid run_id (first + i))) D))"
    show ?thesis
      using res full_order_acyclic [OF wf st inv] partial_order_cyclic [OF wf st inv] by auto
  qed
qed

lemma topological_order_only_fails:
  assumes wf: "specs_wf specs" and e: "topological_order uuid_parse specs run_id first = Inl e"
  shows "\<exists>err. e = Fail err"
proof -
  let ?keys = "sorted_keys specs"
  show ?thesis
  proof (cases "try_fold (assign_id uuid_parse run_id first) (enumerate_list ?keys) []")
    case (Inl err)
    with e show ?thesis by (auto simp: topological_order_unfold)
  next
    case a: (Inr id_by_key)
    show ?thesis
    proof (cases "try_fold (degree_step specs ?keys) (enumerate_list ?keys)
        (replicate (length ?keys) 0, replicate (length ?keys) [])")
      case (Inl err)
      with e a degree_step_no_panic [OF wf Inl] show ?thesis by (auto simp: topological_order_unfold)
    next
      case (Inr st)
      obtain ind dep where "st = (ind, dep)" by force
      show ?thesis
        by (rule topological_run [OF wf a Inr [unfolded \<open>st = (ind, dep)\<close>]])
           (use e in \<open>auto split: if_splits\<close>)
    qed
  qed
qed

subsection \<open>Overlapping writes get an explicit order\<close>

text \<open>A spec map that only gained prerequisites.\<close>

definition extends :: "spec_map \<Rightarrow> spec_map \<Rightarrow> bool" where
  "extends specs specs' \<longleftrightarrow>
     bt_inv specs' \<and> dom (bt_get specs') = dom (bt_get specs)
     \<and> (\<forall>k s. bt_get specs k = Some s \<longrightarrow>
          (\<exists>ps. bt_get specs' k = Some (s\<lparr>spec_prerequisites := ps\<rparr>)
             \<and> set (spec_prerequisites s) \<subseteq> set ps \<and> (distinct (spec_prerequisites s) \<longrightarrow> distinct ps)))"

lemma same_prerequisites:
  "\<exists>ps. t = t\<lparr>spec_prerequisites := ps\<rparr> \<and> set (spec_prerequisites t) \<subseteq> set ps
     \<and> (distinct (spec_prerequisites t) \<longrightarrow> distinct ps)" for t :: OperationSpec
  by (intro exI [of _ "spec_prerequisites t"]) simp

lemma extends_refl: "bt_inv specs \<Longrightarrow> extends specs specs"
  unfolding extends_def using same_prerequisites by auto

lemma extends_trans:
  assumes "extends a b" "extends b c"
  shows "extends a c"
  unfolding extends_def
proof (intro conjI allI impI)
  show "bt_inv c" "dom (bt_get c) = dom (bt_get a)" using assms by (auto simp: extends_def)
  fix k s assume "bt_get a k = Some s"
  with assms(1) obtain ps where ps: "bt_get b k = Some (s\<lparr>spec_prerequisites := ps\<rparr>)"
    "set (spec_prerequisites s) \<subseteq> set ps" "distinct (spec_prerequisites s) \<longrightarrow> distinct ps"
    unfolding extends_def by blast
  with assms(2) obtain qs where "bt_get c k = Some (s\<lparr>spec_prerequisites := ps\<rparr>\<lparr>spec_prerequisites := qs\<rparr>)"
    "set ps \<subseteq> set qs" "distinct ps \<longrightarrow> distinct qs"
    unfolding extends_def by (metis OperationSpec.select_convs(5) OperationSpec.surjective OperationSpec.update_convs(5))
  with ps show "\<exists>ps. bt_get c k = Some (s\<lparr>spec_prerequisites := ps\<rparr>)
      \<and> set (spec_prerequisites s) \<subseteq> set ps \<and> (distinct (spec_prerequisites s) \<longrightarrow> distinct ps)"
    by (intro exI [of _ qs]) auto
qed

lemma extends_destination:
  assumes "extends a b"
  shows "spec_destination b = spec_destination a"
proof
  fix k
  show "spec_destination b k = spec_destination a k"
  proof (cases "bt_get a k")
    case None
    with assms have "bt_get b k = None" unfolding extends_def by (metis domIff)
    with None show ?thesis by (simp add: spec_destination_def)
  next
    case (Some s)
    with assms obtain ps where "bt_get b k = Some (s\<lparr>spec_prerequisites := ps\<rparr>)" unfolding extends_def by blast
    with Some show ?thesis by (simp add: spec_destination_def)
  qed
qed

definition has_prereq :: "spec_map \<Rightarrow> str \<Rightarrow> str \<Rightarrow> bool" where
  "has_prereq specs k p \<longleftrightarrow> (\<exists>s. bt_get specs k = Some s \<and> p \<in> set (spec_prerequisites s))"

lemma extends_has_prereq: "extends a b \<Longrightarrow> has_prereq a k p \<Longrightarrow> has_prereq b k p"
  unfolding extends_def has_prereq_def by fastforce

lemma order_pair_extends:
  assumes inv: "bt_inv specs"
  shows "extends specs (order_pair l lp r specs)"
    "spec_destination specs r = Some q \<Longrightarrow> paths_overlap lp q \<Longrightarrow> has_prereq (order_pair l lp r specs) r l"
proof -
  have *: "extends specs (order_pair l lp r specs) \<and>
     (spec_destination specs r = Some q \<and> paths_overlap lp q \<longrightarrow> has_prereq (order_pair l lp r specs) r l)" for q
  proof (cases "\<exists>q. spec_destination specs r = Some q \<and> paths_overlap lp q")
    case True
    then obtain q s where q: "spec_destination specs r = Some q" "paths_overlap lp q" and s: "bt_get specs r = Some s"
      by (auto simp: spec_destination_def split: option.splits)
    have new: "order_pair l lp r specs = bt_insert r (add_prerequisite l s) specs"
      using q s by (simp add: order_pair_def)
    have get: "bt_get (order_pair l lp r specs) = (bt_get specs)(r \<mapsto> add_prerequisite l s)"
      unfolding new by (rule bt_get_insert [OF inv])
    have upd: "\<exists>ps. add_prerequisite l s = s\<lparr>spec_prerequisites := ps\<rparr> \<and> set (spec_prerequisites s) \<subseteq> set ps
        \<and> (distinct (spec_prerequisites s) \<longrightarrow> distinct ps)"
      by (intro exI [of _ "insort_insert l (spec_prerequisites s)"])
         (auto simp: add_prerequisite_def set_insort_insert distinct_insort_insert)
    have "extends specs (order_pair l lp r specs)"
      unfolding extends_def get using s upd same_prerequisites bt_inv_insert [OF inv, of r] new by auto
    moreover have "has_prereq (order_pair l lp r specs) r l"
      by (simp add: has_prereq_def get add_prerequisite_def set_insort_insert)
    ultimately show ?thesis by blast
  next
    case False
    then have "order_pair l lp r specs = specs" by (auto simp: order_pair_def split: option.splits)
    with False extends_refl [OF inv] show ?thesis by auto
  qed
  from * show "extends specs (order_pair l lp r specs)" by blast
  from * show "spec_destination specs r = Some q \<Longrightarrow> paths_overlap lp q \<Longrightarrow> has_prereq (order_pair l lp r specs) r l"
    by blast
qed

lemma order_row:
  assumes "bt_inv specs"
  shows "extends specs (foldl (\<lambda>specs r. order_pair l lp r specs) specs ks)
     \<and> (\<forall>r \<in> set ks. \<forall>q. spec_destination specs r = Some q \<and> paths_overlap lp q \<longrightarrow>
          has_prereq (foldl (\<lambda>specs r. order_pair l lp r specs) specs ks) r l)"
  using assms
proof (induction ks arbitrary: specs)
  case (Cons k ks)
  let ?s1 = "order_pair l lp k specs"
  note e1 = order_pair_extends [OF Cons.prems, where l = l and lp = lp and r = k]
  then have inv1: "bt_inv ?s1" by (simp add: extends_def)
  note IH = Cons.IH [OF inv1]
  have dest: "spec_destination ?s1 = spec_destination specs" by (rule extends_destination [OF e1(1)])
  show ?case
    using IH e1 extends_trans [OF e1(1)] extends_has_prereq unfolding dest by (auto simp: dest)
qed (simp add: extends_refl)

lemma order_writes_spec:
  assumes "bt_inv specs"
  shows "extends specs (order_writes ks specs)
     \<and> (\<forall>i j p q. i < j \<and> j < length ks \<and> spec_destination specs (ks ! i) = Some p
          \<and> spec_destination specs (ks ! j) = Some q \<and> paths_overlap p q
        \<longrightarrow> has_prereq (order_writes ks specs) (ks ! j) (ks ! i))"
  using assms
proof (induction ks arbitrary: specs)
  case (Cons k ks)
  define s1 where "s1 = (case spec_destination specs k of None \<Rightarrow> specs
      | Some lp \<Rightarrow> foldl (\<lambda>specs r. order_pair k lp r specs) specs ks)"
  have e1: "extends specs s1"
    and row: "\<And>r p q. r \<in> set ks \<Longrightarrow> spec_destination specs k = Some p \<Longrightarrow> spec_destination specs r = Some q
      \<Longrightarrow> paths_overlap p q \<Longrightarrow> has_prereq s1 r k"
    using order_row [OF Cons.prems] extends_refl [OF Cons.prems] by (auto simp: s1_def split: option.splits)
  have inv1: "bt_inv s1" using e1 by (simp add: extends_def)
  note IH = Cons.IH [OF inv1] and dest = extends_destination [OF e1]
  have ow: "order_writes (k # ks) specs = order_writes ks s1" by (simp add: s1_def)
  show ?case
  proof (intro conjI allI impI)
    show "extends specs (order_writes (k # ks) specs)" unfolding ow using IH extends_trans [OF e1] by blast
    fix i j p q assume a: "i < j \<and> j < length (k # ks) \<and> spec_destination specs ((k # ks) ! i) = Some p
      \<and> spec_destination specs ((k # ks) ! j) = Some q \<and> paths_overlap p q"
    then obtain j' where j: "j = Suc j'" "j' < length ks" by (cases j) auto
    show "has_prereq (order_writes (k # ks) specs) ((k # ks) ! j) ((k # ks) ! i)"
    proof (cases i)
      case 0
      with a j row [of "ks ! j'" p q] have "has_prereq s1 (ks ! j') k" by simp
      with IH extends_has_prereq 0 j show ?thesis unfolding ow by auto
    next
      case (Suc i')
      with a j IH show ?thesis unfolding ow dest by auto
    qed
  qed
qed (simp add: extends_refl)

lemma order_overlapping_extends: "bt_inv specs \<Longrightarrow> extends specs (order_overlapping_writes specs)"
  using order_writes_spec by (simp add: order_overlapping_writes_def)

lemma order_overlapping_total:
  assumes "bt_inv specs" "bt_get specs k = Some s" "bt_get specs l = Some t" "k \<noteq> l"
    and "write_destination (spec_kind s) = Some p" "write_destination (spec_kind t) = Some q" "paths_overlap p q"
  shows "has_prereq (order_overlapping_writes specs) k l \<or> has_prereq (order_overlapping_writes specs) l k"
proof -
  have "k \<in> set (sorted_keys specs)" "l \<in> set (sorted_keys specs)"
    using assms(2,3) sorted_keys_perm(2) [OF assms(1)] by auto
  then obtain i j where i: "i < length (sorted_keys specs)" "sorted_keys specs ! i = k"
    and j: "j < length (sorted_keys specs)" "sorted_keys specs ! j = l" by (meson in_set_conv_nth)
  have d: "spec_destination specs k = Some p" "spec_destination specs l = Some q"
    using assms by (simp_all add: spec_destination_def)
  have o: "has_prereq (order_overlapping_writes specs) (sorted_keys specs ! b) (sorted_keys specs ! a)"
    if "a < b" "b < length (sorted_keys specs)" "spec_destination specs (sorted_keys specs ! a) = Some p'"
      "spec_destination specs (sorted_keys specs ! b) = Some q'" "paths_overlap p' q'" for a b p' q'
    using order_writes_spec [OF assms(1), of "sorted_keys specs"] that unfolding order_overlapping_writes_def by blast
  have "i \<noteq> j" using i j assms(4) by auto
  then show ?thesis
    using o [of i j p q] o [of j i q p] i j d assms(7) paths_overlap_sym [of p q] by (cases "i < j") auto
qed

lemma extends_wf: "specs_wf specs \<Longrightarrow> extends specs specs' \<Longrightarrow> specs_wf specs'"
proof -
  assume wf: "specs_wf specs" and e: "extends specs specs'"
  have inv: "bt_inv specs'" using e by (simp add: extends_def)
  have "distinct (spec_prerequisites s')" if "(k, s') \<in> set specs'" for k s'
  proof -
    have get: "bt_get specs' k = Some s'"
      using that bt_inv_distinct [OF inv] by (simp add: map_of_eq_Some_iff)
    then obtain s where s: "bt_get specs k = Some s" using e unfolding extends_def by blast
    then have "distinct (spec_prerequisites s)" using wf map_of_SomeD [OF s] by (auto simp: specs_wf_def list_all_iff)
    then show ?thesis using e s get unfolding extends_def by fastforce
  qed
  then show ?thesis using inv by (auto simp: specs_wf_def list_all_iff)
qed

subsection \<open>The planned operations\<close>

lemma positions_acyclic:
  assumes d: "distinct (map op_id ops)"
    and pre: "\<And>j p. j < length ops \<Longrightarrow> p \<in> set (op_prerequisites (ops ! j)) \<Longrightarrow> \<exists>i < j. op_id (ops ! i) = p"
  shows "acyclic (prereq_rel ops)"
proof -
  let ?at = "\<lambda>j. op_id (ops ! j)"
  have inj: "inj_on ?at {..<length ops}"
    using d by (auto simp: inj_on_def distinct_conv_nth)
  have pos: "the_inv_into {..<length ops} ?at (?at j) = j" if "j < length ops" for j
    using that by (intro the_inv_into_f_f [OF inj]) simp
  show ?thesis
  proof (rule acyclic_measure [of _ "the_inv_into {..<length ops} ?at"])
    fix a b assume "(a, b) \<in> prereq_rel ops"
    then obtain j where j: "j < length ops" "a = ?at j" "b \<in> set (op_prerequisites (ops ! j))"
      by (auto simp: prereq_rel_def in_set_conv_nth)
    from pre [OF j(1,3)] obtain i where "i < j" "?at i = b" by blast
    then show "the_inv_into {..<length ops} ?at b < the_inv_into {..<length ops} ?at a"
      using pos [of i] pos [of j] j(1,2) by simp
  qed
qed

lemma built_has_prereq:
  assumes "topo_setup specs keys id_by_key ids dependents" "x < length keys" "y < length keys"
    and "has_prereq specs (keys ! x) (keys ! y)"
  shows "ids y \<in> set (op_prerequisites (built_operation run_id specs keys id_by_key ids x))"
proof -
  have "keys ! y \<in> set (spec_prerequisites (spec_at specs keys x))" "bt_get id_by_key (keys ! y) = Some (ids y)"
    using assms by (auto simp: topo_setup_def has_prereq_def)
  then show ?thesis by (force simp: built_operation_def Let_def)
qed

lemma overlapping_operations_ordered:
  assumes wf: "specs_wf specs"
    and t: "topological_order uuid_parse (order_overlapping_writes specs) run_id first = Inr ops"
    and l: "l \<in> set ops" "operation_destination (op_kind l) = Some p"
    and r: "r \<in> set ops" "operation_destination (op_kind r) = Some q"
    and "l \<noteq> r" "paths_overlap p q"
  shows "(op_id l, op_id r) \<in> prereq_rel ops \<or> (op_id r, op_id l) \<in> prereq_rel ops"
proof -
  let ?s = "order_overlapping_writes specs"
  let ?keys = "sorted_keys ?s"
  have inv: "bt_inv specs" using wf by (simp add: specs_wf_def)
  note ext = order_overlapping_extends [OF inv]
  have wf': "specs_wf ?s" by (rule extends_wf [OF wf ext])
  obtain D id_by_key dependents remaining indegree where
    st: "topo_setup ?s ?keys id_by_key (\<lambda>i. opid run_id (first + i)) dependents"
    and ti: "topo_inv ?s ?keys D [] remaining indegree" and len: "length D = length ?s"
    and ops: "ops = map (built_operation run_id ?s ?keys id_by_key (\<lambda>i. opid run_id (first + i))) D"
    by (rule topological_order_stages [OF wf' t])
  let ?built = "built_operation run_id ?s ?keys id_by_key (\<lambda>i. opid run_id (first + i))"
  have Dn: "x < length ?keys" if "x \<in> set D" for x using ti that unfolding topo_inv_def by blast
  obtain x y where x: "x \<in> set D" "l = ?built x" and y: "y \<in> set D" "r = ?built y"
    using l(1) r(1) by (auto simp: ops)
  have "x \<noteq> y" using x y \<open>l \<noteq> r\<close> by auto
  have orig: "\<exists>s. bt_get specs (?keys ! z) = Some s \<and> spec_kind s = op_kind (?built z)" if "z < length ?keys" for z
  proof -
    have g: "bt_get ?s (?keys ! z) = Some (spec_at ?s ?keys z)" using st that by (simp add: topo_setup_def)
    then obtain s where "bt_get specs (?keys ! z) = Some s" using ext unfolding extends_def by blast
    moreover from this ext obtain ps where "bt_get ?s (?keys ! z) = Some (s\<lparr>spec_prerequisites := ps\<rparr>)"
      unfolding extends_def by blast
    then have "spec_kind (spec_at ?s ?keys z) = spec_kind s" using g by simp
    ultimately show ?thesis by (auto simp: built_operation_def Let_def)
  qed
  from orig [OF Dn [OF x(1)]] obtain s where s: "bt_get specs (?keys ! x) = Some s" "spec_kind s = op_kind l"
    using x(2) by auto
  from orig [OF Dn [OF y(1)]] obtain u where u: "bt_get specs (?keys ! y) = Some u" "spec_kind u = op_kind r"
    using y(2) by auto
  have "?keys ! x \<noteq> ?keys ! y"
    using \<open>x \<noteq> y\<close> st Dn [OF x(1)] Dn [OF y(1)] by (auto simp: topo_setup_def nth_eq_iff_index_eq)
  from order_overlapping_total [OF inv s(1) u(1) this] s(2) u(2) l(2) r(2) \<open>paths_overlap p q\<close>
  have "has_prereq ?s (?keys ! x) (?keys ! y) \<or> has_prereq ?s (?keys ! y) (?keys ! x)"
    by (auto simp: write_destination_def)
  then have "op_id r \<in> set (op_prerequisites l) \<or> op_id l \<in> set (op_prerequisites r)"
    using built_has_prereq [OF st Dn [OF x(1)] Dn [OF y(1)]] built_has_prereq [OF st Dn [OF y(1)] Dn [OF x(1)]]
    unfolding x(2) y(2) by (auto simp: built_operation_def Let_def)
  then show ?thesis using l(1) r(1) by (auto intro: prereq_relI)
qed

subsection \<open>Versions\<close>

lemma parts_at_least_refl: "parts_at_least a a"
  by (induction a) auto

lemma parts_at_least_nil_trans: "parts_at_least [] b \<Longrightarrow> parts_at_least b c \<Longrightarrow> parts_at_least [] c"
  by (induction b c rule: parts_at_least.induct) (auto split: if_splits)

lemma parts_at_least_trans: "parts_at_least a b \<Longrightarrow> parts_at_least b c \<Longrightarrow> parts_at_least a c"
proof (induction a b arbitrary: c rule: parts_at_least.induct)
  case (3 m ms)
  then show ?case using parts_at_least_nil_trans [of "m # ms" c] by auto
next
  case (2 a as)
  then show ?case by (cases c) (auto split: if_splits)
next
  case (4 a as m ms)
  then show ?case by (cases c) (auto split: if_splits)
qed auto

lemma parts_at_least_total: "parts_at_least a b \<or> parts_at_least b a"
  by (induction a b rule: parts_at_least.induct) auto

subsection \<open>Sample specs\<close>

definition sample_spec :: "str \<Rightarrow> str list \<Rightarrow> OperationKind \<Rightarrow> OperationSpec" where
  "sample_spec key prerequisites kind =
     (make_spec key ''cmp'' kind (default_phase kind) Always [] False False)\<lparr>spec_prerequisites := prerequisites\<rparr>"

definition sample_path :: "str \<Rightarrow> PathToken" where
  "sample_path relative = \<lparr>pt_root = UserProfile, pt_relative = relative\<rparr>"

definition sample_specs :: spec_map where
  "sample_specs =
     [(''a'', sample_spec ''a'' [] (WriteFile (sample_path ''cfg/app.json'') ''obj1'' FileMode.Replace)),
      (''b'', sample_spec ''b'' [''c''] (MergeJson (sample_path ''CFG/app.json'') ''obj2'' PreserveUnknown)),
      (''c'', sample_spec ''c'' [] (RequireReboot ''driver''))]"

definition sample_uuid_parse :: "str \<Rightarrow> (nat \<times> str) option" where
  "sample_uuid_parse s = Some (7, s)"

lemma sample_specs_wf: "specs_wf sample_specs"
  by (simp add: specs_wf_def sample_specs_def bt_inv_def sample_spec_def make_spec_def less_char_def)

lemma sample_rel: "(k, p) \<in> spec_rel sample_specs \<longleftrightarrow> k = ''b'' \<and> p = ''c''"
  by (auto simp: spec_rel_def sample_specs_def sample_spec_def make_spec_def split: if_splits)

lemma sample_acyclic: "acyclic (spec_rel sample_specs)"
  by (rule acyclic_measure [of _ "\<lambda>k. if k = ''b'' then 1 else 0"]) (simp add: sample_rel)

lemma sample_exist: "\<forall>(k, spec) \<in> set sample_specs. set (spec_prerequisites spec) \<subseteq> fst ` set sample_specs"
  by (simp add: sample_specs_def sample_spec_def make_spec_def)

lemma sample_room: "0 + length sample_specs \<le> u64_max"
  by (simp add: sample_specs_def u64_max_def)


text \<open>The same specs after the overlapping writes have been ordered.\<close>

lemma sample_overlap_specs:
  "order_overlapping_writes sample_specs =
     [(''a'', sample_spec ''a'' [''b''] (WriteFile (sample_path ''cfg/app.json'') ''obj1'' FileMode.Replace)),
      (''b'', sample_spec ''b'' [''c''] (MergeJson (sample_path ''CFG/app.json'') ''obj2'' PreserveUnknown)),
      (''c'', sample_spec ''c'' [] (RequireReboot ''driver''))]"
proof -
  have keys: "sorted_keys sample_specs = [''b'', ''a'', ''c'']"
    by (simp add: sorted_keys_def sort_key_def sample_specs_def spec_sort_key_def sample_spec_def make_spec_def
        path_key_def sample_path_def to_ascii_lowercase_def to_ascii_lower_def is_ascii_upper_def less_char_def
        less_eq_char_def)
  have "to_ascii_lowercase ''CFG/app.json'' = to_ascii_lowercase ''cfg/app.json''" by code_simp
  then show ?thesis
    by (simp add: order_overlapping_writes_def keys)
       (simp add: sample_specs_def spec_destination_def order_pair_def write_destination_def sample_spec_def
        make_spec_def sample_path_def paths_overlap_def Let_def add_prerequisite_def insort_insert_key_def
        less_char_def)
qed

lemma sample_planned:
  "\<exists>ops. topological_order sample_uuid_parse (order_overlapping_writes sample_specs) ''run'' 0 = Inr ops"
proof -
  let ?s = "order_overlapping_writes sample_specs"
  have wf: "specs_wf ?s"
    using extends_wf [OF sample_specs_wf order_overlapping_extends] sample_specs_wf by (simp add: specs_wf_def)
  have rel: "(k, p) \<in> spec_rel ?s \<longleftrightarrow> k = ''b'' \<and> p = ''c'' \<or> k = ''a'' \<and> p = ''b''" for k p
    by (auto simp: spec_rel_def sample_overlap_specs sample_spec_def make_spec_def split: if_splits)
  have "acyclic (spec_rel ?s)"
    by (rule acyclic_measure [of _ "\<lambda>k. if k = ''b'' then 1 else if k = ''a'' then 2 else 0"]) (auto simp: rel)
  moreover have "\<forall>(k, spec) \<in> set ?s. set (spec_prerequisites spec) \<subseteq> fst ` set ?s"
    by (simp add: sample_overlap_specs sample_spec_def make_spec_def)
  moreover have "0 + length ?s \<le> u64_max" by (simp add: sample_overlap_specs u64_max_def)
  ultimately show ?thesis
    using topological_order_decides [OF wf, of sample_uuid_parse "''run''" 0] by (simp add: sample_uuid_parse_def)
qed

lemma planned_structure:
  assumes "specs_wf specs"
    and "topological_order uuid_parse (order_overlapping_writes specs) run_id first = Inr ops"
  shows "distinct (map op_id ops)
     \<and> (\<forall>x \<in> set ops. set (op_prerequisites x) \<subseteq> set (map op_id ops))
     \<and> acyclic (prereq_rel ops) \<and> writes_ordered ops
     \<and> (\<forall>l \<in> set ops. \<forall>r \<in> set ops. \<forall>p q. l \<noteq> r \<and> operation_destination (op_kind l) = Some p
          \<and> operation_destination (op_kind r) = Some q \<and> paths_overlap p q \<longrightarrow>
          (op_id l, op_id r) \<in> prereq_rel ops \<or> (op_id r, op_id l) \<in> prereq_rel ops)"
proof -
  have wf: "specs_wf (order_overlapping_writes specs)"
    using extends_wf [OF assms(1) order_overlapping_extends] assms(1) by (simp add: specs_wf_def)
  note d = topological_order_permutation(3) [OF wf assms(2)]
  note pre = topological_order_prerequisites_first [OF wf assms(2)]
  note ov = overlapping_operations_ordered [OF assms]
  have "set (op_prerequisites x) \<subseteq> set (map op_id ops)" if x: "x \<in> set ops" for x
  proof
    fix p assume p: "p \<in> set (op_prerequisites x)"
    from x obtain j where j: "j < length ops" "ops ! j = x" by (auto simp: in_set_conv_nth)
    from pre [OF j(1)] p j obtain i where "i < j" "op_id (ops ! i) = p" by blast
    with j show "p \<in> set (map op_id ops)" by (metis length_map nth_map nth_mem order.strict_trans)
  qed
  moreover have "acyclic (prereq_rel ops)" by (rule positions_acyclic [OF d pre])
  moreover have "writes_ordered ops"
    unfolding writes_ordered_def using ov by (metis r_into_trancl)
  ultimately show ?thesis using d ov by blast
qed

subsection \<open>Properties\<close>



text \<open>
  C17. On specs whose prerequisites all exist, with a valid run id and room for the ordinals, the
  topological order succeeds exactly when the prerequisites are acyclic, and otherwise reports
  \<^verbatim>\<open>DEPENDENCY_CYCLE\<close>.
\<close>

theorem topological_order_complete:
  assumes "specs_wf specs" "uuid_parse run_id = Some (7, run_id)" "first + length specs \<le> u64_max"
    and "\<forall>(k, spec) \<in> set specs. set (spec_prerequisites spec) \<subseteq> fst ` set specs"
  shows "if acyclic (spec_rel specs) then \<exists>operations. topological_order uuid_parse specs run_id first = Inr operations
    else \<exists>e. topological_order uuid_parse specs run_id first = Inl (Fail e) \<and> ee_code e = DependencyCycle"
  using assms by (rule topological_order_decides)

theorem topological_order_complete_witness:
  "\<exists>operations. topological_order sample_uuid_parse sample_specs ''run'' 0 = Inr operations"
  using topological_order_complete [OF sample_specs_wf _ sample_room sample_exist, of sample_uuid_parse "''run''"]
    sample_acyclic
  by (simp add: sample_uuid_parse_def)

text \<open>
  Ordering a well-formed spec map never panics: every \<^verbatim>\<open>expect\<close>, index and indegree
  decrement of the loop is in range.
\<close>

theorem topological_order_never_panics:
  assumes "specs_wf specs"
  shows "topological_order uuid_parse specs run_id first \<noteq> Inl Panic"
  using topological_order_only_fails [OF assms] by blast

theorem topological_order_never_panics_witness:
  "topological_order sample_uuid_parse sample_specs ''run'' 0 \<noteq> Inl Panic"
  by (rule topological_order_never_panics [OF sample_specs_wf])

text \<open>
  The operations planned from ordered writes pass the structural checks of plan validation:
  unique ids, existing and acyclic prerequisites, and for any two operations that write to
  overlapping destinations one is a direct prerequisite of the other.
\<close>

theorem planned_operations_well_formed:
  assumes "specs_wf specs"
    and "topological_order uuid_parse (order_overlapping_writes specs) run_id first = Inr ops"
  shows "distinct (map op_id ops)
     \<and> (\<forall>x \<in> set ops. set (op_prerequisites x) \<subseteq> set (map op_id ops))
     \<and> acyclic (prereq_rel ops) \<and> writes_ordered ops
     \<and> (\<forall>l \<in> set ops. \<forall>r \<in> set ops. \<forall>p q. l \<noteq> r \<and> operation_destination (op_kind l) = Some p
          \<and> operation_destination (op_kind r) = Some q \<and> paths_overlap p q \<longrightarrow>
          (op_id l, op_id r) \<in> prereq_rel ops \<or> (op_id r, op_id l) \<in> prereq_rel ops)"
  using assms by (rule planned_structure)

theorem planned_operations_well_formed_witness:
  "\<exists>ops. topological_order sample_uuid_parse (order_overlapping_writes sample_specs) ''run'' 0 = Inr ops
     \<and> writes_ordered ops"
  using sample_planned planned_operations_well_formed [OF sample_specs_wf] by blast

text \<open>
  \<open>version_at_least\<close> is a preorder: reflexive and transitive on all version values, the
  textual shortcut included, and on numeric versions total.
\<close>

theorem version_at_least_preorder:
  "version_at_least a a
   \<and> (version_at_least a b \<and> version_at_least b c \<longrightarrow> version_at_least a c)
   \<and> (numeric_version_parts (version_text a) \<noteq> None \<and> numeric_version_parts (version_text b) \<noteq> None \<longrightarrow>
        version_at_least a b \<or> version_at_least b a)"
  using parts_at_least_total parts_at_least_trans
  by (auto simp: version_at_least_def split: option.splits if_splits)

definition sample_version :: "str \<Rightarrow> VersionValue" where
  "sample_version v = \<lparr>ver_raw = v, ver_normalized = None\<rparr>"

theorem version_at_least_preorder_witness:
  "version_at_least (sample_version ''1.10'') (sample_version ''1.2'')
   \<and> version_at_least (sample_version ''1.2'') (sample_version ''1.2.0'')
   \<and> version_at_least (sample_version ''1.10'') (sample_version ''1.2.0'')"
proof -
  have "version_at_least (sample_version ''1.10'') (sample_version ''1.2'')"
    "version_at_least (sample_version ''1.2'') (sample_version ''1.2.0'')"
    by (simp_all add: version_at_least_def version_text_def sample_version_def numeric_version_parts_def
        parse_u128_def read_nat_def is_ascii_digit_def)
  then show ?thesis using version_at_least_preorder by blast
qed

end
