(* ===== verification/Journal.thy ===== *)
theory Journal
  imports Operations
begin

text \<open>
  The durable journal of \<^verbatim>\<open>crates/reforge-restore/src/journal.rs\<close>. The SQLite database is a record
  of its four tables; the constraints of \<^verbatim>\<open>migrations/0001_initial.sql\<close> (primary keys, the global
  uniqueness of operation keys, foreign keys to the run) are guards of the inserts. A transaction
  computes a new database or an error, and an error leaves the old one. Columns that hold the
  text of a scalar enum hold the constructor, columns that hold JSON hold its text. The
  serializers, the UUID parser and SQLite's error texts are the fields of a \<open>journal_env\<close>.
\<close>

record journal_env =
  je_uuid_parse :: "str \<Rightarrow> (nat \<times> str) option"
  je_to_string :: "Value \<Rightarrow> str option"
  je_from_str :: "str \<Rightarrow> Value option"
  je_operation_value :: "Operation \<Rightarrow> Value option"
  je_value_operation :: "Value \<Rightarrow> Operation option"
  je_error_value :: "ErrorEnvelope \<Rightarrow> Value option"
  je_value_error :: "Value \<Rightarrow> ErrorEnvelope option"
  je_sqlite :: "str \<Rightarrow> str"

definition MAX_RUN_TEXT_BYTES :: nat where "MAX_RUN_TEXT_BYTES = 4096"
definition MAX_OPERATION_KEY_BYTES :: nat where "MAX_OPERATION_KEY_BYTES = 1024"
definition MAX_EVENT_LEVEL_BYTES :: nat where "MAX_EVENT_LEVEL_BYTES = 32"
definition MAX_MANUAL_TEXT_BYTES :: nat where "MAX_MANUAL_TEXT_BYTES = 1024"
definition MAX_MANUAL_INSTRUCTIONS :: nat where "MAX_MANUAL_INSTRUCTIONS = 256"

subsection \<open>Rows\<close>

record JournalRun =
  jr_id :: RunId
  jr_package_id :: str
  jr_mode :: RestoreMode
  jr_target_fingerprint :: str
  jr_status :: RunStatus
  jr_approval_state :: ApprovalState
  jr_approved_at :: "DateTime option"
  jr_created_at :: DateTime
  jr_updated_at :: DateTime

record JournalOperation =
  jo_id :: OperationId
  jo_run_id :: RunId
  jo_operation :: Operation
  jo_state :: OperationState
  jo_attempt :: nat
  jo_started_at :: "DateTime option"
  jo_ended_at :: "DateTime option"
  jo_result :: "Value option"
  jo_error :: "ErrorEnvelope option"
  jo_backup :: "Value option"

definition op_key :: "JournalOperation \<Rightarrow> str" where
  "op_key row = op_idempotency_key (jo_operation row)"

record JournalEvent =
  jev_seq :: nat
  jev_run_id :: RunId
  jev_time :: DateTime
  jev_level :: str
  jev_event :: Value

record JournalManualAction =
  jm_id :: str
  jm_run_id :: RunId
  jm_state :: ManualActionState
  jm_title :: str
  jm_reason :: str
  jm_risk :: RiskLevel
  jm_instructions :: "str list"
  jm_acknowledged_at :: "DateTime option"

definition to_manual_action :: "JournalManualAction \<Rightarrow> ManualAction" where
  "to_manual_action row =
     \<lparr>ma_id = jm_id row, ma_component = None, ma_title = jm_title row, ma_reason = jm_reason row,
      ma_risk = jm_risk row, ma_instructions = jm_instructions row, ma_docs_url = None,
      ma_state = jm_state row, ma_independent_operations_may_continue = True,
      ma_acknowledged_at = jm_acknowledged_at row, ma_verification = None\<rparr>"

text \<open>The columns of the tables whose rows hold JSON; a row of \<open>runs\<close> is a \<^typ>\<open>JournalRun\<close>.\<close>

record RawOperation =
  ro_id :: OperationId
  ro_run_id :: RunId
  ro_op_key :: str
  ro_component_id :: ComponentId
  ro_kind :: str
  ro_state :: OperationState
  ro_attempt :: nat
  ro_requires_elevation :: bool
  ro_started_at :: "DateTime option"
  ro_ended_at :: "DateTime option"
  ro_input_json :: str
  ro_result_json :: "str option"
  ro_error_json :: "str option"
  ro_backup_json :: "str option"

record RawEvent =
  re_seq :: nat
  re_run_id :: RunId
  re_time :: DateTime
  re_level :: str
  re_event_json :: str

record RawManualAction =
  rm_id :: str
  rm_run_id :: RunId
  rm_state :: ManualActionState
  rm_title :: str
  rm_reason :: str
  rm_risk :: RiskLevel
  rm_instructions_json :: str
  rm_acknowledged_at :: "DateTime option"

text \<open>The database; \<open>db_sequence\<close> is the last value of the events' \<^verbatim>\<open>AUTOINCREMENT\<close>.\<close>

record journal =
  db_runs :: "JournalRun list"
  db_operations :: "RawOperation list"
  db_events :: "RawEvent list"
  db_manual_actions :: "RawManualAction list"
  db_sequence :: nat

definition empty_journal :: journal where
  "empty_journal = \<lparr>db_runs = [], db_operations = [], db_events = [], db_manual_actions = [], db_sequence = 0\<rparr>"

subsection \<open>Errors and checked texts\<close>

definition journal_error :: "ReforgeErrorCode \<Rightarrow> str \<Rightarrow> ErrorEnvelope" where
  "journal_error ecode message = restore_error ecode message None None None None"

definition sqlite_error :: "journal_env \<Rightarrow> str \<Rightarrow> str \<Rightarrow> ErrorEnvelope" where
  "sqlite_error env context constraint =
     restore_error OperationFailed context (Some (je_sqlite env constraint)) None None None"

definition safe_json_text :: "journal_env \<Rightarrow> Value \<Rightarrow> str \<Rightarrow> str restore" where
  "safe_json_text env v context =
     try_bind (ok_or (journal_error SecurityPolicy (context @ '' could not be proven safe to persist''))
                 (redact_json (je_to_string env) default_policy v)) (\<lambda>redacted.
     ok_or (journal_error SchemaInvalid (context @ '' could not be serialized''))
       (je_to_string env redacted))"

definition safe_text :: "str \<Rightarrow> str \<Rightarrow> str restore" where
  "safe_text v context =
     ok_or (journal_error SecurityPolicy (context @ '' could not be proven safe to persist''))
       (policy_redact_text default_policy v)"

definition bounded_text :: "str \<Rightarrow> nat \<Rightarrow> str \<Rightarrow> str restore" where
  "bounded_text v max_bytes context =
     (if v = [] \<or> length v > max_bytes \<or> has_control v
      then Inl (journal_error SchemaInvalid (context @ '' is invalid''))
      else Inr v)"

text \<open>The recurring \<^verbatim>\<open>bounded_text(&safe_text(..)?, ..)\<close>.\<close>

definition bounded_safe_text :: "str \<Rightarrow> nat \<Rightarrow> str \<Rightarrow> str restore" where
  "bounded_safe_text v max_bytes context =
     try_bind (safe_text v context) (\<lambda>t. bounded_text t max_bytes context)"

definition parse_persisted_json :: "journal_env \<Rightarrow> str \<Rightarrow> str \<Rightarrow> Value restore" where
  "parse_persisted_json env text context =
     try_bind (ok_or (journal_error SchemaInvalid (''journal '' @ context @ '' is invalid JSON''))
                 (je_from_str env text)) (\<lambda>parsed.
     try_bind (ok_or (journal_error SchemaInvalid (''journal '' @ context @ '' could not be serialized''))
                 (je_to_string env parsed)) (\<lambda>serialized.
     try_bind (safe_json_text env parsed context) (\<lambda>safe.
     if serialized \<noteq> safe
     then Inl (journal_error SecurityPolicy (''journal '' @ context @ '' contains an unsafe value''))
     else Inr parsed)))"

definition parse_optional_json :: "journal_env \<Rightarrow> str option \<Rightarrow> str \<Rightarrow> Value option restore" where
  "parse_optional_json env text context =
     transpose_map (\<lambda>t. parse_persisted_json env t context) text"

definition parse_optional_error :: "journal_env \<Rightarrow> str option \<Rightarrow> str \<Rightarrow> ErrorEnvelope option restore" where
  "parse_optional_error env text context =
     transpose_map (\<lambda>t.
       try_bind (parse_persisted_json env t context) (\<lambda>v.
       ok_or (journal_error SchemaInvalid (''journal '' @ context @ '' has an invalid value''))
         (je_value_error env v))) text"

definition parse_id :: "(str \<Rightarrow> ('e, str) result) \<Rightarrow> str \<Rightarrow> str \<Rightarrow> str restore" where
  "parse_id try_from v context =
     (case try_from v of
        Inl _ \<Rightarrow> Inl (journal_error SchemaInvalid (''journal '' @ context @ '' is invalid''))
      | Inr i \<Rightarrow> Inr i)"

subsection \<open>Enum texts\<close>

fun approval_text :: "ApprovalState \<Rightarrow> str" where
  "approval_text ApprovalState.Pending = ''PENDING''"
| "approval_text Approved = ''APPROVED''"
| "approval_text Rejected = ''REJECTED''"

fun run_status_text :: "RunStatus \<Rightarrow> str" where
  "run_status_text Planned = ''PLANNED''"
| "run_status_text WaitingForApproval = ''WAITING_FOR_APPROVAL''"
| "run_status_text RunStatus.Running = ''RUNNING''"
| "run_status_text RunStatus.WaitingForUser = ''WAITING_FOR_USER''"
| "run_status_text RunStatus.WaitingForReboot = ''WAITING_FOR_REBOOT''"
| "run_status_text RunStatus.Completed = ''COMPLETED''"
| "run_status_text RunStatus.Partial = ''PARTIAL''"
| "run_status_text RunStatus.Failed = ''FAILED''"
| "run_status_text RunStatus.Cancelled = ''CANCELLED''"
| "run_status_text RunStatus.Interrupted = ''INTERRUPTED''"

fun operation_state_text :: "OperationState \<Rightarrow> str" where
  "operation_state_text OperationState.Pending = ''PENDING''"
| "operation_state_text OperationState.Running = ''RUNNING''"
| "operation_state_text OperationState.Completed = ''COMPLETED''"
| "operation_state_text OperationState.Failed = ''FAILED''"
| "operation_state_text OperationState.Skipped = ''SKIPPED''"
| "operation_state_text OperationState.WaitingForUser = ''WAITING_FOR_USER''"
| "operation_state_text OperationState.WaitingForReboot = ''WAITING_FOR_REBOOT''"
| "operation_state_text OperationState.Interrupted = ''INTERRUPTED''"
| "operation_state_text OperationState.Cancelled = ''CANCELLED''"

fun manual_state_text :: "ManualActionState \<Rightarrow> str" where
  "manual_state_text ManualActionState.Pending = ''PENDING''"
| "manual_state_text Acknowledged = ''ACKNOWLEDGED''"
| "manual_state_text ManualActionState.Completed = ''COMPLETED''"
| "manual_state_text ManualActionState.Skipped = ''SKIPPED''"

text \<open>The label of a kind is its serde tag, which every variant has.\<close>

fun operation_kind_label :: "OperationKind \<Rightarrow> str" where
  "operation_kind_label (EnsureProvider _) = ''ENSURE_PROVIDER''"
| "operation_kind_label (InstallPackage _ _ _) = ''INSTALL_PACKAGE''"
| "operation_kind_label (EnsureRuntime _) = ''ENSURE_RUNTIME''"
| "operation_kind_label (WriteFile _ _ _) = ''WRITE_FILE''"
| "operation_kind_label (MergeJson _ _ _) = ''MERGE_JSON''"
| "operation_kind_label (MergeToml _ _ _) = ''MERGE_TOML''"
| "operation_kind_label (SetUserEnvironment _ _) = ''SET_USER_ENVIRONMENT''"
| "operation_kind_label (AppendUserPath _) = ''APPEND_USER_PATH''"
| "operation_kind_label (ImportWsl _ _) = ''IMPORT_WSL''"
| "operation_kind_label (RestoreDockerImage _ _) = ''RESTORE_DOCKER_IMAGE''"
| "operation_kind_label (RestoreDockerVolume _ _) = ''RESTORE_DOCKER_VOLUME''"
| "operation_kind_label (InstallVsCodeExtension _ _ _) = ''INSTALL_VS_CODE_EXTENSION''"
| "operation_kind_label (RegisterMcp _) = ''REGISTER_MCP''"
| "operation_kind_label (OpenManualAction _) = ''OPEN_MANUAL_ACTION''"
| "operation_kind_label (RequireReboot _) = ''REQUIRE_REBOOT''"
| "operation_kind_label (OperationKind.Verify _) = ''VERIFY''"

subsection \<open>Lifecycles\<close>

fun valid_approval_transition :: "ApprovalState \<Rightarrow> ApprovalState \<Rightarrow> bool" where
  "valid_approval_transition ApprovalState.Pending _ = True"
| "valid_approval_transition Approved next \<longleftrightarrow> next = Approved"
| "valid_approval_transition Rejected next \<longleftrightarrow> next = Rejected"

fun valid_manual_action_transition :: "ManualActionState \<Rightarrow> ManualActionState \<Rightarrow> bool" where
  "valid_manual_action_transition ManualActionState.Pending next \<longleftrightarrow>
     next \<in> {ManualActionState.Pending, Acknowledged, ManualActionState.Skipped}"
| "valid_manual_action_transition Acknowledged next \<longleftrightarrow>
     next \<in> {Acknowledged, ManualActionState.Completed, ManualActionState.Skipped}"
| "valid_manual_action_transition ManualActionState.Completed next \<longleftrightarrow> next = ManualActionState.Completed"
| "valid_manual_action_transition ManualActionState.Skipped next \<longleftrightarrow> next = ManualActionState.Skipped"

subsection \<open>Reading rows\<close>

definition parse_run :: "journal_env \<Rightarrow> JournalRun \<Rightarrow> JournalRun restore" where
  "parse_run env raw =
     try_bind (parse_id (RunId_try_from (je_uuid_parse env)) (jr_id raw) ''run ID'') (\<lambda>i.
     try_bind (bounded_safe_text (jr_package_id raw) MAX_RUN_TEXT_BYTES ''package ID'') (\<lambda>package_id.
     try_bind (bounded_safe_text (jr_target_fingerprint raw) MAX_RUN_TEXT_BYTES ''target fingerprint'')
       (\<lambda>target_fingerprint.
     Inr (raw\<lparr>jr_id := i, jr_package_id := package_id, jr_target_fingerprint := target_fingerprint\<rparr>))))"

definition parse_operation :: "journal_env \<Rightarrow> RunId \<Rightarrow> RawOperation \<Rightarrow> JournalOperation restore" where
  "parse_operation env expected_run_id raw =
     try_bind (parse_id (OperationId_new (je_uuid_parse env)) (ro_id raw) ''operation ID'') (\<lambda>i.
     try_bind (parse_id (RunId_try_from (je_uuid_parse env)) (ro_run_id raw) ''operation run ID'') (\<lambda>run_id.
     if run_id \<noteq> expected_run_id
     then Inl (journal_error SchemaInvalid ''journal operation references a different run'')
     else
     try_bind (bounded_text (ro_op_key raw) MAX_OPERATION_KEY_BYTES ''operation key'') (\<lambda>key.
     try_bind (parse_id ComponentId_new (ro_component_id raw) ''operation component ID'') (\<lambda>component_id.
     try_bind (bounded_text (ro_kind raw) MAX_EVENT_LEVEL_BYTES ''operation kind'') (\<lambda>kind.
     if ro_attempt raw > u32_max
     then Inl (journal_error SchemaInvalid ''journal operation attempt is invalid'')
     else
     try_bind (parse_persisted_json env (ro_input_json raw) ''operation input'') (\<lambda>v.
     try_bind (ok_or (journal_error SchemaInvalid ''journal operation input is not a valid operation'')
                 (je_value_operation env v)) (\<lambda>operation.
     if op_id operation \<noteq> i \<or> op_component operation \<noteq> component_id
        \<or> op_idempotency_key operation \<noteq> key
        \<or> op_requires_elevation operation \<noteq> ro_requires_elevation raw
        \<or> operation_kind_label (op_kind operation) \<noteq> kind
     then Inl (journal_error SchemaInvalid ''journal operation columns disagree with its input'')
     else
     try_bind (parse_optional_json env (ro_result_json raw) ''operation result'') (\<lambda>result.
     try_bind (parse_optional_error env (ro_error_json raw) ''operation error'') (\<lambda>error.
     try_bind (parse_optional_json env (ro_backup_json raw) ''operation backup'') (\<lambda>backup.
     Inr \<lparr>jo_id = i, jo_run_id = run_id, jo_operation = operation, jo_state = ro_state raw,
          jo_attempt = ro_attempt raw, jo_started_at = ro_started_at raw,
          jo_ended_at = ro_ended_at raw, jo_result = result, jo_error = error,
          jo_backup = backup\<rparr>))))))))))"

definition parse_event :: "journal_env \<Rightarrow> RunId \<Rightarrow> RawEvent \<Rightarrow> JournalEvent restore" where
  "parse_event env expected_run_id raw =
     try_bind (parse_id (RunId_try_from (je_uuid_parse env)) (re_run_id raw) ''event run ID'') (\<lambda>run_id.
     if run_id \<noteq> expected_run_id \<or> re_seq raw = 0
     then Inl (journal_error SchemaInvalid ''journal event row is invalid'')
     else
     try_bind (bounded_text (re_level raw) MAX_EVENT_LEVEL_BYTES ''event level'') (\<lambda>level.
     try_bind (parse_persisted_json env (re_event_json raw) ''journal event'') (\<lambda>event.
     Inr \<lparr>jev_seq = re_seq raw, jev_run_id = run_id, jev_time = re_time raw, jev_level = level,
          jev_event = event\<rparr>)))"

text \<open>Reading a \<^verbatim>\<open>Vec<String>\<close> back from a JSON value.\<close>

definition value_strings :: "Value \<Rightarrow> str list option" where
  "value_strings v =
     (case v of
        Array vs \<Rightarrow> opt_list (map (\<lambda>x. case x of String s \<Rightarrow> Some s | _ \<Rightarrow> None) vs)
      | _ \<Rightarrow> None)"

definition parse_manual_action :: "journal_env \<Rightarrow> RunId \<Rightarrow> RawManualAction \<Rightarrow> JournalManualAction restore" where
  "parse_manual_action env expected_run_id raw =
     try_bind (parse_id (RunId_try_from (je_uuid_parse env)) (rm_run_id raw) ''manual action run ID'') (\<lambda>run_id.
     if run_id \<noteq> expected_run_id
     then Inl (journal_error SchemaInvalid ''journal manual action references a different run'')
     else
     try_bind (parse_persisted_json env (rm_instructions_json raw) ''manual action instructions'') (\<lambda>v.
     try_bind (ok_or (journal_error SchemaInvalid ''journal manual action instructions are invalid'')
                 (value_strings v)) (\<lambda>instructions.
     if length instructions > MAX_MANUAL_INSTRUCTIONS
     then Inl (journal_error SecurityPolicy ''journal manual action has too many instructions'')
     else
     try_bind (try_map (\<lambda>instruction.
         bounded_safe_text instruction MAX_MANUAL_TEXT_BYTES ''manual action instruction'') instructions) (\<lambda>_.
     try_bind (bounded_text (rm_id raw) MAX_MANUAL_TEXT_BYTES ''manual action ID'') (\<lambda>i.
     try_bind (bounded_safe_text (rm_title raw) MAX_MANUAL_TEXT_BYTES ''manual action title'') (\<lambda>title.
     try_bind (bounded_safe_text (rm_reason raw) MAX_MANUAL_TEXT_BYTES ''manual action reason'') (\<lambda>reason.
     Inr \<lparr>jm_id = i, jm_run_id = run_id, jm_state = rm_state raw, jm_title = title,
          jm_reason = reason, jm_risk = rm_risk raw, jm_instructions = instructions,
          jm_acknowledged_at = rm_acknowledged_at raw\<rparr>)))))))"

definition find_run :: "journal \<Rightarrow> RunId \<Rightarrow> JournalRun option" where
  "find_run j run_id = find (\<lambda>r. jr_id r = run_id) (db_runs j)"

definition find_operation :: "journal \<Rightarrow> RunId \<Rightarrow> OperationId \<Rightarrow> RawOperation option" where
  "find_operation j run_id operation_id =
     find (\<lambda>r. ro_id r = operation_id \<and> ro_run_id r = run_id) (db_operations j)"

definition find_manual_action :: "journal \<Rightarrow> RunId \<Rightarrow> str \<Rightarrow> RawManualAction option" where
  "find_manual_action j run_id action_id =
     find (\<lambda>r. rm_id r = action_id \<and> rm_run_id r = run_id) (db_manual_actions j)"

definition fetch_run :: "journal_env \<Rightarrow> journal \<Rightarrow> RunId \<Rightarrow> JournalRun option restore" where
  "fetch_run env j run_id = transpose_map (parse_run env) (find_run j run_id)"

definition fetch_operation ::
  "journal_env \<Rightarrow> journal \<Rightarrow> RunId \<Rightarrow> OperationId \<Rightarrow> JournalOperation option restore" where
  "fetch_operation env j run_id operation_id =
     transpose_map (parse_operation env run_id) (find_operation j run_id operation_id)"

definition fetch_manual_action ::
  "journal_env \<Rightarrow> journal \<Rightarrow> RunId \<Rightarrow> str \<Rightarrow> JournalManualAction option restore" where
  "fetch_manual_action env j run_id action_id =
     transpose_map (parse_manual_action env run_id) (find_manual_action j run_id action_id)"

definition list_operations :: "journal_env \<Rightarrow> journal \<Rightarrow> RunId \<Rightarrow> JournalOperation list restore" where
  "list_operations env j run_id =
     try_map (parse_operation env run_id)
       (sort_key ro_id (filter (\<lambda>r. ro_run_id r = run_id) (db_operations j)))"

definition list_events :: "journal_env \<Rightarrow> journal \<Rightarrow> RunId \<Rightarrow> JournalEvent list restore" where
  "list_events env j run_id =
     try_map (parse_event env run_id)
       (sort_key re_seq (filter (\<lambda>r. re_run_id r = run_id) (db_events j)))"

definition list_manual_actions :: "journal_env \<Rightarrow> journal \<Rightarrow> RunId \<Rightarrow> JournalManualAction list restore" where
  "list_manual_actions env j run_id =
     try_map (parse_manual_action env run_id)
       (sort_key rm_id (filter (\<lambda>r. rm_run_id r = run_id) (db_manual_actions j)))"

definition require_approved :: "journal_env \<Rightarrow> journal \<Rightarrow> RunId \<Rightarrow> unit restore" where
  "require_approved env j run_id =
     try_bind (fetch_run env j run_id) (\<lambda>run.
     try_bind (ok_or (journal_error OperationFailed ''journal run not found'') run) (\<lambda>run.
     if jr_approval_state run \<noteq> Approved
     then Inl (journal_error SecurityPolicy ''restore execution requires explicit journal approval'')
     else Inr ()))"

subsection \<open>Statements of a transaction\<close>

text \<open>The inserts check the constraints of the schema, the updates touch the rows of their \<^verbatim>\<open>WHERE\<close>.\<close>

definition insert_run :: "journal_env \<Rightarrow> JournalRun \<Rightarrow> journal \<Rightarrow> journal restore" where
  "insert_run env row j =
     (if jr_id row \<in> jr_id ` set (db_runs j)
      then Inl (sqlite_error env ''journal run could not be inserted'' ''runs.id'')
      else Inr (j\<lparr>db_runs := db_runs j @ [row]\<rparr>))"

definition insert_operation :: "journal_env \<Rightarrow> RawOperation \<Rightarrow> journal \<Rightarrow> journal restore" where
  "insert_operation env row j =
     (if ro_id row \<in> ro_id ` set (db_operations j)
      then Inl (sqlite_error env ''journal operation could not be inserted'' ''operations.id'')
      else if ro_op_key row \<in> ro_op_key ` set (db_operations j)
      then Inl (sqlite_error env ''journal operation could not be inserted'' ''operations.op_key'')
      else if ro_run_id row \<notin> jr_id ` set (db_runs j)
      then Inl (sqlite_error env ''journal operation could not be inserted'' ''operations.run_id'')
      else Inr (j\<lparr>db_operations := db_operations j @ [row]\<rparr>))"

definition insert_manual_action :: "journal_env \<Rightarrow> RawManualAction \<Rightarrow> journal \<Rightarrow> journal restore" where
  "insert_manual_action env row j =
     (if rm_id row \<in> rm_id ` set (db_manual_actions j)
      then Inl (sqlite_error env ''journal manual action could not be inserted'' ''manual_actions.id'')
      else if rm_run_id row \<notin> jr_id ` set (db_runs j)
      then Inl (sqlite_error env ''journal manual action could not be inserted'' ''manual_actions.run_id'')
      else Inr (j\<lparr>db_manual_actions := db_manual_actions j @ [row]\<rparr>))"

definition insert_event_tx ::
  "journal_env \<Rightarrow> RunId \<Rightarrow> str \<Rightarrow> str \<Rightarrow> DateTime \<Rightarrow> journal \<Rightarrow> (nat \<times> journal) restore" where
  "insert_event_tx env run_id level event_json now j =
     try_bind (bounded_text level MAX_EVENT_LEVEL_BYTES ''event level'') (\<lambda>level.
     if run_id \<notin> jr_id ` set (db_runs j)
     then Inl (sqlite_error env ''journal event could not be inserted'' ''events.run_id'')
     else let sequence = db_sequence j + 1
          in Inr (sequence,
               j\<lparr>db_events := db_events j @
                   [\<lparr>re_seq = sequence, re_run_id = run_id, re_time = now, re_level = level,
                     re_event_json = event_json\<rparr>],
                 db_sequence := sequence\<rparr>))"

definition update_runs :: "(JournalRun \<Rightarrow> bool) \<Rightarrow> (JournalRun \<Rightarrow> JournalRun) \<Rightarrow> journal \<Rightarrow> journal" where
  "update_runs p f j = j\<lparr>db_runs := map (\<lambda>r. if p r then f r else r) (db_runs j)\<rparr>"

definition update_operations ::
  "(RawOperation \<Rightarrow> bool) \<Rightarrow> (RawOperation \<Rightarrow> RawOperation) \<Rightarrow> journal \<Rightarrow> journal" where
  "update_operations p f j = j\<lparr>db_operations := map (\<lambda>r. if p r then f r else r) (db_operations j)\<rparr>"

definition update_manual_actions ::
  "(RawManualAction \<Rightarrow> bool) \<Rightarrow> (RawManualAction \<Rightarrow> RawManualAction) \<Rightarrow> journal \<Rightarrow> journal" where
  "update_manual_actions p f j =
     j\<lparr>db_manual_actions := map (\<lambda>r. if p r then f r else r) (db_manual_actions j)\<rparr>"

text \<open>The event that ends every transition of the journal.\<close>

definition log_event ::
  "journal_env \<Rightarrow> RunId \<Rightarrow> str \<Rightarrow> Value \<Rightarrow> str \<Rightarrow> DateTime \<Rightarrow> journal \<Rightarrow> journal restore" where
  "log_event env run_id level event context now j =
     try_bind (safe_json_text env event context) (\<lambda>event_json.
     try_bind (insert_event_tx env run_id level event_json now j) (\<lambda>(_, j). Inr j))"

text \<open>A transaction and the read that follows its commit; an error rolls the transaction back.\<close>

definition commit_then :: "journal restore \<Rightarrow> (journal \<Rightarrow> 'a restore) \<Rightarrow> journal \<Rightarrow> 'a restore \<times> journal" where
  "commit_then tx read j = (case tx of Inl e \<Rightarrow> (Inl e, j) | Inr j' \<Rightarrow> (read j', j'))"

subsection \<open>Creating a run\<close>

text \<open>One round of the loop over the plan's operations: the checks and the columns of the row.\<close>

definition plan_operation_row ::
  "journal_env \<Rightarrow> RunId \<Rightarrow> Operation \<Rightarrow> str set \<times> str set \<times> RawOperation list
   \<Rightarrow> (str set \<times> str set \<times> RawOperation list) restore" where
  "plan_operation_row env run_id operation = (\<lambda>(operation_ids, operation_keys, rows).
     if op_id operation \<in> operation_ids
     then Inl (journal_error SchemaInvalid ''restore plan contains duplicate operation IDs'')
     else
     try_bind (bounded_text (op_idempotency_key operation) MAX_OPERATION_KEY_BYTES ''operation key'') (\<lambda>key.
     if key \<in> operation_keys
     then Inl (journal_error SchemaInvalid ''restore plan contains duplicate operation keys'')
     else
     try_bind (ok_or (journal_error SchemaInvalid ''restore operation could not be serialized'')
                 (je_operation_value env operation)) (\<lambda>operation_value.
     try_bind (safe_json_text env operation_value ''restore operation input'') (\<lambda>input_json.
     Inr (insert (op_id operation) operation_ids, insert key operation_keys,
          rows @ [\<lparr>ro_id = op_id operation, ro_run_id = run_id, ro_op_key = key,
                   ro_component_id = op_component operation,
                   ro_kind = operation_kind_label (op_kind operation),
                   ro_state = OperationState.Pending, ro_attempt = 0,
                   ro_requires_elevation = op_requires_elevation operation,
                   ro_started_at = None, ro_ended_at = None, ro_input_json = input_json,
                   ro_result_json = None, ro_error_json = None, ro_backup_json = None\<rparr>])))))"

text \<open>The checked columns of a manual action after its id, shared by the two inserts.\<close>

definition manual_action_columns ::
  "journal_env \<Rightarrow> ManualAction \<Rightarrow> (str \<times> str \<times> str list \<times> str) restore" where
  "manual_action_columns env action =
     try_bind (bounded_safe_text (ma_title action) MAX_MANUAL_TEXT_BYTES ''manual action title'') (\<lambda>title.
     try_bind (bounded_safe_text (ma_reason action) MAX_MANUAL_TEXT_BYTES ''manual action reason'') (\<lambda>reason.
     if length (ma_instructions action) > MAX_MANUAL_INSTRUCTIONS
     then Inl (journal_error SecurityPolicy ''manual action has too many instructions'')
     else
     try_bind (try_map (\<lambda>instruction.
         bounded_safe_text instruction MAX_MANUAL_TEXT_BYTES ''manual action instruction'')
       (ma_instructions action)) (\<lambda>instructions.
     try_bind (safe_json_text env (Array (map String instructions)) ''manual action instructions'')
       (\<lambda>instructions_json. Inr (title, reason, instructions, instructions_json)))))"

definition raw_manual_action ::
  "RunId \<Rightarrow> str \<Rightarrow> ManualAction \<Rightarrow> str \<times> str \<times> str list \<times> str \<Rightarrow> RawManualAction" where
  "raw_manual_action run_id i action = (\<lambda>(title, reason, instructions, instructions_json).
     \<lparr>rm_id = i, rm_run_id = run_id, rm_state = ma_state action, rm_title = title,
      rm_reason = reason, rm_risk = ma_risk action, rm_instructions_json = instructions_json,
      rm_acknowledged_at = ma_acknowledged_at action\<rparr>)"

definition plan_action_row ::
  "journal_env \<Rightarrow> RunId \<Rightarrow> ManualAction \<Rightarrow> str set \<times> RawManualAction list
   \<Rightarrow> (str set \<times> RawManualAction list) restore" where
  "plan_action_row env run_id action = (\<lambda>(action_ids, rows).
     try_bind (bounded_text (ma_id action) MAX_MANUAL_TEXT_BYTES ''manual action ID'') (\<lambda>i.
     if i \<in> action_ids
     then Inl (journal_error SchemaInvalid ''restore plan contains duplicate manual action IDs'')
     else
     try_bind (manual_action_columns env action) (\<lambda>columns.
     Inr (insert i action_ids, rows @ [raw_manual_action run_id i action columns]))))"

text \<open>What the loops before the transaction compute: the checked texts and the rows to insert.\<close>

definition create_run_columns ::
  "journal_env \<Rightarrow> RestorePlan \<Rightarrow> (str \<times> str \<times> RawOperation list \<times> RawManualAction list) restore" where
  "create_run_columns env plan =
     try_bind (bounded_safe_text (rp_package_id plan) MAX_RUN_TEXT_BYTES ''package ID'') (\<lambda>package_id.
     try_bind (bounded_safe_text (rp_target_fingerprint plan) MAX_RUN_TEXT_BYTES ''target fingerprint'')
       (\<lambda>target_fingerprint.
     try_bind (try_fold (plan_operation_row env (rp_run_id plan)) (rp_operations plan) ({}, {}, []))
       (\<lambda>(_, _, operations).
     try_bind (try_fold (plan_action_row env (rp_run_id plan)) (rp_manual_actions plan) ({}, []))
       (\<lambda>(_, actions). Inr (package_id, target_fingerprint, operations, actions)))))"

definition new_run :: "RestorePlan \<Rightarrow> str \<Rightarrow> str \<Rightarrow> DateTime \<Rightarrow> JournalRun" where
  "new_run plan package_id target_fingerprint now =
     \<lparr>jr_id = rp_run_id plan, jr_package_id = package_id, jr_mode = rp_mode plan,
      jr_target_fingerprint = target_fingerprint, jr_status = Planned,
      jr_approval_state = ApprovalState.Pending, jr_approved_at = None,
      jr_created_at = now, jr_updated_at = now\<rparr>"

definition plan_run_id :: "journal_env \<Rightarrow> RestorePlan \<Rightarrow> RunId restore" where
  "plan_run_id env plan =
     (case RunId_try_from (je_uuid_parse env) (rp_run_id plan) of
        Inl _ \<Rightarrow> Inl (journal_error SchemaInvalid ''restore plan contains an invalid run ID'')
      | Inr i \<Rightarrow> Inr i)"

definition create_run_tx ::
  "journal_env \<Rightarrow> RestorePlan \<Rightarrow> JournalRun \<Rightarrow> RawOperation list \<Rightarrow> RawManualAction list \<Rightarrow> DateTime
   \<Rightarrow> journal \<Rightarrow> journal restore" where
  "create_run_tx env plan row operations actions now j =
     try_bind (insert_run env row j) (\<lambda>j.
     try_bind (try_fold (insert_operation env) operations j) (\<lambda>j.
     try_bind (try_fold (insert_manual_action env) actions j) (\<lambda>j.
     try_bind (safe_json_text env (Object [(''type'', String ''run_created'')]) ''run creation event'') (\<lambda>event_json.
     try_bind (plan_run_id env plan) (\<lambda>i.
     try_bind (insert_event_tx env i ''INFO'' event_json now j) (\<lambda>(_, j). Inr j))))))"

definition create_run_record :: "journal_env \<Rightarrow> RestorePlan \<Rightarrow> DateTime \<Rightarrow> journal \<Rightarrow> JournalRun restore \<times> journal" where
  "create_run_record env plan now j =
     (case create_run_columns env plan of
        Inl e \<Rightarrow> (Inl e, j)
      | Inr (package_id, target_fingerprint, operations, actions) \<Rightarrow>
          (let row = new_run plan package_id target_fingerprint now
           in commit_then (create_run_tx env plan row operations actions now j)
                (\<lambda>_. try_bind (plan_run_id env plan) (\<lambda>i. Inr (row\<lparr>jr_id := i\<rparr>))) j))"

subsection \<open>Transitions of a run\<close>

definition set_approval_tx ::
  "journal_env \<Rightarrow> RunId \<Rightarrow> ApprovalState \<Rightarrow> DateTime \<Rightarrow> journal \<Rightarrow> journal restore" where
  "set_approval_tx env run_id state now j =
     (case find_run j run_id of
        None \<Rightarrow> Inl (journal_error OperationFailed ''journal run not found'')
      | Some run \<Rightarrow>
          if \<not> valid_approval_transition (jr_approval_state run) state
          then Inl (journal_error SecurityPolicy ''journal approval state cannot move backwards'')
          else let approved_at =
                     (if state = Approved
                      then (case jr_approved_at run of Some t \<Rightarrow> Some t | None \<Rightarrow> Some now)
                      else None)
               in log_event env run_id ''INFO''
                    (Object [(''state'', String (approval_text state)), (''type'', String ''approval_state'')])
                    ''approval event'' now
                    (update_runs (\<lambda>r. jr_id r = run_id)
                      (\<lambda>r. r\<lparr>jr_approval_state := state, jr_approved_at := approved_at, jr_updated_at := now\<rparr>) j))"

definition set_approval_record ::
  "journal_env \<Rightarrow> RunId \<Rightarrow> ApprovalState \<Rightarrow> DateTime \<Rightarrow> journal \<Rightarrow> JournalRun restore \<times> journal" where
  "set_approval_record env run_id state now j =
     commit_then (set_approval_tx env run_id state now j)
       (\<lambda>j. try_bind (fetch_run env j run_id)
              (ok_or (journal_error SchemaInvalid ''journal run disappeared after approval update'')))
       j"

definition set_run_status_tx ::
  "journal_env \<Rightarrow> RunId \<Rightarrow> RunStatus \<Rightarrow> DateTime \<Rightarrow> journal \<Rightarrow> journal restore" where
  "set_run_status_tx env run_id status now j =
     (case find_run j run_id of
        None \<Rightarrow> Inl (journal_error OperationFailed ''journal run not found'')
      | Some run \<Rightarrow>
          if status = RunStatus.Running \<and> jr_approval_state run \<noteq> Approved
          then Inl (journal_error SecurityPolicy ''running a journal run requires explicit approval'')
          else log_event env run_id ''INFO''
                 (Object [(''status'', String (run_status_text status)), (''type'', String ''run_status'')])
                 ''run status event'' now
                 (update_runs (\<lambda>r. jr_id r = run_id) (\<lambda>r. r\<lparr>jr_status := status, jr_updated_at := now\<rparr>) j))"

definition set_run_status_record ::
  "journal_env \<Rightarrow> RunId \<Rightarrow> RunStatus \<Rightarrow> DateTime \<Rightarrow> journal \<Rightarrow> JournalRun restore \<times> journal" where
  "set_run_status_record env run_id status now j =
     commit_then (set_run_status_tx env run_id status now j)
       (\<lambda>j. try_bind (fetch_run env j run_id)
              (ok_or (journal_error SchemaInvalid ''journal run disappeared after status update'')))
       j"

subsection \<open>Transitions of an operation\<close>

text \<open>The row after a transition: attempt, times and payloads by target state.\<close>

definition transition_row ::
  "OperationState \<Rightarrow> str option \<Rightarrow> str option \<Rightarrow> str option \<Rightarrow> DateTime \<Rightarrow> RawOperation \<Rightarrow> RawOperation restore" where
  "transition_row state result_json error_json backup_json now r =
     (if ro_attempt r > u32_max
      then Inl (journal_error SchemaInvalid ''journal operation attempt is invalid'')
      else if state = OperationState.Running
      then try_bind (ok_or (journal_error SecurityPolicy ''journal operation attempt overflowed'')
                       (checked_add_u32 (ro_attempt r) 1)) (\<lambda>attempt.
           Inr (r\<lparr>ro_state := state, ro_attempt := attempt, ro_started_at := Some now,
                  ro_ended_at := None, ro_result_json := None, ro_error_json := None,
                  ro_backup_json := None\<rparr>))
      else if state = OperationState.Pending
      then Inr (r\<lparr>ro_state := state, ro_ended_at := None, ro_result_json := result_json,
                  ro_error_json := error_json, ro_backup_json := backup_json\<rparr>)
      else Inr (r\<lparr>ro_state := state, ro_ended_at := Some now, ro_result_json := result_json,
                  ro_error_json := error_json, ro_backup_json := backup_json\<rparr>))"

definition startable_status :: "RunStatus \<Rightarrow> bool" where
  "startable_status status \<longleftrightarrow>
     status \<in> {Planned, WaitingForApproval, RunStatus.WaitingForUser, RunStatus.WaitingForReboot,
               RunStatus.Interrupted}"

text \<open>The writes of a transition from the current row: the row, the run's status, the event.\<close>

definition transition_operation_tx ::
  "journal_env \<Rightarrow> RunId \<Rightarrow> OperationId \<Rightarrow> OperationState \<Rightarrow> str option \<Rightarrow> str option \<Rightarrow> str option
   \<Rightarrow> RawOperation \<Rightarrow> DateTime \<Rightarrow> journal \<Rightarrow> journal restore" where
  "transition_operation_tx env run_id operation_id state result_json error_json backup_json r now j =
     try_bind (transition_row state result_json error_json backup_json now r) (\<lambda>r'.
     let j1 = update_operations (\<lambda>x. ro_id x = operation_id \<and> ro_run_id x = run_id) (\<lambda>_. r') j;
         j2 = (if state = OperationState.Running
               then update_runs (\<lambda>x. jr_id x = run_id \<and> startable_status (jr_status x))
                      (\<lambda>x. x\<lparr>jr_status := RunStatus.Running, jr_updated_at := now\<rparr>) j1
               else j1)
     in log_event env run_id ''INFO''
          (Object [(''attempt'', Number (int (ro_attempt r'))), (''operation_id'', String operation_id),
                   (''state'', String (operation_state_text state)), (''type'', String ''operation_state'')])
          ''operation state event'' now j2)"

definition transition_operation_record ::
  "journal_env \<Rightarrow> RunId \<Rightarrow> OperationId \<Rightarrow> OperationState \<Rightarrow> str option \<Rightarrow> str option \<Rightarrow> str option
   \<Rightarrow> DateTime \<Rightarrow> journal \<Rightarrow> JournalOperation restore \<times> journal" where
  "transition_operation_record env run_id operation_id state result_json error_json backup_json now j =
     (case (find_operation j run_id operation_id, find_run j run_id) of
        (Some r, Some run) \<Rightarrow>
          if state = OperationState.Running \<and> jr_approval_state run \<noteq> Approved
          then (Inl (journal_error SecurityPolicy ''running a journal operation requires explicit approval''), j)
          else if state = OperationState.Running
               \<and> ro_state r \<in> {OperationState.Running, OperationState.Completed, OperationState.Skipped}
          then (Inl (journal_error SecurityPolicy ''journal operation cannot be started from its current state''), j)
          else if ro_state r = OperationState.Completed \<and> state \<noteq> OperationState.Completed
               \<or> ro_state r = OperationState.Skipped \<and> state \<noteq> OperationState.Skipped
          then (Inl (journal_error SecurityPolicy ''verified journal operation cannot change state''), j)
          else if ro_state r = OperationState.Completed \<and> state = OperationState.Completed
               \<or> ro_state r = OperationState.Skipped \<and> state = OperationState.Skipped
          then (try_bind (fetch_operation env j run_id operation_id)
                  (ok_or (journal_error SchemaInvalid ''journal operation disappeared during idempotent transition'')),
                j)
          else commit_then (transition_operation_tx env run_id operation_id state result_json error_json backup_json r now j)
            (\<lambda>j. try_bind (fetch_operation env j run_id operation_id)
                   (ok_or (journal_error SchemaInvalid ''journal operation disappeared after state update'')))
            j
      | _ \<Rightarrow> (Inl (journal_error OperationFailed ''journal operation not found''), j))"

definition transition_operation ::
  "journal_env \<Rightarrow> RunId \<Rightarrow> OperationId \<Rightarrow> OperationState \<Rightarrow> Value option \<Rightarrow> ErrorEnvelope option
   \<Rightarrow> Value option \<Rightarrow> DateTime \<Rightarrow> journal \<Rightarrow> JournalOperation restore \<times> journal" where
  "transition_operation env run_id operation_id state result error backup now j =
     (case try_bind (transpose_map (\<lambda>v. safe_json_text env v ''operation result'') result) (\<lambda>result_text.
           try_bind (transpose_map (\<lambda>e.
               try_bind (ok_or (journal_error SchemaInvalid ''operation error could not be serialized'')
                           (je_error_value env e)) (\<lambda>v. safe_json_text env v ''operation error'')) error)
             (\<lambda>error_text.
           try_bind (transpose_map (\<lambda>v. safe_json_text env v ''operation backup'') backup) (\<lambda>backup_text.
           Inr (result_text, error_text, backup_text)))) of
        Inl e \<Rightarrow> (Inl e, j)
      | Inr (result_text, error_text, backup_text) \<Rightarrow>
          transition_operation_record env run_id operation_id state result_text error_text backup_text now j)"

definition mark_operation_running ::
  "journal_env \<Rightarrow> RunId \<Rightarrow> OperationId \<Rightarrow> DateTime \<Rightarrow> journal \<Rightarrow> JournalOperation restore \<times> journal" where
  "mark_operation_running env run_id operation_id now j =
     transition_operation env run_id operation_id OperationState.Running None None None now j"

subsection \<open>Events and manual actions\<close>

definition append_event ::
  "journal_env \<Rightarrow> RunId \<Rightarrow> str \<Rightarrow> Value \<Rightarrow> DateTime \<Rightarrow> journal \<Rightarrow> nat restore \<times> journal" where
  "append_event env run_id level event now j =
     (case try_bind (bounded_text level MAX_EVENT_LEVEL_BYTES ''event level'') (\<lambda>level.
           try_bind (safe_json_text env event ''journal event'') (\<lambda>event_json.
           insert_event_tx env run_id level event_json now j)) of
        Inl e \<Rightarrow> (Inl e, j)
      | Inr (sequence, j') \<Rightarrow> (Inr sequence, j'))"

definition add_manual_action_record ::
  "journal_env \<Rightarrow> RunId \<Rightarrow> ManualAction \<Rightarrow> DateTime \<Rightarrow> journal \<Rightarrow> JournalManualAction restore \<times> journal" where
  "add_manual_action_record env run_id action now j =
     (case try_bind (bounded_text (ma_id action) MAX_MANUAL_TEXT_BYTES ''manual action ID'') (\<lambda>i.
           try_bind (manual_action_columns env action) (\<lambda>columns. Inr (i, columns))) of
        Inl e \<Rightarrow> (Inl e, j)
      | Inr (i, title, reason, instructions, instructions_json) \<Rightarrow>
          commit_then
            (try_bind (insert_manual_action env
                 (raw_manual_action run_id i action (title, reason, instructions, instructions_json)) j) (\<lambda>j.
             log_event env run_id ''INFO''
               (Object [(''action_id'', String i), (''type'', String ''manual_action_added'')])
               ''manual-action event'' now j))
            (\<lambda>_. Inr \<lparr>jm_id = i, jm_run_id = run_id, jm_state = ma_state action, jm_title = title,
                      jm_reason = reason, jm_risk = ma_risk action, jm_instructions = instructions,
                      jm_acknowledged_at = ma_acknowledged_at action\<rparr>)
            j)"

definition set_manual_action_state_tx ::
  "journal_env \<Rightarrow> RunId \<Rightarrow> str \<Rightarrow> ManualActionState \<Rightarrow> DateTime \<Rightarrow> journal \<Rightarrow> journal restore" where
  "set_manual_action_state_tx env run_id action_id state now j =
     (case find_manual_action j run_id action_id of
        None \<Rightarrow> Inl (journal_error OperationFailed ''journal manual action not found'')
      | Some action \<Rightarrow>
          if \<not> valid_manual_action_transition (rm_state action) state
          then Inl (journal_error UserActionRequired ''manual action cannot move backwards'')
          else let acknowledged_at =
                     (if state = ManualActionState.Pending then rm_acknowledged_at action
                      else (case rm_acknowledged_at action of Some t \<Rightarrow> Some t | None \<Rightarrow> Some now))
               in log_event env run_id ''INFO''
                    (Object [(''action_id'', String action_id), (''state'', String (manual_state_text state)),
                             (''type'', String ''manual_action_state'')])
                    ''manual-action state event'' now
                    (update_manual_actions (\<lambda>r. rm_id r = action_id \<and> rm_run_id r = run_id)
                      (\<lambda>r. r\<lparr>rm_state := state, rm_acknowledged_at := acknowledged_at\<rparr>) j))"

definition set_manual_action_state_record ::
  "journal_env \<Rightarrow> RunId \<Rightarrow> str \<Rightarrow> ManualActionState \<Rightarrow> DateTime \<Rightarrow> journal
   \<Rightarrow> JournalManualAction restore \<times> journal" where
  "set_manual_action_state_record env run_id action_id state now j =
     commit_then (set_manual_action_state_tx env run_id action_id state now j)
       (\<lambda>j. try_bind (fetch_manual_action env j run_id action_id)
              (ok_or (journal_error SchemaInvalid ''manual action disappeared after state update'')))
       j"

definition set_manual_action_state ::
  "journal_env \<Rightarrow> RunId \<Rightarrow> str \<Rightarrow> ManualActionState \<Rightarrow> DateTime \<Rightarrow> journal
   \<Rightarrow> JournalManualAction restore \<times> journal" where
  "set_manual_action_state env run_id action_id state now j =
     (case bounded_text action_id MAX_MANUAL_TEXT_BYTES ''manual action ID'' of
        Inl e \<Rightarrow> (Inl e, j)
      | Inr i \<Rightarrow> set_manual_action_state_record env run_id i state now j)"

subsection \<open>Recovery\<close>

text \<open>
  The runs to recover, from the two branches of the query. \<^verbatim>\<open>UNION\<close> removes duplicates; SQLite
  delivers its rows in the order of the sorted index it removes them with.
\<close>

definition recovery_run_ids :: "journal \<Rightarrow> RunId list" where
  "recovery_run_ids j =
     sort (remdups (map jr_id (filter (\<lambda>r. jr_status r = RunStatus.Running) (db_runs j))
                    @ map ro_run_id (filter (\<lambda>r. ro_state r = OperationState.Running) (db_operations j))))"

definition recovery_event :: Value where
  "recovery_event =
     Object [(''operation_state'', String ''INTERRUPTED''), (''type'', String ''journal_recovered'')]"

definition recover_run :: "journal_env \<Rightarrow> DateTime \<Rightarrow> RunId \<Rightarrow> journal \<Rightarrow> journal restore" where
  "recover_run env now run_id j =
     (let j1 = update_runs (\<lambda>r. jr_id r = run_id)
                 (\<lambda>r. r\<lparr>jr_status := RunStatus.Interrupted, jr_updated_at := now\<rparr>) j
      in try_bind (safe_json_text env recovery_event ''journal recovery event'') (\<lambda>event_json.
         try_bind (case RunId_try_from (je_uuid_parse env) run_id of
             Inl _ \<Rightarrow> Inl (journal_error SchemaInvalid ''journal recovery row contains an invalid run ID'')
           | Inr i \<Rightarrow> Inr i) (\<lambda>i.
         try_bind (insert_event_tx env i ''WARN'' event_json now j1) (\<lambda>(_, j2). Inr j2))))"

definition recover_running_operations :: "journal_env \<Rightarrow> DateTime \<Rightarrow> journal \<Rightarrow> unit restore \<times> journal" where
  "recover_running_operations env now j =
     (let run_ids = recovery_run_ids j;
          j1 = update_operations (\<lambda>r. ro_state r = OperationState.Running)
                 (\<lambda>r. r\<lparr>ro_state := OperationState.Interrupted, ro_ended_at := Some now\<rparr>) j;
          j2 = update_runs (\<lambda>r. jr_status r = RunStatus.Running)
                 (\<lambda>r. r\<lparr>jr_status := RunStatus.Interrupted, jr_updated_at := now\<rparr>) j1
      in commit_then (try_fold (recover_run env now) run_ids j2) (\<lambda>_. Inr ()) j)"

subsection \<open>The writer\<close>

text \<open>The jobs the public methods send to the writer thread, and its loop over the channel.\<close>

datatype JournalJob =
    CreateRun RestorePlan
  | SetApproval RunId ApprovalState
  | SetRunStatus RunId RunStatus
  | TransitionOperation RunId OperationId OperationState "Value option" "ErrorEnvelope option" "Value option"
  | AppendEvent RunId str Value
  | AddManualAction RunId ManualAction
  | SetManualActionState RunId str ManualActionState

datatype WriterCommand = Job JournalJob DateTime | Shutdown

fun run_job :: "journal_env \<Rightarrow> JournalJob \<Rightarrow> DateTime \<Rightarrow> journal \<Rightarrow> journal" where
  "run_job env (CreateRun plan) now j = snd (create_run_record env plan now j)"
| "run_job env (SetApproval run_id state) now j = snd (set_approval_record env run_id state now j)"
| "run_job env (SetRunStatus run_id status) now j = snd (set_run_status_record env run_id status now j)"
| "run_job env (TransitionOperation run_id operation_id state result error backup) now j =
     snd (transition_operation env run_id operation_id state result error backup now j)"
| "run_job env (AppendEvent run_id level event) now j = snd (append_event env run_id level event now j)"
| "run_job env (AddManualAction run_id action) now j = snd (add_manual_action_record env run_id action now j)"
| "run_job env (SetManualActionState run_id action_id state) now j =
     snd (set_manual_action_state env run_id action_id state now j)"

fun writer_loop :: "journal_env \<Rightarrow> WriterCommand list \<Rightarrow> journal \<Rightarrow> journal" where
  "writer_loop env [] j = j"
| "writer_loop env (Shutdown # _) j = j"
| "writer_loop env (Job job now # commands) j = writer_loop env commands (run_job env job now j)"

end
