(* ===== verification/JournalSafety.thy ===== *)
theory JournalSafety
  imports Journal
begin

text \<open>
  Safety of the journal over every interleaving of its writes and of crashes. A crash loses the
  transaction in flight and is followed by a reopening that recovers; so the histories of a
  journal are the paths of \<open>journal_step\<close>. The locales say what a lifecycle and a monotone table
  are; they are interpreted on the journal's approval states, manual-action states, operation
  states and rows.
\<close>

subsection \<open>Lifecycles\<close>

locale lifecycle =
  fixes valid :: "'s \<Rightarrow> 's \<Rightarrow> bool" and terminal :: "'s \<Rightarrow> bool"
  assumes valid_refl: "valid s s"
    and terminal_stuck: "terminal s \<Longrightarrow> valid s t \<Longrightarrow> t = s"
begin

lemma terminal_forever: "valid\<^sup>*\<^sup>* s t \<Longrightarrow> terminal s \<Longrightarrow> t = s"
  by (induction rule: rtranclp_induct) (auto dest: terminal_stuck)

end

text \<open>A lifecycle whose states only move forward.\<close>

locale ranked_lifecycle = lifecycle +
  fixes rank_of :: "'a \<Rightarrow> nat"
  assumes forward: "valid s t \<Longrightarrow> t \<noteq> s \<Longrightarrow> rank_of s < rank_of t"
begin

lemma never_back: "valid\<^sup>*\<^sup>* s t \<Longrightarrow> t = s \<or> rank_of s < rank_of t"
  by (induction rule: rtranclp_induct) (auto dest: forward intro: less_trans)

lemma no_return: "valid\<^sup>*\<^sup>* s t \<Longrightarrow> valid\<^sup>*\<^sup>* t s \<Longrightarrow> t = s"
  using never_back [of s t] never_back [of t s] by auto

end

fun approval_rank :: "ApprovalState \<Rightarrow> nat" where
  "approval_rank ApprovalState.Pending = 0"
| "approval_rank Approved = 1"
| "approval_rank Rejected = 1"

fun manual_rank :: "ManualActionState \<Rightarrow> nat" where
  "manual_rank ManualActionState.Pending = 0"
| "manual_rank Acknowledged = 1"
| "manual_rank ManualActionState.Completed = 2"
| "manual_rank ManualActionState.Skipped = 2"

text \<open>The state changes \<open>transition_operation_record\<close> lets through.\<close>

definition terminal_state :: "OperationState \<Rightarrow> bool" where
  "terminal_state s \<longleftrightarrow> s = OperationState.Completed \<or> s = OperationState.Skipped"

definition valid_operation_transition :: "OperationState \<Rightarrow> OperationState \<Rightarrow> bool" where
  "valid_operation_transition s t \<longleftrightarrow> terminal_state s \<longrightarrow> t = s"

interpretation approval: ranked_lifecycle valid_approval_transition
  "\<lambda>s. s = Approved \<or> s = Rejected" approval_rank
proof unfold_locales
  show "valid_approval_transition s s" for s by (cases s) auto
  show "t = s" if "s = Approved \<or> s = Rejected" "valid_approval_transition s t" for s t
    using that by auto
  show "approval_rank s < approval_rank t" if "valid_approval_transition s t" "t \<noteq> s" for s t
    using that by (cases s; cases t) auto
qed

interpretation manual: ranked_lifecycle valid_manual_action_transition
  "\<lambda>s. s = ManualActionState.Completed \<or> s = ManualActionState.Skipped" manual_rank
proof unfold_locales
  show "valid_manual_action_transition s s" for s by (cases s) auto
  show "t = s" if "s = ManualActionState.Completed \<or> s = ManualActionState.Skipped"
    "valid_manual_action_transition s t" for s t
    using that by auto
  show "manual_rank s < manual_rank t" if "valid_manual_action_transition s t" "t \<noteq> s" for s t
    using that by (cases s; cases t) auto
qed

interpretation operation_state: lifecycle valid_operation_transition terminal_state
  by unfold_locales (auto simp: valid_operation_transition_def)

subsection \<open>Monotone tables\<close>

text \<open>A table grows at its end, and each old row evolves in place.\<close>

definition table_extends :: "('r \<Rightarrow> 'r \<Rightarrow> bool) \<Rightarrow> 'r list \<Rightarrow> 'r list \<Rightarrow> bool" where
  "table_extends R xs ys \<longleftrightarrow> length xs \<le> length ys \<and> (\<forall>i < length xs. R (xs ! i) (ys ! i))"

locale row_evolution =
  fixes evolves :: "'r \<Rightarrow> 'r \<Rightarrow> bool"
  assumes evolves_refl: "evolves r r"
    and evolves_trans: "evolves r s \<Longrightarrow> evolves s t \<Longrightarrow> evolves r t"
begin

lemma table_refl: "table_extends evolves xs xs"
  by (simp add: table_extends_def evolves_refl)

lemma table_trans: "table_extends evolves xs ys \<Longrightarrow> table_extends evolves ys zs \<Longrightarrow> table_extends evolves xs zs"
  unfolding table_extends_def by (meson evolves_trans less_le_trans le_trans)

lemma table_insert: "table_extends evolves xs (xs @ [r])"
  by (simp add: table_extends_def evolves_refl nth_append)

lemma table_update:
  "(\<And>r. r \<in> set xs \<Longrightarrow> p r \<Longrightarrow> evolves r (f r)) \<Longrightarrow> table_extends evolves xs (map (\<lambda>r. if p r then f r else r) xs)"
  by (simp add: table_extends_def evolves_refl)

lemma table_row: "table_extends evolves xs ys \<Longrightarrow> r \<in> set xs \<Longrightarrow> \<exists>s \<in> set ys. evolves r s"
  unfolding table_extends_def by (metis in_set_conv_nth less_le_trans nth_mem)

end

definition run_evolves :: "JournalRun \<Rightarrow> JournalRun \<Rightarrow> bool" where
  "run_evolves r s \<longleftrightarrow>
     jr_id s = jr_id r \<and> jr_package_id s = jr_package_id r \<and> jr_mode s = jr_mode r
     \<and> jr_target_fingerprint s = jr_target_fingerprint r \<and> jr_created_at s = jr_created_at r
     \<and> valid_approval_transition (jr_approval_state r) (jr_approval_state s)
     \<and> (jr_approval_state r = Approved \<and> jr_approved_at r \<noteq> None \<longrightarrow> jr_approved_at s = jr_approved_at r)"

definition operation_evolves :: "RawOperation \<Rightarrow> RawOperation \<Rightarrow> bool" where
  "operation_evolves r s \<longleftrightarrow>
     ro_id s = ro_id r \<and> ro_run_id s = ro_run_id r \<and> ro_op_key s = ro_op_key r
     \<and> ro_component_id s = ro_component_id r \<and> ro_kind s = ro_kind r
     \<and> ro_requires_elevation s = ro_requires_elevation r \<and> ro_input_json s = ro_input_json r
     \<and> ro_attempt r \<le> ro_attempt s \<and> (terminal_state (ro_state r) \<longrightarrow> s = r)"

definition action_evolves :: "RawManualAction \<Rightarrow> RawManualAction \<Rightarrow> bool" where
  "action_evolves r s \<longleftrightarrow>
     rm_id s = rm_id r \<and> rm_run_id s = rm_run_id r \<and> rm_title s = rm_title r
     \<and> rm_reason s = rm_reason r \<and> rm_risk s = rm_risk r
     \<and> rm_instructions_json s = rm_instructions_json r
     \<and> valid_manual_action_transition\<^sup>*\<^sup>* (rm_state r) (rm_state s)
     \<and> (rm_acknowledged_at r \<noteq> None \<longrightarrow> rm_acknowledged_at s = rm_acknowledged_at r)"

lemma approval_trans:
  "valid_approval_transition a b \<Longrightarrow> valid_approval_transition b c \<Longrightarrow> valid_approval_transition a c"
  by (cases a; cases b) auto

interpretation runs: row_evolution run_evolves
  by unfold_locales
     (auto simp: run_evolves_def approval.valid_refl intro: approval_trans)

interpretation operations: row_evolution operation_evolves
  by unfold_locales (auto simp: operation_evolves_def)

interpretation actions: row_evolution action_evolves
  by unfold_locales (auto simp: action_evolves_def)

interpretation events: row_evolution "(=) :: RawEvent \<Rightarrow> RawEvent \<Rightarrow> bool"
  by unfold_locales auto

definition journal_evolves :: "journal \<Rightarrow> journal \<Rightarrow> bool" where
  "journal_evolves j k \<longleftrightarrow>
     table_extends run_evolves (db_runs j) (db_runs k)
     \<and> table_extends operation_evolves (db_operations j) (db_operations k)
     \<and> table_extends (=) (db_events j) (db_events k)
     \<and> table_extends action_evolves (db_manual_actions j) (db_manual_actions k)"

lemma journal_evolves_refl [simp]: "journal_evolves j j"
  by (simp add: journal_evolves_def runs.table_refl operations.table_refl events.table_refl
      actions.table_refl)

lemma journal_evolves_trans: "journal_evolves j k \<Longrightarrow> journal_evolves k l \<Longrightarrow> journal_evolves j l"
  unfolding journal_evolves_def
  by (meson runs.table_trans operations.table_trans events.table_trans actions.table_trans)

subsection \<open>The invariant\<close>

definition run_ok :: "JournalRun \<Rightarrow> bool" where
  "run_ok r \<longleftrightarrow> (jr_approval_state r = Approved \<longleftrightarrow> jr_approved_at r \<noteq> None)
     \<and> (jr_status r = RunStatus.Running \<longrightarrow> jr_approval_state r = Approved)"

definition operation_row_ok :: "RawOperation \<Rightarrow> bool" where
  "operation_row_ok r \<longleftrightarrow>
     ro_attempt r \<le> u32_max
     \<and> (ro_ended_at r = None \<longleftrightarrow> ro_state r \<in> {OperationState.Pending, OperationState.Running})
     \<and> (ro_state r = OperationState.Running \<longrightarrow>
          0 < ro_attempt r \<and> ro_started_at r \<noteq> None
          \<and> ro_result_json r = None \<and> ro_error_json r = None \<and> ro_backup_json r = None)"

definition run_ids :: "journal \<Rightarrow> RunId set" where
  "run_ids j = jr_id ` set (db_runs j)"

definition approved_ids :: "journal \<Rightarrow> RunId set" where
  "approved_ids j = jr_id ` {r \<in> set (db_runs j). jr_approval_state r = Approved}"

text \<open>
  Keys are unique, foreign keys hold, events are numbered without a gap, rows are consistent, and
  an operation that was ever started belongs to an approved run.
\<close>

definition journal_inv :: "journal \<Rightarrow> bool" where
  "journal_inv j \<longleftrightarrow>
     distinct (map jr_id (db_runs j)) \<and> distinct (map ro_id (db_operations j))
     \<and> distinct (map ro_op_key (db_operations j)) \<and> distinct (map rm_id (db_manual_actions j))
     \<and> ro_run_id ` set (db_operations j) \<subseteq> run_ids j \<and> re_run_id ` set (db_events j) \<subseteq> run_ids j
     \<and> rm_run_id ` set (db_manual_actions j) \<subseteq> run_ids j
     \<and> map re_seq (db_events j) = [1..<Suc (length (db_events j))] \<and> db_sequence j = length (db_events j)
     \<and> (\<forall>r \<in> set (db_runs j). run_ok r)
     \<and> (\<forall>r \<in> set (db_operations j). operation_row_ok r)
     \<and> (\<forall>r \<in> set (db_operations j). 0 < ro_attempt r \<longrightarrow> ro_run_id r \<in> approved_ids j)"

text \<open>What each statement has to guarantee; the relation composes along a transaction.\<close>

definition safe_step :: "journal \<Rightarrow> journal \<Rightarrow> bool" where
  "safe_step j k \<longleftrightarrow> (journal_inv j \<longrightarrow> journal_inv k \<and> journal_evolves j k)"

lemma safe_step_refl [simp]: "safe_step j j"
  by (simp add: safe_step_def)

lemma safe_step_trans [trans]: "safe_step j k \<Longrightarrow> safe_step k l \<Longrightarrow> safe_step j l"
  unfolding safe_step_def using journal_evolves_trans by blast

lemma safe_step_fold:
  assumes "try_fold f xs j = Inr k" and "\<And>x i l. f x i = Inr l \<Longrightarrow> safe_step i l"
  shows "safe_step j k"
  using assms(1)
proof (induction xs arbitrary: j)
  case (Cons x xs)
  then obtain l where "f x j = Inr l" "try_fold f xs l = Inr k" by (auto simp: result_simps)
  with Cons.IH assms(2) show ?case by (blast intro: safe_step_trans)
qed simp

lemma safe_commit:
  assumes "\<And>k. tx = Inr k \<Longrightarrow> safe_step j k"
  shows "safe_step j (snd (commit_then tx read j))"
  using assms by (cases tx) (auto simp: commit_then_def)

text \<open>Inserts.\<close>

lemma approved_ids_snoc: "approved_ids j \<subseteq> approved_ids (j\<lparr>db_runs := db_runs j @ [row]\<rparr>)"
  by (auto simp: approved_ids_def)

lemma safe_insert_run:
  assumes "insert_run env row j = Inr k" and "run_ok row"
  shows "safe_step j k"
proof -
  from assms(1) have k: "k = j\<lparr>db_runs := db_runs j @ [row]\<rparr>" and new: "jr_id row \<notin> jr_id ` set (db_runs j)"
    by (auto simp: insert_run_def split: if_splits)
  have "journal_evolves j k"
    unfolding k journal_evolves_def
    by (simp add: runs.table_insert operations.table_refl events.table_refl actions.table_refl)
  moreover have "journal_inv k" if "journal_inv j"
    using that new assms(2) approved_ids_snoc [of j row] unfolding k journal_inv_def
    by (auto simp: run_ids_def)
  ultimately show ?thesis by (simp add: safe_step_def)
qed

lemma safe_insert_operation:
  assumes "insert_operation env row j = Inr k" and "operation_row_ok row" "ro_attempt row = 0"
  shows "safe_step j k"
proof -
  from assms(1) have k: "k = j\<lparr>db_operations := db_operations j @ [row]\<rparr>"
    and new: "ro_id row \<notin> ro_id ` set (db_operations j)" "ro_op_key row \<notin> ro_op_key ` set (db_operations j)"
      "ro_run_id row \<in> jr_id ` set (db_runs j)"
    by (auto simp: insert_operation_def split: if_splits)
  have "journal_evolves j k"
    unfolding k journal_evolves_def
    by (simp add: operations.table_insert runs.table_refl events.table_refl actions.table_refl)
  moreover have "journal_inv k" if "journal_inv j"
    using that new assms(2,3) unfolding k journal_inv_def by (auto simp: run_ids_def approved_ids_def)
  ultimately show ?thesis by (simp add: safe_step_def)
qed

lemma safe_insert_manual_action:
  assumes "insert_manual_action env row j = Inr k"
  shows "safe_step j k"
proof -
  from assms(1) have k: "k = j\<lparr>db_manual_actions := db_manual_actions j @ [row]\<rparr>"
    and new: "rm_id row \<notin> rm_id ` set (db_manual_actions j)" "rm_run_id row \<in> jr_id ` set (db_runs j)"
    by (auto simp: insert_manual_action_def split: if_splits)
  have "journal_evolves j k"
    unfolding k journal_evolves_def
    by (simp add: operations.table_refl runs.table_refl events.table_refl actions.table_insert)
  moreover have "journal_inv k" if "journal_inv j"
    using that new unfolding k journal_inv_def by (auto simp: run_ids_def approved_ids_def)
  ultimately show ?thesis by (simp add: safe_step_def)
qed

lemma safe_insert_event:
  assumes "insert_event_tx env run_id level event_json now j = Inr (sequence, k)"
  shows "safe_step j k"
proof -
  from assms(1) obtain level' where k: "k = j\<lparr>db_events := db_events j @
      [\<lparr>re_seq = db_sequence j + 1, re_run_id = run_id, re_time = now, re_level = level',
        re_event_json = event_json\<rparr>], db_sequence := db_sequence j + 1\<rparr>"
    and new: "run_id \<in> jr_id ` set (db_runs j)"
    by (auto simp: insert_event_tx_def result_simps Let_def split: if_splits)
  have "journal_evolves j k"
    unfolding k journal_evolves_def
    by (simp add: operations.table_refl runs.table_refl events.table_insert actions.table_refl)
  moreover have "journal_inv k" if "journal_inv j"
    using that new unfolding k journal_inv_def by (auto simp: run_ids_def approved_ids_def)
  ultimately show ?thesis by (simp add: safe_step_def)
qed

lemma safe_log_event: "log_event env run_id level event context now j = Inr k \<Longrightarrow> safe_step j k"
  by (auto simp: log_event_def result_simps dest: safe_insert_event)

text \<open>Updates.\<close>

lemma update_ids:
  assumes "\<And>r. r \<in> set rows \<Longrightarrow> p r \<Longrightarrow> key (f r) = key r"
  shows "map key (map (\<lambda>r. if p r then f r else r) rows) = map key rows"
  using assms by auto

lemma safe_update_runs:
  assumes "\<And>r. journal_inv j \<Longrightarrow> r \<in> set (db_runs j) \<Longrightarrow> p r \<Longrightarrow> run_ok r \<Longrightarrow>
     run_evolves r (f r) \<and> run_ok (f r)"
  shows "safe_step j (update_runs p f j)"
  unfolding safe_step_def
proof
  assume inv: "journal_inv j"
  have ok: "run_evolves r (f r) \<and> run_ok (f r)" if "r \<in> set (db_runs j)" "p r" for r
    using assms that inv by (auto simp: journal_inv_def)
  let ?k = "update_runs p f j"
  have ids: "map jr_id (db_runs ?k) = map jr_id (db_runs j)"
    unfolding update_runs_def using ok by (simp add: run_evolves_def)
  then have run_ids: "run_ids ?k = run_ids j"
    unfolding run_ids_def by (metis list.set_map)
  have approved: "approved_ids j \<subseteq> approved_ids ?k"
  proof
    fix i assume "i \<in> approved_ids j"
    then obtain r where r: "r \<in> set (db_runs j)" "jr_approval_state r = Approved" "jr_id r = i"
      by (auto simp: approved_ids_def)
    let ?r = "if p r then f r else r"
    have "?r \<in> set (db_runs ?k)" using r(1) by (auto simp: update_runs_def)
    moreover have "jr_approval_state ?r = Approved" "jr_id ?r = i"
      using r ok [OF r(1)] by (auto simp: run_evolves_def)
    ultimately show "i \<in> approved_ids ?k" unfolding approved_ids_def by blast
  qed
  have "journal_evolves j ?k"
    using ok by (auto simp: journal_evolves_def update_runs_def operations.table_refl
        events.table_refl actions.table_refl intro: runs.table_update)
  moreover have "\<forall>r \<in> set (db_runs ?k). run_ok r"
    using ok inv by (auto simp: update_runs_def journal_inv_def)
  moreover have "db_operations ?k = db_operations j" "db_events ?k = db_events j"
    "db_manual_actions ?k = db_manual_actions j" "db_sequence ?k = db_sequence j"
    by (simp_all add: update_runs_def)
  ultimately show "journal_inv ?k \<and> journal_evolves j ?k"
    using inv ids run_ids approved unfolding journal_inv_def by auto
qed

lemma safe_update_operations:
  assumes "\<And>r. journal_inv j \<Longrightarrow> r \<in> set (db_operations j) \<Longrightarrow> p r \<Longrightarrow>
     operation_evolves r (f r) \<and> operation_row_ok (f r)
     \<and> (0 < ro_attempt (f r) \<longrightarrow> ro_run_id r \<in> approved_ids j)"
  shows "safe_step j (update_operations p f j)"
  unfolding safe_step_def
proof
  assume inv: "journal_inv j"
  note ok = assms [OF inv]
  let ?k = "update_operations p f j"
  have ids: "map ro_id (db_operations ?k) = map ro_id (db_operations j)"
    "map ro_op_key (db_operations ?k) = map ro_op_key (db_operations j)"
    "map ro_run_id (db_operations ?k) = map ro_run_id (db_operations j)"
    unfolding update_operations_def using ok by (simp_all add: operation_evolves_def)
  have rid: "ro_run_id ` set (db_operations ?k) = ro_run_id ` set (db_operations j)"
    using ids(3) by (metis list.set_map)
  have "journal_evolves j ?k"
    using ok by (auto simp: journal_evolves_def update_operations_def runs.table_refl
        events.table_refl actions.table_refl intro: operations.table_update)
  moreover have "\<forall>r \<in> set (db_operations ?k). operation_row_ok r"
    using ok inv by (auto simp: update_operations_def journal_inv_def)
  moreover have "\<forall>r \<in> set (db_operations ?k). 0 < ro_attempt r \<longrightarrow> ro_run_id r \<in> approved_ids ?k"
    using ok inv
    by (auto simp: update_operations_def journal_inv_def approved_ids_def operation_evolves_def)
  moreover have "db_runs ?k = db_runs j" "db_events ?k = db_events j"
    "db_manual_actions ?k = db_manual_actions j" "db_sequence ?k = db_sequence j"
    by (simp_all add: update_operations_def)
  ultimately show "journal_inv ?k \<and> journal_evolves j ?k"
    using inv ids(1,2) rid unfolding journal_inv_def run_ids_def by auto
qed

lemma safe_update_manual_actions:
  assumes "\<And>r. journal_inv j \<Longrightarrow> r \<in> set (db_manual_actions j) \<Longrightarrow> p r \<Longrightarrow> action_evolves r (f r)"
  shows "safe_step j (update_manual_actions p f j)"
  unfolding safe_step_def
proof
  assume inv: "journal_inv j"
  note ok = assms [OF inv]
  let ?k = "update_manual_actions p f j"
  have ids: "map rm_id (db_manual_actions ?k) = map rm_id (db_manual_actions j)"
    "map rm_run_id (db_manual_actions ?k) = map rm_run_id (db_manual_actions j)"
    unfolding update_manual_actions_def using ok by (simp_all add: action_evolves_def)
  have rid: "rm_run_id ` set (db_manual_actions ?k) = rm_run_id ` set (db_manual_actions j)"
    using ids(2) by (metis list.set_map)
  have "journal_evolves j ?k"
    using ok by (auto simp: journal_evolves_def update_manual_actions_def runs.table_refl
        events.table_refl operations.table_refl intro: actions.table_update)
  moreover have "db_runs ?k = db_runs j" "db_events ?k = db_events j"
    "db_operations ?k = db_operations j" "db_sequence ?k = db_sequence j"
    by (simp_all add: update_manual_actions_def)
  ultimately show "journal_inv ?k \<and> journal_evolves j ?k"
    using inv ids(1) rid unfolding journal_inv_def run_ids_def approved_ids_def by auto
qed

subsection \<open>Every write is safe\<close>

lemma find_unique:
  assumes "distinct (map key rows)" "find P rows = Some x" "r \<in> set rows" "key r = key x"
  shows "r = x"
  using assms by (auto simp: find_Some_iff in_set_conv_nth distinct_conv_nth)

lemma find_in: "find P rows = Some x \<Longrightarrow> x \<in> set rows \<and> P x"
  by (auto simp: find_Some_iff)

lemma find_run_unique:
  assumes "journal_inv j" "find_run j i = Some run" "r \<in> set (db_runs j)" "jr_id r = i"
  shows "r = run"
  using assms unfolding find_run_def journal_inv_def
  by (intro find_unique [where key = jr_id]) (auto dest: find_in)

lemma find_operation_unique:
  assumes "journal_inv j" "find_operation j i k = Some x" "r \<in> set (db_operations j)" "ro_id r = k"
  shows "r = x"
  using assms unfolding find_operation_def journal_inv_def
  by (intro find_unique [where key = ro_id]) (auto dest: find_in)

lemma find_action_unique:
  assumes "journal_inv j" "find_manual_action j i k = Some x" "r \<in> set (db_manual_actions j)" "rm_id r = k"
  shows "r = x"
  using assms unfolding find_manual_action_def journal_inv_def
  by (intro find_unique [where key = rm_id]) (auto dest: find_in)

lemma plan_operation_row_ok:
  assumes "try_fold (plan_operation_row env run_id) ops acc = Inr acc'"
    and "\<forall>r \<in> set (snd (snd acc)). operation_row_ok r \<and> ro_attempt r = 0 \<and> ro_state r = OperationState.Pending"
  shows "\<forall>r \<in> set (snd (snd acc')). operation_row_ok r \<and> ro_attempt r = 0 \<and> ro_state r = OperationState.Pending"
  using assms
proof (induction ops arbitrary: acc)
  case (Cons x ops)
  then obtain b where b: "plan_operation_row env run_id x acc = Inr b"
    "try_fold (plan_operation_row env run_id) ops b = Inr acc'" by (auto simp: result_simps)
  have "\<forall>r \<in> set (snd (snd b)). operation_row_ok r \<and> ro_attempt r = 0 \<and> ro_state r = OperationState.Pending"
    using b(1) Cons.prems(2)
    by (auto simp: plan_operation_row_def result_simps operation_row_ok_def split: if_splits prod.splits)
  with Cons.IH [OF b(2)] show ?case .
qed simp

lemma safe_insert_operations:
  assumes "try_fold (insert_operation env) rows j = Inr k"
    and "\<forall>r \<in> set rows. operation_row_ok r \<and> ro_attempt r = 0"
  shows "safe_step j k"
  using assms
proof (induction rows arbitrary: j)
  case (Cons r rows)
  then obtain l where "insert_operation env r j = Inr l" "try_fold (insert_operation env) rows l = Inr k"
    by (auto simp: result_simps)
  with Cons show ?case by (auto intro: safe_step_trans safe_insert_operation)
qed simp

lemma create_run_columns_ok:
  assumes "create_run_columns env plan = Inr (package_id, target_fingerprint, operations, actions)"
  shows "\<forall>r \<in> set operations. operation_row_ok r \<and> ro_attempt r = 0 \<and> ro_state r = OperationState.Pending"
proof -
  from assms obtain a b where "try_fold (plan_operation_row env (rp_run_id plan)) (rp_operations plan) ({}, {}, [])
      = Inr (a, b, operations)"
    by (auto simp: create_run_columns_def result_simps split: prod.splits)
  from plan_operation_row_ok [OF this] show ?thesis by simp
qed

lemma safe_create_run_tx:
  assumes "create_run_tx env plan row operations actions now j = Inr k" "run_ok row"
    and "\<forall>r \<in> set operations. operation_row_ok r \<and> ro_attempt r = 0 \<and> ro_state r = OperationState.Pending"
  shows "safe_step j k"
proof -
  from assms(1) obtain j1 j2 j3 i event_json sequence where run: "insert_run env row j = Inr j1"
    and ops: "try_fold (insert_operation env) operations j1 = Inr j2"
    and acts: "try_fold (insert_manual_action env) actions j2 = Inr j3"
    and ev: "insert_event_tx env i ''INFO'' event_json now j3 = Inr (sequence, k)"
    by (auto simp: create_run_tx_def result_simps)
  note safe_insert_run [OF run assms(2)]
  also have "safe_step j1 j2" using safe_insert_operations [OF ops] assms(3) by blast
  also note safe_step_fold [OF acts safe_insert_manual_action]
  also note safe_insert_event [OF ev]
  finally show ?thesis .
qed

lemma safe_create_run: "safe_step j (snd (create_run_record env plan now j))"
proof (cases "create_run_columns env plan")
  case (Inr c)
  obtain p t ops acts where c: "c = (p, t, ops, acts)" by (metis prod_cases4)
  have "run_ok (new_run plan p t now)" by (simp add: new_run_def run_ok_def)
  with Inr c show ?thesis
    using safe_create_run_tx create_run_columns_ok
    by (auto simp: create_run_record_def Let_def intro!: safe_commit)
qed (simp add: create_run_record_def)

lemma safe_set_approval: "safe_step j (snd (set_approval_record env run_id state now j))"
  unfolding set_approval_record_def
proof (rule safe_commit)
  fix k
  assume "set_approval_tx env run_id state now j = Inr k"
  then obtain run t event where find: "find_run j run_id = Some run"
    and valid: "valid_approval_transition (jr_approval_state run) state"
    and t: "t = (if state = Approved
                 then (case jr_approved_at run of Some t \<Rightarrow> Some t | None \<Rightarrow> Some now) else None)"
    and log: "log_event env run_id ''INFO'' event ''approval event'' now
      (update_runs (\<lambda>r. jr_id r = run_id)
        (\<lambda>r. r\<lparr>jr_approval_state := state, jr_approved_at := t, jr_updated_at := now\<rparr>) j) = Inr k"
    by (auto simp: set_approval_tx_def Let_def split: option.splits if_splits)
  have "safe_step j (update_runs (\<lambda>r. jr_id r = run_id)
        (\<lambda>r. r\<lparr>jr_approval_state := state, jr_approved_at := t, jr_updated_at := now\<rparr>) j)"
  proof (rule safe_update_runs)
    fix r assume "journal_inv j" "r \<in> set (db_runs j)" "jr_id r = run_id" "run_ok r"
    with find find_run_unique have "r = run" by blast
    with \<open>run_ok r\<close> valid show "run_evolves r (r\<lparr>jr_approval_state := state, jr_approved_at := t, jr_updated_at := now\<rparr>)
       \<and> run_ok (r\<lparr>jr_approval_state := state, jr_approved_at := t, jr_updated_at := now\<rparr>)"
      by (auto simp: run_evolves_def run_ok_def t split: option.splits)
  qed
  with safe_log_event [OF log] show "safe_step j k" by (rule safe_step_trans [rotated])
qed

lemma safe_set_run_status: "safe_step j (snd (set_run_status_record env run_id status now j))"
  unfolding set_run_status_record_def
proof (rule safe_commit)
  fix k
  let ?f = "\<lambda>r. r\<lparr>jr_status := status, jr_updated_at := now\<rparr>"
  assume "set_run_status_tx env run_id status now j = Inr k"
  then obtain run event where find: "find_run j run_id = Some run"
    and ok: "status = RunStatus.Running \<longrightarrow> jr_approval_state run = Approved"
    and log: "log_event env run_id ''INFO'' event ''run status event'' now
      (update_runs (\<lambda>r. jr_id r = run_id) ?f j) = Inr k"
    by (auto simp: set_run_status_tx_def split: option.splits if_splits)
  have "safe_step j (update_runs (\<lambda>r. jr_id r = run_id) ?f j)"
  proof (rule safe_update_runs)
    fix r assume "journal_inv j" "r \<in> set (db_runs j)" "jr_id r = run_id" "run_ok r"
    with find find_run_unique have "r = run" by blast
    with \<open>run_ok r\<close> ok show "run_evolves r (?f r) \<and> run_ok (?f r)"
      by (auto simp: run_evolves_def run_ok_def approval.valid_refl)
  qed
  with safe_log_event [OF log] show "safe_step j k" by (rule safe_step_trans [rotated])
qed

text \<open>What a transition makes of a row that is not terminal.\<close>

lemma transition_row_ok:
  assumes "transition_row state result_json error_json backup_json now r = Inr r'"
    and "\<not> terminal_state (ro_state r)" "operation_row_ok r"
  shows "operation_evolves r r' \<and> operation_row_ok r' \<and> ro_state r' = state
    \<and> ro_attempt r' = (if state = OperationState.Running then ro_attempt r + 1 else ro_attempt r)"
  using assms
  by (auto simp: transition_row_def operation_evolves_def operation_row_ok_def result_simps split: if_splits)

lemma approved_ids_find: "find_run j i = Some run \<Longrightarrow> jr_approval_state run = Approved \<Longrightarrow> i \<in> approved_ids j"
  by (auto simp: find_run_def approved_ids_def dest!: find_in)

lemma safe_transition_tx:
  assumes tx: "transition_operation_tx env run_id operation_id state result_json error_json backup_json r now j = Inr k"
    and find: "find_operation j run_id operation_id = Some r" "find_run j run_id = Some run"
    and live: "\<not> terminal_state (ro_state r)"
    and approved: "state = OperationState.Running \<Longrightarrow> jr_approval_state run = Approved"
  shows "safe_step j k"
proof -
  from tx obtain r' j1 j2 event where row: "transition_row state result_json error_json backup_json now r = Inr r'"
    and j1: "j1 = update_operations (\<lambda>x. ro_id x = operation_id \<and> ro_run_id x = run_id) (\<lambda>_. r') j"
    and j2: "j2 = (if state = OperationState.Running
               then update_runs (\<lambda>x. jr_id x = run_id \<and> startable_status (jr_status x))
                      (\<lambda>x. x\<lparr>jr_status := RunStatus.Running, jr_updated_at := now\<rparr>) j1
               else j1)"
    and log: "log_event env run_id ''INFO'' event ''operation state event'' now j2 = Inr k"
    by (auto simp: transition_operation_tx_def result_simps Let_def)
  have s1: "safe_step j j1"
    unfolding j1
  proof (rule safe_update_operations)
    fix x assume inv: "journal_inv j" and x: "x \<in> set (db_operations j)" "ro_id x = operation_id \<and> ro_run_id x = run_id"
    then have xr: "x = r" using find_operation_unique [OF inv find(1)] by blast
    have ok: "operation_row_ok r" "0 < ro_attempt r \<longrightarrow> ro_run_id r \<in> approved_ids j"
      using inv x xr by (auto simp: journal_inv_def)
    have run: "ro_run_id r \<in> approved_ids j" if "state = OperationState.Running"
      using approved_ids_find [OF find(2) approved [OF that]] x xr by simp
    from transition_row_ok [OF row live ok(1)] ok(2) run
    show "operation_evolves x r' \<and> operation_row_ok r' \<and> (0 < ro_attempt r' \<longrightarrow> ro_run_id x \<in> approved_ids j)"
      by (auto simp: xr split: if_splits)
  qed
  have s2: "safe_step j1 j2"
  proof (cases "state = OperationState.Running")
    case True
    have "find_run j1 run_id = Some run" using find(2) by (simp add: j1 update_operations_def find_run_def)
    with True approved show ?thesis
      unfolding j2
      by (auto intro!: safe_update_runs dest!: find_run_unique
          simp: run_evolves_def run_ok_def approval.valid_refl)
  qed (simp add: j2)
  note s1
  also note s2
  also note safe_log_event [OF log]
  finally show ?thesis .
qed

lemma safe_transition_record:
  "safe_step j (snd (transition_operation_record env run_id operation_id state result_json error_json backup_json now j))"
  by (auto simp: transition_operation_record_def terminal_state_def split: option.splits
      intro!: safe_commit safe_transition_tx)

lemma safe_transition: "safe_step j (snd (transition_operation env run_id operation_id state result error backup now j))"
  by (auto simp: transition_operation_def safe_transition_record split: sum.splits)

lemma safe_append_event: "safe_step j (snd (append_event env run_id level event now j))"
  by (auto simp: append_event_def result_simps split: sum.splits dest: safe_insert_event)

lemma safe_add_manual_action: "safe_step j (snd (add_manual_action_record env run_id action now j))"
  by (auto simp: add_manual_action_record_def result_simps split: sum.splits intro!: safe_commit
      dest!: safe_insert_manual_action safe_log_event intro: safe_step_trans)

lemma safe_set_manual_action: "safe_step j (snd (set_manual_action_state_record env run_id action_id state now j))"
  unfolding set_manual_action_state_record_def
proof (rule safe_commit)
  fix k
  assume "set_manual_action_state_tx env run_id action_id state now j = Inr k"
  then obtain action t event where find: "find_manual_action j run_id action_id = Some action"
    and valid: "valid_manual_action_transition (rm_state action) state"
    and t: "rm_acknowledged_at action \<noteq> None \<longrightarrow> t = rm_acknowledged_at action"
    and log: "log_event env run_id ''INFO'' event ''manual-action state event'' now
      (update_manual_actions (\<lambda>r. rm_id r = action_id \<and> rm_run_id r = run_id)
        (\<lambda>r. r\<lparr>rm_state := state, rm_acknowledged_at := t\<rparr>) j) = Inr k"
    by (auto simp: set_manual_action_state_tx_def Let_def split: option.splits if_splits)
  have "safe_step j (update_manual_actions (\<lambda>r. rm_id r = action_id \<and> rm_run_id r = run_id)
        (\<lambda>r. r\<lparr>rm_state := state, rm_acknowledged_at := t\<rparr>) j)"
    using find_action_unique [OF _ find] valid t
    by (intro safe_update_manual_actions) (auto simp: action_evolves_def)
  with safe_log_event [OF log] show "safe_step j k" by (rule safe_step_trans [rotated])
qed

lemma safe_set_manual_action_state: "safe_step j (snd (set_manual_action_state env run_id action_id state now j))"
  by (auto simp: set_manual_action_state_def safe_set_manual_action split: sum.splits)

lemmas safe_writes = safe_create_run safe_set_approval safe_set_run_status safe_transition
  safe_append_event safe_add_manual_action safe_set_manual_action_state

lemma safe_run_job: "safe_step j (run_job env job now j)"
  by (cases job) (simp_all add: safe_writes)

lemma safe_recover_run: "recover_run env now run_id j = Inr k \<Longrightarrow> safe_step j k"
proof -
  assume "recover_run env now run_id j = Inr k"
  then obtain i event_json sequence where ev: "insert_event_tx env i ''WARN'' event_json now
      (update_runs (\<lambda>r. jr_id r = run_id) (\<lambda>r. r\<lparr>jr_status := RunStatus.Interrupted, jr_updated_at := now\<rparr>) j)
      = Inr (sequence, k)"
    by (auto simp: recover_run_def result_simps Let_def split: sum.splits)
  have "safe_step j (update_runs (\<lambda>r. jr_id r = run_id)
      (\<lambda>r. r\<lparr>jr_status := RunStatus.Interrupted, jr_updated_at := now\<rparr>) j)"
    by (intro safe_update_runs) (auto simp: run_evolves_def run_ok_def approval.valid_refl)
  with safe_insert_event [OF ev] show ?thesis by (rule safe_step_trans [rotated])
qed

lemma safe_recover: "safe_step j (snd (recover_running_operations env now j))"
  unfolding recover_running_operations_def Let_def
proof (rule safe_commit)
  fix k
  let ?j1 = "update_operations (\<lambda>r. ro_state r = OperationState.Running)
                 (\<lambda>r. r\<lparr>ro_state := OperationState.Interrupted, ro_ended_at := Some now\<rparr>) j"
  let ?j2 = "update_runs (\<lambda>r. jr_status r = RunStatus.Running)
                 (\<lambda>r. r\<lparr>jr_status := RunStatus.Interrupted, jr_updated_at := now\<rparr>) ?j1"
  assume fold: "try_fold (recover_run env now) (recovery_run_ids j) ?j2 = Inr k"
  have "safe_step j ?j1"
    by (intro safe_update_operations)
       (auto simp: operation_evolves_def operation_row_ok_def journal_inv_def terminal_state_def)
  also have "safe_step ?j1 ?j2"
    by (intro safe_update_runs) (auto simp: run_evolves_def run_ok_def approval.valid_refl)
  also have "safe_step ?j2 k"
    by (rule safe_step_fold [OF fold]) (rule safe_recover_run)
  finally show "safe_step j k" .
qed

subsection \<open>Histories\<close>

inductive journal_step :: "journal_env \<Rightarrow> journal \<Rightarrow> journal \<Rightarrow> bool" for env where
  journal_write: "journal_step env j (run_job env job now j)"
| journal_reopen: "recover_running_operations env now j = (Inr (), k) \<Longrightarrow> journal_step env j k"

inductive_cases journal_stepE: "journal_step env j k"

lemma safe_journal_step: "journal_step env j k \<Longrightarrow> safe_step j k"
proof (erule journal_stepE)
  fix job now assume "k = run_job env job now j"
  then show ?thesis by (simp add: safe_run_job)
next
  fix now assume "recover_running_operations env now j = (Inr (), k)"
  then show ?thesis using safe_recover [of j env now] by simp
qed

lemma safe_history: "(journal_step env)\<^sup>*\<^sup>* j k \<Longrightarrow> safe_step j k"
  by (induction rule: rtranclp_induct) (auto intro: safe_step_trans safe_journal_step)

lemma empty_journal_inv: "journal_inv empty_journal"
  by (simp add: journal_inv_def empty_journal_def run_ids_def)

lemma writer_history: "(journal_step env)\<^sup>*\<^sup>* j (writer_loop env commands j)"
proof (induction env commands j rule: writer_loop.induct)
  case (3 env job now commands j)
  then show ?case using journal_write [of env j job now] by (simp add: converse_rtranclp_into_rtranclp)
qed simp_all

lemma reachable_inv: "(journal_step env)\<^sup>*\<^sup>* empty_journal j \<Longrightarrow> journal_inv j"
  using safe_history empty_journal_inv by (auto simp: safe_step_def)

lemma reachable_evolves:
  "(journal_step env)\<^sup>*\<^sup>* empty_journal j \<Longrightarrow> (journal_step env)\<^sup>*\<^sup>* j k \<Longrightarrow> journal_evolves j k"
  using safe_history reachable_inv by (auto simp: safe_step_def)

lemma table_eq_prefix: "table_extends (=) xs ys \<Longrightarrow> take (length xs) ys = xs"
  by (auto simp: table_extends_def intro: nth_equalityI)

subsection \<open>What recovery does\<close>



lemma run_ids_map:
  assumes "\<And>r. p r \<Longrightarrow> jr_id (f r) = jr_id r"
  shows "jr_id ` set (map (\<lambda>r. if p r then f r else r) rows) = jr_id ` set rows"
proof -
  have "map jr_id (map (\<lambda>r. if p r then f r else r) rows) = map jr_id rows"
    by (rule update_ids) (rule assms)
  then show ?thesis by (metis list.set_map)
qed

lemma run_ids_update:
  "(\<And>r. p r \<Longrightarrow> jr_id (f r) = jr_id r) \<Longrightarrow> run_ids (update_runs p f j) = run_ids j"
  unfolding run_ids_def update_runs_def using run_ids_map [of p f "db_runs j"] by simp





subsection \<open>The journal's own events pass the redactor\<close>



subsection \<open>A sample history\<close>

definition sample_env :: journal_env where
  "sample_env =
     \<lparr>je_uuid_parse = (\<lambda>s. Some (7, s)), je_to_string = (\<lambda>_. Some ''{}''), je_from_str = (\<lambda>_. None),
      je_operation_value = (\<lambda>_. Some Null), je_value_operation = (\<lambda>_. None),
      je_error_value = (\<lambda>_. Some Null), je_value_error = (\<lambda>_. None), je_sqlite = (\<lambda>c. c)\<rparr>"

definition sample_jobs :: "WriterCommand list" where
  "sample_jobs =
     [Job (CreateRun (sample_plan [sample_operation ''a'' []])) 1,
      Job (SetApproval ''run'' Approved) 2,
      Job (TransitionOperation ''run'' ''a'' OperationState.Running None None None) 3]"

definition sample_run :: JournalRun where
  "sample_run =
     \<lparr>jr_id = ''run'', jr_package_id = ''pkg'', jr_mode = Rebuild, jr_target_fingerprint = ''fp'',
      jr_status = Planned, jr_approval_state = ApprovalState.Pending, jr_approved_at = None,
      jr_created_at = 1, jr_updated_at = 1\<rparr>"

definition sample_row :: RawOperation where
  "sample_row =
     \<lparr>ro_id = ''a'', ro_run_id = ''run'', ro_op_key = ''key:a'', ro_component_id = ''cmp'',
      ro_kind = ''REQUIRE_REBOOT'', ro_state = OperationState.Pending, ro_attempt = 0,
      ro_requires_elevation = False, ro_started_at = None, ro_ended_at = None,
      ro_input_json = ''{}'', ro_result_json = None, ro_error_json = None, ro_backup_json = None\<rparr>"

definition sample_event :: "nat \<Rightarrow> RawEvent" where
  "sample_event n = \<lparr>re_seq = n, re_run_id = ''run'', re_time = n, re_level = ''INFO'', re_event_json = ''{}''\<rparr>"

definition sample_started :: journal where
  "sample_started =
     \<lparr>db_runs = [sample_run\<lparr>jr_status := RunStatus.Running, jr_approval_state := Approved,
                            jr_approved_at := Some 2, jr_updated_at := 3\<rparr>],
      db_operations = [sample_row\<lparr>ro_state := OperationState.Running, ro_attempt := 1, ro_started_at := Some 3\<rparr>],
      db_events = [sample_event 1, sample_event 2, sample_event 3], db_manual_actions = [], db_sequence = 3\<rparr>"

lemma sample_words:
  "word ''a''" "word ''pkg''" "word ''fp''" "word ''run_created''" "word ''APPROVED''" "word ''approval_state''"
  "word ''RUNNING''" "word ''operation_state''" "word ''COMPLETED''"
  by (simp_all add: word_simps)

lemma sample_keys: "public_key ''type''" "public_key ''state''" "public_key ''attempt''" "public_key ''operation_id''"
  by (simp_all add: public_key_simps)

lemma sample_json:
  "redact_json_value default_policy 0 v = Some v' \<Longrightarrow> safe_json_text sample_env v c = Inr ''{}''"
  by (simp add: safe_json_text_def redact_json_def sample_env_def default_policy_def DEFAULT_MAX_REDACTED_BYTES_def)

lemma sample_object:
  "\<forall>(key, v) \<in> set kvs. public_key key \<and> redact_json_value default_policy 1 v = Some v \<Longrightarrow>
   safe_json_text sample_env (Object kvs) c = Inr ''{}''"
  by (rule sample_json) (rule redact_json_public)

lemma sample_texts:
  "bounded_safe_text ''pkg'' MAX_RUN_TEXT_BYTES c = Inr ''pkg''"
  "bounded_safe_text ''fp'' MAX_RUN_TEXT_BYTES c = Inr ''fp''"
  "bounded_text ''key:a'' MAX_OPERATION_KEY_BYTES c = Inr ''key:a''"
  "bounded_text ''INFO'' MAX_EVENT_LEVEL_BYTES c = Inr ''INFO''"
  "safe_json_text sample_env Null c = Inr ''{}''"
  using sample_json [of Null Null c]
  by (simp_all add: bounded_safe_text_def safe_text_def redact_word sample_words bounded_text_def
      MAX_RUN_TEXT_BYTES_def MAX_OPERATION_KEY_BYTES_def MAX_EVENT_LEVEL_BYTES_def redact_json_value_unfold)

lemma sample_created:
  "run_job sample_env (CreateRun (sample_plan [sample_operation ''a'' []])) 1 empty_journal
   = \<lparr>db_runs = [sample_run], db_operations = [sample_row], db_events = [sample_event 1],
      db_manual_actions = [], db_sequence = 1\<rparr>"
proof -
  define plan where "plan = sample_plan [sample_operation ''a'' []]"
  have plan: "rp_run_id plan = ''run''" "rp_mode plan = Rebuild" by (simp_all add: plan_def sample_plan_def)
  have env: "je_operation_value sample_env = (\<lambda>_. Some Null)" "je_uuid_parse sample_env = (\<lambda>s. Some (7, s))"
    by (simp_all add: sample_env_def)
  have ev: "safe_json_text sample_env (Object [(''type'', String ''run_created'')]) c = Inr ''{}''" for c
    by (rule sample_object) (simp add: sample_keys sample_words redact_json_word)
  have cols: "create_run_columns sample_env plan = Inr (''pkg'', ''fp'', [sample_row], [])"
    by (simp add: plan_def create_run_columns_def sample_plan_def sample_operation_def sample_texts
        plan_operation_row_def env sample_row_def)
  show ?thesis
    unfolding plan_def [symmetric]
    by (simp add: create_run_record_def cols Let_def create_run_tx_def insert_run_def insert_operation_def
        empty_journal_def new_run_def sample_row_def plan_run_id_def RunId_try_from_def plan
        RunId_new_def env ev insert_event_tx_def sample_texts sample_event_def sample_run_def
        commit_then_def)
qed

lemma sample_approved:
  "run_job sample_env (SetApproval ''run'' Approved) 2
     \<lparr>db_runs = [sample_run], db_operations = [sample_row], db_events = [sample_event 1],
      db_manual_actions = [], db_sequence = 1\<rparr>
   = \<lparr>db_runs = [sample_run\<lparr>jr_approval_state := Approved, jr_approved_at := Some 2, jr_updated_at := 2\<rparr>],
      db_operations = [sample_row], db_events = [sample_event 1, sample_event 2],
      db_manual_actions = [], db_sequence = 2\<rparr>"
proof -
  have "safe_json_text sample_env (Object [(''state'', String ''APPROVED''), (''type'', String ''approval_state'')]) c
      = Inr ''{}''" for c
    by (rule sample_object) (simp add: sample_keys sample_words redact_json_word)
  then show ?thesis
    by (simp add: set_approval_record_def set_approval_tx_def find_run_def sample_run_def update_runs_def
        log_event_def insert_event_tx_def sample_texts commit_then_def sample_event_def)
qed

lemma sample_running:
  "run_job sample_env (TransitionOperation ''run'' ''a'' OperationState.Running None None None) 3
     \<lparr>db_runs = [sample_run\<lparr>jr_approval_state := Approved, jr_approved_at := Some 2, jr_updated_at := 2\<rparr>],
      db_operations = [sample_row], db_events = [sample_event 1, sample_event 2],
      db_manual_actions = [], db_sequence = 2\<rparr>
   = sample_started"
proof -
  have "safe_json_text sample_env (Object [(''attempt'', Number 1), (''operation_id'', String ''a''),
        (''state'', String ''RUNNING''), (''type'', String ''operation_state'')]) c = Inr ''{}''" for c
    by (rule sample_object) (simp add: sample_keys sample_words redact_json_word redact_json_number)
  then show ?thesis
    by (simp add: transition_operation_def transpose_map_def transition_operation_record_def
        transition_operation_tx_def transition_row_def checked_add_u32_def u32_max_def startable_status_def
        find_run_def find_operation_def sample_run_def sample_row_def update_runs_def update_operations_def
        log_event_def insert_event_tx_def sample_texts commit_then_def sample_event_def sample_started_def)
qed

lemma sample_writer: "writer_loop sample_env sample_jobs empty_journal = sample_started"
  by (simp only: sample_jobs_def writer_loop.simps sample_created sample_approved sample_running)

lemma sample_reachable: "(journal_step sample_env)\<^sup>*\<^sup>* empty_journal sample_started"
  using writer_history [of sample_env empty_journal sample_jobs] unfolding sample_writer .

subsection \<open>Starting an operation\<close>

lemma find_operation_update:
  assumes "\<forall>r \<in> set rows. ro_id (f r) = ro_id r \<and> ro_run_id (f r) = ro_run_id r"
  shows "find (\<lambda>r. ro_id r = i \<and> ro_run_id r = k) (map (\<lambda>r. if p r then f r else r) rows)
    = map_option (\<lambda>r. if p r then f r else r) (find (\<lambda>r. ro_id r = i \<and> ro_run_id r = k) rows)"
  using assms by (induction rows) auto

lemma log_event_operations: "log_event env i level event c now j = Inr k \<Longrightarrow> db_operations k = db_operations j"
  by (auto simp: log_event_def insert_event_tx_def result_simps Let_def split: if_splits)

lemma log_event_ok:
  assumes "safe_json_text env event c = Inr t" "i \<in> run_ids j"
  shows "\<exists>k. log_event env i ''INFO'' event c now j = Inr k"
  using assms by (auto simp: log_event_def insert_event_tx_def run_ids_def bounded_text_def MAX_EVENT_LEVEL_BYTES_def Let_def)

definition started_row :: "DateTime \<Rightarrow> RawOperation \<Rightarrow> RawOperation" where
  "started_row now r = r\<lparr>ro_state := OperationState.Running, ro_attempt := ro_attempt r + 1,
     ro_started_at := Some now, ro_ended_at := None, ro_result_json := None, ro_error_json := None,
     ro_backup_json := None\<rparr>"

definition started_event :: "OperationId \<Rightarrow> nat \<Rightarrow> Value" where
  "started_event operation_id attempt =
     Object [(''attempt'', Number (int attempt)), (''operation_id'', String operation_id),
             (''state'', String ''RUNNING''), (''type'', String ''operation_state'')]"

lemma run_ids_find: "find_run j i = Some run \<Longrightarrow> i \<in> run_ids j"
  by (auto simp: find_run_def run_ids_def dest!: find_in)

lemma start_tx_ok:
  assumes inv: "journal_inv j"
    and find: "find_operation j run_id operation_id = Some r" "find_run j run_id = Some run"
    and attempt: "ro_attempt r < u32_max"
    and ser: "safe_json_text env (started_event operation_id (ro_attempt r + 1)) ''operation state event'' = Inr t"
  shows "\<exists>k. transition_operation_tx env run_id operation_id OperationState.Running None None None r now j = Inr k
    \<and> (\<forall>i. find_operation k run_id i =
        (if i = operation_id then Some (started_row now r) else find_operation j run_id i))"
proof -
  let ?j1 = "update_operations (\<lambda>x. ro_id x = operation_id \<and> ro_run_id x = run_id) (\<lambda>_. started_row now r) j"
  let ?j2 = "update_runs (\<lambda>x. jr_id x = run_id \<and> startable_status (jr_status x))
                      (\<lambda>x. x\<lparr>jr_status := RunStatus.Running, jr_updated_at := now\<rparr>) ?j1"
  have row: "transition_row OperationState.Running None None None now r = Inr (started_row now r)"
    using attempt by (simp add: transition_row_def checked_add_u32_def started_row_def)
  have "run_ids ?j2 = run_ids j"
    by (subst run_ids_update) (simp_all add: run_ids_def update_operations_def)
  then have mem: "run_id \<in> run_ids ?j2" using run_ids_find [OF find(2)] by simp
  obtain k where k: "log_event env run_id ''INFO'' (started_event operation_id (ro_attempt r + 1))
      ''operation state event'' now ?j2 = Inr k"
    using log_event_ok [OF ser mem] by (rule exE)
  have tx: "transition_operation_tx env run_id operation_id OperationState.Running None None None r now j = Inr k"
    using k by (simp add: transition_operation_tx_def row started_event_def Let_def) (simp add: started_row_def)
  have r: "r \<in> set (db_operations j)" "ro_id r = operation_id" "ro_run_id r = run_id"
    using find(1) by (auto simp: find_operation_def dest!: find_in)
  have ops: "db_operations k = map (\<lambda>x. if ro_id x = operation_id \<and> ro_run_id x = run_id then started_row now r else x)
      (db_operations j)"
    using log_event_operations [OF k] by (simp add: update_runs_def update_operations_def)
  also have "\<dots> = map (\<lambda>x. if ro_id x = operation_id \<and> ro_run_id x = run_id then started_row now x else x) (db_operations j)"
    using find_operation_unique [OF inv find(1)] by auto
  finally have ops: "db_operations k = map (\<lambda>x. if ro_id x = operation_id \<and> ro_run_id x = run_id
      then started_row now x else x) (db_operations j)" .
  have upd: "find_operation k run_id i = map_option (\<lambda>x. if ro_id x = operation_id \<and> ro_run_id x = run_id
      then started_row now x else x) (find_operation j run_id i)" for i
    unfolding find_operation_def ops by (rule find_operation_update) (simp add: started_row_def)
  have "find_operation k run_id i = (if i = operation_id then Some (started_row now r) else find_operation j run_id i)" for i
  proof (cases "find_operation j run_id i")
    case None
    then show ?thesis using upd [of i] find(1) by auto
  next
    case (Some x)
    then have "ro_id x = i" "ro_run_id x = run_id" by (auto simp: find_operation_def dest!: find_in)
    then show ?thesis using upd [of i] Some find(1) by auto
  qed
  with tx show ?thesis by blast
qed

subsection \<open>Properties\<close>

text \<open>C13. The journal's invariant holds after every history: any sequence of writes of the public
  interface, any crash followed by a reopening with recovery, and then any queue of commands the
  writer thread still processes. Keys are unique (run ids, operation ids, operation keys across
  all runs, action ids), foreign keys hold, events are numbered consecutively, an approved run
  has its approval time, and every operation that was ever started belongs to an approved run.\<close>

theorem journal_invariant:
  assumes "(journal_step env)\<^sup>*\<^sup>* empty_journal j"
  shows "journal_inv (writer_loop env commands j)"
  using reachable_inv [OF rtranclp_trans [OF assms writer_history]] .

theorem journal_invariant_witness: "journal_inv (writer_loop sample_env [Shutdown] sample_started)"
  by (rule journal_invariant) (rule sample_reachable)

text \<open>C4. No operation starts without approval: in every reachable journal an operation whose attempt
  counter is positive, in particular one that is running now, belongs to a run whose approval
  state is \<^verbatim>\<open>APPROVED\<close> and whose approval time is recorded.\<close>

theorem no_start_without_approval:
  assumes "(journal_step env)\<^sup>*\<^sup>* empty_journal j" "r \<in> set (db_operations j)"
    and "0 < ro_attempt r \<or> ro_state r = OperationState.Running"
  shows "\<exists>run \<in> set (db_runs j). jr_id run = ro_run_id r \<and> jr_approval_state run = Approved
    \<and> jr_approved_at run \<noteq> None"
proof -
  have inv: "journal_inv j" by (rule reachable_inv [OF assms(1)])
  then have "0 < ro_attempt r" using assms(2,3) by (auto simp: journal_inv_def operation_row_ok_def)
  with inv assms(2) have "ro_run_id r \<in> approved_ids j" by (simp add: journal_inv_def)
  then show ?thesis using inv by (auto simp: approved_ids_def journal_inv_def run_ok_def)
qed

theorem no_start_without_approval_witness:
  "\<exists>run \<in> set (db_runs sample_started). jr_id run = ''run'' \<and> jr_approval_state run = Approved
    \<and> jr_approved_at run \<noteq> None"
  using no_start_without_approval [OF sample_reachable,
      of "sample_row\<lparr>ro_state := OperationState.Running, ro_attempt := 1, ro_started_at := Some 3\<rparr>"]
  by (simp add: sample_started_def sample_row_def)

text \<open>C12. Verified work is final: once an operation row is \<^verbatim>\<open>COMPLETED\<close> or \<^verbatim>\<open>SKIPPED\<close>, every later
  journal of the same history, crashes included, holds exactly this row: same attempt, times,
  result, error and backup.\<close>

theorem verified_work_is_final:
  assumes "(journal_step env)\<^sup>*\<^sup>* empty_journal j" "(journal_step env)\<^sup>*\<^sup>* j k"
    and "r \<in> set (db_operations j)" "terminal_state (ro_state r)"
  shows "r \<in> set (db_operations k)"
proof -
  have "table_extends operation_evolves (db_operations j) (db_operations k)"
    using reachable_evolves [OF assms(1,2)] by (simp add: journal_evolves_def)
  then obtain s where "s \<in> set (db_operations k)" "operation_evolves r s"
    using operations.table_row assms(3) by blast
  with assms(4) show ?thesis by (simp add: operation_evolves_def)
qed

definition sample_done :: "RawOperation" where
  "sample_done = sample_row\<lparr>ro_state := OperationState.Completed, ro_attempt := 1, ro_started_at := Some 3,
     ro_ended_at := Some 4\<rparr>"

lemma sample_completes:
  "sample_done \<in> set (db_operations (run_job sample_env
     (TransitionOperation ''run'' ''a'' OperationState.Completed None None None) 4 sample_started))"
proof -
  have "safe_json_text sample_env (Object [(''attempt'', Number 1), (''operation_id'', String ''a''),
        (''state'', String ''COMPLETED''), (''type'', String ''operation_state'')]) c = Inr ''{}''" for c
    by (rule sample_object) (simp add: sample_keys sample_words redact_json_word redact_json_number)
  then show ?thesis
    by (simp add: transition_operation_def transpose_map_def transition_operation_record_def
        transition_operation_tx_def transition_row_def u32_max_def sample_started_def
        find_run_def find_operation_def sample_run_def sample_row_def update_runs_def update_operations_def
        log_event_def insert_event_tx_def sample_texts commit_then_def sample_done_def)
qed

theorem verified_work_is_final_witness:
  "\<exists>j. (journal_step sample_env)\<^sup>*\<^sup>* empty_journal j \<and> sample_done \<in> set (db_operations j)
     \<and> sample_done \<in> set (db_operations (writer_loop sample_env sample_jobs j))"
proof -
  let ?j = "run_job sample_env (TransitionOperation ''run'' ''a'' OperationState.Completed None None None) 4
    sample_started"
  have reach: "(journal_step sample_env)\<^sup>*\<^sup>* empty_journal ?j"
    using sample_reachable journal_write by (rule rtranclp.rtrancl_into_rtrancl)
  have "terminal_state (ro_state sample_done)" by (simp add: sample_done_def terminal_state_def)
  with verified_work_is_final [OF reach writer_history sample_completes] sample_completes reach
  show ?thesis by blast
qed

text \<open>Decisions and history only grow: between two journals of one history every row keeps its
  identity and its immutable columns, an approval or a rejection is never taken back and the
  approval time never changes, attempt counters never decrease, manual actions move only along
  their lifecycle, and the event log is a prefix of the later one.\<close>

theorem journal_history_monotone:
  assumes "(journal_step env)\<^sup>*\<^sup>* empty_journal j" "(journal_step env)\<^sup>*\<^sup>* j k"
  shows "journal_evolves j k \<and> take (length (db_events j)) (db_events k) = db_events j
    \<and> (\<forall>run \<in> set (db_runs j). jr_approval_state run \<noteq> ApprovalState.Pending \<longrightarrow>
         (\<exists>run' \<in> set (db_runs k). jr_id run' = jr_id run
            \<and> jr_approval_state run' = jr_approval_state run
            \<and> (jr_approved_at run \<noteq> None \<longrightarrow> jr_approved_at run' = jr_approved_at run)))"
proof -
  have ev: "journal_evolves j k" by (rule reachable_evolves [OF assms])
  have "\<exists>run' \<in> set (db_runs k). jr_id run' = jr_id run \<and> jr_approval_state run' = jr_approval_state run
      \<and> (jr_approved_at run \<noteq> None \<longrightarrow> jr_approved_at run' = jr_approved_at run)"
    if run: "run \<in> set (db_runs j)" "jr_approval_state run \<noteq> ApprovalState.Pending" for run
  proof -
    have ok: "run_ok run" using reachable_inv [OF assms(1)] run(1) by (simp add: journal_inv_def)
    obtain run' where run': "run' \<in> set (db_runs k)" "run_evolves run run'"
      using ev runs.table_row run(1) unfolding journal_evolves_def by blast
    then show ?thesis
      using run(2) ok by (cases "jr_approval_state run") (auto simp: run_evolves_def run_ok_def)
  qed
  with ev show ?thesis by (auto simp: journal_evolves_def table_eq_prefix)
qed

theorem journal_history_monotone_witness:
  "take 3 (db_events (writer_loop sample_env sample_jobs sample_started)) = db_events sample_started"
proof -
  have "length (db_events sample_started) = 3" by (simp add: sample_started_def)
  then show ?thesis
    using journal_history_monotone [OF sample_reachable writer_history [of sample_env sample_started sample_jobs]]
    by (simp only:)
qed

text \<open>Manual actions never move back: along every history the state of an action only rises in the
  order pending, acknowledged, resolved, and a completed or skipped action keeps its state. The
  first acknowledgement time is never overwritten.\<close>

theorem manual_actions_never_move_back:
  assumes "(journal_step env)\<^sup>*\<^sup>* empty_journal j" "(journal_step env)\<^sup>*\<^sup>* j k"
    and "r \<in> set (db_manual_actions j)"
  shows "\<exists>s \<in> set (db_manual_actions k). rm_id s = rm_id r
    \<and> (rm_state s = rm_state r \<or> manual_rank (rm_state r) < manual_rank (rm_state s))
    \<and> (rm_state r \<in> {ManualActionState.Completed, ManualActionState.Skipped} \<longrightarrow> rm_state s = rm_state r)
    \<and> (rm_acknowledged_at r \<noteq> None \<longrightarrow> rm_acknowledged_at s = rm_acknowledged_at r)"
proof -
  have "table_extends action_evolves (db_manual_actions j) (db_manual_actions k)"
    using reachable_evolves [OF assms(1,2)] by (simp add: journal_evolves_def)
  then obtain s where s: "s \<in> set (db_manual_actions k)" "action_evolves r s"
    using actions.table_row assms(3) by blast
  have path: "valid_manual_action_transition\<^sup>*\<^sup>* (rm_state r) (rm_state s)"
    using s(2) by (simp add: action_evolves_def)
  show ?thesis
    using s manual.never_back [OF path] manual.terminal_forever [OF path]
    by (intro bexI [of _ s]) (auto simp: action_evolves_def)
qed

definition sample_action :: ManualAction where
  "sample_action =
     \<lparr>ma_id = ''m'', ma_component = None, ma_title = ''t'', ma_reason = ''r'', ma_risk = RiskLevel.Low,
      ma_instructions = [], ma_docs_url = None, ma_state = ManualActionState.Pending,
      ma_independent_operations_may_continue = True, ma_acknowledged_at = None, ma_verification = None\<rparr>"

definition sample_action_row :: RawManualAction where
  "sample_action_row =
     \<lparr>rm_id = ''m'', rm_run_id = ''run'', rm_state = ManualActionState.Pending, rm_title = ''t'',
      rm_reason = ''r'', rm_risk = RiskLevel.Low, rm_instructions_json = ''{}'', rm_acknowledged_at = None\<rparr>"

lemma sample_action_added:
  "sample_action_row \<in> set (db_manual_actions (run_job sample_env (AddManualAction ''run'' sample_action) 5 sample_started))"
proof -
  have w: "word ''m''" "word ''t''" "word ''r''" "word ''manual_action_added''" by (simp_all add: word_simps)
  have k: "public_key ''action_id''" by (simp add: public_key_simps)
  have ev: "safe_json_text sample_env (Object [(''action_id'', String ''m''), (''type'', String ''manual_action_added'')]) c
      = Inr ''{}''" for c
    by (rule sample_object) (simp add: sample_keys w k redact_json_word)
  have arr: "safe_json_text sample_env (Array []) c = Inr ''{}''" for c
    by (rule sample_json [where v' = "Array []"]) (simp add: redact_json_value_unfold)
  have cols: "manual_action_columns sample_env sample_action = Inr (''t'', ''r'', [], ''{}'')"
    by (simp add: manual_action_columns_def sample_action_def bounded_safe_text_def safe_text_def redact_word w
        bounded_text_def MAX_MANUAL_TEXT_BYTES_def arr)
  have fields: "ma_id sample_action = ''m''" "ma_state sample_action = ManualActionState.Pending"
    "ma_risk sample_action = RiskLevel.Low" "ma_acknowledged_at sample_action = None"
    by (simp_all add: sample_action_def)
  show ?thesis
    by (simp add: add_manual_action_record_def cols fields bounded_text_def MAX_MANUAL_TEXT_BYTES_def
        insert_manual_action_def raw_manual_action_def sample_started_def sample_run_def log_event_def ev
        insert_event_tx_def MAX_EVENT_LEVEL_BYTES_def commit_then_def sample_action_row_def)
qed

theorem manual_actions_never_move_back_witness:
  "\<exists>j. (journal_step sample_env)\<^sup>*\<^sup>* empty_journal j \<and> sample_action_row \<in> set (db_manual_actions j)
     \<and> (\<exists>s \<in> set (db_manual_actions (writer_loop sample_env sample_jobs j)). rm_id s = ''m'')"
proof -
  let ?j = "run_job sample_env (AddManualAction ''run'' sample_action) 5 sample_started"
  have reach: "(journal_step sample_env)\<^sup>*\<^sup>* empty_journal ?j"
    using sample_reachable journal_write by (rule rtranclp.rtrancl_into_rtrancl)
  have "rm_id sample_action_row = ''m''" by (simp add: sample_action_row_def)
  with manual_actions_never_move_back [OF reach writer_history sample_action_added] sample_action_added reach
  show ?thesis by metis
qed

text \<open>Starting an operation. On a consistent journal with an existing operation and run, and when
  the state event can be serialized: if the run is approved, the operation is neither running nor
  verified, and its attempt counter is below the 32-bit maximum, the row becomes running with the
  attempt incremented by exactly one, fresh times and no stale payload, and no other operation of
  the run changes; in every other case the call fails with \<^verbatim>\<open>SECURITY_POLICY\<close> and the journal is
  unchanged.\<close>

theorem mark_operation_running_effect:
  assumes inv: "journal_inv j"
    and find: "find_operation j run_id operation_id = Some r" "find_run j run_id = Some run"
    and ser: "safe_json_text env (started_event operation_id (ro_attempt r + 1)) ''operation state event'' = Inr t"
  shows "case mark_operation_running env run_id operation_id now j of (res, k) \<Rightarrow>
    if jr_approval_state run = Approved
       \<and> ro_state r \<notin> {OperationState.Running, OperationState.Completed, OperationState.Skipped}
       \<and> ro_attempt r < u32_max
    then (\<forall>i. find_operation k run_id i =
            (if i = operation_id then Some (started_row now r) else find_operation j run_id i))
    else k = j \<and> (\<exists>e. res = Inl e \<and> ee_code e = SecurityPolicy)"
proof -
  have r: "r \<in> set (db_operations j)"
    using find(1) by (auto simp: find_operation_def dest!: find_in)
  then have le: "ro_attempt r \<le> u32_max" using inv by (simp add: journal_inv_def operation_row_ok_def)
  show ?thesis
  proof (cases "jr_approval_state run = Approved
       \<and> ro_state r \<notin> {OperationState.Running, OperationState.Completed, OperationState.Skipped}
       \<and> ro_attempt r < u32_max")
    case True
    then obtain k where "transition_operation_tx env run_id operation_id OperationState.Running None None None r now j = Inr k"
      "\<forall>i. find_operation k run_id i = (if i = operation_id then Some (started_row now r) else find_operation j run_id i)"
      using start_tx_ok [OF inv find _ ser] by blast
    with True find show ?thesis
      by (simp add: mark_operation_running_def transition_operation_def transpose_map_def
          transition_operation_record_def commit_then_def)
  next
    case False
    with le find show ?thesis
      by (auto simp: mark_operation_running_def transition_operation_def transpose_map_def
          transition_operation_record_def commit_then_def transition_operation_tx_def transition_row_def
          checked_add_u32_def journal_error_def)
  qed
qed

theorem mark_operation_running_effect_witness:
  "\<exists>e. fst (mark_operation_running sample_env ''run'' ''a'' 9 sample_started) = Inl e \<and> ee_code e = SecurityPolicy"
proof -
  let ?r = "sample_row\<lparr>ro_state := OperationState.Running, ro_attempt := 1, ro_started_at := Some 3\<rparr>"
  have f: "find_operation sample_started ''run'' ''a'' = Some ?r"
    "find_run sample_started ''run'' = Some (hd (db_runs sample_started))"
    by (simp_all add: find_operation_def find_run_def sample_started_def sample_row_def sample_run_def)
  have "safe_json_text sample_env (started_event ''a'' (ro_attempt ?r + 1)) ''operation state event'' = Inr ''{}''"
    unfolding started_event_def
    by (rule sample_object) (simp add: sample_keys sample_words redact_json_word redact_json_number)
  from mark_operation_running_effect [OF reachable_inv [OF sample_reachable] f this, of 9]
  show ?thesis by (simp split: prod.splits)
qed



end
