(* ===== verification/Handlers.thy ===== *)
theory Handlers
  imports Journal
begin

text \<open>
  The boundary between the executor and its handlers, from the head of
  \<^verbatim>\<open>crates/reforge-restore/src/executor.rs\<close>: what a handler returns, and the two calls the
  executor makes. A handler runs against the journal and a world \<open>'w\<close> outside it (the target
  machine, the other tasks of the process, the cancellation token, the clock); a call maps the
  pair of them to a result and the pair afterwards.
\<close>

datatype OperationDisposition = Completed | Skipped | WaitingForUser | WaitingForReboot | Cancelled

record OperationOutcome =
  oo_disposition :: OperationDisposition
  oo_result :: "Value option"
  oo_evidence :: "Value list"
  oo_backup :: "Value option"

definition outcome_of :: "OperationDisposition \<Rightarrow> Value option \<Rightarrow> OperationOutcome" where
  "outcome_of disposition result =
     \<lparr>oo_disposition = disposition, oo_result = result, oo_evidence = [], oo_backup = None\<rparr>"

definition with_evidence :: "Value list \<Rightarrow> OperationOutcome \<Rightarrow> OperationOutcome" where
  "with_evidence evidence outcome = outcome\<lparr>oo_evidence := oo_evidence outcome @ evidence\<rparr>"

definition with_backup :: "Value \<Rightarrow> OperationOutcome \<Rightarrow> OperationOutcome" where
  "with_backup backup outcome = outcome\<lparr>oo_backup := Some backup\<rparr>"

datatype OperationSatisfaction = NotSatisfied | Satisfied "Value option" "Value list"

fun satisfaction_with_evidence :: "Value list \<Rightarrow> OperationSatisfaction \<Rightarrow> OperationSatisfaction" where
  "satisfaction_with_evidence evidence NotSatisfied = NotSatisfied"
| "satisfaction_with_evidence evidence (Satisfied result current) = Satisfied result (current @ evidence)"

text \<open>Reading the clock and the cancellation token; the world moves on with each reading.\<close>

record 'w machine =
  mc_now :: "'w \<Rightarrow> DateTime \<times> 'w"
  mc_cancelled :: "'w \<Rightarrow> bool \<times> 'w"

type_synonym ('w, 'a) effect = "journal \<times> 'w \<Rightarrow> 'a restore \<times> journal \<times> 'w"

text \<open>A write of the journal, which reads the clock first.\<close>

definition timed :: "'w machine \<Rightarrow> (DateTime \<Rightarrow> journal \<Rightarrow> 'a restore \<times> journal) \<Rightarrow> ('w, 'a) effect" where
  "timed mc f = (\<lambda>(j, w). let (now, w') = mc_now mc w; (r, j') = f now j in (r, j', w'))"

record 'w OperationHandler =
  oh_handles :: "OperationKind \<Rightarrow> bool"
  oh_is_satisfied :: "Operation \<Rightarrow> ('w, OperationSatisfaction) effect"
  oh_execute :: "Operation \<Rightarrow> ('w, OperationOutcome) effect"

text \<open>A field of a JSON object, and the readers of its typed values.\<close>

definition value_get :: "Value \<Rightarrow> str \<Rightarrow> Value option" where
  "value_get v field = (case v of Object kvs \<Rightarrow> map_of kvs field | _ \<Rightarrow> None)"

fun as_str :: "Value \<Rightarrow> str option" where
  "as_str (String s) = Some s"
| "as_str _ = None"

fun as_bool :: "Value \<Rightarrow> bool option" where
  "as_bool (Bool b) = Some b"
| "as_bool _ = None"

fun as_u64 :: "Value \<Rightarrow> nat option" where
  "as_u64 (Number n) = (if 0 \<le> n \<and> n \<le> int u64_max then Some (nat n) else None)"
| "as_u64 _ = None"

fun as_array :: "Value \<Rightarrow> Value list option" where
  "as_array (Array vs) = Some vs"
| "as_array _ = None"

definition field_str :: "Value \<Rightarrow> str \<Rightarrow> str option" where
  "field_str v field = Option.bind (value_get v field) as_str"

definition field_bool :: "Value \<Rightarrow> str \<Rightarrow> bool option" where
  "field_bool v field = Option.bind (value_get v field) as_bool"

definition field_u64 :: "Value \<Rightarrow> str \<Rightarrow> nat option" where
  "field_u64 v field = Option.bind (value_get v field) as_u64"

end
