(* ===== verification/Verification.thy ===== *)
theory Verification
  imports Handlers
begin

text \<open>
  The verifier of \<^verbatim>\<open>crates/reforge-restore/src/verification.rs\<close>: which journalled operation
  proves which verification rule, the proof of a planned \<^verbatim>\<open>Verify\<close> operation from its
  prerequisite closure, and the final report. The content hash behind \<^verbatim>\<open>ObjectId::from_content\<close>
  is the parameter \<open>content_id\<close>; \<^verbatim>\<open>Utc::now\<close> is the parameter \<open>now\<close>.
\<close>

datatype ReportStatus =
    Verified | PartiallyVerified | AlreadyPresent | Skipped | WaitingForUser | ReauthRequired
  | RebootRequired | Unsupported | Failed

record VerificationEvidence =
  ve_rule :: VerificationRule
  ve_status :: ReportStatus
  ve_summary :: str
  ve_observed_at :: DateTime

record ComponentReport =
  cpr_component :: ComponentId
  cpr_status :: ReportStatus
  cpr_evidence :: "VerificationEvidence list"
  cpr_manual_actions :: "str list"
  cpr_warnings :: "str list"

record ReportCounts =
  rc_verified :: nat
  rc_partial :: nat
  rc_already_present :: nat
  rc_waiting_for_user :: nat
  rc_reauth_required :: nat
  rc_reboot_required :: nat
  rc_unsupported :: nat
  rc_failed :: nat

record RestoreReport =
  rr_format_version :: nat
  rr_run_id :: RunId
  rr_package_id :: str
  rr_status :: ReportStatus
  rr_counts :: ReportCounts
  rr_components :: "ComponentReport list"
  rr_manual_actions :: "ManualAction list"
  rr_warnings :: "str list"
  rr_elapsed_ms :: nat
  rr_bytes_written :: nat

definition REPORT_FORMAT_VERSION :: nat where "REPORT_FORMAT_VERSION = 1"

record VerificationInput =
  vi_target :: TargetFacts
  vi_operations :: "JournalOperation list"
  vi_components :: "Component list"
  vi_selected_components :: "ComponentId list"
  vi_manual_actions :: "ManualAction list"
  vi_warnings :: "str list"
  vi_run_id :: RunId
  vi_package_id :: str
  vi_elapsed_ms :: nat
  vi_bytes_written :: nat

definition from_plan ::
  "TargetFacts \<Rightarrow> RestorePlan \<Rightarrow> PackageGraph \<Rightarrow> JournalOperation list \<Rightarrow> VerificationInput" where
  "from_plan target plan graph operations =
     \<lparr>vi_target = target, vi_operations = operations, vi_components = g_components graph,
      vi_selected_components = rp_selected_components plan, vi_manual_actions = rp_manual_actions plan,
      vi_warnings = rp_warnings plan, vi_run_id = rp_run_id plan, vi_package_id = rp_package_id plan,
      vi_elapsed_ms = 0, vi_bytes_written = 0\<rparr>"

definition schema_error :: "str \<Rightarrow> ErrorEnvelope" where
  "schema_error message = restore_error SchemaInvalid message None None None (Some ''restore-verification'')"

subsection \<open>Which operations a rule is about\<close>

fun file_operation_destination :: "OperationKind \<Rightarrow> PathToken option" where
  "file_operation_destination (WriteFile destination _ _) = Some destination"
| "file_operation_destination (MergeJson destination _ _) = Some destination"
| "file_operation_destination (MergeToml destination _ _) = Some destination"
| "file_operation_destination _ = None"

fun file_operation_object :: "OperationKind \<Rightarrow> ObjectId option" where
  "file_operation_object (WriteFile _ obj _) = Some obj"
| "file_operation_object (MergeJson _ obj _) = Some obj"
| "file_operation_object (MergeToml _ obj _) = Some obj"
| "file_operation_object _ = None"

definition image_reference :: "DockerImageSpec \<Rightarrow> str" where
  "image_reference img =
     (case dis_tag img of Some tag \<Rightarrow> dis_repository img @ '':'' @ tag | None \<Rightarrow> dis_repository img)"

fun docker_operation_matches :: "OperationKind \<Rightarrow> ComponentKind \<Rightarrow> str \<Rightarrow> bool" where
  "docker_operation_matches (RestoreDockerImage img _) DockerImage identity \<longleftrightarrow>
     dis_image_id img = Some identity \<or> (dis_image_id img = None \<and> image_reference img = identity)"
| "docker_operation_matches (RestoreDockerVolume volume _) DockerVolume identity \<longleftrightarrow> dvs_name volume = identity"
| "docker_operation_matches _ _ _ \<longleftrightarrow> False"

definition version_matches_text :: "str option \<Rightarrow> str option \<Rightarrow> bool" where
  "version_matches_text actual expected \<longleftrightarrow> expected = None \<or> actual = expected"

fun rule_matches_kind :: "VerificationRule \<Rightarrow> OperationKind \<Rightarrow> bool" where
  "rule_matches_kind (ProviderIdentity provider package) kind \<longleftrightarrow>
     (case kind of InstallPackage p pkg _ \<Rightarrow> p = provider \<and> pkg = package | _ \<Rightarrow> False)"
| "rule_matches_kind (File destination obj) kind \<longleftrightarrow>
     file_operation_destination kind = Some destination
     \<and> (case obj of None \<Rightarrow> True | Some expected \<Rightarrow> file_operation_object kind = Some expected)"
| "rule_matches_kind (FileVersion destination _ _) kind \<longleftrightarrow> file_operation_destination kind = Some destination"
| "rule_matches_kind (BrowserArtifact destination) kind \<longleftrightarrow> file_operation_destination kind = Some destination"
| "rule_matches_kind (ConfigParses destination content_type) kind \<longleftrightarrow>
     (case content_type of
        Json \<Rightarrow> (case kind of MergeJson d _ _ \<Rightarrow> d = destination | _ \<Rightarrow> False)
      | Jsonc \<Rightarrow> (case kind of MergeJson d _ _ \<Rightarrow> d = destination | _ \<Rightarrow> False)
      | Toml \<Rightarrow> (case kind of MergeToml d _ _ \<Rightarrow> d = destination | _ \<Rightarrow> False)
      | _ \<Rightarrow> False)"
| "rule_matches_kind (Environment scope name _) kind \<longleftrightarrow>
     scope = ConfigScope.User
     \<and> ((case kind of SetUserEnvironment candidate _ \<Rightarrow> eq_ignore_ascii_case candidate name | _ \<Rightarrow> False)
        \<or> (eq_ignore_ascii_case name ''PATH'' \<and> (case kind of AppendUserPath _ \<Rightarrow> True | _ \<Rightarrow> False)))"
| "rule_matches_kind (McpRegistration name config) kind \<longleftrightarrow>
     (case kind of RegisterMcp server \<Rightarrow>
          mcp_name server = name \<and> art_source_path (mcp_source_config server) = config
      | _ \<Rightarrow> False)"
| "rule_matches_kind (WslState distro version) kind \<longleftrightarrow>
     (case kind of ImportWsl candidate _ \<Rightarrow>
          wsl_distribution candidate = distro
          \<and> version_matches_text (map_option show_nat (wsl_version candidate)) version
      | _ \<Rightarrow> False)"
| "rule_matches_kind (DockerObject kind' identity) kind \<longleftrightarrow> docker_operation_matches kind kind' identity"
| "rule_matches_kind (SecureTarget secret) kind \<longleftrightarrow>
     (case kind of OpenManualAction action \<Rightarrow> ma_verification action = Some (SecureTarget secret) | _ \<Rightarrow> False)"

definition operation_matches_rule :: "JournalOperation \<Rightarrow> VerificationRule \<Rightarrow> bool" where
  "operation_matches_rule operation rule \<longleftrightarrow> rule_matches_kind rule (op_kind (jo_operation operation))"

definition relevant_operations :: "VerificationRule \<Rightarrow> JournalOperation list \<Rightarrow> JournalOperation list" where
  "relevant_operations rule operations = filter (\<lambda>operation. operation_matches_rule operation rule) operations"

subsection \<open>What a recorded result proves\<close>

definition operation_payloads :: "JournalOperation \<Rightarrow> Value list" where
  "operation_payloads operation =
     (case jo_result operation of
        None \<Rightarrow> []
      | Some result \<Rightarrow>
          [result]
          @ (case value_get result ''result'' of Some inner \<Rightarrow> if inner \<noteq> Null then [inner] else [] | None \<Rightarrow> [])
          @ (case Option.bind (value_get result ''evidence'') as_array of Some evidence \<Rightarrow> evidence | None \<Rightarrow> []))"

definition is_hexdigit :: "char \<Rightarrow> bool" where
  "is_hexdigit c \<longleftrightarrow> is_ascii_digit c \<or> c \<in> set ''abcdefABCDEF''"

definition file_proof :: "Value list \<Rightarrow> bool" where
  "file_proof payloads \<longleftrightarrow>
     list_ex (\<lambda>payload.
       field_u64 payload ''bytes'' \<noteq> None
       \<and> (case field_str payload ''blake3'' of
            None \<Rightarrow> False
          | Some digest \<Rightarrow> length digest = 64 \<and> list_all is_hexdigit digest)) payloads"

definition publisher_name :: "Value \<Rightarrow> str option" where
  "publisher_name payload =
     (case field_str payload ''publisher'' of
        Some name \<Rightarrow> Some name
      | None \<Rightarrow> Option.bind (value_get payload ''publisher'') (\<lambda>v. field_str v ''name''))"

definition publisher_thumbprint :: "Value \<Rightarrow> str option" where
  "publisher_thumbprint payload =
     (case Option.bind (value_get payload ''publisher'') (\<lambda>v. field_str v ''certificate_thumbprint'') of
        Some thumbprint \<Rightarrow> Some thumbprint
      | None \<Rightarrow> field_str payload ''certificate_thumbprint'')"

definition file_version_proof :: "Value list \<Rightarrow> VersionValue option \<Rightarrow> Publisher option \<Rightarrow> bool" where
  "file_version_proof payloads expected_version expected_publisher \<longleftrightarrow>
     (let version_ok =
            (case expected_version of
               None \<Rightarrow> True
             | Some expected \<Rightarrow>
                 list_ex (\<lambda>payload.
                   case field_str payload ''version'' of
                     None \<Rightarrow> False
                   | Some actual \<Rightarrow> actual = ver_raw expected \<or> ver_normalized expected = Some actual) payloads);
          publisher_ok =
            (case expected_publisher of
               None \<Rightarrow> True
             | Some expected \<Rightarrow>
                 list_ex (\<lambda>payload.
                   publisher_name payload = Some (pub_name expected)
                   \<and> (case pub_certificate_thumbprint expected of
                        None \<Rightarrow> True | Some required \<Rightarrow> publisher_thumbprint payload = Some required)) payloads);
          has_metadata =
            expected_version \<noteq> None \<or> expected_publisher \<noteq> None
            \<or> list_ex (\<lambda>payload.
                field_str payload ''version'' \<noteq> None
                \<or> (case value_get payload ''publisher'' of None \<Rightarrow> False | Some v \<Rightarrow> v \<noteq> Null)) payloads
      in version_ok \<and> publisher_ok \<and> has_metadata)"

definition config_kind_proof :: "Value list \<Rightarrow> ContentType \<Rightarrow> bool" where
  "config_kind_proof payloads content_type \<longleftrightarrow>
     (case (case content_type of Json \<Rightarrow> Some ''json'' | Jsonc \<Rightarrow> Some ''json'' | Toml \<Rightarrow> Some ''toml'' | _ \<Rightarrow> None) of
        None \<Rightarrow> False
      | Some expected \<Rightarrow>
          list_ex (\<lambda>payload.
            case field_str payload ''kind'' of
              None \<Rightarrow> False | Some actual \<Rightarrow> eq_ignore_ascii_case actual expected) payloads)"

definition environment_proof ::
  "(str \<Rightarrow> ObjectId) \<Rightarrow> Value list \<Rightarrow> ConfigScope \<Rightarrow> str \<Rightarrow> SafeValueRef \<Rightarrow> bool" where
  "environment_proof content_id payloads scope name expected \<longleftrightarrow>
     scope = ConfigScope.User
     \<and> (let expected_hash = (case expected of LiteralNonSecret v \<Rightarrow> Some (content_id v) | _ \<Rightarrow> None)
        in list_ex (\<lambda>payload.
             (case field_str payload ''name'' of None \<Rightarrow> False | Some actual \<Rightarrow> eq_ignore_ascii_case actual name)
             \<and> (case expected_hash of None \<Rightarrow> False | Some h \<Rightarrow> field_str payload ''value_hash'' = Some h)) payloads)"

definition docker_payload_proof :: "Value list \<Rightarrow> ComponentKind \<Rightarrow> str \<Rightarrow> bool" where
  "docker_payload_proof payloads kind identity \<longleftrightarrow>
     (let proves = (\<lambda>expected_kind actual payload.
            field_str payload ''kind'' = Some expected_kind \<and> field_bool payload ''verified'' = Some True
            \<and> actual payload = Some identity);
          or_else = (\<lambda>first second payload.
            case field_str payload first of Some s \<Rightarrow> Some s | None \<Rightarrow> field_str payload second)
      in case kind of
           DockerImage \<Rightarrow> list_ex (proves ''docker_image'' (or_else ''image_id'' ''reference'')) payloads
         | DockerVolume \<Rightarrow> list_ex (proves ''docker_volume'' (\<lambda>payload. field_str payload ''name'')) payloads
         | DockerContext \<Rightarrow> list_ex (proves ''docker_context'' (or_else ''name'' ''context'')) payloads
         | _ \<Rightarrow> False)"

fun operation_proves :: "(str \<Rightarrow> ObjectId) \<Rightarrow> VerificationRule \<Rightarrow> JournalOperation \<Rightarrow> bool" where
  "operation_proves content_id (ProviderIdentity provider package) operation \<longleftrightarrow>
     list_ex (\<lambda>payload.
       (case field_str payload ''kind'' of
          None \<Rightarrow> False
        | Some v \<Rightarrow> eq_ignore_ascii_case v ''provider_package'' \<or> eq_ignore_ascii_case v ''target_package'')
       \<and> field_str payload ''provider'' = Some provider
       \<and> field_str payload ''package_id'' = Some (ps_id package)
       \<and> (case ps_version package of None \<Rightarrow> True | Some expected \<Rightarrow> field_str payload ''version'' = Some expected)
       \<and> ps_installer_hash package = None) (operation_payloads operation)"
| "operation_proves content_id (File _ _) operation \<longleftrightarrow> file_proof (operation_payloads operation)"
| "operation_proves content_id (FileVersion _ version publisher) operation \<longleftrightarrow>
     file_version_proof (operation_payloads operation) version publisher"
| "operation_proves content_id (ConfigParses _ content_type) operation \<longleftrightarrow>
     config_kind_proof (operation_payloads operation) content_type \<and> file_proof (operation_payloads operation)"
| "operation_proves content_id (Environment scope name expected) operation \<longleftrightarrow>
     environment_proof content_id (operation_payloads operation) scope name expected"
| "operation_proves content_id (McpRegistration name _) operation \<longleftrightarrow>
     list_ex (\<lambda>payload.
       field_str payload ''server'' = Some name \<and> field_bool payload ''verified'' = Some True
       \<and> field_bool payload ''reauth_required'' \<noteq> Some True) (operation_payloads operation)"
| "operation_proves content_id (WslState distro version) operation \<longleftrightarrow>
     list_ex (\<lambda>payload.
       field_str payload ''kind'' = Some ''wsl_distribution''
       \<and> field_str payload ''distribution'' = Some distro
       \<and> version_matches_text (field_str payload ''wsl_version'') version
       \<and> field_bool payload ''verified'' = Some True) (operation_payloads operation)"
| "operation_proves content_id (DockerObject kind identity) operation \<longleftrightarrow>
     docker_payload_proof (operation_payloads operation) kind identity"
| "operation_proves content_id (BrowserArtifact _) operation \<longleftrightarrow> file_proof (operation_payloads operation)"
| "operation_proves content_id (SecureTarget secret) operation \<longleftrightarrow>
     list_ex (\<lambda>payload.
       (field_bool payload ''secure_target'' = Some True \<or> field_bool payload ''secure_adapter'' = Some True)
       \<and> (case field_str payload ''secret'' of None \<Rightarrow> True | Some v \<Rightarrow> v = secret))
     (operation_payloads operation)"

subsection \<open>What the target proves\<close>

definition version_satisfies :: "VersionValue option \<Rightarrow> str option \<Rightarrow> bool" where
  "version_satisfies actual expected \<longleftrightarrow>
     (case expected of
        None \<Rightarrow> True
      | Some e \<Rightarrow> (case actual of None \<Rightarrow> False | Some a \<Rightarrow> ver_raw a = e \<or> ver_normalized a = Some e))"

definition source_matches :: "Identity \<Rightarrow> PackageSpec \<Rightarrow> bool" where
  "source_matches identity package \<longleftrightarrow>
     (case idn_provider_source identity of
        None \<Rightarrow> ps_source_identifier package = None \<and> ps_source package = None \<and> ps_source_name package = None
      | Some observed \<Rightarrow>
          if ps_provider package \<in> {''npm'', ''pnpm'', ''yarn'', ''bun''}
             \<and> ps_source_identifier package = None \<and> ps_source_name package = None
          then observed = ''global''
          else let expected =
                     (case ps_source_identifier package of None \<Rightarrow> [] | Some i \<Rightarrow> [i, ''identifier:'' @ i])
                     @ (case ps_source package of None \<Rightarrow> [] | Some s \<Rightarrow> [s, ''url:'' @ s])
                     @ (case ps_source_name package of None \<Rightarrow> [] | Some n \<Rightarrow> [n, ''kind:'' @ n])
               in expected = [] \<or> observed \<in> set expected)"

definition installed_package_matches :: "InstalledFact \<Rightarrow> ProviderId \<Rightarrow> PackageSpec \<Rightarrow> bool" where
  "installed_package_matches fct provider package \<longleftrightarrow>
     (case idn_provider_package (if_identity fct) of
        None \<Rightarrow> False
      | Some (actual_provider, actual_id) \<Rightarrow>
          actual_provider = provider \<and> actual_id = ps_id package \<and> ps_installer_hash package = None
          \<and> version_satisfies (if_version fct) (ps_version package)
          \<and> source_matches (if_identity fct) package)"

definition find_environment :: "TargetFacts \<Rightarrow> ConfigScope \<Rightarrow> str \<Rightarrow> EnvironmentFact option" where
  "find_environment target scope name =
     find (\<lambda>f. ef_scope f = scope \<and> eq_ignore_ascii_case (ef_name f) name) (tf_environment target)"

definition target_environment_matches ::
  "(str \<Rightarrow> ObjectId) \<Rightarrow> TargetFacts \<Rightarrow> ConfigScope \<Rightarrow> str \<Rightarrow> SafeValueRef \<Rightarrow> bool" where
  "target_environment_matches content_id target scope name expected \<longleftrightarrow>
     (case find_environment target scope name of
        None \<Rightarrow> False
      | Some destination \<Rightarrow>
          (case expected of
             LiteralNonSecret v \<Rightarrow> ef_value_hash destination = Some (content_id v)
           | SafeValueRef.EnvironmentReference source \<Rightarrow>
               Option.bind (find_environment target scope source) ef_value_hash = ef_value_hash destination
           | _ \<Rightarrow> False))"

definition target_wsl_matches :: "TargetFacts \<Rightarrow> str \<Rightarrow> str option \<Rightarrow> bool" where
  "target_wsl_matches target distro version \<longleftrightarrow>
     list_ex (\<lambda>fct.
       if_kind fct \<in> {WslDistribution, SystemFeature}
       \<and> ((case idn_provider_package (if_identity fct) of
             None \<Rightarrow> False
           | Some (_, package) \<Rightarrow>
               package = distro \<or> package = ''distribution:'' @ distro \<or> package = ''feature:'' @ distro)
          \<or> (case idn_product_name (if_identity fct) of
               None \<Rightarrow> False | Some name \<Rightarrow> eq_ignore_ascii_case name distro))
       \<and> version_satisfies (if_version fct) version) (tf_installed target)"

fun docker_kind_label :: "ComponentKind \<Rightarrow> str" where
  "docker_kind_label DockerImage = ''image''"
| "docker_kind_label DockerVolume = ''volume''"
| "docker_kind_label DockerContext = ''context''"
| "docker_kind_label _ = ''unknown''"

definition target_docker_matches :: "TargetFacts \<Rightarrow> ComponentKind \<Rightarrow> str \<Rightarrow> bool" where
  "target_docker_matches target kind identity \<longleftrightarrow>
     list_ex (\<lambda>fct.
       if_kind fct = kind
       \<and> (case idn_provider_package (if_identity fct) of
            None \<Rightarrow> False
          | Some (provider, package) \<Rightarrow>
              provider = ''docker'' \<and> (package = identity \<or> package = docker_kind_label kind @ '':'' @ identity)))
     (tf_installed target)"

fun target_satisfies :: "(str \<Rightarrow> ObjectId) \<Rightarrow> VerificationRule \<Rightarrow> TargetFacts \<Rightarrow> bool" where
  "target_satisfies content_id (ProviderIdentity provider package) target \<longleftrightarrow>
     list_ex (\<lambda>fct. installed_package_matches fct provider package) (tf_installed target)"
| "target_satisfies content_id (Environment scope name expected) target \<longleftrightarrow>
     target_environment_matches content_id target scope name expected"
| "target_satisfies content_id (WslState distro version) target \<longleftrightarrow> target_wsl_matches target distro version"
| "target_satisfies content_id (DockerObject kind identity) target \<longleftrightarrow> target_docker_matches target kind identity"
| "target_satisfies content_id _ target \<longleftrightarrow> False"

subsection \<open>Secrets and shapes\<close>

fun rule_requires_reauth :: "VerificationRule \<Rightarrow> bool" where
  "rule_requires_reauth (Environment _ _ expected) \<longleftrightarrow>
     (case expected of SafeValueRef.SecretReference _ _ \<Rightarrow> True | SafeValueRef.RedactedUnknown \<Rightarrow> True | _ \<Rightarrow> False)"
| "rule_requires_reauth (SecureTarget _) \<longleftrightarrow> True"
| "rule_requires_reauth _ \<longleftrightarrow> False"

definition safe_value_requires_secret :: "SafeValueRef \<Rightarrow> bool" where
  "safe_value_requires_secret v \<longleftrightarrow> (case v of SafeValueRef.SecretReference _ _ \<Rightarrow> True | _ \<Rightarrow> False)"

definition endpoint_requires_secret :: "McpEndpoint \<Rightarrow> bool" where
  "endpoint_requires_secret e \<longleftrightarrow> (case e of McpEndpoint.SecretReference _ _ \<Rightarrow> True | _ \<Rightarrow> False)"

definition working_directory_requires_secret :: "McpWorkingDirectory \<Rightarrow> bool" where
  "working_directory_requires_secret d \<longleftrightarrow> (case d of McpWorkingDirectory.SecretReference _ _ \<Rightarrow> True | _ \<Rightarrow> False)"

definition operation_requires_reauth :: "JournalOperation \<Rightarrow> bool" where
  "operation_requires_reauth operation \<longleftrightarrow>
     list_ex (\<lambda>payload. field_bool payload ''reauth_required'' = Some True) (operation_payloads operation)
     \<or> (case op_kind (jo_operation operation) of
          SetUserEnvironment _ v \<Rightarrow> safe_value_requires_secret v
        | RegisterMcp server \<Rightarrow>
            list_ex (\<lambda>binding. safe_value_requires_secret (eb_value binding)) (mcp_environment server)
            \<or> (case mcp_endpoint server of None \<Rightarrow> False | Some e \<Rightarrow> endpoint_requires_secret e)
            \<or> (case mcp_cwd server of None \<Rightarrow> False | Some d \<Rightarrow> working_directory_requires_secret d)
        | OpenManualAction action \<Rightarrow>
            (case ma_verification action of None \<Rightarrow> False | Some rule \<Rightarrow> rule_requires_reauth rule)
        | _ \<Rightarrow> False)"

definition unsupported_restore :: "RestoreDescriptor \<Rightarrow> bool" where
  "unsupported_restore restore \<longleftrightarrow>
     rd_primary restore \<in> {RestoreStrategy.Manual, RestoreStrategy.MachineBound, RestoreStrategy.Unknown,
                           RestoreStrategy.Partial}
     \<or> rd_portability restore = Portability.Unsupported"

fun rule_path :: "VerificationRule \<Rightarrow> PathToken option" where
  "rule_path (File destination _) = Some destination"
| "rule_path (FileVersion destination _ _) = Some destination"
| "rule_path (ConfigParses destination _) = Some destination"
| "rule_path (BrowserArtifact destination) = Some destination"
| "rule_path (McpRegistration _ destination) = Some destination"
| "rule_path _ = None"

definition validate_rule_shape :: "VerificationRule \<Rightarrow> unit restore" where
  "validate_rule_shape rule =
     (case rule_path rule of
        Some destination \<Rightarrow>
          (case PathToken_validate destination of
             Inl _ \<Rightarrow> Inl (schema_error ''verification rule contains an invalid tokenized path'')
           | Inr _ \<Rightarrow> Inr ())
      | None \<Rightarrow>
          (case rule of
             Environment _ name _ \<Rightarrow>
               if name = [] then Inl (schema_error ''verification rule contains an empty environment name'') else Inr ()
           | WslState distro _ \<Rightarrow>
               if distro = [] then Inl (schema_error ''verification rule contains an empty WSL identity'') else Inr ()
           | DockerObject _ identity \<Rightarrow>
               if identity = [] then Inl (schema_error ''verification rule contains an empty Docker identity'') else Inr ()
           | _ \<Rightarrow> Inr ()))"

subsection \<open>The proof of a planned verification\<close>

definition index_by_id :: "JournalOperation list \<Rightarrow> (OperationId, JournalOperation) btree" where
  "index_by_id operations = fold (\<lambda>operation. bt_insert (jo_id operation) operation) operations []"

text \<open>
  The walk over the prerequisite closure. The stack is a list whose head is the top; a missing
  operation ends the walk without a proof.
\<close>

function proof_walk ::
  "(OperationId, JournalOperation) btree \<Rightarrow> ComponentId \<Rightarrow> VerificationRule \<Rightarrow> OperationId list
   \<Rightarrow> OperationId set \<Rightarrow> JournalOperation list \<Rightarrow> JournalOperation list option" where
  "proof_walk by_id component rule [] visited relevant = Some relevant"
| "proof_walk by_id component rule (operation_id # pending) visited relevant =
     (if operation_id \<in> visited then proof_walk by_id component rule pending visited relevant
      else case bt_get by_id operation_id of
        None \<Rightarrow> None
      | Some operation \<Rightarrow>
          proof_walk by_id component rule (rev (op_prerequisites (jo_operation operation)) @ pending)
            (insert operation_id visited)
            (if op_component (jo_operation operation) = component \<and> operation_matches_rule operation rule
             then relevant @ [operation] else relevant))"
  by pat_completeness auto

termination
proof (relation "measures [\<lambda>(by_id, _, _, _, visited, _). card (dom (bt_get by_id) - visited),
    \<lambda>(_, _, _, pending, _, _). length pending]")
  fix by_id :: "(OperationId, JournalOperation) btree" and component rule operation_id pending visited relevant x
  assume "operation_id \<notin> visited" "bt_get by_id operation_id = Some x"
  then have "card (dom (bt_get by_id) - insert operation_id visited) < card (dom (bt_get by_id) - visited)"
    by (intro psubset_card_mono) (auto simp: finite_dom_map_of)
  then show "((by_id, component, rule, rev (op_prerequisites (jo_operation x)) @ pending,
      insert operation_id visited,
      if op_component (jo_operation x) = component \<and> operation_matches_rule x rule then relevant @ [x] else relevant),
     by_id, component, rule, operation_id # pending, visited, relevant)
    \<in> measures [\<lambda>(by_id, _, _, _, visited, _). card (dom (bt_get by_id) - visited),
        \<lambda>(_, _, _, pending, _, _). length pending]"
    by simp
qed auto

definition terminal_operation :: "JournalOperation \<Rightarrow> bool" where
  "terminal_operation operation \<longleftrightarrow> jo_state operation \<in> {OperationState.Completed, OperationState.Skipped}"

definition operation_verification_proof ::
  "(str \<Rightarrow> ObjectId) \<Rightarrow> JournalOperation \<Rightarrow> TargetFacts \<Rightarrow> JournalOperation list \<Rightarrow> str option restore" where
  "operation_verification_proof content_id verification target operations =
     (case op_kind (jo_operation verification) of
        OperationKind.Verify rule \<Rightarrow>
          try_bind (validate_rule_shape rule) (\<lambda>_.
          Inr (case proof_walk
                      (index_by_id (filter (\<lambda>operation. jo_run_id operation = jo_run_id verification) operations))
                      (op_component (jo_operation verification)) rule
                      (rev (op_prerequisites (jo_operation verification))) {} [] of
                 None \<Rightarrow> None
               | Some relevant \<Rightarrow>
                   if list_ex (\<lambda>operation. \<not> terminal_operation operation) relevant then None
                   else if list_ex (operation_proves content_id rule) relevant then Some ''journal evidence''
                   else if relevant = [] \<and> target_satisfies content_id rule target then Some ''target facts''
                   else None))
      | _ \<Rightarrow> Inl (schema_error ''verification proof requested for a non-verify operation''))"

subsection \<open>The lifecycle of a component\<close>

datatype LifecycleStatus = Failed | ReauthRequired | RebootRequired | WaitingForUser | Skipped

definition indexed_ids :: "(OperationId, JournalOperation) btree \<Rightarrow> OperationId set" where
  "indexed_ids by_id = jo_id ` snd ` set by_id"

lemma indexed_ids_finite [simp]: "finite (indexed_ids by_id)"
  by (simp add: indexed_ids_def)

lemma indexed_ids_get: "bt_get by_id p = Some x \<Longrightarrow> insert (jo_id x) (indexed_ids by_id) = indexed_ids by_id"
  using map_of_SomeD [of by_id p x] by (force simp: indexed_ids_def intro!: insert_absorb)

type_synonym blocked_cache = "OperationId \<rightharpoonup> LifecycleStatus option"

text \<open>
  The memoised search for an unresolved prerequisite and its \<^verbatim>\<open>find_map\<close> over the prerequisites.
  The set \<open>visiting\<close> is restored before each return, so it is an argument here.
\<close>

function blocked_by_unresolved_prerequisite ::
  "(OperationId, JournalOperation) btree \<Rightarrow> JournalOperation \<Rightarrow> OperationId set \<Rightarrow> blocked_cache
   \<Rightarrow> LifecycleStatus option \<times> blocked_cache"
  and blocked_find ::
  "(OperationId, JournalOperation) btree \<Rightarrow> OperationId list \<Rightarrow> OperationId set \<Rightarrow> blocked_cache
   \<Rightarrow> LifecycleStatus option \<times> blocked_cache" where
  "blocked_by_unresolved_prerequisite by_id operation visiting cache =
     (case cache (jo_id operation) of
        Some status \<Rightarrow> (status, cache)
      | None \<Rightarrow>
          if jo_id operation \<in> visiting then (Some Failed, cache)
          else (case blocked_find by_id (op_prerequisites (jo_operation operation))
                       (insert (jo_id operation) visiting) cache of
                  (status, cache') \<Rightarrow> (status, cache'(jo_id operation \<mapsto> status))))"
| "blocked_find by_id [] visiting cache = (None, cache)"
| "blocked_find by_id (p # ps) visiting cache =
     (case bt_get by_id p of
        None \<Rightarrow> blocked_find by_id ps visiting cache
      | Some prerequisite \<Rightarrow>
          if jo_state prerequisite \<in> {OperationState.Failed, OperationState.Interrupted, OperationState.Cancelled}
          then (Some Failed, cache)
          else if jo_state prerequisite = OperationState.WaitingForReboot then (Some RebootRequired, cache)
          else if jo_state prerequisite = OperationState.WaitingForUser
          then (Some (if operation_requires_reauth prerequisite then ReauthRequired else WaitingForUser), cache)
          else if jo_state prerequisite \<in> {OperationState.Pending, OperationState.Running}
          then (case blocked_by_unresolved_prerequisite by_id prerequisite visiting cache of
                  (Some status, cache') \<Rightarrow> (Some status, cache')
                | (None, cache') \<Rightarrow> blocked_find by_id ps visiting cache')
          else blocked_find by_id ps visiting cache)"
  by pat_completeness auto

termination
proof (relation "measures
    [\<lambda>x. case x of Inl (by_id, operation, visiting, _) \<Rightarrow> card (insert (jo_id operation) (indexed_ids by_id) - visiting)
                 | Inr (by_id, _, visiting, _) \<Rightarrow> card (indexed_ids by_id - visiting),
     \<lambda>x. case x of Inl _ \<Rightarrow> 0 | Inr (_, ps, _, _) \<Rightarrow> Suc (length ps)]", goal_cases)
  case (2 by_id operation visiting cache)
  then have "card (indexed_ids by_id - insert (jo_id operation) visiting)
      < card (insert (jo_id operation) (indexed_ids by_id) - visiting)"
    by (intro psubset_card_mono) auto
  then show ?case by simp
next
  case (4 by_id p ps visiting cache x)
  then show ?case by (simp add: indexed_ids_get)
qed auto

text \<open>The flags the loop over the operations of a component collects.\<close>

record LifecycleFlags =
  lf_reauth :: bool
  lf_reboot :: bool
  lf_waiting :: bool
  lf_skipped :: bool
  lf_incomplete :: bool

fun lifecycle_scan ::
  "(OperationId, JournalOperation) btree \<Rightarrow> JournalOperation list \<Rightarrow> blocked_cache \<Rightarrow> LifecycleFlags
   \<Rightarrow> LifecycleFlags option" where
  "lifecycle_scan by_id [] cache flags = Some flags"
| "lifecycle_scan by_id (operation # operations) cache flags =
     (case jo_state operation of
        OperationState.Failed \<Rightarrow> None
      | OperationState.Interrupted \<Rightarrow> None
      | OperationState.Cancelled \<Rightarrow> None
      | OperationState.Completed \<Rightarrow> lifecycle_scan by_id operations cache flags
      | OperationState.Skipped \<Rightarrow> lifecycle_scan by_id operations cache (flags\<lparr>lf_skipped := True\<rparr>)
      | OperationState.WaitingForReboot \<Rightarrow> lifecycle_scan by_id operations cache (flags\<lparr>lf_reboot := True\<rparr>)
      | OperationState.WaitingForUser \<Rightarrow>
          lifecycle_scan by_id operations cache
            (if operation_requires_reauth operation then flags\<lparr>lf_reauth := True\<rparr> else flags\<lparr>lf_waiting := True\<rparr>)
      | _ \<Rightarrow>
          (case blocked_by_unresolved_prerequisite by_id operation {} cache of
             (Some Failed, _) \<Rightarrow> None
           | (Some ReauthRequired, cache) \<Rightarrow> lifecycle_scan by_id operations cache (flags\<lparr>lf_reauth := True\<rparr>)
           | (Some RebootRequired, cache) \<Rightarrow> lifecycle_scan by_id operations cache (flags\<lparr>lf_reboot := True\<rparr>)
           | (Some WaitingForUser, cache) \<Rightarrow> lifecycle_scan by_id operations cache (flags\<lparr>lf_waiting := True\<rparr>)
           | (_, cache) \<Rightarrow> lifecycle_scan by_id operations cache (flags\<lparr>lf_incomplete := True\<rparr>)))"

definition operation_lifecycle :: "JournalOperation list \<Rightarrow> LifecycleStatus option" where
  "operation_lifecycle operations =
     (case lifecycle_scan (index_by_id operations) operations Map.empty
             \<lparr>lf_reauth = False, lf_reboot = False, lf_waiting = False, lf_skipped = False, lf_incomplete = False\<rparr> of
        None \<Rightarrow> Some Failed
      | Some flags \<Rightarrow>
          if lf_incomplete flags then Some Failed
          else if lf_reauth flags then Some ReauthRequired
          else if lf_reboot flags then Some RebootRequired
          else if lf_waiting flags then Some WaitingForUser
          else if lf_skipped flags \<and> list_all (\<lambda>operation. jo_state operation = OperationState.Skipped) operations
          then Some Skipped
          else None)"

definition action_unresolved :: "ManualAction \<Rightarrow> bool" where
  "action_unresolved action \<longleftrightarrow> ma_state action \<in> {ManualActionState.Pending, Acknowledged}"

definition action_requires_reauth :: "ManualAction \<Rightarrow> bool" where
  "action_requires_reauth action \<longleftrightarrow>
     (case ma_verification action of None \<Rightarrow> False | Some rule \<Rightarrow> rule_requires_reauth rule)"

definition manual_action_lifecycle :: "ManualAction list \<Rightarrow> LifecycleStatus option" where
  "manual_action_lifecycle actions =
     (if list_ex (\<lambda>action. action_unresolved action \<and> action_requires_reauth action) actions
      then Some ReauthRequired
      else if list_ex action_unresolved actions then Some WaitingForUser
      else if list_ex (\<lambda>action. ma_state action = ManualActionState.Skipped) actions then Some Skipped
      else None)"

text \<open>The fold keeps the more severe of the two lifecycles.\<close>

definition worse_lifecycle :: "LifecycleStatus option \<Rightarrow> LifecycleStatus \<Rightarrow> LifecycleStatus" where
  "worse_lifecycle current next =
     (if current = Some Failed \<or> next = Failed then Failed
      else if current = Some ReauthRequired \<or> next = ReauthRequired then ReauthRequired
      else if current = Some RebootRequired \<or> next = RebootRequired then RebootRequired
      else if current = Some WaitingForUser \<or> next = WaitingForUser then WaitingForUser
      else Skipped)"

definition combine_component_status ::
  "ReportStatus \<Rightarrow> LifecycleStatus option \<Rightarrow> LifecycleStatus option \<Rightarrow> ReportStatus" where
  "combine_component_status rule_status lifecycle manual_lifecycle =
     (if rule_status = ReportStatus.Failed then ReportStatus.Failed
      else case fold (\<lambda>next current. Some (worse_lifecycle current next))
                  (List.map_filter id [lifecycle, manual_lifecycle]) None of
        Some Failed \<Rightarrow> ReportStatus.Failed
      | Some ReauthRequired \<Rightarrow> ReportStatus.ReauthRequired
      | Some RebootRequired \<Rightarrow> ReportStatus.RebootRequired
      | Some WaitingForUser \<Rightarrow> ReportStatus.WaitingForUser
      | Some Skipped \<Rightarrow>
          if rule_status = AlreadyPresent then AlreadyPresent
          else if rule_status = Verified then PartiallyVerified
          else ReportStatus.Skipped
      | None \<Rightarrow> rule_status)"

subsection \<open>Evaluating a rule\<close>

record RuleEvaluation =
  re_status :: ReportStatus
  re_summary :: str
  re_observed_at :: DateTime

definition failed_evaluation :: "DateTime \<Rightarrow> str \<Rightarrow> RuleEvaluation" where
  "failed_evaluation observed_at summary =
     \<lparr>re_status = ReportStatus.Failed, re_summary = summary, re_observed_at = observed_at\<rparr>"

definition operation_time :: "JournalOperation \<Rightarrow> DateTime option" where
  "operation_time operation =
     (case jo_ended_at operation of Some t \<Rightarrow> Some t | None \<Rightarrow> jo_started_at operation)"

definition observed_at :: "DateTime \<Rightarrow> JournalOperation list \<Rightarrow> DateTime" where
  "observed_at now operations =
     (case List.map_filter operation_time operations of [] \<Rightarrow> now | t # ts \<Rightarrow> fold max ts t)"

fun already_present_summary :: "VerificationRule \<Rightarrow> str" where
  "already_present_summary (ProviderIdentity _ _) = ''target already contains the verified provider package''"
| "already_present_summary (Environment _ _ _) = ''target already contains the verified environment value hash''"
| "already_present_summary (WslState _ _) = ''target already contains the requested WSL state''"
| "already_present_summary (DockerObject _ _) = ''target already contains the requested Docker object''"
| "already_present_summary _ = ''target already satisfied this verification rule''"

definition verified_summary :: "VerificationRule \<Rightarrow> bool \<Rightarrow> str" where
  "verified_summary rule already_present =
     (if already_present then already_present_summary rule
      else case rule of
        ProviderIdentity _ _ \<Rightarrow> ''provider package identity was verified''
      | File _ _ \<Rightarrow> ''file content was verified by BLAKE3 evidence''
      | FileVersion _ _ _ \<Rightarrow> ''file version and publisher metadata were verified''
      | ConfigParses _ _ \<Rightarrow> ''configuration was parsed and verified''
      | Environment _ _ _ \<Rightarrow> ''environment value hash was verified without exposing its value''
      | McpRegistration _ _ \<Rightarrow> ''MCP registration was verified without exposing secret values''
      | WslState _ _ \<Rightarrow> ''WSL state was verified''
      | DockerObject _ _ \<Rightarrow> ''Docker object identity was verified''
      | BrowserArtifact _ \<Rightarrow> ''browser portable artifact was verified''
      | SecureTarget _ \<Rightarrow> ''secure target adapter reported verification'')"

text \<open>The first pass over the relevant operations: an operation that is not done decides the rule.\<close>

fun unfinished_evaluation :: "DateTime \<Rightarrow> JournalOperation list \<Rightarrow> RuleEvaluation option" where
  "unfinished_evaluation observed [] = None"
| "unfinished_evaluation observed (operation # operations) =
     (case jo_state operation of
        OperationState.WaitingForUser \<Rightarrow>
          Some (if operation_requires_reauth operation
                then \<lparr>re_status = ReportStatus.ReauthRequired,
                      re_summary = ''UNVERIFIED: reauthentication or secret binding is required'',
                      re_observed_at = observed\<rparr>
                else \<lparr>re_status = ReportStatus.WaitingForUser,
                      re_summary = ''UNVERIFIED: user action is required before verification can finish'',
                      re_observed_at = observed\<rparr>)
      | OperationState.WaitingForReboot \<Rightarrow>
          Some \<lparr>re_status = ReportStatus.RebootRequired,
                re_summary = ''UNVERIFIED: reboot is required before verification can finish'',
                re_observed_at = observed\<rparr>
      | OperationState.Completed \<Rightarrow> unfinished_evaluation observed operations
      | OperationState.Skipped \<Rightarrow> unfinished_evaluation observed operations
      | OperationState.Pending \<Rightarrow> Some (failed_evaluation observed ''UNVERIFIED: operation did not reach a terminal state'')
      | OperationState.Running \<Rightarrow> Some (failed_evaluation observed ''UNVERIFIED: operation did not reach a terminal state'')
      | _ \<Rightarrow> Some (failed_evaluation observed ''UNVERIFIED: operation failed''))"

definition evaluate_rule ::
  "(str \<Rightarrow> ObjectId) \<Rightarrow> DateTime \<Rightarrow> VerificationRule \<Rightarrow> Component \<Rightarrow> TargetFacts \<Rightarrow> JournalOperation list
   \<Rightarrow> ManualAction list \<Rightarrow> LifecycleStatus option \<Rightarrow> RuleEvaluation" where
  "evaluate_rule content_id now rule component target operations actions lifecycle =
     (let relevant = relevant_operations rule operations; observed = observed_at now relevant in
      if lifecycle = Some Failed
      then failed_evaluation observed
             ''UNVERIFIED: a selected component operation failed or did not reach a terminal state''
      else case unfinished_evaluation observed relevant of
        Some evaluation \<Rightarrow> evaluation
      | None \<Rightarrow>
      (case find (\<lambda>operation. terminal_operation operation \<and> operation_proves content_id rule operation) relevant of
         Some operation \<Rightarrow>
           (let already_present = (jo_state operation = OperationState.Skipped)
            in \<lparr>re_status = (if already_present then AlreadyPresent else Verified),
                re_summary = verified_summary rule already_present,
                re_observed_at = (case operation_time operation of Some t \<Rightarrow> t | None \<Rightarrow> observed)\<rparr>)
       | None \<Rightarrow>
      if relevant = [] \<and> target_satisfies content_id rule target
      then \<lparr>re_status = AlreadyPresent, re_summary = already_present_summary rule, re_observed_at = observed\<rparr>
      else if rule_requires_reauth rule
      then \<lparr>re_status = ReportStatus.ReauthRequired,
            re_summary = ''UNVERIFIED: secure target proof or secret binding is required'',
            re_observed_at = observed\<rparr>
      else if list_ex (\<lambda>action. ma_verification action = Some rule \<and> action_unresolved action) actions
      then \<lparr>re_status = ReportStatus.WaitingForUser,
            re_summary = ''UNVERIFIED: user action is required before verification can finish'',
            re_observed_at = observed\<rparr>
      else if relevant = [] \<and> unsupported_restore (c_restore component)
      then \<lparr>re_status = ReportStatus.Unsupported,
            re_summary = ''UNVERIFIED: no automatic restore operation supports this verification rule'',
            re_observed_at = observed\<rparr>
      else failed_evaluation observed
             (if relevant = [] then ''UNVERIFIED: no matching verification evidence was recorded''
              else ''UNVERIFIED: recorded evidence did not prove the requested rule'')))"

subsection \<open>The report\<close>

definition push_unique :: "'a \<Rightarrow> 'a list \<Rightarrow> 'a list" where
  "push_unique x xs = (if x \<in> set xs then xs else xs @ [x])"

definition aggregate_statuses :: "ReportStatus list \<Rightarrow> ReportStatus option" where
  "aggregate_statuses statuses =
     (if ReportStatus.Failed \<in> set statuses then Some ReportStatus.Failed
      else if ReportStatus.ReauthRequired \<in> set statuses then Some ReportStatus.ReauthRequired
      else if ReportStatus.RebootRequired \<in> set statuses then Some ReportStatus.RebootRequired
      else if ReportStatus.WaitingForUser \<in> set statuses then Some ReportStatus.WaitingForUser
      else case statuses of
        [] \<Rightarrow> None
      | s # _ \<Rightarrow> Some (if list_all (\<lambda>status. status = s) statuses then s else PartiallyVerified))"

text \<open>The rules of a component: its own, those of its actions, those of its operations.\<close>

definition component_rules :: "Component \<Rightarrow> JournalOperation list \<Rightarrow> ManualAction list \<Rightarrow> VerificationRule list" where
  "component_rules component operations actions =
     (let with_actions =
            fold (\<lambda>action rules. case ma_verification action of None \<Rightarrow> rules | Some rule \<Rightarrow> push_unique rule rules)
              actions (c_verification component)
      in fold (\<lambda>operation rules.
                let rules = fold push_unique (op_verification (jo_operation operation)) rules
                in case op_kind (jo_operation operation) of
                     OperationKind.Verify rule \<Rightarrow> push_unique rule rules | _ \<Rightarrow> rules)
              operations with_actions)"

definition warning_status :: "ReportStatus \<Rightarrow> bool" where
  "warning_status status \<longleftrightarrow>
     status \<in> {ReportStatus.Failed, ReportStatus.Unsupported, ReportStatus.WaitingForUser,
               ReportStatus.ReauthRequired, ReportStatus.RebootRequired}"

text \<open>One round of the loop over the rules.\<close>

definition report_rule ::
  "(VerificationRule \<Rightarrow> RuleEvaluation) \<Rightarrow> VerificationRule \<Rightarrow> VerificationEvidence list \<times> str list
   \<Rightarrow> (VerificationEvidence list \<times> str list) restore" where
  "report_rule evaluate rule = (\<lambda>(evidence, warnings).
     try_bind (validate_rule_shape rule) (\<lambda>_.
     let evaluation = evaluate rule
     in Inr (evidence @ [\<lparr>ve_rule = rule, ve_status = re_status evaluation, ve_summary = re_summary evaluation,
                         ve_observed_at = re_observed_at evaluation\<rparr>],
             if warning_status (re_status evaluation) then push_unique (re_summary evaluation) warnings
             else warnings)))"

definition build_component_report ::
  "(str \<Rightarrow> ObjectId) \<Rightarrow> DateTime \<Rightarrow> Component \<Rightarrow> TargetFacts \<Rightarrow> JournalOperation list \<Rightarrow> ManualAction list
   \<Rightarrow> ComponentReport restore" where
  "build_component_report content_id now component target operations actions =
     (let rules = component_rules component operations actions;
          lifecycle = operation_lifecycle operations
      in try_bind
           (if rules = [] then Inr ([], [''UNVERIFIED: selected component has no verification rule''])
            else try_fold (report_rule (\<lambda>rule.
                   evaluate_rule content_id now rule component target operations actions lifecycle)) rules ([], []))
           (\<lambda>(evidence, warnings).
         let status =
               (if rules = [] then ReportStatus.Failed
                else combine_component_status
                       (case aggregate_statuses (map ve_status evidence) of
                          None \<Rightarrow> ReportStatus.Failed | Some s \<Rightarrow> s)
                       lifecycle (manual_action_lifecycle actions))
         in Inr \<lparr>cpr_component = c_id component, cpr_status = status, cpr_evidence = evidence,
                 cpr_manual_actions = map ma_id actions,
                 cpr_warnings =
                   (if status \<in> {ReportStatus.Failed, ReportStatus.Unsupported} \<and> warnings = []
                    then [''UNVERIFIED: component was not fully proven''] else warnings)\<rparr>))"

definition missing_component_report :: "ComponentId \<Rightarrow> ComponentReport" where
  "missing_component_report component =
     \<lparr>cpr_component = component, cpr_status = ReportStatus.Failed, cpr_evidence = [], cpr_manual_actions = [],
      cpr_warnings = [''UNVERIFIED: selected component has no package definition or verification rule'']\<rparr>"

definition index_component ::
  "Component \<Rightarrow> (ComponentId, Component) btree \<Rightarrow> (ComponentId, Component) btree restore" where
  "index_component component index =
     (case bt_get index (c_id component) of
        Some previous \<Rightarrow>
          if previous \<noteq> component
          then Inl (schema_error ''package graph contains conflicting definitions for one component'')
          else Inr (bt_insert (c_id component) component index)
      | None \<Rightarrow> Inr (bt_insert (c_id component) component index))"

definition index_components :: "Component list \<Rightarrow> (ComponentId, Component) btree restore" where
  "index_components components = try_fold index_component components []"

definition unique_selected_components :: "ComponentId list \<Rightarrow> ComponentId set restore" where
  "unique_selected_components selected =
     try_fold (\<lambda>component unique.
       if component \<in> unique
       then Inl (schema_error ''restore report selection contains duplicate component IDs'')
       else Inr (insert component unique)) selected {}"

fun count_report :: "ReportStatus \<Rightarrow> ReportCounts \<Rightarrow> ReportCounts" where
  "count_report Verified c = c\<lparr>rc_verified := rc_verified c + 1\<rparr>"
| "count_report PartiallyVerified c = c\<lparr>rc_partial := rc_partial c + 1\<rparr>"
| "count_report ReportStatus.Skipped c = c\<lparr>rc_partial := rc_partial c + 1\<rparr>"
| "count_report AlreadyPresent c = c\<lparr>rc_already_present := rc_already_present c + 1\<rparr>"
| "count_report ReportStatus.WaitingForUser c = c\<lparr>rc_waiting_for_user := rc_waiting_for_user c + 1\<rparr>"
| "count_report ReportStatus.ReauthRequired c = c\<lparr>rc_reauth_required := rc_reauth_required c + 1\<rparr>"
| "count_report ReportStatus.RebootRequired c = c\<lparr>rc_reboot_required := rc_reboot_required c + 1\<rparr>"
| "count_report ReportStatus.Unsupported c = c\<lparr>rc_unsupported := rc_unsupported c + 1\<rparr>"
| "count_report ReportStatus.Failed c = c\<lparr>rc_failed := rc_failed c + 1\<rparr>"

definition report_counts :: "ComponentReport list \<Rightarrow> ReportCounts" where
  "report_counts reports =
     fold (\<lambda>report. count_report (cpr_status report)) reports
       \<lparr>rc_verified = 0, rc_partial = 0, rc_already_present = 0, rc_waiting_for_user = 0,
        rc_reauth_required = 0, rc_reboot_required = 0, rc_unsupported = 0, rc_failed = 0\<rparr>"

definition report_text :: "str \<Rightarrow> str" where
  "report_text v = (case policy_redact_text default_policy v of Some t \<Rightarrow> t | None \<Rightarrow> ''<REDACTED>'')"

definition redact_component_report :: "ComponentReport \<Rightarrow> ComponentReport" where
  "redact_component_report r =
     r\<lparr>cpr_warnings := map report_text (cpr_warnings r),
       cpr_manual_actions := map report_text (cpr_manual_actions r),
       cpr_evidence := map (\<lambda>e. e\<lparr>ve_summary := report_text (ve_summary e)\<rparr>) (cpr_evidence r)\<rparr>"

definition redact_restore_report :: "RestoreReport \<Rightarrow> RestoreReport" where
  "redact_restore_report report =
     report\<lparr>rr_package_id := report_text (rr_package_id report),
       rr_warnings := map report_text (rr_warnings report),
       rr_components := map redact_component_report (rr_components report),
       rr_manual_actions := map (\<lambda>action.
         action\<lparr>ma_title := report_text (ma_title action), ma_reason := report_text (ma_reason action),
                ma_instructions := map report_text (ma_instructions action)\<rparr>) (rr_manual_actions report)\<rparr>"

text \<open>One selected component: its report from the operations and actions that name it.\<close>

definition report_component ::
  "(str \<Rightarrow> ObjectId) \<Rightarrow> DateTime \<Rightarrow> VerificationInput \<Rightarrow> (ComponentId, Component) btree \<Rightarrow> ComponentId
   \<Rightarrow> ComponentReport restore" where
  "report_component content_id now input index component_id =
     (case bt_get index component_id of
        Some component \<Rightarrow>
          build_component_report content_id now component (vi_target input)
            (filter (\<lambda>operation. op_component (jo_operation operation) = component_id) (vi_operations input))
            (filter (\<lambda>action. ma_component action = Some component_id) (vi_manual_actions input))
      | None \<Rightarrow> Inr (missing_component_report component_id))"

definition build_report ::
  "(str \<Rightarrow> ObjectId) \<Rightarrow> DateTime \<Rightarrow> VerificationInput \<Rightarrow> RestoreReport restore" where
  "build_report content_id now input =
     try_bind (index_components (vi_components input)) (\<lambda>index.
     try_bind (unique_selected_components (vi_selected_components input)) (\<lambda>_.
     try_bind (try_map (report_component content_id now input index) (vi_selected_components input)) (\<lambda>reports.
     let warnings =
           vi_warnings input
           @ (if vi_selected_components input = []
              then [''UNVERIFIED: no components were selected for restore''] else [])
           @ map (\<lambda>i. ''UNVERIFIED: selected component '' @ i @ '' is missing from the package graph'')
               (filter (\<lambda>i. bt_get index i = None) (vi_selected_components input))
     in Inr (redact_restore_report
          \<lparr>rr_format_version = REPORT_FORMAT_VERSION, rr_run_id = vi_run_id input,
           rr_package_id = vi_package_id input,
           rr_status = (case aggregate_statuses (map cpr_status reports) of
                          None \<Rightarrow> ReportStatus.Failed | Some s \<Rightarrow> s),
           rr_counts = report_counts reports, rr_components = reports,
           rr_manual_actions = vi_manual_actions input, rr_warnings = warnings,
           rr_elapsed_ms = vi_elapsed_ms input, rr_bytes_written = vi_bytes_written input\<rparr>))))"

definition verify_plan ::
  "(str \<Rightarrow> ObjectId) \<Rightarrow> DateTime \<Rightarrow> TargetFacts \<Rightarrow> RestorePlan \<Rightarrow> PackageGraph \<Rightarrow> JournalOperation list
   \<Rightarrow> RestoreReport restore" where
  "verify_plan content_id now target plan graph operations =
     build_report content_id now (from_plan target plan graph operations)"

end
