(* ===== verification/VerificationSafety.thy ===== *)
theory VerificationSafety
  imports Verification Selection
begin

text \<open>
  What the verifier guarantees: the walk behind a planned verification is exactly the prerequisite
  closure, a component is reported verified only when every rule is proven by a completed operation
  and nothing of it is left open, and every selected component is accounted for.
\<close>

subsection \<open>The walk is the prerequisite closure\<close>

definition prerequisite_rel :: "(OperationId, JournalOperation) btree \<Rightarrow> (OperationId \<times> OperationId) set" where
  "prerequisite_rel by_id =
     {(i, p). \<exists>operation. bt_get by_id i = Some operation \<and> p \<in> set (op_prerequisites (jo_operation operation))}"

lemma prerequisite_rel_image:
  "bt_get by_id i = Some operation \<Longrightarrow> prerequisite_rel by_id `` {i} = set (op_prerequisites (jo_operation operation))"
  by (auto simp: prerequisite_rel_def)

definition rule_operations ::
  "(OperationId, JournalOperation) btree \<Rightarrow> ComponentId \<Rightarrow> VerificationRule \<Rightarrow> OperationId set \<Rightarrow> JournalOperation set" where
  "rule_operations by_id component rule ids =
     {operation. (\<exists>i \<in> ids. bt_get by_id i = Some operation)
        \<and> op_component (jo_operation operation) = component \<and> operation_matches_rule operation rule}"

lemma search_inv_weaken: "search_inv R X S P \<Longrightarrow> P \<subseteq> P' \<Longrightarrow> P' \<subseteq> S \<Longrightarrow> search_inv R X S P'"
  by (auto simp: search_inv_def)

lemma walk_spec:
  assumes "search_inv (prerequisite_rel by_id) X (visited \<union> set pending) (set pending - visited)"
    and "visited \<subseteq> dom (bt_get by_id)" and "set relevant = rule_operations by_id component rule visited"
  shows "case proof_walk by_id component rule pending visited relevant of
      None \<Rightarrow> \<not> (prerequisite_rel by_id)\<^sup>* `` X \<subseteq> dom (bt_get by_id)
    | Some found \<Rightarrow> (prerequisite_rel by_id)\<^sup>* `` X \<subseteq> dom (bt_get by_id)
        \<and> set found = rule_operations by_id component rule ((prerequisite_rel by_id)\<^sup>* `` X)"
  using assms
proof (induction by_id component rule pending visited relevant rule: proof_walk.induct)
  case (1 by_id component rule visited relevant)
  then have "visited = (prerequisite_rel by_id)\<^sup>* `` X" using search_inv_done by fastforce
  with 1 show ?case by simp
next
  case (2 by_id component rule i pending visited relevant)
  let ?R = "prerequisite_rel by_id" and ?S = "visited \<union> set (i # pending)"
  show ?case
  proof (cases "i \<in> visited")
    case True
    then have "visited \<union> set (i # pending) = visited \<union> set pending"
      "set (i # pending) - visited = set pending - visited" by auto
    with 2 True show ?thesis by (simp del: set_simps)
  next
    case False
    note inv = 2(3) [unfolded search_inv_def]
    show ?thesis
    proof (cases "bt_get by_id i")
      case None
      have "i \<in> ?R\<^sup>* `` X" using inv by auto
      with None False show ?thesis by auto
    next
      case (Some operation)
      let ?new = "rev (op_prerequisites (jo_operation operation)) @ pending"
      have img: "?R `` {i} = set (op_prerequisites (jo_operation operation))"
        by (rule prerequisite_rel_image [OF Some])
      have "search_inv ?R X ?S (insert i (set pending - visited - {i}))"
        using 2(3) False by (simp add: insert_Diff_if)
      then have "search_inv ?R X (?S \<union> ?R `` {i}) (set pending - visited - {i} \<union> (?R `` {i} - ?S))"
        by (rule search_inv_step)
      moreover have "?S \<union> ?R `` {i} = insert i visited \<union> set ?new" using img by auto
      ultimately have "search_inv ?R X (insert i visited \<union> set ?new) (set ?new - insert i visited)"
        using img by (auto elim!: search_inv_weaken)
      moreover have "insert i visited \<subseteq> dom (bt_get by_id)" using 2(4) Some by auto
      moreover have "set (if op_component (jo_operation operation) = component \<and> operation_matches_rule operation rule
          then relevant @ [operation] else relevant) = rule_operations by_id component rule (insert i visited)"
        using 2(5) Some by (auto simp: rule_operations_def)
      ultimately show ?thesis using 2(2) [OF False Some] Some False by simp
    qed
  qed
qed

subsection \<open>A component is verified only when everything is\<close>

definition flagged :: "LifecycleFlags \<Rightarrow> bool" where
  "flagged flags \<longleftrightarrow> lf_reauth flags \<or> lf_reboot flags \<or> lf_waiting flags \<or> lf_incomplete flags"

lemma flagged_simps [simp]:
  "flagged (flags\<lparr>lf_reauth := True\<rparr>)" "flagged (flags\<lparr>lf_reboot := True\<rparr>)" "flagged (flags\<lparr>lf_waiting := True\<rparr>)"
  "flagged (flags\<lparr>lf_incomplete := True\<rparr>)" "flagged (flags\<lparr>lf_skipped := b\<rparr>) = flagged flags"
  by (simp_all add: flagged_def)

lemma lifecycle_scan_flags:
  "lifecycle_scan by_id operations cache flags = Some flags' \<Longrightarrow>
   (flagged flags \<longrightarrow> flagged flags') \<and> (\<forall>operation \<in> set operations. terminal_operation operation \<or> flagged flags')"
proof (induction operations arbitrary: cache flags)
  case (Cons operation operations)
  show ?case
    using Cons.prems Cons.IH
    by (cases "jo_state operation")
      (fastforce simp: terminal_operation_def split: if_splits prod.splits option.splits LifecycleStatus.splits)+
qed simp

lemma lifecycle_terminal:
  assumes "operation_lifecycle operations \<in> {None, Some Skipped}"
  shows "\<forall>operation \<in> set operations. terminal_operation operation"
proof -
  obtain flags where scan: "lifecycle_scan (index_by_id operations) operations Map.empty
      \<lparr>lf_reauth = False, lf_reboot = False, lf_waiting = False, lf_skipped = False, lf_incomplete = False\<rparr> = Some flags"
    and "\<not> flagged flags"
    using assms by (auto simp: operation_lifecycle_def flagged_def split: option.splits if_splits)
  then show ?thesis using lifecycle_scan_flags [OF scan] by auto
qed

lemma manual_lifecycle_None:
  "manual_action_lifecycle actions = None \<longleftrightarrow> (\<forall>action \<in> set actions. ma_state action = ManualActionState.Completed)"
proof -
  have "ma_state a = ManualActionState.Completed
      \<longleftrightarrow> \<not> action_unresolved a \<and> ma_state a \<noteq> ManualActionState.Skipped" for a :: ManualAction
    by (cases "ma_state a") (simp_all add: action_unresolved_def)
  then show ?thesis by (auto simp: manual_action_lifecycle_def list_ex_iff)
qed

lemma combine_verified:
  "combine_component_status rule_status lifecycle manual_lifecycle = Verified \<longleftrightarrow>
   rule_status = Verified \<and> lifecycle = None \<and> manual_lifecycle = None"
  unfolding combine_component_status_def
  by (cases lifecycle; cases manual_lifecycle) (simp_all add: List.map_filter_simps split: LifecycleStatus.split)

lemma aggregate_verified:
  "aggregate_statuses statuses = Some Verified \<longleftrightarrow> statuses \<noteq> [] \<and> (\<forall>s \<in> set statuses. s = Verified)"
  by (cases statuses) (auto simp: aggregate_statuses_def list_all_iff split: if_splits)

lemma unfinished_not_verified: "unfinished_evaluation t operations = Some e \<Longrightarrow> re_status e \<noteq> Verified"
  by (induction t operations rule: unfinished_evaluation.induct)
    (auto simp: failed_evaluation_def split: OperationState.splits if_splits)

lemma evaluate_verified:
  assumes "re_status (evaluate_rule content_id now rule component target operations actions lifecycle) = Verified"
  shows "\<exists>operation \<in> set operations. jo_state operation = OperationState.Completed
    \<and> operation_matches_rule operation rule \<and> operation_proves content_id rule operation"
proof -
  obtain operation where found: "find (\<lambda>operation. terminal_operation operation
      \<and> operation_proves content_id rule operation) (relevant_operations rule operations) = Some operation"
    and "jo_state operation \<noteq> OperationState.Skipped"
    using assms unfinished_not_verified
    by (auto simp: evaluate_rule_def Let_def failed_evaluation_def split: if_splits option.splits)
  then have "operation \<in> set (relevant_operations rule operations)" "terminal_operation operation"
    "operation_proves content_id rule operation"
    by (auto simp: find_Some_iff)
  with \<open>jo_state operation \<noteq> OperationState.Skipped\<close> show ?thesis
    by (auto simp: relevant_operations_def terminal_operation_def)
qed

subsection \<open>From rules to reports\<close>

lemma report_rules:
  assumes "try_fold (report_rule evaluate) rules (evidence, warnings) = Inr (evidence', warnings')"
  shows "map ve_rule evidence' = map ve_rule evidence @ rules
    \<and> map ve_status evidence' = map ve_status evidence @ map (\<lambda>rule. re_status (evaluate rule)) rules"
  using assms
proof (induction rules arbitrary: evidence warnings)
  case (Cons rule rules)
  from Cons.prems obtain evidence1 warnings1 where
    "report_rule evaluate rule (evidence, warnings) = Inr (evidence1, warnings1)"
    and rest: "try_fold (report_rule evaluate) rules (evidence1, warnings1) = Inr (evidence', warnings')"
    by (auto simp: result_simps)
  then show ?case using Cons.IH [OF rest] by (auto simp: report_rule_def result_simps Let_def)
qed simp

definition component_proven ::
  "(str \<Rightarrow> ObjectId) \<Rightarrow> Component \<Rightarrow> JournalOperation list \<Rightarrow> ManualAction list \<Rightarrow> bool" where
  "component_proven content_id component operations actions \<longleftrightarrow>
     component_rules component operations actions \<noteq> []
     \<and> (\<forall>operation \<in> set operations. terminal_operation operation)
     \<and> (\<forall>action \<in> set actions. ma_state action = ManualActionState.Completed)
     \<and> (\<forall>rule \<in> set (component_rules component operations actions).
          \<exists>operation \<in> set operations. jo_state operation = OperationState.Completed
            \<and> operation_matches_rule operation rule \<and> operation_proves content_id rule operation)"

lemma component_report_verified:
  assumes report: "build_component_report content_id now component target operations actions = Inr r"
    and verified: "cpr_status r = Verified"
  shows "cpr_component r = c_id component \<and> component_proven content_id component operations actions"
proof -
  let ?rules = "component_rules component operations actions" and ?lifecycle = "operation_lifecycle operations"
  let ?evaluate = "\<lambda>rule. evaluate_rule content_id now rule component target operations actions ?lifecycle"
  have rules: "?rules \<noteq> []" and c: "cpr_component r = c_id component"
    using assms by (auto simp: build_component_report_def Let_def result_simps split: if_splits)
  with report obtain evidence warnings where
    run: "try_fold (report_rule ?evaluate) ?rules ([], []) = Inr (evidence, warnings)"
    and status: "cpr_status r = combine_component_status
        (case aggregate_statuses (map ve_status evidence) of None \<Rightarrow> ReportStatus.Failed | Some s \<Rightarrow> s)
        ?lifecycle (manual_action_lifecycle actions)"
    by (auto simp: build_component_report_def Let_def result_simps)
  have agg: "aggregate_statuses (map ve_status evidence) = Some Verified"
    and none: "?lifecycle = None" "manual_action_lifecycle actions = None"
    using verified by (auto simp: status combine_verified split: option.splits)
  have "\<forall>rule \<in> set ?rules. re_status (?evaluate rule) = Verified"
    using agg report_rules [OF run] by (auto simp: aggregate_verified)
  then show ?thesis
    using rules c none lifecycle_terminal [of operations] evaluate_verified
    by (auto simp: component_proven_def manual_lifecycle_None)
qed

lemma index_component_insert:
  "Verification.index_component component index = Inr index' \<Longrightarrow> index' = bt_insert (c_id component) component index"
  by (auto simp: Verification.index_component_def split: option.splits if_splits)

lemma index_components_get:
  assumes "Verification.index_components components = Inr index" "bt_get index i = Some component"
  shows "component \<in> set components \<and> c_id component = i"
proof -
  let ?I = "\<lambda>m. bt_inv m \<and> (\<forall>i c. bt_get m i = Some c \<longrightarrow> c \<in> set components \<and> c_id c = i)"
  have "?I index"
  proof (rule try_fold_invariant [where I = ?I])
    show "try_fold Verification.index_component components [] = Inr index"
      using assms(1) by (simp add: Verification.index_components_def)
    fix x m m' assume x: "x \<in> set components" "?I m" "Verification.index_component x m = Inr m'"
    then have "bt_inv m'" "bt_get m' = (bt_get m)(c_id x \<mapsto> x)"
      using index_component_insert [OF x(3)] by (simp_all add: bt_inv_insert bt_get_insert)
    with x(1,2) show "?I m'" by auto
  qed simp
  with assms(2) show ?thesis by blast
qed

definition selected_operations :: "VerificationInput \<Rightarrow> ComponentId \<Rightarrow> JournalOperation list" where
  "selected_operations input i = filter (\<lambda>operation. op_component (jo_operation operation) = i) (vi_operations input)"

definition selected_actions :: "VerificationInput \<Rightarrow> ComponentId \<Rightarrow> ManualAction list" where
  "selected_actions input i = filter (\<lambda>action. ma_component action = Some i) (vi_manual_actions input)"

lemma report_component_verified:
  assumes "Verification.index_components (vi_components input) = Inr index"
    and "report_component content_id now input index i = Inr r" and "cpr_status r = Verified"
  shows "\<exists>component \<in> set (vi_components input). c_id component = i
    \<and> component_proven content_id component (selected_operations input i) (selected_actions input i)"
  using assms index_components_get [OF assms(1), of i] component_report_verified
  by (auto simp: report_component_def missing_component_report_def selected_operations_def selected_actions_def
      split: option.splits)

lemma report_component_id:
  assumes "Verification.index_components (vi_components input) = Inr index" "report_component content_id now input index i = Inr r"
  shows "cpr_component r = i"
  using assms index_components_get [OF assms(1), of i]
  by (auto simp: report_component_def missing_component_report_def build_component_report_def Let_def result_simps
      split: option.splits)

lemma redact_component_simps [simp]:
  "cpr_component (redact_component_report r) = cpr_component r"
  "cpr_status (redact_component_report r) = cpr_status r"
  by (simp_all add: redact_component_report_def)

lemma redact_report_simps [simp]:
  "rr_components (redact_restore_report r) = map redact_component_report (rr_components r)"
  "rr_counts (redact_restore_report r) = rr_counts r" "rr_status (redact_restore_report r) = rr_status r"
  by (simp_all add: redact_restore_report_def)

lemma build_report_components:
  assumes "build_report content_id now input = Inr report"
  obtains index reports where "Verification.index_components (vi_components input) = Inr index"
    and "try_map (report_component content_id now input index) (vi_selected_components input) = Inr reports"
    and "rr_components report = map redact_component_report reports" and "rr_counts report = report_counts reports"
    and "rr_status report = (case aggregate_statuses (map cpr_status reports) of None \<Rightarrow> ReportStatus.Failed | Some s \<Rightarrow> s)"
  using assms by (auto simp: build_report_def try_bind_Inr Let_def)

definition total_count :: "ReportCounts \<Rightarrow> nat" where
  "total_count c = rc_verified c + rc_partial c + rc_already_present c + rc_waiting_for_user c
     + rc_reauth_required c + rc_reboot_required c + rc_unsupported c + rc_failed c"

lemma count_report_simps [simp]:
  "total_count (count_report s c) = Suc (total_count c)"
  "rc_verified (count_report s c) = rc_verified c + (if s = Verified then 1 else 0)"
  "rc_failed (count_report s c) = rc_failed c + (if s = ReportStatus.Failed then 1 else 0)"
  by (cases s; simp add: total_count_def)+

lemma report_counts_fold:
  "total_count (fold (\<lambda>r. count_report (cpr_status r)) reports c) = total_count c + length reports"
  "rc_verified (fold (\<lambda>r. count_report (cpr_status r)) reports c)
   = rc_verified c + length (filter (\<lambda>r. cpr_status r = Verified) reports)"
  "rc_failed (fold (\<lambda>r. count_report (cpr_status r)) reports c)
   = rc_failed c + length (filter (\<lambda>r. cpr_status r = ReportStatus.Failed) reports)"
  by (induction reports arbitrary: c) simp_all

subsection \<open>A sample report\<close>

definition wsl_rule :: VerificationRule where "wsl_rule = WslState ''Ubuntu'' None"

definition wsl_component :: Component where
  "wsl_component = (sample_component ''cmp'' [] [])\<lparr>c_verification := [wsl_rule]\<rparr>"

definition wsl_operation :: Operation where
  "wsl_operation =
     \<lparr>op_id = ''a'', op_component = ''cmp'',
      op_kind = ImportWsl \<lparr>wsl_distribution = ''Ubuntu'', wsl_version = None\<rparr> ''obj'', op_prerequisites = [],
      op_precondition = Always, op_idempotency_key = ''key'', op_verification = [],
      op_requires_elevation = False, op_non_idempotent = True\<rparr>"

definition wsl_row :: JournalOperation where
  "wsl_row =
     \<lparr>jo_id = ''a'', jo_run_id = ''run'', jo_operation = wsl_operation, jo_state = OperationState.Completed,
      jo_attempt = 1, jo_started_at = Some 3, jo_ended_at = Some 4,
      jo_result = Some (Object [(''result'', Object [(''distribution'', String ''Ubuntu''),
        (''kind'', String ''wsl_distribution''), (''verified'', Bool True)])]),
      jo_error = None, jo_backup = None\<rparr>"

definition wsl_input :: VerificationInput where
  "wsl_input =
     \<lparr>vi_target = \<lparr>tf_host = \<lparr>hf_os_version = [], hf_os_build = [], hf_architecture = X64, hf_elevated = False,
          hf_account_scope = AccountScope.User, hf_sid_fingerprint = None, hf_known_folders = [], hf_drives = [],
          hf_free_bytes = []\<rparr>, tf_installed = [], tf_providers = [], tf_runtimes = [], tf_environment = [],
        tf_fingerprint = ''fp''\<rparr>,
      vi_operations = [wsl_row], vi_components = [wsl_component], vi_selected_components = [''cmp''],
      vi_manual_actions = [], vi_warnings = [], vi_run_id = ''run'', vi_package_id = ''pkg'',
      vi_elapsed_ms = 0, vi_bytes_written = 0\<rparr>"

lemma wsl_proves:
  "operation_matches_rule wsl_row wsl_rule" "operation_proves id wsl_rule wsl_row" "terminal_operation wsl_row"
  by (simp_all add: operation_matches_rule_def wsl_rule_def wsl_row_def wsl_operation_def version_matches_text_def
      operation_payloads_def value_get_def field_str_def field_bool_def terminal_operation_def)

lemma wsl_lifecycle: "operation_lifecycle [wsl_row] = None"
  by (simp add: operation_lifecycle_def wsl_row_def)

lemma wsl_rules: "component_rules wsl_component [wsl_row] [] = [wsl_rule]"
  by (simp add: component_rules_def wsl_component_def wsl_row_def wsl_operation_def Let_def)

lemma wsl_evaluation:
  "re_status (evaluate_rule id 9 wsl_rule wsl_component target [wsl_row] [] None) = Verified"
proof -
  have "relevant_operations wsl_rule [wsl_row] = [wsl_row]" by (simp add: relevant_operations_def wsl_proves)
  moreover have "jo_state wsl_row = OperationState.Completed" by (simp add: wsl_row_def)
  ultimately show ?thesis by (simp add: evaluate_rule_def wsl_proves Let_def)
qed

lemma wsl_component_report:
  "\<exists>r. build_component_report id 9 wsl_component target [wsl_row] [] = Inr r
     \<and> cpr_status r = Verified \<and> cpr_component r = ''cmp''"
proof -
  have "validate_rule_shape wsl_rule = Inr ()" by (simp add: validate_rule_shape_def wsl_rule_def)
  moreover have "c_id wsl_component = ''cmp''" by (simp add: wsl_component_def sample_component_def)
  ultimately show ?thesis
    by (simp add: build_component_report_def Let_def wsl_rules wsl_lifecycle report_rule_def wsl_evaluation
        warning_status_def aggregate_statuses_def combine_component_status_def List.map_filter_simps
        manual_action_lifecycle_def)
qed

lemma wsl_report:
  "\<exists>report r. build_report id 9 wsl_input = Inr report \<and> rr_components report = [r] \<and> cpr_status r = Verified"
proof -
  have ids: "c_id wsl_component = ''cmp''" by (simp add: wsl_component_def sample_component_def)
  obtain r where r: "build_component_report id 9 wsl_component (vi_target wsl_input) [wsl_row] [] = Inr r"
    and status: "cpr_status r = Verified" using wsl_component_report by blast
  have index: "Verification.index_components (vi_components wsl_input) = Inr [(''cmp'', wsl_component)]"
    by (simp add: Verification.index_components_def Verification.index_component_def wsl_input_def ids)
  have "filter (\<lambda>operation. op_component (jo_operation operation) = ''cmp'') (vi_operations wsl_input) = [wsl_row]"
    by (simp add: wsl_input_def wsl_row_def wsl_operation_def)
  moreover have "filter (\<lambda>action. ma_component action = Some ''cmp'') (vi_manual_actions wsl_input) = []"
    by (simp add: wsl_input_def)
  ultimately have one: "report_component id 9 wsl_input [(''cmp'', wsl_component)] ''cmp'' = Inr r"
    using r by (simp add: report_component_def)
  have selected: "vi_selected_components wsl_input = [''cmp'']" by (simp add: wsl_input_def)
  show ?thesis
    using status by (simp add: build_report_def index selected one unique_selected_components_def Let_def)
qed

subsection \<open>Properties\<close>

text \<open>
  C8. The final report is fail-closed: a component is reported \<^verbatim>\<open>VERIFIED\<close> only if it is in the
  package graph, has at least one verification rule, every one of its journalled operations is
  completed or skipped, every manual action for it is completed, and every rule is proven by the
  recorded result of a completed operation of the same component that the rule is about.
\<close>

theorem verified_component_proven:
  assumes "build_report content_id now input = Inr report"
    and "r \<in> set (rr_components report)" and "cpr_status r = Verified"
  shows "\<exists>component \<in> set (vi_components input). c_id component = cpr_component r
    \<and> component_proven content_id component (selected_operations input (cpr_component r))
        (selected_actions input (cpr_component r))"
proof -
  obtain index reports where index: "Verification.index_components (vi_components input) = Inr index"
    and run: "try_map (report_component content_id now input index) (vi_selected_components input) = Inr reports"
    and comps: "rr_components report = map redact_component_report reports"
    using assms(1) by (rule build_report_components)
  obtain k where k: "k < length reports" "r = redact_component_report (reports ! k)"
    using assms(2) by (auto simp: comps in_set_conv_nth)
  then have one: "report_component content_id now input index (vi_selected_components input ! k) = Inr (reports ! k)"
    using run by (simp add: try_map_Inr)
  have "cpr_component r = vi_selected_components input ! k"
    using report_component_id [OF index one] k by simp
  then show ?thesis using report_component_verified [OF index one] k assms(3) by simp
qed

theorem verified_component_proven_witness:
  "\<exists>component \<in> set (vi_components wsl_input).
     component_proven id component (selected_operations wsl_input (c_id component))
       (selected_actions wsl_input (c_id component))"
proof -
  obtain report r where "build_report id 9 wsl_input = Inr report" "rr_components report = [r]" "cpr_status r = Verified"
    using wsl_report by blast
  then show ?thesis using verified_component_proven [of id 9 wsl_input report r] by force
qed

text \<open>
  Every selected component is accounted for, in the order of the selection: the report has
  one entry for each, present in the graph or not, and the counts add up to their number, with
  the verified and the failed entries counted exactly.
\<close>

theorem report_accounts_for_selection:
  assumes "build_report content_id now input = Inr report"
  shows "map cpr_component (rr_components report) = vi_selected_components input
    \<and> total_count (rr_counts report) = length (vi_selected_components input)
    \<and> rc_verified (rr_counts report) = length (filter (\<lambda>r. cpr_status r = Verified) (rr_components report))
    \<and> rc_failed (rr_counts report) = length (filter (\<lambda>r. cpr_status r = ReportStatus.Failed) (rr_components report))"
proof -
  obtain index reports where index: "Verification.index_components (vi_components input) = Inr index"
    and run: "try_map (report_component content_id now input index) (vi_selected_components input) = Inr reports"
    and comps: "rr_components report = map redact_component_report reports"
    and counts: "rr_counts report = report_counts reports"
    using assms by (rule build_report_components)
  have "map cpr_component (rr_components report) = vi_selected_components input"
    using run report_component_id [OF index] by (auto simp: comps try_map_Inr intro!: nth_equalityI)
  moreover have "length reports = length (vi_selected_components input)" using run by (simp add: try_map_Inr)
  ultimately show ?thesis
    by (simp add: counts report_counts_def report_counts_fold comps filter_map o_def) (simp add: total_count_def)
qed

theorem report_accounts_for_selection_witness:
  "\<exists>report. build_report id 9 wsl_input = Inr report \<and> total_count (rr_counts report) = 1"
  using wsl_report report_accounts_for_selection [of id 9 wsl_input] by (auto simp: wsl_input_def)

text \<open>
  C28. A planned \<^verbatim>\<open>Verify\<close> operation is proven exactly when its whole prerequisite closure is
  journalled in the same run and, among the operations of the closure that belong to its component
  and that the rule is about, all are completed or skipped and either one of them recorded a proof,
  or there is none and the target facts satisfy the rule.
\<close>

theorem verification_proof_exact:
  fixes operations :: "JournalOperation list" and verification :: JournalOperation
  defines "by_id \<equiv> index_by_id (filter (\<lambda>operation. jo_run_id operation = jo_run_id verification) operations)"
  defines "closure \<equiv> (prerequisite_rel by_id)\<^sup>* `` set (op_prerequisites (jo_operation verification))"
  assumes "op_kind (jo_operation verification) = OperationKind.Verify rule"
  shows "(\<exists>source. operation_verification_proof content_id verification target operations = Inr (Some source))
    \<longleftrightarrow> validate_rule_shape rule = Inr () \<and> closure \<subseteq> dom (bt_get by_id)
      \<and> (let relevant = rule_operations by_id (op_component (jo_operation verification)) rule closure
         in (\<forall>operation \<in> relevant. terminal_operation operation)
            \<and> ((\<exists>operation \<in> relevant. operation_proves content_id rule operation)
               \<or> relevant = {} \<and> target_satisfies content_id rule target))"
proof -
  let ?X = "set (op_prerequisites (jo_operation verification))"
  let ?walk = "proof_walk by_id (op_component (jo_operation verification)) rule
      (rev (op_prerequisites (jo_operation verification))) {} []"
  have walk: "case ?walk of None \<Rightarrow> \<not> closure \<subseteq> dom (bt_get by_id)
    | Some found \<Rightarrow> closure \<subseteq> dom (bt_get by_id)
        \<and> set found = rule_operations by_id (op_component (jo_operation verification)) rule closure"
    unfolding closure_def
    by (rule walk_spec) (simp_all add: search_inv_start rule_operations_def)
  show ?thesis
    using assms(3) walk
    by (cases ?walk; cases "validate_rule_shape rule")
      (auto simp: operation_verification_proof_def by_id_def [symmetric] list_ex_iff Let_def simp flip: set_empty)
qed

theorem verification_proof_exact_witness:
  "\<exists>source. operation_verification_proof id
     (wsl_row\<lparr>jo_id := ''b'', jo_operation := wsl_operation\<lparr>op_kind := OperationKind.Verify wsl_rule,
        op_prerequisites := [''a'']\<rparr>\<rparr>) (vi_target wsl_input) [wsl_row] = Inr (Some source)"
proof -
  have "validate_rule_shape wsl_rule = Inr ()" by (simp add: validate_rule_shape_def wsl_rule_def)
  moreover have row: "jo_run_id wsl_row = ''run''" "jo_id wsl_row = ''a''" "jo_operation wsl_row = wsl_operation"
    by (simp_all add: wsl_row_def)
  moreover have "op_prerequisites wsl_operation = []" by (simp add: wsl_operation_def)
  ultimately show ?thesis
    by (subst verification_proof_exact [of _ wsl_rule])
      (auto simp: index_by_id_def prerequisite_rel_def rule_operations_def wsl_proves Let_def elim: converse_rtranclE)
qed

end
