(* ===== verification/ManualActions.thy ===== *)
theory ManualActions
  imports Handlers JournalSafety "HOL-Library.Sublist" "HOL-Library.Multiset"
begin

text \<open>
  Durable user actions and the secret gate of \<^verbatim>\<open>crates/reforge-restore/src/manual_actions.rs\<close>:
  the queue over the journal, the handler of the manual-action and reboot operations, and the gate
  that hands decrypted records to an adapter. Decryption and the adapter are parameters.
\<close>

definition queue_error :: "ReforgeErrorCode \<Rightarrow> str \<Rightarrow> ErrorEnvelope" where
  "queue_error ecode message = restore_error ecode message None None None (Some ''manual-action-queue'')"

definition secret_error :: "ReforgeErrorCode \<Rightarrow> str \<Rightarrow> ErrorEnvelope" where
  "secret_error ecode message = restore_error ecode message None None None (Some ''secret-restore'')"

definition operation_error :: "Operation \<Rightarrow> str \<Rightarrow> ErrorEnvelope" where
  "operation_error operation message =
     restore_error OperationFailed message None (Some (op_component operation)) (Some (op_id operation))
       (Some ''manual-action-operation'')"

definition safe_manual_text :: "str \<Rightarrow> str \<Rightarrow> str restore" where
  "safe_manual_text v field =
     try_bind (ok_or (queue_error SecurityPolicy ''manual action text is unsafe'')
                 (policy_redact_text default_policy v)) (\<lambda>safe.
     if safe = [] \<or> length safe > MAX_MANUAL_TEXT_BYTES \<or> has_control safe
     then Inl (queue_error SchemaInvalid (field @ '' is invalid''))
     else Inr safe)"

definition safe_action_id :: "str \<Rightarrow> str restore" where
  "safe_action_id v =
     try_bind (safe_manual_text v ''manual action ID'') (\<lambda>safe.
     if safe \<noteq> v
     then Inl (queue_error SecurityPolicy ''manual action ID contains sensitive text'')
     else Inr safe)"

definition normalize_manual_action :: "ManualAction \<Rightarrow> ManualAction restore" where
  "normalize_manual_action action =
     (if length (ma_instructions action) > MAX_MANUAL_INSTRUCTIONS
      then Inl (queue_error SecurityPolicy ''manual action has too many instructions'')
      else
      try_bind (safe_action_id (ma_id action)) (\<lambda>i.
      try_bind (safe_manual_text (ma_title action) ''manual action title'') (\<lambda>title.
      try_bind (safe_manual_text (ma_reason action) ''manual action reason'') (\<lambda>reason.
      try_bind (try_map (\<lambda>instruction. safe_manual_text instruction ''manual action instruction'')
                  (ma_instructions action)) (\<lambda>instructions.
      Inr (action\<lparr>ma_id := i, ma_title := title, ma_reason := reason, ma_instructions := instructions\<rparr>))))))"

definition operation_run_id :: "journal_env \<Rightarrow> Operation \<Rightarrow> RunId restore" where
  "operation_run_id env operation =
     (case strip_prefix (op_id operation) ''op_'' of
        None \<Rightarrow> Inl (operation_error operation ''operation ID has no run prefix'')
      | Some remainder \<Rightarrow>
          (case rsplit_once (CHR ''_'') remainder of
             None \<Rightarrow> Inl (operation_error operation ''operation ID has no run component'')
           | Some (run, ordinal) \<Rightarrow>
               (case RunId_try_from (je_uuid_parse env) run of
                  Inl _ \<Rightarrow> Inl (operation_error operation ''operation ID contains an invalid run'')
                | Inr i \<Rightarrow> Inr i)))"

fun manual_state_label :: "ManualActionState \<Rightarrow> str" where
  "manual_state_label ManualActionState.Pending = ''PENDING''"
| "manual_state_label Acknowledged = ''ACKNOWLEDGED''"
| "manual_state_label ManualActionState.Completed = ''COMPLETED''"
| "manual_state_label ManualActionState.Skipped = ''SKIPPED''"

subsection \<open>The queue\<close>

definition ensure_matches :: "JournalManualAction \<Rightarrow> ManualAction \<Rightarrow> JournalManualAction restore" where
  "ensure_matches existing action =
     (if jm_id existing = ma_id action \<and> jm_title existing = ma_title action
         \<and> jm_reason existing = ma_reason action \<and> jm_risk existing = ma_risk action
         \<and> jm_instructions existing = ma_instructions action
      then Inr existing
      else Inl (queue_error SecurityPolicy ''manual action identity is already bound to different instructions''))"

definition queue_get :: "journal_env \<Rightarrow> journal \<Rightarrow> RunId \<Rightarrow> str \<Rightarrow> JournalManualAction option restore" where
  "queue_get env j run_id action_id =
     try_bind (safe_action_id action_id) (\<lambda>action_id.
     try_bind (list_manual_actions env j run_id) (\<lambda>actions.
     Inr (find (\<lambda>action. jm_id action = action_id) actions)))"

definition queue_create ::
  "journal_env \<Rightarrow> RunId \<Rightarrow> ManualAction \<Rightarrow> DateTime \<Rightarrow> journal \<Rightarrow> JournalManualAction restore \<times> journal" where
  "queue_create env run_id action now j =
     (case normalize_manual_action action of
        Inl e \<Rightarrow> (Inl e, j)
      | Inr action \<Rightarrow>
          (case queue_get env j run_id (ma_id action) of
             Inl e \<Rightarrow> (Inl e, j)
           | Inr (Some existing) \<Rightarrow> (ensure_matches existing action, j)
           | Inr None \<Rightarrow>
               (case add_manual_action_record env run_id action now j of
                  (Inr created, j') \<Rightarrow> (Inr created, j')
                | (Inl error, j') \<Rightarrow>
                    (try_bind (queue_get env j' run_id (ma_id action)) (\<lambda>found.
                       case found of Some existing \<Rightarrow> ensure_matches existing action | None \<Rightarrow> Inl error),
                     j'))))"

definition queue_pending :: "journal_env \<Rightarrow> journal \<Rightarrow> RunId \<Rightarrow> JournalManualAction list restore" where
  "queue_pending env j run_id =
     try_bind (list_manual_actions env j run_id) (\<lambda>actions.
     Inr (filter (\<lambda>action. jm_state action = ManualActionState.Pending) actions))"

definition queue_unresolved :: "journal_env \<Rightarrow> journal \<Rightarrow> RunId \<Rightarrow> JournalManualAction list restore" where
  "queue_unresolved env j run_id =
     try_bind (list_manual_actions env j run_id) (\<lambda>actions.
     Inr (filter (\<lambda>action. jm_state action \<notin> {ManualActionState.Completed, ManualActionState.Skipped}) actions))"

definition queue_transition ::
  "journal_env \<Rightarrow> RunId \<Rightarrow> str \<Rightarrow> ManualActionState \<Rightarrow> DateTime \<Rightarrow> journal
   \<Rightarrow> JournalManualAction restore \<times> journal" where
  "queue_transition env run_id action_id state now j =
     (case safe_action_id action_id of
        Inl e \<Rightarrow> (Inl e, j)
      | Inr i \<Rightarrow> set_manual_action_state env run_id i state now j)"

definition queue_acknowledge where
  "queue_acknowledge env run_id action_id now j = queue_transition env run_id action_id Acknowledged now j"

definition queue_skip where
  "queue_skip env run_id action_id now j = queue_transition env run_id action_id ManualActionState.Skipped now j"

definition queue_complete where
  "queue_complete env run_id action_id now j = queue_transition env run_id action_id ManualActionState.Completed now j"

definition is_acknowledged :: "ManualActionState \<Rightarrow> bool" where
  "is_acknowledged state \<longleftrightarrow>
     state \<in> {Acknowledged, ManualActionState.Completed, ManualActionState.Skipped}"

subsection \<open>Actions for blocked operations\<close>

definition operation_blocker_action_id :: "Operation \<Rightarrow> nat \<Rightarrow> str" where
  "operation_blocker_action_id operation attempt =
     ''operation-blocker:'' @ op_id operation @ '':'' @ show_nat attempt"

definition operation_blocker_action :: "Operation \<Rightarrow> nat \<Rightarrow> Value option \<Rightarrow> ManualAction" where
  "operation_blocker_action operation attempt outcome =
     (let reason =
            (case Option.bind (Option.bind (Option.bind outcome (\<lambda>v. value_get v ''reason'')) as_str)
                    (\<lambda>r. case safe_manual_text r ''operation blocker reason'' of Inl _ \<Rightarrow> None | Inr s \<Rightarrow> Some s) of
               Some r \<Rightarrow>
                 if r \<noteq> [] then r
                 else ''The operation requires a documented user action before it can be retried.''
             | None \<Rightarrow> ''The operation requires a documented user action before it can be retried.'')
      in \<lparr>ma_id = operation_blocker_action_id operation attempt,
          ma_component = Some (op_component operation), ma_title = ''Resolve restore blocker'',
          ma_reason = reason, ma_risk = RiskLevel.High,
          ma_instructions =
            [''Review the redacted operation result and resolve the documented blocker.'',
             ''Acknowledge this action only after the target, provider, source, lock, reauthentication, or policy condition is resolved.'',
             ''Resume the existing run; Reforge will recheck the operation before continuing.''],
          ma_docs_url = None, ma_state = ManualActionState.Pending,
          ma_independent_operations_may_continue = True, ma_acknowledged_at = None,
          ma_verification = None\<rparr>)"

subsection \<open>The handler\<close>

definition manual_handles :: "OperationKind \<Rightarrow> bool" where
  "manual_handles kind \<longleftrightarrow>
     (case kind of OpenManualAction _ \<Rightarrow> True | RequireReboot _ \<Rightarrow> True | _ \<Rightarrow> False)"

definition load_action :: "journal_env \<Rightarrow> journal \<Rightarrow> Operation \<Rightarrow> JournalManualAction restore" where
  "load_action env j operation =
     (case op_kind operation of
        OpenManualAction action \<Rightarrow>
          try_bind (normalize_manual_action action) (\<lambda>expected.
          try_bind (operation_run_id env operation) (\<lambda>run_id.
          try_bind (queue_get env j run_id (ma_id expected)) (\<lambda>found.
          try_bind (ok_or (operation_error operation ''manual action is missing from the journal'') found) (\<lambda>persisted.
          if jm_title persisted \<noteq> ma_title expected \<or> jm_reason persisted \<noteq> ma_reason expected
             \<or> jm_risk persisted \<noteq> ma_risk expected \<or> jm_instructions persisted \<noteq> ma_instructions expected
          then Inl (operation_error operation ''journal manual action differs from the approved operation'')
          else Inr persisted))))
      | _ \<Rightarrow> Inl (operation_error operation ''manual-action handler received a non-action operation''))"

definition manual_is_satisfied :: "journal_env \<Rightarrow> Operation \<Rightarrow> ('w, OperationSatisfaction) effect" where
  "manual_is_satisfied env operation = (\<lambda>(j, w).
     (case op_kind operation of
        OpenManualAction _ \<Rightarrow>
          try_bind (load_action env j operation) (\<lambda>persisted.
          Inr (if jm_state persisted = ManualActionState.Skipped
               then Satisfied (Some (Object [(''manual_action_id'', String (jm_id persisted)),
                                             (''status'', String ''SKIPPED'')])) []
               else NotSatisfied))
      | RequireReboot _ \<Rightarrow>
          try_bind (operation_run_id env operation) (\<lambda>run_id.
          try_bind (fetch_operation env j run_id (op_id operation)) (\<lambda>found.
          try_bind (ok_or (operation_error operation ''reboot operation is missing from journal'') found) (\<lambda>persisted.
          Inr (if jo_state persisted = OperationState.WaitingForReboot
               then Satisfied (Some (Object [(''status'', String ''REBOOT_RESUME_ACKNOWLEDGED'')])) []
               else NotSatisfied))))
      | _ \<Rightarrow> Inl (operation_error operation ''manual-action handler received an unsupported operation kind''),
      j, w))"

definition action_outcome :: "OperationDisposition \<Rightarrow> str \<Rightarrow> str \<Rightarrow> OperationOutcome" where
  "action_outcome disposition action_id state =
     outcome_of disposition (Some (Object [(''manual_action_id'', String action_id), (''state'', String state)]))"

definition manual_execute :: "journal_env \<Rightarrow> 'w machine \<Rightarrow> Operation \<Rightarrow> ('w, OperationOutcome) effect" where
  "manual_execute env mc operation = (\<lambda>(j, w).
     let (cancelled, w) = mc_cancelled mc w in
     if cancelled then (Inr (outcome_of Cancelled (Some (Object [(''cancelled'', Bool True)]))), j, w)
     else case op_kind operation of
       OpenManualAction _ \<Rightarrow>
         (case load_action env j operation of
            Inl e \<Rightarrow> (Inl e, j, w)
          | Inr persisted \<Rightarrow>
              (case jm_state persisted of
                 ManualActionState.Pending \<Rightarrow>
                   (Inr (action_outcome WaitingForUser (jm_id persisted) ''PENDING''), j, w)
               | Acknowledged \<Rightarrow>
                   (case operation_run_id env operation of
                      Inl e \<Rightarrow> (Inl e, j, w)
                    | Inr run_id \<Rightarrow>
                        (case timed mc (queue_complete env run_id (jm_id persisted)) (j, w) of
                           (Inl e, j, w) \<Rightarrow> (Inl e, j, w)
                         | (Inr completed, j, w) \<Rightarrow>
                             (Inr (action_outcome Completed (jm_id completed)
                                     (manual_state_label (jm_state completed))), j, w)))
               | ManualActionState.Completed \<Rightarrow>
                   (Inr (action_outcome Completed (jm_id persisted) (manual_state_label (jm_state persisted))), j, w)
               | ManualActionState.Skipped \<Rightarrow>
                   (Inr (action_outcome Skipped (jm_id persisted) (manual_state_label (jm_state persisted))), j, w)))
     | RequireReboot _ \<Rightarrow>
         (Inr (outcome_of WaitingForReboot (Some (Object [(''reboot_required'', Bool True)]))), j, w)
     | _ \<Rightarrow> (Inl (operation_error operation ''manual-action handler received an unsupported operation kind''), j, w))"

definition ManualActionHandler :: "journal_env \<Rightarrow> 'w machine \<Rightarrow> 'w OperationHandler" where
  "ManualActionHandler env mc =
     \<lparr>oh_handles = manual_handles, oh_is_satisfied = manual_is_satisfied env,
      oh_execute = manual_execute env mc\<rparr>"

subsection \<open>The secret gate\<close>

datatype SecretKind = ApiToken | Password | PrivateKey | Credential | Opaque

datatype SecretTarget =
    WindowsCredentialManager
  | ApplicationKeyring str
  | EnvironmentVariable str
  | ConfigField PathToken
  | Manual

record SecretRecord =
  sr_id :: ComponentId
  sr_kind :: SecretKind
  sr_label :: str
  sr_target :: SecretTarget
  sr_value :: bytes

record VaultDocument =
  vd_format_version :: nat
  vd_records :: "SecretRecord list"

type_synonym SecretSelection = "ComponentId set"

text \<open>The adapter: its policy, and a restore that acts on the adapter's own state.\<close>

record 'a SecretRestoreAdapter =
  sa_secure_target_policy_proven :: "'a \<Rightarrow> SecretTarget \<Rightarrow> bool"
  sa_restore_secret :: "SecretRecord \<Rightarrow> 'a \<Rightarrow> unit restore \<times> 'a"

record SecretRestoreReport =
  srr_restored :: "ComponentId list"
  srr_manual_actions :: "ManualAction list"
  srr_warnings :: "str list"

definition secure_target_proven :: "'a SecretRestoreAdapter \<Rightarrow> 'a \<Rightarrow> SecretTarget \<Rightarrow> bool" where
  "secure_target_proven adapter a target \<longleftrightarrow>
     target \<noteq> Manual \<and> sa_secure_target_policy_proven adapter a target"

definition secret_target_action :: "RunId \<Rightarrow> SecretRecord \<Rightarrow> ManualAction" where
  "secret_target_action run_id rec =
     \<lparr>ma_id = ''manual-action:'' @ run_id @ '':secret-target:'' @ sr_id rec,
      ma_component = Some (sr_id rec), ma_title = ''Review secret restore target'',
      ma_reason = ''The selected secret target is plaintext or has no proven secure adapter policy'',
      ma_risk = Critical,
      ma_instructions =
        [''Choose an adapter-specific secure target before restoring this secret'',
         ''Resume the restore after the secure target is available''],
      ma_docs_url = None, ma_state = ManualActionState.Pending,
      ma_independent_operations_may_continue = True, ma_acknowledged_at = None,
      ma_verification = Some (SecureTarget (sr_id rec))\<rparr>"

text \<open>
  The state of the loop over the records: the journal, the world, the adapter, and the report.
  An error leaves the loop with the journal and the adapter as they then are.
\<close>

fun restore_records ::
  "journal_env \<Rightarrow> 'w machine \<Rightarrow> 'a SecretRestoreAdapter \<Rightarrow> RunId \<Rightarrow> SecretSelection \<Rightarrow> SecretRecord list
   \<Rightarrow> SecretRestoreReport \<Rightarrow> journal \<times> 'w \<times> 'a \<Rightarrow> SecretRestoreReport restore \<times> journal \<times> 'w \<times> 'a" where
  "restore_records env mc adapter run_id selection [] report s = (Inr report, s)"
| "restore_records env mc adapter run_id selection (rec # records) report (j, w, a) =
     (if sr_id rec \<notin> selection then restore_records env mc adapter run_id selection records report (j, w, a)
      else if \<not> secure_target_proven adapter a (sr_target rec)
      then let action = secret_target_action run_id rec in
           (case timed mc (queue_create env run_id action) (j, w) of
              (Inl e, j, w) \<Rightarrow> (Inl e, j, w, a)
            | (Inr persisted, j, w) \<Rightarrow>
                restore_records env mc adapter run_id selection records
                  (report\<lparr>srr_warnings := srr_warnings report @
                            [''Secret '' @ sr_id rec @ '' has no proven secure target; no plaintext value was written''],
                          srr_manual_actions := srr_manual_actions report @
                            [action\<lparr>ma_state := jm_state persisted, ma_acknowledged_at := jm_acknowledged_at persisted\<rparr>]\<rparr>)
                  (j, w, a))
      else (case sa_restore_secret adapter rec a of
              (Inl _, a) \<Rightarrow>
                (Inl (secret_error OperationFailed
                        ''The secure secret target adapter could not restore the selected secret''), j, w, a)
            | (Inr _, a) \<Rightarrow>
                restore_records env mc adapter run_id selection records
                  (report\<lparr>srr_restored := srr_restored report @ [sr_id rec]\<rparr>) (j, w, a)))"

definition restore_document ::
  "journal_env \<Rightarrow> 'w machine \<Rightarrow> 'a SecretRestoreAdapter \<Rightarrow> RunId \<Rightarrow> VaultDocument \<Rightarrow> SecretSelection
   \<Rightarrow> journal \<times> 'w \<times> 'a \<Rightarrow> SecretRestoreReport restore \<times> journal \<times> 'w \<times> 'a" where
  "restore_document env mc adapter run_id document selection s =
     (if \<not> selection \<subseteq> set (map sr_id (vd_records document))
      then (Inl (secret_error VaultRequired ''An explicitly selected secret is absent from the vault''), s)
      else restore_records env mc adapter run_id selection (vd_records document)
             \<lparr>srr_restored = [], srr_manual_actions = [], srr_warnings = []\<rparr> s)"

text \<open>The two public entries differ only in the vault's decryption, here its result.\<close>

definition restore_with_decryption ::
  "journal_env \<Rightarrow> 'w machine \<Rightarrow> 'a SecretRestoreAdapter \<Rightarrow> RunId \<Rightarrow> VaultDocument option \<Rightarrow> SecretSelection
   \<Rightarrow> journal \<times> 'w \<times> 'a \<Rightarrow> SecretRestoreReport restore \<times> journal \<times> 'w \<times> 'a" where
  "restore_with_decryption env mc adapter run_id decrypted selection s =
     (if selection = {}
      then (Inl (secret_error VaultRequired ''At least one secret must be explicitly selected for restore''), s)
      else case decrypted of
        None \<Rightarrow> (Inl (secret_error VaultDecryptFailed ''Unable to decrypt the selected secret vault''), s)
      | Some document \<Rightarrow> restore_document env mc adapter run_id document selection s)"

subsection \<open>Writes as histories\<close>

abbreviation journal_history :: "journal_env \<Rightarrow> journal \<Rightarrow> journal \<Rightarrow> bool" where
  "journal_history env \<equiv> (journal_step env)\<^sup>*\<^sup>*"

lemma history_job: "run_job env job now j = k \<Longrightarrow> journal_history env j k"
  using journal_write by blast

lemma history_transition:
  "journal_history env j (snd (transition_operation env run_id operation_id state result error backup now j))"
  by (rule history_job [of _ "TransitionOperation run_id operation_id state result error backup"]) simp

lemma history_run_status: "journal_history env j (snd (set_run_status_record env run_id status now j))"
  by (rule history_job [of _ "SetRunStatus run_id status"]) simp

lemma history_add_action: "journal_history env j (snd (add_manual_action_record env run_id action now j))"
  by (rule history_job [of _ "AddManualAction run_id action"]) simp

lemma history_action_state: "journal_history env j (snd (set_manual_action_state env run_id action_id state now j))"
  by (rule history_job [of _ "SetManualActionState run_id action_id state"]) simp

text \<open>What a handler may do to the journal: write it, but leave the operations to the executor.\<close>

definition handler_writes :: "journal_env \<Rightarrow> journal \<Rightarrow> journal \<Rightarrow> bool" where
  "handler_writes env j k \<longleftrightarrow> journal_history env j k \<and> db_operations k = db_operations j"

lemma handler_writes_refl [simp]: "handler_writes env j j"
  by (simp add: handler_writes_def)

lemma add_action_operations: "db_operations (snd (add_manual_action_record env run_id action now j)) = db_operations j"
  by (auto simp: add_manual_action_record_def commit_then_def insert_manual_action_def try_bind_Inr
      dest!: log_event_operations split: sum.splits prod.splits if_splits)

lemma action_state_operations: "db_operations (snd (set_manual_action_state env run_id i state now j)) = db_operations j"
  by (auto simp: set_manual_action_state_def set_manual_action_state_record_def set_manual_action_state_tx_def
      commit_then_def Let_def update_manual_actions_def dest!: log_event_operations
      split: sum.splits option.splits if_splits)

lemma queue_transition_writes: "handler_writes env j (snd (queue_transition env run_id action_id state now j))"
  by (simp add: queue_transition_def handler_writes_def history_action_state action_state_operations split: sum.split)

lemma queue_create_cases:
  "snd (queue_create env run_id action now j) = j
   \<or> (\<exists>action'. normalize_manual_action action = Inr action'
        \<and> snd (queue_create env run_id action now j) = snd (add_manual_action_record env run_id action' now j))"
  by (auto simp: queue_create_def split: sum.splits option.splits prod.splits)

lemma queue_create_writes: "handler_writes env j (snd (queue_create env run_id action now j))"
  using queue_create_cases [of env run_id action now j]
  by (auto simp: handler_writes_def history_add_action add_action_operations)

lemma timed_result: "timed mc f (j, w) = (r, j', w') \<Longrightarrow> \<exists>now. f now j = (r, j')"
  by (auto simp: timed_def split: prod.splits)

subsection \<open>The contract of a handler\<close>

text \<open>
  The executor relies on one law of its handlers: a call changes the journal only through its
  writer, and no operation row. Other tasks of the process may write in the meantime, under the
  same law.
\<close>

locale journaled_handler =
  fixes env :: journal_env and handler :: "'w OperationHandler"
  assumes satisfied_writes:
      "oh_is_satisfied handler operation (j, w) = (r, j', w') \<Longrightarrow> handler_writes env j j'"
    and execute_writes:
      "oh_execute handler operation (j, w) = (outcome, j', w') \<Longrightarrow> handler_writes env j j'"
begin

lemma execute_safe: "oh_execute handler operation (j, w) = (outcome, j', w') \<Longrightarrow> safe_step j j'"
  using execute_writes [of operation j w outcome j' w'] safe_history [of env j j'] by (simp add: handler_writes_def)

lemma execute_finds:
  "oh_execute handler operation (j, w) = (outcome, j', w') \<Longrightarrow> find_operation j' run_id i = find_operation j run_id i"
  using execute_writes by (auto simp: handler_writes_def find_operation_def)

end

lemma manual_execute_writes:
  assumes "manual_execute env mc operation (j, w) = (r, j', w')"
  shows "handler_writes env j j'"
proof -
  have "j' = j \<or> (\<exists>run_id i r now. queue_complete env run_id i now j = (r, j'))"
    using assms unfolding manual_execute_def
    by (auto split: prod.splits if_splits OperationKind.splits sum.splits ManualActionState.splits dest!: timed_result)
  then show ?thesis
    using queue_transition_writes [of env j] by (metis handler_writes_refl queue_complete_def snd_conv)
qed

interpretation manual_handler: journaled_handler env "ManualActionHandler env mc" for env and mc :: "'w machine"
  by unfold_locales (auto simp: ManualActionHandler_def manual_is_satisfied_def manual_execute_writes)

subsection \<open>Reading and changing actions\<close>

lemma safe_action_id_Inr: "safe_action_id v = Inr i \<Longrightarrow> i = v"
  by (auto simp: safe_action_id_def try_bind_Inr split: if_splits)

lemma parse_manual_action_fields:
  "parse_manual_action env run_id r = Inr a \<Longrightarrow> jm_id a = rm_id r \<and> jm_state a = rm_state r"
  by (auto simp: parse_manual_action_def bounded_text_def try_bind_Inr split: if_splits)

lemma queue_get_row:
  assumes "queue_get env j run_id i = Inr (Some a)"
  shows "jm_id a = i \<and> (\<exists>r \<in> set (db_manual_actions j). rm_id r = i \<and> rm_run_id r = run_id \<and> rm_state r = jm_state a)"
proof -
  obtain actions where run: "list_manual_actions env j run_id = Inr actions"
    and a: "find (\<lambda>action. jm_id action = i) actions = Some a"
    using assms by (auto simp: queue_get_def try_bind_Inr dest!: safe_action_id_Inr)
  let ?rows = "sort_key rm_id (filter (\<lambda>r. rm_run_id r = run_id) (db_manual_actions j))"
  have a_in: "a \<in> set actions" "jm_id a = i" using find_in [OF a] by auto
  then obtain n where n: "n < length actions" "actions ! n = a" by (auto simp: in_set_conv_nth)
  with run have "parse_manual_action env run_id (?rows ! n) = Inr a" "n < length ?rows"
    by (auto simp: list_manual_actions_def try_map_Inr)
  moreover have "?rows ! n \<in> set ?rows" using calculation(2) by (rule nth_mem)
  then have "?rows ! n \<in> set (db_manual_actions j)" "rm_run_id (?rows ! n) = run_id" by auto
  ultimately show ?thesis using a_in parse_manual_action_fields by metis
qed

lemma set_manual_action_state_row:
  assumes "set_manual_action_state env run_id i state now j = (Inr a, k)"
  shows "\<exists>r \<in> set (db_manual_actions k). rm_id r = i \<and> rm_run_id r = run_id \<and> rm_state r = state"
proof -
  obtain action at where found: "find_manual_action j run_id i = Some action"
    and log: "log_event env run_id ''INFO'' (Object [(''action_id'', String i), (''state'', String (manual_state_text state)),
        (''type'', String ''manual_action_state'')]) ''manual-action state event'' now
        (update_manual_actions (\<lambda>r. rm_id r = i \<and> rm_run_id r = run_id)
          (\<lambda>r. r\<lparr>rm_state := state, rm_acknowledged_at := at\<rparr>) j) = Inr k"
    using assms
    by (auto simp: set_manual_action_state_def set_manual_action_state_record_def set_manual_action_state_tx_def
        bounded_text_def commit_then_def Let_def split: option.splits sum.splits if_splits)
  have "db_manual_actions k = map (\<lambda>r. if rm_id r = i \<and> rm_run_id r = run_id
      then r\<lparr>rm_state := state, rm_acknowledged_at := at\<rparr> else r) (db_manual_actions j)"
    using log by (auto simp: log_event_def insert_event_tx_def try_bind_Inr update_manual_actions_def Let_def split: if_splits)
  moreover have "action \<in> set (db_manual_actions j)" "rm_id action = i" "rm_run_id action = run_id"
    using found by (auto simp: find_manual_action_def dest: find_in)
  ultimately have "action\<lparr>rm_state := state, rm_acknowledged_at := at\<rparr> \<in> set (db_manual_actions k)"
    by (auto simp: image_iff intro!: bexI [of _ action])
  then show ?thesis
    using \<open>rm_id action = i\<close> \<open>rm_run_id action = run_id\<close>
    by (intro bexI [of _ "action\<lparr>rm_state := state, rm_acknowledged_at := at\<rparr>"]) simp_all
qed

lemma load_action_row:
  assumes "load_action env j operation = Inr persisted" "op_kind operation = OpenManualAction action"
  shows "\<exists>run_id. operation_run_id env operation = Inr run_id \<and> jm_id persisted = ma_id action
    \<and> (\<exists>r \<in> set (db_manual_actions j). rm_id r = ma_id action \<and> rm_run_id r = run_id \<and> rm_state r = jm_state persisted)"
proof -
  obtain expected run_id where "normalize_manual_action action = Inr expected"
    and run: "operation_run_id env operation = Inr run_id" and got: "queue_get env j run_id (ma_id expected) = Inr (Some persisted)"
    using assms by (auto simp: load_action_def try_bind_Inr split: if_splits)
  then have "ma_id expected = ma_id action"
    by (auto simp: normalize_manual_action_def try_bind_Inr dest!: safe_action_id_Inr split: if_splits)
  with run queue_get_row [OF got] show ?thesis by simp
qed

subsection \<open>Clean actions\<close>

text \<open>An action whose display texts hold nothing to redact.\<close>

definition clean_text :: "str \<Rightarrow> bool" where
  "clean_text v \<longleftrightarrow> policy_redact_text default_policy v = Some v"

definition clean_action :: "ManualAction \<Rightarrow> bool" where
  "clean_action action \<longleftrightarrow> clean_text (ma_title action) \<and> clean_text (ma_reason action)
     \<and> (\<forall>instruction \<in> set (ma_instructions action). clean_text instruction)"

lemma clean_safe_text:
  "clean_text v \<Longrightarrow> safe_manual_text v c = Inr v' \<Longrightarrow> v' = v"
  "clean_text v \<Longrightarrow> bounded_safe_text v n c = Inr v' \<Longrightarrow> v' = v"
  by (auto simp: clean_text_def safe_manual_text_def bounded_safe_text_def safe_text_def bounded_text_def split: if_splits)

lemma clean_map:
  assumes "try_map f vs = Inr vs'" "\<And>v v'. v \<in> set vs \<Longrightarrow> f v = Inr v' \<Longrightarrow> v' = v"
  shows "vs' = vs"
  using assms by (auto simp: try_map_Inr intro!: nth_equalityI)

lemma clean_normalize:
  assumes "clean_action action" "normalize_manual_action action = Inr action'"
  shows "action' = action"
proof -
  obtain title reason instructions where
    parts: "safe_manual_text (ma_title action) ''manual action title'' = Inr title"
      "safe_manual_text (ma_reason action) ''manual action reason'' = Inr reason"
      "try_map (\<lambda>i. safe_manual_text i ''manual action instruction'') (ma_instructions action) = Inr instructions"
    and action': "action' = action\<lparr>ma_title := title, ma_reason := reason, ma_instructions := instructions\<rparr>"
    using assms(2) by (auto simp: normalize_manual_action_def try_bind_Inr dest!: safe_action_id_Inr split: if_splits)
  have "instructions = ma_instructions action"
    by (rule clean_map [OF parts(3)]) (use assms(1) clean_safe_text in \<open>auto simp: clean_action_def\<close>)
  then show ?thesis using assms(1) parts(1,2) clean_safe_text by (simp add: action' clean_action_def)
qed

definition displays :: "JournalManualAction \<Rightarrow> ManualAction \<Rightarrow> bool" where
  "displays row action \<longleftrightarrow> jm_id row = ma_id action \<and> jm_title row = ma_title action
     \<and> jm_reason row = ma_reason action \<and> jm_risk row = ma_risk action \<and> jm_instructions row = ma_instructions action"

lemma ensure_matches_Inr: "ensure_matches existing action = Inr row \<Longrightarrow> row = existing \<and> displays row action"
  by (auto simp: ensure_matches_def displays_def split: if_splits)

lemma clean_columns:
  assumes "clean_action action" "manual_action_columns env action = Inr (title, reason, instructions, json)"
  shows "title = ma_title action \<and> reason = ma_reason action \<and> instructions = ma_instructions action"
proof -
  have parts: "bounded_safe_text (ma_title action) MAX_MANUAL_TEXT_BYTES ''manual action title'' = Inr title"
    "bounded_safe_text (ma_reason action) MAX_MANUAL_TEXT_BYTES ''manual action reason'' = Inr reason"
    "try_map (\<lambda>i. bounded_safe_text i MAX_MANUAL_TEXT_BYTES ''manual action instruction'') (ma_instructions action)
       = Inr instructions"
    using assms(2) by (auto simp: manual_action_columns_def try_bind_Inr split: if_splits)
  moreover have "instructions = ma_instructions action"
    by (rule clean_map [OF parts(3)]) (use assms(1) clean_safe_text in \<open>auto simp: clean_action_def\<close>)
  ultimately show ?thesis using assms(1) clean_safe_text by (auto simp: clean_action_def)
qed

lemma add_action_row:
  assumes "clean_action action" "add_manual_action_record env run_id action now j = (Inr row, k)"
  shows "displays row action \<and> (\<exists>r. db_manual_actions k = db_manual_actions j @ [r] \<and> rm_id r = ma_id action
    \<and> rm_run_id r = run_id \<and> rm_state r = jm_state row)"
proof -
  obtain title reason instructions json where cols: "manual_action_columns env action = Inr (title, reason, instructions, json)"
    and row: "row = \<lparr>jm_id = ma_id action, jm_run_id = run_id, jm_state = ma_state action, jm_title = title,
        jm_reason = reason, jm_risk = ma_risk action, jm_instructions = instructions,
        jm_acknowledged_at = ma_acknowledged_at action\<rparr>"
    and k: "db_manual_actions k = db_manual_actions j
        @ [raw_manual_action run_id (ma_id action) action (title, reason, instructions, json)]"
    using assms(2)
    by (auto simp: add_manual_action_record_def bounded_text_def commit_then_def insert_manual_action_def log_event_def
        insert_event_tx_def Let_def try_bind_Inr split: sum.splits if_splits)
  then show ?thesis using clean_columns [OF assms(1) cols] by (simp add: displays_def raw_manual_action_def)
qed

subsection \<open>The secret gate's handovers\<close>

text \<open>The states of the adapter when records are handed to it one after the other, each under a proof.\<close>

fun proven_handover ::
  "'a SecretRestoreAdapter \<Rightarrow> SecretSelection \<Rightarrow> SecretRecord list \<Rightarrow> 'a \<Rightarrow> 'a \<Rightarrow> bool" where
  "proven_handover adapter selection [] a a' \<longleftrightarrow> a' = a"
| "proven_handover adapter selection (rec # recs) a a' \<longleftrightarrow>
     sr_id rec \<in> selection \<and> sr_target rec \<noteq> Manual \<and> sa_secure_target_policy_proven adapter a (sr_target rec)
     \<and> proven_handover adapter selection recs (snd (sa_restore_secret adapter rec a)) a'"

definition report_extends :: "SecretRestoreReport \<Rightarrow> SecretRecord list \<Rightarrow> SecretRecord list \<Rightarrow> SecretRestoreReport \<Rightarrow> bool" where
  "report_extends report handed deferred report' \<longleftrightarrow>
     srr_restored report' = srr_restored report @ map sr_id handed
     \<and> map ma_component (srr_manual_actions report')
       = map ma_component (srr_manual_actions report) @ map (\<lambda>rec. Some (sr_id rec)) deferred"

lemma secret_action_component [simp]: "ma_component (secret_target_action run_id rec) = Some (sr_id rec)"
  by (simp add: secret_target_action_def)

definition gate_outcome ::
  "'a SecretRestoreAdapter \<Rightarrow> SecretSelection \<Rightarrow> SecretRecord list \<Rightarrow> SecretRestoreReport \<Rightarrow> 'a
   \<Rightarrow> SecretRestoreReport restore \<Rightarrow> 'a \<Rightarrow> bool" where
  "gate_outcome adapter selection records report a r a' \<longleftrightarrow>
     (\<exists>handed deferred. subseq handed records \<and> proven_handover adapter selection handed a a'
        \<and> (\<forall>report'. r = Inr report' \<longrightarrow> report_extends report handed deferred report'
             \<and> mset handed + mset deferred = mset (filter (\<lambda>rec. sr_id rec \<in> selection) records)))"

lemma gate_outcomeI:
  assumes "subseq handed records" "proven_handover adapter selection handed a a'"
    and "\<And>report'. r = Inr report' \<Longrightarrow> report_extends report handed deferred report'
      \<and> mset handed + mset deferred = mset (filter (\<lambda>rec. sr_id rec \<in> selection) records)"
  shows "gate_outcome adapter selection records report a r a'"
  using assms unfolding gate_outcome_def by blast

lemma gate_outcomeE:
  assumes "gate_outcome adapter selection records report a r a'"
  obtains handed deferred where "subseq handed records" "proven_handover adapter selection handed a a'"
    "\<And>report'. r = Inr report' \<Longrightarrow> report_extends report handed deferred report'
      \<and> mset handed + mset deferred = mset (filter (\<lambda>rec. sr_id rec \<in> selection) records)"
  using assms unfolding gate_outcome_def by blast

lemma gate_failed: "gate_outcome adapter selection records report a (Inl e) a"
  unfolding gate_outcome_def by (rule exI [of _ "[]"]) simp

lemma gate_refused:
  "sr_id rec \<in> selection \<Longrightarrow> secure_target_proven adapter a (sr_target rec) \<Longrightarrow>
   gate_outcome adapter selection (rec # records) report a (Inl e) (snd (sa_restore_secret adapter rec a))"
  unfolding gate_outcome_def by (rule exI [of _ "[rec]"]) (simp add: secure_target_proven_def)

lemma gate_done: "gate_outcome adapter selection [] report a (Inr report) a"
  by (simp add: gate_outcome_def report_extends_def)

lemma gate_unselected:
  assumes "gate_outcome adapter selection records report a r a'" "sr_id rec \<notin> selection"
  shows "gate_outcome adapter selection (rec # records) report a r a'"
  using assms(1)
proof (rule gate_outcomeE)
  fix handed deferred
  assume "subseq handed records" "proven_handover adapter selection handed a a'"
    and rep: "\<And>report'. r = Inr report' \<Longrightarrow> report_extends report handed deferred report'
      \<and> mset handed + mset deferred = mset (filter (\<lambda>rec. sr_id rec \<in> selection) records)"
  then show ?thesis by (intro gate_outcomeI [of handed _ _ _ _ _ _ _ deferred]) (use rep assms(2) in auto)
qed

lemma gate_handed:
  assumes "gate_outcome adapter selection records (report\<lparr>srr_restored := srr_restored report @ [sr_id rec]\<rparr>)
      (snd (sa_restore_secret adapter rec a)) r a'"
    and sel: "sr_id rec \<in> selection" and sec: "secure_target_proven adapter a (sr_target rec)"
  shows "gate_outcome adapter selection (rec # records) report a r a'"
  using assms(1)
proof (rule gate_outcomeE)
  fix handed deferred
  assume h: "subseq handed records" "proven_handover adapter selection handed (snd (sa_restore_secret adapter rec a)) a'"
    and rep: "\<And>report'. r = Inr report' \<Longrightarrow>
        report_extends (report\<lparr>srr_restored := srr_restored report @ [sr_id rec]\<rparr>) handed deferred report'
      \<and> mset handed + mset deferred = mset (filter (\<lambda>rec. sr_id rec \<in> selection) records)"
  have "report_extends report (rec # handed) deferred report'
      \<and> mset (rec # handed) + mset deferred = mset (filter (\<lambda>rec. sr_id rec \<in> selection) (rec # records))"
    if "r = Inr report'" for report'
    using rep [OF that] sel by (simp add: report_extends_def)
  then show ?thesis using h sel sec by (intro gate_outcomeI [of "rec # handed" _ _ _ _ _ _ _ deferred]) (simp_all add: secure_target_proven_def)
qed

lemma gate_deferred:
  assumes "gate_outcome adapter selection records report1 a r a'" and sel: "sr_id rec \<in> selection"
    and report1: "srr_restored report1 = srr_restored report" "map ma_component (srr_manual_actions report1)
      = map ma_component (srr_manual_actions report) @ [Some (sr_id rec)]"
  shows "gate_outcome adapter selection (rec # records) report a r a'"
  using assms(1)
proof (rule gate_outcomeE)
  fix handed deferred
  assume h: "subseq handed records" "proven_handover adapter selection handed a a'"
    and rep: "\<And>report'. r = Inr report' \<Longrightarrow> report_extends report1 handed deferred report'
      \<and> mset handed + mset deferred = mset (filter (\<lambda>rec. sr_id rec \<in> selection) records)"
  have "report_extends report handed (rec # deferred) report'
      \<and> mset handed + mset (rec # deferred) = mset (filter (\<lambda>rec. sr_id rec \<in> selection) (rec # records))"
    if "r = Inr report'" for report'
    using rep [OF that] sel report1 by (simp add: report_extends_def)
  then show ?thesis by (intro gate_outcomeI [of handed _ _ _ _ _ _ _ "rec # deferred"]) (use h in auto)
qed

lemma restore_records_gate:
  "restore_records env mc adapter run_id selection records report (j, w, a) = (r, j', w', a') \<Longrightarrow>
   gate_outcome adapter selection records report a r a'"
proof (induction records arbitrary: report j w a)
  case (Cons rec records)
  consider (skip) "sr_id rec \<notin> selection"
    | (blocked) "sr_id rec \<in> selection" "\<not> secure_target_proven adapter a (sr_target rec)"
    | (hand) "sr_id rec \<in> selection" "secure_target_proven adapter a (sr_target rec)" by blast
  then show ?case
  proof cases
    case skip
    then show ?thesis using Cons by (auto intro!: gate_unselected)
  next
    case blocked
    then show ?thesis
      using Cons.prems
      by (auto simp: Let_def split: prod.splits sum.splits intro: gate_failed intro!: gate_deferred [OF Cons.IH])
  next
    case hand
    then show ?thesis
      using Cons.prems gate_refused [OF hand]
      by (auto split: prod.splits sum.splits intro!: gate_handed [OF Cons.IH])
  qed
qed (auto intro: gate_done)

subsection \<open>Sample actions\<close>

definition read_env :: journal_env where
  "read_env = sample_env\<lparr>je_from_str := (\<lambda>_. Some (Array []))\<rparr>"

definition action_operation :: Operation where
  "action_operation =
     \<lparr>op_id = ''op_run_1'', op_component = ''cmp'', op_kind = OpenManualAction sample_action,
      op_prerequisites = [], op_precondition = Always, op_idempotency_key = ''key'', op_verification = [],
      op_requires_elevation = False, op_non_idempotent = False\<rparr>"

definition quiet_machine :: "nat machine" where
  "quiet_machine = \<lparr>mc_now = (\<lambda>w. (w, Suc w)), mc_cancelled = (\<lambda>w. (False, w))\<rparr>"

lemma quiet_machine_simps [simp]:
  "mc_now quiet_machine w = (w, Suc w)" "mc_cancelled quiet_machine w = (False, w)"
  by (simp_all add: quiet_machine_def)

definition acknowledged_journal :: journal where
  "acknowledged_journal = sample_started\<lparr>db_manual_actions :=
     [sample_action_row\<lparr>rm_state := Acknowledged, rm_acknowledged_at := Some 4\<rparr>]\<rparr>"

lemma read_env_simps [simp]:
  "safe_json_text read_env = safe_json_text sample_env" "je_uuid_parse read_env = (\<lambda>s. Some (7, s))"
  "je_from_str read_env = (\<lambda>_. Some (Array []))" "je_to_string read_env = (\<lambda>_. Some ''{}'')"
  by (simp_all add: fun_eq_iff safe_json_text_def read_env_def sample_env_def)

lemma action_words: "word ''m''" "word ''t''" "word ''r''" "word ''manual_action_added''" "word ''COMPLETED''"
    "word ''manual_action_state''"
  by (simp_all add: word_simps)

lemma safe_word:
  "word s \<Longrightarrow> s \<noteq> [] \<Longrightarrow> \<not> has_control s \<Longrightarrow> safe_manual_text s c = Inr s"
  "word s \<Longrightarrow> s \<noteq> [] \<Longrightarrow> \<not> has_control s \<Longrightarrow> safe_action_id s = Inr s"
  "word s \<Longrightarrow> s \<noteq> [] \<Longrightarrow> \<not> has_control s \<Longrightarrow> bounded_safe_text s MAX_MANUAL_TEXT_BYTES c = Inr s"
  "word s \<Longrightarrow> s \<noteq> [] \<Longrightarrow> \<not> has_control s \<Longrightarrow> bounded_text s MAX_MANUAL_TEXT_BYTES c = Inr s"
proof -
  assume s: "word s" "s \<noteq> []" "\<not> has_control s"
  then have "length s \<le> MAX_MANUAL_TEXT_BYTES" by (simp add: word_def MAX_MANUAL_TEXT_BYTES_def)
  with s show "safe_manual_text s c = Inr s" "safe_action_id s = Inr s"
    "bounded_safe_text s MAX_MANUAL_TEXT_BYTES c = Inr s" "bounded_text s MAX_MANUAL_TEXT_BYTES c = Inr s"
    by (simp_all add: safe_manual_text_def safe_action_id_def redact_word bounded_safe_text_def safe_text_def bounded_text_def)
qed

lemma sample_texts_safe:
  "safe_manual_text ''t'' c = Inr ''t''" "safe_manual_text ''r'' c = Inr ''r''" "safe_action_id ''m'' = Inr ''m''"
  "bounded_safe_text ''t'' MAX_MANUAL_TEXT_BYTES c = Inr ''t''" "bounded_safe_text ''r'' MAX_MANUAL_TEXT_BYTES c = Inr ''r''"
  "bounded_text ''m'' MAX_MANUAL_TEXT_BYTES c = Inr ''m''"
  by (rule safe_word; simp add: action_words)+

lemma sample_normalized_action: "normalize_manual_action sample_action = Inr sample_action"
  by (simp add: normalize_manual_action_def sample_action_def sample_texts_safe)

lemma empty_array_text: "safe_json_text sample_env (Array []) c = Inr ''{}''"
  by (rule sample_json [where v' = "Array []"]) (simp add: redact_json_value_unfold)

lemma read_action:
  "parse_manual_action read_env ''run'' (sample_action_row\<lparr>rm_state := state, rm_acknowledged_at := at\<rparr>)
   = Inr \<lparr>jm_id = ''m'', jm_run_id = ''run'', jm_state = state, jm_title = ''t'', jm_reason = ''r'',
          jm_risk = RiskLevel.Low, jm_instructions = [], jm_acknowledged_at = at\<rparr>"
proof -
  have "parse_persisted_json read_env ''{}'' c = Inr (Array [])" for c
    by (simp add: parse_persisted_json_def empty_array_text)
  then show ?thesis
    by (simp add: parse_manual_action_def parse_id_def RunId_try_from_def RunId_new_def sample_action_row_def
        sample_texts_safe value_strings_def)
qed

lemma read_acknowledged:
  "load_action read_env acknowledged_journal action_operation
   = Inr \<lparr>jm_id = ''m'', jm_run_id = ''run'', jm_state = Acknowledged, jm_title = ''t'', jm_reason = ''r'',
          jm_risk = RiskLevel.Low, jm_instructions = [], jm_acknowledged_at = Some 4\<rparr>"
proof -
  have run: "operation_run_id read_env action_operation = Inr ''run''"
    by (simp add: operation_run_id_def action_operation_def strip_prefix_def starts_with_def RunId_try_from_def RunId_new_def)
  have rows: "sort_key rm_id (filter (\<lambda>r. rm_run_id r = ''run'') (db_manual_actions acknowledged_journal))
      = [sample_action_row\<lparr>rm_state := Acknowledged, rm_acknowledged_at := Some 4\<rparr>]"
    by (simp add: acknowledged_journal_def) (simp add: sample_action_row_def)
  have kind: "op_kind action_operation = OpenManualAction sample_action" by (simp add: action_operation_def)
  show ?thesis
    by (simp add: load_action_def kind run sample_normalized_action queue_get_def list_manual_actions_def rows read_action)
      (simp add: sample_action_def sample_texts_safe)
qed

lemma complete_acknowledged:
  "\<exists>a k. queue_complete read_env ''run'' ''m'' now acknowledged_journal = (Inr a, k)"
proof -
  let ?row = "\<lambda>state. sample_action_row\<lparr>rm_state := state, rm_acknowledged_at := Some 4\<rparr>"
  have k: "public_key ''action_id''" by (simp add: public_key_simps)
  have ev: "safe_json_text sample_env (Object [(''action_id'', String ''m''), (''state'', String ''COMPLETED''),
        (''type'', String ''manual_action_state'')]) c = Inr ''{}''" for c
    by (rule sample_object) (simp add: sample_keys action_words k redact_json_word)
  have find: "find_manual_action acknowledged_journal ''run'' ''m'' = Some (?row Acknowledged)"
    by (simp add: find_manual_action_def acknowledged_journal_def sample_action_row_def)
  have upd: "map (\<lambda>r. if rm_id r = ''m'' \<and> rm_run_id r = ''run''
        then r\<lparr>rm_state := ManualActionState.Completed, rm_acknowledged_at := Some 4\<rparr> else r)
        (db_manual_actions acknowledged_journal) = [?row ManualActionState.Completed]"
    by (simp add: acknowledged_journal_def sample_action_row_def)
  have ids: "jr_id ` set (db_runs acknowledged_journal) = {''run''}"
    by (simp add: acknowledged_journal_def sample_started_def sample_run_def)
  have found: "rm_id (?row s) = ''m''" "rm_run_id (?row s) = ''run''" for s by (simp_all add: sample_action_row_def)
  obtain k where tx: "set_manual_action_state_tx read_env ''run'' ''m'' ManualActionState.Completed now acknowledged_journal = Inr k"
    and k: "db_manual_actions k = [?row ManualActionState.Completed]"
    by (simp add: set_manual_action_state_tx_def find log_event_def ev insert_event_tx_def sample_texts(4)
        update_manual_actions_def upd ids)
  have "fetch_manual_action read_env k ''run'' ''m'' \<in> {Inr (Some a) |a. True}"
    by (simp add: fetch_manual_action_def find_manual_action_def k found transpose_map_def read_action)
  then show ?thesis
    by (auto simp: queue_complete_def queue_transition_def sample_texts_safe set_manual_action_state_def
        set_manual_action_state_record_def tx commit_then_def)
qed

subsection \<open>Properties\<close>

text \<open>
  C6. A plaintext secret reaches the adapter only through the gate: whatever happens, the adapter's
  final state is that of handing it a subsequence of the vault's records, each explicitly selected
  and each with a target, not manual, that the adapter had proven secure at that moment; on success
  the report names exactly those as restored, and every other selected record has a manual action
  instead. A selection that names a record the vault does not have changes nothing at all.
\<close>

theorem secrets_only_to_proven_targets:
  assumes "restore_document env mc adapter run_id document selection (j, w, a) = (r, j', w', a')"
  shows "(\<exists>handed deferred. subseq handed (vd_records document) \<and> proven_handover adapter selection handed a a'
      \<and> (\<forall>report. r = Inr report \<longrightarrow> srr_restored report = map sr_id handed
           \<and> map ma_component (srr_manual_actions report) = map (\<lambda>rec. Some (sr_id rec)) deferred
           \<and> mset handed + mset deferred = mset (filter (\<lambda>rec. sr_id rec \<in> selection) (vd_records document))))
    \<and> (\<not> selection \<subseteq> set (map sr_id (vd_records document)) \<longrightarrow>
         (\<exists>e. r = Inl e) \<and> a' = a \<and> j' = j \<and> w' = w)"
proof (cases "selection \<subseteq> set (map sr_id (vd_records document))")
  case True
  then have "restore_records env mc adapter run_id selection (vd_records document)
      \<lparr>srr_restored = [], srr_manual_actions = [], srr_warnings = []\<rparr> (j, w, a) = (r, j', w', a')"
    using assms by (simp add: restore_document_def)
  from restore_records_gate [OF this] True show ?thesis
    by (auto simp: gate_outcome_def report_extends_def)
next
  case False
  then show ?thesis using assms by (auto simp: restore_document_def)
qed

definition logging_adapter :: "SecretRecord list SecretRestoreAdapter" where
  "logging_adapter = \<lparr>sa_secure_target_policy_proven = (\<lambda>_ target. target = WindowsCredentialManager),
     sa_restore_secret = (\<lambda>rec log. (Inr (), log @ [rec]))\<rparr>"

definition sample_secret :: SecretRecord where
  "sample_secret = \<lparr>sr_id = ''cmp'', sr_kind = ApiToken, sr_label = ''label'', sr_target = WindowsCredentialManager,
     sr_value = [1, 2, 3]\<rparr>"

theorem secrets_only_to_proven_targets_witness:
  "let document = \<lparr>vd_format_version = 1, vd_records = [sample_secret]\<rparr>
   in \<exists>report. restore_document sample_env quiet_machine logging_adapter ''run'' document {''cmp''} (sample_started, 7, [])
        = (Inr report, sample_started, 7, [sample_secret]) \<and> srr_restored report = [''cmp'']"
proof -
  let ?document = "\<lparr>vd_format_version = 1, vd_records = [sample_secret]\<rparr>"
  have "\<exists>report. restore_document sample_env quiet_machine logging_adapter ''run'' ?document {''cmp''} (sample_started, 7, [])
      = (Inr report, sample_started, 7, [sample_secret])"
    by (simp add: restore_document_def sample_secret_def logging_adapter_def secure_target_proven_def)
  then obtain report where run: "restore_document sample_env quiet_machine logging_adapter ''run'' ?document {''cmp''}
      (sample_started, 7, []) = (Inr report, sample_started, 7, [sample_secret])" by blast
  obtain handed where "subseq handed [sample_secret]" "proven_handover logging_adapter {''cmp''} handed [] [sample_secret]"
    "srr_restored report = map sr_id handed"
    using secrets_only_to_proven_targets [OF run] by auto
  then have "handed = [sample_secret]"
    by (cases handed) (auto split: if_splits)
  then have "srr_restored report = [''cmp'']" using \<open>srr_restored report = map sr_id handed\<close>
    by (simp add: sample_secret_def)
  with run show ?thesis by (auto simp: Let_def)
qed

text \<open>
  C38. A manual-action operation completes only on the user's word: when the handler reports the
  operation completed, the journal held the action, in the operation's own run, as acknowledged or
  completed before the call, and holds it as completed after it.
\<close>

theorem manual_completion_needs_acknowledgement:
  assumes "manual_execute env mc operation (j, w) = (Inr outcome, j', w')"
    and "op_kind operation = OpenManualAction action" and "oo_disposition outcome = Completed"
  shows "\<exists>run_id. operation_run_id env operation = Inr run_id
    \<and> (\<exists>r \<in> set (db_manual_actions j). rm_id r = ma_id action \<and> rm_run_id r = run_id
         \<and> rm_state r \<in> {Acknowledged, ManualActionState.Completed})
    \<and> (\<exists>r \<in> set (db_manual_actions j'). rm_id r = ma_id action \<and> rm_run_id r = run_id
         \<and> rm_state r = ManualActionState.Completed)"
proof -
  obtain persisted where load: "load_action env j operation = Inr persisted"
    using assms by (auto simp: manual_execute_def outcome_of_def split: prod.splits if_splits sum.splits)
  obtain run_id where run: "operation_run_id env operation = Inr run_id" and i: "jm_id persisted = ma_id action"
    and row: "\<exists>r \<in> set (db_manual_actions j). rm_id r = ma_id action \<and> rm_run_id r = run_id \<and> rm_state r = jm_state persisted"
    using load_action_row [OF load assms(2)] by blast
  show ?thesis
  proof (cases "jm_state persisted")
    case Acknowledged
    then obtain completed now where "queue_complete env run_id (jm_id persisted) now j = (Inr completed, j')"
      using assms load run
      by (auto simp: manual_execute_def outcome_of_def split: prod.splits if_splits sum.splits dest!: timed_result)
    then have "set_manual_action_state env run_id (ma_id action) ManualActionState.Completed now j = (Inr completed, j')"
      using i by (auto simp: queue_complete_def queue_transition_def dest!: safe_action_id_Inr split: sum.splits)
    from set_manual_action_state_row [OF this] show ?thesis using run row Acknowledged by auto
  qed (use assms load run row in \<open>auto simp: manual_execute_def outcome_of_def action_outcome_def split: prod.splits if_splits\<close>)
qed

theorem manual_completion_needs_acknowledgement_witness:
  "\<exists>outcome j' w'. manual_execute read_env quiet_machine action_operation (acknowledged_journal, 9) = (Inr outcome, j', w')
     \<and> oo_disposition outcome = Completed
     \<and> (\<exists>r \<in> set (db_manual_actions j'). rm_id r = ''m'' \<and> rm_state r = ManualActionState.Completed)"
proof -
  have kind: "op_kind action_operation = OpenManualAction sample_action" by (simp add: action_operation_def)
  have run: "operation_run_id read_env action_operation = Inr ''run''"
    by (simp add: operation_run_id_def action_operation_def strip_prefix_def starts_with_def RunId_try_from_def RunId_new_def)
  obtain a k where fin: "queue_complete read_env ''run'' ''m'' 9 acknowledged_journal = (Inr a, k)"
    using complete_acknowledged by blast
  have exec: "manual_execute read_env quiet_machine action_operation (acknowledged_journal, 9)
      = (Inr (action_outcome Completed (jm_id a) (manual_state_label (jm_state a))), k, 10)"
    by (simp add: manual_execute_def read_acknowledged kind run timed_def fin)
  show ?thesis
    using manual_completion_needs_acknowledgement [OF exec kind] exec
    by (auto simp: action_outcome_def outcome_of_def sample_action_def)
qed

text \<open>
  The queue's \<^verbatim>\<open>create\<close> is an ensure: for an action whose display texts hold nothing to redact,
  a successful call returns a durable row with exactly the reviewed title, reason, risk and
  instructions, the journal holds that row's state, and every earlier action keeps its row as it
  was, acknowledged or not; an id already bound to other texts is refused.
\<close>

theorem queue_create_binds_action:
  assumes "clean_action action" and "queue_create env run_id action now j = (Inr row, k)"
  shows "displays row action
    \<and> (\<exists>r \<in> set (db_manual_actions k). rm_id r = ma_id action \<and> rm_run_id r = run_id \<and> rm_state r = jm_state row)
    \<and> (\<exists>rows. db_manual_actions k = db_manual_actions j @ rows \<and> length rows \<le> 1)"
proof -
  have norm: "normalize_manual_action action = Inr action"
    using assms clean_normalize by (auto simp: queue_create_def split: sum.splits)
  obtain found where get: "queue_get env j run_id (ma_id action) = Inr found"
    using assms(2) norm by (auto simp: queue_create_def split: sum.splits)
  have ensured: ?thesis if "queue_get env k run_id (ma_id action) = Inr (Some existing)"
      "ensure_matches existing action = Inr row" "db_manual_actions k = db_manual_actions j" for existing
    using queue_get_row [OF that(1)] ensure_matches_Inr [OF that(2)] that(3) by auto
  show ?thesis
  proof (cases found)
    case (Some existing)
    then show ?thesis using assms(2) norm get by (intro ensured [of existing]) (auto simp: queue_create_def)
  next
    case None
    obtain res k' where add: "add_manual_action_record env run_id action now j = (res, k')" by fastforce
    show ?thesis
    proof (cases res)
      case (Inr created)
      then show ?thesis using assms norm get None add add_action_row [of action env run_id now j row k]
        by (auto simp: queue_create_def)
    next
      case (Inl e)
      then have "k' = j"
        using add by (auto simp: add_manual_action_record_def commit_then_def split: sum.splits)
      then show ?thesis using assms(2) norm get None add Inl by (auto simp: queue_create_def)
    qed
  qed
qed

theorem queue_create_binds_action_witness:
  "\<exists>row k. queue_create sample_env ''run'' sample_action 5 sample_started = (Inr row, k) \<and> displays row sample_action"
proof -
  have clean: "clean_action sample_action"
    by (simp add: clean_action_def clean_text_def sample_action_def redact_word action_words)
  have k: "public_key ''action_id''" by (simp add: public_key_simps)
  have ev: "safe_json_text sample_env (Object [(''action_id'', String ''m''), (''type'', String ''manual_action_added'')]) c
      = Inr ''{}''" for c
    by (rule sample_object) (simp add: sample_keys action_words k redact_json_word)
  have cols: "manual_action_columns sample_env sample_action = Inr (''t'', ''r'', [], ''{}'')"
    by (simp add: manual_action_columns_def sample_action_def sample_texts_safe empty_array_text)
  have i: "ma_id sample_action = ''m''" by (simp add: sample_action_def)
  have get: "queue_get sample_env sample_started ''run'' ''m'' = Inr None"
    by (simp add: queue_get_def sample_texts_safe list_manual_actions_def sample_started_def)
  have started: "db_manual_actions sample_started = []" "jr_id ` set (db_runs sample_started) = {''run''}"
    by (simp_all add: sample_started_def sample_run_def)
  have "\<exists>row k. queue_create sample_env ''run'' sample_action 5 sample_started = (Inr row, k)"
    by (simp add: queue_create_def sample_normalized_action i get add_manual_action_record_def cols sample_texts_safe
        insert_manual_action_def raw_manual_action_def started log_event_def ev insert_event_tx_def sample_texts(4)
        commit_then_def)
  then show ?thesis using queue_create_binds_action [OF clean] by blast
qed

end
