(* ===== verification/Executor.thy ===== *)
theory Executor
  imports ManualActions Verification
begin

text \<open>
  The executor of \<^verbatim>\<open>crates/reforge-restore/src/executor.rs\<close>: the validation of a plan against the
  journal and the serial loop over its operations. The executor runs in a small monad: a computation
  maps the world to a value or to an early return of the whole call, and the world afterwards.
  Handlers, the backup hook, the clock and the cancellation token are parameters; the calls that
  leave the executor (progress reports, handler executions with the journal at that moment) are
  recorded in the world.
\<close>

datatype executor_call =
    Progress Operation OperationState nat nat
  | Executed Operation journal

record 'w world =
  wd_journal :: journal
  wd_outside :: 'w
  wd_calls :: "executor_call list"

record ExecutionReport =
  er_run_id :: RunId
  er_status :: RunStatus
  er_operations :: "JournalOperation list"

record 'w ExecutionContext =
  ctx_target :: TargetFacts
  ctx_object_index :: ObjectIndex
  ctx_backup_hook :: "(Operation \<Rightarrow> 'w \<Rightarrow> Value option restore \<times> 'w) option"

record 'w Executor =
  ex_env :: journal_env
  ex_machine :: "'w machine"
  ex_handlers :: "'w OperationHandler list"
  ex_id_of :: id_oracle
  ex_content_id :: "str \<Rightarrow> ObjectId"

subsection \<open>Computations with early return\<close>

type_synonym execution = "(ErrorEnvelope abort, ExecutionReport) result"
type_synonym ('w, 'a) exec = "'w world \<Rightarrow> (execution, 'a) result \<times> 'w world"

definition xreturn :: "'a \<Rightarrow> ('w, 'a) exec" where
  "xreturn a = (\<lambda>s. (Inr a, s))"

definition xbind :: "('w, 'a) exec \<Rightarrow> ('a \<Rightarrow> ('w, 'b) exec) \<Rightarrow> ('w, 'b) exec" where
  "xbind m f = (\<lambda>s. case m s of (Inl r, s') \<Rightarrow> (Inl r, s') | (Inr a, s') \<Rightarrow> f a s')"

definition xleave :: "execution \<Rightarrow> ('w, 'a) exec" where
  "xleave r = (\<lambda>s. (Inl r, s))"

definition xfail :: "ErrorEnvelope \<Rightarrow> ('w, 'a) exec" where
  "xfail e = xleave (Inl (Fail e))"

text \<open>The question mark on a pure result, on an option that must be there, and on a reading of the journal.\<close>

definition xlift :: "'a restore \<Rightarrow> ('w, 'a) exec" where
  "xlift r = (case r of Inl e \<Rightarrow> xfail e | Inr a \<Rightarrow> xreturn a)"

definition xexpect :: "'a option \<Rightarrow> ('w, 'a) exec" where
  "xexpect x = (case x of None \<Rightarrow> xleave (Inl Panic) | Some a \<Rightarrow> xreturn a)"

definition journal_read :: "(journal \<Rightarrow> 'a restore) \<Rightarrow> ('w, 'a) exec" where
  "journal_read f = (\<lambda>s. xlift (f (wd_journal s)) s)"

text \<open>A call on the journal and the outside, its result a value the code matches on.\<close>

definition xcall :: "('w, 'a) effect \<Rightarrow> ('w, 'a restore) exec" where
  "xcall f = (\<lambda>s. case f (wd_journal s, wd_outside s) of
     (r, j, w) \<Rightarrow> (Inr r, s\<lparr>wd_journal := j, wd_outside := w\<rparr>))"

definition journal_write :: "'w Executor \<Rightarrow> (DateTime \<Rightarrow> journal \<Rightarrow> 'a restore \<times> journal) \<Rightarrow> ('w, 'a restore) exec" where
  "journal_write ex f = xcall (timed (ex_machine ex) f)"

definition journal_try :: "'w Executor \<Rightarrow> (DateTime \<Rightarrow> journal \<Rightarrow> 'a restore \<times> journal) \<Rightarrow> ('w, 'a) exec" where
  "journal_try ex f = xbind (journal_write ex f) xlift"

definition is_cancelled :: "'w Executor \<Rightarrow> ('w, bool) exec" where
  "is_cancelled ex = (\<lambda>s. let (c, w) = mc_cancelled (ex_machine ex) (wd_outside s) in (Inr c, s\<lparr>wd_outside := w\<rparr>))"

definition record_call :: "(journal \<Rightarrow> executor_call) \<Rightarrow> ('w, unit) exec" where
  "record_call c = (\<lambda>s. (Inr (), s\<lparr>wd_calls := wd_calls s @ [c (wd_journal s)]\<rparr>))"

definition progress :: "Operation \<Rightarrow> OperationState \<Rightarrow> nat \<Rightarrow> nat \<Rightarrow> ('w, unit) exec" where
  "progress operation state completed total_count = record_call (\<lambda>_. Progress operation state completed total_count)"

subsection \<open>Errors and payloads\<close>

definition correlated_code_error :: "Operation \<Rightarrow> ReforgeErrorCode \<Rightarrow> str \<Rightarrow> ErrorEnvelope" where
  "correlated_code_error operation ecode message =
     restore_error ecode message None (Some (op_component operation)) (Some (op_id operation)) None"

definition execution_error :: "Operation \<Rightarrow> ReforgeErrorCode \<Rightarrow> str \<Rightarrow> ErrorEnvelope" where
  "execution_error operation ecode message = correlated_code_error operation ecode message"

definition precondition_error :: "Operation \<Rightarrow> ErrorEnvelope" where
  "precondition_error operation =
     (case op_precondition operation of
        ManualApproval _ \<Rightarrow>
          correlated_code_error operation UserActionRequired ''operation requires an acknowledged manual action''
      | ArtifactPresent _ \<Rightarrow>
          correlated_code_error operation PackageNotFound ''required package object is unavailable''
      | _ \<Rightarrow> correlated_code_error operation TargetConflict ''operation precondition no longer holds on the target'')"

definition correlate_error :: "Operation \<Rightarrow> ErrorEnvelope \<Rightarrow> ErrorEnvelope" where
  "correlate_error operation error =
     error\<lparr>ee_component := Some (op_component operation), ee_operation := Some (op_id operation)\<rparr>"

text \<open>The map of a JSON object is ordered by key.\<close>

definition outcome_payload :: "Value option \<Rightarrow> Value list \<Rightarrow> str option \<Rightarrow> Value" where
  "outcome_payload result evidence reason =
     Object ([(''evidence'', Array evidence)]
             @ (case reason of None \<Rightarrow> [] | Some r \<Rightarrow> [(''reason'', String r)])
             @ [(''result'', case result of None \<Rightarrow> Null | Some v \<Rightarrow> v)])"

definition combine_backup :: "Value option \<Rightarrow> Value option \<Rightarrow> Value option" where
  "combine_backup first second =
     (case first of
        None \<Rightarrow> second
      | Some a \<Rightarrow> (case second of None \<Rightarrow> Some a | Some b \<Rightarrow> Some (Object [(''executor'', a), (''handler'', b)])))"

subsection \<open>The states of the operations\<close>

type_synonym operation_states = "(OperationId, JournalOperation) btree"

definition state_done :: "OperationState \<Rightarrow> bool" where
  "state_done state \<longleftrightarrow> state \<in> {OperationState.Completed, OperationState.Skipped}"

definition prerequisites_complete :: "Operation \<Rightarrow> operation_states \<Rightarrow> bool" where
  "prerequisites_complete operation states \<longleftrightarrow>
     list_all (\<lambda>p. case bt_get states p of None \<Rightarrow> False | Some row \<Rightarrow> state_done (jo_state row))
       (op_prerequisites operation)"

definition has_waiting_for_user_prerequisite :: "Operation \<Rightarrow> operation_states \<Rightarrow> bool" where
  "has_waiting_for_user_prerequisite operation states \<longleftrightarrow>
     list_ex (\<lambda>p. case bt_get states p of None \<Rightarrow> False | Some row \<Rightarrow> jo_state row = OperationState.WaitingForUser)
       (op_prerequisites operation)"

subsection \<open>Validation\<close>

definition plan_error :: "ReforgeErrorCode \<Rightarrow> str \<Rightarrow> str \<Rightarrow> ErrorEnvelope" where
  "plan_error ecode message context_id = restore_error ecode message None None None (Some context_id)"

text \<open>One persisted operation against the plan's operation of the same id.\<close>

definition match_persisted ::
  "(OperationId, Operation) btree \<Rightarrow> JournalOperation \<Rightarrow> operation_states \<Rightarrow> operation_states restore" where
  "match_persisted expected persisted states =
     (case bt_get expected (jo_id persisted) of
        None \<Rightarrow> Inl (plan_error SchemaInvalid ''journal contains an operation absent from the approved plan''
                       ''restore-operation-set'')
      | Some operation \<Rightarrow>
          if jo_operation persisted \<noteq> operation
          then Inl (restore_error SecurityPolicy ''journal operation input differs from the approved plan'' None
                      (Some (op_component operation)) (Some (op_id operation)) (Some ''restore-operation-integrity''))
          else if bt_get states (jo_id persisted) \<noteq> None
          then Inl (plan_error SchemaInvalid ''journal operation IDs are not unique'' ''restore-operation-set'')
          else Inr (bt_insert (jo_id persisted) persisted states))"

definition expected_operations :: "RestorePlan \<Rightarrow> (OperationId, Operation) btree" where
  "expected_operations plan =
     fold (\<lambda>operation. bt_insert (op_id operation) operation) (rp_operations plan) []"

definition match_journal :: "journal_env \<Rightarrow> RestorePlan \<Rightarrow> journal \<Rightarrow> operation_states restore" where
  "match_journal env plan j =
     try_bind (fetch_run env j (rp_run_id plan)) (\<lambda>found.
     try_bind (ok_or (restore_error OperationFailed ''journal run was not found'' None None None None) found) (\<lambda>run.
     if jr_package_id run \<noteq> rp_package_id plan \<or> jr_mode run \<noteq> rp_mode plan
     then Inl (plan_error SchemaInvalid ''journal run metadata does not match the approved plan''
                 ''restore-plan-journal-mismatch'')
     else if jr_target_fingerprint run \<noteq> rp_target_fingerprint plan
     then Inl (plan_error TargetConflict ''journal target fingerprint does not match the approved plan''
                 ''restore-target-fingerprint'')
     else
     try_bind (list_operations env j (rp_run_id plan)) (\<lambda>persisted.
     if length persisted \<noteq> length (rp_operations plan)
     then Inl (plan_error SchemaInvalid ''journal operation set does not match the approved plan'' ''restore-operation-set'')
     else try_fold (match_persisted (expected_operations plan)) persisted [])))"

definition validate_execution :: "'w Executor \<Rightarrow> RestorePlan \<Rightarrow> 'w ExecutionContext \<Rightarrow> ('w, operation_states) exec" where
  "validate_execution ex plan ctx =
     (if tf_fingerprint (ctx_target ctx) \<noteq> rp_target_fingerprint plan
      then xfail (plan_error TargetConflict ''current target fingerprint does not match the approved plan''
                    ''restore-target-fingerprint'')
      else if list_ex (\<lambda>operation. \<not> starts_with (op_id operation) (''op_'' @ rp_run_id plan @ ''_'')) (rp_operations plan)
      then xfail (plan_error SchemaInvalid ''restore operation ID does not belong to the plan run'' ''restore-operation-scope'')
      else case validate_restore_plan plan (ctx_object_index ctx) of
        Inl (Fail error) \<Rightarrow> xfail (plan_error (mve_code error) (mve_message error) ''restore-plan-validation'')
      | Inl _ \<Rightarrow> xleave (Inl Panic)
      | Inr _ \<Rightarrow> journal_read (match_journal (ex_env ex) plan))"

subsection \<open>Handlers and blockers\<close>

definition handler_for :: "'w Executor \<Rightarrow> OperationKind \<Rightarrow> 'w OperationHandler restore" where
  "handler_for ex kind =
     (case filter (\<lambda>handler. oh_handles handler kind) (ex_handlers ex) of
        [] \<Rightarrow> Inl (plan_error OperationFailed ''no typed handler is registered for the operation kind''
                     ''restore-handler-missing'')
      | [handler] \<Rightarrow> Inr handler
      | _ \<Rightarrow> Inl (plan_error SecurityPolicy ''multiple handlers claim one operation kind'' ''restore-handler-routing''))"

definition approved_manual_actions :: "journal_env \<Rightarrow> RunId \<Rightarrow> journal \<Rightarrow> str set restore" where
  "approved_manual_actions env run_id j =
     try_bind (list_manual_actions env j run_id) (\<lambda>actions.
     Inr (set (map jm_id (filter (\<lambda>action. jm_state action \<in> {Acknowledged, ManualActionState.Completed}) actions))))"

definition opens_manual_action :: "Operation \<Rightarrow> bool" where
  "opens_manual_action operation \<longleftrightarrow> (case op_kind operation of OpenManualAction _ \<Rightarrow> True | _ \<Rightarrow> False)"

definition blocked_operation_action_state ::
  "journal_env \<Rightarrow> RunId \<Rightarrow> Operation \<Rightarrow> JournalOperation \<Rightarrow> journal \<Rightarrow> (str \<times> ManualActionState) option restore" where
  "blocked_operation_action_state env run_id operation persisted j =
     (if jo_state persisted \<noteq> OperationState.WaitingForUser \<or> opens_manual_action operation then Inr None
      else let action_id = operation_blocker_action_id operation (jo_attempt persisted)
           in try_bind (queue_get env j run_id action_id) (\<lambda>found.
              Inr (map_option (\<lambda>action. (action_id, jm_state action)) found)))"

definition queue_blocked_operation_action ::
  "'w Executor \<Rightarrow> RunId \<Rightarrow> Operation \<Rightarrow> nat \<Rightarrow> Value option \<Rightarrow> ('w, JournalManualAction restore) exec" where
  "queue_blocked_operation_action ex run_id operation attempt outcome =
     journal_write ex (queue_create (ex_env ex) run_id (operation_blocker_action operation attempt outcome))"

subsection \<open>Ends of a run\<close>

definition transition ::
  "'w Executor \<Rightarrow> RunId \<Rightarrow> Operation \<Rightarrow> OperationState \<Rightarrow> Value option \<Rightarrow> ErrorEnvelope option \<Rightarrow> Value option
   \<Rightarrow> DateTime \<Rightarrow> journal \<Rightarrow> JournalOperation restore \<times> journal" where
  "transition ex run_id operation state result error backup =
     transition_operation (ex_env ex) run_id (op_id operation) state result error backup"

definition set_status :: "'w Executor \<Rightarrow> RunId \<Rightarrow> RunStatus \<Rightarrow> DateTime \<Rightarrow> journal \<Rightarrow> JournalRun restore \<times> journal" where
  "set_status ex run_id status = set_run_status_record (ex_env ex) run_id status"

definition report :: "'w Executor \<Rightarrow> RunId \<Rightarrow> RunStatus \<Rightarrow> ('w, 'a) exec" where
  "report ex run_id status =
     xbind (journal_read (\<lambda>j. list_operations (ex_env ex) j run_id)) (\<lambda>operations.
     xleave (Inr \<lparr>er_run_id = run_id, er_status = status, er_operations = operations\<rparr>))"

text \<open>The recurring \<^verbatim>\<open>set_run_status(..)?\<close> followed by the report of the returned status.\<close>

definition finish_run :: "'w Executor \<Rightarrow> RunId \<Rightarrow> RunStatus \<Rightarrow> ('w, 'a) exec" where
  "finish_run ex run_id status =
     xbind (journal_try ex (set_status ex run_id status)) (\<lambda>run. report ex run_id (jr_status run))"

text \<open>
  Both failure paths record the operation as failed and the run with a status, and return the
  error, or the journal's own error when a write fails.
\<close>

definition persist_error ::
  "'w Executor \<Rightarrow> RunId \<Rightarrow> Operation \<Rightarrow> ErrorEnvelope \<Rightarrow> Value option \<Rightarrow> Value option \<Rightarrow> RunStatus \<Rightarrow> ('w, 'a) exec" where
  "persist_error ex run_id operation error result backup status =
     (let error = correlate_error operation error in
      xbind (journal_write ex (transition ex run_id operation OperationState.Failed result (Some error) backup)) (\<lambda>written.
      case written of
        Inl e \<Rightarrow> xfail e
      | Inr _ \<Rightarrow>
          xbind (journal_write ex (set_status ex run_id status)) (\<lambda>run.
          case run of Inl e \<Rightarrow> xfail e | Inr _ \<Rightarrow> xfail error)))"

definition persist_failure ::
  "'w Executor \<Rightarrow> RunId \<Rightarrow> Operation \<Rightarrow> ErrorEnvelope \<Rightarrow> Value option \<Rightarrow> ('w, 'a) exec" where
  "persist_failure ex run_id operation error backup =
     persist_error ex run_id operation error None backup RunStatus.Failed"

definition persist_blocked_retry :: "'w Executor \<Rightarrow> RunId \<Rightarrow> Operation \<Rightarrow> ErrorEnvelope \<Rightarrow> ('w, 'a) exec" where
  "persist_blocked_retry ex run_id operation error =
     persist_error ex run_id operation error
       (Some (Object [(''reason'', String ''NON_IDEMPOTENT_RETRY_BLOCKED'')])) None RunStatus.WaitingForUser"

definition cancelled_report :: "'w Executor \<Rightarrow> RunId \<Rightarrow> ('w, 'a) exec" where
  "cancelled_report ex run_id = finish_run ex run_id RunStatus.Cancelled"

definition cancelled_operation_report ::
  "'w Executor \<Rightarrow> RunId \<Rightarrow> Operation \<Rightarrow> Value option \<Rightarrow> ('w, 'a) exec" where
  "cancelled_operation_report ex run_id operation backup =
     (let error = correlated_code_error operation ReforgeErrorCode.Cancelled ''restore operation was cancelled'' in
      xbind (journal_try ex (transition ex run_id operation OperationState.Cancelled
               (Some (outcome_payload (Some (Object [(''reason'', String ''CANCELLED'')])) [] (Some ''CANCELLED'')))
               (Some error) backup)) (\<lambda>_.
      finish_run ex run_id RunStatus.Cancelled))"

subsection \<open>One operation\<close>

record loop_state =
  ls_states :: operation_states
  ls_waiting_for_user :: bool
  ls_completed :: nat

definition update_state :: "Operation \<Rightarrow> JournalOperation \<Rightarrow> loop_state \<Rightarrow> loop_state" where
  "update_state operation row ls = ls\<lparr>ls_states := bt_insert (op_id operation) row (ls_states ls)\<rparr>"

definition count_completed :: "loop_state \<Rightarrow> loop_state" where
  "count_completed ls = ls\<lparr>ls_completed := saturating_add_u64 (ls_completed ls) 1\<rparr>"

definition plan_total :: "RestorePlan \<Rightarrow> nat" where
  "plan_total plan = min (length (rp_operations plan)) u64_max"

definition report_progress :: "RestorePlan \<Rightarrow> Operation \<Rightarrow> OperationState \<Rightarrow> loop_state \<Rightarrow> ('w, loop_state) exec" where
  "report_progress plan operation state ls =
     xbind (progress operation state (ls_completed ls) (plan_total plan)) (\<lambda>_. xreturn ls)"

text \<open>A transition into a done state, with its bookkeeping and its progress report.\<close>

definition settle_operation ::
  "'w Executor \<Rightarrow> RestorePlan \<Rightarrow> Operation \<Rightarrow> OperationState \<Rightarrow> Value option \<Rightarrow> loop_state \<Rightarrow> ('w, loop_state) exec" where
  "settle_operation ex plan operation state result ls =
     xbind (journal_try ex (transition ex (rp_run_id plan) operation state result None None)) (\<lambda>updated.
     report_progress plan operation state (count_completed (update_state operation updated ls)))"

text \<open>Marking the operation as running, before a verification or a handler.\<close>

definition start_operation ::
  "'w Executor \<Rightarrow> RestorePlan \<Rightarrow> Operation \<Rightarrow> loop_state \<Rightarrow> ('w, nat \<times> loop_state) exec" where
  "start_operation ex plan operation ls =
     xbind (journal_write ex (mark_operation_running (ex_env ex) (rp_run_id plan) (op_id operation))) (\<lambda>started.
     case started of
       Inl error \<Rightarrow> persist_failure ex (rp_run_id plan) operation (correlate_error operation error) None
     | Inr running \<Rightarrow>
         xbind (report_progress plan operation OperationState.Running (update_state operation running ls)) (\<lambda>ls.
         xreturn (jo_attempt running, ls)))"

definition execute_verification ::
  "'w Executor \<Rightarrow> RestorePlan \<Rightarrow> 'w ExecutionContext \<Rightarrow> Operation \<Rightarrow> loop_state \<Rightarrow> ('w, loop_state) exec" where
  "execute_verification ex plan ctx operation ls =
     xbind (start_operation ex plan operation ls) (\<lambda>(_, ls).
     xbind (is_cancelled ex) (\<lambda>cancelled.
     if cancelled then cancelled_operation_report ex (rp_run_id plan) operation None
     else
     let recorded = map snd (ls_states ls) in
     xbind (xexpect (find (\<lambda>row. jo_id row = op_id operation) recorded)) (\<lambda>verification.
     case operation_verification_proof (ex_content_id ex) verification (ctx_target ctx) recorded of
       Inl error \<Rightarrow> persist_failure ex (rp_run_id plan) operation (correlate_error operation error) None
     | Inr None \<Rightarrow>
         persist_failure ex (rp_run_id plan) operation
           (execution_error operation OperationFailed
              ''verification rule was not proven by target facts or typed prerequisite evidence'') None
     | Inr (Some source) \<Rightarrow>
         settle_operation ex plan operation OperationState.Completed
           (Some (outcome_payload
              (Some (Object [(''source'', String source), (''verification_checked'', Bool True)])) [] None)) ls)))"

fun disposition_reason :: "OperationDisposition \<Rightarrow> str option" where
  "disposition_reason OperationDisposition.Completed = None"
| "disposition_reason OperationDisposition.Skipped = Some ''SKIPPED_BY_HANDLER''"
| "disposition_reason OperationDisposition.WaitingForUser = Some ''WAITING_FOR_USER''"
| "disposition_reason OperationDisposition.WaitingForReboot = Some ''WAITING_FOR_REBOOT''"
| "disposition_reason OperationDisposition.Cancelled = Some ''CANCELLED''"

fun disposition_state :: "OperationDisposition \<Rightarrow> OperationState" where
  "disposition_state OperationDisposition.Completed = OperationState.Completed"
| "disposition_state OperationDisposition.Skipped = OperationState.Skipped"
| "disposition_state OperationDisposition.WaitingForUser = OperationState.WaitingForUser"
| "disposition_state OperationDisposition.WaitingForReboot = OperationState.WaitingForReboot"
| "disposition_state OperationDisposition.Cancelled = OperationState.Cancelled"

fun disposition_error :: "Operation \<Rightarrow> OperationDisposition \<Rightarrow> ErrorEnvelope option" where
  "disposition_error operation OperationDisposition.WaitingForReboot =
     Some (correlated_code_error operation ReforgeErrorCode.RebootRequired ''operation requires a reboot before resume'')"
| "disposition_error operation OperationDisposition.Cancelled =
     Some (correlated_code_error operation ReforgeErrorCode.Cancelled ''restore operation was cancelled'')"
| "disposition_error operation _ = None"

definition may_continue :: "Operation \<Rightarrow> bool" where
  "may_continue operation \<longleftrightarrow>
     (case op_kind operation of OpenManualAction action \<Rightarrow> ma_independent_operations_may_continue action | _ \<Rightarrow> True)"

text \<open>The outcome of a handler, written to the journal, and what the loop does next.\<close>

definition record_outcome ::
  "'w Executor \<Rightarrow> RestorePlan \<Rightarrow> Operation \<Rightarrow> Value option \<Rightarrow> OperationOutcome \<Rightarrow> loop_state \<Rightarrow> ('w, loop_state) exec" where
  "record_outcome ex plan operation hook_backup outcome ls =
     (let disposition = oo_disposition outcome; state = disposition_state disposition in
      xbind (journal_try ex (transition ex (rp_run_id plan) operation state
               (Some (outcome_payload (oo_result outcome) (oo_evidence outcome) (disposition_reason disposition)))
               (disposition_error operation disposition) (combine_backup hook_backup (oo_backup outcome)))) (\<lambda>updated.
      let ls = update_state operation updated ls; ls = (if state_done state then count_completed ls else ls) in
      xbind (report_progress plan operation state ls) (\<lambda>ls.
      case disposition of
        OperationDisposition.WaitingForUser \<Rightarrow>
          if may_continue operation then xreturn (ls\<lparr>ls_waiting_for_user := True\<rparr>)
          else finish_run ex (rp_run_id plan) RunStatus.WaitingForUser
      | OperationDisposition.WaitingForReboot \<Rightarrow> finish_run ex (rp_run_id plan) RunStatus.WaitingForReboot
      | OperationDisposition.Cancelled \<Rightarrow> finish_run ex (rp_run_id plan) RunStatus.Cancelled
      | _ \<Rightarrow> xreturn ls)))"

text \<open>An error of the handler's execution: cancellation, interruption, or failure.\<close>

definition handler_failed ::
  "'w Executor \<Rightarrow> RestorePlan \<Rightarrow> Operation \<Rightarrow> Value option \<Rightarrow> ErrorEnvelope \<Rightarrow> ('w, 'a) exec" where
  "handler_failed ex plan operation hook_backup error =
     (let run_id = rp_run_id plan; error = correlate_error operation error in
      xbind (is_cancelled ex) (\<lambda>cancelled.
      if cancelled \<or> ee_code error = ReforgeErrorCode.Cancelled
      then cancelled_operation_report ex run_id operation hook_backup
      else if ee_code error = ReforgeErrorCode.Interrupted
      then xbind (journal_try ex (transition ex run_id operation OperationState.Interrupted None (Some error) hook_backup)) (\<lambda>_.
           xbind (journal_try ex (set_status ex run_id RunStatus.Interrupted)) (\<lambda>run.
           xfail (if jr_status run = RunStatus.Interrupted then error
                  else execution_error operation ReforgeErrorCode.Interrupted ''restore run was interrupted'')))
      else persist_failure ex run_id operation error hook_backup))"

definition prepare_backup ::
  "'w Executor \<Rightarrow> RestorePlan \<Rightarrow> 'w ExecutionContext \<Rightarrow> Operation \<Rightarrow> ('w, Value option) exec" where
  "prepare_backup ex plan ctx operation =
     (case ctx_backup_hook ctx of
        None \<Rightarrow> xreturn None
      | Some hook \<Rightarrow>
          xbind (xcall (\<lambda>(j, w). case hook operation w of (r, w') \<Rightarrow> (r, j, w'))) (\<lambda>backup.
          case backup of
            Inl error \<Rightarrow> persist_failure ex (rp_run_id plan) operation (correlate_error operation error) None
          | Inr backup \<Rightarrow> xreturn backup))"

definition run_handler ::
  "'w Executor \<Rightarrow> RestorePlan \<Rightarrow> 'w ExecutionContext \<Rightarrow> Operation \<Rightarrow> 'w OperationHandler \<Rightarrow> loop_state
   \<Rightarrow> ('w, loop_state) exec" where
  "run_handler ex plan ctx operation handler ls =
     xbind (start_operation ex plan operation ls) (\<lambda>(attempt, ls).
     xbind (prepare_backup ex plan ctx operation) (\<lambda>hook_backup.
     xbind (is_cancelled ex) (\<lambda>cancelled.
     if cancelled then cancelled_operation_report ex (rp_run_id plan) operation hook_backup
     else
     xbind (record_call (Executed operation)) (\<lambda>_.
     xbind (xcall (oh_execute handler operation)) (\<lambda>executed.
     case executed of
       Inl error \<Rightarrow> handler_failed ex plan operation hook_backup error
     | Inr outcome \<Rightarrow>
         if oo_disposition outcome = OperationDisposition.WaitingForUser \<and> \<not> opens_manual_action operation
         then xbind (queue_blocked_operation_action ex (rp_run_id plan) operation attempt (oo_result outcome)) (\<lambda>queued.
              case queued of
                Inl error \<Rightarrow> persist_failure ex (rp_run_id plan) operation error hook_backup
              | Inr _ \<Rightarrow> record_outcome ex plan operation hook_backup outcome ls)
         else record_outcome ex plan operation hook_backup outcome ls)))))"

definition execute_handled ::
  "'w Executor \<Rightarrow> RestorePlan \<Rightarrow> 'w ExecutionContext \<Rightarrow> Operation \<Rightarrow> loop_state \<Rightarrow> ('w, loop_state) exec" where
  "execute_handled ex plan ctx operation ls =
     (case handler_for ex (op_kind operation) of
        Inl error \<Rightarrow> persist_failure ex (rp_run_id plan) operation error None
      | Inr handler \<Rightarrow>
          xbind (xcall (oh_is_satisfied handler operation)) (\<lambda>checked.
          case checked of
            Inl error \<Rightarrow> persist_failure ex (rp_run_id plan) operation (correlate_error operation error) None
          | Inr satisfaction \<Rightarrow>
              xbind (is_cancelled ex) (\<lambda>cancelled.
              if cancelled then cancelled_report ex (rp_run_id plan)
              else case satisfaction of
                Satisfied result evidence \<Rightarrow>
                  settle_operation ex plan operation OperationState.Skipped
                    (Some (outcome_payload result evidence (Some ''SKIPPED_ALREADY_SATISFIED''))) ls
              | NotSatisfied \<Rightarrow> run_handler ex plan ctx operation handler ls)))"

definition verifies :: "Operation \<Rightarrow> bool" where
  "verifies operation \<longleftrightarrow> (case op_kind operation of OperationKind.Verify _ \<Rightarrow> True | _ \<Rightarrow> False)"

text \<open>The gates an operation that is not done passes before it is executed.\<close>

definition execute_unblocked ::
  "'w Executor \<Rightarrow> RestorePlan \<Rightarrow> 'w ExecutionContext \<Rightarrow> Operation \<Rightarrow> JournalOperation \<Rightarrow> str option \<Rightarrow> loop_state
   \<Rightarrow> ('w, loop_state) exec" where
  "execute_unblocked ex plan ctx operation persisted acknowledged ls =
     (let run_id = rp_run_id plan in
      if \<not> prerequisites_complete operation (ls_states ls)
      then if has_waiting_for_user_prerequisite operation (ls_states ls)
           then xreturn (ls\<lparr>ls_waiting_for_user := True\<rparr>)
           else persist_failure ex run_id operation
                  (execution_error operation OperationFailed ''operation prerequisites are not complete'') None
      else
      xbind (is_cancelled ex) (\<lambda>cancelled.
      if cancelled then cancelled_report ex run_id
      else
      xbind (journal_read (approved_manual_actions (ex_env ex) run_id)) (\<lambda>approved_actions.
      if \<not> precondition_satisfied (ex_id_of ex) (op_precondition operation) (ctx_target ctx) (ctx_object_index ctx)
             approved_actions
      then persist_failure ex run_id operation (precondition_error operation) None
      else if op_non_idempotent operation
           \<and> (jo_state persisted \<noteq> OperationState.Pending \<or> jo_attempt persisted > 0)
      then persist_blocked_retry ex run_id operation
             (execution_error operation SecurityPolicy
                ''non-idempotent operation cannot be retried without a new approval boundary'')
      else
      xbind (case acknowledged of
               None \<Rightarrow> xreturn ()
             | Some action_id \<Rightarrow>
                 xbind (journal_write ex (queue_complete (ex_env ex) run_id action_id)) (\<lambda>completed.
                 case completed of
                   Inl error \<Rightarrow> persist_failure ex run_id operation error None
                 | Inr _ \<Rightarrow> xreturn ())) (\<lambda>_.
      if verifies operation then execute_verification ex plan ctx operation ls
      else execute_handled ex plan ctx operation ls))))"

definition execute_operation ::
  "'w Executor \<Rightarrow> RestorePlan \<Rightarrow> 'w ExecutionContext \<Rightarrow> Operation \<Rightarrow> loop_state \<Rightarrow> ('w, loop_state) exec" where
  "execute_operation ex plan ctx operation ls =
     xbind (xlift (ok_or (execution_error operation SchemaInvalid ''journal operation is missing from the execution set'')
                     (bt_get (ls_states ls) (op_id operation)))) (\<lambda>persisted.
     if state_done (jo_state persisted)
     then report_progress plan operation (jo_state persisted) (count_completed ls)
     else
     xbind (journal_read (blocked_operation_action_state (ex_env ex) (rp_run_id plan) operation persisted)) (\<lambda>blocked.
     case blocked of
       Some (action_id, ManualActionState.Pending) \<Rightarrow>
         report_progress plan operation OperationState.WaitingForUser (ls\<lparr>ls_waiting_for_user := True\<rparr>)
     | Some (action_id, ManualActionState.Skipped) \<Rightarrow>
         settle_operation ex plan operation OperationState.Skipped
           (Some (outcome_payload
              (Some (Object [(''manual_action_id'', String action_id), (''state'', String ''SKIPPED'')])) []
              (Some ''SKIPPED_BY_USER''))) ls
     | Some (action_id, Acknowledged) \<Rightarrow> execute_unblocked ex plan ctx operation persisted (Some action_id) ls
     | _ \<Rightarrow> execute_unblocked ex plan ctx operation persisted None ls))"

subsection \<open>The loop\<close>

fun execute_operations ::
  "'w Executor \<Rightarrow> RestorePlan \<Rightarrow> 'w ExecutionContext \<Rightarrow> Operation list \<Rightarrow> loop_state \<Rightarrow> ('w, loop_state) exec" where
  "execute_operations ex plan ctx [] ls = xreturn ls"
| "execute_operations ex plan ctx (operation # operations) ls =
     xbind (execute_operation ex plan ctx operation ls) (execute_operations ex plan ctx operations)"

definition final_status :: "loop_state \<Rightarrow> RunStatus" where
  "final_status ls =
     (if ls_waiting_for_user ls
         \<or> list_ex (\<lambda>row. jo_state row = OperationState.WaitingForUser) (map snd (ls_states ls))
      then RunStatus.WaitingForUser else RunStatus.Completed)"

definition execute_plan_body :: "'w Executor \<Rightarrow> RestorePlan \<Rightarrow> 'w ExecutionContext \<Rightarrow> ('w, unit) exec" where
  "execute_plan_body ex plan ctx =
     xbind (journal_read (\<lambda>j. require_approved (ex_env ex) j (rp_run_id plan))) (\<lambda>_.
     xbind (validate_execution ex plan ctx) (\<lambda>states.
     xbind (execute_operations ex plan ctx (rp_operations plan)
              \<lparr>ls_states = states, ls_waiting_for_user = False, ls_completed = 0\<rparr>) (\<lambda>ls.
     finish_run ex (rp_run_id plan) (final_status ls))))"

text \<open>The result of the call: every path of the body leaves it.\<close>

definition execute ::
  "'w Executor \<Rightarrow> RestorePlan \<Rightarrow> 'w ExecutionContext \<Rightarrow> 'w world \<Rightarrow> execution \<times> 'w world" where
  "execute ex plan ctx s =
     (case execute_plan_body ex plan ctx s of
        (Inl r, s') \<Rightarrow> (r, s')
      | (Inr _, s') \<Rightarrow> (Inl Panic, s'))"

end
