(* ===== verification/ExecutorSafety.thy ===== *)
theory ExecutorSafety
  imports Executor
begin

text \<open>
  What the executor guarantees, whatever its handlers do: every change of the journal is one of the
  journal's own steps, a handler runs only for an operation that is recorded as running, in an
  approved run, after its prerequisites, and a run is reported completed only when all of it is.
  The proofs use triples for computations with early return.
\<close>

subsection \<open>Triples\<close>

definition xvalid ::
  "('w world \<Rightarrow> bool) \<Rightarrow> ('w, 'a) exec \<Rightarrow> ('a \<Rightarrow> 'w world \<Rightarrow> bool) \<Rightarrow> (execution \<Rightarrow> 'w world \<Rightarrow> bool) \<Rightarrow> bool" where
  "xvalid P m Q R \<longleftrightarrow> (\<forall>s. P s \<longrightarrow> (case m s of (Inl r, s') \<Rightarrow> R r s' | (Inr a, s') \<Rightarrow> Q a s'))"

named_theorems xvalid_rules \<open>rules of the triples, applied backwards\<close>

lemma xvalid_return [xvalid_rules]: "(\<And>s. P s \<Longrightarrow> Q a s) \<Longrightarrow> xvalid P (xreturn a) Q R"
  by (simp add: xvalid_def xreturn_def)

lemma xvalid_leave [xvalid_rules]: "(\<And>s. P s \<Longrightarrow> R r s) \<Longrightarrow> xvalid P (xleave r) Q R"
  by (simp add: xvalid_def xleave_def)

lemma xvalid_fail [xvalid_rules]: "(\<And>s. P s \<Longrightarrow> R (Inl (Fail e)) s) \<Longrightarrow> xvalid P (xfail e) Q R"
  by (simp add: xfail_def xvalid_leave)

lemma xvalid_bind: "xvalid P m Q' R \<Longrightarrow> (\<And>a. xvalid (Q' a) (f a) Q R) \<Longrightarrow> xvalid P (xbind m f) Q R"
  unfolding xvalid_def xbind_def by (fastforce split: prod.splits sum.splits)

lemma xvalid_weaken:
  assumes "xvalid P' m Q' R'" "\<And>s. P s \<Longrightarrow> P' s" "\<And>a s. Q' a s \<Longrightarrow> Q a s" "\<And>r s. R' r s \<Longrightarrow> R r s"
  shows "xvalid P m Q R"
  using assms unfolding xvalid_def by (fastforce split: prod.splits sum.splits)


lemma xvalid_pre: "xvalid P' m Q R \<Longrightarrow> (\<And>s. P s \<Longrightarrow> P' s) \<Longrightarrow> xvalid P m Q R"
  by (rule xvalid_weaken)

lemma xvalid_pure: "(b \<Longrightarrow> xvalid P m Q R) \<Longrightarrow> xvalid (\<lambda>s. b \<and> P s) m Q R"
  by (auto simp: xvalid_def)

lemma xvalid_if [xvalid_rules]: "(b \<Longrightarrow> xvalid P m Q R) \<Longrightarrow> (\<not> b \<Longrightarrow> xvalid P n Q R) \<Longrightarrow> xvalid P (if b then m else n) Q R"
  by simp

lemma xvalid_lift [xvalid_rules]:
  "(\<And>s e. P s \<Longrightarrow> r = Inl e \<Longrightarrow> R (Inl (Fail e)) s) \<Longrightarrow> (\<And>s a. P s \<Longrightarrow> r = Inr a \<Longrightarrow> Q a s) \<Longrightarrow> xvalid P (xlift r) Q R"
  by (cases r) (auto simp: xlift_def intro: xvalid_fail xvalid_return)

lemma xvalid_read [xvalid_rules]:
  "(\<And>s e. P s \<Longrightarrow> R (Inl (Fail e)) s) \<Longrightarrow> (\<And>s a. P s \<Longrightarrow> f (wd_journal s) = Inr a \<Longrightarrow> Q a s) \<Longrightarrow>
   xvalid P (journal_read f) Q R"
  by (auto simp: xvalid_def journal_read_def xlift_def xfail_def xleave_def xreturn_def split: sum.splits)

lemma xvalid_call:
  assumes "\<And>s r j w. P s \<Longrightarrow> f (wd_journal s, wd_outside s) = (r, j, w) \<Longrightarrow> Q r (s\<lparr>wd_journal := j, wd_outside := w\<rparr>)"
  shows "xvalid P (xcall f) Q R"
  using assms by (auto simp: xvalid_def xcall_def split: prod.splits)

lemma xvalid_write:
  assumes "\<And>s now r j w. P s \<Longrightarrow> f now (wd_journal s) = (r, j) \<Longrightarrow> Q r (s\<lparr>wd_journal := j, wd_outside := w\<rparr>)"
  shows "xvalid P (journal_write ex f) Q R"
  unfolding journal_write_def by (rule xvalid_call) (auto dest!: timed_result intro: assms)

lemma xvalid_cancelled:
  assumes "\<And>s c w. P s \<Longrightarrow> Q c (s\<lparr>wd_outside := w\<rparr>)"
  shows "xvalid P (is_cancelled ex) Q R"
  using assms by (auto simp: xvalid_def is_cancelled_def Let_def split: prod.splits)

lemma xvalid_record:
  assumes "\<And>s. P s \<Longrightarrow> Q () (s\<lparr>wd_calls := wd_calls s @ [c (wd_journal s)]\<rparr>)"
  shows "xvalid P (record_call c) Q R"
  using assms by (simp add: xvalid_def record_call_def)

subsection \<open>Facts of the journal\<close>

lemma evolves_approved: "journal_evolves j k \<Longrightarrow> approved_ids j \<subseteq> approved_ids k"
proof
  fix i assume "journal_evolves j k" "i \<in> approved_ids j"
  then obtain r where "r \<in> set (db_runs j)" "jr_approval_state r = Approved" "jr_id r = i"
    and "table_extends run_evolves (db_runs j) (db_runs k)"
    by (auto simp: approved_ids_def journal_evolves_def)
  then obtain s where "s \<in> set (db_runs k)" "run_evolves r s" using runs.table_row by blast
  then have "s \<in> set (db_runs k)" "jr_approval_state s = Approved" "jr_id s = i"
    using \<open>jr_approval_state r = Approved\<close> \<open>jr_id r = i\<close> by (auto simp: run_evolves_def)
  then show "i \<in> approved_ids k" by (auto simp: approved_ids_def)
qed

lemma find_operation_mem:
  "find_operation j run_id i = Some r \<Longrightarrow> r \<in> set (db_operations j) \<and> ro_id r = i \<and> ro_run_id r = run_id"
  by (auto simp: find_operation_def dest: find_in)

lemma find_operation_member:
  assumes "journal_inv j" "r \<in> set (db_operations j)"
  shows "find_operation j (ro_run_id r) (ro_id r) = Some r"
proof -
  have "find_operation j (ro_run_id r) (ro_id r) \<noteq> None"
    using assms(2) by (auto simp: find_operation_def find_None_iff)
  then show ?thesis using find_operation_unique [OF assms(1) _ assms(2)] by auto
qed

lemma evolves_done:
  assumes "journal_inv k" "journal_evolves j k" "find_operation j run_id i = Some r" "terminal_state (ro_state r)"
  shows "find_operation k run_id i = Some r"
proof -
  note mem = find_operation_mem [OF assms(3)]
  obtain s where "s \<in> set (db_operations k)" "operation_evolves r s"
    using assms(2) mem operations.table_row [of "db_operations j" "db_operations k" r] by (auto simp: journal_evolves_def)
  then have "r \<in> set (db_operations k)" using assms(4) by (simp add: operation_evolves_def)
  then show ?thesis using find_operation_member [OF assms(1)] mem by metis
qed

lemma parse_operation_fields:
  "parse_operation env run_id r = Inr row \<Longrightarrow>
   jo_id row = ro_id r \<and> jo_state row = ro_state r \<and> jo_attempt row = ro_attempt r \<and> op_id (jo_operation row) = ro_id r"
  by (auto simp: parse_operation_def parse_id_def OperationId_new_def try_bind_Inr
      split: sum.splits if_splits option.splits prod.splits)

lemma fetch_operation_row:
  "fetch_operation env j run_id i = Inr (Some row) \<Longrightarrow>
   \<exists>r. find_operation j run_id i = Some r \<and> parse_operation env run_id r = Inr row"
  by (auto simp: fetch_operation_def transpose_map_def try_bind_Inr split: option.splits)

lemma transition_tx_finds:
  assumes "transition_operation_tx env run_id i state a b c r now j = Inr k" "find_operation j run_id i = Some r"
  obtains r' where "transition_row state a b c now r = Inr r'" "find_operation k run_id i = Some r'"
    "\<And>i'. i' \<noteq> i \<Longrightarrow> find_operation k run_id i' = find_operation j run_id i'"
proof -
  obtain r' where r': "transition_row state a b c now r = Inr r'"
    using assms(1) by (auto simp: transition_operation_tx_def try_bind_Inr)
  have ids: "ro_id r' = ro_id r" "ro_run_id r' = ro_run_id r"
    using r' by (auto simp: transition_row_def try_bind_Inr split: if_splits)
  have mem: "ro_id r = i" "ro_run_id r = run_id" using find_operation_mem [OF assms(2)] by auto
  let ?p = "\<lambda>x. ro_id x = i \<and> ro_run_id x = run_id"
  have ops: "db_operations k = map (\<lambda>x. if ?p x then r' else x) (db_operations j)"
    using assms(1) r'
    by (auto simp: transition_operation_tx_def try_bind_Inr Let_def update_runs_def update_operations_def
        dest!: log_event_operations split: if_splits)
  have find: "find (\<lambda>x. ro_id x = i' \<and> ro_run_id x = run_id) (map (\<lambda>x. if ?p x then r' else x) rows)
      = map_option (\<lambda>x. if ?p x then r' else x) (find (\<lambda>x. ro_id x = i' \<and> ro_run_id x = run_id) rows)" for i' rows
    using ids mem by (induction rows) auto
  have all: "find_operation k run_id i' = map_option (\<lambda>x. if ?p x then r' else x) (find_operation j run_id i')" for i'
    unfolding find_operation_def ops by (rule find)
  have "find_operation k run_id i = Some r'" using all [of i] assms(2) mem by simp
  moreover have "find_operation k run_id i' = find_operation j run_id i'" if "i' \<noteq> i" for i'
    using all [of i'] that find_operation_mem [of j run_id i'] by (cases "find_operation j run_id i'") auto
  ultimately show thesis using r' that by blast
qed

lemma transition_record_cases:
  assumes "transition_operation_record env run_id i state a b c now j = (Inr row, k)"
    and "find_operation j run_id i = Some r" "find_run j run_id = Some run"
  shows "k = j \<and> fetch_operation env j run_id i = Inr (Some row) \<and> ro_state r = state \<and> terminal_state state
    \<or> transition_operation_tx env run_id i state a b c r now j = Inr k \<and> fetch_operation env k run_id i = Inr (Some row)"
proof (cases "terminal_state (ro_state r)")
  case True
  then show ?thesis
    using assms by (cases "state = ro_state r") (auto simp: transition_operation_record_def terminal_state_def try_bind_Inr split: if_splits)
next
  case False
  then have "ro_state r \<noteq> OperationState.Completed" "ro_state r \<noteq> OperationState.Skipped"
    by (auto simp: terminal_state_def)
  then have "commit_then (transition_operation_tx env run_id i state a b c r now j)
      (\<lambda>j. try_bind (fetch_operation env j run_id i)
        (ok_or (journal_error SchemaInvalid ''journal operation disappeared after state update''))) j = (Inr row, k)"
    using assms by (simp add: transition_operation_record_def split: if_splits)
  then show ?thesis by (auto simp: commit_then_def try_bind_Inr split: sum.splits)
qed

text \<open>A successful transition: the row it returns is the row of the journal, and no other row of the run moved.\<close>

lemma transition_record_finds:
  assumes "transition_operation_record env run_id i state a b c now j = (Inr row, k)"
  obtains r r' where "find_operation j run_id i = Some r" "find_operation k run_id i = Some r'"
    "parse_operation env run_id r' = Inr row" "ro_state r' = state"
    "state = OperationState.Running \<Longrightarrow> ro_attempt r' = Suc (ro_attempt r)"
    "\<And>i'. i' \<noteq> i \<Longrightarrow> find_operation k run_id i' = find_operation j run_id i'"
proof -
  obtain r run where r: "find_operation j run_id i = Some r" "find_run j run_id = Some run"
    using assms by (auto simp: transition_operation_record_def split: option.splits)
  consider (same) "k = j" "fetch_operation env j run_id i = Inr (Some row)" "ro_state r = state" "terminal_state state"
    | (tx) "transition_operation_tx env run_id i state a b c r now j = Inr k" "fetch_operation env k run_id i = Inr (Some row)"
    using transition_record_cases [OF assms r] by blast
  then show thesis
  proof cases
    case same
    then show thesis using that [of r r] r fetch_operation_row [of env j run_id i row] by (auto simp: terminal_state_def)
  next
    case tx
    obtain r' where r': "transition_row state a b c now r = Inr r'" "find_operation k run_id i = Some r'"
      "\<And>i'. i' \<noteq> i \<Longrightarrow> find_operation k run_id i' = find_operation j run_id i'"
      using transition_tx_finds [OF tx(1) r(1)] by blast
    have "ro_state r' = state" "state = OperationState.Running \<Longrightarrow> ro_attempt r' = Suc (ro_attempt r)"
      using r'(1) by (auto simp: transition_row_def try_bind_Inr split: if_splits)
    then show thesis using that [of r r'] r r' fetch_operation_row [OF tx(2)] by auto
  qed
qed

lemma transition_finds:
  assumes "transition_operation env run_id i state result error backup now j = (Inr row, k)"
  obtains r r' where "find_operation j run_id i = Some r" "find_operation k run_id i = Some r'"
    "parse_operation env run_id r' = Inr row" "ro_state r' = state"
    "state = OperationState.Running \<Longrightarrow> ro_attempt r' = Suc (ro_attempt r)"
    "\<And>i'. i' \<noteq> i \<Longrightarrow> find_operation k run_id i' = find_operation j run_id i'"
proof -
  obtain a b c where "transition_operation_record env run_id i state a b c now j = (Inr row, k)"
    using assms by (auto simp: transition_operation_def split: sum.splits prod.splits)
  then show thesis by (rule transition_record_finds) (rule that)
qed

lemma log_event_runs: "log_event env i level event c now j = Inr k \<Longrightarrow> db_runs k = db_runs j"
  by (auto simp: log_event_def insert_event_tx_def result_simps Let_def split: if_splits)

lemma run_status_result:
  assumes "set_run_status_record env run_id status now j = (Inr run, k)"
  shows "jr_status run = status"
proof -
  have tx: "set_run_status_tx env run_id status now j = Inr k" and fetch: "fetch_run env k run_id = Inr (Some run)"
    using assms by (auto simp: set_run_status_record_def commit_then_def try_bind_Inr split: sum.splits)
  then obtain r where r: "find_run k run_id = Some r" "parse_run env r = Inr run"
    by (auto simp: fetch_run_def transpose_map_def try_bind_Inr split: option.splits)
  define f :: "JournalRun \<Rightarrow> JournalRun" where "f = (\<lambda>r. if jr_id r = run_id then r\<lparr>jr_status := status, jr_updated_at := now\<rparr> else r)"
  have runs: "db_runs k = map f (db_runs j)"
    using tx by (auto simp: set_run_status_tx_def update_runs_def f_def dest!: log_event_runs split: option.splits if_splits)
  have mem: "r \<in> set (db_runs k)" "jr_id r = run_id" using find_in [OF r(1) [unfolded find_run_def]] by auto
  then obtain x where x: "r = f x" using runs by auto
  have "jr_id (f x) = jr_id x" by (simp add: f_def)
  with x mem(2) have "jr_status r = status" by (simp add: f_def)
  then show ?thesis using r(2) by (auto simp: parse_run_def try_bind_Inr)
qed

subsection \<open>The invariant of an execution\<close>

definition row_done :: "RunId \<Rightarrow> journal \<Rightarrow> OperationId \<Rightarrow> bool" where
  "row_done run_id j i \<longleftrightarrow> (\<exists>r. find_operation j run_id i = Some r \<and> terminal_state (ro_state r))"

text \<open>
  The journal at the moment a handler is called: the run is approved, the operation is recorded as
  running, for the first time if it must not be repeated, and its prerequisites are done.
\<close>

definition ready :: "RestorePlan \<Rightarrow> Operation \<Rightarrow> journal \<Rightarrow> bool" where
  "ready plan operation j \<longleftrightarrow>
     operation \<in> set (rp_operations plan) \<and> rp_run_id plan \<in> approved_ids j
     \<and> (\<exists>r. find_operation j (rp_run_id plan) (op_id operation) = Some r \<and> ro_state r = OperationState.Running
          \<and> (op_non_idempotent operation \<longrightarrow> ro_attempt r = 1))
     \<and> (\<forall>p \<in> set (op_prerequisites operation). row_done (rp_run_id plan) j p)"

definition calls_ready :: "RestorePlan \<Rightarrow> executor_call list \<Rightarrow> bool" where
  "calls_ready plan calls \<longleftrightarrow> (\<forall>operation j. Executed operation j \<in> set calls \<longrightarrow> ready plan operation j)"

definition run_inv :: "journal_env \<Rightarrow> RestorePlan \<Rightarrow> journal \<Rightarrow> OperationId set \<Rightarrow> 'w world \<Rightarrow> bool" where
  "run_inv env plan j0 ids s \<longleftrightarrow>
     journal_inv (wd_journal s) \<and> journal_history env j0 (wd_journal s)
     \<and> rp_run_id plan \<in> approved_ids (wd_journal s)
     \<and> (\<forall>i \<in> ids. row_done (rp_run_id plan) (wd_journal s) i)
     \<and> calls_ready plan (wd_calls s)"

text \<open>The executor's map of states agrees with the rows of the journal.\<close>

definition agrees :: "RunId \<Rightarrow> operation_states \<Rightarrow> journal \<Rightarrow> bool" where
  "agrees run_id states j \<longleftrightarrow>
     bt_inv states
     \<and> (\<forall>i row. bt_get states i = Some row \<longrightarrow> jo_id row = i
          \<and> (\<exists>r. find_operation j run_id i = Some r \<and> ro_state r = jo_state row \<and> ro_attempt r = jo_attempt row))"

definition exec_inv ::
  "journal_env \<Rightarrow> RestorePlan \<Rightarrow> journal \<Rightarrow> operation_states \<Rightarrow> OperationId set \<Rightarrow> 'w world \<Rightarrow> bool" where
  "exec_inv env plan j0 states ids s \<longleftrightarrow>
     run_inv env plan j0 ids s \<and> agrees (rp_run_id plan) states (wd_journal s)"

text \<open>An early return from the loop: no panic, and no report of a completed run.\<close>

definition left_ok :: "journal_env \<Rightarrow> RestorePlan \<Rightarrow> journal \<Rightarrow> execution \<Rightarrow> 'w world \<Rightarrow> bool" where
  "left_ok env plan j0 r s \<longleftrightarrow>
     run_inv env plan j0 {} s \<and> r \<noteq> Inl Panic \<and> r \<noteq> Inl OutOfFuel
     \<and> (\<forall>rep. r = Inr rep \<longrightarrow> er_status rep \<noteq> RunStatus.Completed)"

lemma run_inv_outside [simp]: "run_inv env plan j0 ids (s\<lparr>wd_outside := w\<rparr>) = run_inv env plan j0 ids s"
  by (simp add: run_inv_def)

lemma exec_inv_outside [simp]: "exec_inv env plan j0 states ids (s\<lparr>wd_outside := w\<rparr>) = exec_inv env plan j0 states ids s"
  by (simp add: exec_inv_def)

lemma run_inv_progress:
  "run_inv env plan j0 ids s \<Longrightarrow> run_inv env plan j0 ids (s\<lparr>wd_calls := wd_calls s @ [Progress operation state c n]\<rparr>)"
  by (simp add: run_inv_def calls_ready_def)

lemma run_inv_mono: "run_inv env plan j0 ids s \<Longrightarrow> ids' \<subseteq> ids \<Longrightarrow> run_inv env plan j0 ids' s"
  by (auto simp: run_inv_def)

lemma exec_inv_mono: "exec_inv env plan j0 states ids s \<Longrightarrow> ids' \<subseteq> ids \<Longrightarrow> exec_inv env plan j0 states ids' s"
  by (auto simp: exec_inv_def intro: run_inv_mono)

lemma run_inv_history:
  assumes inv: "run_inv env plan j0 ids s" and steps: "journal_history env (wd_journal s) k"
  shows "run_inv env plan j0 ids (s\<lparr>wd_journal := k, wd_outside := w\<rparr>)"
proof -
  have k: "journal_inv k" "journal_evolves (wd_journal s) k"
    using safe_history [OF steps] inv by (auto simp: safe_step_def run_inv_def)
  have "row_done (rp_run_id plan) k i" if "i \<in> ids" for i
    using inv that evolves_done [OF k] by (fastforce simp: run_inv_def row_done_def)
  moreover have "journal_history env j0 k" using inv steps by (auto simp: run_inv_def intro: rtranclp_trans)
  moreover have "rp_run_id plan \<in> approved_ids k" using inv evolves_approved [OF k(2)] by (auto simp: run_inv_def)
  ultimately show ?thesis using inv k(1) by (simp add: run_inv_def)
qed

lemma agrees_get:
  "agrees run_id states j \<Longrightarrow> bt_get states i = Some row \<Longrightarrow>
   \<exists>r. find_operation j run_id i = Some r \<and> ro_state r = jo_state row \<and> ro_attempt r = jo_attempt row"
  by (simp add: agrees_def)

lemma agrees_same_operations: "db_operations k = db_operations j \<Longrightarrow> agrees run_id states k = agrees run_id states j"
  by (simp add: agrees_def find_operation_def)

lemma exec_inv_handler:
  assumes "exec_inv env plan j0 states ids s" and "handler_writes env (wd_journal s) k"
  shows "exec_inv env plan j0 states ids (s\<lparr>wd_journal := k, wd_outside := w\<rparr>)"
proof -
  have "agrees (rp_run_id plan) states k = agrees (rp_run_id plan) states (wd_journal s)"
    using assms(2) by (intro agrees_same_operations) (simp add: handler_writes_def)
  then show ?thesis using assms run_inv_history by (auto simp: exec_inv_def handler_writes_def)
qed

lemma agrees_transition:
  assumes "agrees run_id states j" "transition_operation env run_id i state result error backup now j = (Inr row, k)"
  shows "jo_state row = state \<and> agrees run_id (bt_insert i row states) k"
proof -
  show ?thesis
  proof (rule transition_finds [OF assms(2)])
    fix r r'
    assume r': "find_operation k run_id i = Some r'" "parse_operation env run_id r' = Inr row" "ro_state r' = state"
      and other: "\<And>i'. i' \<noteq> i \<Longrightarrow> find_operation k run_id i' = find_operation j run_id i'"
    have "ro_id r' = i" using find_operation_mem [OF r'(1)] by simp
    then show ?thesis
      using assms(1) r' other parse_operation_fields [OF r'(2)] by (auto simp: agrees_def bt_inv_insert bt_get_insert)
  qed
qed

lemma started_attempt:
  assumes "agrees run_id states j" "bt_get states i = Some persisted"
    and "mark_operation_running env run_id i now j = (Inr row, k)"
  shows "jo_attempt row = Suc (jo_attempt persisted)"
proof -
  obtain r r' where "find_operation j run_id i = Some r" "parse_operation env run_id r' = Inr row"
    "ro_attempt r' = Suc (ro_attempt r)"
    using assms(3) unfolding mark_operation_running_def by (rule transition_finds) auto
  then show ?thesis using assms(1,2) parse_operation_fields by (fastforce simp: agrees_def)
qed

lemma left_okI: "run_inv env plan j0 ids s \<Longrightarrow> left_ok env plan j0 (Inl (Fail e)) s"
  by (auto simp: left_ok_def intro: run_inv_mono)

subsection \<open>Triples of the executor's primitives\<close>

lemma cancelled_keeps: "xvalid (exec_inv env plan j0 states ids) (is_cancelled ex) (\<lambda>_. exec_inv env plan j0 states ids) R"
  by (rule xvalid_cancelled) simp

lemma progress_keeps:
  "xvalid (exec_inv env plan j0 states ids) (progress operation state c n) (\<lambda>_. exec_inv env plan j0 states ids) R"
  unfolding progress_def by (rule xvalid_record) (simp add: exec_inv_def run_inv_progress)

lemma report_progress_keeps:
  "xvalid (exec_inv env plan j0 states ids) (report_progress plan operation state ls)
     (\<lambda>ls' s. ls' = ls \<and> exec_inv env plan j0 states ids s) R"
  unfolding report_progress_def by (rule xvalid_bind [OF progress_keeps]) (auto intro: xvalid_return)

lemma write_keeps:
  assumes "\<And>now j. handler_writes env j (snd (f now j))"
  shows "xvalid (exec_inv env plan j0 states ids) (journal_write ex f) (\<lambda>_. exec_inv env plan j0 states ids) R"
  by (rule xvalid_write) (metis assms exec_inv_handler snd_conv)

lemma transition_keeps:
  "xvalid (exec_inv (ex_env ex) plan j0 states ids)
     (journal_write ex (transition ex (rp_run_id plan) operation state result error backup))
     (\<lambda>r s. run_inv (ex_env ex) plan j0 ids s \<and> (\<forall>row. r = Inr row \<longrightarrow>
        jo_state row = state \<and> exec_inv (ex_env ex) plan j0 (bt_insert (op_id operation) row states) ids s)) R"
proof (rule xvalid_write, goal_cases)
  case (1 s now r j w)
  have "journal_history (ex_env ex) (wd_journal s) j"
    using history_transition [of "ex_env ex" "wd_journal s" "rp_run_id plan" "op_id operation" state result error backup now] 1(2)
    by (simp add: transition_def)
  then have "run_inv (ex_env ex) plan j0 ids (s\<lparr>wd_journal := j, wd_outside := w\<rparr>)"
    using 1(1) run_inv_history by (auto simp: exec_inv_def)
  then show ?case
    using 1 agrees_transition by (fastforce simp: exec_inv_def transition_def)
qed

lemma status_keeps:
  "xvalid (run_inv (ex_env ex) plan j0 ids) (journal_write ex (set_status ex (rp_run_id plan) status))
     (\<lambda>r s. run_inv (ex_env ex) plan j0 ids s \<and> (\<forall>run. r = Inr run \<longrightarrow> jr_status run = status)) R"
proof (rule xvalid_write, goal_cases)
  case (1 s now r j w)
  have "journal_history (ex_env ex) (wd_journal s) j"
    using history_run_status [of "ex_env ex" "wd_journal s" "rp_run_id plan" status now] 1(2)
    by (simp add: set_status_def)
  then show ?case
    using 1 run_inv_history run_status_result by (fastforce simp: set_status_def)
qed

lemma try_status:
  assumes "\<And>e s. run_inv (ex_env ex) plan j0 ids s \<Longrightarrow> R (Inl (Fail e)) s"
  shows "xvalid (run_inv (ex_env ex) plan j0 ids) (journal_try ex (set_status ex (rp_run_id plan) status))
     (\<lambda>run s. run_inv (ex_env ex) plan j0 ids s \<and> jr_status run = status) R"
  unfolding journal_try_def by (rule xvalid_bind [OF status_keeps]) (auto intro!: xvalid_lift intro: assms)

lemma finish_run_leaves:
  "xvalid (run_inv (ex_env ex) plan j0 ids) (finish_run ex (rp_run_id plan) status) (\<lambda>_ _. False)
     (\<lambda>r s. run_inv (ex_env ex) plan j0 ids s \<and> r \<noteq> Inl Panic \<and> r \<noteq> Inl OutOfFuel
        \<and> (\<forall>rep. r = Inr rep \<longrightarrow> er_status rep = status \<and> er_run_id rep = rp_run_id plan
             \<and> list_operations (ex_env ex) (wd_journal s) (rp_run_id plan) = Inr (er_operations rep)))"
  (is "xvalid _ _ _ ?R")
proof -
  have "xvalid (\<lambda>s. run_inv (ex_env ex) plan j0 ids s \<and> jr_status run = status)
      (report ex (rp_run_id plan) (jr_status run)) (\<lambda>_ _. False) ?R" for run
    unfolding report_def
    by (rule xvalid_bind [where Q' = "\<lambda>operations s. run_inv (ex_env ex) plan j0 ids s \<and> jr_status run = status
          \<and> list_operations (ex_env ex) (wd_journal s) (rp_run_id plan) = Inr operations"])
      (auto intro!: xvalid_read xvalid_leave)
  then show ?thesis unfolding finish_run_def by (intro xvalid_bind [OF try_status]) auto
qed

lemma finish_run_left:
  assumes "status \<noteq> RunStatus.Completed"
  shows "xvalid (run_inv (ex_env ex) plan j0 ids) (finish_run ex (rp_run_id plan) status) Q (left_ok (ex_env ex) plan j0)"
  by (rule xvalid_weaken [OF finish_run_leaves [of ex plan j0 ids status]])
    (use assms in \<open>auto simp: left_ok_def intro: run_inv_mono\<close>)

lemma xvalid_exec: "xvalid (run_inv env plan j0 ids) m Q R \<Longrightarrow> xvalid (exec_inv env plan j0 states ids) m Q R"
  by (erule xvalid_pre) (simp add: exec_inv_def)

lemma transition_runs:
  "xvalid (run_inv (ex_env ex) plan j0 ids)
     (journal_write ex (transition ex (rp_run_id plan) operation state result error backup))
     (\<lambda>_. run_inv (ex_env ex) plan j0 ids) R"
  by (rule xvalid_write)
    (metis history_transition run_inv_history snd_conv transition_def)

lemma persist_error_left:
  "xvalid (run_inv (ex_env ex) plan j0 ids) (persist_error ex (rp_run_id plan) operation e result backup status) Q
     (left_ok (ex_env ex) plan j0)"
proof -
  have "xvalid (run_inv (ex_env ex) plan j0 ids)
      (xbind (journal_write ex (set_status ex (rp_run_id plan) status)) (\<lambda>run.
         case run of Inl e \<Rightarrow> xfail e | Inr _ \<Rightarrow> xfail (correlate_error operation e))) Q (left_ok (ex_env ex) plan j0)"
    by (rule xvalid_bind [OF status_keeps]) (auto intro!: xvalid_fail left_okI split: sum.split)
  then show ?thesis
    unfolding persist_error_def Let_def
    by (intro xvalid_bind [OF transition_runs]) (auto intro!: xvalid_fail left_okI split: sum.split)
qed

lemma persist_failure_left:
  "xvalid (run_inv (ex_env ex) plan j0 ids) (persist_failure ex (rp_run_id plan) operation e backup) Q
     (left_ok (ex_env ex) plan j0)"
  unfolding persist_failure_def by (rule persist_error_left)

lemma persist_blocked_retry_left:
  "xvalid (run_inv (ex_env ex) plan j0 ids) (persist_blocked_retry ex (rp_run_id plan) operation e) Q
     (left_ok (ex_env ex) plan j0)"
  unfolding persist_blocked_retry_def by (rule persist_error_left)

lemma try_transition:
  "xvalid (exec_inv (ex_env ex) plan j0 states ids)
     (journal_try ex (transition ex (rp_run_id plan) operation state result error backup))
     (\<lambda>row s. jo_state row = state
        \<and> exec_inv (ex_env ex) plan j0 (bt_insert (op_id operation) row states) ids s) (left_ok (ex_env ex) plan j0)"
  unfolding journal_try_def
  by (rule xvalid_bind [OF transition_keeps]) (auto intro!: xvalid_lift intro: left_okI)

lemma cancelled_report_left:
  "xvalid (run_inv (ex_env ex) plan j0 ids) (cancelled_report ex (rp_run_id plan)) Q (left_ok (ex_env ex) plan j0)"
  unfolding cancelled_report_def by (rule finish_run_left) simp

lemma cancelled_operation_left:
  "xvalid (run_inv (ex_env ex) plan j0 ids) (cancelled_operation_report ex (rp_run_id plan) operation backup) Q
     (left_ok (ex_env ex) plan j0)"
  unfolding cancelled_operation_report_def Let_def journal_try_def
  by (rule xvalid_bind, rule xvalid_bind [OF transition_runs], rule xvalid_lift [where Q = "\<lambda>_. run_inv (ex_env ex) plan j0 ids"])
    (auto intro: left_okI finish_run_left)

lemmas leaves = persist_failure_left persist_blocked_retry_left cancelled_report_left cancelled_operation_left

lemmas exec_leaves = leaves [THEN xvalid_exec]

lemma bt_get_inserted [simp]: "bt_get (bt_insert k v m) k = Some v"
  by (induction k v m rule: bt_insert.induct) auto

lemma exec_inv_done:
  assumes "exec_inv env plan j0 states ids s" "bt_get states i = Some row" "state_done (jo_state row)"
  shows "exec_inv env plan j0 states (insert i ids) s"
proof -
  have "row_done (rp_run_id plan) (wd_journal s) i"
    using assms by (fastforce simp: exec_inv_def agrees_def row_done_def state_done_def terminal_state_def)
  then show ?thesis using assms(1) by (simp add: exec_inv_def run_inv_def)
qed

lemma settle_keeps:
  assumes "state_done state"
  shows "xvalid (exec_inv (ex_env ex) plan j0 (ls_states ls) ids) (settle_operation ex plan operation state result ls)
     (\<lambda>ls' s. exec_inv (ex_env ex) plan j0 (ls_states ls') (insert (op_id operation) ids) s
        \<and> ls_waiting_for_user ls' = ls_waiting_for_user ls) (left_ok (ex_env ex) plan j0)"
  unfolding settle_operation_def
proof (rule xvalid_bind [OF try_transition])
  fix row
  let ?states = "bt_insert (op_id operation) row (ls_states ls)"
  show "xvalid (\<lambda>s. jo_state row = state \<and> exec_inv (ex_env ex) plan j0 ?states ids s)
      (report_progress plan operation state (count_completed (update_state operation row ls)))
      (\<lambda>ls' s. exec_inv (ex_env ex) plan j0 (ls_states ls') (insert (op_id operation) ids) s
        \<and> ls_waiting_for_user ls' = ls_waiting_for_user ls) (left_ok (ex_env ex) plan j0)"
    by (rule xvalid_weaken [OF report_progress_keeps [where states = ?states and ids = "insert (op_id operation) ids"
            and env = "ex_env ex"]])
      (use assms in \<open>auto simp: count_completed_def update_state_def intro: exec_inv_done\<close>)
qed

text \<open>Starting an operation: the map records it as running, with the attempt counted up.\<close>

definition started :: "Operation \<Rightarrow> JournalOperation \<Rightarrow> loop_state \<Rightarrow> loop_state \<Rightarrow> bool" where
  "started operation persisted ls ls' \<longleftrightarrow>
     ls_waiting_for_user ls' = ls_waiting_for_user ls
     \<and> (\<exists>row. ls_states ls' = bt_insert (op_id operation) row (ls_states ls)
          \<and> jo_state row = OperationState.Running \<and> jo_attempt row = Suc (jo_attempt persisted))"

lemma start_keeps:
  assumes "bt_get (ls_states ls) (op_id operation) = Some persisted"
  shows "xvalid (exec_inv (ex_env ex) plan j0 (ls_states ls) ids) (start_operation ex plan operation ls)
     (\<lambda>(attempt, ls') s. exec_inv (ex_env ex) plan j0 (ls_states ls') ids s \<and> started operation persisted ls ls')
     (left_ok (ex_env ex) plan j0)"
  unfolding start_operation_def
proof (rule xvalid_bind)
  let ?S = "\<lambda>row. bt_insert (op_id operation) row (ls_states ls)"
  let ?Q = "\<lambda>r s. run_inv (ex_env ex) plan j0 ids s \<and> (\<forall>row. r = Inr row \<longrightarrow> jo_state row = OperationState.Running
         \<and> jo_attempt row = Suc (jo_attempt persisted) \<and> exec_inv (ex_env ex) plan j0 (?S row) ids s)"
  show "xvalid (exec_inv (ex_env ex) plan j0 (ls_states ls) ids)
      (journal_write ex (mark_operation_running (ex_env ex) (rp_run_id plan) (op_id operation)))
      ?Q (left_ok (ex_env ex) plan j0)"
  proof (rule xvalid_write, goal_cases)
    case (1 s now r j w)
    have "journal_history (ex_env ex) (wd_journal s) j"
      using history_transition [of "ex_env ex" "wd_journal s" "rp_run_id plan" "op_id operation" OperationState.Running
          None None None now] 1(2) by (simp add: mark_operation_running_def)
    then have "run_inv (ex_env ex) plan j0 ids (s\<lparr>wd_journal := j, wd_outside := w\<rparr>)"
      using 1(1) run_inv_history by (auto simp: exec_inv_def)
    then show ?case
      using 1 assms agrees_transition started_attempt by (fastforce simp: exec_inv_def mark_operation_running_def)
  qed
  fix r
  show "xvalid (?Q r)
      (case r of Inl error \<Rightarrow> persist_failure ex (rp_run_id plan) operation (correlate_error operation error) None
       | Inr running \<Rightarrow>
           xbind (report_progress plan operation OperationState.Running (update_state operation running ls)) (\<lambda>ls.
           xreturn (jo_attempt running, ls)))
      (\<lambda>(attempt, ls') s. exec_inv (ex_env ex) plan j0 (ls_states ls') ids s \<and> started operation persisted ls ls')
      (left_ok (ex_env ex) plan j0)"
  proof (cases r)
    case (Inl e)
    then show ?thesis by (auto intro: xvalid_pre [OF persist_failure_left])
  next
    case (Inr row)
    let ?facts = "jo_state row = OperationState.Running \<and> jo_attempt row = Suc (jo_attempt persisted)"
    have "xvalid (exec_inv (ex_env ex) plan j0 (?S row) ids)
        (xbind (report_progress plan operation OperationState.Running (update_state operation row ls)) (\<lambda>ls.
           xreturn (jo_attempt row, ls)))
        (\<lambda>(attempt, ls') s. exec_inv (ex_env ex) plan j0 (ls_states ls') ids s \<and> started operation persisted ls ls')
        (left_ok (ex_env ex) plan j0)" if ?facts
      by (rule xvalid_bind [OF report_progress_keeps], rule xvalid_return)
        (use that in \<open>auto simp: started_def update_state_def\<close>)
    note run = xvalid_pure [of ?facts, OF this]
    show ?thesis
      unfolding Inr sum.case by (rule xvalid_pre [OF run]) auto
  qed
qed

subsection \<open>Executing one operation\<close>

lemma xvalid_expect:
  "(\<And>s. P s \<Longrightarrow> x \<noteq> None) \<Longrightarrow> (\<And>s a. P s \<Longrightarrow> x = Some a \<Longrightarrow> Q a s) \<Longrightarrow> xvalid P (xexpect x) Q R"
  by (cases x) (auto simp: xexpect_def xvalid_def xreturn_def xleave_def)

lemma bt_get_insert_other [simp]: "k' \<noteq> k \<Longrightarrow> bt_get (bt_insert k v m) k' = bt_get m k'"
  by (induction k v m rule: bt_insert.induct) auto

text \<open>After an operation of the loop: it is done, or the run waits for the user.\<close>

definition settled ::
  "journal_env \<Rightarrow> RestorePlan \<Rightarrow> journal \<Rightarrow> Operation \<Rightarrow> OperationId set \<Rightarrow> loop_state \<Rightarrow> loop_state \<Rightarrow> 'w world \<Rightarrow> bool" where
  "settled env plan j0 operation ids ls ls' s \<longleftrightarrow>
     exec_inv env plan j0 (ls_states ls') ids s \<and> (ls_waiting_for_user ls \<longrightarrow> ls_waiting_for_user ls')
     \<and> (\<not> ls_waiting_for_user ls' \<longrightarrow> exec_inv env plan j0 (ls_states ls') (insert (op_id operation) ids) s)"

lemma settle_settles:
  assumes "state_done state" "ls_waiting_for_user ls = ls_waiting_for_user ls0"
  shows "xvalid (exec_inv (ex_env ex) plan j0 (ls_states ls) ids) (settle_operation ex plan operation state result ls)
     (settled (ex_env ex) plan j0 operation ids ls0) (left_ok (ex_env ex) plan j0)"
  by (rule xvalid_weaken [OF settle_keeps [OF assms(1)]])
    (use assms(2) in \<open>auto simp: settled_def intro: exec_inv_mono\<close>)

lemma running_row_found:
  assumes "exec_inv env plan j0 (ls_states ls') ids s" "started operation persisted ls ls'"
  shows "find (\<lambda>row. jo_id row = op_id operation) (map snd (ls_states ls')) \<noteq> None"
proof -
  obtain row where row: "bt_get (ls_states ls') (op_id operation) = Some row"
    using assms(2) by (auto simp: started_def)
  then have "jo_id row = op_id operation" using assms(1) by (auto simp: exec_inv_def agrees_def)
  moreover have "row \<in> set (map snd (ls_states ls'))" using map_of_SomeD [OF row] by force
  ultimately show ?thesis by (auto simp: find_None_iff)
qed

lemma start_then:
  assumes "bt_get (ls_states ls) (op_id operation) = Some persisted"
    and "\<And>attempt ls'. started operation persisted ls ls' \<Longrightarrow>
      xvalid (exec_inv (ex_env ex) plan j0 (ls_states ls') ids) (f (attempt, ls')) Q (left_ok (ex_env ex) plan j0)"
  shows "xvalid (exec_inv (ex_env ex) plan j0 (ls_states ls) ids) (xbind (start_operation ex plan operation ls) f) Q
    (left_ok (ex_env ex) plan j0)"
proof (rule xvalid_bind [OF start_keeps [OF assms(1)]])
  fix a
  show "xvalid (case a of (attempt, ls') \<Rightarrow> \<lambda>s. exec_inv (ex_env ex) plan j0 (ls_states ls') ids s
      \<and> started operation persisted ls ls') (f a) Q (left_ok (ex_env ex) plan j0)"
    using assms(2) by (cases a) (auto simp: xvalid_def)
qed

lemma verification_settles:
  assumes "bt_get (ls_states ls) (op_id operation) = Some persisted"
  shows "xvalid (exec_inv (ex_env ex) plan j0 (ls_states ls) ids) (execute_verification ex plan ctx operation ls)
     (settled (ex_env ex) plan j0 operation ids ls) (left_ok (ex_env ex) plan j0)"
  unfolding execute_verification_def
proof (rule start_then [OF assms], unfold prod.case, rule xvalid_bind [OF cancelled_keeps], rule xvalid_if)
  fix attempt ls'
  assume st: "started operation persisted ls ls'"
  then have waiting: "ls_waiting_for_user ls' = ls_waiting_for_user ls" by (simp add: started_def)
  let ?found = "find (\<lambda>row. jo_id row = op_id operation) (map snd (ls_states ls'))"
  have expect: "xvalid (exec_inv (ex_env ex) plan j0 (ls_states ls') ids) (xexpect ?found)
      (\<lambda>_. exec_inv (ex_env ex) plan j0 (ls_states ls') ids) (left_ok (ex_env ex) plan j0)"
    by (rule xvalid_expect) (use running_row_found st in auto)
  have fin: "state_done OperationState.Completed" by (simp add: state_done_def)
  show "xvalid (exec_inv (ex_env ex) plan j0 (ls_states ls') ids)
      (let recorded = map snd (ls_states ls') in
       xbind (xexpect (find (\<lambda>row. jo_id row = op_id operation) recorded)) (\<lambda>verification.
       case operation_verification_proof (ex_content_id ex) verification (ctx_target ctx) recorded of
         Inl error \<Rightarrow> persist_failure ex (rp_run_id plan) operation (correlate_error operation error) None
       | Inr None \<Rightarrow>
           persist_failure ex (rp_run_id plan) operation
             (execution_error operation OperationFailed
                ''verification rule was not proven by target facts or typed prerequisite evidence'') None
       | Inr (Some source) \<Rightarrow>
           settle_operation ex plan operation OperationState.Completed
             (Some (outcome_payload
                (Some (Object [(''source'', String source), (''verification_checked'', Bool True)])) [] None)) ls'))
      (settled (ex_env ex) plan j0 operation ids ls) (left_ok (ex_env ex) plan j0)"
    unfolding Let_def
    by (rule xvalid_bind [OF expect]) (auto intro: exec_leaves settle_settles [OF fin waiting] split: sum.split option.split)
qed (rule exec_leaves)

text \<open>The moment of a handler's execution.\<close>

lemma ready_started:
  assumes inv: "exec_inv env plan j0 (ls_states ls') ids s" and st: "started operation persisted ls ls'"
    and op: "operation \<in> set (rp_operations plan)" "prerequisites_complete operation (ls_states ls)"
    and persisted: "bt_get (ls_states ls) (op_id operation) = Some persisted" "\<not> state_done (jo_state persisted)"
    and once: "op_non_idempotent operation \<longrightarrow> jo_attempt persisted = 0"
  shows "ready plan operation (wd_journal s)"
proof -
  obtain row where row: "ls_states ls' = bt_insert (op_id operation) row (ls_states ls)"
    "jo_state row = OperationState.Running" "jo_attempt row = Suc (jo_attempt persisted)"
    using st by (auto simp: started_def)
  have agree: "agrees (rp_run_id plan) (ls_states ls') (wd_journal s)" using inv by (simp add: exec_inv_def)
  obtain r where "find_operation (wd_journal s) (rp_run_id plan) (op_id operation) = Some r"
    "ro_state r = OperationState.Running" "ro_attempt r = Suc (jo_attempt persisted)"
    using agrees_get [OF agree, of "op_id operation" row] row by auto
  moreover have "row_done (rp_run_id plan) (wd_journal s) p" if p: "p \<in> set (op_prerequisites operation)" for p
  proof -
    obtain pre where pre: "bt_get (ls_states ls) p = Some pre" "state_done (jo_state pre)"
      using op(2) p by (fastforce simp: prerequisites_complete_def list_all_iff split: option.splits)
    then have "p \<noteq> op_id operation" using persisted by auto
    then have "bt_get (ls_states ls') p = Some pre" using pre(1) row(1) by simp
    then show ?thesis
      using agrees_get [OF agree] pre(2) by (fastforce simp: row_done_def state_done_def terminal_state_def)
  qed
  moreover have "rp_run_id plan \<in> approved_ids (wd_journal s)" using inv by (simp add: exec_inv_def run_inv_def)
  ultimately show ?thesis using op(1) once by (auto simp: ready_def)
qed

lemma executed_keeps:
  assumes "\<And>s :: 'w world. exec_inv env plan j0 states ids s \<Longrightarrow> ready plan operation (wd_journal s)"
  shows "xvalid (exec_inv env plan j0 states ids) (record_call (Executed operation))
    (\<lambda>_. exec_inv env plan j0 states ids :: 'w world \<Rightarrow> bool) R"
proof (rule xvalid_record)
  fix s :: "'w world" assume inv: "exec_inv env plan j0 states ids s"
  with assms have "ready plan operation (wd_journal s)" .
  with inv show "exec_inv env plan j0 states ids (s\<lparr>wd_calls := wd_calls s @ [Executed operation (wd_journal s)]\<rparr>)"
    by (auto simp: exec_inv_def run_inv_def calls_ready_def)
qed

lemma backup_keeps:
  "xvalid (exec_inv (ex_env ex) plan j0 states ids) (prepare_backup ex plan ctx operation)
     (\<lambda>_. exec_inv (ex_env ex) plan j0 states ids) (left_ok (ex_env ex) plan j0)"
proof (cases "ctx_backup_hook ctx")
  case None
  then show ?thesis by (simp add: prepare_backup_def xvalid_return)
next
  case (Some hook)
  have call: "xvalid (exec_inv (ex_env ex) plan j0 states ids) (xcall (\<lambda>(j, w). case hook operation w of (r, w') \<Rightarrow> (r, j, w')))
      (\<lambda>_. exec_inv (ex_env ex) plan j0 states ids) R" for R
    by (rule xvalid_call) (auto simp: exec_inv_def run_inv_def split: prod.splits)
  show ?thesis
    unfolding prepare_backup_def Some option.case
    by (rule xvalid_bind [OF call]) (auto intro: exec_leaves xvalid_return split: sum.split)
qed

lemma handler_failed_left:
  "xvalid (exec_inv (ex_env ex) plan j0 states ids) (handler_failed ex plan operation backup e) Q (left_ok (ex_env ex) plan j0)"
proof -
  let ?e = "correlate_error operation e"
  have "xvalid (exec_inv (ex_env ex) plan j0 states ids)
      (xbind (journal_try ex (transition ex (rp_run_id plan) operation OperationState.Interrupted None (Some ?e) backup)) (\<lambda>_.
       xbind (journal_try ex (set_status ex (rp_run_id plan) RunStatus.Interrupted)) (\<lambda>run.
       xfail (if jr_status run = RunStatus.Interrupted then ?e
              else execution_error operation ReforgeErrorCode.Interrupted ''restore run was interrupted''))))
      Q (left_ok (ex_env ex) plan j0)"
    by (rule xvalid_bind [OF try_transition], rule xvalid_pre, rule xvalid_bind [OF try_status], rule left_okI, assumption,
        rule xvalid_fail, rule left_okI, erule conjunct1) (auto simp: exec_inv_def)
  then show ?thesis
    unfolding handler_failed_def Let_def
    by (intro xvalid_bind [OF cancelled_keeps] xvalid_if) (auto intro: exec_leaves)
qed

lemma outcome_settles:
  assumes "ls_waiting_for_user ls = ls_waiting_for_user ls0"
  shows "xvalid (exec_inv (ex_env ex) plan j0 (ls_states ls) ids) (record_outcome ex plan operation backup outcome ls)
     (settled (ex_env ex) plan j0 operation ids ls0) (left_ok (ex_env ex) plan j0)"
  unfolding record_outcome_def Let_def
proof (rule xvalid_bind [OF try_transition], rule xvalid_pure)
  fix row
  let ?state = "disposition_state (oo_disposition outcome)" and ?ls = "update_state operation row ls"
  let ?ls' = "if state_done ?state then count_completed ?ls else ?ls"
  assume row: "jo_state row = ?state"
  have ls': "ls_states ?ls' = bt_insert (op_id operation) row (ls_states ls)"
    "ls_waiting_for_user ?ls' = ls_waiting_for_user ls0"
    using assms by (simp_all add: update_state_def count_completed_def)
  let ?next = "\<lambda>ls'. case oo_disposition outcome of
        OperationDisposition.WaitingForUser \<Rightarrow>
          if may_continue operation then xreturn (ls'\<lparr>ls_waiting_for_user := True\<rparr>)
          else finish_run ex (rp_run_id plan) RunStatus.WaitingForUser
      | OperationDisposition.WaitingForReboot \<Rightarrow> finish_run ex (rp_run_id plan) RunStatus.WaitingForReboot
      | OperationDisposition.Cancelled \<Rightarrow> finish_run ex (rp_run_id plan) RunStatus.Cancelled
      | _ \<Rightarrow> xreturn ls'"
  have nxt: "xvalid (exec_inv (ex_env ex) plan j0 (ls_states ?ls') ids) (?next ?ls')
      (settled (ex_env ex) plan j0 operation ids ls0) (left_ok (ex_env ex) plan j0)"
  proof (cases "oo_disposition outcome")
    case Completed
    then show ?thesis
      using ls' row by (auto simp: settled_def state_done_def intro!: xvalid_return exec_inv_done)
  next
    case Skipped
    then show ?thesis
      using ls' row by (auto simp: settled_def state_done_def intro!: xvalid_return exec_inv_done)
  qed (auto simp: settled_def intro!: xvalid_return finish_run_left [THEN xvalid_exec])
  show "xvalid (exec_inv (ex_env ex) plan j0 (bt_insert (op_id operation) row (ls_states ls)) ids)
      (xbind (report_progress plan operation ?state ?ls') ?next)
      (settled (ex_env ex) plan j0 operation ids ls0) (left_ok (ex_env ex) plan j0)"
    unfolding ls'(1) [symmetric]
    by (rule xvalid_bind [OF report_progress_keeps], rule xvalid_pure) (use nxt in simp)
qed

subsection \<open>The executor over journaled handlers\<close>

text \<open>The executor relies on its handlers' contract; its loop is proved once, for all such executors.\<close>

locale journaled_executor =
  fixes ex :: "'w Executor"
  assumes handlers_journaled: "handler \<in> set (ex_handlers ex) \<Longrightarrow> journaled_handler (ex_env ex) handler"
begin

lemma handler_call:
  assumes "handler_for ex kind = Inr handler"
  shows "xvalid (exec_inv (ex_env ex) plan j0 states ids) (xcall (oh_execute handler operation))
      (\<lambda>_. exec_inv (ex_env ex) plan j0 states ids) R"
    and "xvalid (exec_inv (ex_env ex) plan j0 states ids) (xcall (oh_is_satisfied handler operation))
      (\<lambda>_. exec_inv (ex_env ex) plan j0 states ids) R"
proof -
  have "filter (\<lambda>handler. oh_handles handler kind) (ex_handlers ex) = [handler]"
    using assms by (auto simp: handler_for_def split: list.splits)
  then have "handler \<in> set (ex_handlers ex)" by (metis filter_is_subset list.set_intros(1) subsetD)
  then have "journaled_handler (ex_env ex) handler" by (rule handlers_journaled)
  note writes = journaled_handler.execute_writes [OF this] journaled_handler.satisfied_writes [OF this]
  show "xvalid (exec_inv (ex_env ex) plan j0 states ids) (xcall (oh_execute handler operation))
      (\<lambda>_. exec_inv (ex_env ex) plan j0 states ids) R"
    by (rule xvalid_call) (use writes in \<open>blast intro: exec_inv_handler\<close>)
  show "xvalid (exec_inv (ex_env ex) plan j0 states ids) (xcall (oh_is_satisfied handler operation))
      (\<lambda>_. exec_inv (ex_env ex) plan j0 states ids) R"
    by (rule xvalid_call) (use writes in \<open>blast intro: exec_inv_handler\<close>)
qed

lemma queue_blocked_keeps:
  "xvalid (exec_inv (ex_env ex) plan j0 states ids) (queue_blocked_operation_action ex run_id operation attempt v)
     (\<lambda>_. exec_inv (ex_env ex) plan j0 states ids) R"
  unfolding queue_blocked_operation_action_def by (rule write_keeps) (rule queue_create_writes)

lemma run_handler_settles:
  assumes "handler_for ex kind = Inr handler" and op: "operation \<in> set (rp_operations plan)"
      "prerequisites_complete operation (ls_states ls)"
    and persisted: "bt_get (ls_states ls) (op_id operation) = Some persisted" "\<not> state_done (jo_state persisted)"
    and once: "op_non_idempotent operation \<longrightarrow> jo_attempt persisted = 0"
  shows "xvalid (exec_inv (ex_env ex) plan j0 (ls_states ls) ids) (run_handler ex plan ctx operation handler ls)
     (settled (ex_env ex) plan j0 operation ids ls) (left_ok (ex_env ex) plan j0)"
  unfolding run_handler_def
proof (rule start_then [OF persisted(1)], unfold prod.case, rule xvalid_bind [OF backup_keeps],
    rule xvalid_bind [OF cancelled_keeps], rule xvalid_if, rule exec_leaves, rule xvalid_bind)
  fix attempt ls' backup c
  assume st: "started operation persisted ls ls'"
  let ?I = "exec_inv (ex_env ex) plan j0 (ls_states ls') ids"
  show "xvalid ?I (record_call (Executed operation)) (\<lambda>_. ?I) (left_ok (ex_env ex) plan j0)"
    by (rule executed_keeps) (rule ready_started [OF _ st op persisted once])
  have waiting: "ls_waiting_for_user ls' = ls_waiting_for_user ls" using st by (simp add: started_def)
  note outcome = outcome_settles [OF waiting]
  have queued: "xvalid ?I
      (xbind (queue_blocked_operation_action ex (rp_run_id plan) operation attempt v) (\<lambda>queued.
         case queued of
           Inl error \<Rightarrow> persist_failure ex (rp_run_id plan) operation error backup
         | Inr _ \<Rightarrow> record_outcome ex plan operation backup result ls'))
      (settled (ex_env ex) plan j0 operation ids ls) (left_ok (ex_env ex) plan j0)" for v result
    by (rule xvalid_bind [OF queue_blocked_keeps]) (auto intro: exec_leaves outcome split: sum.split)
  show "xvalid ?I
      (xbind (xcall (oh_execute handler operation)) (\<lambda>executed.
       case executed of
         Inl error \<Rightarrow> handler_failed ex plan operation backup error
       | Inr outcome \<Rightarrow>
           if oo_disposition outcome = OperationDisposition.WaitingForUser \<and> \<not> opens_manual_action operation
           then xbind (queue_blocked_operation_action ex (rp_run_id plan) operation attempt (oo_result outcome)) (\<lambda>queued.
                case queued of
                  Inl error \<Rightarrow> persist_failure ex (rp_run_id plan) operation error backup
                | Inr _ \<Rightarrow> record_outcome ex plan operation backup outcome ls')
           else record_outcome ex plan operation backup outcome ls'))
      (settled (ex_env ex) plan j0 operation ids ls) (left_ok (ex_env ex) plan j0)" for u :: unit
    by (rule xvalid_bind [OF handler_call(1) [OF assms(1)]])
      (auto intro: handler_failed_left outcome queued split: sum.split)
qed

lemma handled_settles:
  assumes op: "operation \<in> set (rp_operations plan)" "prerequisites_complete operation (ls_states ls)"
    and persisted: "bt_get (ls_states ls) (op_id operation) = Some persisted" "\<not> state_done (jo_state persisted)"
    and once: "op_non_idempotent operation \<longrightarrow> jo_attempt persisted = 0"
  shows "xvalid (exec_inv (ex_env ex) plan j0 (ls_states ls) ids) (execute_handled ex plan ctx operation ls)
     (settled (ex_env ex) plan j0 operation ids ls) (left_ok (ex_env ex) plan j0)"
proof (cases "handler_for ex (op_kind operation)")
  case (Inl e)
  then show ?thesis by (simp add: execute_handled_def exec_leaves)
next
  case (Inr handler)
  have skip: "state_done OperationState.Skipped" by (simp add: state_done_def)
  have satisfied: "xvalid (exec_inv (ex_env ex) plan j0 (ls_states ls) ids)
      (case satisfaction of
         Satisfied result evidence \<Rightarrow>
           settle_operation ex plan operation OperationState.Skipped
             (Some (outcome_payload result evidence (Some ''SKIPPED_ALREADY_SATISFIED''))) ls
       | NotSatisfied \<Rightarrow> run_handler ex plan ctx operation handler ls)
      (settled (ex_env ex) plan j0 operation ids ls) (left_ok (ex_env ex) plan j0)" for satisfaction
    using settle_settles [OF skip refl] run_handler_settles [OF Inr op persisted once]
    by (cases satisfaction) simp_all
  show ?thesis
    unfolding execute_handled_def Inr sum.case
    by (rule xvalid_bind [OF handler_call(2) [OF Inr]])
      (auto intro!: xvalid_bind [OF cancelled_keeps] satisfied intro: exec_leaves split: sum.split)
qed

lemma unblocked_settles:
  assumes op: "operation \<in> set (rp_operations plan)"
    and persisted: "bt_get (ls_states ls) (op_id operation) = Some persisted" "\<not> state_done (jo_state persisted)"
  shows "xvalid (exec_inv (ex_env ex) plan j0 (ls_states ls) ids)
     (execute_unblocked ex plan ctx operation persisted acknowledged ls)
     (settled (ex_env ex) plan j0 operation ids ls) (left_ok (ex_env ex) plan j0)"
proof (cases "prerequisites_complete operation (ls_states ls)")
  case False
  then show ?thesis
    by (auto simp: execute_unblocked_def Let_def settled_def intro!: xvalid_return intro: exec_leaves)
next
  case True
  let ?I = "exec_inv (ex_env ex) plan j0 (ls_states ls) ids"
  have body: "xvalid ?I (if verifies operation then execute_verification ex plan ctx operation ls
        else execute_handled ex plan ctx operation ls)
      (settled (ex_env ex) plan j0 operation ids ls) (left_ok (ex_env ex) plan j0)"
    if "op_non_idempotent operation \<longrightarrow> jo_attempt persisted = 0"
    by (rule xvalid_if) (rule verification_settles [OF persisted(1)] handled_settles [OF op True persisted that])+
  have ack: "xvalid ?I (case acknowledged of
        None \<Rightarrow> xreturn ()
      | Some action_id \<Rightarrow>
          xbind (journal_write ex (queue_complete (ex_env ex) (rp_run_id plan) action_id)) (\<lambda>completed.
          case completed of Inl error \<Rightarrow> persist_failure ex (rp_run_id plan) operation error None | Inr _ \<Rightarrow> xreturn ()))
      (\<lambda>_. ?I) (left_ok (ex_env ex) plan j0)"
    by (auto intro!: xvalid_return xvalid_bind [OF write_keeps] simp: queue_complete_def queue_transition_writes
        intro: exec_leaves split: option.split sum.split)
  have read: "xvalid ?I (journal_read f) (\<lambda>_. ?I) (left_ok (ex_env ex) plan j0)" for f :: "journal \<Rightarrow> 'a restore"
    by (rule xvalid_read) (auto simp: exec_inv_def intro: left_okI)
  show ?thesis
    unfolding execute_unblocked_def Let_def
    by (rule xvalid_if, simp add: True, rule xvalid_bind [OF cancelled_keeps], rule xvalid_if, rule exec_leaves, rule xvalid_bind [OF read],
        rule xvalid_if, rule exec_leaves, rule xvalid_if, rule exec_leaves, rule xvalid_bind [OF ack], rule body) blast
qed

lemma operation_settles:
  assumes "operation \<in> set (rp_operations plan)"
  shows "xvalid (exec_inv (ex_env ex) plan j0 (ls_states ls) ids) (execute_operation ex plan ctx operation ls)
     (settled (ex_env ex) plan j0 operation ids ls) (left_ok (ex_env ex) plan j0)"
proof -
  let ?I = "exec_inv (ex_env ex) plan j0 (ls_states ls) ids"
  have read: "xvalid ?I (journal_read f) (\<lambda>_. ?I) (left_ok (ex_env ex) plan j0)" for f :: "journal \<Rightarrow> 'a restore"
    by (rule xvalid_read) (auto simp: exec_inv_def intro: left_okI)
  have skip: "state_done OperationState.Skipped" by (simp add: state_done_def)
  have waits: "xvalid ?I (report_progress plan operation OperationState.WaitingForUser (ls\<lparr>ls_waiting_for_user := True\<rparr>))
      (settled (ex_env ex) plan j0 operation ids ls) (left_ok (ex_env ex) plan j0)"
    by (rule xvalid_weaken [OF report_progress_keeps]) (auto simp: settled_def)
  show ?thesis
  proof (cases "bt_get (ls_states ls) (op_id operation)")
    case None
    have missing: "xvalid ?I (xlift (ok_or e None)) (\<lambda>_ _. False) (left_ok (ex_env ex) plan j0)" for e
      by (rule xvalid_lift) (auto simp: exec_inv_def intro: left_okI)
    show ?thesis
      unfolding execute_operation_def None by (rule xvalid_bind [OF missing]) (simp add: xvalid_def)
  next
    case (Some persisted)
    have finished: "xvalid ?I (report_progress plan operation (jo_state persisted) (count_completed ls))
        (settled (ex_env ex) plan j0 operation ids ls) (left_ok (ex_env ex) plan j0)" if "state_done (jo_state persisted)"
      by (rule xvalid_weaken [OF report_progress_keeps])
        (use exec_inv_done [OF _ Some that] in \<open>auto simp: settled_def count_completed_def\<close>)
    have gates: "xvalid ?I (xbind (journal_read f) (\<lambda>blocked.
         case blocked of
           Some (action_id, ManualActionState.Pending) \<Rightarrow>
             report_progress plan operation OperationState.WaitingForUser (ls\<lparr>ls_waiting_for_user := True\<rparr>)
         | Some (action_id, ManualActionState.Skipped) \<Rightarrow>
             settle_operation ex plan operation OperationState.Skipped (g action_id) ls
         | Some (action_id, Acknowledged) \<Rightarrow> execute_unblocked ex plan ctx operation persisted (Some action_id) ls
         | _ \<Rightarrow> execute_unblocked ex plan ctx operation persisted None ls))
        (settled (ex_env ex) plan j0 operation ids ls) (left_ok (ex_env ex) plan j0)"
      if "\<not> state_done (jo_state persisted)" for f g
      by (rule xvalid_bind [OF read])
        (auto intro: waits settle_settles [OF skip refl] unblocked_settles [OF assms Some that]
           split: option.split ManualActionState.split)
    have lift: "xvalid ?I (xlift (ok_or e (Some persisted))) (\<lambda>row s. row = persisted \<and> ?I s) (left_ok (ex_env ex) plan j0)" for e
      by (rule xvalid_lift) auto
    show ?thesis
      unfolding execute_operation_def Some
      by (rule xvalid_bind [OF lift], rule xvalid_pure) (auto intro!: finished gates)
  qed
qed

definition loop_inv where
  "loop_inv plan j0 seen ls s \<longleftrightarrow>
     exec_inv (ex_env ex) plan j0 (ls_states ls) (if ls_waiting_for_user ls then {} else seen) s"

lemma operations_settle:
  "set operations \<subseteq> set (rp_operations plan) \<Longrightarrow>
   xvalid (loop_inv plan j0 seen ls) (execute_operations ex plan ctx operations ls)
     (loop_inv plan j0 (seen \<union> op_id ` set operations)) (left_ok (ex_env ex) plan j0)"
proof (induction operations arbitrary: ls seen)
  case Nil
  then show ?case by (simp add: xvalid_return)
next
  case (Cons operation operations)
  let ?seen = "insert (op_id operation) seen"
  have "xvalid (loop_inv plan j0 seen ls) (execute_operation ex plan ctx operation ls)
      (loop_inv plan j0 ?seen) (left_ok (ex_env ex) plan j0)"
    using Cons.prems unfolding loop_inv_def
    by (intro xvalid_weaken [OF operation_settles]) (auto simp: settled_def split: if_splits intro: exec_inv_mono)
  then show ?case
    using Cons.IH [of ?seen] Cons.prems by (auto intro: xvalid_bind)
qed

end

subsection \<open>Entry and exit\<close>

lemma require_approved_ids:
  assumes "require_approved env j run_id = Inr ()"
  shows "run_id \<in> approved_ids j"
proof -
  obtain r run where "find_run j run_id = Some r" "parse_run env r = Inr run" "jr_approval_state run = Approved"
    using assms by (auto simp: require_approved_def fetch_run_def transpose_map_def try_bind_Inr
        split: option.splits if_splits)
  then have "find_run j run_id = Some r" "jr_approval_state r = Approved"
    by (auto simp: parse_run_def try_bind_Inr)
  then show ?thesis by (rule approved_ids_find)
qed

lemma match_persisted_insert:
  "match_persisted expected row states = Inr states' \<Longrightarrow>
   states' = bt_insert (jo_id row) row states \<and> bt_get expected (jo_id row) = Some (jo_operation row)"
  by (auto simp: match_persisted_def split: option.splits if_splits)

lemma listed_row:
  assumes "journal_inv j" "list_operations env j run_id = Inr rows" "row \<in> set rows"
  shows "\<exists>r. find_operation j run_id (jo_id row) = Some r \<and> ro_state r = jo_state row \<and> ro_attempt r = jo_attempt row"
proof -
  let ?raw = "sort_key ro_id (filter (\<lambda>r. ro_run_id r = run_id) (db_operations j))"
  obtain n where n: "n < length rows" "rows ! n = row" using assms(3) by (auto simp: in_set_conv_nth)
  then have parse: "parse_operation env run_id (?raw ! n) = Inr row" "n < length ?raw"
    using assms(2) by (auto simp: list_operations_def try_map_Inr)
  then have "?raw ! n \<in> set ?raw" using nth_mem by blast
  then have raw: "?raw ! n \<in> set (db_operations j)" "ro_run_id (?raw ! n) = run_id" by auto
  show ?thesis
    using find_operation_member [OF assms(1) raw(1)] raw(2) parse_operation_fields [OF parse(1)]
    by (intro exI [of _ "?raw ! n"]) simp
qed

lemma match_journal_agrees:
  assumes "journal_inv j" "match_journal env plan j = Inr states"
  shows "agrees (rp_run_id plan) states j"
proof -
  obtain rows where rows: "list_operations env j (rp_run_id plan) = Inr rows"
    and run: "try_fold (match_persisted (expected_operations plan)) rows [] = Inr states"
    using assms(2) by (auto simp: match_journal_def try_bind_Inr split: if_splits)
  have step: "agrees (rp_run_id plan) states' j"
    if "row \<in> set rows" "agrees (rp_run_id plan) states j" "match_persisted (expected_operations plan) row states = Inr states'"
    for row states states'
  proof -
    have inv: "bt_inv states" and states': "states' = bt_insert (jo_id row) row states"
      using that(2) match_persisted_insert [OF that(3)] by (simp_all add: agrees_def)
    then have "bt_inv states'" "bt_get states' = (bt_get states)(jo_id row \<mapsto> row)"
      by (simp_all add: bt_inv_insert bt_get_insert)
    then show ?thesis using that(2) listed_row [OF assms(1) rows that(1)] unfolding agrees_def by simp
  qed
  show ?thesis
    by (rule try_fold_invariant [OF run, where I = "\<lambda>states. agrees (rp_run_id plan) states j"])
      (simp add: agrees_def, rule step)
qed

lemma validate_execution_keeps:
  assumes "\<And>r s. I s \<Longrightarrow> R (Inl (Fail r)) s"
  shows "xvalid I (validate_execution ex plan ctx)
    (\<lambda>states s. I s \<and> match_journal (ex_env ex) plan (wd_journal s) = Inr states) R"
proof -
  have "validate_restore_plan plan (ctx_object_index ctx) \<noteq> Inl Panic"
    "validate_restore_plan plan (ctx_object_index ctx) \<noteq> Inl OutOfFuel"
    using validate_restore_plan_no_abort by blast+
  then show ?thesis
    unfolding validate_execution_def
    by (auto intro!: xvalid_if xvalid_fail xvalid_read intro: assms split: sum.split abort.split)
qed

text \<open>What holds of an execution that started in a consistent journal.\<close>

definition execution_ok :: "journal_env \<Rightarrow> RestorePlan \<Rightarrow> journal \<Rightarrow> execution \<Rightarrow> 'w world \<Rightarrow> bool" where
  "execution_ok env plan j0 r s \<longleftrightarrow>
     journal_inv (wd_journal s) \<and> journal_history env j0 (wd_journal s) \<and> calls_ready plan (wd_calls s)
     \<and> r \<noteq> Inl Panic \<and> r \<noteq> Inl OutOfFuel
     \<and> (\<forall>rep. r = Inr rep \<and> er_status rep = RunStatus.Completed \<longrightarrow>
          (\<forall>operation \<in> set (rp_operations plan). row_done (rp_run_id plan) (wd_journal s) (op_id operation))
          \<and> list_operations env (wd_journal s) (rp_run_id plan) = Inr (er_operations rep))"

lemma left_ok_execution: "left_ok env plan j0 r s \<Longrightarrow> execution_ok env plan j0 r s"
  by (auto simp: left_ok_def execution_ok_def run_inv_def)

context journaled_executor
begin

lemma finish_execution:
  "xvalid (loop_inv plan j0 (op_id ` set (rp_operations plan)) ls) (finish_run ex (rp_run_id plan) (final_status ls))
     (\<lambda>_ _. False) (execution_ok (ex_env ex) plan j0)"
proof (cases "final_status ls = RunStatus.Completed")
  case True
  then have "\<not> ls_waiting_for_user ls" by (simp add: final_status_def split: if_splits)
  then show ?thesis
    by (intro xvalid_weaken [OF finish_run_leaves [where ids = "op_id ` set (rp_operations plan)"]])
      (auto simp: loop_inv_def exec_inv_def execution_ok_def run_inv_def)
next
  case False
  then show ?thesis
    by (intro xvalid_weaken [OF finish_run_leaves [where ids = "{}"]])
      (auto simp: loop_inv_def exec_inv_def execution_ok_def run_inv_def)
qed

lemma body_ok:
  "xvalid (\<lambda>s. journal_inv (wd_journal s) \<and> wd_journal s = j0 \<and> wd_calls s = []) (execute_plan_body ex plan ctx)
     (\<lambda>_ _. False) (execution_ok (ex_env ex) plan j0)"
  unfolding execute_plan_body_def
proof (rule xvalid_bind)
  let ?I = "\<lambda>s. run_inv (ex_env ex) plan j0 {} s"
  have ok: "execution_ok (ex_env ex) plan j0 (Inl (Fail e)) s" if "?I s" for e s
    using that by (simp add: execution_ok_def run_inv_def)
  show "xvalid (\<lambda>s. journal_inv (wd_journal s) \<and> wd_journal s = j0 \<and> wd_calls s = [])
      (journal_read (\<lambda>j. require_approved (ex_env ex) j (rp_run_id plan))) (\<lambda>_. ?I) (execution_ok (ex_env ex) plan j0)"
    by (rule xvalid_read)
      (use require_approved_ids in \<open>auto simp: execution_ok_def run_inv_def calls_ready_def\<close>)
  fix u
  have loop: "xvalid (\<lambda>s. ?I s \<and> match_journal (ex_env ex) plan (wd_journal s) = Inr states)
      (execute_operations ex plan ctx (rp_operations plan) \<lparr>ls_states = states, ls_waiting_for_user = False, ls_completed = 0\<rparr>)
      (loop_inv plan j0 (op_id ` set (rp_operations plan))) (execution_ok (ex_env ex) plan j0)" for states
    by (rule xvalid_weaken [OF operations_settle [of "rp_operations plan" plan j0 "{}"]])
      (use match_journal_agrees in \<open>auto simp: loop_inv_def exec_inv_def run_inv_def intro: left_ok_execution\<close>)
  show "xvalid ?I (xbind (validate_execution ex plan ctx) (\<lambda>states.
      xbind (execute_operations ex plan ctx (rp_operations plan)
               \<lparr>ls_states = states, ls_waiting_for_user = False, ls_completed = 0\<rparr>) (\<lambda>ls.
      finish_run ex (rp_run_id plan) (final_status ls)))) (\<lambda>_ _. False) (execution_ok (ex_env ex) plan j0)"
    by (rule xvalid_bind [OF validate_execution_keeps], rule ok, assumption, rule xvalid_bind [OF loop], rule finish_execution)
qed

lemma execute_ok:
  assumes "journal_inv (wd_journal s)" "wd_calls s = []" "execute ex plan ctx s = (r, s')"
  shows "execution_ok (ex_env ex) plan (wd_journal s) r s'"
  using body_ok [of "wd_journal s" plan ctx] assms
  by (auto simp: xvalid_def execute_def split: prod.splits sum.splits)

end

lemma execute_refused:
  assumes "rp_run_id plan \<notin> approved_ids (wd_journal s) \<or> tf_fingerprint (ctx_target ctx) \<noteq> rp_target_fingerprint plan
      \<or> \<not> plan_ok plan (ctx_object_index ctx)"
  shows "\<exists>e. execute ex plan ctx s = (Inl (Fail e), s)"
proof (cases "require_approved (ex_env ex) (wd_journal s) (rp_run_id plan)")
  case (Inl e)
  then show ?thesis
    by (simp add: execute_def execute_plan_body_def xbind_def journal_read_def xlift_def xfail_def xleave_def)
next
  case (Inr u)
  have "rp_run_id plan \<in> approved_ids (wd_journal s)"
    using require_approved_ids Inr by simp
  then have invalid: "tf_fingerprint (ctx_target ctx) \<noteq> rp_target_fingerprint plan
      \<or> validate_restore_plan plan (ctx_object_index ctx) \<noteq> Inr ()"
    using assms validate_restore_plan_ok_iff by blast
  have "validate_restore_plan plan (ctx_object_index ctx) \<noteq> Inl Panic"
    "validate_restore_plan plan (ctx_object_index ctx) \<noteq> Inl OutOfFuel"
    using validate_restore_plan_no_abort by blast+
  then have "\<exists>e. validate_execution ex plan ctx s = (Inl (Inl (Fail e)), s)"
    using invalid unfolding validate_execution_def
    by (cases "validate_restore_plan plan (ctx_object_index ctx)")
      (auto simp: xfail_def xleave_def split: abort.split)
  with Inr show ?thesis
    by (auto simp: execute_def execute_plan_body_def xbind_def journal_read_def xlift_def xreturn_def)
qed

definition manual_executor :: "journal_env \<Rightarrow> 'w machine \<Rightarrow> 'w Executor" where
  "manual_executor env mc =
     \<lparr>ex_env = env, ex_machine = mc, ex_handlers = [ManualActionHandler env mc], ex_id_of = (\<lambda>_ _. None),
      ex_content_id = id\<rparr>"

interpretation manual_executor: journaled_executor "manual_executor env mc" for env and mc :: "'w machine"
  by unfold_locales (auto simp: manual_executor_def intro: manual_handler.satisfied_writes manual_handler.execute_writes)

subsection \<open>Calls are never forgotten\<close>




subsection \<open>A sample execution\<close>

definition reboot_operation :: Operation where
  "reboot_operation =
     \<lparr>op_id = ''op_run_1'', op_component = ''cmp_'' @ replicate 52 (CHR ''a''), op_kind = RequireReboot ''r'',
      op_prerequisites = [], op_precondition = Always, op_idempotency_key = ''key:a'', op_verification = [],
      op_requires_elevation = False, op_non_idempotent = True\<rparr>"

definition reboot_env :: journal_env where
  "reboot_env = sample_env\<lparr>je_from_str := (\<lambda>_. Some Null), je_value_operation := (\<lambda>_. Some reboot_operation)\<rparr>"

definition reboot_row :: RawOperation where
  "reboot_row =
     \<lparr>ro_id = ''op_run_1'', ro_run_id = ''run'', ro_op_key = ''key:a'',
      ro_component_id = ''cmp_'' @ replicate 52 (CHR ''a''), ro_kind = ''REQUIRE_REBOOT'',
      ro_state = OperationState.Pending, ro_attempt = 0, ro_requires_elevation = False, ro_started_at = None,
      ro_ended_at = None, ro_input_json = ''{}'', ro_result_json = None, ro_error_json = None, ro_backup_json = None\<rparr>"

definition reboot_journal :: journal where
  "reboot_journal =
     \<lparr>db_runs = [sample_run\<lparr>jr_approval_state := Approved, jr_approved_at := Some 2, jr_updated_at := 2\<rparr>],
      db_operations = [reboot_row], db_events = [sample_event 1, sample_event 2], db_manual_actions = [],
      db_sequence = 2\<rparr>"

definition reboot_world :: "nat world" where
  "reboot_world = \<lparr>wd_journal = reboot_journal, wd_outside = 3, wd_calls = []\<rparr>"

definition reboot_context :: "nat ExecutionContext" where
  "reboot_context =
     \<lparr>ctx_target = \<lparr>tf_host = \<lparr>hf_os_version = [], hf_os_build = [], hf_architecture = X64, hf_elevated = False,
          hf_account_scope = AccountScope.User, hf_sid_fingerprint = None, hf_known_folders = [], hf_drives = [],
          hf_free_bytes = []\<rparr>, tf_installed = [], tf_providers = [], tf_runtimes = [], tf_environment = [],
        tf_fingerprint = ''fp''\<rparr>,
      ctx_object_index = \<lparr>oi_objects = []\<rparr>, ctx_backup_hook = None\<rparr>"

definition reboot_plan :: RestorePlan where "reboot_plan = sample_plan [reboot_operation]"

definition reboot_executor :: "nat Executor" where "reboot_executor = manual_executor reboot_env quiet_machine"

lemma reboot_env_simps [simp]:
  "safe_json_text reboot_env = safe_json_text sample_env" "je_uuid_parse reboot_env = (\<lambda>s. Some (7, s))"
  "je_from_str reboot_env = (\<lambda>_. Some Null)" "je_to_string reboot_env = (\<lambda>_. Some ''{}'')"
  "je_value_operation reboot_env = (\<lambda>_. Some reboot_operation)"
  by (simp_all add: fun_eq_iff safe_json_text_def reboot_env_def sample_env_def)

lemma reboot_plan_simps [simp]:
  "rp_run_id reboot_plan = ''run''" "rp_operations reboot_plan = [reboot_operation]" "rp_package_id reboot_plan = ''pkg''"
  "rp_mode reboot_plan = Rebuild" "rp_target_fingerprint reboot_plan = ''fp''"
  by (simp_all add: reboot_plan_def sample_plan_def)

lemma reboot_operation_simps [simp]:
  "op_id reboot_operation = ''op_run_1''" "op_kind reboot_operation = RequireReboot ''r''"
  "op_prerequisites reboot_operation = []" "op_precondition reboot_operation = Always"
  "op_verification reboot_operation = []"
  by (simp_all add: reboot_operation_def)

lemma reboot_executor_simps [simp]:
  "ex_env reboot_executor = reboot_env" "ex_machine reboot_executor = quiet_machine"
  "ex_handlers reboot_executor = [ManualActionHandler reboot_env quiet_machine]"
  by (simp_all add: reboot_executor_def manual_executor_def)

definition reboot_persisted :: "OperationState \<Rightarrow> nat \<Rightarrow> DateTime option \<Rightarrow> JournalOperation" where
  "reboot_persisted state attempt at =
     \<lparr>jo_id = ''op_run_1'', jo_run_id = ''run'', jo_operation = reboot_operation, jo_state = state,
      jo_attempt = attempt, jo_started_at = at, jo_ended_at = None, jo_result = None, jo_error = None, jo_backup = None\<rparr>"

lemma reboot_parse_ended:
  assumes "attempt \<le> u32_max"
  shows "parse_operation reboot_env ''run''
      (reboot_row\<lparr>ro_state := state, ro_attempt := attempt, ro_started_at := at, ro_ended_at := ended\<rparr>)
    = Inr ((reboot_persisted state attempt at)\<lparr>jo_ended_at := ended\<rparr>)"
proof -
  have op: "OperationId_new (\<lambda>s. Some (7, s)) ''op_run_1'' = Inr ''op_run_1''"
    by (simp add: OperationId_new_def strip_prefix_def starts_with_def RunId_try_from_def RunId_new_def is_ascii_digit_def)
  have cmp: "ComponentId_new (''cmp_'' @ replicate 52 (CHR ''a'')) = Inr (''cmp_'' @ replicate 52 (CHR ''a''))"
    by (simp add: ComponentId_new_def strip_prefix_def starts_with_def list_all_iff base32_char_def is_ascii_lower_def)
  have input: "parse_persisted_json reboot_env ''{}'' c = Inr Null" for c
    by (simp add: parse_persisted_json_def sample_texts(5))
  have "bounded_text ''REQUIRE_REBOOT'' MAX_EVENT_LEVEL_BYTES c = Inr ''REQUIRE_REBOOT''" for c
    by (simp add: bounded_text_def MAX_EVENT_LEVEL_BYTES_def)
  then show ?thesis
    using assms op cmp input
    by (simp add: parse_operation_def reboot_row_def parse_id_def RunId_try_from_def RunId_new_def sample_texts(3)
        parse_optional_json_def parse_optional_error_def transpose_map_def reboot_persisted_def)
      (simp add: reboot_operation_def)
qed





lemma reboot_valid: "validate_restore_plan reboot_plan (ctx_object_index reboot_context) = Inr ()"
  unfolding validate_restore_plan_ok_iff
  by (simp add: plan_ok_def reboot_context_def prereq_rel_def acyclic_def operation_ok_def writes_ordered_def
      operation_paths_def referenced_objects_def destination_ok_def List.map_filter_simps)




lemma reboot_started: "reboot_journal = wd_journal reboot_world" "wd_outside reboot_world = 3" "wd_calls reboot_world = []"
  by (simp_all add: reboot_world_def)





lemma reboot_journal_inv: "journal_inv reboot_journal"
  by (simp add: journal_inv_def reboot_journal_def run_ids_def approved_ids_def sample_run_def sample_event_def run_ok_def
      operation_row_ok_def reboot_row_def u32_max_def upt_rec)

text \<open>The same run after the reboot: the operation's row is completed, and the run is not yet.\<close>

definition rebooted_row :: RawOperation where
  "rebooted_row = reboot_row\<lparr>ro_state := OperationState.Completed, ro_attempt := 1, ro_started_at := Some 3, ro_ended_at := Some 4\<rparr>"

definition rebooted_persisted :: JournalOperation where
  "rebooted_persisted = (reboot_persisted OperationState.Completed 1 (Some 3))\<lparr>jo_ended_at := Some 4\<rparr>"

definition rebooted_journal :: journal where
  "rebooted_journal = reboot_journal\<lparr>db_operations := [rebooted_row]\<rparr>"

definition rebooted_world :: "nat world" where
  "rebooted_world = \<lparr>wd_journal = rebooted_journal, wd_outside = 5, wd_calls = []\<rparr>"

definition rebooted_run :: JournalRun where
  "rebooted_run = sample_run\<lparr>jr_approval_state := Approved, jr_approved_at := Some 2, jr_updated_at := 5, jr_status := RunStatus.Completed\<rparr>"

lemma rebooted_journal_inv: "journal_inv rebooted_journal"
proof -
  have "''run'' = jr_id (hd (db_runs rebooted_journal))" "hd (db_runs rebooted_journal) \<in> set (db_runs rebooted_journal)"
    "jr_approval_state (hd (db_runs rebooted_journal)) = Approved"
    by (simp_all add: rebooted_journal_def reboot_journal_def sample_run_def)
  then have "''run'' \<in> approved_ids rebooted_journal" unfolding approved_ids_def by blast
  then show ?thesis
    by (simp add: journal_inv_def rebooted_journal_def reboot_journal_def run_ids_def sample_run_def sample_event_def run_ok_def
        operation_row_ok_def rebooted_row_def reboot_row_def u32_max_def upt_rec)
qed

lemma rebooted_parse: "parse_operation reboot_env ''run'' rebooted_row = Inr rebooted_persisted"
  using reboot_parse_ended [where attempt = 1 and state = OperationState.Completed and at = "Some 3" and ended = "Some 4"]
  by (simp add: rebooted_row_def rebooted_persisted_def u32_max_def)

lemma rebooted_lists:
  assumes "db_operations j = [rebooted_row]"
  shows "list_operations reboot_env j ''run'' = Inr [rebooted_persisted]"
proof -
  have "sort_key ro_id (filter (\<lambda>r. ro_run_id r = ''run'') (db_operations j)) = [rebooted_row]"
    by (simp add: assms) (simp add: rebooted_row_def reboot_row_def)
  then show ?thesis by (simp add: list_operations_def rebooted_parse)
qed

lemma rebooted_matches: "match_journal reboot_env reboot_plan rebooted_journal = Inr [(''op_run_1'', rebooted_persisted)]"
proof -
  have ids: "jo_id rebooted_persisted = ''op_run_1''" "jo_operation rebooted_persisted = reboot_operation"
    by (simp_all add: rebooted_persisted_def reboot_persisted_def)
  have run: "fetch_run reboot_env rebooted_journal ''run''
      = Inr (Some (sample_run\<lparr>jr_approval_state := Approved, jr_approved_at := Some 2, jr_updated_at := 2\<rparr>))"
    by (simp add: fetch_run_def find_run_def rebooted_journal_def reboot_journal_def sample_run_def parse_run_def parse_id_def
        RunId_try_from_def RunId_new_def transpose_map_def sample_texts)
  have "list_operations reboot_env rebooted_journal ''run'' = Inr [rebooted_persisted]"
    by (rule rebooted_lists) (simp add: rebooted_journal_def)
  then show ?thesis
    by (simp add: match_journal_def run match_persisted_def expected_operations_def ids) (simp add: sample_run_def)
qed

lemma rebooted_finishes:
  "\<exists>j. set_run_status_record reboot_env ''run'' RunStatus.Completed 5 rebooted_journal = (Inr rebooted_run, j)
     \<and> db_operations j = [rebooted_row]"
proof -
  have ev: "safe_json_text sample_env (Object [(''status'', String ''COMPLETED''), (''type'', String ''run_status'')]) c = Inr ''{}''" for c
    by (rule sample_object) (simp add: redact_json_word word_simps public_key_simps)
  show ?thesis
    by (simp add: set_run_status_record_def set_run_status_tx_def find_run_def rebooted_journal_def reboot_journal_def
        sample_run_def ev log_event_def insert_event_tx_def sample_texts commit_then_def update_runs_def run_ids_def
        fetch_run_def parse_run_def parse_id_def RunId_try_from_def RunId_new_def transpose_map_def rebooted_run_def Let_def)
qed

lemma rebooted_completes:
  "\<exists>s. execute reboot_executor reboot_plan reboot_context rebooted_world
     = (Inr \<lparr>er_run_id = ''run'', er_status = RunStatus.Completed, er_operations = [rebooted_persisted]\<rparr>, s)"
proof -
  obtain j where j: "set_run_status_record reboot_env ''run'' RunStatus.Completed 5 rebooted_journal = (Inr rebooted_run, j)"
      "db_operations j = [rebooted_row]" using rebooted_finishes by blast
  have lists: "list_operations reboot_env j ''run'' = Inr [rebooted_persisted]" using rebooted_lists j(2) .
  have world: "wd_journal rebooted_world = rebooted_journal" "wd_outside rebooted_world = 5"
    by (simp_all add: rebooted_world_def)
  have approved: "require_approved reboot_env rebooted_journal ''run'' = Inr ()"
    by (simp add: require_approved_def fetch_run_def find_run_def rebooted_journal_def reboot_journal_def sample_run_def
        parse_run_def parse_id_def RunId_try_from_def RunId_new_def transpose_map_def sample_texts)
  have validate: "validate_execution reboot_executor reboot_plan reboot_context rebooted_world
      = (Inr [(''op_run_1'', rebooted_persisted)], rebooted_world)"
    by (simp add: validate_execution_def reboot_valid journal_read_def world rebooted_matches xlift_def xreturn_def
        starts_with_def) (simp add: reboot_context_def)
  have row: "jo_state rebooted_persisted = OperationState.Completed" "jr_status rebooted_run = RunStatus.Completed"
    by (simp_all add: rebooted_persisted_def reboot_persisted_def rebooted_run_def)
  let ?ls = "\<lparr>ls_states = [(''op_run_1'', rebooted_persisted)], ls_waiting_for_user = False, ls_completed = 1\<rparr>"
  let ?s = "rebooted_world\<lparr>wd_calls := [Progress reboot_operation OperationState.Completed 1 (plan_total reboot_plan)]\<rparr>"
  have step: "execute_operation reboot_executor reboot_plan reboot_context reboot_operation (?ls\<lparr>ls_completed := 0\<rparr>) rebooted_world
      = (Inr ?ls, ?s)"
    by (simp add: execute_operation_def xbind_def xlift_def xreturn_def row state_done_def report_progress_def progress_def
        record_call_def count_completed_def saturating_add_u64_def u64_max_def world) (simp add: rebooted_world_def)
  have finish: "\<exists>s. (finish_run reboot_executor ''run'' (final_status ?ls) :: (nat, unit) exec) ?s
      = (Inl (Inr \<lparr>er_run_id = ''run'', er_status = RunStatus.Completed, er_operations = [rebooted_persisted]\<rparr>), s)"
    by (simp add: finish_run_def final_status_def row journal_try_def journal_write_def xcall_def set_status_def timed_def
        xbind_def world j(1) xlift_def xreturn_def report_def journal_read_def lists xleave_def)
  show ?thesis
    using step finish
    by (auto simp add: execute_def execute_plan_body_def xbind_def journal_read_def world approved xlift_def xreturn_def validate)
qed

subsection \<open>Properties\<close>



text \<open>
  C26. Whatever happens during an execution, the journal stays consistent and moves only by the
  journal's own operations, so everything that holds of journal histories holds of executions; and
  the call always returns a report or an error, never a panic.
\<close>

theorem execution_is_journal_history:
  assumes "journaled_executor ex" "journal_inv (wd_journal s)" "wd_calls s = []" "execute ex plan ctx s = (r, s')"
  shows "journal_inv (wd_journal s') \<and> journal_history (ex_env ex) (wd_journal s) (wd_journal s')
    \<and> ((\<exists>rep. r = Inr rep) \<or> (\<exists>e. r = Inl (Fail e)))"
  using journaled_executor.execute_ok [OF assms]
  by (auto simp: execution_ok_def) (metis abort.exhaust sum.exhaust)

theorem execution_is_journal_history_witness:
  "journal_inv (wd_journal (snd (execute reboot_executor reboot_plan reboot_context reboot_world)))"
proof -
  obtain r s' where e: "execute reboot_executor reboot_plan reboot_context reboot_world = (r, s')" using prod.exhaust by blast
  have "journaled_executor reboot_executor" unfolding reboot_executor_def by (rule manual_executor.journaled_executor_axioms)
  then show ?thesis
    using execution_is_journal_history [OF _ _ _ e] e reboot_journal_inv by (simp add: reboot_world_def)
qed

text \<open>
  C5. When \<^verbatim>\<open>execute\<close> reports a run as completed, every operation of the plan is recorded in the
  journal as completed or skipped, and the report lists the journal's operations of the run.
\<close>

theorem completed_run_is_complete:
  assumes "journaled_executor ex" "journal_inv (wd_journal s)" "wd_calls s = []" "execute ex plan ctx s = (Inr rep, s')"
    and "er_status rep = RunStatus.Completed"
  shows "(\<forall>operation \<in> set (rp_operations plan).
      \<exists>row. find_operation (wd_journal s') (rp_run_id plan) (op_id operation) = Some row \<and> terminal_state (ro_state row))
    \<and> list_operations (ex_env ex) (wd_journal s') (rp_run_id plan) = Inr (er_operations rep)"
  using journaled_executor.execute_ok [OF assms(1-4)] assms(5) by (simp add: execution_ok_def row_done_def)

theorem completed_run_is_complete_witness:
  "\<exists>rep s'. execute reboot_executor reboot_plan reboot_context rebooted_world = (Inr rep, s')
     \<and> er_status rep = RunStatus.Completed \<and> list_operations reboot_env (wd_journal s') ''run'' = Inr (er_operations rep)
     \<and> (\<exists>row. find_operation (wd_journal s') ''run'' ''op_run_1'' = Some row \<and> terminal_state (ro_state row))"
proof -
  let ?rep = "\<lparr>er_run_id = ''run'', er_status = RunStatus.Completed, er_operations = [rebooted_persisted]\<rparr>"
  obtain s' where e: "execute reboot_executor reboot_plan reboot_context rebooted_world = (Inr ?rep, s')"
    using rebooted_completes by blast
  have "journaled_executor reboot_executor" unfolding reboot_executor_def by (rule manual_executor.journaled_executor_axioms)
  then show ?thesis
    using completed_run_is_complete [OF _ _ _ e] e rebooted_journal_inv by (simp add: rebooted_world_def)
qed

text \<open>
  An execution of a run that is not approved, on a target other than the one planned for, or of
  a plan that does not validate is refused with an error before anything happens: the journal, the
  machine and the handlers are untouched.
\<close>

theorem refused_execution_changes_nothing:
  assumes "rp_run_id plan \<notin> approved_ids (wd_journal s) \<or> tf_fingerprint (ctx_target ctx) \<noteq> rp_target_fingerprint plan
      \<or> \<not> plan_ok plan (ctx_object_index ctx)"
  shows "\<exists>e. execute ex plan ctx s = (Inl (Fail e), s)"
  using assms by (rule execute_refused)

theorem refused_execution_changes_nothing_witness:
  "snd (execute reboot_executor (reboot_plan\<lparr>rp_target_fingerprint := ''other''\<rparr>) reboot_context reboot_world) = reboot_world"
proof -
  have "tf_fingerprint (ctx_target reboot_context) \<noteq> rp_target_fingerprint (reboot_plan\<lparr>rp_target_fingerprint := ''other''\<rparr>)"
    by (simp add: reboot_context_def)
  then obtain e where "execute reboot_executor (reboot_plan\<lparr>rp_target_fingerprint := ''other''\<rparr>) reboot_context reboot_world
      = (Inl (Fail e), reboot_world)"
    using refused_execution_changes_nothing by blast
  then show ?thesis by simp
qed

end
