(* ===== verification/CompatibilityEngine.thy ===== *)
theory CompatibilityEngine
  imports Errors "HOL-Library.Product_Lexorder" "HOL-Library.Option_ord"
begin

text \<open>
  The fail-closed comparison of a package with the facts of a target,
  \<^verbatim>\<open>crates/reforge-restore/src/compatibility.rs\<close>. The accumulating vectors the checks push to are
  a triple of blockers, confirmations and warnings. The last part states what the target has to
  offer independently of the checks and shows that the status says exactly that.
\<close>

subsection \<open>Definitions\<close>

definition MINIMUM_FREE_SPACE_MARGIN_BYTES :: nat where "MINIMUM_FREE_SPACE_MARGIN_BYTES = 64 * 1024 * 1024"
definition FREE_SPACE_MARGIN_PERCENT :: nat where "FREE_SPACE_MARGIN_PERCENT = 10"

definition div_ceil :: "nat \<Rightarrow> nat \<Rightarrow> nat" where
  "div_ceil a b = (if a mod b = 0 then a div b else a div b + 1)"

definition recommended_free_bytes :: "nat \<Rightarrow> nat option" where
  "recommended_free_bytes required =
     (let proportional = div_ceil required (100 div FREE_SPACE_MARGIN_PERCENT)
      in checked_add_u64 required (max proportional MINIMUM_FREE_SPACE_MARGIN_BYTES))"

definition action_slug :: "str \<Rightarrow> str" where
  "action_slug v =
     (let dashed = map (\<lambda>byte. if is_ascii_alphanumeric byte then to_ascii_lower byte else CHR ''-'') v
      in join_with ''-'' (filter (\<lambda>segment. segment \<noteq> []) (split_on (\<lambda>c. c = CHR ''-'') dashed)))"

definition manual_blocker ::
  "ReforgeErrorCode \<Rightarrow> ComponentId option \<Rightarrow> str \<Rightarrow> str \<Rightarrow> str \<Rightarrow> RiskLevel \<Rightarrow> Blocker" where
  "manual_blocker ecode component reason title instruction risk =
     \<lparr>bl_code = ecode, bl_component = component, bl_reason = reason,
      bl_required_action = Some
        \<lparr>ma_id = ''compatibility:'' @ (case component of None \<Rightarrow> ''target'' | Some c \<Rightarrow> c) @ '':'' @ action_slug title,
         ma_component = component, ma_title = title, ma_reason = reason, ma_risk = risk,
         ma_instructions = [instruction], ma_docs_url = None, ma_state = ManualActionState.Pending,
         ma_independent_operations_may_continue = False, ma_acknowledged_at = None, ma_verification = None\<rparr>\<rparr>"

definition os_matches :: "str \<Rightarrow> str \<Rightarrow> bool" where
  "os_matches required observed \<longleftrightarrow>
     (let required = to_ascii_lowercase (str_trim required); observed = to_ascii_lowercase (str_trim observed) in
      if required = [] \<or> observed = [] then False
      else if required = ''windows''
      then starts_with observed ''windows '' \<or> observed = ''windows''
           \<or> list_all (\<lambda>byte. is_ascii_digit byte \<or> byte = CHR ''.'') observed
      else observed = required
           \<or> (case strip_prefix observed required of None \<Rightarrow> False | Some rest \<Rightarrow> starts_with rest '' ''))"

definition architecture_matches :: "Architecture \<Rightarrow> Architecture \<Rightarrow> bool" where
  "architecture_matches required observed \<longleftrightarrow>
     required = Neutral
     \<or> required \<noteq> Architecture.Unknown \<and> observed \<noteq> Architecture.Unknown \<and> required = observed"

text \<open>What the checks push to.\<close>

record findings =
  fd_blockers :: "Blocker list"
  fd_confirmations :: "Confirmation list"
  fd_warnings :: "str list"

definition push_blocker :: "Blocker \<Rightarrow> findings \<Rightarrow> findings" where
  "push_blocker b f = f\<lparr>fd_blockers := fd_blockers f @ [b]\<rparr>"
definition push_confirmation :: "Confirmation \<Rightarrow> findings \<Rightarrow> findings" where
  "push_confirmation c f = f\<lparr>fd_confirmations := fd_confirmations f @ [c]\<rparr>"
definition push_note :: "str \<Rightarrow> findings \<Rightarrow> findings" where
  "push_note w f = f\<lparr>fd_warnings := fd_warnings f @ [w]\<rparr>"

definition check_os_requirement :: "str \<Rightarrow> ComponentId option \<Rightarrow> TargetFacts \<Rightarrow> findings \<Rightarrow> findings" where
  "check_os_requirement required component target f =
     (if os_matches required (hf_os_version (tf_host target)) then f
      else push_blocker (manual_blocker OsConflict component
             ''The target operating system does not satisfy a package requirement''
             ''Use a compatible Windows target''
             ''Move this component to a compatible Windows target or remove it from the restore selection.''
             RiskLevel.High) f)"

definition check_architecture_requirement ::
  "Architecture \<Rightarrow> ComponentId option \<Rightarrow> TargetFacts \<Rightarrow> findings \<Rightarrow> findings" where
  "check_architecture_requirement required component target f =
     (if architecture_matches required (hf_architecture (tf_host target)) then f
      else push_blocker (manual_blocker ReforgeErrorCode.ArchitectureConflict component
             ''The target architecture does not satisfy a package requirement''
             ''Use a compatible target architecture''
             ''Move this component to a compatible target architecture or remove it from the restore selection.''
             RiskLevel.High) f)"

definition low_disk_margin :: Confirmation where
  "low_disk_margin =
     \<lparr>cn_id = ''confirm_low_disk_margin'', cn_component = None,
      cn_reason = ''Target has the required bytes but not the staging and backup margin'', cn_risk = RiskLevel.High\<rparr>"

text \<open>\<^verbatim>\<open>Iterator::max\<close> of an integer sequence.\<close>

definition max_option :: "nat list \<Rightarrow> nat option" where
  "max_option xs = (case xs of [] \<Rightarrow> None | x # xs \<Rightarrow> Some (fold max xs x))"

definition check_disk_requirement :: "nat \<Rightarrow> TargetFacts \<Rightarrow> findings \<Rightarrow> findings" where
  "check_disk_requirement required target f =
     (if required = 0
      then if hf_free_bytes (tf_host target) = []
           then push_note ''Target free-space facts are unavailable'' f else f
      else case max_option (map dfs_bytes (hf_free_bytes (tf_host target))) of
        None \<Rightarrow> push_blocker (manual_blocker InsufficientDisk None ''Target free space could not be verified''
                  ''Verify target free space''
                  ''Verify free space on the destination volume and rescan before restoring data.'' RiskLevel.High) f
      | Some available \<Rightarrow>
          if available < required
          then push_blocker (manual_blocker InsufficientDisk None
                 ''Target free space is smaller than the selected restore size''
                 ''Free disk space or reduce the selection''
                 ''Free space on the destination volume or remove large items from the restore selection.''
                 RiskLevel.High) f
          else case recommended_free_bytes required of
            None \<Rightarrow> push_blocker (manual_blocker InsufficientDisk None ''Required disk-space calculation overflowed''
                      ''Reduce the restore selection''
                      ''Reduce the selected restore size and generate the plan again.'' RiskLevel.High) f
          | Some recommended \<Rightarrow> if available < recommended then push_confirmation low_disk_margin f else f)"

definition check_subsystem_provider :: "Component \<Rightarrow> str \<Rightarrow> str \<Rightarrow> TargetFacts \<Rightarrow> findings \<Rightarrow> findings" where
  "check_subsystem_provider component provider_id label target f =
     (let unavailable = manual_blocker ProviderUnavailable (Some (c_id component))
            (''Required '' @ label @ '' support is unavailable on the target'')
            (''Install or enable '' @ label)
            (''Install or enable '' @ label @ '' through its documented setup path, then rescan the target.'')
            RiskLevel.High
      in case find (\<lambda>found. pf_id found = provider_id) (tf_providers target) of
        None \<Rightarrow> push_blocker unavailable f
      | Some found \<Rightarrow>
          if \<not> pf_available found then push_blocker unavailable f
          else if pf_version found = None
          then push_note (''Required '' @ label @ '' prerequisite is available but its version is unknown'') f
          else f)"

definition check_provider_requirement :: "Component \<Rightarrow> ProviderId \<Rightarrow> TargetFacts \<Rightarrow> findings \<Rightarrow> findings" where
  "check_provider_requirement component provider target f =
     (let unavailable = manual_blocker ProviderUnavailable (Some (c_id component))
            ''A required package provider is unavailable on the target''
            ''Install or enable the required provider''
            ''Install or enable the provider through its documented setup path, then rescan the target.''
            RiskLevel.High
      in case find (\<lambda>found. pf_id found = provider) (tf_providers target) of
        None \<Rightarrow> push_blocker unavailable f
      | Some found \<Rightarrow>
          if \<not> pf_available found then push_blocker unavailable f
          else if pf_version found = None
          then push_note (''Required provider '' @ provider @ '' is available but its version is unknown'') f
          else f)"

definition check_runtime_requirement :: "Component \<Rightarrow> ComponentId \<Rightarrow> TargetFacts \<Rightarrow> findings \<Rightarrow> findings" where
  "check_runtime_requirement component runtime target f =
     (case find (\<lambda>found. rf_id found = runtime) (tf_runtimes target) of
        None \<Rightarrow> push_blocker (manual_blocker TargetConflict (Some (c_id component))
                  ''A required runtime is absent from the target'' ''Install the required runtime''
                  ''Install the exact required runtime through a reviewed provider, then rescan the target.''
                  RiskLevel.High) f
      | Some found \<Rightarrow>
          let f = (if rf_version found = None
                   then push_note (''Required runtime '' @ runtime @ '' is present but its version is unknown'') f else f)
          in case rf_architecture found of
            None \<Rightarrow> f
          | Some architecture \<Rightarrow>
              if architecture_matches architecture (hf_architecture (tf_host target)) then f
              else push_blocker (manual_blocker ReforgeErrorCode.ArchitectureConflict (Some (c_id component))
                     ''The required runtime architecture does not match the target''
                     ''Install a compatible runtime architecture''
                     ''Install a runtime build compatible with the target architecture, then rescan.''
                     RiskLevel.High) f)"

text \<open>\<^verbatim>\<open>if let Some(x) = option\<close> around a check.\<close>

definition when_some :: "'a option \<Rightarrow> ('a \<Rightarrow> findings \<Rightarrow> findings) \<Rightarrow> findings \<Rightarrow> findings" where
  "when_some x check f = (case x of None \<Rightarrow> f | Some a \<Rightarrow> check a f)"

definition check_component :: "TargetFacts \<Rightarrow> Component \<Rightarrow> findings \<Rightarrow> findings" where
  "check_component target component f =
     (let requirement = c_compatibility component;
          f = when_some (cmp_required_os requirement)
                (\<lambda>os. check_os_requirement os (Some (c_id component)) target) f;
          f = when_some (cmp_required_architecture requirement)
                (\<lambda>architecture. check_architecture_requirement architecture (Some (c_id component)) target) f;
          f = (if (cmp_requires_elevation requirement \<or> rd_requires_elevation (c_restore component))
                  \<and> \<not> hf_elevated (tf_host target)
               then push_blocker (manual_blocker AccessDenied (Some (c_id component))
                      ''The component requires an elevated restore process'' ''Relaunch Reforge with elevation''
                      ''Relaunch Reforge as administrator, rescan the target, and review the plan again.''
                      RiskLevel.High) f
               else f);
          f = when_some (cmp_requires_provider requirement)
                (\<lambda>provider. check_provider_requirement component provider target) f;
          f = when_some (cmp_requires_runtime requirement)
                (\<lambda>runtime. check_runtime_requirement component runtime target) f;
          f = (if cmp_requires_wsl requirement
               then check_subsystem_provider component ''wsl'' ''WSL'' target f else f)
      in if cmp_requires_docker requirement
         then check_subsystem_provider component ''docker'' ''Docker'' target f else f)"

definition blocker_key :: "Blocker \<Rightarrow> ComponentId option \<times> str \<times> str" where
  "blocker_key b = (bl_component b, show_code (bl_code b), bl_reason b)"

definition collect_findings :: "PackageManifest \<Rightarrow> PackageGraph \<Rightarrow> nat \<Rightarrow> TargetFacts \<Rightarrow> findings" where
  "collect_findings manifest graph required_disk_bytes target =
     (let f = \<lparr>fd_blockers = [], fd_confirmations = [], fd_warnings = []\<rparr>;
          f = (if str_trim (hf_os_build (tf_host target)) = []
               then push_note ''Target Windows build is unavailable'' f else f);
          f = (if hf_architecture (tf_host target) = Architecture.Unknown
               then push_note ''Target architecture is unknown'' f else f);
          f = when_some (pm_required_os manifest) (\<lambda>os. check_os_requirement os None target) f;
          f = when_some (pm_required_architecture manifest)
                (\<lambda>architecture. check_architecture_requirement architecture None target) f;
          f = check_disk_requirement required_disk_bytes target f
      in fold (check_component target) (g_components graph) f)"

definition evaluate :: "PackageManifest \<Rightarrow> PackageGraph \<Rightarrow> nat \<Rightarrow> TargetFacts \<Rightarrow> CompatibilityResult" where
  "evaluate manifest graph required_disk_bytes target =
     (let f = collect_findings manifest graph required_disk_bytes target;
          blockers = remdups_adj (sort_key blocker_key (fd_blockers f));
          confirmations = remdups_adj (sort_key cn_id (fd_confirmations f));
          warnings = remdups_adj (sort (fd_warnings f));
          status = (if blockers = [] then if confirmations = [] then Ready else RequiresConfirmation else Blocked)
      in \<lparr>cr_status = status, cr_blockers = blockers, cr_confirmations = confirmations, cr_warnings = warnings\<rparr>)"

subsection \<open>What a target has to offer\<close>

text \<open>
  The requirements, stated on the facts alone. Where the facts hold several entries for one
  provider or runtime, the first one counts.
\<close>

definition provider_usable :: "TargetFacts \<Rightarrow> ProviderId \<Rightarrow> bool" where
  "provider_usable target provider \<longleftrightarrow>
     (\<exists>found. find (\<lambda>found. pf_id found = provider) (tf_providers target) = Some found \<and> pf_available found)"

definition runtime_usable :: "TargetFacts \<Rightarrow> ComponentId \<Rightarrow> bool" where
  "runtime_usable target runtime \<longleftrightarrow>
     (\<exists>found. find (\<lambda>found. rf_id found = runtime) (tf_runtimes target) = Some found
        \<and> (\<forall>a. rf_architecture found = Some a \<longrightarrow> architecture_matches a (hf_architecture (tf_host target))))"

definition component_supported :: "TargetFacts \<Rightarrow> Component \<Rightarrow> bool" where
  "component_supported target component \<longleftrightarrow>
     (let requirement = c_compatibility component; host = tf_host target in
      (\<forall>os. cmp_required_os requirement = Some os \<longrightarrow> os_matches os (hf_os_version host))
      \<and> (\<forall>a. cmp_required_architecture requirement = Some a \<longrightarrow> architecture_matches a (hf_architecture host))
      \<and> (cmp_requires_elevation requirement \<or> rd_requires_elevation (c_restore component) \<longrightarrow> hf_elevated host)
      \<and> (\<forall>p. cmp_requires_provider requirement = Some p \<longrightarrow> provider_usable target p)
      \<and> (\<forall>r. cmp_requires_runtime requirement = Some r \<longrightarrow> runtime_usable target r)
      \<and> (cmp_requires_wsl requirement \<longrightarrow> provider_usable target ''wsl'')
      \<and> (cmp_requires_docker requirement \<longrightarrow> provider_usable target ''docker''))"

text \<open>The reserve beyond the required bytes: a tenth, rounded up, and at least 64 MiB.\<close>

definition disk_margin :: "nat \<Rightarrow> nat" where
  "disk_margin required = max ((required + 9) div 10) (64 * 1024 * 1024)"

definition disk_fits :: "TargetFacts \<Rightarrow> nat \<Rightarrow> bool" where
  "disk_fits target required \<longleftrightarrow>
     required = 0
     \<or> (\<exists>d \<in> set (hf_free_bytes (tf_host target)). required \<le> dfs_bytes d) \<and> required + disk_margin required \<le> u64_max"

definition disk_comfortable :: "TargetFacts \<Rightarrow> nat \<Rightarrow> bool" where
  "disk_comfortable target required \<longleftrightarrow>
     required = 0 \<or> (\<exists>d \<in> set (hf_free_bytes (tf_host target)). required + disk_margin required \<le> dfs_bytes d)"

definition target_supports :: "PackageManifest \<Rightarrow> PackageGraph \<Rightarrow> nat \<Rightarrow> TargetFacts \<Rightarrow> bool" where
  "target_supports manifest graph required target \<longleftrightarrow>
     (\<forall>os. pm_required_os manifest = Some os \<longrightarrow> os_matches os (hf_os_version (tf_host target)))
     \<and> (\<forall>a. pm_required_architecture manifest = Some a \<longrightarrow> architecture_matches a (hf_architecture (tf_host target)))
     \<and> disk_fits target required
     \<and> (\<forall>component \<in> set (g_components graph). component_supported target component)"

subsection \<open>What each check adds\<close>

named_theorems push_simps \<open>the components of findings after a push\<close>

lemma push_findings [push_simps]:
  "fd_blockers (push_blocker b f) = fd_blockers f @ [b]" "fd_confirmations (push_blocker b f) = fd_confirmations f"
  "fd_blockers (push_note w f) = fd_blockers f" "fd_confirmations (push_note w f) = fd_confirmations f"
  "fd_blockers (push_confirmation c f) = fd_blockers f" "fd_confirmations (push_confirmation c f) = fd_confirmations f @ [c]"
  by (simp_all add: push_blocker_def push_note_def push_confirmation_def)

text \<open>A blocker about a component, with the manual action that lifts it.\<close>

definition blames :: "ComponentId option \<Rightarrow> Blocker \<Rightarrow> bool" where
  "blames component b \<longleftrightarrow>
     bl_component b = component
     \<and> (\<exists>a. bl_required_action b = Some a \<and> ma_component a = component \<and> ma_reason a = bl_reason b
          \<and> ma_state a = ManualActionState.Pending \<and> ma_instructions a \<noteq> [] \<and> \<not> ma_independent_operations_may_continue a)"

lemma manual_blocker_blames [simp]: "blames component (manual_blocker ecode component reason title instruction risk)"
  by (simp add: blames_def manual_blocker_def)

text \<open>A check that keeps the confirmations and adds blockers exactly when a requirement fails.\<close>

definition decides :: "(findings \<Rightarrow> findings) \<Rightarrow> bool \<Rightarrow> (Blocker \<Rightarrow> bool) \<Rightarrow> bool" where
  "decides check ok blame \<longleftrightarrow>
     (\<forall>f. \<exists>bs. fd_blockers (check f) = fd_blockers f @ bs \<and> (bs = [] \<longleftrightarrow> ok) \<and> (\<forall>b \<in> set bs. blame b)
        \<and> fd_confirmations (check f) = fd_confirmations f)"

lemma decides_comp:
  assumes c: "decides c ok blame" and d: "decides d ok' blame"
  shows "decides (\<lambda>f. d (c f)) (ok \<and> ok') blame"
  unfolding decides_def
proof
  fix f
  obtain bs where bs: "fd_blockers (c f) = fd_blockers f @ bs" "bs = [] \<longleftrightarrow> ok" "\<forall>b \<in> set bs. blame b"
      "fd_confirmations (c f) = fd_confirmations f" using c unfolding decides_def by blast
  obtain ds where ds: "fd_blockers (d (c f)) = fd_blockers (c f) @ ds" "ds = [] \<longleftrightarrow> ok'" "\<forall>b \<in> set ds. blame b"
      "fd_confirmations (d (c f)) = fd_confirmations (c f)" using d unfolding decides_def by blast
  show "\<exists>es. fd_blockers (d (c f)) = fd_blockers f @ es \<and> (es = [] \<longleftrightarrow> ok \<and> ok') \<and> (\<forall>b \<in> set es. blame b)
      \<and> fd_confirmations (d (c f)) = fd_confirmations f"
    by (rule exI [of _ "bs @ ds"]) (use bs ds in auto)
qed

lemma decides_blame: "decides c ok blame \<Longrightarrow> (\<And>b. \<not> ok \<Longrightarrow> blame b \<Longrightarrow> blame' b) \<Longrightarrow> decides c ok blame'"
  unfolding decides_def by (metis empty_iff empty_set)

lemma decides_when:
  "(\<And>a. decides (check a) (ok a) blame) \<Longrightarrow> decides (when_some x check) (\<forall>a. x = Some a \<longrightarrow> ok a) blame"
  by (cases x) (auto simp: decides_def when_some_def)

lemma decides_if: "decides check ok blame \<Longrightarrow> decides (\<lambda>f. if b then check f else f) (b \<longrightarrow> ok) blame"
  by (auto simp: decides_def)

lemma decides_fold:
  assumes "\<And>x. x \<in> set xs \<Longrightarrow> decides (check x) (ok x) blame"
  shows "decides (fold check xs) (\<forall>x \<in> set xs. ok x) blame"
  using assms
proof (induction xs)
  case (Cons x xs)
  have "decides (\<lambda>f. fold check xs (check x f)) (ok x \<and> (\<forall>x \<in> set xs. ok x)) blame"
    using Cons by (intro decides_comp) auto
  then show ?case by (simp add: comp_def)
qed (simp add: decides_def)

lemma decides_os:
  "decides (check_os_requirement os component target) (os_matches os (hf_os_version (tf_host target))) (blames component)"
  by (simp add: decides_def check_os_requirement_def push_simps)

lemma decides_architecture:
  "decides (check_architecture_requirement a component target) (architecture_matches a (hf_architecture (tf_host target)))
     (blames component)"
  by (simp add: decides_def check_architecture_requirement_def push_simps)

lemma decides_subsystem:
  "decides (check_subsystem_provider component p label target) (provider_usable target p) (blames (Some (c_id component)))"
  by (auto simp: decides_def check_subsystem_provider_def provider_usable_def Let_def push_simps split: option.splits)

lemma decides_provider:
  "decides (check_provider_requirement component p target) (provider_usable target p) (blames (Some (c_id component)))"
  by (auto simp: decides_def check_provider_requirement_def provider_usable_def Let_def push_simps split: option.splits)

lemma decides_runtime:
  "decides (check_runtime_requirement component r target) (runtime_usable target r) (blames (Some (c_id component)))"
  by (auto simp: decides_def check_runtime_requirement_def runtime_usable_def Let_def push_simps split: option.splits)

lemma decides_block:
  "blame x \<Longrightarrow> decides (\<lambda>f. if b then push_blocker x f else f) (\<not> b) blame"
  by (simp add: decides_def push_simps)

lemma decides_component:
  "decides (check_component target component) (component_supported target component) (blames (Some (c_id component)))"
proof -
  let ?r = "c_compatibility component"
  note os = decides_when [where x = "cmp_required_os ?r", OF decides_os]
  note architecture = decides_when [where x = "cmp_required_architecture ?r", OF decides_architecture]
  note elevation = decides_block [where blame = "blames (Some (c_id component))", OF manual_blocker_blames]
  note provider = decides_when [where x = "cmp_requires_provider ?r", OF decides_provider]
  note runtime = decides_when [where x = "cmp_requires_runtime ?r", OF decides_runtime]
  note wsl = decides_if [where b = "cmp_requires_wsl ?r", OF decides_subsystem]
  note docker = decides_if [where b = "cmp_requires_docker ?r", OF decides_subsystem]
  note chain = decides_comp [OF decides_comp [OF decides_comp [OF decides_comp [OF decides_comp [OF decides_comp
    [OF os architecture] elevation] provider] runtime] wsl] docker]
  have ok: "component_supported target component \<longleftrightarrow>
    ((((((\<forall>os. cmp_required_os ?r = Some os \<longrightarrow> os_matches os (hf_os_version (tf_host target)))
      \<and> (\<forall>a. cmp_required_architecture ?r = Some a \<longrightarrow> architecture_matches a (hf_architecture (tf_host target))))
      \<and> \<not> ((cmp_requires_elevation ?r \<or> rd_requires_elevation (c_restore component)) \<and> \<not> hf_elevated (tf_host target)))
      \<and> (\<forall>p. cmp_requires_provider ?r = Some p \<longrightarrow> provider_usable target p))
      \<and> (\<forall>r. cmp_requires_runtime ?r = Some r \<longrightarrow> runtime_usable target r))
      \<and> (cmp_requires_wsl ?r \<longrightarrow> provider_usable target ''wsl''))
      \<and> (cmp_requires_docker ?r \<longrightarrow> provider_usable target ''docker'')"
    by (auto simp: component_supported_def Let_def)
  show ?thesis unfolding ok check_component_def Let_def by (rule chain)
qed

lemma div_ceil_ten: "div_ceil n 10 = (n + 9) div 10"
  unfolding div_ceil_def by presburger

lemma recommended_bytes:
  "recommended_free_bytes required
     = (if required + disk_margin required \<le> u64_max then Some (required + disk_margin required) else None)"
  by (simp add: recommended_free_bytes_def FREE_SPACE_MARGIN_PERCENT_def MINIMUM_FREE_SPACE_MARGIN_BYTES_def div_ceil_ten
      disk_margin_def checked_add_u64_def Let_def)

lemma fold_max_ge: "n \<le> fold max xs (x :: nat) \<longleftrightarrow> n \<le> x \<or> (\<exists>y \<in> set xs. n \<le> y)"
  by (induction xs arbitrary: x) (auto simp: le_max_iff_disj)

lemma max_option_None [simp]: "max_option xs = None \<longleftrightarrow> xs = []"
  by (simp add: max_option_def split: list.splits)

lemma max_option_Nil [simp]: "max_option [] = None"
  by simp

lemma max_option_ge: "max_option xs = Some m \<Longrightarrow> n \<le> m \<longleftrightarrow> (\<exists>x \<in> set xs. n \<le> x)"
  by (auto simp: max_option_def fold_max_ge split: list.splits)

text \<open>The disk check blocks when the bytes do not fit, and asks when only the reserve is missing.\<close>

lemma check_disk:
  "\<exists>bs. fd_blockers (check_disk_requirement required target f) = fd_blockers f @ bs
     \<and> (bs = [] \<longleftrightarrow> disk_fits target required) \<and> (\<forall>b \<in> set bs. blames None b)
     \<and> (disk_fits target required \<longrightarrow> fd_confirmations (check_disk_requirement required target f)
          = fd_confirmations f @ (if disk_comfortable target required then [] else [low_disk_margin]))"
proof (cases "required = 0")
  case False
  show ?thesis
  proof (cases "max_option (map dfs_bytes (hf_free_bytes (tf_host target)))")
    case None
    with False show ?thesis by (simp add: check_disk_requirement_def push_simps disk_fits_def)
  next
    case (Some m)
    with False show ?thesis
      using max_option_ge [OF Some, of required] max_option_ge [OF Some, of "required + disk_margin required"]
      by (auto simp: check_disk_requirement_def push_simps disk_fits_def disk_comfortable_def recommended_bytes not_less)
  qed
qed (simp add: check_disk_requirement_def push_simps disk_fits_def disk_comfortable_def)

text \<open>The whole collection: blockers are there exactly when something is missing, and each is blamed right.\<close>

definition justified :: "PackageGraph \<Rightarrow> TargetFacts \<Rightarrow> Blocker \<Rightarrow> bool" where
  "justified graph target b \<longleftrightarrow>
     blames None b
     \<or> (\<exists>component \<in> set (g_components graph). \<not> component_supported target component \<and> blames (Some (c_id component)) b)"

lemma collect_findings:
  "(fd_blockers (collect_findings manifest graph required target) = [] \<longleftrightarrow> target_supports manifest graph required target)
   \<and> (\<forall>b \<in> set (fd_blockers (collect_findings manifest graph required target)). justified graph target b)
   \<and> (target_supports manifest graph required target \<longrightarrow>
        fd_confirmations (collect_findings manifest graph required target)
          = (if disk_comfortable target required then [] else [low_disk_margin]))"
proof -
  let ?os = "\<forall>os. pm_required_os manifest = Some os \<longrightarrow> os_matches os (hf_os_version (tf_host target))"
  let ?arch = "\<forall>a. pm_required_architecture manifest = Some a \<longrightarrow> architecture_matches a (hf_architecture (tf_host target))"
  let ?comps = "\<forall>component \<in> set (g_components graph). component_supported target component"
  define f0 where "f0 = (let f = \<lparr>fd_blockers = [], fd_confirmations = [], fd_warnings = []\<rparr>;
          f = (if str_trim (hf_os_build (tf_host target)) = []
               then push_note ''Target Windows build is unavailable'' f else f)
      in if hf_architecture (tf_host target) = Architecture.Unknown
         then push_note ''Target architecture is unknown'' f else f)"
  define head :: "findings \<Rightarrow> findings" where
    "head = (\<lambda>f. when_some (pm_required_architecture manifest) (\<lambda>architecture. check_architecture_requirement architecture None target)
       (when_some (pm_required_os manifest) (\<lambda>os. check_os_requirement os None target) f))"
  have f0: "fd_blockers f0 = []" "fd_confirmations f0 = []" by (simp_all add: f0_def Let_def push_simps)
  have "decides head (?os \<and> ?arch) (blames None)"
    unfolding head_def by (intro decides_comp decides_when decides_os decides_architecture)
  then obtain b1 where b1: "fd_blockers (head f0) = b1" "b1 = [] \<longleftrightarrow> ?os \<and> ?arch" "\<forall>b \<in> set b1. blames None b"
      "fd_confirmations (head f0) = []" unfolding decides_def using f0 by (metis append_Nil)
  define f2 where "f2 = check_disk_requirement required target (head f0)"
  obtain b2 where b2: "fd_blockers f2 = b1 @ b2" "b2 = [] \<longleftrightarrow> disk_fits target required" "\<forall>b \<in> set b2. blames None b"
      "disk_fits target required \<longrightarrow> fd_confirmations f2 = (if disk_comfortable target required then [] else [low_disk_margin])"
    using check_disk [of required target "head f0"] b1(1,4) unfolding f2_def by (metis append_Nil)
  have "decides (fold (check_component target) (g_components graph)) ?comps (justified graph target)"
    by (rule decides_fold, rule decides_blame, rule decides_component) (auto simp: justified_def)
  then obtain b3 where b3: "fd_blockers (fold (check_component target) (g_components graph) f2) = (b1 @ b2) @ b3"
      "b3 = [] \<longleftrightarrow> ?comps" "\<forall>b \<in> set b3. justified graph target b"
      "fd_confirmations (fold (check_component target) (g_components graph) f2) = fd_confirmations f2"
    unfolding decides_def using b2(1) by metis
  have whole: "collect_findings manifest graph required target = fold (check_component target) (g_components graph) f2"
    by (simp add: collect_findings_def f2_def head_def f0_def Let_def)
  have supports: "target_supports manifest graph required target \<longleftrightarrow> (?os \<and> ?arch) \<and> disk_fits target required \<and> ?comps"
    by (auto simp: target_supports_def)
  show ?thesis
    unfolding whole supports b3(1) b3(4) using b1 b2 b3 by (auto simp: justified_def)
qed

lemma remdups_adj_Nil_iff [simp]: "remdups_adj xs = [] \<longleftrightarrow> xs = []"
  by (cases xs rule: remdups_adj.cases) (auto simp: remdups_adj_Cons split: list.splits)

lemma sort_key_Nil_iff [simp]: "sort_key k xs = [] \<longleftrightarrow> xs = []"
  by (metis length_0_conv length_sort)

subsection \<open>Properties\<close>

text \<open>C31. The compatibility status is exact: a package is blocked exactly when the target fails one of
  the requirements of the package or of a component, or its disk can not hold the data; it is ready
  exactly when nothing is missing and the disk keeps the recommended reserve, without overflow.\<close>

theorem compatibility_status_exact:
  "cr_status (evaluate manifest graph required target) =
     (if \<not> target_supports manifest graph required target then Blocked
      else if disk_comfortable target required then Ready else RequiresConfirmation)"
  using collect_findings [of manifest graph required target] by (simp add: evaluate_def Let_def)

text \<open>Every blocker is justified and actionable: it is about the target as a whole or about a
  component of the package that the target does not support, and it carries a pending manual action
  for the same component with instructions, which nothing may bypass.\<close>

theorem blockers_justified:
  "list_all (justified graph target) (cr_blockers (evaluate manifest graph required target))"
  using collect_findings [of manifest graph required target] by (simp add: evaluate_def Let_def list_all_iff)

end
