(* ===== verification/Conflicts.thy ===== *)
theory Conflicts
  imports DomainModel
begin

text \<open>
  The construction of conflicts and their safe defaults, \<^verbatim>\<open>crates/reforge-restore/src/conflicts.rs\<close>.
  A conflict is identified by its component, its kind and a sanitised suffix; its kind (and, for a
  version difference, the direction) decides the resolution, whether the user has to confirm it and
  whether it blocks planning.
\<close>

subsection \<open>Definitions\<close>

record ClassifiedConflict =
  cc_conflict :: Conflict
  cc_blocks_planning :: bool

datatype VersionDirection = TargetNewer | TargetOlder

fun conflict_kind_key :: "ConflictKind \<Rightarrow> str" where
  "conflict_kind_key AlreadySatisfied = ''already-satisfied''"
| "conflict_kind_key VersionDifference = ''version-difference''"
| "conflict_kind_key ConfigDifference = ''config-difference''"
| "conflict_kind_key DataCollision = ''data-collision''"
| "conflict_kind_key SecretCollision = ''secret-collision''"
| "conflict_kind_key PathCollision = ''path-collision''"
| "conflict_kind_key PortCollision = ''port-collision''"
| "conflict_kind_key DependencyConflict = ''dependency-conflict''"
| "conflict_kind_key ConflictKind.ArchitectureConflict = ''architecture-conflict''"
| "conflict_kind_key UnsupportedTarget = ''unsupported-target''"

text \<open>One byte of a suffix, and the loop over the first 128 of them with its two variables.\<close>

definition suffix_char :: "char \<Rightarrow> char" where
  "suffix_char byte =
     (if is_ascii_alphanumeric byte \<or> byte \<in> {CHR ''-'', CHR ''_'', CHR ''.''}
      then to_ascii_lower byte else CHR ''-'')"

definition push_suffix :: "char \<Rightarrow> str \<times> bool \<Rightarrow> str \<times> bool" where
  "push_suffix byte = (\<lambda>(out, previous_dash).
     let character = suffix_char byte in
     if character = CHR ''-''
     then if out = [] \<or> previous_dash then (out, previous_dash) else (out @ [character], True)
     else (out @ [character], False))"

definition safe_suffix :: "str \<Rightarrow> str" where
  "safe_suffix v =
     (let out = fst (fold push_suffix (take 128 v) ([], False));
          out = (if ends_with out ''-'' then butlast out else out)
      in if out = [] then ''default'' else out)"

fun conflict_defaults :: "ConflictKind \<Rightarrow> VersionDirection option \<Rightarrow> ConflictResolution \<times> bool \<times> bool" where
  "conflict_defaults AlreadySatisfied _ = (Skip, False, False)"
| "conflict_defaults VersionDifference (Some TargetNewer) = (Skip, False, False)"
| "conflict_defaults VersionDifference (Some TargetOlder) = (Install, True, False)"
| "conflict_defaults VersionDifference None = (ConflictResolution.PreserveTarget, True, False)"
| "conflict_defaults ConfigDifference _ = (Merge, True, False)"
| "conflict_defaults DataCollision _ = (ConflictResolution.Manual, True, False)"
| "conflict_defaults SecretCollision _ = (ConflictResolution.PreserveTarget, True, False)"
| "conflict_defaults PortCollision _ = (ConflictResolution.Manual, True, False)"
| "conflict_defaults PathCollision _ = (Merge, False, False)"
| "conflict_defaults DependencyConflict _ = (ConflictResolution.Manual, False, True)"
| "conflict_defaults ConflictKind.ArchitectureConflict _ = (ConflictResolution.Manual, False, True)"
| "conflict_defaults UnsupportedTarget _ = (ConflictResolution.Manual, False, True)"

definition conflict_id :: "ComponentId option \<Rightarrow> ConflictKind \<Rightarrow> str \<Rightarrow> str" where
  "conflict_id component kind sfx =
     ''conflict:'' @ (case component of None \<Rightarrow> ''target'' | Some c \<Rightarrow> c) @ '':''
       @ conflict_kind_key kind @ '':'' @ safe_suffix sfx"

definition classify_conflict ::
  "ComponentId option \<Rightarrow> ConflictKind \<Rightarrow> str \<Rightarrow> str \<Rightarrow> str \<Rightarrow> VersionDirection option \<Rightarrow> ClassifiedConflict" where
  "classify_conflict component kind source_summary target_summary sfx direction =
     (case conflict_defaults kind direction of (resolution, requires_confirmation, blocks_planning) \<Rightarrow>
      \<lparr>cc_conflict =
         \<lparr>cf_id = conflict_id component kind sfx, cf_component = component, cf_kind = kind,
          cf_source_summary = source_summary, cf_target_summary = target_summary,
          cf_resolution = resolution, cf_requires_confirmation = requires_confirmation\<rparr>,
       cc_blocks_planning = blocks_planning\<rparr>)"

subsection \<open>The shape of a suffix\<close>

text \<open>Lower-case letters, digits, dots, underscores and single dashes, none of them at an end.\<close>

definition suffix_alphabet :: "char \<Rightarrow> bool" where
  "suffix_alphabet c \<longleftrightarrow> is_ascii_lower c \<or> is_ascii_digit c \<or> c \<in> {CHR ''-'', CHR ''_'', CHR ''.''}"

fun single_dashes :: "str \<Rightarrow> bool" where
  "single_dashes (a # b # s) \<longleftrightarrow> \<not> (a = CHR ''-'' \<and> b = CHR ''-'') \<and> single_dashes (b # s)"
| "single_dashes _ = True"

definition suffix_shape :: "str \<Rightarrow> bool" where
  "suffix_shape s \<longleftrightarrow> s \<noteq> [] \<and> list_all suffix_alphabet s \<and> single_dashes s \<and> hd s \<noteq> CHR ''-'' \<and> last s \<noteq> CHR ''-''"

lemma suffix_char_alphabet: "suffix_alphabet (suffix_char c)"
proof -
  have "suffix_alphabet (to_ascii_lower c)" if "is_ascii_alphanumeric c"
    using that
    by (auto simp: suffix_alphabet_def to_ascii_lower_def is_ascii_alphanumeric_def is_ascii_alphabetic_def
        is_ascii_upper_def is_ascii_lower_def)
  moreover have "suffix_alphabet (to_ascii_lower c)" if "c \<in> {CHR ''-'', CHR ''_'', CHR ''.''}"
    using that by (auto simp: suffix_alphabet_def to_ascii_lower_def is_ascii_upper_def)
  ultimately show ?thesis by (auto simp: suffix_char_def) (simp add: suffix_alphabet_def)
qed

lemma suffix_char_id: "suffix_alphabet c \<Longrightarrow> suffix_char c = c"
  by (auto simp: suffix_alphabet_def suffix_char_def to_ascii_lower_def is_ascii_alphanumeric_def is_ascii_alphabetic_def
      is_ascii_upper_def is_ascii_lower_def is_ascii_digit_def)

lemma single_dashes_snoc: "single_dashes (s @ [c]) \<longleftrightarrow> single_dashes s \<and> \<not> (s \<noteq> [] \<and> last s = CHR ''-'' \<and> c = CHR ''-'')"
  by (induction s rule: single_dashes.induct) auto

text \<open>The loop's invariant; the flag says whether the output ends with a dash.\<close>

definition suffix_loop_inv :: "str \<times> bool \<Rightarrow> bool" where
  "suffix_loop_inv = (\<lambda>(out, previous_dash).
     list_all suffix_alphabet out \<and> single_dashes out \<and> (out \<noteq> [] \<longrightarrow> hd out \<noteq> CHR ''-'')
     \<and> (previous_dash \<longleftrightarrow> out \<noteq> [] \<and> last out = CHR ''-''))"

lemma push_suffix_inv: "suffix_loop_inv st \<Longrightarrow> suffix_loop_inv (push_suffix byte st)"
  using suffix_char_alphabet [of byte]
  by (cases st) (auto simp: suffix_loop_inv_def push_suffix_def Let_def single_dashes_snoc hd_append)

lemma fold_suffix_inv: "suffix_loop_inv st \<Longrightarrow> suffix_loop_inv (fold push_suffix bytes st)"
  by (induction bytes arbitrary: st) (simp_all add: push_suffix_inv)

lemma fold_suffix_length: "length (fst (fold push_suffix bytes st)) \<le> length (fst st) + length bytes"
proof (induction bytes arbitrary: st)
  case (Cons c bytes)
  have "length (fst (push_suffix c st)) \<le> Suc (length (fst st))" by (cases st) (simp add: push_suffix_def Let_def)
  with Cons [of "push_suffix c st"] show ?case by simp
qed simp

lemma single_dashes_butlast: "single_dashes s \<Longrightarrow> single_dashes (butlast s)"
  using single_dashes_snoc [of "butlast s" "last s"] by (cases "s = []") auto

lemma ends_with_dash: "ends_with s ''-'' \<longleftrightarrow> s \<noteq> [] \<and> last s = CHR ''-''"
proof (cases s rule: rev_cases)
  case Nil then show ?thesis by (simp add: ends_with_def)
qed (simp add: ends_with_def)

text \<open>Removing the trailing dash leaves a string of the shape, or nothing.\<close>

lemma strip_dash_shape:
  assumes "suffix_loop_inv (out, b)"
  defines "t \<equiv> if ends_with out ''-'' then butlast out else out"
  shows "t = [] \<or> suffix_shape t"
proof (cases out rule: rev_cases)
  case Nil
  then show ?thesis by (simp add: t_def)
next
  case (snoc s c)
  show ?thesis
  proof (cases "c = CHR ''-''")
    case True
    then have "t = s" using snoc by (simp add: t_def ends_with_dash)
    moreover have "s \<noteq> [] \<longrightarrow> hd s \<noteq> CHR ''-'' \<and> last s \<noteq> CHR ''-''" "list_all suffix_alphabet s" "single_dashes s"
      using assms(1) snoc True by (auto simp: suffix_loop_inv_def single_dashes_snoc hd_append)
    ultimately show ?thesis by (auto simp: suffix_shape_def)
  next
    case False
    then have "t = out" using snoc by (simp add: t_def ends_with_dash)
    then show ?thesis using assms(1) snoc False by (auto simp: suffix_loop_inv_def suffix_shape_def)
  qed
qed

lemma fold_suffix_id:
  assumes "list_all suffix_alphabet s" "single_dashes (out @ s)" "out = [] \<longrightarrow> s \<noteq> [] \<longrightarrow> hd s \<noteq> CHR ''-''"
  shows "fst (fold push_suffix s (out, out \<noteq> [] \<and> last out = CHR ''-'')) = out @ s"
  using assms
proof (induction s arbitrary: out)
  case (Cons c s)
  have "single_dashes (out @ [c])"
    using Cons.prems(2) by (induction out rule: single_dashes.induct) (cases s; simp)+
  then have "push_suffix c (out, out \<noteq> [] \<and> last out = CHR ''-'') = (out @ [c], out @ [c] \<noteq> [] \<and> last (out @ [c]) = CHR ''-'')"
    using Cons.prems suffix_char_id [of c] by (auto simp: push_suffix_def Let_def single_dashes_snoc)
  with Cons.IH [of "out @ [c]"] Cons.prems show ?case by simp
qed simp

lemma safe_suffix_id:
  assumes "suffix_shape s" "length s \<le> 128"
  shows "safe_suffix s = s"
  using assms fold_suffix_id [of s "[]"]
  by (simp add: safe_suffix_def suffix_shape_def ends_with_dash Let_def)

lemma safe_suffix_shape: "suffix_shape (safe_suffix v) \<and> length (safe_suffix v) \<le> 128"
proof -
  obtain out b where fold: "fold push_suffix (take 128 v) ([], False) = (out, b)" by fastforce
  have inv: "suffix_loop_inv (out, b)"
    using fold_suffix_inv [of "([], False)" "take 128 v"] fold by (simp add: suffix_loop_inv_def)
  have len: "length out \<le> 128" using fold_suffix_length [of "take 128 v" "([], False)"] fold by simp
  have default: "suffix_shape ''default''"
    by (simp add: suffix_shape_def suffix_alphabet_def is_ascii_lower_def)
  show ?thesis
    using strip_dash_shape [OF inv] len default by (auto simp: safe_suffix_def fold Let_def)
qed

subsection \<open>Properties\<close>

text \<open>The suffix of a conflict id is in normal form whatever text it is made from: at most 128
  bytes of lower-case letters, digits, dots, underscores and single inner dashes, never empty, and
  sanitising it again changes nothing.\<close>

theorem safe_suffix_normal_form:
  "suffix_shape (safe_suffix v) \<and> length (safe_suffix v) \<le> 128 \<and> safe_suffix (safe_suffix v) = safe_suffix v"
  using safe_suffix_shape safe_suffix_id by blast

text \<open>The defaults are safe: no conflict is resolved by replacing target state; a conflict is
  either one that blocks planning, or it needs the user's confirmation, or its resolution is to skip
  or to merge a search path; a newer target is never overwritten, and installing over an older one
  is confirmed first.\<close>

theorem classify_conflict_safe:
  "let c = classify_conflict component kind source target sfx direction in
     cf_resolution (cc_conflict c) \<noteq> ConflictResolution.Replace
     \<and> (cc_blocks_planning c \<or> cf_requires_confirmation (cc_conflict c) \<or> cf_resolution (cc_conflict c) = Skip
        \<or> kind = PathCollision \<and> cf_resolution (cc_conflict c) = Merge)
     \<and> (cf_resolution (cc_conflict c) = Install \<longleftrightarrow> kind = VersionDifference \<and> direction = Some TargetOlder)
     \<and> (cc_blocks_planning c \<longleftrightarrow> kind \<in> {DependencyConflict, ConflictKind.ArchitectureConflict, UnsupportedTarget})"
  by (cases "(kind, direction)" rule: conflict_defaults.cases) (simp_all add: classify_conflict_def)

end
