(* ===== verification/Diff.thy ===== *)
theory Diff
  imports Operations Conflicts
begin

text \<open>
  The comparison of a package graph with the facts of a target, \<^verbatim>\<open>crates/reforge-restore/src/diff.rs\<close>.
  The vectors and index sets the comparison of each component adds to are a record passed along;
  a set of used indices is a set of positions in the target's fact lists. The content digest of a
  literal environment value is the parameter \<open>content_id\<close>.
\<close>

subsection \<open>The result\<close>

datatype ComponentDisposition = Install | Skip | Merge | PreserveTarget | Manual | Blocked

record ComponentDiff =
  cd_component :: ComponentId
  cd_disposition :: ComponentDisposition
  cd_target_present :: bool
  cd_conflict_ids :: "str list"

datatype BackupTarget = Artifact ArtifactId PathToken | Environment ConfigScope str

record BackupRequirement =
  br_component :: ComponentId
  br_target :: BackupTarget
  br_reason :: str

record TargetDiff =
  td_components :: "ComponentDiff list"
  td_conflicts :: "Conflict list"
  td_blocking_conflict_ids :: "str list"
  td_backup_requirements :: "BackupRequirement list"
  td_preserved_target :: "InstalledFact list"
  td_preserved_runtimes :: "RuntimeFact list"
  td_preserved_environment :: "EnvironmentFact list"
  td_warnings :: "str list"

definition is_blocked :: "TargetDiff \<Rightarrow> bool" where
  "is_blocked diff \<longleftrightarrow> td_blocking_conflict_ids diff \<noteq> []"

text \<open>\<^verbatim>\<open>slice::binary_search\<close>: the index of an occurrence between two bounds of a sorted list.\<close>

function bsearch :: "'a :: linorder list \<Rightarrow> 'a \<Rightarrow> nat \<Rightarrow> nat \<Rightarrow> nat option" where
  "bsearch xs x lo hi =
     (if hi \<le> lo then None
      else let mid = (lo + hi) div 2 in
        if xs ! mid = x then Some mid
        else if xs ! mid < x then bsearch xs x (mid + 1) hi
        else bsearch xs x lo mid)"
  by pat_completeness auto
termination by (relation "measure (\<lambda>(xs, x, lo, hi). hi - lo)") auto

declare bsearch.simps [simp del]

definition binary_search :: "'a :: linorder list \<Rightarrow> 'a \<Rightarrow> nat option" where
  "binary_search xs x = bsearch xs x 0 (length xs)"

definition component_diff :: "TargetDiff \<Rightarrow> ComponentId \<Rightarrow> ComponentDiff option" where
  "component_diff diff component_id =
     map_option (\<lambda>index. td_components diff ! index)
       (binary_search (map cd_component (td_components diff)) component_id)"

subsection \<open>Merging search paths\<close>

definition merge_path_entry :: "str \<Rightarrow> str set \<times> str list \<Rightarrow> str set \<times> str list" where
  "merge_path_entry entry = (\<lambda>(seen, merged).
     let candidate = str_trim entry in
     if candidate = [] \<or> to_lowercase candidate \<in> seen then (seen, merged)
     else (insert (to_lowercase candidate) seen, merged @ [entry]))"

definition merge_path_entries :: "str list \<Rightarrow> str list \<Rightarrow> str list" where
  "merge_path_entries target source = snd (fold merge_path_entry (target @ source) ({}, []))"

subsection \<open>Normalised texts and versions\<close>

definition diff_error :: "str \<Rightarrow> ErrorEnvelope" where
  "diff_error message = restore_error SchemaInvalid message None None None None"

definition normalized :: "str option \<Rightarrow> str option" where
  "normalized v =
     (case v of
        None \<Rightarrow> None
      | Some v \<Rightarrow>
          let v = to_lowercase (str_trim v) in
          if v = [] \<or> length v > 1024 \<or> has_control v then None else Some v)"

definition normalized_executable :: "str option \<Rightarrow> str option" where
  "normalized_executable v =
     Option.bind (normalized v) (\<lambda>v.
       let name = last (split_on (\<lambda>c. c = CHR ''/'' \<or> c = CHR 0x5C) v) in if name = [] then None else Some name)"

definition normalize_environment_name :: "str \<Rightarrow> str option" where
  "normalize_environment_name v =
     (let v = str_trim v in
      if v = [] \<or> length v > 32 * 1024 \<or> CHR 0x00 \<in> set v \<or> CHR ''='' \<in> set v \<or> has_control v then None
      else Some (to_uppercase v))"

fun scope_rank :: "ConfigScope \<Rightarrow> nat" where
  "scope_rank Process = 0"
| "scope_rank ConfigScope.User = 1"
| "scope_rank System = 2"
| "scope_rank Project = 3"
| "scope_rank Managed = 4"

definition is_port_name :: "str \<Rightarrow> bool" where
  "is_port_name name \<longleftrightarrow>
     eq_ignore_ascii_case name ''PORT'' \<or> ends_with (to_ascii_uppercase name) ''_PORT''"

text \<open>\<^verbatim>\<open>chars().take(n)\<close> on the bytes: a continuation byte belongs to the scalar before it.\<close>

fun take_chars :: "nat \<Rightarrow> str \<Rightarrow> str" where
  "take_chars n [] = []"
| "take_chars n (c # s) =
     (if 128 \<le> code c \<and> code c < 192 then c # take_chars n s
      else case n of 0 \<Rightarrow> [] | Suc m \<Rightarrow> c # take_chars m s)"

definition safe_label :: "str \<Rightarrow> str" where
  "safe_label v =
     (let v = filter (\<lambda>c. is_ascii_alphanumeric c \<or> c \<in> set ''.-_+:/'') (take_chars 128 v)
      in if v = [] then ''unavailable'' else v)"

definition normalized_version :: "VersionValue \<Rightarrow> str option" where
  "normalized_version version =
     normalized (case ver_normalized version of Some t \<Rightarrow> Some t | None \<Rightarrow> Some (ver_raw version))"

text \<open>A dotted version of at most 16 segments, each a decimal \<^verbatim>\<open>u64\<close>.\<close>

definition version_segment :: "str \<Rightarrow> nat option" where
  "version_segment segment =
     (if segment = [] \<or> \<not> list_all is_ascii_digit segment then None
      else if read_nat segment \<le> u64_max then Some (read_nat segment) else None)"

fun option_list :: "'a option list \<Rightarrow> 'a list option" where
  "option_list [] = Some []"
| "option_list (x # xs) = Option.bind x (\<lambda>a. map_option (Cons a) (option_list xs))"

definition numeric_version :: "str \<Rightarrow> nat list option" where
  "numeric_version v =
     (let v = (case strip_prefix v ''v'' of Some rest \<Rightarrow> rest | None \<Rightarrow> v);
          segments = split_on (\<lambda>c. c = CHR ''.'') v
      in if segments = [] \<or> length segments > 16 then None else option_list (map version_segment segments))"

datatype Ordering = Less | Equal | Greater

definition cmp_nat :: "nat \<Rightarrow> nat \<Rightarrow> Ordering" where
  "cmp_nat a b = (if a < b then Less else if a = b then Equal else Greater)"

definition segment_at :: "nat list \<Rightarrow> nat \<Rightarrow> nat" where
  "segment_at xs i = (if i < length xs then xs ! i else 0)"

definition compare_numeric_versions :: "nat list \<Rightarrow> nat list \<Rightarrow> Ordering" where
  "compare_numeric_versions source target =
     (case find (\<lambda>cmp. cmp \<noteq> Equal)
             (map (\<lambda>i. cmp_nat (segment_at source i) (segment_at target i)) [0..<max (length source) (length target)]) of
        Some cmp \<Rightarrow> cmp
      | None \<Rightarrow> Equal)"

definition compare_version_text :: "str \<Rightarrow> str \<Rightarrow> Ordering option" where
  "compare_version_text source target =
     Option.bind (numeric_version source) (\<lambda>source.
     map_option (compare_numeric_versions source) (numeric_version target))"

datatype VersionRelation = Same | TargetNewer | TargetOlder | DifferentUnknown

definition version_relation :: "VersionValue option \<Rightarrow> VersionValue option \<Rightarrow> VersionRelation" where
  "version_relation source target =
     (case (Option.bind source normalized_version, Option.bind target normalized_version) of
        (None, None) \<Rightarrow> Same
      | (None, Some _) \<Rightarrow> TargetNewer
      | (Some _, None) \<Rightarrow> DifferentUnknown
      | (Some source, Some target) \<Rightarrow>
          if source = target then Same
          else case compare_version_text source target of
            Some Equal \<Rightarrow> Same
          | Some Less \<Rightarrow> TargetNewer
          | Some Greater \<Rightarrow> TargetOlder
          | None \<Rightarrow> DifferentUnknown)"

definition version_summary :: "str \<Rightarrow> VersionValue option \<Rightarrow> str" where
  "version_summary label version =
     label @ '' version '' @ (case Option.bind version normalized_version of Some v \<Rightarrow> safe_label v | None \<Rightarrow> ''unknown'')"

definition source_architecture_matches :: "Architecture \<Rightarrow> Architecture \<Rightarrow> bool" where
  "source_architecture_matches source target \<longleftrightarrow>
     source = Neutral
     \<or> source \<noteq> Architecture.Unknown \<and> target \<noteq> Architecture.Unknown \<and> source = target"

fun architecture_summary :: "Architecture \<Rightarrow> str" where
  "architecture_summary X86 = ''x86 architecture''"
| "architecture_summary X64 = ''x64 architecture''"
| "architecture_summary Arm64 = ''arm64 architecture''"
| "architecture_summary Neutral = ''architecture-neutral''"
| "architecture_summary Architecture.Unknown = ''unknown architecture''"

subsection \<open>Identities\<close>

definition component_publisher :: "Component \<Rightarrow> str option" where
  "component_publisher component =
     (case Option.bind (c_publisher component) (\<lambda>p. normalized (Some (pub_name p))) of
        Some name \<Rightarrow> Some name
      | None \<Rightarrow> normalized (idn_publisher (c_identity component)))"

definition installed_publisher :: "InstalledFact \<Rightarrow> str option" where
  "installed_publisher installed =
     (case Option.bind (if_publisher installed) (\<lambda>p. normalized (Some (pub_name p))) of
        Some name \<Rightarrow> Some name
      | None \<Rightarrow> normalized (idn_publisher (if_identity installed)))"

definition normalized_source :: "Component \<Rightarrow> str option" where
  "normalized_source component =
     (case normalized (idn_provider_source (c_identity component)) of
        Some v \<Rightarrow> Some v
      | None \<Rightarrow> Option.bind (c_provenance component) (\<lambda>p. normalized (Some (prov_adapter_id p))))"

definition normalized_installed_source :: "InstalledFact \<Rightarrow> str option" where
  "normalized_installed_source installed =
     (case normalized (idn_provider_source (if_identity installed)) of
        Some v \<Rightarrow> Some v
      | None \<Rightarrow> Option.bind (if_provenance installed) (\<lambda>p. normalized (Some (prov_adapter_id p))))"

text \<open>Two optional keys that are both there and equal.\<close>

definition both_equal :: "'a option \<Rightarrow> 'a option \<Rightarrow> bool" where
  "both_equal a b \<longleftrightarrow> a \<noteq> None \<and> a = b"

definition provider_identity_matches :: "Identity \<Rightarrow> Identity \<Rightarrow> bool" where
  "provider_identity_matches source target \<longleftrightarrow>
     (case (idn_provider_package source, idn_provider_package target) of
        (Some (source_provider, source_package), Some (target_provider, target_package)) \<Rightarrow>
          source_provider = target_provider
          \<and> normalized (idn_provider_source source) = normalized (idn_provider_source target)
          \<and> normalized (Some source_package) = normalized (Some target_package)
          \<and> idn_provider_source source \<noteq> None \<and> idn_provider_source target \<noteq> None
      | _ \<Rightarrow> False)"

definition identity_matches :: "Component \<Rightarrow> InstalledFact \<Rightarrow> bool" where
  "identity_matches source target \<longleftrightarrow>
     (let s = c_identity source; t = if_identity target;
          certificate = (\<lambda>publisher. Option.bind publisher (\<lambda>p. normalized (pub_certificate_thumbprint p)))
      in provider_identity_matches s t
       \<or> both_equal (normalized (idn_package_family s)) (normalized (idn_package_family t))
         \<and> both_equal (component_publisher source) (installed_publisher target)
       \<or> both_equal (normalized (idn_product_name s)) (normalized (idn_product_name t))
         \<and> both_equal (certificate (c_publisher source)) (certificate (if_publisher target))
       \<or> both_equal (normalized (idn_product_name s)) (normalized (idn_product_name t))
         \<and> both_equal (component_publisher source) (installed_publisher target)
         \<and> both_equal (normalized (idn_install_role s)) (normalized (idn_install_role t))
       \<or> both_equal (normalized_executable (idn_executable_name s)) (normalized_executable (idn_executable_name t))
         \<and> both_equal (normalized (idn_executable_hash s)) (normalized (idn_executable_hash t)))"

definition source_identity_summary :: "Component \<Rightarrow> str" where
  "source_identity_summary component =
     (case idn_provider_package (c_identity component) of
        Some (provider, package) \<Rightarrow> ''source identity '' @ provider @ ''/'' @ safe_label package
      | None \<Rightarrow> ''source component '' @ c_id component)"

subsection \<open>Environment variables of a component\<close>

fun find_map :: "('a \<Rightarrow> 'b option) \<Rightarrow> 'a list \<Rightarrow> 'b option" where
  "find_map f [] = None"
| "find_map f (x # xs) = (case f x of Some y \<Rightarrow> Some y | None \<Rightarrow> find_map f xs)"

definition environment_name :: "Component \<Rightarrow> str option" where
  "environment_name component =
     (let from_rule = find_map (\<lambda>rule. case rule of VerificationRule.Environment _ name _ \<Rightarrow> Some name | _ \<Rightarrow> None)
            (c_verification component);
          name = (case from_rule of
              Some name \<Rightarrow> Some name
            | None \<Rightarrow>
                (case idn_product_name (c_identity component) of
                   Some name \<Rightarrow> Some name
                 | None \<Rightarrow> map_option snd (idn_provider_package (c_identity component))))
      in Option.bind name normalize_environment_name)"

definition environment_scope :: "Component \<Rightarrow> ConfigScope" where
  "environment_scope component =
     (case find_map (\<lambda>rule. case rule of VerificationRule.Environment scope _ _ \<Rightarrow> Some scope | _ \<Rightarrow> None)
             (c_verification component) of
        Some scope \<Rightarrow> scope
      | None \<Rightarrow> (case c_artifacts component of artifact # _ \<Rightarrow> art_scope artifact | [] \<Rightarrow> ConfigScope.User))"

definition environment_expected_hash :: "(str \<Rightarrow> ObjectId) \<Rightarrow> Component \<Rightarrow> str option" where
  "environment_expected_hash content_id component =
     find_map (\<lambda>rule. case rule of
         VerificationRule.Environment _ _ (LiteralNonSecret v) \<Rightarrow> Some (content_id v)
       | _ \<Rightarrow> None) (c_verification component)"

subsection \<open>Comparing one component\<close>

record diff_state =
  ds_used_installed :: "nat set"
  ds_used_runtimes :: "nat set"
  ds_used_environment :: "nat set"
  ds_conflicts :: "ClassifiedConflict list"
  ds_backups :: "BackupRequirement list"

definition push_conflict :: "ClassifiedConflict \<Rightarrow> diff_state \<Rightarrow> diff_state" where
  "push_conflict c st = st\<lparr>ds_conflicts := ds_conflicts st @ [c]\<rparr>"
definition push_backup :: "BackupRequirement \<Rightarrow> diff_state \<Rightarrow> diff_state" where
  "push_backup b st = st\<lparr>ds_backups := ds_backups st @ [b]\<rparr>"

definition compare_versions ::
  "ComponentId \<Rightarrow> VersionValue option \<Rightarrow> VersionValue option \<Rightarrow> diff_state \<Rightarrow> diff_state" where
  "compare_versions component source target =
     (let classify = (\<lambda>kind sfx direction. push_conflict (classify_conflict (Some component) kind
            (version_summary ''source'' source) (version_summary ''target'' target) sfx direction))
      in case version_relation source target of
           Same \<Rightarrow> classify AlreadySatisfied ''identity-version'' None
         | TargetNewer \<Rightarrow> classify VersionDifference ''target-newer'' (Some VersionDirection.TargetNewer)
         | TargetOlder \<Rightarrow> classify VersionDifference ''target-older'' (Some VersionDirection.TargetOlder)
         | DifferentUnknown \<Rightarrow> classify VersionDifference ''unranked'' None)"

definition source_channel_differs :: "Component \<Rightarrow> InstalledFact \<Rightarrow> (str \<times> str) option" where
  "source_channel_differs component target =
     (case (normalized_source component, normalized_installed_source target) of
        (Some source, Some observed) \<Rightarrow> if source \<noteq> observed then Some (source, observed) else None
      | _ \<Rightarrow> None)"

definition compare_version_and_source :: "Component \<Rightarrow> InstalledFact \<Rightarrow> diff_state \<Rightarrow> diff_state" where
  "compare_version_and_source component target st =
     (let st = compare_versions (c_id component) (c_version component) (if_version target) st
      in case source_channel_differs component target of
           None \<Rightarrow> st
         | Some (source, observed) \<Rightarrow>
             push_conflict (classify_conflict (Some (c_id component)) UnsupportedTarget
               (''source package channel '' @ safe_label source) (''target package channel '' @ safe_label observed)
               ''source-channel'' None) st)"

definition compare_installed :: "TargetFacts \<Rightarrow> Component \<Rightarrow> diff_state \<Rightarrow> bool \<times> diff_state" where
  "compare_installed target component st =
     (let found = filter (\<lambda>(index, installed). identity_matches component installed) (enumerate 0 (tf_installed target));
          used = st\<lparr>ds_used_installed := ds_used_installed st \<union> fst ` set found\<rparr>
      in case found of
           [] \<Rightarrow> (False, st)
         | [(index, installed)] \<Rightarrow> (True, compare_version_and_source component installed used)
         | _ \<Rightarrow> (True, push_conflict (classify_conflict (Some (c_id component)) UnsupportedTarget
                    (source_identity_summary component) ''multiple target identities match the source component''
                    ''ambiguous-identity'' None) used))"

definition runtime_architecture_differs :: "Component \<Rightarrow> RuntimeFact \<Rightarrow> (Architecture \<times> Architecture) option" where
  "runtime_architecture_differs component runtime =
     (case (c_architecture component, rf_architecture runtime) of
        (Some source, Some observed) \<Rightarrow>
          if source_architecture_matches source observed then None else Some (source, observed)
      | _ \<Rightarrow> None)"

definition find_runtime :: "TargetFacts \<Rightarrow> Component \<Rightarrow> (nat \<times> RuntimeFact) option" where
  "find_runtime target component =
     find (\<lambda>(index, runtime). rf_id runtime = c_id component) (enumerate 0 (tf_runtimes target))"

definition compare_runtime :: "TargetFacts \<Rightarrow> Component \<Rightarrow> diff_state \<Rightarrow> bool \<times> diff_state" where
  "compare_runtime target component st =
     (case find_runtime target component of
        None \<Rightarrow> (False, st)
      | Some (index, runtime) \<Rightarrow>
          let st = compare_versions (c_id component) (c_version component) (rf_version runtime)
                (st\<lparr>ds_used_runtimes := insert index (ds_used_runtimes st)\<rparr>)
          in (True, case runtime_architecture_differs component runtime of
                None \<Rightarrow> st
              | Some (source, observed) \<Rightarrow>
                  push_conflict (classify_conflict (Some (c_id component)) ConflictKind.ArchitectureConflict
                    (architecture_summary source) (architecture_summary observed) ''runtime'' None) st))"

definition find_variable :: "TargetFacts \<Rightarrow> ConfigScope \<Rightarrow> str \<Rightarrow> (nat \<times> EnvironmentFact) option" where
  "find_variable target scope name =
     find (\<lambda>(index, variable). ef_scope variable = scope \<and> eq_ignore_ascii_case (ef_name variable) name)
       (enumerate 0 (tf_environment target))"

definition environment_conflict_kind :: "(str \<Rightarrow> ObjectId) \<Rightarrow> Component \<Rightarrow> str \<Rightarrow> EnvironmentFact \<Rightarrow> ConflictKind" where
  "environment_conflict_kind content_id component name variable =
     (if both_equal (environment_expected_hash content_id component) (ef_value_hash variable) then AlreadySatisfied
      else if eq_ignore_ascii_case name ''PATH'' then PathCollision
      else if is_port_name name then PortCollision
      else ConfigDifference)"

definition compare_environment ::
  "(str \<Rightarrow> ObjectId) \<Rightarrow> TargetFacts \<Rightarrow> Component \<Rightarrow> diff_state \<Rightarrow> bool \<times> diff_state" where
  "compare_environment content_id target component st =
     (case environment_name component of
        None \<Rightarrow> (False, push_conflict (classify_conflict (Some (c_id component)) UnsupportedTarget
                  ''source environment variable has no normalized name'' ''target comparison unavailable''
                  ''environment-name'' None) st)
      | Some name \<Rightarrow>
          (case find_variable target (environment_scope component) name of
             None \<Rightarrow> (False, st)
           | Some (index, variable) \<Rightarrow>
               let st = st\<lparr>ds_used_environment := insert index (ds_used_environment st)\<rparr>;
                   kind = environment_conflict_kind content_id component name variable;
                   classified = classify_conflict (Some (c_id component)) kind
                     (''source environment variable '' @ safe_label name)
                     (''target environment variable '' @ safe_label (ef_name variable)) name None;
                   st = (if kind \<in> {ConfigDifference, PathCollision}
                         then push_backup
                           \<lparr>br_component = c_id component,
                            br_target = Environment (ef_scope variable) (ef_name variable),
                            br_reason = ''Preserve the target environment value before merge''\<rparr> st
                         else st)
               in (True, push_conflict classified st)))"

definition compare_secret :: "TargetFacts \<Rightarrow> Component \<Rightarrow> diff_state \<Rightarrow> bool \<times> diff_state" where
  "compare_secret target component st =
     (case environment_name component of
        None \<Rightarrow> (False, st)
      | Some name \<Rightarrow>
          (case find_variable target (environment_scope component) name of
             None \<Rightarrow> (False, st)
           | Some (index, variable) \<Rightarrow>
               (True, push_conflict (classify_conflict (Some (c_id component)) SecretCollision
                  (''source secret reference '' @ safe_label name)
                  (''target already defines '' @ safe_label (ef_name variable)) name None)
                  (st\<lparr>ds_used_environment := insert index (ds_used_environment st)\<rparr>))))"

definition required_architecture :: "Component \<Rightarrow> Architecture option" where
  "required_architecture component =
     (case cmp_required_architecture (c_compatibility component) of
        Some a \<Rightarrow> Some a
      | None \<Rightarrow> c_architecture component)"

definition compare_architecture :: "TargetFacts \<Rightarrow> Component \<Rightarrow> diff_state \<Rightarrow> diff_state" where
  "compare_architecture target component st =
     (case required_architecture component of
        None \<Rightarrow> st
      | Some required \<Rightarrow>
          if source_architecture_matches required (hf_architecture (tf_host target)) then st
          else push_conflict (classify_conflict (Some (c_id component)) ConflictKind.ArchitectureConflict
                 (architecture_summary required) (architecture_summary (hf_architecture (tf_host target)))
                 ''target'' None) st)"

definition supported_state :: "Component \<Rightarrow> bool" where
  "supported_state component \<longleftrightarrow>
     \<not> (c_kind component = ComponentKind.Unknown
        \<or> rd_primary (c_restore component) \<in> {RestoreStrategy.MachineBound, RestoreStrategy.Unknown}
        \<or> rd_primary (c_restore component) \<noteq> RestoreStrategy.Manual
          \<and> rd_portability (c_restore component) \<in> {Unsupported, Portability.MachineBound, Portability.Unknown})"

definition compare_supported_state :: "Component \<Rightarrow> diff_state \<Rightarrow> diff_state" where
  "compare_supported_state component st =
     (if supported_state component then st
      else push_conflict (classify_conflict (Some (c_id component)) UnsupportedTarget
             ''source component has no automatic portable restore contract''
             ''target state must be handled manually'' ''restore-contract'' None) st)"

fun artifact_policy_row :: "ArtifactPolicy \<Rightarrow> ConflictKind \<times> bool \<times> str" where
  "artifact_policy_row Config = (ConfigDifference, True, ''config'')"
| "artifact_policy_row Data = (DataCollision, True, ''data'')"
| "artifact_policy_row Export = (DataCollision, True, ''data'')"
| "artifact_policy_row ArtifactPolicy.PortableBinary = (DataCollision, True, ''data'')"
| "artifact_policy_row LargeOptIn = (DataCollision, True, ''data'')"
| "artifact_policy_row ArtifactPolicy.SecretReference = (SecretCollision, False, ''secret'')"
| "artifact_policy_row ArtifactPolicy.Manual = (UnsupportedTarget, False, ''manual'')"

definition compared_artifacts :: "Component \<Rightarrow> ArtifactRef list" where
  "compared_artifacts component =
     filter (\<lambda>artifact. \<not> (c_kind component \<in> {EnvironmentVariable, ComponentKind.SecretReference}
                           \<and> art_policy artifact = ArtifactPolicy.SecretReference)) (c_artifacts component)"

definition compare_artifact :: "Component \<Rightarrow> bool \<Rightarrow> ArtifactRef \<Rightarrow> diff_state \<Rightarrow> diff_state" where
  "compare_artifact component target_present artifact st =
     (case artifact_policy_row (art_policy artifact) of (kind, backup, sfx) \<Rightarrow>
      let st = (if target_present
                then push_conflict (classify_conflict (Some (c_id component)) kind
                       (''selected artifact '' @ art_id artifact)
                       ''matching target component may already own the destination''
                       (sfx @ ''-'' @ art_id artifact) None) st
                else st)
      in if backup
         then push_backup
                \<lparr>br_component = c_id component, br_target = Artifact (art_id artifact) (art_source_path artifact),
                 br_reason = (if target_present
                   then ''Back up an existing target artifact before an approved change''
                   else ''Guard the destination and back it up if it exists before writing'')\<rparr> st
         else st)"

definition compare_artifacts :: "Component \<Rightarrow> bool \<Rightarrow> diff_state \<Rightarrow> diff_state" where
  "compare_artifacts component target_present = fold (compare_artifact component target_present) (compared_artifacts component)"

definition compare_presence ::
  "(str \<Rightarrow> ObjectId) \<Rightarrow> TargetFacts \<Rightarrow> Component \<Rightarrow> diff_state \<Rightarrow> bool \<times> diff_state" where
  "compare_presence content_id target component =
     (if c_kind component = Runtime then compare_runtime target component
      else if c_kind component = EnvironmentVariable then compare_environment content_id target component
      else if c_kind component = ComponentKind.SecretReference then compare_secret target component
      else compare_installed target component)"

record PendingComponentDiff =
  pcd_component :: ComponentId
  pcd_target_present :: bool

definition compare_component ::
  "(str \<Rightarrow> ObjectId) \<Rightarrow> TargetFacts \<Rightarrow> Component \<Rightarrow> PendingComponentDiff list \<times> diff_state
   \<Rightarrow> PendingComponentDiff list \<times> diff_state" where
  "compare_component content_id target component = (\<lambda>(states, st).
     case compare_presence content_id target component st of (target_present, st) \<Rightarrow>
     (states @ [\<lparr>pcd_component = c_id component, pcd_target_present = target_present\<rparr>],
      compare_artifacts component target_present
        (compare_supported_state component (compare_architecture target component st))))"

subsection \<open>Required dependencies\<close>

fun dependency_kind_rank :: "DependencyKind \<Rightarrow> nat" where
  "dependency_kind_rank RequiredRuntime = 0"
| "dependency_kind_rank RequiredPackage = 1"
| "dependency_kind_rank InstalledThrough = 2"
| "dependency_kind_rank Configures = 3"
| "dependency_kind_rank UsesSecret = 4"
| "dependency_kind_rank OptionalFeature = 5"
| "dependency_kind_rank ProvidesExecutable = 6"
| "dependency_kind_rank Contains = 7"
| "dependency_kind_rank RestoresBefore = 8"
| "dependency_kind_rank VerifiesWith = 9"
| "dependency_kind_rank RelatedOnly = 10"

definition dependency_conflict :: "DependencyEdge \<Rightarrow> ClassifiedConflict" where
  "dependency_conflict edge =
     classify_conflict (Some (edge_from edge)) DependencyConflict (''component requires '' @ edge_to edge)
       ''required dependency is unavailable or blocked'' (edge_to edge) None"

text \<open>\<^verbatim>\<open>dedup_by\<close> on a key: of a run of equal keys the first element stays.\<close>

fun dedup_by_key :: "('a \<Rightarrow> 'k) \<Rightarrow> 'a list \<Rightarrow> 'a list" where
  "dedup_by_key k (x # y # ys) =
     (if k x = k y then dedup_by_key k (x # ys) else x # dedup_by_key k (y # ys))"
| "dedup_by_key k xs = xs"

definition graph_edges :: "PackageGraph \<Rightarrow> DependencyEdge list" where
  "graph_edges graph = g_edges graph @ concat (map c_dependencies (g_components graph))"

definition required_edges :: "PackageGraph \<Rightarrow> DependencyEdge list" where
  "required_edges graph =
     dedup_by_key (\<lambda>edge. (edge_from edge, edge_to edge, edge_kind edge))
       (sort_key (\<lambda>edge. (edge_from edge, edge_to edge, dependency_kind_rank (edge_kind edge)))
          (filter edge_required (graph_edges graph)))"

text \<open>One edge of a round, one round, and the rounds until nothing changes.\<close>

record propagation =
  pg_changed :: bool
  pg_blocked :: "ComponentId set"
  pg_conflicts :: "ClassifiedConflict list"

definition propagate_edge :: "ComponentId set \<Rightarrow> DependencyEdge \<Rightarrow> propagation \<Rightarrow> propagation" where
  "propagate_edge component_ids edge pg =
     (if edge_from edge \<notin> component_ids \<or> edge_to edge \<notin> component_ids \<or> edge_to edge \<in> pg_blocked pg
      then let conflict = dependency_conflict edge in
        \<lparr>pg_changed = (pg_changed pg \<or> edge_from edge \<notin> pg_blocked pg),
         pg_blocked = insert (edge_from edge) (pg_blocked pg),
         pg_conflicts =
           (if list_ex (\<lambda>existing. cf_id (cc_conflict existing) = cf_id (cc_conflict conflict)) (pg_conflicts pg)
            then pg_conflicts pg else pg_conflicts pg @ [conflict])\<rparr>
      else pg)"

definition propagate_round :: "ComponentId set \<Rightarrow> DependencyEdge list \<Rightarrow> propagation \<Rightarrow> propagation" where
  "propagate_round component_ids edges pg = fold (propagate_edge component_ids) edges (pg\<lparr>pg_changed := False\<rparr>)"

lemma propagate_edge_blocked:
  "pg_blocked pg \<subseteq> pg_blocked (propagate_edge ids edge pg)"
  "pg_blocked (propagate_edge ids edge pg) \<subseteq> insert (edge_from edge) (pg_blocked pg)"
  "pg_changed (propagate_edge ids edge pg) \<longleftrightarrow> pg_changed pg \<or> pg_blocked (propagate_edge ids edge pg) \<noteq> pg_blocked pg"
  by (auto simp: propagate_edge_def Let_def)

lemma propagate_fold_blocked:
  "pg_blocked pg \<subseteq> pg_blocked (fold (propagate_edge ids) edges pg)"
  "pg_blocked (fold (propagate_edge ids) edges pg) \<subseteq> edge_from ` set edges \<union> pg_blocked pg"
  "pg_changed (fold (propagate_edge ids) edges pg)
     \<longleftrightarrow> pg_changed pg \<or> pg_blocked (fold (propagate_edge ids) edges pg) \<noteq> pg_blocked pg"
proof (induction edges arbitrary: pg)
  case (Cons edge edges)
  note step = propagate_edge_blocked [where ids = ids and edge = edge]
  { case 1 show ?case using order_trans [OF step(1) Cons.IH(1)] by simp }
  { case 2 show ?case using step(2) [of pg] Cons.IH(2) [of "propagate_edge ids edge pg"] by auto }
  { case 3
    have "pg_blocked (fold (propagate_edge ids) edges (propagate_edge ids edge pg)) = pg_blocked pg
        \<Longrightarrow> pg_blocked (propagate_edge ids edge pg) = pg_blocked pg"
      using step(1) [of pg] Cons.IH(1) [of "propagate_edge ids edge pg"] by blast
    then show ?case using step(3) [of pg] Cons.IH(3) [of "propagate_edge ids edge pg"] by auto }
qed simp_all

lemma propagate_round_blocked:
  "pg_blocked pg \<subseteq> pg_blocked (propagate_round ids edges pg)"
  "pg_blocked (propagate_round ids edges pg) \<subseteq> edge_from ` set edges \<union> pg_blocked pg"
  "pg_changed (propagate_round ids edges pg) \<longleftrightarrow> pg_blocked (propagate_round ids edges pg) \<noteq> pg_blocked pg"
  using propagate_fold_blocked [where pg = "pg\<lparr>pg_changed := False\<rparr>" and ids = ids and edges = edges] by (simp_all add: propagate_round_def)

function propagate :: "ComponentId set \<Rightarrow> DependencyEdge list \<Rightarrow> propagation \<Rightarrow> propagation" where
  "propagate component_ids edges pg =
     (let pg' = propagate_round component_ids edges pg
      in if pg_changed pg' then propagate component_ids edges pg' else pg')"
  by pat_completeness auto
termination
proof (relation "measure (\<lambda>(ids, edges, pg). card (edge_from ` set edges - pg_blocked pg))")
  fix ids edges and pg pg' :: propagation
  assume pg': "pg' = propagate_round ids edges pg" and changed: "pg_changed pg'"
  have "edge_from ` set edges - pg_blocked pg' \<subset> edge_from ` set edges - pg_blocked pg"
    using propagate_round_blocked [where pg = pg and ids = ids and edges = edges] changed pg' by blast
  then show "((ids, edges, pg'), (ids, edges, pg)) \<in> measure (\<lambda>(ids, edges, pg). card (edge_from ` set edges - pg_blocked pg))"
    by (simp add: psubset_card_mono)
qed simp

declare propagate.simps [simp del]

definition add_dependency_conflicts ::
  "PackageGraph \<Rightarrow> PendingComponentDiff list \<Rightarrow> ClassifiedConflict list \<Rightarrow> ClassifiedConflict list" where
  "add_dependency_conflicts graph states conflicts =
     pg_conflicts (propagate (set (map pcd_component states)) (required_edges graph)
       \<lparr>pg_changed = False,
        pg_blocked = set (List.map_filter (\<lambda>c. cf_component (cc_conflict c)) (filter cc_blocks_planning conflicts)),
        pg_conflicts = conflicts\<rparr>)"

subsection \<open>Validation and the whole comparison\<close>

definition MAX_DIFF_COMPONENTS :: nat where "MAX_DIFF_COMPONENTS = 250000"
definition MAX_DIFF_EDGES :: nat where "MAX_DIFF_EDGES = 1000000"
definition MAX_DIFF_ARTIFACTS :: nat where "MAX_DIFF_ARTIFACTS = 1000000"

definition validate_artifact :: "ArtifactRef \<Rightarrow> ArtifactId set \<Rightarrow> ArtifactId set restore" where
  "validate_artifact artifact artifact_ids =
     (if art_id artifact \<in> artifact_ids then Inl (diff_error ''package graph contains duplicate artifact IDs'')
      else case PathToken_validate (art_source_path artifact) of
        Inl _ \<Rightarrow> Inl (diff_error ''package graph contains an invalid artifact path'')
      | Inr _ \<Rightarrow> Inr (insert (art_id artifact) artifact_ids))"

definition validate_component ::
  "Component \<Rightarrow> ComponentId set \<times> ArtifactId set \<times> nat \<Rightarrow> (ComponentId set \<times> ArtifactId set \<times> nat) restore" where
  "validate_component component = (\<lambda>(component_ids, artifact_ids, artifact_count).
     if c_id component \<in> component_ids then Inl (diff_error ''package graph contains duplicate component IDs'')
     else
     try_bind (ok_or (diff_error ''package graph artifact count overflow'')
                 (checked_add_u64 artifact_count (length (c_artifacts component)))) (\<lambda>artifact_count.
     if artifact_count > MAX_DIFF_ARTIFACTS
     then Inl (diff_error ''package graph exceeds the reviewed artifact bound'')
     else try_bind (try_fold validate_artifact (c_artifacts component) artifact_ids) (\<lambda>artifact_ids.
          Inr (insert (c_id component) component_ids, artifact_ids, artifact_count))))"

definition validate_variable :: "EnvironmentFact \<Rightarrow> (nat \<times> str) set \<Rightarrow> (nat \<times> str) set restore" where
  "validate_variable variable keys =
     try_bind (ok_or (diff_error ''target contains an invalid environment variable name'')
                 (normalize_environment_name (ef_name variable))) (\<lambda>name.
     try_bind (case ef_value_hash variable of
                 None \<Rightarrow> Inr ()
               | Some hash \<Rightarrow>
                   (case ObjectId_new hash of
                      Inl _ \<Rightarrow> Inl (diff_error ''target contains an invalid environment value hash'')
                    | Inr _ \<Rightarrow> Inr ())) (\<lambda>_.
     if (scope_rank (ef_scope variable), name) \<in> keys
     then Inl (diff_error ''target contains duplicate environment facts'')
     else Inr (insert (scope_rank (ef_scope variable), name) keys)))"

definition embedded_edge_count :: "PackageGraph \<Rightarrow> nat restore" where
  "embedded_edge_count graph =
     try_fold (\<lambda>component count.
         ok_or (diff_error ''package graph edge count overflow'') (checked_add_u64 count (length (c_dependencies component))))
       (g_components graph) 0"

definition validate_inputs :: "PackageGraph \<Rightarrow> TargetFacts \<Rightarrow> unit restore" where
  "validate_inputs graph target =
     (if length (g_components graph) > MAX_DIFF_COMPONENTS
      then Inl (diff_error ''package graph exceeds the reviewed component bound'')
      else
      try_bind (embedded_edge_count graph) (\<lambda>embedded.
      try_bind (ok_or (diff_error ''package graph edge count overflow'')
                  (checked_add_u64 (length (g_edges graph)) embedded)) (\<lambda>total_edges.
      if total_edges > MAX_DIFF_EDGES then Inl (diff_error ''package graph exceeds the reviewed edge bound'')
      else
      try_bind (try_fold validate_component (g_components graph) ({}, {}, 0)) (\<lambda>(component_ids, _, _).
      try_bind (try_all (\<lambda>edge.
                  if edge_from edge \<notin> component_ids \<or> edge_to edge \<notin> component_ids
                  then Inl (diff_error ''package graph edge references a missing component'')
                  else Inr ()) (graph_edges graph)) (\<lambda>_.
      try_bind (try_fold validate_variable (tf_environment target) {}) (\<lambda>_. Inr ()))))))"

fun debug_resolution :: "ConflictResolution \<Rightarrow> str" where
  "debug_resolution ConflictResolution.Skip = ''Skip''"
| "debug_resolution ConflictResolution.Install = ''Install''"
| "debug_resolution ConflictResolution.Replace = ''Replace''"
| "debug_resolution ConflictResolution.Merge = ''Merge''"
| "debug_resolution ConflictResolution.PreserveTarget = ''PreserveTarget''"
| "debug_resolution ConflictResolution.Manual = ''Manual''"

definition diff_warnings :: "ClassifiedConflict list \<Rightarrow> str list" where
  "diff_warnings conflicts =
     map (\<lambda>c. cf_id (cc_conflict c) @ '' requires '' @ debug_resolution (cf_resolution (cc_conflict c)))
       (filter (\<lambda>c. cf_kind (cc_conflict c) \<noteq> AlreadySatisfied)
          (filter (\<lambda>c. \<not> cc_blocks_planning c) conflicts))"

text \<open>The derived \<^verbatim>\<open>Debug\<close> of a string: quotes, backslashes and ASCII control characters are escaped;
  bytes beyond ASCII are kept.\<close>

definition hex_digit :: "nat \<Rightarrow> char" where
  "hex_digit n = (if n < 10 then char_of (48 + n) else char_of (87 + n))"

definition debug_char :: "char \<Rightarrow> str" where
  "debug_char c =
     (if c = CHR 0x22 \<or> c = CHR 0x5C then [CHR 0x5C, c]
      else if code c = 9 then [CHR 0x5C, CHR ''t'']
      else if code c = 10 then [CHR 0x5C, CHR ''n'']
      else if code c = 13 then [CHR 0x5C, CHR ''r'']
      else if code c = 0 then [CHR 0x5C, CHR ''0'']
      else if code c < 32 \<or> code c = 127
      then [CHR 0x5C] @ ''u{'' @ (if code c < 16 then [] else [hex_digit (code c div 16)]) @ [hex_digit (code c mod 16)] @ ''}''
      else [c])"

fun debug_root :: "KnownFolderToken \<Rightarrow> str" where
  "debug_root UserProfile = ''UserProfile''"
| "debug_root RoamingAppData = ''RoamingAppData''"
| "debug_root LocalAppData = ''LocalAppData''"
| "debug_root ProgramData = ''ProgramData''"
| "debug_root ProgramFiles = ''ProgramFiles''"
| "debug_root ProgramFilesX86 = ''ProgramFilesX86''"
| "debug_root StartMenu = ''StartMenu''"
| "debug_root Startup = ''Startup''"
| "debug_root Desktop = ''Desktop''"
| "debug_root Documents = ''Documents''"
| "debug_root (UserSelected label) = ''UserSelected { id: '' @ [CHR 0x22] @ concat (map debug_char label) @ [CHR 0x22] @ '' }''"

fun debug_scope :: "ConfigScope \<Rightarrow> str" where
  "debug_scope Process = ''Process''"
| "debug_scope ConfigScope.User = ''User''"
| "debug_scope System = ''System''"
| "debug_scope Project = ''Project''"
| "debug_scope Managed = ''Managed''"

definition backup_key :: "BackupRequirement \<Rightarrow> str \<times> str" where
  "backup_key requirement =
     (br_component requirement,
      case br_target requirement of
        Artifact artifact path \<Rightarrow> ''artifact:'' @ artifact @ '':'' @ debug_root (pt_root path) @ '':'' @ pt_relative path
      | Environment scope name \<Rightarrow> ''environment:'' @ debug_scope scope @ '':'' @ name)"

definition disposition :: "bool \<Rightarrow> Conflict list \<Rightarrow> str list \<Rightarrow> ComponentDisposition" where
  "disposition target_present conflicts blocking_ids =
     (if list_ex (\<lambda>c. binary_search blocking_ids (cf_id c) \<noteq> None) conflicts then Blocked
      else if list_ex (\<lambda>c. cf_resolution c = ConflictResolution.Manual) conflicts then Manual
      else if list_ex (\<lambda>c. cf_resolution c = ConflictResolution.PreserveTarget) conflicts then PreserveTarget
      else if list_ex (\<lambda>c. cf_resolution c = ConflictResolution.Merge) conflicts then Merge
      else if list_ex (\<lambda>c. cf_resolution c = ConflictResolution.Install) conflicts then Install
      else if target_present then Skip else Install)"

definition finish_component :: "Conflict list \<Rightarrow> str list \<Rightarrow> PendingComponentDiff \<Rightarrow> ComponentDiff" where
  "finish_component conflicts blocking_ids pending =
     (let own = filter (\<lambda>c. cf_component c = Some (pcd_component pending)) conflicts in
      \<lparr>cd_component = pcd_component pending,
       cd_disposition = disposition (pcd_target_present pending) own blocking_ids,
       cd_target_present = pcd_target_present pending, cd_conflict_ids = map cf_id own\<rparr>)"

text \<open>The elements of a list whose position is not in a set.\<close>

definition unused :: "nat set \<Rightarrow> 'a list \<Rightarrow> 'a list" where
  "unused used xs = map snd (filter (\<lambda>(index, _). index \<notin> used) (enumerate 0 xs))"

definition compare_components ::
  "(str \<Rightarrow> ObjectId) \<Rightarrow> PackageGraph \<Rightarrow> TargetFacts \<Rightarrow> PendingComponentDiff list \<times> diff_state" where
  "compare_components content_id graph target =
     fold (compare_component content_id target) (sort_key c_id (g_components graph))
       ([], \<lparr>ds_used_installed = {}, ds_used_runtimes = {}, ds_used_environment = {}, ds_conflicts = [], ds_backups = []\<rparr>)"

definition final_conflicts :: "PackageGraph \<Rightarrow> PendingComponentDiff list \<times> diff_state \<Rightarrow> ClassifiedConflict list" where
  "final_conflicts graph = (\<lambda>(states, st).
     dedup_by_key (\<lambda>c. cf_id (cc_conflict c))
       (sort_key (\<lambda>c. cf_id (cc_conflict c)) (add_dependency_conflicts graph states (ds_conflicts st))))"

definition compare :: "(str \<Rightarrow> ObjectId) \<Rightarrow> PackageGraph \<Rightarrow> TargetFacts \<Rightarrow> TargetDiff restore" where
  "compare content_id graph target =
     try_bind (validate_inputs graph target) (\<lambda>_.
     let (states, st) = compare_components content_id graph target;
         classified = final_conflicts graph (states, st);
         conflicts = map cc_conflict classified;
         blocking = map (\<lambda>c. cf_id (cc_conflict c)) (filter cc_blocks_planning classified)
     in Inr \<lparr>td_components = map (finish_component conflicts blocking) states,
             td_conflicts = conflicts,
             td_blocking_conflict_ids = blocking,
             td_backup_requirements = remdups_adj (sort_key backup_key (ds_backups st)),
             td_preserved_target = unused (ds_used_installed st) (tf_installed target),
             td_preserved_runtimes = unused (ds_used_runtimes st) (tf_runtimes target),
             td_preserved_environment = unused (ds_used_environment st) (tf_environment target),
             td_warnings = diff_warnings classified\<rparr>)"

end
