(* ===== verification/Trust.thy ===== *)
theory Trust
  imports Errors Ids
begin

text \<open>
  Package signatures and the explicit trust decision, \<^verbatim>\<open>crates/reforge-package/src/signature.rs\<close>.
  The Ed25519 library, BLAKE3 and the canonical encoding of the signature metadata are the fields of
  \<open>signature_env\<close>; \<open>ed25519_laws\<close> is what the code relies on.
\<close>

subsection \<open>Trust\<close>

datatype TrustState =
    Unchecked | IntegrityVerified | Unsigned | SignatureInvalid | SignatureValidUntrusted
  | SignatureValidTrusted | UserApproved | Rejected

datatype TrustDecision = Approve | Reject

definition package_untrusted :: "str \<Rightarrow> ErrorEnvelope" where
  "package_untrusted message = ErrorEnvelope_new PackageUntrusted message"

definition signature_schema_error :: "str \<Rightarrow> ErrorEnvelope" where
  "signature_schema_error message = ErrorEnvelope_new PackageCorrupt message"

definition signature_security_error :: "str \<Rightarrow> ErrorEnvelope" where
  "signature_security_error message = ErrorEnvelope_new SecurityPolicy message"

fun apply_trust_decision :: "TrustState \<Rightarrow> TrustDecision \<Rightarrow> (ErrorEnvelope, TrustState) result" where
  "apply_trust_decision current Reject = Inr TrustState.Rejected"
| "apply_trust_decision Unsigned Approve = Inr UserApproved"
| "apply_trust_decision SignatureValidUntrusted Approve = Inr UserApproved"
| "apply_trust_decision SignatureValidTrusted Approve = Inr UserApproved"
| "apply_trust_decision UserApproved Approve = Inr UserApproved"
| "apply_trust_decision Unchecked Approve =
     Inl (package_untrusted ''Package signature state must be resolved before approval'')"
| "apply_trust_decision IntegrityVerified Approve =
     Inl (package_untrusted ''Package signature state must be resolved before approval'')"
| "apply_trust_decision SignatureInvalid Approve =
     Inl (package_untrusted ''A package with an invalid signature cannot be approved'')"
| "apply_trust_decision TrustState.Rejected Approve =
     Inl (package_untrusted ''A rejected package cannot be approved in the current load'')"

definition require_plan_approval :: "TrustState \<Rightarrow> (ErrorEnvelope, unit) result" where
  "require_plan_approval trust =
     (if trust = UserApproved then Inr ()
      else Inl (package_untrusted ''Package requires explicit trust approval before planning''))"

subsection \<open>Fingerprints and metadata\<close>

definition SIGNATURE_FORMAT_VERSION :: nat where "SIGNATURE_FORMAT_VERSION = 1"
definition SIGNATURE_ALGORITHM :: str where "SIGNATURE_ALGORITHM = ''ED25519''"
definition SIGNATURE_COVERAGE :: str where "SIGNATURE_COVERAGE = ''REFORGE_PACKAGE_MANIFEST_AND_OBJECT_INDEX_V1''"
definition SIGNATURE_DOMAIN :: bytes where "SIGNATURE_DOMAIN = map of_char ''REFORGE-PACKAGE-SIGNATURE-V1'' @ [0]"
definition PUBLIC_KEY_BYTES :: nat where "PUBLIC_KEY_BYTES = 32"
definition SIGNATURE_BYTES :: nat where "SIGNATURE_BYTES = 64"
definition FINGERPRINT_PREFIX :: str where "FINGERPRINT_PREFIX = ''ed25519_''"
definition FINGERPRINT_HEX_BYTES :: nat where "FINGERPRINT_HEX_BYTES = 64"

type_synonym PublicKeyFingerprint = str

definition PublicKeyFingerprint_new :: "str \<Rightarrow> (ErrorEnvelope, PublicKeyFingerprint) result" where
  "PublicKeyFingerprint_new v =
     (case strip_prefix v FINGERPRINT_PREFIX of
        None \<Rightarrow> Inl (signature_schema_error ''signer fingerprint prefix is invalid'')
      | Some hex \<Rightarrow>
          if length hex \<noteq> FINGERPRINT_HEX_BYTES
             \<or> \<not> list_all (\<lambda>c. is_ascii_digit c \<or> 97 \<le> code c \<and> code c \<le> 102) hex
          then Inl (signature_schema_error ''signer fingerprint is invalid'') else Inr v)"

record SignatureMetadata =
  sgm_algorithm :: str
  sgm_coverage :: str
  sgm_format_version :: nat
  sgm_public_key :: bytes
  sgm_public_key_fingerprint :: PublicKeyFingerprint

text \<open>
  The cryptography and the serialization the code calls: a digest, the public key of a signing key
  and its signatures, whether bytes are a verifying key, strict verification, the JSON reader of the
  metadata and its canonical encoding.
\<close>

record 'sk signature_env =
  sge_blake3 :: "bytes \<Rightarrow> bytes"
  sge_verifying_key :: "'sk \<Rightarrow> bytes"
  sge_sign :: "'sk \<Rightarrow> bytes \<Rightarrow> bytes"
  sge_key_valid :: "bytes \<Rightarrow> bool"
  sge_verify_strict :: "bytes \<Rightarrow> bytes \<Rightarrow> bytes \<Rightarrow> bool"
  sge_parse_metadata :: "bytes \<Rightarrow> SignatureMetadata option"
  sge_canonical_metadata :: "SignatureMetadata \<Rightarrow> (ErrorEnvelope, bytes) result"

definition from_public_key :: "'sk signature_env \<Rightarrow> bytes \<Rightarrow> PublicKeyFingerprint" where
  "from_public_key env key = FINGERPRINT_PREFIX @ to_hex (sge_blake3 env key)"

definition from_signing_key :: "'sk signature_env \<Rightarrow> 'sk \<Rightarrow> SignatureMetadata" where
  "from_signing_key env signing_key =
     (let key = sge_verifying_key env signing_key in
      \<lparr>sgm_algorithm = SIGNATURE_ALGORITHM, sgm_coverage = SIGNATURE_COVERAGE,
       sgm_format_version = SIGNATURE_FORMAT_VERSION, sgm_public_key = key,
       sgm_public_key_fingerprint = from_public_key env key\<rparr>)"

definition validate_metadata :: "'sk signature_env \<Rightarrow> SignatureMetadata \<Rightarrow> (ErrorEnvelope, bytes) result" where
  "validate_metadata env metadata =
     (if sgm_format_version metadata \<noteq> SIGNATURE_FORMAT_VERSION
      then Inl (ErrorEnvelope_new UnsupportedVersion ''Package signature format version is unsupported'')
      else if sgm_algorithm metadata \<noteq> SIGNATURE_ALGORITHM \<or> sgm_coverage metadata \<noteq> SIGNATURE_COVERAGE
      then Inl (signature_schema_error ''package signature algorithm or coverage is unsupported'')
      else if sgm_public_key_fingerprint metadata \<noteq> from_public_key env (sgm_public_key metadata)
      then Inl (signature_schema_error ''package signer fingerprint does not match its public key'')
      else if sge_key_valid env (sgm_public_key metadata) then Inr (sgm_public_key metadata)
      else Inl (signature_schema_error ''package signer public key is invalid''))"

subsection \<open>Signatures\<close>

record PackageSignature =
  sig_metadata :: SignatureMetadata
  sig_metadata_bytes :: bytes
  sig_signature :: bytes

text \<open>\<^verbatim>\<open>u64::to_le_bytes\<close>\<close>

fun le_bytes :: "nat \<Rightarrow> nat \<Rightarrow> bytes" where
  "le_bytes 0 n = []"
| "le_bytes (Suc k) n = n mod 256 # le_bytes k (n div 256)"

definition signature_coverage_bytes :: "bytes \<Rightarrow> bytes \<Rightarrow> (ErrorEnvelope, bytes) result" where
  "signature_coverage_bytes manifest object_index =
     (if length manifest > u64_max
      then Inl (signature_security_error ''manifest length cannot be represented'')
      else if length object_index > u64_max
      then Inl (signature_security_error ''object-index length cannot be represented'')
      else
      try_bind (ok_or (signature_security_error ''signature coverage length overflow'')
        (Option.bind (Option.bind (Option.bind (checked_add_u64 (length SIGNATURE_DOMAIN) 8)
           (\<lambda>n. checked_add_u64 n (length manifest))) (\<lambda>n. checked_add_u64 n 8))
           (\<lambda>n. checked_add_u64 n (length object_index)))) (\<lambda>_.
      Inr (SIGNATURE_DOMAIN @ le_bytes 8 (length manifest) @ manifest
             @ le_bytes 8 (length object_index) @ object_index)))"

definition sign_canonical :: "'sk signature_env \<Rightarrow> 'sk \<Rightarrow> bytes \<Rightarrow> bytes \<Rightarrow> (ErrorEnvelope, PackageSignature) result" where
  "sign_canonical env signing_key manifest object_index =
     (let metadata = from_signing_key env signing_key in
     try_bind (sge_canonical_metadata env metadata) (\<lambda>metadata_bytes.
     try_bind (signature_coverage_bytes manifest object_index) (\<lambda>coverage.
     Inr \<lparr>sig_metadata = metadata, sig_metadata_bytes = metadata_bytes,
          sig_signature = sge_sign env signing_key coverage\<rparr>)))"

definition from_entries :: "'sk signature_env \<Rightarrow> bytes \<Rightarrow> bytes \<Rightarrow> (ErrorEnvelope, PackageSignature) result" where
  "from_entries env metadata_bytes signature_bytes =
     try_bind (ok_or (signature_schema_error ''package signature metadata is invalid'')
       (sge_parse_metadata env metadata_bytes)) (\<lambda>metadata.
     try_bind (validate_metadata env metadata) (\<lambda>_.
     case sge_canonical_metadata env metadata of
       Inl _ \<Rightarrow> Inl (signature_schema_error ''package signature metadata is invalid'')
     | Inr canonical \<Rightarrow>
         if canonical \<noteq> metadata_bytes
         then Inl (signature_schema_error ''package signature metadata is not canonical'')
         else if length signature_bytes \<noteq> SIGNATURE_BYTES
         then Inl (signature_schema_error ''package signature must contain exactly 64 bytes'')
         else Inr \<lparr>sig_metadata = metadata, sig_metadata_bytes = metadata_bytes,
                   sig_signature = signature_bytes\<rparr>))"

definition verify_canonical :: "'sk signature_env \<Rightarrow> PackageSignature \<Rightarrow> bytes \<Rightarrow> bytes \<Rightarrow> (ErrorEnvelope, bool) result" where
  "verify_canonical env signature manifest object_index =
     try_bind (validate_metadata env (sig_metadata signature)) (\<lambda>verifying_key.
     try_bind (signature_coverage_bytes manifest object_index) (\<lambda>coverage.
     Inr (sge_verify_strict env verifying_key coverage (sig_signature signature))))"

definition trust_state_for_canonical ::
  "'sk signature_env \<Rightarrow> PackageSignature \<Rightarrow> bytes \<Rightarrow> bytes \<Rightarrow> PublicKeyFingerprint option
   \<Rightarrow> (ErrorEnvelope, TrustState) result" where
  "trust_state_for_canonical env signature manifest object_index trusted_signer =
     try_bind (verify_canonical env signature manifest object_index) (\<lambda>verified.
     Inr (if \<not> verified then SignatureInvalid
          else if trusted_signer = Some (sgm_public_key_fingerprint (sig_metadata signature))
          then SignatureValidTrusted else SignatureValidUntrusted))"

text \<open>The trust of a package at load time, and the user's decisions on it afterwards.\<close>

definition package_trust ::
  "'sk signature_env \<Rightarrow> PackageSignature option \<Rightarrow> bytes \<Rightarrow> bytes \<Rightarrow> PublicKeyFingerprint option
   \<Rightarrow> (ErrorEnvelope, TrustState) result" where
  "package_trust env signature manifest object_index trusted_signer =
     (case signature of
        Some signature \<Rightarrow> trust_state_for_canonical env signature manifest object_index trusted_signer
      | None \<Rightarrow> Inr Unsigned)"

definition decide_trust :: "TrustState \<Rightarrow> TrustDecision \<Rightarrow> (ErrorEnvelope, unit) result \<times> TrustState" where
  "decide_trust trust decision =
     (case apply_trust_decision trust decision of
        Inl e \<Rightarrow> (Inl e, trust)
      | Inr trust' \<Rightarrow> (Inr (), trust'))"

subsection \<open>Lemmas\<close>

text \<open>What the code relies on of the signature scheme and of the metadata codec.\<close>

definition ed25519_laws :: "'sk signature_env \<Rightarrow> bool" where
  "ed25519_laws env \<longleftrightarrow>
     (\<forall>sk. sge_key_valid env (sge_verifying_key env sk))
     \<and> (\<forall>sk message. sge_verify_strict env (sge_verifying_key env sk) message (sge_sign env sk message))
     \<and> (\<forall>sk message. length (sge_sign env sk message) = SIGNATURE_BYTES)
     \<and> (\<forall>metadata bs. sge_canonical_metadata env metadata = Inr bs \<longrightarrow> sge_parse_metadata env bs = Some metadata)"

lemma length_le_bytes [simp]: "length (le_bytes k n) = k"
  by (induction k n rule: le_bytes.induct) auto

lemma le_bytes_inj: "a < 256 ^ k \<Longrightarrow> b < 256 ^ k \<Longrightarrow> le_bytes k a = le_bytes k b \<Longrightarrow> a = b"
proof (induction k arbitrary: a b)
  case (Suc k)
  then have "a div 256 < 256 ^ k" "b div 256 < 256 ^ k" by (simp_all add: less_mult_imp_div_less mult.commute)
  with Suc have "a div 256 = b div 256" "a mod 256 = b mod 256" by auto
  then show ?case by (metis div_mult_mod_eq)
qed simp

lemma coverage_Inr:
  "signature_coverage_bytes manifest object_index = Inr coverage \<longleftrightarrow>
     length SIGNATURE_DOMAIN + 16 + length manifest + length object_index \<le> u64_max
     \<and> coverage = SIGNATURE_DOMAIN @ le_bytes 8 (length manifest) @ manifest @ le_bytes 8 (length object_index) @ object_index"
  by (auto simp: signature_coverage_bytes_def result_simps checked_add_u64_def split: option.splits if_splits bind_splits)

text \<open>The trust after a sequence of decisions, refused ones included.\<close>

definition decided :: "TrustState \<Rightarrow> TrustDecision list \<Rightarrow> TrustState" where
  "decided = foldl (\<lambda>trust decision. snd (decide_trust trust decision))"

lemma decided_approved:
  "decided trust decisions = UserApproved \<longleftrightarrow>
     (if decisions = [] then trust = UserApproved
      else trust \<in> {Unsigned, SignatureValidUntrusted, SignatureValidTrusted, UserApproved} \<and> list_all ((=) Approve) decisions)"
proof (induction decisions arbitrary: trust)
  case (Cons decision decisions)
  have "decided trust (decision # decisions) = decided (snd (decide_trust trust decision)) decisions" by (simp add: decided_def)
  with Cons [of "snd (decide_trust trust decision)"] show ?case
    by (cases "(trust, decision)" rule: apply_trust_decision.cases) (auto simp: decide_trust_def)
qed (simp add: decided_def)

lemma package_trust_loaded:
  "package_trust env signature manifest object_index trusted = Inr loaded \<Longrightarrow>
     loaded \<in> {Unsigned, SignatureInvalid, SignatureValidUntrusted, SignatureValidTrusted}"
  by (auto simp: package_trust_def trust_state_for_canonical_def result_simps split: option.splits if_splits)

subsection \<open>Properties\<close>

text \<open>The message that is signed determines both documents: no manifest and object index share
  their signature coverage with any other pair.\<close>

theorem signature_coverage_injective:
  assumes "signature_coverage_bytes manifest object_index = Inr coverage"
    and "signature_coverage_bytes manifest' object_index' = Inr coverage"
  shows "manifest = manifest' \<and> object_index = object_index'"
proof -
  have small: "u64_max < 256 ^ 8" by (simp add: u64_max_def)
  have "le_bytes 8 (length manifest) @ manifest @ le_bytes 8 (length object_index) @ object_index
      = le_bytes 8 (length manifest') @ manifest' @ le_bytes 8 (length object_index') @ object_index'"
    and lens: "length manifest \<le> u64_max" "length manifest' \<le> u64_max"
    using assms by (auto simp: coverage_Inr)
  then have "le_bytes 8 (length manifest) = le_bytes 8 (length manifest')"
    and rest: "manifest @ le_bytes 8 (length object_index) @ object_index
      = manifest' @ le_bytes 8 (length object_index') @ object_index'" by (simp_all add: append_eq_append_conv)
  then have "length manifest = length manifest'" using le_bytes_inj lens small by (meson le_less_trans)
  with rest show ?thesis by (simp add: append_eq_append_conv)
qed

theorem signature_coverage_injective_witness:
  "\<exists>coverage. signature_coverage_bytes [1, 2] [3] = Inr coverage \<and> signature_coverage_bytes [1] [2, 3] \<noteq> Inr coverage"
  using signature_coverage_injective [of "[1, 2]" "[3]" _ "[1]" "[2, 3]"]
  by (auto simp: coverage_Inr u64_max_def SIGNATURE_DOMAIN_def)

text \<open>C23. A loaded package can be planned exactly when the user approved it explicitly and never
  rejected it, refused decisions included; a package whose signature is invalid can not be planned whatever is decided.\<close>

theorem plan_approval_is_explicit:
  assumes "package_trust env signature manifest object_index trusted = Inr loaded"
  shows "require_plan_approval (foldl (\<lambda>trust decision. snd (decide_trust trust decision)) loaded decisions) = Inr ()
     \<longleftrightarrow> loaded \<noteq> SignatureInvalid \<and> decisions \<noteq> [] \<and> list_all ((=) Approve) decisions"
  using package_trust_loaded [OF assms] decided_approved [of loaded decisions]
  by (auto simp: require_plan_approval_def decided_def)

definition sample_signature_env :: "unit signature_env" where
  "sample_signature_env =
     (let key = replicate 32 7; fingerprint = FINGERPRINT_PREFIX @ to_hex (replicate 32 0);
          metadata = \<lparr>sgm_algorithm = SIGNATURE_ALGORITHM, sgm_coverage = SIGNATURE_COVERAGE,
            sgm_format_version = SIGNATURE_FORMAT_VERSION, sgm_public_key = key, sgm_public_key_fingerprint = fingerprint\<rparr>
      in \<lparr>sge_blake3 = \<lambda>_. replicate 32 0, sge_verifying_key = \<lambda>_. key, sge_sign = \<lambda>_ _. replicate 64 9,
          sge_key_valid = \<lambda>_. True, sge_verify_strict = \<lambda>_ _ s. s = replicate 64 9,
          sge_parse_metadata = \<lambda>bs. if bs = [1] then Some metadata else None,
          sge_canonical_metadata = \<lambda>m. if m = metadata then Inr [1] else Inl (signature_schema_error [])\<rparr>)"

theorem plan_approval_is_explicit_witness:
  "require_plan_approval (foldl (\<lambda>trust decision. snd (decide_trust trust decision)) Unsigned [Approve]) = Inr ()"
  using plan_approval_is_explicit [of sample_signature_env None "[]" "[]" None Unsigned "[Approve]"]
  by (simp add: package_trust_def)

text \<open>C36. Signing and reading back agree: the entries of a signature made for two documents are
  accepted again as the same signature, and the package is then valid, trusted exactly when the
  signer's fingerprint is the trusted one.\<close>

theorem signed_package_accepted:
  assumes "ed25519_laws env" and "sign_canonical env signing_key manifest object_index = Inr signature"
  shows "from_entries env (sig_metadata_bytes signature) (sig_signature signature) = Inr signature
    \<and> package_trust env (Some signature) manifest object_index trusted
      = Inr (if trusted = Some (from_public_key env (sge_verifying_key env signing_key))
             then SignatureValidTrusted else SignatureValidUntrusted)"
proof -
  obtain bs coverage where parts: "sge_canonical_metadata env (from_signing_key env signing_key) = Inr bs"
    "signature_coverage_bytes manifest object_index = Inr coverage"
    "signature = \<lparr>sig_metadata = from_signing_key env signing_key, sig_metadata_bytes = bs,
       sig_signature = sge_sign env signing_key coverage\<rparr>"
    using assms(2) by (auto simp: sign_canonical_def Let_def result_simps)
  have laws: "sge_key_valid env (sge_verifying_key env signing_key)"
    "sge_verify_strict env (sge_verifying_key env signing_key) coverage (sge_sign env signing_key coverage)"
    "length (sge_sign env signing_key coverage) = SIGNATURE_BYTES"
    "sge_parse_metadata env bs = Some (from_signing_key env signing_key)"
    using assms(1) parts(1) unfolding ed25519_laws_def by blast+
  have "validate_metadata env (from_signing_key env signing_key) = Inr (sge_verifying_key env signing_key)"
    by (simp add: validate_metadata_def from_signing_key_def Let_def laws(1))
  with parts laws show ?thesis
    by (simp add: from_entries_def package_trust_def trust_state_for_canonical_def verify_canonical_def)
       (simp add: from_signing_key_def Let_def)
qed

theorem signed_package_accepted_witness:
  "\<exists>signature. sign_canonical sample_signature_env () [1] [2] = Inr signature
     \<and> package_trust sample_signature_env (Some signature) [1] [2] None = Inr SignatureValidUntrusted"
proof -
  have laws: "ed25519_laws sample_signature_env"
    by (simp add: ed25519_laws_def sample_signature_env_def Let_def SIGNATURE_BYTES_def)
  obtain signature where signed: "sign_canonical sample_signature_env () [1] [2] = Inr signature"
    by (simp add: sign_canonical_def sample_signature_env_def from_signing_key_def from_public_key_def Let_def
        signature_coverage_bytes_def checked_add_u64_def u64_max_def SIGNATURE_DOMAIN_def)
  from signed_package_accepted [OF laws signed, of None] signed show ?thesis by auto
qed

end
