(* ===== verification/Planner.thy ===== *)
theory Planner
  imports Diff Selection Trust
begin

text \<open>
  The construction of a restore plan, \<^verbatim>\<open>crates/reforge-restore/src/planner.rs\<close>: trust and
  compatibility gates, the closure of the selection, the operation specs of every component, their
  prerequisites, and the validated topological plan. The maps the Rust code passes by mutable
  reference are the fields of \<open>plan_state\<close>. The canonical digests of operation kinds and of
  verification rules and the UUID parser are parameters. A planning step fails with an error or, at an
  \<^verbatim>\<open>expect\<close>, with a panic.
\<close>

type_synonym 'a planning = "(ErrorEnvelope abort, 'a) result"
type_synonym mcp_map = "(ComponentId, McpServerSpec) btree"

definition PLAN_FORMAT_VERSION :: nat where "PLAN_FORMAT_VERSION = 1"
definition MAX_PLAN_COMPONENTS :: nat where "MAX_PLAN_COMPONENTS = 250000"
definition MAX_PLAN_ARTIFACTS :: nat where "MAX_PLAN_ARTIFACTS = 1000000"
definition MAX_PLAN_OPERATIONS :: nat where "MAX_PLAN_OPERATIONS = 1000000"
definition MAX_PLAN_WARNINGS :: nat where "MAX_PLAN_WARNINGS = 4096"
definition MAX_MANUAL_TEXT_BYTES :: nat where "MAX_MANUAL_TEXT_BYTES = 1024"

record PlannerInput =
  pin_run_id :: RunId
  pin_package_id :: str
  pin_mode :: RestoreMode
  pin_target_fingerprint :: str
  pin_graph :: PackageGraph
  pin_selection :: SelectionClosure
  pin_trust :: TrustState
  pin_target_diff :: TargetDiff
  pin_compatibility :: CompatibilityResult
  pin_object_index :: ObjectIndex

record RestorePlanner =
  rpl_first_ordinal :: nat
  rpl_mcp_servers :: mcp_map

definition RestorePlanner_new :: RestorePlanner where
  "RestorePlanner_new = \<lparr>rpl_first_ordinal = 0, rpl_mcp_servers = []\<rparr>"

definition with_first_ordinal :: "RestorePlanner \<Rightarrow> nat \<Rightarrow> RestorePlanner" where
  "with_first_ordinal planner first_ordinal = planner\<lparr>rpl_first_ordinal := first_ordinal\<rparr>"

definition with_mcp_servers :: "RestorePlanner \<Rightarrow> mcp_map \<Rightarrow> RestorePlanner" where
  "with_mcp_servers planner mcp_servers = planner\<lparr>rpl_mcp_servers := mcp_servers\<rparr>"

definition planner_error :: "ReforgeErrorCode \<Rightarrow> str \<Rightarrow> ErrorEnvelope" where
  "planner_error ecode message = restore_error ecode message None None None None"

subsection \<open>Text\<close>

text \<open>
  The loop of \<^verbatim>\<open>bounded_text\<close> on the bytes; \<open>n\<close> bytes are in the output. A continuation byte
  belongs to the scalar before it, and a control character (one byte, or C2 and 80..9F) becomes a
  space.
\<close>

fun bounded_chars :: "nat \<Rightarrow> str \<Rightarrow> str" where
  "bounded_chars n [] = []"
| "bounded_chars n (c # s) =
     (if 128 \<le> code c \<and> code c < 192 then c # bounded_chars (Suc n) s
      else if n \<ge> MAX_MANUAL_TEXT_BYTES then []
      else if code c < 32 \<or> code c = 127 then CHR '' '' # bounded_chars (Suc n) s
      else (case s of
          [] \<Rightarrow> [c]
        | d # s' \<Rightarrow>
            if code c = 194 \<and> 128 \<le> code d \<and> code d \<le> 159 then CHR '' '' # bounded_chars (Suc n) s'
            else c # bounded_chars (Suc n) s))"

definition bounded_text :: "str \<Rightarrow> str" where
  "bounded_text v = str_trim (bounded_chars 0 v)"

fun dependency_kind_key :: "DependencyKind \<Rightarrow> str" where
  "dependency_kind_key RequiredRuntime = ''required_runtime''"
| "dependency_kind_key RequiredPackage = ''required_package''"
| "dependency_kind_key InstalledThrough = ''installed_through''"
| "dependency_kind_key Configures = ''configures''"
| "dependency_kind_key UsesSecret = ''uses_secret''"
| "dependency_kind_key OptionalFeature = ''optional_feature''"
| "dependency_kind_key ProvidesExecutable = ''provides_executable''"
| "dependency_kind_key Contains = ''contains''"
| "dependency_kind_key RestoresBefore = ''restores_before''"
| "dependency_kind_key VerifiesWith = ''verifies_with''"
| "dependency_kind_key RelatedOnly = ''related_only''"

fun conflict_kind_label :: "ConflictKind \<Rightarrow> str" where
  "conflict_kind_label AlreadySatisfied = ''already satisfied''"
| "conflict_kind_label VersionDifference = ''version''"
| "conflict_kind_label ConfigDifference = ''configuration''"
| "conflict_kind_label DataCollision = ''data''"
| "conflict_kind_label SecretCollision = ''secret''"
| "conflict_kind_label PathCollision = ''PATH''"
| "conflict_kind_label PortCollision = ''port''"
| "conflict_kind_label DependencyConflict = ''dependency''"
| "conflict_kind_label ConflictKind.ArchitectureConflict = ''architecture''"
| "conflict_kind_label UnsupportedTarget = ''unsupported target''"

definition path_display :: "PathToken \<Rightarrow> str" where
  "path_display path = debug_root (pt_root path) @ ''/'' @ pt_relative path"

definition provider_id :: "str \<Rightarrow> ProviderId restore" where
  "provider_id v =
     (case opaque_id_new ''ProviderId'' v of
        Inl _ \<Rightarrow> Inl (planner_error SchemaInvalid ''planner could not construct a built-in provider identifier'')
      | Inr i \<Rightarrow> Inr i)"

subsection \<open>The graph index\<close>

record GraphIndex =
  gi_components :: "(ComponentId, Component) btree"
  gi_artifacts :: "(ArtifactId, ComponentId \<times> ArtifactRef) btree"
  gi_outgoing :: "(ComponentId, DependencyEdge list) btree"

type_synonym graph_maps = "(ComponentId, Component) btree \<times> (ArtifactId, ComponentId \<times> ArtifactRef) btree"

definition index_graph_artifact ::
  "ComponentId \<Rightarrow> ArtifactRef \<Rightarrow> (ArtifactId, ComponentId \<times> ArtifactRef) btree
   \<Rightarrow> (ArtifactId, ComponentId \<times> ArtifactRef) btree restore" where
  "index_graph_artifact owner artifact artifacts =
     (case PathToken_validate (art_source_path artifact) of
        Inl _ \<Rightarrow> Inl (planner_error InvalidPath ''package graph contains an invalid artifact path'')
      | Inr _ \<Rightarrow>
          if bt_get artifacts (art_id artifact) \<noteq> None
          then Inl (planner_error SchemaInvalid ''package graph contains duplicate artifact IDs'')
          else Inr (bt_insert (art_id artifact) (owner, artifact) artifacts))"

definition index_graph_component :: "Component \<Rightarrow> graph_maps \<Rightarrow> graph_maps restore" where
  "index_graph_component component = (\<lambda>(components, artifacts).
     if bt_get components (c_id component) \<noteq> None
     then Inl (planner_error SchemaInvalid ''package graph contains duplicate component IDs'')
     else try_bind (try_fold (index_graph_artifact (c_id component)) (c_artifacts component) artifacts) (\<lambda>artifacts.
          Inr (bt_insert (c_id component) component components, artifacts)))"

type_synonym graph_edge_key = "ComponentId \<times> ComponentId \<times> str \<times> bool"

definition graph_edge_key :: "DependencyEdge \<Rightarrow> graph_edge_key" where
  "graph_edge_key edge = (edge_from edge, edge_to edge, dependency_kind_key (edge_kind edge), edge_required edge)"

definition index_graph_edge ::
  "(ComponentId, Component) btree \<Rightarrow> DependencyEdge \<Rightarrow> (ComponentId, DependencyEdge list) btree \<times> graph_edge_key set
   \<Rightarrow> ((ComponentId, DependencyEdge list) btree \<times> graph_edge_key set) restore" where
  "index_graph_edge components edge = (\<lambda>(outgoing, seen).
     if bt_get components (edge_from edge) = None \<or> bt_get components (edge_to edge) = None
     then Inl (planner_error SchemaInvalid ''package graph edge references a missing component'')
     else if graph_edge_key edge \<in> seen then Inr (outgoing, seen)
     else Inr (bt_insert (edge_from edge)
                 ((case bt_get outgoing (edge_from edge) of None \<Rightarrow> [] | Some edges \<Rightarrow> edges) @ [edge]) outgoing,
               insert (graph_edge_key edge) seen))"

definition outgoing_order :: "DependencyEdge \<Rightarrow> ComponentId \<times> str \<times> bool" where
  "outgoing_order edge = (edge_to edge, dependency_kind_key (edge_kind edge), edge_required edge)"

definition GraphIndex_build :: "PackageGraph \<Rightarrow> GraphIndex restore" where
  "GraphIndex_build graph =
     try_bind (try_fold index_graph_component (g_components graph) ([], [])) (\<lambda>(components, artifacts).
     try_bind (try_fold (index_graph_edge components) (graph_edges graph) ([], {})) (\<lambda>(outgoing, _).
     Inr \<lparr>gi_components = components, gi_artifacts = artifacts,
          gi_outgoing = map (\<lambda>(source, edges). (source, sort_key outgoing_order edges)) outgoing\<rparr>))"

subsection \<open>Input checks\<close>

definition status_is_consistent :: "CompatibilityResult \<Rightarrow> bool" where
  "status_is_consistent result =
     (let has_blockers = cr_blockers result \<noteq> []; has_confirmations = cr_confirmations result \<noteq> [] in
      case cr_status result of
        Ready \<Rightarrow> \<not> has_blockers \<and> \<not> has_confirmations
      | RequiresConfirmation \<Rightarrow> \<not> has_blockers \<and> has_confirmations
      | CompatibilityStatus.Blocked \<Rightarrow> has_blockers)"

definition validate_plan_input :: "PlannerInput \<Rightarrow> unit restore" where
  "validate_plan_input input =
     (if str_trim (pin_package_id input) = [] \<or> length (pin_package_id input) > 256 \<or> has_control (pin_package_id input)
      then Inl (planner_error SchemaInvalid ''restore plan package ID is invalid'')
      else if str_trim (pin_target_fingerprint input) = [] \<or> length (pin_target_fingerprint input) > 512
              \<or> has_control (pin_target_fingerprint input)
      then Inl (planner_error SchemaInvalid ''restore plan target fingerprint is invalid'')
      else if length (g_components (pin_graph input)) > MAX_PLAN_COMPONENTS
      then Inl (planner_error SecurityPolicy ''package graph exceeds the reviewed planner component limit'')
      else if length (sc_selected_components (pin_selection input)) > MAX_PLAN_COMPONENTS
      then Inl (planner_error SecurityPolicy ''selection exceeds the reviewed planner component limit'')
      else if length (sc_selected_artifacts (pin_selection input)) > MAX_PLAN_ARTIFACTS
      then Inl (planner_error SecurityPolicy ''selection exceeds the reviewed planner artifact limit'')
      else if \<not> status_is_consistent (pin_compatibility input)
      then Inl (planner_error SchemaInvalid
             ''compatibility result status does not match its blockers and confirmations'')
      else Inr ())"

definition validate_mcp_spec :: "GraphIndex \<Rightarrow> ObjectIndex \<Rightarrow> ComponentId \<times> McpServerSpec \<Rightarrow> unit restore" where
  "validate_mcp_spec graph object_index = (\<lambda>(component_id, server).
     let source = mcp_source_config server in
     case bt_get (gi_components graph) component_id of
       None \<Rightarrow> Inl (planner_error SchemaInvalid ''typed MCP record references a missing component'')
     | Some component \<Rightarrow>
         if c_kind component \<noteq> McpServer
         then Inl (planner_error SchemaInvalid ''typed MCP record references a non-MCP component'')
         else if str_trim (mcp_name server) = [] \<or> length (mcp_name server) > MAX_MANUAL_TEXT_BYTES
                 \<or> has_control (mcp_name server) \<or> mcp_transport server = McpTransport.Unknown
         then Inl (planner_error SchemaInvalid ''typed MCP record has an invalid or unsupported transport identity'')
         else case PathToken_validate (art_source_path source) of
           Inl _ \<Rightarrow> Inl (planner_error InvalidPath ''typed MCP record contains an invalid source path'')
         | Inr _ \<Rightarrow>
             if art_policy source \<noteq> Config
             then Inl (planner_error SchemaInvalid ''typed MCP record source must be a non-secret config artifact'')
             else case find (\<lambda>artifact. art_id artifact = art_id source) (c_artifacts component) of
               None \<Rightarrow> Inl (planner_error SchemaInvalid ''typed MCP record source artifact is not owned by its component'')
             | Some source_artifact \<Rightarrow>
                 if art_source_path source_artifact \<noteq> art_source_path source
                 then Inl (planner_error SchemaInvalid ''typed MCP record source path conflicts with its component artifact'')
                 else case art_object source of
                   None \<Rightarrow> Inl (planner_error SchemaInvalid ''typed MCP record source artifact has no content object'')
                 | Some obj \<Rightarrow>
                     if \<not> list_ex (\<lambda>entry. oe_id entry = obj) (oi_objects object_index)
                     then Inl (planner_error SchemaInvalid ''typed MCP record source object is absent from the package index'')
                     else Inr ())"

definition validate_mcp_specs :: "GraphIndex \<Rightarrow> mcp_map \<Rightarrow> ObjectIndex \<Rightarrow> unit restore" where
  "validate_mcp_specs graph mcp_servers object_index = try_all (validate_mcp_spec graph object_index) mcp_servers"

subsection \<open>Closing the selection\<close>

text \<open>The selected and the automatically added components in order, and the work list as a stack.\<close>

type_synonym closing = "ComponentId list \<times> ComponentId list \<times> ComponentId list"

definition queue_component :: "ComponentId \<Rightarrow> closing \<Rightarrow> closing" where
  "queue_component component = (\<lambda>(selected, auto_added, pending).
     if component \<in> set selected then (selected, auto_added, pending)
     else (insort_insert component selected, insort_insert component auto_added, component # pending))"

definition queue_required_component :: "GraphIndex \<Rightarrow> ComponentId \<Rightarrow> str \<Rightarrow> closing \<Rightarrow> closing restore" where
  "queue_required_component graph component missing_message st =
     (if bt_get (gi_components graph) component = None
      then Inl (planner_error SelectionIncomplete missing_message)
      else Inr (queue_component component st))"

definition mcp_package_component :: "GraphIndex \<Rightarrow> PackageSpec \<Rightarrow> ComponentId option" where
  "mcp_package_component graph package =
     find_map (\<lambda>(i, component).
       if idn_provider_package (c_identity component) = Some (ps_provider package, ps_id package) then Some i else None)
       (gi_components graph)"

definition outgoing_edges :: "GraphIndex \<Rightarrow> ComponentId \<Rightarrow> DependencyEdge list" where
  "outgoing_edges graph source = (case bt_get (gi_outgoing graph) source of None \<Rightarrow> [] | Some edges \<Rightarrow> edges)"

definition required_runtime :: "GraphIndex \<Rightarrow> ComponentId \<Rightarrow> ComponentId option" where
  "required_runtime graph source =
     Option.bind (bt_get (gi_components graph) source) (\<lambda>component. cmp_requires_runtime (c_compatibility component))"

definition close_mcp_server :: "GraphIndex \<Rightarrow> McpServerSpec \<Rightarrow> closing \<Rightarrow> closing restore" where
  "close_mcp_server graph server st =
     try_bind (case mcp_required_runtime server of
         None \<Rightarrow> Inr st
       | Some runtime \<Rightarrow>
           queue_required_component graph runtime ''a required MCP runtime is unavailable in the package graph'' st) (\<lambda>st.
     case mcp_required_package server of
       None \<Rightarrow> Inr st
     | Some package \<Rightarrow>
         (case mcp_package_component graph package of
            None \<Rightarrow> Inl (planner_error SelectionIncomplete ''a required MCP package is unavailable in the package graph'')
          | Some component \<Rightarrow>
              queue_required_component graph component ''a required MCP package is unavailable in the package graph'' st))"

definition close_source :: "GraphIndex \<Rightarrow> mcp_map \<Rightarrow> ComponentId \<Rightarrow> closing \<Rightarrow> closing restore" where
  "close_source graph mcp_servers source st =
     (let st = fold (\<lambda>edge. queue_component (edge_to edge)) (filter edge_required (outgoing_edges graph source)) st in
     try_bind (case required_runtime graph source of
         None \<Rightarrow> Inr st
       | Some runtime \<Rightarrow>
           if bt_get (gi_components graph) runtime = None
           then Inl (planner_error SelectionIncomplete ''a required runtime is unavailable in the package graph'')
           else Inr (queue_component runtime st)) (\<lambda>st.
     case bt_get mcp_servers source of
       None \<Rightarrow> Inr st
     | Some server \<Rightarrow> close_mcp_server graph server st))"

text \<open>Every component a source can queue is a node of the index, so the work list runs empty.\<close>

definition index_nodes :: "GraphIndex \<Rightarrow> ComponentId set" where
  "index_nodes graph = fst ` set (gi_components graph) \<union> (\<Union>(_, edges) \<in> set (gi_outgoing graph). edge_to ` set edges)"

definition closing_size :: "GraphIndex \<Rightarrow> closing \<Rightarrow> nat" where
  "closing_size graph = (\<lambda>(selected, _, pending). 2 * card (index_nodes graph - set selected) + length pending)"

lemma finite_index_nodes [simp]: "finite (index_nodes graph)"
  by (auto simp: index_nodes_def)

lemma queue_component_size: "x \<in> index_nodes graph \<Longrightarrow> closing_size graph (queue_component x st) \<le> closing_size graph st"
proof -
  assume x: "x \<in> index_nodes graph"
  obtain selected auto_added pending where st: "st = (selected, auto_added, pending)" by (cases st)
  show ?thesis
  proof (cases "x \<in> set selected")
    case False
    then have "index_nodes graph - set (insort_insert x selected) = (index_nodes graph - set selected) - {x}"
      by (auto simp: set_insort_insert)
    moreover have "x \<in> index_nodes graph - set selected" using x False by blast
    moreover have "0 < card (index_nodes graph - set selected)" using x False by (auto simp: card_gt_0_iff)
    ultimately show ?thesis using False by (simp add: st queue_component_def closing_size_def)
  qed (simp add: st queue_component_def)
qed

lemma component_node: "bt_get (gi_components graph) x \<noteq> None \<Longrightarrow> x \<in> index_nodes graph"
  by (simp add: index_nodes_def map_of_eq_None_iff)

lemma queue_required_size:
  "queue_required_component graph x message st = Inr st' \<Longrightarrow> closing_size graph st' \<le> closing_size graph st"
  by (auto simp: queue_required_component_def intro!: queue_component_size component_node split: if_splits)

lemma queue_edges_size:
  "edge_to ` set edges \<subseteq> index_nodes graph \<Longrightarrow>
     closing_size graph (fold (\<lambda>edge. queue_component (edge_to edge)) edges st) \<le> closing_size graph st"
proof (induction edges arbitrary: st)
  case (Cons e edges)
  have "closing_size graph (fold (\<lambda>edge. queue_component (edge_to edge)) edges (queue_component (edge_to e) st))
      \<le> closing_size graph (queue_component (edge_to e) st)" using Cons by simp
  also have "\<dots> \<le> closing_size graph st" using Cons.prems by (simp add: queue_component_size)
  finally show ?case by simp
qed simp

lemma outgoing_nodes: "edge_to ` set (outgoing_edges graph source) \<subseteq> index_nodes graph"
proof (cases "bt_get (gi_outgoing graph) source")
  case (Some edges)
  then have "(source, edges) \<in> set (gi_outgoing graph)" by (rule map_of_SomeD)
  with Some show ?thesis by (force simp: outgoing_edges_def index_nodes_def)
qed (simp add: outgoing_edges_def)

lemma close_source_size:
  assumes "close_source graph mcp_servers source st = Inr st'"
  shows "closing_size graph st' \<le> closing_size graph st"
proof -
  let ?st1 = "fold (\<lambda>edge. queue_component (edge_to edge)) (filter edge_required (outgoing_edges graph source)) st"
  have one: "closing_size graph ?st1 \<le> closing_size graph st"
    using outgoing_nodes [of graph source] by (intro queue_edges_size) auto
  obtain st2 where two: "(case required_runtime graph source of
         None \<Rightarrow> Inr ?st1
       | Some runtime \<Rightarrow>
           if bt_get (gi_components graph) runtime = None
           then Inl (planner_error SelectionIncomplete ''a required runtime is unavailable in the package graph'')
           else Inr (queue_component runtime ?st1)) = Inr st2"
    and three: "(case bt_get mcp_servers source of None \<Rightarrow> Inr st2 | Some server \<Rightarrow> close_mcp_server graph server st2) = Inr st'"
    using assms by (auto simp: close_source_def Let_def result_simps)
  have "closing_size graph st2 \<le> closing_size graph ?st1"
    using two by (auto intro!: queue_component_size component_node split: option.splits if_splits)
  moreover have "closing_size graph st' \<le> closing_size graph st2"
  proof (cases "bt_get mcp_servers source")
    case (Some server)
    then obtain st3 where "(case mcp_required_runtime server of
         None \<Rightarrow> Inr st2
       | Some runtime \<Rightarrow>
           queue_required_component graph runtime ''a required MCP runtime is unavailable in the package graph'' st2) = Inr st3"
      and "(case mcp_required_package server of
       None \<Rightarrow> Inr st3
     | Some package \<Rightarrow>
         (case mcp_package_component graph package of
            None \<Rightarrow> Inl (planner_error SelectionIncomplete ''a required MCP package is unavailable in the package graph'')
          | Some component \<Rightarrow>
              queue_required_component graph component ''a required MCP package is unavailable in the package graph'' st3)) = Inr st'"
      using three by (auto simp: close_mcp_server_def result_simps)
    then have "closing_size graph st3 \<le> closing_size graph st2" "closing_size graph st' \<le> closing_size graph st3"
      by (auto split: option.splits intro: queue_required_size)
    then show ?thesis by simp
  qed (use three in simp)
  ultimately show ?thesis using one by simp
qed

function close_loop :: "GraphIndex \<Rightarrow> mcp_map \<Rightarrow> closing \<Rightarrow> (ComponentId list \<times> ComponentId list) restore" where
  "close_loop graph mcp_servers (selected, auto_added, []) = Inr (selected, auto_added)"
| "close_loop graph mcp_servers (selected, auto_added, source # pending) =
     (case close_source graph mcp_servers source (selected, auto_added, pending) of
        Inl e \<Rightarrow> Inl e
      | Inr st \<Rightarrow> close_loop graph mcp_servers st)"
  by pat_completeness auto
termination
proof (relation "measure (\<lambda>(graph, _, st). closing_size graph st)", goal_cases)
  case (2 graph mcp_servers selected auto_added source pending st)
  then have "closing_size graph st \<le> closing_size graph (selected, auto_added, pending)" by (rule close_source_size)
  also have "\<dots> < closing_size graph (selected, auto_added, source # pending)" by (simp add: closing_size_def)
  finally show ?case by simp
qed simp

definition select_root :: "GraphIndex \<Rightarrow> ComponentId \<Rightarrow> ComponentId list \<Rightarrow> ComponentId list restore" where
  "select_root graph component selected =
     (if component \<in> set selected
      then Inl (planner_error SelectionIncomplete ''selection contains duplicate component IDs'')
      else if bt_get (gi_components graph) component = None
      then Inl (planner_error SelectionIncomplete ''selection references an unavailable component'')
      else Inr (insort_insert component selected))"

definition select_plan_artifact ::
  "GraphIndex \<Rightarrow> ComponentId list \<Rightarrow> ArtifactId \<Rightarrow> ArtifactId list \<Rightarrow> ArtifactId list restore" where
  "select_plan_artifact graph selected artifact selected_artifacts =
     (if artifact \<in> set selected_artifacts
      then Inl (planner_error SelectionIncomplete ''selection contains duplicate artifact IDs'')
      else case bt_get (gi_artifacts graph) artifact of
        None \<Rightarrow> Inl (planner_error SelectionIncomplete ''selection references an unavailable artifact'')
      | Some (owner, _) \<Rightarrow>
          if owner \<notin> set selected
          then Inl (planner_error SelectionIncomplete ''selected artifact belongs to an unselected component'')
          else Inr (insort_insert artifact selected_artifacts))"

definition close_selection ::
  "GraphIndex \<Rightarrow> SelectionClosure \<Rightarrow> mcp_map \<Rightarrow> (ComponentId list \<times> ArtifactId list \<times> str list) planning" where
  "close_selection graph selection mcp_servers =
     try_bind (lift_fail (try_fold (select_root graph) (sc_selected_components selection) [])) (\<lambda>roots.
     try_bind (lift_fail (close_loop graph mcp_servers (roots, [], rev roots))) (\<lambda>(selected, auto_added).
     try_bind (lift_fail (try_fold (select_plan_artifact graph selected) (sc_selected_artifacts selection) []))
       (\<lambda>selected_artifacts.
     try_bind (lift_fail (try_all (\<lambda>component_id.
         case bt_get mcp_servers component_id of
           None \<Rightarrow> Inr ()
         | Some server \<Rightarrow>
             if art_id (mcp_source_config server) \<notin> set selected_artifacts
             then Inl (planner_error SelectionIncomplete
                    ''selected MCP component does not include its normalized source artifact'')
             else Inr ()) selected)) (\<lambda>_.
     try_bind (try_all (\<lambda>component_id.
         try_bind (expect (bt_get (gi_components graph) component_id)) (\<lambda>component.
         if c_verification component = []
         then Inl (Fail (planner_error SchemaInvalid ''selected component has no verification rule''))
         else Inr ())) selected) (\<lambda>_.
     Inr (selected, selected_artifacts,
          map (\<lambda>component. ''Required dependency was automatically added: '' @ component) auto_added))))))"

subsection \<open>Dependency cycles\<close>

definition option_as_list :: "'a option \<Rightarrow> 'a list" where
  "option_as_list x = (case x of None \<Rightarrow> [] | Some a \<Rightarrow> [a])"

definition dependency_targets :: "GraphIndex \<Rightarrow> ComponentId list \<Rightarrow> mcp_map \<Rightarrow> ComponentId \<Rightarrow> ComponentId list" where
  "dependency_targets graph selected mcp_servers source =
     filter (\<lambda>target. target \<in> set selected)
       (map edge_to (filter (\<lambda>edge. (edge_required edge \<or> edge_kind edge = RestoresBefore) \<and> edge_kind edge \<noteq> VerifiesWith)
          (outgoing_edges graph source))
        @ option_as_list (required_runtime graph source)
        @ (case bt_get mcp_servers source of
             None \<Rightarrow> []
           | Some server \<Rightarrow>
               option_as_list (mcp_required_runtime server)
               @ option_as_list (Option.bind (mcp_required_package server) (mcp_package_component graph))))"

definition dependency_pairs :: "GraphIndex \<Rightarrow> ComponentId list \<Rightarrow> mcp_map \<Rightarrow> (ComponentId \<times> ComponentId) list" where
  "dependency_pairs graph selected mcp_servers =
     fold insort_insert
       (concat (map (\<lambda>source. map (Pair source) (dependency_targets graph selected mcp_servers source)) selected)) []"

text \<open>\<^verbatim>\<open>BTreeMap::get_mut\<close> followed by an assignment.\<close>

definition bt_modify :: "'k \<Rightarrow> ('v \<Rightarrow> 'v) \<Rightarrow> ('k, 'v) btree \<Rightarrow> ('k, 'v) btree" where
  "bt_modify k f m = map (\<lambda>(k', v). (k', if k' = k then f v else v)) m"

type_synonym degrees = "(ComponentId, nat) btree"

definition count_dependency ::
  "ComponentId \<times> ComponentId \<Rightarrow> degrees \<times> (ComponentId, ComponentId list) btree
   \<Rightarrow> (degrees \<times> (ComponentId, ComponentId list) btree) planning" where
  "count_dependency = (\<lambda>(source, dependency) (indegree, dependents).
     try_bind (expect (bt_get indegree source)) (\<lambda>count.
     try_bind (lift_fail (ok_or (planner_error SecurityPolicy ''dependency prerequisite count overflowed'')
                (checked_add_u64 count 1))) (\<lambda>_.
     Inr (bt_modify source Suc indegree,
          bt_insert dependency
            ((case bt_get dependents dependency of None \<Rightarrow> [] | Some sources \<Rightarrow> sources) @ [source]) dependents))))"

definition release_child :: "ComponentId \<Rightarrow> degrees \<times> ComponentId list \<Rightarrow> (degrees \<times> ComponentId list) planning" where
  "release_child child = (\<lambda>(indegree, ready).
     try_bind (expect (bt_get indegree child)) (\<lambda>count.
     if count = 0 then Inl Panic
     else Inr (bt_modify child (\<lambda>n. n - 1) indegree,
               if count - 1 = 0 then insort_insert child ready else ready)))"

lemma modify_sum_le: "sum_list (map snd (bt_modify k (\<lambda>n. n - (1 :: nat)) m)) \<le> sum_list (map snd m)"
  by (induction m) (auto simp: bt_modify_def)

lemma modify_sum:
  "bt_get m k = Some (n :: nat) \<Longrightarrow> 0 < n \<Longrightarrow> sum_list (map snd (bt_modify k (\<lambda>n. n - 1) m)) < sum_list (map snd m)"
proof (induction m)
  case (Cons kv m)
  then show ?case using modify_sum_le [of k m] by (cases kv) (auto simp: bt_modify_def split: if_splits)
qed simp

definition cycle_size :: "degrees \<times> ComponentId list \<Rightarrow> nat" where
  "cycle_size = (\<lambda>(indegree, ready). sum_list (map snd indegree) + length ready)"

lemma release_child_size:
  assumes "release_child child st = Inr st'"
  shows "cycle_size st' \<le> cycle_size st"
proof -
  obtain indegree ready count where st: "st = (indegree, ready)" "bt_get indegree child = Some count" "0 < count"
    "st' = (bt_modify child (\<lambda>n. n - 1) indegree, if count - 1 = 0 then insort_insert child ready else ready)"
    using assms by (cases st) (auto simp: release_child_def result_simps split: if_splits)
  have "length (insort_insert child ready) \<le> Suc (length ready)"
    by (simp add: insort_insert_key_def)
  with modify_sum [OF st(2,3)] show ?thesis by (auto simp: st(1,4) cycle_size_def)
qed

lemma release_children_size: "try_fold release_child children st = Inr st' \<Longrightarrow> cycle_size st' \<le> cycle_size st"
proof (induction children arbitrary: st)
  case (Cons child children)
  then obtain st1 where "release_child child st = Inr st1" "try_fold release_child children st1 = Inr st'"
    by (auto simp: result_simps)
  with Cons.IH [of st1] release_child_size [of child st st1] show ?case by simp
qed simp

text \<open>\<^verbatim>\<open>while let Some(component) = ready.pop_first()\<close>; the result is the number of components processed.\<close>

function cycle_loop ::
  "(ComponentId, ComponentId list) btree \<Rightarrow> degrees \<times> ComponentId list \<Rightarrow> nat \<Rightarrow> nat planning" where
  "cycle_loop dependents (indegree, []) processed = Inr processed"
| "cycle_loop dependents (indegree, component # ready) processed =
     (case try_fold release_child
             (case bt_get dependents component of None \<Rightarrow> [] | Some children \<Rightarrow> children) (indegree, ready) of
        Inl e \<Rightarrow> Inl e
      | Inr st \<Rightarrow> cycle_loop dependents st (processed + 1))"
  by pat_completeness auto
termination
proof (relation "measure (\<lambda>(_, st, _). cycle_size st)", goal_cases)
  case (2 dependents indegree component ready processed st)
  then have "cycle_size st \<le> cycle_size (indegree, ready)" by (rule release_children_size)
  also have "\<dots> < cycle_size (indegree, component # ready)" by (simp add: cycle_size_def)
  finally show ?case by simp
qed simp

definition validate_dependency_cycles :: "GraphIndex \<Rightarrow> ComponentId list \<Rightarrow> mcp_map \<Rightarrow> unit planning" where
  "validate_dependency_cycles graph selected mcp_servers =
     try_bind (try_fold count_dependency (dependency_pairs graph selected mcp_servers)
                 (map (\<lambda>component. (component, 0)) selected, [])) (\<lambda>(indegree, dependents).
     try_bind (cycle_loop dependents (indegree, map fst (filter (\<lambda>(_, count). count = 0) indegree)) 0) (\<lambda>processed.
     if processed \<noteq> length selected
     then Inl (Fail (planner_error DependencyCycle ''selected package dependencies contain a restore cycle''))
     else Inr ()))"

definition component_diff :: "TargetDiff \<Rightarrow> ComponentId \<Rightarrow> ComponentDiff option" where
  "component_diff target_diff i = find (\<lambda>diff. cd_component diff = i) (td_components target_diff)"

text \<open>\<^verbatim>\<open>component.as_ref().is_none_or(|component| selected.contains(component))\<close>\<close>

definition concerns :: "ComponentId list \<Rightarrow> ComponentId option \<Rightarrow> bool" where
  "concerns selected component = (case component of None \<Rightarrow> True | Some c \<Rightarrow> c \<in> set selected)"

definition validate_target_inputs :: "PlannerInput \<Rightarrow> ComponentId list \<Rightarrow> unit restore" where
  "validate_target_inputs input selected =
     (let diff = pin_target_diff input;
          relevant_conflict_ids = cf_id ` set (filter (\<lambda>c. concerns selected (cf_component c)) (td_conflicts diff))
      in if list_ex (\<lambda>component. component_diff diff component = None) selected
         then Inl (planner_error SchemaInvalid ''target diff is missing a selected component'')
         else if list_ex (\<lambda>i. i \<in> relevant_conflict_ids) (td_blocking_conflict_ids diff)
         then Inl (planner_error TargetConflict ''target conflicts block restore planning'')
         else if list_ex (\<lambda>blocker. concerns selected (bl_component blocker)) (cr_blockers (pin_compatibility input))
         then Inl (planner_error TargetConflict ''target compatibility blocks restore planning'')
         else Inr ())"

definition relevant_conflicts :: "Conflict list \<Rightarrow> ComponentId list \<Rightarrow> Conflict list" where
  "relevant_conflicts conflicts selected =
     sort_key cf_id (filter (\<lambda>conflict. concerns selected (cf_component conflict)) conflicts)"

definition normalize_warnings :: "str list \<Rightarrow> str list restore" where
  "normalize_warnings warnings =
     (let warnings = remdups_adj (sort (map bounded_text (filter (\<lambda>w. str_trim w \<noteq> []) warnings)))
      in if length warnings > MAX_PLAN_WARNINGS
         then Inl (planner_error SecurityPolicy ''restore plan produces too many warnings'')
         else Inr warnings)"

subsection \<open>Manual actions\<close>

fun risk_for_component :: "ComponentKind \<Rightarrow> RiskLevel" where
  "risk_for_component ComponentKind.SecretReference = RiskLevel.Critical"
| "risk_for_component SystemFeature = RiskLevel.High"
| "risk_for_component Service = RiskLevel.High"
| "risk_for_component ScheduledTask = RiskLevel.High"
| "risk_for_component ComponentKind.PortableBinary = RiskLevel.High"
| "risk_for_component _ = RiskLevel.Medium"

definition component_risk :: "Component \<Rightarrow> RiskLevel" where
  "component_risk component =
     (if rd_requires_elevation (c_restore component) \<or> cmp_requires_elevation (c_compatibility component)
      then RiskLevel.High else risk_for_component (c_kind component))"

fun conflict_risk :: "ConflictKind \<Rightarrow> RiskLevel" where
  "conflict_risk SecretCollision = RiskLevel.Critical"
| "conflict_risk DataCollision = RiskLevel.High"
| "conflict_risk PortCollision = RiskLevel.High"
| "conflict_risk ConflictKind.ArchitectureConflict = RiskLevel.High"
| "conflict_risk UnsupportedTarget = RiskLevel.High"
| "conflict_risk _ = RiskLevel.Medium"

text \<open>The fields every action of the planner shares.\<close>

definition pending_action ::
  "str \<Rightarrow> ComponentId option \<Rightarrow> str \<Rightarrow> str \<Rightarrow> RiskLevel \<Rightarrow> str list \<Rightarrow> bool \<Rightarrow> VerificationRule option \<Rightarrow> ManualAction" where
  "pending_action i component title reason risk instructions independent verification =
     \<lparr>ma_id = i, ma_component = component, ma_title = title, ma_reason = reason, ma_risk = risk,
      ma_instructions = instructions, ma_docs_url = None, ma_state = ManualActionState.Pending,
      ma_independent_operations_may_continue = independent, ma_acknowledged_at = None,
      ma_verification = verification\<rparr>"

definition component_manual_action :: "Component \<Rightarrow> str \<Rightarrow> ManualAction" where
  "component_manual_action component label =
     (let rationale = rd_rationale (c_restore component) in
      pending_action (''component-manual:'' @ c_id component @ '':'' @ label) (Some (c_id component))
        (''Review '' @ bounded_text (c_display_name component) @ '' restore'')
        (if rationale = [] then ''The component has no reviewed automatic restore contract''
         else join_with ''; '' (map bounded_text rationale))
        (component_risk component)
        [''Review the component source, target scope, and portability evidence'',
         ''Do not execute command text or scripts from package metadata'',
         ''Complete the restore through the documented application or provider path'']
        True
        (case c_verification component of [] \<Rightarrow> None | rule # _ \<Rightarrow> Some rule))"

definition artifact_manual_action :: "Component \<Rightarrow> ArtifactRef \<Rightarrow> ManualAction" where
  "artifact_manual_action component artifact =
     (let secret = (art_policy artifact = ArtifactPolicy.SecretReference) in
      pending_action (''artifact-manual:'' @ c_id component @ '':'' @ art_id artifact) (Some (c_id component))
        ''Review artifact restore''
        (if secret then ''The artifact is secret-bearing and requires an approved secure target''
         else ''The artifact cannot be restored automatically without risking target data or an unreviewed privileged write'')
        (if secret then RiskLevel.Critical else RiskLevel.High)
        [''Review the tokenized destination '' @ path_display (art_source_path artifact),
         ''Confirm backup and collision handling before changing the target'',
         ''Use a documented application import or secure credential target when required'']
        True None)"

definition conflict_manual_action :: "Conflict \<Rightarrow> ManualAction" where
  "conflict_manual_action conflict =
     (let label = conflict_kind_label (cf_kind conflict) in
      pending_action (''conflict-confirmation:'' @ bounded_text (cf_id conflict)) (cf_component conflict)
        (''Review '' @ label @ '' conflict'')
        (label @ '' requires explicit target confirmation before restore'')
        (conflict_risk (cf_kind conflict))
        [''Review the source and target state in the conflict preview'',
         ''Confirm the selected merge, install, preserve, or manual decision'',
         ''Verify that the target backup requirement is satisfied before continuing'']
        True None)"

definition compatibility_manual_action :: "Confirmation \<Rightarrow> ManualAction" where
  "compatibility_manual_action confirmation =
     pending_action (''compatibility-confirmation:'' @ bounded_text (cn_id confirmation)) (cn_component confirmation)
       ''Confirm target compatibility'' (bounded_text (cn_reason confirmation)) (cn_risk confirmation)
       [''Review the target compatibility warning before restore'',
        ''Continue only after confirming the target can accept this change'']
       False None"

subsection \<open>Operation specs\<close>

text \<open>The maps of the plan under construction.\<close>

record plan_state =
  pst_specs :: spec_map
  pst_manual_actions :: "(str, ManualAction) btree"
  pst_manual_operation_keys :: "(str, str) btree"
  pst_provider_operation_keys :: "(ProviderId, str) btree"

type_synonym kind_digest = "OperationKind \<Rightarrow> str option"
type_synonym confirmation_map = "(ComponentId, str list) btree"

definition insert_spec :: "OperationSpec \<Rightarrow> plan_state \<Rightarrow> (str \<times> plan_state) restore" where
  "insert_spec spec st =
     (if bt_get (pst_specs st) (spec_key spec) \<noteq> None
      then Inl (planner_error SchemaInvalid ''restore planner derived duplicate operation identity'')
      else Inr (spec_key spec, st\<lparr>pst_specs := bt_insert (spec_key spec) spec (pst_specs st)\<rparr>))"

text \<open>The \<^verbatim>\<open>Option\<close> this function returns in the code is always \<^verbatim>\<open>Some\<close>.\<close>

definition add_manual_action_operation ::
  "kind_digest \<Rightarrow> ManualAction \<Rightarrow> ComponentId \<Rightarrow> RunId \<Rightarrow> plan_state \<Rightarrow> (str \<times> plan_state) restore" where
  "add_manual_action_operation digest action owner run_id st =
     (let action = action\<lparr>ma_id := ''manual-action:'' @ run_id @ '':'' @ ma_id action\<rparr> in
      if (case bt_get (pst_manual_actions st) (ma_id action) of None \<Rightarrow> False | Some existing \<Rightarrow> existing \<noteq> action)
      then Inl (planner_error SchemaInvalid ''restore planner derived conflicting manual actions'')
      else
      let st = st\<lparr>pst_manual_actions := bt_insert (ma_id action) action (pst_manual_actions st)\<rparr> in
      case bt_get (pst_manual_operation_keys st) (ma_id action) of
        Some key \<Rightarrow> Inr (key, st)
      | None \<Rightarrow>
          try_bind (OperationSpec_new digest owner (OpenManualAction action) OperationPhase.Manual Always
                      (option_as_list (ma_verification action))
                      (ma_risk action = RiskLevel.High \<or> ma_risk action = RiskLevel.Critical) False) (\<lambda>spec.
          try_bind (insert_spec spec st) (\<lambda>(key, st).
          Inr (key, st\<lparr>pst_manual_operation_keys := bt_insert (ma_id action) key (pst_manual_operation_keys st)\<rparr>))))"

definition ensure_provider :: "kind_digest \<Rightarrow> ProviderId \<Rightarrow> ComponentId \<Rightarrow> plan_state \<Rightarrow> (str \<times> plan_state) restore" where
  "ensure_provider digest provider owner st =
     (case bt_get (pst_provider_operation_keys st) provider of
        Some key \<Rightarrow> Inr (key, st)
      | None \<Rightarrow>
          try_bind (OperationSpec_new_shared digest owner ''provider'' (EnsureProvider provider) ProviderBootstrap Always
                      [] False False) (\<lambda>spec.
          try_bind (insert_spec spec st) (\<lambda>(key, st).
          Inr (key, st\<lparr>pst_provider_operation_keys := bt_insert provider key (pst_provider_operation_keys st)\<rparr>))))"

definition add_prerequisites :: "str list \<Rightarrow> OperationSpec \<Rightarrow> OperationSpec" where
  "add_prerequisites keys spec = fold add_prerequisite keys spec"

definition add_confirmation_prerequisites :: "Component \<Rightarrow> confirmation_map \<Rightarrow> OperationSpec \<Rightarrow> OperationSpec" where
  "add_confirmation_prerequisites component confirmation_keys spec =
     (case bt_get confirmation_keys (c_id component) of None \<Rightarrow> spec | Some keys \<Rightarrow> add_prerequisites keys spec)"

text \<open>\<^verbatim>\<open>specs.get_mut(key).expect(..).add_prerequisite(..)\<close>\<close>

definition require_spec :: "str \<Rightarrow> str \<Rightarrow> spec_map \<Rightarrow> spec_map planning" where
  "require_spec key prerequisite specs =
     try_bind (expect (bt_get specs key)) (\<lambda>_. Inr (bt_modify key (add_prerequisite prerequisite) specs))"

definition require_key :: "str \<Rightarrow> str \<Rightarrow> plan_state \<Rightarrow> plan_state planning" where
  "require_key key prerequisite st =
     try_bind (require_spec key prerequisite (pst_specs st)) (\<lambda>specs. Inr (st\<lparr>pst_specs := specs\<rparr>))"

subsection \<open>Confirmations\<close>

definition push_confirmation_key :: "str \<Rightarrow> ComponentId \<Rightarrow> confirmation_map \<Rightarrow> confirmation_map" where
  "push_confirmation_key key component confirmation_keys =
     bt_insert component
       ((case bt_get confirmation_keys component of None \<Rightarrow> [] | Some keys \<Rightarrow> keys) @ [key]) confirmation_keys"

definition seed_confirmation ::
  "kind_digest \<Rightarrow> ComponentId list \<Rightarrow> RunId \<Rightarrow> str \<Rightarrow> ComponentId option \<times> ManualAction \<Rightarrow> plan_state \<times> confirmation_map
   \<Rightarrow> (plan_state \<times> confirmation_map) restore" where
  "seed_confirmation digest selected run_id missing = (\<lambda>(component, action) (st, confirmation_keys).
     try_bind (ok_or (planner_error SelectionIncomplete missing)
       (case component of Some c \<Rightarrow> Some c | None \<Rightarrow> (case selected of [] \<Rightarrow> None | owner # _ \<Rightarrow> Some owner))) (\<lambda>owner.
     try_bind (add_manual_action_operation digest action owner run_id st) (\<lambda>(key, st).
     Inr (st, fold (push_confirmation_key key) (case component of Some c \<Rightarrow> [c] | None \<Rightarrow> selected) confirmation_keys))))"

definition seed_compatibility_confirmations ::
  "kind_digest \<Rightarrow> CompatibilityResult \<Rightarrow> ComponentId list \<Rightarrow> RunId \<Rightarrow> plan_state \<times> confirmation_map
   \<Rightarrow> (plan_state \<times> confirmation_map) restore" where
  "seed_compatibility_confirmations digest compatibility selected run_id =
     try_fold (seed_confirmation digest selected run_id
                 ''a global compatibility confirmation has no selected component owner'')
       (map (\<lambda>c. (cn_component c, compatibility_manual_action c)) (cr_confirmations compatibility))"

definition needs_confirmation :: "Conflict \<Rightarrow> bool" where
  "needs_confirmation conflict \<longleftrightarrow>
     cf_requires_confirmation conflict \<or> cf_resolution conflict = ConflictResolution.Manual"

definition seed_conflict_confirmations ::
  "kind_digest \<Rightarrow> TargetDiff \<Rightarrow> ComponentId list \<Rightarrow> RunId \<Rightarrow> plan_state \<times> confirmation_map
   \<Rightarrow> (plan_state \<times> confirmation_map) restore" where
  "seed_conflict_confirmations digest target_diff selected run_id st =
     try_bind (try_fold (seed_confirmation digest selected run_id
                 ''a global conflict confirmation has no selected component owner'')
       (map (\<lambda>c. (cf_component c, conflict_manual_action c))
          (filter needs_confirmation (relevant_conflicts (td_conflicts target_diff) selected))) st) (\<lambda>(st, confirmation_keys).
     Inr (st, map (\<lambda>(component, keys). (component, remdups_adj (sort keys))) confirmation_keys))"

subsection \<open>Operations of a component\<close>

definition provider_identity :: "Component \<Rightarrow> PackageSpec option restore" where
  "provider_identity component =
     (let packages = List.map_filter (\<lambda>rule. case rule of ProviderIdentity _ package \<Rightarrow> Some package | _ \<Rightarrow> None)
            (c_verification component);
          typed_identity = (case idn_provider_package (c_identity component) of
              Some identity \<Rightarrow> Some identity
            | None \<Rightarrow> Option.bind (c_provenance component) (\<lambda>provenance.
                (case (prov_provider provenance, prov_package_id provenance) of
                   (Some provider, Some package_id) \<Rightarrow> Some (provider, package_id)
                 | _ \<Rightarrow> None)));
          first = (case packages of [] \<Rightarrow> None | package # _ \<Rightarrow> Some package)
      in if length packages > 1
         then Inl (planner_error SchemaInvalid ''component contains multiple provider package identities'')
         else case typed_identity of
           None \<Rightarrow> Inr first
         | Some (provider, package_id) \<Rightarrow>
             if (case first of None \<Rightarrow> False | Some package \<Rightarrow> ps_provider package \<noteq> provider \<or> ps_id package \<noteq> package_id)
             then Inl (planner_error SchemaInvalid ''component provider identity conflicts with its verification rule'')
             else Inr (Some
               \<lparr>ps_provider = provider, ps_id = bounded_text package_id,
                ps_version = (case map_option (\<lambda>v. bounded_text (ver_raw v)) (c_version component) of
                    Some version \<Rightarrow> if version = [] then None else Some version
                  | None \<Rightarrow> None),
                ps_source_name = idn_provider_source (c_identity component), ps_source_identifier = None,
                ps_source = Option.bind (c_provenance component) prov_source_url,
                ps_architecture = c_architecture component, ps_installer_hash = None\<rparr>))"

type_synonym primary_row =
  "OperationKind \<times> OperationPhase \<times> Precondition \<times> VerificationRule list \<times> bool \<times> ProviderId option"

definition absent_precondition :: "Component \<Rightarrow> ComponentDiff \<Rightarrow> Precondition" where
  "absent_precondition component diff = (if cd_target_present diff then Always else ComponentAbsent (c_id component))"

definition is_environment_rule :: "VerificationRule \<Rightarrow> bool" where
  "is_environment_rule rule = (case rule of VerificationRule.Environment _ _ _ \<Rightarrow> True | _ \<Rightarrow> False)"

definition environment_operation :: "Component \<Rightarrow> Precondition \<Rightarrow> primary_row option" where
  "environment_operation component precondition =
     (case find is_environment_rule (c_verification component) of
        Some (VerificationRule.Environment ConfigScope.User name (LiteralNonSecret v)) \<Rightarrow>
          if name = [] \<or> length name > 256 \<or> CHR ''='' \<in> set name \<or> has_control name
             \<or> eq_ignore_ascii_case name ''PATH'' \<or> has_control v
          then None
          else Some (SetUserEnvironment name (LiteralNonSecret v), EnvironmentRestore, precondition,
                     c_verification component, False, None)
      | _ \<Rightarrow> None)"

definition runtime_operation :: "Component \<Rightarrow> Precondition \<Rightarrow> primary_row option" where
  "runtime_operation component precondition =
     (let i = str_trim (c_display_name component) in
      if rd_primary (c_restore component) \<notin> {Reinstall, RestoreStrategy.Partial} then None
      else if i = [] \<or> has_control i then None
      else Some (EnsureRuntime \<lparr>rs_id = bounded_text i,
                   rs_version = map_option (\<lambda>v. bounded_text (ver_raw v)) (c_version component),
                   rs_architecture = c_architecture component\<rparr>,
                 RuntimeBootstrap, precondition, c_verification component,
                 rd_requires_elevation (c_restore component),
                 cmp_requires_provider (c_compatibility component)))"

definition package_operation :: "Component \<Rightarrow> Precondition \<Rightarrow> primary_row option restore" where
  "package_operation component precondition =
     (if rd_primary (c_restore component) \<noteq> Reinstall then Inr None
      else try_bind (provider_identity component) (\<lambda>identity.
        case identity of
          None \<Rightarrow> Inr None
        | Some package \<Rightarrow>
            Inr (Some (InstallPackage (ps_provider package) package
                         \<lparr>pip_accept_source_agreements = False, pip_accept_package_agreements = False,
                          pip_silent = False, pip_allow_reboot = False\<rparr>,
                       PackageInstall, precondition, c_verification component,
                       rd_requires_elevation (c_restore component), Some (ps_provider package)))))"

definition extension_operation :: "Component \<Rightarrow> Precondition \<Rightarrow> primary_row option" where
  "extension_operation component precondition =
     (if rd_primary (c_restore component) \<notin> {Reinstall, RestoreStrategy.Partial} then None
      else
      let extension_id = (case Option.bind (c_provenance component) prov_package_id of
              Some i \<Rightarrow> Some i
            | None \<Rightarrow> map_option snd (idn_provider_package (c_identity component)))
      in case extension_id of
           None \<Rightarrow> None
         | Some i \<Rightarrow>
             if str_trim i = [] \<or> length i > 256 \<or> has_control i then None
             else Some (InstallVsCodeExtension i (map_option (\<lambda>v. bounded_text (ver_raw v)) (c_version component)) None,
                        ApplicationRestore, precondition, c_verification component,
                        rd_requires_elevation (c_restore component), None))"

definition primary_operation :: "Component \<Rightarrow> ComponentDiff \<Rightarrow> primary_row option restore" where
  "primary_operation component diff =
     (let precondition = absent_precondition component diff in
      case c_kind component of
        EnvironmentVariable \<Rightarrow> Inr (environment_operation component precondition)
      | Runtime \<Rightarrow> Inr (runtime_operation component precondition)
      | Package \<Rightarrow> package_operation component precondition
      | Application \<Rightarrow> package_operation component precondition
      | Tool \<Rightarrow> package_operation component precondition
      | Extension \<Rightarrow> Inr (extension_operation component precondition)
      | _ \<Rightarrow> Inr None)"

text \<open>\<^verbatim>\<open>str::rfind\<close> of a character.\<close>

fun rfind :: "char \<Rightarrow> str \<Rightarrow> nat option" where
  "rfind c [] = None"
| "rfind c (d # s) = (case rfind c s of Some i \<Rightarrow> Some (Suc i) | None \<Rightarrow> if d = c then Some 0 else None)"

definition split_docker_image_reference :: "str \<Rightarrow> str \<times> str option" where
  "split_docker_image_reference reference =
     (let reference = bounded_text reference;
          path_start = (case rfind (CHR ''/'') reference of None \<Rightarrow> 0 | Some position \<Rightarrow> position + 1)
      in case rfind (CHR '':'') reference of
           Some separator \<Rightarrow>
             if separator \<ge> path_start
             then (bounded_text (take separator reference), Some (bounded_text (drop (separator + 1) reference)))
             else (reference, None)
         | None \<Rightarrow> (reference, None))"

definition docker_image_spec :: "Component \<Rightarrow> DockerImageSpec" where
  "docker_image_spec component =
     (let identity = (case idn_provider_package (c_identity component) of
              Some (_, package) \<Rightarrow> package
            | None \<Rightarrow> c_display_name component);
          v = (case strip_prefix identity ''image:'' of Some rest \<Rightarrow> rest | None \<Rightarrow> identity);
          image_id = (if strip_prefix v ''sha256:'' \<noteq> None then Some (bounded_text v) else None);
          reference = (if image_id = None then v else c_display_name component);
          (repository, tag) = split_docker_image_reference reference
      in \<lparr>dis_repository = repository, dis_tag = tag, dis_image_id = image_id\<rparr>)"

text \<open>\<^verbatim>\<open>str::parse::<u8>\<close>: an optional plus sign and decimal digits.\<close>

definition parse_u8 :: "str \<Rightarrow> nat option" where
  "parse_u8 s =
     (let digits = (case s of c # rest \<Rightarrow> if c = CHR ''+'' then rest else s | [] \<Rightarrow> s)
      in if digits = [] \<or> \<not> list_all is_ascii_digit digits \<or> read_nat digits > 255 then None
         else Some (read_nat digits))"

definition special_operation :: "Component \<Rightarrow> ArtifactRef \<Rightarrow> ObjectId \<Rightarrow> OperationKind option" where
  "special_operation component artifact obj =
     (case c_kind component of
        WslDistribution \<Rightarrow>
          if art_policy artifact \<in> {LargeOptIn, Export}
          then Some (ImportWsl \<lparr>wsl_distribution = bounded_text (c_display_name component),
                       wsl_version = Option.bind (c_version component) (\<lambda>v. parse_u8 (ver_raw v))\<rparr> obj)
          else None
      | DockerImage \<Rightarrow> Some (RestoreDockerImage (docker_image_spec component) obj)
      | DockerVolume \<Rightarrow>
          Some (RestoreDockerVolume \<lparr>dvs_name = bounded_text (c_display_name component), dvs_driver = None\<rparr> obj)
      | _ \<Rightarrow> None)"

definition artifact_verification :: "Component \<Rightarrow> ArtifactRef \<Rightarrow> bool \<Rightarrow> ObjectId \<Rightarrow> VerificationRule list" where
  "artifact_verification component artifact merge obj =
     (case find (\<lambda>rule. case rule of
                  VerificationRule.File destination _ \<Rightarrow> destination = art_source_path artifact
                | FileVersion destination _ _ \<Rightarrow> destination = art_source_path artifact
                | ConfigParses destination _ \<Rightarrow> destination = art_source_path artifact
                | _ \<Rightarrow> False) (c_verification component) of
        Some rule \<Rightarrow> [rule]
      | None \<Rightarrow>
          if merge then [ConfigParses (art_source_path artifact) (art_content_type artifact)]
          else [VerificationRule.File (art_source_path artifact) (Some obj)])"

definition subsystem_verification :: "Component \<Rightarrow> ArtifactRef \<Rightarrow> VerificationRule list" where
  "subsystem_verification component artifact =
     (let rules = filter (\<lambda>rule. case rule of WslState _ _ \<Rightarrow> True | DockerObject _ _ \<Rightarrow> True | _ \<Rightarrow> False)
            (c_verification component)
      in if rules = [] then [VerificationRule.File (art_source_path artifact) (art_object artifact)] else rules)"

definition artifact_provider :: "Component \<Rightarrow> OperationKind \<Rightarrow> ProviderId option restore" where
  "artifact_provider component kind =
     (case kind of
        InstallPackage provider _ _ \<Rightarrow> Inr (Some provider)
      | ImportWsl _ _ \<Rightarrow> try_bind (provider_id ''wsl'') (\<lambda>p. Inr (Some p))
      | RestoreDockerImage _ _ \<Rightarrow> try_bind (provider_id ''docker'') (\<lambda>p. Inr (Some p))
      | RestoreDockerVolume _ _ \<Rightarrow> try_bind (provider_id ''docker'') (\<lambda>p. Inr (Some p))
      | _ \<Rightarrow>
          (case cmp_requires_provider (c_compatibility component) of
             Some provider \<Rightarrow> Inr (Some provider)
           | None \<Rightarrow>
               if cmp_requires_wsl (c_compatibility component) then try_bind (provider_id ''wsl'') (\<lambda>p. Inr (Some p))
               else if cmp_requires_docker (c_compatibility component)
               then try_bind (provider_id ''docker'') (\<lambda>p. Inr (Some p))
               else Inr None))"

text \<open>What restores an artifact automatically; nothing when the target's own data could be lost.\<close>

definition merge_policy :: "ComponentDiff \<Rightarrow> MergePolicy" where
  "merge_policy diff = (if cd_target_present diff then ManualOnConflict else PreserveUnknown)"

definition artifact_row ::
  "Component \<Rightarrow> ComponentDiff \<Rightarrow> ArtifactRef \<Rightarrow> ObjectId \<Rightarrow> OperationKind option
   \<Rightarrow> (OperationKind \<times> OperationPhase \<times> VerificationRule list) option" where
  "artifact_row component diff artifact obj special =
     (let policy = art_policy artifact; destination = art_source_path artifact in
      case special of
        Some kind \<Rightarrow> Some (kind, SubsystemRestore, subsystem_verification component artifact)
      | None \<Rightarrow>
          if policy = Config \<and> art_content_type artifact \<in> {Json, Jsonc}
          then Some (MergeJson destination obj (merge_policy diff), FileRestore,
                     artifact_verification component artifact True obj)
          else if policy = Config \<and> art_content_type artifact = Toml
          then Some (MergeToml destination obj (merge_policy diff), FileRestore,
                     artifact_verification component artifact True obj)
          else if cd_target_present diff \<and> policy \<in> {Config, Data, Export, ArtifactPolicy.PortableBinary, LargeOptIn}
                  \<and> policy \<noteq> Config
          then None
          else Some (WriteFile destination obj (if cd_target_present diff then FileMode.PreserveTarget else CreateOnly),
                     FileRestore, artifact_verification component artifact False obj))"

definition schedule_artifact ::
  "kind_digest \<Rightarrow> Component \<Rightarrow> confirmation_map \<Rightarrow> OperationKind \<Rightarrow> OperationPhase \<Rightarrow> ObjectId \<Rightarrow> VerificationRule list
   \<Rightarrow> plan_state \<Rightarrow> (str \<times> plan_state) planning" where
  "schedule_artifact digest component confirmation_keys kind phase obj verification st =
     try_bind (lift_fail (OperationSpec_new digest (c_id component) kind phase (ArtifactPresent obj) verification
                 False False)) (\<lambda>spec.
     try_bind (lift_fail (insert_spec (add_confirmation_prerequisites component confirmation_keys spec) st)) (\<lambda>(key, st).
     try_bind (lift_fail (artifact_provider component kind)) (\<lambda>provider.
     case provider of
       None \<Rightarrow> Inr (key, st)
     | Some provider \<Rightarrow>
         try_bind (lift_fail (ensure_provider digest provider (c_id component) st)) (\<lambda>(provider_key, st).
         try_bind (require_key key provider_key st) (\<lambda>st. Inr (key, st))))))"

definition add_artifact_operation ::
  "kind_digest \<Rightarrow> Component \<Rightarrow> RunId \<Rightarrow> ComponentDiff \<Rightarrow> confirmation_map \<Rightarrow> ArtifactRef \<Rightarrow> plan_state
   \<Rightarrow> (str \<times> plan_state) planning" where
  "add_artifact_operation digest component run_id diff confirmation_keys artifact st =
     (let manual = lift_fail (add_manual_action_operation digest (artifact_manual_action component artifact)
                     (c_id component) run_id st) in
      if art_policy artifact \<in> {ArtifactPolicy.Manual, ArtifactPolicy.SecretReference}
         \<or> c_kind component = ComponentKind.SecretReference
      then manual
      else case PathToken_validate (art_source_path artifact) of
        Inl _ \<Rightarrow> Inl (Fail (planner_error InvalidPath ''selected artifact contains an invalid destination path''))
      | Inr _ \<Rightarrow>
      if pt_root (art_source_path artifact) \<in> {ProgramData, ProgramFiles, ProgramFilesX86} then manual
      else case art_object artifact of
        None \<Rightarrow> Inl (Fail (planner_error SchemaInvalid ''selected artifact has no content object''))
      | Some obj \<Rightarrow>
      let special = special_operation component artifact obj in
      if special \<noteq> None \<and> cd_target_present diff then manual
      else case artifact_row component diff artifact obj special of
        None \<Rightarrow> manual
      | Some (kind, phase, verification) \<Rightarrow>
          schedule_artifact digest component confirmation_keys kind phase obj verification st)"

record ComponentOperations =
  co_mutation_keys :: "str list"
  co_readiness_key :: "str option"

definition no_operations :: ComponentOperations where
  "no_operations = \<lparr>co_mutation_keys = [], co_readiness_key = None\<rparr>"

definition requires_manual :: "Component \<Rightarrow> ComponentDiff \<Rightarrow> mcp_map \<Rightarrow> bool" where
  "requires_manual component diff mcp_servers \<longleftrightarrow>
     cd_disposition diff = ComponentDisposition.Manual
     \<or> rd_primary (c_restore component) \<in> {RestoreStrategy.Manual, RestoreStrategy.MachineBound, RestoreStrategy.Unknown, SecretExportable}
     \<or> c_kind component = ComponentKind.SecretReference
     \<or> c_kind component = SystemFeature
     \<or> c_kind component = McpServer \<and> bt_get mcp_servers (c_id component) = None"

type_synonym building = "ComponentOperations \<times> plan_state"

text \<open>A manual action of the component itself; \<open>ready\<close> says whether it makes the component ready.\<close>

definition add_component_action ::
  "kind_digest \<Rightarrow> Component \<Rightarrow> RunId \<Rightarrow> str \<Rightarrow> bool \<Rightarrow> building \<Rightarrow> building restore" where
  "add_component_action digest component run_id label ready = (\<lambda>(built, st).
     try_bind (add_manual_action_operation digest (component_manual_action component label) (c_id component) run_id st)
       (\<lambda>(key, st).
     Inr (built\<lparr>co_mutation_keys := co_mutation_keys built @ [key],
                co_readiness_key := if ready then Some key else co_readiness_key built\<rparr>, st)))"

definition add_primary_operation ::
  "kind_digest \<Rightarrow> Component \<Rightarrow> ComponentDiff \<Rightarrow> confirmation_map \<Rightarrow> building \<Rightarrow> (ProviderId option \<times> building) restore" where
  "add_primary_operation digest component diff confirmation_keys = (\<lambda>(built, st).
     if cd_disposition diff \<noteq> ComponentDisposition.Install then Inr (None, built, st)
     else try_bind (primary_operation component diff) (\<lambda>primary.
     case primary of
       None \<Rightarrow> Inr (None, built, st)
     | Some (kind, phase, precondition, verification, elevation, provider) \<Rightarrow>
         try_bind (OperationSpec_new digest (c_id component) kind phase precondition verification elevation False) (\<lambda>spec.
         try_bind (insert_spec (add_confirmation_prerequisites component confirmation_keys spec) st) (\<lambda>(key, st).
         Inr (provider, built\<lparr>co_mutation_keys := co_mutation_keys built @ [key], co_readiness_key := Some key\<rparr>, st)))))"

definition component_artifacts ::
  "ComponentId \<Rightarrow> ArtifactId list \<Rightarrow> (ArtifactId, ComponentId \<times> ArtifactRef) btree \<Rightarrow> ArtifactRef list" where
  "component_artifacts component selected_artifacts artifacts =
     sort_key art_id (List.map_filter (\<lambda>i. case bt_get artifacts i of
         Some (owner, artifact) \<Rightarrow> if owner = component then Some artifact else None
       | None \<Rightarrow> None) selected_artifacts)"

definition require_primary_provider ::
  "kind_digest \<Rightarrow> Component \<Rightarrow> ProviderId option \<Rightarrow> building \<Rightarrow> building planning" where
  "require_primary_provider digest component provider = (\<lambda>(built, st).
     case provider of
       None \<Rightarrow> Inr (built, st)
     | Some provider \<Rightarrow>
         try_bind (lift_fail (ensure_provider digest provider (c_id component) st)) (\<lambda>(provider_key, st).
         try_bind (expect (case co_mutation_keys built of [] \<Rightarrow> None | key # _ \<Rightarrow> Some key)) (\<lambda>primary_key.
         try_bind (require_key primary_key provider_key st) (\<lambda>st. Inr (built, st)))))"

definition add_component_artifact ::
  "kind_digest \<Rightarrow> Component \<Rightarrow> RunId \<Rightarrow> ComponentDiff \<Rightarrow> confirmation_map \<Rightarrow> ArtifactRef \<Rightarrow> building \<Rightarrow> building planning" where
  "add_component_artifact digest component run_id diff confirmation_keys artifact = (\<lambda>(built, st).
     try_bind (add_artifact_operation digest component run_id diff confirmation_keys artifact st) (\<lambda>(key, st).
     Inr (built\<lparr>co_mutation_keys := co_mutation_keys built @ [key],
                co_readiness_key := (case co_readiness_key built of None \<Rightarrow> Some key | Some k \<Rightarrow> Some k)\<rparr>, st)))"

definition add_mcp_registration ::
  "kind_digest \<Rightarrow> Component \<Rightarrow> ComponentDiff \<Rightarrow> confirmation_map \<Rightarrow> mcp_map \<Rightarrow> building \<Rightarrow> building restore" where
  "add_mcp_registration digest component diff confirmation_keys mcp_servers = (\<lambda>(built, st).
     case (if c_kind component = McpServer then bt_get mcp_servers (c_id component) else None) of
       None \<Rightarrow> Inr (built, st)
     | Some server \<Rightarrow>
         try_bind (OperationSpec_new digest (c_id component) (RegisterMcp server) ApplicationRestore
                     (absent_precondition component diff) (c_verification component) False False) (\<lambda>spec.
         try_bind (insert_spec (add_confirmation_prerequisites component confirmation_keys
                     (add_prerequisites (co_mutation_keys built) spec)) st) (\<lambda>(key, st).
         Inr (built\<lparr>co_mutation_keys := co_mutation_keys built @ [key], co_readiness_key := Some key\<rparr>, st))))"

definition build_component_operations ::
  "kind_digest \<Rightarrow> Component \<Rightarrow> RunId \<Rightarrow> ComponentDiff \<Rightarrow> ArtifactId list
   \<Rightarrow> (ArtifactId, ComponentId \<times> ArtifactRef) btree \<Rightarrow> confirmation_map \<Rightarrow> mcp_map \<Rightarrow> plan_state \<Rightarrow> building planning" where
  "build_component_operations digest component run_id diff selected_artifacts artifacts confirmation_keys mcp_servers st =
     (if cd_disposition diff \<in> {ComponentDisposition.Skip, ComponentDisposition.PreserveTarget} then Inr (no_operations, st)
      else if cd_disposition diff = ComponentDisposition.Blocked
      then Inl (Fail (planner_error TargetConflict ''a selected component is blocked by the target diff''))
      else if requires_manual component diff mcp_servers
      then lift_fail (add_component_action digest component run_id ''component'' True (no_operations, st))
      else
      try_bind (lift_fail (add_primary_operation digest component diff confirmation_keys (no_operations, st))) (\<lambda>(provider, b).
      try_bind (require_primary_provider digest component provider b) (\<lambda>b.
      try_bind (try_fold (add_component_artifact digest component run_id diff confirmation_keys)
                  (component_artifacts (c_id component) selected_artifacts artifacts) b) (\<lambda>b.
      try_bind (lift_fail (add_mcp_registration digest component diff confirmation_keys mcp_servers b)) (\<lambda>b.
      try_bind (if rd_primary (c_restore component) = RestoreStrategy.ReauthRequired
                then lift_fail (add_component_action digest component run_id ''reauth'' False b) else Inr b) (\<lambda>b.
      if co_mutation_keys (fst b) = []
      then lift_fail (add_component_action digest component run_id ''unsupported'' True b)
      else Inr b))))))"

subsection \<open>The plan\<close>

text \<open>The keys of a component's mutations and of all its operations, and what makes it ready.\<close>

record component_keys =
  ck_mutations :: "(ComponentId, str list) btree"
  ck_all_operations :: "(ComponentId, str list) btree"
  ck_readiness :: "(ComponentId, str option) btree"

definition plan_component ::
  "kind_digest \<Rightarrow> PlannerInput \<Rightarrow> GraphIndex \<Rightarrow> ArtifactId list \<Rightarrow> confirmation_map \<Rightarrow> mcp_map \<Rightarrow> ComponentId
   \<Rightarrow> component_keys \<times> plan_state \<Rightarrow> (component_keys \<times> plan_state) planning" where
  "plan_component digest input graph selected_artifacts confirmation_keys mcp_servers component_id = (\<lambda>(keys, st).
     try_bind (expect (bt_get (gi_components graph) component_id)) (\<lambda>component.
     try_bind (expect (component_diff (pin_target_diff input) component_id)) (\<lambda>diff.
     try_bind (build_component_operations digest component (pin_run_id input) diff selected_artifacts (gi_artifacts graph)
                 confirmation_keys mcp_servers st) (\<lambda>(built, st).
     Inr (\<lparr>ck_mutations = bt_insert component_id (co_mutation_keys built) (ck_mutations keys),
           ck_all_operations = bt_insert component_id (co_mutation_keys built) (ck_all_operations keys),
           ck_readiness = bt_insert component_id (co_readiness_key built) (ck_readiness keys)\<rparr>, st)))))"

definition rule_key :: "(VerificationRule \<Rightarrow> str option) \<Rightarrow> VerificationRule \<Rightarrow> (str \<times> VerificationRule) restore" where
  "rule_key rule_digest rule =
     try_bind (ok_or (planner_error SchemaInvalid ''verification rule could not be canonicalized'') (rule_digest rule))
       (\<lambda>key. Inr (key, rule))"

definition add_verification_operation ::
  "kind_digest \<Rightarrow> Component \<Rightarrow> component_keys \<Rightarrow> str \<times> VerificationRule
   \<Rightarrow> (ComponentId, str list) btree \<times> plan_state \<Rightarrow> ((ComponentId, str list) btree \<times> plan_state) planning" where
  "add_verification_operation digest component keys = (\<lambda>(_, rule) (all_operations, st).
     try_bind (expect (case c_verification component of [] \<Rightarrow> None | first # _ \<Rightarrow> Some first)) (\<lambda>first.
     try_bind (lift_fail (OperationSpec_new digest (c_id component) (OperationKind.Verify rule)
                 (default_phase (OperationKind.Verify first)) Always [] False False)) (\<lambda>spec.
     let mutations = (case bt_get (ck_mutations keys) (c_id component) of None \<Rightarrow> [] | Some ks \<Rightarrow> ks);
         readiness = Option.bind (bt_get (ck_readiness keys) (c_id component)) (\<lambda>key. key);
         spec = add_prerequisites mutations spec;
         spec = (if mutations = [] then add_prerequisites (option_as_list readiness) spec else spec)
     in try_bind (lift_fail (insert_spec spec st)) (\<lambda>(key, st).
        Inr (bt_insert (c_id component)
               ((case bt_get all_operations (c_id component) of None \<Rightarrow> [] | Some ks \<Rightarrow> ks) @ [key]) all_operations, st)))))"

definition verify_component ::
  "kind_digest \<Rightarrow> (VerificationRule \<Rightarrow> str option) \<Rightarrow> GraphIndex \<Rightarrow> component_keys \<Rightarrow> ComponentId
   \<Rightarrow> (ComponentId, str list) btree \<times> plan_state \<Rightarrow> ((ComponentId, str list) btree \<times> plan_state) planning" where
  "verify_component digest rule_digest graph keys component_id acc =
     try_bind (expect (bt_get (gi_components graph) component_id)) (\<lambda>component.
     try_bind (lift_fail (try_map (rule_key rule_digest) (c_verification component))) (\<lambda>rules.
     try_fold (add_verification_operation digest component keys) (dedup_by_key fst (sort_key fst rules)) acc))"

definition add_verification_operations ::
  "kind_digest \<Rightarrow> (VerificationRule \<Rightarrow> str option) \<Rightarrow> GraphIndex \<Rightarrow> ComponentId list \<Rightarrow> component_keys \<times> plan_state
   \<Rightarrow> (component_keys \<times> plan_state) planning" where
  "add_verification_operations digest rule_digest graph selected = (\<lambda>(keys, st).
     try_bind (try_fold (verify_component digest rule_digest graph keys) selected (ck_all_operations keys, st))
       (\<lambda>(all_operations, st). Inr (keys\<lparr>ck_all_operations := all_operations\<rparr>, st)))"

definition add_dependency_prerequisite :: "component_keys \<Rightarrow> ComponentId \<times> ComponentId \<Rightarrow> plan_state \<Rightarrow> plan_state planning" where
  "add_dependency_prerequisite keys = (\<lambda>(source, dependency) st.
     case Option.bind (bt_get (ck_readiness keys) dependency) (\<lambda>key. key) of
       None \<Rightarrow> Inr st
     | Some dependency_key \<Rightarrow>
         (case bt_get (ck_all_operations keys) source of
            None \<Rightarrow> Inr st
          | Some source_operations \<Rightarrow> try_fold (\<lambda>key. require_key key dependency_key) source_operations st))"

definition add_dependency_prerequisites ::
  "GraphIndex \<Rightarrow> ComponentId list \<Rightarrow> mcp_map \<Rightarrow> component_keys \<Rightarrow> plan_state \<Rightarrow> plan_state planning" where
  "add_dependency_prerequisites graph selected mcp_servers keys =
     try_fold (add_dependency_prerequisite keys) (dependency_pairs graph selected mcp_servers)"

definition plan_specs ::
  "kind_digest \<Rightarrow> (VerificationRule \<Rightarrow> str option) \<Rightarrow> mcp_map \<Rightarrow> PlannerInput \<Rightarrow> GraphIndex \<Rightarrow> ComponentId list
   \<Rightarrow> ArtifactId list \<Rightarrow> plan_state planning" where
  "plan_specs digest rule_digest mcp_servers input graph selected selected_artifacts =
     (let st = \<lparr>pst_specs = [], pst_manual_actions = [], pst_manual_operation_keys = [], pst_provider_operation_keys = []\<rparr> in
     try_bind (lift_fail (seed_compatibility_confirmations digest (pin_compatibility input) selected (pin_run_id input)
                 (st, []))) (\<lambda>st.
     try_bind (lift_fail (seed_conflict_confirmations digest (pin_target_diff input) selected (pin_run_id input) st))
       (\<lambda>(st, confirmation_keys).
     try_bind (try_fold (plan_component digest input graph selected_artifacts confirmation_keys mcp_servers) selected
                 (\<lparr>ck_mutations = [], ck_all_operations = [], ck_readiness = []\<rparr>, st)) (\<lambda>keys_st.
     try_bind (add_verification_operations digest rule_digest graph selected keys_st) (\<lambda>(keys, st).
     add_dependency_prerequisites graph selected mcp_servers keys st)))))"

definition plan_validated :: "RestorePlan \<Rightarrow> ObjectIndex \<Rightarrow> unit planning" where
  "plan_validated plan object_index =
     (case validate_restore_plan plan object_index of
        Inl (Fail e) \<Rightarrow> Inl (Fail (planner_error (mve_code e) (mve_message e)))
      | Inl Panic \<Rightarrow> Inl Panic
      | Inl OutOfFuel \<Rightarrow> Inl OutOfFuel
      | Inr u \<Rightarrow> Inr u)"

definition plan ::
  "kind_digest \<Rightarrow> (VerificationRule \<Rightarrow> str option) \<Rightarrow> (str \<Rightarrow> (nat \<times> str) option) \<Rightarrow> RestorePlanner \<Rightarrow> PlannerInput
   \<Rightarrow> RestorePlan planning" where
  "plan digest rule_digest uuid_parse planner input =
     (let mcp_servers = rpl_mcp_servers planner in
     try_bind (lift_fail (require_plan_approval (pin_trust input))) (\<lambda>_.
     try_bind (lift_fail (validate_plan_input input)) (\<lambda>_.
     try_bind (lift_fail (GraphIndex_build (pin_graph input))) (\<lambda>graph.
     try_bind (lift_fail (validate_mcp_specs graph mcp_servers (pin_object_index input))) (\<lambda>_.
     try_bind (close_selection graph (pin_selection input) mcp_servers) (\<lambda>(selected, selected_artifacts, warnings).
     try_bind (validate_dependency_cycles graph selected mcp_servers) (\<lambda>_.
     try_bind (lift_fail (validate_target_inputs input selected)) (\<lambda>_.
     try_bind (lift_fail (normalize_warnings (warnings @ sc_warnings (pin_selection input)
                 @ td_warnings (pin_target_diff input) @ cr_warnings (pin_compatibility input)))) (\<lambda>warnings.
     try_bind (plan_specs digest rule_digest mcp_servers input graph selected selected_artifacts) (\<lambda>st.
     if length (pst_specs st) > MAX_PLAN_OPERATIONS
     then Inl (Fail (planner_error SecurityPolicy ''restore plan exceeds the reviewed operation limit''))
     else
     try_bind (topological_order uuid_parse (order_overlapping_writes (pst_specs st)) (pin_run_id input)
                 (rpl_first_ordinal planner)) (\<lambda>operations.
     let plan = \<lparr>rp_format_version = PLAN_FORMAT_VERSION, rp_run_id = pin_run_id input,
                 rp_package_id = pin_package_id input, rp_mode = pin_mode input,
                 rp_target_fingerprint = pin_target_fingerprint input, rp_selected_components = selected,
                 rp_operations = operations, rp_conflicts = relevant_conflicts (td_conflicts (pin_target_diff input)) selected,
                 rp_manual_actions = map snd (pst_manual_actions st), rp_warnings = warnings\<rparr>
     in try_bind (plan_validated plan (pin_object_index input)) (\<lambda>_. Inr plan))))))))))))"

definition plan_restore ::
  "kind_digest \<Rightarrow> (VerificationRule \<Rightarrow> str option) \<Rightarrow> (str \<Rightarrow> (nat \<times> str) option) \<Rightarrow> PlannerInput \<Rightarrow> RestorePlan planning" where
  "plan_restore digest rule_digest uuid_parse input = plan digest rule_digest uuid_parse RestorePlanner_new input"

text \<open>The fields of an inspected package the planner reads.\<close>

record InspectedPackage =
  ipk_manifest :: PackageManifest
  ipk_graph :: PackageGraph
  ipk_selection :: SelectionInput
  ipk_object_index :: ObjectIndex
  ipk_trust :: TrustState

definition from_package ::
  "InspectedPackage \<Rightarrow> RunId \<Rightarrow> RestoreMode \<Rightarrow> str \<Rightarrow> TargetDiff \<Rightarrow> CompatibilityResult \<Rightarrow> PlannerInput planning" where
  "from_package package run_id mode target_fingerprint target_diff compatibility =
     try_bind (build_selection_closure (ipk_graph package) (ipk_selection package)) (\<lambda>selection.
     Inr \<lparr>pin_run_id = run_id, pin_package_id = pm_package_id (ipk_manifest package), pin_mode = mode,
          pin_target_fingerprint = target_fingerprint, pin_graph = ipk_graph package, pin_selection = selection,
          pin_trust = ipk_trust package, pin_target_diff = target_diff, pin_compatibility = compatibility,
          pin_object_index = ipk_object_index package\<rparr>)"

end
