(* ===== verification/DiffSafety.thy ===== *)
theory DiffSafety
  imports Diff
begin

text \<open>
  What the comparison guarantees. Every comparison only appends to the state it is given, so its
  effect is the one on the empty state; from this the first pass is a concatenation of what each
  component contributes. The rounds over the required edges compute the components from which a
  blocked one is reachable, and the ids of conflicts keep component and kind apart, so sorting and
  removing duplicates loses no block.
\<close>

subsection \<open>Binary search\<close>

lemma bsearch_sound: "bsearch xs x lo hi = Some i \<Longrightarrow> lo \<le> i \<and> i < hi \<and> xs ! i = x"
proof (induction xs x lo hi rule: bsearch.induct)
  case (1 xs x lo hi)
  then show ?case
    by (subst (asm) (3) bsearch.simps) (fastforce simp: Let_def split: if_splits)
qed

lemma bsearch_complete:
  assumes "sorted xs" "hi \<le> length xs" "lo \<le> i" "i < hi" "xs ! i = x"
  shows "bsearch xs x lo hi \<noteq> None"
  using assms
proof (induction xs x lo hi rule: bsearch.induct)
  case (1 xs x lo hi)
  let ?mid = "(lo + hi) div 2"
  have mid: "?mid < hi" "lo \<le> ?mid" using 1(5,6) by auto
  consider "xs ! ?mid = x" | "xs ! ?mid < x" | "x < xs ! ?mid" by force
  then show ?case
  proof cases
    case 1
    then show ?thesis using \<open>lo \<le> i\<close> \<open>i < hi\<close> by (subst bsearch.simps) (simp add: Let_def)
  next
    case 2
    then have "?mid < i"
      using 1(3-7) mid by (metis linorder_not_less order_le_less_trans sorted_nth_mono)
    then show ?thesis
      using "1.IH"(1) [OF _ refl] 1(3-7) 2 mid by (subst bsearch.simps) (auto simp: Let_def)
  next
    case 3
    then have "i < ?mid"
      using 1(3-7) mid by (metis linorder_not_less order_less_le_trans order_less_irrefl sorted_nth_mono)
    then show ?thesis
      using "1.IH"(2) [OF _ refl] 1(3-7) 3 mid by (subst bsearch.simps) (auto simp: Let_def)
  qed
qed

lemma binary_search_iff: "sorted xs \<Longrightarrow> binary_search xs x \<noteq> None \<longleftrightarrow> x \<in> set xs"
  using bsearch_sound [of xs x 0 "length xs"] bsearch_complete [of xs "length xs" 0 _ x]
  unfolding binary_search_def in_set_conv_nth by fastforce

lemma binary_search_Some: "binary_search xs x = Some i \<Longrightarrow> i < length xs \<and> xs ! i = x"
  using bsearch_sound [of xs x 0 "length xs" i] by (simp add: binary_search_def)

subsection \<open>Sorting and removing duplicates\<close>

lemma dedup_subset: "set (dedup_by_key k xs) \<subseteq> set xs"
  by (induction k xs rule: dedup_by_key.induct) auto

lemma dedup_keys: "k ` set (dedup_by_key k xs) = k ` set xs"
  by (induction k xs rule: dedup_by_key.induct) auto

lemma dedup_hd: "dedup_by_key k (x # xs) \<noteq> [] \<and> hd (dedup_by_key k (x # xs)) = x"
  by (induction k "x # xs" arbitrary: xs rule: dedup_by_key.induct) auto

lemma dedup_sorted: "sorted (map k xs) \<Longrightarrow> sorted (map k (dedup_by_key k xs))"
proof (induction k xs rule: dedup_by_key.induct)
  case (1 k x y ys)
  then show ?case using dedup_keys [of k "y # ys"] by (auto simp: image_iff)
qed auto

subsection \<open>Comparisons only append\<close>

abbreviation no_diff :: diff_state where
  "no_diff \<equiv> \<lparr>ds_used_installed = {}, ds_used_runtimes = {}, ds_used_environment = {}, ds_conflicts = [], ds_backups = []\<rparr>"

definition extend :: "diff_state \<Rightarrow> diff_state \<Rightarrow> diff_state" where
  "extend st delta =
     \<lparr>ds_used_installed = ds_used_installed st \<union> ds_used_installed delta,
      ds_used_runtimes = ds_used_runtimes st \<union> ds_used_runtimes delta,
      ds_used_environment = ds_used_environment st \<union> ds_used_environment delta,
      ds_conflicts = ds_conflicts st @ ds_conflicts delta, ds_backups = ds_backups st @ ds_backups delta\<rparr>"

lemma extend_simps [simp]:
  "extend st no_diff = st" "extend no_diff st = st" "extend (extend a b) c = extend a (extend b c)"
  by (simp_all add: extend_def Un_assoc)

lemma extend_fields [simp]:
  "ds_used_installed (extend st d) = ds_used_installed st \<union> ds_used_installed d"
  "ds_conflicts (extend st d) = ds_conflicts st @ ds_conflicts d" "ds_backups (extend st d) = ds_backups st @ ds_backups d"
  by (simp_all add: extend_def)

definition framed :: "(diff_state \<Rightarrow> diff_state) \<Rightarrow> bool" where
  "framed f \<longleftrightarrow> (\<forall>st. f st = extend st (f no_diff))"

lemma framedD: "framed f \<Longrightarrow> f st = extend st (f no_diff)"
  unfolding framed_def by (rule spec)

lemma framed_comp: "framed f \<Longrightarrow> framed g \<Longrightarrow> framed (\<lambda>st. g (f st))"
proof -
  assume f: "framed f" and g: "framed g"
  have "g (f st) = extend st (g (f no_diff))" for st
  proof -
    have "g (f st) = extend (extend st (f no_diff)) (g no_diff)"
      using framedD [OF g, of "f st"] framedD [OF f, of st] by (rule back_subst [where P = "\<lambda>x. g (f st) = extend x (g no_diff)"])
    also have "\<dots> = extend st (g (f no_diff))" by (subst framedD [OF g, of "f no_diff"]) (rule extend_simps(3))
    finally show ?thesis .
  qed
  then show ?thesis unfolding framed_def by (rule allI)
qed

lemma framed_id: "framed (\<lambda>st. st)"
  by (simp add: framed_def)

lemma framed_push [simp]: "framed (push_conflict c)" "framed (push_backup b)"
  by (simp_all add: framed_def push_conflict_def push_backup_def extend_def)

lemma framed_use [simp]:
  "framed (\<lambda>st. st\<lparr>ds_used_installed := ds_used_installed st \<union> u\<rparr>)"
  "framed (\<lambda>st. st\<lparr>ds_used_installed := insert i (ds_used_installed st)\<rparr>)"
  "framed (\<lambda>st. st\<lparr>ds_used_installed := insert i (insert k (ds_used_installed st \<union> u))\<rparr>)"
  "framed (\<lambda>st. st\<lparr>ds_used_runtimes := insert i (ds_used_runtimes st)\<rparr>)"
  "framed (\<lambda>st. st\<lparr>ds_used_environment := insert i (ds_used_environment st)\<rparr>)"
  by (simp_all add: framed_def extend_def)

lemma framed_if: "framed f \<Longrightarrow> framed g \<Longrightarrow> framed (\<lambda>st. if b then f st else g st)"
  by (cases b) simp_all

lemma framed_fold: "(\<And>x. framed (f x)) \<Longrightarrow> framed (fold f xs)"
proof (induction xs)
  case (Cons x xs)
  from framed_comp [OF Cons.prems [of x] Cons.IH [OF Cons.prems]] show ?case by (simp add: comp_def)
qed (simp add: framed_id id_def)

lemmas framed_intros = framed_comp framed_id framed_push framed_use framed_if framed_fold

lemma framed_versions: "framed (compare_versions component source target)"
  by (auto simp: compare_versions_def Let_def split: VersionRelation.split)

lemma framed_version_and_source: "framed (compare_version_and_source component target)"
  unfolding compare_version_and_source_def Let_def
  by (cases "source_channel_differs component target")
    (auto simp: framed_versions intro: framed_comp [OF framed_versions framed_push(1)])

text \<open>The presence of a component does not depend on the state, and the comparison is framed.\<close>

definition framed_presence :: "(diff_state \<Rightarrow> bool \<times> diff_state) \<Rightarrow> bool" where
  "framed_presence f \<longleftrightarrow> framed (\<lambda>st. snd (f st)) \<and> (\<forall>st. fst (f st) = fst (f no_diff))"

lemma runtime_framed: "framed_presence (compare_runtime target component)"
proof (cases "find_runtime target component")
  case None
  then show ?thesis by (simp add: framed_presence_def framed_id compare_runtime_def)
next
  case (Some found)
  obtain i runtime where found: "found = (i, runtime)" by fastforce
  have versions: "framed (\<lambda>st. compare_versions (c_id component) (c_version component) (rf_version runtime)
      (st\<lparr>ds_used_runtimes := insert i (ds_used_runtimes st)\<rparr>))"
    by (rule framed_comp [OF framed_use(4) framed_versions])
  show ?thesis
  proof (cases "runtime_architecture_differs component runtime")
    case None
    then show ?thesis
      using Some found by (auto simp: framed_presence_def compare_runtime_def Let_def split_beta intro!: versions)
  next
    case differs: (Some pair)
    then show ?thesis
      using Some found
      by (auto simp: framed_presence_def compare_runtime_def Let_def split_beta intro!: framed_comp [OF versions framed_push(1)])
  qed
qed

lemma environment_framed: "framed_presence (compare_environment content_id target component)"
proof (cases "environment_name component")
  case None
  then show ?thesis by (simp add: framed_presence_def compare_environment_def)
next
  case name: (Some name)
  show ?thesis
  proof (cases "find_variable target (environment_scope component) name")
    case None
    with name show ?thesis by (simp add: framed_presence_def framed_id compare_environment_def)
  next
    case (Some found)
    then show ?thesis
      using name
      by (auto simp: framed_presence_def compare_environment_def Let_def split_beta intro!: framed_comp [OF framed_comp [OF framed_use(5) framed_if [OF framed_push(2) framed_id]] framed_push(1)])
  qed
qed

lemma secret_framed: "framed_presence (compare_secret target component)"
proof (cases "environment_name component")
  case None
  then show ?thesis by (simp add: framed_presence_def framed_id compare_secret_def)
next
  case name: (Some name)
  show ?thesis
  proof (cases "find_variable target (environment_scope component) name")
    case None
    with name show ?thesis by (simp add: framed_presence_def framed_id compare_secret_def)
  next
    case (Some found)
    then show ?thesis
      using name
      by (auto simp: framed_presence_def compare_secret_def Let_def split_beta intro!: framed_comp [OF framed_use(5) framed_push(1)])
  qed
qed

lemma installed_framed: "framed_presence (compare_installed target component)"
proof -
  let ?found = "filter (\<lambda>(index, installed). identity_matches component installed) (enumerate 0 (tf_installed target))"
  consider "?found = []" | i installed where "?found = [(i, installed)]" | x y zs where "?found = x # y # zs"
    by (metis neq_Nil_conv prod.exhaust)
  then show ?thesis
  proof cases
    case 1
    then show ?thesis by (simp add: framed_presence_def framed_id compare_installed_def)
  next
    case (2 i installed)
    then show ?thesis
      by (auto simp: framed_presence_def compare_installed_def Let_def split_beta intro!: framed_comp [OF framed_use(2) framed_version_and_source])
  next
    case (3 x y zs)
    then show ?thesis
      by (auto simp: framed_presence_def compare_installed_def Let_def split_beta intro!: framed_comp [OF framed_use(3) framed_push(1)])
  qed
qed

lemma presence_framed: "framed_presence (compare_presence content_id target component)"
  by (simp add: compare_presence_def runtime_framed environment_framed secret_framed installed_framed)

text \<open>What one component contributes: its presence and the comparison on the empty state.\<close>

definition presence :: "(str \<Rightarrow> ObjectId) \<Rightarrow> TargetFacts \<Rightarrow> Component \<Rightarrow> bool" where
  "presence content_id target component = fst (compare_presence content_id target component no_diff)"

definition contribution :: "(str \<Rightarrow> ObjectId) \<Rightarrow> TargetFacts \<Rightarrow> Component \<Rightarrow> diff_state" where
  "contribution content_id target component = snd (compare_component content_id target component ([], no_diff))"

definition pending_of :: "(str \<Rightarrow> ObjectId) \<Rightarrow> TargetFacts \<Rightarrow> Component \<Rightarrow> PendingComponentDiff" where
  "pending_of content_id target component =
     \<lparr>pcd_component = c_id component, pcd_target_present = presence content_id target component\<rparr>"

lemma framed_rest:
  "framed (\<lambda>st. compare_artifacts component present (compare_supported_state component (compare_architecture target component st)))"
proof -
  have "framed (compare_architecture target component)" "framed (compare_supported_state component)"
    unfolding compare_architecture_def [abs_def] compare_supported_state_def [abs_def]
    by (cases "required_architecture component") (simp_all add: framed_id framed_if)
  moreover have "framed (compare_artifact component present artifact)" for artifact
  proof -
    obtain kind b sfx where row: "artifact_policy_row (art_policy artifact) = (kind, b, sfx)" by (rule prod_cases3)
    show ?thesis
      unfolding compare_artifact_def [abs_def] Let_def row
      by (cases b; cases present; simp add: framed_id framed_comp [OF framed_push(1) framed_push(2)])
  qed
  then have "framed (compare_artifacts component present)" unfolding compare_artifacts_def by (rule framed_fold)
  ultimately show ?thesis using framed_comp [OF framed_comp] by blast
qed

lemma compare_component_appends:
  "compare_component content_id target component (states, st)
     = (states @ [pending_of content_id target component], extend st (contribution content_id target component))"
proof -
  let ?rest = "\<lambda>st. compare_artifacts component (presence content_id target component)
      (compare_supported_state component (compare_architecture target component st))"
  note frame = presence_framed [of content_id target component, unfolded framed_presence_def]
  have fst: "fst (compare_presence content_id target component s) = presence content_id target component" for s
    using frame unfolding presence_def by blast
  have eq: "compare_component content_id target component (ss, s)
      = (ss @ [pending_of content_id target component], ?rest (snd (compare_presence content_id target component s)))" for ss s
    using fst [of s] by (simp add: compare_component_def pending_of_def split_beta)
  have "framed (\<lambda>s. ?rest (snd (compare_presence content_id target component s)))"
    using framed_comp [OF conjunct1 [OF frame] framed_rest] .
  then have "?rest (snd (compare_presence content_id target component st))
      = extend st (?rest (snd (compare_presence content_id target component no_diff)))" by (rule framedD)
  then show ?thesis unfolding contribution_def eq by simp
qed

lemma compare_all:
  "fold (compare_component content_id target) cs (states, st)
     = (states @ map (pending_of content_id target) cs, fold (\<lambda>c st. extend st (contribution content_id target c)) cs st)"
  by (induction cs arbitrary: states st) (simp_all add: compare_component_appends)

lemma fold_extend_fields:
  "ds_conflicts (fold (\<lambda>c st. extend st (d c)) cs st) = ds_conflicts st @ concat (map (\<lambda>c. ds_conflicts (d c)) cs)"
  "ds_backups (fold (\<lambda>c st. extend st (d c)) cs st) = ds_backups st @ concat (map (\<lambda>c. ds_backups (d c)) cs)"
  "ds_used_installed (fold (\<lambda>c st. extend st (d c)) cs st) = ds_used_installed st \<union> (\<Union>c \<in> set cs. ds_used_installed (d c))"
  by (induction cs arbitrary: st) (auto simp: extend_def)

text \<open>The first pass as a whole.\<close>

lemma first_pass:
  assumes "compare_components content_id graph target = (states, st)"
  shows "states = map (pending_of content_id target) (sort_key c_id (g_components graph))"
    and "set (ds_conflicts st) = (\<Union>c \<in> set (g_components graph). set (ds_conflicts (contribution content_id target c)))"
    and "set (ds_backups st) = (\<Union>c \<in> set (g_components graph). set (ds_backups (contribution content_id target c)))"
    and "ds_used_installed st = (\<Union>c \<in> set (g_components graph). ds_used_installed (contribution content_id target c))"
  using assms unfolding compare_components_def compare_all
  by (auto simp: fold_extend_fields)

subsection \<open>What a component's own facts block\<close>

text \<open>A component that can not be restored on this target for reasons of its own.\<close>

definition ambiguous_or_foreign :: "TargetFacts \<Rightarrow> Component \<Rightarrow> bool" where
  "ambiguous_or_foreign target component \<longleftrightarrow>
     (let found = filter (identity_matches component) (tf_installed target)
      in length found > 1 \<or> (\<exists>installed. found = [installed] \<and> source_channel_differs component installed \<noteq> None))"

definition presence_blocked :: "TargetFacts \<Rightarrow> Component \<Rightarrow> bool" where
  "presence_blocked target component \<longleftrightarrow>
     (if c_kind component = Runtime
      then \<exists>i runtime. find_runtime target component = Some (i, runtime) \<and> runtime_architecture_differs component runtime \<noteq> None
      else if c_kind component = EnvironmentVariable then environment_name component = None
      else if c_kind component = ComponentKind.SecretReference then False
      else ambiguous_or_foreign target component)"

definition intrinsically_blocked :: "(str \<Rightarrow> ObjectId) \<Rightarrow> TargetFacts \<Rightarrow> Component \<Rightarrow> bool" where
  "intrinsically_blocked content_id target component \<longleftrightarrow>
     presence_blocked target component
     \<or> (\<exists>a. required_architecture component = Some a \<and> \<not> source_architecture_matches a (hf_architecture (tf_host target)))
     \<or> \<not> supported_state component
     \<or> presence content_id target component
       \<and> (\<exists>artifact \<in> set (c_artifacts component). art_policy artifact = ArtifactPolicy.Manual)"

definition blocking_kind :: "ConflictKind \<Rightarrow> bool" where
  "blocking_kind kind \<longleftrightarrow> kind \<in> {DependencyConflict, ConflictKind.ArchitectureConflict, UnsupportedTarget}"

lemma classify_simps [simp]:
  "cc_blocks_planning (classify_conflict c kind s t sfx d) = blocking_kind kind"
  "cf_component (cc_conflict (classify_conflict c kind s t sfx d)) = c"
  "cf_kind (cc_conflict (classify_conflict c kind s t sfx d)) = kind"
  "cf_id (cc_conflict (classify_conflict c kind s t sfx d)) = conflict_id c kind sfx"
  by (cases "(kind, d)" rule: conflict_defaults.cases; simp add: classify_conflict_def blocking_kind_def)+

lemma blocking_kind_simps [simp]:
  "blocking_kind DependencyConflict" "blocking_kind ConflictKind.ArchitectureConflict" "blocking_kind UnsupportedTarget"
  "\<not> blocking_kind AlreadySatisfied" "\<not> blocking_kind VersionDifference" "\<not> blocking_kind ConfigDifference"
  "\<not> blocking_kind DataCollision" "\<not> blocking_kind SecretCollision" "\<not> blocking_kind PathCollision"
  "\<not> blocking_kind PortCollision"
  by (simp_all add: blocking_kind_def)

text \<open>A conflict of a component as the comparisons make it.\<close>

definition made_for :: "ComponentId \<Rightarrow> ClassifiedConflict \<Rightarrow> bool" where
  "made_for x c \<longleftrightarrow> (\<exists>kind s t sfx d. c = classify_conflict (Some x) kind s t sfx d)"

lemma made_for_classify [simp]: "made_for x (classify_conflict (Some x) kind s t sfx d)"
  unfolding made_for_def by blast

text \<open>A state whose conflicts are all of one component, and which blocks exactly in one case.\<close>

definition blocks_if :: "ComponentId \<Rightarrow> bool \<Rightarrow> diff_state \<Rightarrow> bool" where
  "blocks_if x b st \<longleftrightarrow>
     (\<forall>c \<in> set (ds_conflicts st). made_for x c) \<and> ((\<exists>c \<in> set (ds_conflicts st). cc_blocks_planning c) \<longleftrightarrow> b)"

lemma blocks_if_push [simp]:
  "blocks_if x b (push_backup k st) = blocks_if x b st"
  "blocks_if x b (st\<lparr>ds_used_runtimes := u\<rparr>) = blocks_if x b st" "blocks_if x b (st\<lparr>ds_used_environment := u\<rparr>) = blocks_if x b st"
  "blocks_if x b (st\<lparr>ds_used_installed := u\<rparr>) = blocks_if x b st"
  by (simp_all add: blocks_if_def push_backup_def)

lemma blocks_if_conflict:
  "blocks_if x b st \<Longrightarrow> blocks_if x (b \<or> blocking_kind kind) (push_conflict (classify_conflict (Some x) kind s t sfx d) st)"
  by (auto simp: blocks_if_def push_conflict_def)

lemma blocks_if_plain:
  "blocks_if x b st \<Longrightarrow> \<not> blocking_kind kind \<Longrightarrow> blocks_if x b (push_conflict (classify_conflict (Some x) kind s t sfx d) st)"
  using blocks_if_conflict [of x b st kind s t sfx d] by simp

lemma blocks_if_blocking:
  "blocks_if x b st \<Longrightarrow> blocking_kind kind \<Longrightarrow> blocks_if x True (push_conflict (classify_conflict (Some x) kind s t sfx d) st)"
  using blocks_if_conflict [of x b st kind s t sfx d] by simp

lemma blocks_if_none:
  "blocks_if x False \<lparr>ds_used_installed = i, ds_used_runtimes = r, ds_used_environment = e, ds_conflicts = [], ds_backups = bs\<rparr>"
  by (simp add: blocks_if_def)

lemma blocks_versions: "blocks_if x b st \<Longrightarrow> blocks_if x b (compare_versions x v w st)"
  by (simp add: compare_versions_def Let_def blocks_if_plain split: VersionRelation.split)

lemma blocks_runtime:
  "blocks_if (c_id c) (\<exists>i runtime. find_runtime target c = Some (i, runtime) \<and> runtime_architecture_differs c runtime \<noteq> None)
     (snd (compare_runtime target c no_diff))"
  by (auto simp: compare_runtime_def Let_def blocks_if_none split: option.split
      intro!: blocks_versions blocks_if_blocking [where b = False, OF blocks_versions])

lemma blocks_environment: "blocks_if (c_id c) (environment_name c = None) (snd (compare_environment content_id target c no_diff))"
proof (cases "environment_name c")
  case None
  then show ?thesis
    using blocks_if_blocking [OF blocks_if_none, of UnsupportedTarget "c_id c"] by (simp add: compare_environment_def)
next
  case (Some name)
  have "\<not> blocking_kind (environment_conflict_kind content_id c name variable)" for variable
    by (simp add: environment_conflict_kind_def)
  with Some show ?thesis
    by (auto simp: compare_environment_def Let_def blocks_if_none split: option.split intro!: blocks_if_plain)
qed

lemma blocks_secret: "blocks_if (c_id c) False (snd (compare_secret target c no_diff))"
  by (auto simp: compare_secret_def blocks_if_none split: option.split intro!: blocks_if_plain)

lemma snd_filter_enumerate: "map snd (filter (\<lambda>(i, x). P x) (enumerate n xs)) = filter P xs"
  by (induction xs arbitrary: n) auto

lemma blocks_installed: "blocks_if (c_id c) (ambiguous_or_foreign target c) (snd (compare_installed target c no_diff))"
proof -
  let ?found = "filter (\<lambda>(i, installed). identity_matches c installed) (enumerate 0 (tf_installed target))"
  have found: "filter (identity_matches c) (tf_installed target) = map snd ?found"
    by (rule snd_filter_enumerate [symmetric])
  show ?thesis
    unfolding ambiguous_or_foreign_def found
    by (auto simp: compare_installed_def Let_def compare_version_and_source_def blocks_if_none split: list.split option.split
        intro!: blocks_versions blocks_if_blocking [where b = False, OF blocks_versions] blocks_if_blocking [where b = False])
qed

lemma blocks_presence: "blocks_if (c_id c) (presence_blocked target c) (snd (compare_presence content_id target c no_diff))"
  unfolding compare_presence_def presence_blocked_def
  using blocks_runtime blocks_environment blocks_secret blocks_installed by presburger

lemma blocks_architecture:
  "blocks_if (c_id c) b st \<Longrightarrow> blocks_if (c_id c)
     (b \<or> (\<exists>a. required_architecture c = Some a \<and> \<not> source_architecture_matches a (hf_architecture (tf_host target))))
     (compare_architecture target c st)"
  by (auto simp: compare_architecture_def split: option.split intro: blocks_if_blocking)

lemma blocks_supported: "blocks_if (c_id c) b st \<Longrightarrow> blocks_if (c_id c) (b \<or> \<not> supported_state c) (compare_supported_state c st)"
  by (auto simp: compare_supported_state_def intro: blocks_if_blocking)

lemma policy_row_blocks: "blocking_kind (fst (artifact_policy_row p)) \<longleftrightarrow> p = ArtifactPolicy.Manual"
  by (cases p) simp_all

lemma blocks_artifacts:
  "blocks_if (c_id c) b st \<Longrightarrow> blocks_if (c_id c)
     (b \<or> present \<and> (\<exists>artifact \<in> set artifacts. art_policy artifact = ArtifactPolicy.Manual))
     (fold (compare_artifact c present) artifacts st)"
proof (induction artifacts arbitrary: b st)
  case (Cons artifact artifacts)
  obtain kind k sfx where row: "artifact_policy_row (art_policy artifact) = (kind, k, sfx)" by (rule prod_cases3)
  have "blocks_if (c_id c) (b \<or> present \<and> art_policy artifact = ArtifactPolicy.Manual) (compare_artifact c present artifact st)"
  proof -
    have "art_policy artifact = ArtifactPolicy.Manual \<longleftrightarrow> blocking_kind kind"
      using policy_row_blocks [of "art_policy artifact"] row by simp
    then show ?thesis
      using Cons.prems blocks_if_conflict [OF Cons.prems, of kind]
      by (cases present; cases k; simp add: compare_artifact_def Let_def row)
  qed
  from Cons.IH [OF this] show ?case by (simp add: disj_assoc conj_disj_distribL)
qed simp

lemma compared_manual: "(\<exists>artifact \<in> set (compared_artifacts c). art_policy artifact = ArtifactPolicy.Manual)
    \<longleftrightarrow> (\<exists>artifact \<in> set (c_artifacts c). art_policy artifact = ArtifactPolicy.Manual)"
  by (auto simp: compared_artifacts_def)

lemma contribution_blocks:
  "blocks_if (c_id c) (intrinsically_blocked content_id target c) (contribution content_id target c)"
proof -
  have eq: "contribution content_id target c = compare_artifacts c (presence content_id target c)
      (compare_supported_state c (compare_architecture target c (snd (compare_presence content_id target c no_diff))))"
    by (simp add: contribution_def compare_component_def presence_def split_beta)
  show ?thesis
    using blocks_artifacts [where c = c and present = "presence content_id target c" and artifacts = "compared_artifacts c",
        OF blocks_supported [OF blocks_architecture [where target = target, OF blocks_presence [where content_id = content_id]]]]
    unfolding eq compare_artifacts_def compared_manual intrinsically_blocked_def by (simp add: disj_assoc)
qed

subsection \<open>Conflict ids\<close>

lemma kind_key_inj: "conflict_kind_key a = conflict_kind_key b \<Longrightarrow> a = b"
  by (cases a; cases b; simp)

lemma kind_key_no_colon: "CHR '':'' \<notin> set (conflict_kind_key k)"
  by (cases k) simp_all

lemma split_at_colon:
  assumes "a @ CHR '':'' # s = b @ CHR '':'' # t" "CHR '':'' \<notin> set a" "CHR '':'' \<notin> set b"
  shows "a = b \<and> s = t"
  using assms
proof (induction a arbitrary: b)
  case Nil
  then show ?case by (cases b) auto
next
  case (Cons x a)
  then show ?case by (cases b) auto
qed

lemma conflict_id_inj:
  assumes "conflict_id (Some a) k s = conflict_id (Some b) k' s'" "CHR '':'' \<notin> set a" "CHR '':'' \<notin> set b"
  shows "a = b \<and> k = k'"
proof -
  have "a @ CHR '':'' # (conflict_kind_key k @ CHR '':'' # safe_suffix s)
      = b @ CHR '':'' # (conflict_kind_key k' @ CHR '':'' # safe_suffix s')"
    using assms(1) by (simp add: conflict_id_def)
  from split_at_colon [OF this assms(2,3)]
  have ab: "a = b" and rest: "conflict_kind_key k @ CHR '':'' # safe_suffix s = conflict_kind_key k' @ CHR '':'' # safe_suffix s'"
    by auto
  from split_at_colon [OF rest kind_key_no_colon kind_key_no_colon] kind_key_inj ab show ?thesis by blast
qed

text \<open>Among conflicts of components without colons in their ids, the id decides component and block.\<close>

definition all_made :: "ComponentId set \<Rightarrow> ClassifiedConflict list \<Rightarrow> bool" where
  "all_made ids cs \<longleftrightarrow> (\<forall>c \<in> set cs. \<exists>x \<in> ids. made_for x c)"

definition blocked_in :: "ClassifiedConflict list \<Rightarrow> ComponentId set" where
  "blocked_in cs = {x. \<exists>c \<in> set cs. cc_blocks_planning c \<and> cf_component (cc_conflict c) = Some x}"

lemma same_id:
  assumes "made_for x c" "made_for y d" "cf_id (cc_conflict c) = cf_id (cc_conflict d)"
    "CHR '':'' \<notin> set x" "CHR '':'' \<notin> set y"
  shows "x = y \<and> cc_blocks_planning c = cc_blocks_planning d"
  using assms conflict_id_inj unfolding made_for_def by (metis classify_simps(1,4))

subsection \<open>Propagation over required edges\<close>

definition required_rel :: "PackageGraph \<Rightarrow> (ComponentId \<times> ComponentId) set" where
  "required_rel graph = {(edge_from e, edge_to e) | e. e \<in> set (graph_edges graph) \<and> edge_required e}"

definition reaches :: "('a \<times> 'a) set \<Rightarrow> 'a set \<Rightarrow> 'a set" where
  "reaches R B = {x. \<exists>y \<in> B. (x, y) \<in> R\<^sup>*}"

lemma required_edges_rel: "(\<lambda>e. (edge_from e, edge_to e)) ` set (required_edges graph) = required_rel graph"
proof -
  let ?k = "\<lambda>e. (edge_from e, edge_to e, edge_kind e)" and ?f = "\<lambda>(a, b, _). (a, b)"
  have "?f ` ?k ` set (required_edges graph) = ?f ` ?k ` set (filter edge_required (graph_edges graph))"
    unfolding required_edges_def dedup_keys by simp
  then show ?thesis unfolding image_image by (auto simp: required_rel_def)
qed

lemma blocked_in_append: "blocked_in (cs @ [c]) = blocked_in cs \<union> (if cc_blocks_planning c then set_option (cf_component (cc_conflict c)) else {})"
  by (auto simp: blocked_in_def)

definition propagation_inv :: "ComponentId set \<Rightarrow> ComponentId set \<Rightarrow> ComponentId set \<Rightarrow> propagation \<Rightarrow> bool" where
  "propagation_inv ids B0 bound pg \<longleftrightarrow>
     all_made ids (pg_conflicts pg) \<and> pg_blocked pg = blocked_in (pg_conflicts pg)
     \<and> B0 \<subseteq> pg_blocked pg \<and> pg_blocked pg \<subseteq> bound"

lemma propagate_edge_inv:
  assumes inv: "propagation_inv ids B0 bound pg" and colon: "\<forall>x \<in> ids. CHR '':'' \<notin> set x"
    and edge: "edge_from e \<in> ids" "edge_to e \<in> ids" "edge_to e \<in> bound \<longrightarrow> edge_from e \<in> bound"
  shows "propagation_inv ids B0 bound (propagate_edge ids e pg)"
proof (cases "edge_to e \<in> pg_blocked pg")
  case False
  then show ?thesis using inv edge by (simp add: propagate_edge_def)
next
  case True
  let ?d = "dependency_conflict e"
  have d: "made_for (edge_from e) ?d" "cc_blocks_planning ?d" "cf_component (cc_conflict ?d) = Some (edge_from e)"
    by (simp_all add: dependency_conflict_def)
  have bound: "edge_from e \<in> bound" using True inv edge(3) by (auto simp: propagation_inv_def)
  show ?thesis
  proof (cases "list_ex (\<lambda>c. cf_id (cc_conflict c) = cf_id (cc_conflict ?d)) (pg_conflicts pg)")
    case old: True
    then obtain c where c: "c \<in> set (pg_conflicts pg)" "cf_id (cc_conflict c) = cf_id (cc_conflict ?d)" by (auto simp: list_ex_iff)
    obtain x where x: "x \<in> ids" "made_for x c" using inv c(1) by (auto simp: propagation_inv_def all_made_def)
    have "x = edge_from e \<and> cc_blocks_planning c" using same_id [OF x(2) d(1) c(2)] colon x(1) edge(1) d(2) by blast
    moreover have "cf_component (cc_conflict c) = Some x" using x(2) by (auto simp: made_for_def)
    ultimately have "edge_from e \<in> blocked_in (pg_conflicts pg)" using c(1) by (auto simp: blocked_in_def)
    then show ?thesis
      using inv True old edge by (auto simp: propagation_inv_def propagate_edge_def Let_def insert_absorb)
  next
    case False
    then show ?thesis
      using inv True edge d bound
      by (auto simp: propagation_inv_def propagate_edge_def Let_def blocked_in_append all_made_def)
  qed
qed

lemma propagate_fold_inv:
  assumes "propagation_inv ids B0 bound pg" and "\<forall>x \<in> ids. CHR '':'' \<notin> set x"
    and "\<And>e. e \<in> set edges \<Longrightarrow> edge_from e \<in> ids \<and> edge_to e \<in> ids \<and> (edge_to e \<in> bound \<longrightarrow> edge_from e \<in> bound)"
  shows "propagation_inv ids B0 bound (fold (propagate_edge ids) edges pg)"
  using assms
proof (induction edges arbitrary: pg)
  case (Cons e edges)
  then have "propagation_inv ids B0 bound (propagate_edge ids e pg)" by (intro propagate_edge_inv) auto
  with Cons show ?case by simp
qed simp

lemma propagate_fold_closed:
  "e \<in> set edges \<Longrightarrow> edge_to e \<in> pg_blocked pg \<Longrightarrow> edge_from e \<in> pg_blocked (fold (propagate_edge ids) edges pg)"
proof (induction edges arbitrary: pg)
  case (Cons x edges)
  show ?case
  proof (cases "e = x")
    case True
    then have "edge_from e \<in> pg_blocked (propagate_edge ids x pg)" using Cons.prems(2) by (simp add: propagate_edge_def Let_def)
    then show ?thesis using propagate_fold_blocked(1) [of "propagate_edge ids x pg" ids edges] by auto
  next
    case False
    then show ?thesis using Cons propagate_edge_blocked(1) [of pg ids x] by auto
  qed
qed simp

lemma closed_reaches:
  assumes "B0 \<subseteq> B" "B \<subseteq> reaches R B0" "\<And>x y. (x, y) \<in> R \<Longrightarrow> y \<in> B \<Longrightarrow> x \<in> B"
  shows "B = reaches R B0"
proof
  show "reaches R B0 \<subseteq> B"
  proof
    fix x assume "x \<in> reaches R B0"
    then obtain y where "(x, y) \<in> R\<^sup>*" "y \<in> B0" by (auto simp: reaches_def)
    then show "x \<in> B" by (induction rule: converse_rtrancl_induct) (use assms in auto)
  qed
qed fact

lemma propagate_blocked:
  assumes "propagation_inv ids B0 (reaches R B0) pg" and colon: "\<forall>x \<in> ids. CHR '':'' \<notin> set x"
    and edges: "\<And>e. e \<in> set edges \<Longrightarrow> edge_from e \<in> ids \<and> edge_to e \<in> ids" and R: "(\<lambda>e. (edge_from e, edge_to e)) ` set edges = R"
  shows "all_made ids (pg_conflicts (propagate ids edges pg)) \<and> blocked_in (pg_conflicts (propagate ids edges pg)) = reaches R B0"
  using assms
proof (induction ids edges pg rule: propagate.induct)
  case (1 ids edges pg)
  let ?pg = "propagate_round ids edges pg"
  have "edge_to e \<in> reaches R B0 \<longrightarrow> edge_from e \<in> reaches R B0" if "e \<in> set edges" for e
    using that 1(5) by (auto simp: reaches_def intro: converse_rtrancl_into_rtrancl)
  then have inv: "propagation_inv ids B0 (reaches R B0) ?pg"
    unfolding propagate_round_def using 1(2,3,4) by (intro propagate_fold_inv) (auto simp: propagation_inv_def)
  show ?case
  proof (cases "pg_changed ?pg")
    case True
    with 1(1) [OF refl True inv 1(3,4,5)] show ?thesis by (subst (1 2) propagate.simps) (simp add: Let_def)
  next
    case False
    then have same: "pg_blocked ?pg = pg_blocked pg" using propagate_round_blocked(3) by blast
    have "pg_blocked ?pg = reaches R B0"
    proof (rule closed_reaches)
      fix x y assume "(x, y) \<in> R" "y \<in> pg_blocked ?pg"
      then obtain e where "e \<in> set edges" "x = edge_from e" "edge_to e \<in> pg_blocked pg" using 1(5) same by auto
      then show "x \<in> pg_blocked ?pg"
        using propagate_fold_closed [of e edges "pg\<lparr>pg_changed := False\<rparr>" ids] by (simp add: propagate_round_def)
    qed (use inv in \<open>auto simp: propagation_inv_def\<close>)
    with False inv show ?thesis by (subst (1 2) propagate.simps) (simp add: Let_def propagation_inv_def)
  qed
qed

subsection \<open>Validated inputs\<close>

lemma validate_component_step:
  "validate_component c (ids, arts, n) = Inr s \<Longrightarrow> c_id c \<notin> ids \<and> (\<exists>arts' n'. s = (insert (c_id c) ids, arts', n'))"
  by (auto simp: validate_component_def result_simps split: if_splits)

lemma validate_component_ids:
  "try_fold validate_component cs (ids, arts, n) = Inr (ids', arts', n') \<Longrightarrow> ids' = ids \<union> c_id ` set cs \<and> distinct (map c_id cs)
     \<and> ids \<inter> c_id ` set cs = {}"
proof (induction cs arbitrary: ids arts n)
  case (Cons c cs)
  then obtain arts1 n1 where new: "c_id c \<notin> ids"
    and rest: "try_fold validate_component cs (insert (c_id c) ids, arts1, n1) = Inr (ids', arts', n')"
    by (auto simp: result_simps dest!: validate_component_step)
  from Cons.IH [OF rest] new show ?case by auto
qed simp

lemma validated:
  assumes "validate_inputs graph target = Inr u"
  shows "distinct (map c_id (g_components graph))"
    and "\<And>e. e \<in> set (graph_edges graph) \<Longrightarrow>
        edge_from e \<in> c_id ` set (g_components graph) \<and> edge_to e \<in> c_id ` set (g_components graph)"
proof -
  obtain ids arts n where fold: "try_fold validate_component (g_components graph) ({}, {}, 0) = Inr (ids, arts, n)"
    and edges: "\<forall>e \<in> set (graph_edges graph). edge_from e \<in> ids \<and> edge_to e \<in> ids"
    using assms by (auto simp: validate_inputs_def result_simps split: if_splits)
  from validate_component_ids [OF fold] edges
  show "distinct (map c_id (g_components graph))"
    "\<And>e. e \<in> set (graph_edges graph) \<Longrightarrow>
        edge_from e \<in> c_id ` set (g_components graph) \<and> edge_to e \<in> c_id ` set (g_components graph)" by auto
qed

lemma component_id_no_colon:
  assumes "ComponentId_new x = Inr y"
  shows "CHR '':'' \<notin> set x"
proof -
  obtain digest where "x = ''cmp_'' @ digest" "list_all base32_char digest"
    using assms by (auto simp: ComponentId_new_def strip_prefix_def starts_with_iff split: option.splits if_splits)
  then show ?thesis by (auto simp: list_all_iff base32_char_def is_ascii_lower_def)
qed

subsection \<open>The blocked components\<close>

abbreviation conflict_key :: "ClassifiedConflict \<Rightarrow> str" where
  "conflict_key c \<equiv> cf_id (cc_conflict c)"

lemma blocked_in_dedup:
  assumes "all_made ids cs" and "\<forall>x \<in> ids. CHR '':'' \<notin> set x"
  shows "blocked_in (dedup_by_key conflict_key (sort_key conflict_key cs)) = blocked_in cs"
proof
  let ?ds = "dedup_by_key conflict_key (sort_key conflict_key cs)"
  have sub: "set ?ds \<subseteq> set cs" using dedup_subset [of conflict_key "sort_key conflict_key cs"] by simp
  then show "blocked_in ?ds \<subseteq> blocked_in cs" by (auto simp: blocked_in_def)
  show "blocked_in cs \<subseteq> blocked_in ?ds"
  proof
    fix x assume "x \<in> blocked_in cs"
    then obtain c where c: "c \<in> set cs" "cc_blocks_planning c" "cf_component (cc_conflict c) = Some x" by (auto simp: blocked_in_def)
    have "conflict_key c \<in> conflict_key ` set ?ds" using c(1) dedup_keys [of conflict_key "sort_key conflict_key cs"] by simp
    then obtain d where d: "d \<in> set ?ds" "conflict_key d = conflict_key c" by auto
    obtain y z where y: "y \<in> ids" "made_for y c" and z: "z \<in> ids" "made_for z d"
      using assms(1) c(1) d(1) sub unfolding all_made_def by blast
    have "z = y \<and> cc_blocks_planning d" using same_id [OF z(2) y(2) d(2)] assms(2) y(1) z(1) c(2) by blast
    moreover have "y = x" "cf_component (cc_conflict d) = Some z" using y(2) z(2) c(3) by (auto simp: made_for_def)
    ultimately show "x \<in> blocked_in ?ds" using d(1) by (auto simp: blocked_in_def)
  qed
qed

lemma blocked_disposition:
  assumes "all_made ids cs" "\<forall>x \<in> ids. CHR '':'' \<notin> set x" "sorted (map conflict_key cs)"
  shows "cd_disposition (finish_component (map cc_conflict cs) (map conflict_key (filter cc_blocks_planning cs)) p) = Blocked
    \<longleftrightarrow> pcd_component p \<in> blocked_in cs"
proof -
  let ?own = "filter (\<lambda>c. cf_component c = Some (pcd_component p)) (map cc_conflict cs)"
  let ?ids = "map conflict_key (filter cc_blocks_planning cs)"
  have "sorted ?ids" using assms(3) sorted_filter by blast
  then have "list_ex (\<lambda>c. binary_search ?ids (cf_id c) \<noteq> None) ?own \<longleftrightarrow> (\<exists>c \<in> set ?own. cf_id c \<in> set ?ids)"
    unfolding list_ex_iff using binary_search_iff by blast
  also have "\<dots> \<longleftrightarrow> pcd_component p \<in> blocked_in cs"
  proof
    assume "\<exists>c \<in> set ?own. cf_id c \<in> set ?ids"
    then obtain c d where c: "c \<in> set cs" "cf_component (cc_conflict c) = Some (pcd_component p)"
      and d: "d \<in> set cs" "cc_blocks_planning d" "conflict_key c = conflict_key d" by auto
    obtain y z where y: "y \<in> ids" "made_for y c" and z: "z \<in> ids" "made_for z d"
      using assms(1) c(1) d(1) unfolding all_made_def by blast
    have "cc_blocks_planning c" using same_id [OF y(2) z(2) d(3)] assms(2) y(1) z(1) d(2) by blast
    then show "pcd_component p \<in> blocked_in cs" using c by (auto simp: blocked_in_def)
  qed (auto simp: blocked_in_def)
  finally show ?thesis by (auto simp: finish_component_def Let_def disposition_def)
qed

lemma first_pass_blocks:
  assumes "compare_components content_id graph target = (states, st)"
  shows "all_made (c_id ` set (g_components graph)) (ds_conflicts st)"
    and "blocked_in (ds_conflicts st) = {c_id c | c. c \<in> set (g_components graph) \<and> intrinsically_blocked content_id target c}"
proof -
  note contribution = contribution_blocks [unfolded blocks_if_def]
  show "all_made (c_id ` set (g_components graph)) (ds_conflicts st)"
    unfolding all_made_def first_pass(2) [OF assms] using contribution by blast
  have made: "cf_component (cc_conflict k) = Some (c_id c)" if "k \<in> set (ds_conflicts (contribution content_id target c))" for c k
    using contribution that by (fastforce simp: made_for_def)
  show "blocked_in (ds_conflicts st) = {c_id c | c. c \<in> set (g_components graph) \<and> intrinsically_blocked content_id target c}"
    unfolding blocked_in_def first_pass(2) [OF assms] using contribution made by fastforce
qed

lemma map_filter_set: "set (List.map_filter f xs) = {y. \<exists>x \<in> set xs. f x = Some y}"
  by (auto simp: List.map_filter_def image_iff) force

lemma final_blocked:
  assumes "validate_inputs graph target = Inr u" and "compare_components content_id graph target = (states, st)"
    and colon: "\<forall>x \<in> c_id ` set (g_components graph). CHR '':'' \<notin> set x"
  defines "B \<equiv> {c_id c | c. c \<in> set (g_components graph) \<and> intrinsically_blocked content_id target c}"
  shows "all_made (c_id ` set (g_components graph)) (final_conflicts graph (states, st))"
    and "blocked_in (final_conflicts graph (states, st)) = reaches (required_rel graph) B"
    and "sorted (map conflict_key (final_conflicts graph (states, st)))"
proof -
  let ?ids = "c_id ` set (g_components graph)"
  have states: "set (map pcd_component states) = ?ids" by (simp add: first_pass(1) [OF assms(2)] pending_of_def image_image)
  let ?pg = "\<lparr>pg_changed = False,
      pg_blocked = set (List.map_filter (\<lambda>c. cf_component (cc_conflict c)) (filter cc_blocks_planning (ds_conflicts st))),
      pg_conflicts = ds_conflicts st\<rparr>"
  have "pg_blocked ?pg = blocked_in (ds_conflicts st)" by (auto simp: map_filter_set blocked_in_def)
  then have inv: "propagation_inv ?ids B (reaches (required_rel graph) B) ?pg"
    using first_pass_blocks [OF assms(2)] by (auto simp: propagation_inv_def B_def reaches_def)
  have edges: "edge_from e \<in> ?ids \<and> edge_to e \<in> ?ids" if "e \<in> set (required_edges graph)" for e
    using that dedup_subset validated(2) [OF assms(1)] unfolding required_edges_def by fastforce
  let ?cs = "add_dependency_conflicts graph states (ds_conflicts st)"
  have cs: "all_made ?ids ?cs" "blocked_in ?cs = reaches (required_rel graph) B"
    using propagate_blocked [OF inv colon edges required_edges_rel] by (simp_all only: add_dependency_conflicts_def states)
  have final: "final_conflicts graph (states, st) = dedup_by_key conflict_key (sort_key conflict_key ?cs)"
    by (simp add: final_conflicts_def)
  show "all_made ?ids (final_conflicts graph (states, st))"
    using cs(1) dedup_subset [of conflict_key "sort_key conflict_key ?cs"] unfolding final all_made_def by auto
  show "blocked_in (final_conflicts graph (states, st)) = reaches (required_rel graph) B"
    unfolding final blocked_in_dedup [OF cs(1) colon] by (rule cs(2))
  show "sorted (map conflict_key (final_conflicts graph (states, st)))"
    unfolding final by (rule dedup_sorted) simp
qed

lemma compare_Inr:
  assumes "compare content_id graph target = Inr diff"
  obtains states st where "validate_inputs graph target = Inr ()" "compare_components content_id graph target = (states, st)"
    "td_components diff = map (finish_component (map cc_conflict (final_conflicts graph (states, st)))
        (map conflict_key (filter cc_blocks_planning (final_conflicts graph (states, st))))) states"
    "td_preserved_target diff = unused (ds_used_installed st) (tf_installed target)"
    "td_backup_requirements diff = remdups_adj (sort_key backup_key (ds_backups st))"
  using assms by (auto simp: compare_def result_simps Let_def split: prod.splits)

lemma finish_component_field [simp]: "cd_component (finish_component cs ids p) = pcd_component p"
  by (simp add: finish_component_def Let_def)

lemma compare_components_listed:
  assumes "compare content_id graph target = Inr diff"
  shows "map cd_component (td_components diff) = map c_id (sort_key c_id (g_components graph))"
  using assms
proof (rule compare_Inr)
  fix states st
  assume "compare_components content_id graph target = (states, st)"
    and "td_components diff = map (finish_component (map cc_conflict (final_conflicts graph (states, st)))
        (map conflict_key (filter cc_blocks_planning (final_conflicts graph (states, st))))) states"
  then show ?thesis using first_pass(1) [of content_id graph target states st] by (simp add: pending_of_def comp_def)
qed

subsection \<open>Preserved facts and backups\<close>

definition installed_kind :: "Component \<Rightarrow> bool" where
  "installed_kind c \<longleftrightarrow> c_kind c \<notin> {Runtime, EnvironmentVariable, ComponentKind.SecretReference}"

lemma used_simps [simp]:
  "ds_used_installed (push_conflict k st) = ds_used_installed st" "ds_used_installed (push_backup b st) = ds_used_installed st"
  "ds_used_installed (compare_versions x v w st) = ds_used_installed st"
  "ds_used_installed (compare_version_and_source c installed st) = ds_used_installed st"
  by (auto simp: push_conflict_def push_backup_def compare_versions_def compare_version_and_source_def Let_def
      split: VersionRelation.split option.split)

lemma used_artifacts: "ds_used_installed (fold (compare_artifact c present) artifacts st) = ds_used_installed st"
proof (induction artifacts arbitrary: st)
  case (Cons artifact artifacts)
  have "ds_used_installed (compare_artifact c present artifact st) = ds_used_installed st"
    by (cases "artifact_policy_row (art_policy artifact)") (simp add: compare_artifact_def Let_def)
  then show ?case by (simp add: Cons.IH)
qed simp

lemma matched_positions:
  "fst ` set (filter (\<lambda>(i, x). P x) (enumerate n xs)) = {i. n \<le> i \<and> i < n + length xs \<and> P (xs ! (i - n))}"
  by (force simp: in_set_enumerate_eq image_iff)

lemma used_by_installed:
  "ds_used_installed (snd (compare_installed target c no_diff))
     = fst ` set (filter (\<lambda>(i, x). identity_matches c x) (enumerate 0 (tf_installed target)))"
proof -
  let ?found = "filter (\<lambda>(i, x). identity_matches c x) (enumerate 0 (tf_installed target))"
  consider "?found = []" | i f where "?found = [(i, f)]" | x y zs where "?found = x # y # zs"
    by (metis list.exhaust surj_pair)
  then show ?thesis
    by cases (simp_all add: compare_installed_def Let_def split_beta del: set_filter)
qed

lemma contribution_used:
  "ds_used_installed (contribution content_id target c)
     = {i. i < length (tf_installed target) \<and> installed_kind c \<and> identity_matches c (tf_installed target ! i)}"
proof -
  have "ds_used_installed (contribution content_id target c) = ds_used_installed (snd (compare_presence content_id target c no_diff))"
    by (auto simp: contribution_def compare_component_def split_beta compare_artifacts_def used_artifacts
        compare_supported_state_def compare_architecture_def split: option.split)
  moreover have "ds_used_installed (snd (compare_installed target c no_diff))
      = {i. i < length (tf_installed target) \<and> identity_matches c (tf_installed target ! i)}"
    using matched_positions [of "identity_matches c" 0 "tf_installed target"] by (simp add: used_by_installed)
  moreover have "ds_used_installed (snd (compare_runtime target c no_diff)) = {}"
    "ds_used_installed (snd (compare_environment content_id target c no_diff)) = {}"
    "ds_used_installed (snd (compare_secret target c no_diff)) = {}"
    by (auto simp: compare_runtime_def compare_environment_def compare_secret_def Let_def split: option.split)
  ultimately show ?thesis by (auto simp: compare_presence_def installed_kind_def)
qed

lemma unused_filter:
  assumes "\<And>i. i < length xs \<Longrightarrow> i \<in> used \<longleftrightarrow> P (xs ! i)"
  shows "unused used xs = filter (\<lambda>x. \<not> P x) xs"
proof -
  have "filter (\<lambda>(i, _). i \<notin> used) (enumerate 0 xs) = filter (\<lambda>(i, x). \<not> P x) (enumerate 0 xs)"
    by (rule filter_cong [OF refl]) (auto simp: in_set_enumerate_eq assms)
  then show ?thesis by (simp add: unused_def snd_filter_enumerate)
qed

text \<open>Artifacts whose restore writes to the target.\<close>

definition written_policy :: "ArtifactPolicy \<Rightarrow> bool" where
  "written_policy p \<longleftrightarrow> p \<notin> {ArtifactPolicy.SecretReference, ArtifactPolicy.Manual}"

lemma backs_up_artifacts:
  assumes "artifact \<in> set artifacts" "written_policy (art_policy artifact)"
  shows "\<exists>b \<in> set (ds_backups (fold (compare_artifact c present) artifacts st)).
    br_component b = c_id c \<and> br_target b = Artifact (art_id artifact) (art_source_path artifact)"
  using assms
proof (induction artifacts arbitrary: st)
  case (Cons x artifacts)
  have keep: "set (ds_backups st) \<subseteq> set (ds_backups (fold (compare_artifact c present) artifacts st))" for st
  proof (induction artifacts arbitrary: st)
    case (Cons y ys)
    have "set (ds_backups st) \<subseteq> set (ds_backups (compare_artifact c present y st))"
      by (cases "artifact_policy_row (art_policy y)") (auto simp: compare_artifact_def Let_def push_conflict_def push_backup_def)
    with Cons show ?case by (simp) blast
  qed simp
  show ?case
  proof (cases "artifact = x")
    case True
    then have "fst (snd (artifact_policy_row (art_policy x)))" using Cons.prems(2) by (cases "art_policy x") (auto simp: written_policy_def)
    then have "\<exists>b \<in> set (ds_backups (compare_artifact c present x st)).
        br_component b = c_id c \<and> br_target b = Artifact (art_id x) (art_source_path x)"
      by (cases "artifact_policy_row (art_policy x)") (auto simp: compare_artifact_def Let_def push_backup_def)
    with keep True show ?thesis by (simp) blast
  next
    case False
    with Cons show ?thesis by simp
  qed
qed simp

subsection \<open>Search paths and versions\<close>

abbreviation entry_key :: "str \<Rightarrow> str" where
  "entry_key entry \<equiv> to_lowercase (str_trim entry)"

lemma fold_merge_path:
  assumes "seen = entry_key ` set merged" "distinct (map entry_key merged)" "\<forall>e \<in> set merged. str_trim e \<noteq> []"
    and "fold merge_path_entry entries (seen, merged) = (seen', merged')"
  shows "(\<exists>new. merged' = merged @ new \<and> subseq new entries) \<and> distinct (map entry_key merged')
    \<and> (\<forall>e \<in> set merged'. str_trim e \<noteq> [])
    \<and> entry_key ` set merged' = seen \<union> entry_key ` {e \<in> set entries. str_trim e \<noteq> []}"
  using assms
proof (induction entries arbitrary: seen merged)
  case (Cons e entries)
  show ?case
  proof (cases "str_trim e = [] \<or> entry_key e \<in> seen")
    case True
    then have step: "merge_path_entry e (seen, merged) = (seen, merged)" by (simp add: merge_path_entry_def Let_def)
    have "fold merge_path_entry entries (seen, merged) = (seen', merged')" using Cons.prems(4) step by simp
    from Cons.IH [OF Cons.prems(1-3) this] True show ?thesis by (auto intro: list_emb_Cons)
  next
    case False
    then have step: "merge_path_entry e (seen, merged) = (insert (entry_key e) seen, merged @ [e])"
      by (simp add: merge_path_entry_def Let_def)
    have fold: "fold merge_path_entry entries (insert (entry_key e) seen, merged @ [e]) = (seen', merged')"
      using Cons.prems(4) step by simp
    have ih: "(\<exists>new. merged' = (merged @ [e]) @ new \<and> subseq new entries) \<and> distinct (map entry_key merged')
        \<and> (\<forall>e \<in> set merged'. str_trim e \<noteq> [])
        \<and> entry_key ` set merged' = insert (entry_key e) seen \<union> entry_key ` {e \<in> set entries. str_trim e \<noteq> []}"
      by (rule Cons.IH [OF _ _ _ fold]) (use Cons.prems False in auto)
    then obtain new where new: "merged' = (merged @ [e]) @ new" "subseq new entries" by blast
    then have "\<exists>new'. merged' = merged @ new' \<and> subseq new' (e # entries)" by (intro exI [of _ "e # new"]) auto
    with ih False show ?thesis by auto
  qed
qed simp

lemma merged_path:
  "\<exists>new. merge_path_entries target source = merge_path_entries target [] @ new \<and> subseq new source"
  "subseq (merge_path_entries target []) target"
  "distinct (map entry_key (merge_path_entries target source))"
  "entry_key ` set (merge_path_entries target source) = entry_key ` {e \<in> set (target @ source). str_trim e \<noteq> []}"
proof -
  obtain seen merged where t: "fold merge_path_entry target ({}, []) = (seen, merged)" by fastforce
  obtain seen' merged' where s: "fold merge_path_entry source (seen, merged) = (seen', merged')" by fastforce
  obtain seen2 merged2 where whole: "fold merge_path_entry (target @ source) ({}, []) = (seen2, merged2)" by fastforce
  have eq: "(seen2, merged2) = (seen', merged')" using t s whole by simp
  note first = fold_merge_path [OF _ _ _ t, simplified]
  have seen: "seen = entry_key ` set merged"
  proof -
    have "fst st = entry_key ` set (snd st) \<Longrightarrow> fst (fold merge_path_entry es st) = entry_key ` set (snd (fold merge_path_entry es st))" for es st
      by (induction es arbitrary: st) (auto simp: merge_path_entry_def Let_def split_beta)
    from this [of "({}, [])" target] t show ?thesis by simp
  qed
  note second = fold_merge_path [OF seen _ _ s]
  note all = fold_merge_path [OF _ _ _ whole, simplified]
  show "subseq (merge_path_entries target []) target" using first by (simp add: merge_path_entries_def t)
  show "\<exists>new. merge_path_entries target source = merge_path_entries target [] @ new \<and> subseq new source"
    using second first eq by (simp add: merge_path_entries_def t s)
  show "distinct (map entry_key (merge_path_entries target source))"
    "entry_key ` set (merge_path_entries target source) = entry_key ` {e \<in> set (target @ source). str_trim e \<noteq> []}"
    using all by (simp_all add: merge_path_entries_def whole Collect_conj_eq [symmetric] Un_def del: fold_append)
qed

text \<open>The comparison of dotted versions as a lexicographic one of the sequences padded with zeros.\<close>

definition first_difference :: "nat list \<Rightarrow> nat list \<Rightarrow> nat \<Rightarrow> bool" where
  "first_difference a b i \<longleftrightarrow> segment_at a i \<noteq> segment_at b i \<and> (\<forall>j < i. segment_at a j = segment_at b j)"

lemma cmp_nat_simps [simp]: "cmp_nat a b = Equal \<longleftrightarrow> a = b" "cmp_nat a b = Less \<longleftrightarrow> a < b" "cmp_nat a b = Greater \<longleftrightarrow> b < a"
  by (auto simp: cmp_nat_def)

lemma compare_versions_find:
  "compare_numeric_versions a b = Equal \<and> (\<forall>i. segment_at a i = segment_at b i)
   \<or> (\<exists>i. first_difference a b i \<and> compare_numeric_versions a b = cmp_nat (segment_at a i) (segment_at b i))"
proof -
  let ?n = "max (length a) (length b)" and ?c = "\<lambda>i. cmp_nat (segment_at a i) (segment_at b i)"
  have beyond: "segment_at a i = segment_at b i" if "?n \<le> i" for i using that by (simp add: segment_at_def)
  show ?thesis
  proof (cases "find (\<lambda>cmp. cmp \<noteq> Equal) (map ?c [0..<?n])")
    case None
    then have "\<forall>i < ?n. segment_at a i = segment_at b i" by (auto simp: find_None_iff)
    with beyond have "\<forall>i. segment_at a i = segment_at b i" by (meson not_le)
    with None show ?thesis by (simp add: compare_numeric_versions_def)
  next
    case (Some r)
    then obtain i where i: "i < ?n" "r = ?c i" "r \<noteq> Equal" "\<forall>j < i. ?c j = Equal"
      by (auto simp: find_Some_iff)
    then have "first_difference a b i" by (auto simp: first_difference_def)
    with Some i show ?thesis by (auto simp: compare_numeric_versions_def)
  qed
qed

lemma first_difference_unique: "first_difference a b i \<Longrightarrow> first_difference a b j \<Longrightarrow> i = j"
  unfolding first_difference_def by (meson linorder_neqE_nat)

lemma compare_less_iff:
  "compare_numeric_versions a b = Less \<longleftrightarrow> (\<exists>i. first_difference a b i \<and> segment_at a i < segment_at b i)"
  using compare_versions_find [of a b] first_difference_unique [of a b] unfolding first_difference_def
  by (metis Ordering.distinct(1) cmp_nat_simps(2))

lemma compare_greater_iff: "compare_numeric_versions a b = Greater \<longleftrightarrow> compare_numeric_versions b a = Less"
proof -
  have "first_difference a b i = first_difference b a i" for i by (auto simp: first_difference_def)
  then show ?thesis
    using compare_versions_find [of a b] compare_less_iff [of b a] first_difference_unique [of a b]
    unfolding first_difference_def by (metis Ordering.distinct(5) cmp_nat_simps(3))
qed

lemma compare_equal_iff: "compare_numeric_versions a b = Equal \<longleftrightarrow> (\<forall>i. segment_at a i = segment_at b i)"
  using compare_versions_find [of a b] unfolding first_difference_def by (metis cmp_nat_simps(1))

lemma compare_less_trans:
  assumes "compare_numeric_versions a b = Less" "compare_numeric_versions b c = Less"
  shows "compare_numeric_versions a c = Less"
proof -
  obtain i j where i: "first_difference a b i" "segment_at a i < segment_at b i"
    and j: "first_difference b c j" "segment_at b j < segment_at c j" using assms compare_less_iff by blast
  have "first_difference a c (min i j) \<and> segment_at a (min i j) < segment_at c (min i j)"
    using i j unfolding first_difference_def by (cases i j rule: linorder_cases) auto
  then show ?thesis using compare_less_iff by blast
qed

subsection \<open>A sample package\<close>

text \<open>An application that requires a runtime which does not fit the target's architecture, and a
  target with one tool the package does not know.\<close>

definition app_id :: ComponentId where "app_id = ''cmp_'' @ replicate 52 (CHR ''a'')"
definition node_id :: ComponentId where "node_id = ''cmp_'' @ replicate 52 (CHR ''b'')"

definition package_component :: "ComponentId \<Rightarrow> Architecture option \<Rightarrow> DependencyEdge list \<Rightarrow> ArtifactRef list \<Rightarrow> Component" where
  "package_component i architecture deps artifacts =
     \<lparr>c_id = i, c_kind = Tool,
      c_identity = \<lparr>idn_provider_package = None, idn_provider_source = None, idn_package_family = None,
        idn_product_name = Some i, idn_executable_name = None, idn_publisher = None,
        idn_executable_hash = None, idn_install_role = None, idn_identity_quality = IdentityQuality.Local\<rparr>,
      c_display_name = i, c_version = None, c_architecture = None, c_publisher = None,
      c_provenance = None, c_evidence = [], c_confidence = Confidence.High, c_dependencies = deps,
      c_artifacts = artifacts,
      c_restore = \<lparr>rd_primary = Reinstall, rd_alternatives = [], rd_portability = Portable,
        rd_requires_elevation = False, rd_requires_user_action = False, rd_rationale = []\<rparr>,
      c_compatibility = \<lparr>cmp_required_os = None, cmp_required_architecture = architecture,
        cmp_requires_provider = None, cmp_requires_runtime = None, cmp_requires_elevation = False,
        cmp_requires_wsl = False, cmp_requires_docker = False\<rparr>,
      c_verification = [],
      c_selection = \<lparr>sm_recommended = True, sm_score = 0, sm_selected_by_default = True,
        sm_sensitive = False, sm_size_bytes = 0\<rparr>,
      c_extensions = []\<rparr>"

definition app_config :: ArtifactRef where
  "app_config = \<lparr>art_id = ''app.cfg'', art_source_path = \<lparr>pt_root = UserProfile, pt_relative = ''app.cfg''\<rparr>,
     art_scope = ConfigScope.User, art_size_bytes = 10, art_content_type = Json, art_policy = Config, art_object = None\<rparr>"

definition app_component :: Component where
  "app_component = package_component app_id None
     [\<lparr>edge_from = app_id, edge_to = node_id, edge_kind = RequiredRuntime, edge_required = True,
       edge_evidence = [], edge_confidence = Confidence.High\<rparr>] [app_config]"

definition node_component :: Component where
  "node_component = package_component node_id (Some Architecture.Arm64) [] []"

definition sample_package :: PackageGraph where
  "sample_package = \<lparr>g_components = [node_component, app_component], g_edges = []\<rparr>"

definition sample_target :: TargetFacts where
  "sample_target =
     \<lparr>tf_host = \<lparr>hf_os_version = ''10.0'', hf_os_build = ''22631'', hf_architecture = Architecture.X64, hf_elevated = False,
        hf_account_scope = AccountScope.User, hf_sid_fingerprint = None, hf_known_folders = [], hf_drives = [], hf_free_bytes = []\<rparr>,
      tf_installed = [\<lparr>if_kind = Tool, if_identity = c_identity node_component, if_version = None, if_publisher = None,
        if_provenance = None\<rparr>],
      tf_providers = [], tf_runtimes = [], tf_environment = [], tf_fingerprint = ''target''\<rparr>"

definition sample_content_id :: "str \<Rightarrow> ObjectId" where
  "sample_content_id content = ''obj_'' @ replicate 64 (CHR ''0'')"

lemmas sample_package_defs = sample_package_def app_component_def node_component_def package_component_def app_config_def

lemma sample_ids: "app_id \<noteq> node_id" "node_id \<noteq> app_id" "ComponentId_new app_id = Inr app_id" "ComponentId_new node_id = Inr node_id"
  by (simp_all add: app_id_def node_id_def ComponentId_new_def strip_prefix_def starts_with_def base32_char_def is_ascii_lower_def numeral_eq_Suc)

lemma sample_package_valid: "validate_inputs sample_package sample_target = Inr ()"
  by (simp add: sample_package_defs sample_target_def validate_inputs_def embedded_edge_count_def validate_component_def
      validate_artifact_def graph_edges_def checked_add_u64_def u64_max_def sample_ids PathToken_validate_def
      normalize_relative_path_def NUL_def starts_with_def is_separator_def MAX_DIFF_COMPONENTS_def MAX_DIFF_EDGES_def
      MAX_DIFF_ARTIFACTS_def)

lemma sample_comparison: "\<exists>diff. compare sample_content_id sample_package sample_target = Inr diff"
  by (auto simp: compare_def sample_package_valid Let_def split: prod.split)

subsection \<open>Properties\<close>

text \<open>C10. A component of a package is blocked exactly when it, or a component it reaches over required
  dependencies, can not be restored on this target for reasons of its own: an architecture that does
  not match, no automatic restore contract, an ambiguous identity or another package channel on the
  target, an environment variable without a name, or a manual artifact of a component that is already
  there. The block does not depend on the order of components and edges.\<close>

theorem blocked_components_exact:
  assumes "compare content_id graph target = Inr diff"
    and "\<forall>c \<in> set (g_components graph). ComponentId_new (c_id c) = Inr (c_id c)"
    and "d \<in> set (td_components diff)"
  shows "cd_disposition d = Blocked \<longleftrightarrow>
    (\<exists>c \<in> set (g_components graph). intrinsically_blocked content_id target c \<and> (cd_component d, c_id c) \<in> (required_rel graph)\<^sup>*)"
  using assms(1)
proof (rule compare_Inr)
  fix states st
  assume valid: "validate_inputs graph target = Inr ()" and first: "compare_components content_id graph target = (states, st)"
    and comps: "td_components diff = map (finish_component (map cc_conflict (final_conflicts graph (states, st)))
        (map conflict_key (filter cc_blocks_planning (final_conflicts graph (states, st))))) states"
  have colon: "\<forall>x \<in> c_id ` set (g_components graph). CHR '':'' \<notin> set x" using assms(2) component_id_no_colon by blast
  note final = final_blocked [OF valid first colon]
  obtain p where "d = finish_component (map cc_conflict (final_conflicts graph (states, st)))
      (map conflict_key (filter cc_blocks_planning (final_conflicts graph (states, st)))) p" using assms(3) comps by auto
  then show ?thesis
    using blocked_disposition [OF final(1) colon final(3), of p] final(2) by (auto simp: reaches_def)
qed

theorem blocked_components_exact_witness:
  "\<exists>diff. compare sample_content_id sample_package sample_target = Inr diff
     \<and> app_id \<in> set (map cd_component (td_components diff))
     \<and> list_all (\<lambda>d. cd_disposition d = Blocked) (td_components diff)"
proof -
  obtain diff where diff: "compare sample_content_id sample_package sample_target = Inr diff" using sample_comparison by blast
  have listed: "set (map cd_component (td_components diff)) = {app_id, node_id}"
    unfolding compare_components_listed [OF diff] by (auto simp: sample_package_defs)
  have ids: "\<forall>c \<in> set (g_components sample_package). ComponentId_new (c_id c) = Inr (c_id c)"
    by (simp add: sample_package_defs sample_ids)
  have edge: "(app_id, node_id) \<in> required_rel sample_package"
    by (auto simp: required_rel_def graph_edges_def sample_package_defs)
  have "intrinsically_blocked sample_content_id sample_target node_component"
    by (simp add: intrinsically_blocked_def required_architecture_def source_architecture_matches_def sample_package_defs sample_target_def)
  moreover have "node_component \<in> set (g_components sample_package)" "c_id node_component = node_id"
    by (simp_all add: sample_package_def node_component_def package_component_def)
  moreover have "(cd_component d, node_id) \<in> (required_rel sample_package)\<^sup>*" if "d \<in> set (td_components diff)" for d
  proof -
    have "cd_component d \<in> set (map cd_component (td_components diff))" using that by simp
    then show ?thesis unfolding listed using edge by auto
  qed
  ultimately have "\<exists>c \<in> set (g_components sample_package). intrinsically_blocked sample_content_id sample_target c
      \<and> (cd_component d, c_id c) \<in> (required_rel sample_package)\<^sup>*" if "d \<in> set (td_components diff)" for d
    using that by (intro bexI [of _ node_component]) simp_all
  then have "cd_disposition d = Blocked" if "d \<in> set (td_components diff)" for d
    using blocked_components_exact [OF diff ids that] that by blast
  with listed diff show ?thesis by (auto simp: list_all_iff)
qed

text \<open>Nothing on the target is forgotten: the installed facts that no component of the package
  identifies are exactly the ones the comparison reports as preserved, in their order.\<close>

theorem unmatched_facts_preserved:
  assumes "compare content_id graph target = Inr diff"
  shows "td_preserved_target diff =
    filter (\<lambda>installed. \<not> (\<exists>c \<in> set (g_components graph). installed_kind c \<and> identity_matches c installed)) (tf_installed target)"
  using assms
proof (rule compare_Inr)
  fix states st
  assume first: "compare_components content_id graph target = (states, st)"
    and preserved: "td_preserved_target diff = unused (ds_used_installed st) (tf_installed target)"
  show ?thesis
    unfolding preserved by (rule unused_filter) (auto simp: first_pass(4) [OF first] contribution_used)
qed

theorem unmatched_facts_preserved_witness:
  "\<exists>diff. compare sample_content_id sample_package sample_target = Inr diff \<and> td_preserved_target diff = tf_installed sample_target"
proof -
  obtain diff where diff: "compare sample_content_id sample_package sample_target = Inr diff" using sample_comparison by blast
  have "td_preserved_target diff = tf_installed sample_target"
    unfolding unmatched_facts_preserved [OF diff]
    by (simp add: sample_package_defs sample_target_def identity_matches_def provider_identity_matches_def
        both_equal_def component_publisher_def installed_publisher_def normalized_executable_def normalized_def Let_def)
  with diff show ?thesis by blast
qed

text \<open>C32. Every artifact whose restore would write to the target has a backup requirement for its
  destination, whether the component is already present or not.\<close>

theorem written_artifacts_backed_up:
  assumes "compare content_id graph target = Inr diff" and "c \<in> set (g_components graph)"
    and "artifact \<in> set (c_artifacts c)" and "written_policy (art_policy artifact)"
  shows "\<exists>b \<in> set (td_backup_requirements diff).
    br_component b = c_id c \<and> br_target b = Artifact (art_id artifact) (art_source_path artifact)"
  using assms(1)
proof (rule compare_Inr)
  fix states st
  assume first: "compare_components content_id graph target = (states, st)"
    and backups: "td_backup_requirements diff = remdups_adj (sort_key backup_key (ds_backups st))"
  have "artifact \<in> set (compared_artifacts c)" using assms(3,4) by (auto simp: compared_artifacts_def written_policy_def)
  then have "\<exists>b \<in> set (ds_backups (contribution content_id target c)).
      br_component b = c_id c \<and> br_target b = Artifact (art_id artifact) (art_source_path artifact)"
    using backs_up_artifacts assms(4)
    by (simp add: contribution_def compare_component_def split_beta compare_artifacts_def)
  then show ?thesis using assms(2) by (auto simp: backups first_pass(3) [OF first])
qed

theorem written_artifacts_backed_up_witness:
  "\<exists>diff. compare sample_content_id sample_package sample_target = Inr diff
     \<and> Artifact (art_id app_config) (art_source_path app_config) \<in> br_target ` set (td_backup_requirements diff)"
proof -
  obtain diff where diff: "compare sample_content_id sample_package sample_target = Inr diff" using sample_comparison by blast
  have "\<exists>b \<in> set (td_backup_requirements diff).
      br_component b = c_id app_component \<and> br_target b = Artifact (art_id app_config) (art_source_path app_config)"
    by (rule written_artifacts_backed_up [OF diff])
      (simp_all add: sample_package_def app_component_def package_component_def written_policy_def app_config_def)
  with diff show ?thesis by (metis image_eqI)
qed

text \<open>Merging search paths keeps the target's own entries first, in their order, appends source
  entries only, in theirs, holds each entry once up to case and surrounding space, and loses none.\<close>

theorem merge_path_entries_correct:
  "\<exists>own new. merge_path_entries target source = own @ new \<and> subseq own target \<and> subseq new source
    \<and> distinct (map (\<lambda>e. to_lowercase (str_trim e)) (own @ new))
    \<and> (\<lambda>e. to_lowercase (str_trim e)) ` set (own @ new)
      = (\<lambda>e. to_lowercase (str_trim e)) ` {e \<in> set (target @ source). str_trim e \<noteq> []}"
  using merged_path(1,3,4) [of target source] merged_path(2) [of target] by metis

text \<open>The order of dotted versions is the lexicographic one of the sequences padded with zeros:
  two versions compare as equal exactly when they agree everywhere, the comparison is
  antisymmetric, and older than is transitive.\<close>

theorem version_order:
  "(compare_numeric_versions a b = Less \<longleftrightarrow>
      (\<exists>i. segment_at a i < segment_at b i \<and> (\<forall>j < i. segment_at a j = segment_at b j)))
   \<and> (compare_numeric_versions a b = Greater \<longleftrightarrow> compare_numeric_versions b a = Less)
   \<and> (compare_numeric_versions a b = Equal \<longleftrightarrow> (\<forall>i. segment_at a i = segment_at b i))
   \<and> (compare_numeric_versions a b = Less \<and> compare_numeric_versions b c = Less \<longrightarrow> compare_numeric_versions a c = Less)"
proof (intro conjI impI)
  show "compare_numeric_versions a b = Less \<longleftrightarrow>
      (\<exists>i. segment_at a i < segment_at b i \<and> (\<forall>j < i. segment_at a j = segment_at b j))"
    unfolding compare_less_iff first_difference_def by (metis less_irrefl)
  show "compare_numeric_versions a b = Greater \<longleftrightarrow> compare_numeric_versions b a = Less" by (rule compare_greater_iff)
  show "compare_numeric_versions a b = Equal \<longleftrightarrow> (\<forall>i. segment_at a i = segment_at b i)" by (rule compare_equal_iff)
  show "compare_numeric_versions a c = Less" if "compare_numeric_versions a b = Less \<and> compare_numeric_versions b c = Less"
    using that compare_less_trans by blast
qed

theorem version_order_witness: "compare_numeric_versions [1, 2] [1, 10] = Less \<and> compare_numeric_versions [1, 10] [2] = Less
    \<and> compare_numeric_versions [1, 2] [2] = Less"
  using version_order [of "[1, 2]" "[1, 10]" "[2]"]
  by (simp add: compare_numeric_versions_def segment_at_def cmp_nat_def upt_rec)

end
