(* ===== verification/PlannerSteps.thy ===== *)
theory PlannerSteps
  imports Planner DiffSafety TopologicalOrder
begin

text \<open>
  How a plan under construction changes. It only grows: specs are added and gain prerequisites,
  nothing else of them changes. \<open>grows N\<close> says this together with a property \<open>N\<close> of the added
  specs, and every step of the planner is described by one such \<open>N\<close>: manual actions and provider
  operations (\<open>auxiliary\<close>), or operations of one component with their justification
  (\<open>mutation_spec\<close>). The steps also keep the plan well formed, so that no \<^verbatim>\<open>expect\<close> panics.
\<close>

subsection \<open>No panics\<close>

definition no_abort :: "('e abort, 'a) result \<Rightarrow> bool" where
  "no_abort r \<longleftrightarrow> (\<forall>e. r = Inl e \<longrightarrow> (\<exists>err. e = Fail err))"

lemma no_abort_simps [simp]:
  "no_abort (Inr a)" "no_abort (Inl (Fail e))" "no_abort (lift_fail r)" "\<not> no_abort (Inl Panic)" "\<not> no_abort (Inl OutOfFuel)"
  by (auto simp: no_abort_def)

lemma no_abort_bind: "no_abort r \<Longrightarrow> (\<And>x. r = Inr x \<Longrightarrow> no_abort (f x)) \<Longrightarrow> no_abort (try_bind r f)"
  by (cases r) (auto simp: no_abort_def)

lemma no_abort_fold:
  assumes "I s" and "\<And>x s. x \<in> set xs \<Longrightarrow> I s \<Longrightarrow> no_abort (f x s)"
    and "\<And>x s s'. x \<in> set xs \<Longrightarrow> I s \<Longrightarrow> f x s = Inr s' \<Longrightarrow> I s'"
  shows "no_abort (try_fold f xs s)"
  using assms
proof (induction xs arbitrary: s)
  case (Cons x xs)
  have "no_abort (try_bind (f x s) (try_fold f xs))"
  proof (rule no_abort_bind)
    show "no_abort (f x s)" using Cons.prems by simp
    fix s' assume "f x s = Inr s'"
    with Cons.prems have "I s'" by (meson list.set_intros(1))
    moreover have "no_abort (f y t)" if "y \<in> set xs" "I t" for y t using Cons.prems(2) [of y t] that by simp
    moreover have "I t'" if "y \<in> set xs" "I t" "f y t = Inr t'" for y t t' using Cons.prems(3) [of y t t'] that by simp
    ultimately show "no_abort (try_fold f xs s')" by (rule Cons.IH)
  qed
  then show ?case by simp
qed simp

subsection \<open>Growing plans\<close>

definition pst_get :: "plan_state \<Rightarrow> str \<rightharpoonup> OperationSpec" where
  "pst_get st = bt_get (pst_specs st)"

definition kind_at :: "plan_state \<Rightarrow> str \<rightharpoonup> OperationKind" where
  "kind_at st k = map_option spec_kind (pst_get st k)"

text \<open>
  Specs are stored under their key and need stored specs only; the manual actions and the provider
  operations are registered.
\<close>

definition specs_ok :: "plan_state \<Rightarrow> bool" where
  "specs_ok st \<longleftrightarrow> bt_inv (pst_specs st)
     \<and> (\<forall>k s. pst_get st k = Some s \<longrightarrow>
          spec_key s = k \<and> distinct (spec_prerequisites s) \<and> set (spec_prerequisites s) \<subseteq> dom (pst_get st))"

definition actions_ok :: "plan_state \<Rightarrow> bool" where
  "actions_ok st \<longleftrightarrow>
     bt_inv (pst_manual_actions st) \<and> bt_inv (pst_manual_operation_keys st) \<and> bt_inv (pst_provider_operation_keys st)
     \<and> (\<forall>i key. bt_get (pst_manual_operation_keys st) i = Some key \<longrightarrow>
          (\<exists>a. bt_get (pst_manual_actions st) i = Some a \<and> kind_at st key = Some (OpenManualAction a)))
     \<and> (\<forall>k a. kind_at st k = Some (OpenManualAction a) \<longrightarrow> bt_get (pst_manual_actions st) (ma_id a) = Some a)
     \<and> (\<forall>p key. bt_get (pst_provider_operation_keys st) p = Some key \<longrightarrow> kind_at st key = Some (EnsureProvider p))"

definition pst_wf :: "plan_state \<Rightarrow> bool" where
  "pst_wf st \<longleftrightarrow> specs_ok st \<and> actions_ok st"

lemma kind_at_dom: "kind_at st k = Some kind \<Longrightarrow> k \<in> dom (pst_get st)"
  by (auto simp: kind_at_def)

definition grows :: "(OperationSpec \<Rightarrow> bool) \<Rightarrow> plan_state \<Rightarrow> plan_state \<Rightarrow> bool" where
  "grows N st st' \<longleftrightarrow>
     (\<forall>k s. pst_get st k = Some s \<longrightarrow>
        (\<exists>ps. pst_get st' k = Some (s\<lparr>spec_prerequisites := ps\<rparr>) \<and> set (spec_prerequisites s) \<subseteq> set ps))
     \<and> (\<forall>k s. pst_get st' k = Some s \<and> pst_get st k = None \<longrightarrow> N s)"

text \<open>Properties of a spec that survive new prerequisites.\<close>

definition spec_mono :: "(OperationSpec \<Rightarrow> bool) \<Rightarrow> bool" where
  "spec_mono N \<longleftrightarrow> (\<forall>s ps. N s \<and> set (spec_prerequisites s) \<subseteq> set ps \<longrightarrow> N (s\<lparr>spec_prerequisites := ps\<rparr>))"

lemma grows_refl: "grows N st st"
  unfolding grows_def by (metis OperationSpec.surjective OperationSpec.update_convs(5) domIff option.distinct(1) order_refl)

lemma grows_dom: "grows N st st' \<Longrightarrow> dom (pst_get st) \<subseteq> dom (pst_get st')"
  unfolding grows_def by blast

lemma grows_weaken: "grows N st st' \<Longrightarrow> (\<And>s. N s \<Longrightarrow> N' s) \<Longrightarrow> grows N' st st'"
  unfolding grows_def by blast

lemma grows_trans:
  assumes "grows N a b" "grows N b c" "spec_mono N"
  shows "grows N a c"
  unfolding grows_def
proof (intro conjI allI impI)
  fix k s assume "pst_get a k = Some s"
  with assms(1) obtain ps where ps: "pst_get b k = Some (s\<lparr>spec_prerequisites := ps\<rparr>)" "set (spec_prerequisites s) \<subseteq> set ps"
    unfolding grows_def by blast
  with assms(2) obtain qs where "pst_get c k = Some (s\<lparr>spec_prerequisites := ps\<rparr>\<lparr>spec_prerequisites := qs\<rparr>)" "set ps \<subseteq> set qs"
    unfolding grows_def by (metis OperationSpec.select_convs(5) OperationSpec.surjective OperationSpec.update_convs(5))
  with ps show "\<exists>ps. pst_get c k = Some (s\<lparr>spec_prerequisites := ps\<rparr>) \<and> set (spec_prerequisites s) \<subseteq> set ps"
    by (intro exI [of _ qs]) auto
next
  fix k s assume c: "pst_get c k = Some s \<and> pst_get a k = None"
  show "N s"
  proof (cases "pst_get b k")
    case None
    with c assms(2) show ?thesis unfolding grows_def by blast
  next
    case (Some t)
    with c assms(1) have "N t" unfolding grows_def by blast
    moreover from Some assms(2) c obtain ps where "s = t\<lparr>spec_prerequisites := ps\<rparr>" "set (spec_prerequisites t) \<subseteq> set ps"
      unfolding grows_def by (metis option.sel)
    ultimately show ?thesis using assms(3) unfolding spec_mono_def by blast
  qed
qed

text \<open>What held of every spec before, and holds of the new ones, holds of all.\<close>

lemma grows_all:
  assumes "grows N st st'" "spec_mono Q" "\<And>k s. pst_get st k = Some s \<Longrightarrow> Q s" "\<And>s. N s \<Longrightarrow> Q s" "pst_get st' k = Some s"
  shows "Q s"
proof (cases "pst_get st k")
  case None
  with assms show ?thesis unfolding grows_def by blast
next
  case (Some t)
  with assms(1,5) obtain ps where "s = t\<lparr>spec_prerequisites := ps\<rparr>" "set (spec_prerequisites t) \<subseteq> set ps"
    unfolding grows_def by (metis option.sel)
  with assms(2,3) Some show ?thesis unfolding spec_mono_def by blast
qed

lemma grows_prereq:
  "grows N st st' \<Longrightarrow> has_prereq (pst_specs st) k p \<Longrightarrow> has_prereq (pst_specs st') k p"
  unfolding grows_def has_prereq_def pst_get_def by fastforce

text \<open>The step every planner function makes: it keeps the plan well formed and adds specs of a kind.\<close>

definition step :: "(OperationSpec \<Rightarrow> bool) \<Rightarrow> plan_state \<Rightarrow> plan_state \<Rightarrow> bool" where
  "step N st st' \<longleftrightarrow> (pst_wf st \<longrightarrow> pst_wf st' \<and> grows N st st')"

lemma step_refl: "step N st st"
  by (simp add: step_def grows_refl)

lemma step_weaken: "step N st st' \<Longrightarrow> (\<And>s. N s \<Longrightarrow> N' s) \<Longrightarrow> step N' st st'"
  unfolding step_def using grows_weaken by blast

lemma step_trans: "step N a b \<Longrightarrow> step N b c \<Longrightarrow> spec_mono N \<Longrightarrow> step N a c"
  unfolding step_def using grows_trans by blast

lemma step_fold:
  assumes "try_fold f xs s = Inr s'" "spec_mono N" "\<And>x s s'. x \<in> set xs \<Longrightarrow> f x s = Inr s' \<Longrightarrow> step N (view s) (view s')"
  shows "step N (view s) (view s')"
  using assms(1,3)
proof (induction xs arbitrary: s)
  case (Cons x xs)
  then obtain s1 where s1: "f x s = Inr s1" "try_fold f xs s1 = Inr s'" by (auto simp: result_simps)
  have "step N (view s) (view s1)" using Cons.prems(2) [of x s s1] s1(1) by simp
  moreover have "step N (view s1) (view s')" using s1(2) Cons.prems(2) by (intro Cons.IH) auto
  ultimately show ?case using assms(2) by (rule step_trans)
qed (simp add: step_refl)

subsection \<open>Modifying and inserting specs\<close>

lemma bt_get_modify: "bt_get (bt_modify k f m) k' = (if k' = k then map_option f (bt_get m k) else bt_get m k')"
  by (induction m) (auto simp: bt_modify_def)

lemma keys_modify [simp]: "map fst (bt_modify k f m) = map fst m"
  by (induction m) (auto simp: bt_modify_def)

lemma bt_inv_modify [simp]: "bt_inv (bt_modify k f m) = bt_inv m"
  by (simp add: bt_inv_def)

lemma add_prerequisite_fields [simp]:
  "set (spec_prerequisites (add_prerequisite p s)) = insert p (set (spec_prerequisites s))"
  "distinct (spec_prerequisites (add_prerequisite p s)) = distinct (spec_prerequisites s)"
  "spec_kind (add_prerequisite p s) = spec_kind s" "spec_key (add_prerequisite p s) = spec_key s"
  "spec_component (add_prerequisite p s) = spec_component s"
proof -
  show "distinct (spec_prerequisites (add_prerequisite p s)) = distinct (spec_prerequisites s)"
    by (auto simp: add_prerequisite_def insort_insert_key_def distinct_insort)
qed (auto simp: add_prerequisite_def set_insort_insert)

lemma add_prerequisites_fields [simp]:
  "set (spec_prerequisites (add_prerequisites keys s)) = set keys \<union> set (spec_prerequisites s)"
  "distinct (spec_prerequisites (add_prerequisites keys s)) = distinct (spec_prerequisites s)"
  "spec_kind (add_prerequisites keys s) = spec_kind s" "spec_key (add_prerequisites keys s) = spec_key s"
  "spec_component (add_prerequisites keys s) = spec_component s"
  unfolding add_prerequisites_def by (induction keys arbitrary: s) auto

lemma require_key_step:
  assumes "require_key key p st = Inr st'" "p \<in> dom (pst_get st)"
  shows "step N st st'" "pst_wf st \<Longrightarrow> has_prereq (pst_specs st') key p"
proof -
  obtain s where s: "pst_get st key = Some s" and st': "st' = st\<lparr>pst_specs := bt_modify key (add_prerequisite p) (pst_specs st)\<rparr>"
    using assms(1) by (auto simp: require_key_def require_spec_def result_simps pst_get_def)
  have get: "pst_get st' k = (if k = key then Some (add_prerequisite p s) else pst_get st k)" for k
    using s by (simp add: pst_get_def st' bt_get_modify)
  have dom: "dom (pst_get st') = dom (pst_get st)" using s by (auto simp: get dom_def)
  show "step N st st'"
    unfolding step_def
  proof (intro impI conjI)
    assume wf: "pst_wf st"
    have same: "bt_inv (pst_specs st')" "pst_manual_operation_keys st' = pst_manual_operation_keys st"
      "pst_manual_actions st' = pst_manual_actions st" "pst_provider_operation_keys st' = pst_provider_operation_keys st"
      using wf by (simp_all add: st' pst_wf_def specs_ok_def)
    have kinds: "kind_at st' = kind_at st" using s by (auto simp: kind_at_def get fun_eq_iff)
    have "spec_key t = k \<and> distinct (spec_prerequisites t) \<and> set (spec_prerequisites t) \<subseteq> dom (pst_get st)"
      if "pst_get st' k = Some t" for k t
    proof (cases "k = key")
      case True
      have "spec_key s = key \<and> distinct (spec_prerequisites s) \<and> set (spec_prerequisites s) \<subseteq> dom (pst_get st)"
        using wf s unfolding pst_wf_def specs_ok_def by blast
      with True that assms(2) show ?thesis by (auto simp: get)
    next
      case False
      with that have "pst_get st k = Some t" by (simp add: get)
      then show ?thesis using wf unfolding pst_wf_def specs_ok_def by blast
    qed
    then show "pst_wf st'" using wf same kinds unfolding pst_wf_def specs_ok_def actions_ok_def dom by simp
    show "grows N st st'"
      unfolding grows_def
    proof (intro conjI allI impI)
      fix k t assume k: "pst_get st k = Some t"
      show "\<exists>ps. pst_get st' k = Some (t\<lparr>spec_prerequisites := ps\<rparr>) \<and> set (spec_prerequisites t) \<subseteq> set ps"
      proof (cases "k = key")
        case True
        with k s show ?thesis
          by (intro exI [of _ "insort_insert p (spec_prerequisites t)"]) (auto simp: get add_prerequisite_def set_insort_insert)
      next
        case False
        with k show ?thesis by (intro exI [of _ "spec_prerequisites t"]) (simp add: get)
      qed
    qed (auto simp: get s split: if_splits)
  qed
  show "has_prereq (pst_specs st') key p" using get [of key] by (auto simp: has_prereq_def pst_get_def)
qed

lemma require_key_total: "key \<in> dom (pst_get st) \<Longrightarrow> \<exists>st'. require_key key p st = Inr st'"
  by (auto simp: require_key_def require_spec_def pst_get_def)

lemma insert_spec_get:
  assumes "insert_spec spec st = Inr (key, st')" "pst_wf st"
  shows "key = spec_key spec" "pst_get st key = None" "pst_get st' = (pst_get st)(key \<mapsto> spec)"
    "pst_manual_operation_keys st' = pst_manual_operation_keys st" "pst_provider_operation_keys st' = pst_provider_operation_keys st"
    "pst_manual_actions st' = pst_manual_actions st" "kind_at st' = (kind_at st)(key \<mapsto> spec_kind spec)"
  using assms by (auto simp: insert_spec_def pst_get_def bt_get_insert pst_wf_def specs_ok_def kind_at_def split: if_splits)

lemma insert_spec_step:
  assumes "insert_spec spec st = Inr (key, st')" "distinct (spec_prerequisites spec)"
    "pst_wf st \<Longrightarrow> set (spec_prerequisites spec) \<subseteq> dom (pst_get st)" "N spec"
    "\<And>a. spec_kind spec = OpenManualAction a \<Longrightarrow> bt_get (pst_manual_actions st) (ma_id a) = Some a"
  shows "step N st st'"
  unfolding step_def
proof (intro impI conjI)
  assume wf: "pst_wf st"
  note get = insert_spec_get [OF assms(1) wf]
  have "bt_inv (pst_specs st')" using assms(1) wf by (auto simp: insert_spec_def pst_wf_def specs_ok_def bt_inv_insert split: if_splits)
  moreover have "spec_key s = k \<and> distinct (spec_prerequisites s) \<and> set (spec_prerequisites s) \<subseteq> dom (pst_get st')"
    if "pst_get st' k = Some s" for k s
  proof (cases "k = key")
    case True
    with that assms(2) assms(3) [OF wf] get(1) show ?thesis by (auto simp: get(3))
  next
    case False
    with that have "pst_get st k = Some s" by (simp add: get(3))
    then have "spec_key s = k \<and> distinct (spec_prerequisites s) \<and> set (spec_prerequisites s) \<subseteq> dom (pst_get st)"
      using wf unfolding pst_wf_def specs_ok_def by blast
    then show ?thesis by (auto simp: get(3))
  qed
  ultimately have "specs_ok st'" unfolding specs_ok_def by blast
  moreover have "actions_ok st'"
  proof -
    have fresh: "kind_at st key = None" using get(2) by (simp add: kind_at_def)
    have "actions_ok st" using wf by (simp add: pst_wf_def)
    then show ?thesis using fresh assms(5) unfolding actions_ok_def get(4-7) by (auto split: if_splits) fastforce+
  qed
  ultimately show "pst_wf st'" by (simp add: pst_wf_def)
  show "grows N st st'"
    unfolding grows_def
  proof (intro conjI allI impI)
    fix k s assume k: "pst_get st k = Some s"
    then have "k \<noteq> key" using get(2) by auto
    with k show "\<exists>ps. pst_get st' k = Some (s\<lparr>spec_prerequisites := ps\<rparr>) \<and> set (spec_prerequisites s) \<subseteq> set ps"
      by (intro exI [of _ "spec_prerequisites s"]) (simp add: get(3))
  qed (use assms(4) get(3) in \<open>auto split: if_splits\<close>)
qed

subsection \<open>Manual actions and providers\<close>

definition is_manual :: "OperationSpec \<Rightarrow> bool" where
  "is_manual s \<longleftrightarrow> (\<exists>a. spec_kind s = OpenManualAction a)"

definition is_provider :: "OperationSpec \<Rightarrow> bool" where
  "is_provider s \<longleftrightarrow> (\<exists>p. spec_kind s = EnsureProvider p)"

definition auxiliary :: "OperationSpec \<Rightarrow> bool" where
  "auxiliary s \<longleftrightarrow> is_manual s \<or> is_provider s"

lemma spec_mono_kinds [simp]: "spec_mono is_manual" "spec_mono is_provider" "spec_mono auxiliary"
  by (auto simp: spec_mono_def is_manual_def is_provider_def auxiliary_def)

lemma new_spec_fields:
  assumes "OperationSpec_new digest component kind phase precondition verification elevation once = Inr spec"
  shows "spec_component spec = component" "spec_kind spec = kind" "spec_prerequisites spec = []" "spec_precondition spec = precondition"
    "spec_key spec = spec_idempotency_key spec" "spec_requires_elevation spec = elevation" "spec_verification spec = verification"
  using assms by (auto simp: OperationSpec_new_def make_spec_def result_simps)

lemma new_shared_spec_fields:
  assumes "OperationSpec_new_shared digest component namespace kind phase precondition verification elevation once = Inr spec"
  shows "spec_component spec = component" "spec_kind spec = kind" "spec_prerequisites spec = []"
  using assms by (auto simp: OperationSpec_new_shared_def make_spec_def result_simps)

definition run_action :: "RunId \<Rightarrow> ManualAction \<Rightarrow> ManualAction" where
  "run_action run_id action = action\<lparr>ma_id := ''manual-action:'' @ run_id @ '':'' @ ma_id action\<rparr>"

lemma register_action:
  assumes "pst_wf st" "case bt_get (pst_manual_actions st) (ma_id action) of None \<Rightarrow> True | Some existing \<Rightarrow> existing = action"
  shows "pst_wf (st\<lparr>pst_manual_actions := bt_insert (ma_id action) action (pst_manual_actions st)\<rparr>)"
proof -
  let ?st = "st\<lparr>pst_manual_actions := bt_insert (ma_id action) action (pst_manual_actions st)\<rparr>"
  have inv: "bt_inv (pst_manual_actions st)" using assms(1) by (simp add: pst_wf_def actions_ok_def)
  have keep: "bt_get (pst_manual_actions ?st) i = Some a" if "bt_get (pst_manual_actions st) i = Some a" for i a
    using that assms(2) inv by (auto simp: bt_get_insert)
  have get: "pst_get ?st = pst_get st" "kind_at ?st = kind_at st" by (simp_all add: pst_get_def kind_at_def fun_eq_iff)
  have "specs_ok ?st" using assms(1) by (simp add: pst_wf_def specs_ok_def get)
  moreover have "actions_ok ?st"
    using assms(1) keep unfolding pst_wf_def actions_ok_def get by (simp add: bt_inv_insert) blast
  ultimately show ?thesis by (simp add: pst_wf_def)
qed

lemma add_manual_spec:
  assumes "add_manual_action_operation digest action owner run_id st = Inr (key, st')"
  shows "step is_manual st st'" "pst_wf st \<Longrightarrow> kind_at st' key = Some (OpenManualAction (run_action run_id action))"
proof -
  let ?action = "run_action run_id action"
  let ?st1 = "st\<lparr>pst_manual_actions := bt_insert (ma_id ?action) ?action (pst_manual_actions st)\<rparr>"
  have same: "case bt_get (pst_manual_actions st) (ma_id ?action) of None \<Rightarrow> True | Some existing \<Rightarrow> existing = ?action"
    using assms by (auto simp: add_manual_action_operation_def Let_def run_action_def split: if_splits option.splits)
  have get1: "pst_get ?st1 = pst_get st" "kind_at ?st1 = kind_at st" by (simp_all add: pst_get_def kind_at_def fun_eq_iff)
  have both: "pst_wf st' \<and> grows is_manual st st' \<and> kind_at st' key = Some (OpenManualAction ?action)" if wf: "pst_wf st"
  proof -
    have wf1: "pst_wf ?st1" by (rule register_action [OF wf same])
    have action1: "bt_get (pst_manual_actions ?st1) (ma_id ?action) = Some ?action"
      using wf by (simp add: pst_wf_def actions_ok_def bt_get_insert)
    show ?thesis
    proof (cases "bt_get (pst_manual_operation_keys st) (ma_id ?action)")
      case (Some k)
      then have "key = k" "st' = ?st1" using assms by (auto simp: add_manual_action_operation_def Let_def run_action_def split: if_splits)
      moreover have "kind_at ?st1 k = Some (OpenManualAction ?action)"
      proof -
        have "bt_get (pst_manual_operation_keys ?st1) (ma_id ?action) = Some k" using Some by simp
        then obtain a where "bt_get (pst_manual_actions ?st1) (ma_id ?action) = Some a" "kind_at ?st1 k = Some (OpenManualAction a)"
          using wf1 unfolding pst_wf_def actions_ok_def by blast
        with action1 show ?thesis by simp
      qed
      moreover have "grows is_manual st ?st1" using grows_refl [of is_manual st] by (simp add: grows_def get1)
      ultimately show ?thesis using wf1 by simp
    next
      case None
      then obtain spec st2 where
        spec: "OperationSpec_new digest owner (OpenManualAction ?action) OperationPhase.Manual Always (option_as_list (ma_verification ?action))
          (ma_risk ?action = RiskLevel.High \<or> ma_risk ?action = RiskLevel.Critical) False = Inr spec"
        and ins: "insert_spec spec ?st1 = Inr (key, st2)"
        and st': "st' = st2\<lparr>pst_manual_operation_keys := bt_insert (ma_id ?action) key (pst_manual_operation_keys st2)\<rparr>"
        using assms by (auto simp: add_manual_action_operation_def Let_def run_action_def result_simps split: if_splits)
      note f = new_spec_fields [OF spec]
      have "step is_manual ?st1 st2"
        by (rule insert_spec_step [OF ins]) (use f action1 in \<open>auto simp: is_manual_def\<close>)
      then have wf2: "pst_wf st2" and g2: "grows is_manual ?st1 st2" using wf1 by (auto simp: step_def)
      note get2 = insert_spec_get [OF ins wf1]
      have get': "pst_get st' = pst_get st2" "kind_at st' = kind_at st2" by (simp_all add: st' pst_get_def kind_at_def fun_eq_iff)
      have k2: "kind_at st2 key = Some (OpenManualAction ?action)" using get2(7) f(2) by simp
      have "actions_ok st'"
        using wf2 k2 action1 get2(6) unfolding pst_wf_def actions_ok_def get'
        by (auto simp: st' bt_inv_insert bt_get_insert split: if_splits)
      moreover have "specs_ok st'" using wf2 by (simp add: pst_wf_def specs_ok_def get' st' pst_get_def)
      moreover have "grows is_manual st st'" using g2 by (simp add: grows_def get' get1)
      ultimately show ?thesis using k2 by (simp add: pst_wf_def get')
    qed
  qed
  then show "step is_manual st st'" by (simp add: step_def)
  show "kind_at st' key = Some (OpenManualAction ?action)" if "pst_wf st" using both that by blast
qed

lemma ensure_provider_step:
  assumes "ensure_provider digest provider owner st = Inr (key, st')"
  shows "step is_provider st st'" "pst_wf st \<Longrightarrow> kind_at st' key = Some (EnsureProvider provider)"
proof -
  have both: "pst_wf st' \<and> grows is_provider st st' \<and> kind_at st' key = Some (EnsureProvider provider)" if wf: "pst_wf st"
  proof (cases "bt_get (pst_provider_operation_keys st) provider")
    case (Some k)
    then have "key = k" "st' = st" using assms by (auto simp: ensure_provider_def)
    with Some wf show ?thesis by (auto simp: pst_wf_def actions_ok_def grows_refl)
  next
    case None
    then obtain spec st2 where
      spec: "OperationSpec_new_shared digest owner ''provider'' (EnsureProvider provider) ProviderBootstrap Always [] False False = Inr spec"
      and ins: "insert_spec spec st = Inr (key, st2)"
      and st': "st' = st2\<lparr>pst_provider_operation_keys := bt_insert provider key (pst_provider_operation_keys st2)\<rparr>"
      using assms by (auto simp: ensure_provider_def result_simps)
    note f = new_shared_spec_fields [OF spec]
    have "step is_provider st st2"
      by (rule insert_spec_step [OF ins]) (use f in \<open>auto simp: is_provider_def\<close>)
    then have wf2: "pst_wf st2" and g2: "grows is_provider st st2" using wf by (auto simp: step_def)
    note get2 = insert_spec_get [OF ins wf]
    have get': "pst_get st' = pst_get st2" "kind_at st' = kind_at st2" by (simp_all add: st' pst_get_def kind_at_def fun_eq_iff)
    have k2: "kind_at st2 key = Some (EnsureProvider provider)" using get2(7) f(2) by simp
    have "actions_ok st'"
      using wf2 k2 unfolding pst_wf_def actions_ok_def get'
      by (auto simp: st' bt_inv_insert bt_get_insert split: if_splits)
    moreover have "specs_ok st'" using wf2 by (simp add: pst_wf_def specs_ok_def get' st' pst_get_def)
    moreover have "grows is_provider st st'" using g2 by (simp add: grows_def get')
    ultimately show ?thesis using k2 by (simp add: pst_wf_def get')
  qed
  then show "step is_provider st st'" by (simp add: step_def)
  show "kind_at st' key = Some (EnsureProvider provider)" if "pst_wf st" using both that by blast
qed

subsection \<open>The operations of one component\<close>

text \<open>An artifact the planner may write without the user.\<close>

definition restorable :: "Component \<Rightarrow> ArtifactRef \<Rightarrow> bool" where
  "restorable c artifact \<longleftrightarrow>
     art_policy artifact \<notin> {ArtifactPolicy.Manual, ArtifactPolicy.SecretReference} \<and> c_kind c \<noteq> ComponentKind.SecretReference
     \<and> pt_root (art_source_path artifact) \<notin> {ProgramData, ProgramFiles, ProgramFilesX86}"

text \<open>Why the planner may schedule an automatic operation for a component.\<close>

definition automatic :: "mcp_map \<Rightarrow> Component \<Rightarrow> ComponentDiff \<Rightarrow> bool" where
  "automatic mcp c diff \<longleftrightarrow>
     cd_disposition diff \<in> {ComponentDisposition.Install, ComponentDisposition.Merge} \<and> \<not> requires_manual c diff mcp"

definition justified :: "mcp_map \<Rightarrow> ArtifactRef list \<Rightarrow> Component \<Rightarrow> ComponentDiff \<Rightarrow> OperationKind \<Rightarrow> bool" where
  "justified mcp artifacts c diff kind \<longleftrightarrow> automatic mcp c diff \<and>
     ((\<exists>row. cd_disposition diff = ComponentDisposition.Install \<and> primary_operation c diff = Inr (Some (kind, row)))
     \<or> (\<exists>artifact \<in> set artifacts. \<exists>obj row. restorable c artifact \<and> art_object artifact = Some obj
          \<and> (special_operation c artifact obj = None \<or> \<not> cd_target_present diff)
          \<and> artifact_row c diff artifact obj (special_operation c artifact obj) = Some (kind, row))
     \<or> (\<exists>server. bt_get mcp (c_id c) = Some server \<and> c_kind c = McpServer \<and> kind = RegisterMcp server))"

definition confirmed :: "confirmation_map \<Rightarrow> OperationSpec \<Rightarrow> bool" where
  "confirmed conf s \<longleftrightarrow> (\<forall>keys. bt_get conf (spec_component s) = Some keys \<longrightarrow> set keys \<subseteq> set (spec_prerequisites s))"

definition mutation_spec ::
  "confirmation_map \<Rightarrow> mcp_map \<Rightarrow> ArtifactRef list \<Rightarrow> Component \<Rightarrow> ComponentDiff \<Rightarrow> str list \<Rightarrow> OperationSpec \<Rightarrow> bool" where
  "mutation_spec conf mcp artifacts c diff keys s \<longleftrightarrow>
     spec_component s = c_id c \<and> justified mcp artifacts c diff (spec_kind s) \<and> confirmed conf s \<and> spec_key s \<in> set keys"

definition built_spec ::
  "confirmation_map \<Rightarrow> mcp_map \<Rightarrow> ArtifactRef list \<Rightarrow> Component \<Rightarrow> ComponentDiff \<Rightarrow> str list \<Rightarrow> OperationSpec \<Rightarrow> bool" where
  "built_spec conf mcp artifacts c diff keys s \<longleftrightarrow> auxiliary s \<or> mutation_spec conf mcp artifacts c diff keys s"

lemma spec_mono_built [simp]: "spec_mono (built_spec conf mcp artifacts c diff keys)"
  unfolding spec_mono_def built_spec_def mutation_spec_def auxiliary_def is_manual_def is_provider_def confirmed_def by fastforce

definition serves :: "ComponentId \<Rightarrow> OperationSpec \<Rightarrow> bool" where
  "serves c s \<longleftrightarrow> spec_component s = c \<or> (\<exists>a. spec_kind s = OpenManualAction a \<and> ma_component a = Some c)"

lemma spec_mono_serves [simp]: "spec_mono (serves c)"
  by (auto simp: spec_mono_def serves_def)

definition keys_serve :: "ComponentId \<Rightarrow> str list \<Rightarrow> plan_state \<Rightarrow> bool" where
  "keys_serve c keys st \<longleftrightarrow> (\<forall>k \<in> set keys. \<exists>s. pst_get st k = Some s \<and> serves c s)"

lemma grows_serve: "grows N st st' \<Longrightarrow> keys_serve c keys st \<Longrightarrow> keys_serve c keys st'"
  unfolding keys_serve_def grows_def using spec_mono_serves [of c] unfolding spec_mono_def by metis

lemma keys_serve_dom: "keys_serve c keys st \<Longrightarrow> set keys \<subseteq> dom (pst_get st)"
  by (auto simp: keys_serve_def)

text \<open>The state while the operations of a component are made, started from \<open>st0\<close>.\<close>

definition building_ok ::
  "confirmation_map \<Rightarrow> mcp_map \<Rightarrow> ArtifactRef list \<Rightarrow> Component \<Rightarrow> ComponentDiff \<Rightarrow> plan_state \<Rightarrow> building \<Rightarrow> bool" where
  "building_ok conf mcp artifacts c diff st0 = (\<lambda>(ops, st).
     pst_wf st \<and> grows (built_spec conf mcp artifacts c diff (co_mutation_keys ops)) st0 st
     \<and> keys_serve (c_id c) (co_mutation_keys ops) st
     \<and> (\<forall>k. co_readiness_key ops = Some k \<longrightarrow> k \<in> set (co_mutation_keys ops)))"

lemma building_extend:
  assumes "building_ok conf mcp artifacts c diff st0 (ops, st)"
    and "step N st st'" and "\<And>s. N s \<Longrightarrow> built_spec conf mcp artifacts c diff (co_mutation_keys ops') s"
    and "co_mutation_keys ops' = co_mutation_keys ops @ keys" and "keys_serve (c_id c) keys st'"
    and "\<And>k. co_readiness_key ops' = Some k \<Longrightarrow> k \<in> set (co_mutation_keys ops')"
  shows "building_ok conf mcp artifacts c diff st0 (ops', st')"
proof -
  have wf: "pst_wf st'" and g: "grows N st st'" using assms(1,2) by (auto simp: building_ok_def step_def)
  have "grows (built_spec conf mcp artifacts c diff (co_mutation_keys ops')) st0 st"
    by (rule grows_weaken [where N = "built_spec conf mcp artifacts c diff (co_mutation_keys ops)"])
       (use assms(1) in \<open>auto simp: building_ok_def built_spec_def mutation_spec_def assms(4)\<close>)
  moreover have "grows (built_spec conf mcp artifacts c diff (co_mutation_keys ops')) st st'"
    using g assms(3) by (rule grows_weaken)
  ultimately have "grows (built_spec conf mcp artifacts c diff (co_mutation_keys ops')) st0 st'"
    using grows_trans spec_mono_built by blast
  moreover have "keys_serve (c_id c) (co_mutation_keys ops') st'"
    using assms(1,5) grows_serve [OF g] by (auto simp: building_ok_def keys_serve_def assms(4))
  ultimately show ?thesis using wf assms(6) by (simp add: building_ok_def)
qed

lemma building_start: "pst_wf st \<Longrightarrow> building_ok conf mcp artifacts c diff st (no_operations, st)"
  by (simp add: building_ok_def no_operations_def grows_refl keys_serve_def)

lemma add_component_action_ok:
  assumes "building_ok conf mcp artifacts c diff st0 b" "add_component_action digest c run_id label ready b = Inr b'"
  shows "building_ok conf mcp artifacts c diff st0 b' \<and> co_mutation_keys (fst b') \<noteq> []"
proof -
  obtain ops st where b: "b = (ops, st)" by force
  obtain key st' where m: "add_manual_action_operation digest (component_manual_action c label) (c_id c) run_id st = Inr (key, st')"
    and b': "b' = (ops\<lparr>co_mutation_keys := co_mutation_keys ops @ [key],
                co_readiness_key := if ready then Some key else co_readiness_key ops\<rparr>, st')"
    using assms(2) by (auto simp: b add_component_action_def result_simps)
  have wf: "pst_wf st" using assms(1) by (simp add: b building_ok_def)
  have "kind_at st' key = Some (OpenManualAction (run_action run_id (component_manual_action c label)))"
    by (rule add_manual_spec(2) [OF m wf])
  then have serve: "keys_serve (c_id c) [key] st'"
    by (auto simp: keys_serve_def kind_at_def serves_def run_action_def component_manual_action_def pending_action_def Let_def)
  have "building_ok conf mcp artifacts c diff st0 b'"
    unfolding b'
    by (rule building_extend [OF assms(1) [unfolded b] add_manual_spec(1) [OF m], where keys = "[key]"])
       (use assms(1) serve in \<open>auto simp: b building_ok_def built_spec_def auxiliary_def split: if_splits\<close>)
  then show ?thesis by (simp add: b')
qed

definition conf_known :: "confirmation_map \<Rightarrow> plan_state \<Rightarrow> bool" where
  "conf_known conf st \<longleftrightarrow> (\<forall>c keys. bt_get conf c = Some keys \<longrightarrow> set keys \<subseteq> dom (pst_get st))"

lemma grows_conf: "grows N st st' \<Longrightarrow> conf_known conf st \<Longrightarrow> conf_known conf st'"
  using grows_dom unfolding conf_known_def by blast

lemma confirmation_fields [simp]:
  "spec_kind (add_confirmation_prerequisites c conf s) = spec_kind s"
  "spec_component (add_confirmation_prerequisites c conf s) = spec_component s"
  "spec_key (add_confirmation_prerequisites c conf s) = spec_key s"
  "distinct (spec_prerequisites (add_confirmation_prerequisites c conf s)) = distinct (spec_prerequisites s)"
  by (auto simp: add_confirmation_prerequisites_def split: option.split)

lemma confirmation_prerequisites:
  "set (spec_prerequisites (add_confirmation_prerequisites c conf s)) =
     set (spec_prerequisites s) \<union> (case bt_get conf (c_id c) of None \<Rightarrow> {} | Some keys \<Rightarrow> set keys)"
  by (auto simp: add_confirmation_prerequisites_def split: option.split)

lemma confirmed_added: "spec_component s = c_id c \<Longrightarrow> confirmed conf (add_confirmation_prerequisites c conf s)"
  by (auto simp: confirmed_def confirmation_prerequisites)

text \<open>Inserting an automatic operation of the component, with its confirmations.\<close>

lemma insert_mutation:
  assumes b: "building_ok conf mcp artifacts c diff st0 (ops, st)" and conf: "conf_known conf st0"
    and ins: "insert_spec (add_confirmation_prerequisites c conf spec) st = Inr (key, st')"
    and spec: "spec_component spec = c_id c" "distinct (spec_prerequisites spec)" "set (spec_prerequisites spec) \<subseteq> dom (pst_get st)"
    and kind: "justified mcp artifacts c diff (spec_kind spec)" "\<And>a. spec_kind spec \<noteq> OpenManualAction a"
    and keys: "co_mutation_keys ops' = co_mutation_keys ops @ [key]"
    and ready: "\<And>k. co_readiness_key ops' = Some k \<Longrightarrow> k = key \<or> co_readiness_key ops = Some k"
  shows "building_ok conf mcp artifacts c diff st0 (ops', st')"
proof -
  let ?spec = "add_confirmation_prerequisites c conf spec"
  have wf: "pst_wf st" and g: "conf_known conf st" using b conf grows_conf by (auto simp: building_ok_def)
  note get = insert_spec_get [OF ins wf]
  have N: "mutation_spec conf mcp artifacts c diff (co_mutation_keys ops') ?spec"
    using kind spec(1) confirmed_added [of spec c conf] get(1) by (simp add: mutation_spec_def keys)
  have st: "step (mutation_spec conf mcp artifacts c diff (co_mutation_keys ops')) st st'"
  proof (rule insert_spec_step [OF ins])
    show "set (spec_prerequisites ?spec) \<subseteq> dom (pst_get st)"
      using spec(3) g by (auto simp: confirmation_prerequisites conf_known_def split: option.splits)
  qed (use spec kind N in auto)
  have serve: "keys_serve (c_id c) [key] st'" using get spec(1) by (simp add: keys_serve_def serves_def)
  show ?thesis
  proof (rule building_extend [OF b st _ keys serve])
    fix k assume "co_readiness_key ops' = Some k"
    with ready b show "k \<in> set (co_mutation_keys ops')" by (auto simp: building_ok_def keys)
  qed (simp add: built_spec_def)
qed

lemma primary_not_manual:
  "primary_operation c diff = Inr (Some (kind, row)) \<Longrightarrow> kind \<noteq> OpenManualAction a \<and> kind \<noteq> OperationKind.Verify r
     \<and> kind \<noteq> EnsureProvider p"
  by (auto simp: primary_operation_def Let_def environment_operation_def runtime_operation_def package_operation_def
      extension_operation_def result_simps split: ComponentKind.splits if_splits option.splits VerificationRule.splits
      ConfigScope.splits SafeValueRef.splits)

lemma add_primary_operation_ok:
  assumes b: "building_ok conf mcp artifacts c diff st0 b" and conf: "conf_known conf st0" and auto: "automatic mcp c diff"
    and r: "add_primary_operation digest c diff conf b = Inr (provider, b')"
  shows "building_ok conf mcp artifacts c diff st0 b' \<and> (provider \<noteq> None \<longrightarrow> co_mutation_keys (fst b') \<noteq> [])
    \<and> (co_mutation_keys (fst b) = [] \<longrightarrow> (co_mutation_keys (fst b') \<noteq> [] \<longrightarrow> co_readiness_key (fst b') \<noteq> None))"
proof -
  obtain ops st where bb: "b = (ops, st)" by force
  show ?thesis
  proof (cases "provider = None \<and> b' = b")
    case True
    with b show ?thesis by simp
  next
    case False
    with r have inst: "cd_disposition diff = ComponentDisposition.Install"
      by (auto simp: bb add_primary_operation_def split: if_splits)
    with r obtain primary where p1: "primary_operation c diff = Inr primary" by (auto simp: bb add_primary_operation_def result_simps)
    with r inst False obtain row where "primary = Some row" by (cases primary) (auto simp: bb add_primary_operation_def)
    moreover obtain kind phase precondition verification elevation provider' where
      "row = (kind, phase, precondition, verification, elevation, provider')" by (cases row)
    ultimately have p: "primary_operation c diff = Inr (Some (kind, phase, precondition, verification, elevation, provider'))"
      using p1 by simp
    from r inst p obtain spec where
      spec: "OperationSpec_new digest (c_id c) kind phase precondition verification elevation False = Inr spec"
      by (auto simp: bb add_primary_operation_def result_simps)
    from r inst p spec obtain key st' where
      ins: "insert_spec (add_confirmation_prerequisites c conf spec) st = Inr (key, st')"
      by (auto simp: bb add_primary_operation_def result_simps)
    have b': "b' = (ops\<lparr>co_mutation_keys := co_mutation_keys ops @ [key], co_readiness_key := Some key\<rparr>, st')"
      using r inst p spec ins by (simp add: bb add_primary_operation_def)
    note f = new_spec_fields [OF spec]
    have "building_ok conf mcp artifacts c diff st0 b'"
      unfolding b'
      by (rule insert_mutation [OF b [unfolded bb] conf ins])
         (use f p inst auto primary_not_manual [OF p] in \<open>auto simp: justified_def\<close>)
    then show ?thesis by (simp add: b')
  qed
qed

lemma require_primary_provider_ok:
  assumes b: "building_ok conf mcp artifacts c diff st0 b" and keys: "provider \<noteq> None \<longrightarrow> co_mutation_keys (fst b) \<noteq> []"
  shows "no_abort (require_primary_provider digest c provider b)"
    "require_primary_provider digest c provider b = Inr b' \<Longrightarrow> building_ok conf mcp artifacts c diff st0 b' \<and> fst b' = fst b"
proof -
  obtain ops st where bb: "b = (ops, st)" by force
  have wf: "pst_wf st" and serve: "keys_serve (c_id c) (co_mutation_keys ops) st" using b by (auto simp: bb building_ok_def)
  have main: "no_abort (require_primary_provider digest c provider b)
      \<and> (\<forall>b'. require_primary_provider digest c provider b = Inr b' \<longrightarrow> building_ok conf mcp artifacts c diff st0 b' \<and> fst b' = fst b)"
  proof (cases provider)
    case None
    with b show ?thesis by (simp add: bb require_primary_provider_def)
  next
    case (Some p)
    with keys obtain key rest where key: "co_mutation_keys ops = key # rest" by (auto simp: bb neq_Nil_conv)
    show ?thesis
    proof (cases "ensure_provider digest p (c_id c) st")
      case (Inl e)
      with Some show ?thesis by (simp add: bb require_primary_provider_def)
    next
      case (Inr r)
      obtain pk st1 where r: "r = (pk, st1)" by force
      note e = ensure_provider_step [OF Inr [unfolded r]]
      have wf1: "pst_wf st1" and g1: "grows is_provider st st1" using e(1) wf by (auto simp: step_def)
      have pk: "pk \<in> dom (pst_get st1)" by (rule kind_at_dom [OF e(2) [OF wf]])
      have "key \<in> dom (pst_get st1)" using serve grows_dom [OF g1] by (auto simp: key keys_serve_def)
      then obtain st2 where st2: "require_key key pk st1 = Inr st2" using require_key_total by blast
      have "step is_provider st st2"
        using e(1) require_key_step(1) [OF st2 pk] spec_mono_kinds(2) step_trans by blast
      then have "building_ok conf mcp artifacts c diff st0 (ops, st2)"
        by (rule building_extend [OF b [unfolded bb], where keys = "[]"])
           (use b in \<open>auto simp: bb building_ok_def built_spec_def auxiliary_def keys_serve_def\<close>)
      then show ?thesis by (simp add: bb require_primary_provider_def Some Inr r key st2)
    qed
  qed
  then show "no_abort (require_primary_provider digest c provider b)"
    "require_primary_provider digest c provider b = Inr b' \<Longrightarrow> building_ok conf mcp artifacts c diff st0 b' \<and> fst b' = fst b"
    by blast+
qed

lemma artifact_row_kinds:
  "artifact_row c diff artifact obj (special_operation c artifact obj) = Some (kind, row) \<Longrightarrow>
     kind \<noteq> OpenManualAction a \<and> kind \<noteq> OperationKind.Verify r \<and> kind \<noteq> EnsureProvider p"
  by (auto simp: artifact_row_def special_operation_def Let_def split: option.splits if_splits ComponentKind.splits)

lemma add_artifact_cases:
  obtains
    (manual) "add_artifact_operation digest c run_id diff conf artifact st
      = lift_fail (add_manual_action_operation digest (artifact_manual_action c artifact) (c_id c) run_id st)"
  | (refused) e where "add_artifact_operation digest c run_id diff conf artifact st = Inl (Fail e)"
  | (restored) obj kind phase verification where "restorable c artifact" "art_object artifact = Some obj"
      "special_operation c artifact obj = None \<or> \<not> cd_target_present diff"
      "artifact_row c diff artifact obj (special_operation c artifact obj) = Some (kind, phase, verification)"
      "add_artifact_operation digest c run_id diff conf artifact st = schedule_artifact digest c conf kind phase obj verification st"
proof (cases "art_policy artifact \<in> {ArtifactPolicy.Manual, ArtifactPolicy.SecretReference} \<or> c_kind c = ComponentKind.SecretReference")
  case True
  then show thesis by (intro manual) (simp add: add_artifact_operation_def)
next
  case policy: False
  show thesis
  proof (cases "PathToken_validate (art_source_path artifact)")
    case (Inl e)
    then show thesis using policy by (intro refused) (simp add: add_artifact_operation_def)
  next
    case valid: (Inr u)
    show thesis
    proof (cases "pt_root (art_source_path artifact) \<in> {ProgramData, ProgramFiles, ProgramFilesX86}")
      case True
      then show thesis using policy valid by (intro manual) (simp add: add_artifact_operation_def)
    next
      case root: False
      show thesis
      proof (cases "art_object artifact")
        case None
        then show thesis using policy valid root by (intro refused) (simp add: add_artifact_operation_def)
      next
        case obj: (Some obj)
        show thesis
        proof (cases "special_operation c artifact obj \<noteq> None \<and> cd_target_present diff")
          case True
          then show thesis using policy valid root obj by (intro manual) (simp add: add_artifact_operation_def)
        next
          case special: False
          show thesis
          proof (cases "artifact_row c diff artifact obj (special_operation c artifact obj)")
            case None
            then show thesis using policy valid root obj special by (intro manual) (auto simp: add_artifact_operation_def)
          next
            case (Some row)
            obtain kind phase verification where "row = (kind, phase, verification)" by (cases row)
            then show thesis using Some policy valid root obj special
              by (intro restored [of obj kind phase verification]) (auto simp: add_artifact_operation_def restorable_def)
          qed
        qed
      qed
    qed
  qed
qed

lemma schedule_artifact_ok:
  assumes b: "building_ok conf mcp artifacts c diff st0 (ops, st)" and conf: "conf_known conf st0"
    and j: "justified mcp artifacts c diff kind" "\<And>a. kind \<noteq> OpenManualAction a"
  shows "no_abort (schedule_artifact digest c conf kind phase obj verification st)"
    "schedule_artifact digest c conf kind phase obj verification st = Inr (key, st') \<Longrightarrow>
       co_mutation_keys ops' = co_mutation_keys ops @ [key] \<Longrightarrow>
       (\<And>k. co_readiness_key ops' = Some k \<Longrightarrow> k = key \<or> co_readiness_key ops = Some k) \<Longrightarrow>
       building_ok conf mcp artifacts c diff st0 (ops', st')"
proof -
  let ?r = "schedule_artifact digest c conf kind phase obj verification st"
  have main: "no_abort ?r \<and> (\<forall>key st' ops'. ?r = Inr (key, st') \<and> co_mutation_keys ops' = co_mutation_keys ops @ [key]
      \<and> (\<forall>k. co_readiness_key ops' = Some k \<longrightarrow> k = key \<or> co_readiness_key ops = Some k)
      \<longrightarrow> building_ok conf mcp artifacts c diff st0 (ops', st'))"
  proof (cases "OperationSpec_new digest (c_id c) kind phase (ArtifactPresent obj) verification False False")
    case (Inl e)
    then show ?thesis by (simp add: schedule_artifact_def)
  next
    case spec: (Inr spec)
    note f = new_spec_fields [OF spec]
    show ?thesis
    proof (cases "insert_spec (add_confirmation_prerequisites c conf spec) st")
      case (Inl e)
      then show ?thesis by (simp add: schedule_artifact_def spec)
    next
      case (Inr r)
      obtain key st1 where ins: "insert_spec (add_confirmation_prerequisites c conf spec) st = Inr (key, st1)" using Inr by (cases r) auto
      have ok1: "building_ok conf mcp artifacts c diff st0 (ops', st1)"
        if "co_mutation_keys ops' = co_mutation_keys ops @ [key]"
          "\<And>k. co_readiness_key ops' = Some k \<Longrightarrow> k = key \<or> co_readiness_key ops = Some k" for ops'
        by (rule insert_mutation [OF b conf ins]) (use f j that in auto)
      show ?thesis
      proof (cases "artifact_provider c kind")
        case (Inl e)
        then show ?thesis by (simp add: schedule_artifact_def spec ins)
      next
        case provider: (Inr provider)
        show ?thesis
        proof (cases provider)
          case None
          with ok1 show ?thesis by (simp add: schedule_artifact_def spec ins provider)
        next
          case (Some p)
          show ?thesis
          proof (cases "ensure_provider digest p (c_id c) st1")
            case (Inl e)
            then show ?thesis by (simp add: schedule_artifact_def spec ins provider Some)
          next
            case (Inr r)
            obtain pk st2 where e: "ensure_provider digest p (c_id c) st1 = Inr (pk, st2)" using Inr by (cases r) auto
            let ?ops = "ops\<lparr>co_mutation_keys := co_mutation_keys ops @ [key]\<rparr>"
            have wf1: "pst_wf st1" and key: "key \<in> dom (pst_get st1)"
              using ok1 [of ?ops] by (auto simp: building_ok_def keys_serve_def)
            note ep = ensure_provider_step [OF e]
            have g: "grows is_provider st1 st2" using ep(1) wf1 by (simp add: step_def)
            have pk: "pk \<in> dom (pst_get st2)" by (rule kind_at_dom [OF ep(2) [OF wf1]])
            obtain st3 where st3: "require_key key pk st2 = Inr st3" using require_key_total key grows_dom [OF g] by blast
            have "step is_provider st1 st3" using ep(1) require_key_step(1) [OF st3 pk] spec_mono_kinds(2) step_trans by blast
            then have "building_ok conf mcp artifacts c diff st0 (ops', st3)"
              if ok: "building_ok conf mcp artifacts c diff st0 (ops', st1)" for ops'
              by (rule building_extend [OF ok, where keys = "[]"])
                 (use ok in \<open>auto simp: building_ok_def built_spec_def auxiliary_def keys_serve_def\<close>)
            with ok1 show ?thesis by (simp add: schedule_artifact_def spec ins provider Some e st3)
          qed
        qed
      qed
    qed
  qed
  then show "no_abort ?r" by blast
  show "building_ok conf mcp artifacts c diff st0 (ops', st')" if "?r = Inr (key, st')"
    "co_mutation_keys ops' = co_mutation_keys ops @ [key]"
    "\<And>k. co_readiness_key ops' = Some k \<Longrightarrow> k = key \<or> co_readiness_key ops = Some k"
    using main that by blast
qed

lemma add_component_artifact_ok:
  assumes b: "building_ok conf mcp artifacts c diff st0 b" and conf: "conf_known conf st0" and auto: "automatic mcp c diff"
    and a: "artifact \<in> set artifacts"
  shows "no_abort (add_component_artifact digest c run_id diff conf artifact b)"
    "add_component_artifact digest c run_id diff conf artifact b = Inr b' \<Longrightarrow>
       building_ok conf mcp artifacts c diff st0 b' \<and> co_readiness_key (fst b') \<noteq> None"
proof -
  obtain ops st where bb: "b = (ops, st)" by force
  let ?f = "\<lambda>key. ops\<lparr>co_mutation_keys := co_mutation_keys ops @ [key],
      co_readiness_key := (case co_readiness_key ops of None \<Rightarrow> Some key | Some k \<Rightarrow> Some k)\<rparr>"
  have wf: "pst_wf st" using b by (simp add: bb building_ok_def)
  have main: "no_abort (add_artifact_operation digest c run_id diff conf artifact st)
      \<and> (\<forall>key st'. add_artifact_operation digest c run_id diff conf artifact st = Inr (key, st') \<longrightarrow>
           building_ok conf mcp artifacts c diff st0 (?f key, st'))"
  proof (rule add_artifact_cases [of digest c run_id diff conf artifact st])
    assume r: "add_artifact_operation digest c run_id diff conf artifact st
      = lift_fail (add_manual_action_operation digest (artifact_manual_action c artifact) (c_id c) run_id st)"
    have "building_ok conf mcp artifacts c diff st0 (?f key, st')"
      if m: "add_manual_action_operation digest (artifact_manual_action c artifact) (c_id c) run_id st = Inr (key, st')" for key st'
    proof (rule building_extend [OF b [unfolded bb] add_manual_spec(1) [OF m], where keys = "[key]"])
      show "keys_serve (c_id c) [key] st'"
        using add_manual_spec(2) [OF m wf]
        by (auto simp: keys_serve_def kind_at_def serves_def run_action_def artifact_manual_action_def pending_action_def Let_def)
    qed (use b in \<open>auto simp: bb building_ok_def built_spec_def auxiliary_def split: option.splits\<close>)
    then show ?thesis by (simp add: r)
  next
    fix e assume "add_artifact_operation digest c run_id diff conf artifact st = Inl (Fail e)"
    then show ?thesis by simp
  next
    fix obj kind phase verification
    assume j: "restorable c artifact" "art_object artifact = Some obj"
      "special_operation c artifact obj = None \<or> \<not> cd_target_present diff"
      "artifact_row c diff artifact obj (special_operation c artifact obj) = Some (kind, phase, verification)"
      and r: "add_artifact_operation digest c run_id diff conf artifact st = schedule_artifact digest c conf kind phase obj verification st"
    have "justified mcp artifacts c diff kind" using j a auto unfolding justified_def by blast
    note s = schedule_artifact_ok [OF b [unfolded bb] conf this, of digest phase obj verification]
    have nm: "kind \<noteq> OpenManualAction x" for x using artifact_row_kinds [OF j(4)] by blast
    show ?thesis
      unfolding r using s(1) [OF nm] s(2) [OF nm, where ops' = "?f _"] by (auto split: option.splits)
  qed
  then show "no_abort (add_component_artifact digest c run_id diff conf artifact b)"
    by (auto simp: bb add_component_artifact_def intro!: no_abort_bind)
  assume "add_component_artifact digest c run_id diff conf artifact b = Inr b'"
  then obtain key st' where "add_artifact_operation digest c run_id diff conf artifact st = Inr (key, st')" "b' = (?f key, st')"
    by (auto simp: bb add_component_artifact_def result_simps)
  then show "building_ok conf mcp artifacts c diff st0 b' \<and> co_readiness_key (fst b') \<noteq> None"
    using main by (simp split: option.split)
qed

lemma add_mcp_registration_ok:
  assumes b: "building_ok conf mcp artifacts c diff st0 b" and conf: "conf_known conf st0" and auto: "automatic mcp c diff"
    and r: "add_mcp_registration digest c diff conf mcp b = Inr b'"
  shows "building_ok conf mcp artifacts c diff st0 b' \<and> (b' = b \<or> co_readiness_key (fst b') \<noteq> None)"
proof -
  obtain ops st where bb: "b = (ops, st)" by force
  show ?thesis
  proof (cases "if c_kind c = McpServer then bt_get mcp (c_id c) else None")
    case None
    with r b show ?thesis by (simp add: bb add_mcp_registration_def)
  next
    case (Some server)
    then have server: "c_kind c = McpServer" "bt_get mcp (c_id c) = Some server" by (auto split: if_splits)
    from r Some obtain spec where
      spec: "OperationSpec_new digest (c_id c) (RegisterMcp server) ApplicationRestore (absent_precondition c diff) (c_verification c) False False = Inr spec"
      by (auto simp: bb add_mcp_registration_def result_simps)
    from r Some spec obtain key st' where
      ins: "insert_spec (add_confirmation_prerequisites c conf (add_prerequisites (co_mutation_keys ops) spec)) st = Inr (key, st')"
      by (auto simp: bb add_mcp_registration_def result_simps)
    have b': "b' = (ops\<lparr>co_mutation_keys := co_mutation_keys ops @ [key], co_readiness_key := Some key\<rparr>, st')"
      using r Some spec ins by (simp add: bb add_mcp_registration_def)
    note f = new_spec_fields [OF spec]
    have dom: "set (co_mutation_keys ops) \<subseteq> dom (pst_get st)" using b keys_serve_dom [of "c_id c"] unfolding bb building_ok_def by blast
    have "building_ok conf mcp artifacts c diff st0 b'"
      unfolding b'
      by (rule insert_mutation [OF b [unfolded bb] conf ins]) (use f server dom auto in \<open>auto simp: justified_def\<close>)
    then show ?thesis by (simp add: b')
  qed
qed

lemma artifacts_fold_ok:
  assumes b: "building_ok conf mcp artifacts c diff st0 b" and conf: "conf_known conf st0" and auto: "automatic mcp c diff"
    and sub: "set xs \<subseteq> set artifacts"
  shows "no_abort (try_fold (add_component_artifact digest c run_id diff conf) xs b)"
    "try_fold (add_component_artifact digest c run_id diff conf) xs b = Inr b' \<Longrightarrow>
       building_ok conf mcp artifacts c diff st0 b' \<and> (b' = b \<or> co_readiness_key (fst b') \<noteq> None)"
proof -
  let ?f = "add_component_artifact digest c run_id diff conf"
  show "no_abort (try_fold ?f xs b)"
    by (rule no_abort_fold [where I = "building_ok conf mcp artifacts c diff st0"])
       (use b sub add_component_artifact_ok [OF _ conf auto] in blast)+
  assume "try_fold ?f xs b = Inr b'"
  then show "building_ok conf mcp artifacts c diff st0 b' \<and> (b' = b \<or> co_readiness_key (fst b') \<noteq> None)"
    by (rule try_fold_invariant [where I = "\<lambda>b'. building_ok conf mcp artifacts c diff st0 b' \<and> (b' = b \<or> co_readiness_key (fst b') \<noteq> None)"])
       (use b sub add_component_artifact_ok(2) [OF _ conf auto] in blast)+
qed

lemma build_component_ok:
  assumes wf: "pst_wf st" and conf: "conf_known conf st"
  shows "no_abort (build_component_operations digest c run_id diff selected artifacts conf mcp st)"
    "build_component_operations digest c run_id diff selected artifacts conf mcp st = Inr b \<Longrightarrow>
       building_ok conf mcp (component_artifacts (c_id c) selected artifacts) c diff st b
       \<and> (cd_disposition diff \<notin> {ComponentDisposition.Skip, ComponentDisposition.PreserveTarget}
          \<and> rd_primary (c_restore c) \<noteq> RestoreStrategy.ReauthRequired \<longrightarrow> co_readiness_key (fst b) \<noteq> None)"
proof -
  let ?arts = "component_artifacts (c_id c) selected artifacts"
  let ?ok = "building_ok conf mcp ?arts c diff st"
  let ?r = "build_component_operations digest c run_id diff selected artifacts conf mcp st"
  have start: "?ok (no_operations, st)" by (rule building_start [OF wf])
  consider "cd_disposition diff \<in> {ComponentDisposition.Skip, ComponentDisposition.PreserveTarget}"
    | "cd_disposition diff \<notin> {ComponentDisposition.Skip, ComponentDisposition.PreserveTarget}" "cd_disposition diff = ComponentDisposition.Blocked"
    | "cd_disposition diff \<notin> {ComponentDisposition.Skip, ComponentDisposition.PreserveTarget, ComponentDisposition.Blocked}" "requires_manual c diff mcp"
    | "cd_disposition diff \<notin> {ComponentDisposition.Skip, ComponentDisposition.PreserveTarget, ComponentDisposition.Blocked}" "\<not> requires_manual c diff mcp"
    by blast
  then have main: "no_abort ?r \<and> (\<forall>b. ?r = Inr b \<longrightarrow> ?ok b
       \<and> (cd_disposition diff \<notin> {ComponentDisposition.Skip, ComponentDisposition.PreserveTarget}
          \<and> rd_primary (c_restore c) \<noteq> RestoreStrategy.ReauthRequired \<longrightarrow> co_readiness_key (fst b) \<noteq> None))"
  proof cases
    case 1
    with start show ?thesis by (simp add: build_component_operations_def)
  next
    case 2
    then show ?thesis by (simp add: build_component_operations_def)
  next
    case 3
    have "co_readiness_key (fst b) \<noteq> None" if "add_component_action digest c run_id label True b0 = Inr b" for b label b0
      using that by (auto simp: add_component_action_def result_simps split: prod.splits)
    with 3 add_component_action_ok [OF start] show ?thesis by (simp add: build_component_operations_def)
  next
    case 4
    note unfold = build_component_operations_def
    have auto: "automatic mcp c diff" using 4 by (cases "cd_disposition diff") (auto simp: automatic_def requires_manual_def)
    show ?thesis
    proof (cases "add_primary_operation digest c diff conf (no_operations, st)")
      case (Inl e)
      with 4 show ?thesis by (simp add: unfold)
    next
      case (Inr pb)
      obtain provider b1 where p: "add_primary_operation digest c diff conf (no_operations, st) = Inr (provider, b1)" using Inr by (cases pb) auto
      note ok1 = add_primary_operation_ok [OF start conf auto p]
      have ready1: "co_mutation_keys (fst b1) \<noteq> [] \<longrightarrow> co_readiness_key (fst b1) \<noteq> None" using ok1 by (simp add: no_operations_def)
      note req = require_primary_provider_ok [OF conjunct1 [OF ok1], of provider digest]
      have noab2: "no_abort (require_primary_provider digest c provider b1)" using req(1) ok1 by blast
      show ?thesis
      proof (cases "require_primary_provider digest c provider b1")
        case (Inl e)
        with 4 p noab2 show ?thesis by (simp add: unfold)
      next
        case r2: (Inr b2)
        have ok2: "?ok b2" "fst b2 = fst b1" using req(2) [OF _ r2] ok1 by blast+
        note af = artifacts_fold_ok [OF ok2(1) conf auto order_refl, of digest run_id]
        show ?thesis
        proof (cases "try_fold (add_component_artifact digest c run_id diff conf) ?arts b2")
          case (Inl e)
          with 4 p r2 af(1) show ?thesis by (simp add: unfold)
        next
          case r3: (Inr b3)
          note ok3 = af(2) [OF r3]
          show ?thesis
          proof (cases "add_mcp_registration digest c diff conf mcp b3")
            case (Inl e)
            with 4 p r2 r3 show ?thesis by (simp add: unfold)
          next
            case r4: (Inr b4)
            note ok4 = add_mcp_registration_ok [OF conjunct1 [OF ok3] conf auto r4]
            have ready4: "co_mutation_keys (fst b4) \<noteq> [] \<longrightarrow> co_readiness_key (fst b4) \<noteq> None" using ok4 ok3 ok2(2) ready1 by metis
            let ?tail = "try_bind (if rd_primary (c_restore c) = RestoreStrategy.ReauthRequired
                then lift_fail (add_component_action digest c run_id ''reauth'' False b4) else Inr b4) (\<lambda>b.
              if co_mutation_keys (fst b) = []
              then lift_fail (add_component_action digest c run_id ''unsupported'' True b)
              else Inr b)"
            have r: "?r = ?tail" using 4 p r2 r3 r4 by (simp add: unfold)
            have nt: "no_abort ?tail" by (intro no_abort_bind) (auto split: if_splits)
            have "?ok b \<and> (rd_primary (c_restore c) \<noteq> RestoreStrategy.ReauthRequired \<longrightarrow> co_readiness_key (fst b) \<noteq> None)"
              if tail: "?tail = Inr b" for b
            proof -
              from tail obtain b5 where b5: "(if rd_primary (c_restore c) = RestoreStrategy.ReauthRequired
                then lift_fail (add_component_action digest c run_id ''reauth'' False b4) else Inr b4) = Inr b5"
                and last: "(if co_mutation_keys (fst b5) = []
                  then lift_fail (add_component_action digest c run_id ''unsupported'' True b5) else Inr b5) = Inr b"
                by (auto simp: result_simps)
              have ok5: "?ok b5" using b5 ok4 add_component_action_ok by (auto split: if_splits)
              have "co_readiness_key (fst b) \<noteq> None"
                if "add_component_action digest c run_id ''unsupported'' True b5 = Inr b"
                using that by (auto simp: add_component_action_def result_simps split: prod.splits)
              with last ok5 b5 ready4 show ?thesis
                using add_component_action_ok [OF ok5] by (auto split: if_splits)
            qed
            with nt show ?thesis unfolding r by blast
          qed
        qed
      qed
    qed
  qed
  then show "no_abort ?r"
    "?r = Inr b \<Longrightarrow> ?ok b
       \<and> (cd_disposition diff \<notin> {ComponentDisposition.Skip, ComponentDisposition.PreserveTarget}
          \<and> rd_primary (c_restore c) \<noteq> RestoreStrategy.ReauthRequired \<longrightarrow> co_readiness_key (fst b) \<noteq> None)"
    by blast+
qed

subsection \<open>Confirmations\<close>

lemma grows_kind: "grows N st st' \<Longrightarrow> kind_at st k = Some kind \<Longrightarrow> kind_at st' k = Some kind"
  unfolding grows_def kind_at_def by fastforce

text \<open>Component \<open>x\<close> waits for the user to handle an action before it is changed.\<close>

definition awaits :: "plan_state \<Rightarrow> confirmation_map \<Rightarrow> ComponentId \<Rightarrow> ManualAction \<Rightarrow> bool" where
  "awaits st conf x a \<longleftrightarrow>
     (\<exists>keys. bt_get conf x = Some keys \<and> (\<exists>key \<in> set keys. kind_at st key = Some (OpenManualAction a)))"

definition seed_ok :: "plan_state \<times> confirmation_map \<Rightarrow> bool" where
  "seed_ok = (\<lambda>(st, conf). pst_wf st \<and> bt_inv conf \<and> conf_known conf st \<and> (\<forall>k s. pst_get st k = Some s \<longrightarrow> is_manual s))"

definition action_targets :: "ComponentId list \<Rightarrow> ComponentId option \<Rightarrow> ComponentId list" where
  "action_targets selected component = (case component of Some c \<Rightarrow> [c] | None \<Rightarrow> selected)"

lemma push_keys:
  assumes "bt_inv conf"
  shows "bt_inv (fold (push_confirmation_key key) xs conf)"
    "bt_get (fold (push_confirmation_key key) xs conf) x = Some keys \<Longrightarrow>
       set keys \<subseteq> insert key (case bt_get conf x of None \<Rightarrow> {} | Some ks \<Rightarrow> set ks)"
    "bt_get conf x = Some ks \<Longrightarrow> \<exists>keys. bt_get (fold (push_confirmation_key key) xs conf) x = Some keys \<and> set ks \<subseteq> set keys"
    "x \<in> set xs \<Longrightarrow> \<exists>keys. bt_get (fold (push_confirmation_key key) xs conf) x = Some keys \<and> key \<in> set keys"
proof -
  let ?of = "\<lambda>m. case m of None \<Rightarrow> {} | Some ks \<Rightarrow> set ks"
  have "bt_inv (fold (push_confirmation_key key) xs conf)
    \<and> ?of (bt_get (fold (push_confirmation_key key) xs conf) x) = (if x \<in> set xs then {key} else {}) \<union> ?of (bt_get conf x)
    \<and> (bt_get (fold (push_confirmation_key key) xs conf) x = None \<longleftrightarrow> x \<notin> set xs \<and> bt_get conf x = None)" for x
    using assms
  proof (induction xs arbitrary: conf)
    case (Cons y ys)
    let ?conf = "push_confirmation_key key y conf"
    have inv: "bt_inv ?conf" and get: "bt_get ?conf = (bt_get conf)(y \<mapsto> (case bt_get conf y of None \<Rightarrow> [] | Some keys \<Rightarrow> keys) @ [key])"
      using Cons.prems by (simp_all add: push_confirmation_key_def bt_inv_insert bt_get_insert)
    from Cons.IH [OF inv] show ?case by (auto simp: get split: option.splits)
  qed simp
  note all = this
  show "bt_inv (fold (push_confirmation_key key) xs conf)" using all by blast
  show "bt_get (fold (push_confirmation_key key) xs conf) x = Some keys \<Longrightarrow>
       set keys \<subseteq> insert key (case bt_get conf x of None \<Rightarrow> {} | Some ks \<Rightarrow> set ks)" using all [of x] by (auto split: if_splits)
  show "bt_get conf x = Some ks \<Longrightarrow> \<exists>keys. bt_get (fold (push_confirmation_key key) xs conf) x = Some keys \<and> set ks \<subseteq> set keys"
    using all [of x] by (cases "bt_get (fold (push_confirmation_key key) xs conf) x") auto
  show "x \<in> set xs \<Longrightarrow> \<exists>keys. bt_get (fold (push_confirmation_key key) xs conf) x = Some keys \<and> key \<in> set keys"
    using all [of x] by (cases "bt_get (fold (push_confirmation_key key) xs conf) x") auto
qed

lemma seed_confirmation_ok:
  assumes "seed_confirmation digest selected run_id missing (component, action) (st, conf) = Inr (st', conf')" "seed_ok (st, conf)"
  shows "seed_ok (st', conf')" "x \<in> set (action_targets selected component) \<Longrightarrow> awaits st' conf' x (run_action run_id action)"
    "awaits st conf y a \<Longrightarrow> awaits st' conf' y a"
proof -
  obtain owner key where m: "add_manual_action_operation digest action owner run_id st = Inr (key, st')"
    and conf': "conf' = fold (push_confirmation_key key) (action_targets selected component) conf"
    using assms(1) by (auto simp: seed_confirmation_def action_targets_def result_simps)
  have wf: "pst_wf st" and inv: "bt_inv conf" and known: "conf_known conf st" and man: "\<And>k s. pst_get st k = Some s \<Longrightarrow> is_manual s"
    using assms(2) by (auto simp: seed_ok_def)
  have wf': "pst_wf st'" and g: "grows is_manual st st'" using add_manual_spec(1) [OF m] wf by (auto simp: step_def)
  have kind: "kind_at st' key = Some (OpenManualAction (run_action run_id action))" by (rule add_manual_spec(2) [OF m wf])
  note push = push_keys [OF inv, where key = key and xs = "action_targets selected component", folded conf']
  have "conf_known conf' st'"
    unfolding conf_known_def
  proof (intro allI impI)
    fix c keys assume "bt_get conf' c = Some keys"
    from push(2) [OF this] show "set keys \<subseteq> dom (pst_get st')"
      using known grows_dom [OF g] kind_at_dom [OF kind] by (auto simp: conf_known_def split: option.splits) blast
  qed
  moreover have "is_manual s" if "pst_get st' k = Some s" for k s
    by (rule grows_all [OF g spec_mono_kinds(1) _ _ that]) (use man in auto)
  ultimately show "seed_ok (st', conf')" using wf' push(1) by (simp add: seed_ok_def)
  show "awaits st' conf' x (run_action run_id action)" if "x \<in> set (action_targets selected component)"
    using push(4) [OF that] kind by (auto simp: awaits_def)
  show "awaits st' conf' y a" if "awaits st conf y a"
    using that push(3) grows_kind [OF g] unfolding awaits_def by blast
qed

lemma seed_fold_ok:
  assumes "try_fold (seed_confirmation digest selected run_id missing) items (st, conf) = Inr (st', conf')" "seed_ok (st, conf)"
  shows "seed_ok (st', conf') \<and> (\<forall>y a. awaits st conf y a \<longrightarrow> awaits st' conf' y a)
    \<and> (\<forall>(component, action) \<in> set items. \<forall>x \<in> set (action_targets selected component). awaits st' conf' x (run_action run_id action))"
  using assms
proof (induction items arbitrary: st conf)
  case (Cons item items)
  obtain component action where item: "item = (component, action)" by force
  obtain st1 conf1 where one: "seed_confirmation digest selected run_id missing (component, action) (st, conf) = Inr (st1, conf1)"
    and rest: "try_fold (seed_confirmation digest selected run_id missing) items (st1, conf1) = Inr (st', conf')"
    using Cons.prems(1) by (auto simp: item result_simps)
  note s = seed_confirmation_ok [OF one Cons.prems(2)]
  from Cons.IH [OF rest s(1)] s(2,3) show ?case unfolding item by auto
qed simp

lemma dedup_confirmations:
  "bt_get (map (\<lambda>(component, keys). (component, remdups_adj (sort keys))) conf) x = map_option (\<lambda>keys. remdups_adj (sort keys)) (bt_get conf x)"
  "map fst (map (\<lambda>(component, keys). (component, remdups_adj (sort keys))) conf) = map fst conf"
  by (induction conf) auto

lemma seeded_ok:
  assumes "seed_compatibility_confirmations digest compatibility selected run_id (st, conf) = Inr st1"
    and "seed_conflict_confirmations digest diff selected run_id st1 = Inr (st2, conf2)" and "seed_ok (st, conf)"
  shows "seed_ok (st2, conf2)"
    "confirmation \<in> set (cr_confirmations compatibility) \<Longrightarrow> x \<in> set (action_targets selected (cn_component confirmation)) \<Longrightarrow>
       awaits st2 conf2 x (run_action run_id (compatibility_manual_action confirmation))"
    "conflict \<in> set (td_conflicts diff) \<Longrightarrow> concerns selected (cf_component conflict) \<Longrightarrow> needs_confirmation conflict \<Longrightarrow>
       x \<in> set (action_targets selected (cf_component conflict)) \<Longrightarrow>
       awaits st2 conf2 x (run_action run_id (conflict_manual_action conflict))"
proof -
  obtain s1 c1 where st1: "st1 = (s1, c1)" by force
  have a: "try_fold (seed_confirmation digest selected run_id ''a global compatibility confirmation has no selected component owner'')
      (map (\<lambda>c. (cn_component c, compatibility_manual_action c)) (cr_confirmations compatibility)) (st, conf) = Inr (s1, c1)"
    using assms(1) by (simp add: seed_compatibility_confirmations_def st1)
  let ?items = "map (\<lambda>c. (cf_component c, conflict_manual_action c)) (filter needs_confirmation (relevant_conflicts (td_conflicts diff) selected))"
  obtain c2 where b: "try_fold (seed_confirmation digest selected run_id ''a global conflict confirmation has no selected component owner'')
      ?items (s1, c1) = Inr (st2, c2)"
    and conf2: "conf2 = map (\<lambda>(component, keys). (component, remdups_adj (sort keys))) c2"
    using assms(2) by (auto simp: seed_conflict_confirmations_def st1 result_simps)
  note A = seed_fold_ok [OF a assms(3)] and B = seed_fold_ok [OF b]
  have keep: "awaits st2 conf2 x a" if "awaits st2 c2 x a" for x a
    using that by (auto simp: awaits_def conf2 dedup_confirmations)
  have s1ok: "seed_ok (s1, c1)" using A by blast
  have ok2: "seed_ok (st2, c2)" using B [OF s1ok] by blast
  then have "bt_inv conf2" unfolding seed_ok_def conf2 bt_inv_def dedup_confirmations(2) by simp
  moreover have "conf_known conf2 st2"
    unfolding conf_known_def
  proof (intro allI impI)
    fix c keys assume "bt_get conf2 c = Some keys"
    then obtain ks where "bt_get c2 c = Some ks" "set keys = set ks" by (auto simp: conf2 dedup_confirmations)
    then show "set keys \<subseteq> dom (pst_get st2)" using ok2 unfolding seed_ok_def conf_known_def by blast
  qed
  ultimately show "seed_ok (st2, conf2)" using ok2 by (simp add: seed_ok_def)
  show "awaits st2 conf2 x (run_action run_id (compatibility_manual_action confirmation))"
    if "confirmation \<in> set (cr_confirmations compatibility)" "x \<in> set (action_targets selected (cn_component confirmation))"
  proof -
    have "awaits s1 c1 x (run_action run_id (compatibility_manual_action confirmation))" using A that by auto
    then show ?thesis using B [OF s1ok] keep by blast
  qed
  show "awaits st2 conf2 x (run_action run_id (conflict_manual_action conflict))"
    if "conflict \<in> set (td_conflicts diff)" "concerns selected (cf_component conflict)" "needs_confirmation conflict"
      "x \<in> set (action_targets selected (cf_component conflict))"
  proof -
    have "(cf_component conflict, conflict_manual_action conflict) \<in> set ?items" using that by (auto simp: relevant_conflicts_def)
    then have "awaits st2 c2 x (run_action run_id (conflict_manual_action conflict))" using B [OF s1ok] that(4) by blast
    then show ?thesis by (rule keep)
  qed
qed

end
