(* ===== verification/PlannerSafety.thy ===== *)
theory PlannerSafety
  imports PlannerSteps
begin

text \<open>
  What a restore plan guarantees: the graph index describes the package, the closed selection is the
  set of required components, the cycle check decides acyclicity, every operation of the plan is
  justified, confirmed, ordered after what it needs and verified.
\<close>

subsection \<open>Folds over a prefix\<close>

lemma try_fold_prefix:
  assumes "try_fold f xs s = Inr s'" "I [] s"
    and "\<And>ys x s s'. x \<in> set xs \<Longrightarrow> set ys \<subseteq> set xs \<Longrightarrow> (distinct xs \<Longrightarrow> x \<notin> set ys) \<Longrightarrow> I ys s \<Longrightarrow> f x s = Inr s' \<Longrightarrow> I (ys @ [x]) s'"
  shows "I xs s'"
proof -
  have "I (ys @ zs) s'" if "try_fold f zs s = Inr s'" "I ys s" "ys @ zs = xs" for ys zs s
    using that
  proof (induction zs arbitrary: ys s)
    case (Cons z zs)
    then obtain s1 where s1: "f z s = Inr s1" "try_fold f zs s1 = Inr s'" by (auto simp: result_simps)
    have "z \<in> set xs" "set ys \<subseteq> set xs" "distinct xs \<Longrightarrow> z \<notin> set ys" using Cons.prems(3) by auto
    with Cons.prems(2) s1(1) have "I (ys @ [z]) s1" by (intro assms(3))
    from Cons.IH [OF s1(2) this] Cons.prems(3) show ?case by simp
  qed simp
  from this [OF assms(1,2)] show ?thesis by simp
qed

lemma no_abort_prefix:
  assumes "I [] s"
    and "\<And>ys x s. x \<in> set xs \<Longrightarrow> set ys \<subseteq> set xs \<Longrightarrow> (distinct xs \<Longrightarrow> x \<notin> set ys) \<Longrightarrow> I ys s \<Longrightarrow> no_abort (f x s)"
    and "\<And>ys x s s'. x \<in> set xs \<Longrightarrow> set ys \<subseteq> set xs \<Longrightarrow> (distinct xs \<Longrightarrow> x \<notin> set ys) \<Longrightarrow> I ys s \<Longrightarrow> f x s = Inr s' \<Longrightarrow> I (ys @ [x]) s'"
  shows "no_abort (try_fold f xs s)"
proof -
  have "no_abort (try_fold f zs s)" if "I ys s" "ys @ zs = xs" for ys zs s
    using that
  proof (induction zs arbitrary: ys s)
    case (Cons z zs)
    have z: "z \<in> set xs" "set ys \<subseteq> set xs" "distinct xs \<Longrightarrow> z \<notin> set ys" using Cons.prems(2) by auto
    have "no_abort (try_bind (f z s) (try_fold f zs))"
    proof (rule no_abort_bind)
      show "no_abort (f z s)" using z Cons.prems(1) by (rule assms(2))
      fix s1 assume "f z s = Inr s1"
      with z Cons.prems(1) have "I (ys @ [z]) s1" by (intro assms(3))
      then show "no_abort (try_fold f zs s1)" using Cons.IH [of "ys @ [z]" s1] Cons.prems(2) by simp
    qed
    then show ?case by simp
  qed simp
  from this [OF assms(1)] show ?thesis by simp
qed

lemma total_prefix:
  assumes "I [] s"
    and "\<And>ys x s. x \<in> set xs \<Longrightarrow> set ys \<subseteq> set xs \<Longrightarrow> (distinct xs \<Longrightarrow> x \<notin> set ys) \<Longrightarrow> I ys s \<Longrightarrow> \<exists>s'. f x s = Inr s'"
    and "\<And>ys x s s'. x \<in> set xs \<Longrightarrow> set ys \<subseteq> set xs \<Longrightarrow> (distinct xs \<Longrightarrow> x \<notin> set ys) \<Longrightarrow> I ys s \<Longrightarrow> f x s = Inr s' \<Longrightarrow> I (ys @ [x]) s'"
  shows "\<exists>s'. try_fold f xs s = Inr s'"
proof -
  have "\<exists>s'. try_fold f zs s = Inr s'" if "I ys s" "ys @ zs = xs" for ys zs s
    using that
  proof (induction zs arbitrary: ys s)
    case (Cons z zs)
    have z: "z \<in> set xs" "set ys \<subseteq> set xs" "distinct xs \<Longrightarrow> z \<notin> set ys" using Cons.prems(2) by auto
    then obtain s1 where s1: "f z s = Inr s1" using Cons.prems(1) assms(2) by metis
    with z Cons.prems(1) have "I (ys @ [z]) s1" by (intro assms(3))
    with s1 show ?case using Cons.IH [of "ys @ [z]" s1] Cons.prems(2) by simp
  qed simp
  from this [OF assms(1)] show ?thesis by simp
qed

subsection \<open>The graph index\<close>

definition components_index :: "Component list \<Rightarrow> (ComponentId, Component) btree \<Rightarrow> bool" where
  "components_index cs m \<longleftrightarrow> bt_inv m \<and> distinct (map c_id cs) \<and> (\<forall>i c. bt_get m i = Some c \<longleftrightarrow> c \<in> set cs \<and> c_id c = i)"

definition artifacts_index :: "Component list \<Rightarrow> (ArtifactId, ComponentId \<times> ArtifactRef) btree \<Rightarrow> bool" where
  "artifacts_index cs m \<longleftrightarrow> bt_inv m \<and>
     (\<forall>a x artifact. bt_get m a = Some (x, artifact) \<longrightarrow>
        (\<exists>c \<in> set cs. c_id c = x \<and> artifact \<in> set (c_artifacts c) \<and> art_id artifact = a))"

lemma index_artifacts_ok:
  assumes "try_fold (index_graph_artifact (c_id c)) xs m = Inr m'" "artifacts_index cs m" "c \<in> set cs" "set xs \<subseteq> set (c_artifacts c)"
  shows "artifacts_index cs m'"
  using assms(1,2)
proof (rule try_fold_invariant)
  fix x m m' assume "x \<in> set xs" "artifacts_index cs m" "index_graph_artifact (c_id c) x m = Inr m'"
  moreover from this have "\<exists>c' \<in> set cs. c_id c' = c_id c \<and> x \<in> set (c_artifacts c')" using assms(3,4) by blast
  ultimately show "artifacts_index cs m'"
    by (auto simp: index_graph_artifact_def artifacts_index_def bt_inv_insert bt_get_insert split: sum.splits if_splits)
qed

lemma graph_components_ok:
  assumes "try_fold index_graph_component cs ([], []) = Inr (components, artifacts)"
  shows "components_index cs components" "artifacts_index cs artifacts"
proof -
  have "components_index cs (fst (components, artifacts)) \<and> artifacts_index cs (snd (components, artifacts))"
    using assms
  proof (rule try_fold_prefix [where I = "\<lambda>cs m. components_index cs (fst m) \<and> artifacts_index cs (snd m)"])
    fix ys x s s'
    assume inv: "components_index ys (fst s) \<and> artifacts_index ys (snd s)" and f: "index_graph_component x s = Inr s'"
    obtain m a where s: "s = (m, a)" by force
    obtain a' where new: "bt_get m (c_id x) = None" and a': "try_fold (index_graph_artifact (c_id x)) (c_artifacts x) a = Inr a'"
      and s': "s' = (bt_insert (c_id x) x m, a')"
      using f by (auto simp: s index_graph_component_def result_simps split: if_splits)
    have "artifacts_index (ys @ [x]) a" using inv unfolding s artifacts_index_def by fastforce
    then have "artifacts_index (ys @ [x]) a'" by (rule index_artifacts_ok [OF a']) auto
    moreover have fresh: "c_id c \<noteq> c_id x" if "c \<in> set ys" for c
      using new inv that unfolding components_index_def s by (metis fst_conv option.distinct(1))
    then have "components_index (ys @ [x]) (bt_insert (c_id x) x m)"
      using inv by (auto simp: s components_index_def bt_inv_insert bt_get_insert dest: fresh split: if_splits)
    ultimately show "components_index (ys @ [x]) (fst s') \<and> artifacts_index (ys @ [x]) (snd s')" by (simp add: s')
  qed (simp add: components_index_def artifacts_index_def)
  then show "components_index cs components" "artifacts_index cs artifacts" by auto
qed

definition outgoing_index :: "DependencyEdge list \<Rightarrow> (ComponentId, Component) btree \<Rightarrow> (ComponentId, DependencyEdge list) btree \<Rightarrow> graph_edge_key set \<Rightarrow> bool" where
  "outgoing_index es components m seen \<longleftrightarrow> bt_inv m \<and> seen = graph_edge_key ` set es
     \<and> (\<forall>e \<in> set es. bt_get components (edge_from e) \<noteq> None \<and> bt_get components (edge_to e) \<noteq> None)
     \<and> (\<forall>x edges. bt_get m x = Some edges \<longrightarrow> (\<forall>e \<in> set edges. e \<in> set es \<and> edge_from e = x))
     \<and> (\<forall>e \<in> set es. \<exists>edges e'. bt_get m (edge_from e) = Some edges \<and> e' \<in> set edges \<and> graph_edge_key e' = graph_edge_key e)"

lemma index_edge_ok:
  assumes inv: "outgoing_index es components m seen" and f: "index_graph_edge components x (m, seen) = Inr (m', seen')"
  shows "outgoing_index (es @ [x]) components m' seen'"
proof (cases "graph_edge_key x \<in> seen")
  case True
  then have same: "m' = m" "seen' = seen" and known: "bt_get components (edge_from x) \<noteq> None" "bt_get components (edge_to x) \<noteq> None"
    using f by (auto simp: index_graph_edge_def split: if_splits)
  from True inv obtain e where e: "e \<in> set es" "graph_edge_key e = graph_edge_key x" by (auto simp: outgoing_index_def)
  then have "edge_from e = edge_from x" by (simp add: graph_edge_key_def)
  with e inv have "\<exists>edges e'. bt_get m (edge_from x) = Some edges \<and> e' \<in> set edges \<and> graph_edge_key e' = graph_edge_key x"
    unfolding outgoing_index_def by metis
  with True inv known show ?thesis by (auto simp: same outgoing_index_def)
next
  case False
  define prior where "prior = (case bt_get m (edge_from x) of None \<Rightarrow> [] | Some edges \<Rightarrow> edges)"
  have m': "m' = bt_insert (edge_from x) (prior @ [x]) m" "seen' = insert (graph_edge_key x) seen"
    and known: "bt_get components (edge_from x) \<noteq> None" "bt_get components (edge_to x) \<noteq> None"
    using f False by (auto simp: index_graph_edge_def prior_def split: if_splits)
  have inv_m: "bt_inv m" using inv by (simp add: outgoing_index_def)
  have get: "bt_get m' = (bt_get m)(edge_from x \<mapsto> prior @ [x])" using inv_m by (simp add: m' bt_get_insert)
  have old: "e \<in> set es \<and> edge_from e = edge_from x" if "e \<in> set prior" for e
    using that inv unfolding outgoing_index_def prior_def by (cases "bt_get m (edge_from x)") auto
  have "\<exists>edges e'. bt_get m' (edge_from e) = Some edges \<and> e' \<in> set edges \<and> graph_edge_key e' = graph_edge_key e"
    if "e \<in> set (es @ [x])" for e
  proof (cases "e = x")
    case False
    with that inv obtain edges e' where "bt_get m (edge_from e) = Some edges" "e' \<in> set edges" "graph_edge_key e' = graph_edge_key e"
      unfolding outgoing_index_def by fastforce
    then show ?thesis by (cases "edge_from e = edge_from x") (force simp: get prior_def)+
  next
    case True
    then show ?thesis by (auto simp: get)
  qed
  moreover have "\<forall>e \<in> set edges. e \<in> set (es @ [x]) \<and> edge_from e = y" if "bt_get m' y = Some edges" for y edges
    using that old inv by (auto simp: get outgoing_index_def split: if_splits)
  moreover have "seen' = graph_edge_key ` set (es @ [x])" using inv by (auto simp: m' outgoing_index_def)
  moreover have "\<forall>e \<in> set (es @ [x]). bt_get components (edge_from e) \<noteq> None \<and> bt_get components (edge_to e) \<noteq> None"
    using inv known by (auto simp: outgoing_index_def)
  moreover have "bt_inv m'" using inv_m by (simp add: m'(1) bt_inv_insert)
  ultimately show ?thesis unfolding outgoing_index_def by blast
qed

definition graph_indexed :: "PackageGraph \<Rightarrow> GraphIndex \<Rightarrow> bool" where
  "graph_indexed g gi \<longleftrightarrow>
     components_index (g_components g) (gi_components gi) \<and> artifacts_index (g_components g) (gi_artifacts gi)
     \<and> (\<forall>e \<in> set (graph_edges g). bt_get (gi_components gi) (edge_from e) \<noteq> None \<and> bt_get (gi_components gi) (edge_to e) \<noteq> None)
     \<and> (\<forall>x. \<forall>e \<in> set (outgoing_edges gi x). e \<in> set (graph_edges g) \<and> edge_from e = x)
     \<and> (\<forall>e \<in> set (graph_edges g). \<exists>e' \<in> set (outgoing_edges gi (edge_from e)). graph_edge_key e' = graph_edge_key e)"

lemma graph_index_ok:
  assumes "GraphIndex_build g = Inr gi"
  shows "graph_indexed g gi"
proof -
  obtain components artifacts outgoing seen where c: "try_fold index_graph_component (g_components g) ([], []) = Inr (components, artifacts)"
    and e: "try_fold (index_graph_edge components) (graph_edges g) ([], {}) = Inr (outgoing, seen)"
    and gi: "gi = \<lparr>gi_components = components, gi_artifacts = artifacts,
          gi_outgoing = map (\<lambda>(source, edges). (source, sort_key outgoing_order edges)) outgoing\<rparr>"
    using assms by (auto simp: GraphIndex_build_def result_simps)
  have "outgoing_index (graph_edges g) components (fst (outgoing, seen)) (snd (outgoing, seen))"
    using e
  proof (rule try_fold_prefix [where I = "\<lambda>es m. outgoing_index es components (fst m) (snd m)"])
    fix ys x s s' assume "outgoing_index ys components (fst s) (snd s)" "index_graph_edge components x s = Inr s'"
    then show "outgoing_index (ys @ [x]) components (fst s') (snd s')" by (cases s; cases s') (auto intro: index_edge_ok)
  qed (simp add: outgoing_index_def)
  then have o: "outgoing_index (graph_edges g) components outgoing seen" by simp
  have get: "bt_get (gi_outgoing gi) x = map_option (sort_key outgoing_order) (bt_get outgoing x)" for x
    by (simp add: gi) (induction outgoing, auto)
  have out: "set (outgoing_edges gi x) = (case bt_get outgoing x of None \<Rightarrow> {} | Some edges \<Rightarrow> set edges)" for x
    by (simp add: outgoing_edges_def get split: option.split)
  show ?thesis
    unfolding graph_indexed_def
  proof (intro conjI ballI allI)
    show "components_index (g_components g) (gi_components gi)" "artifacts_index (g_components g) (gi_artifacts gi)"
      using graph_components_ok [OF c] by (simp_all add: gi)
    fix e assume e: "e \<in> set (graph_edges g)"
    then show "bt_get (gi_components gi) (edge_from e) \<noteq> None" "bt_get (gi_components gi) (edge_to e) \<noteq> None"
      using o by (auto simp: gi outgoing_index_def)
    from e o obtain edges e' where "bt_get outgoing (edge_from e) = Some edges" "e' \<in> set edges" "graph_edge_key e' = graph_edge_key e"
      unfolding outgoing_index_def by blast
    then show "\<exists>e' \<in> set (outgoing_edges gi (edge_from e)). graph_edge_key e' = graph_edge_key e" by (auto simp: out)
  next
    fix x e assume "e \<in> set (outgoing_edges gi x)"
    then show "e \<in> set (graph_edges g)" "edge_from e = x" using o by (auto simp: out outgoing_index_def split: option.splits)
  qed
qed

subsection \<open>The closed selection\<close>

text \<open>What a selected component requires: over the package's edges, as its runtime, or for its MCP server.\<close>

definition requires_rel :: "PackageGraph \<Rightarrow> GraphIndex \<Rightarrow> mcp_map \<Rightarrow> (ComponentId \<times> ComponentId) set" where
  "requires_rel g gi mcp =
     {(edge_from e, edge_to e) | e. e \<in> set (graph_edges g) \<and> edge_required e}
     \<union> {(c_id c, y) | c y. c \<in> set (g_components g) \<and> cmp_requires_runtime (c_compatibility c) = Some y}
     \<union> {(x, y) | x y server. bt_get mcp x = Some server \<and>
          (mcp_required_runtime server = Some y
           \<or> (\<exists>package. mcp_required_package server = Some package \<and> mcp_package_component gi package = Some y))}"

definition queued :: "ComponentId set \<Rightarrow> closing \<Rightarrow> closing \<Rightarrow> bool" where
  "queued T = (\<lambda>(S, A, P) (S', A', P').
     set S' = set S \<union> T \<and> set A' = set A \<union> (T - set S) \<and> set P' = set P \<union> (T - set S)
     \<and> (sorted S \<longrightarrow> sorted S') \<and> (distinct S \<longrightarrow> distinct S'))"

lemma queued_empty [simp]: "queued {} st st"
  by (simp add: queued_def split: prod.split)

lemma queued_trans: "queued T a b \<Longrightarrow> queued U b c \<Longrightarrow> queued (T \<union> U) a c"
  by (cases a; cases b; cases c) (auto simp: queued_def)

lemma queued_component: "queued {x} st (queue_component x st)"
  by (cases st) (auto simp: queued_def queue_component_def set_insort_insert sorted_insort_insert distinct_insort_insert)

lemma queued_edges: "queued (edge_to ` set edges) st (fold (\<lambda>edge. queue_component (edge_to edge)) edges st)"
proof (induction edges arbitrary: st)
  case (Cons e edges)
  from queued_trans [OF queued_component [of "edge_to e" st] Cons.IH] show ?case by simp
qed simp

definition mcp_targets :: "GraphIndex \<Rightarrow> McpServerSpec \<Rightarrow> ComponentId set" where
  "mcp_targets gi server = set_option (mcp_required_runtime server)
     \<union> set_option (Option.bind (mcp_required_package server) (mcp_package_component gi))"

lemma queue_required_queued:
  "queue_required_component gi x message st = Inr st' \<Longrightarrow> queued {x} st st' \<and> bt_get (gi_components gi) x \<noteq> None"
  by (auto simp: queue_required_component_def intro: queued_component split: if_splits)

lemma close_mcp_queued:
  assumes "close_mcp_server gi server st = Inr st'"
  shows "queued (mcp_targets gi server) st st' \<and> mcp_targets gi server \<subseteq> dom (bt_get (gi_components gi))"
proof -
  obtain st1 where one: "(case mcp_required_runtime server of
         None \<Rightarrow> Inr st
       | Some runtime \<Rightarrow>
           queue_required_component gi runtime ''a required MCP runtime is unavailable in the package graph'' st) = Inr st1"
    and two: "(case mcp_required_package server of
       None \<Rightarrow> Inr st1
     | Some package \<Rightarrow>
         (case mcp_package_component gi package of
            None \<Rightarrow> Inl (planner_error SelectionIncomplete ''a required MCP package is unavailable in the package graph'')
          | Some component \<Rightarrow>
              queue_required_component gi component ''a required MCP package is unavailable in the package graph'' st1)) = Inr st'"
    using assms by (auto simp: close_mcp_server_def result_simps)
  have "queued (set_option (mcp_required_runtime server)) st st1 \<and> set_option (mcp_required_runtime server) \<subseteq> dom (bt_get (gi_components gi))"
    using one by (auto dest!: queue_required_queued split: option.splits)
  moreover have "queued (set_option (Option.bind (mcp_required_package server) (mcp_package_component gi))) st1 st'
      \<and> set_option (Option.bind (mcp_required_package server) (mcp_package_component gi)) \<subseteq> dom (bt_get (gi_components gi))"
    using two by (auto dest!: queue_required_queued split: option.splits)
  ultimately show ?thesis unfolding mcp_targets_def using queued_trans by blast
qed

lemma close_source_queued:
  assumes "graph_indexed g gi" "close_source gi mcp x st = Inr st'"
  shows "queued (requires_rel g gi mcp `` {x}) st st' \<and> requires_rel g gi mcp `` {x} \<subseteq> dom (bt_get (gi_components gi))"
proof -
  let ?edges = "filter edge_required (outgoing_edges gi x)"
  let ?st1 = "fold (\<lambda>edge. queue_component (edge_to edge)) ?edges st"
  let ?mcp = "case bt_get mcp x of None \<Rightarrow> {} | Some server \<Rightarrow> mcp_targets gi server"
  obtain st2 where two: "(case required_runtime gi x of
         None \<Rightarrow> Inr ?st1
       | Some runtime \<Rightarrow>
           if bt_get (gi_components gi) runtime = None
           then Inl (planner_error SelectionIncomplete ''a required runtime is unavailable in the package graph'')
           else Inr (queue_component runtime ?st1)) = Inr st2"
    and three: "(case bt_get mcp x of None \<Rightarrow> Inr st2 | Some server \<Rightarrow> close_mcp_server gi server st2) = Inr st'"
    using assms(2) by (auto simp: close_source_def Let_def result_simps)
  have q2: "queued (set_option (required_runtime gi x)) ?st1 st2 \<and> set_option (required_runtime gi x) \<subseteq> dom (bt_get (gi_components gi))"
    using two by (auto intro: queued_component split: option.splits if_splits)
  have q3: "queued ?mcp st2 st' \<and> ?mcp \<subseteq> dom (bt_get (gi_components gi))"
    using three by (cases "bt_get mcp x") (auto dest: close_mcp_queued)
  have edges: "edge_to ` set ?edges = {edge_to e | e. e \<in> set (graph_edges g) \<and> edge_required e \<and> edge_from e = x}"
  proof (intro equalityI subsetI)
    fix y assume "y \<in> edge_to ` set ?edges"
    then show "y \<in> {edge_to e | e. e \<in> set (graph_edges g) \<and> edge_required e \<and> edge_from e = x}"
      using assms(1) unfolding graph_indexed_def by auto
  next
    fix y assume "y \<in> {edge_to e | e. e \<in> set (graph_edges g) \<and> edge_required e \<and> edge_from e = x}"
    then obtain e where e: "e \<in> set (graph_edges g)" "edge_required e" "edge_from e = x" "y = edge_to e" by blast
    then obtain e' where "e' \<in> set (outgoing_edges gi x)" "graph_edge_key e' = graph_edge_key e"
      using assms(1) unfolding graph_indexed_def by blast
    moreover from this e have "edge_required e'" "y = edge_to e'" by (auto simp: graph_edge_key_def)
    ultimately show "y \<in> edge_to ` set ?edges" by simp
  qed
  have runtime: "set_option (required_runtime gi x) = {y. \<exists>c. c \<in> set (g_components g) \<and> c_id c = x \<and> cmp_requires_runtime (c_compatibility c) = Some y}"
    using assms(1) by (auto simp: required_runtime_def graph_indexed_def components_index_def bind_eq_Some_conv)
  have T: "requires_rel g gi mcp `` {x} = edge_to ` set ?edges \<union> (set_option (required_runtime gi x) \<union> ?mcp)"
    unfolding edges runtime requires_rel_def mcp_targets_def
    by (auto simp: bind_eq_Some_conv split: option.splits)
  have "edge_to ` set ?edges \<subseteq> dom (bt_get (gi_components gi))" unfolding edges using assms(1) by (auto simp: graph_indexed_def)
  moreover have "queued (edge_to ` set ?edges \<union> (set_option (required_runtime gi x) \<union> ?mcp)) st st'"
    using queued_edges [of ?edges st] q2 q3 queued_trans by blast
  ultimately show ?thesis unfolding T using q2 q3 by blast
qed

definition closing_inv :: "PackageGraph \<Rightarrow> GraphIndex \<Rightarrow> mcp_map \<Rightarrow> ComponentId set \<Rightarrow> closing \<Rightarrow> bool" where
  "closing_inv g gi mcp X = (\<lambda>(S, A, P).
     search_inv (requires_rel g gi mcp) X (set S) (set P) \<and> set S \<subseteq> dom (bt_get (gi_components gi))
     \<and> sorted S \<and> distinct S \<and> set A = set S - X)"

lemma close_loop_spec:
  assumes "graph_indexed g gi" "close_loop gi mcp st = Inr (S', A')" "closing_inv g gi mcp X st"
  shows "closing_inv g gi mcp X (S', A', [])"
  using assms
proof (induction gi mcp st rule: close_loop.induct)
  case (2 gi mcp S A x P)
  let ?R = "requires_rel g gi mcp"
  obtain S1 A1 P1 where c: "close_source gi mcp x (S, A, P) = Inr (S1, A1, P1)" and rest: "close_loop gi mcp (S1, A1, P1) = Inr (S', A')"
    using "2.prems"(2) by (auto split: sum.splits)
  from close_source_queued [OF "2.prems"(1) c]
  have q: "set S1 = set S \<union> ?R `` {x}" "set A1 = set A \<union> (?R `` {x} - set S)" "set P1 = set P \<union> (?R `` {x} - set S)"
    "sorted S \<longrightarrow> sorted S1" "distinct S \<longrightarrow> distinct S1" "?R `` {x} \<subseteq> dom (bt_get (gi_components gi))"
    by (auto simp: queued_def)
  have inv: "search_inv ?R X (set S) (insert x (set P))" "X \<subseteq> set S" using "2.prems"(3) by (auto simp: closing_inv_def search_inv_def)
  have "search_inv ?R X (set S1) (set P1)" using search_inv_step [OF inv(1)] unfolding q by simp
  then have "closing_inv g gi mcp X (S1, A1, P1)"
    using "2.prems"(3) q inv(2) unfolding closing_inv_def by auto
  from "2.IH" [OF c "2.prems"(1) rest this] show ?case .
qed simp

definition owners_ok :: "GraphIndex \<Rightarrow> ComponentId list \<Rightarrow> ArtifactId list \<Rightarrow> bool" where
  "owners_ok gi S artifacts \<longleftrightarrow>
     (\<forall>a \<in> set artifacts. \<exists>x artifact. bt_get (gi_artifacts gi) a = Some (x, artifact) \<and> x \<in> set S)"

lemma close_selection_ok:
  assumes "graph_indexed g gi"
  shows "no_abort (close_selection gi selection mcp)"
    "close_selection gi selection mcp = Inr (S, artifacts, warnings) \<Longrightarrow>
       set S = (requires_rel g gi mcp)\<^sup>* `` set (sc_selected_components selection) \<and> sorted S \<and> distinct S
       \<and> set S \<subseteq> dom (bt_get (gi_components gi)) \<and> set artifacts = set (sc_selected_artifacts selection) \<and> owners_ok gi S artifacts
       \<and> (\<forall>x \<in> set S. \<forall>c. bt_get (gi_components gi) x = Some c \<longrightarrow> c_verification c \<noteq> [])"
proof -
  have roots: "sorted X \<and> distinct X \<and> set X = set (sc_selected_components selection) \<and> set X \<subseteq> dom (bt_get (gi_components gi))"
    if "try_fold (select_root gi) (sc_selected_components selection) [] = Inr X" for X
    using that
  proof (rule try_fold_prefix [where I = "\<lambda>xs X. sorted X \<and> distinct X \<and> set X = set xs \<and> set X \<subseteq> dom (bt_get (gi_components gi))"])
    fix ys x X X' assume "sorted X \<and> distinct X \<and> set X = set ys \<and> set X \<subseteq> dom (bt_get (gi_components gi))" "select_root gi x X = Inr X'"
    then show "sorted X' \<and> distinct X' \<and> set X' = set (ys @ [x]) \<and> set X' \<subseteq> dom (bt_get (gi_components gi))"
      by (auto simp: select_root_def set_insort_insert sorted_insort_insert distinct_insort_insert split: if_splits)
  qed simp
  have arts: "set artifacts = set (sc_selected_artifacts selection) \<and> owners_ok gi S artifacts"
    if "try_fold (select_plan_artifact gi S) (sc_selected_artifacts selection) [] = Inr artifacts" for S artifacts
    using that
  proof (rule try_fold_prefix [where I = "\<lambda>xs m. set m = set xs \<and> owners_ok gi S m"])
    fix ys x m m' assume "set m = set ys \<and> owners_ok gi S m" "select_plan_artifact gi S x m = Inr m'"
    then show "set m' = set (ys @ [x]) \<and> owners_ok gi S m'"
      by (auto simp: select_plan_artifact_def owners_ok_def set_insort_insert split: if_splits option.splits)
  qed (simp add: owners_ok_def)
  have closed: "set S = (requires_rel g gi mcp)\<^sup>* `` set X \<and> sorted S \<and> distinct S \<and> set S \<subseteq> dom (bt_get (gi_components gi))"
    if X: "sorted X \<and> distinct X \<and> set X \<subseteq> dom (bt_get (gi_components gi))"
      and c: "close_loop gi mcp (X, [], rev X) = Inr (S, A)" for X S A
  proof -
    have "closing_inv g gi mcp (set X) (X, [], rev X)" using X search_inv_start by (simp add: closing_inv_def)
    from close_loop_spec [OF assms c this] show ?thesis by (auto simp: closing_inv_def dest: search_inv_done)
  qed
  have final: "no_abort (try_all (\<lambda>component_id.
         try_bind (expect (bt_get (gi_components gi) component_id)) (\<lambda>component.
         if c_verification component = []
         then Inl (Fail (planner_error SchemaInvalid ''selected component has no verification rule''))
         else Inr ())) S)" if "set S \<subseteq> dom (bt_get (gi_components gi))" for S
    using that by (induction S) (auto intro!: no_abort_bind)
  show "no_abort (close_selection gi selection mcp)"
    unfolding close_selection_def
    by (intro no_abort_bind; (auto intro!: no_abort_bind final dest!: roots)?) (use closed in blast)+
  assume r: "close_selection gi selection mcp = Inr (S, artifacts, warnings)"
  then obtain X A where X: "try_fold (select_root gi) (sc_selected_components selection) [] = Inr X"
    and c: "close_loop gi mcp (X, [], rev X) = Inr (S, A)"
    and a: "try_fold (select_plan_artifact gi S) (sc_selected_artifacts selection) [] = Inr artifacts"
    and v: "try_all (\<lambda>component_id.
         try_bind (expect (bt_get (gi_components gi) component_id)) (\<lambda>component.
         if c_verification component = []
         then Inl (Fail (planner_error SchemaInvalid ''selected component has no verification rule''))
         else Inr ())) S = Inr ()"
    by (auto simp: close_selection_def result_simps)
  have "c_verification c \<noteq> []" if "x \<in> set S" "bt_get (gi_components gi) x = Some c" for x c
    using v that by (auto simp: result_simps split: if_splits)
  with closed [OF _ c] roots [OF X] arts [OF a]
  show "set S = (requires_rel g gi mcp)\<^sup>* `` set (sc_selected_components selection) \<and> sorted S \<and> distinct S
       \<and> set S \<subseteq> dom (bt_get (gi_components gi)) \<and> set artifacts = set (sc_selected_artifacts selection) \<and> owners_ok gi S artifacts
       \<and> (\<forall>x \<in> set S. \<forall>c. bt_get (gi_components gi) x = Some c \<longrightarrow> c_verification c \<noteq> [])" by metis
qed

subsection \<open>Dependency cycles\<close>

lemma fold_insort_insert:
  "sorted xs \<Longrightarrow> distinct xs \<Longrightarrow> sorted (fold insort_insert ys xs) \<and> distinct (fold insort_insert ys xs)
     \<and> set (fold insort_insert ys xs) = set ys \<union> set xs"
  by (induction ys arbitrary: xs) (auto simp: set_insort_insert sorted_insort_insert distinct_insort_insert)

definition dependency_rel :: "GraphIndex \<Rightarrow> ComponentId list \<Rightarrow> mcp_map \<Rightarrow> (ComponentId \<times> ComponentId) set" where
  "dependency_rel gi S mcp = {(x, y). x \<in> set S \<and> y \<in> set (dependency_targets gi S mcp x)}"

lemma dependency_pairs_ok:
  "distinct (dependency_pairs gi S mcp)" "set (dependency_pairs gi S mcp) = dependency_rel gi S mcp"
  "dependency_rel gi S mcp \<subseteq> set S \<times> set S"
  using fold_insort_insert [of "[] :: (ComponentId \<times> ComponentId) list"]
  by (auto simp: dependency_pairs_def dependency_rel_def dependency_targets_def)

text \<open>The dependencies of a component that are not processed yet.\<close>

definition open_deps :: "('a \<times> 'a) set \<Rightarrow> 'a set \<Rightarrow> 'a \<Rightarrow> 'a set" where
  "open_deps R D x = {y. (x, y) \<in> R \<and> y \<notin> D}"

definition listed :: "('k, 'v list) btree \<Rightarrow> 'k \<Rightarrow> 'v list" where
  "listed m k = (case bt_get m k of None \<Rightarrow> [] | Some vs \<Rightarrow> vs)"

lemma count_dependencies:
  assumes "distinct pairs" "set pairs \<subseteq> set S \<times> set S" "distinct S"
  shows "no_abort (try_fold count_dependency pairs (map (\<lambda>c. (c, 0)) S, []))"
    "try_fold count_dependency pairs (map (\<lambda>c. (c, 0)) S, []) = Inr (indegree, dependents) \<Longrightarrow>
       map fst indegree = S \<and> (\<forall>x \<in> set S. bt_get indegree x = Some (card (open_deps (set pairs) {} x)))
       \<and> (\<forall>y. distinct (listed dependents y)
            \<and> set (listed dependents y) = {x. (x, y) \<in> set pairs})"
    "length pairs \<le> u64_max \<Longrightarrow> \<exists>st. try_fold count_dependency pairs (map (\<lambda>c. (c, 0)) S, []) = Inr st"
proof -
  let ?I = "\<lambda>ps (m, deps). map fst m = S \<and> (\<forall>x \<in> set S. bt_get m x = Some (card (open_deps (set ps) {} x)))
       \<and> bt_inv deps \<and> (\<forall>y. distinct (listed deps y) \<and> set (listed deps y) = {x. (x, y) \<in> set ps})"
  have start: "?I [] (map (\<lambda>c. (c, 0)) S, [])"
    using assms(3) by (auto simp: open_deps_def comp_def map_of_eq_Some_iff listed_def)
  have step: "?I (ps @ [p]) s'" if p: "p \<in> set pairs" "p \<notin> set ps" and I: "?I ps s" and f: "count_dependency p s = Inr s'" for ps p s s'
  proof -
    obtain x y m deps where ps: "p = (x, y)" "s = (m, deps)" by (metis surj_pair)
    obtain n where n: "bt_get m x = Some n" and s': "s' = (bt_modify x Suc m, bt_insert y (listed deps y @ [x]) deps)"
      using f by (auto simp: ps count_dependency_def result_simps listed_def)
    have open1: "open_deps (set (ps @ [p])) {} z = (if z = x then insert y (open_deps (set ps) {} x) else open_deps (set ps) {} z)" for z
      by (auto simp: open_deps_def ps)
    have fin: "finite (open_deps (set ps) {} x)"
      by (rule finite_subset [of _ "snd ` set ps"]) (force simp: open_deps_def)+
    have new: "y \<notin> open_deps (set ps) {} x" using p(2) by (simp add: open_deps_def ps)
    have "bt_get (bt_modify x Suc m) z = Some (card (open_deps (set (ps @ [p])) {} z))" if "z \<in> set S" for z
    proof -
      have "bt_get m z = Some (card (open_deps (set ps) {} z))" using I that unfolding ps by blast
      then show ?thesis using fin new unfolding open1 by (auto simp: bt_get_modify)
    qed
    moreover have "bt_get (bt_insert y (listed deps y @ [x]) deps) = (bt_get deps)(y \<mapsto> listed deps y @ [x])"
      using I by (simp add: ps bt_get_insert)
    then have "listed (bt_insert y (listed deps y @ [x]) deps) z = (if z = y then listed deps y @ [x] else listed deps z)" for z
      by (simp add: listed_def)
    moreover have "distinct (listed deps y @ [x])" using I p(2) by (simp add: ps)
    ultimately show ?thesis using I by (auto simp: s' ps bt_inv_insert)
  qed
  show "no_abort (try_fold count_dependency pairs (map (\<lambda>c. (c, 0)) S, []))"
  proof (rule no_abort_prefix [where I = ?I])
    fix ps p s assume p: "p \<in> set pairs" and I: "?I ps s"
    obtain x y m deps where ps: "p = (x, y)" "s = (m, deps)" by (metis surj_pair)
    have "x \<in> set S" using assms(2) p by (auto simp: ps)
    with I obtain n where n: "bt_get m x = Some n" unfolding ps by blast
    show "no_abort (count_dependency p s)"
      by (simp add: ps n count_dependency_def no_abort_bind)
  qed (use start step assms(1) in auto)
  show "\<exists>st. try_fold count_dependency pairs (map (\<lambda>c. (c, 0)) S, []) = Inr st" if room: "length pairs \<le> u64_max"
  proof (rule total_prefix [where I = ?I])
    fix ps p s assume p: "p \<in> set pairs" "set ps \<subseteq> set pairs" "distinct pairs \<Longrightarrow> p \<notin> set ps" and I: "?I ps s"
    obtain x y m deps where ps: "p = (x, y)" "s = (m, deps)" by (metis surj_pair)
    have "x \<in> set S" using assms(2) p by (auto simp: ps)
    with I have n: "bt_get m x = Some (card (open_deps (set ps) {} x))" unfolding ps by blast
    have "card (open_deps (set ps) {} x) \<le> card (snd ` set ps)"
      by (rule card_mono) (force simp: open_deps_def)+
    also have "\<dots> \<le> card (set ps)" by (rule card_image_le) simp
    also have "\<dots> < card (set pairs)" using p assms(1) by (intro psubset_card_mono) auto
    also have "\<dots> = length pairs" using assms(1) by (rule distinct_card)
    finally show "\<exists>s'. count_dependency p s = Inr s'"
      using room by (simp add: ps n count_dependency_def checked_add_u64_def)
  qed (use start step assms(1) in auto)
  assume "try_fold count_dependency pairs (map (\<lambda>c. (c, 0)) S, []) = Inr (indegree, dependents)"
  then have "?I pairs (indegree, dependents)"
    by (rule try_fold_prefix) (use start step assms(1) in auto)
  then show "map fst indegree = S \<and> (\<forall>x \<in> set S. bt_get indegree x = Some (card (open_deps (set pairs) {} x)))
       \<and> (\<forall>y. distinct (listed dependents y) \<and> set (listed dependents y) = {x. (x, y) \<in> set pairs})" by simp
qed

definition released :: "('a \<times> 'a) set \<Rightarrow> 'a list \<Rightarrow> 'a set \<Rightarrow> ('a \<Rightarrow> 'a set) \<Rightarrow> ('a, nat) btree \<times> 'a list \<Rightarrow> bool" where
  "released R S D waiting = (\<lambda>(indegree, ready). map fst indegree = S \<and> (\<forall>x \<in> set S. bt_get indegree x = Some (card (waiting x)))
     \<and> distinct ready \<and> set ready = {x \<in> set S - D. waiting x = {}})"

lemma release_child_step:
  assumes inv: "released R S D waiting st" and x: "x \<in> set S" "x \<notin> D" "c \<in> waiting x" "finite (waiting x)"
  shows "\<exists>st'. release_child x st = Inr st' \<and> released R S D (waiting(x := waiting x - {c})) st'"
proof -
  obtain indegree ready where st: "st = (indegree, ready)" by (cases st)
  have n: "bt_get indegree x = Some (card (waiting x))" "card (waiting x) \<noteq> 0"
    using inv x by (auto simp: released_def st card_eq_0_iff)
  have less: "card (waiting x) - 1 = card (waiting x - {c})" using x by simp
  have fin: "card (waiting x) - 1 = 0 \<longleftrightarrow> waiting x - {c} = {}"
    unfolding less using x(4) by (simp add: card_eq_0_iff)
  have rel: "release_child x st = Inr (bt_modify x (\<lambda>n. n - 1) indegree,
      if card (waiting x) - 1 = 0 then insort_insert x ready else ready)"
    using n by (simp add: release_child_def st)
  have "released R S D (waiting(x := waiting x - {c})) (bt_modify x (\<lambda>n. n - 1) indegree,
      if card (waiting x) - 1 = 0 then insort_insert x ready else ready)"
    unfolding fin using inv x less
    by (auto simp: released_def st bt_get_modify distinct_insort_insert set_insort_insert)
  with rel show ?thesis by blast
qed

lemma release_children_ok:
  assumes "released R S D waiting st" "distinct cs"
    and "\<And>x. x \<in> set cs \<Longrightarrow> x \<in> set S \<and> x \<notin> D \<and> c \<in> waiting x \<and> finite (waiting x)"
  shows "\<exists>st'. try_fold release_child cs st = Inr st'
    \<and> released R S D (\<lambda>x. if x \<in> set cs then waiting x - {c} else waiting x) st'"
  using assms
proof (induction cs arbitrary: st waiting)
  case (Cons x cs)
  have x: "x \<in> set S" "x \<notin> D" "c \<in> waiting x" "finite (waiting x)" using Cons.prems(3) [of x] by auto
  from release_child_step [OF Cons.prems(1) x] obtain st1
    where st1: "release_child x st = Inr st1" "released R S D (waiting(x := waiting x - {c})) st1" by blast
  have "\<exists>st'. try_fold release_child cs st1 = Inr st'
    \<and> released R S D (\<lambda>z. if z \<in> set cs then (waiting(x := waiting x - {c})) z - {c} else (waiting(x := waiting x - {c})) z) st'"
    using Cons.prems(2,3) by (intro Cons.IH [OF st1(2)]) auto
  moreover have "(\<lambda>z. if z \<in> set cs then (waiting(x := waiting x - {c})) z - {c} else (waiting(x := waiting x - {c})) z)
      = (\<lambda>z. if z \<in> set (x # cs) then waiting z - {c} else waiting z)" by (auto simp: fun_eq_iff)
  ultimately show ?case using st1(1) by simp
qed (auto intro: exI [of _ st])

text \<open>A set of processed components, each ranked above its dependencies.\<close>

definition settled :: "('a \<times> 'a) set \<Rightarrow> 'a set \<Rightarrow> bool" where
  "settled R D \<longleftrightarrow> (\<exists>r :: 'a \<Rightarrow> nat. \<forall>x \<in> D. \<forall>y. (x, y) \<in> R \<longrightarrow> y \<in> D \<and> r y < r x)"

lemma settled_insert:
  assumes "settled R D" "finite D" "c \<notin> D" "open_deps R D c = {}"
  shows "settled R (insert c D)"
proof -
  obtain r :: "'a \<Rightarrow> nat" where r: "\<And>x y. x \<in> D \<Longrightarrow> (x, y) \<in> R \<Longrightarrow> y \<in> D \<and> r y < r x"
    using assms(1) unfolding settled_def by blast
  have c: "y \<in> D" if "(c, y) \<in> R" for y using assms(4) that by (auto simp: open_deps_def)
  have le: "r y < Suc (sum r D)" if "y \<in> D" for y using member_le_sum [OF that, of r] assms(2) by simp
  show ?thesis unfolding settled_def
    by (rule exI [of _ "r(c := Suc (sum r D))"]) (use r c le assms(3) in auto)
qed

lemma settled_acyclic: "settled R D \<Longrightarrow> R \<subseteq> D \<times> D \<Longrightarrow> acyclic R"
  unfolding settled_def using acyclic_measure by (metis (no_types, lifting) SigmaE2 in_mono)

lemma cycle_loop_decides:
  assumes "released R S D (open_deps R D) st" "settled R D" "D \<subseteq> set S" "R \<subseteq> set S \<times> set S" "processed = card D"
    "\<And>y. distinct (listed dependents y) \<and> set (listed dependents y) = {x. (x, y) \<in> R}"
  shows "\<exists>E. cycle_loop dependents st processed = Inr (card E) \<and> E \<subseteq> set S \<and> settled R E
    \<and> (\<forall>x \<in> set S - E. open_deps R E x \<noteq> {})"
  using assms
proof (induction dependents st processed arbitrary: D rule: cycle_loop.induct)
  case (1 dependents indegree processed)
  then show ?case by (intro exI [of _ D]) (auto simp: released_def)
next
  case (2 dependents indegree c ready processed)
  note dep = "2.prems"(6)
  have finR: "finite R" using "2.prems"(4) finite_subset by fastforce
  have fin: "finite D" using "2.prems"(3) finite_subset by blast
  have finw: "finite (open_deps R D x)" for x
    by (rule finite_subset [of _ "snd ` R"]) (use finR in \<open>force simp: open_deps_def\<close>)+
  have c: "c \<in> set S" "c \<notin> D" "open_deps R D c = {}" "c \<notin> set ready"
    using "2.prems"(1) by (auto simp: released_def)
  have shrink: "open_deps R (insert c D) x = open_deps R D x - {c}" for x by (auto simp: open_deps_def)
  have start: "released R S (insert c D) (open_deps R D) (indegree, ready)"
    using "2.prems"(1) by (auto simp: released_def)
  have child: "x \<in> set S \<and> x \<notin> insert c D \<and> c \<in> open_deps R D x \<and> finite (open_deps R D x)" if "(x, c) \<in> R" for x
    using that "2.prems"(2,4) c finw by (fastforce simp: open_deps_def settled_def)
  obtain st where st: "try_fold release_child (listed dependents c) (indegree, ready) = Inr st"
    "released R S (insert c D) (\<lambda>x. if x \<in> set (listed dependents c) then open_deps R D x - {c} else open_deps R D x) st"
    using release_children_ok [OF start, of "listed dependents c" c] dep child by auto
  have "(\<lambda>x. if x \<in> set (listed dependents c) then open_deps R D x - {c} else open_deps R D x) = open_deps R (insert c D)"
    unfolding shrink using dep by (auto simp: fun_eq_iff open_deps_def)
  with st(2) have rel: "released R S (insert c D) (open_deps R (insert c D)) st" by simp
  have "\<exists>E. cycle_loop dependents st (processed + 1) = Inr (card E) \<and> E \<subseteq> set S \<and> settled R E
    \<and> (\<forall>x \<in> set S - E. open_deps R E x \<noteq> {})"
  proof (rule "2.IH" [OF _ rel])
    show "try_fold release_child (case bt_get dependents c of None \<Rightarrow> [] | Some children \<Rightarrow> children) (indegree, ready) = Inr st"
      using st(1) by (simp only: listed_def)
    show "settled R (insert c D)" using "2.prems"(2) fin c by (intro settled_insert)
  qed (use "2.prems" c fin in auto)
  then show ?case using st(1) by (simp add: listed_def)
qed

lemma validate_dependency_cycles_ok:
  fixes gi mcp
  assumes S: "distinct S"
  defines "R \<equiv> dependency_rel gi S mcp"
  defines "r \<equiv> validate_dependency_cycles gi S mcp"
  shows "no_abort r" "r = Inr () \<Longrightarrow> acyclic R"
    "length (dependency_pairs gi S mcp) \<le> u64_max \<Longrightarrow> r \<noteq> Inr () \<Longrightarrow> \<not> acyclic R
       \<and> r = Inl (Fail (planner_error DependencyCycle ''selected package dependencies contain a restore cycle''))"
proof -
  let ?pairs = "dependency_pairs gi S mcp" and ?count = "try_fold count_dependency (dependency_pairs gi S mcp) (map (\<lambda>c. (c, 0)) S, [])"
  have pairs: "distinct ?pairs" "set ?pairs = R" "R \<subseteq> set S \<times> set S" using dependency_pairs_ok unfolding R_def by blast+
  note counted = count_dependencies [of ?pairs S, unfolded pairs(2), OF pairs(1,3) S]
  have decided: "if acyclic R then r = Inr ()
      else r = Inl (Fail (planner_error DependencyCycle ''selected package dependencies contain a restore cycle''))"
    if c: "?count = Inr (indegree, dependents)" for indegree dependents
  proof -
    let ?ready = "map fst (filter (\<lambda>(_, count). count = 0) indegree)"
    have ind: "map fst indegree = S" "\<And>x. x \<in> set S \<Longrightarrow> bt_get indegree x = Some (card (open_deps R {} x))"
      and dep: "\<And>y. distinct (listed dependents y) \<and> set (listed dependents y) = {x. (x, y) \<in> R}"
      using counted(2) [OF c] by auto
    have d: "distinct (map fst indegree)" using ind(1) S by simp
    have finR: "finite R" using pairs(3) finite_subset by fastforce
    have fin: "finite (open_deps R {} x)" for x
      by (rule finite_subset [of _ "snd ` R"]) (use finR in \<open>force simp: open_deps_def\<close>)+
    have "x \<in> set ?ready \<longleftrightarrow> x \<in> set S \<and> bt_get indegree x = Some 0" for x
      using d ind(1) by (force simp: map_of_eq_Some_iff)
    then have "x \<in> set ?ready \<longleftrightarrow> x \<in> set S \<and> open_deps R {} x = {}" for x
      using ind(2) [of x] fin [of x] by (metis card_eq_0_iff option.inject)
    then have ready: "set ?ready = {x \<in> set S - {}. open_deps R {} x = {}}" by blast
    have "distinct ?ready" using d by (simp add: distinct_map_filter)
    with ready have "released R S {} (open_deps R {}) (indegree, ?ready)" using ind by (simp add: released_def)
    moreover have "settled R {}" by (simp add: settled_def)
    ultimately have "\<exists>E. cycle_loop dependents (indegree, ?ready) 0 = Inr (card E) \<and> E \<subseteq> set S \<and> settled R E
        \<and> (\<forall>x \<in> set S - E. open_deps R E x \<noteq> {})"
      using pairs(3) dep by (intro cycle_loop_decides) auto
    then obtain E where E: "cycle_loop dependents (indegree, ?ready) 0 = Inr (card E)" "E \<subseteq> set S" "settled R E"
        "\<And>x. x \<in> set S - E \<Longrightarrow> open_deps R E x \<noteq> {}"
      by blast
    have all: "card E = length S \<longleftrightarrow> E = set S" using E(2) S by (metis card_subset_eq distinct_card finite_set)
    have "acyclic R \<longleftrightarrow> E = set S"
    proof
      assume a: "acyclic R"
      show "E = set S"
      proof (rule ccontr)
        assume "E \<noteq> set S"
        then have "set S - E \<noteq> {}" using E(2) by blast
        moreover have "\<exists>y \<in> set S - E. (x, y) \<in> R" if "x \<in> set S - E" for x
          using E(4) [OF that] pairs(3) by (auto simp: open_deps_def)
        ultimately have "\<not> acyclic R" by (intro endless_not_acyclic [of "set S - E"]) auto
        then show False using a by blast
      qed
    next
      assume "E = set S"
      then show "acyclic R" using settled_acyclic [OF E(3)] pairs(3) by simp
    qed
    then show ?thesis using all S by (simp add: r_def validate_dependency_cycles_def c E(1) distinct_card)
  qed
  show "no_abort r"
  proof (cases ?count)
    case (Inl e)
    then show ?thesis using counted(1) by (simp add: r_def validate_dependency_cycles_def no_abort_def)
  next
    case (Inr st)
    then show ?thesis using decided [of "fst st" "snd st"] by (auto split: if_splits)
  qed
  show "acyclic R" if good: "r = Inr ()"
  proof -
    obtain st where "?count = Inr st" using good by (cases ?count) (auto simp: r_def validate_dependency_cycles_def)
    then show ?thesis using good decided [of "fst st" "snd st"] by (auto split: if_splits)
  qed
  show "\<not> acyclic R \<and> r = Inl (Fail (planner_error DependencyCycle ''selected package dependencies contain a restore cycle''))"
    if room: "length ?pairs \<le> u64_max" and bad: "r \<noteq> Inr ()"
  proof -
    obtain st where "?count = Inr st" using counted(3) room by blast
    then show ?thesis using bad decided [of "fst st" "snd st"] by (auto split: if_splits)
  qed
qed

subsection \<open>The operations of the selected components\<close>

text \<open>
  Every operation of a plan in the making is an auxiliary one, or an automatic operation of an indexed
  component, justified by its diff and recorded under the component's keys.
\<close>

definition planned_spec ::
  "confirmation_map \<Rightarrow> mcp_map \<Rightarrow> GraphIndex \<Rightarrow> ArtifactId list \<Rightarrow> TargetDiff \<Rightarrow> (ComponentId, str list) btree \<Rightarrow> OperationSpec \<Rightarrow> bool" where
  "planned_spec conf mcp gi arts td K s \<longleftrightarrow> auxiliary s \<or>
     (\<exists>c diff keys. bt_get (gi_components gi) (spec_component s) = Some c \<and> component_diff td (spec_component s) = Some diff
        \<and> bt_get K (spec_component s) = Some keys
        \<and> mutation_spec conf mcp (component_artifacts (c_id c) arts (gi_artifacts gi)) c diff keys s)"

lemma spec_mono_planned [simp]: "spec_mono (planned_spec conf mcp gi arts td K)"
  unfolding spec_mono_def planned_spec_def mutation_spec_def auxiliary_def is_manual_def is_provider_def confirmed_def by fastforce

lemma spec_mono_any [simp]: "spec_mono (\<lambda>_. True)"
  by (simp add: spec_mono_def)

definition handled :: "Component \<Rightarrow> ComponentDiff \<Rightarrow> bool" where
  "handled c diff \<longleftrightarrow> cd_disposition diff \<notin> {ComponentDisposition.Skip, ComponentDisposition.PreserveTarget}
     \<and> rd_primary (c_restore c) \<noteq> RestoreStrategy.ReauthRequired"

definition planning_ok ::
  "confirmation_map \<Rightarrow> mcp_map \<Rightarrow> GraphIndex \<Rightarrow> ArtifactId list \<Rightarrow> TargetDiff \<Rightarrow> plan_state \<Rightarrow> ComponentId list
   \<Rightarrow> component_keys \<times> plan_state \<Rightarrow> bool" where
  "planning_ok conf mcp gi arts td st0 finished = (\<lambda>(keys, st).
     pst_wf st \<and> grows (\<lambda>_. True) st0 st
     \<and> bt_inv (ck_mutations keys) \<and> bt_inv (ck_readiness keys) \<and> ck_all_operations keys = ck_mutations keys
     \<and> dom (bt_get (ck_mutations keys)) = set finished
     \<and> (\<forall>x ks. bt_get (ck_mutations keys) x = Some ks \<longrightarrow> keys_serve x ks st)
     \<and> (\<forall>x k. bt_get (ck_readiness keys) x = Some (Some k) \<longrightarrow> k \<in> set (listed (ck_mutations keys) x))
     \<and> (\<forall>k s. pst_get st k = Some s \<longrightarrow> planned_spec conf mcp gi arts td (ck_mutations keys) s)
     \<and> (\<forall>x \<in> set finished. \<forall>c diff. bt_get (gi_components gi) x = Some c \<and> component_diff td x = Some diff \<and> handled c diff
          \<longrightarrow> (\<exists>k. bt_get (ck_readiness keys) x = Some (Some k))))"

lemma plan_component_ok:
  assumes gi: "\<forall>x c. bt_get (gi_components gi) x = Some c \<longrightarrow> c_id c = x" and conf: "conf_known conf st0"
    and ok: "planning_ok conf mcp gi arts (pin_target_diff input) st0 finished (keys, st)" and new: "x \<notin> set finished"
    and known: "x \<in> dom (bt_get (gi_components gi))" "x \<in> dom (component_diff (pin_target_diff input))"
  shows "no_abort (plan_component digest input gi arts conf mcp x (keys, st))"
    "plan_component digest input gi arts conf mcp x (keys, st) = Inr ks' \<Longrightarrow>
       planning_ok conf mcp gi arts (pin_target_diff input) st0 (finished @ [x]) ks'"
proof -
  let ?td = "pin_target_diff input"
  obtain c diff where c: "bt_get (gi_components gi) x = Some c" and diff: "component_diff ?td x = Some diff" using known by auto
  have id: "c_id c = x" using gi c by blast
  let ?arts = "component_artifacts (c_id c) arts (gi_artifacts gi)"
  let ?b = "build_component_operations digest c (pin_run_id input) diff arts (gi_artifacts gi) conf mcp st"
  have wf: "pst_wf st" and g0: "grows (\<lambda>_. True) st0 st" using ok by (auto simp: planning_ok_def)
  have conf': "conf_known conf st" using g0 conf by (rule grows_conf)
  note build = build_component_ok [OF wf conf', of digest c "pin_run_id input" diff arts "gi_artifacts gi" mcp]
  show "no_abort (plan_component digest input gi arts conf mcp x (keys, st))"
    unfolding plan_component_def using c diff build(1) by (auto simp: intro!: no_abort_bind)
  assume r: "plan_component digest input gi arts conf mcp x (keys, st) = Inr ks'"
  then obtain built st' where b: "?b = Inr (built, st')" and
    ks': "ks' = (\<lparr>ck_mutations = bt_insert x (co_mutation_keys built) (ck_mutations keys),
           ck_all_operations = bt_insert x (co_mutation_keys built) (ck_all_operations keys),
           ck_readiness = bt_insert x (co_readiness_key built) (ck_readiness keys)\<rparr>, st')"
    using c diff by (auto simp: plan_component_def result_simps)
  have bo: "building_ok conf mcp ?arts c diff st (built, st')" and ready: "handled c diff \<longrightarrow> co_readiness_key built \<noteq> None"
    using build(2) [OF b] by (auto simp: handled_def)
  let ?K = "bt_insert x (co_mutation_keys built) (ck_mutations keys)"
  have K: "bt_get ?K = (bt_get (ck_mutations keys))(x \<mapsto> co_mutation_keys built)"
    and R: "bt_get (bt_insert x (co_readiness_key built) (ck_readiness keys)) = (bt_get (ck_readiness keys))(x \<mapsto> co_readiness_key built)"
    using ok by (simp_all add: planning_ok_def bt_get_insert)
  have fresh: "bt_get (ck_mutations keys) x = None" using ok new by (auto simp: planning_ok_def)
  have wf': "pst_wf st'" and g: "grows (built_spec conf mcp ?arts c diff (co_mutation_keys built)) st st'"
    and serve: "keys_serve x (co_mutation_keys built) st'"
    and rk: "\<And>k. co_readiness_key built = Some k \<Longrightarrow> k \<in> set (co_mutation_keys built)"
    using bo by (auto simp: building_ok_def id)
  have g': "grows (\<lambda>_. True) st0 st'"
    using g0 grows_weaken [OF g, of "\<lambda>_. True"] by (auto intro: grows_trans)
  have planned: "planned_spec conf mcp gi arts ?td ?K s" if "pst_get st' k = Some s" for k s
  proof (rule grows_all [OF g spec_mono_planned _ _ that])
    fix k' t assume "pst_get st k' = Some t"
    then have "planned_spec conf mcp gi arts ?td (ck_mutations keys) t" using ok by (auto simp: planning_ok_def)
    then show "planned_spec conf mcp gi arts ?td ?K t" using fresh by (auto simp: planned_spec_def K)
  next
    fix t assume "built_spec conf mcp ?arts c diff (co_mutation_keys built) t"
    then show "planned_spec conf mcp gi arts ?td ?K t"
      using c diff by (auto simp: built_spec_def planned_spec_def mutation_spec_def K id)
  qed
  have serves: "keys_serve y ks st'" if "bt_get ?K y = Some ks" for y ks
  proof (cases "y = x")
    case True
    with that serve show ?thesis by (simp add: K)
  next
    case False
    with that have "keys_serve y ks st" using ok by (auto simp: K planning_ok_def)
    then show ?thesis by (rule grows_serve [OF g])
  qed
  have readiness: "k \<in> set (listed ?K y)" if "((bt_get (ck_readiness keys))(x \<mapsto> co_readiness_key built)) y = Some (Some k)" for y k
  proof (cases "y = x")
    case True
    with that rk show ?thesis by (simp add: listed_def K)
  next
    case False
    with that have "k \<in> set (listed (ck_mutations keys) y)" using ok by (auto simp: planning_ok_def)
    with False show ?thesis by (simp add: listed_def K)
  qed
  have last: "\<exists>k. ((bt_get (ck_readiness keys))(x \<mapsto> co_readiness_key built)) y = Some (Some k)"
    if "y \<in> set (finished @ [x])" "bt_get (gi_components gi) y = Some c'" "component_diff ?td y = Some d'" "handled c' d'" for y c' d'
    using that ok ready c diff by (cases "y = x") (auto simp: planning_ok_def)
  have inv: "bt_inv (ck_mutations keys)" "bt_inv (ck_readiness keys)" "ck_all_operations keys = ck_mutations keys"
    "dom (bt_get ?K) = set (finished @ [x])"
    using ok by (auto simp: planning_ok_def K)
  show "planning_ok conf mcp gi arts ?td st0 (finished @ [x]) ks'"
    unfolding ks' planning_ok_def prod.case component_keys.simps R
  proof (intro conjI)
    show "pst_wf st'" "grows (\<lambda>_. True) st0 st'" by (fact wf' g')+
    show "bt_inv ?K" "bt_inv (bt_insert x (co_readiness_key built) (ck_readiness keys))"
      "bt_insert x (co_mutation_keys built) (ck_all_operations keys) = ?K" "dom (bt_get ?K) = set (finished @ [x])"
      using inv by (simp_all add: bt_inv_insert)
  qed (use serves readiness planned last in blast)+
qed

subsection \<open>Verification and dependency edges\<close>

definition verifies :: "GraphIndex \<Rightarrow> (ComponentId, str list) btree \<Rightarrow> OperationSpec \<Rightarrow> bool" where
  "verifies gi K s \<longleftrightarrow> (\<exists>c rule. bt_get (gi_components gi) (spec_component s) = Some c \<and> rule \<in> set (c_verification c)
     \<and> spec_kind s = OperationKind.Verify rule \<and> spec_component s \<in> dom (bt_get K) \<and> set (listed K (spec_component s)) \<subseteq> set (spec_prerequisites s))"

lemma spec_mono_verifies [simp]: "spec_mono (verifies gi K)"
  unfolding spec_mono_def verifies_def by fastforce

definition checked :: "(VerificationRule \<Rightarrow> str option) \<Rightarrow> ComponentId \<Rightarrow> VerificationRule \<Rightarrow> plan_state \<Rightarrow> bool" where
  "checked rule_digest x rule st \<longleftrightarrow> (\<exists>k s rule'. pst_get st k = Some s \<and> spec_component s = x
     \<and> spec_kind s = OperationKind.Verify rule' \<and> rule_digest rule' = rule_digest rule)"

lemma grows_checked: "grows N st st' \<Longrightarrow> checked rule_digest x rule st \<Longrightarrow> checked rule_digest x rule st'"
  unfolding grows_def checked_def by fastforce

text \<open>The verification operations added so far, from the state \<open>st0\<close> the components' operations left.\<close>

definition verifying_ok ::
  "GraphIndex \<Rightarrow> component_keys \<Rightarrow> plan_state \<Rightarrow> (ComponentId, str list) btree \<times> plan_state \<Rightarrow> bool" where
  "verifying_ok gi keys st0 = (\<lambda>(ops, st).
     pst_wf st \<and> grows (verifies gi (ck_mutations keys)) st0 st \<and> bt_inv ops
     \<and> (\<forall>x. set (listed (ck_mutations keys) x) \<subseteq> set (listed ops x) \<and> set (listed ops x) \<subseteq> dom (pst_get st))
     \<and> (\<forall>k s. pst_get st k = Some s \<and> pst_get st0 k = None \<longrightarrow> k \<in> set (listed ops (spec_component s))))"

lemma add_verification_unfold:
  assumes "c_verification c = first # rest"
  shows "add_verification_operation digest c keys (label, rule) (ops, st) =
    try_bind (lift_fail (OperationSpec_new digest (c_id c) (OperationKind.Verify rule)
      (default_phase (OperationKind.Verify first)) Always [] False False)) (\<lambda>spec.
    try_bind (lift_fail (insert_spec (if listed (ck_mutations keys) (c_id c) = []
        then add_prerequisites (option_as_list (Option.bind (bt_get (ck_readiness keys) (c_id c)) (\<lambda>key. key)))
               (add_prerequisites (listed (ck_mutations keys) (c_id c)) spec)
        else add_prerequisites (listed (ck_mutations keys) (c_id c)) spec) st)) (\<lambda>(key, st).
    Inr (bt_insert (c_id c) (listed ops (c_id c) @ [key]) ops, st)))"
  unfolding add_verification_operation_def assms Let_def listed_def [symmetric] prod.case list.case expect_simps try_bind_simps ..

lemma add_verification_ok:
  assumes ok: "verifying_ok gi keys st0 (ops, st)" and c: "bt_get (gi_components gi) x = Some c" "c_id c = x"
    and rule: "rule \<in> set (c_verification c)"
    and K: "set (listed (ck_mutations keys) x) \<subseteq> dom (pst_get st0)"
      "\<And>k. bt_get (ck_readiness keys) x = Some (Some k) \<Longrightarrow> k \<in> set (listed (ck_mutations keys) x)" "x \<in> dom (bt_get (ck_mutations keys))"
  shows "no_abort (add_verification_operation digest c keys (label, rule) (ops, st))"
    "add_verification_operation digest c keys (label, rule) (ops, st) = Inr (ops', st') \<Longrightarrow>
       verifying_ok gi keys st0 (ops', st') \<and> grows (\<lambda>_. True) st st' \<and> checked rule_digest x rule st'"
proof -
  obtain first rest where v: "c_verification c = first # rest" using rule by (cases "c_verification c") auto
  show "no_abort (add_verification_operation digest c keys (label, rule) (ops, st))"
    unfolding add_verification_unfold [OF v] by (auto intro!: no_abort_bind)
  assume r: "add_verification_operation digest c keys (label, rule) (ops, st) = Inr (ops', st')"
  let ?K = "ck_mutations keys"
  define readiness where "readiness = option_as_list (Option.bind (bt_get (ck_readiness keys) x) (\<lambda>key. key))"
  have none: "option_as_list None = []" and some: "option_as_list (Some k) = [k]" for k :: str by (simp_all add: option_as_list_def)
  have ready: "k \<in> set (listed ?K x)" if "Option.bind (bt_get (ck_readiness keys) x) (\<lambda>key. key) = Some k" for k
    using that K(2) by (cases "bt_get (ck_readiness keys) x") auto
  have extra: "set readiness \<subseteq> set (listed ?K x)"
    by (cases "Option.bind (bt_get (ck_readiness keys) x) (\<lambda>key. key)") (simp_all only: readiness_def none some ready list.set, simp_all add: ready)
  from r obtain spec where
    spec: "OperationSpec_new digest x (OperationKind.Verify rule) (default_phase (OperationKind.Verify first)) Always [] False False = Inr spec"
    by (auto simp: add_verification_unfold [OF v] c(2) result_simps)
  note f = new_spec_fields [OF spec]
  let ?spec = "if listed ?K x = [] then add_prerequisites readiness (add_prerequisites (listed ?K x) spec) else add_prerequisites (listed ?K x) spec"
  obtain key where ins: "insert_spec ?spec st = Inr (key, st')" and ops': "ops' = bt_insert x (listed ops x @ [key]) ops"
    using r [unfolded add_verification_unfold [OF v] c(2) readiness_def [symmetric]] spec by (auto simp: result_simps)
  have fields: "spec_component ?spec = x" "spec_kind ?spec = OperationKind.Verify rule"
    "set (spec_prerequisites ?spec) = set (listed ?K x)" "distinct (spec_prerequisites ?spec)"
    using f extra by (cases "listed ?K x = []"; auto)+
  have wf: "pst_wf st" and g: "grows (verifies gi ?K) st0 st" and inv: "bt_inv ops"
    and sub: "\<And>y. set (listed ?K y) \<subseteq> set (listed ops y) \<and> set (listed ops y) \<subseteq> dom (pst_get st)"
    and cov: "\<And>k s. pst_get st k = Some s \<Longrightarrow> pst_get st0 k = None \<Longrightarrow> k \<in> set (listed ops (spec_component s))"
    using ok by (auto simp: verifying_ok_def)
  have V: "verifies gi ?K ?spec" using c(1) rule fields K(3) by (auto simp: verifies_def)
  have "step (verifies gi ?K) st st'"
  proof (rule insert_spec_step [OF ins])
    show "set (spec_prerequisites ?spec) \<subseteq> dom (pst_get st)" using K(1) grows_dom [OF g] fields(3) by blast
  qed (use V fields in auto)
  then have wf': "pst_wf st'" and g1: "grows (verifies gi ?K) st st'" using wf by (auto simp: step_def)
  have g': "grows (verifies gi ?K) st0 st'" using g g1 by (rule grows_trans) simp
  note get = insert_spec_get [OF ins wf]
  have ops: "listed ops' y = (if y = x then listed ops x @ [key] else listed ops y)" for y
    using inv by (simp add: ops' listed_def bt_get_insert)
  have sub': "set (listed ?K y) \<subseteq> set (listed ops' y) \<and> set (listed ops' y) \<subseteq> dom (pst_get st')" for y
    using sub [of y] by (auto simp: ops get(3))
  have cov': "k \<in> set (listed ops' (spec_component s))" if "pst_get st' k = Some s" "pst_get st0 k = None" for k s
    using that cov [of k s] fields(1) by (auto simp: get(3) ops split: if_splits)
  have "verifying_ok gi keys st0 (ops', st')"
    unfolding verifying_ok_def prod.case using wf' g' sub' cov' inv by (auto simp: ops' bt_inv_insert)
  moreover have "grows (\<lambda>_. True) st st'" using g1 by (rule grows_weaken) simp
  moreover have "checked rule_digest x rule st'"
    unfolding checked_def using fields get(3) by (intro exI [of _ key] exI [of _ ?spec] exI [of _ rule]) simp
  ultimately show "verifying_ok gi keys st0 (ops', st') \<and> grows (\<lambda>_. True) st st' \<and> checked rule_digest x rule st'" by blast
qed

lemma rule_labels:
  assumes "try_map (rule_key rule_digest) rules = Inr labelled"
  shows "map snd labelled = rules" "(label, rule) \<in> set labelled \<Longrightarrow> rule_digest rule = Some label"
proof -
  have len: "length labelled = length rules"
    and each: "\<And>i. i < length rules \<Longrightarrow> \<exists>key. rule_digest (rules ! i) = Some key \<and> labelled ! i = (key, rules ! i)"
    using assms by (simp_all add: rule_key_def result_simps) metis
  have at: "snd (labelled ! i) = rules ! i \<and> rule_digest (snd (labelled ! i)) = Some (fst (labelled ! i))" if "i < length rules" for i
    using each [OF that] by auto
  show "map snd labelled = rules" using len at by (auto intro: nth_equalityI)
  show "rule_digest rule = Some label" if "(label, rule) \<in> set labelled" using that len at by (force simp: in_set_conv_nth)
qed

lemma verify_component_ok:
  assumes ok: "verifying_ok gi keys st0 acc" and c: "bt_get (gi_components gi) x = Some c" "c_id c = x"
    and K: "set (listed (ck_mutations keys) x) \<subseteq> dom (pst_get st0)"
      "\<And>k. bt_get (ck_readiness keys) x = Some (Some k) \<Longrightarrow> k \<in> set (listed (ck_mutations keys) x)" "x \<in> dom (bt_get (ck_mutations keys))"
  shows "no_abort (verify_component digest rule_digest gi keys x acc)"
    "verify_component digest rule_digest gi keys x acc = Inr acc' \<Longrightarrow>
       verifying_ok gi keys st0 acc' \<and> grows (\<lambda>_. True) (snd acc) (snd acc')
       \<and> (\<forall>rule \<in> set (c_verification c). checked rule_digest x rule (snd acc'))"
proof -
  let ?f = "add_verification_operation digest c keys"
  have one: "no_abort (?f (label, rule) a)"
    "?f (label, rule) a = Inr a' \<Longrightarrow> verifying_ok gi keys st0 a' \<and> grows (\<lambda>_. True) (snd a) (snd a') \<and> checked rule_digest x rule (snd a')"
    if "rule \<in> set (c_verification c)" "verifying_ok gi keys st0 a" for label rule a a'
    using add_verification_ok(1) [OF _ c that(1) K, where ops = "fst a" and st = "snd a"]
      add_verification_ok(2) [OF _ c that(1) K, where ops = "fst a" and st = "snd a" and ops' = "fst a'" and st' = "snd a'"]
      that(2) by auto
  have run: "no_abort (try_fold ?f labelled acc) \<and> (\<forall>acc'. try_fold ?f labelled acc = Inr acc' \<longrightarrow>
      verifying_ok gi keys st0 acc' \<and> grows (\<lambda>_. True) (snd acc) (snd acc')
      \<and> (\<forall>(label, rule) \<in> set labelled. checked rule_digest x rule (snd acc')))"
    if "snd ` set labelled \<subseteq> set (c_verification c)" for labelled
  proof (intro conjI allI impI)
    show "no_abort (try_fold ?f labelled acc)"
      by (rule no_abort_fold [where I = "verifying_ok gi keys st0"]) (use ok one that in \<open>fastforce+\<close>)
    fix acc' assume "try_fold ?f labelled acc = Inr acc'"
    then have "verifying_ok gi keys st0 acc' \<and> grows (\<lambda>_. True) (snd acc) (snd acc')
      \<and> (\<forall>(label, rule) \<in> set labelled. checked rule_digest x rule (snd acc'))"
    proof (rule try_fold_prefix)
      fix ys :: "(str \<times> VerificationRule) list" and p a a'
      assume p: "p \<in> set labelled" and I: "verifying_ok gi keys st0 a \<and> grows (\<lambda>_. True) (snd acc) (snd a)
          \<and> (\<forall>(label, rule) \<in> set ys. checked rule_digest x rule (snd a))" and r: "?f p a = Inr a'"
      obtain label rule where lr: "p = (label, rule)" by force
      have rule: "rule \<in> set (c_verification c)" using p that by (force simp: lr)
      note next_ok = one(2) [OF rule conjunct1 [OF I] r [unfolded lr]]
      then have g: "grows (\<lambda>_. True) (snd a) (snd a')" by blast
      have "grows (\<lambda>_. True) (snd acc) (snd a')" using I g by (auto intro: grows_trans)
      moreover have "\<forall>(label, rule) \<in> set ys. checked rule_digest x rule (snd a')" using I grows_checked [OF g] by blast
      ultimately show "verifying_ok gi keys st0 a' \<and> grows (\<lambda>_. True) (snd acc) (snd a')
          \<and> (\<forall>(label, rule) \<in> set (ys @ [p]). checked rule_digest x rule (snd a'))" using next_ok by (auto simp: lr)
    qed (simp add: ok grows_refl)
    then show "verifying_ok gi keys st0 acc'" "grows (\<lambda>_. True) (snd acc) (snd acc')"
      "\<forall>(label, rule) \<in> set labelled. checked rule_digest x rule (snd acc')" by blast+
  qed
  have sub: "snd ` set (dedup_by_key fst (sort_key fst labelled)) \<subseteq> set (c_verification c)"
    if "try_map (rule_key rule_digest) (c_verification c) = Inr labelled" for labelled
    using rule_labels(1) [OF that] dedup_subset [of fst "sort_key fst labelled"] by (auto simp flip: rule_labels(1) [OF that])
  show "no_abort (verify_component digest rule_digest gi keys x acc)"
    unfolding verify_component_def c(1) using run [OF sub] by (auto intro!: no_abort_bind)
  assume "verify_component digest rule_digest gi keys x acc = Inr acc'"
  then obtain labelled where l: "try_map (rule_key rule_digest) (c_verification c) = Inr labelled"
    and r: "try_fold ?f (dedup_by_key fst (sort_key fst labelled)) acc = Inr acc'"
    unfolding verify_component_def c(1) by (auto simp: try_bind_Inr)
  note main = run [OF sub [OF l], THEN conjunct2, rule_format, OF r]
  have "checked rule_digest x rule (snd acc')" if rule: "rule \<in> set (c_verification c)" for rule
  proof -
    have "rule \<in> snd ` set labelled" using rule rule_labels(1) [OF l] by (metis set_map)
    then obtain label where lr: "(label, rule) \<in> set labelled" by auto
    then have "label \<in> fst ` set (dedup_by_key fst (sort_key fst labelled))"
      unfolding dedup_keys by (auto intro: rev_image_eqI)
    then obtain rule' where lr': "(label, rule') \<in> set (dedup_by_key fst (sort_key fst labelled))" by auto
    then have "(label, rule') \<in> set labelled" using dedup_subset [of fst "sort_key fst labelled"] by auto
    then have "rule_digest rule' = rule_digest rule" using rule_labels(2) [OF l] lr by metis
    moreover have "checked rule_digest x rule' (snd acc')" using main lr' by blast
    ultimately have "checked rule_digest x rule' (snd acc')" "rule_digest rule' = rule_digest rule" by blast+
    then show ?thesis by (simp add: checked_def)
  qed
  with main show "verifying_ok gi keys st0 acc' \<and> grows (\<lambda>_. True) (snd acc) (snd acc')
       \<and> (\<forall>rule \<in> set (c_verification c). checked rule_digest x rule (snd acc'))" by blast
qed

lemma add_verifications_ok:
  fixes digest rule_digest
  assumes S: "\<forall>x \<in> set S. \<exists>c. bt_get (gi_components gi) x = Some c \<and> c_id c = x \<and> c_verification c \<noteq> []"
    and wf: "pst_wf st0" and inv: "bt_inv (ck_mutations keys)" "ck_all_operations keys = ck_mutations keys"
    and K: "\<forall>x. set (listed (ck_mutations keys) x) \<subseteq> dom (pst_get st0)"
      "\<forall>x k. bt_get (ck_readiness keys) x = Some (Some k) \<longrightarrow> k \<in> set (listed (ck_mutations keys) x)" "set S \<subseteq> dom (bt_get (ck_mutations keys))"
  defines "r \<equiv> add_verification_operations digest rule_digest gi S (keys, st0)"
  shows "no_abort r"
    "r = Inr (keys', st') \<Longrightarrow> verifying_ok gi keys st0 (ck_all_operations keys', st') \<and> ck_readiness keys' = ck_readiness keys
       \<and> (\<forall>x \<in> set S. \<forall>c. bt_get (gi_components gi) x = Some c \<longrightarrow> (\<forall>rule \<in> set (c_verification c). checked rule_digest x rule st'))"
proof -
  let ?f = "verify_component digest rule_digest gi keys"
  let ?I = "\<lambda>xs a. verifying_ok gi keys st0 a \<and> (\<forall>x \<in> set xs. \<forall>c. bt_get (gi_components gi) x = Some c \<longrightarrow>
      (\<forall>rule \<in> set (c_verification c). checked rule_digest x rule (snd a)))"
  have start: "verifying_ok gi keys st0 (ck_all_operations keys, st0)"
    using wf inv K(1) by (auto simp: verifying_ok_def grows_refl)
  have one: "no_abort (?f x a)" "?f x a = Inr a' \<Longrightarrow> verifying_ok gi keys st0 a' \<and> grows (\<lambda>_. True) (snd a) (snd a')
       \<and> (\<forall>rule \<in> set (c_verification c). checked rule_digest x rule (snd a'))"
    if "x \<in> set S" "verifying_ok gi keys st0 a" "bt_get (gi_components gi) x = Some c" for x a a' c
  proof -
    have id: "c_id c = x" using S that(1,3) by fastforce
    show "no_abort (?f x a)" by (rule verify_component_ok(1) [OF that(2,3) id]) (use K \<open>x \<in> set S\<close> in blast)+
    show "verifying_ok gi keys st0 a' \<and> grows (\<lambda>_. True) (snd a) (snd a')
       \<and> (\<forall>rule \<in> set (c_verification c). checked rule_digest x rule (snd a'))" if "?f x a = Inr a'"
      by (rule verify_component_ok(2) [OF \<open>verifying_ok gi keys st0 a\<close> \<open>bt_get (gi_components gi) x = Some c\<close> id _ _ _ that]) (use K \<open>x \<in> set S\<close> in blast)+
  qed
  have "no_abort (try_fold ?f S (ck_all_operations keys, st0))"
    by (rule no_abort_fold [where I = "verifying_ok gi keys st0"]) (use start one S in blast)+
  then show "no_abort r" by (auto simp: r_def add_verification_operations_def intro!: no_abort_bind)
  assume "r = Inr (keys', st')"
  then obtain ops where run: "try_fold ?f S (ck_all_operations keys, st0) = Inr (ops, st')" and keys': "keys' = keys\<lparr>ck_all_operations := ops\<rparr>"
    by (auto simp: r_def add_verification_operations_def result_simps)
  from run have "?I S (ops, st')"
  proof (rule try_fold_prefix)
    fix ys x a a' assume x: "x \<in> set S" and I: "?I ys a" and r: "?f x a = Inr a'"
    obtain c where c: "bt_get (gi_components gi) x = Some c" using S x by blast
    note n = one(2) [OF x conjunct1 [OF I] c r]
    then have g: "grows (\<lambda>_. True) (snd a) (snd a')" by blast
    have "checked rule_digest y rule (snd a')"
      if "y \<in> set ys" "bt_get (gi_components gi) y = Some d" "rule \<in> set (c_verification d)" for y d rule
      using I that grows_checked [OF g] by blast
    with n c show "?I (ys @ [x]) a'" by auto
  qed (use start in auto)
  then show "verifying_ok gi keys st0 (ck_all_operations keys', st') \<and> ck_readiness keys' = ck_readiness keys
       \<and> (\<forall>x \<in> set S. \<forall>c. bt_get (gi_components gi) x = Some c \<longrightarrow> (\<forall>rule \<in> set (c_verification c). checked rule_digest x rule st'))"
    by (simp add: keys')
qed

lemma require_keys_ok:
  assumes "set ks \<subseteq> dom (pst_get st)" "p \<in> dom (pst_get st)" "pst_wf st"
  shows "\<exists>st'. try_fold (\<lambda>key. require_key key p) ks st = Inr st' \<and> pst_wf st' \<and> grows (\<lambda>_. False) st st'
    \<and> (\<forall>k \<in> set ks. has_prereq (pst_specs st') k p)"
  using assms
proof (induction ks arbitrary: st)
  case (Cons k ks)
  obtain st1 where st1: "require_key k p st = Inr st1" using require_key_total [of k st p] Cons.prems(1) by auto
  have g: "pst_wf st1" "grows (\<lambda>_. False) st st1" and h: "has_prereq (pst_specs st1) k p"
    using require_key_step [OF st1 Cons.prems(2)] Cons.prems(3) by (auto simp: step_def)
  obtain st' where st': "try_fold (\<lambda>key. require_key key p) ks st1 = Inr st'" "pst_wf st'" "grows (\<lambda>_. False) st1 st'"
    "\<forall>k \<in> set ks. has_prereq (pst_specs st') k p"
    using Cons.IH [of st1] Cons.prems grows_dom [OF g(2)] g(1) by (meson dual_order.trans set_subset_Cons subsetD)
  have "grows (\<lambda>_. False) st st'" using g(2) st'(3) by (rule grows_trans) (simp add: spec_mono_def)
  moreover have "has_prereq (pst_specs st') k p" by (rule grows_prereq [OF st'(3) h])
  ultimately show ?case using st1 st' by auto
qed (simp add: grows_refl)

lemma add_dependencies_edges:
  assumes wf: "pst_wf st" and all: "\<And>x. set (listed (ck_all_operations keys) x) \<subseteq> dom (pst_get st)"
    and ready: "\<And>x k. bt_get (ck_readiness keys) x = Some (Some k) \<Longrightarrow> k \<in> dom (pst_get st)"
  shows "\<exists>st'. try_fold (add_dependency_prerequisite keys) pairs st = Inr st' \<and> pst_wf st' \<and> grows (\<lambda>_. False) st st'
    \<and> (\<forall>(x, y) \<in> set pairs. \<forall>k. bt_get (ck_readiness keys) y = Some (Some k) \<longrightarrow>
         (\<forall>j \<in> set (listed (ck_all_operations keys) x). has_prereq (pst_specs st') j k))"
  using assms
proof (induction pairs arbitrary: st)
  case (Cons p pairs)
  obtain x y where p: "p = (x, y)" by force
  have "\<exists>st1. add_dependency_prerequisite keys (x, y) st = Inr st1 \<and> pst_wf st1 \<and> grows (\<lambda>_. False) st st1
    \<and> (\<forall>k. bt_get (ck_readiness keys) y = Some (Some k) \<longrightarrow> (\<forall>j \<in> set (listed (ck_all_operations keys) x). has_prereq (pst_specs st1) j k))"
  proof (cases "\<exists>k. bt_get (ck_readiness keys) y = Some (Some k)")
    case True
    then obtain k where k: "bt_get (ck_readiness keys) y = Some (Some k)" by blast
    show ?thesis
    proof (cases "bt_get (ck_all_operations keys) x")
      case None
      then have "listed (ck_all_operations keys) x = []" by (simp add: listed_def)
      then show ?thesis using Cons.prems(1) k None by (simp add: add_dependency_prerequisite_def grows_refl)
    next
      case (Some ks)
      then have l: "listed (ck_all_operations keys) x = ks" by (simp add: listed_def)
      show ?thesis
        using require_keys_ok [of ks st k] Cons.prems(1) Cons.prems(2) [of x] Cons.prems(3) [OF k] k Some
        by (auto simp: l add_dependency_prerequisite_def)
    qed
  next
    case False
    then have "Option.bind (bt_get (ck_readiness keys) y) (\<lambda>key. key) = None" by (cases "bt_get (ck_readiness keys) y") auto
    then show ?thesis using Cons.prems(1) False by (auto simp: add_dependency_prerequisite_def grows_refl)
  qed
  then obtain st1 where st1: "add_dependency_prerequisite keys (x, y) st = Inr st1" "pst_wf st1" and g: "grows (\<lambda>_. False) st st1"
    and h: "\<And>k j. bt_get (ck_readiness keys) y = Some (Some k) \<Longrightarrow> j \<in> set (listed (ck_all_operations keys) x) \<Longrightarrow> has_prereq (pst_specs st1) j k"
    by blast
  have "set (listed (ck_all_operations keys) z) \<subseteq> dom (pst_get st1)" for z using Cons.prems(2) grows_dom [OF g] by blast
  moreover have "k \<in> dom (pst_get st1)" if "bt_get (ck_readiness keys) z = Some (Some k)" for z k
    using Cons.prems(3) [OF that] grows_dom [OF g] by blast
  ultimately obtain st' where st': "try_fold (add_dependency_prerequisite keys) pairs st1 = Inr st'" "pst_wf st'" "grows (\<lambda>_. False) st1 st'"
    and rest: "\<forall>(x, y) \<in> set pairs. \<forall>k. bt_get (ck_readiness keys) y = Some (Some k) \<longrightarrow>
         (\<forall>j \<in> set (listed (ck_all_operations keys) x). has_prereq (pst_specs st') j k)"
    using Cons.IH [OF st1(2)] by blast
  have "grows (\<lambda>_. False) st st'" using g st'(3) by (rule grows_trans) (simp add: spec_mono_def)
  with st1(1) st' rest h grows_prereq [OF st'(3)] show ?case by (auto simp: p)
qed (auto simp: grows_refl)

subsection \<open>The specifications of a plan\<close>

definition awaited_actions :: "PlannerInput \<Rightarrow> ComponentId list \<Rightarrow> ComponentId \<Rightarrow> ManualAction set" where
  "awaited_actions input selected x =
     {run_action (pin_run_id input) (compatibility_manual_action confirmation) | confirmation.
        confirmation \<in> set (cr_confirmations (pin_compatibility input)) \<and> x \<in> set (action_targets selected (cn_component confirmation))}
   \<union> {run_action (pin_run_id input) (conflict_manual_action conflict) | conflict.
        conflict \<in> set (td_conflicts (pin_target_diff input)) \<and> concerns selected (cf_component conflict) \<and> needs_confirmation conflict
        \<and> x \<in> set (action_targets selected (cf_component conflict))}"

definition specs_sound ::
  "(VerificationRule \<Rightarrow> str option) \<Rightarrow> mcp_map \<Rightarrow> PlannerInput \<Rightarrow> GraphIndex \<Rightarrow> ComponentId list \<Rightarrow> ArtifactId list
   \<Rightarrow> confirmation_map \<Rightarrow> (ComponentId, str list) btree \<Rightarrow> plan_state \<Rightarrow> bool" where
  "specs_sound rule_digest mcp input gi S arts conf K st \<longleftrightarrow>
     pst_wf st \<and> dom (bt_get K) = set S \<and> (\<forall>x. keys_serve x (listed K x) st)
     \<and> (\<forall>k s. pst_get st k = Some s \<longrightarrow> planned_spec conf mcp gi arts (pin_target_diff input) K s \<or> verifies gi K s)
     \<and> (\<forall>x \<in> set S. \<forall>a \<in> awaited_actions input S x. awaits st conf x a)
     \<and> (\<forall>x \<in> set S. \<forall>c. bt_get (gi_components gi) x = Some c \<longrightarrow> (\<forall>rule \<in> set (c_verification c). checked rule_digest x rule st))
     \<and> (\<forall>x y c diff. (x, y) \<in> dependency_rel gi S mcp \<and> bt_get (gi_components gi) y = Some c
          \<and> component_diff (pin_target_diff input) y = Some diff \<and> handled c diff \<longrightarrow>
          (\<exists>k \<in> set (listed K y). \<forall>j s. pst_get st j = Some s \<and> spec_component s = x \<and> \<not> auxiliary s
             \<longrightarrow> k \<in> set (spec_prerequisites s)))"

lemma serve_listed: "(\<And>ks. bt_get K x = Some ks \<Longrightarrow> keys_serve x ks st) \<Longrightarrow> keys_serve x (listed K x) st"
  by (cases "bt_get K x") (auto simp: listed_def keys_serve_def)

lemma grows_awaits: "grows N st st' \<Longrightarrow> awaits st conf x a \<Longrightarrow> awaits st' conf x a"
  using grows_kind unfolding awaits_def by blast

lemma plan_components_ok:
  assumes gi: "\<forall>x c. bt_get (gi_components gi) x = Some c \<longrightarrow> c_id c = x" and conf: "conf_known conf st0" and wf: "pst_wf st0"
    and man: "\<forall>k s. pst_get st0 k = Some s \<longrightarrow> is_manual s" and S: "distinct S"
      "set S \<subseteq> dom (bt_get (gi_components gi))" "set S \<subseteq> dom (component_diff (pin_target_diff input))"
  defines "start \<equiv> (\<lparr>ck_mutations = [], ck_all_operations = [], ck_readiness = []\<rparr>, st0)"
  shows "no_abort (try_fold (plan_component digest input gi arts conf mcp) S start)"
    "try_fold (plan_component digest input gi arts conf mcp) S start = Inr keys_st \<Longrightarrow>
       planning_ok conf mcp gi arts (pin_target_diff input) st0 S keys_st"
proof -
  let ?I = "planning_ok conf mcp gi arts (pin_target_diff input) st0"
  have init: "?I [] start"
    using wf man by (auto simp: start_def planning_ok_def grows_refl planned_spec_def auxiliary_def bt_inv_def listed_def)
  have one: "no_abort (plan_component digest input gi arts conf mcp x a)"
    "plan_component digest input gi arts conf mcp x a = Inr a' \<Longrightarrow> ?I (ys @ [x]) a'"
    if "x \<in> set S" "x \<notin> set ys" "?I ys a" for x ys a a'
  proof -
    have known: "x \<in> dom (bt_get (gi_components gi))" "x \<in> dom (component_diff (pin_target_diff input))" using that(1) S(2,3) by auto
    have I: "?I ys (fst a, snd a)" using that(3) by simp
    show "no_abort (plan_component digest input gi arts conf mcp x a)"
      using plan_component_ok(1) [OF gi conf I that(2) known] by simp
    show "?I (ys @ [x]) a'" if "plan_component digest input gi arts conf mcp x a = Inr a'"
      using plan_component_ok(2) [OF gi conf I \<open>x \<notin> set ys\<close> known, of digest a'] that by simp
  qed
  show "no_abort (try_fold (plan_component digest input gi arts conf mcp) S start)"
    by (rule no_abort_prefix [where I = ?I]) (use init one S(1) in blast)+
  show "?I S keys_st" if "try_fold (plan_component digest input gi arts conf mcp) S start = Inr keys_st"
    using that by (rule try_fold_prefix [where I = ?I]) (use init one S(1) in blast)+
qed

lemma plan_specs_ok:
  assumes gi: "\<forall>x c. bt_get (gi_components gi) x = Some c \<longrightarrow> c_id c = x" and S: "distinct S"
      "set S \<subseteq> dom (bt_get (gi_components gi))" "set S \<subseteq> dom (component_diff (pin_target_diff input))"
    and rules: "\<forall>x \<in> set S. \<forall>c. bt_get (gi_components gi) x = Some c \<longrightarrow> c_verification c \<noteq> []"
  shows "no_abort (plan_specs digest rule_digest mcp input gi S arts)"
    "plan_specs digest rule_digest mcp input gi S arts = Inr st \<Longrightarrow> \<exists>conf K. specs_sound rule_digest mcp input gi S arts conf K st"
proof -
  let ?empty = "\<lparr>pst_specs = [], pst_manual_actions = [], pst_manual_operation_keys = [], pst_provider_operation_keys = []\<rparr> :: plan_state"
  let ?start = "\<lambda>st. (\<lparr>ck_mutations = [], ck_all_operations = [], ck_readiness = []\<rparr>, st)"
  let ?run = "plan_specs digest rule_digest mcp input gi S arts"
  have empty: "seed_ok (?empty, [])"
    by (simp add: seed_ok_def pst_wf_def specs_ok_def actions_ok_def pst_get_def kind_at_def conf_known_def bt_inv_def)
  have comps: "\<forall>x \<in> set S. \<exists>c. bt_get (gi_components gi) x = Some c \<and> c_id c = x \<and> c_verification c \<noteq> []"
    using S(2) gi rules by blast
  have main: "no_abort ?run \<and> (\<forall>st. ?run = Inr st \<longrightarrow> (\<exists>K. specs_sound rule_digest mcp input gi S arts conf K st))"
    if a: "seed_compatibility_confirmations digest (pin_compatibility input) S (pin_run_id input) (?empty, []) = Inr st1"
      and b: "seed_conflict_confirmations digest (pin_target_diff input) S (pin_run_id input) st1 = Inr (st2, conf)" for st1 st2 conf
  proof -
    note seeded = seeded_ok [OF a b empty]
    have seed: "pst_wf st2" "conf_known conf st2" "\<forall>k s. pst_get st2 k = Some s \<longrightarrow> is_manual s" using seeded(1) by (auto simp: seed_ok_def)
    note comp = plan_components_ok [OF gi seed(2,1,3) S, where digest = digest and arts = arts and mcp = mcp]
    let ?fold = "try_fold (plan_component digest input gi arts conf mcp) S (?start st2)"
    have run: "?run = try_bind ?fold (\<lambda>keys_st.
        try_bind (add_verification_operations digest rule_digest gi S keys_st) (\<lambda>(keys, st).
        add_dependency_prerequisites gi S mcp keys st))"
      using a b by (simp add: plan_specs_def)
    have rest: "no_abort ?run \<and> (\<forall>st. ?run = Inr st \<longrightarrow> (\<exists>K. specs_sound rule_digest mcp input gi S arts conf K st))"
      if f: "?fold = Inr (keys, st3)" for keys st3
    proof -
      have ok: "planning_ok conf mcp gi arts (pin_target_diff input) st2 S (keys, st3)" by (rule comp(2) [OF f])
      let ?K = "ck_mutations keys"
      have serve: "keys_serve x (listed ?K x) st3" for x
        by (rule serve_listed) (use ok in \<open>auto simp: planning_ok_def\<close>)
      have listed_dom: "\<forall>x. set (listed ?K x) \<subseteq> dom (pst_get st3)" using keys_serve_dom [OF serve] by blast
      have p3: "pst_wf st3" "bt_inv ?K" "ck_all_operations keys = ?K" and g3: "grows (\<lambda>_. True) st2 st3"
        and ready: "\<forall>x k. bt_get (ck_readiness keys) x = Some (Some k) \<longrightarrow> k \<in> set (listed ?K x)"
        and planned: "\<And>k s. pst_get st3 k = Some s \<Longrightarrow> planned_spec conf mcp gi arts (pin_target_diff input) ?K s"
        and handled: "\<And>x c diff. x \<in> set S \<Longrightarrow> bt_get (gi_components gi) x = Some c \<Longrightarrow>
            component_diff (pin_target_diff input) x = Some diff \<Longrightarrow> handled c diff \<Longrightarrow> \<exists>k. bt_get (ck_readiness keys) x = Some (Some k)"
        and domK: "dom (bt_get ?K) = set S"
        using ok unfolding planning_ok_def prod.case by blast+
      note ver = add_verifications_ok [OF comps p3 listed_dom ready equalityD2 [OF domK], where digest = digest and rule_digest = rule_digest]
      show ?thesis
      proof (cases "add_verification_operations digest rule_digest gi S (keys, st3)")
        case (Inl e)
        with ver(1) show ?thesis unfolding run f by (simp add: no_abort_def)
      next
        case (Inr keys_st)
        obtain keys' st4 where v: "add_verification_operations digest rule_digest gi S (keys, st3) = Inr (keys', st4)"
          using Inr by (cases keys_st) auto
        let ?all = "ck_all_operations keys'"
        have vo: "verifying_ok gi keys st3 (?all, st4)" and r': "ck_readiness keys' = ck_readiness keys"
          and chk: "\<And>x c rule. x \<in> set S \<Longrightarrow> bt_get (gi_components gi) x = Some c \<Longrightarrow> rule \<in> set (c_verification c) \<Longrightarrow> checked rule_digest x rule st4"
          using ver(2) [OF v] by blast+
        have wf4: "pst_wf st4" and g4: "grows (verifies gi ?K) st3 st4"
          and sub: "\<And>x. set (listed ?K x) \<subseteq> set (listed ?all x)" "\<And>x. set (listed ?all x) \<subseteq> dom (pst_get st4)"
          and cov: "\<And>k s. pst_get st4 k = Some s \<Longrightarrow> pst_get st3 k = None \<Longrightarrow> k \<in> set (listed ?all (spec_component s))"
          using vo by (auto simp: verifying_ok_def)
        have ready4: "k \<in> dom (pst_get st4)" if "bt_get (ck_readiness keys') x = Some (Some k)" for x k
          using that ready sub by (metis r' subsetD)
        obtain st5 where d: "try_fold (add_dependency_prerequisite keys') (dependency_pairs gi S mcp) st4 = Inr st5" "pst_wf st5"
          and g5: "grows (\<lambda>_. False) st4 st5"
          and edges: "\<And>x y k j. (x, y) \<in> set (dependency_pairs gi S mcp) \<Longrightarrow> bt_get (ck_readiness keys) y = Some (Some k) \<Longrightarrow>
             j \<in> set (listed ?all x) \<Longrightarrow> has_prereq (pst_specs st5) j k"
          using add_dependencies_edges [of st4 keys' "dependency_pairs gi S mcp"] wf4 sub(2) ready4 unfolding r' by blast
        have final: "?run = Inr st5" using v d(1) by (simp add: run f add_dependency_prerequisites_def)
        let ?N = "\<lambda>s. planned_spec conf mcp gi arts (pin_target_diff input) ?K s \<or> verifies gi ?K s"
        have mono: "spec_mono ?N" using spec_mono_planned spec_mono_verifies unfolding spec_mono_def by blast
        have kinds4: "?N s" if "pst_get st4 k = Some s" for k s
          by (rule grows_all [OF g4 mono _ _ that]) (use planned in auto)
        have kinds5: "?N s" if "pst_get st5 k = Some s" for k s
          by (rule grows_all [OF g5 mono _ _ that]) (use kinds4 in auto)
        have owned: "k \<in> set (listed ?all (spec_component s))" if s: "pst_get st4 k = Some s" "\<not> auxiliary s" for k s
        proof (cases "pst_get st3 k")
          case None
          with s show ?thesis using cov by blast
        next
          case (Some t)
          then obtain ps where ps: "s = t\<lparr>spec_prerequisites := ps\<rparr>" using g4 s(1) unfolding grows_def by fastforce
          then have aux: "\<not> auxiliary t" using s(2) by (auto simp: auxiliary_def is_manual_def is_provider_def)
          have "spec_key t = k" using p3(1) Some by (auto simp: pst_wf_def specs_ok_def)
          with planned [OF Some] aux have "k \<in> set (listed ?K (spec_component t))"
            by (auto simp: planned_spec_def mutation_spec_def listed_def)
          then show ?thesis using sub(1) ps by auto
        qed
        have dependency: "\<exists>k \<in> set (listed ?K y). \<forall>j s. pst_get st5 j = Some s \<and> spec_component s = x \<and> \<not> auxiliary s
             \<longrightarrow> k \<in> set (spec_prerequisites s)"
          if xy: "(x, y) \<in> dependency_rel gi S mcp" and c: "bt_get (gi_components gi) y = Some c"
            "component_diff (pin_target_diff input) y = Some diff" "handled c diff" for x y c diff
        proof -
          have pair: "(x, y) \<in> set (dependency_pairs gi S mcp)" "y \<in> set S" using xy dependency_pairs_ok(2,3) [of gi S mcp] by auto
          obtain k where k: "bt_get (ck_readiness keys) y = Some (Some k)" using handled [OF pair(2) c] by blast
          have "k \<in> set (spec_prerequisites s)" if s: "pst_get st5 j = Some s" "spec_component s = x" "\<not> auxiliary s" for j s
          proof -
            have "\<not> (pst_get st5 j = Some s \<and> pst_get st4 j = None)" using g5 unfolding grows_def by blast
            then have "pst_get st4 j \<noteq> None" using s(1) by (cases "pst_get st4 j") auto
            then obtain t ps where t: "pst_get st4 j = Some t" "s = t\<lparr>spec_prerequisites := ps\<rparr>"
              using g5 s(1) unfolding grows_def by fastforce
            then have "j \<in> set (listed ?all x)" using owned [OF t(1)] s(2,3) by (auto simp: auxiliary_def is_manual_def is_provider_def)
            from edges [OF pair(1) k this] show ?thesis using s(1) by (simp add: has_prereq_def pst_get_def)
          qed
          then show ?thesis using ready k by blast
        qed
        have awaited: "awaits st5 conf x a" if "a \<in> awaited_actions input S x" for x a
        proof -
          have "awaits st2 conf x a" using that seeded(2,3) unfolding awaited_actions_def by blast
          then show ?thesis using grows_awaits g3 g4 g5 by blast
        qed
        have serve5: "keys_serve x (listed ?K x) st5" for x using grows_serve serve g4 g5 by blast
        have chk5: "checked rule_digest x rule st5" if "x \<in> set S" "bt_get (gi_components gi) x = Some c" "rule \<in> set (c_verification c)" for x c rule
          using grows_checked [OF g5 chk [OF that]] .
        have "specs_sound rule_digest mcp input gi S arts conf ?K st5"
          unfolding specs_sound_def
          by (intro conjI d(2) domK) (use serve5 kinds5 awaited chk5 dependency in blast)+
        then show ?thesis using final by auto
      qed
    qed
    show ?thesis
    proof (cases ?fold)
      case (Inl e)
      with comp(1) show ?thesis unfolding run by (simp add: no_abort_def)
    next
      case (Inr keys_st)
      then show ?thesis using rest [of "fst keys_st" "snd keys_st"] by simp
    qed
  qed
  let ?compat = "seed_compatibility_confirmations digest (pin_compatibility input) S (pin_run_id input) (?empty, [])"
  let ?conflict = "seed_conflict_confirmations digest (pin_target_diff input) S (pin_run_id input)"
  have early: "(\<exists>st1 st2 conf. ?compat = Inr st1 \<and> ?conflict st1 = Inr (st2, conf)) \<or> (\<exists>e. ?run = Inl (Fail e))"
  proof (cases ?compat)
    case (Inl e)
    then show ?thesis by (auto simp: plan_specs_def lift_fail_def)
  next
    case (Inr st1)
    then show ?thesis by (cases "?conflict st1") (auto simp: plan_specs_def lift_fail_def)
  qed
  show "no_abort ?run" using early main by (auto simp: no_abort_def)
  show "\<exists>conf K. specs_sound rule_digest mcp input gi S arts conf K st" if "?run = Inr st"
    using early main that by (metis Inl_Inr_False)
qed

end
