(* ===== verification/PlanGuarantees.thy ===== *)
theory PlanGuarantees
  imports PlannerSafety
begin

text \<open>
  What a restore plan guarantees, stated over its operations: the plan is gated by trust, conflicts
  and blockers, its selection is closed, every automatic operation is justified and waits for the
  user's confirmations, verification follows the changes it checks, and dependencies come first.
\<close>

subsection \<open>Operations realise specifications\<close>

definition realises :: "(str \<Rightarrow> OperationId) \<Rightarrow> OperationSpec \<Rightarrow> Operation \<Rightarrow> bool" where
  "realises opk s operation \<longleftrightarrow> op_component operation = spec_component s \<and> op_kind operation = spec_kind s
     \<and> op_id operation = opk (spec_key s) \<and> opk ` set (spec_prerequisites s) \<subseteq> set (op_prerequisites operation)"

lemma planned_operations_realise:
  assumes wf: "specs_wf specs" and key: "\<forall>k s. bt_get specs k = Some s \<longrightarrow> spec_key s = k"
    and t: "topological_order uuid_parse (order_overlapping_writes specs) run_id first = Inr ops"
  shows "\<exists>opk. (\<forall>operation \<in> set ops. \<exists>k s. bt_get specs k = Some s \<and> realises opk s operation)
    \<and> (\<forall>k s. bt_get specs k = Some s \<longrightarrow> (\<exists>operation \<in> set ops. realises opk s operation))"
proof -
  let ?s = "order_overlapping_writes specs"
  let ?keys = "sorted_keys ?s"
  have inv: "bt_inv specs" using wf by (simp add: specs_wf_def)
  note ext = order_overlapping_extends [OF inv]
  have wf': "specs_wf ?s" by (rule extends_wf [OF wf ext])
  obtain D id_by_key dependents remaining indegree where
    st: "topo_setup ?s ?keys id_by_key (\<lambda>i. opid run_id (first + i)) dependents"
    and ti: "topo_inv ?s ?keys D [] remaining indegree" and len: "length D = length ?s"
    and ops: "ops = map (built_operation run_id ?s ?keys id_by_key (\<lambda>i. opid run_id (first + i))) D"
    by (rule topological_order_stages [OF wf' t])
  let ?built = "built_operation run_id ?s ?keys id_by_key (\<lambda>i. opid run_id (first + i))"
  let ?opk = "\<lambda>k. the (bt_get id_by_key k)"
  note D = full_order [OF wf' ti len]
  have inv': "bt_inv ?s" using wf' by (simp add: specs_wf_def)
  note keys = sorted_keys_perm [OF inv']
  have at: "realises ?opk s (?built i)" if i: "i < length ?keys" and s: "bt_get specs (?keys ! i) = Some s" for i s
  proof -
    obtain ps where "bt_get ?s (?keys ! i) = Some (s\<lparr>spec_prerequisites := ps\<rparr>)" "set (spec_prerequisites s) \<subseteq> set ps"
      using ext s unfolding extends_def by blast
    moreover have "bt_get id_by_key (?keys ! i) = Some (opid run_id (first + i))" using st i by (simp add: topo_setup_def)
    moreover have "spec_key s = ?keys ! i" using key s by blast
    ultimately show ?thesis by (auto simp: realises_def built_operation_def spec_at_def Let_def)
  qed
  have dom: "dom (bt_get ?s) = dom (bt_get specs)" using ext by (simp add: extends_def)
  have "\<exists>k s. bt_get specs k = Some s \<and> realises ?opk s operation" if o: "operation \<in> set ops" for operation
  proof -
    obtain i where i: "i < length ?keys" "operation = ?built i" using o D(1) keys(3) by (auto simp: ops)
    then have "?keys ! i \<in> dom (bt_get specs)" using keys(2) dom nth_mem by metis
    then show ?thesis using at [OF i(1)] i(2) by auto
  qed
  moreover have "\<exists>operation \<in> set ops. realises ?opk s operation" if s: "bt_get specs k = Some s" for k s
  proof -
    have "k \<in> set ?keys" using keys(2) dom s by auto
    then obtain i where i: "i < length ?keys" "?keys ! i = k" by (auto simp: in_set_conv_nth)
    then have "i \<in> set D" using D(1) keys(3) by simp
    then show ?thesis using at [OF i(1)] i(2) s by (auto simp: ops)
  qed
  ultimately show ?thesis by (intro exI [of _ ?opk]) blast
qed

lemma pst_specs_wf:
  assumes "pst_wf st"
  shows "specs_wf (pst_specs st)" "\<forall>k s. bt_get (pst_specs st) k = Some s \<longrightarrow> spec_key s = k"
proof -
  have inv: "bt_inv (pst_specs st)" and ok: "\<And>k s. bt_get (pst_specs st) k = Some s \<Longrightarrow> spec_key s = k \<and> distinct (spec_prerequisites s)"
    using assms by (auto simp: pst_wf_def specs_ok_def pst_get_def)
  have "distinct (spec_prerequisites s)" if "(k, s) \<in> set (pst_specs st)" for k s
    using ok map_of_is_SomeI [OF bt_inv_distinct [OF inv, THEN conjunct2] that] by blast
  then show "specs_wf (pst_specs st)" using inv by (auto simp: specs_wf_def list_all_iff)
  show "\<forall>k s. bt_get (pst_specs st) k = Some s \<longrightarrow> spec_key s = k" using ok by blast
qed

subsection \<open>The stages of planning\<close>

lemma plan_stages:
  assumes "plan digest rule_digest uuid_parse planner input = Inr p"
  obtains gi S arts closing_warnings warnings st ops where
    "require_plan_approval (pin_trust input) = Inr ()" "GraphIndex_build (pin_graph input) = Inr gi"
    "close_selection gi (pin_selection input) (rpl_mcp_servers planner) = Inr (S, arts, closing_warnings)"
    "validate_dependency_cycles gi S (rpl_mcp_servers planner) = Inr ()" "validate_target_inputs input S = Inr ()"
    "plan_specs digest rule_digest (rpl_mcp_servers planner) input gi S arts = Inr st" "length (pst_specs st) \<le> MAX_PLAN_OPERATIONS"
    "topological_order uuid_parse (order_overlapping_writes (pst_specs st)) (pin_run_id input) (rpl_first_ordinal planner) = Inr ops"
    "validate_restore_plan p (pin_object_index input) = Inr ()"
    "p = \<lparr>rp_format_version = PLAN_FORMAT_VERSION, rp_run_id = pin_run_id input,
          rp_package_id = pin_package_id input, rp_mode = pin_mode input,
          rp_target_fingerprint = pin_target_fingerprint input, rp_selected_components = S,
          rp_operations = ops, rp_conflicts = relevant_conflicts (td_conflicts (pin_target_diff input)) S,
          rp_manual_actions = map snd (pst_manual_actions st), rp_warnings = warnings\<rparr>"
proof -
  from assms obtain gi S arts w0 warnings st ops where
    a: "lift_fail (require_plan_approval (pin_trust input)) = Inr ()" "GraphIndex_build (pin_graph input) = Inr gi"
      "close_selection gi (pin_selection input) (rpl_mcp_servers planner) = Inr (S, arts, w0)"
      "validate_dependency_cycles gi S (rpl_mcp_servers planner) = Inr ()" "validate_target_inputs input S = Inr ()"
      "plan_specs digest rule_digest (rpl_mcp_servers planner) input gi S arts = Inr st" "\<not> length (pst_specs st) > MAX_PLAN_OPERATIONS"
      "topological_order uuid_parse (order_overlapping_writes (pst_specs st)) (pin_run_id input) (rpl_first_ordinal planner) = Inr ops"
    and p: "p = \<lparr>rp_format_version = PLAN_FORMAT_VERSION, rp_run_id = pin_run_id input,
          rp_package_id = pin_package_id input, rp_mode = pin_mode input,
          rp_target_fingerprint = pin_target_fingerprint input, rp_selected_components = S,
          rp_operations = ops, rp_conflicts = relevant_conflicts (td_conflicts (pin_target_diff input)) S,
          rp_manual_actions = map snd (pst_manual_actions st), rp_warnings = warnings\<rparr>"
    and v: "plan_validated p (pin_object_index input) = Inr ()"
    by (auto simp: plan_def Let_def try_bind_Inr split: if_splits)
  have "validate_restore_plan p (pin_object_index input) = Inr ()"
    using v by (auto simp: plan_validated_def split: sum.splits abort.splits)
  with a p show thesis by (intro that) (auto simp: not_less)
qed

lemma plan_no_abort: "no_abort (plan digest rule_digest uuid_parse planner input)"
proof -
  let ?mcp = "rpl_mcp_servers planner"
  have validated: "no_abort (plan_validated q oi)" for q oi
    using validate_restore_plan_no_abort [of q oi] by (auto simp: plan_validated_def no_abort_def split: sum.splits abort.splits)
  have specs: "no_abort (plan_specs digest rule_digest ?mcp input gi S arts)"
    "plan_specs digest rule_digest ?mcp input gi S arts = Inr st \<Longrightarrow> pst_wf st"
    if "GraphIndex_build (pin_graph input) = Inr gi" "close_selection gi (pin_selection input) ?mcp = Inr (S, arts, w)"
      "validate_target_inputs input S = Inr ()" for gi S arts w st
  proof -
    have g: "graph_indexed (pin_graph input) gi" by (rule graph_index_ok [OF that(1)])
    then have ids: "\<forall>x c. bt_get (gi_components gi) x = Some c \<longrightarrow> c_id c = x" by (auto simp: graph_indexed_def components_index_def)
    note closed = close_selection_ok(2) [OF g that(2)]
    have diffs: "set S \<subseteq> dom (component_diff (pin_target_diff input))"
      using that(3) by (auto simp: validate_target_inputs_def Let_def list_ex_iff split: if_splits)
    note ok = plan_specs_ok [OF ids _ _ diffs, of digest rule_digest ?mcp arts]
    show "no_abort (plan_specs digest rule_digest ?mcp input gi S arts)" using ok(1) closed by blast
    show "pst_wf st" if "plan_specs digest rule_digest ?mcp input gi S arts = Inr st"
      using ok(2) [OF _ _ _ that] closed unfolding specs_sound_def by blast
  qed
  have order: "no_abort (topological_order uuid_parse (order_overlapping_writes (pst_specs st)) run_id first)" if "pst_wf st" for st run_id first
  proof -
    have "specs_wf (order_overlapping_writes (pst_specs st))"
      using extends_wf [OF pst_specs_wf(1) [OF that] order_overlapping_extends] pst_specs_wf(1) [OF that] by (simp add: specs_wf_def)
    then show ?thesis using topological_order_only_fails by (auto simp: no_abort_def)
  qed
  have cycles: "no_abort (validate_dependency_cycles gi S ?mcp)"
    if "GraphIndex_build (pin_graph input) = Inr gi" "close_selection gi (pin_selection input) ?mcp = Inr (S, arts, w)" for gi S arts w
    using close_selection_ok(2) [OF graph_index_ok [OF that(1)] that(2)] by (intro validate_dependency_cycles_ok(1)) blast
  have closing: "no_abort (close_selection gi (pin_selection input) ?mcp)" if "GraphIndex_build (pin_graph input) = Inr gi" for gi
    by (rule close_selection_ok(1) [OF graph_index_ok [OF that]])
  show ?thesis
    unfolding plan_def Let_def by (auto intro!: no_abort_bind closing cycles specs(1) order specs(2) validated)
qed

subsection \<open>What the operations of a plan satisfy\<close>

text \<open>An operation that changes the target: not a manual action, a provider or a verification.\<close>

definition changes_target :: "OperationKind \<Rightarrow> bool" where
  "changes_target kind \<longleftrightarrow> (case kind of OpenManualAction _ \<Rightarrow> False | EnsureProvider _ \<Rightarrow> False | OperationKind.Verify _ \<Rightarrow> False | _ \<Rightarrow> True)"

lemma changes_target_iff:
  "changes_target kind \<longleftrightarrow> (\<forall>a. kind \<noteq> OpenManualAction a) \<and> (\<forall>p. kind \<noteq> EnsureProvider p) \<and> (\<forall>r. kind \<noteq> OperationKind.Verify r)"
  by (cases kind) (auto simp: changes_target_def)

lemma justified_changes: "justified mcp artifacts c diff kind \<Longrightarrow> changes_target kind"
  unfolding changes_target_iff justified_def using primary_not_manual artifact_row_kinds by (metis OperationKind.distinct)

definition selected_artifacts_of :: "PlannerInput \<Rightarrow> Component \<Rightarrow> ArtifactRef list" where
  "selected_artifacts_of input c = filter (\<lambda>a. art_id a \<in> set (sc_selected_artifacts (pin_selection input))) (c_artifacts c)"

lemma map_filter_mem: "x \<in> set (List.map_filter f xs) \<longleftrightarrow> (\<exists>y \<in> set xs. f y = Some x)"
  by (force simp: List.map_filter_def)

lemma component_artifacts_selected:
  assumes "graph_indexed g gi" "bt_get (gi_components gi) x = Some c" "set arts = set (sc_selected_artifacts (pin_selection input))"
  shows "set (component_artifacts (c_id c) arts (gi_artifacts gi)) \<subseteq> set (selected_artifacts_of input c)"
proof
  fix artifact assume "artifact \<in> set (component_artifacts (c_id c) arts (gi_artifacts gi))"
  then obtain i where i: "i \<in> set arts" "bt_get (gi_artifacts gi) i = Some (c_id c, artifact)"
    unfolding component_artifacts_def set_sort map_filter_mem by (auto split: option.splits if_splits)
  have "artifacts_index (g_components g) (gi_artifacts gi)" "components_index (g_components g) (gi_components gi)"
    using assms(1) by (auto simp: graph_indexed_def)
  then obtain d where d: "d \<in> set (g_components g)" "c_id d = c_id c" "artifact \<in> set (c_artifacts d)" "art_id artifact = i"
    and c: "c \<in> set (g_components g)" "distinct (map c_id (g_components g))"
    using i(2) assms(2) unfolding artifacts_index_def components_index_def by blast
  then have "d = c" by (metis distinct_map inj_onD)
  with d i assms(3) show "artifact \<in> set (selected_artifacts_of input c)" by (simp add: selected_artifacts_of_def)
qed

lemma justified_mono: "justified mcp xs c diff kind \<Longrightarrow> set xs \<subseteq> set ys \<Longrightarrow> justified mcp ys c diff kind"
  unfolding justified_def by blast

text \<open>Everything planning establishes about a plan, over the specifications its operations realise.\<close>

lemma plan_realised:
  assumes "plan digest rule_digest uuid_parse planner input = Inr p" "GraphIndex_build (pin_graph input) = Inr gi"
  obtains arts conf K st opk where
    "set arts = set (sc_selected_artifacts (pin_selection input))"
    "specs_sound rule_digest (rpl_mcp_servers planner) input gi (rp_selected_components p) arts conf K st"
    "\<forall>operation \<in> set (rp_operations p). \<exists>k s. pst_get st k = Some s \<and> realises opk s operation"
    "\<forall>k s. pst_get st k = Some s \<longrightarrow> (\<exists>operation \<in> set (rp_operations p). realises opk s operation)"
    "rp_manual_actions p = map snd (pst_manual_actions st)"
proof -
  let ?mcp = "rpl_mcp_servers planner"
  from plan_stages [OF assms(1)] obtain gi' S arts w0 warnings st ops where
    a: "GraphIndex_build (pin_graph input) = Inr gi'" "close_selection gi' (pin_selection input) ?mcp = Inr (S, arts, w0)"
      "validate_target_inputs input S = Inr ()" "plan_specs digest rule_digest ?mcp input gi' S arts = Inr st"
      "topological_order uuid_parse (order_overlapping_writes (pst_specs st)) (pin_run_id input) (rpl_first_ordinal planner) = Inr ops"
    and p: "rp_selected_components p = S" "rp_operations p = ops" "rp_manual_actions p = map snd (pst_manual_actions st)"
    by (metis RestorePlan.select_convs(6,7,9))
  have gi: "gi' = gi" using a(1) assms(2) by simp
  have g: "graph_indexed (pin_graph input) gi" by (rule graph_index_ok [OF assms(2)])
  then have ids: "\<forall>x c. bt_get (gi_components gi) x = Some c \<longrightarrow> c_id c = x" by (auto simp: graph_indexed_def components_index_def)
  note closed = close_selection_ok(2) [OF g a(2) [unfolded gi]]
  have diffs: "set S \<subseteq> dom (component_diff (pin_target_diff input))"
    using a(3) by (auto simp: validate_target_inputs_def Let_def list_ex_iff split: if_splits)
  have "\<exists>conf K. specs_sound rule_digest ?mcp input gi S arts conf K st"
    by (rule plan_specs_ok(2) [OF ids _ _ diffs _ a(4) [unfolded gi]]) (use closed in blast)+
  then obtain conf K where sound: "specs_sound rule_digest ?mcp input gi S arts conf K st" by blast
  then have wf: "pst_wf st" by (simp add: specs_sound_def)
  obtain opk where "\<forall>operation \<in> set ops. \<exists>k s. pst_get st k = Some s \<and> realises opk s operation"
    "\<forall>k s. pst_get st k = Some s \<longrightarrow> (\<exists>operation \<in> set ops. realises opk s operation)"
    using planned_operations_realise [OF pst_specs_wf [OF wf] a(5)] unfolding pst_get_def by blast
  with closed sound show thesis using p by (intro that [of arts conf K st opk]) blast+
qed

text \<open>The specification behind an operation that changes the target, and behind a verification.\<close>

lemma realised_change:
  assumes "specs_sound rule_digest mcp input gi S arts conf K st" "pst_get st k = Some s" "realises opk s operation"
    "changes_target (op_kind operation)"
  obtains c diff where "bt_get (gi_components gi) (op_component operation) = Some c" "op_component operation \<in> set S"
    "component_diff (pin_target_diff input) (op_component operation) = Some diff"
    "justified mcp (component_artifacts (c_id c) arts (gi_artifacts gi)) c diff (op_kind operation)" "confirmed conf s"
    "spec_key s \<in> set (listed K (op_component operation))" "\<not> auxiliary s"
proof -
  have aux: "\<not> auxiliary s" "\<not> verifies gi K s"
    using assms(3,4) by (auto simp: realises_def changes_target_iff auxiliary_def is_manual_def is_provider_def verifies_def)
  have "planned_spec conf mcp gi arts (pin_target_diff input) K s \<or> verifies gi K s" "dom (bt_get K) = set S"
    using assms(1,2) unfolding specs_sound_def by blast+
  with aux assms(3) show thesis
    unfolding planned_spec_def mutation_spec_def realises_def by (auto intro!: that simp: listed_def)
qed

lemma realised_verification:
  assumes "specs_sound rule_digest mcp input gi S arts conf K st" "pst_get st k = Some s" "realises opk s operation"
    "op_kind operation = OperationKind.Verify rule"
  obtains c where "bt_get (gi_components gi) (op_component operation) = Some c" "op_component operation \<in> set S"
    "rule \<in> set (c_verification c)" "set (listed K (op_component operation)) \<subseteq> set (spec_prerequisites s)" "\<not> auxiliary s"
proof -
  have aux: "\<not> auxiliary s" using assms(3,4) by (auto simp: realises_def auxiliary_def is_manual_def is_provider_def)
  have "\<not> mutation_spec conf mcp a c diff keys s" for a c diff keys
    using assms(3,4) justified_changes [of mcp a c diff "spec_kind s"] by (metis changes_target_iff mutation_spec_def realises_def)
  moreover have "planned_spec conf mcp gi arts (pin_target_diff input) K s \<or> verifies gi K s" "dom (bt_get K) = set S"
    using assms(1,2) unfolding specs_sound_def by blast+
  ultimately have "verifies gi K s" "dom (bt_get K) = set S" using aux by (auto simp: planned_spec_def)
  with aux assms(3,4) show thesis unfolding verifies_def realises_def by (auto intro!: that)
qed

lemma graph_component:
  "GraphIndex_build g = Inr gi \<Longrightarrow> bt_get (gi_components gi) x = Some c \<Longrightarrow> c \<in> set (g_components g) \<and> c_id c = x"
  using graph_index_ok by (auto simp: graph_indexed_def components_index_def)

lemma try_fold_each: "try_fold f xs s = Inr s' \<Longrightarrow> x \<in> set xs \<Longrightarrow> \<exists>a a'. f x a = Inr a'"
  by (induction xs arbitrary: s) (auto simp: result_simps)

lemma planned_not_blocked:
  assumes "plan_specs digest rule_digest mcp input gi S arts = Inr st" "x \<in> set S"
  shows "\<exists>diff. component_diff (pin_target_diff input) x = Some diff \<and> cd_disposition diff \<noteq> ComponentDisposition.Blocked"
proof -
  obtain conf s0 r where "try_fold (plan_component digest input gi arts conf mcp) S s0 = Inr r"
    using assms(1) by (auto simp: plan_specs_def Let_def try_bind_Inr)
  from try_fold_each [OF this assms(2)] obtain a a' where "plan_component digest input gi arts conf mcp x a = Inr a'" by blast
  then show ?thesis
    by (cases a) (auto simp: plan_component_def build_component_operations_def try_bind_Inr split: if_splits)
qed

end
