(* ===== verification/PlanSample.thy ===== *)
theory PlanSample
  imports PlanGuarantees
begin

text \<open>
  A package the planner accepts, worked out to its plan: the inputs on which the theorems about
  plans are applied.
\<close>

subsection \<open>A sample plan\<close>

text \<open>
  Settings that need a base configuration: both merge a JSON file, the settings after the user
  confirmed a compatibility warning. Only the settings are selected.
\<close>

definition planned_artifact :: "str \<Rightarrow> ArtifactRef" where
  "planned_artifact name = \<lparr>art_id = name, art_source_path = \<lparr>pt_root = UserProfile, pt_relative = name\<rparr>,
     art_scope = ConfigScope.User, art_size_bytes = 10, art_content_type = Json, art_policy = Config, art_object = Some ''o''\<rparr>"

definition planned_component :: "ComponentId \<Rightarrow> ComponentId option \<Rightarrow> Component" where
  "planned_component i runtime = (package_component i None [] [planned_artifact i])
     \<lparr>c_kind := Configuration, c_verification := [ConfigParses \<lparr>pt_root = UserProfile, pt_relative = i\<rparr> Json],
      c_compatibility := \<lparr>cmp_required_os = None, cmp_required_architecture = None, cmp_requires_provider = None,
        cmp_requires_runtime = runtime, cmp_requires_elevation = False, cmp_requires_wsl = False, cmp_requires_docker = False\<rparr>\<rparr>"

definition planned_diff :: "ComponentId \<Rightarrow> ComponentDiff" where
  "planned_diff i = \<lparr>cd_component = i, cd_disposition = ComponentDisposition.Install, cd_target_present = False, cd_conflict_ids = []\<rparr>"

definition sample_confirmation :: Confirmation where
  "sample_confirmation = \<lparr>cn_id = ''c'', cn_component = Some ''s'', cn_reason = ''r'', cn_risk = RiskLevel.Low\<rparr>"

definition sample_input :: PlannerInput where
  "sample_input = \<lparr>pin_run_id = ''run'', pin_package_id = ''p'', pin_mode = RestoreMode.Rebuild, pin_target_fingerprint = ''t'',
     pin_graph = \<lparr>g_components = [planned_component ''b'' None, planned_component ''s'' (Some ''b'')], g_edges = []\<rparr>,
     pin_selection = \<lparr>sc_selected_components = [''s''], sc_selected_artifacts = [''b'', ''s''], sc_auto_added_dependencies = [],
       sc_total_bytes = 0, sc_warnings = []\<rparr>,
     pin_trust = UserApproved,
     pin_target_diff = \<lparr>td_components = [planned_diff ''b'', planned_diff ''s''], td_conflicts = [], td_blocking_conflict_ids = [],
       td_backup_requirements = [], td_preserved_target = [], td_preserved_runtimes = [], td_preserved_environment = [], td_warnings = []\<rparr>,
     pin_compatibility = \<lparr>cr_status = RequiresConfirmation, cr_blockers = [], cr_confirmations = [sample_confirmation], cr_warnings = []\<rparr>,
     pin_object_index = \<lparr>oi_objects = [\<lparr>oe_id = ''o'', oe_uncompressed_bytes = 10, oe_compressed_bytes = 10, oe_content_type = Json\<rparr>]\<rparr>\<rparr>"

definition sample_kind_digest :: kind_digest where
  "sample_kind_digest kind = Some (case kind of OpenManualAction _ \<Rightarrow> ''a'' | OperationKind.Verify _ \<Rightarrow> ''v'' | _ \<Rightarrow> ''m'')"

definition sample_rule_digest :: "VerificationRule \<Rightarrow> str option" where
  "sample_rule_digest rule = Some ''r''"

definition sample_gi :: GraphIndex where
  "sample_gi = \<lparr>gi_components = [(''b'', planned_component ''b'' None), (''s'', planned_component ''s'' (Some ''b''))],
     gi_artifacts = [(''b'', ''b'', planned_artifact ''b''), (''s'', ''s'', planned_artifact ''s'')], gi_outgoing = []\<rparr>"

lemma sample_id_order: "(''b'' :: str) < ''s''" "\<not> (''s'' :: str) < ''b''" "(''b'' :: str) \<le> ''s''" "\<not> (''s'' :: str) \<le> ''b''"
  by (simp_all add: less_char_def less_eq_char_def)

lemmas planned_defs = planned_component_def package_component_def planned_artifact_def planned_diff_def

lemma sample_index: "GraphIndex_build (pin_graph sample_input) = Inr sample_gi"
  by (simp add: sample_input_def sample_gi_def GraphIndex_build_def index_graph_component_def index_graph_artifact_def planned_defs
      graph_edges_def PathToken_validate_def normalize_relative_path_def NUL_def starts_with_def is_separator_def sample_id_order)

lemma sample_closed: "\<exists>w. close_selection sample_gi (pin_selection sample_input) [] = Inr ([''b'', ''s''], [''b'', ''s''], [w])"
  by (simp add: close_selection_def sample_input_def sample_gi_def select_root_def select_plan_artifact_def close_source_def outgoing_edges_def required_runtime_def queue_component_def
      planned_defs insort_insert_key_def sample_id_order)

lemma sample_cycles: "validate_dependency_cycles sample_gi [''b'', ''s''] [] = Inr ()"
  by (simp add: validate_dependency_cycles_def dependency_pairs_def dependency_targets_def sample_gi_def outgoing_edges_def required_runtime_def option_as_list_def planned_defs insort_insert_key_def sample_id_order
    count_dependency_def checked_add_u64_def u64_max_def bt_modify_def release_child_def)

definition sample_action :: ManualAction where
  "sample_action = run_action ''run'' (compatibility_manual_action sample_confirmation)"

definition sample_merge :: "ComponentId \<Rightarrow> str list \<Rightarrow> OperationSpec" where
  "sample_merge i prerequisites = (make_spec (''restore-v1:'' @ i @ '':m'') i (MergeJson \<lparr>pt_root = UserProfile, pt_relative = i\<rparr> ''o'' PreserveUnknown)
     FileRestore (ArtifactPresent ''o'') [ConfigParses \<lparr>pt_root = UserProfile, pt_relative = i\<rparr> Json] False False)\<lparr>spec_prerequisites := prerequisites\<rparr>"

definition sample_verify :: "ComponentId \<Rightarrow> str list \<Rightarrow> OperationSpec" where
  "sample_verify i prerequisites = (make_spec (''restore-v1:'' @ i @ '':v'') i (OperationKind.Verify (ConfigParses \<lparr>pt_root = UserProfile, pt_relative = i\<rparr> Json))
     OperationPhase.Verify Always [] False False)\<lparr>spec_prerequisites := prerequisites\<rparr>"

definition sample_state :: "spec_map \<Rightarrow> plan_state" where
  "sample_state specs = \<lparr>pst_specs = specs, pst_manual_actions = [(ma_id sample_action, sample_action)],
     pst_manual_operation_keys = [(ma_id sample_action, ''restore-v1:s:a'')], pst_provider_operation_keys = []\<rparr>"

definition sample_open :: "str \<times> OperationSpec" where
  "sample_open = (''restore-v1:s:a'', make_spec ''restore-v1:s:a'' ''s'' (OpenManualAction sample_action) OperationPhase.Manual Always [] False False)"

lemma sample_seed:
  "seed_compatibility_confirmations sample_kind_digest (pin_compatibility sample_input) [''b'', ''s''] ''run''
     (\<lparr>pst_specs = [], pst_manual_actions = [], pst_manual_operation_keys = [], pst_provider_operation_keys = []\<rparr>, [])
   = Inr (sample_state [sample_open], [(''s'', [''restore-v1:s:a''])])"
proof -
  have a: "ma_risk sample_action = RiskLevel.Low" "ma_verification sample_action = None"
    by (simp_all add: sample_action_def run_action_def compatibility_manual_action_def pending_action_def sample_confirmation_def)
  have "add_manual_action_operation sample_kind_digest (compatibility_manual_action sample_confirmation) ''s'' ''run''
      \<lparr>pst_specs = [], pst_manual_actions = [], pst_manual_operation_keys = [], pst_provider_operation_keys = []\<rparr>
    = Inr (''restore-v1:s:a'', sample_state [sample_open])"
    unfolding add_manual_action_operation_def run_action_def [symmetric] sample_action_def [symmetric]
    by (simp add: Let_def a OperationSpec_new_def derive_idempotency_key_def sample_kind_digest_def insert_spec_def option_as_list_def
        sample_state_def sample_open_def make_spec_def)
  then show ?thesis
    by (simp add: seed_compatibility_confirmations_def seed_confirmation_def sample_input_def push_confirmation_key_def) (simp add: sample_confirmation_def push_confirmation_key_def)
qed

lemma sample_seeded:
  "seed_conflict_confirmations sample_kind_digest (pin_target_diff sample_input) [''b'', ''s''] ''run'' (st, [(''s'', [k])]) = Inr (st, [(''s'', [k])])"
  by (simp add: seed_conflict_confirmations_def relevant_conflicts_def sample_input_def)

lemma sample_component:
  assumes "runtime = None \<or> runtime = Some ''b''" "bt_get specs (''restore-v1:'' @ i @ '':m'') = None" "i = ''b'' \<or> i = ''s''"
  shows "build_component_operations sample_kind_digest (planned_component i runtime) ''run'' (planned_diff i) [''b'', ''s''] (gi_artifacts sample_gi)
     [(''s'', [k])] [] (sample_state specs) = Inr (\<lparr>co_mutation_keys = [''restore-v1:'' @ i @ '':m''], co_readiness_key = Some (''restore-v1:'' @ i @ '':m'')\<rparr>,
       sample_state (bt_insert (''restore-v1:'' @ i @ '':m'') (sample_merge i (if i = ''s'' then [k] else [])) specs))"
  using assms(2,3)
  by (elim disjE) (simp_all add: build_component_operations_def requires_manual_def planned_defs add_primary_operation_def primary_operation_def
    require_primary_provider_def component_artifacts_def sample_gi_def List.map_filter_simps add_component_artifact_def add_artifact_operation_def
    PathToken_validate_def normalize_relative_path_def NUL_def starts_with_def is_separator_def Let_def special_operation_def artifact_row_def schedule_artifact_def
    OperationSpec_new_def derive_idempotency_key_def sample_kind_digest_def insert_spec_def add_confirmation_prerequisites_def add_prerequisites_def add_prerequisite_def
    artifact_provider_def add_mcp_registration_def no_operations_def artifact_verification_def merge_policy_def insort_insert_key_def sample_merge_def make_spec_def sample_state_def)

lemma sample_diffs: "component_diff (pin_target_diff sample_input) ''b'' = Some (planned_diff ''b'')"
    "component_diff (pin_target_diff sample_input) ''s'' = Some (planned_diff ''s'')"
  by (simp_all add: component_diff_def sample_input_def planned_diff_def)

definition sample_keys_of :: component_keys where
  "sample_keys_of = (let keys = [(''b'', [''restore-v1:b:m'']), (''s'', [''restore-v1:s:m''])] in
     \<lparr>ck_mutations = keys, ck_all_operations = keys,
      ck_readiness = [(''b'', Some ''restore-v1:b:m''), (''s'', Some ''restore-v1:s:m'')]\<rparr>)"

lemma sample_order: "(''restore-v1:b:m'' :: str) < ''restore-v1:b:v''" "(''restore-v1:b:v'' :: str) < ''restore-v1:s:a''"
  "(''restore-v1:s:a'' :: str) < ''restore-v1:s:m''" "(''restore-v1:s:m'' :: str) < ''restore-v1:s:v''"
  by (simp_all add: less_char_def)

lemma sample_plan_components:
  "try_fold (plan_component sample_kind_digest sample_input sample_gi [''b'', ''s''] [(''s'', [''restore-v1:s:a''])] []) [''b'', ''s'']
     (\<lparr>ck_mutations = [], ck_all_operations = [], ck_readiness = []\<rparr>, sample_state [sample_open])
   = Inr (sample_keys_of, sample_state [(''restore-v1:b:m'', sample_merge ''b'' []), sample_open,
       (''restore-v1:s:m'', sample_merge ''s'' [''restore-v1:s:a''])])"
proof -
  have gi: "bt_get (gi_components sample_gi) ''b'' = Some (planned_component ''b'' None)"
    "bt_get (gi_components sample_gi) ''s'' = Some (planned_component ''s'' (Some ''b''))" by (simp_all add: sample_gi_def)
  have run: "pin_run_id sample_input = ''run''" by (simp add: sample_input_def)
  note b = sample_component [of None "[sample_open]" "''b''" "''restore-v1:s:a''"]
    and c = sample_component [of "Some ''b''" "[(''restore-v1:b:m'', sample_merge ''b'' []), sample_open]" "''s''" "''restore-v1:s:a''"]
  obtain spec where o: "sample_open = (''restore-v1:s:a'', spec)" by (simp add: sample_open_def)
  show ?thesis
    using b c sample_order by (simp add: plan_component_def gi run sample_diffs sample_keys_of_def Let_def sample_id_order o)
qed

lemma sample_verified:
  "add_verification_operations sample_kind_digest sample_rule_digest sample_gi [''b'', ''s'']
     (sample_keys_of, sample_state [(''restore-v1:b:m'', sample_merge ''b'' []), sample_open, (''restore-v1:s:m'', sample_merge ''s'' ps)])
   = Inr (sample_keys_of\<lparr>ck_all_operations := [(''b'', [''restore-v1:b:m'', ''restore-v1:b:v'']), (''s'', [''restore-v1:s:m'', ''restore-v1:s:v''])]\<rparr>,
       sample_state [(''restore-v1:b:m'', sample_merge ''b'' []), (''restore-v1:b:v'', sample_verify ''b'' [''restore-v1:b:m'']), sample_open,
         (''restore-v1:s:m'', sample_merge ''s'' ps), (''restore-v1:s:v'', sample_verify ''s'' [''restore-v1:s:m''])])"
proof -
  obtain spec where o: "sample_open = (''restore-v1:s:a'', spec)" by (simp add: sample_open_def)
  show ?thesis
    unfolding o
    by (simp add: add_verification_operations_def verify_component_def sample_gi_def planned_defs rule_key_def sample_rule_digest_def
        add_verification_operation_def OperationSpec_new_def derive_idempotency_key_def sample_kind_digest_def sample_keys_of_def Let_def
        add_prerequisites_def add_prerequisite_def insort_insert_key_def insert_spec_def sample_state_def sample_verify_def make_spec_def
        less_char_def sample_id_order)
qed

lemma sample_pairs: "dependency_pairs sample_gi [''b'', ''s''] [] = [(''s'', ''b'')]"
  by (simp add: dependency_pairs_def dependency_targets_def sample_gi_def outgoing_edges_def required_runtime_def option_as_list_def
      planned_defs insort_insert_key_def)

definition sample_plan_specs :: spec_map where
  "sample_plan_specs = [(''restore-v1:b:m'', sample_merge ''b'' []), (''restore-v1:b:v'', sample_verify ''b'' [''restore-v1:b:m'']), sample_open,
     (''restore-v1:s:m'', sample_merge ''s'' [''restore-v1:b:m'', ''restore-v1:s:a'']),
     (''restore-v1:s:v'', sample_verify ''s'' [''restore-v1:b:m'', ''restore-v1:s:m''])]"

lemma sample_specs_planned:
  "plan_specs sample_kind_digest sample_rule_digest [] sample_input sample_gi [''b'', ''s''] [''b'', ''s''] = Inr (sample_state sample_plan_specs)"
proof -
  obtain spec where o: "sample_open = (''restore-v1:s:a'', spec)" by (simp add: sample_open_def)
  have run: "pin_run_id sample_input = ''run''" by (simp add: sample_input_def)
  show ?thesis
    by (simp add: plan_specs_def run sample_seed sample_seeded sample_plan_components sample_verified add_dependency_prerequisites_def sample_pairs
        del: try_fold.simps)
      (simp add: add_dependency_prerequisite_def sample_keys_of_def Let_def require_key_def require_spec_def sample_state_def o bt_modify_def
        add_prerequisite_def insort_insert_key_def sample_plan_specs_def sample_merge_def sample_verify_def make_spec_def less_char_def)
qed

lemma sample_plan_wf: "specs_wf sample_plan_specs"
  by (simp add: specs_wf_def sample_plan_specs_def bt_inv_def sample_open_def sample_merge_def sample_verify_def make_spec_def less_char_def)

lemma disjoint_writes_unchanged:
  assumes "\<And>k l p q. k \<noteq> l \<Longrightarrow> spec_destination specs k = Some p \<Longrightarrow> spec_destination specs l = Some q \<Longrightarrow> \<not> paths_overlap p q"
    and "distinct keys"
  shows "order_writes keys specs = specs"
proof -
  have row: "foldl (\<lambda>specs right_key. order_pair k p right_key specs) specs ks = specs" if "spec_destination specs k = Some p" "k \<notin> set ks" for k p ks
    using that assms(1) by (induction ks) (auto simp: order_pair_def split: option.split)
  show ?thesis using assms(2) by (induction keys) (auto simp: row split: option.split)
qed

lemma sample_no_overlap: "order_overlapping_writes sample_plan_specs = sample_plan_specs"
proof -
  let ?path = "\<lambda>i. \<lparr>pt_root = UserProfile, pt_relative = i\<rparr>"
  have dest: "k = ''restore-v1:b:m'' \<and> p = ?path ''b'' \<or> k = ''restore-v1:s:m'' \<and> p = ?path ''s''"
    if "spec_destination sample_plan_specs k = Some p" for k p
    using that
    by (auto simp: spec_destination_def sample_plan_specs_def sample_open_def sample_merge_def sample_verify_def make_spec_def write_destination_def
        split: if_splits)
  have "\<not> paths_overlap (?path ''b'') (?path ''s'')" "\<not> paths_overlap (?path ''s'') (?path ''b'')"
    by (simp_all add: paths_overlap_def to_ascii_lowercase_def to_ascii_lower_def is_ascii_upper_def Let_def starts_with_def)
  then have "\<not> paths_overlap p q" if "k \<noteq> l" "spec_destination sample_plan_specs k = Some p" "spec_destination sample_plan_specs l = Some q" for k l p q
    using dest [OF that(2)] dest [OF that(3)] that(1) by blast
  then show ?thesis
    unfolding order_overlapping_writes_def
    using sample_plan_wf sorted_keys_perm(1) by (intro disjoint_writes_unchanged) (auto simp: specs_wf_def)
qed

lemma sample_plan_ordered: "\<exists>ops. topological_order sample_uuid_parse sample_plan_specs ''run'' 0 = Inr ops"
proof -
  let ?r = "\<lambda>k. if k = ''restore-v1:b:m'' \<or> k = ''restore-v1:s:a'' then 0 else if k = ''restore-v1:s:m'' then 1 else (2 :: nat)"
  have "acyclic (spec_rel sample_plan_specs)"
    by (rule acyclic_measure [of _ ?r])
      (auto simp: spec_rel_def sample_plan_specs_def sample_open_def sample_merge_def sample_verify_def make_spec_def split: if_splits)
  moreover have "\<forall>(k, spec) \<in> set sample_plan_specs. set (spec_prerequisites spec) \<subseteq> fst ` set sample_plan_specs"
    by (simp add: sample_plan_specs_def sample_open_def sample_merge_def sample_verify_def make_spec_def)
  moreover have "0 + length sample_plan_specs \<le> u64_max" by (simp add: sample_plan_specs_def u64_max_def)
  ultimately show ?thesis
    using topological_order_decides [OF sample_plan_wf, of sample_uuid_parse "''run''" 0] by (simp add: sample_uuid_parse_def)
qed

lemma sample_input_fields:
  "pin_run_id sample_input = ''run''" "pin_trust sample_input = UserApproved" "pin_object_index sample_input =
     \<lparr>oi_objects = [\<lparr>oe_id = ''o'', oe_uncompressed_bytes = 10, oe_compressed_bytes = 10, oe_content_type = Json\<rparr>]\<rparr>"
  by (simp_all add: sample_input_def)

lemma sample_checks:
  "validate_plan_input sample_input = Inr ()" "validate_target_inputs sample_input [''b'', ''s''] = Inr ()"
  "require_plan_approval UserApproved = Inr ()"
proof -
  have "str_trim ''t'' \<noteq> []" "str_trim ''p'' \<noteq> []" by code_simp+
  then show "validate_plan_input sample_input = Inr ()" "validate_target_inputs sample_input [''b'', ''s''] = Inr ()"
    "require_plan_approval UserApproved = Inr ()"
    by (simp_all add: validate_plan_input_def sample_input_def status_is_consistent_def MAX_PLAN_COMPONENTS_def MAX_PLAN_ARTIFACTS_def
      validate_target_inputs_def Let_def planned_diff_def component_diff_def require_plan_approval_def)
qed

lemma sample_operations_valid:
  assumes "topological_order sample_uuid_parse sample_plan_specs ''run'' 0 = Inr ops" "rp_operations p = ops"
  shows "validate_restore_plan p (pin_object_index sample_input) = Inr ()"
proof -
  note parts = planned_structure [OF sample_plan_wf, unfolded sample_no_overlap, OF assms(1)]
  have essence: "mset (map operation_essence ops) = mset (map (spec_essence ''run'' \<circ> snd) sample_plan_specs)"
    by (rule topological_order_permutation(1) [OF sample_plan_wf assms(1)])
  let ?key = "\<lambda>(_, _, _, key, _). key"
  have "mset (map op_idempotency_key ops) = mset (map (?key \<circ> (spec_essence ''run'' \<circ> snd)) sample_plan_specs)"
    using arg_cong [OF essence, of "image_mset ?key"] by (simp add: operation_essence_def comp_def multiset.map_comp)
  moreover have "distinct (map (?key \<circ> (spec_essence ''run'' \<circ> snd)) sample_plan_specs)"
    by (simp add: sample_plan_specs_def sample_open_def sample_merge_def sample_verify_def make_spec_def spec_essence_def
        scoped_idempotency_key_def strip_prefix_def starts_with_def)
  ultimately have keys: "distinct (map op_idempotency_key ops)" by (metis mset_eq_imp_distinct_iff)
  have ok: "operation_ok {''o''} q" if "q \<in> set ops" for q
  proof -
    have "operation_essence q \<in> set (map (spec_essence ''run'' \<circ> snd) sample_plan_specs)"
      using mset_eq_setD [OF essence] that by (metis image_eqI set_map)
    then show ?thesis
      by (auto simp: sample_plan_specs_def sample_open_def sample_merge_def sample_verify_def make_spec_def spec_essence_def operation_essence_def
          operation_ok_def operation_paths_def referenced_objects_def destination_ok_def List.map_filter_simps path_ok_def
          PathToken_validate_def normalize_relative_path_def NUL_def starts_with_def is_separator_def)
  qed
  have "plan_ok p (pin_object_index sample_input)"
    unfolding plan_ok_def assms(2) Let_def sample_input_fields using parts keys ok by (simp add: list_all_iff)
  then show ?thesis using validate_restore_plan_ok_iff by blast
qed

lemma sample_planned_restore:
  "\<exists>p. plan sample_kind_digest sample_rule_digest sample_uuid_parse RestorePlanner_new sample_input = Inr p
    \<and> rp_selected_components p = [''b'', ''s''] \<and> topological_order sample_uuid_parse sample_plan_specs ''run'' 0 = Inr (rp_operations p)"
proof -
  obtain w where w: "close_selection sample_gi (pin_selection sample_input) [] = Inr ([''b'', ''s''], [''b'', ''s''], [w])"
    using sample_closed by blast
  obtain ops where ops: "topological_order sample_uuid_parse sample_plan_specs ''run'' 0 = Inr ops" using sample_plan_ordered by blast
  have "length (remdups_adj (sort (map bounded_text (filter (\<lambda>w. str_trim w \<noteq> []) [w])))) \<le> MAX_PLAN_WARNINGS"
    by (simp add: MAX_PLAN_WARNINGS_def)
  then obtain W where warn: "normalize_warnings ([w] @ sc_warnings (pin_selection sample_input)
      @ td_warnings (pin_target_diff sample_input) @ cr_warnings (pin_compatibility sample_input)) = Inr W"
    by (simp add: normalize_warnings_def sample_input_def Let_def)
  have small: "length (pst_specs (sample_state sample_plan_specs)) \<le> MAX_PLAN_OPERATIONS"
    by (simp add: sample_state_def sample_plan_specs_def MAX_PLAN_OPERATIONS_def)
  have ordinal: "rpl_first_ordinal RestorePlanner_new = 0" "rpl_mcp_servers RestorePlanner_new = []" by (simp_all add: RestorePlanner_new_def)
  have valid: "plan_validated q (pin_object_index sample_input) = Inr ()" if "rp_operations q = ops" for q
    using sample_operations_valid [OF ops that] by (simp add: plan_validated_def)
  show ?thesis
    using small warn
    by (simp add: plan_def ordinal sample_checks sample_input_fields(1,2) sample_index w sample_cycles sample_specs_planned sample_state_def
        validate_mcp_specs_def sample_no_overlap ops valid Let_def)
qed

definition sample_rule :: "ComponentId \<Rightarrow> VerificationRule" where
  "sample_rule i = ConfigParses \<lparr>pt_root = UserProfile, pt_relative = i\<rparr> Json"

definition sample_change :: "ComponentId \<Rightarrow> OperationKind" where
  "sample_change i = MergeJson \<lparr>pt_root = UserProfile, pt_relative = i\<rparr> ''o'' PreserveUnknown"

lemma sample_change_planned:
  "\<exists>p change verification. plan sample_kind_digest sample_rule_digest sample_uuid_parse RestorePlanner_new sample_input = Inr p
    \<and> rp_selected_components p = [''b'', ''s'']
    \<and> change \<in> set (rp_operations p) \<and> op_component change = ''s'' \<and> op_kind change = sample_change ''s''
    \<and> verification \<in> set (rp_operations p) \<and> op_component verification = ''s'' \<and> op_kind verification = OperationKind.Verify (sample_rule ''s'')"
proof -
  obtain p where p: "plan sample_kind_digest sample_rule_digest sample_uuid_parse RestorePlanner_new sample_input = Inr p"
    "rp_selected_components p = [''b'', ''s'']" "topological_order sample_uuid_parse sample_plan_specs ''run'' 0 = Inr (rp_operations p)"
    using sample_planned_restore by blast
  have eq: "set (map operation_essence (rp_operations p)) = set (map (spec_essence ''run'' \<circ> snd) sample_plan_specs)"
    by (rule mset_eq_setD, rule topological_order_permutation(1) [OF sample_plan_wf p(3)])
  have find: "\<exists>q \<in> set (rp_operations p). operation_essence q = spec_essence ''run'' s" if s: "s \<in> snd ` set sample_plan_specs" for s
  proof -
    have "spec_essence ''run'' s \<in> set (map operation_essence (rp_operations p))" unfolding eq using s by auto
    then show ?thesis by auto
  qed
  have "sample_merge ''s'' [''restore-v1:b:m'', ''restore-v1:s:a''] \<in> snd ` set sample_plan_specs"
    "sample_verify ''s'' [''restore-v1:b:m'', ''restore-v1:s:m''] \<in> snd ` set sample_plan_specs"
    by (simp_all add: sample_plan_specs_def)
  with find obtain change verification where "change \<in> set (rp_operations p)" "verification \<in> set (rp_operations p)"
    "operation_essence change = spec_essence ''run'' (sample_merge ''s'' [''restore-v1:b:m'', ''restore-v1:s:a''])"
    "operation_essence verification = spec_essence ''run'' (sample_verify ''s'' [''restore-v1:b:m'', ''restore-v1:s:m''])"
    by blast
  then show ?thesis using p
    by (intro exI [of _ p] exI [of _ change] exI [of _ verification])
      (auto simp: operation_essence_def spec_essence_def sample_merge_def sample_verify_def make_spec_def sample_change_def sample_rule_def)
qed

end
