(* ===== verification/PlanProperties.thy ===== *)
theory PlanProperties
  imports PlanSample
begin

text \<open>
  The properties of restore plans, each applied to the sample plan.
\<close>

subsection \<open>Properties\<close>

text \<open>
  C14. A plan is only made for a package whose trust the user approved, passes plan validation, and
  selects nothing that a blocking conflict, a compatibility blocker or a blocked component of the
  diff concerns.
\<close>

theorem plan_is_gated:
  assumes "plan digest rule_digest uuid_parse planner input = Inr p"
  shows "pin_trust input = UserApproved \<and> plan_ok p (pin_object_index input)
    \<and> (\<forall>conflict \<in> set (td_conflicts (pin_target_diff input)).
         cf_id conflict \<in> set (td_blocking_conflict_ids (pin_target_diff input)) \<longrightarrow> \<not> concerns (rp_selected_components p) (cf_component conflict))
    \<and> (\<forall>blocker \<in> set (cr_blockers (pin_compatibility input)). \<not> concerns (rp_selected_components p) (bl_component blocker))
    \<and> (\<forall>x \<in> set (rp_selected_components p). \<exists>diff. component_diff (pin_target_diff input) x = Some diff
         \<and> cd_disposition diff \<noteq> ComponentDisposition.Blocked)"
proof (rule plan_stages [OF assms], intro conjI ballI impI, goal_cases)
  case 1
  then show ?case by (simp add: require_plan_approval_def split: if_splits)
next
  case 2
  then show ?case using validate_restore_plan_ok_iff by blast
next
  case (5 gi S arts w0 warnings st ops x)
  from 5(10,11) have "x \<in> set S" by simp
  then show ?case by (rule planned_not_blocked [OF 5(6)])
qed (auto simp: validate_target_inputs_def Let_def list_ex_iff split: if_splits)

theorem plan_is_gated_witness:
  "\<exists>p. plan sample_kind_digest sample_rule_digest sample_uuid_parse RestorePlanner_new sample_input = Inr p
    \<and> plan_ok p (pin_object_index sample_input)"
  using sample_planned_restore plan_is_gated by blast

text \<open>
  The components of a plan are the selected ones and everything they require over required
  edges, required runtimes and the needs of MCP servers, each once, and their dependencies are acyclic.
\<close>

theorem plan_selection_closed:
  assumes "plan digest rule_digest uuid_parse planner input = Inr p" "GraphIndex_build (pin_graph input) = Inr gi"
  shows "set (rp_selected_components p) =
       (requires_rel (pin_graph input) gi (rpl_mcp_servers planner))\<^sup>* `` set (sc_selected_components (pin_selection input))
    \<and> distinct (rp_selected_components p) \<and> acyclic (dependency_rel gi (rp_selected_components p) (rpl_mcp_servers planner))"
proof (rule plan_stages [OF assms(1)])
  fix gi' S arts w0 warnings st ops
  assume gi: "GraphIndex_build (pin_graph input) = Inr gi'"
    and c: "close_selection gi' (pin_selection input) (rpl_mcp_servers planner) = Inr (S, arts, w0)"
    and v: "validate_dependency_cycles gi' S (rpl_mcp_servers planner) = Inr ()"
    and p: "p = \<lparr>rp_format_version = PLAN_FORMAT_VERSION, rp_run_id = pin_run_id input,
          rp_package_id = pin_package_id input, rp_mode = pin_mode input,
          rp_target_fingerprint = pin_target_fingerprint input, rp_selected_components = S,
          rp_operations = ops, rp_conflicts = relevant_conflicts (td_conflicts (pin_target_diff input)) S,
          rp_manual_actions = map snd (pst_manual_actions st), rp_warnings = warnings\<rparr>"
  have eq: "gi' = gi" using gi assms(2) by simp
  note closed = close_selection_ok(2) [OF graph_index_ok [OF assms(2)] c [unfolded eq]]
  then have "acyclic (dependency_rel gi S (rpl_mcp_servers planner))" using validate_dependency_cycles_ok(2) v eq by blast
  with closed show ?thesis by (simp add: p)
qed

theorem plan_selection_closed_witness:
  "(requires_rel (pin_graph sample_input) sample_gi [])\<^sup>* `` {''s''} = {''b'', ''s''}"
proof -
  obtain p where p: "plan sample_kind_digest sample_rule_digest sample_uuid_parse RestorePlanner_new sample_input = Inr p"
    "rp_selected_components p = [''b'', ''s'']" using sample_planned_restore by blast
  have "sc_selected_components (pin_selection sample_input) = [''s'']" "rpl_mcp_servers RestorePlanner_new = []"
    by (simp_all add: sample_input_def RestorePlanner_new_def)
  then show ?thesis using plan_selection_closed [OF p(1) sample_index] p(2) by simp
qed



text \<open>
  C7. An operation that changes a component has every confirmation of a compatibility warning and of
  a conflict that concerns the component among its prerequisites.
\<close>

theorem plan_awaits_confirmation:
  assumes "plan digest rule_digest uuid_parse planner input = Inr p" "operation \<in> set (rp_operations p)"
    "changes_target (op_kind operation)" "action \<in> awaited_actions input (rp_selected_components p) (op_component operation)"
  shows "\<exists>confirmation \<in> set (rp_operations p). op_kind confirmation = OpenManualAction action
    \<and> op_id confirmation \<in> set (op_prerequisites operation)"
proof -
  obtain gi where gi: "GraphIndex_build (pin_graph input) = Inr gi" by (rule plan_stages [OF assms(1)])
  obtain arts conf K st opk where
    sound: "specs_sound rule_digest (rpl_mcp_servers planner) input gi (rp_selected_components p) arts conf K st"
    and ops: "\<forall>operation \<in> set (rp_operations p). \<exists>k s. pst_get st k = Some s \<and> realises opk s operation"
      "\<forall>k s. pst_get st k = Some s \<longrightarrow> (\<exists>operation \<in> set (rp_operations p). realises opk s operation)"
    using plan_realised [OF assms(1) gi] by metis
  obtain k s where s: "pst_get st k = Some s" "realises opk s operation" using ops assms(2) by blast
  have x: "op_component operation \<in> set (rp_selected_components p)" and conf: "confirmed conf s"
    by (rule realised_change [OF sound s assms(3)], assumption)+
  from sound x assms(4) have "awaits st conf (op_component operation) action" unfolding specs_sound_def by blast
  then obtain keys key where key: "bt_get conf (op_component operation) = Some keys" "key \<in> set keys"
    "kind_at st key = Some (OpenManualAction action)" unfolding awaits_def by blast
  then obtain t where t: "pst_get st key = Some t" "spec_kind t = OpenManualAction action" by (auto simp: kind_at_def)
  obtain confirmation where q: "confirmation \<in> set (rp_operations p)" "realises opk t confirmation" using ops(2) t(1) by blast
  have "spec_key t = key" using sound t(1) by (auto simp: specs_sound_def pst_wf_def specs_ok_def)
  moreover have "key \<in> set (spec_prerequisites s)" using conf key(1,2) s(2) by (auto simp: confirmed_def realises_def)
  ultimately show ?thesis using q t s(2) by (intro bexI [of _ confirmation]) (auto simp: realises_def)
qed

theorem plan_awaits_confirmation_witness:
  "\<exists>p operation confirmation. plan sample_kind_digest sample_rule_digest sample_uuid_parse RestorePlanner_new sample_input = Inr p
    \<and> operation \<in> set (rp_operations p) \<and> changes_target (op_kind operation)
    \<and> confirmation \<in> set (rp_operations p) \<and> op_kind confirmation = OpenManualAction sample_action
    \<and> op_id confirmation \<in> set (op_prerequisites operation)"
proof -
  obtain p operation where p: "plan sample_kind_digest sample_rule_digest sample_uuid_parse RestorePlanner_new sample_input = Inr p"
    and o: "operation \<in> set (rp_operations p)" "op_component operation = ''s''" "op_kind operation = sample_change ''s''"
    using sample_change_planned by blast
  have "changes_target (op_kind operation)" by (simp add: o sample_change_def changes_target_def)
  moreover have "sample_action \<in> awaited_actions sample_input (rp_selected_components p) (op_component operation)"
    unfolding o awaited_actions_def sample_action_def by (auto simp: sample_input_def sample_confirmation_def action_targets_def)
  ultimately show ?thesis using plan_awaits_confirmation [OF p o(1)] p o(1) by blast
qed

text \<open>
  A verification of a component has every operation that changes the component among its
  prerequisites.
\<close>

theorem plan_verifies_changes:
  assumes "plan digest rule_digest uuid_parse planner input = Inr p"
    "verification \<in> set (rp_operations p)" "op_kind verification = OperationKind.Verify rule"
    "change \<in> set (rp_operations p)" "changes_target (op_kind change)" "op_component change = op_component verification"
  shows "op_id change \<in> set (op_prerequisites verification)"
proof -
  obtain gi where gi: "GraphIndex_build (pin_graph input) = Inr gi" by (rule plan_stages [OF assms(1)])
  obtain arts conf K st opk where
    sound: "specs_sound rule_digest (rpl_mcp_servers planner) input gi (rp_selected_components p) arts conf K st"
    and ops: "\<forall>operation \<in> set (rp_operations p). \<exists>k s. pst_get st k = Some s \<and> realises opk s operation"
    using plan_realised [OF assms(1) gi] by metis
  obtain k s where s: "pst_get st k = Some s" "realises opk s verification" using ops assms(2) by blast
  obtain j t where t: "pst_get st j = Some t" "realises opk t change" using ops assms(4) by blast
  have "set (listed K (op_component verification)) \<subseteq> set (spec_prerequisites s)"
    by (rule realised_verification [OF sound s assms(3)])
  moreover have "spec_key t \<in> set (listed K (op_component change))" by (rule realised_change [OF sound t assms(5)])
  ultimately show ?thesis using s(2) t(2) assms(6) by (auto simp: realises_def)
qed

theorem plan_verifies_changes_witness:
  "\<exists>p change verification. plan sample_kind_digest sample_rule_digest sample_uuid_parse RestorePlanner_new sample_input = Inr p
    \<and> change \<in> set (rp_operations p) \<and> verification \<in> set (rp_operations p) \<and> op_id change \<in> set (op_prerequisites verification)"
proof -
  obtain p change verification where p: "plan sample_kind_digest sample_rule_digest sample_uuid_parse RestorePlanner_new sample_input = Inr p"
    and c: "change \<in> set (rp_operations p)" "op_component change = ''s''" "op_kind change = sample_change ''s''"
    and v: "verification \<in> set (rp_operations p)" "op_component verification = ''s''" "op_kind verification = OperationKind.Verify (sample_rule ''s'')"
    using sample_change_planned by blast
  have "op_id change \<in> set (op_prerequisites verification)"
    by (rule plan_verifies_changes [OF p v(1,3) c(1)]) (simp_all add: c v sample_change_def changes_target_def)
  then show ?thesis using p c v by blast
qed

text \<open>
  Every verification rule of every selected component is the rule of an operation of the plan,
  up to the digest the planner identifies rules by.
\<close>

theorem plan_checks_every_rule:
  assumes "plan digest rule_digest uuid_parse planner input = Inr p"
    "c \<in> set (g_components (pin_graph input))" "c_id c \<in> set (rp_selected_components p)" "rule \<in> set (c_verification c)"
  shows "\<exists>operation \<in> set (rp_operations p). \<exists>rule'. op_component operation = c_id c
    \<and> op_kind operation = OperationKind.Verify rule' \<and> rule_digest rule' = rule_digest rule"
proof -
  obtain gi where gi: "GraphIndex_build (pin_graph input) = Inr gi" by (rule plan_stages [OF assms(1)])
  obtain arts conf K st opk where
    sound: "specs_sound rule_digest (rpl_mcp_servers planner) input gi (rp_selected_components p) arts conf K st"
    and ops: "\<forall>k s. pst_get st k = Some s \<longrightarrow> (\<exists>operation \<in> set (rp_operations p). realises opk s operation)"
    using plan_realised [OF assms(1) gi] by metis
  have "bt_get (gi_components gi) (c_id c) = Some c"
    using graph_index_ok [OF gi] assms(2) unfolding graph_indexed_def components_index_def by blast
  then have "checked rule_digest (c_id c) rule st" using sound assms(3,4) unfolding specs_sound_def by blast
  then show ?thesis unfolding checked_def using ops by (metis realises_def)
qed

theorem plan_checks_every_rule_witness:
  "\<exists>p operation rule. plan sample_kind_digest sample_rule_digest sample_uuid_parse RestorePlanner_new sample_input = Inr p
    \<and> operation \<in> set (rp_operations p) \<and> op_component operation = ''b'' \<and> op_kind operation = OperationKind.Verify rule"
proof -
  obtain p where p: "plan sample_kind_digest sample_rule_digest sample_uuid_parse RestorePlanner_new sample_input = Inr p"
    "rp_selected_components p = [''b'', ''s'']" using sample_planned_restore by blast
  have "\<exists>operation \<in> set (rp_operations p). \<exists>rule'. op_component operation = c_id (planned_component ''b'' None)
      \<and> op_kind operation = OperationKind.Verify rule' \<and> sample_rule_digest rule' = sample_rule_digest (sample_rule ''b'')"
    by (rule plan_checks_every_rule [OF p(1)]) (simp_all add: p(2) sample_input_def planned_defs sample_rule_def)
  then show ?thesis using p(1) by (auto simp: planned_defs)
qed



text \<open>
  C40. Planning always returns a plan or an error: no \<^verbatim>\<open>expect\<close> of the planner, the topological
  order or the validation fails, on any input.
\<close>

theorem planning_never_panics:
  "plan digest rule_digest uuid_parse planner input \<noteq> Inl Panic \<and> plan digest rule_digest uuid_parse planner input \<noteq> Inl OutOfFuel"
  using plan_no_abort [of digest rule_digest uuid_parse planner input] by (auto simp: no_abort_def)

text \<open>
  The dependency check of the planner decides acyclicity: on a selection without duplicates it
  accepts exactly the acyclic dependencies and reports \<^verbatim>\<open>DEPENDENCY_CYCLE\<close> for the others.
\<close>

theorem dependency_check_decides:
  assumes "distinct S" "length (dependency_pairs gi S mcp) \<le> u64_max"
  shows "if acyclic (dependency_rel gi S mcp) then validate_dependency_cycles gi S mcp = Inr ()
    else \<exists>e. validate_dependency_cycles gi S mcp = Inl (Fail e) \<and> ee_code e = DependencyCycle"
  using validate_dependency_cycles_ok(2,3) [OF assms(1), of gi mcp] assms(2)
  by (cases "validate_dependency_cycles gi S mcp = Inr ()") (auto simp: planner_error_def)

theorem dependency_check_decides_witness: "validate_dependency_cycles sample_gi [''b'', ''s''] [] = Inr ()"
proof -
  have rel: "dependency_rel sample_gi [''b'', ''s''] [] = {(''s'', ''b'')}"
    using dependency_pairs_ok(2) [of sample_gi "[''b'', ''s'']" "[]"] unfolding sample_pairs by simp
  have "acyclic (dependency_rel sample_gi [''b'', ''s''] [])"
    unfolding rel by (rule acyclic_measure [of _ "\<lambda>k. if k = ''b'' then 0 else 1"]) auto
  then show ?thesis
    using dependency_check_decides [of "[''b'', ''s'']" sample_gi "[]"] by (simp add: sample_pairs u64_max_def)
qed

end
