(* ===== verification/Artifacts.thy ===== *)
theory Artifacts
  imports Operations Ids Collections
begin

text \<open>
  The package objects a restore handler reads, from \<^verbatim>\<open>crates/reforge-restore/src/handlers/mod.rs\<close>:
  the resolution of an operation's object to a direct object or a file manifest, the writers that
  check every byte the package source copies, and the test whether bytes on the target are the
  artifact. The hash function is the parameter \<open>blake3\<close>; an incremental hasher is the bytes it was
  fed, hashed at the end. The package source is the parameter \<open>ObjectSource\<close>: the slices it writes
  for an object, in order, and what it returns. A slice that the writer refuses leaves the writer
  unchanged, and the source may write on, so every source is covered. Copies without a cancellation
  token are modelled, the ones the file and configuration handlers make.
\<close>

subsection \<open>Definitions\<close>

record ChunkRef =
  chunk_id :: ObjectId
  chunk_uncompressed_bytes :: nat

record FileManifest =
  fm_size_bytes :: nat
  fm_chunks :: "ChunkRef list"
  fm_content_type :: ContentType
  fm_attributes :: nat

definition FILE_CHUNK_BYTES :: nat where "FILE_CHUNK_BYTES = 8 * 1024 * 1024"
definition DEFAULT_MAX_OBJECT_BYTES :: nat where "DEFAULT_MAX_OBJECT_BYTES = 64 * 1024 * 1024"

type_synonym ObjectSource = "ObjectId \<Rightarrow> bytes list \<times> ObjectEntry restore"

text \<open>The fields of the execution context that concern package objects.\<close>

record ArtifactContext =
  ac_object_index :: ObjectIndex
  ac_file_manifests :: "(ObjectId, FileManifest) btree option"
  ac_object_source :: "ObjectSource option"

definition operation_error :: "ReforgeErrorCode \<Rightarrow> str \<Rightarrow> ErrorEnvelope" where
  "operation_error ecode message = restore_error ecode message None None None (Some ''restore-handler'')"

definition artifact_error :: "ReforgeErrorCode \<Rightarrow> str \<Rightarrow> ErrorEnvelope" where
  "artifact_error ecode message = restore_error ecode message None None None (Some ''restore-artifact'')"

definition reject_protected_root :: "PathToken \<Rightarrow> unit restore" where
  "reject_protected_root token =
     (if pt_root token \<in> {ProgramData, ProgramFiles, ProgramFilesX86}
      then Inl (restore_error SecurityPolicy
             ''generic restore handlers cannot write a protected managed root''
             None None None (Some ''restore-protected-root''))
      else Inr ())"

definition content_type_allowed :: "ContentType \<Rightarrow> ContentType list \<Rightarrow> unit restore" where
  "content_type_allowed actual expected =
     (if list_ex (\<lambda>kind. kind = actual) expected then Inr ()
      else Inl (restore_error SchemaInvalid ''restore operation content type does not match its handler''
             None None None (Some ''restore-content-type'')))"

definition indexed_entry :: "ObjectIndex \<Rightarrow> ObjectId \<Rightarrow> ReforgeErrorCode \<Rightarrow> str \<Rightarrow> ObjectEntry restore" where
  "indexed_entry object_index obj missing_code missing_message =
     (case filter (\<lambda>entry. oe_id entry = obj) (oi_objects object_index) of
        [] \<Rightarrow> Inl (artifact_error missing_code missing_message)
      | [entry] \<Rightarrow> Inr entry
      | _ \<Rightarrow> Inl (artifact_error PackageCorrupt ''the package index contains a duplicate object identity''))"

datatype ArtifactLayout = Direct ObjectEntry | Manifest FileManifest

record ValidatedArtifact =
  vda_layout :: ArtifactLayout
  vda_size_bytes :: nat
  vda_content_type :: ContentType

text \<open>\<^verbatim>\<open>matches_bytes\<close> with its loop over the chunks of a manifest.\<close>

fun matches_chunks :: "(bytes \<Rightarrow> bytes) \<Rightarrow> bytes \<Rightarrow> ChunkRef list \<Rightarrow> nat \<Rightarrow> bool" where
  "matches_chunks blake3 bytes [] offset \<longleftrightarrow> offset = length bytes"
| "matches_chunks blake3 bytes (chunk # chunks) offset \<longleftrightarrow>
     (case checked_add_u64 offset (chunk_uncompressed_bytes chunk) of
        None \<Rightarrow> False
      | Some end' \<Rightarrow>
          if end' > length bytes then False
          else if ObjectId_from_content blake3 (take (end' - offset) (drop offset bytes)) \<noteq> chunk_id chunk
          then False
          else matches_chunks blake3 bytes chunks end')"

definition matches_bytes :: "(bytes \<Rightarrow> bytes) \<Rightarrow> ValidatedArtifact \<Rightarrow> bytes \<Rightarrow> bool" where
  "matches_bytes blake3 artifact bytes \<longleftrightarrow>
     (if length bytes \<noteq> vda_size_bytes artifact then False
      else case vda_layout artifact of
             Direct entry \<Rightarrow> ObjectId_from_content blake3 bytes = oe_id entry
           | Manifest manifest \<Rightarrow> matches_chunks blake3 bytes (fm_chunks manifest) 0)"

text \<open>The loop of \<^verbatim>\<open>validate_artifact\<close> over the chunks of a manifest, with the running total.\<close>

definition validate_chunk ::
  "ArtifactContext \<Rightarrow> ObjectId \<Rightarrow> FileManifest \<Rightarrow> nat \<times> ChunkRef \<Rightarrow> nat \<Rightarrow> nat restore" where
  "validate_chunk ctx obj manifest = (\<lambda>(index, chunk) sum.
     if chunk_id chunk = obj
        \<or> (case ac_file_manifests ctx of
             None \<Rightarrow> False
           | Some manifests \<Rightarrow> bt_get manifests (chunk_id chunk) \<noteq> None)
     then Inl (artifact_error PackageCorrupt ''file manifest object is also referenced as a file chunk'')
     else if chunk_uncompressed_bytes chunk = 0 \<or> chunk_uncompressed_bytes chunk > FILE_CHUNK_BYTES
     then Inl (artifact_error PackageCorrupt ''file manifest contains an invalid chunk length'')
     else if index + 1 \<noteq> length (fm_chunks manifest) \<and> chunk_uncompressed_bytes chunk \<noteq> FILE_CHUNK_BYTES
     then Inl (artifact_error PackageCorrupt ''non-final file chunk is not exactly 8 MiB'')
     else try_bind (indexed_entry (ac_object_index ctx) (chunk_id chunk) PackageCorrupt
                      ''file manifest chunk is absent from the package index'') (\<lambda>entry.
       if oe_uncompressed_bytes entry \<noteq> chunk_uncompressed_bytes chunk
          \<or> oe_content_type entry \<noteq> fm_content_type manifest
       then Inl (artifact_error PackageCorrupt ''file manifest chunk metadata disagrees with the package index'')
       else ok_or (artifact_error PackageCorrupt ''file manifest payload size overflow'')
              (checked_add_u64 sum (chunk_uncompressed_bytes chunk))))"

text \<open>
  \<open>canonicalize\<close> stands for the canonical JSON of a manifest: its object id and its bytes.
\<close>

definition validate_artifact ::
  "(FileManifest \<Rightarrow> (ObjectId \<times> bytes) option) \<Rightarrow> ArtifactContext \<Rightarrow> ObjectId \<Rightarrow> nat
   \<Rightarrow> ValidatedArtifact restore" where
  "validate_artifact canonicalize ctx obj max_bytes =
     try_bind (indexed_entry (ac_object_index ctx) obj PackageNotFound
                 ''the requested restore object is absent from the package index'') (\<lambda>reference_entry.
     case Option.bind (ac_file_manifests ctx) (\<lambda>manifests. bt_get manifests obj) of
       None \<Rightarrow>
         if oe_uncompressed_bytes reference_entry > max_bytes
         then Inl (artifact_error SecurityPolicy ''restore object exceeds the handler size limit'')
         else Inr \<lparr>vda_layout = Direct reference_entry,
                   vda_size_bytes = oe_uncompressed_bytes reference_entry,
                   vda_content_type = oe_content_type reference_entry\<rparr>
     | Some manifest \<Rightarrow>
         if fm_size_bytes manifest > max_bytes
         then Inl (artifact_error SecurityPolicy ''restore artifact exceeds the handler size limit'')
         else let expected_chunks = (if fm_size_bytes manifest = 0 then 0
                                     else (fm_size_bytes manifest - 1) div FILE_CHUNK_BYTES + 1) in
         if length (fm_chunks manifest) \<noteq> expected_chunks
         then Inl (artifact_error PackageCorrupt ''file manifest chunk count does not match its declared size'')
         else if oe_content_type reference_entry \<noteq> ContentType.Json
         then Inl (artifact_error PackageCorrupt ''file manifest object is not indexed as canonical JSON'')
         else try_bind (try_fold (validate_chunk ctx obj manifest) (enumerate 0 (fm_chunks manifest)) 0) (\<lambda>sum.
           if sum \<noteq> fm_size_bytes manifest
           then Inl (artifact_error PackageCorrupt ''file manifest chunks do not reconstruct its declared size'')
           else try_bind (ok_or (artifact_error PackageCorrupt ''file manifest cannot be encoded as canonical JSON'')
                            (canonicalize manifest)) (\<lambda>(canonical_id, canonical_bytes).
             if canonical_id \<noteq> obj \<or> length canonical_bytes \<noteq> oe_uncompressed_bytes reference_entry
             then Inl (artifact_error PackageCorrupt ''file manifest bytes do not match their indexed identity'')
             else Inr \<lparr>vda_layout = Manifest manifest,
                       vda_size_bytes = fm_size_bytes manifest,
                       vda_content_type = fm_content_type manifest\<rparr>)))"

text \<open>
  The writers. A \<^verbatim>\<open>LimitedBuffer\<close> is its bytes; the verifying writer in front of it counts and
  hashes what the buffer accepted, for the object and for the whole artifact.
\<close>

definition limited_write :: "nat \<Rightarrow> bytes \<Rightarrow> bytes \<Rightarrow> bytes option" where
  "limited_write max_bytes buffer bytes =
     (case checked_add_u64 (length buffer) (length bytes) of
        None \<Rightarrow> None
      | Some end' \<Rightarrow> if end' > max_bytes then None else Some (buffer @ bytes))"

record object_writer =
  ow_output :: bytes
  ow_artifact_hasher :: bytes
  ow_object_hasher :: bytes
  ow_bytes :: nat
  ow_limit_exceeded :: bool

definition verifying_write :: "nat \<Rightarrow> nat \<Rightarrow> bytes \<Rightarrow> object_writer \<Rightarrow> object_writer" where
  "verifying_write max_bytes expected_bytes bytes w =
     (case checked_add_u64 (ow_bytes w) (length bytes) of
        None \<Rightarrow> w\<lparr>ow_limit_exceeded := True\<rparr>
      | Some end' \<Rightarrow>
          if end' > expected_bytes then w\<lparr>ow_limit_exceeded := True\<rparr>
          else case limited_write max_bytes (ow_output w) bytes of
                 None \<Rightarrow> w
               | Some buffer \<Rightarrow>
                   w\<lparr>ow_output := buffer, ow_artifact_hasher := ow_artifact_hasher w @ bytes,
                     ow_object_hasher := ow_object_hasher w @ bytes, ow_bytes := end'\<rparr>)"

text \<open>One object: the number of its bytes, with the buffer and the artifact hasher afterwards.\<close>

definition copy_verified_indexed_object ::
  "(bytes \<Rightarrow> bytes) \<Rightarrow> nat \<Rightarrow> ObjectSource \<Rightarrow> ObjectEntry \<Rightarrow> bytes \<times> bytes \<Rightarrow> (nat \<times> bytes \<times> bytes) restore" where
  "copy_verified_indexed_object blake3 max_bytes source expected = (\<lambda>(buffer, artifact_hasher).
     let (writes, result) = source (oe_id expected);
         w = fold (verifying_write max_bytes (oe_uncompressed_bytes expected)) writes
               \<lparr>ow_output = buffer, ow_artifact_hasher = artifact_hasher, ow_object_hasher = [],
                ow_bytes = 0, ow_limit_exceeded = False\<rparr>
     in if ow_limit_exceeded w
        then Inl (artifact_error PackageCorrupt ''verified package object expanded beyond its indexed length'')
        else try_bind result (\<lambda>returned.
          if returned \<noteq> expected \<or> ow_bytes w \<noteq> oe_uncompressed_bytes expected
             \<or> strip_prefix (oe_id expected) ''obj_'' \<noteq> Some (to_hex (blake3 (ow_object_hasher w)))
          then Inl (artifact_error PackageCorrupt
                 ''verified package object bytes or metadata do not match the package index'')
          else Inr (ow_bytes w, ow_output w, ow_artifact_hasher w)))"

definition copy_chunk ::
  "(bytes \<Rightarrow> bytes) \<Rightarrow> nat \<Rightarrow> ArtifactContext \<Rightarrow> ObjectSource \<Rightarrow> ChunkRef \<Rightarrow> nat \<times> bytes \<times> bytes
   \<Rightarrow> (nat \<times> bytes \<times> bytes) restore" where
  "copy_chunk blake3 max_bytes ctx source chunk = (\<lambda>(bytes, buffer, artifact_hasher).
     try_bind (indexed_entry (ac_object_index ctx) (chunk_id chunk) PackageCorrupt
                 ''file manifest chunk is absent from the package index'') (\<lambda>entry.
     try_bind (copy_verified_indexed_object blake3 max_bytes source entry (buffer, artifact_hasher))
       (\<lambda>(copied, buffer', artifact_hasher').
     try_bind (ok_or (artifact_error PackageCorrupt ''restored artifact size overflow'')
                 (checked_add_u64 bytes copied)) (\<lambda>bytes'.
     Inr (bytes', buffer', artifact_hasher')))))"

text \<open>The number of bytes, the filled buffer and the digest of the copied artifact.\<close>

definition copy_validated_artifact ::
  "(bytes \<Rightarrow> bytes) \<Rightarrow> nat \<Rightarrow> ArtifactContext \<Rightarrow> ValidatedArtifact \<Rightarrow> (nat \<times> bytes \<times> bytes) restore" where
  "copy_validated_artifact blake3 max_bytes ctx artifact =
     try_bind (ok_or (artifact_error SourceUnavailable ''verified package object access is unavailable'')
                 (ac_object_source ctx)) (\<lambda>source.
     try_bind (case vda_layout artifact of
                 Direct entry \<Rightarrow> copy_verified_indexed_object blake3 max_bytes source entry ([], [])
               | Manifest manifest \<Rightarrow>
                   try_fold (copy_chunk blake3 max_bytes ctx source) (fm_chunks manifest) (0, [], []))
       (\<lambda>(bytes, buffer, hasher).
     if bytes \<noteq> vda_size_bytes artifact
     then Inl (artifact_error PackageCorrupt ''restored artifact bytes do not match the inspected file manifest'')
     else Inr (bytes, buffer, blake3 hasher)))"

record VerifiedArtifact =
  va_bytes :: bytes
  va_content_type :: ContentType
  va_digest :: bytes

definition read_verified_artifact ::
  "(bytes \<Rightarrow> bytes) \<Rightarrow> (FileManifest \<Rightarrow> (ObjectId \<times> bytes) option) \<Rightarrow> ArtifactContext \<Rightarrow> ObjectId \<Rightarrow> nat
   \<Rightarrow> VerifiedArtifact restore" where
  "read_verified_artifact blake3 canonicalize ctx obj max_bytes =
     try_bind (validate_artifact canonicalize ctx obj max_bytes) (\<lambda>artifact.
     try_bind (copy_validated_artifact blake3 max_bytes ctx artifact) (\<lambda>(copied_bytes, bytes, digest).
     if length bytes \<noteq> copied_bytes \<or> blake3 bytes \<noteq> digest
     then Inl (artifact_error PackageCorrupt ''restored artifact payload failed final verification'')
     else Inr \<lparr>va_bytes = bytes, va_content_type = vda_content_type artifact, va_digest = digest\<rparr>))"

subsection \<open>The writers\<close>

text \<open>Buffer, artifact hasher and object hasher see the same bytes.\<close>

definition in_step :: "bytes \<Rightarrow> bytes \<Rightarrow> object_writer \<Rightarrow> bool" where
  "in_step buffer hasher w \<longleftrightarrow>
     ow_output w = buffer @ ow_object_hasher w \<and> ow_artifact_hasher w = hasher @ ow_object_hasher w
     \<and> ow_bytes w = length (ow_object_hasher w)"

lemma verifying_write_in_step:
  "in_step buffer hasher w \<Longrightarrow> in_step buffer hasher (verifying_write max_bytes expected bs w)"
  by (auto simp: in_step_def verifying_write_def limited_write_def checked_add_u64_def
        split: option.splits if_splits)

lemma verifying_write_bounded:
  "length (ow_output w) \<le> max_bytes \<Longrightarrow> length (ow_output (verifying_write max_bytes expected bs w)) \<le> max_bytes"
  by (auto simp: verifying_write_def limited_write_def checked_add_u64_def split: option.splits if_splits)

lemma verifying_writes:
  "in_step buffer hasher w \<Longrightarrow> length (ow_output w) \<le> max_bytes
   \<Longrightarrow> in_step buffer hasher (fold (verifying_write max_bytes expected) writes w)
       \<and> length (ow_output (fold (verifying_write max_bytes expected) writes w)) \<le> max_bytes"
  by (induction writes arbitrary: w) (simp_all add: verifying_write_in_step verifying_write_bounded)

text \<open>A copied object is the content its identifier names, of the indexed length.\<close>

lemma copy_verified_indexed_object_content:
  assumes "copy_verified_indexed_object blake3 max_bytes source expected (buffer, hasher) = Inr (n, buffer', hasher')"
    and "length buffer \<le> max_bytes"
  obtains content where "buffer' = buffer @ content" "hasher' = hasher @ content" "n = length content"
    and "n = oe_uncompressed_bytes expected" "ObjectId_from_content blake3 content = oe_id expected"
    and "length buffer' \<le> max_bytes"
proof -
  obtain writes result where source: "source (oe_id expected) = (writes, result)" by force
  define w where "w = fold (verifying_write max_bytes (oe_uncompressed_bytes expected)) writes
     \<lparr>ow_output = buffer, ow_artifact_hasher = hasher, ow_object_hasher = [], ow_bytes = 0, ow_limit_exceeded = False\<rparr>"
  have w: "in_step buffer hasher w \<and> length (ow_output w) \<le> max_bytes"
    unfolding w_def by (rule verifying_writes) (use assms(2) in \<open>simp_all add: in_step_def\<close>)
  have "n = ow_bytes w" "buffer' = ow_output w" "hasher' = ow_artifact_hasher w"
    "ow_bytes w = oe_uncompressed_bytes expected"
    "strip_prefix (oe_id expected) ''obj_'' = Some (to_hex (blake3 (ow_object_hasher w)))"
    using assms(1)
    by (auto simp: copy_verified_indexed_object_def source Let_def w_def [symmetric] try_bind_def
        split: if_splits sum.splits)
  with w show ?thesis
    by (intro that [of "ow_object_hasher w"])
      (auto simp: in_step_def ObjectId_from_content_def strip_prefix_def starts_with_iff split: if_splits)
qed

subsection \<open>Chunks\<close>

definition chunk_content :: "(bytes \<Rightarrow> bytes) \<Rightarrow> ChunkRef \<Rightarrow> bytes \<Rightarrow> bool" where
  "chunk_content blake3 chunk content \<longleftrightarrow>
     length content = chunk_uncompressed_bytes chunk \<and> ObjectId_from_content blake3 content = chunk_id chunk"

definition chunk_indexed :: "ArtifactContext \<Rightarrow> ChunkRef \<Rightarrow> bool" where
  "chunk_indexed ctx chunk \<longleftrightarrow>
     (\<forall>c m entry. indexed_entry (ac_object_index ctx) (chunk_id chunk) c m = Inr entry
        \<longrightarrow> oe_id entry = chunk_id chunk \<and> oe_uncompressed_bytes entry = chunk_uncompressed_bytes chunk)"

lemma indexed_entry_ok:
  "indexed_entry index obj c m = Inr entry
   \<longleftrightarrow> filter (\<lambda>e. oe_id e = obj) (oi_objects index) = [entry]"
  by (auto simp: indexed_entry_def split: list.splits)

lemma indexed_entry_id: "indexed_entry index obj c m = Inr entry \<Longrightarrow> oe_id entry = obj"
  unfolding indexed_entry_ok by (metis (mono_tags, lifting) filter_eq_ConsD)

lemma validate_chunk_indexed:
  assumes "validate_chunk ctx obj manifest (i, chunk) acc = Inr acc'"
  shows "chunk_indexed ctx chunk"
proof -
  obtain entry where entry: "filter (\<lambda>e. oe_id e = chunk_id chunk) (oi_objects (ac_object_index ctx)) = [entry]"
    and "oe_uncompressed_bytes entry = chunk_uncompressed_bytes chunk"
    using assms by (auto simp: validate_chunk_def result_simps indexed_entry_ok split: if_splits)
  with indexed_entry_id [of "ac_object_index ctx" "chunk_id chunk"] show ?thesis
    unfolding chunk_indexed_def indexed_entry_ok by auto
qed

lemma validate_chunks_indexed:
  "try_fold (validate_chunk ctx obj manifest) (enumerate k chunks) acc = Inr acc' \<Longrightarrow> list_all (chunk_indexed ctx) chunks"
proof (induction chunks arbitrary: k acc)
  case (Cons chunk chunks)
  then obtain s where "validate_chunk ctx obj manifest (k, chunk) acc = Inr s"
    and "try_fold (validate_chunk ctx obj manifest) (enumerate (Suc k) chunks) s = Inr acc'"
    by (auto simp: try_bind_def split: sum.splits)
  with Cons.IH validate_chunk_indexed show ?case by fastforce
qed simp

lemma copy_chunk_content:
  assumes "copy_chunk blake3 max_bytes ctx source chunk (length buffer, buffer, buffer) = Inr (n, buffer', hasher')"
    and "length buffer \<le> max_bytes" and "chunk_indexed ctx chunk"
  obtains content where "chunk_content blake3 chunk content" "buffer' = buffer @ content" "hasher' = buffer'"
    and "n = length buffer'" "n \<le> u64_max" "length buffer' \<le> max_bytes"
proof -
  obtain entry copied where entry: "indexed_entry (ac_object_index ctx) (chunk_id chunk) PackageCorrupt
       ''file manifest chunk is absent from the package index'' = Inr entry"
    and copy: "copy_verified_indexed_object blake3 max_bytes source entry (buffer, buffer) = Inr (copied, buffer', hasher')"
    and n: "checked_add_u64 (length buffer) copied = Some n"
    using assms(1) by (auto simp: copy_chunk_def result_simps)
  from copy_verified_indexed_object_content [OF copy assms(2)] obtain content where
    "buffer' = buffer @ content" "hasher' = buffer @ content" "copied = length content"
    "copied = oe_uncompressed_bytes entry" "ObjectId_from_content blake3 content = oe_id entry"
    "length buffer' \<le> max_bytes" .
  with entry assms(3) n show ?thesis
    by (intro that [of content])
      (auto simp: chunk_content_def chunk_indexed_def checked_add_u64_def split: if_splits)
qed

lemma copy_chunks_content:
  assumes "try_fold (copy_chunk blake3 max_bytes ctx source) chunks (length buffer, buffer, buffer)
           = Inr (n, buffer', hasher')"
    and "length buffer \<le> max_bytes" "length buffer \<le> u64_max" and "list_all (chunk_indexed ctx) chunks"
  shows "\<exists>contents. list_all2 (chunk_content blake3) chunks contents \<and> buffer' = buffer @ concat contents
           \<and> hasher' = buffer' \<and> n = length buffer' \<and> length buffer' \<le> max_bytes \<and> length buffer' \<le> u64_max"
  using assms
proof (induction chunks arbitrary: buffer)
  case Nil
  then show ?case by auto
next
  case (Cons chunk chunks)
  then obtain n1 b1 h1 where one: "copy_chunk blake3 max_bytes ctx source chunk (length buffer, buffer, buffer) = Inr (n1, b1, h1)"
    and rest: "try_fold (copy_chunk blake3 max_bytes ctx source) chunks (n1, b1, h1) = Inr (n, buffer', hasher')"
    by (auto simp: try_bind_def split: sum.splits)
  have "chunk_indexed ctx chunk" using Cons.prems(4) by simp
  from copy_chunk_content [OF one Cons.prems(2) this] obtain content where
    c: "chunk_content blake3 chunk content" "b1 = buffer @ content" "h1 = b1" "n1 = length b1" "n1 \<le> u64_max"
    "length b1 \<le> max_bytes" .
  from Cons.IH [of b1] rest c Cons.prems(4) obtain contents where
    "list_all2 (chunk_content blake3) chunks contents" "buffer' = b1 @ concat contents"
    "hasher' = buffer'" "n = length buffer'" "length buffer' \<le> max_bytes" "length buffer' \<le> u64_max" by auto
  with c show ?case by (intro exI [of _ "content # contents"]) simp
qed

lemma matches_chunks_concat:
  "list_all2 (chunk_content blake3) chunks contents \<Longrightarrow> length (pre @ concat contents) \<le> u64_max
   \<Longrightarrow> matches_chunks blake3 (pre @ concat contents) chunks (length pre)"
proof (induction chunks contents arbitrary: pre rule: list_all2_induct)
  case (Cons chunk chunks content contents)
  from Cons.IH [of "pre @ content"] Cons.prems Cons.hyps show ?case
    by (simp add: checked_add_u64_def chunk_content_def)
qed simp

subsection \<open>What a verified artifact is\<close>

lemma validate_artifact_manifest:
  assumes "validate_artifact canonicalize ctx obj max_bytes = Inr artifact"
  shows "vda_size_bytes artifact \<le> max_bytes"
    and "vda_layout artifact = Manifest manifest \<Longrightarrow> list_all (chunk_indexed ctx) (fm_chunks manifest)"
proof -
  let ?manifest = "Option.bind (ac_file_manifests ctx) (\<lambda>manifests. bt_get manifests obj)"
  show "vda_size_bytes artifact \<le> max_bytes"
  proof (cases ?manifest)
    case None
    with assms show ?thesis by (simp add: validate_artifact_def result_simps split: if_splits) auto
  next
    case (Some manifest)
    with assms show ?thesis by (simp add: validate_artifact_def result_simps Let_def split del: if_split split: if_splits) auto
  qed
  assume layout: "vda_layout artifact = Manifest manifest"
  show "list_all (chunk_indexed ctx) (fm_chunks manifest)"
  proof (cases ?manifest)
    case None
    with assms layout show ?thesis by (simp add: validate_artifact_def result_simps split: if_splits) auto
  next
    case (Some m)
    with assms layout have "\<exists>n. try_fold (validate_chunk ctx obj m) (enumerate 0 (fm_chunks m)) 0 = Inr n \<and> m = manifest"
      by (simp add: validate_artifact_def result_simps Let_def split del: if_split split: if_splits) auto
    then show ?thesis using validate_chunks_indexed by blast
  qed
qed

text \<open>
  C11. Whatever the package source does, what a handler reads is the artifact. If reading succeeds, the
  bytes are exactly as long as the inspected artifact and within the handler's limit, their digest
  is the reported one, and they pass the test by which a later run recognises the file: the object
  itself, or for a manifest each of its chunks at its offset, has the identifier in the package
  index. So a file that was written from a package is found to be satisfied afterwards.
\<close>

theorem verified_artifact_is_exact:
  assumes "read_verified_artifact blake3 canonicalize ctx obj max_bytes = Inr verified"
  shows "\<exists>artifact. validate_artifact canonicalize ctx obj max_bytes = Inr artifact
           \<and> matches_bytes blake3 artifact (va_bytes verified)
           \<and> length (va_bytes verified) = vda_size_bytes artifact
           \<and> length (va_bytes verified) \<le> max_bytes
           \<and> va_digest verified = blake3 (va_bytes verified)
           \<and> va_content_type verified = vda_content_type artifact"
proof -
  obtain artifact n where art: "validate_artifact canonicalize ctx obj max_bytes = Inr artifact"
    and copy: "copy_validated_artifact blake3 max_bytes ctx artifact = Inr (n, va_bytes verified, va_digest verified)"
    and n: "length (va_bytes verified) = n" "va_digest verified = blake3 (va_bytes verified)"
      "va_content_type verified = vda_content_type artifact"
    using assms by (auto simp: read_verified_artifact_def result_simps split: if_splits)
  note size = validate_artifact_manifest(1) [OF art]
  have len: "n = vda_size_bytes artifact"
    using copy by (auto simp: copy_validated_artifact_def result_simps split: if_splits)
  have "matches_bytes blake3 artifact (va_bytes verified)"
  proof (cases "vda_layout artifact")
    case (Direct entry)
    then obtain source hasher where "copy_verified_indexed_object blake3 max_bytes source entry ([], []) = Inr (n, va_bytes verified, hasher)"
      using copy by (auto simp: copy_validated_artifact_def result_simps split: if_splits)
    then have "ObjectId_from_content blake3 (va_bytes verified) = oe_id entry"
      by (rule copy_verified_indexed_object_content) simp_all
    with Direct len n show ?thesis by (simp add: matches_bytes_def)
  next
    case (Manifest manifest)
    then obtain source hasher where "try_fold (copy_chunk blake3 max_bytes ctx source) (fm_chunks manifest) (0, [], [])
        = Inr (n, va_bytes verified, hasher)"
      using copy by (auto simp: copy_validated_artifact_def result_simps split: if_splits)
    with copy_chunks_content [of blake3 max_bytes ctx source "fm_chunks manifest" "[]"]
      validate_artifact_manifest(2) [OF art Manifest]
    obtain contents where "list_all2 (chunk_content blake3) (fm_chunks manifest) contents"
      and "va_bytes verified = concat contents" "length (va_bytes verified) \<le> u64_max" by auto
    with matches_chunks_concat [of blake3 "fm_chunks manifest" contents "[]"] Manifest len n show ?thesis
      by (simp add: matches_bytes_def)
  qed
  with art n len size show ?thesis by auto
qed

definition sample_manifest :: FileManifest where
  "sample_manifest =
     \<lparr>fm_size_bytes = 2, fm_chunks = [\<lparr>chunk_id = ''obj_0102'', chunk_uncompressed_bytes = 2\<rparr>],
      fm_content_type = ContentType.Toml, fm_attributes = 0\<rparr>"

definition sample_chunk_entry :: ObjectEntry where
  "sample_chunk_entry =
     \<lparr>oe_id = ''obj_0102'', oe_uncompressed_bytes = 2, oe_compressed_bytes = 2, oe_content_type = ContentType.Toml\<rparr>"

definition sample_artifacts :: ArtifactContext where
  "sample_artifacts =
     \<lparr>ac_object_index = \<lparr>oi_objects = [\<lparr>oe_id = ''obj_m'', oe_uncompressed_bytes = 1, oe_compressed_bytes = 1,
        oe_content_type = ContentType.Json\<rparr>, sample_chunk_entry]\<rparr>,
      ac_file_manifests = Some [(''obj_m'', sample_manifest)],
      ac_object_source = Some (\<lambda>_. ([[1], [2]], Inr sample_chunk_entry))\<rparr>"

definition sample_verified :: VerifiedArtifact where
  "sample_verified = \<lparr>va_bytes = [1, 2], va_content_type = ContentType.Toml, va_digest = [1, 2]\<rparr>"

lemma sample_artifact_valid:
  "validate_artifact (\<lambda>_. Some (''obj_m'', [0])) sample_artifacts ''obj_m'' 64
   = Inr \<lparr>vda_layout = Manifest sample_manifest, vda_size_bytes = 2, vda_content_type = ContentType.Toml\<rparr>"
  by (simp add: validate_artifact_def sample_artifacts_def sample_manifest_def sample_chunk_entry_def
      indexed_entry_def validate_chunk_def FILE_CHUNK_BYTES_def checked_add_u64_def u64_max_def)

lemma sample_digest: "to_hex [1, 2] = ''0102''"
  by code_simp

lemma sample_artifact_read:
  "read_verified_artifact (\<lambda>b. b) (\<lambda>_. Some (''obj_m'', [0])) sample_artifacts ''obj_m'' 64 = Inr sample_verified"
  unfolding read_verified_artifact_def sample_artifact_valid
  by (simp add: sample_verified_def copy_validated_artifact_def copy_chunk_def copy_verified_indexed_object_def
      sample_artifacts_def sample_manifest_def sample_chunk_entry_def indexed_entry_def verifying_write_def
      limited_write_def checked_add_u64_def u64_max_def strip_prefix_def starts_with_def sample_digest [simplified])

theorem verified_artifact_is_exact_witness:
  "\<exists>artifact. validate_artifact (\<lambda>_. Some (''obj_m'', [0])) sample_artifacts ''obj_m'' 64 = Inr artifact
     \<and> matches_bytes (\<lambda>b. b) artifact [1, 2] \<and> vda_content_type artifact = ContentType.Toml"
  using verified_artifact_is_exact [OF sample_artifact_read] by (auto simp: sample_verified_def)

end
