(* ===== verification/ConfigMerge.thy ===== *)
theory ConfigMerge
  imports Artifacts
begin

text \<open>
  The merge of configuration files, \<^verbatim>\<open>crates/reforge-restore/src/handlers/config.rs\<close>: the JSONC
  stripper, the parsers' checks, and the merge of a package document into a target document under
  each policy, for JSON and for TOML. A \<^verbatim>\<open>serde_json::Map\<close> and a \<^verbatim>\<open>toml::Table\<close> are maps sorted by
  key. The JSON and TOML parsers and printers of the libraries are parameters. The two merges are
  two instances of the locale \<open>config_tree\<close>, in which what a merge keeps and what it takes is proved
  once.
\<close>

subsection \<open>Reading a document\<close>

text \<open>\<^verbatim>\<open>std::str::from_utf8\<close>: the text of a well-formed byte sequence.\<close>

definition from_utf8 :: "bytes \<Rightarrow> str option" where
  "from_utf8 bytes = (let s = map char_of bytes in if valid_utf8 s then Some s else None)"

text \<open>
  The loop of \<^verbatim>\<open>strip_jsonc\<close>. Its index is the text that is left; the inner loops over a line
  comment, a block comment and the white space after a comma are the helpers. The block comment
  ends behind its first star and slash, so the code's test for an empty comment never holds.
\<close>

fun skip_block :: "str \<Rightarrow> str option" where
  "skip_block (a # b # rest) = (if a = CHR ''*'' \<and> b = CHR ''/'' then Some rest else skip_block (b # rest))"
| "skip_block _ = None"

lemma skip_block_shorter: "skip_block s = Some rest \<Longrightarrow> length rest < length s"
  by (induction s rule: skip_block.induct) (auto split: if_splits)

function strip_loop :: "bool \<Rightarrow> bool \<Rightarrow> str \<Rightarrow> str \<Rightarrow> str restore" where
  "strip_loop in_string escaped [] out =
     (if in_string \<or> escaped then Inl (operation_error SchemaInvalid ''JSONC string is unterminated'')
      else Inr out)"
| "strip_loop in_string escaped (byte # rest) out =
     (if in_string
      then (if escaped then strip_loop True False rest (out @ [byte])
            else if byte = CHR 0x5C then strip_loop True True rest (out @ [byte])
            else if byte = CHR 0x22 then strip_loop False False rest (out @ [byte])
            else strip_loop True False rest (out @ [byte]))
      else if byte = CHR 0x22 then strip_loop True escaped rest (out @ [byte])
      else if byte = CHR ''/'' \<and> take 1 rest = ''/''
      then strip_loop False escaped (dropWhile (\<lambda>b. b \<noteq> CHR 0x0A) (drop 1 rest)) out
      else if byte = CHR ''/'' \<and> take 1 rest = ''*''
      then (case skip_block (drop 1 rest) of
              None \<Rightarrow> Inl (operation_error SchemaInvalid ''JSONC block comment is unterminated'')
            | Some after \<Rightarrow> strip_loop False escaped after out)
      else if byte = CHR '','' \<and> take 1 (dropWhile is_ascii_whitespace rest) \<in> {'']'', ''}''}
      then strip_loop False escaped rest out
      else strip_loop False escaped rest (out @ [byte]))"
  by pat_completeness auto
termination
proof (relation "measure (\<lambda>(_, _, s, _). length s)", goal_cases)
  case (7 in_string escaped byte rest out)
  have "length (dropWhile (\<lambda>b. b \<noteq> CHR 0x0A) (drop 1 rest)) \<le> length (drop 1 rest)"
    by (rule length_dropWhile_le)
  then show ?case by simp
next
  case (8 in_string escaped byte rest out after)
  then show ?case using skip_block_shorter [of "drop 1 rest" after] by simp
qed auto

definition strip_jsonc :: "str \<Rightarrow> str restore" where
  "strip_jsonc s = strip_loop False False s []"

definition parse_json_config :: "(str \<Rightarrow> Value option) \<Rightarrow> bytes \<Rightarrow> str \<Rightarrow> Value restore" where
  "parse_json_config from_slice bytes ctx =
     try_bind (ok_or (operation_error SchemaInvalid (ctx @ '' is not UTF-8'')) (from_utf8 bytes)) (\<lambda>s.
     try_bind (strip_jsonc s) (\<lambda>sanitized.
     try_bind (ok_or (operation_error SchemaInvalid (ctx @ '' is malformed or unsupported''))
                 (from_slice sanitized)) (\<lambda>v.
     if \<not> (case v of Object _ \<Rightarrow> True | _ \<Rightarrow> False)
     then Inl (operation_error SchemaInvalid (ctx @ '' must contain a top-level object''))
     else Inr v)))"

subsection \<open>JSON\<close>

definition or_blank :: "'v \<Rightarrow> 'v option \<Rightarrow> 'v" where
  "or_blank blank x = (case x of None \<Rightarrow> blank | Some v \<Rightarrow> v)"

fun merge_json_preserving :: "Value \<Rightarrow> Value \<Rightarrow> Value"
  and preserve_entries :: "(str \<times> Value) list \<Rightarrow> (str \<times> Value) list \<Rightarrow> (str \<times> Value) list" where
  "merge_json_preserving (Object target) (Object source) = Object (preserve_entries target source)"
| "merge_json_preserving target source = source"
| "preserve_entries target [] = target"
| "preserve_entries target ((key, v) # source) =
     preserve_entries (bt_insert key (merge_json_preserving (or_blank Null (bt_get target key)) v) target) source"

definition append_unique :: "('a \<Rightarrow> 'a \<Rightarrow> bool) \<Rightarrow> 'a list \<Rightarrow> 'a list \<Rightarrow> 'a list" where
  "append_unique eq target source =
     fold (\<lambda>v target. if list_ex (\<lambda>x. eq x v) target then target else target @ [v]) source target"

fun merge_json_append :: "Value \<Rightarrow> Value \<Rightarrow> Value"
  and append_entries :: "(str \<times> Value) list \<Rightarrow> (str \<times> Value) list \<Rightarrow> (str \<times> Value) list" where
  "merge_json_append (Object target) (Object source) = Object (append_entries target source)"
| "merge_json_append (Array target) (Array source) = Array (append_unique (=) target source)"
| "merge_json_append target source = source"
| "append_entries target [] = target"
| "append_entries target ((key, v) # source) =
     append_entries (bt_insert key (merge_json_append (or_blank Null (bt_get target key)) v) target) source"

fun json_has_conflict :: "Value \<Rightarrow> Value \<Rightarrow> bool"
  and entries_conflict :: "(str \<times> Value) list \<Rightarrow> (str \<times> Value) list \<Rightarrow> bool" where
  "json_has_conflict (Object target) (Object source) \<longleftrightarrow> entries_conflict target source"
| "json_has_conflict target source \<longleftrightarrow> target \<noteq> source"
| "entries_conflict target [] \<longleftrightarrow> False"
| "entries_conflict target ((key, v) # source) \<longleftrightarrow>
     (case bt_get target key of None \<Rightarrow> False | Some x \<Rightarrow> json_has_conflict x v) \<or> entries_conflict target source"

text \<open>Merging one entry of the document into the target object, and the whole document.\<close>

definition merge_json_entry :: "MergePolicy \<Rightarrow> str \<times> Value \<Rightarrow> (str \<times> Value) list \<Rightarrow> (str \<times> Value) list" where
  "merge_json_entry policy = (\<lambda>(key, v) target_object.
     case policy of
       PreserveUnknown \<Rightarrow>
         bt_insert key (merge_json_preserving (or_blank Null (bt_get target_object key)) v) target_object
     | ManualOnConflict \<Rightarrow>
         bt_insert key (merge_json_preserving (or_blank Null (bt_get target_object key)) v) target_object
     | ReplaceKnownKeys \<Rightarrow> bt_insert key v target_object
     | AppendUnique \<Rightarrow>
         bt_insert key (merge_json_append (or_blank Null (bt_get target_object key)) v) target_object)"

definition merge_json_document ::
  "Value \<Rightarrow> Value \<Rightarrow> MergePolicy \<Rightarrow> ('e abort, Value \<times> bool) result" where
  "merge_json_document target source policy =
     (case (target, source) of
        (Object target_object, Object source_object) \<Rightarrow>
          if policy = ManualOnConflict \<and> json_has_conflict (Object target_object) source
          then Inr (target, True)
          else Inr (Object (fold (merge_json_entry policy) source_object target_object), False)
      | _ \<Rightarrow> Inl Panic)"

subsection \<open>TOML\<close>

text \<open>
  A float is finite (\<open>m * 2 ^ e\<close> in lowest terms), infinite or not a number, which is different from
  itself; \<open>toml_eq\<close> is the derived equality of \<^verbatim>\<open>toml::Value\<close>. A date is its text.
\<close>

datatype f64 = Finite int int | Infinite bool | NaN

datatype Toml =
    TString str
  | TInteger int
  | TFloat f64
  | TBoolean bool
  | TDatetime str
  | TArray "Toml list"
  | TTable "(str \<times> Toml) list"

fun toml_eq :: "Toml \<Rightarrow> Toml \<Rightarrow> bool"
  and toml_eq_list :: "Toml list \<Rightarrow> Toml list \<Rightarrow> bool"
  and toml_eq_table :: "(str \<times> Toml) list \<Rightarrow> (str \<times> Toml) list \<Rightarrow> bool" where
  "toml_eq (TFloat x) (TFloat y) \<longleftrightarrow> x = y \<and> x \<noteq> NaN"
| "toml_eq (TArray xs) (TArray ys) \<longleftrightarrow> toml_eq_list xs ys"
| "toml_eq (TTable xs) (TTable ys) \<longleftrightarrow> toml_eq_table xs ys"
| "toml_eq x y \<longleftrightarrow> x = y"
| "toml_eq_list [] ys \<longleftrightarrow> ys = []"
| "toml_eq_list (x # xs) ys \<longleftrightarrow> (case ys of [] \<Rightarrow> False | y # ys \<Rightarrow> toml_eq x y \<and> toml_eq_list xs ys)"
| "toml_eq_table [] ys \<longleftrightarrow> ys = []"
| "toml_eq_table ((k, x) # xs) ys \<longleftrightarrow>
     (case ys of [] \<Rightarrow> False | (l, y) # ys \<Rightarrow> k = l \<and> toml_eq x y \<and> toml_eq_table xs ys)"

abbreviation empty_toml :: Toml where "empty_toml \<equiv> TString []"

fun merge_toml_preserving :: "Toml \<Rightarrow> Toml \<Rightarrow> Toml"
  and preserve_table :: "(str \<times> Toml) list \<Rightarrow> (str \<times> Toml) list \<Rightarrow> (str \<times> Toml) list" where
  "merge_toml_preserving (TTable target) (TTable source) = TTable (preserve_table target source)"
| "merge_toml_preserving target source = source"
| "preserve_table target [] = target"
| "preserve_table target ((key, v) # source) =
     preserve_table (bt_insert key (merge_toml_preserving (or_blank empty_toml (bt_get target key)) v) target) source"

fun merge_toml_append :: "Toml \<Rightarrow> Toml \<Rightarrow> Toml"
  and append_table :: "(str \<times> Toml) list \<Rightarrow> (str \<times> Toml) list \<Rightarrow> (str \<times> Toml) list" where
  "merge_toml_append (TTable target) (TTable source) = TTable (append_table target source)"
| "merge_toml_append (TArray target) (TArray source) = TArray (append_unique toml_eq target source)"
| "merge_toml_append target source = source"
| "append_table target [] = target"
| "append_table target ((key, v) # source) =
     append_table (bt_insert key (merge_toml_append (or_blank empty_toml (bt_get target key)) v) target) source"

fun toml_value_conflict :: "Toml \<Rightarrow> Toml \<Rightarrow> bool"
  and toml_has_conflict :: "(str \<times> Toml) list \<Rightarrow> (str \<times> Toml) list \<Rightarrow> bool" where
  "toml_value_conflict (TTable target) (TTable source) \<longleftrightarrow> toml_has_conflict target source"
| "toml_value_conflict target source \<longleftrightarrow> \<not> toml_eq target source"
| "toml_has_conflict target [] \<longleftrightarrow> False"
| "toml_has_conflict target ((key, v) # source) \<longleftrightarrow>
     (case bt_get target key of None \<Rightarrow> False | Some x \<Rightarrow> toml_value_conflict x v) \<or> toml_has_conflict target source"

definition merge_toml_entry :: "MergePolicy \<Rightarrow> str \<times> Toml \<Rightarrow> (str \<times> Toml) list \<Rightarrow> (str \<times> Toml) list" where
  "merge_toml_entry policy = (\<lambda>(key, v) target.
     case policy of
       PreserveUnknown \<Rightarrow> bt_insert key (merge_toml_preserving (or_blank empty_toml (bt_get target key)) v) target
     | ManualOnConflict \<Rightarrow> bt_insert key (merge_toml_preserving (or_blank empty_toml (bt_get target key)) v) target
     | ReplaceKnownKeys \<Rightarrow> bt_insert key v target
     | AppendUnique \<Rightarrow> bt_insert key (merge_toml_append (or_blank empty_toml (bt_get target key)) v) target)"

definition merge_toml_document ::
  "(str \<times> Toml) list \<Rightarrow> (str \<times> Toml) list \<Rightarrow> MergePolicy \<Rightarrow> (str \<times> Toml) list \<times> bool" where
  "merge_toml_document target source policy =
     (if policy = ManualOnConflict \<and> toml_has_conflict target source then (target, True)
      else (fold (merge_toml_entry policy) source target, False))"

definition parse_toml_config :: "(str \<Rightarrow> (str \<times> Toml) list option) \<Rightarrow> bytes \<Rightarrow> str \<Rightarrow> (str \<times> Toml) list restore" where
  "parse_toml_config table_from_str bytes ctx =
     try_bind (ok_or (operation_error SchemaInvalid (ctx @ '' is not UTF-8'')) (from_utf8 bytes)) (\<lambda>s.
     ok_or (operation_error SchemaInvalid (ctx @ '' is malformed or unsupported'')) (table_from_str s))"

subsection \<open>The handler's decision\<close>

text \<open>
  The two branches of \<^verbatim>\<open>execute\<close> after the target file and the package artifact were read: wait for
  the user, leave the file alone, or commit the printed document.
\<close>

datatype config_action = AwaitReview | NoChange | Commit str

definition execute_json ::
  "(str \<Rightarrow> Value option) \<Rightarrow> (Value \<Rightarrow> str option) \<Rightarrow> bytes option \<Rightarrow> VerifiedArtifact \<Rightarrow> MergePolicy
   \<Rightarrow> (ErrorEnvelope abort, config_action) result" where
  "execute_json from_slice to_vec_pretty existing artifact policy =
     try_bind (lift_fail (content_type_allowed (va_content_type artifact) [ContentType.Json, Jsonc])) (\<lambda>_.
     try_bind (lift_fail (parse_json_config from_slice (va_bytes artifact) ''package JSON configuration'')) (\<lambda>source.
     try_bind (case existing of
                 None \<Rightarrow> Inr (Object [])
               | Some bytes \<Rightarrow> lift_fail (parse_json_config from_slice bytes ''target JSON configuration'')) (\<lambda>target.
     try_bind (merge_json_document target source policy) (\<lambda>(merged, waiting).
     if waiting then Inr AwaitReview
     else if merged = target then Inr NoChange
     else try_bind (lift_fail (ok_or (operation_error OperationFailed
                      ''merged JSON configuration could not be serialized'') (to_vec_pretty merged)))
            (\<lambda>bytes. Inr (Commit bytes))))))"

definition execute_toml ::
  "(str \<Rightarrow> (str \<times> Toml) list option) \<Rightarrow> ((str \<times> Toml) list \<Rightarrow> str option) \<Rightarrow> bytes option
   \<Rightarrow> VerifiedArtifact \<Rightarrow> MergePolicy \<Rightarrow> config_action restore" where
  "execute_toml table_from_str to_string_pretty existing artifact policy =
     try_bind (content_type_allowed (va_content_type artifact) [ContentType.Toml]) (\<lambda>_.
     try_bind (parse_toml_config table_from_str (va_bytes artifact) ''package TOML configuration'') (\<lambda>source.
     try_bind (case existing of
                 None \<Rightarrow> Inr []
               | Some bytes \<Rightarrow> parse_toml_config table_from_str bytes ''target TOML configuration'') (\<lambda>target.
     let (merged, waiting) = merge_toml_document target source policy in
     if waiting then Inr AwaitReview
     else if toml_eq_table merged target then Inr NoChange
     else try_bind (ok_or (operation_error OperationFailed
                      ''merged TOML configuration could not be serialized'') (to_string_pretty merged))
            (\<lambda>bytes. Inr (Commit bytes)))))"

subsection \<open>Merging the entries of sorted maps\<close>

definition merge_all :: "('v \<Rightarrow> 'v \<Rightarrow> 'v) \<Rightarrow> 'v \<Rightarrow> (str \<times> 'v) list \<Rightarrow> (str \<times> 'v) list \<Rightarrow> (str \<times> 'v) list" where
  "merge_all f blank target source =
     fold (\<lambda>(key, v) m. bt_insert key (f (or_blank blank (bt_get m key)) v) m) source target"

lemma merge_all_simps [simp]:
  "merge_all f blank target [] = target"
  "merge_all f blank target ((key, v) # source) =
     merge_all f blank (bt_insert key (f (or_blank blank (bt_get target key)) v) target) source"
  by (simp_all add: merge_all_def)

lemma merge_all_inv: "bt_inv target \<Longrightarrow> bt_inv (merge_all f blank target source)"
  by (induction source arbitrary: target) (auto simp: bt_inv_insert)

lemma merge_all_get:
  assumes "bt_inv target" and "distinct (map fst source)"
  shows "bt_get (merge_all f blank target source) k =
     (case bt_get source k of
        None \<Rightarrow> bt_get target k
      | Some v \<Rightarrow> Some (f (or_blank blank (bt_get target k)) v))"
  using assms
proof (induction source arbitrary: target)
  case (Cons kv source)
  obtain key v where kv: "kv = (key, v)" by force
  have none: "bt_get source key = None" using Cons.prems(2) by (simp add: kv map_of_eq_None_iff)
  have "bt_inv (bt_insert key (f (or_blank blank (bt_get target key)) v) target)"
    using Cons.prems(1) by (rule bt_inv_insert)
  from Cons.IH [OF this] Cons.prems none show ?case
    by (auto simp: kv bt_get_insert split: option.split)
qed simp

lemma bt_insert_same: "bt_inv m \<Longrightarrow> bt_get m k = Some v \<Longrightarrow> bt_insert k v m = m"
proof (induction m)
  case (Cons kv m)
  obtain k' v' where kv: "kv = (k', v')" by force
  from Cons.prems have "bt_inv m" and "\<forall>x \<in> set (map fst m). k' < x" by (auto simp: bt_inv_def kv)
  moreover have "k \<in> set (map fst m)" if "k \<noteq> k'"
    using Cons.prems(2) that by (force simp: kv dest: map_of_SomeD)
  ultimately show ?case using Cons by (cases "k = k'") (auto simp: kv dest: order.asym)
qed simp

lemma merge_all_same:
  assumes "bt_inv m" and "\<forall>k v. (k, v) \<in> set source \<longrightarrow> (\<exists>x. bt_get m k = Some x \<and> f x v = x)"
  shows "merge_all f blank m source = m"
  using assms(2)
proof (induction source)
  case (Cons kv source)
  obtain key v where kv: "kv = (key, v)" by force
  with Cons.prems obtain x where "bt_get m key = Some x" "f x v = x" by auto
  with Cons assms(1) show ?case by (simp add: kv or_blank_def bt_insert_same)
qed simp

subsection \<open>Trees of entries\<close>

primrec tree_at :: "('v \<Rightarrow> (str \<times> 'v) list option) \<Rightarrow> 'v \<Rightarrow> str list \<Rightarrow> 'v option" where
  "tree_at entries v [] = Some v"
| "tree_at entries v (k # p) =
     (case entries v of None \<Rightarrow> None | Some t \<Rightarrow> (case bt_get t k of None \<Rightarrow> None | Some x \<Rightarrow> tree_at entries x p))"

text \<open>A path the document \<open>s\<close> says nothing about: it leaves \<open>s\<close> at an object without the next key.\<close>

primrec unmentioned :: "('v \<Rightarrow> (str \<times> 'v) list option) \<Rightarrow> 'v \<Rightarrow> str list \<Rightarrow> bool" where
  "unmentioned entries s [] = False"
| "unmentioned entries s (k # p) =
     (case entries s of None \<Rightarrow> False | Some t \<Rightarrow> (case bt_get t k of None \<Rightarrow> True | Some x \<Rightarrow> unmentioned entries x p))"

text \<open>
  The contract of a recursive merge: objects are merged entry by entry, everything else by \<open>leaf\<close>.
  \<open>tidy\<close> says that the maps are sorted, \<open>good\<close> what \<open>leaf\<close> needs of the source to be idempotent.
\<close>

locale config_tree =
  fixes Obj :: "(str \<times> 'v) list \<Rightarrow> 'v"
    and entries :: "'v \<Rightarrow> (str \<times> 'v) list option"
    and blank :: 'v
    and merge :: "'v \<Rightarrow> 'v \<Rightarrow> 'v"
    and leaf :: "'v \<Rightarrow> 'v \<Rightarrow> 'v"
    and tidy :: "'v \<Rightarrow> bool"
    and good :: "'v \<Rightarrow> bool"
  assumes entries_iff: "entries v = Some t \<longleftrightarrow> v = Obj t"
    and entries_blank: "entries blank = None"
    and merge_Obj: "merge (Obj t) (Obj s) = Obj (merge_all merge blank t s)"
    and merge_leaf: "entries a = None \<or> entries b = None \<Longrightarrow> merge a b = leaf a b"
    and leaf_Obj: "entries a = None \<Longrightarrow> leaf a (Obj s) = Obj s"
    and leaf_entries: "entries b = None \<Longrightarrow> entries (leaf a b) = None"
    and leaf_again: "good b \<Longrightarrow> entries b = None \<Longrightarrow> leaf (leaf a b) b = leaf a b"
    and leaf_same: "good b \<Longrightarrow> entries b = None \<Longrightarrow> leaf b b = b"
    and tidy_Obj: "tidy (Obj t) \<longleftrightarrow> bt_inv t \<and> (\<forall>(k, v) \<in> set t. tidy v)"
    and good_Obj: "good (Obj t) \<Longrightarrow> \<forall>(k, v) \<in> set t. good v"
    and tidy_blank: "tidy blank"
    and tree_induct: "(\<And>v. (\<And>t k x. v = Obj t \<Longrightarrow> (k, x) \<in> set t \<Longrightarrow> P x) \<Longrightarrow> P v) \<Longrightarrow> P v"
begin

lemma entries_Obj [simp]: "entries (Obj t) = Some t"
  by (simp add: entries_iff)

lemma tidy_get: "tidy (Obj t) \<Longrightarrow> bt_get t k = Some v \<Longrightarrow> tidy v"
  by (force simp: tidy_Obj dest: map_of_SomeD)

lemma merge_get:
  assumes "tidy (Obj t)" "tidy (Obj s)"
  shows "bt_get (merge_all merge blank t s) k =
    (case bt_get s k of None \<Rightarrow> bt_get t k | Some v \<Rightarrow> Some (merge (or_blank blank (bt_get t k)) v))"
  using assms by (intro merge_all_get) (auto simp: tidy_Obj bt_inv_distinct)

lemma tidy_or_blank: "tidy (Obj t) \<Longrightarrow> tidy (or_blank blank (bt_get t k))"
  by (auto simp: or_blank_def tidy_blank tidy_get split: option.split)

lemma merge_same: "tidy s \<Longrightarrow> good s \<Longrightarrow> merge s s = s"
proof (induction s rule: tree_induct)
  case (1 s)
  show ?case
  proof (cases "entries s")
    case None
    with 1 show ?thesis by (simp add: merge_leaf leaf_same)
  next
    case (Some t)
    then have s: "s = Obj t" by (simp add: entries_iff)
    have inv: "bt_inv t" using 1 s by (simp add: tidy_Obj)
    have "\<exists>x. bt_get t k = Some x \<and> merge x v = x" if kv: "(k, v) \<in> set t" for k v
    proof -
      have "bt_get t k = Some v" using kv inv by (simp add: bt_inv_distinct)
      moreover have "tidy v" "good v" using "1.prems" good_Obj kv s by (auto simp: tidy_Obj)
      ultimately show ?thesis using "1.IH" [OF s kv] by simp
    qed
    with inv show ?thesis by (simp add: s merge_Obj merge_all_same)
  qed
qed

text \<open>Merging the same document again changes nothing.\<close>

lemma merge_idempotent: "tidy t \<Longrightarrow> tidy s \<Longrightarrow> good s \<Longrightarrow> merge (merge t s) s = merge t s"
proof (induction s arbitrary: t rule: tree_induct)
  case (1 s)
  show ?case
  proof (cases "entries s")
    case None
    then have "entries (merge t s) = None" by (simp add: merge_leaf leaf_entries)
    with None 1 show ?thesis by (simp add: merge_leaf leaf_again)
  next
    case (Some s')
    then have s: "s = Obj s'" by (simp add: entries_iff)
    show ?thesis
    proof (cases "entries t")
      case None
      then have "merge t s = s" by (simp add: s merge_leaf leaf_Obj)
      with 1 show ?thesis by (simp add: merge_same)
    next
      case (Some t')
      then have t: "t = Obj t'" by (simp add: entries_iff)
      have inv: "bt_inv t'" "bt_inv s'" using "1.prems" by (simp_all add: t s tidy_Obj)
      have "\<exists>x. bt_get (merge_all merge blank t' s') k = Some x \<and> merge x v = x" if kv: "(k, v) \<in> set s'" for k v
      proof -
        have "bt_get s' k = Some v" using kv inv by (simp add: bt_inv_distinct)
        moreover have "tidy v" "good v" using "1.prems" good_Obj kv s by (auto simp: tidy_Obj)
        ultimately show ?thesis
          using merge_get [of t' s' k] "1.prems" "1.IH" [OF s kv] tidy_or_blank [of t' k] by (simp add: s t)
      qed
      with inv show ?thesis by (simp add: s t merge_Obj merge_all_same merge_all_inv)
    qed
  qed
qed

text \<open>Paths the source does not mention keep their value, or stay absent.\<close>

lemma merge_keeps_unmentioned:
  "tidy t \<Longrightarrow> tidy s \<Longrightarrow> unmentioned entries s p \<Longrightarrow> tree_at entries (merge t s) p = tree_at entries t p"
proof (induction p arbitrary: t s)
  case (Cons k p)
  then obtain s' where s: "s = Obj s'" by (auto simp: entries_iff split: option.splits)
  show ?case
  proof (cases "entries t")
    case None
    have "tree_at entries s q = None" if "unmentioned entries s q" for s q
      using that by (induction q arbitrary: s) (auto split: option.splits)
    with Cons.prems None show ?thesis by (simp add: s merge_leaf leaf_Obj split: option.splits)
  next
    case (Some t')
    then have t: "t = Obj t'" by (simp add: entries_iff)
    note get = merge_get [of t' s' k]
    show ?thesis
    proof (cases "bt_get s' k")
      case None
      with get Cons.prems show ?thesis by (simp add: t s merge_Obj)
    next
      case (Some v)
      have IH: "tree_at entries (merge u v) p = tree_at entries u p" if "tidy u" for u
        using Cons.IH [OF that, of v] Cons.prems Some tidy_get by (simp add: s)
      have blank: "tree_at entries blank p = None"
        using Cons.prems Some by (cases p) (simp_all add: s entries_blank)
      show ?thesis
      proof (cases "bt_get t' k")
        case None
        with get Some Cons.prems IH [OF tidy_blank] blank show ?thesis by (simp add: t s merge_Obj or_blank_def)
      next
        case (Some u)
        with get \<open>bt_get s' k = Some v\<close> Cons.prems IH [of u] tidy_get [of t' k u] show ?thesis
          by (simp add: t s merge_Obj or_blank_def)
      qed
    qed
  qed
qed simp

text \<open>Where both documents have a value, not both objects, the values are merged as leaves.\<close>

lemma merge_at_both:
  "tidy t \<Longrightarrow> tidy s \<Longrightarrow> tree_at entries t p = Some x \<Longrightarrow> tree_at entries s p = Some y
   \<Longrightarrow> entries x = None \<or> entries y = None \<Longrightarrow> tree_at entries (merge t s) p = Some (leaf x y)"
proof (induction p arbitrary: t s)
  case Nil
  then show ?case by (auto simp: merge_leaf)
next
  case (Cons k p)
  then obtain t' u s' v where t: "t = Obj t'" "bt_get t' k = Some u" "tree_at entries u p = Some x"
    and s: "s = Obj s'" "bt_get s' k = Some v" "tree_at entries v p = Some y"
    by (auto simp: entries_iff split: option.splits)
  then have "tree_at entries (merge u v) p = Some (leaf x y)"
    using Cons.IH [of u v] Cons.prems tidy_get [of t' k u] tidy_get [of s' k v] by simp
  with merge_get [of t' s' k] Cons.prems t s show ?case by (simp add: merge_Obj or_blank_def)
qed

end

text \<open>A merge that replaces leaves, with the test for conflicts that goes with it.\<close>

locale config_conflict = config_tree Obj entries blank merge "\<lambda>_ s. s" tidy "\<lambda>_. True"
  for Obj :: "(str \<times> 'v) list \<Rightarrow> 'v" and entries blank merge tidy +
  fixes conflict :: "'v \<Rightarrow> 'v \<Rightarrow> bool"
    and eq :: "'v \<Rightarrow> 'v \<Rightarrow> bool"
  assumes conflict_Obj: "conflict (Obj t) (Obj s) \<longleftrightarrow>
      (\<exists>(k, v) \<in> set s. \<exists>x. bt_get t k = Some x \<and> conflict x v)"
    and conflict_leaf: "entries a = None \<or> entries b = None \<Longrightarrow> conflict a b \<longleftrightarrow> \<not> eq a b"
    and eq_imp: "eq a b \<Longrightarrow> a = b"
begin

text \<open>What the source sets is in the result.\<close>

lemma merge_takes_source:
  "tidy t \<Longrightarrow> tidy s \<Longrightarrow> tree_at entries s p = Some v \<Longrightarrow> entries v = None
   \<Longrightarrow> tree_at entries (merge t s) p = Some v"
proof (induction p arbitrary: t s)
  case Nil
  then show ?case by (simp add: merge_leaf)
next
  case (Cons k p)
  then obtain s' x where s: "s = Obj s'" and x: "bt_get s' k = Some x" "tree_at entries x p = Some v"
    by (auto simp: entries_iff split: option.splits)
  show ?case
  proof (cases "entries t")
    case None
    then show ?thesis using Cons.prems by (simp add: merge_leaf s)
  next
    case (Some t')
    then have t: "t = Obj t'" by (simp add: entries_iff)
    have "tree_at entries (merge (or_blank blank (bt_get t' k)) x) p = Some v"
      using Cons.IH [of "or_blank blank (bt_get t' k)" x] Cons.prems x tidy_or_blank [of t' k] tidy_get [of s' k x]
      by (simp add: t s)
    with merge_get [of t' s' k] Cons.prems x show ?thesis by (simp add: t s merge_Obj)
  qed
qed

text \<open>Without a conflict every value of the target survives.\<close>

lemma no_conflict_keeps_target:
  "tidy t \<Longrightarrow> tidy s \<Longrightarrow> \<not> conflict t s \<Longrightarrow> tree_at entries t p = Some v \<Longrightarrow> entries v = None
   \<Longrightarrow> tree_at entries (merge t s) p = Some v"
proof (induction p arbitrary: t s)
  case Nil
  then have "t = s" using conflict_leaf eq_imp by auto
  with Nil show ?case by (simp add: merge_leaf)
next
  case (Cons k p)
  then obtain t' x where t: "t = Obj t'" and x: "bt_get t' k = Some x" "tree_at entries x p = Some v"
    by (auto simp: entries_iff split: option.splits)
  obtain s' where s: "s = Obj s'"
  proof (cases "entries s")
    case None
    with Cons.prems(3) conflict_leaf eq_imp have "t = s" by blast
    with None t show ?thesis by simp
  next
    case (Some s')
    then show ?thesis using that by (simp add: entries_iff)
  qed
  show ?case
  proof (cases "bt_get s' k")
    case None
    with merge_get [of t' s' k] Cons.prems x show ?thesis by (simp add: t s merge_Obj)
  next
    case (Some y)
    then have "\<not> conflict x y" using Cons.prems(3) x by (auto simp: t s conflict_Obj dest: map_of_SomeD)
    with Cons.IH [of x y] Cons.prems x Some tidy_get [of t' k x] tidy_get [of s' k y]
    have "tree_at entries (merge x y) p = Some v" by (simp add: t s)
    with merge_get [of t' s' k] Cons.prems x Some show ?thesis by (simp add: t s merge_Obj or_blank_def)
  qed
qed

text \<open>A conflict is a path at which both documents have a value, not both objects, and they differ.\<close>

definition clash :: "'v \<Rightarrow> 'v \<Rightarrow> str list \<Rightarrow> bool" where
  "clash t s p \<longleftrightarrow> (\<exists>x y. tree_at entries t p = Some x \<and> tree_at entries s p = Some y
     \<and> (entries x = None \<or> entries y = None) \<and> \<not> eq x y)"

lemma clash_Cons: "clash (Obj t) (Obj s) (k # p) \<longleftrightarrow>
    (\<exists>x y. bt_get t k = Some x \<and> bt_get s k = Some y \<and> clash x y p)"
  by (auto simp: clash_def split: option.splits)

lemma clash_leaf: "entries t = None \<or> entries s = None \<Longrightarrow> clash t s p \<longleftrightarrow> p = [] \<and> \<not> eq t s"
  by (cases p) (auto simp: clash_def split: option.splits)

lemma conflict_iff_clash: "tidy s \<Longrightarrow> conflict t s \<longleftrightarrow> (\<exists>p. clash t s p)"
proof (induction s arbitrary: t rule: tree_induct)
  case (1 s)
  show ?case
  proof (cases "entries t = None \<or> entries s = None")
    case True
    then show ?thesis by (simp add: conflict_leaf clash_leaf)
  next
    case False
    then obtain t' s' where ts: "t = Obj t'" "s = Obj s'" by (auto simp: entries_iff)
    have dist: "distinct (map fst s')" using "1.prems" by (simp add: ts tidy_Obj bt_inv_distinct)
    have "conflict t s \<longleftrightarrow> (\<exists>k v. (k, v) \<in> set s' \<and> (\<exists>x. bt_get t' k = Some x \<and> conflict x v))"
      by (auto simp: ts conflict_Obj)
    also have "\<dots> \<longleftrightarrow> (\<exists>k v. (k, v) \<in> set s' \<and> (\<exists>x. bt_get t' k = Some x \<and> (\<exists>p. clash x v p)))"
      using "1.IH" [OF ts(2)] "1.prems" by (fastforce simp: ts tidy_Obj)
    also have "\<dots> \<longleftrightarrow> (\<exists>k p. clash t s (k # p))"
      using dist by (auto simp: ts clash_Cons)
    also have "\<dots> \<longleftrightarrow> (\<exists>p. clash t s p)"
    proof
      assume "\<exists>p. clash t s p"
      then obtain p where p: "clash t s p" by blast
      moreover have "p \<noteq> []" using p by (auto simp: clash_def ts)
      ultimately show "\<exists>k p. clash t s (k # p)" by (metis neq_Nil_conv)
    qed blast
    finally show ?thesis .
  qed
qed

lemma merge_takes_objects:
  "tidy t \<Longrightarrow> tidy s \<Longrightarrow> tree_at entries s p = Some y \<Longrightarrow> entries y \<noteq> None
   \<Longrightarrow> \<exists>x. tree_at entries (merge t s) p = Some x \<and> entries x \<noteq> None"
proof (induction p arbitrary: t s)
  case Nil
  then show ?case by (cases "entries t") (auto simp: entries_iff merge_leaf merge_Obj)
next
  case (Cons k p)
  then obtain s' x where s: "s = Obj s'" and x: "bt_get s' k = Some x" "tree_at entries x p = Some y"
    by (auto simp: entries_iff split: option.splits)
  show ?case
  proof (cases "entries t")
    case None
    then show ?thesis using Cons.prems by (simp add: merge_leaf s)
  next
    case (Some t')
    then have t: "t = Obj t'" by (simp add: entries_iff)
    from Cons.IH [of "or_blank blank (bt_get t' k)" x] Cons.prems x tidy_or_blank [of t' k] tidy_get [of s' k x]
    have "\<exists>z. tree_at entries (merge (or_blank blank (bt_get t' k)) x) p = Some z \<and> entries z \<noteq> None"
      by (simp add: t s)
    with merge_get [of t' s' k] Cons.prems x show ?thesis by (simp add: t s merge_Obj)
  qed
qed

lemma no_conflict_after_merge:
  assumes "tidy t" "tidy s" and self: "\<forall>p y. tree_at entries s p = Some y \<and> entries y = None \<longrightarrow> eq y y"
  shows "\<not> conflict (merge t s) s"
proof -
  have "\<not> clash (merge t s) s p" for p
  proof
    assume "clash (merge t s) s p"
    then obtain x y where xy: "tree_at entries (merge t s) p = Some x" "tree_at entries s p = Some y"
      "entries x = None \<or> entries y = None" "\<not> eq x y" by (auto simp: clash_def)
    show False
    proof (cases "entries y")
      case None
      with merge_takes_source [OF assms(1,2) xy(2)] xy self show False by auto
    next
      case (Some u)
      with merge_takes_objects [OF assms(1,2) xy(2)] xy show False by auto
    qed
  qed
  with conflict_iff_clash [OF assms(2)] show ?thesis by blast
qed

end

subsection \<open>The two formats are such trees\<close>

lemma append_unique_simps [simp]:
  "append_unique eq t [] = t"
  "append_unique eq t (v # s) = append_unique eq (if list_ex (\<lambda>x. eq x v) t then t else t @ [v]) s"
  by (simp_all add: append_unique_def)

lemma append_unique_prefix: "\<exists>r. append_unique eq t s = t @ r"
proof (induction s arbitrary: t)
  case (Cons v s)
  from Cons.IH [of t] Cons.IH [of "t @ [v]"] show ?case by auto
qed simp

lemma append_unique_set: "set t \<subseteq> set (append_unique eq t s) \<and> set (append_unique eq t s) \<subseteq> set t \<union> set s"
proof (induction s arbitrary: t)
  case (Cons v s)
  from Cons.IH [of t] Cons.IH [of "t @ [v]"] show ?case by auto
qed simp

lemma append_unique_covers:
  "\<forall>v \<in> set s. eq v v \<Longrightarrow> v \<in> set s \<Longrightarrow> list_ex (\<lambda>x. eq x v) (append_unique eq t s)"
proof (induction s arbitrary: t)
  case (Cons w s)
  let ?t = "if list_ex (\<lambda>x. eq x w) t then t else t @ [w]"
  show ?case
  proof (cases "v = w")
    case True
    have "list_ex (\<lambda>x. eq x w) ?t" using Cons.prems(1) by (auto simp: list_ex_iff)
    then have "list_ex (\<lambda>x. eq x w) (append_unique eq ?t s)"
      using append_unique_set [of ?t eq s] unfolding list_ex_iff by blast
    with True show ?thesis by simp
  qed (use Cons in simp)
qed simp

lemma append_unique_covered:
  "\<forall>v \<in> set s. list_ex (\<lambda>x. eq x v) t \<Longrightarrow> append_unique eq t s = t"
  by (induction s) simp_all

lemma append_unique_again:
  "\<forall>v \<in> set s. eq v v \<Longrightarrow> append_unique eq (append_unique eq t s) s = append_unique eq t s"
  by (rule append_unique_covered) (simp add: append_unique_covers)

lemma append_unique_self: "\<forall>v \<in> set s. eq v v \<Longrightarrow> append_unique eq s s = s"
  by (rule append_unique_covered) (auto simp: list_ex_iff)

fun json_entries :: "Value \<Rightarrow> (str \<times> Value) list option" where
  "json_entries (Object kvs) = Some kvs"
| "json_entries _ = None"

fun tidy_json :: "Value \<Rightarrow> bool" and tidy_entries :: "(str \<times> Value) list \<Rightarrow> bool" where
  "tidy_json (Object kvs) \<longleftrightarrow> bt_inv kvs \<and> tidy_entries kvs"
| "tidy_json _ \<longleftrightarrow> True"
| "tidy_entries [] \<longleftrightarrow> True"
| "tidy_entries ((k, v) # kvs) \<longleftrightarrow> tidy_json v \<and> tidy_entries kvs"

fun json_append_leaf :: "Value \<Rightarrow> Value \<Rightarrow> Value" where
  "json_append_leaf (Array t) (Array s) = Array (append_unique (=) t s)"
| "json_append_leaf t s = s"

abbreviation json_at :: "Value \<Rightarrow> str list \<Rightarrow> Value option" where "json_at \<equiv> tree_at json_entries"

lemma json_entries_iff: "json_entries v = Some t \<longleftrightarrow> v = Object t"
  by (cases v) auto

lemma json_entries_None: "json_entries v = None \<longleftrightarrow> (\<forall>t. v \<noteq> Object t)"
  by (cases v) auto

lemma tidy_entries_iff: "tidy_entries kvs \<longleftrightarrow> (\<forall>(k, v) \<in> set kvs. tidy_json v)"
  by (induction kvs) auto

lemma json_tree_induct:
  assumes "\<And>v. (\<And>t k x. v = Object t \<Longrightarrow> (k, x) \<in> set t \<Longrightarrow> P x) \<Longrightarrow> P v"
  shows "P v"
proof (induction v rule: measure_induct_rule [of size])
  case (less v)
  show ?case
  proof (rule assms)
    fix t k x assume v: "v = Object t" and "(k, x) \<in> set t"
    then have "size_prod (\<lambda>x. 0) size (k, x) \<le> size_list (size_prod (\<lambda>x. 0) size) t"
      using size_list_estimation' [of "(k, x)" t] by blast
    with v less show "P x" by simp
  qed
qed

lemma preserve_entries_eq: "preserve_entries t s = merge_all merge_json_preserving Null t s"
proof (induction s arbitrary: t)
  case (Cons kv s)
  then show ?case by (cases kv) simp
qed simp

lemma append_entries_eq: "append_entries t s = merge_all merge_json_append Null t s"
proof (induction s arbitrary: t)
  case (Cons kv s)
  then show ?case by (cases kv) simp
qed simp

lemma entries_conflict_eq:
  "entries_conflict t s \<longleftrightarrow> (\<exists>(k, v) \<in> set s. \<exists>x. bt_get t k = Some x \<and> json_has_conflict x v)"
proof (induction s)
  case (Cons kv s)
  then show ?case by (cases kv) (auto split: option.split)
qed simp

interpretation json_preserve: config_conflict Object json_entries Null merge_json_preserving tidy_json
  json_has_conflict "(=)"
proof unfold_locales
  show "merge_json_preserving a b = b" if "json_entries a = None \<or> json_entries b = None" for a b
    using that by (cases a; cases b) simp_all
  show "json_has_conflict a b \<longleftrightarrow> a \<noteq> b" if "json_entries a = None \<or> json_entries b = None" for a b
    using that by (cases a; cases b) simp_all
  show "P v" if "\<And>v. (\<And>t k x. v = Object t \<Longrightarrow> (k, x) \<in> set t \<Longrightarrow> P x) \<Longrightarrow> P v" for P v
    using that by (rule json_tree_induct)
qed (simp_all add: json_entries_iff preserve_entries_eq tidy_entries_iff entries_conflict_eq)

interpretation json_append: config_tree Object json_entries Null merge_json_append json_append_leaf tidy_json "\<lambda>_. True"
proof unfold_locales
  show "merge_json_append a b = json_append_leaf a b" if "json_entries a = None \<or> json_entries b = None" for a b
    using that by (cases a; cases b) simp_all
  show "json_append_leaf a (Object s) = Object s" for a s by (cases a) simp_all
  show "json_entries (json_append_leaf a b) = None" if "json_entries b = None" for a b
    using that by (cases a; cases b) simp_all
  show "json_append_leaf (json_append_leaf a b) b = json_append_leaf a b" for a b
    by (cases a; cases b) (simp_all add: append_unique_again append_unique_self)
  show "json_append_leaf b b = b" for b
    by (cases b) (simp_all add: append_unique_self)
  show "P v" if "\<And>v. (\<And>t k x. v = Object t \<Longrightarrow> (k, x) \<in> set t \<Longrightarrow> P x) \<Longrightarrow> P v" for P v
    using that by (rule json_tree_induct)
qed (simp_all add: json_entries_iff append_entries_eq tidy_entries_iff)

fun toml_entries :: "Toml \<Rightarrow> (str \<times> Toml) list option" where
  "toml_entries (TTable kvs) = Some kvs"
| "toml_entries _ = None"

fun tidy_toml :: "Toml \<Rightarrow> bool" and tidy_table :: "(str \<times> Toml) list \<Rightarrow> bool" where
  "tidy_toml (TTable kvs) \<longleftrightarrow> bt_inv kvs \<and> tidy_table kvs"
| "tidy_toml _ \<longleftrightarrow> True"
| "tidy_table [] \<longleftrightarrow> True"
| "tidy_table ((k, v) # kvs) \<longleftrightarrow> tidy_toml v \<and> tidy_table kvs"

fun toml_append_leaf :: "Toml \<Rightarrow> Toml \<Rightarrow> Toml" where
  "toml_append_leaf (TArray t) (TArray s) = TArray (append_unique toml_eq t s)"
| "toml_append_leaf t s = s"

abbreviation toml_at :: "Toml \<Rightarrow> str list \<Rightarrow> Toml option" where "toml_at \<equiv> tree_at toml_entries"

lemma toml_entries_iff: "toml_entries v = Some t \<longleftrightarrow> v = TTable t"
  by (cases v) auto

lemma tidy_table_iff: "tidy_table kvs \<longleftrightarrow> (\<forall>(k, v) \<in> set kvs. tidy_toml v)"
  by (induction kvs) auto

text \<open>Equal values are the same; a value is equal to itself unless it holds a NaN somewhere.\<close>

lemma toml_eq_imp:
  "toml_eq x y \<Longrightarrow> x = y"
  "toml_eq_list xs ys \<Longrightarrow> xs = ys"
  "toml_eq_table kxs kys \<Longrightarrow> kxs = kys"
  by (induction x y and xs ys and kxs kys rule: toml_eq_toml_eq_list_toml_eq_table.induct)
    (auto split: list.splits)

lemma toml_eq_list_self: "toml_eq_list xs xs \<longleftrightarrow> (\<forall>x \<in> set xs. toml_eq x x)"
  by (induction xs) auto

lemma toml_eq_table_self: "toml_eq_table kxs kxs \<longleftrightarrow> (\<forall>(k, x) \<in> set kxs. toml_eq x x)"
  by (induction kxs) auto

lemma toml_tree_induct:
  assumes "\<And>v. (\<And>t k x. v = TTable t \<Longrightarrow> (k, x) \<in> set t \<Longrightarrow> P x) \<Longrightarrow> P v"
  shows "P v"
proof (induction v rule: measure_induct_rule [of size])
  case (less v)
  show ?case
  proof (rule assms)
    fix t k x assume v: "v = TTable t" and "(k, x) \<in> set t"
    then have "size_prod (\<lambda>x. 0) size (k, x) \<le> size_list (size_prod (\<lambda>x. 0) size) t"
      using size_list_estimation' [of "(k, x)" t] by blast
    with v less show "P x" by simp
  qed
qed

lemma preserve_table_eq: "preserve_table t s = merge_all merge_toml_preserving empty_toml t s"
proof (induction s arbitrary: t)
  case (Cons kv s)
  then show ?case by (cases kv) simp
qed simp

lemma append_table_eq: "append_table t s = merge_all merge_toml_append empty_toml t s"
proof (induction s arbitrary: t)
  case (Cons kv s)
  then show ?case by (cases kv) simp
qed simp

lemma toml_has_conflict_eq:
  "toml_has_conflict t s \<longleftrightarrow> (\<exists>(k, v) \<in> set s. \<exists>x. bt_get t k = Some x \<and> toml_value_conflict x v)"
proof (induction s)
  case (Cons kv s)
  then show ?case by (cases kv) (auto split: option.split)
qed simp

interpretation toml_preserve: config_conflict TTable toml_entries empty_toml merge_toml_preserving tidy_toml
  toml_value_conflict toml_eq
proof unfold_locales
  show "merge_toml_preserving a b = b" if "toml_entries a = None \<or> toml_entries b = None" for a b
    using that by (cases a; cases b) simp_all
  show "toml_value_conflict a b \<longleftrightarrow> \<not> toml_eq a b" if "toml_entries a = None \<or> toml_entries b = None" for a b
    using that by (cases a; cases b) simp_all
  show "P v" if "\<And>v. (\<And>t k x. v = TTable t \<Longrightarrow> (k, x) \<in> set t \<Longrightarrow> P x) \<Longrightarrow> P v" for P v
    using that by (rule toml_tree_induct)
qed (simp_all add: toml_entries_iff preserve_table_eq tidy_table_iff toml_has_conflict_eq toml_eq_imp)

interpretation toml_append: config_tree TTable toml_entries empty_toml merge_toml_append toml_append_leaf tidy_toml
  "\<lambda>v. toml_eq v v"
proof unfold_locales
  show "merge_toml_append a b = toml_append_leaf a b" if "toml_entries a = None \<or> toml_entries b = None" for a b
    using that by (cases a; cases b) simp_all
  show "toml_append_leaf a (TTable s) = TTable s" for a s by (cases a) simp_all
  show "toml_entries (toml_append_leaf a b) = None" if "toml_entries b = None" for a b
    using that by (cases a; cases b) simp_all
  show "toml_append_leaf (toml_append_leaf a b) b = toml_append_leaf a b" if "toml_eq b b" for a b
    using that by (cases a; cases b) (simp_all add: append_unique_again append_unique_self toml_eq_list_self)
  show "toml_append_leaf b b = b" if "toml_eq b b" for b
    using that by (cases b) (simp_all add: append_unique_self toml_eq_list_self)
  show "P v" if "\<And>v. (\<And>t k x. v = TTable t \<Longrightarrow> (k, x) \<in> set t \<Longrightarrow> P x) \<Longrightarrow> P v" for P v
    using that by (rule toml_tree_induct)
qed (simp_all add: toml_entries_iff append_table_eq tidy_table_iff toml_eq_table_self)

subsection \<open>Documents\<close>

text \<open>The function by which a policy merges the values of one key.\<close>

definition json_policy :: "MergePolicy \<Rightarrow> Value \<Rightarrow> Value \<Rightarrow> Value" where
  "json_policy policy =
     (case policy of
        PreserveUnknown \<Rightarrow> merge_json_preserving
      | ManualOnConflict \<Rightarrow> merge_json_preserving
      | ReplaceKnownKeys \<Rightarrow> (\<lambda>_ v. v)
      | AppendUnique \<Rightarrow> merge_json_append)"

definition toml_policy :: "MergePolicy \<Rightarrow> Toml \<Rightarrow> Toml \<Rightarrow> Toml" where
  "toml_policy policy =
     (case policy of
        PreserveUnknown \<Rightarrow> merge_toml_preserving
      | ManualOnConflict \<Rightarrow> merge_toml_preserving
      | ReplaceKnownKeys \<Rightarrow> (\<lambda>_ v. v)
      | AppendUnique \<Rightarrow> merge_toml_append)"

lemma merge_json_entries: "fold (merge_json_entry policy) s t = merge_all (json_policy policy) Null t s"
  unfolding merge_all_def
  by (rule fold_cong) (auto simp: merge_json_entry_def json_policy_def fun_eq_iff split: MergePolicy.split)

lemma merge_toml_entries: "fold (merge_toml_entry policy) s t = merge_all (toml_policy policy) empty_toml t s"
  unfolding merge_all_def
  by (rule fold_cong) (auto simp: merge_toml_entry_def toml_policy_def fun_eq_iff split: MergePolicy.split)

lemma merge_json_document_cases:
  assumes "merge_json_document target source policy = Inr (merged, waiting)"
  obtains t s where "target = Object t" "source = Object s"
    and "waiting \<longleftrightarrow> policy = ManualOnConflict \<and> json_has_conflict target source"
    and "merged = (if waiting then target else Object (merge_all (json_policy policy) Null t s))"
  using assms
  by (auto simp: merge_json_document_def merge_json_entries split: Value.splits if_splits)

lemma merge_all_replace:
  assumes "bt_inv t" "bt_inv s"
  shows "merge_all (\<lambda>_ v. v) blank (merge_all (\<lambda>_ v. v) blank t s) s = merge_all (\<lambda>_ v. v) blank t s"
  using assms by (intro merge_all_same) (auto simp: merge_all_inv merge_all_get bt_inv_distinct)

lemma json_policy_again:
  assumes "tidy_json (Object t)" "tidy_json (Object s)"
  shows "merge_all (json_policy policy) Null (merge_all (json_policy policy) Null t s) s
         = merge_all (json_policy policy) Null t s"
  using json_preserve.merge_idempotent [OF assms] json_append.merge_idempotent [OF assms]
    merge_all_replace [of t s] assms
  by (cases policy) (simp_all add: json_policy_def preserve_entries_eq append_entries_eq)

lemma toml_policy_again:
  assumes "tidy_table s" "bt_inv s" "tidy_table t" "bt_inv t" "toml_eq_table s s"
  shows "merge_all (toml_policy policy) empty_toml (merge_all (toml_policy policy) empty_toml t s) s
         = merge_all (toml_policy policy) empty_toml t s"
  using toml_preserve.merge_idempotent [of "TTable t" "TTable s"]
    toml_append.merge_idempotent [of "TTable t" "TTable s"] merge_all_replace [of t s] assms
  by (cases policy) (simp_all add: toml_policy_def preserve_table_eq append_table_eq)

lemma json_document_manual:
  assumes "policy = ManualOnConflict \<or> policy = PreserveUnknown" and "target = Object t" "source = Object s"
  shows "Object (merge_all (json_policy policy) Null t s) = merge_json_preserving target source"
  using assms by (auto simp: json_policy_def preserve_entries_eq)

text \<open>
  C15. A merge that stops on conflicts loses nothing. Under the policy for manual resolution the handler
  waits for the user exactly when some path holds different values in the two documents (not both
  of them objects); then the target document is unchanged. In every case each value of the target
  is in the result under its own path, and if the handler does not wait so is each value of the
  package document.
\<close>

theorem manual_json_merge_loses_nothing:
  assumes "tidy_json target" "tidy_json source"
    and "merge_json_document target source ManualOnConflict = Inr (merged, waiting)"
  shows "(waiting \<longleftrightarrow> (\<exists>p x y. json_at target p = Some x \<and> json_at source p = Some y
              \<and> (json_entries x = None \<or> json_entries y = None) \<and> x \<noteq> y))
    \<and> (waiting \<longrightarrow> merged = target)
    \<and> (\<forall>p v. json_at target p = Some v \<and> json_entries v = None \<longrightarrow> json_at merged p = Some v)
    \<and> (\<not> waiting \<longrightarrow> (\<forall>p v. json_at source p = Some v \<and> json_entries v = None \<longrightarrow> json_at merged p = Some v))"
proof -
  obtain t s where ts: "target = Object t" "source = Object s"
    and wait: "waiting \<longleftrightarrow> json_has_conflict target source"
    and "merged = (if waiting then target else Object (merge_all (json_policy ManualOnConflict) Null t s))"
    using assms(3) by (rule merge_json_document_cases) simp
  then have merged: "merged = (if waiting then target else merge_json_preserving target source)"
    using json_document_manual [of ManualOnConflict target t source s] by simp
  have "waiting \<longleftrightarrow> (\<exists>p. json_preserve.clash target source p)"
    unfolding wait by (rule json_preserve.conflict_iff_clash [OF assms(2)])
  with merged wait json_preserve.no_conflict_keeps_target [OF assms(1,2)]
    json_preserve.merge_takes_source [OF assms(1,2)]
  show ?thesis unfolding json_preserve.clash_def by auto
qed

definition sample_target :: Value where
  "sample_target = Object [(''a'', Number 1), (''b'', Array [Number 1]), (''d'', Object [(''x'', Null)])]"

definition sample_source :: Value where
  "sample_source = Object [(''b'', Array [Number 2, Number 1]), (''c'', Bool True), (''d'', Object [(''y'', Null)])]"

lemma sample_documents_tidy: "tidy_json sample_target" "tidy_json sample_source"
  by (simp_all add: sample_target_def sample_source_def bt_inv_def less_char_def)

lemma sample_manual:
  "merge_json_document sample_target sample_source ManualOnConflict = Inr (sample_target, True)"
  by (simp add: merge_json_document_def sample_target_def sample_source_def)

theorem manual_json_merge_loses_nothing_witness:
  "\<exists>p x y. json_at sample_target p = Some x \<and> json_at sample_source p = Some y
     \<and> (json_entries x = None \<or> json_entries y = None) \<and> x \<noteq> y"
  using manual_json_merge_loses_nothing [OF sample_documents_tidy(1,2) sample_manual] by simp

text \<open>
  Merging is idempotent under every policy: applying the same package document to the result of
  a merge waits for nothing and changes nothing, so a handler that is run again leaves the file.
\<close>

theorem json_merge_idempotent:
  assumes "tidy_json target" "tidy_json source"
    and "merge_json_document target source policy = Inr (merged, False)"
  shows "merge_json_document merged source policy = Inr (merged, False)"
proof -
  obtain t s where ts: "target = Object t" "source = Object s"
    and merged: "merged = Object (merge_all (json_policy policy) Null t s)"
    using assms(3) by (rule merge_json_document_cases) simp
  have "\<not> json_has_conflict merged source" if "policy = ManualOnConflict"
    using json_preserve.no_conflict_after_merge [OF assms(1,2)] json_document_manual [of policy target t source s] ts that
    by (simp add: merged)
  then show ?thesis
    using json_policy_again [of t s policy] assms(1,2)
    by (auto simp: merge_json_document_def merge_json_entries ts merged)
qed

lemma sample_appended:
  "merge_json_document sample_target sample_source AppendUnique =
     Inr (Object [(''a'', Number 1), (''b'', Array [Number 1, Number 2]), (''c'', Bool True),
                  (''d'', Object [(''x'', Null), (''y'', Null)])], False)"
  by (simp add: merge_json_document_def merge_json_entry_def sample_target_def sample_source_def or_blank_def
      less_char_def)

theorem json_merge_idempotent_witness:
  "merge_json_document
     (Object [(''a'', Number 1), (''b'', Array [Number 1, Number 2]), (''c'', Bool True),
              (''d'', Object [(''x'', Null), (''y'', Null)])]) sample_source AppendUnique =
     Inr (Object [(''a'', Number 1), (''b'', Array [Number 1, Number 2]), (''c'', Bool True),
                  (''d'', Object [(''x'', Null), (''y'', Null)])], False)"
  by (rule json_merge_idempotent [OF sample_documents_tidy(1,2) sample_appended])

text \<open>
  What a document does not mention is kept. A path that leaves the package document at an object
  without the next key has the same value (or none) before and after the merge; under the policy
  that replaces known keys this holds for the paths below top-level keys the package document lacks.
  Where both documents have an array, appending keeps the array of the target as it is in front
  and adds exactly the elements of the other that are missing.
\<close>

theorem json_merge_keeps_unmentioned:
  assumes "tidy_json target" "tidy_json source"
    and "merge_json_document target source policy = Inr (merged, waiting)"
  shows "(\<forall>p. unmentioned json_entries source p \<and> (policy = ReplaceKnownKeys \<longrightarrow> json_at source [hd p] = None)
            \<longrightarrow> json_at merged p = json_at target p)
    \<and> (\<forall>p xs ys. policy = AppendUnique \<and> json_at target p = Some (Array xs) \<and> json_at source p = Some (Array ys)
            \<longrightarrow> (\<exists>zs. json_at merged p = Some (Array (xs @ zs)) \<and> set (xs @ zs) = set xs \<union> set ys))"
proof -
  obtain t s where ts: "target = Object t" "source = Object s"
    and merged: "merged = (if waiting then target else Object (merge_all (json_policy policy) Null t s))"
    using assms(3) by (rule merge_json_document_cases)
  have inv: "bt_inv t" "bt_inv s" using assms by (simp_all add: ts)
  have append: "merged = merge_json_append target source" if "policy = AppendUnique"
    using that assms(3) by (auto simp: merge_json_document_def merge_json_entries ts json_policy_def append_entries_eq)
  have "json_at merged p = json_at target p"
    if "unmentioned json_entries source p" "policy = ReplaceKnownKeys \<longrightarrow> json_at source [hd p] = None" for p
  proof (cases policy)
    case ReplaceKnownKeys
    with that obtain k q where p: "p = k # q" and "bt_get s k = None"
      by (cases p) (auto simp: ts split: option.splits)
    with inv show ?thesis
      by (simp add: merged ts ReplaceKnownKeys json_policy_def merge_all_get bt_inv_distinct)
  next
    case AppendUnique
    then show ?thesis
      using json_append.merge_keeps_unmentioned [OF assms(1,2) that(1)] append by simp
  qed (use json_preserve.merge_keeps_unmentioned [OF assms(1,2) that(1)] json_document_manual [of policy target t source s] ts
      in \<open>auto simp: merged\<close>)
  moreover have "\<exists>zs. json_at merged p = Some (Array (xs @ zs)) \<and> set (xs @ zs) = set xs \<union> set ys"
    if both: "policy = AppendUnique" "json_at target p = Some (Array xs)" "json_at source p = Some (Array ys)" for p xs ys
  proof -
    have "json_at merged p = Some (Array (append_unique (=) xs ys))"
      using json_append.merge_at_both [OF assms(1,2) both(2,3)] append [OF both(1)] by simp
    moreover have "set (append_unique (=) xs ys) = set xs \<union> set ys"
      using append_unique_set [of xs "(=)" ys] append_unique_covers [of ys "(=)" _ xs] by (auto simp: list_ex_iff)
    ultimately show ?thesis using append_unique_prefix [of "(=)" xs ys] by auto
  qed
  ultimately show ?thesis by blast
qed

theorem json_merge_keeps_unmentioned_witness:
  "unmentioned json_entries sample_source [''d'', ''x'']
   \<and> json_at (Object [(''a'', Number 1), (''b'', Array [Number 1, Number 2]), (''c'', Bool True),
        (''d'', Object [(''x'', Null), (''y'', Null)])]) [''d'', ''x''] = json_at sample_target [''d'', ''x'']"
proof -
  have "unmentioned json_entries sample_source [''d'', ''x'']" by (simp add: sample_source_def)
  with json_merge_keeps_unmentioned [OF sample_documents_tidy(1,2) sample_appended] show ?thesis by blast
qed

lemma toml_self_at: "toml_eq v v \<Longrightarrow> toml_at v p = Some y \<Longrightarrow> toml_eq y y"
proof (induction p arbitrary: v)
  case (Cons k p)
  then obtain t x where v: "v = TTable t" and x: "bt_get t k = Some x" "toml_at x p = Some y"
    by (auto simp: toml_entries_iff split: option.splits)
  from Cons.prems(1) x(1) have "toml_eq x x" by (auto simp: v toml_eq_table_self dest: map_of_SomeD)
  from Cons.IH [OF this x(2)] show ?case .
qed simp

lemma toml_document_manual:
  "merge_all (toml_policy ManualOnConflict) empty_toml t s = preserve_table t s"
  by (simp add: toml_policy_def preserve_table_eq)

text \<open>
  The same for TOML tables: the handler waits only under the policy for manual resolution and then
  keeps the table as it is, under that policy every value of the target survives, and a merge that
  does not wait is idempotent, provided the package document holds no NaN (which is not even equal
  to itself, so it would be appended or reported as a conflict again).
\<close>

theorem toml_merge_contract:
  assumes "tidy_toml (TTable target)" "tidy_toml (TTable source)"
    and "merge_toml_document target source policy = (merged, waiting)"
  shows "(waiting \<longrightarrow> policy = ManualOnConflict \<and> merged = target)
    \<and> (policy = ManualOnConflict \<longrightarrow>
         (\<forall>p v. toml_at (TTable target) p = Some v \<and> toml_entries v = None \<longrightarrow> toml_at (TTable merged) p = Some v))
    \<and> (\<not> waiting \<and> toml_eq_table source source \<longrightarrow> merge_toml_document merged source policy = (merged, False))"
proof -
  have wait: "waiting \<longleftrightarrow> policy = ManualOnConflict \<and> toml_has_conflict target source"
    and merged: "merged = (if waiting then target else merge_all (toml_policy policy) empty_toml target source)"
    using assms(3) by (auto simp: merge_toml_document_def merge_toml_entries split: if_splits)
  have "toml_at (TTable merged) p = Some v"
    if "policy = ManualOnConflict" "toml_at (TTable target) p = Some v" "toml_entries v = None" for p v
    using toml_preserve.no_conflict_keeps_target [OF assms(1,2) _ that(2,3)] that
    by (cases waiting) (simp_all add: merged wait toml_document_manual)
  moreover have "merge_toml_document merged source policy = (merged, False)"
    if no: "\<not> waiting" and self: "toml_eq_table source source"
  proof -
    have m: "merged = merge_all (toml_policy policy) empty_toml target source" using merged no by simp
    have "\<not> toml_has_conflict merged source" if "policy = ManualOnConflict"
    proof -
      have "\<forall>p y. toml_at (TTable source) p = Some y \<and> toml_entries y = None \<longrightarrow> toml_eq y y"
        using toml_self_at [of "TTable source"] self by auto
      from toml_preserve.no_conflict_after_merge [OF assms(1,2) this] show ?thesis
        by (simp add: m that toml_document_manual)
    qed
    moreover have "merge_all (toml_policy policy) empty_toml merged source = merged"
      unfolding m using assms(1,2) self by (intro toml_policy_again) simp_all
    ultimately show ?thesis by (auto simp: merge_toml_document_def merge_toml_entries)
  qed
  ultimately show ?thesis using wait merged by auto
qed

definition sample_table :: "(str \<times> Toml) list" where
  "sample_table = [(''a'', TInteger 1), (''t'', TTable [(''x'', TFloat (Finite 3 0))])]"

definition sample_table_source :: "(str \<times> Toml) list" where
  "sample_table_source = [(''t'', TTable [(''x'', TFloat (Finite 3 0)), (''y'', TBoolean True)])]"

definition sample_table_merged :: "(str \<times> Toml) list" where
  "sample_table_merged =
     [(''a'', TInteger 1), (''t'', TTable [(''x'', TFloat (Finite 3 0)), (''y'', TBoolean True)])]"

lemma sample_tables:
  "tidy_toml (TTable sample_table)" "tidy_toml (TTable sample_table_source)"
  "merge_toml_document sample_table sample_table_source ManualOnConflict = (sample_table_merged, False)"
  by (simp_all add: sample_table_def sample_table_source_def sample_table_merged_def bt_inv_def less_char_def
      merge_toml_document_def merge_toml_entry_def or_blank_def)

theorem toml_merge_contract_witness:
  "merge_toml_document sample_table_merged sample_table_source ManualOnConflict = (sample_table_merged, False)
   \<and> toml_at (TTable sample_table_merged) [''t'', ''x''] = Some (TFloat (Finite 3 0))"
proof -
  have "toml_eq_table sample_table_source sample_table_source" by (simp add: sample_table_source_def)
  moreover have "toml_at (TTable sample_table) [''t'', ''x''] = Some (TFloat (Finite 3 0))"
    "toml_entries (TFloat (Finite 3 0)) = None" by (simp_all add: sample_table_def)
  ultimately show ?thesis using toml_merge_contract [OF sample_tables] by blast
qed

subsection \<open>The handler and the stripper\<close>

lemma parse_json_config_object:
  "parse_json_config from_slice bytes ctx = Inr v \<Longrightarrow> \<exists>kvs. v = Object kvs"
  by (auto simp: parse_json_config_def result_simps split: if_splits Value.splits)

text \<open>The parser hands over objects, so the handler's \<^verbatim>\<open>expect\<close> calls hold.\<close>

lemma lift_fail_not_Panic: "lift_fail r \<noteq> Inl Panic"
  by (cases r) (simp_all add: lift_fail_def)

lemma execute_json_never_panics: "execute_json from_slice to_vec_pretty existing artifact policy \<noteq> Inl Panic"
proof
  assume "execute_json from_slice to_vec_pretty existing artifact policy = Inl Panic"
  then obtain source target where "parse_json_config from_slice (va_bytes artifact) ''package JSON configuration'' = Inr source"
    and "(case existing of None \<Rightarrow> Inr (Object []) | Some bytes \<Rightarrow>
            parse_json_config from_slice bytes ''target JSON configuration'') = Inr target"
    and "merge_json_document target source policy = (Inl Panic :: (ErrorEnvelope abort, Value \<times> bool) result)"
    by (auto simp: execute_json_def result_simps lift_fail_not_Panic lift_fail_def
        split: option.splits if_splits sum.splits prod.splits)
  moreover from this obtain s t where "source = Object s" "target = Object t"
    using parse_json_config_object by (cases existing) fastforce+
  ultimately show False by (simp add: merge_json_document_def split: if_splits)
qed

text \<open>Stripping only removes bytes.\<close>

lemma skip_block_suffix: "skip_block s = Some rest \<Longrightarrow> suffix rest s"
  by (induction s rule: skip_block.induct) (auto split: if_splits simp: suffix_ConsI)

lemma strip_loop_step:
  assumes "strip_loop in_string escaped (byte # rest) out = Inr r"
  obtains in' esc' u where "suffix u rest" and "strip_loop in' esc' u out = Inr r"
  | in' esc' where "strip_loop in' esc' rest (out @ [byte]) = Inr r"
proof -
  have line: "suffix (dropWhile (\<lambda>b. b \<noteq> CHR 0x0A) (drop 1 rest)) rest"
    by (meson suffix_drop suffix_dropWhile suffix_order.order_trans)
  have block: "suffix after rest" if "skip_block (drop 1 rest) = Some after" for after
    using skip_block_suffix [OF that] suffix_drop suffix_order.order_trans by blast
  have "(\<exists>in' esc' u. suffix u rest \<and> strip_loop in' esc' u out = Inr r)
      \<or> (\<exists>in' esc'. strip_loop in' esc' rest (out @ [byte]) = Inr r)"
    using assms line block suffix_order.refl [of rest]
    by (simp only: strip_loop.simps split: if_splits option.splits) blast+
  then show ?thesis using that by blast
qed

lemma strip_loop_subseq: "strip_loop in_string escaped s out = Inr r \<Longrightarrow> \<exists>t. r = out @ t \<and> subseq t s"
proof (induction "length s" arbitrary: in_string escaped s out rule: less_induct)
  case less
  show ?case
  proof (cases s)
    case Nil
    with less.prems show ?thesis by (simp split: if_splits)
  next
    case (Cons byte rest)
    from less.prems [unfolded Cons] show ?thesis
    proof (cases rule: strip_loop_step)
      case (1 in' esc' u)
      then have "length u < length s" by (simp add: Cons suffix_length_le less_Suc_eq_le)
      from less.hyps [OF this 1(2)] obtain t where "r = out @ t" "subseq t u" by blast
      moreover have "subseq u s" using 1(1) Cons by (auto intro: suffix_imp_subseq list_emb_Cons)
      ultimately show ?thesis using subseq_order.order_trans by blast
    next
      case (2 in' esc')
      from less.hyps [OF _ this] obtain t where "r = (out @ [byte]) @ t" "subseq t rest" by (auto simp: Cons)
      then show ?thesis by (intro exI [of _ "byte # t"]) (simp add: Cons)
    qed
  qed
qed

lemma strip_jsonc_subseq: "strip_jsonc s = Inr out \<Longrightarrow> subseq out s"
  using strip_loop_subseq [of False False s "[]"] by (auto simp: strip_jsonc_def)

text \<open>A trailing comma is dropped before a bracket, but not when a comment stands between them.\<close>

lemma trailing_comma_before_comment:
  "strip_jsonc ''[1, ]'' = Inr ''[1 ]''" "strip_jsonc ''[1, /* x */ ]'' = Inr ''[1,  ]''"
  by code_simp+

end
