(* ===== verification/EnvironmentHandler.thy ===== *)
theory EnvironmentHandler
  imports Artifacts Handlers PathTokens
begin

text \<open>
  The handler for user environment variables and the user PATH,
  \<^verbatim>\<open>crates/reforge-restore/src/handlers/environment.rs\<close>. The trait \<^verbatim>\<open>UserEnvironmentBackend\<close> is a
  record of operations on a store; its contract is the locale \<open>environment_backend\<close>, interpreted on
  the in-memory backend of the same file (the registry backend is calls of the Windows API). The
  resolution of a tokenized path on the target is the parameter \<open>resolve_token\<close>, the hash of a value the
  parameter \<open>blake3\<close>.
\<close>

subsection \<open>Definitions\<close>

definition MAX_ENV_NAME_BYTES :: nat where "MAX_ENV_NAME_BYTES = 256"
definition MAX_ENV_VALUE_BYTES :: nat where "MAX_ENV_VALUE_BYTES = 32 * 1024"
definition MAX_PATH_ENTRIES :: nat where "MAX_PATH_ENTRIES = 4096"

record 'b UserEnvironmentBackend =
  ub_read :: "str \<Rightarrow> 'b \<Rightarrow> str option restore"
  ub_write :: "str \<Rightarrow> str \<Rightarrow> 'b \<Rightarrow> unit restore \<times> 'b"
  ub_broadcast :: "'b \<Rightarrow> unit restore \<times> 'b"

record MemoryUserEnvironment =
  me_values :: "(str, str) btree"
  me_broadcasts :: nat

definition memory_value :: "str \<Rightarrow> MemoryUserEnvironment \<Rightarrow> str option" where
  "memory_value name env =
     map_option snd (List.find (\<lambda>(key, _). eq_ignore_ascii_case key name) (me_values env))"

text \<open>The first entry whose key matches is overwritten in place.\<close>

fun overwrite_first :: "str \<Rightarrow> str \<Rightarrow> (str, str) btree \<Rightarrow> (str, str) btree option" where
  "overwrite_first name v [] = None"
| "overwrite_first name v ((key, existing) # values) =
     (if eq_ignore_ascii_case key name then Some ((key, v) # values)
      else map_option (\<lambda>rest. (key, existing) # rest) (overwrite_first name v values))"

definition memory_write :: "str \<Rightarrow> str \<Rightarrow> MemoryUserEnvironment \<Rightarrow> unit restore \<times> MemoryUserEnvironment" where
  "memory_write name v env =
     (Inr (), env\<lparr>me_values := (case overwrite_first name v (me_values env) of
                    Some values \<Rightarrow> values
                  | None \<Rightarrow> bt_insert name v (me_values env))\<rparr>)"

definition memory_backend :: "MemoryUserEnvironment UserEnvironmentBackend" where
  "memory_backend =
     \<lparr>ub_read = (\<lambda>name env. Inr (memory_value name env)),
      ub_write = memory_write,
      ub_broadcast = (\<lambda>env. (Inr (), env\<lparr>me_broadcasts := me_broadcasts env + 1\<rparr>))\<rparr>"

definition path_comparison_key :: "str \<Rightarrow> str" where
  "path_comparison_key v =
     (let key = to_lowercase v
      in take (max 3 (length (rev (dropWhile (\<lambda>c. c = CHR 0x5C \<or> c = CHR ''/'') (rev key))))) key)"

definition validate_environment_name :: "str \<Rightarrow> unit restore" where
  "validate_environment_name name =
     (if name = [] \<or> length name > MAX_ENV_NAME_BYTES \<or> CHR ''='' \<in> set name \<or> has_control name
      then Inl (operation_error SchemaInvalid ''environment variable name is invalid'')
      else Inr ())"

definition validate_environment_value :: "str \<Rightarrow> unit restore" where
  "validate_environment_value v =
     (if length v > MAX_ENV_VALUE_BYTES \<or> CHR 0x00 \<in> set v \<or> has_control v
      then Inl (operation_error SchemaInvalid ''environment variable value is invalid'')
      else Inr ())"

definition validate_path_entry :: "str \<Rightarrow> unit restore" where
  "validate_path_entry v =
     (if v = [] \<or> CHR '';'' \<in> set v \<or> CHR 0x00 \<in> set v \<or> has_control v
      then Inl (operation_error InvalidPath ''user PATH entry is invalid'')
      else Inr ())"

definition looks_secret_name :: "str \<Rightarrow> bool" where
  "looks_secret_name name \<longleftrightarrow>
     list_ex (\<lambda>fragment. str_contains (to_ascii_lowercase name) fragment)
       [''password'', ''passwd'', ''secret'', ''token'', ''api_key'', ''apikey'', ''access_key'',
        ''private_key'', ''authorization'', ''cookie'', ''credential'']"

definition looks_secret :: "str \<Rightarrow> str \<Rightarrow> bool" where
  "looks_secret name v \<longleftrightarrow>
     looks_secret_name name
     \<or> list_ex (\<lambda>marker. str_contains (to_ascii_lowercase v) marker)
         [''-----begin'', ''bearer '', ''api_key='', ''apikey='', ''token='', ''password='']"

text \<open>The loop of \<^verbatim>\<open>append_unique_path\<close>: the result and the keys seen so far.\<close>

definition push_path :: "str \<Rightarrow> str list \<times> str set \<Rightarrow> (str list \<times> str set) restore" where
  "push_path v = (\<lambda>(result, seen).
     if v = [] then Inr (result, seen)
     else try_bind (validate_path_entry v) (\<lambda>_.
       let key = path_comparison_key v;
           result = (if key \<in> seen then result else result @ [v])
       in if length result > MAX_PATH_ENTRIES
          then Inl (operation_error SecurityPolicy ''user PATH contains too many entries'')
          else Inr (result, insert key seen)))"

definition append_unique_path :: "str \<Rightarrow> str list \<Rightarrow> str restore" where
  "append_unique_path current entries =
     try_bind (try_fold push_path (split_on (\<lambda>c. c = CHR '';'') current @ entries) ([], {}))
       (\<lambda>(result, seen). Inr (join_with '';'' result))"

datatype DesiredEnvironment = Value str str | Path str | Manual str

text \<open>One entry of an append operation on the target.\<close>

definition resolve_path_entry :: "(PathToken \<Rightarrow> str restore) \<Rightarrow> PathToken \<Rightarrow> str restore" where
  "resolve_path_entry resolve_token token =
     (case PathToken_validate token of
        Inl _ \<Rightarrow> Inl (operation_error InvalidPath ''user PATH entry contains an invalid tokenized path'')
      | Inr _ \<Rightarrow> try_bind (resolve_token token) (\<lambda>path. try_bind (validate_path_entry path) (\<lambda>_. Inr path)))"

fun desired ::
  "(PathToken \<Rightarrow> str restore) \<Rightarrow> 'b UserEnvironmentBackend \<Rightarrow> OperationKind \<Rightarrow> 'b \<Rightarrow> DesiredEnvironment restore" where
  "desired resolve_token backend (SetUserEnvironment name v) b =
     try_bind (validate_environment_name name) (\<lambda>_.
     case v of
       SafeValueRef.LiteralNonSecret v \<Rightarrow>
         try_bind (validate_environment_value v) (\<lambda>_.
         if looks_secret name v then Inr (Manual ''environment value appears secret-bearing'')
         else Inr (Value name v))
     | SafeValueRef.EnvironmentReference source_name \<Rightarrow>
         try_bind (validate_environment_name source_name) (\<lambda>_.
         if looks_secret_name name \<or> looks_secret_name source_name
         then Inr (Manual ''environment reference may contain a secret'')
         else try_bind (ub_read backend source_name b) (\<lambda>found.
           case found of
             None \<Rightarrow> Inr (Manual ''environment reference is unavailable'')
           | Some v \<Rightarrow>
               try_bind (validate_environment_value v) (\<lambda>_.
               if looks_secret name v
               then Inr (Manual ''environment reference resolved to a secret-like value'')
               else Inr (Value name v))))
     | SafeValueRef.SecretReference _ _ \<Rightarrow>
         Inr (Manual ''secret environment values require explicit manual entry'')
     | SafeValueRef.RedactedUnknown \<Rightarrow>
         Inr (Manual ''secret environment values require explicit manual entry''))"
| "desired resolve_token backend (AppendUserPath entries) b =
     (if length entries > MAX_PATH_ENTRIES
      then Inl (operation_error SecurityPolicy ''user PATH operation contains too many entries'')
      else try_bind (try_map (resolve_path_entry resolve_token) entries) (\<lambda>resolved.
           try_bind (ub_read backend ''Path'' b) (\<lambda>current.
           try_bind (append_unique_path (case current of None \<Rightarrow> [] | Some v \<Rightarrow> v) resolved) (\<lambda>v.
           Inr (Path v)))))"
| "desired resolve_token backend _ b =
     Inl (operation_error SchemaInvalid ''environment handler received an unsupported operation kind'')"

text \<open>Writing a variable, the common part of the two branches of \<^verbatim>\<open>apply\<close>.\<close>

definition write_variable ::
  "(bytes \<Rightarrow> bytes) \<Rightarrow> 'b UserEnvironmentBackend \<Rightarrow> str \<Rightarrow> str \<Rightarrow> str \<Rightarrow> 'b
   \<Rightarrow> OperationOutcome restore \<times> 'b" where
  "write_variable blake3 backend name v unchanged b =
     (case ub_read backend name b of
        Inl e \<Rightarrow> (Inl e, b)
      | Inr previous \<Rightarrow>
          if previous = Some v
          then (Inr (outcome_of OperationDisposition.Skipped (Some (Object
                  [(''changed'', Bool False), (''name'', String name),
                   (''reason'', String unchanged), (''scope'', String ''user'')]))), b)
          else case ub_write backend name v b of
                 (Inl e, b') \<Rightarrow> (Inl e, b')
               | (Inr _, b') \<Rightarrow>
                   (case ub_broadcast backend b' of
                      (Inl e, b'') \<Rightarrow> (Inl e, b'')
                    | (Inr _, b'') \<Rightarrow>
                        (Inr (outcome_of OperationDisposition.Completed (Some (Object
                           [(''changed'', Bool True), (''name'', String name),
                            (''previous_present'', Bool (previous \<noteq> None)), (''scope'', String ''user''),
                            (''value_hash'', String (ObjectId_from_content blake3 (map of_char v)))]))), b'')))"

fun apply_desired ::
  "(bytes \<Rightarrow> bytes) \<Rightarrow> 'b UserEnvironmentBackend \<Rightarrow> DesiredEnvironment \<Rightarrow> 'b \<Rightarrow> OperationOutcome restore \<times> 'b" where
  "apply_desired blake3 backend (Manual reason) b =
     (Inr (outcome_of OperationDisposition.WaitingForUser (Some (Object
        [(''changed'', Bool False), (''reason'', String reason)]))), b)"
| "apply_desired blake3 backend (Value name v) b =
     write_variable blake3 backend name v ''environment value already matches'' b"
| "apply_desired blake3 backend (Path v) b =
     write_variable blake3 backend ''Path'' v ''user PATH already contains the requested entries'' b"

definition environment_handles :: "OperationKind \<Rightarrow> bool" where
  "environment_handles kind \<longleftrightarrow>
     (case kind of SetUserEnvironment _ _ \<Rightarrow> True | AppendUserPath _ \<Rightarrow> True | _ \<Rightarrow> False)"

definition satisfied_when ::
  "'b UserEnvironmentBackend \<Rightarrow> str \<Rightarrow> str \<Rightarrow> str \<Rightarrow> 'b \<Rightarrow> OperationSatisfaction restore" where
  "satisfied_when backend name v reason b =
     try_bind (ub_read backend name b) (\<lambda>current.
     if current = Some v
     then Inr (Satisfied (Some (Object
            [(''name'', String name), (''reason'', String reason), (''scope'', String ''user'')])) [])
     else Inr NotSatisfied)"

definition environment_is_satisfied ::
  "(PathToken \<Rightarrow> str restore) \<Rightarrow> 'b UserEnvironmentBackend \<Rightarrow> bool \<Rightarrow> Operation \<Rightarrow> 'b
   \<Rightarrow> OperationSatisfaction restore" where
  "environment_is_satisfied resolve_token backend cancelled operation b =
     (if cancelled then Inr NotSatisfied
      else try_bind (desired resolve_token backend (op_kind operation) b) (\<lambda>d.
        case d of
          Manual _ \<Rightarrow> Inr NotSatisfied
        | Value name v \<Rightarrow> satisfied_when backend name v ''environment value already matches'' b
        | Path v \<Rightarrow> satisfied_when backend ''Path'' v ''user PATH already contains the requested entries'' b))"

definition environment_execute ::
  "(PathToken \<Rightarrow> str restore) \<Rightarrow> (bytes \<Rightarrow> bytes) \<Rightarrow> 'b UserEnvironmentBackend \<Rightarrow> bool \<Rightarrow> Operation \<Rightarrow> 'b
   \<Rightarrow> OperationOutcome restore \<times> 'b" where
  "environment_execute resolve_token blake3 backend cancelled operation b =
     (if cancelled
      then (Inr (outcome_of OperationDisposition.Cancelled (Some (Object
              [(''reason'', String ''cancelled before environment update'')]))), b)
      else case desired resolve_token backend (op_kind operation) b of
             Inl e \<Rightarrow> (Inl e, b)
           | Inr d \<Rightarrow> apply_desired blake3 backend d b)"

subsection \<open>The user PATH\<close>

text \<open>The entries that are kept: the first of each comparison key, without the empty ones.\<close>

fun keep_first :: "str set \<Rightarrow> str list \<Rightarrow> str list" where
  "keep_first seen [] = []"
| "keep_first seen (v # vs) =
     (if v = [] \<or> path_comparison_key v \<in> seen then keep_first seen vs
      else v # keep_first (insert (path_comparison_key v) seen) vs)"

definition path_keys :: "str list \<Rightarrow> str set" where
  "path_keys vs = path_comparison_key ` {v \<in> set vs. v \<noteq> []}"

lemma path_keys_simps [simp]:
  "path_keys [] = {}"
  "path_keys (v # vs) = (if v = [] then path_keys vs else insert (path_comparison_key v) (path_keys vs))"
  "path_keys (xs @ ys) = path_keys xs \<union> path_keys ys"
  by (auto simp: path_keys_def)

lemma keep_first_append: "keep_first seen (xs @ ys) = keep_first seen xs @ keep_first (seen \<union> path_keys xs) ys"
  by (induction xs arbitrary: seen) (auto simp: insert_absorb)

lemma keep_first_covered: "path_keys ys \<subseteq> seen \<Longrightarrow> keep_first seen ys = []"
  by (induction ys) (auto split: if_splits)

lemma keep_first_keys: "path_keys (keep_first seen xs) \<union> seen = path_keys xs \<union> seen"
proof (induction xs arbitrary: seen)
  case (Cons v xs)
  from Cons.IH [of "insert (path_comparison_key v) seen"] Cons.IH [of seen] show ?case by auto
qed simp

lemma keep_first_again: "keep_first seen (keep_first seen xs) = keep_first seen xs"
  by (induction xs arbitrary: seen) auto

lemma keep_first_subseq: "subseq (keep_first seen xs) xs"
  by (induction xs arbitrary: seen) auto

lemma keep_first_nonempty: "v \<in> set (keep_first seen xs) \<Longrightarrow> v \<noteq> []"
  by (induction xs arbitrary: seen) (auto split: if_splits)

lemma keep_first_distinct:
  "distinct (map path_comparison_key (keep_first seen xs))
   \<and> path_comparison_key ` set (keep_first seen xs) \<inter> seen = {}"
proof (induction xs arbitrary: seen)
  case (Cons v xs)
  from Cons.IH [of "insert (path_comparison_key v) seen"] Cons.IH [of seen] show ?case by auto
qed simp

lemma keep_first_set: "set (keep_first seen xs) \<subseteq> set xs"
  by (induction xs arbitrary: seen) auto

lemma push_paths:
  assumes "length result \<le> MAX_PATH_ENTRIES"
  shows "try_fold push_path vs (result, seen) = Inr (result', seen') \<longleftrightarrow>
     (\<forall>v \<in> set vs. v \<noteq> [] \<longrightarrow> validate_path_entry v = Inr ())
     \<and> length (result @ keep_first seen vs) \<le> MAX_PATH_ENTRIES
     \<and> result' = result @ keep_first seen vs \<and> seen' = seen \<union> path_keys vs"
  using assms
proof (induction vs arbitrary: result seen)
  case (Cons v vs)
  show ?case
  proof (cases "v = [] \<or> validate_path_entry v \<noteq> Inr ()")
    case True
    with Cons.IH [OF Cons.prems] show ?thesis
      by (cases "validate_path_entry v") (auto simp: push_path_def)
  next
    case False
    show ?thesis
    proof (cases "path_comparison_key v \<in> seen")
      case True
      with Cons.IH [OF Cons.prems, of seen] Cons.prems False show ?thesis
        by (auto simp: push_path_def insert_absorb Let_def)
    next
      case new: False
      show ?thesis
      proof (cases "length result < MAX_PATH_ENTRIES")
        case True
        with Cons.IH [of "result @ [v]" "insert (path_comparison_key v) seen"] new False show ?thesis
          by (auto simp: push_path_def Let_def)
      qed (use new False in \<open>auto simp: push_path_def Let_def\<close>)
    qed
  qed
qed auto

lemma append_unique_path_iff:
  "append_unique_path current entries = Inr v \<longleftrightarrow>
     (let vs = split_on (\<lambda>c. c = CHR '';'') current @ entries
      in (\<forall>x \<in> set vs. x \<noteq> [] \<longrightarrow> validate_path_entry x = Inr ())
         \<and> length (keep_first {} vs) \<le> MAX_PATH_ENTRIES \<and> v = join_with '';'' (keep_first {} vs))"
proof -
  let ?vs = "split_on (\<lambda>c. c = CHR '';'') current @ entries"
  have "append_unique_path current entries = Inr v \<longleftrightarrow>
      (\<exists>result seen. try_fold push_path ?vs ([], {}) = Inr (result, seen) \<and> v = join_with '';'' result)"
    by (auto simp: append_unique_path_def result_simps)
  also have "\<dots> \<longleftrightarrow> (\<forall>x \<in> set ?vs. x \<noteq> [] \<longrightarrow> validate_path_entry x = Inr ())
         \<and> length (keep_first {} ?vs) \<le> MAX_PATH_ENTRIES \<and> v = join_with '';'' (keep_first {} ?vs)"
    by (simp add: push_paths)
  finally show ?thesis by (simp add: Let_def)
qed

lemma validate_path_entry_ok:
  "validate_path_entry v = Inr () \<Longrightarrow> \<forall>c \<in> set v. c \<noteq> CHR '';''"
  by (auto simp: validate_path_entry_def split: if_splits)

lemma split_joined:
  assumes "\<forall>x \<in> set xs. x \<noteq> [] \<longrightarrow> validate_path_entry x = Inr ()" and "keep_first {} xs \<noteq> []"
  shows "split_on (\<lambda>c. c = CHR '';'') (join_with '';'' (keep_first {} xs)) = keep_first {} xs"
proof (rule split_join)
  show "\<forall>x \<in> set (keep_first {} xs). \<forall>c \<in> set x. c \<noteq> CHR '';''"
    using assms(1) keep_first_set [of "{}" xs] keep_first_nonempty validate_path_entry_ok by blast
qed (use assms(2) in simp_all)

lemma split_kept:
  assumes "\<forall>x \<in> set xs. x \<noteq> [] \<longrightarrow> validate_path_entry x = Inr ()"
  shows "keep_first {} (split_on (\<lambda>c. c = CHR '';'') (join_with '';'' (keep_first {} xs))) = keep_first {} xs"
  using split_joined [OF assms] by (cases "keep_first {} xs = []") (simp_all add: keep_first_again)

lemma split_kept_valid:
  assumes "\<forall>x \<in> set xs. x \<noteq> [] \<longrightarrow> validate_path_entry x = Inr ()"
    and "y \<in> set (split_on (\<lambda>c. c = CHR '';'') (join_with '';'' (keep_first {} xs)))" "y \<noteq> []"
  shows "validate_path_entry y = Inr ()"
  using assms split_joined [OF assms(1)] keep_first_set [of "{}" xs]
  by (cases "keep_first {} xs = []") auto

lemma append_unique_path_again:
  assumes "append_unique_path current entries = Inr v"
  shows "append_unique_path v entries = Inr v"
proof -
  let ?sep = "\<lambda>c. c = CHR '';''"
  let ?vs = "split_on ?sep current @ entries"
  from assms have valid: "\<forall>x \<in> set ?vs. x \<noteq> [] \<longrightarrow> validate_path_entry x = Inr ()"
    and len: "length (keep_first {} ?vs) \<le> MAX_PATH_ENTRIES" and v: "v = join_with '';'' (keep_first {} ?vs)"
    by (simp_all add: append_unique_path_iff Let_def)
  have kept: "keep_first {} (split_on ?sep v) = keep_first {} ?vs" unfolding v by (rule split_kept [OF valid])
  then have "path_keys (split_on ?sep v) = path_keys ?vs" by (metis keep_first_keys Un_empty_right)
  then have "keep_first {} (split_on ?sep v @ entries) = keep_first {} ?vs"
    by (simp add: keep_first_append kept keep_first_covered)
  moreover have "validate_path_entry y = Inr ()" if "y \<in> set (split_on ?sep v @ entries)" "y \<noteq> []" for y
    using that valid split_kept_valid [OF valid, of y] v by auto
  ultimately show ?thesis using len v by (simp add: append_unique_path_iff Let_def)
qed

text \<open>
  Appending to the user PATH. A successful append keeps, in their order and in front, the first
  occurrence of every entry the PATH had and adds the requested entries that were missing; no two
  entries of the result name the same directory, nothing is lost or invented, and appending the
  same entries again leaves the PATH as it is.
\<close>

theorem user_path_append:
  assumes "append_unique_path current entries = Inr v"
  shows "append_unique_path v entries = Inr v
    \<and> (\<exists>kept added. v = join_with '';'' (kept @ added)
         \<and> subseq kept (split_on (\<lambda>c. c = CHR '';'') current) \<and> subseq added entries
         \<and> path_comparison_key ` set kept = path_keys (split_on (\<lambda>c. c = CHR '';'') current)
         \<and> path_comparison_key ` set (kept @ added)
             = path_keys (split_on (\<lambda>c. c = CHR '';'') current) \<union> path_keys entries
         \<and> distinct (map path_comparison_key (kept @ added)))"
proof -
  let ?old = "split_on (\<lambda>c. c = CHR '';'') current"
  define kept where "kept = keep_first {} ?old"
  define added where "added = keep_first (path_keys ?old) entries"
  have all: "keep_first {} (?old @ entries) = kept @ added"
    by (simp add: keep_first_append kept_def added_def)
  have image: "path_comparison_key ` set (keep_first {} xs) = path_keys xs" for xs
    using keep_first_keys [of "{}" xs] keep_first_nonempty [of _ "{}" xs] by (auto simp: path_keys_def)
  have "v = join_with '';'' (kept @ added)"
    using assms by (simp add: append_unique_path_iff Let_def all)
  moreover have "subseq kept ?old" "subseq added entries"
    by (simp_all add: kept_def added_def keep_first_subseq)
  moreover have "path_comparison_key ` set kept = path_keys ?old" by (simp add: kept_def image)
  moreover have "path_comparison_key ` set (kept @ added) = path_keys ?old \<union> path_keys entries"
    using image [of "?old @ entries"] by (simp only: all path_keys_simps)
  moreover have "distinct (map path_comparison_key (kept @ added))"
    using keep_first_distinct [of "{}" "?old @ entries"] by (simp add: all)
  ultimately show ?thesis using append_unique_path_again [OF assms] by blast
qed

lemma sample_path: "append_unique_path ''C:/A;;c:/a/'' [''D:/B''] = Inr ''C:/A;D:/B''"
  by code_simp

theorem user_path_append_witness: "append_unique_path ''C:/A;D:/B'' [''D:/B''] = Inr ''C:/A;D:/B''"
  using user_path_append [OF sample_path] by simp

subsection \<open>The backend's contract\<close>

lemma eq_ignore_ascii_case_refl [simp]: "eq_ignore_ascii_case n n"
  by (simp add: eq_ignore_ascii_case_def)

text \<open>
  A variable name is read without regard to case, a write sets the value of its name and of no
  other, and a broadcast changes no value.
\<close>

locale environment_backend =
  fixes backend :: "'b UserEnvironmentBackend"
  assumes read_written: "ub_write backend n v b = (Inr (), b') \<Longrightarrow> eq_ignore_ascii_case m n
      \<Longrightarrow> ub_read backend m b' = Inr (Some v)"
    and read_other: "ub_write backend n v b = (r, b') \<Longrightarrow> \<not> eq_ignore_ascii_case m n
      \<Longrightarrow> ub_read backend m b' = ub_read backend m b"
    and read_broadcast: "ub_broadcast backend b = (r, b') \<Longrightarrow> ub_read backend m b' = ub_read backend m b"
    and read_ignores_case: "eq_ignore_ascii_case m n \<Longrightarrow> ub_read backend m b = ub_read backend n b"
begin

lemma write_variable_completed:
  assumes "write_variable blake3 backend name v reason b = (Inr outcome, b')"
    and "oo_disposition outcome = OperationDisposition.Completed"
  shows "ub_read backend m b' = (if eq_ignore_ascii_case m name then Inr (Some v) else ub_read backend m b)"
proof -
  obtain b1 r where w: "ub_write backend name v b = (Inr (), b1)" and c: "ub_broadcast backend b1 = (r, b')"
    using assms by (auto simp: write_variable_def outcome_of_def split: sum.splits if_splits prod.splits)
  show ?thesis
    using read_written [OF w] read_other [OF w] read_broadcast [OF c] by simp
qed

lemma write_variable_only:
  assumes "write_variable blake3 backend name v reason b = (r, b')" and "\<not> eq_ignore_ascii_case m name"
  shows "ub_read backend m b' = ub_read backend m b"
proof -
  consider "b' = b" | r' where "ub_write backend name v b = (r', b')"
    | r' b1 r'' where "ub_write backend name v b = (r', b1)" "ub_broadcast backend b1 = (r'', b')"
    using assms(1) by (auto simp: write_variable_def split: sum.splits if_splits prod.splits)
  then show ?thesis
    using read_other [OF _ assms(2)] read_broadcast by cases auto
qed

text \<open>The variable an execution wants keeps being wanted after it was written.\<close>

lemma desired_stable:
  assumes "desired resolve_token backend kind b = Inr d" and "d = Value name v \<or> d = Path v \<and> name = ''Path''"
    and "\<forall>m. ub_read backend m b' = (if eq_ignore_ascii_case m name then Inr (Some v) else ub_read backend m b)"
  shows "desired resolve_token backend kind b' = Inr d"
proof (cases kind)
  case (SetUserEnvironment x vref)
  have same: "ub_read backend src b' = Inr (Some v)" if "ub_read backend src b = Inr (Some v)" for src
    using that assms(3) by simp
  show ?thesis
    using assms(1,2) same unfolding SetUserEnvironment
    by (cases vref) (auto simp: result_simps split: option.splits if_splits)
next
  case (AppendUserPath entries)
  then obtain resolved current where r: "length entries \<le> MAX_PATH_ENTRIES"
    "try_map (resolve_path_entry resolve_token) entries = Inr resolved"
    and v: "append_unique_path current resolved = Inr v" and d: "d = Path v"
    using assms(1,2) by (auto simp: result_simps split: if_splits)
  have "name = ''Path''" using assms(2) d by simp
  then have "ub_read backend ''Path'' b' = Inr (Some v)" using assms(3) by simp
  with r append_unique_path_again [OF v] show ?thesis by (simp add: AppendUserPath d)
qed (use assms(1) in simp_all)

lemma execute_satisfies:
  assumes "environment_execute resolve_token blake3 backend False operation b = (Inr outcome, b')"
    and "oo_disposition outcome = OperationDisposition.Completed"
  shows "\<exists>result evidence. environment_is_satisfied resolve_token backend False operation b' = Inr (Satisfied result evidence)"
proof -
  obtain d where d: "desired resolve_token backend (op_kind operation) b = Inr d"
    and run: "apply_desired blake3 backend d b = (Inr outcome, b')"
    using assms(1) by (auto simp: environment_execute_def split: sum.splits)
  show ?thesis
  proof (cases d)
    case (Value name v)
    with run write_variable_completed [OF _ assms(2)]
    have reads: "\<forall>m. ub_read backend m b' = (if eq_ignore_ascii_case m name then Inr (Some v) else ub_read backend m b)"
      by fastforce
    from desired_stable [OF d _ this] Value reads show ?thesis
      by (simp add: environment_is_satisfied_def satisfied_when_def)
  next
    case (Path v)
    with run write_variable_completed [OF _ assms(2)]
    have reads: "\<forall>m. ub_read backend m b' = (if eq_ignore_ascii_case m ''Path'' then Inr (Some v) else ub_read backend m b)"
      by fastforce
    from desired_stable [OF d _ this] Path reads show ?thesis
      by (simp add: environment_is_satisfied_def satisfied_when_def)
  next
    case (Manual reason)
    with run assms(2) show ?thesis by (auto simp: outcome_of_def)
  qed
qed

text \<open>What may be written: the named variable only, with a value that does not look secret.\<close>

lemma execute_writes:
  assumes "environment_execute resolve_token blake3 backend cancelled operation b = (r, b')"
    and "op_kind operation = SetUserEnvironment name vref" and "ub_read backend m b' \<noteq> ub_read backend m b"
  shows "eq_ignore_ascii_case m name \<and> \<not> cancelled
    \<and> (\<exists>v. \<not> looks_secret name v \<and> (vref = SafeValueRef.LiteralNonSecret v
            \<or> (\<exists>src. vref = SafeValueRef.EnvironmentReference src \<and> \<not> looks_secret_name src
                    \<and> ub_read backend src b = Inr (Some v))))"
proof -
  have go: "\<not> cancelled" using assms(1,3) by (auto simp: environment_execute_def)
  obtain d where d: "desired resolve_token backend (SetUserEnvironment name vref) b = Inr d"
    and run: "apply_desired blake3 backend d b = (r, b')"
    using assms go by (auto simp: environment_execute_def split: sum.splits)
  have "\<exists>v. d = Value name v \<and> \<not> looks_secret name v \<and> (vref = SafeValueRef.LiteralNonSecret v
            \<or> (\<exists>src. vref = SafeValueRef.EnvironmentReference src \<and> \<not> looks_secret_name src
                    \<and> ub_read backend src b = Inr (Some v)))" if "\<forall>reason. d \<noteq> Manual reason"
    using d that by (cases vref) (auto simp: result_simps split: option.splits if_splits)
  moreover have "\<forall>reason. d \<noteq> Manual reason" using run assms(3) by auto
  ultimately obtain v where v: "d = Value name v" and ok: "\<not> looks_secret name v \<and> (vref = SafeValueRef.LiteralNonSecret v
            \<or> (\<exists>src. vref = SafeValueRef.EnvironmentReference src \<and> \<not> looks_secret_name src
                    \<and> ub_read backend src b = Inr (Some v)))" by blast
  have "eq_ignore_ascii_case m name"
    using write_variable_only [of blake3 name v _ b r b' m] run v assms(3) by auto
  with go ok show ?thesis by blast
qed

end

text \<open>The in-memory backend keeps the contract.\<close>

lemma memory_value_ignores_case:
  "eq_ignore_ascii_case m n \<Longrightarrow> memory_value m env = memory_value n env"
  by (simp add: memory_value_def eq_ignore_ascii_case_def)

lemma overwrite_first_find:
  "overwrite_first name v kvs = Some kvs'
   \<Longrightarrow> map_option snd (List.find (\<lambda>(k, _). eq_ignore_ascii_case k name) kvs') = Some v"
  by (induction kvs arbitrary: kvs') (auto split: if_splits)

lemma overwrite_first_other:
  "overwrite_first name v kvs = Some kvs' \<Longrightarrow> \<forall>k. eq_ignore_ascii_case k name \<longrightarrow> \<not> P k
   \<Longrightarrow> map_option snd (List.find (\<lambda>(k, _). P k) kvs') = map_option snd (List.find (\<lambda>(k, _). P k) kvs)"
  by (induction kvs arbitrary: kvs') (auto split: if_splits)

lemma overwrite_first_None:
  "overwrite_first name v kvs = None \<longleftrightarrow> (\<forall>(k, _) \<in> set kvs. \<not> eq_ignore_ascii_case k name)"
  by (induction kvs) (auto split: if_splits)

lemma find_inserted:
  assumes "\<forall>(k, _) \<in> set kvs. \<not> eq_ignore_ascii_case k name"
  shows "map_option snd (List.find (\<lambda>(k, _). eq_ignore_ascii_case k name) (bt_insert name v kvs)) = Some v"
    and "\<not> P name \<Longrightarrow> List.find (\<lambda>(k, _). P k) (bt_insert name v kvs) = List.find (\<lambda>(k, _). P k) kvs"
  using assms by (induction name v kvs rule: bt_insert.induct) auto

lemma memory_value_written: "memory_value n (snd (memory_write n v env)) = Some v"
  using find_inserted(1) [of "me_values env" n v] overwrite_first_None [of n v "me_values env"]
    overwrite_first_find [of n v "me_values env"]
  by (simp add: memory_write_def memory_value_def split: option.split)

lemma memory_value_other:
  assumes "\<not> eq_ignore_ascii_case m n"
  shows "memory_value m (snd (memory_write n v env)) = memory_value m env"
proof -
  let ?P = "\<lambda>k. eq_ignore_ascii_case k m"
  have "\<not> ?P n" "\<forall>k. eq_ignore_ascii_case k n \<longrightarrow> \<not> ?P k" using assms by (auto simp: eq_ignore_ascii_case_def)
  with find_inserted(2) [of "me_values env" n ?P v] overwrite_first_None [of n v "me_values env"]
    overwrite_first_other [of n v "me_values env" _ ?P]
  show ?thesis by (simp add: memory_write_def memory_value_def split: option.split)
qed

interpretation memory_env: environment_backend memory_backend
proof unfold_locales
  fix n v b b' m
  assume "ub_write memory_backend n v b = (Inr (), b')" and "eq_ignore_ascii_case m n"
  then show "ub_read memory_backend m b' = Inr (Some v)"
    using memory_value_written [of n v b] memory_value_ignores_case [of m n b']
    by (simp add: memory_backend_def)
next
  fix n v b b' m r
  assume "ub_write memory_backend n v b = (r, b')" and "\<not> eq_ignore_ascii_case m n"
  then show "ub_read memory_backend m b' = ub_read memory_backend m b"
    using memory_value_other [of m n v b] by (simp add: memory_backend_def)
next
  fix m n b
  assume "eq_ignore_ascii_case m n"
  then show "ub_read memory_backend m b = ub_read memory_backend n b"
    using memory_value_ignores_case [of m n b] by (simp add: memory_backend_def)
qed (auto simp: memory_backend_def memory_value_def)

subsection \<open>What the handler does to the environment\<close>


definition sample_set_operation :: Operation where
  "sample_set_operation =
     \<lparr>op_id = ''op'', op_component = ''c'', op_kind = SetUserEnvironment ''EDITOR'' (SafeValueRef.LiteralNonSecret ''vi''),
      op_prerequisites = [], op_precondition = Always, op_idempotency_key = ''k'', op_verification = [],
      op_requires_elevation = False, op_non_idempotent = False\<rparr>"

definition sample_environment :: MemoryUserEnvironment where
  "sample_environment = \<lparr>me_values = [(''Editor'', ''ed'')], me_broadcasts = 0\<rparr>"

lemma sample_literal_desired:
  "desired resolve_token backend (op_kind sample_set_operation) b = Inr (Value ''EDITOR'' ''vi'')"
proof -
  have "\<not> looks_secret ''EDITOR'' ''vi''" by code_simp
  moreover have "validate_environment_name ''EDITOR'' = Inr ()" "validate_environment_value ''vi'' = Inr ()"
    by (simp_all add: validate_environment_name_def validate_environment_value_def MAX_ENV_NAME_BYTES_def
        MAX_ENV_VALUE_BYTES_def)
  ultimately show ?thesis by (simp add: sample_set_operation_def)
qed

definition sample_outcome :: OperationOutcome where
  "sample_outcome = outcome_of OperationDisposition.Completed (Some (Object
     [(''changed'', Bool True), (''name'', String ''EDITOR''), (''previous_present'', Bool True),
      (''scope'', String ''user''), (''value_hash'', String (ObjectId_from_content (\<lambda>b. b) (map of_char ''vi'')))]))"

lemma sample_execution:
  "environment_execute (\<lambda>_. Inr []) (\<lambda>b. b) memory_backend False sample_set_operation sample_environment
   = (Inr sample_outcome, \<lparr>me_values = [(''Editor'', ''vi'')], me_broadcasts = 1\<rparr>)"
proof -
  have "eq_ignore_ascii_case ''Editor'' ''EDITOR''" by code_simp
  then show ?thesis
    by (simp add: environment_execute_def sample_literal_desired write_variable_def memory_backend_def
        memory_value_def memory_write_def sample_environment_def sample_outcome_def)
qed


text \<open>
  Setting a variable touches nothing else and never writes a secret. If executing the operation
  changes what any name reads as, the run was not cancelled, the name is the operation's own (up to
  case), and the value is a literal of the plan or the value of another variable, whose name and
  value do not look like a secret; a secret reference and a redacted value change nothing.
\<close>

theorem environment_secrets_not_written:
  assumes "environment_execute resolve_token blake3 memory_backend cancelled operation env = (r, env')"
    and "op_kind operation = SetUserEnvironment name vref"
    and "memory_value m env' \<noteq> memory_value m env"
  shows "eq_ignore_ascii_case m name \<and> \<not> cancelled
    \<and> (\<exists>v. \<not> looks_secret name v \<and> (vref = SafeValueRef.LiteralNonSecret v
            \<or> (\<exists>src. vref = SafeValueRef.EnvironmentReference src \<and> \<not> looks_secret_name src
                    \<and> memory_value src env = Some v)))"
proof -
  have "ub_read memory_backend m env' \<noteq> ub_read memory_backend m env"
    using assms(3) by (simp add: memory_backend_def)
  from memory_env.execute_writes [OF assms(1,2) this] show ?thesis
    by (simp add: memory_backend_def)
qed

theorem environment_secrets_not_written_witness:
  "memory_value ''editor'' \<lparr>me_values = [(''Editor'', ''vi'')], me_broadcasts = 1\<rparr> \<noteq> memory_value ''editor'' sample_environment
   \<and> eq_ignore_ascii_case ''editor'' ''EDITOR'' \<and> \<not> looks_secret ''EDITOR'' ''vi''"
proof -
  have "memory_value ''editor'' \<lparr>me_values = [(''Editor'', ''vi'')], me_broadcasts = 1\<rparr>
      \<noteq> memory_value ''editor'' sample_environment" by code_simp
  with environment_secrets_not_written [OF sample_execution, of "''EDITOR''" "SafeValueRef.LiteralNonSecret ''vi''" "''editor''"]
  show ?thesis by (simp add: sample_set_operation_def)
qed

end
