(* ===== verification/Recommend.thy ===== *)
theory Recommend
  imports Collections DomainModel "HOL-Library.Product_Lexorder" "HOL-Library.Multiset"
begin

text \<open>
  The component recommendations of \<^verbatim>\<open>crates/reforge-discovery/src/recommend.rs\<close>. Every component
  gets a score from a fixed table of signals, each signal leaving a chip that explains it; a work
  queue then promotes the required dependencies of recommended components until nothing changes.
  A score is an \<^verbatim>\<open>i16\<close> with saturating addition. The vector of scored components is a list that
  is updated by index, as in the code, and an index out of range is the value \<^const>\<open>Panic\<close>.
\<close>

subsection \<open>Definitions\<close>

definition i16_min :: int where "i16_min = - 32768"
definition i16_max :: int where "i16_max = 32767"

definition saturating_add_i16 :: "int \<Rightarrow> int \<Rightarrow> int" where
  "saturating_add_i16 a b = max i16_min (min i16_max (a + b))"

record ExplanationChip =
  chip_code :: str
  chip_label :: str
  chip_delta :: int

record RecommendationScore =
  rec_component :: ComponentId
  rec_score :: int
  rec_recommended :: bool
  rec_chips :: "ExplanationChip list"

definition DEFAULT_LARGE_ARTIFACT_THRESHOLD_BYTES :: nat where
  "DEFAULT_LARGE_ARTIFACT_THRESHOLD_BYTES = 16 * 1024 * 1024"

definition CODE_CONFIRMED_IDENTITY :: str where "CODE_CONFIRMED_IDENTITY = ''confirmed_identity''"
definition CODE_REACHABLE_EXECUTABLE :: str where "CODE_REACHABLE_EXECUTABLE = ''reachable_executable''"
definition CODE_REQUIRED_DEPENDENCY :: str where "CODE_REQUIRED_DEPENDENCY = ''required_dependency''"
definition CODE_PORTABLE_CONFIGURATION :: str where
  "CODE_PORTABLE_CONFIGURATION = ''portable_configuration''"
definition CODE_USER_FACING_CATEGORY :: str where "CODE_USER_FACING_CATEGORY = ''user_facing_category''"
definition CODE_REPRODUCIBLE_SOURCE :: str where "CODE_REPRODUCIBLE_SOURCE = ''reproducible_source''"
definition CODE_MACHINE_ACCOUNT_BOUND :: str where
  "CODE_MACHINE_ACCOUNT_BOUND = ''machine_or_account_bound''"
definition CODE_MANUAL_PRIVILEGED :: str where "CODE_MANUAL_PRIVILEGED = ''manual_or_privileged''"
definition CODE_LARGE_DATA :: str where "CODE_LARGE_DATA = ''large_data''"
definition CODE_UNKNOWN_SOURCE :: str where "CODE_UNKNOWN_SOURCE = ''unknown_source_or_low_confidence''"
definition CODE_SENSITIVE :: str where "CODE_SENSITIVE = ''sensitive_state_excluded''"
definition CODE_NO_SIGNAL :: str where "CODE_NO_SIGNAL = ''no_qualifying_signal''"

text \<open>The signals of one component.\<close>

definition reachability_label :: "str \<Rightarrow> bool" where
  "reachability_label v \<longleftrightarrow>
     to_ascii_lowercase v \<in> {''path'', ''app_paths'', ''start_menu'', ''shortcut''}"

definition explicit_reachability_hint :: "Component \<Rightarrow> bool" where
  "explicit_reachability_hint component \<longleftrightarrow>
     (if list_ex (\<lambda>key. map_of (c_extensions component) key = Some (Bool True))
           [''reachable'', ''executable_reachable'', ''path_reachable'', ''start_menu_or_app_paths'']
      then True
      else case map_of (c_extensions component) ''reachability'' of
             None \<Rightarrow> False
           | Some (String v) \<Rightarrow> reachability_label v
           | Some (Array vs) \<Rightarrow>
               list_ex (\<lambda>v. case v of String t \<Rightarrow> reachability_label t | _ \<Rightarrow> False) vs
           | Some _ \<Rightarrow> False)"

definition executable_is_reachable :: "Component \<Rightarrow> bool" where
  "executable_is_reachable component \<longleftrightarrow>
     (if explicit_reachability_hint component then True
      else list_ex (\<lambda>rule. case rule of
               FileVersion destination _ _ \<Rightarrow> pt_root destination = StartMenu
             | _ \<Rightarrow> False) (c_verification component))"

definition has_portable_configuration :: "Component \<Rightarrow> bool" where
  "has_portable_configuration component \<longleftrightarrow>
     rd_primary (c_restore component) \<in> {ConfigPortable, ExportImport}
     \<or> list_ex (\<lambda>artifact. art_policy artifact \<in> {ArtifactPolicy.Config, ArtifactPolicy.Export})
         (c_artifacts component)"

definition has_reproducible_source :: "Component \<Rightarrow> bool" where
  "has_reproducible_source component \<longleftrightarrow>
     (case c_provenance component of
        None \<Rightarrow> False
      | Some provenance \<Rightarrow>
          prov_source_url provenance \<noteq> None
          \<or> prov_provider provenance \<noteq> None
            \<and> (case prov_package_id provenance of
                  None \<Rightarrow> False
                | Some package_id \<Rightarrow> str_trim package_id \<noteq> []))"

definition is_low_confidence :: "Component \<Rightarrow> bool" where
  "is_low_confidence component \<longleftrightarrow> c_confidence component \<in> {Confidence.Low, Confidence.Unknown}"

definition is_machine_or_account_bound :: "Component \<Rightarrow> bool" where
  "is_machine_or_account_bound component \<longleftrightarrow>
     rd_portability (c_restore component)
       \<in> {Portability.MachineBound, UserBound, ApplicationBound, Portability.ReauthRequired}
     \<or> rd_primary (c_restore component) \<in> {RestoreStrategy.MachineBound, RestoreStrategy.ReauthRequired}"

definition is_manual_or_privileged :: "Component \<Rightarrow> bool" where
  "is_manual_or_privileged component \<longleftrightarrow>
     rd_requires_elevation (c_restore component)
     \<or> cmp_requires_elevation (c_compatibility component)
     \<or> rd_primary (c_restore component)
         \<in> {RestoreStrategy.Manual, RestoreStrategy.PortableBinary, RestoreStrategy.Partial,
            RestoreStrategy.Unknown}
     \<or> c_kind component \<in> {Service, ScheduledTask, SystemFeature}"

definition is_sensitive :: "Component \<Rightarrow> bool" where
  "is_sensitive component \<longleftrightarrow>
     sm_sensitive (c_selection component)
     \<or> c_kind component = ComponentKind.SecretReference
     \<or> rd_primary (c_restore component) = SecretExportable
     \<or> list_ex (\<lambda>artifact. art_policy artifact = ArtifactPolicy.SecretReference) (c_artifacts component)"

definition is_large :: "Component \<Rightarrow> bool" where
  "is_large component \<longleftrightarrow>
     sm_size_bytes (c_selection component) > DEFAULT_LARGE_ARTIFACT_THRESHOLD_BYTES
     \<or> list_ex (\<lambda>artifact. art_size_bytes artifact > DEFAULT_LARGE_ARTIFACT_THRESHOLD_BYTES
                           \<or> art_policy artifact = LargeOptIn) (c_artifacts component)
     \<or> map_of (c_extensions component) ''large_data'' = Some (Bool True)"

text \<open>Scoring: the running score and the chips are threaded through the table of signals.\<close>

record ScoredComponent =
  sc_component :: Component
  sc_score :: int
  sc_chips :: "ExplanationChip list"
  sc_auto_allowed :: bool
  sc_recommended :: bool
  sc_promoted :: bool

definition add_chip :: "str \<Rightarrow> str \<Rightarrow> int \<Rightarrow> int \<times> ExplanationChip list \<Rightarrow> int \<times> ExplanationChip list" where
  "add_chip cd label delta = (\<lambda>(score, chips).
     (saturating_add_i16 score delta,
      chips @ [\<lparr>chip_code = cd, chip_label = label, chip_delta = delta\<rparr>]))"

definition chip_when :: "bool \<Rightarrow> str \<Rightarrow> str \<Rightarrow> int \<Rightarrow> int \<times> ExplanationChip list \<Rightarrow> int \<times> ExplanationChip list" where
  "chip_when b cd label delta st = (if b then add_chip cd label delta st else st)"

definition score_component :: "Component \<Rightarrow> ScoredComponent" where
  "score_component component =
     (let sensitive = is_sensitive component;
          large = is_large component;
          machine_or_account_bound = is_machine_or_account_bound component;
          manual_or_privileged = is_manual_or_privileged component;
          st = (0, []);
          st = chip_when (c_kind component \<in> {Package, Application} \<and> c_confidence component = Confirmed)
                 CODE_CONFIRMED_IDENTITY ''Confirmed package or application identity'' 30 st;
          st = chip_when (executable_is_reachable component)
                 CODE_REACHABLE_EXECUTABLE ''Executable reachability was observed'' 20 st;
          st = chip_when (has_portable_configuration component)
                 CODE_PORTABLE_CONFIGURATION ''Documented portable configuration is available'' 15 st;
          st = chip_when (c_kind component \<in> {Application, Editor, Browser, Harness})
                 CODE_USER_FACING_CATEGORY ''User-facing application category'' 10 st;
          st = chip_when (has_reproducible_source component)
                 CODE_REPRODUCIBLE_SOURCE ''Source and provenance are reproducible'' 10 st;
          st = chip_when machine_or_account_bound
                 CODE_MACHINE_ACCOUNT_BOUND ''State is bound to a machine or account'' (- 25) st;
          st = chip_when manual_or_privileged
                 CODE_MANUAL_PRIVILEGED ''Restore requires privileged or manual review'' (- 20) st;
          st = chip_when large
                 CODE_LARGE_DATA ''Large data requires explicit selection'' (- 15) st;
          st = chip_when (is_low_confidence component \<or> \<not> has_reproducible_source component)
                 CODE_UNKNOWN_SOURCE ''Source or identity confidence is incomplete'' (- 10) st;
          auto_allowed = (\<not> sensitive \<and> \<not> large \<and> \<not> machine_or_account_bound
                          \<and> \<not> manual_or_privileged
                          \<and> rd_primary (c_restore component) \<noteq> SecretExportable);
          (score, chips) = st;
          chips = (if sensitive
                   then chips @ [\<lparr>chip_code = CODE_SENSITIVE,
                                  chip_label = ''Sensitive state is never automatically selected'',
                                  chip_delta = 0\<rparr>]
                   else chips);
          chips = (if chips = []
                   then chips @ [\<lparr>chip_code = CODE_NO_SIGNAL,
                                  chip_label = ''No qualifying recommendation signal was observed'',
                                  chip_delta = 0\<rparr>]
                   else chips)
      in \<lparr>sc_component = component, sc_score = score, sc_chips = chips,
          sc_auto_allowed = auto_allowed, sc_recommended = (auto_allowed \<and> score > 0),
          sc_promoted = False\<rparr>)"

fun kind_category :: "ComponentKind \<Rightarrow> nat" where
  "kind_category Application = 0"
| "kind_category Package = 1"
| "kind_category Runtime = 2"
| "kind_category Tool = 3"
| "kind_category Harness = 4"
| "kind_category McpServer = 5"
| "kind_category Skill = 6"
| "kind_category Agent = 7"
| "kind_category Hook = 8"
| "kind_category Plugin = 9"
| "kind_category Browser = 10"
| "kind_category BrowserProfile = 11"
| "kind_category Editor = 12"
| "kind_category Extension = 13"
| "kind_category Configuration = 14"
| "kind_category DataArtifact = 15"
| "kind_category ComponentKind.SecretReference = 16"
| "kind_category EnvironmentVariable = 17"
| "kind_category SystemFeature = 18"
| "kind_category Service = 19"
| "kind_category ScheduledTask = 20"
| "kind_category Shell = 21"
| "kind_category ComponentKind.PortableBinary = 22"
| "kind_category WslDistribution = 23"
| "kind_category DockerContext = 24"
| "kind_category DockerImage = 25"
| "kind_category DockerVolume = 26"
| "kind_category ComponentKind.Unknown = 27"

definition component_category :: "Component \<Rightarrow> nat" where
  "component_category component = kind_category (c_kind component)"

text \<open>The comparison of two components is the lexicographic one on these keys.\<close>

definition component_order :: "Component \<Rightarrow> str \<times> nat \<times> str" where
  "component_order c = (c_id c, component_category c, c_display_name c)"

text \<open>The required edges between known components, grouped by their source.\<close>

definition require_edge ::
  "(ComponentId, nat) btree \<Rightarrow> DependencyEdge \<Rightarrow> (ComponentId, ComponentId list) btree
   \<Rightarrow> (ComponentId, ComponentId list) btree" where
  "require_edge indexes edge required =
     (if edge_required edge \<and> bt_get indexes (edge_from edge) \<noteq> None \<and> bt_get indexes (edge_to edge) \<noteq> None
      then let targets = (case bt_get required (edge_from edge) of None \<Rightarrow> [] | Some ts \<Rightarrow> ts)
           in bt_insert (edge_from edge) (insort_insert (edge_to edge) targets) required
      else required)"

definition graph_edges :: "ComponentGraph \<Rightarrow> DependencyEdge list" where
  "graph_edges graph = g_edges graph @ concat (map c_dependencies (g_components graph))"

definition required_dependencies ::
  "ComponentGraph \<Rightarrow> (ComponentId, nat) btree \<Rightarrow> (ComponentId, ComponentId list) btree" where
  "required_dependencies graph indexes = fold (require_edge indexes) (graph_edges graph) []"

text \<open>The promotion of one dependency, the loop over the dependencies of one component, and the
  work queue. The vector is never shorter than an index of the map, see below.\<close>

type_synonym promotion = "ScoredComponent list \<times> nat list"

definition promote_target ::
  "(ComponentId, nat) btree \<Rightarrow> nat \<Rightarrow> ComponentId \<Rightarrow> promotion \<Rightarrow> (unit abort, promotion) result" where
  "promote_target component_indexes source_index target_id = (\<lambda>(scored, queue).
     case bt_get component_indexes target_id of
       None \<Rightarrow> Inr (scored, queue)
     | Some target_index \<Rightarrow>
         if target_index = source_index then Inr (scored, queue)
         else if target_index \<ge> length scored then Inl Panic
         else if sc_promoted (scored ! target_index) then Inr (scored, queue)
         else let target = scored ! target_index;
                  (score, chips) = add_chip CODE_REQUIRED_DEPENDENCY
                     ''Required dependency of a recommended component'' 20
                     (sc_score target, sc_chips target);
                  target = target\<lparr>sc_promoted := True, sc_score := score, sc_chips := chips\<rparr>
              in if sc_auto_allowed target \<and> sc_score target > 0 \<and> \<not> sc_recommended target
                 then Inr (scored[target_index := target\<lparr>sc_recommended := True\<rparr>], queue @ [target_index])
                 else Inr (scored[target_index := target], queue))"

definition unrecommended :: "ScoredComponent list \<Rightarrow> nat" where
  "unrecommended scored = length (filter (\<lambda>s. \<not> sc_recommended s) scored)"

lemma unrecommended_update_eq:
  "i < length scored \<Longrightarrow> sc_recommended t = sc_recommended (scored ! i)
   \<Longrightarrow> unrecommended (scored[i := t]) = unrecommended scored"
proof (induction scored arbitrary: i)
  case (Cons s scored)
  then show ?case by (cases i) (auto simp: unrecommended_def)
qed simp

lemma unrecommended_update_less:
  "i < length scored \<Longrightarrow> sc_recommended t \<Longrightarrow> \<not> sc_recommended (scored ! i)
   \<Longrightarrow> Suc (2 * unrecommended (scored[i := t])) \<le> 2 * unrecommended scored"
proof (induction scored arbitrary: i)
  case (Cons s scored)
  then show ?case by (cases i) (auto simp: unrecommended_def)
qed simp

lemma promote_target_measure:
  assumes "promote_target indexes source target (scored, queue) = Inr (scored', queue')"
  shows "2 * unrecommended scored' + length queue' \<le> 2 * unrecommended scored + length queue"
  using assms
  by (auto simp: promote_target_def Let_def add_chip_def unrecommended_update_eq
        unrecommended_update_less split: option.splits if_splits prod.splits)

lemma promote_targets_measure:
  "try_fold (promote_target indexes source) targets (scored, queue) = Inr (scored', queue')
   \<Longrightarrow> 2 * unrecommended scored' + length queue' \<le> 2 * unrecommended scored + length queue"
proof (induction targets arbitrary: scored queue)
  case (Cons target targets)
  then obtain s q where "promote_target indexes source target (scored, queue) = Inr (s, q)"
    and "try_fold (promote_target indexes source) targets (s, q) = Inr (scored', queue')"
    by (auto simp: try_bind_def split: sum.splits)
  with Cons.IH promote_target_measure show ?case by fastforce
qed simp

function promote_loop ::
  "(ComponentId, nat) btree \<Rightarrow> (ComponentId, ComponentId list) btree \<Rightarrow> ScoredComponent list \<Rightarrow> nat list
   \<Rightarrow> (unit abort, ScoredComponent list) result" where
  "promote_loop component_indexes required scored [] = Inr scored"
| "promote_loop component_indexes required scored (source_index # queue) =
     (if source_index \<ge> length scored then Inl Panic
      else case bt_get required (c_id (sc_component (scored ! source_index))) of
        None \<Rightarrow> promote_loop component_indexes required scored queue
      | Some targets \<Rightarrow>
          (case try_fold (promote_target component_indexes source_index) targets (scored, queue) of
             Inl e \<Rightarrow> Inl e
           | Inr (scored', queue') \<Rightarrow> promote_loop component_indexes required scored' queue'))"
  by pat_completeness auto
termination
proof (relation "measure (\<lambda>(_, _, scored, queue). 2 * unrecommended scored + length queue)", goal_cases)
  case (3 ix req scored source queue targets st scored' queue')
  then show ?case using promote_targets_measure by fastforce
qed auto

definition recommendation_of :: "ScoredComponent \<Rightarrow> RecommendationScore" where
  "recommendation_of s =
     \<lparr>rec_component = c_id (sc_component s), rec_score = sc_score s,
      rec_recommended = sc_recommended s, rec_chips = sc_chips s\<rparr>"

definition component_indexes_of :: "Component list \<Rightarrow> (ComponentId, nat) btree" where
  "component_indexes_of components =
     fold (\<lambda>(index, component) m. bt_insert (c_id component) index m) (enumerate 0 components) []"

text \<open>The final order: highest score first, then the category of the indexed component, then the id.\<close>

definition output_order ::
  "Component list \<Rightarrow> (ComponentId, nat) btree \<Rightarrow> RecommendationScore \<Rightarrow> int \<times> nat \<times> str" where
  "output_order components indexes r =
     (- rec_score r,
      (case bt_get indexes (rec_component r) of
         None \<Rightarrow> 0 | Some index \<Rightarrow> component_category (components ! index)),
      rec_component r)"

definition recommend :: "ComponentGraph \<Rightarrow> (unit abort, RecommendationScore list) result" where
  "recommend graph =
     (let components = sort_key component_order (g_components graph);
          component_indexes = component_indexes_of components;
          scored = map score_component components;
          required = required_dependencies graph component_indexes;
          queue = filter (\<lambda>index. sc_recommended (scored ! index)) [0..<length scored]
      in try_bind (promote_loop component_indexes required scored queue) (\<lambda>scored.
         let out = map recommendation_of scored
         in if list_all (\<lambda>r. bt_get component_indexes (rec_component r) \<noteq> None) out
            then Inr (sort_key (output_order components component_indexes) out)
            else Inl Panic))"

subsection \<open>Scores and their explanations\<close>

text \<open>The deltas of the chips add up to the score, which stays far inside the range of an \<^verbatim>\<open>i16\<close>.\<close>

definition explained :: "int \<Rightarrow> int \<Rightarrow> int \<times> ExplanationChip list \<Rightarrow> bool" where
  "explained lo hi st \<longleftrightarrow>
     sum_list (map chip_delta (snd st)) = fst st \<and> lo \<le> fst st \<and> fst st \<le> hi"

lemma saturating_add_i16_exact:
  "i16_min \<le> a + b \<Longrightarrow> a + b \<le> i16_max \<Longrightarrow> saturating_add_i16 a b = a + b"
  by (simp add: saturating_add_i16_def)

lemma explained_add_chip:
  assumes "explained lo hi st" "i16_min \<le> lo + d" "hi + d \<le> i16_max"
  shows "explained (lo + d) (hi + d) (add_chip cd label d st)"
  using assms by (auto simp: explained_def add_chip_def saturating_add_i16_exact split: prod.splits)

lemma explained_chip_when:
  assumes "explained lo hi st" "i16_min \<le> lo + min 0 d" "hi + max 0 d \<le> i16_max"
  shows "explained (lo + min 0 d) (hi + max 0 d) (chip_when b cd label d st)"
  using assms explained_add_chip [of lo hi st d cd label]
  by (cases "d \<ge> 0") (auto simp: chip_when_def explained_def min_def max_def)

lemma explained_neutral:
  "explained lo hi (score, chips)
   \<Longrightarrow> explained lo hi (score, if b then chips @ [\<lparr>chip_code = cd, chip_label = l, chip_delta = 0\<rparr>] else chips)"
  by (simp add: explained_def)

lemma explained_start: "explained 0 0 (0, [])"
  by (simp add: explained_def)

lemma score_component_explained:
  "explained (- 70) 85 (sc_score (score_component c), sc_chips (score_component c))"
proof -
  note step = explained_chip_when [unfolded i16_min_def i16_max_def]
  show ?thesis
    unfolding score_component_def Let_def case_prod_beta ScoredComponent.simps
    by (rule explained_neutral, rule explained_neutral, unfold prod.collapse)
      (rule step [where lo = "- 60" and hi = 85 and d = "- 10", simplified]
            step [where lo = "- 45" and hi = 85 and d = "- 15", simplified]
            step [where lo = "- 25" and hi = 85 and d = "- 20", simplified]
            step [where lo = 0 and hi = 85 and d = "- 25", simplified]
            step [where lo = 0 and hi = 75 and d = 10, simplified]
            step [where lo = 0 and hi = 65 and d = 10, simplified]
            step [where lo = 0 and hi = 50 and d = 15, simplified]
            step [where lo = 0 and hi = 30 and d = 20, simplified]
            step [where lo = 0 and hi = 0 and d = 30, simplified] explained_start)+
qed

lemma score_component_fields:
  "sc_component (score_component c) = c"
  "\<not> sc_promoted (score_component c)"
  "sc_recommended (score_component c) \<longleftrightarrow> sc_auto_allowed (score_component c) \<and> sc_score (score_component c) > 0"
  "sc_auto_allowed (score_component c) \<longleftrightarrow>
     \<not> is_sensitive c \<and> \<not> is_large c \<and> \<not> is_machine_or_account_bound c \<and> \<not> is_manual_or_privileged c"
  by (auto simp: score_component_def Let_def case_prod_beta is_sensitive_def)

lemma score_component_chips: "sc_chips (score_component c) \<noteq> []"
  by (simp add: score_component_def Let_def case_prod_beta)

subsection \<open>Promotion\<close>

text \<open>What the code does to a dependency that it promotes.\<close>

definition promote :: "ScoredComponent \<Rightarrow> ScoredComponent" where
  "promote s =
     (let (score, chips) = add_chip CODE_REQUIRED_DEPENDENCY
            ''Required dependency of a recommended component'' 20 (sc_score s, sc_chips s)
      in s\<lparr>sc_promoted := True, sc_score := score, sc_chips := chips,
           sc_recommended := (sc_recommended s \<or> sc_auto_allowed s \<and> score > 0)\<rparr>)"

definition promotable :: "ScoredComponent \<Rightarrow> bool" where
  "promotable s \<longleftrightarrow> sc_auto_allowed s \<and> saturating_add_i16 (sc_score s) 20 > 0"

lemma promote_fields [simp]:
  "sc_component (promote s) = sc_component s"
  "sc_auto_allowed (promote s) = sc_auto_allowed s"
  "sc_promoted (promote s)"
  "sc_score (promote s) = saturating_add_i16 (sc_score s) 20"
  "sc_recommended (promote s) \<longleftrightarrow> sc_recommended s \<or> promotable s"
  by (simp_all add: promote_def promotable_def add_chip_def)

lemma promote_target_eq:
  "promote_target indexes source target (scored, queue) =
     (case bt_get indexes target of
        None \<Rightarrow> Inr (scored, queue)
      | Some t \<Rightarrow>
          if t = source then Inr (scored, queue)
          else if t \<ge> length scored then Inl Panic
          else if sc_promoted (scored ! t) then Inr (scored, queue)
          else Inr (scored[t := promote (scored ! t)],
                    if \<not> sc_recommended (scored ! t) \<and> promotable (scored ! t) then queue @ [t] else queue))"
proof -
  have upd: "s\<lparr>sc_promoted := True, sc_score := x, sc_chips := y\<rparr> =
             s\<lparr>sc_promoted := True, sc_score := x, sc_chips := y, sc_recommended := b\<rparr>"
    if "sc_recommended s \<longleftrightarrow> b" for s :: ScoredComponent and x y b
    using that by (cases s) simp
  show ?thesis
    by (simp add: promote_target_def promote_def promotable_def add_chip_def Let_def split: option.split)
      (auto intro!: arg_cong [where f = "\<lambda>s. scored[_ := s]"] upd)
qed

text \<open>The vector after the promotion of the components at the indices \<open>P\<close>.\<close>

definition marked :: "ScoredComponent list \<Rightarrow> nat set \<Rightarrow> ScoredComponent list" where
  "marked base P = map (\<lambda>i. if i \<in> P then promote (base ! i) else base ! i) [0..<length base]"

definition fresh_base :: "ScoredComponent list \<Rightarrow> bool" where
  "fresh_base base \<longleftrightarrow> list_all (\<lambda>s. \<not> sc_promoted s) base"

lemma length_marked [simp]: "length (marked base P) = length base"
  by (simp add: marked_def)

lemma nth_marked [simp]:
  "i < length base \<Longrightarrow> marked base P ! i = (if i \<in> P then promote (base ! i) else base ! i)"
  by (simp add: marked_def)

lemma marked_empty: "marked base {} = base"
  by (rule nth_equalityI) simp_all

lemma marked_insert:
  "i < length base \<Longrightarrow> i \<notin> P \<Longrightarrow> (marked base P)[i := promote (base ! i)] = marked base (insert i P)"
  by (rule nth_equalityI) (auto simp: nth_list_update)

definition base_set :: "ScoredComponent list \<Rightarrow> nat set" where
  "base_set base = {i. i < length base \<and> sc_recommended (base ! i)}"

definition rec_after :: "ScoredComponent list \<Rightarrow> nat set \<Rightarrow> nat set" where
  "rec_after base P =
     {i. i < length base \<and> (sc_recommended (base ! i) \<or> i \<in> P \<and> promotable (base ! i))}"

definition promotion_steps :: "ScoredComponent list \<Rightarrow> (nat \<times> nat) set \<Rightarrow> (nat \<times> nat) set" where
  "promotion_steps base E = {(i, j). (i, j) \<in> E \<and> promotable (base ! j)}"

text \<open>
  The invariant of the work queue: only dependencies of recommended components are promoted, the
  recommended components that are not pending have all their dependencies promoted, and nothing is
  recommended that is not reached from the directly recommended components.
\<close>

definition promotion_inv ::
  "ScoredComponent list \<Rightarrow> (nat \<times> nat) set \<Rightarrow> nat set \<Rightarrow> nat set \<Rightarrow> bool" where
  "promotion_inv base E P pending \<longleftrightarrow>
     P \<subseteq> {..<length base} \<and> pending \<subseteq> rec_after base P
     \<and> P \<subseteq> E `` rec_after base P
     \<and> (\<forall>i \<in> rec_after base P - pending. E `` {i} \<subseteq> P)
     \<and> rec_after base P \<subseteq> (promotion_steps base E)\<^sup>* `` base_set base"

lemma promotion_inv_start: "promotion_inv base E {} (base_set base)"
  by (auto simp: promotion_inv_def base_set_def rec_after_def)

lemma rec_after_insert:
  "t < length base
   \<Longrightarrow> rec_after base (insert t P) = rec_after base P \<union> (if promotable (base ! t) then {t} else {})"
  by (auto simp: rec_after_def)

lemma promotion_inv_step:
  assumes inv: "promotion_inv base E P (insert s Q)" and st: "(s, t) \<in> E" and t: "t < length base"
  shows "promotion_inv base E (insert t P)
           (insert s (Q \<union> (if t \<notin> rec_after base P \<and> promotable (base ! t) then {t} else {})))"
proof -
  have s: "s \<in> rec_after base P" and reach: "s \<in> (promotion_steps base E)\<^sup>* `` base_set base"
    using inv by (auto simp: promotion_inv_def)
  have "t \<in> (promotion_steps base E)\<^sup>* `` base_set base" if "promotable (base ! t)"
    using reach st that by (auto simp: promotion_steps_def intro: rtrancl_into_rtrancl)
  with inv s st t show ?thesis
    unfolding promotion_inv_def rec_after_insert [OF t] by (cases "promotable (base ! t)") auto
qed

lemma promotion_inv_drop:
  assumes "promotion_inv base E P (insert s Q)" and "E `` {s} \<subseteq> P"
  shows "promotion_inv base E P Q"
  using assms by (auto simp: promotion_inv_def)

lemma promotion_inv_done:
  assumes inv: "promotion_inv base E P {}" and E: "E \<subseteq> UNIV \<times> {..<length base}"
  shows "rec_after base P = (promotion_steps base E)\<^sup>* `` base_set base"
    and "P = E `` rec_after base P"
proof -
  show P: "P = E `` rec_after base P" using inv by (auto simp: promotion_inv_def)
  have "j \<in> rec_after base P" if "(i, j) \<in> (promotion_steps base E)\<^sup>*" "i \<in> base_set base" for i j
    using that
  proof (induction rule: rtrancl_induct)
    case base
    then show ?case by (simp add: base_set_def rec_after_def)
  next
    case (step j k)
    then have "k \<in> P" using P by (auto simp: promotion_steps_def)
    with step.hyps(2) E show ?case by (auto simp: rec_after_def promotion_steps_def)
  qed
  with inv show "rec_after base P = (promotion_steps base E)\<^sup>* `` base_set base"
    by (auto simp: promotion_inv_def)
qed

subsection \<open>The work queue keeps the invariant and ends\<close>

definition promotion_edges ::
  "(ComponentId, nat) btree \<Rightarrow> (ComponentId, ComponentId list) btree \<Rightarrow> ScoredComponent list
   \<Rightarrow> (nat \<times> nat) set" where
  "promotion_edges indexes required base =
     {(i, j). i < length base \<and> j \<noteq> i
        \<and> (\<exists>targets target. bt_get required (c_id (sc_component (base ! i))) = Some targets
              \<and> target \<in> set targets \<and> bt_get indexes target = Some j)}"

definition indexes_in :: "(ComponentId, nat) btree \<Rightarrow> nat \<Rightarrow> bool" where
  "indexes_in indexes n \<longleftrightarrow> (\<forall>x i. bt_get indexes x = Some i \<longrightarrow> i < n)"

lemma promote_targets_inv:
  assumes base: "fresh_base base" and ix: "indexes_in indexes (length base)"
    and edges: "\<forall>x j. x \<in> set targets \<and> bt_get indexes x = Some j \<and> j \<noteq> s \<longrightarrow> (s, j) \<in> E"
    and inv: "promotion_inv base E P (insert s (set queue))"
  shows "\<exists>P' queue'. try_fold (promote_target indexes s) targets (marked base P, queue) = Inr (marked base P', queue')
           \<and> promotion_inv base E P' (insert s (set queue')) \<and> P \<subseteq> P'
           \<and> (\<forall>x j. x \<in> set targets \<and> bt_get indexes x = Some j \<and> j \<noteq> s \<longrightarrow> j \<in> P')"
  using edges inv
proof (induction targets arbitrary: P queue)
  case Nil
  then show ?case by auto
next
  case (Cons x targets)
  obtain P1 q1 where step: "promote_target indexes s x (marked base P, queue) = Inr (marked base P1, q1)"
    and inv1: "promotion_inv base E P1 (insert s (set q1))" and sub: "P \<subseteq> P1"
    and x: "\<forall>j. bt_get indexes x = Some j \<and> j \<noteq> s \<longrightarrow> j \<in> P1"
  proof (cases "\<exists>j. bt_get indexes x = Some j \<and> j \<noteq> s \<and> j \<notin> P")
    case True
    then obtain j where j: "bt_get indexes x = Some j" "j \<noteq> s" "j \<notin> P" by auto
    have len: "j < length base" using ix j by (auto simp: indexes_in_def)
    have "(s, j) \<in> E" using Cons.prems(1) j by auto
    from promotion_inv_step [OF Cons.prems(2) this len]
    have "promotion_inv base E (insert j P) (insert s (set (if \<not> sc_recommended (base ! j) \<and> promotable (base ! j)
            then queue @ [j] else queue)))"
      using j len by (cases "promotable (base ! j)") (auto simp: rec_after_def insert_commute Un_commute split: if_splits)
    moreover have "\<not> sc_promoted (base ! j)" using base len by (auto simp: fresh_base_def list_all_length)
    then have "promote_target indexes s x (marked base P, queue) = Inr (marked base (insert j P),
        if \<not> sc_recommended (base ! j) \<and> promotable (base ! j) then queue @ [j] else queue)"
      using j len by (simp add: promote_target_eq marked_insert)
    ultimately show ?thesis using j by (intro that [of "insert j P"]) auto
  next
    case False
    have "promote_target indexes s x (marked base P, queue) = Inr (marked base P, queue)"
    proof (cases "bt_get indexes x")
      case (Some j)
      with ix have "j < length base" by (auto simp: indexes_in_def)
      with Some False show ?thesis by (auto simp: promote_target_eq)
    qed (simp add: promote_target_eq)
    with False show ?thesis using Cons.prems(2) by (intro that [of P queue]) auto
  qed
  have "\<forall>x j. x \<in> set targets \<and> bt_get indexes x = Some j \<and> j \<noteq> s \<longrightarrow> (s, j) \<in> E"
    using Cons.prems(1) by auto
  from Cons.IH [OF this inv1] obtain P' queue' where
    "try_fold (promote_target indexes s) targets (marked base P1, q1) = Inr (marked base P', queue')"
    "promotion_inv base E P' (insert s (set queue'))" "P1 \<subseteq> P'"
    "\<forall>x j. x \<in> set targets \<and> bt_get indexes x = Some j \<and> j \<noteq> s \<longrightarrow> j \<in> P'" by blast
  with step sub x show ?case
    by (intro exI [of _ P'] exI [of _ queue']) (auto simp: try_bind_def)
qed

lemma promote_loop_inv:
  assumes base: "fresh_base base" and ix: "indexes_in indexes (length base)"
  shows "promotion_inv base (promotion_edges indexes required base) P (set queue)
    \<Longrightarrow> \<exists>P'. promote_loop indexes required (marked base P) queue = Inr (marked base P')
          \<and> promotion_inv base (promotion_edges indexes required base) P' {}"
proof (induction "2 * unrecommended (marked base P) + length queue" arbitrary: P queue rule: less_induct)
  case less
  let ?E = "promotion_edges indexes required base"
  show ?case
  proof (cases queue)
    case Nil
    with less.prems show ?thesis by auto
  next
    case (Cons s q)
    then have s: "s < length base" and inv: "promotion_inv base ?E P (insert s (set q))"
      using less.prems by (auto simp: promotion_inv_def rec_after_def)
    have id: "c_id (sc_component (marked base P ! s)) = c_id (sc_component (base ! s))" using s by simp
    show ?thesis
    proof (cases "bt_get required (c_id (sc_component (base ! s)))")
      case None
      then have "?E `` {s} \<subseteq> P" by (auto simp: promotion_edges_def)
      from promotion_inv_drop [OF inv this] less.hyps [of P q] show ?thesis
        using Cons s None id by simp
    next
      case (Some targets)
      have "\<forall>x j. x \<in> set targets \<and> bt_get indexes x = Some j \<and> j \<noteq> s \<longrightarrow> (s, j) \<in> ?E"
        using s Some by (auto simp: promotion_edges_def)
      from promote_targets_inv [OF base ix this inv] obtain P' q' where
        fold: "try_fold (promote_target indexes s) targets (marked base P, q) = Inr (marked base P', q')"
        and inv': "promotion_inv base ?E P' (insert s (set q'))"
        and all: "\<forall>x j. x \<in> set targets \<and> bt_get indexes x = Some j \<and> j \<noteq> s \<longrightarrow> j \<in> P'" by blast
      have "?E `` {s} \<subseteq> P'" using all Some by (auto simp: promotion_edges_def)
      note inv'' = promotion_inv_drop [OF inv' this]
      have "2 * unrecommended (marked base P') + length q' < 2 * unrecommended (marked base P) + length queue"
        using promote_targets_measure [OF fold] Cons by simp
      from less.hyps [OF this inv''] show ?thesis using Cons s Some id fold by simp
    qed
  qed
qed

subsection \<open>Indices of identifiers\<close>

lemma component_indexes_of_get:
  "bt_get (component_indexes_of cs) = map_of (rev (map (\<lambda>(i, c). (c_id c, i)) (enumerate 0 cs)))"
proof -
  have "component_indexes_of cs = bt.insert_all (map (\<lambda>(i, c). (c_id c, i)) (enumerate 0 cs)) []"
    by (simp add: component_indexes_of_def bt.insert_all_def foldl_conv_fold fold_map comp_def case_prod_beta')
  then show ?thesis by (simp add: bt.get_insert_all)
qed

lemma component_indexes_of_sound:
  assumes "bt_get (component_indexes_of cs) x = Some i"
  shows "i < length cs" "c_id (cs ! i) = x"
  using map_of_SomeD [OF assms [unfolded component_indexes_of_get]]
  by (auto simp: in_set_enumerate_eq)

lemma component_indexes_of_known:
  "bt_get (component_indexes_of cs) x \<noteq> None \<longleftrightarrow> x \<in> c_id ` set cs"
proof -
  have "bt_get (component_indexes_of cs) x \<noteq> None \<longleftrightarrow> x \<in> c_id ` snd ` set (enumerate 0 cs)"
    unfolding component_indexes_of_get map_of_eq_None_iff not_not
    by (simp add: image_image case_prod_beta)
  also have "snd ` set (enumerate 0 cs) = set cs" by (simp flip: set_map)
  finally show ?thesis .
qed

lemma component_indexes_of_distinct:
  assumes "distinct (map c_id cs)"
  shows "bt_get (component_indexes_of cs) x = Some i \<longleftrightarrow> i < length cs \<and> c_id (cs ! i) = x"
proof
  assume i: "i < length cs \<and> c_id (cs ! i) = x"
  then obtain j where j: "bt_get (component_indexes_of cs) x = Some j"
    using component_indexes_of_known [of cs x] by auto
  have "j = i"
    using component_indexes_of_sound [OF j] i assms by (simp add: distinct_conv_nth) metis
  with j show "bt_get (component_indexes_of cs) x = Some i" by simp
qed (use component_indexes_of_sound in blast)

definition required_edge :: "ComponentGraph \<Rightarrow> ComponentId \<Rightarrow> ComponentId \<Rightarrow> bool" where
  "required_edge graph x y \<longleftrightarrow>
     x \<noteq> y \<and> list_ex (\<lambda>e. edge_required e \<and> edge_from e = x \<and> edge_to e = y) (graph_edges graph)"

text \<open>The map of required dependencies holds exactly the required edges between known components.\<close>

definition groups :: "(ComponentId, nat) btree \<Rightarrow> DependencyEdge list \<Rightarrow> ComponentId \<Rightarrow> ComponentId \<Rightarrow> bool" where
  "groups indexes es x y \<longleftrightarrow>
     (\<exists>e \<in> set es. edge_required e \<and> edge_from e = x \<and> edge_to e = y
        \<and> bt_get indexes x \<noteq> None \<and> bt_get indexes y \<noteq> None)"

definition grouped :: "(ComponentId, ComponentId list) btree \<Rightarrow> ComponentId \<Rightarrow> ComponentId \<Rightarrow> bool" where
  "grouped m x y \<longleftrightarrow> (\<exists>ts. bt_get m x = Some ts \<and> y \<in> set ts)"

lemma require_edge_grouped:
  "bt_inv m \<Longrightarrow> bt_inv (require_edge indexes e m)
     \<and> (grouped (require_edge indexes e m) x y \<longleftrightarrow> grouped m x y \<or> groups indexes [e] x y)"
  by (auto simp: require_edge_def Let_def grouped_def groups_def bt_inv_insert bt_get_insert
        set_insort_insert split: option.splits)

lemma require_edges_grouped:
  "bt_inv m \<Longrightarrow> grouped (fold (require_edge indexes) es m) x y \<longleftrightarrow> grouped m x y \<or> groups indexes es x y"
proof (induction es arbitrary: m)
  case Nil
  then show ?case by (simp add: groups_def)
next
  case (Cons e es)
  have "groups indexes (e # es) x y \<longleftrightarrow> groups indexes [e] x y \<or> groups indexes es x y"
    by (auto simp: groups_def)
  with Cons require_edge_grouped [OF Cons.prems, of indexes e] show ?case by auto
qed

lemma required_dependencies_grouped:
  "grouped (required_dependencies graph indexes) x y \<longleftrightarrow> groups indexes (graph_edges graph) x y"
  unfolding required_dependencies_def
  using require_edges_grouped [of "[]" indexes "graph_edges graph" x y] by (simp add: grouped_def)

lemma promotion_edges_eq:
  assumes dist: "distinct (map c_id cs)"
  shows "promotion_edges (component_indexes_of cs)
           (required_dependencies graph (component_indexes_of cs)) (map score_component cs)
         = {(i, j). i < length cs \<and> j < length cs \<and> required_edge graph (c_id (cs ! i)) (c_id (cs ! j))}"
    (is "?L = ?R")
proof (intro set_eqI, clarify)
  fix i j
  let ?ix = "component_indexes_of cs"
  have "(i, j) \<in> ?L \<longleftrightarrow> i < length cs \<and> j \<noteq> i
      \<and> (\<exists>y. grouped (required_dependencies graph ?ix) (c_id (cs ! i)) y \<and> bt_get ?ix y = Some j)"
    by (auto simp: promotion_edges_def grouped_def score_component_fields)
  also have "\<dots> \<longleftrightarrow> i < length cs \<and> j < length cs \<and> j \<noteq> i
      \<and> groups ?ix (graph_edges graph) (c_id (cs ! i)) (c_id (cs ! j))"
    unfolding required_dependencies_grouped component_indexes_of_distinct [OF dist] by auto
  also have "\<dots> \<longleftrightarrow> (i, j) \<in> ?R"
  proof -
    have "c_id (cs ! i) = c_id (cs ! j) \<longleftrightarrow> i = j" if "i < length cs" "j < length cs"
      using dist that by (simp add: distinct_conv_nth) metis
    moreover have "bt_get ?ix (c_id (cs ! i)) \<noteq> None" if "i < length cs" for i
      unfolding component_indexes_of_known using that by simp
    ultimately show ?thesis by (auto simp: groups_def required_edge_def list_ex_iff)
  qed
  finally show "(i, j) \<in> ?L \<longleftrightarrow> (i, j) \<in> ?R" .
qed

subsection \<open>What is recommended\<close>

text \<open>
  The specification: a component is recommended when its own score is positive and it may be
  selected automatically, or when a recommended component requires it and its score is positive
  once the points of a required dependency are added.
\<close>

inductive should_recommend :: "ComponentGraph \<Rightarrow> ComponentId \<Rightarrow> bool" for graph where
  signal: "c \<in> set (g_components graph) \<Longrightarrow> sc_auto_allowed (score_component c)
     \<Longrightarrow> sc_score (score_component c) > 0 \<Longrightarrow> should_recommend graph (c_id c)"
| dependency: "should_recommend graph x \<Longrightarrow> required_edge graph x (c_id c)
     \<Longrightarrow> c \<in> set (g_components graph) \<Longrightarrow> sc_auto_allowed (score_component c)
     \<Longrightarrow> sc_score (score_component c) + 20 > 0 \<Longrightarrow> should_recommend graph (c_id c)"

definition ordered_components :: "ComponentGraph \<Rightarrow> Component list" where
  "ordered_components graph = sort_key component_order (g_components graph)"

lemma set_ordered_components [simp]: "set (ordered_components graph) = set (g_components graph)"
  by (simp add: ordered_components_def)

lemma mset_ordered_components: "mset (ordered_components graph) = mset (g_components graph)"
  by (simp add: ordered_components_def)

lemma distinct_ordered_ids:
  "distinct (map c_id (g_components graph)) \<Longrightarrow> distinct (map c_id (ordered_components graph))"
  by (metis mset_ordered_components mset_eq_imp_distinct_iff mset_map)

lemma promoted_score:
  "saturating_add_i16 (sc_score (score_component c)) 20 = sc_score (score_component c) + 20"
  using score_component_explained [of c]
  by (intro saturating_add_i16_exact) (auto simp: explained_def i16_min_def i16_max_def)

lemma promotable_score:
  "promotable (score_component c) \<longleftrightarrow> sc_auto_allowed (score_component c) \<and> sc_score (score_component c) + 20 > 0"
  by (simp add: promotable_def promoted_score)

text \<open>Every result is the ordered vector with some set of promoted indices, and the code never
  indexes out of range.\<close>

definition promotions :: "ComponentGraph \<Rightarrow> nat set \<Rightarrow> bool" where
  "promotions graph P \<longleftrightarrow>
     (let cs = ordered_components graph; ix = component_indexes_of cs
      in promotion_inv (map score_component cs)
           (promotion_edges ix (required_dependencies graph ix) (map score_component cs)) P {})"

lemma recommend_run:
  obtains P where "promotions graph P"
    and "recommend graph = Inr (sort_key (output_order (ordered_components graph)
            (component_indexes_of (ordered_components graph)))
          (map recommendation_of (marked (map score_component (ordered_components graph)) P)))"
proof -
  let ?cs = "ordered_components graph" and ?ix = "component_indexes_of (ordered_components graph)"
  let ?base = "map score_component ?cs"
  have fresh: "fresh_base ?base" by (simp add: fresh_base_def list_all_iff score_component_fields)
  have ix: "indexes_in ?ix (length ?base)"
    using component_indexes_of_sound(1) by (auto simp: indexes_in_def)
  have queue: "set (filter (\<lambda>index. sc_recommended (?base ! index)) [0..<length ?base]) = base_set ?base"
    by (auto simp: base_set_def)
  from promote_loop_inv [OF fresh ix, where P = "{}" and required = "required_dependencies graph ?ix",
      of "filter (\<lambda>index. sc_recommended (?base ! index)) [0..<length ?base]",
      unfolded queue marked_empty, OF promotion_inv_start]
  obtain P where loop: "promote_loop ?ix (required_dependencies graph ?ix) ?base
       (filter (\<lambda>index. sc_recommended (?base ! index)) [0..<length ?base]) = Inr (marked ?base P)"
    and inv: "promotions graph P" by (auto simp: promotions_def Let_def)
  have "list_all (\<lambda>r. bt_get ?ix (rec_component r) \<noteq> None) (map recommendation_of (marked ?base P))"
    unfolding component_indexes_of_known
    by (simp add: list_all_length recommendation_of_def score_component_fields flip: set_ordered_components)
  with loop inv show ?thesis
    by (intro that [of P]) (simp_all add: recommend_def Let_def ordered_components_def [symmetric] try_bind_def)
qed

lemma recommendation_reached:
  assumes dist: "distinct (map c_id (g_components graph))" and P: "promotions graph P"
    and i: "i < length (ordered_components graph)"
  shows "i \<in> rec_after (map score_component (ordered_components graph)) P
         \<longleftrightarrow> should_recommend graph (c_id (ordered_components graph ! i))"
proof -
  define cs where "cs = ordered_components graph"
  note dcs = distinct_ordered_ids [OF dist, folded cs_def]
  let ?base = "map score_component cs"
  define E where "E = {(i, j). i < length cs \<and> j < length cs \<and> required_edge graph (c_id (cs ! i)) (c_id (cs ! j))}"
  have inv: "promotion_inv ?base E P {}"
    using P unfolding promotions_def Let_def cs_def [symmetric] promotion_edges_eq [OF dcs] E_def .
  have E: "E \<subseteq> UNIV \<times> {..<length ?base}" by (auto simp: E_def)
  have same: "c = cs ! k" if "c \<in> set cs" "k < length cs" "c_id c = c_id (cs ! k)" for c k
    using that dcs by (simp add: distinct_map inj_on_def)
  have "should_recommend graph (c_id (cs ! j))"
    if "(k, j) \<in> (promotion_steps ?base E)\<^sup>*" "k \<in> base_set ?base" for k j
    using that
  proof (induction rule: rtrancl_induct)
    case base
    then show ?case
      using should_recommend.signal [of "cs ! k" graph] nth_mem [of k cs]
      by (auto simp: base_set_def score_component_fields cs_def)
  next
    case (step j l)
    then show ?case
      using should_recommend.dependency [of graph "c_id (cs ! j)" "cs ! l"] nth_mem [of l cs]
      by (auto simp: promotion_steps_def E_def promotable_score cs_def)
  qed
  moreover have "\<exists>k. k < length cs \<and> c_id (cs ! k) = x \<and> k \<in> rec_after ?base P"
    if "should_recommend graph x" for x
    using that
  proof induction
    case (signal c)
    then obtain k where "k < length cs" "cs ! k = c"
      using in_set_conv_nth [of c cs] by (auto simp: cs_def)
    with signal show ?case by (intro exI [of _ k]) (auto simp: rec_after_def score_component_fields)
  next
    case (dependency x c)
    then obtain k l where k: "k < length cs" "c_id (cs ! k) = x" "k \<in> rec_after ?base P"
      and l: "l < length cs" "cs ! l = c" using in_set_conv_nth [of c cs] by (auto simp: cs_def)
    have "(k, l) \<in> E" using dependency.hyps k l by (simp add: E_def)
    then have "l \<in> P" using promotion_inv_done(2) [OF inv E] k by auto
    with dependency l show ?case by (intro exI [of _ l]) (auto simp: rec_after_def promotable_score)
  qed
  moreover have "k = i" if "k < length cs" "c_id (cs ! k) = c_id (cs ! i)" for k
    using that i dcs by (simp add: distinct_conv_nth cs_def [symmetric]) metis
  ultimately show ?thesis
    using promotion_inv_done(1) [OF inv E] unfolding cs_def [symmetric] by blast
qed

lemma promoted_required:
  assumes dist: "distinct (map c_id (g_components graph))" and P: "promotions graph P"
    and i: "i < length (ordered_components graph)"
  shows "i \<in> P \<longleftrightarrow> (\<exists>x \<in> c_id ` set (g_components graph). should_recommend graph x
            \<and> required_edge graph x (c_id (ordered_components graph ! i)))"
proof -
  define cs where "cs = ordered_components graph"
  note dcs = distinct_ordered_ids [OF dist, folded cs_def]
  define E where "E = {(i, j). i < length cs \<and> j < length cs \<and> required_edge graph (c_id (cs ! i)) (c_id (cs ! j))}"
  have inv: "promotion_inv (map score_component cs) E P {}"
    using P unfolding promotions_def Let_def cs_def [symmetric] promotion_edges_eq [OF dcs] E_def .
  have "E \<subseteq> UNIV \<times> {..<length (map score_component cs)}" by (auto simp: E_def)
  from promotion_inv_done(2) [OF inv this]
  have "i \<in> P \<longleftrightarrow> (\<exists>k < length cs. k \<in> rec_after (map score_component cs) P \<and> (k, i) \<in> E)"
    by (auto simp: rec_after_def)
  also have "\<dots> \<longleftrightarrow> (\<exists>k < length cs. should_recommend graph (c_id (cs ! k))
      \<and> required_edge graph (c_id (cs ! k)) (c_id (cs ! i)))"
    using recommendation_reached [OF dist P] i by (auto simp: cs_def E_def)
  also have "\<dots> \<longleftrightarrow> (\<exists>c \<in> set cs. should_recommend graph (c_id c) \<and> required_edge graph (c_id c) (c_id (cs ! i)))"
    by (metis in_set_conv_nth)
  finally show ?thesis by (simp add: cs_def)
qed

definition promotion_bonus :: "ComponentGraph \<Rightarrow> ComponentId \<Rightarrow> int \<Rightarrow> bool" where
  "promotion_bonus graph y b \<longleftrightarrow>
     b = (if \<exists>x \<in> c_id ` set (g_components graph). should_recommend graph x \<and> required_edge graph x y
          then 20 else 0)"

text \<open>The row of one component: its flag and its score are the specified ones.\<close>

definition row_ok :: "ComponentGraph \<Rightarrow> RecommendationScore \<Rightarrow> bool" where
  "row_ok graph r \<longleftrightarrow>
     (rec_recommended r \<longleftrightarrow> should_recommend graph (rec_component r))
     \<and> list_ex (\<lambda>c. c_id c = rec_component r
           \<and> promotion_bonus graph (c_id c) (rec_score r - sc_score (score_component c)))
         (g_components graph)"

text \<open>
  C22. Recommendation computes a least fixed point. For every graph whose component ids are distinct the
  promotion loop ends, each component gets exactly one row, a row is marked as recommended exactly
  when its component has a positive score and may be selected automatically, directly or as a
  required dependency (over any number of steps and around cycles) of a recommended one, and the
  score is the component's own score plus 20 exactly when a recommended component requires it.
\<close>

theorem recommendation_is_least_fixpoint:
  assumes "distinct (map c_id (g_components graph))"
  shows "\<exists>rows. recommend graph = Inr rows
           \<and> mset (map rec_component rows) = mset (map c_id (g_components graph))
           \<and> list_all (row_ok graph) rows"
proof -
  let ?cs = "ordered_components graph"
  let ?base = "map score_component ?cs"
  obtain P where P: "promotions graph P"
    and run: "recommend graph = Inr (sort_key (output_order ?cs (component_indexes_of ?cs))
          (map recommendation_of (marked ?base P)))" by (rule recommend_run)
  have ids: "map rec_component (map recommendation_of (marked ?base P)) = map c_id ?cs"
    by (rule nth_equalityI) (auto simp: recommendation_of_def score_component_fields)
  have "row_ok graph (recommendation_of (marked ?base P ! i))" if i: "i < length ?cs" for i
  proof -
    let ?c = "?cs ! i" and ?r = "recommendation_of (marked ?base P ! i)"
    have "?c \<in> set (g_components graph)" using nth_mem [OF i] by simp
    moreover have "rec_component ?r = c_id ?c"
      using i by (simp add: recommendation_of_def score_component_fields)
    moreover have "rec_recommended ?r \<longleftrightarrow> should_recommend graph (c_id ?c)"
      unfolding recommendation_reached [OF assms P i, symmetric]
      using i by (auto simp: recommendation_of_def rec_after_def)
    moreover have "promotion_bonus graph (c_id ?c) (rec_score ?r - sc_score (score_component ?c))"
      unfolding promotion_bonus_def promoted_required [OF assms P i, symmetric]
      using i by (simp add: recommendation_of_def promoted_score)
    ultimately show ?thesis by (auto simp: row_ok_def list_ex_iff)
  qed
  then have "list_all (row_ok graph) (map recommendation_of (marked ?base P))"
    by (simp add: list_all_length)
  moreover have "mset (map rec_component (map recommendation_of (marked ?base P))) = mset (map c_id (g_components graph))"
    unfolding ids by (simp add: mset_ordered_components)
  ultimately show ?thesis
    unfolding run by (simp add: list_all_iff multiset.map_comp)
qed

definition sample_tool :: "char \<Rightarrow> ComponentKind \<Rightarrow> Component" where
  "sample_tool ch kind =
     \<lparr>c_id = [ch], c_kind = kind,
      c_identity = \<lparr>idn_provider_package = None, idn_provider_source = None, idn_package_family = None,
        idn_product_name = None, idn_executable_name = None, idn_publisher = None,
        idn_executable_hash = None, idn_install_role = None, idn_identity_quality = Product\<rparr>,
      c_display_name = [ch], c_version = None, c_architecture = None, c_publisher = None,
      c_provenance = None, c_evidence = [], c_confidence = Confirmed, c_dependencies = [],
      c_artifacts = [],
      c_restore = \<lparr>rd_primary = Reinstall, rd_alternatives = [], rd_portability = Portable,
        rd_requires_elevation = False, rd_requires_user_action = False, rd_rationale = []\<rparr>,
      c_compatibility = \<lparr>cmp_required_os = None, cmp_required_architecture = None,
        cmp_requires_provider = None, cmp_requires_runtime = None, cmp_requires_elevation = False,
        cmp_requires_wsl = False, cmp_requires_docker = False\<rparr>,
      c_verification = [],
      c_selection = \<lparr>sm_recommended = False, sm_score = 0, sm_selected_by_default = False,
        sm_sensitive = False, sm_size_bytes = 0\<rparr>,
      c_extensions = []\<rparr>"

definition sample_tools :: ComponentGraph where
  "sample_tools =
     \<lparr>g_components = [sample_tool (CHR ''b'') Runtime, sample_tool (CHR ''a'') Package],
      g_edges = [\<lparr>edge_from = ''a'', edge_to = ''b'', edge_kind = RequiredRuntime, edge_required = True,
                  edge_evidence = [], edge_confidence = Confirmed\<rparr>]\<rparr>"

text \<open>On a package that requires a runtime, the runtime is recommended because of the package.\<close>

lemma sample_signals:
  "sc_score (score_component (sample_tool ch Package)) = 20"
  "sc_score (score_component (sample_tool ch Runtime)) = - 10"
  "sc_auto_allowed (score_component (sample_tool ch Package))"
  "sc_auto_allowed (score_component (sample_tool ch Runtime))"
  by (simp_all add: score_component_def sample_tool_def Let_def chip_when_def add_chip_def is_sensitive_def
      is_large_def is_machine_or_account_bound_def is_manual_or_privileged_def is_low_confidence_def
      has_reproducible_source_def has_portable_configuration_def executable_is_reachable_def
      explicit_reachability_hint_def saturating_add_i16_def i16_min_def i16_max_def)

lemma sample_tools_fields:
  "c_id (sample_tool ch kind) = [ch]"
  "g_components sample_tools = [sample_tool (CHR ''b'') Runtime, sample_tool (CHR ''a'') Package]"
  "required_edge sample_tools ''a'' ''b''"
  by (simp_all add: sample_tool_def sample_tools_def required_edge_def graph_edges_def)

lemma sample_runtime_recommended: "should_recommend sample_tools ''b''"
proof -
  have "should_recommend sample_tools ''a''"
    using should_recommend.signal [of "sample_tool (CHR ''a'') Package" sample_tools]
    by (simp add: sample_signals sample_tools_fields)
  then show ?thesis
    using should_recommend.dependency [of sample_tools "''a''" "sample_tool (CHR ''b'') Runtime"]
    by (simp add: sample_signals sample_tools_fields)
qed

theorem recommendation_is_least_fixpoint_witness:
  "should_recommend sample_tools ''b''
   \<and> (\<exists>rows. recommend sample_tools = Inr rows
        \<and> mset (map rec_component rows) = mset [''b'', ''a''] \<and> list_all (row_ok sample_tools) rows)"
  using recommendation_is_least_fixpoint [of sample_tools] sample_runtime_recommended
  by (simp add: sample_tools_fields)

definition safe_row :: "ComponentGraph \<Rightarrow> RecommendationScore \<Rightarrow> bool" where
  "safe_row graph r \<longleftrightarrow>
     (rec_recommended r \<longrightarrow>
        rec_score r > 0
        \<and> (\<exists>c \<in> set (g_components graph). c_id c = rec_component r \<and> \<not> is_sensitive c \<and> \<not> is_large c
              \<and> \<not> is_machine_or_account_bound c \<and> \<not> is_manual_or_privileged c))"

definition explained_row :: "RecommendationScore \<Rightarrow> bool" where
  "explained_row r \<longleftrightarrow>
     rec_chips r \<noteq> [] \<and> sum_list (map chip_delta (rec_chips r)) = rec_score r
     \<and> - 70 \<le> rec_score r \<and> rec_score r \<le> 105"

lemma recommendation_rows:
  assumes run: "recommend graph = Inr rows" and r: "r \<in> set rows"
  obtains c where "c \<in> set (g_components graph)"
    and "r = recommendation_of (score_component c) \<or> r = recommendation_of (promote (score_component c))"
proof -
  obtain P where "recommend graph = Inr (sort_key (output_order (ordered_components graph)
            (component_indexes_of (ordered_components graph)))
          (map recommendation_of (marked (map score_component (ordered_components graph)) P)))"
    by (rule recommend_run)
  with run r have "r \<in> recommendation_of ` set (marked (map score_component (ordered_components graph)) P)"
    by auto
  then obtain i where i: "i < length (ordered_components graph)"
    and "r = recommendation_of (marked (map score_component (ordered_components graph)) P ! i)"
    by (metis (no_types, lifting) imageE in_set_conv_nth length_map length_marked)
  with nth_mem [OF i] show ?thesis by (intro that [of "ordered_components graph ! i"]) (auto split: if_splits)
qed

text \<open>
  C30. Nothing that needs a decision of the user is recommended. For every graph, whatever its ids and
  dependencies, recommending never indexes out of range, and a component that is marked has a
  positive score and is neither sensitive nor large, nor bound to a machine or an account, nor
  privileged or manual, however many recommended components require it.
\<close>

theorem recommendations_are_safe:
  "\<exists>rows. recommend graph = Inr rows \<and> list_all (safe_row graph) rows"
proof -
  obtain rows where rows: "recommend graph = Inr rows" by (rule recommend_run)
  have "safe_row graph r" if "r \<in> set rows" for r
  proof -
    obtain c where "c \<in> set (g_components graph)"
      and "r = recommendation_of (score_component c) \<or> r = recommendation_of (promote (score_component c))"
      using recommendation_rows [OF rows \<open>r \<in> set rows\<close>] by blast
    then show ?thesis
      by (auto simp: safe_row_def recommendation_of_def score_component_fields promotable_score promoted_score)
  qed
  with rows show ?thesis by (auto simp: list_all_iff)
qed

text \<open>
  A score is exactly what its chips explain. The deltas of the chips of a row add up to the score,
  there is at least one chip, and the score lies between -70 and 105, so the saturating addition
  never saturates; the rows come highest score first, then by category and id.
\<close>

theorem recommendations_are_explained:
  "\<exists>rows. recommend graph = Inr rows \<and> list_all explained_row rows
     \<and> sorted (map (output_order (sort_key component_order (g_components graph))
          (component_indexes_of (sort_key component_order (g_components graph)))) rows)"
proof -
  obtain rows where rows: "recommend graph = Inr rows"
    and "sorted (map (output_order (ordered_components graph)
          (component_indexes_of (ordered_components graph))) rows)"
    by (rule recommend_run [of graph]) (metis sorted_sort_key)
  moreover have "explained_row r" if "r \<in> set rows" for r
  proof -
    obtain c where "r = recommendation_of (score_component c) \<or> r = recommendation_of (promote (score_component c))"
      using recommendation_rows [OF rows \<open>r \<in> set rows\<close>] by blast
    moreover have "sc_chips (promote s) = sc_chips s @ [\<lparr>chip_code = CODE_REQUIRED_DEPENDENCY,
        chip_label = ''Required dependency of a recommended component'', chip_delta = 20\<rparr>]" for s
      by (simp add: promote_def add_chip_def)
    ultimately show ?thesis
      using score_component_explained [of c] score_component_chips [of c] promoted_score [of c]
      by (auto simp: explained_row_def explained_def recommendation_of_def)
  qed
  ultimately show ?thesis by (auto simp: list_all_iff ordered_components_def)
qed

end
