(* ===== verification/Dedup.thy ===== *)
theory Dedup
  imports Collections Ids "HOL-Library.Option_ord" "HOL-Library.Product_Lexorder"
begin

text \<open>
  The grouping of observed components, the first half of
  \<^verbatim>\<open>crates/reforge-discovery/src/dedup.rs\<close>: identity keys, the union-find structure whose unions
  respect the priority of identity facts, and the groups it ends with. The keys are ordered as the
  derived \<^verbatim>\<open>Ord\<close> orders them, because the order in which the map is walked decides which unions are
  tried first. \<open>root\<close> recurs along the parents and is a partial function: \<^const>\<open>None\<close> is an index
  out of range or a search that does not end, and the groups are shown to exist always.
\<close>

subsection \<open>Identity keys\<close>

datatype ProviderKey = ProviderKey (pk_provider: str) (pk_source: str) (pk_package: str)

datatype IdentityKey =
    Provider ProviderKey
  | PackageFamily str str
  | SignedProduct str str
  | ExecutableProduct str str str
  | LocalExecutable str str
  | Opaque ComponentId

fun provider_fields :: "ProviderKey \<Rightarrow> str list" where
  "provider_fields (ProviderKey provider source package) = [provider, source, package]"

text \<open>The derived order: the variant first, then the fields from left to right.\<close>

fun identity_fields :: "IdentityKey \<Rightarrow> nat \<times> str list" where
  "identity_fields (Provider p) = (0, provider_fields p)"
| "identity_fields (PackageFamily family publisher) = (1, [family, publisher])"
| "identity_fields (SignedProduct product certificate) = (2, [product, certificate])"
| "identity_fields (ExecutableProduct product publisher install_role) = (3, [product, publisher, install_role])"
| "identity_fields (LocalExecutable executable hash) = (4, [executable, hash])"
| "identity_fields (Opaque i) = (5, [i])"

lemma provider_fields_inj: "provider_fields a = provider_fields b \<Longrightarrow> a = b"
  by (cases a; cases b) simp

lemma identity_fields_inj: "identity_fields a = identity_fields b \<Longrightarrow> a = b"
  by (cases a; cases b) (auto dest: provider_fields_inj)

instantiation ProviderKey :: linorder
begin

definition less_eq_ProviderKey :: "ProviderKey \<Rightarrow> ProviderKey \<Rightarrow> bool" where
  "a \<le> b \<longleftrightarrow> provider_fields a \<le> provider_fields b"

definition less_ProviderKey :: "ProviderKey \<Rightarrow> ProviderKey \<Rightarrow> bool" where
  "a < b \<longleftrightarrow> provider_fields a < provider_fields b"

instance
  by standard (auto simp: less_eq_ProviderKey_def less_ProviderKey_def dest: provider_fields_inj order.antisym)

end

instantiation IdentityKey :: linorder
begin

definition less_eq_IdentityKey :: "IdentityKey \<Rightarrow> IdentityKey \<Rightarrow> bool" where
  "a \<le> b \<longleftrightarrow> identity_fields a \<le> identity_fields b"

definition less_IdentityKey :: "IdentityKey \<Rightarrow> IdentityKey \<Rightarrow> bool" where
  "a < b \<longleftrightarrow> identity_fields a < identity_fields b"

instance
proof
  fix a b c :: IdentityKey
  show "a < b \<longleftrightarrow> a \<le> b \<and> \<not> b \<le> a" by (auto simp: less_eq_IdentityKey_def less_IdentityKey_def)
  show "a \<le> a" by (simp add: less_eq_IdentityKey_def)
  show "a \<le> b \<or> b \<le> a" by (auto simp: less_eq_IdentityKey_def)
  show "a \<le> b \<Longrightarrow> b \<le> c \<Longrightarrow> a \<le> c" unfolding less_eq_IdentityKey_def by (rule order.trans)
  show "a \<le> b \<Longrightarrow> b \<le> a \<Longrightarrow> a = b"
    unfolding less_eq_IdentityKey_def by (rule identity_fields_inj, rule order.antisym)
qed

end

definition normalized :: "str option \<Rightarrow> str option" where
  "normalized v =
     (case v of
        None \<Rightarrow> None
      | Some v \<Rightarrow> let v = to_lowercase (str_trim v) in if v = [] \<or> has_control v then None else Some v)"

definition provider_key :: "Component \<Rightarrow> ProviderKey option" where
  "provider_key component =
     (case idn_provider_package (c_identity component) of
        None \<Rightarrow> None
      | Some (provider, package) \<Rightarrow>
          (case normalized (Some provider) of None \<Rightarrow> None | Some p \<Rightarrow>
          (case normalized (idn_provider_source (c_identity component)) of None \<Rightarrow> None | Some s \<Rightarrow>
          (case normalized (Some package) of None \<Rightarrow> None | Some k \<Rightarrow> Some (ProviderKey p s k)))))"

definition publisher_name :: "Component \<Rightarrow> str option" where
  "publisher_name component =
     (case Option.bind (c_publisher component) (\<lambda>publisher. normalized (Some (pub_name publisher))) of
        Some name \<Rightarrow> Some name
      | None \<Rightarrow> normalized (idn_publisher (c_identity component)))"

text \<open>The candidates in the order of the code; the set of keys is the sorted list of those present.\<close>

definition family_key :: "Component \<Rightarrow> IdentityKey option" where
  "family_key component =
     (case (normalized (idn_package_family (c_identity component)), publisher_name component) of
        (Some family, Some publisher) \<Rightarrow> Some (PackageFamily family publisher)
      | _ \<Rightarrow> None)"

definition signed_key :: "Component \<Rightarrow> IdentityKey option" where
  "signed_key component =
     (case (normalized (idn_product_name (c_identity component)),
            Option.bind (c_publisher component) (\<lambda>publisher. normalized (pub_certificate_thumbprint publisher))) of
        (Some product, Some certificate) \<Rightarrow> Some (SignedProduct product certificate)
      | _ \<Rightarrow> None)"

definition product_key :: "Component \<Rightarrow> IdentityKey option" where
  "product_key component =
     (case (normalized (idn_product_name (c_identity component)), publisher_name component,
            normalized (idn_install_role (c_identity component))) of
        (Some product, Some publisher, Some install_role) \<Rightarrow> Some (ExecutableProduct product publisher install_role)
      | _ \<Rightarrow> None)"

definition local_key :: "Component \<Rightarrow> IdentityKey option" where
  "local_key component =
     (case (normalized (idn_executable_name (c_identity component)),
            normalized (idn_executable_hash (c_identity component))) of
        (Some executable, Some hash) \<Rightarrow> Some (LocalExecutable executable hash)
      | _ \<Rightarrow> None)"

definition insert_key :: "IdentityKey option \<Rightarrow> IdentityKey list \<Rightarrow> IdentityKey list" where
  "insert_key key keys = (case key of None \<Rightarrow> keys | Some k \<Rightarrow> insort_insert k keys)"

definition identity_keys :: "Component \<Rightarrow> IdentityKey list" where
  "identity_keys component =
     (let keys = insert_key (map_option Provider (provider_key component)) [];
          keys = insert_key (family_key component) keys;
          keys = insert_key (signed_key component) keys;
          keys = insert_key (product_key component) keys;
          keys = insert_key (local_key component) keys
      in if keys = [] then [Opaque (c_id component)] else keys)"

definition identity_keys_without_fallback :: "Component \<Rightarrow> IdentityKey list" where
  "identity_keys_without_fallback component =
     filter (\<lambda>key. case key of Opaque _ \<Rightarrow> False | _ \<Rightarrow> True) (identity_keys component)"

fun identity_key_tier :: "IdentityKey \<Rightarrow> nat" where
  "identity_key_tier (Provider _) = 0"
| "identity_key_tier (PackageFamily _ _) = 1"
| "identity_key_tier (SignedProduct _ _) = 2"
| "identity_key_tier (ExecutableProduct _ _ _) = 3"
| "identity_key_tier (LocalExecutable _ _) = 4"
| "identity_key_tier (Opaque _) = 255"

text \<open>The loop over the tiers, with the flag that a higher tier already agrees.\<close>

fun tiers_conflict :: "IdentityKey list \<Rightarrow> IdentityKey list \<Rightarrow> nat list \<Rightarrow> bool \<Rightarrow> bool" where
  "tiers_conflict left right [] shared_higher_identity = False"
| "tiers_conflict left right (tier # tiers) shared_higher_identity =
     (let left_keys = filter (\<lambda>key. identity_key_tier key = tier) left;
          right_keys = filter (\<lambda>key. identity_key_tier key = tier) right;
          shared_identity = list_ex (\<lambda>left_key. left_key \<in> set right_keys) left_keys;
          conflicting_identity = (left_keys \<noteq> [] \<and> right_keys \<noteq> [] \<and> \<not> shared_identity)
      in if conflicting_identity \<and> \<not> shared_higher_identity then True
         else tiers_conflict left right tiers (shared_higher_identity \<or> shared_identity))"

definition identity_priority_conflicts :: "IdentityKey list \<Rightarrow> IdentityKey list \<Rightarrow> bool" where
  "identity_priority_conflicts left right = tiers_conflict left right [0..<5] False"

subsection \<open>Union-find\<close>

record UnionFind =
  uf_parent :: "nat list"
  uf_rank :: "nat list"
  uf_identity_keys :: "IdentityKey list list"

definition UnionFind_new :: "Component list \<Rightarrow> UnionFind" where
  "UnionFind_new components =
     \<lparr>uf_parent = [0..<length components], uf_rank = replicate (length components) 0,
      uf_identity_keys = map identity_keys_without_fallback components\<rparr>"

partial_function (option) root :: "nat list \<Rightarrow> nat \<Rightarrow> (nat list \<times> nat) option" where
  "root parent index =
     (if index \<ge> length parent then None
      else if parent ! index \<noteq> index
      then Option.bind (root parent (parent ! index)) (\<lambda>(parent', r).
             Some (parent'[index := r], r))
      else Some (parent, parent ! index))"

definition link :: "nat \<Rightarrow> nat \<Rightarrow> UnionFind \<Rightarrow> UnionFind" where
  "link left_root right_root uf =
     (let identity_keys = fold insort_insert (uf_identity_keys uf ! right_root) (uf_identity_keys uf ! left_root);
          (left_root, right_root) = (if uf_rank uf ! left_root < uf_rank uf ! right_root
                                     then (right_root, left_root) else (left_root, right_root))
      in uf\<lparr>uf_parent := (uf_parent uf)[right_root := left_root],
           uf_identity_keys := (uf_identity_keys uf)[left_root := identity_keys],
           uf_rank := (if uf_rank uf ! left_root = uf_rank uf ! right_root
                       then (uf_rank uf)[left_root := min 255 (uf_rank uf ! left_root + 1)] else uf_rank uf)\<rparr>)"

definition union_if_compatible :: "nat \<Rightarrow> nat \<Rightarrow> UnionFind \<Rightarrow> UnionFind option" where
  "union_if_compatible left right uf =
     Option.bind (root (uf_parent uf) left) (\<lambda>(parent, left_root).
     Option.bind (root parent right) (\<lambda>(parent, right_root).
     let uf = uf\<lparr>uf_parent := parent\<rparr> in
     if left_root = right_root then Some uf
     else if identity_priority_conflicts (uf_identity_keys uf ! left_root) (uf_identity_keys uf ! right_root)
     then Some uf
     else Some (link left_root right_root uf)))"

text \<open>A loop whose body may fail.\<close>

fun opt_fold :: "('a \<Rightarrow> 's \<Rightarrow> 's option) \<Rightarrow> 'a list \<Rightarrow> 's \<Rightarrow> 's option" where
  "opt_fold f [] s = Some s"
| "opt_fold f (x # xs) s = Option.bind (f x s) (opt_fold f xs)"

definition union_members :: "nat list \<Rightarrow> UnionFind \<Rightarrow> UnionFind option" where
  "union_members members uf =
     (case members of
        [] \<Rightarrow> Some uf
      | first # rest \<Rightarrow> opt_fold (\<lambda>member. union_if_compatible first member) rest uf)"

type_synonym buckets = "(ProviderKey option, nat list) btree"

definition bt_push :: "'k :: linorder \<Rightarrow> 'a \<Rightarrow> ('k, 'a list) btree \<Rightarrow> ('k, 'a list) btree" where
  "bt_push k x m = bt_insert k ((case bt_get m k of None \<Rightarrow> [] | Some xs \<Rightarrow> xs) @ [x]) m"

definition push_member ::
  "ProviderKey option \<Rightarrow> nat \<Rightarrow> IdentityKey \<Rightarrow> (IdentityKey, buckets) btree \<Rightarrow> (IdentityKey, buckets) btree" where
  "push_member provider index key key_members =
     bt_insert key (bt_push provider index (case bt_get key_members key of None \<Rightarrow> [] | Some b \<Rightarrow> b)) key_members"

definition index_component ::
  "nat \<times> Component \<Rightarrow> (IdentityKey, buckets) btree \<times> (ComponentId, nat list) btree
   \<Rightarrow> (IdentityKey, buckets) btree \<times> (ComponentId, nat list) btree" where
  "index_component = (\<lambda>(index, component) (key_members, id_members).
     (fold (push_member (provider_key component) index) (identity_keys component) key_members,
      bt_push (c_id component) index id_members))"

definition union_buckets :: "buckets \<Rightarrow> UnionFind \<Rightarrow> UnionFind option" where
  "union_buckets buckets uf =
     Option.bind (opt_fold union_members (map snd buckets) uf) (\<lambda>uf.
     case filter (\<lambda>(provider, _). provider \<noteq> None) buckets of
       [(_, owned)] \<Rightarrow>
         (case bt_get buckets None of
            None \<Rightarrow> Some uf
          | Some unowned \<Rightarrow>
              opt_fold (\<lambda>unowned_index. opt_fold (union_if_compatible unowned_index) owned) unowned uf)
     | _ \<Rightarrow> Some uf)"

definition push_group ::
  "nat \<Rightarrow> UnionFind \<times> (nat, nat list) btree \<Rightarrow> (UnionFind \<times> (nat, nat list) btree) option" where
  "push_group index = (\<lambda>(uf, groups).
     Option.bind (root (uf_parent uf) index) (\<lambda>(parent, r).
     Some (uf\<lparr>uf_parent := parent\<rparr>, bt_push r index groups)))"

definition build_groups :: "Component list \<Rightarrow> nat list list option" where
  "build_groups components =
     (let (key_members, id_members) = fold index_component (enumerate 0 components) ([], [])
      in Option.bind (opt_fold union_buckets (map snd key_members) (UnionFind_new components)) (\<lambda>uf.
         Option.bind (opt_fold union_members (map snd id_members) uf) (\<lambda>uf.
         Option.bind (opt_fold push_group [0..<length components] (uf, [])) (\<lambda>(uf, groups).
         Some (map snd groups)))))"

subsection \<open>Representatives\<close>

inductive rep :: "nat list \<Rightarrow> nat \<Rightarrow> nat \<Rightarrow> bool" for p where
  rep_root: "i < length p \<Longrightarrow> p ! i = i \<Longrightarrow> rep p i i"
| rep_step: "i < length p \<Longrightarrow> p ! i \<noteq> i \<Longrightarrow> rep p (p ! i) r \<Longrightarrow> rep p i r"

inductive_cases rep_cases: "rep p i r"

definition forest :: "nat list \<Rightarrow> bool" where
  "forest p \<longleftrightarrow> (\<forall>i < length p. \<exists>r. rep p i r)"

definition same_reps :: "nat list \<Rightarrow> nat list \<Rightarrow> bool" where
  "same_reps p q \<longleftrightarrow> length p = length q \<and> (\<forall>i r. rep p i r \<longleftrightarrow> rep q i r)"

lemma rep_unique: "rep p i r \<Longrightarrow> rep p i s \<Longrightarrow> r = s"
  by (induction rule: rep.induct) (auto elim: rep_cases)

lemma rep_bounds: "rep p i r \<Longrightarrow> i < length p \<and> r < length p \<and> p ! r = r"
  by (induction rule: rep.induct) auto

lemma rep_self: "rep p i r \<Longrightarrow> rep p r r"
  using rep_bounds rep_root by blast

lemma same_reps_refl: "same_reps p p"
  by (simp add: same_reps_def)

lemma same_reps_trans: "same_reps p q \<Longrightarrow> same_reps q r \<Longrightarrow> same_reps p r"
  by (simp add: same_reps_def)

lemma same_reps_forest: "same_reps p q \<Longrightarrow> forest p \<Longrightarrow> forest q"
  by (simp add: same_reps_def forest_def)

text \<open>A new list of parents that has a representative for everything the old one has, by a function
  of the old representatives, has no others.\<close>

lemma reps_mapped:
  assumes f: "forest p" and len: "length q = length p" and map: "\<And>i r. rep p i r \<Longrightarrow> rep q i (h r)"
  shows "rep q i s \<longleftrightarrow> (\<exists>r. rep p i r \<and> s = h r)"
proof
  assume q: "rep q i s"
  then have "i < length p" using len rep_bounds by metis
  then obtain r where "rep p i r" using f by (auto simp: forest_def)
  with map q rep_unique show "\<exists>r. rep p i r \<and> s = h r" by blast
qed (use map in blast)

lemma rep_compress:
  assumes f: "forest p" and ir: "rep p i r"
  shows "same_reps p (p[i := r])"
proof (cases "p ! i = i")
  case True
  then have "r = i" using ir rep_unique rep_bounds rep_root by metis
  with True show ?thesis by (metis list_update_id same_reps_refl)
next
  case False
  have keep: "rep (p[i := r]) j s" if "rep p j s" for j s
    using that
  proof (induction rule: rep.induct)
    case (rep_root j)
    with False have "j \<noteq> i" by auto
    with rep_root show ?case by (auto intro: rep.rep_root)
  next
    case (rep_step j s)
    show ?case
    proof (cases "j = i")
      case True
      have r: "r < length p" "p ! r = r" using rep_bounds [OF ir] by auto
      with False have "r \<noteq> i" by auto
      with r have "rep (p[i := r]) r r" by (auto intro: rep.rep_root)
      moreover have "s = r" using rep_step.hyps True ir rep_unique rep.rep_step by metis
      ultimately show ?thesis using True rep_step.hyps \<open>r \<noteq> i\<close> by (auto intro: rep.rep_step)
    next
      case False
      with rep_step show ?thesis by (auto intro: rep.rep_step)
    qed
  qed
  show ?thesis
    using reps_mapped [OF f, of "p[i := r]" "\<lambda>r. r"] keep by (auto simp: same_reps_def)
qed

lemma rep_link:
  assumes "forest p" and a: "rep p a a" and b: "rep p b b" and "a \<noteq> b"
  shows "rep (p[b := a]) i s \<longleftrightarrow> (\<exists>r. rep p i r \<and> s = (if r = b then a else r))"
proof (rule reps_mapped [OF assms(1)])
  have ab: "a < length p" "p ! a = a" "b < length p" "p ! b = b"
    using rep_bounds [OF a] rep_bounds [OF b] by auto
  have aa: "rep (p[b := a]) a a" using ab assms(4) by (auto intro: rep.rep_root)
  show "rep (p[b := a]) i (if r = b then a else r)" if "rep p i r" for i r
    using that
  proof (induction rule: rep.induct)
    case (rep_root i)
    show ?case
    proof (cases "i = b")
      case True
      with aa ab assms(4) show ?thesis by (auto intro: rep.rep_step)
    next
      case False
      with rep_root show ?thesis by (auto intro: rep.rep_root)
    qed
  next
    case (rep_step i r)
    with ab have "i \<noteq> b" by auto
    with rep_step show ?case by (auto intro: rep.rep_step)
  qed
qed simp

lemma root_rep:
  assumes "rep p i r" and "forest p"
  shows "\<exists>q. root p i = Some (q, r) \<and> same_reps p q"
  using assms
proof (induction rule: rep.induct)
  case (rep_root i)
  then show ?case by (subst root.simps) (simp add: same_reps_refl)
next
  case (rep_step i r)
  then obtain q where q: "root p (p ! i) = Some (q, r)" "same_reps p q" by auto
  have "rep p i r" using rep_step.hyps by (rule rep.rep_step)
  then have "rep q i r" "forest q" using q rep_step.prems same_reps_forest by (auto simp: same_reps_def)
  from same_reps_trans [OF q(2) rep_compress [OF this(2,1)]] q rep_step.hyps show ?case
    by (subst root.simps) simp
qed

lemma root_Some:
  assumes "forest p" "i < length p"
  obtains q r where "root p i = Some (q, r)" "rep p i r" "same_reps p q"
  using assms root_rep unfolding forest_def by metis

subsection \<open>The invariant of the unions\<close>

definition linked :: "Component list \<Rightarrow> nat \<Rightarrow> nat \<Rightarrow> bool" where
  "linked cs i j \<longleftrightarrow>
     i < length cs \<and> j < length cs
     \<and> (c_id (cs ! i) = c_id (cs ! j) \<or> set (identity_keys (cs ! i)) \<inter> set (identity_keys (cs ! j)) \<noteq> {})"

definition group_keys :: "Component list \<Rightarrow> nat list \<Rightarrow> nat \<Rightarrow> IdentityKey set" where
  "group_keys cs p r = (\<Union>i \<in> {i. rep p i r}. set (identity_keys_without_fallback (cs ! i)))"

definition one_provider :: "IdentityKey set \<Rightarrow> bool" where
  "one_provider ks \<longleftrightarrow> (\<forall>a \<in> ks. \<forall>b \<in> ks. identity_key_tier a = 0 \<longrightarrow> identity_key_tier b = 0 \<longrightarrow> a = b)"

definition uf_ok :: "Component list \<Rightarrow> UnionFind \<Rightarrow> bool" where
  "uf_ok cs uf \<longleftrightarrow>
     length (uf_parent uf) = length cs \<and> length (uf_identity_keys uf) = length cs \<and> forest (uf_parent uf)
     \<and> (\<forall>r. rep (uf_parent uf) r r \<longrightarrow>
           set (uf_identity_keys uf ! r) = group_keys cs (uf_parent uf) r
           \<and> one_provider (group_keys cs (uf_parent uf) r))
     \<and> (\<forall>i j r. rep (uf_parent uf) i r \<and> rep (uf_parent uf) j r \<longrightarrow> (linked cs)\<^sup>*\<^sup>* i j)"

definition together :: "UnionFind \<Rightarrow> nat \<Rightarrow> nat \<Rightarrow> bool" where
  "together uf i j \<longleftrightarrow> (\<exists>r. rep (uf_parent uf) i r \<and> rep (uf_parent uf) j r)"

lemma linked_sym: "linked cs i j \<Longrightarrow> linked cs j i"
  by (auto simp: linked_def)

lemma linked_rtranclp_sym: "(linked cs)\<^sup>*\<^sup>* i j \<Longrightarrow> (linked cs)\<^sup>*\<^sup>* j i"
  by (induction rule: rtranclp_induct) (auto intro: converse_rtranclp_into_rtranclp linked_sym)

lemma uf_ok_parent:
  assumes "uf_ok cs uf" and "same_reps (uf_parent uf) p"
  shows "uf_ok cs (uf\<lparr>uf_parent := p\<rparr>)" and "together (uf\<lparr>uf_parent := p\<rparr>) = together uf"
  using assms same_reps_forest
  by (auto simp: uf_ok_def group_keys_def same_reps_def together_def fun_eq_iff)

lemma no_conflict_one_provider:
  assumes "\<not> identity_priority_conflicts l r" "one_provider (set l)" "one_provider (set r)"
  shows "one_provider (set l \<union> set r)"
proof -
  let ?P = "\<lambda>k. identity_key_tier k = 0"
  have "[0..<5] = 0 # [1..<5]" by (simp add: upt_rec)
  with assms(1) have "filter ?P l = [] \<or> filter ?P r = [] \<or> (\<exists>k \<in> set l. ?P k \<and> k \<in> set r)"
    by (auto simp: identity_priority_conflicts_def Let_def list_ex_iff split: if_splits)
  then consider "\<forall>k \<in> set l. \<not> ?P k" | "\<forall>k \<in> set r. \<not> ?P k" | k where "k \<in> set l" "k \<in> set r" "?P k"
    by (auto simp: filter_empty_conv)
  then show ?thesis
    using assms(2,3) unfolding one_provider_def by cases (blast, blast, metis Un_iff)
qed

lemma shared_provider_no_conflict:
  assumes "k \<in> set l" "k \<in> set r" "identity_key_tier k = 0"
  shows "\<not> identity_priority_conflicts l r"
proof -
  have higher: "\<not> tiers_conflict l r tiers True" for tiers
    by (induction tiers) (simp_all add: Let_def)
  have "[0..<5] = 0 # [1..<5]" by (simp add: upt_rec)
  moreover have "list_ex (\<lambda>left_key. left_key \<in> set (filter (\<lambda>key. identity_key_tier key = 0) r))
      (filter (\<lambda>key. identity_key_tier key = 0) l)" using assms by (auto simp: list_ex_iff)
  ultimately show ?thesis using higher by (simp add: identity_priority_conflicts_def Let_def)
qed

lemma set_fold_insort: "set (fold insort_insert xs ys) = set xs \<union> set ys"
  by (induction xs arbitrary: ys) (auto simp: set_insort_insert)

text \<open>Linking two different roots joins their groups and keys, whichever becomes the parent.\<close>

lemma link_reps:
  assumes "forest (uf_parent uf)" "rep (uf_parent uf) a a" "rep (uf_parent uf) b b" "a \<noteq> b"
  obtains c d where "{c, d} = {a, b}" "c \<noteq> d"
    and "\<forall>i s. rep (uf_parent (link a b uf)) i s \<longleftrightarrow> (\<exists>r. rep (uf_parent uf) i r \<and> s = (if r = d then c else r))"
    and "uf_identity_keys (link a b uf) =
           (uf_identity_keys uf)[c := fold insort_insert (uf_identity_keys uf ! b) (uf_identity_keys uf ! a)]"
    and "length (uf_parent (link a b uf)) = length (uf_parent uf)"
proof (cases "uf_rank uf ! a < uf_rank uf ! b")
  case True
  with rep_link [OF assms(1) assms(3) assms(2)] assms(4) show ?thesis
    by (intro that [of b a]) (auto simp: link_def Let_def)
next
  case False
  with rep_link [OF assms] assms(4) show ?thesis
    by (intro that [of a b]) (auto simp: link_def Let_def)
qed

text \<open>The chain of observations between two members of the joined groups goes through the linked pair.\<close>

lemma joined_linked:
  assumes within: "\<forall>x y r. rep p x r \<and> rep p y r \<longrightarrow> (linked cs)\<^sup>*\<^sup>* x y"
    and "rep p left a" "rep p right b" "linked cs left right"
    and "rep p i x" "rep p j y" "x = y \<or> {x, y} = {a, b}"
  shows "(linked cs)\<^sup>*\<^sup>* i j"
proof (cases "x = y")
  case True
  with assms show ?thesis by blast
next
  case False
  have lr: "(linked cs)\<^sup>*\<^sup>* left right" using assms(4) by (rule r_into_rtranclp)
  from False assms(7) consider "x = a" "y = b" | "x = b" "y = a" by (auto simp: doubleton_eq_iff)
  then show ?thesis
  proof cases
    case 1
    with assms have "(linked cs)\<^sup>*\<^sup>* i left" "(linked cs)\<^sup>*\<^sup>* right j" by blast+
    with lr show ?thesis by (meson rtranclp_trans)
  next
    case 2
    with assms have "(linked cs)\<^sup>*\<^sup>* i right" "(linked cs)\<^sup>*\<^sup>* left j" by blast+
    with linked_rtranclp_sym [OF lr] show ?thesis by (meson rtranclp_trans)
  qed
qed

lemma link_ok:
  assumes u: "uf_ok cs u" and l: "linked cs left right"
    and ra: "rep (uf_parent u) left a" and rb: "rep (uf_parent u) right b" and ab: "a \<noteq> b"
    and nc: "\<not> identity_priority_conflicts (uf_identity_keys u ! a) (uf_identity_keys u ! b)"
  shows "uf_ok cs (link a b u) \<and> (\<forall>i j. together u i j \<longrightarrow> together (link a b u) i j)
         \<and> together (link a b u) left right"
proof -
  define v where "v = link a b u"
  have roots: "rep (uf_parent u) a a" "rep (uf_parent u) b b" using ra rb rep_self by blast+
  have forest_u: "forest (uf_parent u)" using u by (simp add: uf_ok_def)
  obtain c d where cd: "{c, d} = {a, b}" "c \<noteq> d"
    and all_reps: "\<forall>i s. rep (uf_parent v) i s \<longleftrightarrow> (\<exists>r. rep (uf_parent u) i r \<and> s = (if r = d then c else r))"
    and keys: "uf_identity_keys v = (uf_identity_keys u)[c := fold insort_insert (uf_identity_keys u ! b) (uf_identity_keys u ! a)]"
    and len_v: "length (uf_parent v) = length (uf_parent u)"
    unfolding v_def by (rule link_reps [OF forest_u roots ab])
  note reps = all_reps [rule_format]
  have keys_u: "set (uf_identity_keys u ! r) = group_keys cs (uf_parent u) r" "one_provider (group_keys cs (uf_parent u) r)"
    if "rep (uf_parent u) r r" for r using u that by (auto simp: uf_ok_def)
  have joined: "group_keys cs (uf_parent v) c = group_keys cs (uf_parent u) a \<union> group_keys cs (uf_parent u) b"
  proof -
    have "{i. rep (uf_parent v) i c} = {i. rep (uf_parent u) i c} \<union> {i. rep (uf_parent u) i d}"
      using cd(2) by (auto simp: reps)
    also have "\<dots> = {i. rep (uf_parent u) i a} \<union> {i. rep (uf_parent u) i b}"
      using cd(1) by (auto simp: doubleton_eq_iff)
    finally show ?thesis by (simp add: group_keys_def)
  qed
  have c_len: "c < length (uf_identity_keys u)"
    using cd rep_bounds [OF roots(1)] rep_bounds [OF roots(2)] u by (auto simp: uf_ok_def doubleton_eq_iff)
  have "set (uf_identity_keys v ! r) = group_keys cs (uf_parent v) r \<and> one_provider (group_keys cs (uf_parent v) r)"
    if r: "rep (uf_parent v) r r" for r
  proof (cases "r = c")
    case True
    have "one_provider (set (uf_identity_keys u ! a) \<union> set (uf_identity_keys u ! b))"
      using keys_u roots by (intro no_conflict_one_provider [OF nc]) simp_all
    with True joined keys c_len keys_u [OF roots(1)] keys_u [OF roots(2)] show ?thesis
      by (simp add: set_fold_insort Un_commute)
  next
    case False
    with r have "r \<noteq> d" "rep (uf_parent u) r r" using cd(2) by (auto simp: reps split: if_splits)
    moreover from this False have "{i. rep (uf_parent v) i r} = {i. rep (uf_parent u) i r}" by (auto simp: reps)
    then have "group_keys cs (uf_parent v) r = group_keys cs (uf_parent u) r" by (simp add: group_keys_def)
    ultimately show ?thesis using False keys keys_u by simp
  qed
  moreover have "(linked cs)\<^sup>*\<^sup>* i j" if ij: "rep (uf_parent v) i s" "rep (uf_parent v) j s" for i j s
  proof -
    obtain x y where xy: "rep (uf_parent u) i x" "rep (uf_parent u) j y"
      and s: "s = (if x = d then c else x)" "s = (if y = d then c else y)" using ij unfolding reps by blast
    have "x = y \<or> {x, y} = {a, b}" using s unfolding cd(1) [symmetric] by (auto split: if_splits)
    moreover have "\<forall>x y r. rep (uf_parent u) x r \<and> rep (uf_parent u) y r \<longrightarrow> (linked cs)\<^sup>*\<^sup>* x y"
      using u by (auto simp: uf_ok_def)
    ultimately show ?thesis using joined_linked [OF _ ra rb l xy] by blast
  qed
  moreover have "forest (uf_parent v)" using forest_u len_v by (auto simp: forest_def reps)
  ultimately have "uf_ok cs v" using u len_v keys by (auto simp: uf_ok_def)
  moreover have "together v i j" if "together u i j" for i j using that unfolding together_def reps by blast
  moreover have "rep (uf_parent v) left c" "rep (uf_parent v) right c"
    using ra rb cd unfolding reps by (auto simp: doubleton_eq_iff)
  then have "together v left right" unfolding together_def by blast
  ultimately show ?thesis by (simp add: v_def)
qed

definition same_provider :: "Component list \<Rightarrow> nat \<Rightarrow> nat \<Rightarrow> bool" where
  "same_provider cs i j \<longleftrightarrow> (\<exists>k. Provider k \<in> set (identity_keys (cs ! i)) \<and> Provider k \<in> set (identity_keys (cs ! j)))"

lemma provider_in_group:
  assumes "uf_ok cs u" "Provider k \<in> set (identity_keys (cs ! i))" "rep (uf_parent u) i s"
  shows "Provider k \<in> set (uf_identity_keys u ! s)"
proof -
  have "set (uf_identity_keys u ! s) = group_keys cs (uf_parent u) s"
    using assms(1) rep_self [OF assms(3)] by (simp add: uf_ok_def)
  with assms(2,3) show ?thesis by (auto simp: group_keys_def identity_keys_without_fallback_def)
qed

lemma union_if_compatible_ok:
  assumes ok: "uf_ok cs uf" and l: "linked cs left right"
  shows "\<exists>uf'. union_if_compatible left right uf = Some uf' \<and> uf_ok cs uf'
           \<and> (\<forall>i j. together uf i j \<longrightarrow> together uf' i j)
           \<and> (same_provider cs left right \<longrightarrow> together uf' left right)"
proof -
  have forest: "forest (uf_parent uf)" and len: "length (uf_parent uf) = length cs" using ok by (simp_all add: uf_ok_def)
  have lr: "left < length (uf_parent uf)" "right < length (uf_parent uf)" using l len by (simp_all add: linked_def)
  obtain p a where p: "root (uf_parent uf) left = Some (p, a)" "rep (uf_parent uf) left a" "same_reps (uf_parent uf) p"
    using root_Some [OF forest lr(1)] .
  have "forest p" "right < length p" using p(3) forest lr same_reps_forest by (auto simp: same_reps_def)
  from root_Some [OF this] obtain q b where q: "root p right = Some (q, b)" "rep p right b" "same_reps p q" .
  define u where "u = uf\<lparr>uf_parent := q\<rparr>"
  have same: "same_reps (uf_parent uf) q" using same_reps_trans [OF p(3) q(3)] .
  have u: "uf_ok cs u" "together u = together uf" using uf_ok_parent [OF ok same] by (simp_all add: u_def)
  have ra: "rep (uf_parent u) left a" and rb: "rep (uf_parent u) right b"
    using p q same by (simp_all add: u_def same_reps_def)
  let ?conflict = "identity_priority_conflicts (uf_identity_keys u ! a) (uf_identity_keys u ! b)"
  have step: "union_if_compatible left right uf = (if a = b \<or> ?conflict then Some u else Some (link a b u))"
    using p q by (simp add: union_if_compatible_def u_def Let_def)
  have nc: "\<not> ?conflict" if "same_provider cs left right"
  proof -
    from that obtain k where "Provider k \<in> set (identity_keys (cs ! left))" "Provider k \<in> set (identity_keys (cs ! right))"
      by (auto simp: same_provider_def)
    with provider_in_group [OF u(1)] ra rb show ?thesis
      by (intro shared_provider_no_conflict [of "Provider k"]) simp_all
  qed
  show ?thesis
  proof (cases "a = b \<or> ?conflict")
    case True
    then have "together u left right" if "same_provider cs left right"
      using nc [OF that] ra rb by (auto simp: together_def)
    with True step u show ?thesis by auto
  next
    case False
    with link_ok [OF u(1) l ra rb] step u(2) show ?thesis by auto
  qed
qed

subsection \<open>The loops\<close>

lemma opt_fold_inv:
  assumes "\<forall>x \<in> set xs. \<forall>s. I s \<longrightarrow> (\<exists>s'. f x s = Some s' \<and> I s' \<and> le s s')" and "I s"
    and "reflp le" "transp le"
  shows "\<exists>s'. opt_fold f xs s = Some s' \<and> I s' \<and> le s s'"
  using assms(1,2)
proof (induction xs arbitrary: s)
  case (Cons x xs)
  then obtain t where t: "f x s = Some t" "I t" "le s t" by fastforce
  with Cons obtain s' where "opt_fold f xs t = Some s'" "I s'" "le t s'" by fastforce
  with t assms(4) show ?case by (auto dest: transpD)
qed (use assms(3) in \<open>auto dest: reflpD\<close>)

lemma opt_fold_establish:
  assumes "\<forall>x \<in> set xs. \<forall>s. I s \<longrightarrow> (\<exists>s'. f x s = Some s' \<and> I s' \<and> le s s')" and "I s"
    and "reflp le" "transp le"
    and "x \<in> set xs" "\<forall>s s'. I s \<and> f x s = Some s' \<longrightarrow> Q s'" "\<forall>s s'. Q s \<and> le s s' \<longrightarrow> Q s'"
    and "opt_fold f xs s = Some s'"
  shows "Q s'"
  using assms(1,2,5,8)
proof (induction xs arbitrary: s)
  case (Cons y xs)
  from Cons.prems(1,2) obtain t where t: "f y s = Some t" "I t" by auto
  have rest: "opt_fold f xs t = Some s'" using Cons.prems(4) t by simp
  have le: "le t s'" using opt_fold_inv [of xs I f le t] Cons.prems(1) t(2) assms(3,4) rest by fastforce
  show ?case
  proof (cases "y = x")
    case True
    with assms(6,7) t le Cons.prems(2) show ?thesis by blast
  next
    case False
    with Cons.prems t rest show ?thesis by (intro Cons.IH [of t]) auto
  qed
qed simp

text \<open>States of the grouping: the invariant, and that groups only grow.\<close>

definition uf_le :: "UnionFind \<Rightarrow> UnionFind \<Rightarrow> bool" where
  "uf_le uf uf' \<longleftrightarrow> (\<forall>i j. together uf i j \<longrightarrow> together uf' i j)"

lemma uf_le_refl: "reflp uf_le" and uf_le_trans: "transp uf_le"
  by (simp_all add: uf_le_def reflp_def transp_def)

lemmas uf_fold = opt_fold_inv [where le = uf_le, OF _ _ uf_le_refl uf_le_trans]
lemmas uf_fold_establish = opt_fold_establish [where le = uf_le, OF _ _ uf_le_refl uf_le_trans]

lemma union_step:
  assumes "uf_ok cs uf" "linked cs left right"
  shows "\<exists>uf'. union_if_compatible left right uf = Some uf' \<and> uf_ok cs uf' \<and> uf_le uf uf'"
  using union_if_compatible_ok [OF assms] by (auto simp: uf_le_def)

lemma union_members_ok:
  assumes "uf_ok cs uf" and "\<forall>i \<in> set ms. \<forall>j \<in> set ms. linked cs i j"
  shows "\<exists>uf'. union_members ms uf = Some uf' \<and> uf_ok cs uf' \<and> uf_le uf uf'"
proof (cases ms)
  case Nil
  with assms show ?thesis by (simp add: union_members_def uf_le_def)
next
  case (Cons first rest)
  with assms(2) have "\<forall>m \<in> set rest. \<forall>s. uf_ok cs s \<longrightarrow>
      (\<exists>s'. union_if_compatible first m s = Some s' \<and> uf_ok cs s' \<and> uf_le s s')" using union_step by simp
  from uf_fold [OF this assms(1)] Cons show ?thesis by (simp add: union_members_def)
qed

lemma union_members_together:
  assumes "uf_ok cs uf" and all: "\<forall>i \<in> set ms. \<forall>j \<in> set ms. linked cs i j \<and> same_provider cs i j"
    and run: "union_members ms uf = Some uf'" and "i \<in> set ms" "j \<in> set ms"
  shows "together uf' i j"
proof -
  obtain first rest where ms: "ms = first # rest" using assms(4) by (cases ms) auto
  have step: "\<forall>m \<in> set rest. \<forall>s. uf_ok cs s \<longrightarrow>
      (\<exists>s'. union_if_compatible first m s = Some s' \<and> uf_ok cs s' \<and> uf_le s s')"
    using all union_step by (simp add: ms)
  have fold: "opt_fold (union_if_compatible first) rest uf = Some uf'" using run by (simp add: ms union_members_def)
  have member: "together uf' first m" if "m \<in> set rest" for m
  proof -
    have lm: "linked cs first m" "same_provider cs first m" using all that by (simp_all add: ms)
    have joins: "\<forall>s s'. uf_ok cs s \<and> union_if_compatible first m s = Some s' \<longrightarrow> together s' first m"
      using union_if_compatible_ok [OF _ lm(1)] lm(2) by fastforce
    have stays: "\<forall>s s'. together s first m \<and> uf_le s s' \<longrightarrow> together s' first m" by (simp add: uf_le_def)
    show ?thesis
      by (rule uf_fold_establish [where Q = "\<lambda>s. together s first m", OF step assms(1) that joins stays fold])
  qed
  have "uf_ok cs uf'"
    using uf_fold [OF step assms(1)] fold by auto
  then have "together uf' first first"
    using all by (auto simp: ms together_def uf_ok_def forest_def linked_def)
  with member assms(4,5) have "together uf' first i" "together uf' first j" by (auto simp: ms)
  then show ?thesis using rep_unique unfolding together_def by metis
qed

subsection \<open>The index of the keys\<close>

definition km_inv :: "(IdentityKey, buckets) btree \<Rightarrow> bool" where
  "km_inv km \<longleftrightarrow> bt_inv km \<and> (\<forall>k b. bt_get km k = Some b \<longrightarrow> bt_inv b)"

definition member_of :: "(IdentityKey, buckets) btree \<Rightarrow> IdentityKey \<Rightarrow> ProviderKey option \<Rightarrow> nat \<Rightarrow> bool" where
  "member_of km k p i \<longleftrightarrow> (\<exists>b ms. bt_get km k = Some b \<and> bt_get b p = Some ms \<and> i \<in> set ms)"

lemma bt_push_get:
  "bt_inv m \<Longrightarrow> bt_inv (bt_push k x m) \<and> bt_get (bt_push k x m) k' =
     (if k' = k then Some ((case bt_get m k of None \<Rightarrow> [] | Some xs \<Rightarrow> xs) @ [x]) else bt_get m k')"
  by (simp add: bt_push_def bt_inv_insert bt_get_insert)

lemma push_member_spec:
  assumes "km_inv km"
  shows "km_inv (push_member p i k km)"
    and "member_of (push_member p i k km) k' p' j \<longleftrightarrow> member_of km k' p' j \<or> k' = k \<and> p' = p \<and> j = i"
proof -
  let ?b = "case bt_get km k of None \<Rightarrow> [] | Some b \<Rightarrow> b"
  have b: "bt_inv ?b" using assms by (auto simp: km_inv_def split: option.split)
  have get: "bt_get (push_member p i k km) k' = (if k' = k then Some (bt_push p i ?b) else bt_get km k')" for k'
    using assms by (simp add: push_member_def km_inv_def bt_get_insert)
  have "bt_inv (push_member p i k km)" using assms by (simp add: push_member_def km_inv_def bt_inv_insert)
  with get bt_push_get [OF b] assms show "km_inv (push_member p i k km)" by (auto simp: km_inv_def)
  show "member_of (push_member p i k km) k' p' j \<longleftrightarrow> member_of km k' p' j \<or> k' = k \<and> p' = p \<and> j = i"
    using bt_push_get [OF b, of p i p'] by (auto simp: member_of_def get split: option.splits if_splits)
qed

lemma push_members_spec:
  "km_inv km \<Longrightarrow> km_inv (fold (push_member p i) ks km)
     \<and> (member_of (fold (push_member p i) ks km) k' p' j \<longleftrightarrow> member_of km k' p' j \<or> k' \<in> set ks \<and> p' = p \<and> j = i)"
proof (induction ks arbitrary: km)
  case (Cons k ks)
  from Cons.IH [OF push_member_spec(1) [OF Cons.prems]] push_member_spec(2) [OF Cons.prems] show ?case by auto
qed simp

definition id_spec :: "Component list \<Rightarrow> (ComponentId, nat list) btree \<Rightarrow> bool" where
  "id_spec cs im \<longleftrightarrow> bt_inv im \<and> (\<forall>x ms i. bt_get im x = Some ms \<and> i \<in> set ms \<longrightarrow> i < length cs \<and> c_id (cs ! i) = x)"

lemma index_components_spec:
  "fold index_component (enumerate 0 cs) ([], []) = (km, im)
   \<Longrightarrow> km_inv km \<and> id_spec cs im
       \<and> (\<forall>k p i. member_of km k p i \<longleftrightarrow> i < length cs \<and> k \<in> set (identity_keys (cs ! i)) \<and> p = provider_key (cs ! i))"
proof (induction cs arbitrary: km im rule: rev_induct)
  case Nil
  then show ?case by (simp add: km_inv_def id_spec_def member_of_def)
next
  case (snoc c cs)
  obtain km' im' where run: "fold index_component (enumerate 0 cs) ([], []) = (km', im')" by force
  let ?n = "length cs"
  have km: "km = fold (push_member (provider_key c) ?n) (identity_keys c) km'" and im: "im = bt_push (c_id c) ?n im'"
    using snoc.prems run by (simp_all add: enumerate_append_eq index_component_def)
  note IH = snoc.IH [OF run]
  then have inv: "km_inv km'" "bt_inv im'" by (simp_all add: id_spec_def)
  have "km_inv km" using push_members_spec [OF inv(1)] by (simp add: km)
  moreover have "id_spec (cs @ [c]) im"
    unfolding id_spec_def im
  proof (intro conjI allI impI)
    show "bt_inv (bt_push (c_id c) ?n im')" using bt_push_get [OF inv(2)] by simp
    fix x ms i assume "bt_get (bt_push (c_id c) ?n im') x = Some ms \<and> i \<in> set ms"
    then have "(\<exists>ms. bt_get im' x = Some ms \<and> i \<in> set ms) \<or> x = c_id c \<and> i = ?n"
      using bt_push_get [OF inv(2), of "c_id c" ?n x] by (auto split: if_splits option.splits)
    then have "i < ?n \<and> c_id (cs ! i) = x \<or> x = c_id c \<and> i = ?n" using IH by (auto simp: id_spec_def)
    then show "i < length (cs @ [c])" "c_id ((cs @ [c]) ! i) = x" by (auto simp: nth_append)
  qed
  moreover have "member_of km k p i \<longleftrightarrow> i < length (cs @ [c]) \<and> k \<in> set (identity_keys ((cs @ [c]) ! i)) \<and> p = provider_key ((cs @ [c]) ! i)" for k p i
    using push_members_spec [OF inv(1), of "provider_key c" ?n "identity_keys c" k p i] IH
    by (auto simp: km nth_append less_Suc_eq)
  ultimately show ?case by blast
qed

definition bucket_ok :: "Component list \<Rightarrow> buckets \<Rightarrow> bool" where
  "bucket_ok cs b \<longleftrightarrow> bt_inv b \<and> (\<exists>k. \<forall>p ms i. bt_get b p = Some ms \<and> i \<in> set ms
     \<longrightarrow> i < length cs \<and> k \<in> set (identity_keys (cs ! i)))"

lemma bucket_linked:
  assumes "bucket_ok cs b" "bt_get b p = Some ms" "i \<in> set ms" "bt_get b q = Some ns" "j \<in> set ns"
  shows "linked cs i j"
proof -
  obtain k where k: "\<forall>p ms i. bt_get b p = Some ms \<and> i \<in> set ms \<longrightarrow> i < length cs \<and> k \<in> set (identity_keys (cs ! i))"
    using assms(1) by (auto simp: bucket_ok_def)
  from k assms(2,3) k assms(4,5) show ?thesis unfolding linked_def by blast
qed

lemma bucket_members_ok:
  assumes "bucket_ok cs b"
  shows "\<forall>ms \<in> set (map snd b). \<forall>s. uf_ok cs s \<longrightarrow>
      (\<exists>s'. union_members ms s = Some s' \<and> uf_ok cs s' \<and> uf_le s s')"
proof (intro ballI allI impI, rule union_members_ok)
  fix ms assume ms: "ms \<in> set (map snd b)"
  obtain p where "(p, ms) \<in> set b" using ms by auto
  then have "bt_get b p = Some ms" using assms by (simp add: bucket_ok_def bt_inv_distinct)
  then show "\<forall>i \<in> set ms. \<forall>j \<in> set ms. linked cs i j" using bucket_linked [OF assms] by blast
qed

lemma union_buckets_ok:
  assumes ok: "uf_ok cs uf" and b: "bucket_ok cs b"
  shows "\<exists>uf'. union_buckets b uf = Some uf' \<and> uf_ok cs uf' \<and> uf_le uf uf'
           \<and> (\<forall>uf1. opt_fold union_members (map snd b) uf = Some uf1 \<longrightarrow> uf_le uf1 uf')"
proof -
  have dist: "distinct (map fst b)" using b by (simp add: bucket_ok_def bt_inv_distinct)
  note members = bucket_members_ok [OF b]
  from uf_fold [OF members ok] obtain uf1 where
    uf1: "opt_fold union_members (map snd b) uf = Some uf1" "uf_ok cs uf1" "uf_le uf uf1" by blast
  have across: "\<forall>i \<in> set unowned. \<forall>s. uf_ok cs s \<longrightarrow>
      (\<exists>s'. opt_fold (union_if_compatible i) owned s = Some s' \<and> uf_ok cs s' \<and> uf_le s s')"
    if "bt_get b None = Some unowned" "bt_get b p = Some owned" for p unowned owned
  proof (intro ballI allI impI, rule uf_fold)
    fix i assume "i \<in> set unowned"
    then show "\<forall>j \<in> set owned. \<forall>s. uf_ok cs s \<longrightarrow> (\<exists>s'. union_if_compatible i j s = Some s' \<and> uf_ok cs s' \<and> uf_le s s')"
      using bucket_linked [OF b that(1) _ that(2)] union_step by blast
  qed
  show ?thesis
  proof (cases "\<exists>p owned unowned. filter (\<lambda>(p, _). p \<noteq> None) b = [(p, owned)] \<and> bt_get b None = Some unowned")
    case True
    then obtain p owned unowned where f: "filter (\<lambda>(p, _). p \<noteq> None) b = [(p, owned)]" and u: "bt_get b None = Some unowned" by blast
    have "(p, owned) \<in> set (filter (\<lambda>(p, _). p \<noteq> None) b)" using f by simp
    then have "bt_get b p = Some owned" using dist by simp
    from uf_fold [OF across [OF u this] uf1(2)] obtain uf2 where
      "opt_fold (\<lambda>i. opt_fold (union_if_compatible i) owned) unowned uf1 = Some uf2" "uf_ok cs uf2" "uf_le uf1 uf2" by blast
    with uf1 f u show ?thesis using transpD [OF uf_le_trans] by (auto simp: union_buckets_def)
  next
    case False
    then have "union_buckets b uf = Some uf1"
      using uf1(1) by (auto simp: union_buckets_def split: list.splits option.splits prod.splits)
    with uf1 show ?thesis using reflpD [OF uf_le_refl] by auto
  qed
qed

subsection \<open>The groups\<close>

lemma provider_key_in_keys: "provider_key c = Some p \<longleftrightarrow> Provider p \<in> set (identity_keys c)"
proof -
  let ?weaker = "set_option (family_key c) \<union> set_option (signed_key c) \<union> set_option (product_key c) \<union> set_option (local_key c)"
  let ?present = "set_option (map_option Provider (provider_key c)) \<union> ?weaker"
  have weaker: "Provider p \<notin> ?weaker"
    by (simp add: family_key_def signed_key_def product_key_def local_key_def split: option.splits)
  have "set (insert_key k ks) = set_option k \<union> set ks" for k ks
    by (cases k) (simp_all add: insert_key_def set_insort_insert)
  then have "Provider p \<in> set (identity_keys c) \<longleftrightarrow> Provider p \<in> ?present"
    unfolding identity_keys_def Let_def by (subst if_distrib [of set]) (simp flip: set_empty, blast)
  with weaker show ?thesis by auto
qed

lemma new_ok: "uf_ok cs (UnionFind_new cs)"
proof -
  let ?p = "[0..<length cs]"
  have rep: "rep ?p i r \<longleftrightarrow> i < length cs \<and> r = i" for i r
  proof
    show "rep ?p i r \<Longrightarrow> i < length cs \<and> r = i" by (induction rule: rep.induct) simp_all
  qed (simp add: rep_root)
  have keys: "group_keys cs ?p r = set (identity_keys_without_fallback (cs ! r))" if "r < length cs" for r
    using that by (auto simp: group_keys_def rep)
  have one: "one_provider (set (identity_keys_without_fallback c))" for c
  proof -
    have tier: "identity_key_tier k = 0 \<longleftrightarrow> (\<exists>p. k = Provider p)" for k by (cases k) auto
    have "p = q" if "Provider p \<in> set (identity_keys c)" "Provider q \<in> set (identity_keys c)" for p q
      using that by (simp flip: provider_key_in_keys)
    then show ?thesis by (auto simp: one_provider_def identity_keys_without_fallback_def tier)
  qed
  show ?thesis using one by (auto simp: uf_ok_def UnionFind_new_def rep keys forest_def)
qed

text \<open>The map of groups after the indices below \<open>k\<close>.\<close>

definition grouped_up_to :: "nat list \<Rightarrow> nat \<Rightarrow> (nat, nat list) btree \<Rightarrow> bool" where
  "grouped_up_to p k g \<longleftrightarrow> bt_inv g \<and> (\<forall>r. bt_get g r =
     (let ms = filter (\<lambda>i. rep p i r) [0..<k] in if ms = [] then None else Some ms))"

lemma push_group_step:
  assumes f: "forest p" and i: "i < length p" and same: "same_reps p (uf_parent uf)" and g: "grouped_up_to p i g"
  shows "\<exists>uf' g'. push_group i (uf, g) = Some (uf', g') \<and> same_reps p (uf_parent uf') \<and> grouped_up_to p (Suc i) g'"
proof -
  have f': "forest (uf_parent uf)" "i < length (uf_parent uf)"
    using same_reps_forest [OF same f] same i by (simp_all add: same_reps_def)
  from root_Some [OF this] obtain q r where q: "root (uf_parent uf) i = Some (q, r)" "rep (uf_parent uf) i r"
    "same_reps (uf_parent uf) q" .
  have r: "rep p i s \<longleftrightarrow> s = r" for s using q(2) same rep_unique by (auto simp: same_reps_def)
  have "bt_inv g" using g by (simp add: grouped_up_to_def)
  note push = bt_push_get [OF this, of r i]
  have "grouped_up_to p (Suc i) (bt_push r i g)"
    unfolding grouped_up_to_def
  proof (intro conjI allI)
    show "bt_inv (bt_push r i g)" using push by simp
    fix s show "bt_get (bt_push r i g) s = (let ms = filter (\<lambda>i. rep p i s) [0..<Suc i] in if ms = [] then None else Some ms)"
      using push [of s] g by (auto simp: grouped_up_to_def Let_def r)
  qed
  with q same_reps_trans [OF same q(3)] show ?thesis by (simp add: push_group_def)
qed

lemma push_groups:
  assumes f: "forest p"
  shows "k \<le> length p \<Longrightarrow> same_reps p (uf_parent uf) \<Longrightarrow>
    \<exists>uf' g. opt_fold push_group [0..<k] (uf, []) = Some (uf', g) \<and> same_reps p (uf_parent uf') \<and> grouped_up_to p k g"
proof (induction k)
  case 0
  then show ?case by (simp add: grouped_up_to_def)
next
  case (Suc k)
  have snoc: "opt_fold h (xs @ [x]) s = Option.bind (opt_fold h xs s) (h x)" for h :: "'a \<Rightarrow> 's \<Rightarrow> 's option" and xs x s
    by (induction xs arbitrary: s) (auto split: Option.bind_splits)
  from Suc obtain uf' g where "opt_fold push_group [0..<k] (uf, []) = Some (uf', g)"
    "same_reps p (uf_parent uf')" "grouped_up_to p k g" by auto
  with push_group_step [OF f, of k uf' g] Suc.prems show ?case by (simp add: snoc)
qed

text \<open>What is promised of one group of indices.\<close>

definition group_ok :: "Component list \<Rightarrow> nat list \<Rightarrow> bool" where
  "group_ok cs ms \<longleftrightarrow>
     ms \<noteq> [] \<and> sorted_wrt (<) ms
     \<and> (\<forall>i \<in> set ms. \<forall>j \<in> set ms. (linked cs)\<^sup>*\<^sup>* i j)
     \<and> (\<forall>i \<in> set ms. \<forall>j < length cs. provider_key (cs ! i) \<noteq> None \<and> provider_key (cs ! j) \<noteq> None
           \<longrightarrow> (j \<in> set ms \<longleftrightarrow> provider_key (cs ! i) = provider_key (cs ! j)))"

lemma bucket_together:
  assumes ok: "uf_ok cs uf" and b: "bucket_ok cs b" and ms: "bt_get b q = Some ms"
    and prov: "\<forall>m \<in> set ms. Provider p \<in> set (identity_keys (cs ! m))" and ij: "i \<in> set ms" "j \<in> set ms"
    and run: "union_buckets b uf = Some uf'"
  shows "together uf' i j"
proof -
  have dist: "distinct (map fst b)" using b by (simp add: bucket_ok_def bt_inv_distinct)
  note members = bucket_members_ok [OF b]
  obtain uf1 where uf1: "opt_fold union_members (map snd b) uf = Some uf1"
    using uf_fold [OF members ok] by blast
  have "ms \<in> set (map snd b)" using map_of_SomeD [OF ms] by force
  moreover have "\<forall>i \<in> set ms. \<forall>j \<in> set ms. linked cs i j \<and> same_provider cs i j"
    using bucket_linked [OF b ms _ ms] prov by (auto simp: same_provider_def)
  then have "\<forall>s s'. uf_ok cs s \<and> union_members ms s = Some s' \<longrightarrow> together s' i j"
    using union_members_together ij by blast
  moreover have "\<forall>s s'. together s i j \<and> uf_le s s' \<longrightarrow> together s' i j" by (simp add: uf_le_def)
  ultimately have "together uf1 i j"
    by (intro uf_fold_establish [where Q = "\<lambda>s. together s i j", OF members ok _ _ _ uf1])
  with union_buckets_ok [OF ok b] run uf1 show ?thesis by (auto simp: uf_le_def)
qed

lemma index_buckets_ok:
  assumes "km_inv km" and spec: "\<forall>k p i. member_of km k p i \<longleftrightarrow>
      i < length cs \<and> k \<in> set (identity_keys (cs ! i)) \<and> p = provider_key (cs ! i)" and "(k, b) \<in> set km"
  shows "bucket_ok cs b" "bt_get b q = Some ms \<Longrightarrow> i \<in> set ms \<longleftrightarrow> member_of km k q i"
proof -
  have b: "bt_get km k = Some b" using assms(1,3) by (simp add: km_inv_def bt_inv_distinct)
  then show "bt_get b q = Some ms \<Longrightarrow> i \<in> set ms \<longleftrightarrow> member_of km k q i" for q ms i by (auto simp: member_of_def)
  then have "i < length cs \<and> k \<in> set (identity_keys (cs ! i))" if "bt_get b p = Some ms" "i \<in> set ms" for p ms i
    using that spec by blast
  with b assms(1) show "bucket_ok cs b" unfolding bucket_ok_def km_inv_def by blast
qed

lemma unions_ok:
  obtains uf km im where "fold index_component (enumerate 0 cs) ([], []) = (km, im)"
    and "Option.bind (opt_fold union_buckets (map snd km) (UnionFind_new cs)) (opt_fold union_members (map snd im)) = Some uf"
    and "uf_ok cs uf"
    and "\<forall>i j. i < length cs \<and> j < length cs \<and> same_provider cs i j \<longrightarrow> together uf i j"
proof -
  obtain km im where ix: "fold index_component (enumerate 0 cs) ([], []) = (km, im)" by force
  from index_components_spec [OF ix] have km: "km_inv km" and im: "id_spec cs im"
    and spec: "\<forall>k p i. member_of km k p i \<longleftrightarrow> i < length cs \<and> k \<in> set (identity_keys (cs ! i)) \<and> p = provider_key (cs ! i)"
    by blast+
  note buckets = index_buckets_ok [OF km spec]
  have step: "\<forall>b \<in> set (map snd km). \<forall>s. uf_ok cs s \<longrightarrow> (\<exists>s'. union_buckets b s = Some s' \<and> uf_ok cs s' \<and> uf_le s s')"
    using buckets(1) union_buckets_ok by fastforce
  from uf_fold [OF step new_ok] obtain uf1 where
    uf1: "opt_fold union_buckets (map snd km) (UnionFind_new cs) = Some uf1" "uf_ok cs uf1" by blast
  have "\<forall>ms \<in> set (map snd im). \<forall>i \<in> set ms. \<forall>j \<in> set ms. linked cs i j"
    using im by (fastforce simp: id_spec_def linked_def bt_inv_distinct)
  then have ids: "\<forall>ms \<in> set (map snd im). \<forall>s. uf_ok cs s \<longrightarrow> (\<exists>s'. union_members ms s = Some s' \<and> uf_ok cs s' \<and> uf_le s s')"
    using union_members_ok by blast
  from uf_fold [OF ids uf1(2)] obtain uf where
    uf: "opt_fold union_members (map snd im) uf1 = Some uf" "uf_ok cs uf" "uf_le uf1 uf" by blast
  have "together uf i j" if ij: "i < length cs" "j < length cs" "same_provider cs i j" for i j
  proof -
    obtain p where p: "Provider p \<in> set (identity_keys (cs ! i))" "Provider p \<in> set (identity_keys (cs ! j))"
      using ij(3) by (auto simp: same_provider_def)
    then have "member_of km (Provider p) (Some p) i" "member_of km (Provider p) (Some p) j"
      using spec ij by (simp_all add: provider_key_in_keys [symmetric])
    then obtain b ms where b: "bt_get km (Provider p) = Some b" "bt_get b (Some p) = Some ms" "i \<in> set ms" "j \<in> set ms"
      by (auto simp: member_of_def)
    note kb = map_of_SomeD [OF b(1)]
    have "\<forall>m \<in> set ms. Provider p \<in> set (identity_keys (cs ! m))" using buckets(2) [OF kb b(2)] spec by blast
    then have joins: "\<forall>s s'. uf_ok cs s \<and> union_buckets b s = Some s' \<longrightarrow> together s' i j"
      using bucket_together [OF _ buckets(1) [OF kb] b(2)] b(3,4) by blast
    have stays: "\<forall>s s'. together s i j \<and> uf_le s s' \<longrightarrow> together s' i j" by (simp add: uf_le_def)
    have "b \<in> set (map snd km)" using kb by force
    from uf_fold_establish [where Q = "\<lambda>s. together s i j", OF step new_ok this joins stays uf1(1)] uf(3)
    show ?thesis by (simp add: uf_le_def)
  qed
  with ix uf1(1) uf show ?thesis by (intro that) auto
qed

lemma groups_distinct:
  assumes g: "bt_inv g" and entry: "\<forall>r ms. (r, ms) \<in> set g \<longrightarrow> ms = filter (\<lambda>i. rep p i r) [0..<n]"
  shows "distinct (concat (map snd g))"
proof -
  have "distinct (concat (map snd xs))" if "set xs \<subseteq> set g" "distinct (map fst xs)" for xs
    using that
  proof (induction xs)
    case (Cons x xs)
    obtain r ms where x: "x = (r, ms)" by force
    have ms: "ms = filter (\<lambda>i. rep p i r) [0..<n]" using entry Cons.prems by (auto simp: x)
    have "i \<notin> set ns" if "i \<in> set ms" "(s, ns) \<in> set xs" for i s ns
    proof
      assume "i \<in> set ns"
      moreover have "ns = filter (\<lambda>i. rep p i s) [0..<n]" using entry Cons.prems that(2) by auto
      ultimately have "s = r" using that(1) rep_unique by (auto simp: ms)
      with that(2) Cons.prems(2) show False by (force simp: x)
    qed
    with Cons show ?case by (auto simp: x ms)
  qed simp
  with g show ?thesis by (simp add: bt_inv_distinct)
qed

lemma group_of_rep:
  assumes ok: "uf_ok cs uf"
    and prov: "\<forall>i j. i < length cs \<and> j < length cs \<and> same_provider cs i j \<longrightarrow> together uf i j"
    and ms: "ms = filter (\<lambda>i. rep (uf_parent uf) i r) [0..<length cs]" "ms \<noteq> []"
  shows "group_ok cs ms"
  unfolding group_ok_def
proof (intro conjI ballI allI impI)
  show "sorted_wrt (<) ms" unfolding ms(1) by (rule sorted_wrt_filter) simp
  show "(linked cs)\<^sup>*\<^sup>* i j" if "i \<in> set ms" "j \<in> set ms" for i j
    using ok that unfolding uf_ok_def ms(1) by (simp add: conj_ac) blast
  fix i j assume i: "i \<in> set ms" and j: "j < length cs"
    and known: "provider_key (cs ! i) \<noteq> None \<and> provider_key (cs ! j) \<noteq> None"
  then obtain a b where a: "Provider a \<in> set (identity_keys (cs ! i))" and b: "Provider b \<in> set (identity_keys (cs ! j))"
    and keys: "provider_key (cs ! i) = Some a" "provider_key (cs ! j) = Some b"
    by (auto simp: provider_key_in_keys)
  have r: "rep (uf_parent uf) i r" "i < length cs" using i by (auto simp: ms(1))
  have one: "one_provider (set (uf_identity_keys uf ! r))" using ok rep_self [OF r(1)] by (auto simp: uf_ok_def)
  show "j \<in> set ms \<longleftrightarrow> provider_key (cs ! i) = provider_key (cs ! j)"
  proof
    assume "j \<in> set ms"
    then have "rep (uf_parent uf) j r" by (simp add: ms(1))
    with provider_in_group [OF ok a r(1)] provider_in_group [OF ok b] one have "Provider a = Provider b"
      unfolding one_provider_def by (metis identity_key_tier.simps(1))
    with keys show "provider_key (cs ! i) = provider_key (cs ! j)" by simp
  next
    assume "provider_key (cs ! i) = provider_key (cs ! j)"
    with keys a b have "same_provider cs i j" by (auto simp: same_provider_def)
    with prov r(2) j have "together uf i j" by blast
    with r(1) have "rep (uf_parent uf) j r" using rep_unique by (auto simp: together_def)
    with j show "j \<in> set ms" by (simp add: ms(1))
  qed
qed (use ms in simp)

lemma build_groups_spec:
  "\<exists>groups. build_groups cs = Some groups
     \<and> distinct (concat groups) \<and> set (concat groups) = {..<length cs} \<and> list_all (group_ok cs) groups"
proof -
  obtain uf km im where ix: "fold index_component (enumerate 0 cs) ([], []) = (km, im)"
    and run: "Option.bind (opt_fold union_buckets (map snd km) (UnionFind_new cs)) (opt_fold union_members (map snd im)) = Some uf"
    and ok: "uf_ok cs uf" and prov: "\<forall>i j. i < length cs \<and> j < length cs \<and> same_provider cs i j \<longrightarrow> together uf i j"
    by (rule unions_ok)
  define p where "p = uf_parent uf"
  have f: "forest p" and len: "length p = length cs" using ok by (simp_all add: p_def uf_ok_def)
  obtain uf' g where g: "opt_fold push_group [0..<length cs] (uf, []) = Some (uf', g)" "grouped_up_to p (length cs) g"
    using push_groups [OF f, of "length cs" uf] len by (auto simp: p_def same_reps_refl)
  have groups: "build_groups cs = Some (map snd g)"
    using run g(1) by (auto simp: build_groups_def ix split: Option.bind_splits)
  have inv: "bt_inv g" using g(2) by (simp add: grouped_up_to_def)
  have entry: "(r, ms) \<in> set g \<longleftrightarrow> ms = filter (\<lambda>i. rep p i r) [0..<length cs] \<and> ms \<noteq> []" for r ms
  proof -
    have "(r, ms) \<in> set g \<longleftrightarrow> bt_get g r = Some ms" using inv by (simp add: bt_inv_distinct)
    moreover have "bt_get g r = (let ms = filter (\<lambda>i. rep p i r) [0..<length cs] in if ms = [] then None else Some ms)"
      using g(2) unfolding grouped_up_to_def by blast
    ultimately show ?thesis by (simp only: Let_def) (metis option.distinct(1) option.inject)
  qed
  have set_groups: "set (concat (map snd g)) = {..<length cs}"
  proof (intro equalityI subsetI)
    fix i assume "i \<in> set (concat (map snd g))"
    then obtain r ms where "(r, ms) \<in> set g" "i \<in> set ms" by force
    then show "i \<in> {..<length cs}" by (simp add: entry)
  next
    fix i assume "i \<in> {..<length cs}"
    then have i: "i < length cs" by simp
    then obtain r where "rep p i r" using f len unfolding forest_def by metis
    with i have "i \<in> set (filter (\<lambda>i. rep p i r) [0..<length cs])" by simp
    moreover from this have "(r, filter (\<lambda>i. rep p i r) [0..<length cs]) \<in> set g"
      unfolding entry by (metis empty_iff empty_set)
    ultimately show "i \<in> set (concat (map snd g))" by force
  qed
  have "distinct (concat (map snd g))" using groups_distinct [OF inv] entry by blast
  moreover have "list_all (group_ok cs) (map snd g)"
    unfolding list_all_iff
  proof
    fix ms assume "ms \<in> set (map snd g)"
    then obtain r where "(r, ms) \<in> set g" by force
    then have "ms = filter (\<lambda>i. rep (uf_parent uf) i r) [0..<length cs]" "ms \<noteq> []" unfolding entry p_def by blast+
    then show "group_ok cs ms" by (rule group_of_rep [OF ok prov])
  qed
  ultimately show ?thesis using groups set_groups by blast
qed

text \<open>
  C18. Observations are grouped by what identifies them. For every list of components the grouping ends
  without an index out of range, and its groups split the indices: each index is in exactly one
  group. Two members of a group are connected by a chain of observations that share an identity key
  or an id, and components with a provider identity are in one group exactly when this identity is
  the same, so that no weaker observation bridges two packages and no package is split.
\<close>

theorem groups_follow_identity:
  "\<exists>groups. build_groups cs = Some groups
     \<and> distinct (concat groups) \<and> set (concat groups) = {..<length cs} \<and> list_all (group_ok cs) groups"
  by (rule build_groups_spec)

end
