(* ===== verification/DiscoveryEvidence.thy ===== *)
theory DiscoveryEvidence
  imports Collections Errors
begin

text \<open>
  The evidence of discovery, \<^verbatim>\<open>crates/reforge-discovery/src/evidence.rs\<close>: the ledger of redacted
  records, the confidence a set of records supports, and the bounded set of warnings. Strengths are
  bytes and their sum a 16-bit number that saturates.
\<close>

datatype EvidenceSource =
    Registry | AppPaths | Shortcut | FileMetadata | Authenticode | WinGet | Chocolatey | Scoop | Npm
  | Pnpm | Yarn | Bun | Python | Rust | Go | Dotnet | PowerShell | Wsl | Docker | Browser | Editor
  | Harness | UserSelected | Unknown

record Evidence =
  evd_id :: EvidenceId
  evd_source :: EvidenceSource
  evd_locator :: str
  evd_observed_at :: DateTime
  evd_summary :: str
  evd_strength :: nat
  evd_independent_group :: str

type_synonym evidence_map = "(EvidenceId, Evidence) btree"

definition MAX_EVIDENCE_RECORDS :: nat where "MAX_EVIDENCE_RECORDS = 100000"
definition MAX_WARNINGS :: nat where "MAX_WARNINGS = 4096"
definition MAX_EVIDENCE_TEXT_BYTES :: nat where "MAX_EVIDENCE_TEXT_BYTES = 8 * 1024"

definition WARNING_OMISSION :: str where
  "WARNING_OMISSION = ''Additional discovery warnings were omitted after the reviewed limit''"

definition evidence_error :: "str \<Rightarrow> ErrorEnvelope" where
  "evidence_error detail =
     with_technical_detail detail (ErrorEnvelope_new SchemaInvalid ''Discovery evidence failed validation'')"

subsection \<open>The ledger\<close>

definition redact_evidence_text :: "str \<Rightarrow> (ErrorEnvelope, str) result" where
  "redact_evidence_text v =
     ok_or (evidence_error ''evidence text could not be safely redacted'')
       (policy_redact_text (with_max_bytes MAX_EVIDENCE_TEXT_BYTES) v)"

definition redact_evidence :: "Evidence \<Rightarrow> (ErrorEnvelope, Evidence) result" where
  "redact_evidence evidence =
     try_bind (redact_evidence_text (evd_locator evidence)) (\<lambda>locator.
     try_bind (redact_evidence_text (evd_summary evidence)) (\<lambda>summary.
     try_bind (redact_evidence_text (evd_independent_group evidence)) (\<lambda>independent_group.
     Inr (evidence\<lparr>evd_locator := locator, evd_summary := summary, evd_independent_group := independent_group\<rparr>))))"

definition ledger_insert :: "Evidence \<Rightarrow> evidence_map \<Rightarrow> (ErrorEnvelope, evidence_map) result" where
  "ledger_insert evidence records =
     (if evd_strength evidence > 100 then Inl (evidence_error ''evidence strength exceeds 100'')
      else try_bind (redact_evidence evidence) (\<lambda>evidence.
        case bt_get records (evd_id evidence) of
          Some existing \<Rightarrow>
            if existing = evidence then Inr records
            else Inl (evidence_error ''one evidence ID was reused for conflicting observations'')
        | None \<Rightarrow>
            if length records \<ge> MAX_EVIDENCE_RECORDS
            then Inl (evidence_error ''discovery evidence exceeds the reviewed record bound'')
            else Inr (bt_insert (evd_id evidence) evidence records)))"

definition into_records :: "evidence_map \<Rightarrow> Evidence list" where
  "into_records records = map snd records"

subsection \<open>Confidence\<close>

record EvidenceConfidence =
  ec_confidence :: Confidence
  ec_score :: nat
  ec_independent_groups :: nat
  ec_explanations :: "str list"
  ec_unverified :: bool

text \<open>The variables of the loop over the evidence ids.\<close>

record tally =
  ty_total :: nat
  ty_groups :: "str list"
  ty_seen :: "EvidenceId list"
  ty_missing :: bool
  ty_missing_count :: nat

definition saturating_add_u16 :: "nat \<Rightarrow> nat \<Rightarrow> nat" where
  "saturating_add_u16 a b = min (a + b) 65535"

definition count_evidence :: "evidence_map \<Rightarrow> EvidenceId \<Rightarrow> tally \<Rightarrow> tally" where
  "count_evidence records evidence_id t =
     (if evidence_id \<in> set (ty_seen t) then t
      else let t = t\<lparr>ty_seen := insort_insert evidence_id (ty_seen t)\<rparr> in
        case bt_get records evidence_id of
          None \<Rightarrow> t\<lparr>ty_missing := True, ty_missing_count := saturating_add_u64 (ty_missing_count t) 1\<rparr>
        | Some record \<Rightarrow>
            t\<lparr>ty_total := saturating_add_u16 (ty_total t) (evd_strength record),
              ty_groups := insort_insert (evd_independent_group record) (ty_groups t)\<rparr>)"

definition tally_evidence :: "EvidenceId list \<Rightarrow> evidence_map \<Rightarrow> tally" where
  "tally_evidence evidence_ids records =
     fold (count_evidence records) evidence_ids
       \<lparr>ty_total = 0, ty_groups = [], ty_seen = [], ty_missing = False, ty_missing_count = 0\<rparr>"

definition confidence_level :: "bool \<Rightarrow> nat \<Rightarrow> nat \<Rightarrow> bool \<Rightarrow> Confidence" where
  "confidence_level unverified score groups conflicting_facts =
     (if unverified then Confidence.Unknown
      else if score \<ge> 90 \<and> groups \<ge> 2 \<and> \<not> conflicting_facts then Confirmed
      else if score \<ge> 75 then Confidence.High
      else if score \<ge> 45 then Confidence.Medium
      else if score \<ge> 20 then Confidence.Low
      else Confidence.Unknown)"

definition confidence_for_evidence :: "EvidenceId list \<Rightarrow> evidence_map \<Rightarrow> bool \<Rightarrow> bool \<Rightarrow> EvidenceConfidence" where
  "confidence_for_evidence evidence_ids records identity_unverified conflicting_facts =
     (let t = tally_evidence evidence_ids records;
          groups = length (ty_groups t);
          score = min (ty_total t) 100;
          supporting = length (ty_seen t) - ty_missing_count t;
          explanations = [show_nat supporting @ '' supporting evidence record(s) contributed '' @ show_nat score @ '' point(s)''];
          (score, explanations) =
            (if groups \<ge> 2
             then (min (score + 10) 100, explanations @ [''Two independent evidence groups agree on the identity''])
             else (score, explanations @ [''Fewer than two independent evidence groups were observed'']));
          (score, explanations) =
            (if conflicting_facts
             then (score - 20, explanations @ [''Conflicting publisher, version, or source facts reduced confidence''])
             else (score, explanations));
          explanations = explanations
            @ (if ty_missing t then [''A referenced evidence record was unavailable''] else [])
            @ (if identity_unverified then [''The observation has no supported identity tuple''] else [])
            @ (if evidence_ids = [] then [''No supporting evidence was recorded''] else []);
          unverified = (identity_unverified \<or> ty_missing t \<or> evidence_ids = [])
      in \<lparr>ec_confidence = confidence_level unverified score groups conflicting_facts, ec_score = score,
          ec_independent_groups = groups, ec_explanations = explanations, ec_unverified = unverified\<rparr>)"

subsection \<open>Warnings\<close>

record WarningLedger =
  wl_warnings :: "str list"
  wl_omitted :: bool

definition record_omission :: "WarningLedger \<Rightarrow> WarningLedger" where
  "record_omission ledger = ledger\<lparr>wl_omitted := True\<rparr>"

definition push_warning :: "str \<Rightarrow> WarningLedger \<Rightarrow> WarningLedger" where
  "push_warning warning ledger =
     (case redact_text warning of
        None \<Rightarrow> record_omission ledger
      | Some warning \<Rightarrow>
          if length (wl_warnings ledger) < MAX_WARNINGS - 1
          then ledger\<lparr>wl_warnings := insort_insert warning (wl_warnings ledger)\<rparr>
          else record_omission ledger)"

definition push_error :: "ProviderId \<Rightarrow> ErrorEnvelope \<Rightarrow> WarningLedger \<Rightarrow> WarningLedger" where
  "push_error adapter e ledger =
     (let warning = adapter @ '' ['' @ show_code (ee_code e) @ '']: '' @ ee_message e;
          warning = (case ee_technical_detail e of
                       None \<Rightarrow> warning
                     | Some detail \<Rightarrow> warning @ [CHR '' '', CHR 0xE2, CHR 0x80, CHR 0x94, CHR '' ''] @ detail)
      in push_warning warning ledger)"

definition into_warnings :: "WarningLedger \<Rightarrow> str list" where
  "into_warnings ledger =
     (if wl_omitted ledger then insort_insert WARNING_OMISSION (wl_warnings ledger) else wl_warnings ledger)"

subsection \<open>What the tally holds\<close>

definition supporting_evidence :: "EvidenceId set \<Rightarrow> evidence_map \<Rightarrow> Evidence set" where
  "supporting_evidence ids records = {r. \<exists>i \<in> ids. bt_get records i = Some r}"

text \<open>The points of a set of ids: the sum of the strengths of their records, at most 100.\<close>

definition evidence_points :: "EvidenceId set \<Rightarrow> evidence_map \<Rightarrow> nat" where
  "evidence_points ids records =
     min 100 (\<Sum>i \<in> ids. case bt_get records i of None \<Rightarrow> 0 | Some r \<Rightarrow> evd_strength r)"

lemma saturating_points: "min 100 (saturating_add_u16 a b) = min 100 (min 65535 a + b)"
  by (simp add: saturating_add_u16_def min_def)

definition tally_inv :: "evidence_map \<Rightarrow> EvidenceId set \<Rightarrow> tally \<Rightarrow> bool" where
  "tally_inv records ids t \<longleftrightarrow>
     ty_total t = min 65535 (\<Sum>i \<in> ids. case bt_get records i of None \<Rightarrow> 0 | Some r \<Rightarrow> evd_strength r)
     \<and> set (ty_seen t) = ids \<and> distinct (ty_groups t)
     \<and> set (ty_groups t) = evd_independent_group ` supporting_evidence ids records
     \<and> (ty_missing t \<longleftrightarrow> (\<exists>i \<in> ids. bt_get records i = None))"

lemma count_evidence_step:
  assumes "tally_inv records ids t" "finite ids"
  shows "tally_inv records (insert i ids) (count_evidence records i t)"
proof (cases "i \<in> ids")
  case True
  with assms show ?thesis by (simp add: tally_inv_def count_evidence_def insert_absorb)
next
  case False
  have "supporting_evidence (insert i ids) records =
      (case bt_get records i of None \<Rightarrow> {} | Some r \<Rightarrow> {r}) \<union> supporting_evidence ids records"
    by (auto simp: supporting_evidence_def split: option.splits)
  with assms False show ?thesis
    by (auto simp: tally_inv_def count_evidence_def saturating_add_u16_def set_insort_insert distinct_insort_insert
        split: option.splits)
qed

lemma tally_evidence_inv: "tally_inv records (set ids) (tally_evidence ids records)"
proof -
  have "tally_inv records (J \<union> set ids) (fold (count_evidence records) ids t)"
    if "tally_inv records J t" "finite J" for J t
    using that
  proof (induction ids arbitrary: J t)
    case (Cons i ids)
    from Cons.IH [OF count_evidence_step [OF Cons.prems]] Cons.prems(2) show ?case by simp
  qed simp
  moreover have "tally_inv records {} \<lparr>ty_total = 0, ty_groups = [], ty_seen = [], ty_missing = False, ty_missing_count = 0\<rparr>"
    by (simp add: tally_inv_def supporting_evidence_def)
  ultimately show ?thesis unfolding tally_evidence_def by fastforce
qed

text \<open>
  C29. Confidence is what the distinct records support. Whatever the order and repetition of the
  references, the score is the sum of the strengths of the records that exist, at most 100, plus 10
  if two independent groups agree and minus 20 if facts conflict; anything unverified (no identity,
  no evidence, or a reference without record) has unknown confidence, and confirmed means 90 points,
  two independent groups and no conflict.
\<close>

theorem confidence_is_exact:
  "let c = confidence_for_evidence ids records identity_unverified conflicting_facts;
       groups = card (evd_independent_group ` supporting_evidence (set ids) records);
       points = evidence_points (set ids) records;
       score = (if groups \<ge> 2 then min 100 (points + 10) else points) - (if conflicting_facts then 20 else 0);
       unverified = (identity_unverified \<or> ids = [] \<or> list_ex (\<lambda>i. bt_get records i = None) ids)
   in ec_score c = score \<and> ec_independent_groups c = groups \<and> (ec_unverified c \<longleftrightarrow> unverified)
      \<and> ec_confidence c =
          (if unverified then Confidence.Unknown
           else if score \<ge> 90 \<and> groups \<ge> 2 \<and> \<not> conflicting_facts then Confirmed
           else if score \<ge> 75 then Confidence.High else if score \<ge> 45 then Confidence.Medium
           else if score \<ge> 20 then Confidence.Low else Confidence.Unknown)"
proof -
  let ?t = "tally_evidence ids records"
  have inv: "tally_inv records (set ids) ?t" by (rule tally_evidence_inv)
  then have groups: "length (ty_groups ?t) = card (evd_independent_group ` supporting_evidence (set ids) records)"
    unfolding tally_inv_def by (metis distinct_card)
  have points: "min (ty_total ?t) 100 = evidence_points (set ids) records"
    using inv by (simp add: tally_inv_def evidence_points_def)
  have missing: "ty_missing ?t \<longleftrightarrow> list_ex (\<lambda>i. bt_get records i = None) ids"
    using inv by (simp add: tally_inv_def list_ex_iff)
  show ?thesis
    unfolding confidence_for_evidence_def Let_def confidence_level_def groups points missing
    by (cases "2 \<le> card (evd_independent_group ` supporting_evidence (set ids) records)"; cases conflicting_facts)
      (simp_all add: min.commute disj_commute)
qed

subsection \<open>What the ledgers hold\<close>

definition ledger_inv :: "Evidence list \<Rightarrow> evidence_map \<Rightarrow> bool" where
  "ledger_inv evidences records \<longleftrightarrow>
     bt_inv records \<and> length records \<le> MAX_EVIDENCE_RECORDS
     \<and> (\<forall>(i, r) \<in> set records. i = evd_id r)
     \<and> set (map snd records) = {r. \<exists>e \<in> set evidences. redact_evidence e = Inr r}
     \<and> (\<forall>e \<in> set evidences. evd_strength e \<le> 100 \<and> is_ok (redact_evidence e))"

lemma redacted_fields:
  "redact_evidence e = Inr r \<Longrightarrow> evd_id r = evd_id e \<and> evd_strength r = evd_strength e
     \<and> length (evd_locator r) \<le> MAX_EVIDENCE_TEXT_BYTES \<and> length (evd_summary r) \<le> MAX_EVIDENCE_TEXT_BYTES
     \<and> length (evd_independent_group r) \<le> MAX_EVIDENCE_TEXT_BYTES"
  by (auto simp: redact_evidence_def redact_evidence_text_def result_simps with_max_bytes_def
      dest!: policy_redact_text_bounded)

lemma bt_insert_new:
  "bt_get m k = None \<Longrightarrow> set (bt_insert k v m) = insert (k, v) (set m) \<and> length (bt_insert k v m) = Suc (length m)"
  by (induction k v m rule: bt_insert.induct) (auto split: if_splits)

lemma ledger_insert_step:
  assumes inv: "ledger_inv es records" and run: "ledger_insert e records = Inr records'"
  shows "ledger_inv (es @ [e]) records'"
proof -
  obtain r where r: "redact_evidence e = Inr r" and strength: "evd_strength e \<le> 100"
    using run by (auto simp: ledger_insert_def result_simps split: if_splits)
  have "bt_inv records" using inv by (simp add: ledger_inv_def)
  note [simp] = this bt_inv_insert [OF this]
  show ?thesis
  proof (cases "bt_get records (evd_id r)")
    case None
    then have "records' = bt_insert (evd_id r) r records" "length records < MAX_EVIDENCE_RECORDS"
      using run r strength by (auto simp: ledger_insert_def result_simps split: if_splits)
    with inv r strength bt_insert_new [OF None, of r] show ?thesis by (auto simp: ledger_inv_def)
  next
    case (Some existing)
    then have same: "records' = records" "existing = r"
      using run r strength by (auto simp: ledger_insert_def result_simps split: if_splits)
    then have "r \<in> set (map snd records)" using map_of_SomeD [OF Some] by force
    with inv r strength show ?thesis by (auto simp: ledger_inv_def same)
  qed
qed

text \<open>
  The ledger holds redacted evidence only. After any sequence of insertions that all succeed the
  records have distinct ids in order and are exactly the redacted forms of what was inserted, their
  texts and their number are bounded and no strength exceeds 100.
\<close>

theorem ledger_holds_redacted_evidence:
  assumes "try_fold ledger_insert evidences [] = Inr records"
  shows "set (into_records records) = {r. \<exists>e \<in> set evidences. redact_evidence e = Inr r}
    \<and> sorted_wrt (<) (map evd_id (into_records records)) \<and> length (into_records records) \<le> MAX_EVIDENCE_RECORDS
    \<and> (\<forall>r \<in> set (into_records records). evd_strength r \<le> 100
         \<and> length (evd_locator r) \<le> MAX_EVIDENCE_TEXT_BYTES \<and> length (evd_summary r) \<le> MAX_EVIDENCE_TEXT_BYTES
         \<and> length (evd_independent_group r) \<le> MAX_EVIDENCE_TEXT_BYTES)"
proof -
  have "ledger_inv (done @ evidences) records" if "try_fold ledger_insert evidences m = Inr records" "ledger_inv done m" for m "done"
    using that
  proof (induction evidences arbitrary: m "done")
    case (Cons e es)
    then obtain m' where "ledger_insert e m = Inr m'" "try_fold ledger_insert es m' = Inr records"
      by (auto simp: result_simps)
    with Cons.IH [of m' "done @ [e]"] ledger_insert_step [OF Cons.prems(2)] show ?case by simp
  qed simp
  from this [OF assms, of "[]"] have inv: "ledger_inv evidences records" by (simp add: ledger_inv_def)
  have "map evd_id (into_records records) = map fst records"
    using inv by (auto simp: ledger_inv_def into_records_def)
  moreover have "evd_strength r \<le> 100 \<and> length (evd_locator r) \<le> MAX_EVIDENCE_TEXT_BYTES
      \<and> length (evd_summary r) \<le> MAX_EVIDENCE_TEXT_BYTES \<and> length (evd_independent_group r) \<le> MAX_EVIDENCE_TEXT_BYTES"
    if "r \<in> set (into_records records)" for r
  proof -
    have "set (into_records records) = {r. \<exists>e \<in> set evidences. redact_evidence e = Inr r}"
      using inv by (simp add: ledger_inv_def into_records_def)
    with that obtain e where "e \<in> set evidences" "redact_evidence e = Inr r" by auto
    with inv redacted_fields [OF this(2)] show ?thesis by (simp add: ledger_inv_def)
  qed
  moreover have "set (into_records records) = {r. \<exists>e \<in> set evidences. redact_evidence e = Inr r}"
    "length (into_records records) \<le> MAX_EVIDENCE_RECORDS" "sorted_wrt (<) (map fst records)"
    using inv by (simp_all add: ledger_inv_def into_records_def bt_inv_def)
  ultimately show ?thesis by simp
qed

definition sample_evidence :: Evidence where
  "sample_evidence = \<lparr>evd_id = ''e'', evd_source = Scoop, evd_locator = ''shim'', evd_observed_at = 0,
     evd_summary = ''tool'', evd_strength = 60, evd_independent_group = ''scoop''\<rparr>"

lemma sample_evidence_redacted: "redact_evidence sample_evidence = Inr sample_evidence"
proof -
  have "policy_redact_text (with_max_bytes MAX_EVIDENCE_TEXT_BYTES) s = Some s" if "word s" for s
    using that by (intro redact_quiet word_quiet) (simp_all add: with_max_bytes_def MAX_EVIDENCE_TEXT_BYTES_def)
  moreover have "word ''shim''" "word ''tool''" "word ''scoop''" by code_simp+
  ultimately show ?thesis by (simp add: redact_evidence_def redact_evidence_text_def sample_evidence_def)
qed

lemma sample_ledger: "try_fold ledger_insert [sample_evidence, sample_evidence] [] = Inr [(''e'', sample_evidence)]"
  using sample_evidence_redacted by (simp add: ledger_insert_def MAX_EVIDENCE_RECORDS_def) (simp add: sample_evidence_def)

theorem ledger_holds_redacted_evidence_witness:
  "sample_evidence \<in> {r. \<exists>e \<in> set [sample_evidence, sample_evidence]. redact_evidence e = Inr r}"
  using ledger_holds_redacted_evidence [OF sample_ledger, THEN conjunct1, symmetric]
  by (simp only: into_records_def) simp

text \<open>What adapters do to the warnings: a text of their own, or an error they met.\<close>

fun push_report :: "str + ProviderId \<times> ErrorEnvelope \<Rightarrow> WarningLedger \<Rightarrow> WarningLedger" where
  "push_report (Inl w) = push_warning w"
| "push_report (Inr (adapter, e)) = push_error adapter e"

definition warnings_inv :: "WarningLedger \<Rightarrow> bool" where
  "warnings_inv w \<longleftrightarrow> sorted (wl_warnings w) \<and> distinct (wl_warnings w) \<and> length (wl_warnings w) < MAX_WARNINGS
     \<and> list_all (\<lambda>s. \<exists>t. redact_text t = Some s) (wl_warnings w)"

lemma push_warning_inv: "warnings_inv w \<Longrightarrow> warnings_inv (push_warning s w)"
  by (auto simp: warnings_inv_def push_warning_def record_omission_def MAX_WARNINGS_def list_all_iff set_insort_insert
      insort_insert_key_def sorted_insort distinct_insort set_insort_key split: option.splits if_splits)

text \<open>
  Warnings are redacted and bounded. However many warnings and errors the adapters report, at most
  4096 are kept, in order and without repetition, and each is the redacted form of some text or the
  fixed note that others were omitted.
\<close>

theorem warnings_redacted_and_bounded:
  "let ws = into_warnings (fold push_report reports \<lparr>wl_warnings = [], wl_omitted = False\<rparr>)
   in length ws \<le> MAX_WARNINGS \<and> sorted ws \<and> distinct ws
      \<and> list_all (\<lambda>w. w = WARNING_OMISSION \<or> (\<exists>t. redact_text t = Some w)) ws"
proof -
  have "warnings_inv (push_report r w)" if "warnings_inv w" for r w
    using that by (cases r rule: push_report.cases) (simp_all add: push_error_def push_warning_inv Let_def)
  then have fold_inv: "warnings_inv (fold push_report reports w)" if "warnings_inv w" for w
    using that by (induction reports arbitrary: w) simp_all
  have "warnings_inv \<lparr>wl_warnings = [], wl_omitted = False\<rparr>" by (simp add: warnings_inv_def MAX_WARNINGS_def)
  from fold_inv [OF this] show ?thesis
    by (auto simp: warnings_inv_def into_warnings_def Let_def list_all_iff set_insort_insert
        insort_insert_key_def sorted_insort distinct_insort set_insort_key)
qed

end
