(* ===== verification/Sorting.thy ===== *)
theory Sorting
  imports Collections "HOL-Library.Multiset"
begin

text \<open>
  Sorting and removing repetitions, as several components combine them: \<^verbatim>\<open>sort\<close> followed by
  \<^verbatim>\<open>dedup\<close> gives a list that depends only on the set of elements, and so does a \<^verbatim>\<open>BTreeMap\<close> whose
  entries are inserted once.
\<close>

lemma sort_key_map: "sort_key f (map g xs) = map g (sort_key (\<lambda>x. f (g x)) xs)"
proof -
  have "insort_key f (g x) (map g ys) = map g (insort_key (\<lambda>x. f (g x)) x ys)" for x ys by (induction ys) auto
  then show ?thesis by (induction xs) simp_all
qed

lemma remdups_adj_sort: "remdups_adj (sort xs) = sorted_list_of_set (set xs)"
proof -
  have "distinct (remdups_adj ys)" if "sorted ys" for ys :: "'a :: linorder list"
    using that by (induction ys rule: remdups_adj.induct) auto
  then show ?thesis by (intro sorted_distinct_set_unique) (auto simp: sorted_remdups_adj)
qed

lemma map_remdups_adj: "inj_on k (set xs) \<Longrightarrow> map k (remdups_adj xs) = remdups_adj (map k xs)"
  by (induction xs rule: remdups_adj.induct) (auto simp: inj_on_def)

text \<open>\<^verbatim>\<open>dedup_by\<close> on a key keeps the first of neighbours with one key.\<close>

fun dedup_by :: "('a \<Rightarrow> 'k) \<Rightarrow> 'a list \<Rightarrow> 'a list" where
  "dedup_by k [] = []"
| "dedup_by k [x] = [x]"
| "dedup_by k (x # y # xs) = (if k x = k y then dedup_by k (x # xs) else x # dedup_by k (y # xs))"

lemma dedup_by_remdups: "inj_on k (set xs) \<Longrightarrow> dedup_by k xs = remdups_adj xs"
  by (induction k xs rule: dedup_by.induct) (auto simp: inj_on_def)

lemma sort_dedup_keys:
  fixes k :: "'a \<Rightarrow> 'k :: linorder"
  assumes "inj_on k (set xs)"
  shows "map k (remdups_adj (sort_key k xs)) = sorted_list_of_set (k ` set xs)"
proof -
  have "map k (sort_key k xs) = sort (map k xs)" using sort_key_map [of "\<lambda>x. x" k xs] by simp
  with assms show ?thesis by (simp add: map_remdups_adj remdups_adj_sort)
qed

lemma sort_dedup_set:
  fixes k :: "'a \<Rightarrow> 'k :: linorder"
  assumes "set xs = set ys" "inj_on k (set xs)"
  shows "remdups_adj (sort_key k xs) = remdups_adj (sort_key k ys)"
  by (rule map_inj_on [where f = k]) (use assms in \<open>simp_all add: sort_dedup_keys\<close>)

lemma btree_ext:
  assumes inv: "bt_inv m" "bt_inv n" and get: "bt_get m = bt_get n"
  shows "m = n"
proof -
  note d = bt_inv_distinct [OF inv(1)] bt_inv_distinct [OF inv(2)]
  have set: "set m = set n" using get d map_of_inject_set by blast
  have "map fst m = map fst n" using d set by (intro sorted_distinct_set_unique) auto
  moreover have "inj_on fst (set m \<union> set n)" using d(1) set by (simp add: distinct_map)
  ultimately show ?thesis by (rule map_inj_on)
qed

text \<open>An entry that may be given again, but not with another value.\<close>

definition insert_once :: "'e \<Rightarrow> 'k :: linorder \<Rightarrow> 'v \<Rightarrow> ('k, 'v) btree \<Rightarrow> ('e, ('k, 'v) btree) result" where
  "insert_once conflict k v m =
     (case bt_get m k of
        None \<Rightarrow> Inr (bt_insert k v m)
      | Some existing \<Rightarrow> if existing = v then Inr m else Inl conflict)"

lemma insert_once_fold:
  assumes "try_fold (\<lambda>x. insert_once e (key x) x) xs [] = Inr m"
  shows "bt_inv m" "bt_get m k = Some v \<longleftrightarrow> v \<in> set xs \<and> key v = k"
proof -
  have "bt_inv m \<and> (\<forall>k v. bt_get m k = Some v \<longleftrightarrow> v \<in> set xs \<and> key v = k)"
    using assms
  proof (induction xs arbitrary: m rule: rev_induct)
    case (snoc x xs)
    obtain n where n: "try_fold (\<lambda>x. insert_once e (key x) x) xs [] = Inr n" "insert_once e (key x) x n = Inr m"
      using snoc.prems by (auto simp: try_fold_append result_simps)
    from snoc.IH [OF n(1)] have inv: "bt_inv n" and get: "\<And>k v. bt_get n k = Some v \<longleftrightarrow> v \<in> set xs \<and> key v = k" by blast+
    show ?case
    proof (cases "bt_get n (key x)")
      case None
      then have "\<forall>v \<in> set xs. key v \<noteq> key x" using get by (metis option.distinct(1))
      moreover have "m = bt_insert (key x) x n" using n(2) None by (simp add: insert_once_def)
      ultimately show ?thesis using inv get by (auto simp: bt_inv_insert bt_get_insert)
    next
      case (Some y)
      then have "y = x" "m = n" using n(2) by (auto simp: insert_once_def split: if_splits)
      moreover have "x \<in> set xs" using get [of "key x" y] Some \<open>y = x\<close> by simp
      ultimately show ?thesis using inv get by auto
    qed
  qed simp
  then show "bt_inv m" "bt_get m k = Some v \<longleftrightarrow> v \<in> set xs \<and> key v = k" by blast+
qed

lemma insert_once_set:
  assumes "try_fold (\<lambda>x. insert_once e (key x) x) xs [] = Inr m" "try_fold (\<lambda>x. insert_once e (key x) x) ys [] = Inr n"
    and "set xs = set ys"
  shows "m = n"
proof (rule btree_ext)
  have "bt_get m k = Some v \<longleftrightarrow> bt_get n k = Some v" for k v
    using insert_once_fold(2) [OF assms(1)] insert_once_fold(2) [OF assms(2)] assms(3) by simp
  then show "bt_get m = bt_get n" by (metis option.exhaust ext)
qed (rule insert_once_fold(1) [OF assms(1)] insert_once_fold(1) [OF assms(2)])+

end
