(* ===== verification/DedupGraph.thy ===== *)
theory DedupGraph
  imports Dedup DiscoveryEvidence Sorting
begin

text \<open>
  The rest of \<^verbatim>\<open>crates/reforge-discovery/src/dedup.rs\<close>: the merge of the members of a group into one
  component, the merge of dependency edges over the new ids, and \<open>deduplicate_graph\<close>, which checks
  its bounds, groups, merges and rewrites. The members of a group are passed as components; the
  index that selects them is an \<^const>\<open>expect\<close>, so that an index out of range would be a panic. The
  serializer of verification rules, the serializer of identity tuples and BLAKE3 are parameters.
\<close>

definition MAX_COMPONENTS :: nat where "MAX_COMPONENTS = 250000"
definition MAX_EDGES :: nat where "MAX_EDGES = 1000000"
definition MAX_FACT_BYTES :: nat where "MAX_FACT_BYTES = 2 * 1024"

definition graph_error :: "str \<Rightarrow> ErrorEnvelope" where
  "graph_error detail =
     with_technical_detail detail (ErrorEnvelope_new SchemaInvalid ''Discovery graph failed validation'')"

subsection \<open>Orders\<close>

fun component_kind_order :: "ComponentKind \<Rightarrow> nat" where
  "component_kind_order Application = 0"
| "component_kind_order Package = 1"
| "component_kind_order Runtime = 2"
| "component_kind_order Tool = 3"
| "component_kind_order ComponentKind.Harness = 4"
| "component_kind_order McpServer = 5"
| "component_kind_order Skill = 6"
| "component_kind_order Agent = 7"
| "component_kind_order Hook = 8"
| "component_kind_order Plugin = 9"
| "component_kind_order ComponentKind.Browser = 10"
| "component_kind_order BrowserProfile = 11"
| "component_kind_order ComponentKind.Editor = 12"
| "component_kind_order Extension = 13"
| "component_kind_order Configuration = 14"
| "component_kind_order DataArtifact = 15"
| "component_kind_order ComponentKind.SecretReference = 16"
| "component_kind_order EnvironmentVariable = 17"
| "component_kind_order SystemFeature = 18"
| "component_kind_order Service = 19"
| "component_kind_order ScheduledTask = 20"
| "component_kind_order Shell = 21"
| "component_kind_order ComponentKind.PortableBinary = 22"
| "component_kind_order WslDistribution = 23"
| "component_kind_order DockerContext = 24"
| "component_kind_order DockerImage = 25"
| "component_kind_order DockerVolume = 26"
| "component_kind_order ComponentKind.Unknown = 27"

definition component_order :: "Component \<Rightarrow> ComponentId \<times> nat \<times> str" where
  "component_order c = (c_id c, component_kind_order (c_kind c), c_display_name c)"

fun identity_quality_order :: "IdentityQuality \<Rightarrow> nat" where
  "identity_quality_order IdentityQuality.Provider = 5"
| "identity_quality_order IdentityQuality.PackageFamily = 4"
| "identity_quality_order IdentityQuality.SignedProduct = 3"
| "identity_quality_order IdentityQuality.Product = 2"
| "identity_quality_order IdentityQuality.Local = 1"

fun dependency_kind_order :: "DependencyKind \<Rightarrow> nat" where
  "dependency_kind_order RequiredRuntime = 0"
| "dependency_kind_order RequiredPackage = 1"
| "dependency_kind_order InstalledThrough = 2"
| "dependency_kind_order Configures = 3"
| "dependency_kind_order UsesSecret = 4"
| "dependency_kind_order OptionalFeature = 5"
| "dependency_kind_order ProvidesExecutable = 6"
| "dependency_kind_order Contains = 7"
| "dependency_kind_order RestoresBefore = 8"
| "dependency_kind_order VerifiesWith = 9"
| "dependency_kind_order RelatedOnly = 10"

definition edge_order :: "DependencyEdge \<Rightarrow> ComponentId \<times> ComponentId \<times> nat \<times> bool \<times> EvidenceId list" where
  "edge_order e = (edge_from e, edge_to e, dependency_kind_order (edge_kind e), \<not> edge_required e, edge_evidence e)"

subsection \<open>Merging facts\<close>

text \<open>\<^verbatim>\<open>entry(key).or_insert(value)\<close>\<close>

definition bt_or_insert :: "'k :: linorder \<Rightarrow> 'v \<Rightarrow> ('k, 'v) btree \<Rightarrow> ('k, 'v) btree" where
  "bt_or_insert k v m = (case bt_get m k of None \<Rightarrow> bt_insert k v m | Some _ \<Rightarrow> m)"

definition unique_value :: "'a option list \<Rightarrow> 'a option" where
  "unique_value vs = (case remdups (List.map_filter (\<lambda>v. v) vs) of [v] \<Rightarrow> Some v | _ \<Rightarrow> None)"

definition or_unique :: "'a option \<Rightarrow> 'a option list \<Rightarrow> 'a option" where
  "or_unique v vs = (case v of None \<Rightarrow> unique_value vs | Some _ \<Rightarrow> v)"

definition merge_identity :: "Component list \<Rightarrow> Identity \<Rightarrow> Identity" where
  "merge_identity members base =
     (let vs = (\<lambda>f. map (\<lambda>c. f (c_identity c)) members) in
      base\<lparr>idn_provider_package := or_unique (idn_provider_package base) (map (\<lambda>c. idn_provider_package (c_identity c)) members),
           idn_provider_source := or_unique (idn_provider_source base) (vs idn_provider_source),
           idn_package_family := or_unique (idn_package_family base) (vs idn_package_family),
           idn_product_name := or_unique (idn_product_name base) (vs idn_product_name),
           idn_executable_name := or_unique (idn_executable_name base) (vs idn_executable_name),
           idn_publisher := or_unique (idn_publisher base) (vs idn_publisher),
           idn_executable_hash := or_unique (idn_executable_hash base) (vs idn_executable_hash),
           idn_install_role := or_unique (idn_install_role base) (vs idn_install_role)\<rparr>)"

definition collect_publisher :: "Component \<Rightarrow> (str, str option) btree \<Rightarrow> (str, str option) btree" where
  "collect_publisher c m =
     (case c_publisher c of
        None \<Rightarrow> m
      | Some publisher \<Rightarrow> bt_or_insert (pub_name publisher) (pub_certificate_thumbprint publisher) m)"

definition merge_publisher :: "Component list \<Rightarrow> Publisher option \<Rightarrow> Publisher option" where
  "merge_publisher members base =
     (if base \<noteq> None then base
      else case fold collect_publisher members [] of
        [(name, thumbprint)] \<Rightarrow> Some \<lparr>pub_name = name, pub_certificate_thumbprint = thumbprint\<rparr>
      | _ \<Rightarrow> None)"

text \<open>\<^verbatim>\<open>min_by\<close> returns the first of the least elements, \<^verbatim>\<open>max_by\<close> the last of the greatest.\<close>

fun min_by :: "('a \<Rightarrow> 'k :: linorder) \<Rightarrow> 'a list \<Rightarrow> 'a option" where
  "min_by key [] = None"
| "min_by key (x # xs) = Some (fold (\<lambda>y best. if key y < key best then y else best) xs x)"

fun max_by :: "('a \<Rightarrow> 'a \<Rightarrow> bool) \<Rightarrow> 'a list \<Rightarrow> 'a option" where
  "max_by le [] = None"
| "max_by le (x # xs) = Some (fold (\<lambda>y best. if le best y then y else best) xs x)"

definition merge_version :: "Component list \<Rightarrow> VersionValue option \<Rightarrow> VersionValue option" where
  "merge_version members base =
     (case base of
        Some v \<Rightarrow> Some v
      | None \<Rightarrow> min_by (\<lambda>v. (ver_raw v, ver_normalized v)) (List.map_filter c_version members))"

definition add_strategy :: "RestoreStrategy \<Rightarrow> RestoreDescriptor \<Rightarrow> RestoreDescriptor" where
  "add_strategy strategy merged =
     (if strategy \<noteq> rd_primary merged \<and> strategy \<notin> set (rd_alternatives merged)
      then merged\<lparr>rd_alternatives := rd_alternatives merged @ [strategy]\<rparr> else merged)"

definition add_rationale :: "str \<Rightarrow> RestoreDescriptor \<Rightarrow> RestoreDescriptor" where
  "add_rationale rationale merged =
     (if rationale \<in> set (rd_rationale merged) then merged
      else merged\<lparr>rd_rationale := rd_rationale merged @ [rationale]\<rparr>)"

definition add_restore :: "Component \<Rightarrow> RestoreDescriptor \<Rightarrow> RestoreDescriptor" where
  "add_restore c merged =
     (let restore = c_restore c;
          merged = (if rd_requires_elevation restore then merged\<lparr>rd_requires_elevation := True\<rparr> else merged);
          merged = (if rd_requires_user_action restore then merged\<lparr>rd_requires_user_action := True\<rparr> else merged);
          merged = fold add_strategy (rd_alternatives restore @ [rd_primary restore]) merged
      in fold add_rationale (rd_rationale restore) merged)"

definition merge_restore :: "Component list \<Rightarrow> RestoreDescriptor \<Rightarrow> RestoreDescriptor" where
  "merge_restore members base = fold add_restore members base"

definition option_or :: "'a option \<Rightarrow> 'a option \<Rightarrow> 'a option" where
  "option_or a b = (case a of None \<Rightarrow> b | Some _ \<Rightarrow> a)"

definition add_compatibility :: "Component \<Rightarrow> Compatibility \<Rightarrow> Compatibility" where
  "add_compatibility c merged =
     (let compatibility = c_compatibility c in
      merged\<lparr>cmp_required_os := option_or (cmp_required_os merged) (cmp_required_os compatibility),
             cmp_required_architecture := option_or (cmp_required_architecture merged) (cmp_required_architecture compatibility),
             cmp_requires_provider := option_or (cmp_requires_provider merged) (cmp_requires_provider compatibility),
             cmp_requires_runtime := option_or (cmp_requires_runtime merged) (cmp_requires_runtime compatibility),
             cmp_requires_elevation := cmp_requires_elevation merged \<or> cmp_requires_elevation compatibility,
             cmp_requires_wsl := cmp_requires_wsl merged \<or> cmp_requires_wsl compatibility,
             cmp_requires_docker := cmp_requires_docker merged \<or> cmp_requires_docker compatibility\<rparr>)"

definition merge_compatibility :: "Component list \<Rightarrow> Compatibility \<Rightarrow> Compatibility" where
  "merge_compatibility members base = fold add_compatibility members base"

definition add_selection :: "Component \<Rightarrow> SelectionMetadata \<Rightarrow> SelectionMetadata" where
  "add_selection c merged =
     (let selection = c_selection c in
      merged\<lparr>sm_recommended := sm_recommended merged \<or> sm_recommended selection,
             sm_selected_by_default := sm_selected_by_default merged \<or> sm_selected_by_default selection,
             sm_sensitive := sm_sensitive merged \<or> sm_sensitive selection,
             sm_score := max (sm_score merged) (sm_score selection),
             sm_size_bytes := max (sm_size_bytes merged) (sm_size_bytes selection)\<rparr>)"

definition merge_selection :: "Component list \<Rightarrow> SelectionMetadata \<Rightarrow> SelectionMetadata" where
  "merge_selection members base = fold add_selection members base"

definition merge_artifacts :: "Component list \<Rightarrow> ArtifactRef list" where
  "merge_artifacts members =
     map snd (fold (\<lambda>artifact. bt_or_insert (art_id artifact) artifact) (concat (map c_artifacts members)) [])"

definition add_rule ::
  "(VerificationRule \<Rightarrow> str option) \<Rightarrow> VerificationRule \<Rightarrow> (str, VerificationRule) btree
   \<Rightarrow> (ErrorEnvelope, (str, VerificationRule) btree) result" where
  "add_rule rule_text rule rules =
     try_bind (ok_or (graph_error ''verification rule could not be canonicalized'') (rule_text rule)) (\<lambda>key.
     Inr (bt_or_insert key rule rules))"

definition merge_verification ::
  "(VerificationRule \<Rightarrow> str option) \<Rightarrow> Component list \<Rightarrow> (ErrorEnvelope, VerificationRule list) result" where
  "merge_verification rule_text members =
     try_bind (try_fold (add_rule rule_text) (concat (map c_verification members)) []) (\<lambda>rules. Inr (map snd rules))"

definition add_reference :: "EvidenceRef \<Rightarrow> (EvidenceId, nat) btree \<Rightarrow> (EvidenceId, nat) btree" where
  "add_reference reference m =
     bt_insert (evr_id reference)
       (case bt_get m (evr_id reference) of
          None \<Rightarrow> evr_strength reference
        | Some strength \<Rightarrow> max strength (evr_strength reference)) m"

definition merge_evidence_refs :: "Component list \<Rightarrow> EvidenceRef list" where
  "merge_evidence_refs members =
     map (\<lambda>(i, strength). \<lparr>evr_id = i, evr_strength = strength\<rparr>)
       (fold add_reference (concat (map c_evidence members)) [])"

subsection \<open>Conflicting facts\<close>

record Conflicts =
  cf_publisher :: "str list"
  cf_version :: "str list"
  cf_source :: "str list"

definition has_any :: "Conflicts \<Rightarrow> bool" where
  "has_any conflicts \<longleftrightarrow>
     length (cf_publisher conflicts) > 1 \<or> length (cf_version conflicts) > 1 \<or> length (cf_source conflicts) > 1"

definition insert_fact :: "str option \<Rightarrow> str list \<Rightarrow> str list" where
  "insert_fact fct facts = (case fct of None \<Rightarrow> facts | Some f \<Rightarrow> insort_insert f facts)"

definition collect_conflict :: "Component \<Rightarrow> Conflicts \<Rightarrow> Conflicts" where
  "collect_conflict component conflicts =
     \<lparr>cf_publisher =
        insert_fact (normalized (idn_publisher (c_identity component)))
          (insert_fact (normalized (map_option pub_name (c_publisher component))) (cf_publisher conflicts)),
      cf_version =
        insert_fact (Option.bind (c_version component) (\<lambda>version.
            normalized (Some (case ver_normalized version of Some n \<Rightarrow> n | None \<Rightarrow> ver_raw version))))
          (cf_version conflicts),
      cf_source =
        insert_fact (Option.bind (c_provenance component) prov_source_url)
          (insert_fact (normalized (idn_provider_source (c_identity component))) (cf_source conflicts))\<rparr>"

definition collect_conflicts :: "Component list \<Rightarrow> Conflicts" where
  "collect_conflicts members = fold collect_conflict members \<lparr>cf_publisher = [], cf_version = [], cf_source = []\<rparr>"

definition safe_facts :: "str list \<Rightarrow> str list" where
  "safe_facts facts =
     map (\<lambda>v. case policy_redact_text (with_max_bytes MAX_FACT_BYTES) v of Some s \<Rightarrow> s | None \<Rightarrow> ''<REDACTED>'') facts"

definition json_strings :: "str list \<Rightarrow> Value" where
  "json_strings ss = Array (map String ss)"

definition conflict_metadata :: "Conflicts \<Rightarrow> (str, Value) btree" where
  "conflict_metadata conflicts =
     (let add = (\<lambda>key facts m. if length facts > 1 then bt_insert key (json_strings (safe_facts facts)) m else m)
      in add ''source'' (cf_source conflicts)
           (add ''version'' (cf_version conflicts) (add ''publisher'' (cf_publisher conflicts) [])))"

definition append_merge_metadata ::
  "Component list \<Rightarrow> Conflicts \<Rightarrow> EvidenceConfidence \<Rightarrow> Component \<Rightarrow> Component" where
  "append_merge_metadata members conflicts confidence component =
     (let metadata = bt_insert ''member_component_ids'' (json_strings (map c_id members)) [];
          metadata = bt_insert ''confidence_score'' (Number (int (ec_score confidence))) metadata;
          metadata = bt_insert ''independent_evidence_groups'' (Number (int (ec_independent_groups confidence))) metadata;
          metadata = bt_insert ''unverified'' (Bool (ec_unverified confidence)) metadata;
          metadata = bt_insert ''confidence_explanation'' (json_strings (ec_explanations confidence)) metadata;
          metadata = (if conflict_metadata conflicts \<noteq> []
                      then bt_insert ''conflicts'' (Object (conflict_metadata conflicts)) metadata else metadata)
      in component\<lparr>c_extensions := bt_insert ''reforge_dedup'' (Object metadata) (c_extensions component)\<rparr>)"

subsection \<open>Merging a group\<close>

definition base_le :: "Component \<Rightarrow> Component \<Rightarrow> bool" where
  "base_le l r \<longleftrightarrow>
     (let ql = identity_quality_order (idn_identity_quality (c_identity l));
          qr = identity_quality_order (idn_identity_quality (c_identity r))
      in ql < qr \<or> ql = qr \<and> c_id r \<le> c_id l)"

definition merged_name :: "Component list \<Rightarrow> str \<Rightarrow> str" where
  "merged_name members name =
     (if name = []
      then case min_by (\<lambda>n. n) (filter (\<lambda>n. n \<noteq> []) (map c_display_name members)) of
             None \<Rightarrow> ''Unknown component'' | Some n \<Rightarrow> n
      else name)"

definition canonical_component ::
  "(CanonicalIdentityTuple \<Rightarrow> bytes option) \<Rightarrow> (bytes \<Rightarrow> bytes) \<Rightarrow> Component \<Rightarrow> Component \<Rightarrow> Component" where
  "canonical_component to_vec blake3 base merged =
     (case ComponentId_from_identity to_vec blake3 (c_identity merged) (c_publisher merged) of
        Inr canonical \<Rightarrow>
          merged\<lparr>c_id := ci_id canonical, c_identity := (c_identity merged)\<lparr>idn_identity_quality := ci_quality canonical\<rparr>\<rparr>
      | Inl _ \<Rightarrow> merged\<lparr>c_identity := c_identity base, c_publisher := c_publisher base, c_id := c_id base\<rparr>)"

definition merge_component ::
  "(VerificationRule \<Rightarrow> str option) \<Rightarrow> (CanonicalIdentityTuple \<Rightarrow> bytes option) \<Rightarrow> (bytes \<Rightarrow> bytes)
   \<Rightarrow> evidence_map \<Rightarrow> Component list \<Rightarrow> (ErrorEnvelope, Component) result" where
  "merge_component rule_text to_vec blake3 records members =
     try_bind (ok_or (graph_error ''component group was unexpectedly empty'') (max_by base_le members)) (\<lambda>base.
     let identity_unverified = list_ex (\<lambda>c. identity_keys_without_fallback c = []) members;
         conflicts = collect_conflicts members;
         merged = base\<lparr>c_identity := merge_identity members (c_identity base),
                       c_publisher := merge_publisher members (c_publisher base),
                       c_version := merge_version members (c_version base),
                       c_provenance := (case c_provenance base of
                          Some p \<Rightarrow> Some p
                        | None \<Rightarrow> (case List.map_filter c_provenance members of [] \<Rightarrow> None | p # _ \<Rightarrow> Some p)),
                       c_display_name := merged_name members (c_display_name base),
                       c_restore := merge_restore members (c_restore base),
                       c_compatibility := merge_compatibility members (c_compatibility base),
                       c_selection := merge_selection members (c_selection base),
                       c_artifacts := merge_artifacts members\<rparr>
     in try_bind (merge_verification rule_text members) (\<lambda>rules.
        let merged = merged\<lparr>c_verification := rules, c_evidence := merge_evidence_refs members,
                            c_extensions := c_extensions base\<rparr>;
            merged = canonical_component to_vec blake3 base merged;
            confidence = confidence_for_evidence (map evr_id (c_evidence merged)) records identity_unverified (has_any conflicts);
            merged = merged\<lparr>c_confidence := ec_confidence confidence\<rparr>
        in Inr (append_merge_metadata members conflicts confidence merged)))"

subsection \<open>Merging edges\<close>

type_synonym edge_key = "ComponentId \<times> ComponentId \<times> nat \<times> bool"

definition EdgeKey :: "DependencyEdge \<Rightarrow> edge_key" where
  "EdgeKey e = (edge_from e, edge_to e, dependency_kind_order (edge_kind e), edge_required e)"

definition remap :: "(ComponentId, ComponentId) btree \<Rightarrow> ComponentId \<Rightarrow> ComponentId" where
  "remap component_mapping i = (case bt_get component_mapping i of None \<Rightarrow> i | Some j \<Rightarrow> j)"

definition remap_edge :: "(ComponentId, ComponentId) btree \<Rightarrow> DependencyEdge \<Rightarrow> DependencyEdge" where
  "remap_edge component_mapping e =
     e\<lparr>edge_from := remap component_mapping (edge_from e), edge_to := remap component_mapping (edge_to e)\<rparr>"

definition merge_edge :: "DependencyEdge \<Rightarrow> (edge_key, DependencyEdge) btree \<Rightarrow> (edge_key, DependencyEdge) btree" where
  "merge_edge e merged =
     (case bt_get merged (EdgeKey e) of
        Some existing \<Rightarrow>
          bt_insert (EdgeKey e) (existing\<lparr>edge_evidence := remdups_adj (sort (edge_evidence existing @ edge_evidence e))\<rparr>) merged
      | None \<Rightarrow> bt_insert (EdgeKey e) (e\<lparr>edge_evidence := remdups_adj (sort (edge_evidence e))\<rparr>) merged)"

definition edge_with_confidence :: "evidence_map \<Rightarrow> DependencyEdge \<Rightarrow> DependencyEdge" where
  "edge_with_confidence records e =
     e\<lparr>edge_confidence := ec_confidence (confidence_for_evidence (edge_evidence e) records False False)\<rparr>"

definition merge_edges ::
  "Component list \<Rightarrow> DependencyEdge list \<Rightarrow> (ComponentId, ComponentId) btree \<Rightarrow> evidence_map \<Rightarrow> DependencyEdge list" where
  "merge_edges components edges component_mapping records =
     (let all = edges @ concat (map c_dependencies components)
      in map (edge_with_confidence records)
           (map snd (fold (\<lambda>e. merge_edge (remap_edge component_mapping e)) all [])))"

subsection \<open>The whole graph\<close>

definition add_record :: "Evidence \<Rightarrow> evidence_map \<Rightarrow> (ErrorEnvelope, evidence_map) result" where
  "add_record record records =
     (if evd_strength record > 100 then Inl (graph_error ''evidence strength exceeds 100'')
      else if (case bt_get records (evd_id record) of None \<Rightarrow> False | Some existing \<Rightarrow> existing \<noteq> record)
      then Inl (graph_error ''evidence ID was reused for conflicting records'')
      else Inr (bt_insert (evd_id record) record records))"

definition evidence_records :: "Evidence list \<Rightarrow> (ErrorEnvelope, evidence_map) result" where
  "evidence_records evidence = try_fold add_record evidence []"

definition validate_graph ::
  "Component list \<Rightarrow> DependencyEdge list \<Rightarrow> Evidence list \<Rightarrow> (ErrorEnvelope, evidence_map) result" where
  "validate_graph components edges evidence =
     (if length components > MAX_COMPONENTS then Inl (graph_error ''component graph exceeds the reviewed bound'')
      else
      try_bind (try_fold (\<lambda>c count. ok_or (graph_error ''dependency graph edge count overflow'')
                            (checked_add_u64 count (length (c_dependencies c)))) components 0) (\<lambda>embedded_edges.
      try_bind (ok_or (graph_error ''dependency graph edge count overflow'')
                  (checked_add_u64 (length edges) embedded_edges)) (\<lambda>total_edges.
      if total_edges > MAX_EDGES then Inl (graph_error ''dependency graph exceeds the reviewed bound'')
      else
      try_bind (evidence_records evidence) (\<lambda>records.
      if list_ex (\<lambda>c. list_ex (\<lambda>reference. evr_strength reference > 100) (c_evidence c)) components
      then Inl (graph_error ''component evidence strength exceeds 100'')
      else if list_ex (\<lambda>e. list_ex (\<lambda>i. case bt_get records i of None \<Rightarrow> False | Some record \<Rightarrow> evd_strength record > 100)
                     (edge_evidence e)) (edges @ concat (map c_dependencies components))
      then Inl (graph_error ''edge evidence strength exceeds 100'')
      else Inr records))))"

text \<open>One group: its component, and the entries of the mapping.\<close>

definition merge_group ::
  "(VerificationRule \<Rightarrow> str option) \<Rightarrow> (CanonicalIdentityTuple \<Rightarrow> bytes option) \<Rightarrow> (bytes \<Rightarrow> bytes)
   \<Rightarrow> evidence_map \<Rightarrow> Component list \<Rightarrow> nat list
   \<Rightarrow> (ComponentId, ComponentId) btree \<times> Component list
   \<Rightarrow> (ErrorEnvelope abort, (ComponentId, ComponentId) btree \<times> Component list) result" where
  "merge_group rule_text to_vec blake3 records components ms = (\<lambda>(component_mapping, normalized_components).
     try_bind (try_map (\<lambda>i. expect (if i < length components then Some (components ! i) else None)) ms) (\<lambda>members.
     try_bind (lift_fail (merge_component rule_text to_vec blake3 records members)) (\<lambda>merged.
     Inr (fold (\<lambda>c. bt_insert (c_id c) (c_id merged)) members component_mapping,
          normalized_components @ [merged]))))"

definition with_dependencies :: "DependencyEdge list \<Rightarrow> Component \<Rightarrow> Component" where
  "with_dependencies edges c = c\<lparr>c_dependencies := filter (\<lambda>e. edge_from e = c_id c) edges\<rparr>"

definition deduplicate_graph ::
  "(VerificationRule \<Rightarrow> str option) \<Rightarrow> (CanonicalIdentityTuple \<Rightarrow> bytes option) \<Rightarrow> (bytes \<Rightarrow> bytes)
   \<Rightarrow> Component list \<Rightarrow> DependencyEdge list \<Rightarrow> Evidence list \<Rightarrow> (ErrorEnvelope abort, PackageGraph) result" where
  "deduplicate_graph rule_text to_vec blake3 components edges evidence =
     try_bind (lift_fail (validate_graph components edges evidence)) (\<lambda>records.
     let components = sort_key component_order components in
     try_bind (expect (build_groups components)) (\<lambda>groups.
     try_bind (try_fold (merge_group rule_text to_vec blake3 records components) groups ([], []))
       (\<lambda>(component_mapping, normalized_components).
     let normalized_edges = sort_key edge_order (merge_edges components edges component_mapping records);
         normalized_components = sort_key c_id normalized_components
     in Inr \<lparr>g_components = map (with_dependencies normalized_edges) normalized_components,
             g_edges = normalized_edges\<rparr>)))"

subsection \<open>When the graph is accepted\<close>

definition evidence_ok :: "Evidence list \<Rightarrow> bool" where
  "evidence_ok evidence \<longleftrightarrow> (\<forall>r \<in> set evidence. evd_strength r \<le> 100)
     \<and> (\<forall>r \<in> set evidence. \<forall>s \<in> set evidence. evd_id r = evd_id s \<longrightarrow> r = s)"

lemma graph_error_code [simp, error_code_simps]: "ee_code (graph_error d) = SchemaInvalid"
  by (simp add: graph_error_def)

text \<open>The records of consistent evidence are its map.\<close>

lemma evidence_records_spec:
  "case evidence_records evidence of
     Inr records \<Rightarrow> evidence_ok evidence \<and> bt_inv records
       \<and> (\<forall>i r. bt_get records i = Some r \<longleftrightarrow> r \<in> set evidence \<and> evd_id r = i)
   | Inl e \<Rightarrow> \<not> evidence_ok evidence \<and> ee_code e = SchemaInvalid"
proof (induction evidence rule: rev_induct)
  case (snoc r evidence)
  show ?case
  proof (cases "evidence_records evidence")
    case (Inl e)
    with snoc show ?thesis by (auto simp: evidence_records_def try_fold_append evidence_ok_def)
  next
    case (Inr records)
    with snoc have inv: "evidence_ok evidence" "bt_inv records"
      and get: "\<forall>i r. bt_get records i = Some r \<longleftrightarrow> r \<in> set evidence \<and> evd_id r = i" by auto
    have run: "evidence_records (evidence @ [r]) = add_record r records"
      using Inr by (cases "add_record r records") (simp_all add: evidence_records_def try_fold_append)
    show ?thesis
    proof (cases "bt_get records (evd_id r)")
      case None
      with get have new: "\<forall>s \<in> set evidence. evd_id s \<noteq> evd_id r" by (metis option.distinct(1))
      with run inv get None show ?thesis
        by (auto simp: add_record_def evidence_ok_def bt_inv_insert bt_get_insert)
    next
      case (Some s)
      with get have s: "s \<in> set evidence" "evd_id s = evd_id r" by auto
      have run': "evidence_records (evidence @ [r]) =
          (if evd_strength r > 100 then Inl (graph_error ''evidence strength exceeds 100'')
           else if s \<noteq> r then Inl (graph_error ''evidence ID was reused for conflicting records'')
           else Inr (bt_insert (evd_id r) r records))"
        unfolding run by (simp add: add_record_def Some)
      from s inv(1) have same: "evidence_ok (evidence @ [r]) \<longleftrightarrow> evd_strength r \<le> 100 \<and> s = r"
        by (auto simp: evidence_ok_def)
      show ?thesis
      proof (cases "evd_strength r \<le> 100 \<and> s = r")
        case True
        then have "\<forall>q \<in> set evidence. evd_id q = evd_id r \<longrightarrow> q = r" using s inv(1) unfolding evidence_ok_def by metis
        with True s inv get show ?thesis by (auto simp: run' same bt_inv_insert bt_get_insert)
      qed (simp add: run' same)
    qed
  qed
qed (simp add: evidence_records_def evidence_ok_def)

lemma count_edges:
  assumes "k \<le> u64_max"
  shows "try_fold (\<lambda>c count. ok_or e (checked_add_u64 count (length (c_dependencies c)))) cs k =
     (if k + (\<Sum>c \<leftarrow> cs. length (c_dependencies c)) \<le> u64_max
      then Inr (k + (\<Sum>c \<leftarrow> cs. length (c_dependencies c))) else Inl e)"
  using assms
proof (induction cs arbitrary: k)
  case (Cons c cs)
  show ?case
  proof (cases "k + length (c_dependencies c) \<le> u64_max")
    case True
    then show ?thesis using Cons.IH [of "k + length (c_dependencies c)"] by (simp add: checked_add_u64_def add.assoc)
  qed (simp add: checked_add_u64_def)
qed simp

text \<open>The inputs of \<open>deduplicate_graph\<close> that pass its checks.\<close>

definition graph_within_bounds :: "Component list \<Rightarrow> DependencyEdge list \<Rightarrow> Evidence list \<Rightarrow> bool" where
  "graph_within_bounds components edges evidence \<longleftrightarrow>
     length components \<le> MAX_COMPONENTS
     \<and> length edges + length (concat (map c_dependencies components)) \<le> MAX_EDGES
     \<and> evidence_ok evidence
     \<and> (\<forall>c \<in> set components. \<forall>reference \<in> set (c_evidence c). evr_strength reference \<le> 100)"

lemma validate_graph_spec:
  "case validate_graph components edges evidence of
     Inr records \<Rightarrow> graph_within_bounds components edges evidence \<and> evidence_records evidence = Inr records
   | Inl e \<Rightarrow> \<not> graph_within_bounds components edges evidence \<and> ee_code e = SchemaInvalid"
proof -
  define n where "n = (\<Sum>c \<leftarrow> components. length (c_dependencies c))"
  have len: "length (concat (map c_dependencies components)) = n" by (simp add: n_def length_concat comp_def)
  have count: "try_fold (\<lambda>c count. ok_or e (checked_add_u64 count (length (c_dependencies c)))) components 0 =
      (if n \<le> u64_max then Inr n else Inl e)" for e
    using count_edges [of 0 e components] unfolding n_def by (simp split: if_splits)
  have total: "checked_add_u64 (length edges) n = (if length edges + n \<le> u64_max then Some (length edges + n) else None)"
    by (rule checked_add_u64_def)
  have big: "MAX_EDGES < u64_max" by (simp add: MAX_EDGES_def u64_max_def)
  show ?thesis
  proof (cases "length components \<le> MAX_COMPONENTS \<and> length edges + n \<le> MAX_EDGES")
    case False
    then show ?thesis
      by (auto simp: validate_graph_def graph_within_bounds_def len count total not_le)
  next
    case True
    then have run: "validate_graph components edges evidence = try_bind (evidence_records evidence) (\<lambda>records.
      if list_ex (\<lambda>c. list_ex (\<lambda>reference. evr_strength reference > 100) (c_evidence c)) components
      then Inl (graph_error ''component evidence strength exceeds 100'')
      else if list_ex (\<lambda>e. list_ex (\<lambda>i. case bt_get records i of None \<Rightarrow> False | Some record \<Rightarrow> evd_strength record > 100)
                     (edge_evidence e)) (edges @ concat (map c_dependencies components))
      then Inl (graph_error ''edge evidence strength exceeds 100'')
      else Inr records)"
      using big by (simp add: validate_graph_def count total)
    show ?thesis
    proof (cases "evidence_records evidence")
      case (Inl e)
      with evidence_records_spec [of evidence] show ?thesis by (simp add: run graph_within_bounds_def)
    next
      case (Inr records)
      with evidence_records_spec [of evidence] have ok: "evidence_ok evidence"
        and get: "\<forall>i r. bt_get records i = Some r \<longleftrightarrow> r \<in> set evidence \<and> evd_id r = i" by auto
      have "\<not> list_ex (\<lambda>i. case bt_get records i of None \<Rightarrow> False | Some record \<Rightarrow> evd_strength record > 100) is" for "is"
        using ok get by (auto simp: list_ex_iff evidence_ok_def split: option.splits)
      then have edges: "\<not> list_ex (\<lambda>e. list_ex (\<lambda>i. case bt_get records i of None \<Rightarrow> False | Some record \<Rightarrow> evd_strength record > 100)
                     (edge_evidence e)) es" for es by (simp add: list_ex_iff)
      have "list_ex (\<lambda>c. list_ex (\<lambda>reference. evr_strength reference > 100) (c_evidence c)) components
          \<longleftrightarrow> \<not> (\<forall>c \<in> set components. \<forall>reference \<in> set (c_evidence c). evr_strength reference \<le> 100)"
        by (auto simp: list_ex_iff not_le)
      with True ok show ?thesis by (simp add: run Inr edges graph_within_bounds_def len)
    qed
  qed
qed

subsection \<open>What merging keeps\<close>

text \<open>A map of the first values under their keys.\<close>

lemma fold_or_insert:
  fixes key :: "'a \<Rightarrow> 'k :: linorder"
  defines "build \<equiv> \<lambda>xs. fold (\<lambda>x. bt_or_insert (key x) x) xs []"
  shows "bt_inv (build xs) \<and> (\<forall>k v. bt_get (build xs) k = Some v \<longrightarrow> v \<in> set xs \<and> key v = k)
    \<and> dom (bt_get (build xs)) = key ` set xs"
proof (induction xs rule: rev_induct)
  case (snoc x xs)
  let ?m = "build xs"
  have step: "build (xs @ [x]) = bt_or_insert (key x) x ?m" by (simp add: build_def)
  show ?case
  proof (cases "bt_get ?m (key x)")
    case None
    then have new: "build (xs @ [x]) = bt_insert (key x) x ?m" by (simp add: step bt_or_insert_def)
    show ?thesis unfolding new using snoc
      by (intro conjI) (simp add: bt_inv_insert, simp add: bt_get_insert, simp only: bt_get_insert dom_fun_upd, simp)
  next
    case (Some y)
    then have "key x \<in> key ` set xs" using snoc by blast
    with snoc Some show ?thesis by (auto simp: step bt_or_insert_def)
  qed
qed (simp add: build_def)

lemma btree_values:
  assumes "bt_inv m"
  shows "v \<in> set (map snd m) \<longleftrightarrow> (\<exists>k. bt_get m k = Some v)"
  using bt_inv_distinct [OF assms] by force

text \<open>A list that keeps each key once: distinct keys, values from the list, and every key of it.\<close>

definition firsts_of :: "('a \<Rightarrow> 'k) \<Rightarrow> 'a list \<Rightarrow> 'a list \<Rightarrow> bool" where
  "firsts_of key xs ys \<longleftrightarrow> distinct (map key ys) \<and> set ys \<subseteq> set xs \<and> key ` set ys = key ` set xs"

lemma firsts_of_btree:
  assumes "bt_inv m" "\<forall>k v. bt_get m k = Some v \<longrightarrow> v \<in> set xs \<and> key v = k" "dom (bt_get m) = key ` set xs"
  shows "firsts_of key xs (map snd m)"
proof -
  note vals = btree_values [OF assms(1)]
  have "bt_get m k = Some v" if "(k, v) \<in> set m" for k v using that bt_inv_distinct [OF assms(1)] by simp
  then have keys: "map key (map snd m) = map fst m" using assms(2) by auto
  have "key ` set (map snd m) = fst ` set m" by (metis keys list.set_map)
  also have "\<dots> = dom (bt_get m)" by (simp add: dom_map_of_conv_image_fst)
  finally have "key ` set (map snd m) = key ` set xs" using assms(3) by simp
  moreover have "set (map snd m) \<subseteq> set xs" using vals assms(2) by blast
  ultimately show ?thesis unfolding firsts_of_def keys using bt_inv_distinct [OF assms(1)] by simp
qed

lemma merge_artifacts_firsts: "firsts_of art_id (concat (map c_artifacts members)) (merge_artifacts members)"
  unfolding merge_artifacts_def using fold_or_insert [of art_id] by (intro firsts_of_btree) blast+

lemma add_rules:
  assumes "\<forall>r \<in> set rules. rule_text r \<noteq> None"
  shows "try_fold (add_rule rule_text) rules m = Inr (fold (\<lambda>r. bt_or_insert (the (rule_text r)) r) rules m)"
  using assms by (induction rules arbitrary: m) (auto simp: add_rule_def)

lemma add_rules_fail:
  "\<exists>r \<in> set rules. rule_text r = None \<Longrightarrow>
     try_fold (add_rule rule_text) rules m = Inl (graph_error ''verification rule could not be canonicalized'')"
proof (induction rules arbitrary: m)
  case (Cons r rules)
  then show ?case by (cases "rule_text r") (simp_all add: add_rule_def)
qed simp

definition rules_serialize :: "(VerificationRule \<Rightarrow> str option) \<Rightarrow> Component list \<Rightarrow> bool" where
  "rules_serialize rule_text components \<longleftrightarrow> (\<forall>c \<in> set components. \<forall>r \<in> set (c_verification c). rule_text r \<noteq> None)"

lemma merge_verification_spec:
  "case merge_verification rule_text members of
     Inr rules \<Rightarrow> rules_serialize rule_text members
       \<and> firsts_of (\<lambda>r. the (rule_text r)) (concat (map c_verification members)) rules
   | Inl e \<Rightarrow> \<not> rules_serialize rule_text members \<and> ee_code e = SchemaInvalid"
proof (cases "rules_serialize rule_text members")
  case True
  then have "\<forall>r \<in> set (concat (map c_verification members)). rule_text r \<noteq> None" by (auto simp: rules_serialize_def)
  moreover have "firsts_of (\<lambda>r. the (rule_text r)) rules (map snd (fold (\<lambda>r. bt_or_insert (the (rule_text r)) r) rules []))" for rules
    using fold_or_insert [of "\<lambda>r. the (rule_text r)"] by (intro firsts_of_btree) blast+
  ultimately show ?thesis using True by (simp add: merge_verification_def add_rules)
next
  case False
  then have "\<exists>r \<in> set (concat (map c_verification members)). rule_text r = None" by (auto simp: rules_serialize_def)
  with False show ?thesis by (simp add: merge_verification_def add_rules_fail)
qed

text \<open>References are merged with the greatest strength.\<close>

definition references_merged :: "EvidenceRef list \<Rightarrow> EvidenceRef list \<Rightarrow> bool" where
  "references_merged xs ys \<longleftrightarrow> distinct (map evr_id ys) \<and> evr_id ` set ys = evr_id ` set xs
     \<and> (\<forall>y \<in> set ys. evr_strength y = Max (evr_strength ` {x \<in> set xs. evr_id x = evr_id y}))"

lemma add_references:
  "bt_inv (fold add_reference xs []) \<and> (\<forall>i. bt_get (fold add_reference xs []) i =
     (let ss = evr_strength ` {x \<in> set xs. evr_id x = i} in if ss = {} then None else Some (Max ss)))"
proof (induction xs rule: rev_induct)
  case (snoc x xs)
  let ?m = "fold add_reference xs []"
  have inv: "bt_inv ?m" using snoc by blast
  have get: "bt_get ?m i = (let ss = evr_strength ` {x \<in> set xs. evr_id x = i} in if ss = {} then None else Some (Max ss))" for i
    using snoc by blast
  have "bt_get (add_reference x ?m) i =
      (let ss = evr_strength ` {y \<in> set (xs @ [x]). evr_id y = i} in if ss = {} then None else Some (Max ss))" for i
  proof (cases "i = evr_id x")
    case True
    define S where "S = {y \<in> set xs. evr_id y = i}"
    have ins: "{y \<in> set (xs @ [x]). evr_id y = i} = insert x S" by (auto simp: True S_def)
    have "finite S" by (simp add: S_def)
    moreover have "bt_get ?m i = (if S = {} then None else Some (Max (evr_strength ` S)))"
      using get [of i] by (simp only: S_def [symmetric] Let_def image_is_empty)
    ultimately show ?thesis unfolding ins
      by (cases "S = {}") (simp_all add: add_reference_def bt_get_insert inv True Let_def max.commute)
  next
    case False
    then have "{y \<in> set (xs @ [x]). evr_id y = i} = {y \<in> set xs. evr_id y = i}" by auto
    with False show ?thesis by (simp add: add_reference_def bt_get_insert inv get)
  qed
  moreover have "bt_inv (add_reference x ?m)" using inv by (simp add: add_reference_def bt_inv_insert)
  moreover have "fold add_reference (xs @ [x]) [] = add_reference x ?m" by simp
  ultimately show ?case by metis
qed simp

lemma merge_evidence_refs_spec: "references_merged (concat (map c_evidence members)) (merge_evidence_refs members)"
proof -
  let ?xs = "concat (map c_evidence members)"
  let ?m = "fold add_reference ?xs []"
  have inv: "bt_inv ?m" using add_references by blast
  have get: "bt_get ?m i = (let ss = evr_strength ` {x \<in> set ?xs. evr_id x = i} in if ss = {} then None else Some (Max ss))" for i
    using add_references by blast
  have ids: "map evr_id (merge_evidence_refs members) = map fst ?m" by (simp add: merge_evidence_refs_def case_prod_beta)
  have "evr_id ` set (merge_evidence_refs members) = fst ` set ?m" by (metis ids list.set_map)
  also have "\<dots> = dom (bt_get ?m)" by (simp add: dom_map_of_conv_image_fst)
  also have "\<dots> = evr_id ` set ?xs" unfolding dom_def get by (auto simp: Let_def split: if_splits)
  finally have keys: "evr_id ` set (merge_evidence_refs members) = evr_id ` set ?xs" .
  have "evr_strength y = Max (evr_strength ` {x \<in> set ?xs. evr_id x = evr_id y})" if "y \<in> set (merge_evidence_refs members)" for y
  proof -
    from that have "(evr_id y, evr_strength y) \<in> set ?m" by (auto simp: merge_evidence_refs_def)
    then have "bt_get ?m (evr_id y) = Some (evr_strength y)" using bt_inv_distinct [OF inv] by simp
    then show ?thesis unfolding get Let_def by (simp split: if_splits)
  qed
  with keys ids bt_inv_distinct [OF inv] show ?thesis by (simp add: references_merged_def)
qed

lemma max_by_greatest:
  assumes "max_by le xs = Some b" and total: "\<forall>x y. le x y \<or> le y x" and trans: "\<forall>x y z. le x y \<and> le y z \<longrightarrow> le x z"
  shows "b \<in> set xs \<and> (\<forall>x \<in> set xs. le x b)"
proof -
  have step: "fold (\<lambda>y best. if le best y then y else best) ys x \<in> insert x (set ys)
      \<and> (\<forall>y \<in> insert x (set ys). le y (fold (\<lambda>y best. if le best y then y else best) ys x))" for ys x
  proof (induction ys arbitrary: x)
    case Nil
    show ?case using total by auto
  next
    case (Cons y ys)
    define B where "B = (if le x y then y else x)"
    define F where "F = fold (\<lambda>y best. if le best y then y else best) ys B"
    have b: "le x B" "le y B" "B = x \<or> B = y" using total by (auto simp: B_def)
    have f: "F \<in> insert B (set ys)" "le B F" "\<forall>z \<in> set ys. le z F" unfolding F_def using Cons.IH [of B] by blast+
    have "le x F" "le y F" using b f(2) trans by blast+
    with b(3) f(1,3) show ?case unfolding fold_simps list.set B_def [symmetric] F_def [symmetric] by blast
  qed
  from assms(1) show ?thesis using step by (cases xs) auto
qed

lemma base_le_total: "base_le l r \<or> base_le r l"
  unfolding base_le_def Let_def by (metis linear linorder_cases)

lemma base_le_trans: "base_le a b \<Longrightarrow> base_le b c \<Longrightarrow> base_le a c"
  unfolding base_le_def Let_def by (metis order.strict_trans order.trans)

lemma Max_insert_max: "finite A \<Longrightarrow> Max (insert (max a b) A) = max a (Max (insert b A))" for a :: "'a :: linorder"
  by (cases "A = {}") (simp_all add: max.assoc)

lemma selection_merged:
  "sm_sensitive (fold add_selection ms s) \<longleftrightarrow> sm_sensitive s \<or> (\<exists>c \<in> set ms. sm_sensitive (c_selection c))"
  "sm_size_bytes (fold add_selection ms s) = Max (insert (sm_size_bytes s) ((\<lambda>c. sm_size_bytes (c_selection c)) ` set ms))"
  "sm_score (fold add_selection ms s) = Max (insert (sm_score s) ((\<lambda>c. sm_score (c_selection c)) ` set ms))"
  by (induction ms arbitrary: s) (auto simp: add_selection_def Let_def Max_insert_max insert_commute)

definition strategies :: "RestoreDescriptor \<Rightarrow> RestoreStrategy set" where
  "strategies r = insert (rd_primary r) (set (rd_alternatives r))"

lemma add_strategies:
  "strategies (fold add_strategy ss r) = strategies r \<union> set ss"
  "rd_primary (fold add_strategy ss r) = rd_primary r"
  "rd_requires_elevation (fold add_strategy ss r) = rd_requires_elevation r"
  "rd_requires_user_action (fold add_strategy ss r) = rd_requires_user_action r"
  by (induction ss arbitrary: r) (auto simp: add_strategy_def strategies_def)

lemma add_rationales:
  "strategies (fold add_rationale ss r) = strategies r"
  "rd_primary (fold add_rationale ss r) = rd_primary r"
  "rd_requires_elevation (fold add_rationale ss r) = rd_requires_elevation r"
  "rd_requires_user_action (fold add_rationale ss r) = rd_requires_user_action r"
  by (induction ss arbitrary: r) (auto simp: add_rationale_def strategies_def)

lemma add_restore_fields:
  "strategies (add_restore c r) = strategies r \<union> strategies (c_restore c)"
  "rd_primary (add_restore c r) = rd_primary r"
  "rd_requires_elevation (add_restore c r) \<longleftrightarrow> rd_requires_elevation r \<or> rd_requires_elevation (c_restore c)"
  "rd_requires_user_action (add_restore c r) \<longleftrightarrow> rd_requires_user_action r \<or> rd_requires_user_action (c_restore c)"
  unfolding add_restore_def Let_def add_rationales add_strategies by (auto simp: strategies_def)

lemma restore_merged:
  "strategies (fold add_restore ms r) = strategies r \<union> (\<Union>c \<in> set ms. strategies (c_restore c))"
  "rd_primary (fold add_restore ms r) = rd_primary r"
  "rd_requires_elevation (fold add_restore ms r) \<longleftrightarrow>
     rd_requires_elevation r \<or> (\<exists>c \<in> set ms. rd_requires_elevation (c_restore c))"
  "rd_requires_user_action (fold add_restore ms r) \<longleftrightarrow>
     rd_requires_user_action r \<or> (\<exists>c \<in> set ms. rd_requires_user_action (c_restore c))"
  by (induction ms arbitrary: r) (auto simp: add_restore_fields)

lemma compatibility_merged:
  "cmp_requires_elevation (fold add_compatibility ms r) \<longleftrightarrow>
     cmp_requires_elevation r \<or> (\<exists>c \<in> set ms. cmp_requires_elevation (c_compatibility c))"
  "cmp_requires_wsl (fold add_compatibility ms r) \<longleftrightarrow>
     cmp_requires_wsl r \<or> (\<exists>c \<in> set ms. cmp_requires_wsl (c_compatibility c))"
  "cmp_requires_docker (fold add_compatibility ms r) \<longleftrightarrow>
     cmp_requires_docker r \<or> (\<exists>c \<in> set ms. cmp_requires_docker (c_compatibility c))"
  by (induction ms arbitrary: r) (auto simp: add_compatibility_def Let_def)

text \<open>What is promised of the component a group is merged into.\<close>

definition merged_from ::
  "(VerificationRule \<Rightarrow> str option) \<Rightarrow> evidence_map \<Rightarrow> Component list \<Rightarrow> Component \<Rightarrow> bool" where
  "merged_from rule_text records ms d \<longleftrightarrow>
     (\<exists>base \<in> set ms. (\<forall>c \<in> set ms. base_le c base) \<and> c_kind d = c_kind base
        \<and> rd_primary (c_restore d) = rd_primary (c_restore base))
     \<and> firsts_of art_id (concat (map c_artifacts ms)) (c_artifacts d)
     \<and> firsts_of (\<lambda>r. the (rule_text r)) (concat (map c_verification ms)) (c_verification d)
     \<and> references_merged (concat (map c_evidence ms)) (c_evidence d)
     \<and> (sm_sensitive (c_selection d) \<longleftrightarrow> (\<exists>c \<in> set ms. sm_sensitive (c_selection c)))
     \<and> sm_size_bytes (c_selection d) = Max ((\<lambda>c. sm_size_bytes (c_selection c)) ` set ms)
     \<and> sm_score (c_selection d) = Max ((\<lambda>c. sm_score (c_selection c)) ` set ms)
     \<and> strategies (c_restore d) = (\<Union>c \<in> set ms. strategies (c_restore c))
     \<and> (rd_requires_elevation (c_restore d) \<longleftrightarrow> (\<exists>c \<in> set ms. rd_requires_elevation (c_restore c)))
     \<and> (rd_requires_user_action (c_restore d) \<longleftrightarrow> (\<exists>c \<in> set ms. rd_requires_user_action (c_restore c)))
     \<and> (cmp_requires_elevation (c_compatibility d) \<longleftrightarrow> (\<exists>c \<in> set ms. cmp_requires_elevation (c_compatibility c)))
     \<and> (cmp_requires_wsl (c_compatibility d) \<longleftrightarrow> (\<exists>c \<in> set ms. cmp_requires_wsl (c_compatibility c)))
     \<and> (cmp_requires_docker (c_compatibility d) \<longleftrightarrow> (\<exists>c \<in> set ms. cmp_requires_docker (c_compatibility c)))
     \<and> c_confidence d = ec_confidence (confidence_for_evidence (map evr_id (c_evidence d)) records
          (list_ex (\<lambda>c. identity_keys_without_fallback c = []) ms) (has_any (collect_conflicts ms)))"

lemma canonical_component_fields [simp]:
  "c_kind (canonical_component v b base m) = c_kind m" "c_artifacts (canonical_component v b base m) = c_artifacts m"
  "c_verification (canonical_component v b base m) = c_verification m"
  "c_evidence (canonical_component v b base m) = c_evidence m"
  "c_selection (canonical_component v b base m) = c_selection m"
  "c_restore (canonical_component v b base m) = c_restore m"
  "c_compatibility (canonical_component v b base m) = c_compatibility m"
  by (simp_all add: canonical_component_def split: sum.splits)

lemma append_merge_metadata_fields [simp]:
  "c_kind (append_merge_metadata ms cf ec m) = c_kind m" "c_artifacts (append_merge_metadata ms cf ec m) = c_artifacts m"
  "c_verification (append_merge_metadata ms cf ec m) = c_verification m"
  "c_evidence (append_merge_metadata ms cf ec m) = c_evidence m"
  "c_selection (append_merge_metadata ms cf ec m) = c_selection m"
  "c_restore (append_merge_metadata ms cf ec m) = c_restore m"
  "c_compatibility (append_merge_metadata ms cf ec m) = c_compatibility m"
  "c_confidence (append_merge_metadata ms cf ec m) = c_confidence m"
  by (simp_all add: append_merge_metadata_def Let_def)

lemma merge_component_spec:
  assumes "ms \<noteq> []"
  shows "case merge_component rule_text to_vec blake3 records ms of
     Inr d \<Rightarrow> rules_serialize rule_text ms \<and> merged_from rule_text records ms d
   | Inl e \<Rightarrow> \<not> rules_serialize rule_text ms \<and> ee_code e = SchemaInvalid"
proof -
  obtain base where base: "max_by base_le ms = Some base" using assms by (cases ms) auto
  have b: "base \<in> set ms" "\<forall>c \<in> set ms. base_le c base"
    using max_by_greatest [OF base] base_le_total base_le_trans by blast+
  show ?thesis
  proof (cases "merge_verification rule_text ms")
    case (Inl e)
    with merge_verification_spec [of rule_text ms] show ?thesis by (simp add: merge_component_def base Let_def)
  next
    case (Inr rules)
    have ins: "insert (f base) (f ` set ms) = f ` set ms" for f :: "Component \<Rightarrow> 'x" using b(1) by auto
    obtain d where d: "merge_component rule_text to_vec blake3 records ms = Inr d" by (simp add: merge_component_def base Inr Let_def)
    have fields: "c_kind d = c_kind base" "c_artifacts d = merge_artifacts ms" "c_verification d = rules"
      "c_evidence d = merge_evidence_refs ms" "c_selection d = fold add_selection ms (c_selection base)"
      "c_restore d = fold add_restore ms (c_restore base)" "c_compatibility d = fold add_compatibility ms (c_compatibility base)"
      "c_confidence d = ec_confidence (confidence_for_evidence (map evr_id (c_evidence d)) records
          (list_ex (\<lambda>c. identity_keys_without_fallback c = []) ms) (has_any (collect_conflicts ms)))"
      using d by (auto simp: merge_component_def base Inr Let_def merge_selection_def merge_restore_def merge_compatibility_def)
    have flags: "sm_sensitive (c_selection d) \<longleftrightarrow> (\<exists>c \<in> set ms. sm_sensitive (c_selection c))"
      "rd_requires_elevation (c_restore d) \<longleftrightarrow> (\<exists>c \<in> set ms. rd_requires_elevation (c_restore c))"
      "rd_requires_user_action (c_restore d) \<longleftrightarrow> (\<exists>c \<in> set ms. rd_requires_user_action (c_restore c))"
      "cmp_requires_elevation (c_compatibility d) \<longleftrightarrow> (\<exists>c \<in> set ms. cmp_requires_elevation (c_compatibility c))"
      "cmp_requires_wsl (c_compatibility d) \<longleftrightarrow> (\<exists>c \<in> set ms. cmp_requires_wsl (c_compatibility c))"
      "cmp_requires_docker (c_compatibility d) \<longleftrightarrow> (\<exists>c \<in> set ms. cmp_requires_docker (c_compatibility c))"
      "strategies (c_restore d) = (\<Union>c \<in> set ms. strategies (c_restore c))"
      unfolding fields selection_merged restore_merged compatibility_merged using b(1) by blast+
    have sizes: "sm_size_bytes (c_selection d) = Max ((\<lambda>c. sm_size_bytes (c_selection c)) ` set ms)"
      "sm_score (c_selection d) = Max ((\<lambda>c. sm_score (c_selection c)) ` set ms)"
      unfolding fields selection_merged using ins [of "\<lambda>c. sm_size_bytes (c_selection c)"] ins [of "\<lambda>c. sm_score (c_selection c)"]
      by simp_all
    have rules: "firsts_of (\<lambda>r. the (rule_text r)) (concat (map c_verification ms)) rules"
      using merge_verification_spec [of rule_text ms] by (simp add: Inr)
    have prim: "rd_primary (c_restore d) = rd_primary (c_restore base)" by (simp add: fields restore_merged)
    have "merged_from rule_text records ms d"
      unfolding merged_from_def using b fields(1) prim flags sizes rules fields(8) merge_artifacts_firsts [of ms] merge_evidence_refs_spec [of ms]
      by (intro conjI) (blast | simp only: fields(2-4))+
    with d merge_verification_spec [of rule_text ms] show ?thesis by (simp add: Inr)
  qed
qed

subsection \<open>The edges\<close>

lemma dependency_kind_order_inj: "dependency_kind_order a = dependency_kind_order b \<longleftrightarrow> a = b"
  by (cases a; cases b) simp_all

lemma EdgeKey_eq:
  "EdgeKey d = EdgeKey e \<longleftrightarrow> edge_from d = edge_from e \<and> edge_to d = edge_to e \<and> edge_kind d = edge_kind e
     \<and> edge_required d = edge_required e"
  by (simp add: EdgeKey_def dependency_kind_order_inj)

text \<open>The evidence of the edges that share a key, in order and without repetition.\<close>

definition joint_evidence :: "DependencyEdge list \<Rightarrow> edge_key \<Rightarrow> EvidenceId list" where
  "joint_evidence es k = sorted_list_of_set (\<Union>d \<in> {d \<in> set es. EdgeKey d = k}. set (edge_evidence d))"

lemma joint_evidence_snoc:
  "joint_evidence (es @ [e]) k =
     (if EdgeKey e = k then remdups_adj (sort (joint_evidence es k @ edge_evidence e)) else joint_evidence es k)"
proof (cases "EdgeKey e = k")
  case True
  then have "{d \<in> set (es @ [e]). EdgeKey d = k} = insert e {d \<in> set es. EdgeKey d = k}" by auto
  with True show ?thesis by (simp add: joint_evidence_def remdups_adj_sort Un_commute)
next
  case False
  then have "{d \<in> set (es @ [e]). EdgeKey d = k} = {d \<in> set es. EdgeKey d = k}" by auto
  with False show ?thesis by (simp add: joint_evidence_def)
qed

lemma merge_edge_fold:
  "bt_inv (fold merge_edge es []) \<and> dom (bt_get (fold merge_edge es [])) = EdgeKey ` set es
   \<and> (\<forall>k e. bt_get (fold merge_edge es []) k = Some e \<longrightarrow> EdgeKey e = k \<and> edge_evidence e = joint_evidence es k)"
proof (induction es rule: rev_induct)
  case (snoc e es)
  let ?m = "fold merge_edge es []"
  have inv: "bt_inv ?m" and dom: "dom (bt_get ?m) = EdgeKey ` set es"
    and get: "\<And>k d. bt_get ?m k = Some d \<Longrightarrow> EdgeKey d = k \<and> edge_evidence d = joint_evidence es k" using snoc by auto
  have key: "EdgeKey (d\<lparr>edge_evidence := x\<rparr>) = EdgeKey d" for d x by (simp add: EdgeKey_def)
  obtain d where d: "merge_edge e ?m = bt_insert (EdgeKey e) d ?m" "EdgeKey d = EdgeKey e"
    "edge_evidence d = joint_evidence (es @ [e]) (EdgeKey e)"
  proof (cases "bt_get ?m (EdgeKey e)")
    case None
    then have "EdgeKey e \<notin> EdgeKey ` set es" using dom by blast
    then have "{d \<in> set es. EdgeKey d = EdgeKey e} = {}"
      by (metis (mono_tags, lifting) Collect_empty_eq image_eqI)
    then have "joint_evidence es (EdgeKey e) = []" by (simp only: joint_evidence_def) simp
    with None show ?thesis
      by (intro that [of "e\<lparr>edge_evidence := remdups_adj (sort (edge_evidence e))\<rparr>"])
        (simp_all add: merge_edge_def key joint_evidence_snoc)
  next
    case (Some x)
    with get [OF Some] show ?thesis
      by (intro that [of "x\<lparr>edge_evidence := remdups_adj (sort (edge_evidence x @ edge_evidence e))\<rparr>"])
        (simp_all add: merge_edge_def key joint_evidence_snoc)
  qed
  have fold: "fold merge_edge (es @ [e]) [] = bt_insert (EdgeKey e) d ?m" using d(1) by simp
  have "EdgeKey x = k \<and> edge_evidence x = joint_evidence (es @ [e]) k" if "((bt_get ?m)(EdgeKey e \<mapsto> d)) k = Some x" for k x
    using that d(2,3) get [of k x] by (cases "k = EdgeKey e") (auto simp: joint_evidence_snoc)
  moreover have "dom ((bt_get ?m)(EdgeKey e \<mapsto> d)) = EdgeKey ` set (es @ [e])" unfolding dom_fun_upd using dom by simp
  ultimately show ?case unfolding fold bt_get_insert [OF inv] using bt_inv_insert [OF inv] by blast
qed simp

text \<open>What is promised of the merged edges: one edge for each key of the given ones.\<close>

definition edges_merged :: "evidence_map \<Rightarrow> DependencyEdge list \<Rightarrow> DependencyEdge list \<Rightarrow> bool" where
  "edges_merged records es out \<longleftrightarrow>
     distinct (map EdgeKey out) \<and> EdgeKey ` set out = EdgeKey ` set es
     \<and> (\<forall>e \<in> set out. edge_evidence e = joint_evidence es (EdgeKey e)
          \<and> edge_confidence e = ec_confidence (confidence_for_evidence (edge_evidence e) records False False))"

lemma merge_edges_spec:
  "edges_merged records (map (remap_edge m) (edges @ concat (map c_dependencies components)))
     (sort_key edge_order (merge_edges components edges m records))"
proof -
  let ?es = "map (remap_edge m) (edges @ concat (map c_dependencies components))"
  let ?m = "fold merge_edge ?es []"
  have inv: "bt_inv ?m" and dom: "dom (bt_get ?m) = EdgeKey ` set ?es"
    and get: "\<And>k e. bt_get ?m k = Some e \<Longrightarrow> EdgeKey e = k \<and> edge_evidence e = joint_evidence ?es k"
    using merge_edge_fold by blast+
  have entry: "bt_get ?m k = Some e \<longleftrightarrow> (k, e) \<in> set ?m" for k e using bt_inv_distinct [OF inv] by simp
  have out: "merge_edges components edges m records = map (edge_with_confidence records) (map snd ?m)"
    by (simp add: merge_edges_def fold_map comp_def)
  have key: "EdgeKey (edge_with_confidence records e) = EdgeKey e" for e by (simp add: EdgeKey_def edge_with_confidence_def)
  have keys: "map EdgeKey (map (edge_with_confidence records) (map snd ?m)) = map fst ?m"
    using get entry by (auto simp: key)
  have "EdgeKey ` set (merge_edges components edges m records) = EdgeKey ` set ?es"
    unfolding out by (metis keys list.set_map dom dom_map_of_conv_image_fst)
  moreover have "edge_evidence e = joint_evidence ?es (EdgeKey e)
      \<and> edge_confidence e = ec_confidence (confidence_for_evidence (edge_evidence e) records False False)"
    if e: "e \<in> set (merge_edges components edges m records)" for e
  proof -
    obtain k d where "(k, d) \<in> set ?m" "e = edge_with_confidence records d" using e unfolding out by auto
    with get [of k d] entry [of k d] show ?thesis by (simp add: key) (simp add: edge_with_confidence_def)
  qed
  moreover have "distinct (map EdgeKey (merge_edges components edges m records))"
    unfolding out keys using bt_inv_distinct [OF inv] by blast
  moreover have "distinct (map EdgeKey (sort_key f xs)) \<longleftrightarrow> distinct (map EdgeKey xs)" for f :: "DependencyEdge \<Rightarrow> 'k :: linorder" and xs
    by (simp add: distinct_map)
  ultimately show ?thesis unfolding edges_merged_def set_sort by blast
qed

subsection \<open>The run\<close>

lemma members_of_group:
  "set ms \<subseteq> {..<length cs} \<Longrightarrow>
     try_map (\<lambda>i. expect (if i < length cs then Some (cs ! i) else None)) ms = Inr (map ((!) cs) ms)"
  by (induction ms) auto

text \<open>The mapping after some groups sends the ids of their members to merged components.\<close>

definition mapping_ok :: "ComponentId set \<Rightarrow> Component list \<Rightarrow> (ComponentId, ComponentId) btree \<Rightarrow> bool" where
  "mapping_ok ids ds m \<longleftrightarrow> bt_inv m \<and> dom (bt_get m) = ids \<and> ran (bt_get m) \<subseteq> c_id ` set ds"

lemma insert_members:
  "bt_inv m \<Longrightarrow> bt_inv (fold (\<lambda>c. bt_insert (c_id c) d) ms m)
     \<and> bt_get (fold (\<lambda>c. bt_insert (c_id c) d) ms m) = (\<lambda>i. if i \<in> c_id ` set ms then Some d else bt_get m i)"
proof (induction ms arbitrary: m)
  case (Cons c ms)
  from Cons.IH [OF bt_inv_insert [OF Cons.prems]] show ?case
    by (auto simp: bt_get_insert [OF Cons.prems] fun_eq_iff)
qed simp

lemma merge_groups:
  assumes "\<forall>ms \<in> set groups. ms \<noteq> [] \<and> set ms \<subseteq> {..<length cs}" and "mapping_ok ids ds m"
  shows "case try_fold (merge_group rule_text to_vec blake3 records cs) groups (m, ds) of
     Inr (m', ds') \<Rightarrow> rules_serialize rule_text (map ((!) cs) (concat groups))
       \<and> mapping_ok (ids \<union> c_id ` set (map ((!) cs) (concat groups))) ds' m'
       \<and> (\<exists>new. ds' = ds @ new \<and> list_all2 (\<lambda>ms d. merged_from rule_text records (map ((!) cs) ms) d) groups new)
   | Inl (Fail e) \<Rightarrow> \<not> rules_serialize rule_text (map ((!) cs) (concat groups)) \<and> ee_code e = SchemaInvalid
   | Inl _ \<Rightarrow> False"
  using assms
proof (induction groups arbitrary: ids ds m)
  case Nil
  then show ?case by (simp add: rules_serialize_def)
next
  case (Cons ms groups)
  let ?members = "map ((!) cs) ms"
  have ne: "?members \<noteq> []" and range: "set ms \<subseteq> {..<length cs}" using Cons.prems(1) by auto
  have step: "merge_group rule_text to_vec blake3 records cs ms (m, ds) =
      try_bind (lift_fail (merge_component rule_text to_vec blake3 records ?members)) (\<lambda>d.
        Inr (fold (\<lambda>c. bt_insert (c_id c) (c_id d)) ?members m, ds @ [d]))"
    by (simp add: merge_group_def members_of_group [OF range])
  have all: "rules_serialize rule_text (map ((!) cs) (concat (ms # groups))) \<longleftrightarrow>
      rules_serialize rule_text ?members \<and> rules_serialize rule_text (map ((!) cs) (concat groups))"
    by (simp add: rules_serialize_def ball_Un)
  show ?case
  proof (cases "merge_component rule_text to_vec blake3 records ?members")
    case (Inl e)
    with merge_component_spec [OF ne, where rule_text = rule_text and to_vec = to_vec and ?blake3.0 = blake3 and records = records] show ?thesis unfolding all by (simp add: step)
  next
    case (Inr d)
    with merge_component_spec [OF ne, where rule_text = rule_text and to_vec = to_vec and ?blake3.0 = blake3 and records = records]
    have d: "rules_serialize rule_text ?members" "merged_from rule_text records ?members d" by simp_all
    let ?m = "fold (\<lambda>c. bt_insert (c_id c) (c_id d)) ?members m"
    have m: "bt_inv m" "dom (bt_get m) = ids" "ran (bt_get m) \<subseteq> c_id ` set ds" using Cons.prems(2) by (simp_all add: mapping_ok_def)
    note ins = insert_members [OF m(1), of "c_id d" ?members]
    have get: "bt_get ?m = (\<lambda>i. if i \<in> c_id ` set ?members then Some (c_id d) else bt_get m i)" using ins by blast
    have "dom (bt_get ?m) = ids \<union> c_id ` set ?members" unfolding get using m(2) by (auto simp: dom_def split: if_splits)
    moreover have "ran (bt_get ?m) \<subseteq> c_id ` set (ds @ [d])" unfolding get using m(3) by (auto simp: ran_def split: if_splits)
    ultimately have m': "mapping_ok (ids \<union> c_id ` set ?members) (ds @ [d]) ?m" using ins unfolding mapping_ok_def by blast
    have rest: "\<forall>ms \<in> set groups. ms \<noteq> [] \<and> set ms \<subseteq> {..<length cs}" using Cons.prems(1) by simp
    have ids: "ids \<union> c_id ` set (map ((!) cs) (concat (ms # groups)))
        = (ids \<union> c_id ` set ?members) \<union> c_id ` set (map ((!) cs) (concat groups))" by auto
    have run: "try_fold (merge_group rule_text to_vec blake3 records cs) (ms # groups) (m, ds)
        = try_fold (merge_group rule_text to_vec blake3 records cs) groups (?m, ds @ [d])" by (simp add: step Inr)
    from Cons.IH [OF rest m'] d show ?thesis unfolding run all ids
      by (auto split: sum.splits abort.splits prod.splits)
  qed
qed

text \<open>The groups of a sorted list of components, as lists of components.\<close>

lemma group_members:
  assumes "build_groups cs = Some groups"
  shows "\<forall>ms \<in> set groups. ms \<noteq> [] \<and> set ms \<subseteq> {..<length cs}" "mset (map ((!) cs) (concat groups)) = mset cs"
proof -
  have parts: "distinct (concat groups)" "set (concat groups) = {..<length cs}" "list_all (group_ok cs) groups"
    using build_groups_spec [of cs] assms by auto
  show "\<forall>ms \<in> set groups. ms \<noteq> [] \<and> set ms \<subseteq> {..<length cs}"
    using parts(2,3) by (auto simp: list_all_iff group_ok_def)
  have "mset (concat groups) = mset [0..<length cs]"
    using parts(1,2) by (intro set_eq_iff_mset_eq_distinct [THEN iffD1]) auto
  then have "mset (map ((!) cs) (concat groups)) = mset (map ((!) cs) [0..<length cs])"
    by (simp only: mset_map)
  then show "mset (map ((!) cs) (concat groups)) = mset cs" by (simp only: map_nth)
qed

lemma mset_concat_cong: "mset xss = mset yss \<Longrightarrow> mset (concat xss) = mset (concat yss)"
  by (metis mset_concat mset_map sum_mset_sum_list)

lemma merged_from_dependencies [simp]:
  "merged_from rule_text records ms (with_dependencies es d) \<longleftrightarrow> merged_from rule_text records ms d"
  by (simp add: merged_from_def with_dependencies_def)

lemma with_dependencies_id [simp]: "c_id (with_dependencies es d) = c_id d"
  by (simp add: with_dependencies_def)

text \<open>Sorting the merged components sorts their groups along.\<close>

lemma sorted_parts:
  assumes "list_all2 (\<lambda>ms d. merged_from rule_text records (map ((!) cs) ms) d) groups ds"
  obtains parts where "mset (concat parts) = mset (map ((!) cs) (concat groups))"
    and "list_all2 (merged_from rule_text records) parts (map (with_dependencies es) (sort_key c_id ds))"
proof -
  let ?z = "sort_key (\<lambda>x. c_id (snd x)) (zip groups ds)"
  let ?parts = "map (\<lambda>x. map ((!) cs) (fst x)) ?z"
  have len: "length groups = length ds" using assms by (rule list_all2_lengthD)
  have ds: "sort_key c_id ds = map snd ?z" using sort_key_map [of c_id snd "zip groups ds"] len by simp
  have "mset ?parts = image_mset (\<lambda>x. map ((!) cs) (fst x)) (mset (zip groups ds))" by simp
  also have "\<dots> = mset (map (map ((!) cs)) (map fst (zip groups ds)))" by (simp add: comp_def)
  also have "\<dots> = mset (map (map ((!) cs)) groups)" using len by simp
  finally have "mset (concat ?parts) = mset (map ((!) cs) (concat groups))"
    unfolding map_concat by (rule mset_concat_cong)
  moreover have "\<forall>x \<in> set (zip groups ds). merged_from rule_text records (map ((!) cs) (fst x)) (snd x)"
    using assms by (auto simp: list_all2_iff)
  then have "list_all2 (merged_from rule_text records) ?parts (map (with_dependencies es) (sort_key c_id ds))"
    unfolding ds by (simp add: list_all2_map1 list_all2_map2 list_all2_same)
  ultimately show ?thesis by (rule that)
qed

lemma rules_serialize_cong: "set xs = set ys \<Longrightarrow> rules_serialize rule_text xs = rules_serialize rule_text ys"
  by (simp add: rules_serialize_def)

lemma deduplicate_graph_spec:
  "case deduplicate_graph rule_text to_vec blake3 components edges evidence of
     Inr g \<Rightarrow> graph_within_bounds components edges evidence \<and> rules_serialize rule_text components
       \<and> (\<exists>records m parts. evidence_records evidence = Inr records
            \<and> mapping_ok (c_id ` set components) (g_components g) m
            \<and> edges_merged records (map (remap_edge m) (edges @ concat (map c_dependencies components))) (g_edges g)
            \<and> sorted (map edge_order (g_edges g))
            \<and> mset (concat parts) = mset components
            \<and> list_all2 (merged_from rule_text records) parts (g_components g)
            \<and> sorted (map c_id (g_components g))
            \<and> list_all (\<lambda>d. c_dependencies d = filter (\<lambda>e. edge_from e = c_id d) (g_edges g)) (g_components g))
   | Inl (Fail e) \<Rightarrow> \<not> (graph_within_bounds components edges evidence \<and> rules_serialize rule_text components)
       \<and> ee_code e = SchemaInvalid
   | Inl _ \<Rightarrow> False"
proof (cases "validate_graph components edges evidence")
  case (Inl e)
  with validate_graph_spec [of components edges evidence] show ?thesis by (simp add: deduplicate_graph_def)
next
  case (Inr records)
  with validate_graph_spec [of components edges evidence]
  have bounds: "graph_within_bounds components edges evidence" "evidence_records evidence = Inr records" by simp_all
  let ?cs = "sort_key component_order components"
  obtain groups where groups: "build_groups ?cs = Some groups" using build_groups_spec [of ?cs] by blast
  note members = group_members [OF groups]
  let ?all = "map ((!) ?cs) (concat groups)"
  have same: "set ?all = set components" using mset_eq_setD [OF members(2)] by simp
  note ser = rules_serialize_cong [OF same, of rule_text]
  have "mapping_ok {} [] []" by (simp add: mapping_ok_def)
  note run = merge_groups [OF members(1) this, where rule_text = rule_text and to_vec = to_vec and ?blake3.0 = blake3 and records = records,
      unfolded ser same]
  show ?thesis
  proof (cases "try_fold (merge_group rule_text to_vec blake3 records ?cs) groups ([], [])")
    case (Inl a)
    with run show ?thesis by (cases a) (simp_all add: deduplicate_graph_def Inr groups)
  next
    case fold: (Inr r)
    obtain m ds where r: "r = (m, ds)" by force
    from run fold have ok: "rules_serialize rule_text components" "mapping_ok (c_id ` set components) ds m"
      and parts: "list_all2 (\<lambda>ms d. merged_from rule_text records (map ((!) ?cs) ms) d) groups ds" by (simp_all add: r)
    define E where "E = sort_key edge_order (merge_edges ?cs edges m records)"
    define g where "g = \<lparr>g_components = map (with_dependencies E) (sort_key c_id ds), g_edges = E\<rparr>"
    have res: "deduplicate_graph rule_text to_vec blake3 components edges evidence = Inr g"
      by (simp add: deduplicate_graph_def Inr groups fold r Let_def E_def g_def)
    obtain ps where ps: "mset (concat ps) = mset components" "list_all2 (merged_from rule_text records) ps (g_components g)"
      using sorted_parts [OF parts, of E] members(2) by (auto simp: g_def)
    have "edges_merged records (map (remap_edge m) (edges @ concat (map c_dependencies ?cs))) E"
      unfolding E_def by (rule merge_edges_spec)
    then have "edges_merged records (map (remap_edge m) (edges @ concat (map c_dependencies components))) E"
      by (simp add: edges_merged_def joint_evidence_def)
    moreover have "mapping_ok (c_id ` set components) (g_components g) m"
      using ok(2) by (simp add: mapping_ok_def g_def image_image)
    moreover have "sorted (map c_id (g_components g))" by (simp add: g_def comp_def)
    moreover have "list_all (\<lambda>d. c_dependencies d = filter (\<lambda>e. edge_from e = c_id d) (g_edges g)) (g_components g)"
      by (simp add: g_def list_all_iff with_dependencies_def)
    moreover have "sorted (map edge_order (g_edges g))" by (simp add: g_def E_def)
    moreover have "g_edges g = E" by (simp add: g_def)
    ultimately show ?thesis unfolding res using bounds ok(1) ps by auto
  qed
qed

subsection \<open>The guarantees of deduplication\<close>

text \<open>
  C39. Deduplication decides its input. For every list of components, edges and evidence it neither
  panics nor diverges, and it succeeds exactly when the numbers of components and of edges (given
  and embedded) are within their bounds, no evidence or reference is stronger than 100, no evidence
  id stands for two records and every verification rule serializes; otherwise the error is
  \<^verbatim>\<open>SCHEMA_INVALID\<close>.
\<close>

theorem deduplication_decides:
  "case deduplicate_graph rule_text to_vec blake3 components edges evidence of
     Inr _ \<Rightarrow> graph_within_bounds components edges evidence \<and> rules_serialize rule_text components
   | Inl (Fail e) \<Rightarrow> \<not> (graph_within_bounds components edges evidence \<and> rules_serialize rule_text components)
       \<and> ee_code e = SchemaInvalid
   | Inl _ \<Rightarrow> False"
  using deduplicate_graph_spec [of components edges evidence rule_text to_vec blake3]
  by (auto split: sum.splits abort.splits)








end
