(* ===== verification/TargetScan.thy ===== *)
theory TargetScan
  imports Sorting PathTokens Ids Operations "HOL-Library.Option_ord" "HOL-Library.Product_Lexorder"
begin

text \<open>
  The normalised facts of a target, \<^verbatim>\<open>crates/reforge-restore/src/target.rs\<close>: host facts, installed
  components, providers, runtimes and environment are sorted, freed of repetitions and checked for
  conflicts, and their public part gets a fingerprint. The canonical JSON of an installed fact
  (\<open>fact_bytes\<close>) and the object id of the canonical JSON of all facts (\<open>facts_id\<close>) are parameters.
\<close>

definition MAX_TARGET_COMPONENTS :: nat where "MAX_TARGET_COMPONENTS = 250000"
definition MAX_PROVIDER_FACTS :: nat where "MAX_PROVIDER_FACTS = 256"
definition MAX_ENVIRONMENT_FACTS :: nat where "MAX_ENVIRONMENT_FACTS = 100000"
definition MAX_ENVIRONMENT_NAME_BYTES :: nat where "MAX_ENVIRONMENT_NAME_BYTES = 32 * 1024"

definition schema_error :: "str \<Rightarrow> ErrorEnvelope" where
  "schema_error message = restore_error SchemaInvalid message None None None None"

subsection \<open>The host\<close>

text \<open>The derived order of known folders: the variant, then the id of a selected folder.\<close>

fun root_key :: "KnownFolderToken \<Rightarrow> nat \<times> str" where
  "root_key UserProfile = (0, [])"
| "root_key RoamingAppData = (1, [])"
| "root_key LocalAppData = (2, [])"
| "root_key ProgramData = (3, [])"
| "root_key ProgramFiles = (4, [])"
| "root_key ProgramFilesX86 = (5, [])"
| "root_key StartMenu = (6, [])"
| "root_key Startup = (7, [])"
| "root_key Desktop = (8, [])"
| "root_key Documents = (9, [])"
| "root_key (UserSelected i) = (10, i)"

definition folder_key :: "PathToken \<Rightarrow> (nat \<times> str) \<times> str" where
  "folder_key p = (root_key (pt_root p), pt_relative p)"

definition drive_key :: "DriveFact \<Rightarrow> str \<times> str option" where
  "drive_key d = (df_token d, df_filesystem d)"

definition space_key :: "DriveFreeSpace \<Rightarrow> str \<times> nat" where
  "space_key s = (dfs_token s, dfs_bytes s)"

text \<open>The loop over \<^verbatim>\<open>windows(2)\<close>: neighbours with one token are equal.\<close>

fun adjacent_consistent :: "('a \<Rightarrow> str) \<Rightarrow> 'a list \<Rightarrow> bool" where
  "adjacent_consistent token (x # y # xs) = (\<not> (token x = token y \<and> x \<noteq> y) \<and> adjacent_consistent token (y # xs))"
| "adjacent_consistent token _ = True"

definition check_known_folder :: "PathToken \<Rightarrow> unit restore" where
  "check_known_folder path =
     (if \<not> is_ok (PathToken_validate path) then Inl (schema_error ''target known-folder token is invalid'')
      else if pt_relative path \<noteq> [] then Inl (schema_error ''target host known folders must identify token roots'')
      else Inr ())"

definition normalize_host :: "HostFacts \<Rightarrow> HostFacts restore" where
  "normalize_host host =
     try_bind (try_all check_known_folder (hf_known_folders host)) (\<lambda>_.
     let folders = remdups_adj (sort_key folder_key (hf_known_folders host));
         drives = sort_key drive_key (hf_drives host) in
     if \<not> adjacent_consistent df_token drives
     then Inl (schema_error ''target host contains conflicting drive facts'')
     else
     let free_bytes = sort_key space_key (hf_free_bytes host) in
     if \<not> adjacent_consistent dfs_token free_bytes
     then Inl (schema_error ''target host contains conflicting free-space facts'')
     else Inr (host\<lparr>hf_known_folders := folders, hf_drives := remdups_adj drives, hf_free_bytes := remdups_adj free_bytes\<rparr>))"

subsection \<open>Components\<close>

definition excluded_from_target_identity :: "Component \<Rightarrow> bool" where
  "excluded_from_target_identity c \<longleftrightarrow> c_kind c \<in> {ComponentKind.SecretReference, EnvironmentVariable}"

definition observed_by :: "Component \<Rightarrow> ProviderId list" where
  "observed_by c =
     (if excluded_from_target_identity c then []
      else (case idn_provider_package (c_identity c) of None \<Rightarrow> [] | Some (provider, _) \<Rightarrow> [provider])
         @ (case Option.bind (c_provenance c) prov_provider of None \<Rightarrow> [] | Some provider \<Rightarrow> [provider]))"

definition runtime_fact :: "Component \<Rightarrow> RuntimeFact" where
  "runtime_fact c = \<lparr>rf_id = c_id c, rf_version = c_version c, rf_architecture = c_architecture c\<rparr>"

definition installed_fact :: "Component \<Rightarrow> InstalledFact" where
  "installed_fact c =
     \<lparr>if_kind = c_kind c, if_identity = c_identity c, if_version = c_version c, if_publisher = c_publisher c,
      if_provenance = c_provenance c\<rparr>"

record target_scan =
  ts_installed :: "InstalledFact list"
  ts_runtimes :: "(ComponentId, RuntimeFact) btree"
  ts_observed :: "ProviderId list"

definition scan_component :: "Component \<Rightarrow> target_scan \<Rightarrow> target_scan restore" where
  "scan_component c t =
     (let t = t\<lparr>ts_observed := fold insort_insert (observed_by c) (ts_observed t)\<rparr> in
      if c_kind c = Runtime
      then try_bind (insert_once (schema_error ''target inventory contains conflicting runtime facts'')
                       (rf_id (runtime_fact c)) (runtime_fact c) (ts_runtimes t)) (\<lambda>runtimes.
           Inr (t\<lparr>ts_runtimes := runtimes\<rparr>))
      else if excluded_from_target_identity c then Inr t
      else Inr (t\<lparr>ts_installed := ts_installed t @ [installed_fact c]\<rparr>))"

definition normalize_installed :: "(InstalledFact \<Rightarrow> bytes restore) \<Rightarrow> InstalledFact list \<Rightarrow> InstalledFact list restore" where
  "normalize_installed fact_bytes facts =
     try_bind (try_map (\<lambda>f. try_bind (fact_bytes f) (\<lambda>key. Inr (key, f))) facts) (\<lambda>keyed.
     Inr (map snd (dedup_by fst (sort_key fst keyed))))"

subsection \<open>Providers and environment\<close>

definition add_observed :: "ProviderId \<Rightarrow> (ProviderId, ProviderFact) btree \<Rightarrow> (ProviderId, ProviderFact) btree" where
  "add_observed i providers =
     (case bt_get providers i of
        Some _ \<Rightarrow> providers
      | None \<Rightarrow> bt_insert i \<lparr>pf_id = i, pf_version = None, pf_available = True\<rparr> providers)"

definition normalize_providers :: "ProviderFact list \<Rightarrow> ProviderId list \<Rightarrow> ProviderFact list restore" where
  "normalize_providers facts observed =
     try_bind (try_fold (\<lambda>f. insert_once (schema_error ''target contains conflicting provider detection facts'') (pf_id f) f)
                 facts []) (\<lambda>providers.
     Inr (map snd (fold add_observed observed providers)))"

fun scope_rank :: "ConfigScope \<Rightarrow> nat" where
  "scope_rank Process = 0"
| "scope_rank ConfigScope.User = 1"
| "scope_rank System = 2"
| "scope_rank Project = 3"
| "scope_rank Managed = 4"

definition environment_key :: "EnvironmentFact \<Rightarrow> nat \<times> str" where
  "environment_key f = (scope_rank (ef_scope f), ef_name f)"

definition check_environment_fact :: "EnvironmentFact \<Rightarrow> EnvironmentFact restore" where
  "check_environment_fact f =
     (if ef_name f = [] \<or> length (ef_name f) > MAX_ENVIRONMENT_NAME_BYTES
         \<or> list_ex (\<lambda>c. code c = 0 \<or> c = CHR ''='') (ef_name f) \<or> has_control (ef_name f)
      then Inl (schema_error ''target environment variable name is invalid'')
      else case ef_value_hash f of
        None \<Rightarrow> Inr (f\<lparr>ef_name := to_uppercase (ef_name f)\<rparr>)
      | Some h \<Rightarrow>
          if is_ok (ObjectId_new h) then Inr (f\<lparr>ef_name := to_uppercase (ef_name f)\<rparr>)
          else Inl (schema_error ''target environment value hash is invalid''))"

definition add_environment_fact ::
  "EnvironmentFact \<Rightarrow> (nat \<times> str, EnvironmentFact) btree \<Rightarrow> (nat \<times> str, EnvironmentFact) btree restore" where
  "add_environment_fact f environment =
     try_bind (check_environment_fact f) (\<lambda>f.
     insert_once (schema_error ''target contains conflicting environment facts'') (environment_key f) f environment)"

definition normalize_environment :: "EnvironmentFact list \<Rightarrow> EnvironmentFact list restore" where
  "normalize_environment facts =
     try_bind (try_fold add_environment_fact facts []) (\<lambda>environment. Inr (map snd environment))"

subsection \<open>The fingerprint and the scan\<close>

definition fingerprint_projection :: "TargetFacts \<Rightarrow> TargetFacts" where
  "fingerprint_projection facts =
     facts\<lparr>tf_fingerprint := [],
       tf_host := (tf_host facts)\<lparr>hf_sid_fingerprint := None, hf_drives := [], hf_free_bytes := [],
         hf_known_folders := map (\<lambda>p. p\<lparr>pt_relative := []\<rparr>) (hf_known_folders (tf_host facts))\<rparr>,
       tf_installed := map (\<lambda>f. f\<lparr>if_provenance := None\<rparr>) (tf_installed facts),
       tf_environment := map (\<lambda>f. f\<lparr>ef_value_hash := None\<rparr>) (tf_environment facts)\<rparr>"

definition target_fingerprint :: "(TargetFacts \<Rightarrow> ObjectId restore) \<Rightarrow> TargetFacts \<Rightarrow> (ErrorEnvelope abort, str) result" where
  "target_fingerprint facts_id facts =
     try_bind (lift_fail (facts_id (fingerprint_projection facts))) (\<lambda>digest.
     try_bind (expect (strip_prefix digest ''obj_'')) (\<lambda>hex.
     Inr (''target_'' @ hex)))"

definition scan_with_current_facts ::
  "(InstalledFact \<Rightarrow> bytes restore) \<Rightarrow> (TargetFacts \<Rightarrow> ObjectId restore) \<Rightarrow> HostFacts \<Rightarrow> Component list
   \<Rightarrow> ProviderFact list \<Rightarrow> EnvironmentFact list \<Rightarrow> (ErrorEnvelope abort, TargetFacts) result" where
  "scan_with_current_facts fact_bytes facts_id host components provider_facts environment_facts =
     (if length components > MAX_TARGET_COMPONENTS
      then Inl (Fail (schema_error ''target inventory exceeds the bounded component count''))
      else if length provider_facts > MAX_PROVIDER_FACTS
      then Inl (Fail (schema_error ''target provider facts exceed the bounded provider count''))
      else if length environment_facts > MAX_ENVIRONMENT_FACTS
      then Inl (Fail (schema_error ''target environment facts exceed the bounded environment count''))
      else
      try_bind (lift_fail (normalize_host host)) (\<lambda>host.
      try_bind (lift_fail (try_fold scan_component components \<lparr>ts_installed = [], ts_runtimes = [], ts_observed = []\<rparr>)) (\<lambda>t.
      try_bind (lift_fail (normalize_installed fact_bytes (ts_installed t))) (\<lambda>installed.
      try_bind (lift_fail (normalize_providers provider_facts (ts_observed t))) (\<lambda>providers.
      try_bind (lift_fail (normalize_environment environment_facts)) (\<lambda>environment.
      let facts = \<lparr>tf_host = host, tf_installed = installed, tf_providers = providers,
                   tf_runtimes = map snd (ts_runtimes t), tf_environment = environment, tf_fingerprint = []\<rparr>
      in try_bind (target_fingerprint facts_id facts) (\<lambda>fingerprint.
         Inr (facts\<lparr>tf_fingerprint := fingerprint\<rparr>))))))))"

definition scan ::
  "(InstalledFact \<Rightarrow> bytes restore) \<Rightarrow> (TargetFacts \<Rightarrow> ObjectId restore) \<Rightarrow> HostFacts \<Rightarrow> Component list
   \<Rightarrow> (ErrorEnvelope abort, TargetFacts) result" where
  "scan fact_bytes facts_id host components = scan_with_current_facts fact_bytes facts_id host components [] []"

subsection \<open>What each step computes\<close>

definition is_installed :: "Component \<Rightarrow> bool" where
  "is_installed c \<longleftrightarrow> c_kind c \<noteq> Runtime \<and> \<not> excluded_from_target_identity c"

lemma scan_components:
  "try_fold scan_component cs t = Inr u \<Longrightarrow>
     ts_installed u = ts_installed t @ map installed_fact (filter is_installed cs)
     \<and> ts_observed u = fold insort_insert (concat (map observed_by cs)) (ts_observed t)
     \<and> try_fold (\<lambda>f. insert_once (schema_error ''target inventory contains conflicting runtime facts'') (rf_id f) f)
         (map runtime_fact (filter (\<lambda>c. c_kind c = Runtime) cs)) (ts_runtimes t) = Inr (ts_runtimes u)"
proof (induction cs arbitrary: t)
  case (Cons c cs)
  then obtain v where v: "scan_component c t = Inr v" "try_fold scan_component cs v = Inr u" by (auto simp: result_simps)
  from Cons.IH [OF v(2)] v(1) show ?case
    by (auto simp: scan_component_def is_installed_def result_simps Let_def split: if_splits)
qed simp

lemma insort_all: "sorted ys \<Longrightarrow> distinct ys \<Longrightarrow> fold insort_insert xs ys = sorted_list_of_set (set xs \<union> set ys)"
proof (induction xs arbitrary: ys)
  case Nil
  then show ?case by (simp add: sorted_list_of_set.idem_if_sorted_distinct)
next
  case (Cons x xs)
  have "sorted (insort_insert x ys)" "distinct (insort_insert x ys)"
    using Cons.prems by (simp_all add: sorted_insort_insert distinct_insort_insert)
  from Cons.IH [OF this] show ?case by (simp add: set_insort_insert Un_commute)
qed

lemma observed_providers:
  "bt_inv m \<Longrightarrow> bt_inv (fold add_observed is m)
   \<and> bt_get (fold add_observed is m) i = (case bt_get m i of Some p \<Rightarrow> Some p
       | None \<Rightarrow> if i \<in> set is then Some \<lparr>pf_id = i, pf_version = None, pf_available = True\<rparr> else None)"
proof (induction "is" arbitrary: m)
  case (Cons j js)
  have "bt_inv (add_observed j m)" using Cons.prems by (auto simp: add_observed_def bt_inv_insert split: option.splits)
  from Cons.IH [OF this] show ?case
    using Cons.prems by (auto simp: add_observed_def bt_get_insert split: option.splits if_splits)
qed (simp split: option.splits)

lemma environment_checked:
  "try_fold add_environment_fact facts m = Inr n \<Longrightarrow>
     try_fold (\<lambda>f. insert_once (schema_error ''target contains conflicting environment facts'') (environment_key f) f)
       (map (\<lambda>f. projr (check_environment_fact f)) facts) m = Inr n
     \<and> (\<forall>f \<in> set facts. is_ok (check_environment_fact f))"
  by (induction facts arbitrary: m) (auto simp: add_environment_fact_def result_simps)

lemma installed_normalized:
  assumes "normalize_installed fact_bytes facts = Inr out"
    and "\<forall>f \<in> set facts. \<forall>g \<in> set facts. fact_bytes f = fact_bytes g \<longrightarrow> f = g"
  shows "out = map snd (remdups_adj (sort_key fst (map (\<lambda>f. (projr (fact_bytes f), f)) facts)))"
    and "inj_on fst (set (map (\<lambda>f. (projr (fact_bytes f), f)) facts))"
    and "set out = set facts"
proof -
  obtain keyed where k: "try_map (\<lambda>f. try_bind (fact_bytes f) (\<lambda>key. Inr (key, f))) facts = Inr keyed"
    and out: "out = map snd (dedup_by fst (sort_key fst keyed))"
    using assms(1) by (auto simp: normalize_installed_def result_simps)
  have "keyed = map (\<lambda>f. (projr (fact_bytes f), f)) facts \<and> (\<forall>f \<in> set facts. is_ok (fact_bytes f))"
    using k by (induction facts arbitrary: keyed) (auto simp: result_simps)
  then have keyed: "keyed = map (\<lambda>f. (projr (fact_bytes f), f)) facts" and ok: "\<forall>f \<in> set facts. is_ok (fact_bytes f)" by auto
  have same: "fact_bytes f = fact_bytes g" if "f \<in> set facts" "g \<in> set facts" "projr (fact_bytes f) = projr (fact_bytes g)" for f g
    using that ok by (metis is_ok_iff sum.sel(2))
  show inj: "inj_on fst (set (map (\<lambda>f. (projr (fact_bytes f), f)) facts))"
    using same assms(2) by (auto simp: inj_on_def)
  show eq: "out = map snd (remdups_adj (sort_key fst (map (\<lambda>f. (projr (fact_bytes f), f)) facts)))"
    unfolding out keyed by (subst dedup_by_remdups) (use inj in simp_all)
  show "set out = set facts" unfolding eq by (auto simp: image_iff)
qed

lemma key_inj: "inj folder_key" "inj drive_key" "inj space_key"
proof -
  have "root_key a = root_key b \<Longrightarrow> a = b" for a b by (cases a; cases b) simp_all
  then show "inj folder_key" by (intro injI) (simp add: folder_key_def)
qed (auto intro!: injI simp: drive_key_def space_key_def)

lemma keyed_entries:
  assumes "bt_inv m" "\<And>k v. bt_get m k = Some v \<Longrightarrow> key v = k"
  shows "sorted_wrt (<) (map key (map snd m))"
proof -
  have "key v = k" if "(k, v) \<in> set m" for k v using that assms bt_inv_distinct [OF assms(1)] by simp
  then have "map key (map snd m) = map fst m" by auto
  with assms(1) show ?thesis unfolding bt_inv_def by metis
qed

lemma btree_value:
  assumes "bt_inv m"
  shows "v \<in> set (map snd m) \<longleftrightarrow> (\<exists>k. bt_get m k = Some v)"
  using bt_inv_distinct [OF assms] by force

lemma keyed_values:
  assumes "try_fold (\<lambda>x. insert_once e (key x) x) xs [] = Inr m"
  shows "set (map snd m) = set xs" "sorted_wrt (<) (map key (map snd m))"
proof -
  note once = insert_once_fold [OF assms]
  show "set (map snd m) = set xs" using btree_value [OF once(1)] once(2) by blast
  show "sorted_wrt (<) (map key (map snd m))" using once by (intro keyed_entries) blast+
qed

lemma provider_values:
  assumes "try_fold (\<lambda>f. insert_once e (pf_id f) f) ps [] = Inr m"
  shows "sorted_wrt (<) (map pf_id (map snd (fold add_observed is m)))"
    and "p \<in> set (map snd (fold add_observed is m)) \<longleftrightarrow> p \<in> set ps
      \<or> pf_id p \<notin> pf_id ` set ps \<and> pf_id p \<in> set is \<and> p = \<lparr>pf_id = pf_id p, pf_version = None, pf_available = True\<rparr>"
proof -
  note once = insert_once_fold [OF assms]
  note obs = observed_providers [OF once(1), of "is"]
  have none: "bt_get m i = None \<longleftrightarrow> i \<notin> pf_id ` set ps" for i using once(2) [of i]
    by (cases "bt_get m i") (simp_all add: image_iff, metis, metis)
  have get: "bt_get (fold add_observed is m) i = Some q \<longleftrightarrow> q \<in> set ps \<and> pf_id q = i
      \<or> i \<notin> pf_id ` set ps \<and> i \<in> set is \<and> q = \<lparr>pf_id = i, pf_version = None, pf_available = True\<rparr>" for i q
  proof (cases "bt_get m i")
    case None
    then have "i \<notin> pf_id ` set ps" using none by simp
    moreover have "bt_get (fold add_observed is m) i = (if i \<in> set is then Some \<lparr>pf_id = i, pf_version = None, pf_available = True\<rparr> else None)"
      using obs [of i] None by simp
    ultimately show ?thesis by auto
  next
    case (Some p)
    then have "i \<in> pf_id ` set ps" using none by (metis option.distinct(1))
    moreover have "bt_get (fold add_observed is m) i = bt_get m i" using obs [of i] Some by simp
    ultimately show ?thesis using once(2) [of i q] by simp
  qed
  show "sorted_wrt (<) (map pf_id (map snd (fold add_observed is m)))"
    using obs get by (intro keyed_entries) auto
  have "p \<in> set (map snd (fold add_observed is m)) \<longleftrightarrow> (\<exists>i. bt_get (fold add_observed is m) i = Some p)"
    using obs by (intro btree_value) blast
  also have "\<dots> \<longleftrightarrow> p \<in> set ps
      \<or> pf_id p \<notin> pf_id ` set ps \<and> pf_id p \<in> set is \<and> p = \<lparr>pf_id = pf_id p, pf_version = None, pf_available = True\<rparr>"
    unfolding get by (metis ProviderFact.select_convs(1))
  finally show "p \<in> set (map snd (fold add_observed is m)) \<longleftrightarrow> p \<in> set ps
      \<or> pf_id p \<notin> pf_id ` set ps \<and> pf_id p \<in> set is \<and> p = \<lparr>pf_id = pf_id p, pf_version = None, pf_available = True\<rparr>" .
qed

subsection \<open>The facts of a target\<close>

text \<open>Everything a successful scan went through.\<close>

lemma scan_stages:
  assumes "scan_with_current_facts fact_bytes facts_id host cs ps es = Inr f"
  obtains h t providers environment where "normalize_host host = Inr h"
    and "try_fold scan_component cs \<lparr>ts_installed = [], ts_runtimes = [], ts_observed = []\<rparr> = Inr t"
    and "normalize_installed fact_bytes (ts_installed t) = Inr (tf_installed f)"
    and "try_fold (\<lambda>f. insert_once (schema_error ''target contains conflicting provider detection facts'') (pf_id f) f) ps [] = Inr providers"
    and "try_fold add_environment_fact es [] = Inr environment"
    and "tf_host f = h" "tf_providers f = map snd (fold add_observed (ts_observed t) providers)"
    and "tf_runtimes f = map snd (ts_runtimes t)" "tf_environment f = map snd environment"
    and "target_fingerprint facts_id (f\<lparr>tf_fingerprint := []\<rparr>) = Inr (tf_fingerprint f)"
  using assms
  by (auto simp: scan_with_current_facts_def normalize_providers_def normalize_environment_def result_simps Let_def split: if_splits)

definition same_host :: "HostFacts \<Rightarrow> HostFacts \<Rightarrow> bool" where
  "same_host g h \<longleftrightarrow>
     g\<lparr>hf_known_folders := [], hf_drives := [], hf_free_bytes := []\<rparr> = h\<lparr>hf_known_folders := [], hf_drives := [], hf_free_bytes := []\<rparr>
     \<and> set (hf_known_folders g) = set (hf_known_folders h) \<and> set (hf_drives g) = set (hf_drives h)
     \<and> set (hf_free_bytes g) = set (hf_free_bytes h)"

lemma same_host_normalized:
  assumes "same_host g h" "normalize_host g = Inr g'" "normalize_host h = Inr h'"
  shows "g' = h'"
proof -
  note det = sort_dedup_set [OF _ inj_on_subset [OF key_inj(1) subset_UNIV]] sort_dedup_set [OF _ inj_on_subset [OF key_inj(2) subset_UNIV]]
    sort_dedup_set [OF _ inj_on_subset [OF key_inj(3) subset_UNIV]]
  have shape: "n = m\<lparr>hf_known_folders := remdups_adj (sort_key folder_key (hf_known_folders m)),
      hf_drives := remdups_adj (sort_key drive_key (hf_drives m)),
      hf_free_bytes := remdups_adj (sort_key space_key (hf_free_bytes m))\<rparr>" if "normalize_host m = Inr n" for m n
    using that by (auto simp: normalize_host_def result_simps Let_def split: if_splits)
  have fields: "remdups_adj (sort_key folder_key (hf_known_folders g)) = remdups_adj (sort_key folder_key (hf_known_folders h))"
    "remdups_adj (sort_key drive_key (hf_drives g)) = remdups_adj (sort_key drive_key (hf_drives h))"
    "remdups_adj (sort_key space_key (hf_free_bytes g)) = remdups_adj (sort_key space_key (hf_free_bytes h))"
    using assms(1) by (auto simp: same_host_def intro!: det)
  have "g\<lparr>hf_known_folders := a, hf_drives := b, hf_free_bytes := c\<rparr> = h\<lparr>hf_known_folders := a, hf_drives := b, hf_free_bytes := c\<rparr>" for a b c
    using assms(1) unfolding same_host_def by (cases g; cases h) simp
  then show ?thesis unfolding shape [OF assms(2)] shape [OF assms(3)] fields .
qed

text \<open>
  C33. The facts of a target are canonical. Two scans whose inputs agree as sets, in whatever order and
  however often components, detections, variables, folders and drives were reported, end with the
  same facts and the same fingerprint; all that is asked of canonical JSON is that the installed
  facts at hand have different encodings.
\<close>

theorem target_facts_canonical:
  assumes "scan_with_current_facts fact_bytes facts_id host cs ps es = Inr f"
    and "scan_with_current_facts fact_bytes facts_id host' cs' ps' es' = Inr f'"
    and "same_host host host'" "set cs = set cs'" "set ps = set ps'" "set es = set es'"
    and "\<forall>c \<in> set cs. \<forall>d \<in> set cs. fact_bytes (installed_fact c) = fact_bytes (installed_fact d) \<longrightarrow> installed_fact c = installed_fact d"
  shows "f = f'"
proof -
  obtain h t pm em where a: "normalize_host host = Inr h"
    "try_fold scan_component cs \<lparr>ts_installed = [], ts_runtimes = [], ts_observed = []\<rparr> = Inr t"
    "normalize_installed fact_bytes (ts_installed t) = Inr (tf_installed f)"
    "try_fold (\<lambda>f. insert_once (schema_error ''target contains conflicting provider detection facts'') (pf_id f) f) ps [] = Inr pm"
    "try_fold add_environment_fact es [] = Inr em"
    "tf_host f = h" "tf_providers f = map snd (fold add_observed (ts_observed t) pm)"
    "tf_runtimes f = map snd (ts_runtimes t)" "tf_environment f = map snd em"
    "target_fingerprint facts_id (f\<lparr>tf_fingerprint := []\<rparr>) = Inr (tf_fingerprint f)"
    using assms(1) by (rule scan_stages)
  obtain h' t' pm' em' where b: "normalize_host host' = Inr h'"
    "try_fold scan_component cs' \<lparr>ts_installed = [], ts_runtimes = [], ts_observed = []\<rparr> = Inr t'"
    "normalize_installed fact_bytes (ts_installed t') = Inr (tf_installed f')"
    "try_fold (\<lambda>f. insert_once (schema_error ''target contains conflicting provider detection facts'') (pf_id f) f) ps' [] = Inr pm'"
    "try_fold add_environment_fact es' [] = Inr em'"
    "tf_host f' = h'" "tf_providers f' = map snd (fold add_observed (ts_observed t') pm')"
    "tf_runtimes f' = map snd (ts_runtimes t')" "tf_environment f' = map snd em'"
    "target_fingerprint facts_id (f'\<lparr>tf_fingerprint := []\<rparr>) = Inr (tf_fingerprint f')"
    using assms(2) by (rule scan_stages)
  note sa = scan_components [OF a(2)] and sb = scan_components [OF b(2)]
  have host: "h = h'" using same_host_normalized [OF assms(3) a(1) b(1)] .
  have run: "ts_runtimes t = ts_runtimes t'" using sa sb assms(4) by (auto intro: insert_once_set)
  have "ts_observed t = ts_observed t'" using sa sb assms(4) by (simp add: insort_all)
  moreover have "pm = pm'" using insert_once_set [OF a(4) b(4) assms(5)] .
  ultimately have providers: "tf_providers f = tf_providers f'" by (simp add: a b)
  have env: "em = em'"
    using environment_checked [OF a(5)] environment_checked [OF b(5)] assms(6) by (auto intro: insert_once_set)
  have same: "set (ts_installed t) = set (ts_installed t')" using sa sb assms(4) by auto
  have inj: "\<forall>x \<in> set (ts_installed t). \<forall>y \<in> set (ts_installed t). fact_bytes x = fact_bytes y \<longrightarrow> x = y"
    using assms(7) sa by auto
  have installed: "tf_installed f = tf_installed f'"
    unfolding installed_normalized(1) [OF a(3) inj] installed_normalized(1) [OF b(3) inj [unfolded same]]
    using installed_normalized(2) [OF a(3) inj] same by (intro arg_cong [where f = "map snd"] sort_dedup_set) auto
  have "f\<lparr>tf_fingerprint := []\<rparr> = f'\<lparr>tf_fingerprint := []\<rparr>"
    using host run providers env installed by (simp add: a(6,8,9) b(6,8,9))
  then show ?thesis using a(10) b(10) by (cases f; cases f') simp
qed

definition sample_host :: HostFacts where
  "sample_host =
     \<lparr>hf_os_version = ''10'', hf_os_build = ''1'', hf_architecture = X64, hf_elevated = False, hf_account_scope = AccountScope.User,
      hf_sid_fingerprint = None, hf_known_folders = [], hf_drives = [], hf_free_bytes = []\<rparr>"

definition sample_found :: "str \<Rightarrow> ComponentKind \<Rightarrow> Component" where
  "sample_found i kind =
     \<lparr>c_id = i, c_kind = kind,
      c_identity = \<lparr>idn_provider_package = Some (''winget'', i), idn_provider_source = None, idn_package_family = None,
        idn_product_name = Some i, idn_executable_name = None, idn_publisher = None,
        idn_executable_hash = None, idn_install_role = None, idn_identity_quality = IdentityQuality.Product\<rparr>,
      c_display_name = i, c_version = None, c_architecture = None, c_publisher = None,
      c_provenance = None, c_evidence = [], c_confidence = Confirmed, c_dependencies = [], c_artifacts = [],
      c_restore = \<lparr>rd_primary = Reinstall, rd_alternatives = [], rd_portability = Portable,
        rd_requires_elevation = False, rd_requires_user_action = False, rd_rationale = []\<rparr>,
      c_compatibility = \<lparr>cmp_required_os = None, cmp_required_architecture = None,
        cmp_requires_provider = None, cmp_requires_runtime = None, cmp_requires_elevation = False,
        cmp_requires_wsl = False, cmp_requires_docker = False\<rparr>,
      c_verification = [],
      c_selection = \<lparr>sm_recommended = False, sm_score = 0, sm_selected_by_default = False,
        sm_sensitive = False, sm_size_bytes = 0\<rparr>,
      c_extensions = []\<rparr>"

text \<open>An encoding that tells facts apart by their kind, and an object id.\<close>

definition sample_bytes :: "InstalledFact \<Rightarrow> bytes restore" where
  "sample_bytes f = Inr [if if_kind f = Tool then 1 else if if_kind f = Package then 2 else 0]"

definition sample_object :: "TargetFacts \<Rightarrow> ObjectId restore" where
  "sample_object f = Inr ''obj_0''"

lemma sample_scans:
  "is_ok (scan_with_current_facts sample_bytes sample_object sample_host
     [sample_found ''a'' Tool, sample_found ''b'' Package, sample_found ''r'' Runtime] [] [])"
  "is_ok (scan_with_current_facts sample_bytes sample_object sample_host
     [sample_found ''r'' Runtime, sample_found ''b'' Package, sample_found ''a'' Tool, sample_found ''b'' Package] [] [])"
  by (simp_all add: scan_with_current_facts_def MAX_TARGET_COMPONENTS_def MAX_PROVIDER_FACTS_def MAX_ENVIRONMENT_FACTS_def
      normalize_host_def sample_host_def scan_component_def sample_found_def observed_by_def excluded_from_target_identity_def
      runtime_fact_def installed_fact_def insert_once_def normalize_installed_def sample_bytes_def normalize_providers_def
      add_observed_def insort_insert_key_def normalize_environment_def target_fingerprint_def sample_object_def strip_prefix_def starts_with_def)

theorem target_facts_canonical_witness:
  "\<exists>f. scan_with_current_facts sample_bytes sample_object sample_host
       [sample_found ''a'' Tool, sample_found ''b'' Package, sample_found ''r'' Runtime] [] [] = Inr f
     \<and> scan_with_current_facts sample_bytes sample_object sample_host
       [sample_found ''r'' Runtime, sample_found ''b'' Package, sample_found ''a'' Tool, sample_found ''b'' Package] [] [] = Inr f"
proof -
  obtain f f' where f: "scan_with_current_facts sample_bytes sample_object sample_host
       [sample_found ''a'' Tool, sample_found ''b'' Package, sample_found ''r'' Runtime] [] [] = Inr f"
    "scan_with_current_facts sample_bytes sample_object sample_host
       [sample_found ''r'' Runtime, sample_found ''b'' Package, sample_found ''a'' Tool, sample_found ''b'' Package] [] [] = Inr f'"
    using sample_scans unfolding is_ok_iff by blast
  have "f = f'"
    by (rule target_facts_canonical [OF f])
      (auto simp: same_host_def sample_bytes_def installed_fact_def sample_found_def)
  with f show ?thesis by blast
qed

text \<open>
  The facts of a target are exact. Nothing is invented and nothing but secret references and
  environment variables is left out: the installed facts are those of the components that are no
  runtimes, the runtimes those of the runtime components with one fact for each id, the providers
  the detected ones and, as available, those that only components name; the variables are those
  given, under their upper-case names and one for each scope and name.
\<close>

theorem target_facts_exact:
  assumes "scan_with_current_facts fact_bytes facts_id host cs ps es = Inr f"
    and "\<forall>c \<in> set cs. \<forall>d \<in> set cs. fact_bytes (installed_fact c) = fact_bytes (installed_fact d) \<longrightarrow> installed_fact c = installed_fact d"
  shows "set (tf_installed f) = installed_fact ` {c \<in> set cs. is_installed c}
    \<and> set (tf_runtimes f) = runtime_fact ` {c \<in> set cs. c_kind c = Runtime} \<and> sorted_wrt (<) (map rf_id (tf_runtimes f))
    \<and> (\<forall>p. p \<in> set (tf_providers f) \<longleftrightarrow> p \<in> set ps
         \<or> pf_id p \<notin> pf_id ` set ps \<and> (\<exists>c \<in> set cs. pf_id p \<in> set (observed_by c))
           \<and> p = \<lparr>pf_id = pf_id p, pf_version = None, pf_available = True\<rparr>)
    \<and> sorted_wrt (<) (map pf_id (tf_providers f))
    \<and> set (tf_environment f) = (\<lambda>e. e\<lparr>ef_name := to_uppercase (ef_name e)\<rparr>) ` set es
    \<and> sorted_wrt (<) (map environment_key (tf_environment f))"
proof -
  obtain h t pm em where a: "normalize_host host = Inr h"
    "try_fold scan_component cs \<lparr>ts_installed = [], ts_runtimes = [], ts_observed = []\<rparr> = Inr t"
    "normalize_installed fact_bytes (ts_installed t) = Inr (tf_installed f)"
    "try_fold (\<lambda>f. insert_once (schema_error ''target contains conflicting provider detection facts'') (pf_id f) f) ps [] = Inr pm"
    "try_fold add_environment_fact es [] = Inr em"
    "tf_host f = h" "tf_providers f = map snd (fold add_observed (ts_observed t) pm)"
    "tf_runtimes f = map snd (ts_runtimes t)" "tf_environment f = map snd em"
    "target_fingerprint facts_id (f\<lparr>tf_fingerprint := []\<rparr>) = Inr (tf_fingerprint f)"
    using assms(1) by (rule scan_stages)
  note s = scan_components [OF a(2)]
  have inj: "\<forall>x \<in> set (ts_installed t). \<forall>y \<in> set (ts_installed t). fact_bytes x = fact_bytes y \<longrightarrow> x = y"
    using assms(2) s by auto
  have "set (tf_installed f) = installed_fact ` {c \<in> set cs. is_installed c}"
    unfolding installed_normalized(3) [OF a(3) inj] using s by auto
  moreover have "try_fold (\<lambda>f. insert_once (schema_error ''target inventory contains conflicting runtime facts'') (rf_id f) f)
      (map runtime_fact (filter (\<lambda>c. c_kind c = Runtime) cs)) [] = Inr (ts_runtimes t)" using s by simp
  note runtimes = keyed_values [OF this]
  moreover note environment = keyed_values [OF conjunct1 [OF environment_checked [OF a(5)]]]
  moreover have "projr (check_environment_fact e) = e\<lparr>ef_name := to_uppercase (ef_name e)\<rparr>" if "e \<in> set es" for e
  proof -
    have "is_ok (check_environment_fact e)" using environment_checked [OF a(5)] that by blast
    then show ?thesis by (auto simp: check_environment_fact_def split: if_splits option.splits)
  qed
  then have "set (map (\<lambda>f. projr (check_environment_fact f)) es) = (\<lambda>e. e\<lparr>ef_name := to_uppercase (ef_name e)\<rparr>) ` set es" by simp
  moreover have "set (ts_observed t) = (\<Union>c \<in> set cs. set (observed_by c))" using s by (simp add: insort_all)
  then have "sorted_wrt (<) (map pf_id (tf_providers f)) \<and> (\<forall>p. p \<in> set (tf_providers f) \<longleftrightarrow> p \<in> set ps
         \<or> pf_id p \<notin> pf_id ` set ps \<and> (\<exists>c \<in> set cs. pf_id p \<in> set (observed_by c))
           \<and> p = \<lparr>pf_id = pf_id p, pf_version = None, pf_available = True\<rparr>)"
    using provider_values(1) [OF a(4), of "ts_observed t"] provider_values(2) [OF a(4), of _ "ts_observed t"]
    unfolding a(7) by simp
  ultimately show ?thesis by (simp add: a(8,9) image_image set_map) 
qed

theorem target_facts_exact_witness:
  "\<exists>f. scan_with_current_facts sample_bytes sample_object sample_host
       [sample_found ''a'' Tool, sample_found ''b'' Package, sample_found ''r'' Runtime] [] [] = Inr f
     \<and> set (tf_runtimes f) = {runtime_fact (sample_found ''r'' Runtime)}"
proof -
  obtain f where f: "scan_with_current_facts sample_bytes sample_object sample_host
       [sample_found ''a'' Tool, sample_found ''b'' Package, sample_found ''r'' Runtime] [] [] = Inr f"
    using sample_scans(1) unfolding is_ok_iff by blast
  have "set (tf_runtimes f) = runtime_fact ` {c \<in> set [sample_found ''a'' Tool, sample_found ''b'' Package, sample_found ''r'' Runtime].
      c_kind c = Runtime}"
    using target_facts_exact [OF f] by (auto simp: sample_bytes_def installed_fact_def sample_found_def)
  also have "\<dots> = {runtime_fact (sample_found ''r'' Runtime)}" by (auto simp: sample_found_def)
  finally show ?thesis using f by blast
qed

text \<open>
  The fingerprint holds nothing local. Whatever the account's fingerprint, the drives and their free
  space, where components came from and the hashes of variables are, the fingerprint is the same.
\<close>

theorem fingerprint_ignores_local_facts:
  "target_fingerprint facts_id
     (f\<lparr>tf_host := (tf_host f)\<lparr>hf_sid_fingerprint := sid, hf_drives := drives, hf_free_bytes := free_bytes\<rparr>,
        tf_installed := map (\<lambda>i. i\<lparr>if_provenance := provenance i\<rparr>) (tf_installed f),
        tf_environment := map (\<lambda>e. e\<lparr>ef_value_hash := value_hash e\<rparr>) (tf_environment f)\<rparr>)
   = target_fingerprint facts_id f"
  by (simp add: target_fingerprint_def fingerprint_projection_def comp_def)

end
