(* ===== verification/Canonical.thy ===== *)
theory Canonical
  imports Sorting Errors
begin

text \<open>
  Canonical JSON, \<^verbatim>\<open>crates/reforge-package/src/canonical.rs\<close>: from a JSON value to the bytes that
  object ids and signatures cover. Object keys are sorted, array order is kept, declared timestamps
  and paths are normalised. Parameters are the string encoder of the JSON library
  (\<open>json_string\<close>) and the reading and rendering of RFC 3339 times (\<open>rfc3339\<close>); the conversion of Rust
  values into JSON values is not modelled, and numbers are integers, which are always finite.
\<close>

definition canonical_error :: "str \<Rightarrow> ErrorEnvelope" where
  "canonical_error message = ErrorEnvelope_new SchemaInvalid message"

definition serialization_error :: ErrorEnvelope where
  "serialization_error = canonical_error ''value could not be represented as canonical JSON''"

definition is_timestamp_field :: "str \<Rightarrow> bool" where
  "is_timestamp_field field_name \<longleftrightarrow>
     field_name \<in> {''acknowledged_at'', ''captured_at'', ''completed_at'', ''created_at'', ''observed_at'', ''started_at'',
                   ''timestamp'', ''updated_at''}"

definition is_path_field :: "str \<Rightarrow> bool" where
  "is_path_field field_name \<longleftrightarrow> field_name \<in> {''destination'', ''path'', ''relative'', ''source_path''}"

definition normalize_timestamp :: "(str \<Rightarrow> str option) \<Rightarrow> str \<Rightarrow> (ErrorEnvelope, str) result" where
  "normalize_timestamp rfc3339 v = ok_or (canonical_error ''declared timestamp is not valid RFC 3339'') (rfc3339 v)"

definition has_drive_prefix :: "str \<Rightarrow> bool" where
  "has_drive_prefix v \<longleftrightarrow> length v \<ge> 2 \<and> is_ascii_alphabetic (v ! 0) \<and> v ! 1 = CHR '':''"

fun path_segments :: "str list \<Rightarrow> str list \<Rightarrow> (ErrorEnvelope, str list) result" where
  "path_segments [] segments = Inr segments"
| "path_segments (segment # rest) segments =
     (if segment = [] \<or> segment = ''.'' then path_segments rest segments
      else if segment = ''..'' then Inl (canonical_error ''declared path contains a parent segment'')
      else if CHR '':'' \<in> set segment then Inl (canonical_error ''declared path contains a drive or URI prefix'')
      else path_segments rest (segments @ [segment]))"

definition normalize_path :: "str \<Rightarrow> (ErrorEnvelope, str) result" where
  "normalize_path v =
     (if CHR 0x00 \<in> set v then Inl (canonical_error ''declared path contains a NUL byte'')
      else let v = map (\<lambda>c. if c = CHR 0x5C then CHR ''/'' else c) v in
        if starts_with v ''/'' \<or> starts_with v ''//'' \<or> has_drive_prefix v
        then Inl (canonical_error ''declared path must be a relative token path'')
        else try_bind (path_segments (split_on (\<lambda>c. c = CHR ''/'') v) []) (\<lambda>segments. Inr (join_with ''/'' segments)))"

definition normalize_string :: "(str \<Rightarrow> str option) \<Rightarrow> str option \<Rightarrow> str \<Rightarrow> (ErrorEnvelope, str) result" where
  "normalize_string rfc3339 field_name v =
     (case field_name of
        None \<Rightarrow> Inr v
      | Some name \<Rightarrow>
          if is_timestamp_field name then normalize_timestamp rfc3339 v
          else if is_path_field name then normalize_path v
          else Inr v)"

definition write_json_string :: "(str \<Rightarrow> str option) \<Rightarrow> str \<Rightarrow> (ErrorEnvelope, str) result" where
  "write_json_string json_string v = ok_or serialization_error (json_string v)"

definition write_string ::
  "(str \<Rightarrow> str option) \<Rightarrow> (str \<Rightarrow> str option) \<Rightarrow> str option \<Rightarrow> str \<Rightarrow> (ErrorEnvelope, str) result" where
  "write_string json_string rfc3339 field_name v =
     try_bind (normalize_string rfc3339 field_name v) (write_json_string json_string)"

definition write_number :: "int \<Rightarrow> str" where
  "write_number n = (if n < 0 then CHR ''-'' # show_nat (nat (- n)) else show_nat (nat n))"

lemma try_map_cong [fundef_cong]:
  "xs = ys \<Longrightarrow> (\<And>x. x \<in> set ys \<Longrightarrow> f x = g x) \<Longrightarrow> try_map f xs = try_map g ys"
  by (induction xs arbitrary: ys) auto

function write_value ::
  "(str \<Rightarrow> str option) \<Rightarrow> (str \<Rightarrow> str option) \<Rightarrow> str option \<Rightarrow> Value \<Rightarrow> (ErrorEnvelope, str) result" where
  "write_value js rfc field_name Null = Inr ''null''"
| "write_value js rfc field_name (Bool b) = Inr (if b then ''true'' else ''false'')"
| "write_value js rfc field_name (Number n) = Inr (write_number n)"
| "write_value js rfc field_name (String s) = write_string js rfc field_name s"
| "write_value js rfc field_name (Array vs) =
     try_bind (try_map (write_value js rfc None) vs) (\<lambda>parts. Inr (''['' @ join_with '','' parts @ '']''))"
| "write_value js rfc field_name (Object kvs) =
     try_bind (try_map (\<lambda>kv.
         try_bind (write_json_string js (fst kv)) (\<lambda>key.
         try_bind (write_value js rfc (Some (fst kv)) (snd kv)) (\<lambda>out. Inr (key @ '':'' @ out))))
       (sort_key fst kvs)) (\<lambda>parts. Inr (''{'' @ join_with '','' parts @ ''}''))"
  by pat_completeness auto
termination
proof (relation "measure (\<lambda>(_, _, _, v). size v)", goal_cases)
  case (2 js rfc field_name vs v)
  then show ?case by (induction vs) auto
next
  case (3 js rfc field_name kvs kv)
  then have "kv \<in> set kvs" by simp
  then show ?case by (induction kvs) auto
qed simp

definition canonical_value_bytes ::
  "(str \<Rightarrow> str option) \<Rightarrow> (str \<Rightarrow> str option) \<Rightarrow> Value \<Rightarrow> (ErrorEnvelope, str) result" where
  "canonical_value_bytes js rfc v = write_value js rfc None v"

subsection \<open>The canonical form\<close>

text \<open>What canonicalisation does to the value itself, apart from rendering it.\<close>

function canonical_form :: "(str \<Rightarrow> str option) \<Rightarrow> str option \<Rightarrow> Value \<Rightarrow> (ErrorEnvelope, Value) result" where
  "canonical_form rfc field_name Null = Inr Null"
| "canonical_form rfc field_name (Bool b) = Inr (Bool b)"
| "canonical_form rfc field_name (Number n) = Inr (Number n)"
| "canonical_form rfc field_name (String s) = try_bind (normalize_string rfc field_name s) (\<lambda>s. Inr (String s))"
| "canonical_form rfc field_name (Array vs) = try_bind (try_map (canonical_form rfc None) vs) (\<lambda>vs. Inr (Array vs))"
| "canonical_form rfc field_name (Object kvs) =
     try_bind (try_map (\<lambda>kv. try_bind (canonical_form rfc (Some (fst kv)) (snd kv)) (\<lambda>v. Inr (fst kv, v))) (sort_key fst kvs))
       (\<lambda>kvs. Inr (Object kvs))"
  by pat_completeness auto
termination
proof (relation "measure (\<lambda>(_, _, v). size v)", goal_cases)
  case (2 rfc field_name vs v)
  then show ?case by (induction vs) auto
next
  case (3 rfc field_name kvs kv)
  then have "kv \<in> set kvs" by simp
  then show ?case by (induction kvs) auto
qed simp

text \<open>The rendering, for an encoder of strings.\<close>

function printed :: "(str \<Rightarrow> str) \<Rightarrow> Value \<Rightarrow> str" where
  "printed e Null = ''null''"
| "printed e (Bool b) = (if b then ''true'' else ''false'')"
| "printed e (Number n) = write_number n"
| "printed e (String s) = e s"
| "printed e (Array vs) = ''['' @ join_with '','' (map (printed e) vs) @ '']''"
| "printed e (Object kvs) = ''{'' @ join_with '','' (map (\<lambda>kv. e (fst kv) @ '':'' @ printed e (snd kv)) kvs) @ ''}''"
  by pat_completeness auto
termination
proof (relation "measure (\<lambda>(_, v). size v)", goal_cases)
  case (2 e vs v)
  then show ?case by (induction vs) auto
next
  case (3 e kvs kv)
  then show ?case by (induction kvs) auto
qed simp

lemma try_map_bind:
  assumes "\<forall>x \<in> set xs. f x = try_bind (g x) (\<lambda>y. Inr (p y))"
  shows "try_map f xs = try_bind (try_map g xs) (\<lambda>ys. Inr (map p ys))"
  using assms
proof (induction xs)
  case (Cons x xs)
  then show ?case by (cases "g x"; cases "try_map g xs") simp_all
qed simp

text \<open>Canonical bytes are the rendering of the canonical form.\<close>

lemma write_value_printed:
  "write_value (\<lambda>s. Some (e s)) rfc field_name v = try_bind (canonical_form rfc field_name v) (\<lambda>n. Inr (printed e n))"
proof (induction rfc field_name v rule: canonical_form.induct)
  case (4 rfc field_name s)
  then show ?case by (cases "normalize_string rfc field_name s") (simp_all add: write_string_def write_json_string_def)
next
  case (5 rfc field_name vs)
  then have "try_map (write_value (\<lambda>s. Some (e s)) rfc None) vs =
      try_bind (try_map (canonical_form rfc None) vs) (\<lambda>ns. Inr (map (printed e) ns))"
    by (intro try_map_bind) blast
  then show ?case by (cases "try_map (canonical_form rfc None) vs") simp_all
next
  case (6 rfc field_name kvs)
  let ?c = "\<lambda>kv. try_bind (canonical_form rfc (Some (fst kv)) (snd kv)) (\<lambda>v. Inr (fst kv, v))"
  have "try_map (\<lambda>kv. try_bind (write_json_string (\<lambda>s. Some (e s)) (fst kv)) (\<lambda>key.
         try_bind (write_value (\<lambda>s. Some (e s)) rfc (Some (fst kv)) (snd kv)) (\<lambda>out. Inr (key @ '':'' @ out)))) (sort_key fst kvs)
      = try_bind (try_map ?c (sort_key fst kvs)) (\<lambda>ns. Inr (map (\<lambda>kv. e (fst kv) @ '':'' @ printed e (snd kv)) ns))"
  proof (rule try_map_bind, rule ballI)
    fix kv assume "kv \<in> set (sort_key fst kvs)"
    with 6 show "try_bind (write_json_string (\<lambda>s. Some (e s)) (fst kv)) (\<lambda>key.
         try_bind (write_value (\<lambda>s. Some (e s)) rfc (Some (fst kv)) (snd kv)) (\<lambda>out. Inr (key @ '':'' @ out)))
       = try_bind (?c kv) (\<lambda>kv. Inr (e (fst kv) @ '':'' @ printed e (snd kv)))"
      by (cases "canonical_form rfc (Some (fst kv)) (snd kv)") (simp_all add: write_json_string_def)
  qed
  then show ?case by (cases "try_map ?c (sort_key fst kvs)") simp_all
qed simp_all

subsection \<open>The rendering can be read in one way only\<close>

text \<open>The string encoder always succeeds, opens with a quote and delimits itself.\<close>

definition json_string_laws :: "(str \<Rightarrow> str option) \<Rightarrow> bool" where
  "json_string_laws js \<longleftrightarrow> (\<exists>e. js = (\<lambda>s. Some (e s)) \<and> (\<forall>s. \<exists>t. e s = CHR 0x22 # t)
     \<and> (\<forall>s t r r'. e s @ r = e t @ r' \<longrightarrow> s = t \<and> r = r'))"

definition stops :: "str \<Rightarrow> bool" where
  "stops r \<longleftrightarrow> r = [] \<or> hd r \<in> {CHR '','', CHR '']'', CHR ''}''}"

lemma stops_no_digit: "stops r \<Longrightarrow> r = [] \<or> \<not> is_ascii_digit (hd r)"
  by (auto simp: stops_def is_ascii_digit_def)

lemma digits_once:
  assumes "show_nat a @ r = show_nat b @ r'" "stops r" "stops r'"
  shows "a = b \<and> r = r'"
proof -
  have "takeWhile is_ascii_digit (show_nat n @ s) = show_nat n" if "stops s" for n s
    using stops_no_digit [OF that] show_nat_digits by (cases s) (auto simp: takeWhile_append2)
  then have "show_nat a = show_nat b" using assms by metis
  with assms(1) show ?thesis using show_nat_inj by auto
qed

lemma number_once:
  assumes "write_number a @ r = write_number b @ r'" "stops r" "stops r'"
  shows "a = b \<and> r = r'"
proof -
  have minus: "CHR ''-'' # s \<noteq> show_nat n @ t" for n s t
  proof
    assume "CHR ''-'' # s = show_nat n @ t"
    then have "CHR ''-'' \<in> set (show_nat n)" by (cases "show_nat n") auto
    then show False using show_nat_digits by (fastforce simp: is_ascii_digit_def)
  qed
  show ?thesis
  proof (cases "a < 0"; cases "b < 0")
    assume "a < 0" "b < 0"
    with assms digits_once [of "nat (- a)" r "nat (- b)" r'] show ?thesis by (auto simp: write_number_def)
  next
    assume "\<not> a < 0" "\<not> b < 0"
    with assms digits_once [of "nat a" r "nat b" r'] show ?thesis by (auto simp: write_number_def)
  qed (use assms minus minus [symmetric] in \<open>auto simp: write_number_def\<close>)
qed

text \<open>A rendering that can be read off in front of whatever may follow it.\<close>

definition read_once :: "('a \<Rightarrow> str) \<Rightarrow> 'a \<Rightarrow> bool" where
  "read_once p x \<longleftrightarrow> (\<forall>y r r'. p x @ r = p y @ r' \<and> stops r \<and> stops r' \<longrightarrow> x = y \<and> r = r')"

lemma list_once:
  assumes "\<forall>x \<in> set xs. read_once p x" and head: "\<forall>x. p x \<noteq> [] \<and> \<not> stops (p x)" and c: "c \<in> {CHR '']'', CHR ''}''}"
    and "join_with '','' (map p xs) @ c # r = join_with '','' (map p ys) @ c # r'"
  shows "xs = ys \<and> r = r'"
  using assms(1,4)
proof (induction xs arbitrary: ys)
  case Nil
  show ?case
  proof (cases ys)
    case (Cons y ys')
    then obtain t where "c # r = p y @ t" using Nil.prems(2) by (auto simp: join_with_Cons split: if_splits)
    moreover obtain h s where "p y = h # s" using head by (cases "p y") auto
    ultimately show ?thesis using head [rule_format, of y] c by (auto simp: stops_def)
  qed (use Nil.prems in simp)
next
  case (Cons x xs)
  let ?rest = "\<lambda>zs r. if zs = [] then c # r else CHR '','' # join_with '','' (map p zs) @ c # r"
  have split: "join_with '','' (map p (z # zs)) @ c # r = p z @ ?rest zs r" for z zs r by (simp add: join_with_Cons)
  have stop: "stops (?rest zs r)" for zs r using c by (auto simp: stops_def)
  show ?case
  proof (cases ys)
    case Nil
    then obtain t where "p x @ t = c # r'" using Cons.prems(2) by (auto simp: join_with_Cons split: if_splits)
    moreover obtain h s where "p x = h # s" using head by (cases "p x") auto
    ultimately show ?thesis using head [rule_format, of x] c by (auto simp: stops_def)
  next
    case ys: (Cons y ys')
    have "read_once p x" using Cons.prems(1) by simp
    then have "p x @ ?rest xs r = p y @ ?rest ys' r' \<and> stops (?rest xs r) \<and> stops (?rest ys' r') \<longrightarrow> x = y \<and> ?rest xs r = ?rest ys' r'"
      unfolding read_once_def by (elim allE)
    moreover have "p x @ ?rest xs r = p y @ ?rest ys' r'" using Cons.prems(2) unfolding ys split .
    ultimately have "x = y" and rest: "?rest xs r = ?rest ys' r'" using stop by blast+
    have "xs = ys' \<and> r = r'"
    proof (cases "xs = [] \<or> ys' = []")
      case True
      with rest c show ?thesis by (auto split: if_splits)
    next
      case False
      with rest have "join_with '','' (map p xs) @ c # r = join_with '','' (map p ys') @ c # r'" by simp
      then show ?thesis using Cons.IH Cons.prems(1) by simp
    qed
    with \<open>x = y\<close> show ?thesis by (simp add: ys)
  qed
qed

text \<open>The first character tells what kind of value follows.\<close>

fun tag :: "Value \<Rightarrow> nat" where
  "tag Null = 0"
| "tag (Bool b) = (if b then 1 else 2)"
| "tag (Number n) = 3"
| "tag (String s) = 4"
| "tag (Array vs) = 5"
| "tag (Object kvs) = 6"

definition char_tag :: "char \<Rightarrow> nat" where
  "char_tag c =
     (if c = CHR ''n'' then 0 else if c = CHR ''t'' then 1 else if c = CHR ''f'' then 2
      else if c = CHR 0x22 then 4 else if c = CHR ''['' then 5 else if c = CHR ''{'' then 6
      else if c = CHR ''-'' \<or> is_ascii_digit c then 3 else 7)"

lemma number_head: "\<exists>c t. write_number n = c # t \<and> char_tag c = 3"
proof -
  obtain c t where d: "show_nat (nat n) = c # t" by (cases "show_nat (nat n)") auto
  then have "is_ascii_digit c" using show_nat_digits [of c "nat n"] by simp
  then have "char_tag c = 3" by (auto simp: char_tag_def is_ascii_digit_def)
  with d show ?thesis by (auto simp: write_number_def char_tag_def)
qed

lemma printed_head:
  assumes "\<forall>s. \<exists>t. e s = CHR 0x22 # t"
  shows "\<exists>c t. printed e v = c # t \<and> char_tag c = tag v"
proof (cases v)
  case (Number n)
  then show ?thesis using number_head [of n] by simp
next
  case (String s)
  then show ?thesis using assms [rule_format, of s] by (auto simp: char_tag_def)
qed (auto simp: char_tag_def)

lemma printed_stops:
  assumes "\<forall>s. \<exists>t. e s = CHR 0x22 # t"
  shows "printed e v \<noteq> [] \<and> \<not> stops (printed e v)"
proof -
  obtain c t where c: "printed e v = c # t" "char_tag c = tag v" using printed_head [OF assms] by blast
  have "tag v < 7" by (cases v) auto
  with c(2) have "c \<notin> {CHR '','', CHR '']'', CHR ''}''}" by (auto simp: char_tag_def is_ascii_digit_def)
  with c(1) show ?thesis by (simp add: stops_def)
qed

lemma printed_once:
  assumes quoted: "\<forall>s. \<exists>t. e s = CHR 0x22 # t" and delimited: "\<forall>s t r r'. e s @ r = e t @ r' \<longrightarrow> s = t \<and> r = r'"
  shows "read_once (printed e) v"
proof (induction v)
  case (Object kvs)
  let ?p = "\<lambda>kv. e (fst kv) @ '':'' @ printed e (snd kv)"
  have entries: "\<forall>kv \<in> set kvs. read_once ?p kv"
  proof (intro ballI, unfold read_once_def, intro allI impI)
    fix kv y r r' assume kv: "kv \<in> set kvs" and eq: "?p kv @ r = ?p y @ r' \<and> stops r \<and> stops r'"
    then have "fst kv = fst y" "printed e (snd kv) @ r = printed e (snd y) @ r'"
      using delimited [rule_format, of "fst kv" "'':'' @ printed e (snd kv) @ r" "fst y" "'':'' @ printed e (snd y) @ r'"] by auto
    moreover have "read_once (printed e) (snd kv)" using Object [of kv "snd kv"] kv by (simp add: snds.simps)
    ultimately show "kv = y \<and> r = r'" using eq unfolding read_once_def by (metis prod.expand)
  qed
  have head: "\<forall>kv. ?p kv \<noteq> [] \<and> \<not> stops (?p kv)"
  proof
    fix kv show "?p kv \<noteq> [] \<and> \<not> stops (?p kv)" using quoted [rule_format, of "fst kv"] by (auto simp: stops_def)
  qed
  show ?case unfolding read_once_def
  proof (intro allI impI)
    fix w r r' assume eq: "printed e (Object kvs) @ r = printed e w @ r' \<and> stops r \<and> stops r'"
    then have "tag w = 6" using printed_head [OF quoted, of w] by (auto simp: char_tag_def)
    then obtain kvs' where w: "w = Object kvs'" by (cases w) (auto split: if_splits)
    from eq have "join_with '','' (map ?p kvs) @ CHR ''}'' # r = join_with '','' (map ?p kvs') @ CHR ''}'' # r'" by (simp add: w)
    from list_once [OF entries head _ this] show "Object kvs = w \<and> r = r'" by (simp add: w)
  qed
next
  case (Array vs)
  have elements: "\<forall>v \<in> set vs. read_once (printed e) v" using Array by blast
  show ?case unfolding read_once_def
  proof (intro allI impI)
    fix w r r' assume eq: "printed e (Array vs) @ r = printed e w @ r' \<and> stops r \<and> stops r'"
    then have "tag w = 5" using printed_head [OF quoted, of w] by (auto simp: char_tag_def)
    then obtain vs' where w: "w = Array vs'" by (cases w) (auto split: if_splits)
    from eq have "join_with '','' (map (printed e) vs) @ CHR '']'' # r = join_with '','' (map (printed e) vs') @ CHR '']'' # r'"
      by (simp add: w)
    from list_once [OF elements _ _ this] show "Array vs = w \<and> r = r'" using printed_stops [OF quoted] by (simp add: w)
  qed
next
  case (Number n)
  show ?case unfolding read_once_def
  proof (intro allI impI)
    fix w r r' assume eq: "printed e (Number n) @ r = printed e w @ r' \<and> stops r \<and> stops r'"
    then have "tag w = 3" using printed_head [OF quoted, of w] number_head [of n] by auto
    then obtain m where w: "w = Number m" by (cases w) (auto split: if_splits)
    from eq number_once [of n r m r'] show "Number n = w \<and> r = r'" by (simp add: w)
  qed
next
  case (String s)
  show ?case unfolding read_once_def
  proof (intro allI impI)
    fix w r r' assume eq: "printed e (String s) @ r = printed e w @ r' \<and> stops r \<and> stops r'"
    obtain t where "e s = CHR 0x22 # t" using quoted by blast
    with eq have "tag w = 4" using printed_head [OF quoted, of w] by (auto simp: char_tag_def)
    then obtain s' where w: "w = String s'" by (cases w) (auto split: if_splits)
    from eq delimited [rule_format, of s r s' r'] show "String s = w \<and> r = r'" by (simp add: w)
  qed
next
  case (Bool b)
  show ?case unfolding read_once_def
  proof (intro allI impI)
    fix w r r' assume eq: "printed e (Bool b) @ r = printed e w @ r' \<and> stops r \<and> stops r'"
    then have "tag w = tag (Bool b)" using printed_head [OF quoted, of w] by (cases b) (auto simp: char_tag_def)
    then have "w = Bool b" by (cases w) (auto split: if_splits)
    with eq show "Bool b = w \<and> r = r'" by simp
  qed
next
  case Null
  show ?case unfolding read_once_def
  proof (intro allI impI)
    fix w r r' assume eq: "printed e Null @ r = printed e w @ r' \<and> stops r \<and> stops r'"
    then have "tag w = 0" using printed_head [OF quoted, of w] by (auto simp: char_tag_def)
    then have "w = Null" by (cases w) (auto split: if_splits)
    with eq show "Null = w \<and> r = r'" by simp
  qed
qed

lemma entries_sorted_once:
  fixes kvs :: "(str \<times> Value) list"
  assumes "distinct (map fst kvs)" "set kvs = set kvs'" "distinct (map fst kvs')"
  shows "sort_key fst kvs = sort_key fst kvs'"
proof -
  have once: "remdups_adj (sort_key fst xs) = sort_key fst xs" if "distinct (map fst xs)" for xs :: "(str \<times> Value) list"
    using that by (intro remdups_adj_distinct) (simp add: distinct_map)
  have "inj_on fst (set kvs)" using assms(1) by (simp add: distinct_map)
  from sort_dedup_set [OF assms(2) this] show ?thesis unfolding once [OF assms(1)] once [OF assms(3)] .
qed

text \<open>Values that differ at most in the order of object entries, at any depth.\<close>

inductive same_document :: "Value \<Rightarrow> Value \<Rightarrow> bool" where
  same_leaf: "same_document v v"
| same_array: "list_all2 same_document vs ws \<Longrightarrow> same_document (Array vs) (Array ws)"
| same_entries: "list_all2 (\<lambda>a b. fst a = fst b \<and> same_document (snd a) (snd b)) kvs lvs
    \<Longrightarrow> same_document (Object kvs) (Object lvs)"
| same_order: "distinct (map fst kvs) \<Longrightarrow> distinct (map fst lvs) \<Longrightarrow> set kvs = set lvs
    \<Longrightarrow> same_document (Object kvs) (Object lvs)"
| same_trans: "same_document u v \<Longrightarrow> same_document v w \<Longrightarrow> same_document u w"

lemma try_map_all2:
  "list_all2 (\<lambda>x y. f x = g y) xs ys \<Longrightarrow> try_map f xs = try_map g ys"
  by (induction xs ys rule: list_all2_induct) auto

lemma insort_all2:
  assumes "list_all2 (\<lambda>a b. fst a = fst b \<and> R (snd a) (snd b)) xs ys" "fst a = fst b" "R (snd a) (snd b)"
  shows "list_all2 (\<lambda>a b. fst a = fst b \<and> R (snd a) (snd b)) (insort_key fst a xs) (insort_key fst b ys)"
  using assms by (induction xs ys rule: list_all2_induct) auto

lemma sort_all2:
  "list_all2 (\<lambda>a b. fst a = fst b \<and> R (snd a) (snd b)) xs ys
   \<Longrightarrow> list_all2 (\<lambda>a b. fst a = fst b \<and> R (snd a) (snd b)) (sort_key fst xs) (sort_key fst ys)"
  by (induction xs ys rule: list_all2_induct) (auto intro: insort_all2)

lemma same_document_form: "same_document v w \<Longrightarrow> canonical_form rfc field_name v = canonical_form rfc field_name w"
proof (induction arbitrary: field_name rule: same_document.induct)
  case (same_array vs ws)
  then have "list_all2 (\<lambda>v w. canonical_form rfc None v = canonical_form rfc None w) vs ws"
    by (rule list_all2_mono) blast
  then show ?case by (simp add: try_map_all2)
next
  case (same_entries kvs lvs)
  then have "list_all2 (\<lambda>a b. fst a = fst b \<and> (\<forall>f. canonical_form rfc f (snd a) = canonical_form rfc f (snd b))) kvs lvs"
    by (rule list_all2_mono) blast
  from sort_all2 [OF this] have "list_all2 (\<lambda>a b. try_bind (canonical_form rfc (Some (fst a)) (snd a)) (\<lambda>v. Inr (fst a, v)) =
      try_bind (canonical_form rfc (Some (fst b)) (snd b)) (\<lambda>v. Inr (fst b, v))) (sort_key fst kvs) (sort_key fst lvs)"
    by (rule list_all2_mono) simp
  then show ?case by (simp add: try_map_all2)
next
  case (same_order kvs lvs)
  then show ?case by (simp add: entries_sorted_once [of kvs lvs])
qed simp_all

text \<open>
  C24. Canonical bytes identify documents. Given a string encoder that delimits its output, two values
  with canonical bytes have the same bytes exactly when they have the same canonical form (keys in
  order, declared times and paths normalised), and the order in which the entries of objects are
  given, at any depth, never matters; so an object id is the id of one document.
\<close>

theorem canonical_bytes_identify_documents:
  assumes "json_string_laws js"
    and "canonical_value_bytes js rfc v = Inr a" "canonical_value_bytes js rfc w = Inr b"
  shows "(a = b \<longleftrightarrow> canonical_form rfc None v = canonical_form rfc None w) \<and> (same_document v w \<longrightarrow> a = b)"
proof -
  obtain e where e: "js = (\<lambda>s. Some (e s))" and laws: "\<forall>s. \<exists>t. e s = CHR 0x22 # t"
    "\<forall>s t r r'. e s @ r = e t @ r' \<longrightarrow> s = t \<and> r = r'" using assms(1) unfolding json_string_laws_def by blast
  obtain n m where n: "canonical_form rfc None v = Inr n" "a = printed e n" and m: "canonical_form rfc None w = Inr m" "b = printed e m"
    using assms(2,3) by (auto simp: canonical_value_bytes_def e write_value_printed result_simps)
  have "n = m" if "printed e n = printed e m"
    using printed_once [OF laws, of n] that unfolding read_once_def by (metis append_Nil2 stops_def)
  then have iff: "a = b \<longleftrightarrow> canonical_form rfc None v = canonical_form rfc None w" using n m by auto
  moreover have "same_document v w \<longrightarrow> a = b" using same_document_form [of v w rfc None] iff by blast
  ultimately show ?thesis by blast
qed

text \<open>An encoder that escapes quotes and backslashes keeps the laws.\<close>

definition sample_encode :: "str \<Rightarrow> str" where
  "sample_encode s =
     CHR 0x22 # concat (map (\<lambda>c. if c = CHR 0x22 \<or> c = CHR 0x5C then [CHR 0x5C, c] else [c]) s) @ [CHR 0x22]"

lemma sample_encoder: "json_string_laws (\<lambda>s. Some (sample_encode s))"
proof -
  let ?body = "\<lambda>s. concat (map (\<lambda>c. if c = CHR 0x22 \<or> c = CHR 0x5C then [CHR 0x5C, c] else [c]) s) @ [CHR 0x22]"
  have "?body s @ r = ?body t @ r' \<Longrightarrow> s = t \<and> r = r'" for s t r r'
  proof (induction s arbitrary: t)
    case Nil
    then show ?case by (cases t) (auto split: if_splits)
  next
    case (Cons c s)
    then show ?case by (cases t) (auto split: if_splits)
  qed
  then have "sample_encode s @ r = sample_encode t @ r' \<longrightarrow> s = t \<and> r = r'" for s t r r'
    unfolding sample_encode_def append_Cons list.inject by blast
  moreover have "\<exists>t. sample_encode s = CHR 0x22 # t" for s unfolding sample_encode_def by blast
  ultimately show ?thesis unfolding json_string_laws_def by (intro exI [of _ sample_encode] conjI refl allI)
qed

theorem canonical_bytes_identify_documents_witness:
  "canonical_value_bytes (\<lambda>s. Some (sample_encode s)) Some (Object [(''b'', Null), (''a'', Number 1)])
     = canonical_value_bytes (\<lambda>s. Some (sample_encode s)) Some (Object [(''a'', Number 1), (''b'', Null)])"
proof -
  have ok: "canonical_value_bytes (\<lambda>s. Some (sample_encode s)) Some (Object [(''b'', Null), (''a'', Number 1)]) =
      Inr (''{'' @ sample_encode ''a'' @ '':'' @ write_number 1 @ '','' @ sample_encode ''b'' @ '':null'' @ ''}'')"
    "canonical_value_bytes (\<lambda>s. Some (sample_encode s)) Some (Object [(''a'', Number 1), (''b'', Null)]) =
      Inr (''{'' @ sample_encode ''a'' @ '':'' @ write_number 1 @ '','' @ sample_encode ''b'' @ '':null'' @ ''}'')"
    by (simp_all add: canonical_value_bytes_def write_json_string_def)
  have "same_document (Object [(''b'', Null), (''a'', Number 1)]) (Object [(''a'', Number 1), (''b'', Null)])"
    by (rule same_order) auto
  then show ?thesis using canonical_bytes_identify_documents [OF sample_encoder ok] ok by simp
qed

end
