(* ===== verification/Spec2Isabelle.thy ===== *)
theory Spec2Isabelle
  imports Redaction Errors Ids PathTokens PlanValidation Selection TopologicalOrder JournalSafety
    VerificationSafety ManualActions ExecutorSafety CompatibilityEngine PlanProperties
    ConfigMerge EnvironmentHandler Recommend DedupGraph TargetScan Canonical
begin

text \<open>
  A verification development of the Windows component harness: the program inventories a machine,
  packs selected components into a signed package and restores the package on another machine. The
  development models the part of it that decides what is restored and drives the restore: the
  crates \<^verbatim>\<open>reforge-domain\<close> and \<^verbatim>\<open>reforge-restore\<close>, the trust decisions and canonical JSON of
  \<^verbatim>\<open>reforge-package\<close> and the grouping and recommendation of \<^verbatim>\<open>reforge-discovery\<close>
  (all under \<^verbatim>\<open>src/crates\<close>).

  \<^bold>\<open>How the parts interact.\<close> Discovery observes components, groups the observations of one component
  (\<^verbatim>\<open>dedup.rs\<close>) and recommends what to take along (\<^verbatim>\<open>recommend.rs\<close>). A package holds
  a graph of components with artifacts, verification rules and dependencies. The user's selection is closed over required dependencies
  (\<^verbatim>\<open>selection.rs\<close>). The package is loaded with a trust state (\<^verbatim>\<open>signature.rs\<close>, \<^verbatim>\<open>reader.rs\<close>).
  The target's facts are compared with the package (\<^verbatim>\<open>diff.rs\<close>, \<^verbatim>\<open>conflicts.rs\<close>) and checked
  against its requirements (\<^verbatim>\<open>compatibility.rs\<close>). The planner (\<^verbatim>\<open>planner.rs\<close>, \<^verbatim>\<open>operations.rs\<close>)
  turns all this into a restore plan, which plan validation (\<^verbatim>\<open>model.rs\<close>) checks again. A run of the
  plan is recorded in the journal (\<^verbatim>\<open>journal.rs\<close>); the executor (\<^verbatim>\<open>executor.rs\<close>) runs the
  operations through handlers (\<^verbatim>\<open>handlers/\<close>), manual actions and the secret gate (\<^verbatim>\<open>manual_actions.rs\<close>) hand work
  to the user, and verification (\<^verbatim>\<open>verification.rs\<close>) reports from the journal's evidence. Errors and
  texts that leave the program are redacted (\<^verbatim>\<open>error.rs\<close>, \<^verbatim>\<open>redaction.rs\<close>).

  \<^bold>\<open>Theories.\<close> Each names the definitions after the Rust items they translate.
  \<^item> \<open>Prelude\<close>: results and aborts (an error, a panic, no fuel), the \<^verbatim>\<open>?\<close> operator and loops with early
    return, text helpers of the standard library. \<open>Collections\<close>: \<^verbatim>\<open>BTreeMap\<close> as an association
    list in key order, with the locale of finite maps it satisfies. \<open>Sorting\<close>: sorted lists without
    repetitions, which depend only on the set of their elements.
  \<^item> \<open>DomainModel\<close>: the records and enumerations of \<^verbatim>\<open>reforge-domain/src/model.rs\<close>.
  \<^item> \<open>Redaction\<close>, \<open>Errors\<close>, \<open>Ids\<close>, \<open>PathTokens\<close>, \<open>PlanValidation\<close>, \<open>Selection\<close>: the modules of
    \<^verbatim>\<open>reforge-domain\<close>. Shown: secrets under secret-bearing keys do not influence redacted JSON;
    error envelopes are bounded and redacted; ids are faithful; accepted paths stay below their root;
    plan validation decides the declarative \<open>plan_ok\<close>; the selection is the closure the policies allow.
  \<^item> \<open>Operations\<close>, \<open>TopologicalOrder\<close>: \<^verbatim>\<open>operations.rs\<close>. Shown: the order is a permutation that puts
    prerequisites first, exists exactly on acyclic prerequisites, and orders overlapping writes.
  \<^item> \<open>Journal\<close>, \<open>JournalSafety\<close>: \<^verbatim>\<open>journal.rs\<close> as state passing over the tables. Shown by induction
    over histories of writes and crashes: keys and references hold, nothing starts without approval,
    finished work is final, the log only grows, recovery interrupts exactly what ran.
  \<^item> \<open>Handlers\<close>, \<open>Executor\<close>, \<open>ExecutorSafety\<close>: \<^verbatim>\<open>executor.rs\<close>. Shown: handlers run only for ready
    operations of approved runs, refused executions have no effect, an execution is a journal history,
    and a completed run has nothing open.
  \<^item> \<open>ManualActions\<close>: \<^verbatim>\<open>manual_actions.rs\<close>. Shown: secrets go only to proven targets, and a manual
    action completes only after the acknowledgement is recorded.
  \<^item> \<open>Verification\<close>, \<open>VerificationSafety\<close>: \<^verbatim>\<open>verification.rs\<close>. Shown: verified means proven by the
    evidence of terminal operations; the proof search is exact.
  \<^item> \<open>Conflicts\<close>, \<open>CompatibilityEngine\<close>, \<open>Diff\<close>, \<open>DiffSafety\<close>: \<^verbatim>\<open>conflicts.rs\<close>,
    \<^verbatim>\<open>compatibility.rs\<close>, \<^verbatim>\<open>diff.rs\<close>. Shown: conflict defaults are safe and their ids normal; the
    status of a target is exact; blocks are exactly those reached over required dependencies; written
    artifacts are backed up; unknown target facts are preserved.
  \<^item> \<open>TargetScan\<close>: \<^verbatim>\<open>target.rs\<close>. Shown: the facts of a target are exact, do not depend on the order or
    repetition of what was reported, and the fingerprint ignores local facts.
  \<^item> \<open>Canonical\<close>: \<^verbatim>\<open>canonical.rs\<close> from a JSON value on. Shown: canonical bytes are the rendering of the
    canonical form and can be read in one way only, so equal bytes mean equal documents.
  \<^item> \<open>Trust\<close>: \<^verbatim>\<open>signature.rs\<close> and the trust part of \<^verbatim>\<open>reader.rs\<close>. Shown: planning needs an explicit
    approval; signatures round trip and cover their documents injectively.
  \<^item> \<open>Planner\<close>: \<^verbatim>\<open>planner.rs\<close>, function by function. \<open>PlannerSteps\<close> shows what each step adds to the
    plan under construction (\<open>grows\<close>, \<open>building_ok\<close>), \<open>PlannerSafety\<close> the graph index, the closure,
    the cycle check and the whole of \<open>plan_specs\<close>, \<open>PlanGuarantees\<close> carries this over to the ordered
    operations, \<open>PlanSample\<close> works out a plan and \<open>PlanProperties\<close> states the guarantees.
  \<^item> \<open>Artifacts\<close>: \<^verbatim>\<open>handlers/mod.rs\<close>, how handlers read objects and chunked files. Shown: what is read is
    exactly the artifact the package index names. \<open>ConfigMerge\<close>: \<^verbatim>\<open>handlers/config.rs\<close>. The locales
    \<open>config_tree\<close> and \<open>config_conflict\<close> state merging once for trees with entries and are interpreted
    for the JSON and TOML merges of the code. Shown: what a merge keeps, when it waits, idempotence.
    \<open>EnvironmentHandler\<close>: \<^verbatim>\<open>handlers/environment.rs\<close>. Shown over the contract of a backend (the locale
    \<open>environment_backend\<close>, kept by the in-memory backend of the code): completion means satisfied,
    nothing secret is written, the user PATH grows without losses or duplicates.
  \<^item> \<open>Recommend\<close>: \<^verbatim>\<open>recommend.rs\<close>. Shown: the recommended set is the least fixed point of promotion,
    holds nothing that needs a decision of the user, and scores are bounded and explained. \<open>Dedup\<close>: the
    grouping of \<^verbatim>\<open>dedup.rs\<close>. Shown: the groups are a partition that follows the identity facts.
    \<open>DiscoveryEvidence\<close>: \<^verbatim>\<open>evidence.rs\<close>. Shown: confidence is a function of the distinct records; ledgers
    hold redacted, bounded data. \<open>DedupGraph\<close>: the merges and the whole of \<^verbatim>\<open>dedup.rs\<close>. Shown: which
    inputs are accepted, that merging loses nothing and that edges follow the renaming exactly.

  \<^bold>\<open>Parameters.\<close> Code outside the repository is an argument of the definitions that use it, and
  what they rely on is a named hypothesis: BLAKE3 and the content hash of objects, the canonical
  digests of operation kinds and verification rules, the UUID parser, Ed25519 and the metadata codec
  (\<open>signature_env\<close>, \<open>ed25519_laws\<close>), the JSON serializer and parser, the clock and id source of the
  journal (\<open>journal_env\<close>), handlers (for the executor), the backup hook, cancellation, vault
  decryption and the secret adapter, the object source of a package and the canonical form of file
  manifests, the JSON and TOML parsers and printers, the encoding of JSON strings (\<open>json_string_laws\<close>)
  and of RFC 3339 times, the resolution of path tokens on the machine. Where a theory uses the
  canonical JSON of a Rust value, its conversion into a JSON value is part of the parameter.

  \<^bold>\<open>Modelling decisions.\<close> Strings are byte lists; \<^verbatim>\<open>to_lowercase\<close> folds ASCII letters only, and
  Debug output escapes ASCII only. JSON objects are ordered by key and numbers are integers. A report
  reads the clock once. A SQL table is a list of rows in insertion order with its constraints checked
  by the writes; a failed transaction leaves the tables unchanged. Machine integers are numbers with
  the checks and saturations of the code written out. Panics (\<^verbatim>\<open>expect\<close>, indexing, subtraction)
  are values, so that \<open>planning_never_panics\<close> and its like are theorems.

  \<^bold>\<open>Termination.\<close> Loops over work lists have measures (\<open>closing_size\<close> and \<open>cycle_size\<close> for the
  planner). The depth-first search of plan validation and the closure of the verification proof have
  fuel; the number of operations plus one is shown to be enough for every plan. The search for the
  root of an observation (\<open>root\<close>) is a partial function, shown to return in every state of the
  union-find structure that grouping reaches. The promotion loop of recommendation has a measure.

  \<^bold>\<open>Not modelled.\<close> The other operation handlers, the file access of the configuration handler, the
  registry backend of the environment handler, the platform layer and the scanners of discovery act on
  the machine through processes, files, the registry and the network. The serializer that turns Rust
  values into JSON values is left out of canonical JSON. The archive, compression, encryption and
  schema code is glue around libraries; the front ends present results. Of the journal, connection
  set-up, migration and threads are left out; of the vault, only the record types are modelled; of
  the domain records, those of snapshots, progress and transport are left out.
\<close>

end
